(* ===== verification/Prelude.thy ===== *)
theory Prelude
  imports Main "HOL-Library.Word" "HOL-Library.Multiset" "HOL-Library.Sublist"
begin

text \<open>
  Shared vocabulary of the development: the part of the Go language and its standard library that
  the components use (64-bit integers, the \<open>strings\<close> and \<open>strconv\<close> packages, slices), the
  lemma collections, and generic list facts.

  Strings are Isabelle's \<open>string\<close>, a list of bytes, as Go's are. \<open>TrimSpace\<close>, \<open>Fields\<close>,
  \<open>ToLower\<close> and \<open>EqualFold\<close> are given on ASCII text: bytes from 128 upwards are neither white
  space nor letters.
\<close>

named_theorems go_str "unfolding rules for the string helpers"
named_theorems store_simps "how the operations act on the configuration store"
named_theorems inv_intros "preservation of component invariants"

section \<open>Integers and time\<close>

text \<open>Go's \<open>int\<close> and \<open>int64\<close>: mathematical integers with the wrap-around written out.\<close>

type_synonym goint = int
type_synonym error = string

text \<open>\<open>time.Time\<close> and \<open>time.Duration\<close> in nanoseconds; the zero \<open>time.Time\<close> is 0.\<close>

type_synonym gotime = int
type_synonym duration = int

definition max_int64 :: int where "max_int64 = 9223372036854775807"
definition min_int64 :: int where "min_int64 = - 9223372036854775808"

definition in_int64 :: "int \<Rightarrow> bool" where
  "in_int64 n \<longleftrightarrow> min_int64 \<le> n \<and> n \<le> max_int64"

definition wrap64 :: "int \<Rightarrow> int" where
  "wrap64 n = (n + 9223372036854775808) mod 18446744073709551616 - 9223372036854775808"

lemma wrap64_id [simp]: "in_int64 n \<Longrightarrow> wrap64 n = n"
  by (simp add: wrap64_def in_int64_def min_int64_def max_int64_def)

lemma in_int64_wrap64 [simp]: "in_int64 (wrap64 n)"
proof -
  have "0 \<le> (n + 9223372036854775808) mod 18446744073709551616"
    and "(n + 9223372036854775808) mod 18446744073709551616 < 18446744073709551616" by simp_all
  then show ?thesis by (simp add: wrap64_def in_int64_def min_int64_def max_int64_def)
qed

definition nanos :: "int \<Rightarrow> duration" where "nanos s = s * 1000000000"

definition minute_ns :: duration where "minute_ns = 60000000000"

section \<open>The strings package\<close>

definition is_space :: "char \<Rightarrow> bool" where
  "is_space c \<longleftrightarrow> c \<in> {CHR 0x09, CHR 0x0A, CHR 0x0B, CHR 0x0C, CHR 0x0D, CHR '' ''}"

definition TrimLeft :: "string \<Rightarrow> string" where
  "TrimLeft s = dropWhile is_space s"

definition TrimSpace :: "string \<Rightarrow> string" where
  "TrimSpace s = rev (dropWhile is_space (rev (dropWhile is_space s)))"

definition HasPrefix :: "string \<Rightarrow> string \<Rightarrow> bool" where
  "HasPrefix s p \<longleftrightarrow> take (length p) s = p"

definition HasSuffix :: "string \<Rightarrow> string \<Rightarrow> bool" where
  "HasSuffix s p \<longleftrightarrow> length p \<le> length s \<and> drop (length s - length p) s = p"

definition TrimPrefix :: "string \<Rightarrow> string \<Rightarrow> string" where
  "TrimPrefix s p = (if HasPrefix s p then drop (length p) s else s)"

definition TrimSuffix :: "string \<Rightarrow> string \<Rightarrow> string" where
  "TrimSuffix s p = (if HasSuffix s p then take (length s - length p) s else s)"

text \<open>\<open>strings.Index\<close> with \<open>None\<close> for -1.\<close>

fun Index :: "string \<Rightarrow> string \<Rightarrow> nat option" where
  "Index [] p = (if p = [] then Some 0 else None)"
| "Index (c # s) p = (if HasPrefix (c # s) p then Some 0 else map_option Suc (Index s p))"

definition Contains :: "string \<Rightarrow> string \<Rightarrow> bool" where
  "Contains s p \<longleftrightarrow> Index s p \<noteq> None"

text \<open>\<open>strings.LastIndex\<close> of a single byte.\<close>

fun LastIndexByte :: "string \<Rightarrow> char \<Rightarrow> nat option" where
  "LastIndexByte [] c = None"
| "LastIndexByte (x # s) c = (case LastIndexByte s c of
       Some i \<Rightarrow> Some (Suc i) | None \<Rightarrow> if x = c then Some 0 else None)"

text \<open>\<open>strings.Split\<close> by a one-byte separator: one piece more than separators.\<close>

fun Split :: "string \<Rightarrow> char \<Rightarrow> string list" where
  "Split [] c = [[]]"
| "Split (x # s) c =
     (if x = c then [] # Split s c
      else (case Split s c of [] \<Rightarrow> [[x]] | p # ps \<Rightarrow> (x # p) # ps))"

text \<open>\<open>strings.SplitN(s, sep, 2)\<close>.\<close>

definition SplitN2 :: "string \<Rightarrow> char \<Rightarrow> string list" where
  "SplitN2 s c = (if c \<in> set s
     then [takeWhile (\<lambda>x. x \<noteq> c) s, tl (dropWhile (\<lambda>x. x \<noteq> c) s)] else [s])"

text \<open>\<open>strings.Fields\<close>: the maximal runs of non-space bytes.\<close>

fun Fields_acc :: "string \<Rightarrow> string \<Rightarrow> string list" where
  "Fields_acc [] w = (if w = [] then [] else [rev w])"
| "Fields_acc (c # s) w =
     (if is_space c then (if w = [] then Fields_acc s [] else rev w # Fields_acc s [])
      else Fields_acc s (c # w))"

definition Fields :: "string \<Rightarrow> string list" where
  "Fields s = Fields_acc s []"

fun Join :: "string list \<Rightarrow> string \<Rightarrow> string" where
  "Join [] sep = []"
| "Join [x] sep = x"
| "Join (x # y # ys) sep = x @ sep @ Join (y # ys) sep"

definition lower_char :: "char \<Rightarrow> char" where
  "lower_char c = (if 65 \<le> (of_char c :: nat) \<and> (of_char c :: nat) \<le> 90
     then char_of ((of_char c :: nat) + 32) else c)"

definition ToLower :: "string \<Rightarrow> string" where
  "ToLower s = map lower_char s"

definition EqualFold :: "string \<Rightarrow> string \<Rightarrow> bool" where
  "EqualFold a b \<longleftrightarrow> ToLower a = ToLower b"

text \<open>A \<open>strings.NewReplacer\<close> whose patterns and replacements are single bytes.\<close>

definition ReplaceBytes :: "(char \<times> char) list \<Rightarrow> string \<Rightarrow> string" where
  "ReplaceBytes tab s = map (\<lambda>c. case map_of tab c of Some d \<Rightarrow> d | None \<Rightarrow> c) s"

lemma HasPrefix_iff: "HasPrefix s p \<longleftrightarrow> (\<exists>t. s = p @ t)"
  unfolding HasPrefix_def by (metis append_eq_conv_conj append_take_drop_id)

lemma HasPrefix_append [simp]: "HasPrefix (p @ t) p"
  by (simp add: HasPrefix_def)

lemma HasPrefix_trans: "HasPrefix s p \<Longrightarrow> HasPrefix p q \<Longrightarrow> HasPrefix s q"
  by (auto simp: HasPrefix_iff)

lemma EqualFold_refl [simp]: "EqualFold a a"
  and EqualFold_sym: "EqualFold a b \<Longrightarrow> EqualFold b a"
  and EqualFold_trans: "EqualFold a b \<Longrightarrow> EqualFold b c \<Longrightarrow> EqualFold a c"
  by (simp_all add: EqualFold_def)

lemma Split_not_Nil [simp]: "Split s c \<noteq> []"
  by (cases s) (auto split: list.splits)

lemma Split_no_sep: "p \<in> set (Split s c) \<Longrightarrow> c \<notin> set p"
proof (induction s arbitrary: p)
  case Nil
  then show ?case by simp
next
  case (Cons x s)
  show ?case
  proof (cases "x = c")
    case True
    with Cons show ?thesis by auto
  next
    case False
    obtain q qs where q: "Split s c = q # qs" by (meson Split_not_Nil neq_Nil_conv)
    with False Cons.prems have "p = x # q \<or> p \<in> set qs" by simp
    with q False Cons.IH show ?thesis by auto
  qed
qed

lemma Join_Cons: "ys \<noteq> [] \<Longrightarrow> Join (x # ys) sep = x @ sep @ Join ys sep"
  by (cases ys) auto

lemma Split_append_sep: "c \<notin> set p \<Longrightarrow> Split (p @ c # s) c = p # Split s c"
  by (induction p) auto

lemma Split_single: "c \<notin> set p \<Longrightarrow> Split p c = [p]"
  by (induction p) auto

text \<open>Splitting undoes joining, for pieces free of the separator.\<close>

lemma Split_Join:
  assumes "ps \<noteq> []" and "\<And>p. p \<in> set ps \<Longrightarrow> c \<notin> set p"
  shows "Split (Join ps [c]) c = ps"
  using assms
proof (induction ps rule: list_nonempty_induct)
  case (single p)
  then show ?case by (simp add: Split_single)
next
  case (cons p ps)
  then have "Split (Join ps [c]) c = ps" by simp
  with cons.hyps cons.prems show ?case by (simp add: Join_Cons Split_append_sep)
qed

lemma Join_Split: "Join (Split s c) [c] = s"
proof (induction s)
  case Nil
  then show ?case by simp
next
  case (Cons x s)
  obtain q qs where "Split s c = q # qs" by (meson Split_not_Nil neq_Nil_conv)
  with Cons show ?case by (cases qs) (auto simp: Join_Cons)
qed

text \<open>Searching a single byte, and trimming text without spaces.\<close>

lemma Index_none: "c \<notin> set s \<Longrightarrow> Index s [c] = None"
  by (induction s) (auto simp: HasPrefix_iff)

lemma Index_first: "c \<notin> set p \<Longrightarrow> Index (p @ c # s) [c] = Some (length p)"
  by (induction p) (auto simp: HasPrefix_iff)

lemma Index_None_iff: "Index s [c] = None \<longleftrightarrow> c \<notin> set s"
  using Index_first Index_none by (metis option.distinct(1) split_list_first)

lemma Contains_iff: "Contains s [c] \<longleftrightarrow> c \<in> set s"
  by (simp add: Contains_def Index_None_iff)

lemma Index_HasPrefix: "HasPrefix s p \<Longrightarrow> Index s p \<noteq> None"
  by (cases s) (auto simp: HasPrefix_iff)

lemma Contains_mid: "Contains (a @ p @ b) p"
  unfolding Contains_def by (induction a) (auto simp: Index_HasPrefix)

lemma Split_part: "c \<in> set (Split s x) \<Longrightarrow> \<exists>a b. s = a @ c @ b"
proof (induction s arbitrary: c)
  case Nil
  then show ?case by simp
next
  case (Cons y s)
  obtain p ps where ps: "Split s x = p # ps" by (cases "Split s x") auto
  consider "c = []" | "c \<in> set (Split s x)" | "c = y # p" "y \<noteq> x"
    using Cons.prems ps by (auto split: if_splits)
  then show ?case
  proof cases
    case 2
    then obtain a b where "s = a @ c @ b" using Cons.IH by blast
    then have "y # s = (y # a) @ c @ b" by simp
    then show ?thesis by blast
  next
    case 3
    have "s = Join (p # ps) [x]" using Join_Split [of s x] ps by simp
    then obtain b where "s = p @ b" by (cases ps) auto
    with 3 have "y # s = [] @ c @ b" by simp
    then show ?thesis by blast
  qed (auto intro: exI [of _ "[]"])
qed

lemma TrimSpace_no_space: "\<forall>c \<in> set s. \<not> is_space c \<Longrightarrow> TrimSpace s = s"
proof -
  assume "\<forall>c \<in> set s. \<not> is_space c"
  then have "dropWhile is_space s = s" "dropWhile is_space (rev s) = rev s"
    by (auto simp: dropWhile_eq_self_iff hd_rev)
  then show ?thesis by (simp add: TrimSpace_def TrimLeft_def)
qed

lemma Fields_acc_word:
  "\<forall>c \<in> set u. \<not> is_space c \<Longrightarrow> Fields_acc (u @ s) w = Fields_acc s (rev u @ w)"
  by (induction u arbitrary: w) auto

text \<open>Words joined by one space are the fields of the text.\<close>

lemma Fields_Join:
  assumes "\<forall>w \<in> set ws. w \<noteq> [] \<and> (\<forall>c \<in> set w. \<not> is_space c)"
  shows "Fields (Join ws '' '') = ws"
  using assms
proof (induction ws)
  case Nil
  then show ?case by (simp add: Fields_def)
next
  case (Cons w ws)
  have sp: "is_space (CHR '' '')" by (simp add: is_space_def)
  show ?case
  proof (cases ws)
    case Nil
    with Cons.prems Fields_acc_word [of w "[]" "[]"] show ?thesis by (simp add: Fields_def)
  next
    case more: (Cons v vs)
    have "Fields_acc (w @ CHR '' '' # Join ws '' '') [] = w # Fields_acc (Join ws '' '') []"
      using Cons.prems Fields_acc_word [of w "CHR '' '' # Join ws '' ''" "[]"] sp by simp
    with more Cons.IH Cons.prems show ?thesis by (simp add: Fields_def)
  qed
qed

lemma SplitN2_first: "c \<notin> set p \<Longrightarrow> SplitN2 (p @ c # s) c = [p, s]"
  by (induction p) (auto simp: SplitN2_def)

section \<open>The strconv package and the verb d of fmt\<close>

definition digit_char :: "nat \<Rightarrow> char" where
  "digit_char d = ''0123456789'' ! d"

definition is_digit :: "char \<Rightarrow> bool" where
  "is_digit c \<longleftrightarrow> 48 \<le> (of_char c :: nat) \<and> (of_char c :: nat) \<le> 57"

definition digit_val :: "char \<Rightarrow> nat" where
  "digit_val c = of_char c - 48"

fun nat_digits :: "nat \<Rightarrow> string" where
  "nat_digits n = (if n < 10 then [digit_char n] else nat_digits (n div 10) @ [digit_char (n mod 10)])"

declare nat_digits.simps [simp del]

definition Itoa :: "int \<Rightarrow> string" where
  "Itoa n = (if n < 0 then CHR ''-'' # nat_digits (nat (- n)) else nat_digits (nat n))"

definition digits_val :: "string \<Rightarrow> nat" where
  "digits_val s = foldl (\<lambda>a c. 10 * a + digit_val c) 0 s"

text \<open>\<open>strconv.Atoi\<close>: an optional sign, then digits, and the value fits 64 bits.\<close>

definition Atoi :: "string \<Rightarrow> int option" where
  "Atoi s =
     (let neg = (s \<noteq> [] \<and> hd s = CHR ''-'');
          body = (if s \<noteq> [] \<and> (hd s = CHR ''-'' \<or> hd s = CHR ''+'') then tl s else s);
          v = (if neg then - int (digits_val body) else int (digits_val body))
      in if body = [] \<or> \<not> list_all is_digit body \<or> \<not> in_int64 v then None else Some v)"

lemma of_char_digit_char [simp]: "d < 10 \<Longrightarrow> of_char (digit_char d) = 48 + d"
proof -
  assume "d < 10"
  then have "d \<in> set [0..<10]" by simp
  moreover have "\<forall>d \<in> set [0..<10]. of_char (digit_char d) = 48 + d" by code_simp
  ultimately show ?thesis by blast
qed

lemma is_digit_digit_char [simp]: "d < 10 \<Longrightarrow> is_digit (digit_char d)"
  by (simp add: is_digit_def)

lemma digit_val_digit_char [simp]: "d < 10 \<Longrightarrow> digit_val (digit_char d) = d"
  by (simp add: digit_val_def)

lemma digits_val_snoc [simp]: "digits_val (s @ [c]) = 10 * digits_val s + digit_val c"
  by (simp add: digits_val_def)

lemma nat_digits_props:
  "nat_digits n \<noteq> [] \<and> list_all is_digit (nat_digits n) \<and> digits_val (nat_digits n) = n"
proof (induction n rule: nat_digits.induct)
  case (1 n)
  show ?case
  proof (cases "n < 10")
    case True
    then show ?thesis by (simp add: nat_digits.simps [of n] digits_val_def)
  next
    case False
    with 1 show ?thesis by (simp add: nat_digits.simps [of n])
  qed
qed

lemmas nat_digits_not_Nil [simp] = nat_digits_props [THEN conjunct1]
lemmas nat_digits_digits [simp] = nat_digits_props [THEN conjunct2, THEN conjunct1]
lemmas digits_val_nat_digits [simp] = nat_digits_props [THEN conjunct2, THEN conjunct2]

lemma nat_digits_is_digit: "c \<in> set (nat_digits n) \<Longrightarrow> is_digit c"
  using nat_digits_digits [of n] by (simp add: list_all_iff)

lemma is_digit_not_sign: "is_digit c \<Longrightarrow> c \<noteq> CHR ''-'' \<and> c \<noteq> CHR ''+''"
  by (auto simp: is_digit_def)

lemma hd_nat_digits: "hd (nat_digits n) \<noteq> CHR ''-''" "hd (nat_digits n) \<noteq> CHR ''+''"
  using nat_digits_is_digit [of "hd (nat_digits n)" n] by (auto dest: is_digit_not_sign)

lemmas eval_digits = Itoa_def nat_digits.simps digit_char_def

text \<open>Printing and parsing an integer are inverse.\<close>

lemma Atoi_Itoa: "in_int64 n \<Longrightarrow> Atoi (Itoa n) = Some n"
  using hd_nat_digits [of "nat n"]
  by (cases "n < 0") (auto simp: Atoi_def Itoa_def Let_def)

lemma Itoa_inj: "Itoa m = Itoa n \<Longrightarrow> m = n"
proof -
  have ninj: "nat_digits a = nat_digits b \<Longrightarrow> a = b" for a b
    by (metis digits_val_nat_digits)
  have nm: "CHR ''-'' # s \<noteq> nat_digits k" for s k
    using hd_nat_digits(1) [of k] by (metis list.sel(1))
  assume "Itoa m = Itoa n"
  then show "m = n"
    using nm nm [symmetric] by (auto simp: Itoa_def dest!: ninj split: if_splits)
qed

lemma Itoa_chars: "c \<in> set (Itoa n) \<Longrightarrow> is_digit c \<or> c = CHR ''-''"
  by (auto simp: Itoa_def dest: nat_digits_is_digit split: if_splits)

lemma Atoi_in_int64: "Atoi s = Some n \<Longrightarrow> in_int64 n"
  unfolding Atoi_def Let_def by (auto split: if_splits)

text \<open>
  The value part of \<open>strconv.ParseInt(s, 10, 64)\<close>: 0 for text that is no number, the nearest 64-bit
  integer for a number that does not fit.
\<close>

definition ParseInt_value :: "string \<Rightarrow> int" where
  "ParseInt_value s =
     (let neg = (s \<noteq> [] \<and> hd s = CHR ''-'');
          body = (if s \<noteq> [] \<and> (hd s = CHR ''-'' \<or> hd s = CHR ''+'') then tl s else s);
          v = (if neg then - int (digits_val body) else int (digits_val body))
      in if body = [] \<or> \<not> list_all is_digit body then 0
         else if v > max_int64 then max_int64 else if v < min_int64 then min_int64 else v)"

lemma ParseInt_value_Atoi: "Atoi s = Some v \<Longrightarrow> ParseInt_value s = v"
  by (auto simp: Atoi_def ParseInt_value_def Let_def in_int64_def split: if_splits)

section \<open>Slices\<close>

text \<open>\<open>append(xs[:i], xs[i+1:]...)\<close>, for an index the caller has checked.\<close>

definition remove_nth :: "nat \<Rightarrow> 'a list \<Rightarrow> 'a list" where
  "remove_nth i xs = take i xs @ drop (Suc i) xs"

lemma length_remove_nth [simp]: "i < length xs \<Longrightarrow> length (remove_nth i xs) = length xs - 1"
  by (simp add: remove_nth_def)

lemma set_remove_nth: "set (remove_nth i xs) \<subseteq> set xs"
  unfolding remove_nth_def by (auto dest: in_set_takeD in_set_dropD)

lemma mset_remove_nth: "i < length xs \<Longrightarrow> mset xs = add_mset (xs ! i) (mset (remove_nth i xs))"
proof -
  assume "i < length xs"
  then have "xs = take i xs @ xs ! i # drop (Suc i) xs" by (simp add: id_take_nth_drop)
  then have "mset xs = mset (take i xs @ xs ! i # drop (Suc i) xs)" by simp
  then show ?thesis by (simp add: remove_nth_def)
qed

lemma remove_nth_map: "map f (remove_nth i xs) = remove_nth i (map f xs)"
  by (simp add: remove_nth_def take_map drop_map)

lemma distinct_remove_nth: "distinct xs \<Longrightarrow> distinct (remove_nth i xs)"
proof -
  assume d: "distinct xs"
  have "xs = take i xs @ drop i xs" by simp
  with d have "distinct (take i xs)" "set (take i xs) \<inter> set (drop i xs) = {}"
    by (metis distinct_append)+
  moreover have "set (drop (Suc i) xs) \<subseteq> set (drop i xs)"
    by (rule set_drop_subset_set_drop) simp
  ultimately show ?thesis
    using d by (auto simp: remove_nth_def)
qed

text \<open>The index of the first element with a property.\<close>

fun find_index :: "('a \<Rightarrow> bool) \<Rightarrow> 'a list \<Rightarrow> nat option" where
  "find_index P [] = None"
| "find_index P (x # xs) = (if P x then Some 0 else map_option Suc (find_index P xs))"

lemma find_index_Some:
  "find_index P xs = Some i \<Longrightarrow>
     i < length xs \<and> P (xs ! i) \<and> (\<forall>j < i. \<not> P (xs ! j))"
proof (induction xs arbitrary: i)
  case Nil
  then show ?case by simp
next
  case (Cons x xs)
  show ?case
  proof (cases "P x")
    case True
    with Cons.prems show ?thesis by simp
  next
    case False
    with Cons.prems obtain k where "find_index P xs = Some k" and "i = Suc k" by auto
    with Cons.IH False show ?thesis by (auto simp: nth_Cons split: nat.splits)
  qed
qed

lemma find_index_None: "find_index P xs = None \<longleftrightarrow> (\<forall>x \<in> set xs. \<not> P x)"
  by (induction xs) auto

text \<open>The bounds check \<open>index < 0 || index >= len(xs)\<close>.\<close>

definition bad_index :: "goint \<Rightarrow> 'a list \<Rightarrow> bool" where
  "bad_index i xs \<longleftrightarrow> i < 0 \<or> i \<ge> int (length xs)"

lemma good_index: "\<not> bad_index i xs \<Longrightarrow> nat i < length xs"
  by (auto simp: bad_index_def)

section \<open>Automatic priorities\<close>

text \<open>
  The loop that finds the largest priority, starting from 0, and the default it gives a new entry
  whose own priority is 0.
\<close>

definition max_priority :: "('r \<Rightarrow> goint) \<Rightarrow> 'r list \<Rightarrow> goint" where
  "max_priority prio rs = foldl (\<lambda>m r. if prio r > m then prio r else m) 0 rs"

definition assign_priority ::
    "('r \<Rightarrow> goint) \<Rightarrow> (goint \<Rightarrow> 'r \<Rightarrow> 'r) \<Rightarrow> 'r \<Rightarrow> 'r list \<Rightarrow> 'r" where
  "assign_priority prio with_prio r rs =
     (if prio r = 0 then with_prio (wrap64 (max_priority prio rs + 10)) r else r)"

lemma max_priority_fold:
  "foldl (\<lambda>m r. if prio r > m then prio r else m) a rs =
     (if rs = [] then a else max a (Max (prio ` set rs)))"
proof (induction rs arbitrary: a)
  case Nil
  then show ?case by simp
next
  case (Cons r rs)
  then show ?case by (cases "rs = []") (auto simp: max_def)
qed

lemma max_priority_ge: "r \<in> set rs \<Longrightarrow> prio r \<le> max_priority prio rs"
  and max_priority_nonneg: "0 \<le> max_priority prio rs"
  by (auto simp: max_priority_def max_priority_fold intro!: max.coboundedI2)

locale auto_priority =
  fixes prio :: "'r \<Rightarrow> goint" and with_prio :: "goint \<Rightarrow> 'r \<Rightarrow> 'r"
  assumes prio_with_prio: "prio (with_prio n r) = n"
begin

text \<open>Below the overflow bound, a defaulted priority places the entry after all others.\<close>

lemma assigned_last:
  assumes "prio r = 0" and "max_priority prio rs \<le> max_int64 - 10" and "q \<in> set rs"
  shows "prio q < prio (assign_priority prio with_prio r rs)"
proof -
  have "in_int64 (max_priority prio rs + 10)"
    using assms(2) max_priority_nonneg [of prio rs]
    by (simp add: in_int64_def max_int64_def min_int64_def)
  with assms max_priority_ge [of q rs prio] show ?thesis
    by (simp add: assign_priority_def prio_with_prio)
qed

lemma assigned_explicit: "prio r \<noteq> 0 \<Longrightarrow> assign_priority prio with_prio r rs = r"
  by (simp add: assign_priority_def)

end

section \<open>Sorting\<close>

text \<open>
  The contract of \<open>sort.Slice\<close>, which is not stable: the result is some rearrangement of the slice in
  which no later element must come before an earlier one.
\<close>

definition sorts_by :: "('a \<Rightarrow> 'a \<Rightarrow> bool) \<Rightarrow> ('a list \<Rightarrow> 'a list) \<Rightarrow> bool" where
  "sorts_by before srt \<longleftrightarrow>
     (\<forall>xs. mset (srt xs) = mset xs \<and> sorted_wrt (\<lambda>x y. \<not> before y x) (srt xs))"

lemma sorts_by_split:
  assumes "sorts_by before srt" and "x \<in> set (take n (srt xs))" and "y \<in> set (drop n (srt xs))"
  shows "\<not> before y x"
proof -
  have "sorted_wrt (\<lambda>x y. \<not> before y x) (take n (srt xs) @ drop n (srt xs))"
    using assms(1) by (simp add: sorts_by_def)
  with assms(2,3) show ?thesis unfolding sorted_wrt_append by blast
qed

lemma sort_key_sorts_by: "sorts_by (\<lambda>x y. key x < key y) (sort_key key)"
proof -
  have "sorted_wrt (\<lambda>x y. \<not> key y < key x) (sort_key key xs)" for xs
    using sorted_sort_key [of key xs] by (simp add: sorted_map not_less)
  then show ?thesis by (simp add: sorts_by_def)
qed

section \<open>Calls that may panic\<close>

text \<open>
  The outcome of a Go function with an error result, where the panics of the run-time system
  (a negative shift, an index out of range) can happen too.
\<close>

datatype 'a outcome = Returned 'a | Failed error | Panicked

fun bind_outcome :: "'a outcome \<Rightarrow> ('a \<Rightarrow> 'b outcome) \<Rightarrow> 'b outcome" where
  "bind_outcome (Returned a) f = f a"
| "bind_outcome (Failed e) f = Failed e"
| "bind_outcome Panicked f = Panicked"

text \<open>\<open>fmt.Errorf\<close> with a prefix and the wrapped error.\<close>

fun wrap_error :: "string \<Rightarrow> 'a outcome \<Rightarrow> 'a outcome" where
  "wrap_error p (Failed e) = Failed (p @ '': '' @ e)"
| "wrap_error p r = r"

lemma wrap_error_Returned [simp]: "wrap_error p r = Returned a \<longleftrightarrow> r = Returned a"
  by (cases r) simp_all

lemma bind_outcome_Returned:
  "bind_outcome r f = Returned b \<longleftrightarrow> (\<exists>a. r = Returned a \<and> f a = Returned b)"
  by (cases r) simp_all

text \<open>The verb q of fmt, for text without characters that need escaping.\<close>

definition quote_q :: "string \<Rightarrow> string" where
  "quote_q s = CHR 0x22 # s @ [CHR 0x22]"

section \<open>Bounded logs\<close>

text \<open>
  Several services keep the most recent \<open>cap\<close> entries of a stream. The contract: from a log within
  its bound, adding an entry keeps the newest \<open>cap\<close> of the old entries and the new one.
\<close>

locale bounded_log =
  fixes push :: "'a \<Rightarrow> 'a list \<Rightarrow> 'a list" and cap :: nat
  assumes cap_pos: "0 < cap"
    and push_law: "length xs \<le> cap \<Longrightarrow> push x xs = drop (Suc (length xs) - cap) (xs @ [x])"
begin

lemma push_bounded: "length xs \<le> cap \<Longrightarrow> length (push x xs) \<le> cap"
  by (simp add: push_law)

lemma push_newest: "length xs \<le> cap \<Longrightarrow> push x xs \<noteq> [] \<and> last (push x xs) = x"
  using cap_pos by (simp add: push_law)

text \<open>The log of a stream is the stream's newest \<open>cap\<close> entries in their order.\<close>

lemma log_of_stream: "foldl (\<lambda>l x. push x l) [] xs = drop (length xs - cap) xs"
proof (induction xs rule: rev_induct)
  case Nil
  then show ?case by simp
next
  case (snoc x xs)
  let ?l = "drop (length xs - cap) xs"
  have "push x ?l = drop (Suc (length ?l) - cap) (?l @ [x])" by (rule push_law) simp
  also have "\<dots> = drop (length (xs @ [x]) - cap) (xs @ [x])"
    using cap_pos by (cases "length xs \<le> cap") (simp_all add: Suc_diff_le)
  finally show ?case using snoc by simp
qed

end

end
