(* ===== verification/RateLimit.thy ===== *)
theory RateLimit
  imports Complex_Main Prelude "HOL-Library.Signed_Division"
begin

text \<open>
  The token-bucket rate limiter of \<open>web/middleware.go\<close>. Tokens are \<open>float64\<close> in the source: here they
  are rationals, and every operation rounds through a parameter, so that the bounds hold for the
  arithmetic of the machine. The compiler may fuse the multiplication and the addition of the refill,
  as the language allows; the parameter says whether it does.
\<close>

section \<open>Floating-point arithmetic\<close>

record float_ops =
  f_round :: "rat \<Rightarrow> rat"
  f_fused :: bool

text \<open>\<open>Duration.Seconds\<close>.\<close>

definition Seconds :: "float_ops \<Rightarrow> duration \<Rightarrow> rat" where
  "Seconds F d =
     f_round F (f_round F (of_int (d sdiv 1000000000)) +
                f_round F (f_round F (of_int (d smod 1000000000)) / 1000000000))"

text \<open>\<open>t + e * r\<close>.\<close>

definition f_madd :: "float_ops \<Rightarrow> rat \<Rightarrow> rat \<Rightarrow> rat \<Rightarrow> rat" where
  "f_madd F t e r = (if f_fused F then f_round F (t + e * r) else f_round F (t + f_round F (e * r)))"

section \<open>The limiter\<close>

record tokenBucket =
  tokens :: rat
  lastCheck :: gotime

record RateLimiter =
  rlClients :: "string \<rightharpoonup> tokenBucket"
  rlRate :: goint
  rlBurst :: goint

definition NewRateLimiter :: "goint \<Rightarrow> goint \<Rightarrow> RateLimiter" where
  "NewRateLimiter r b = \<lparr>rlClients = Map.empty, rlRate = r, rlBurst = b\<rparr>"

text \<open>One tick of the sweeper, every five minutes.\<close>

definition cleanup :: "gotime \<Rightarrow> RateLimiter \<Rightarrow> RateLimiter" where
  "cleanup now rl = rl\<lparr>rlClients := (\<lambda>ip. case rlClients rl ip of
       None \<Rightarrow> None
     | Some b \<Rightarrow> if now - lastCheck b > 5 * minute_ns then None else Some b)\<rparr>"

text \<open>The refill of a known client's bucket.\<close>

definition refill :: "float_ops \<Rightarrow> RateLimiter \<Rightarrow> gotime \<Rightarrow> tokenBucket \<Rightarrow> rat" where
  "refill F rl now b =
     (let t = f_madd F (tokens b) (Seconds F (now - lastCheck b)) (f_round F (of_int (rlRate rl)))
      in if t > f_round F (of_int (rlBurst rl)) then f_round F (of_int (rlBurst rl)) else t)"

definition Allow :: "float_ops \<Rightarrow> gotime \<Rightarrow> string \<Rightarrow> RateLimiter \<Rightarrow> bool \<times> RateLimiter" where
  "Allow F now ip rl =
     (case rlClients rl ip of
        None \<Rightarrow>
          (True, rl\<lparr>rlClients := (rlClients rl)(ip \<mapsto>
             \<lparr>tokens = f_round F (f_round F (of_int (rlBurst rl)) - 1), lastCheck = now\<rparr>)\<rparr>)
      | Some b \<Rightarrow>
          (let t = refill F rl now b in
           if t < 1 then (False, rl\<lparr>rlClients := (rlClients rl)(ip \<mapsto> \<lparr>tokens = t, lastCheck = now\<rparr>)\<rparr>)
           else (True, rl\<lparr>rlClients := (rlClients rl)(ip \<mapsto> \<lparr>tokens = f_round F (t - 1), lastCheck = now\<rparr>)\<rparr>)))"

text \<open>A run of the limiter: requests of clients and ticks of the sweeper, in the order of the mutex.\<close>

datatype event = Request gotime string | Sweep gotime

fun event_time :: "event \<Rightarrow> gotime" where
  "event_time (Request t ip) = t"
| "event_time (Sweep t) = t"

fun limiter_step :: "float_ops \<Rightarrow> event \<Rightarrow> RateLimiter \<Rightarrow> bool \<times> RateLimiter" where
  "limiter_step F (Request t ip) rl = Allow F t ip rl"
| "limiter_step F (Sweep t) rl = (False, cleanup t rl)"

fun from_client :: "string \<Rightarrow> event \<Rightarrow> bool" where
  "from_client ip (Request t c) \<longleftrightarrow> c = ip"
| "from_client ip (Sweep t) \<longleftrightarrow> False"

primrec admitted :: "float_ops \<Rightarrow> string \<Rightarrow> RateLimiter \<Rightarrow> event list \<Rightarrow> nat" where
  "admitted F ip rl [] = 0"
| "admitted F ip rl (e # es) =
     (case limiter_step F e rl of (ok, rl') \<Rightarrow>
        (if ok \<and> from_client ip e then 1 else 0) + admitted F ip rl' es)"

primrec chronological :: "gotime \<Rightarrow> event list \<Rightarrow> bool" where
  "chronological t [] \<longleftrightarrow> True"
| "chronological t (e # es) \<longleftrightarrow> t \<le> event_time e \<and> chronological (event_time e) es"

definition end_time :: "gotime \<Rightarrow> event list \<Rightarrow> gotime" where
  "end_time t es = (if es = [] then t else event_time (last es))"

section \<open>What the arithmetic has to satisfy\<close>

text \<open>
  Rounding to nearest is monotone, exact on the integers of 53 bits, and below \<open>M\<close> its error is at
  most half a unit in the last place of \<open>M\<close>.
\<close>

definition rounds_within :: "float_ops \<Rightarrow> rat \<Rightarrow> rat \<Rightarrow> bool" where
  "rounds_within F M \<delta> \<longleftrightarrow>
     (\<forall>x y. x \<le> y \<longrightarrow> f_round F x \<le> f_round F y) \<and>
     (\<forall>n. \<bar>n\<bar> \<le> 2 ^ 53 \<longrightarrow> f_round F (of_int n) = of_int n) \<and>
     (\<forall>x. 0 \<le> x \<and> x \<le> M \<longrightarrow> f_round F x \<le> x + \<delta>)"

lemma rounds_withinD:
  assumes "rounds_within F M \<delta>"
  shows round_mono: "x \<le> y \<Longrightarrow> f_round F x \<le> f_round F y"
    and round_int: "\<bar>n\<bar> \<le> 2 ^ 53 \<Longrightarrow> f_round F (of_int n) = of_int n"
    and round_le: "0 \<le> x \<Longrightarrow> x \<le> M \<Longrightarrow> f_round F x \<le> x + \<delta>"
  using assms unfolding rounds_within_def by blast+

lemma round_ge_int:
  assumes "rounds_within F M \<delta>" "\<bar>n\<bar> \<le> 2 ^ 53" "of_int n \<le> x"
  shows "of_int n \<le> f_round F x"
  using round_mono [OF assms(1,3)] round_int [OF assms(1,2)] by simp

lemma round_nonneg:
  assumes "rounds_within F M \<delta>" "0 \<le> x"
  shows "0 \<le> f_round F x"
  using round_ge_int [OF assms(1), of 0 x] assms(2) by simp

text \<open>The clock counts nanoseconds in 63 bits, so whole seconds convert exactly.\<close>

lemma nonneg_split:
  assumes "0 \<le> d" "d \<le> max_int64"
  shows "d sdiv 1000000000 = d div 1000000000" "d smod 1000000000 = d mod 1000000000"
    "\<bar>d div 1000000000\<bar> \<le> 2 ^ 53" "\<bar>d mod 1000000000\<bar> \<le> 2 ^ 53"
proof -
  show *: "d sdiv 1000000000 = d div 1000000000"
    using assms by (cases "d = 0") (auto simp: signed_divide_int_def)
  show "d smod 1000000000 = d mod 1000000000"
    using assms by (cases "d = 0") (auto simp: signed_modulo_int_def)
  show "\<bar>d div 1000000000\<bar> \<le> 2 ^ 53" "\<bar>d mod 1000000000\<bar> \<le> 2 ^ 53"
    using assms by (auto simp: max_int64_def)
qed

lemma Seconds_eq:
  assumes "rounds_within F M \<delta>" "0 \<le> d" "d \<le> max_int64"
  shows "Seconds F d = f_round F (of_int (d div 1000000000) + f_round F (of_int (d mod 1000000000) / 1000000000))"
  unfolding Seconds_def nonneg_split(1,2) [OF assms(2,3)]
    round_int [OF assms(1) nonneg_split(3) [OF assms(2,3)]]
    round_int [OF assms(1) nonneg_split(4) [OF assms(2,3)]] ..

lemma Seconds_ge:
  assumes R: "rounds_within F M \<delta>" and d: "0 \<le> d" "d \<le> max_int64" and n: "0 \<le> n" "n * 1000000000 \<le> d"
  shows "of_int n \<le> Seconds F d"
proof -
  have "n \<le> d div 1000000000" using n by linarith
  moreover have "0 \<le> f_round F (of_int (d mod 1000000000) / 1000000000)"
    by (rule round_nonneg [OF R]) simp
  ultimately have le: "(of_int n :: rat) \<le> of_int (d div 1000000000) + f_round F (of_int (d mod 1000000000) / 1000000000)"
    by (simp add: add_increasing2)
  have "\<bar>n\<bar> \<le> 2 ^ 53" using n d by (auto simp: max_int64_def)
  then show ?thesis unfolding Seconds_eq [OF R d] using le by (rule round_ge_int [OF R])
qed

lemma split_secs: "(of_int (d div 1000000000) :: rat) + of_int (d mod 1000000000) / 1000000000 = of_int d / 1000000000"
proof -
  have "(of_int d :: rat) = of_int (d div 1000000000 * 1000000000 + d mod 1000000000)" by simp
  then show ?thesis by (simp only: of_int_add of_int_mult) simp
qed

lemma Seconds_le:
  assumes R: "rounds_within F M \<delta>" and d: "0 \<le> d" "d \<le> max_int64" and M: "of_int d / 1000000000 + \<delta> \<le> M" and "0 \<le> \<delta>"
  shows "Seconds F d \<le> of_int d / 1000000000 + 2 * \<delta>"
proof -
  define ns where "ns = (of_int (d mod 1000000000) / 1000000000 :: rat)"
  define s where "s = (of_int (d div 1000000000) :: rat)"
  have sum: "s + ns = of_int d / 1000000000" unfolding s_def ns_def by (rule split_secs)
  have nn: "0 \<le> ns" "0 \<le> s" using d by (simp_all add: ns_def s_def pos_imp_zdiv_nonneg_iff)
  have f: "f_round F ns \<le> ns + \<delta>" by (rule round_le [OF R nn(1)]) (use nn sum M \<open>0 \<le> \<delta>\<close> in linarith)
  have "0 \<le> f_round F ns" by (rule round_nonneg [OF R nn(1)])
  then have "f_round F (s + f_round F ns) \<le> s + f_round F ns + \<delta>"
    by (intro round_le [OF R]) (use nn f sum M in linarith)+
  then show ?thesis unfolding Seconds_eq [OF R d] s_def [symmetric] ns_def [symmetric] using f sum by linarith
qed

section \<open>The buckets stay within their bounds\<close>

definition bucket_ok :: "RateLimiter \<Rightarrow> tokenBucket \<Rightarrow> bool" where
  "bucket_ok rl b \<longleftrightarrow> 0 \<le> tokens b \<and> tokens b \<le> of_int (rlBurst rl)"

definition limiter_ok :: "gotime \<Rightarrow> RateLimiter \<Rightarrow> bool" where
  "limiter_ok t rl \<longleftrightarrow> 1 \<le> rlRate rl \<and> rlRate rl \<le> 1000 \<and> 1 \<le> rlBurst rl \<and> rlBurst rl \<le> 300 * rlRate rl \<and>
     (\<forall>ip b. rlClients rl ip = Some b \<longrightarrow> bucket_ok rl b \<and> 0 \<le> lastCheck b \<and> lastCheck b \<le> t)"

lemma limiter_okD:
  assumes "limiter_ok t rl" "rlClients rl ip = Some b"
  shows "0 \<le> tokens b" "tokens b \<le> of_int (rlBurst rl)" "0 \<le> lastCheck b" "lastCheck b \<le> t"
  using assms unfolding limiter_ok_def bucket_ok_def by blast+

lemma limiter_ok_params:
  assumes "limiter_ok t rl"
  shows "1 \<le> rlRate rl" "rlRate rl \<le> 1000" "1 \<le> rlBurst rl" "rlBurst rl \<le> 300 * rlRate rl"
    "\<bar>rlRate rl\<bar> \<le> 2 ^ 53" "\<bar>rlBurst rl\<bar> \<le> 2 ^ 53" "\<bar>rlBurst rl - 1\<bar> \<le> 2 ^ 53"
  using assms unfolding limiter_ok_def by auto

lemma refill_eq:
  assumes "rounds_within F M \<delta>" "limiter_ok t rl"
  shows "refill F rl now b =
    min (of_int (rlBurst rl)) (f_madd F (tokens b) (Seconds F (now - lastCheck b)) (of_int (rlRate rl)))"
  using round_int [OF assms(1) limiter_ok_params(5) [OF assms(2)]]
    round_int [OF assms(1) limiter_ok_params(6) [OF assms(2)]]
  by (simp add: refill_def Let_def min_def)

lemma madd_ge:
  assumes "rounds_within F M \<delta>" "\<bar>n\<bar> \<le> 2 ^ 53" "0 \<le> t" "of_int n \<le> e * r"
  shows "of_int n \<le> f_madd F t e r"
proof -
  have "of_int n \<le> f_round F (e * r)" by (rule round_ge_int [OF assms(1,2,4)])
  then have "of_int n \<le> t + f_round F (e * r)" "of_int n \<le> t + e * r" using assms(3,4) by linarith+
  then show ?thesis unfolding f_madd_def by (simp add: round_ge_int [OF assms(1,2)])
qed

lemma refill_bounds:
  assumes R: "rounds_within F M \<delta>" and ok: "limiter_ok t rl" and b: "rlClients rl ip = Some b"
    and t: "t \<le> now" "now \<le> max_int64"
  shows "0 \<le> refill F rl now b" "refill F rl now b \<le> of_int (rlBurst rl)"
proof -
  have "0 \<le> Seconds F (now - lastCheck b)"
    using Seconds_ge [OF R, of "now - lastCheck b" 0] limiter_okD [OF ok b] t by simp
  then have "of_int 0 \<le> f_madd F (tokens b) (Seconds F (now - lastCheck b)) (of_int (rlRate rl))"
    using limiter_okD(1) [OF ok b] limiter_ok_params(1) [OF ok] by (intro madd_ge [OF R]) simp_all
  then show "0 \<le> refill F rl now b" using limiter_ok_params(3) [OF ok] by (simp add: refill_eq [OF R ok])
  show "refill F rl now b \<le> of_int (rlBurst rl)" by (simp add: refill_eq [OF R ok])
qed

lemma limiter_ok_update:
  assumes "limiter_ok t rl" "t \<le> now" "0 \<le> now" "0 \<le> k" "k \<le> of_int (rlBurst rl)"
  shows "limiter_ok now (rl\<lparr>rlClients := (rlClients rl)(ip \<mapsto> \<lparr>tokens = k, lastCheck = now\<rparr>)\<rparr>)"
  using assms unfolding limiter_ok_def bucket_ok_def by (fastforce split: if_splits)

lemma round_pred:
  assumes "rounds_within F M \<delta>" "limiter_ok t rl" "1 \<le> k" "k \<le> of_int (rlBurst rl)"
  shows "0 \<le> f_round F (k - 1)" "f_round F (k - 1) \<le> of_int (rlBurst rl)"
proof -
  show "0 \<le> f_round F (k - 1)" using assms(3) by (intro round_nonneg [OF assms(1)]) simp
  have "f_round F (k - 1) \<le> f_round F (of_int (rlBurst rl - 1))"
    using assms(4) by (intro round_mono [OF assms(1)]) simp
  then show "f_round F (k - 1) \<le> of_int (rlBurst rl)"
    using round_int [OF assms(1) limiter_ok_params(7) [OF assms(2)]] by simp
qed

lemma Allow_new:
  assumes "rounds_within F M \<delta>" "limiter_ok t rl" "rlClients rl ip = None"
  shows "Allow F now ip rl = (True, rl\<lparr>rlClients := (rlClients rl)(ip \<mapsto>
    \<lparr>tokens = of_int (rlBurst rl - 1), lastCheck = now\<rparr>)\<rparr>)"
proof -
  have "f_round F (f_round F (of_int (rlBurst rl)) - 1) = f_round F (of_int (rlBurst rl - 1))"
    using round_int [OF assms(1) limiter_ok_params(6) [OF assms(2)]] by simp
  then show ?thesis using round_int [OF assms(1) limiter_ok_params(7) [OF assms(2)]] assms(3)
    by (simp add: Allow_def)
qed

lemma Allow_ok:
  assumes R: "rounds_within F M \<delta>" and ok: "limiter_ok t rl" and t: "0 \<le> t" "t \<le> now" "now \<le> max_int64"
  shows "limiter_ok now (snd (Allow F now ip rl))"
proof (cases "rlClients rl ip")
  case None
  show ?thesis unfolding Allow_new [OF R ok None] snd_conv
    using limiter_ok_params(3) [OF ok] t by (intro limiter_ok_update [OF ok]) simp_all
next
  case (Some b)
  define k where "k = refill F rl now b"
  have k: "0 \<le> k" "k \<le> of_int (rlBurst rl)" using refill_bounds [OF R ok Some t(2,3)] by (simp_all add: k_def)
  show ?thesis
  proof (cases "k < 1")
    case True
    then have "snd (Allow F now ip rl) = rl\<lparr>rlClients := (rlClients rl)(ip \<mapsto> \<lparr>tokens = k, lastCheck = now\<rparr>)\<rparr>"
      using Some by (simp add: Allow_def k_def Let_def)
    then show ?thesis using limiter_ok_update [OF ok] t k by simp
  next
    case False
    then have "snd (Allow F now ip rl) = rl\<lparr>rlClients := (rlClients rl)(ip \<mapsto> \<lparr>tokens = f_round F (k - 1), lastCheck = now\<rparr>)\<rparr>"
      using Some by (simp add: Allow_def k_def Let_def)
    then show ?thesis using limiter_ok_update [OF ok] t round_pred [OF R ok _ k(2)] False by simp
  qed
qed

lemma cleanup_ok: "limiter_ok t rl \<Longrightarrow> t \<le> now \<Longrightarrow> limiter_ok now (cleanup now rl)"
  unfolding limiter_ok_def bucket_ok_def cleanup_def by (fastforce split: option.splits if_splits)

lemma limiter_step_ok:
  assumes "rounds_within F M \<delta>" "limiter_ok t rl" "0 \<le> t" "t \<le> event_time e" "event_time e \<le> max_int64"
  shows "limiter_ok (event_time e) (snd (limiter_step F e rl))"
  using assms by (cases e) (auto intro: Allow_ok cleanup_ok)

lemma Allow_params [simp]:
  "rlRate (snd (Allow F now ip rl)) = rlRate rl" "rlBurst (snd (Allow F now ip rl)) = rlBurst rl"
  by (auto simp: Allow_def Let_def split: option.splits)

lemma limiter_step_params [simp]:
  "rlRate (snd (limiter_step F e rl)) = rlRate rl" "rlBurst (snd (limiter_step F e rl)) = rlBurst rl"
  by (cases e; simp add: cleanup_def)+

section \<open>How many requests get through\<close>

text \<open>The tokens a client could have at time \<open>t\<close>, were the arithmetic exact.\<close>

definition credit :: "RateLimiter \<Rightarrow> string \<Rightarrow> gotime \<Rightarrow> rat" where
  "credit rl ip t = (case rlClients rl ip of
       None \<Rightarrow> of_int (rlBurst rl)
     | Some b \<Rightarrow> min (of_int (rlBurst rl)) (tokens b + of_int (rlRate rl) * (of_int (t - lastCheck b) / 1000000000)))"

lemma credit_le: "credit rl ip t \<le> of_int (rlBurst rl)"
  by (simp add: credit_def split: option.splits)

lemma credit_nonneg:
  assumes "limiter_ok t rl"
  shows "0 \<le> credit rl ip t"
  using limiter_okD [OF assms, of ip] limiter_ok_params(1,3) [OF assms]
  by (auto simp: credit_def split: option.splits)

lemma credit_grows:
  assumes "limiter_ok t rl" "t \<le> t'"
  shows "credit rl ip t' \<le> credit rl ip t + of_int (rlRate rl) * (of_int (t' - t) / 1000000000)"
proof -
  have r: "0 \<le> of_int (rlRate rl) * (of_int (t' - t) / 1000000000 :: rat)"
    using limiter_ok_params(1) [OF assms(1)] assms(2) by simp
  have "of_int (rlRate rl) * (of_int (t' - l) / 1000000000) =
    of_int (rlRate rl) * (of_int (t - l) / 1000000000) + of_int (rlRate rl) * (of_int (t' - t) / 1000000000 :: rat)" for l
    by (simp add: field_simps)
  note shift = this
  show ?thesis
  proof (cases "rlClients rl ip")
    case None
    then show ?thesis using r by (simp add: credit_def)
  next
    case (Some b)
    define v where "v = tokens b + of_int (rlRate rl) * (of_int (t - lastCheck b) / 1000000000)"
    define g where "g = of_int (rlRate rl) * (of_int (t' - t) / 1000000000 :: rat)"
    have "min (of_int (rlBurst rl)) (v + g) \<le> min (of_int (rlBurst rl)) v + g" using r by (simp add: g_def min_def)
    moreover have "tokens b + of_int (rlRate rl) * (of_int (t' - lastCheck b) / 1000000000) = v + g"
      unfolding v_def g_def shift [of "lastCheck b"] by (rule add.assoc [symmetric])
    ultimately show ?thesis by (simp only: credit_def Some option.case v_def [symmetric] g_def [symmetric])
  qed
qed

lemma madd_le:
  assumes R: "rounds_within F M \<delta>" and "0 \<le> t" "0 \<le> e" "0 \<le> r" "t + e * r + \<delta> \<le> M" "0 \<le> \<delta>"
  shows "f_madd F t e r \<le> t + e * r + 2 * \<delta>"
proof -
  have er: "0 \<le> e * r" using assms by simp
  have f: "f_round F (e * r) \<le> e * r + \<delta>" by (rule round_le [OF R er]) (use assms in linarith)
  have "0 \<le> f_round F (e * r)" by (rule round_nonneg [OF R er])
  then have "f_round F (t + f_round F (e * r)) \<le> t + f_round F (e * r) + \<delta>"
    by (intro round_le [OF R]) (use f assms in linarith)+
  moreover have "f_round F (t + e * r) \<le> t + e * r + \<delta>"
    by (rule round_le [OF R]) (use er assms in linarith)+
  ultimately show ?thesis unfolding f_madd_def using f assms(6) by (cases "f_fused F") simp_all
qed

lemma refill_le:
  assumes R: "rounds_within F (of_int (rlBurst rl) + 1) \<delta>" and ok: "limiter_ok t rl"
    and b: "rlClients rl ip = Some b" and now: "t \<le> now" "now \<le> max_int64"
    and \<delta>: "0 \<le> \<delta>" "of_int (2 * rlRate rl + 2) * \<delta> \<le> 1"
  shows "refill F rl now b \<le> credit rl ip now + of_int (2 * rlRate rl + 2) * \<delta>"
proof -
  define r where "r = (of_int (rlRate rl) :: rat)"
  define x where "x = (of_int (now - lastCheck b) / 1000000000 :: rat)"
  have r: "1 \<le> r" using limiter_ok_params(1) [OF ok] by (simp add: r_def)
  have d: "0 \<le> now - lastCheck b" "now - lastCheck b \<le> max_int64" using limiter_okD [OF ok b] now by linarith+
  have x: "0 \<le> x" using d(1) by (simp add: x_def)
  have e\<delta>: "of_int (2 * rlRate rl + 2) * \<delta> = 2 * (r * \<delta>) + 2 * \<delta>" by (simp add: r_def algebra_simps)
  have r\<delta>: "\<delta> \<le> r * \<delta>" "0 \<le> r * \<delta>" using mult_right_mono [OF r \<delta>(1)] r \<delta>(1) by simp_all
  show ?thesis
  proof (cases "tokens b + r * x < of_int (rlBurst rl)")
    case False
    then have "credit rl ip now = of_int (rlBurst rl)" using b by (simp add: credit_def r_def x_def)
    then show ?thesis using refill_bounds(2) [OF R ok b now] r\<delta> \<delta>(1) unfolding e\<delta> by linarith
  next
    case True
    have "x \<le> r * x" using mult_right_mono [OF r x] by simp
    then have "x + \<delta> \<le> of_int (rlBurst rl) + 1"
      using True limiter_okD(1) [OF ok b] \<delta> r\<delta> unfolding e\<delta> by linarith
    then have "Seconds F (now - lastCheck b) \<le> x + 2 * \<delta>"
      unfolding x_def by (rule Seconds_le [OF R d _ \<delta>(1)])
    then have s: "Seconds F (now - lastCheck b) * r \<le> r * x + 2 * (r * \<delta>)"
      using mult_right_mono [of "Seconds F (now - lastCheck b)" "x + 2 * \<delta>" r] r by (simp add: algebra_simps)
    have "0 \<le> Seconds F (now - lastCheck b)" using Seconds_ge [OF R d, of 0] d(1) by simp
    note s0 = this
    have "tokens b + Seconds F (now - lastCheck b) * r + \<delta> \<le> of_int (rlBurst rl) + 1"
      using s True \<delta> r\<delta> unfolding e\<delta> by linarith
    then have "f_madd F (tokens b) (Seconds F (now - lastCheck b)) r
      \<le> tokens b + Seconds F (now - lastCheck b) * r + 2 * \<delta>"
      using limiter_okD(1) [OF ok b] r s0 \<delta>(1) by (intro madd_le [OF R]) simp_all
    then have "refill F rl now b \<le> tokens b + r * x + 2 * (r * \<delta>) + 2 * \<delta>"
      using s unfolding refill_eq [OF R ok] r_def [symmetric] by linarith
    moreover have "credit rl ip now = tokens b + r * x" using True b by (simp add: credit_def r_def x_def min_def)
    ultimately show ?thesis unfolding e\<delta> by linarith
  qed
qed

lemma credit_bucket: "rlClients rl ip = Some \<lparr>tokens = k, lastCheck = t\<rparr> \<Longrightarrow> credit rl ip t \<le> k"
  by (simp add: credit_def)

lemma Allow_pays:
  assumes R: "rounds_within F (of_int (rlBurst rl) + 1) \<delta>" and ok: "limiter_ok t rl"
    and now: "t \<le> now" "now \<le> max_int64"
    and \<delta>: "0 \<le> \<delta>" "of_int (2 * rlRate rl + 2) * \<delta> \<le> 1"
  shows "credit (snd (Allow F now ip rl)) ip now + (if fst (Allow F now ip rl) then 1 else 0)
    \<le> credit rl ip now + of_int (2 * rlRate rl + 3) * \<delta>"
proof -
  have slack: "of_int (2 * rlRate rl + 3) * \<delta> = of_int (2 * rlRate rl + 2) * \<delta> + \<delta>" by (simp add: algebra_simps)
  have pos: "0 \<le> of_int (2 * rlRate rl + 2) * \<delta>" using \<delta>(1) limiter_ok_params(1) [OF ok] by simp
  show ?thesis
  proof (cases "rlClients rl ip")
    case None
    then show ?thesis using pos \<delta>(1) unfolding slack Allow_new [OF R ok None] by (simp add: credit_def)
  next
    case (Some b)
    define k where "k = refill F rl now b"
    note le = refill_le [OF R ok Some now \<delta>, folded k_def]
    have k: "k \<le> of_int (rlBurst rl)" using refill_bounds(2) [OF R ok Some now] by (simp add: k_def)
    show ?thesis
    proof (cases "k < 1")
      case True
      then have A: "Allow F now ip rl = (False, rl\<lparr>rlClients := (rlClients rl)(ip \<mapsto> \<lparr>tokens = k, lastCheck = now\<rparr>)\<rparr>)"
        using Some by (simp add: Allow_def k_def Let_def)
      have "credit (snd (Allow F now ip rl)) ip now \<le> k" by (rule credit_bucket) (simp add: A)
      then show ?thesis unfolding slack using le \<delta>(1) A by simp
    next
      case False
      then have A: "Allow F now ip rl = (True, rl\<lparr>rlClients := (rlClients rl)(ip \<mapsto> \<lparr>tokens = f_round F (k - 1), lastCheck = now\<rparr>)\<rparr>)"
        using Some by (simp add: Allow_def k_def Let_def)
      have "credit (snd (Allow F now ip rl)) ip now \<le> f_round F (k - 1)" by (rule credit_bucket) (simp add: A)
      moreover have "f_round F (k - 1) \<le> k - 1 + \<delta>" by (rule round_le [OF R]) (use False k in linarith)+
      ultimately show ?thesis unfolding slack using le A by simp
    qed
  qed
qed

lemma credit_others: "c \<noteq> ip \<Longrightarrow> credit (snd (Allow F now c rl)) ip t = credit rl ip t"
  by (auto simp: Allow_def Let_def credit_def split: option.splits)

text \<open>The sweeper drops only full buckets: its effect on a client's credit is nil.\<close>

lemma credit_cleanup:
  assumes "limiter_ok t rl" "t \<le> now"
  shows "credit (cleanup now rl) ip now = credit rl ip now"
proof (cases "rlClients rl ip")
  case None
  then show ?thesis by (simp add: credit_def cleanup_def)
next
  case (Some b)
  show ?thesis
  proof (cases "now - lastCheck b > 5 * minute_ns")
    case True
    then have "(300 :: rat) \<le> of_int (now - lastCheck b) / 1000000000"
      by (simp add: minute_ns_def field_simps)
    then have "of_int (rlRate rl) * 300 \<le> of_int (rlRate rl) * (of_int (now - lastCheck b) / 1000000000 :: rat)"
      using limiter_ok_params(1) [OF assms(1)] by (intro mult_left_mono) simp_all
    moreover have "(of_int (rlBurst rl) :: rat) \<le> of_int (300 * rlRate rl)"
      using limiter_ok_params(4) [OF assms(1)] by (simp only: of_int_le_iff)
    ultimately have full: "of_int (rlBurst rl) \<le> tokens b + of_int (rlRate rl) * (of_int (now - lastCheck b) / 1000000000)"
      using limiter_okD(1) [OF assms(1) Some] by simp
    then have "credit rl ip now = of_int (rlBurst rl)" by (simp only: credit_def Some option.case min_absorb1)
    moreover have "credit (cleanup now rl) ip now = of_int (rlBurst rl)"
      using Some True by (simp add: credit_def cleanup_def)
    ultimately show ?thesis by simp
  next
    case False
    then show ?thesis using Some by (simp add: credit_def cleanup_def)
  qed
qed

lemma step_pays:
  assumes R: "rounds_within F (of_int (rlBurst rl) + 1) \<delta>" and ok: "limiter_ok t rl"
    and now: "t \<le> event_time e" "event_time e \<le> max_int64"
    and \<delta>: "0 \<le> \<delta>" "of_int (2 * rlRate rl + 2) * \<delta> \<le> 1"
  shows "credit (snd (limiter_step F e rl)) ip (event_time e) + (if fst (limiter_step F e rl) \<and> from_client ip e then 1 else 0)
    \<le> credit rl ip (event_time e) + (if from_client ip e then of_int (2 * rlRate rl + 3) * \<delta> else 0)"
proof (cases e)
  case (Request u c)
  then show ?thesis
    using Allow_pays [OF R ok _ _ \<delta>, of u c] now credit_others [of c ip F u rl u] by (cases "c = ip") auto
next
  case (Sweep u)
  then show ?thesis using credit_cleanup [OF ok, of u ip] now by simp
qed

lemma end_time_Cons: "end_time t (e # es) = end_time (event_time e) es"
  by (simp add: end_time_def)

lemma end_time_ge: "chronological t es \<Longrightarrow> t \<le> end_time t es"
proof (induction es arbitrary: t)
  case (Cons e es)
  then show ?case unfolding end_time_Cons by (auto intro: order_trans)
qed (simp add: end_time_def)

lemma admitted_credit:
  assumes "rounds_within F (of_int (rlBurst rl) + 1) \<delta>" "limiter_ok t rl" "0 \<le> t" "chronological t es"
    and "end_time t es \<le> max_int64" "0 \<le> \<delta>" "of_int (2 * rlRate rl + 2) * \<delta> \<le> 1"
  shows "of_nat (admitted F ip rl es) \<le> credit rl ip t + of_int (rlRate rl) * (of_int (end_time t es - t) / 1000000000)
    + of_nat (length (filter (from_client ip) es)) * (of_int (2 * rlRate rl + 3) * \<delta>)"
  using assms
proof (induction es arbitrary: t rl)
  case Nil
  then show ?case using credit_nonneg [OF Nil.prems(2)] by (simp add: end_time_def)
next
  case (Cons e es)
  define u where "u = event_time e"
  define rl' where "rl' = snd (limiter_step F e rl)"
  define slack where "slack = of_int (2 * rlRate rl + 3) * \<delta>"
  have u: "t \<le> u" "chronological u es" using Cons.prems(4) by (simp_all add: u_def)
  have end_u: "end_time t (e # es) = end_time u es" by (simp add: end_time_Cons u_def)
  have "u \<le> max_int64" using end_time_ge [OF u(2)] Cons.prems(5) end_u by linarith
  note u64 = this
  have same: "rlRate rl' = rlRate rl" "rlBurst rl' = rlBurst rl" by (simp_all add: rl'_def)
  have ok': "limiter_ok u rl'"
    unfolding rl'_def u_def using limiter_step_ok [OF Cons.prems(1-3)] u(1) u64 by (simp add: u_def)
  have IH: "of_nat (admitted F ip rl' es) \<le> credit rl' ip u + of_int (rlRate rl) * (of_int (end_time u es - u) / 1000000000)
    + of_nat (length (filter (from_client ip) es)) * slack"
    unfolding slack_def same [symmetric]
    using Cons.prems ok' u end_u by (intro Cons.IH) (simp_all only: same)
  have pay: "credit rl' ip u + (if fst (limiter_step F e rl) \<and> from_client ip e then 1 else 0)
    \<le> credit rl ip u + (if from_client ip e then slack else 0)"
    using step_pays [OF Cons.prems(1,2) u(1) [unfolded u_def] u64 [unfolded u_def] Cons.prems(6,7), of ip]
    by (simp only: rl'_def u_def slack_def)
  have grow: "credit rl ip u \<le> credit rl ip t + of_int (rlRate rl) * (of_int (u - t) / 1000000000)"
    by (rule credit_grows [OF Cons.prems(2) u(1)])
  have split: "of_int (rlRate rl) * (of_int (end_time u es - t) / 1000000000) =
    of_int (rlRate rl) * (of_int (u - t) / 1000000000) + of_int (rlRate rl) * (of_int (end_time u es - u) / 1000000000 :: rat)"
    by (simp add: field_simps)
  have adm: "(of_nat (admitted F ip rl (e # es)) :: rat) =
    (if fst (limiter_step F e rl) \<and> from_client ip e then 1 else 0) + of_nat (admitted F ip rl' es)"
    by (simp add: rl'_def split: prod.splits)
  have cnt: "of_nat (length (filter (from_client ip) (e # es))) * slack =
    (if from_client ip e then slack else 0) + of_nat (length (filter (from_client ip) es)) * slack"
    by (simp add: distrib_right)
  show ?case unfolding end_u split adm slack_def [symmetric] cnt using IH pay grow by linarith
qed

text \<open>
  C22. In any stretch of time, whatever other clients and the sweeper do meanwhile, the limiter
  lets at most \<open>burst\<close> plus \<open>rate\<close> per elapsed second of one client's requests through, up to the
  rounding of the token arithmetic, which is given explicitly.
\<close>

theorem limiter_admits_at_most:
  assumes "rounds_within F (of_int (rlBurst rl) + 1) \<delta>" "limiter_ok t rl" "0 \<le> t" "chronological t es"
    and "end_time t es \<le> max_int64" "0 \<le> \<delta>" "of_int (2 * rlRate rl + 2) * \<delta> \<le> 1"
  shows "of_nat (admitted F ip rl es) \<le>
    of_int (rlBurst rl) + of_int (rlRate rl) * (of_int (end_time t es - t) / 1000000000)
    + of_nat (length (filter (from_client ip) es)) * (of_int (2 * rlRate rl + 3) * \<delta>)"
  using admitted_credit [OF assms, of ip] credit_le [of rl ip t] by linarith

definition exact_float :: float_ops where
  "exact_float = \<lparr>f_round = (\<lambda>x. x), f_fused = False\<rparr>"

lemma exact_rounds: "rounds_within exact_float M 0"
  by (simp add: rounds_within_def exact_float_def)

lemma new_limiter_ok: "1 \<le> r \<Longrightarrow> r \<le> 1000 \<Longrightarrow> 1 \<le> b \<Longrightarrow> b \<le> 300 * r \<Longrightarrow> limiter_ok t (NewRateLimiter r b)"
  by (simp add: limiter_ok_def NewRateLimiter_def)

definition login_burst :: "event list" where
  "login_burst = replicate 8 (Request 0 ''10.10.10.7'') @ [Sweep 0, Request 2000000000 ''10.10.10.7'']"

theorem limiter_admits_at_most_witness:
  "(of_nat (admitted exact_float ''10.10.10.7'' (NewRateLimiter 1 5) login_burst) :: rat) \<le> 7"
proof -
  have "chronological 0 login_burst" "end_time 0 login_burst = 2000000000"
    by (simp_all add: login_burst_def end_time_def eval_nat_numeral)
  then show ?thesis
    using limiter_admits_at_most [OF exact_rounds new_limiter_ok, of 1 5 0 login_burst "''10.10.10.7''"]
    by (simp add: NewRateLimiter_def max_int64_def)
qed

section \<open>The sweeper is invisible\<close>

lemma refill_full:
  assumes R: "rounds_within F M \<delta>" and ok: "limiter_ok t rl" and b: "rlClients rl ip = Some b"
    and now: "t \<le> now" "now \<le> max_int64" "now - lastCheck b > 5 * minute_ns"
  shows "refill F rl now b = of_int (rlBurst rl)"
proof -
  have "of_int 300 \<le> Seconds F (now - lastCheck b)"
    using limiter_okD [OF ok b] now by (intro Seconds_ge [OF R]) (simp_all add: minute_ns_def)
  then have "of_int (300 * rlRate rl) \<le> Seconds F (now - lastCheck b) * of_int (rlRate rl)"
    using limiter_ok_params(1) [OF ok] mult_right_mono [of 300 _ "of_int (rlRate rl) :: rat"] by simp
  then have "of_int (300 * rlRate rl) \<le> f_madd F (tokens b) (Seconds F (now - lastCheck b)) (of_int (rlRate rl))"
    using limiter_ok_params(1,2) [OF ok] limiter_okD(1) [OF ok b] by (intro madd_ge [OF R]) simp_all
  moreover have "(of_int (rlBurst rl) :: rat) \<le> of_int (300 * rlRate rl)"
    using limiter_ok_params(4) [OF ok] by (simp only: of_int_le_iff)
  ultimately show ?thesis unfolding refill_eq [OF R ok] by (intro min_absorb1) linarith
qed

text \<open>
  Forgetting idle clients changes no verdict. A request gets the same answer and leaves its
  client with the same bucket whether or not the sweeper ran before it, because a bucket idle for five
  minutes has refilled to the burst of every limiter whose burst is at most 300 times its rate, as those of
  the server are.
\<close>

theorem cleanup_invisible:
  assumes R: "rounds_within F M \<delta>" and ok: "limiter_ok t rl" and s: "t \<le> s" "s \<le> now" "now \<le> max_int64"
  shows "fst (Allow F now ip (cleanup s rl)) = fst (Allow F now ip rl) \<and>
    rlClients (snd (Allow F now ip (cleanup s rl))) ip = rlClients (snd (Allow F now ip rl)) ip"
proof (cases "\<exists>b. rlClients rl ip = Some b \<and> s - lastCheck b > 5 * minute_ns")
  case True
  then obtain b where b: "rlClients rl ip = Some b" "s - lastCheck b > 5 * minute_ns" by blast
  have "refill F rl now b = of_int (rlBurst rl)" using s b by (intro refill_full [OF R ok]) simp_all
  moreover have "f_round F (of_int (rlBurst rl) - 1) = of_int (rlBurst rl) - 1"
    using round_int [OF R limiter_ok_params(7) [OF ok]] by simp
  moreover have "f_round F (of_int (rlBurst rl)) = of_int (rlBurst rl)"
    by (rule round_int [OF R limiter_ok_params(6) [OF ok]])
  ultimately show ?thesis using b limiter_ok_params(3) [OF ok]
    by (simp add: Allow_def cleanup_def Let_def)
next
  case False
  then have "rlClients (cleanup s rl) ip = rlClients rl ip"
    by (auto simp: cleanup_def split: option.splits)
  then show ?thesis
    by (simp add: Allow_def Let_def refill_def cleanup_def split: option.splits)
qed

theorem cleanup_invisible_witness:
  "fst (Allow exact_float 700000000000 ''a'' (cleanup 600000000000 (snd (Allow exact_float 0 ''a'' (NewRateLimiter 30 60)))))
   = fst (Allow exact_float 700000000000 ''a'' (snd (Allow exact_float 0 ''a'' (NewRateLimiter 30 60))))"
proof -
  have "limiter_ok 0 (snd (Allow exact_float 0 ''a'' (NewRateLimiter 30 60)))"
    by (rule Allow_ok [OF exact_rounds [of 0] new_limiter_ok [where t = 0]]) (simp_all add: max_int64_def)
  from cleanup_invisible [OF exact_rounds [of 0] this, of 600000000000 700000000000 "''a''"]
  show ?thesis by (simp add: max_int64_def)
qed

end
