(* ===== verification/ConfigTypes.thy ===== *)
theory ConfigTypes
  imports Prelude
begin

text \<open>
  The configuration tree of \<^verbatim>\<open>internal/config/config.go\<close>, struct by struct. Each field keeps
  its Go name behind a prefix that stands for its struct, because the fields of a record are
  constants: \<open>OpenPort.Name\<close> is \<open>opName\<close>. A Go map is the list of its entries in the order one
  iteration visits them (keys are distinct); \<open>map_of\<close> looks a key up. The last section gives the
  zero value of every struct, which Go uses for the fields a composite literal leaves out.
\<close>

type_synonym ('k, 'v) gomap = "('k \<times> 'v) list"

section \<open>The structs\<close>

record SelfSignedConfig =
  ssCN :: string
  ssValidDays :: goint
  ssSANs :: "string list"

record DNSChallengeConfig =
  dchProvider :: string
  dchAPIToken :: string

record ACMEConfig =
  acmeEnabled :: bool
  acmeEmail :: string
  acmeDomain :: string
  acmeProvider :: string
  acmeDNSChallenge :: DNSChallengeConfig

record MkcertConfig =
  mkCAInstalled :: bool

record TLSConfig =
  tlsMode :: string
  tlsCertFile :: string
  tlsKeyFile :: string
  tlsSelfSigned :: SelfSignedConfig
  tlsACME :: ACMEConfig
  tlsMkcert :: MkcertConfig

record SystemConfig =
  sysHostname :: string
  sysTimezone :: string
  sysLanguage :: string
  sysAdminPasswordHash :: string
  sysSessionSecret :: string
  sysDomain :: string
  sysWebPort :: goint
  sysWebBind :: string
  sysTLS :: TLSConfig

record InterfaceConfig =
  ifID :: string
  ifDevice :: string
  ifLabel :: string
  ifRole :: string
  ifType :: string
  ifAddress :: string
  ifAddress6 :: string
  ifMTU :: goint
  ifMAC :: string
  ifCloneMAC :: string
  ifIPv6 :: string

record VLANDHCPConfig =
  vdEnabled :: bool
  vdRangeStart :: string
  vdRangeEnd :: string
  vdLeaseTime :: string

record VLANConfig =
  vlID :: string
  vlParent :: string
  vlVID :: goint
  vlLabel :: string
  vlRole :: string
  vlType :: string
  vlAddress :: string
  vlMTU :: goint
  vlIsolated :: bool
  vlDHCP :: VLANDHCPConfig

record HealthCheckTarget =
  htType :: string
  htHost :: string
  htURL :: string
  htExpectStatus :: goint

record HealthCheckAction =
  haType :: string
  haDelay :: string

record HealthCheckEntry =
  hcName :: string
  hcInterface :: string
  hcTargets :: "HealthCheckTarget list"
  hcInterval :: string
  hcTimeout :: string
  hcFailureThreshold :: goint
  hcFailureWindow :: string
  hcActions :: "HealthCheckAction list"
  hcCooldown :: string
  hcNotify :: bool

record HealthCheckConfig =
  hccEnabled :: bool
  hccChecks :: "HealthCheckEntry list"

record PPPoEConfig =
  ppUsername :: string
  ppPassword :: string
  ppMTU :: goint
  ppMRU :: goint
  ppLCPEchoInterval :: goint
  ppLCPEchoFailure :: goint
  ppPersist :: bool
  ppHoldoff :: goint
  ppIPv6CP :: bool

record USBTetherConfig =
  usbEnabled :: bool
  usbAutoFailover :: bool
  usbAutoFailback :: bool
  usbFailoverDelay :: string
  usbFailbackDelay :: string
  usbInterface :: string
  usbMetric :: goint
  usbNAT :: bool
  usbTTLFix :: bool

record TTLFixConfig =
  ttlEnabled :: bool
  ttlValue :: goint

record OpenPort =
  opName :: string
  opProtocol :: string
  opPort :: goint
  opSource :: string
  opEnabled :: bool

record PortForward =
  pfName :: string
  pfProtocol :: string
  pfExtPort :: goint
  pfIntIP :: string
  pfIntPort :: goint
  pfEnabled :: bool

record FirewallRule =
  frName :: string
  frChain :: string
  frAction :: string
  frSrcIP :: string
  frDstIP :: string
  frProtocol :: string
  frPort :: goint
  frInterface :: string
  frDirection :: string
  frEnabled :: bool
  frPriority :: goint

record FirewallConfig =
  fwDefaultPolicy :: string
  fwTTLFix :: TTLFixConfig
  fwOpenPorts :: "OpenPort list"
  fwPortForwards :: "PortForward list"
  fwRules :: "FirewallRule list"
  fwRateLimits :: "(string, string) gomap"

record QoSConfig =
  qosEnabled :: bool
  qosProfile :: string
  qosUploadKbps :: goint
  qosDownloadKbps :: goint
  qosCongestionControl :: string
  qosPerDeviceLimits :: "(string, goint) gomap"

record QueryLogConfig =
  qlEnabled :: bool
  qlLogPath :: string
  qlMaxSize :: string
  qlRetention :: string
  qlLogBlocked :: bool

record StaticDNSRecord =
  srName :: string
  srIP :: string
  srLocalZone :: bool
  srSource :: string
  srDisableAutoPTR :: bool

record DNSConfig =
  dnsUpstream :: "string list"
  dnsDoTUpstream :: string
  dnsEnableDoT :: bool
  dnsEnableDoH :: bool
  dnsDoHUpstream :: string
  dnsBlocklistURLs :: "string list"
  dnsBlocklistUpdateSchedule :: string
  dnsCacheSize :: goint
  dnsQueryLog :: QueryLogConfig
  dnsStaticRecords :: "StaticDNSRecord list"

record StaticLease =
  slMAC :: string
  slIP :: string
  slHostname :: string

record DHCPConfig =
  dhcpRangeStart :: string
  dhcpRangeEnd :: string
  dhcpLeaseTime :: string
  dhcpGateway :: string
  dhcpDNSServer :: string
  dhcpStaticLeases :: "StaticLease list"

record IPv6WANConfig =
  wan6AcceptRA :: bool
  wan6RequestPrefix :: bool
  wan6PrefixHint :: string
  wan6RapidCommit :: bool

record IPv6ULAConfig =
  ulaEnabled :: bool
  ulaPrefix :: string

record IPv6LANConfig =
  lan6Mode :: string
  lan6ULA :: IPv6ULAConfig
  lan6RAInterval :: goint
  lan6RDNSS :: bool
  lan6SubnetMap :: "(string, goint) gomap"

record IPv6TunnelConfig =
  tunProvider :: string
  tunServerIPv4 :: string
  tunClientIPv6 :: string
  tunRoutedPrefix :: string
  tunTunnelID :: string
  tunUsername :: string
  tunUpdateKey :: string
  tunAutoUpdate :: bool
  tunDevice :: string

record IPv6Config =
  ip6Enabled :: string
  ip6Mode :: string
  ip6WAN :: IPv6WANConfig
  ip6LAN :: IPv6LANConfig
  ip6Tunnel :: IPv6TunnelConfig
  ip6Privacy :: bool

record WGClientTunnel =
  wgcName :: string
  wgcEndpoint :: string
  wgcPrivateKey :: string
  wgcPublicKey :: string
  wgcAllowedIPs :: string
  wgcDNS :: string
  wgcTable :: goint
  wgcFwmark :: goint

record WGServerPeer =
  wgpName :: string
  wgpPublicKey :: string
  wgpPresharedKey :: string
  wgpAllowedIPs :: string
  wgpKeepalive :: goint
  wgpEndpoint :: string
  wgpRemoteSubnets :: "string list"
  wgpIsSiteToSite :: bool
  wgpPending :: bool
  wgpInviteExpiresAt :: gotime

record WGServerConfig =
  wgsEnabled :: bool
  wgsListenPort :: goint
  wgsPrivateKey :: string
  wgsPublicKey :: string
  wgsAddress :: string
  wgsAddress6 :: string
  wgsDNS :: string
  wgsPostUp :: string
  wgsPostDown :: string
  wgsMTU :: goint
  wgsPublicEndpoint :: string
  wgsPeers :: "WGServerPeer list"

record VPNConfig =
  vpnClients :: "WGClientTunnel list"
  vpnServer :: WGServerConfig
  vpnDeviceAssignments :: "(string, string) gomap"

record OVPNClientConfig =
  ovcName :: string
  ovcConfigFile :: string
  ovcRemoteHost :: string
  ovcRemotePort :: goint
  ovcProtocol :: string
  ovcCipher :: string
  ovcAuth :: string
  ovcTLSAuth :: bool
  ovcUsername :: string
  ovcPassword :: string
  ovcAutoConnect :: bool
  ovcTable :: goint
  ovcFwmark :: goint

record OVPNClientEntry =
  oveName :: string
  oveCommonName :: string
  oveFixedIP :: string
  oveEnabled :: bool
  oveIsSiteToSite :: bool
  oveRemoteSubnets :: "string list"

record OVPNServerConfig =
  ovsEnabled :: bool
  ovsProtocol :: string
  ovsPort :: goint
  ovsDevice :: string
  ovsSubnet :: string
  ovsSubnet6 :: string
  ovsDNS :: string
  ovsCipher :: string
  ovsAuth :: string
  ovsTLSAuth :: bool
  ovsCompression :: bool
  ovsMaxClients :: goint
  ovsKeepalive :: string
  ovsClientToClient :: bool
  ovsDuplicateCN :: bool
  ovsPublicEndpoint :: string
  ovsClients :: "OVPNClientEntry list"
  ovsCCD :: "(string, string) gomap"

record OpenVPNConfig =
  ovpnClients :: "OVPNClientConfig list"
  ovpnServer :: OVPNServerConfig

record RoutingPolicy =
  rpName :: string
  rpEnabled :: bool
  rpPriority :: goint
  rpSrcMACs :: "string list"
  rpSrcIPs :: "string list"
  rpDstIPs :: "string list"
  rpDstPorts :: "goint list"
  rpDomains :: "string list"
  rpProtocol :: string
  rpTunnel :: string
  rpKillSwitch :: bool
  rpSchedule :: string

record RoutingConfig =
  rtPolicies :: "RoutingPolicy list"

record ShareConfig =
  shName :: string
  shPath :: string
  shGuestOK :: bool
  shReadOnly :: bool
  shValidUsers :: "string list"

record M3USourceConfig =
  m3uURL :: string
  m3uDownloadPath :: string
  m3uSchedule :: string
  m3uIncludeGroups :: "string list"
  m3uExcludeGroups :: "string list"

record NASConfig =
  nasShares :: "ShareConfig list"
  nasM3USources :: "M3USourceConfig list"

record SyslogServerConfig =
  slgsEnabled :: bool
  slgsListenUDP :: string
  slgsListenTCP :: string
  slgsEnableTLS :: bool
  slgsTLSCertFile :: string
  slgsTLSKeyFile :: string
  slgsTLSCAFile :: string
  slgsLogPath :: string
  slgsPerHostDirs :: bool
  slgsMaxRetention :: string

record SyslogClientConfig =
  slgcEnabled :: bool
  slgcRemoteHost :: string
  slgcProtocol :: string
  slgcEnableTLS :: bool
  slgcTLSCAFile :: string
  slgcFacilities :: "string list"

record SyslogConfig =
  slgServer :: SyslogServerConfig
  slgClient :: SyslogClientConfig

record NTPServerConfig =
  ntpsEnabled :: bool
  ntpsListenAddress :: string
  ntpsListenPort :: goint

record NTPClientConfig =
  ntpcEnabled :: bool
  ntpcSources :: "string list"
  ntpcFallback :: string

record NTPConfig =
  ntpServer :: NTPServerConfig
  ntpClient :: NTPClientConfig
  ntpRTCSync :: bool
  ntpAllowSubnets :: "string list"

record RAIDConfig =
  raidDevice :: string
  raidLevel :: goint
  raidMembers :: "string list"
  raidMountPoint :: string

record StorageConfig =
  stoRAID :: RAIDConfig
  stoSMARTCheckInterval :: goint

record BackupTarget =
  btType :: string
  btName :: string
  btPath :: string
  btEndpoint :: string
  btRegion :: string
  btBucket :: string
  btPrefix :: string
  btAccessKeyID :: string
  btSecretAccessKey :: string
  btUsePathStyle :: bool
  btHost :: string
  btPort :: goint
  btUser :: string
  btPassword :: string
  btKeyPath :: string
  btRemoteDir :: string

record BackupHistory =
  bhStartedAt :: gotime
  bhCompletedAt :: gotime
  bhBytes :: goint
  bhTargets :: "string list"
  bhStatus :: string
  bhMessage :: string

record BackupConfig =
  bcEnabled :: bool
  bcSchedule :: string
  bcPassphrase :: string
  bcRetention :: goint
  bcTargets :: "BackupTarget list"
  bcLastRun :: gotime
  bcLastStatus :: string
  bcLastError :: string
  bcHistory :: "BackupHistory list"

record Config =
  cfgFilePath :: string
  cfgSystem :: SystemConfig
  cfgInterfaces :: "InterfaceConfig list"
  cfgVLANs :: "VLANConfig list"
  cfgHealthCheck :: HealthCheckConfig
  cfgPPPoE :: PPPoEConfig
  cfgUSBTether :: USBTetherConfig
  cfgFirewall :: FirewallConfig
  cfgQoS :: QoSConfig
  cfgDNS :: DNSConfig
  cfgDHCP :: DHCPConfig
  cfgIPv6 :: IPv6Config
  cfgVPN :: VPNConfig
  cfgOpenVPN :: OpenVPNConfig
  cfgRouting :: RoutingConfig
  cfgNAS :: NASConfig
  cfgSyslog :: SyslogConfig
  cfgNTP :: NTPConfig
  cfgStorage :: StorageConfig
  cfgBackup :: BackupConfig

section \<open>Zero values\<close>

definition zero_SelfSignedConfig :: SelfSignedConfig where
  "zero_SelfSignedConfig = \<lparr>ssCN = [], ssValidDays = 0, ssSANs = []\<rparr>"

definition zero_DNSChallengeConfig :: DNSChallengeConfig where
  "zero_DNSChallengeConfig = \<lparr>dchProvider = [], dchAPIToken = []\<rparr>"

definition zero_ACMEConfig :: ACMEConfig where
  "zero_ACMEConfig = \<lparr>acmeEnabled = False, acmeEmail = [], acmeDomain = [],
     acmeProvider = [], acmeDNSChallenge = zero_DNSChallengeConfig\<rparr>"

definition zero_MkcertConfig :: MkcertConfig where
  "zero_MkcertConfig = \<lparr>mkCAInstalled = False\<rparr>"

definition zero_TLSConfig :: TLSConfig where
  "zero_TLSConfig = \<lparr>tlsMode = [], tlsCertFile = [], tlsKeyFile = [],
     tlsSelfSigned = zero_SelfSignedConfig, tlsACME = zero_ACMEConfig,
     tlsMkcert = zero_MkcertConfig\<rparr>"

definition zero_SystemConfig :: SystemConfig where
  "zero_SystemConfig = \<lparr>sysHostname = [], sysTimezone = [], sysLanguage = [],
     sysAdminPasswordHash = [], sysSessionSecret = [], sysDomain = [], sysWebPort = 0,
     sysWebBind = [], sysTLS = zero_TLSConfig\<rparr>"

definition zero_InterfaceConfig :: InterfaceConfig where
  "zero_InterfaceConfig = \<lparr>ifID = [], ifDevice = [], ifLabel = [], ifRole = [],
     ifType = [], ifAddress = [], ifAddress6 = [], ifMTU = 0, ifMAC = [], ifCloneMAC = [],
     ifIPv6 = []\<rparr>"

definition zero_VLANDHCPConfig :: VLANDHCPConfig where
  "zero_VLANDHCPConfig = \<lparr>vdEnabled = False, vdRangeStart = [], vdRangeEnd = [],
     vdLeaseTime = []\<rparr>"

definition zero_VLANConfig :: VLANConfig where
  "zero_VLANConfig = \<lparr>vlID = [], vlParent = [], vlVID = 0, vlLabel = [], vlRole = [],
     vlType = [], vlAddress = [], vlMTU = 0, vlIsolated = False,
     vlDHCP = zero_VLANDHCPConfig\<rparr>"

definition zero_HealthCheckTarget :: HealthCheckTarget where
  "zero_HealthCheckTarget = \<lparr>htType = [], htHost = [], htURL = [],
     htExpectStatus = 0\<rparr>"

definition zero_HealthCheckAction :: HealthCheckAction where
  "zero_HealthCheckAction = \<lparr>haType = [], haDelay = []\<rparr>"

definition zero_HealthCheckEntry :: HealthCheckEntry where
  "zero_HealthCheckEntry = \<lparr>hcName = [], hcInterface = [], hcTargets = [],
     hcInterval = [], hcTimeout = [], hcFailureThreshold = 0, hcFailureWindow = [],
     hcActions = [], hcCooldown = [], hcNotify = False\<rparr>"

definition zero_HealthCheckConfig :: HealthCheckConfig where
  "zero_HealthCheckConfig = \<lparr>hccEnabled = False, hccChecks = []\<rparr>"

definition zero_PPPoEConfig :: PPPoEConfig where
  "zero_PPPoEConfig = \<lparr>ppUsername = [], ppPassword = [], ppMTU = 0, ppMRU = 0,
     ppLCPEchoInterval = 0, ppLCPEchoFailure = 0, ppPersist = False, ppHoldoff = 0,
     ppIPv6CP = False\<rparr>"

definition zero_USBTetherConfig :: USBTetherConfig where
  "zero_USBTetherConfig = \<lparr>usbEnabled = False, usbAutoFailover = False,
     usbAutoFailback = False, usbFailoverDelay = [], usbFailbackDelay = [], usbInterface = [],
     usbMetric = 0, usbNAT = False, usbTTLFix = False\<rparr>"

definition zero_TTLFixConfig :: TTLFixConfig where
  "zero_TTLFixConfig = \<lparr>ttlEnabled = False, ttlValue = 0\<rparr>"

definition zero_OpenPort :: OpenPort where
  "zero_OpenPort = \<lparr>opName = [], opProtocol = [], opPort = 0, opSource = [],
     opEnabled = False\<rparr>"

definition zero_PortForward :: PortForward where
  "zero_PortForward = \<lparr>pfName = [], pfProtocol = [], pfExtPort = 0, pfIntIP = [],
     pfIntPort = 0, pfEnabled = False\<rparr>"

definition zero_FirewallRule :: FirewallRule where
  "zero_FirewallRule = \<lparr>frName = [], frChain = [], frAction = [], frSrcIP = [],
     frDstIP = [], frProtocol = [], frPort = 0, frInterface = [], frDirection = [],
     frEnabled = False, frPriority = 0\<rparr>"

definition zero_FirewallConfig :: FirewallConfig where
  "zero_FirewallConfig = \<lparr>fwDefaultPolicy = [], fwTTLFix = zero_TTLFixConfig,
     fwOpenPorts = [], fwPortForwards = [], fwRules = [], fwRateLimits = []\<rparr>"

definition zero_QoSConfig :: QoSConfig where
  "zero_QoSConfig = \<lparr>qosEnabled = False, qosProfile = [], qosUploadKbps = 0,
     qosDownloadKbps = 0, qosCongestionControl = [], qosPerDeviceLimits = []\<rparr>"

definition zero_QueryLogConfig :: QueryLogConfig where
  "zero_QueryLogConfig = \<lparr>qlEnabled = False, qlLogPath = [], qlMaxSize = [],
     qlRetention = [], qlLogBlocked = False\<rparr>"

definition zero_StaticDNSRecord :: StaticDNSRecord where
  "zero_StaticDNSRecord = \<lparr>srName = [], srIP = [], srLocalZone = False, srSource = [],
     srDisableAutoPTR = False\<rparr>"

definition zero_DNSConfig :: DNSConfig where
  "zero_DNSConfig = \<lparr>dnsUpstream = [], dnsDoTUpstream = [], dnsEnableDoT = False,
     dnsEnableDoH = False, dnsDoHUpstream = [], dnsBlocklistURLs = [],
     dnsBlocklistUpdateSchedule = [], dnsCacheSize = 0, dnsQueryLog = zero_QueryLogConfig,
     dnsStaticRecords = []\<rparr>"

definition zero_StaticLease :: StaticLease where
  "zero_StaticLease = \<lparr>slMAC = [], slIP = [], slHostname = []\<rparr>"

definition zero_DHCPConfig :: DHCPConfig where
  "zero_DHCPConfig = \<lparr>dhcpRangeStart = [], dhcpRangeEnd = [], dhcpLeaseTime = [],
     dhcpGateway = [], dhcpDNSServer = [], dhcpStaticLeases = []\<rparr>"

definition zero_IPv6WANConfig :: IPv6WANConfig where
  "zero_IPv6WANConfig = \<lparr>wan6AcceptRA = False, wan6RequestPrefix = False,
     wan6PrefixHint = [], wan6RapidCommit = False\<rparr>"

definition zero_IPv6ULAConfig :: IPv6ULAConfig where
  "zero_IPv6ULAConfig = \<lparr>ulaEnabled = False, ulaPrefix = []\<rparr>"

definition zero_IPv6LANConfig :: IPv6LANConfig where
  "zero_IPv6LANConfig = \<lparr>lan6Mode = [], lan6ULA = zero_IPv6ULAConfig, lan6RAInterval = 0,
     lan6RDNSS = False, lan6SubnetMap = []\<rparr>"

definition zero_IPv6TunnelConfig :: IPv6TunnelConfig where
  "zero_IPv6TunnelConfig = \<lparr>tunProvider = [], tunServerIPv4 = [], tunClientIPv6 = [],
     tunRoutedPrefix = [], tunTunnelID = [], tunUsername = [], tunUpdateKey = [],
     tunAutoUpdate = False, tunDevice = []\<rparr>"

definition zero_IPv6Config :: IPv6Config where
  "zero_IPv6Config = \<lparr>ip6Enabled = [], ip6Mode = [], ip6WAN = zero_IPv6WANConfig,
     ip6LAN = zero_IPv6LANConfig, ip6Tunnel = zero_IPv6TunnelConfig, ip6Privacy = False\<rparr>"

definition zero_WGClientTunnel :: WGClientTunnel where
  "zero_WGClientTunnel = \<lparr>wgcName = [], wgcEndpoint = [], wgcPrivateKey = [],
     wgcPublicKey = [], wgcAllowedIPs = [], wgcDNS = [], wgcTable = 0, wgcFwmark = 0\<rparr>"

definition zero_WGServerPeer :: WGServerPeer where
  "zero_WGServerPeer = \<lparr>wgpName = [], wgpPublicKey = [], wgpPresharedKey = [],
     wgpAllowedIPs = [], wgpKeepalive = 0, wgpEndpoint = [], wgpRemoteSubnets = [],
     wgpIsSiteToSite = False, wgpPending = False, wgpInviteExpiresAt = 0\<rparr>"

definition zero_WGServerConfig :: WGServerConfig where
  "zero_WGServerConfig = \<lparr>wgsEnabled = False, wgsListenPort = 0, wgsPrivateKey = [],
     wgsPublicKey = [], wgsAddress = [], wgsAddress6 = [], wgsDNS = [], wgsPostUp = [],
     wgsPostDown = [], wgsMTU = 0, wgsPublicEndpoint = [], wgsPeers = []\<rparr>"

definition zero_VPNConfig :: VPNConfig where
  "zero_VPNConfig = \<lparr>vpnClients = [], vpnServer = zero_WGServerConfig,
     vpnDeviceAssignments = []\<rparr>"

definition zero_OVPNClientConfig :: OVPNClientConfig where
  "zero_OVPNClientConfig = \<lparr>ovcName = [], ovcConfigFile = [], ovcRemoteHost = [],
     ovcRemotePort = 0, ovcProtocol = [], ovcCipher = [], ovcAuth = [], ovcTLSAuth = False,
     ovcUsername = [], ovcPassword = [], ovcAutoConnect = False, ovcTable = 0,
     ovcFwmark = 0\<rparr>"

definition zero_OVPNClientEntry :: OVPNClientEntry where
  "zero_OVPNClientEntry = \<lparr>oveName = [], oveCommonName = [], oveFixedIP = [],
     oveEnabled = False, oveIsSiteToSite = False, oveRemoteSubnets = []\<rparr>"

definition zero_OVPNServerConfig :: OVPNServerConfig where
  "zero_OVPNServerConfig = \<lparr>ovsEnabled = False, ovsProtocol = [], ovsPort = 0,
     ovsDevice = [], ovsSubnet = [], ovsSubnet6 = [], ovsDNS = [], ovsCipher = [], ovsAuth = [],
     ovsTLSAuth = False, ovsCompression = False, ovsMaxClients = 0, ovsKeepalive = [],
     ovsClientToClient = False, ovsDuplicateCN = False, ovsPublicEndpoint = [], ovsClients = [],
     ovsCCD = []\<rparr>"

definition zero_OpenVPNConfig :: OpenVPNConfig where
  "zero_OpenVPNConfig = \<lparr>ovpnClients = [], ovpnServer = zero_OVPNServerConfig\<rparr>"

definition zero_RoutingPolicy :: RoutingPolicy where
  "zero_RoutingPolicy = \<lparr>rpName = [], rpEnabled = False, rpPriority = 0, rpSrcMACs = [],
     rpSrcIPs = [], rpDstIPs = [], rpDstPorts = [], rpDomains = [], rpProtocol = [],
     rpTunnel = [], rpKillSwitch = False, rpSchedule = []\<rparr>"

definition zero_RoutingConfig :: RoutingConfig where
  "zero_RoutingConfig = \<lparr>rtPolicies = []\<rparr>"

definition zero_ShareConfig :: ShareConfig where
  "zero_ShareConfig = \<lparr>shName = [], shPath = [], shGuestOK = False, shReadOnly = False,
     shValidUsers = []\<rparr>"

definition zero_M3USourceConfig :: M3USourceConfig where
  "zero_M3USourceConfig = \<lparr>m3uURL = [], m3uDownloadPath = [], m3uSchedule = [],
     m3uIncludeGroups = [], m3uExcludeGroups = []\<rparr>"

definition zero_NASConfig :: NASConfig where
  "zero_NASConfig = \<lparr>nasShares = [], nasM3USources = []\<rparr>"

definition zero_SyslogServerConfig :: SyslogServerConfig where
  "zero_SyslogServerConfig = \<lparr>slgsEnabled = False, slgsListenUDP = [], slgsListenTCP = [],
     slgsEnableTLS = False, slgsTLSCertFile = [], slgsTLSKeyFile = [], slgsTLSCAFile = [],
     slgsLogPath = [], slgsPerHostDirs = False, slgsMaxRetention = []\<rparr>"

definition zero_SyslogClientConfig :: SyslogClientConfig where
  "zero_SyslogClientConfig = \<lparr>slgcEnabled = False, slgcRemoteHost = [], slgcProtocol = [],
     slgcEnableTLS = False, slgcTLSCAFile = [], slgcFacilities = []\<rparr>"

definition zero_SyslogConfig :: SyslogConfig where
  "zero_SyslogConfig = \<lparr>slgServer = zero_SyslogServerConfig,
     slgClient = zero_SyslogClientConfig\<rparr>"

definition zero_NTPServerConfig :: NTPServerConfig where
  "zero_NTPServerConfig = \<lparr>ntpsEnabled = False, ntpsListenAddress = [],
     ntpsListenPort = 0\<rparr>"

definition zero_NTPClientConfig :: NTPClientConfig where
  "zero_NTPClientConfig = \<lparr>ntpcEnabled = False, ntpcSources = [],
     ntpcFallback = []\<rparr>"

definition zero_NTPConfig :: NTPConfig where
  "zero_NTPConfig = \<lparr>ntpServer = zero_NTPServerConfig, ntpClient = zero_NTPClientConfig,
     ntpRTCSync = False, ntpAllowSubnets = []\<rparr>"

definition zero_RAIDConfig :: RAIDConfig where
  "zero_RAIDConfig = \<lparr>raidDevice = [], raidLevel = 0, raidMembers = [],
     raidMountPoint = []\<rparr>"

definition zero_StorageConfig :: StorageConfig where
  "zero_StorageConfig = \<lparr>stoRAID = zero_RAIDConfig, stoSMARTCheckInterval = 0\<rparr>"

definition zero_BackupTarget :: BackupTarget where
  "zero_BackupTarget = \<lparr>btType = [], btName = [], btPath = [], btEndpoint = [],
     btRegion = [], btBucket = [], btPrefix = [], btAccessKeyID = [], btSecretAccessKey = [],
     btUsePathStyle = False, btHost = [], btPort = 0, btUser = [], btPassword = [],
     btKeyPath = [], btRemoteDir = []\<rparr>"

definition zero_BackupHistory :: BackupHistory where
  "zero_BackupHistory = \<lparr>bhStartedAt = 0, bhCompletedAt = 0, bhBytes = 0, bhTargets = [],
     bhStatus = [], bhMessage = []\<rparr>"

definition zero_BackupConfig :: BackupConfig where
  "zero_BackupConfig = \<lparr>bcEnabled = False, bcSchedule = [], bcPassphrase = [],
     bcRetention = 0, bcTargets = [], bcLastRun = 0, bcLastStatus = [], bcLastError = [],
     bcHistory = []\<rparr>"

definition zero_Config :: Config where
  "zero_Config = \<lparr>cfgFilePath = [], cfgSystem = zero_SystemConfig, cfgInterfaces = [],
     cfgVLANs = [], cfgHealthCheck = zero_HealthCheckConfig, cfgPPPoE = zero_PPPoEConfig,
     cfgUSBTether = zero_USBTetherConfig, cfgFirewall = zero_FirewallConfig,
     cfgQoS = zero_QoSConfig, cfgDNS = zero_DNSConfig, cfgDHCP = zero_DHCPConfig,
     cfgIPv6 = zero_IPv6Config, cfgVPN = zero_VPNConfig, cfgOpenVPN = zero_OpenVPNConfig,
     cfgRouting = zero_RoutingConfig, cfgNAS = zero_NASConfig, cfgSyslog = zero_SyslogConfig,
     cfgNTP = zero_NTPConfig, cfgStorage = zero_StorageConfig,
     cfgBackup = zero_BackupConfig\<rparr>"

lemmas zero_defs =
  zero_SelfSignedConfig_def zero_DNSChallengeConfig_def zero_ACMEConfig_def zero_MkcertConfig_def
  zero_TLSConfig_def zero_SystemConfig_def zero_InterfaceConfig_def zero_VLANDHCPConfig_def
  zero_VLANConfig_def zero_HealthCheckTarget_def zero_HealthCheckAction_def
  zero_HealthCheckEntry_def zero_HealthCheckConfig_def zero_PPPoEConfig_def
  zero_USBTetherConfig_def zero_TTLFixConfig_def zero_OpenPort_def zero_PortForward_def
  zero_FirewallRule_def zero_FirewallConfig_def zero_QoSConfig_def zero_QueryLogConfig_def
  zero_StaticDNSRecord_def zero_DNSConfig_def zero_StaticLease_def zero_DHCPConfig_def
  zero_IPv6WANConfig_def zero_IPv6ULAConfig_def zero_IPv6LANConfig_def zero_IPv6TunnelConfig_def
  zero_IPv6Config_def zero_WGClientTunnel_def zero_WGServerPeer_def zero_WGServerConfig_def
  zero_VPNConfig_def zero_OVPNClientConfig_def zero_OVPNClientEntry_def zero_OVPNServerConfig_def
  zero_OpenVPNConfig_def zero_RoutingPolicy_def zero_RoutingConfig_def zero_ShareConfig_def
  zero_M3USourceConfig_def zero_NASConfig_def zero_SyslogServerConfig_def
  zero_SyslogClientConfig_def zero_SyslogConfig_def zero_NTPServerConfig_def
  zero_NTPClientConfig_def zero_NTPConfig_def zero_RAIDConfig_def zero_StorageConfig_def
  zero_BackupTarget_def zero_BackupHistory_def zero_BackupConfig_def zero_Config_def

end
