(* ===== verification/GoPath.thy ===== *)
theory GoPath
  imports Prelude
begin

text \<open>
  The functions of Go's \<open>path/filepath\<close> package the program uses, for Unix paths, and the facts
  the path checks of the agent and of the backup service rest on: a cleaned rooted path has no
  \<open>..\<close> component, and comparing strings against a directory name that ends in a slash is the
  same as comparing components.
\<close>

section \<open>Definitions\<close>

abbreviation slash :: char where "slash \<equiv> CHR ''/''"

definition IsAbs :: "string \<Rightarrow> bool" where
  "IsAbs p \<longleftrightarrow> HasPrefix p ''/''"

text \<open>One pass over the components with a stack of those kept, as \<open>filepath.Clean\<close> makes it.\<close>

fun clean_comps :: "bool \<Rightarrow> string list \<Rightarrow> string list \<Rightarrow> string list" where
  "clean_comps rooted acc [] = rev acc"
| "clean_comps rooted acc (c # cs) =
     (if c = [] \<or> c = ''.'' then clean_comps rooted acc cs
      else if c = ''..'' then
        (case acc of
           [] \<Rightarrow> clean_comps rooted (if rooted then [] else [''..'']) cs
         | a # as \<Rightarrow> if a = ''..'' then clean_comps rooted (''..'' # acc) cs
                    else clean_comps rooted as cs)
      else clean_comps rooted (c # acc) cs)"

definition path_comps :: "string \<Rightarrow> string list" where
  "path_comps p = clean_comps (IsAbs p) [] (Split p slash)"

definition Clean :: "string \<Rightarrow> string" where
  "Clean p =
     (if p = [] then ''.''
      else if IsAbs p then slash # Join (path_comps p) ''/''
      else if path_comps p = [] then ''.'' else Join (path_comps p) ''/'')"

definition path_Join :: "string \<Rightarrow> string \<Rightarrow> string" where
  "path_Join a b =
     (if a \<noteq> [] then Clean (a @ ''/'' @ b) else if b \<noteq> [] then Clean b else [])"

definition path_Base :: "string \<Rightarrow> string" where
  "path_Base p =
     (if p = [] then ''.''
      else (let q = rev (dropWhile (\<lambda>c. c = slash) (rev p))
            in if q = [] then ''/'' else last (Split q slash)))"

definition path_Dir :: "string \<Rightarrow> string" where
  "path_Dir p = Clean (rev (dropWhile (\<lambda>c. c \<noteq> slash) (rev p)))"

section \<open>Cleaned paths\<close>

text \<open>A component that names a directory entry: not empty, not \<open>.\<close> or \<open>..\<close>, no slash.\<close>

definition plain_comp :: "string \<Rightarrow> bool" where
  "plain_comp c \<longleftrightarrow> c \<noteq> [] \<and> c \<noteq> ''.'' \<and> c \<noteq> ''..'' \<and> slash \<notin> set c"

lemma clean_comps_plain:
  "\<forall>c \<in> set acc. plain_comp c \<Longrightarrow> \<forall>c \<in> set cs. slash \<notin> set c \<Longrightarrow>
     \<forall>c \<in> set (clean_comps True acc cs). plain_comp c"
proof (induction cs arbitrary: acc)
  case Nil
  then show ?case by simp
next
  case (Cons c cs)
  have IH: "\<forall>x \<in> set (clean_comps True a cs). plain_comp x" if "\<forall>x \<in> set a. plain_comp x" for a
    using Cons.IH [OF that] Cons.prems(2) by simp
  consider "c = [] \<or> c = ''.''" | "c = ''..''" | "plain_comp c"
    using Cons.prems(2) by (auto simp: plain_comp_def)
  then show ?case
  proof cases
    case 1
    then show ?thesis using IH [OF Cons.prems(1)] by auto
  next
    case 2
    show ?thesis
    proof (cases acc)
      case Nil
      with 2 show ?thesis using IH [of "[]"] by simp
    next
      case (Cons a as)
      then have "a \<noteq> ''..''" "\<forall>x \<in> set as. plain_comp x"
        using Cons.prems(1) by (auto simp: plain_comp_def)
      with 2 Cons show ?thesis using IH [of as] by simp
    qed
  next
    case 3
    then have "clean_comps True acc (c # cs) = clean_comps True (c # acc) cs"
      by (simp add: plain_comp_def)
    then show ?thesis using IH [of "c # acc"] 3 Cons.prems(1) by simp
  qed
qed

lemma path_comps_plain: "IsAbs p \<Longrightarrow> c \<in> set (path_comps p) \<Longrightarrow> plain_comp c"
  using clean_comps_plain [of "[]" "Split p slash"]
  by (auto simp: path_comps_def dest: Split_no_sep)

lemma clean_comps_id:
  "\<forall>c \<in> set cs. plain_comp c \<Longrightarrow> clean_comps r acc cs = rev acc @ cs"
  by (induction cs arbitrary: acc) (auto simp: plain_comp_def)

lemma Split_slash_Join:
  assumes "\<forall>c \<in> set cs. plain_comp c" and "cs \<noteq> []"
  shows "Split (Join cs ''/'') slash = cs"
  using assms by (intro Split_Join) (auto simp: plain_comp_def)

lemma path_comps_rooted:
  assumes "\<forall>c \<in> set cs. plain_comp c"
  shows "path_comps (slash # Join cs ''/'') = cs"
proof (cases "cs = []")
  case True
  then show ?thesis by (simp add: path_comps_def IsAbs_def HasPrefix_def)
next
  case False
  with assms show ?thesis
    by (simp add: path_comps_def IsAbs_def HasPrefix_def Split_slash_Join clean_comps_id)
qed

lemma IsAbs_slash [simp]: "IsAbs (slash # p)"
  by (simp add: IsAbs_def HasPrefix_def)

lemma IsAbs_not_Nil [simp]: "\<not> IsAbs []"
  by (simp add: IsAbs_def HasPrefix_def)

lemma Clean_rooted: "IsAbs p \<Longrightarrow> Clean p = slash # Join (path_comps p) ''/''"
  by (auto simp: Clean_def IsAbs_def HasPrefix_def)

lemma path_comps_Clean: "IsAbs p \<Longrightarrow> path_comps (Clean p) = path_comps p"
  using path_comps_rooted [of "path_comps p"] path_comps_plain [of p] by (simp add: Clean_rooted)

lemma Clean_idem: "IsAbs p \<Longrightarrow> Clean (Clean p) = Clean p"
  by (simp add: Clean_rooted [of p] Clean_rooted [of "slash # _"] path_comps_rooted path_comps_plain)

lemma Clean_eq_iff: "IsAbs p \<Longrightarrow> IsAbs q \<Longrightarrow> Clean p = Clean q \<longleftrightarrow> path_comps p = path_comps q"
  by (metis Clean_rooted path_comps_Clean)

section \<open>Containment\<close>

lemma Split_Join_append:
  assumes "rs \<noteq> []" and "\<forall>r \<in> set rs. plain_comp r"
  shows "Split (Join rs ''/'' @ slash # t) slash = rs @ Split t slash"
  using assms
proof (induction rs rule: list_nonempty_induct)
  case (single r)
  then show ?case by (simp add: plain_comp_def Split_append_sep)
next
  case (cons r rs)
  then show ?case by (simp add: Join_Cons plain_comp_def Split_append_sep)
qed

lemma Join_append: "xs \<noteq> [] \<Longrightarrow> ys \<noteq> [] \<Longrightarrow> Join (xs @ ys) sep = Join xs sep @ sep @ Join ys sep"
  by (induction xs rule: list_nonempty_induct) (auto simp: Join_Cons)

text \<open>
  The string test \<open>HasPrefix clean "/r1/.../rn/"\<close> decides whether the components of the path
  properly extend \<open>r1, ..., rn\<close>.
\<close>

lemma HasPrefix_dir_iff:
  assumes "IsAbs p" and rs: "rs \<noteq> []" "\<forall>r \<in> set rs. plain_comp r"
  shows "HasPrefix (Clean p) (slash # Join rs ''/'' @ ''/'') \<longleftrightarrow> strict_prefix rs (path_comps p)"
proof
  let ?cs = "path_comps p"
  assume "HasPrefix (Clean p) (slash # Join rs ''/'' @ ''/'')"
  then obtain t where t: "Join ?cs ''/'' = Join rs ''/'' @ slash # t"
    using assms(1) by (auto simp: HasPrefix_iff Clean_rooted)
  then have "?cs \<noteq> []" by auto
  then have "?cs = Split (Join ?cs ''/'') slash"
    using path_comps_plain [OF assms(1)] by (simp add: Split_slash_Join)
  also have "\<dots> = rs @ Split t slash" using t rs by (simp add: Split_Join_append)
  finally show "strict_prefix rs ?cs" by (simp add: strict_prefix_def)
next
  let ?cs = "path_comps p"
  assume "strict_prefix rs ?cs"
  then obtain ds where "?cs = rs @ ds" and "ds \<noteq> []"
    by (auto simp: strict_prefix_def prefix_def)
  with rs assms(1) show "HasPrefix (Clean p) (slash # Join rs ''/'' @ ''/'')"
    by (auto simp: HasPrefix_iff Clean_rooted Join_append)
qed

text \<open>Joining a relative name without \<open>..\<close> below a rooted directory appends its components.\<close>

lemma clean_comps_append:
  "\<forall>c \<in> set bs. plain_comp c \<or> c = [] \<or> c = ''.'' \<Longrightarrow>
     clean_comps r acc (as @ bs) = clean_comps r acc as @ filter plain_comp bs"
proof (induction as arbitrary: acc)
  case Nil
  then show ?case
    by (induction bs arbitrary: acc) (auto simp: plain_comp_def)
next
  case (Cons a as)
  then show ?case by (auto split: list.splits)
qed

lemma Split_append: "Split (a @ slash # b) slash = Split a slash @ Split b slash"
proof (induction a)
  case Nil
  then show ?case by simp
next
  case (Cons x a)
  obtain q qs where "Split a slash = q # qs" by (meson Split_not_Nil neq_Nil_conv)
  with Cons show ?case by simp
qed

lemma path_comps_path_Join:
  assumes "IsAbs a" and "\<forall>c \<in> set (Split b slash). c \<noteq> ''..''"
  shows "path_comps (path_Join a b) = path_comps a @ filter plain_comp (Split b slash)"
proof -
  have ne: "a \<noteq> []" and abs: "IsAbs (a @ slash # b)"
    using assms(1) by (auto simp: IsAbs_def HasPrefix_iff)
  have "\<forall>c \<in> set (Split b slash). plain_comp c \<or> c = [] \<or> c = ''.''"
    using assms(2) Split_no_sep [of _ b slash] by (auto simp: plain_comp_def)
  then have "path_comps (a @ slash # b) = path_comps a @ filter plain_comp (Split b slash)"
    using assms(1) abs by (simp add: path_comps_def Split_append clean_comps_append)
  with ne abs show ?thesis by (simp add: path_Join_def path_comps_Clean)
qed

lemma IsAbs_path_Join: "IsAbs a \<Longrightarrow> IsAbs (path_Join a b)"
proof -
  assume "IsAbs a"
  then have "a \<noteq> []" "IsAbs (a @ slash # b)" by (auto simp: IsAbs_def HasPrefix_iff)
  then show ?thesis by (simp add: path_Join_def Clean_rooted)
qed

lemma path_Base_no_slash: "path_Base p = ''/'' \<or> slash \<notin> set (path_Base p)"
proof -
  have "slash \<notin> set (last (Split q slash))" for q
    by (rule Split_no_sep) (rule last_in_set, simp)
  then show ?thesis by (simp add: path_Base_def Let_def)
qed

section \<open>Relative paths stay relative\<close>

lemma clean_comps_nonempty:
  "\<forall>c \<in> set acc. c \<noteq> [] \<and> slash \<notin> set c \<Longrightarrow> \<forall>c \<in> set cs. slash \<notin> set c \<Longrightarrow>
     \<forall>c \<in> set (clean_comps r acc cs). c \<noteq> [] \<and> slash \<notin> set c"
proof (induction cs arbitrary: acc)
  case Nil
  then show ?case by simp
next
  case (Cons c cs)
  have IH: "\<forall>x \<in> set (clean_comps r a cs). x \<noteq> [] \<and> slash \<notin> set x"
    if "\<forall>x \<in> set a. x \<noteq> [] \<and> slash \<notin> set x" for a
    using Cons.IH [OF that] Cons.prems(2) by simp
  consider "c = [] \<or> c = ''.''" | "c = ''..''" | "c \<noteq> []" "c \<noteq> ''.''" "c \<noteq> ''..''" by blast
  then show ?case
  proof cases
    case 1
    then show ?thesis using IH [OF Cons.prems(1)] by auto
  next
    case 2
    show ?thesis
    proof (cases acc)
      case Nil
      then have eq: "clean_comps r acc (c # cs) = clean_comps r (if r then [] else [''..'']) cs"
        using 2 by simp
      show ?thesis unfolding eq by (rule IH) simp
    next
      case (Cons a as)
      then have as: "\<forall>x \<in> set as. x \<noteq> [] \<and> slash \<notin> set x" using Cons.prems(1) by simp
      have eq: "clean_comps r acc (c # cs) =
          clean_comps r (if a = ''..'' then ''..'' # acc else as) cs"
        using 2 Cons by simp
      have "\<forall>x \<in> set (''..'' # acc). x \<noteq> [] \<and> slash \<notin> set x" using Cons.prems(1) by simp
      with as show ?thesis unfolding eq by (intro IH) presburger
    qed
  next
    case 3
    then have eq: "clean_comps r acc (c # cs) = clean_comps r (c # acc) cs" by simp
    show ?thesis unfolding eq by (rule IH) (use 3 Cons.prems in simp)
  qed
qed

lemma IsAbs_Clean: "IsAbs (Clean p) \<longleftrightarrow> IsAbs p"
proof (cases "IsAbs p \<or> p = []")
  case True
  then show ?thesis by (auto simp: Clean_rooted Clean_def IsAbs_def HasPrefix_def)
next
  case False
  have ne: "\<forall>c \<in> set (path_comps p). c \<noteq> [] \<and> slash \<notin> set c"
    unfolding path_comps_def by (rule clean_comps_nonempty) (auto dest: Split_no_sep)
  have "\<not> IsAbs (Join cs ''/'')" if "\<forall>c \<in> set cs. c \<noteq> [] \<and> slash \<notin> set c" "cs \<noteq> []" for cs
    using that by (cases cs; cases "hd cs"; cases "tl cs") (auto simp: IsAbs_def HasPrefix_def)
  with ne False show ?thesis by (auto simp: Clean_def IsAbs_def HasPrefix_def)
qed

lemma Clean_Clean: "IsAbs (Clean p) \<Longrightarrow> Clean (Clean p) = Clean p"
  by (simp add: IsAbs_Clean Clean_idem)

lemma Clean_path_Join: "IsAbs (path_Join a b) \<Longrightarrow> Clean (path_Join a b) = path_Join a b"
  by (auto simp: path_Join_def Clean_Clean split: if_splits)

section \<open>Prefixes of file names\<close>

lemma Split_prefix: "slash \<notin> set b \<Longrightarrow> \<exists>x xs. Split (b @ t) slash = (b @ x) # xs"
proof (induction b)
  case Nil
  then show ?case by (cases "Split t slash") auto
next
  case (Cons a b)
  then obtain x xs where "Split (b @ t) slash = (b @ x) # xs" by auto
  with Cons.prems show ?case by auto
qed

text \<open>
  The string test \<open>HasPrefix clean "/r1/.../rn/b"\<close> puts the path in the directory
  \<open>r1, ..., rn\<close>, below an entry whose name starts with \<open>b\<close>.
\<close>

lemma HasPrefix_file:
  assumes "IsAbs p" and rs: "\<forall>r \<in> set rs. plain_comp r" and b: "slash \<notin> set b" "b \<noteq> []"
    and "HasPrefix (Clean p) (slash # Join (rs @ [b]) ''/'')"
  shows "\<exists>x xs. path_comps p = rs @ (b @ x) # xs"
proof -
  let ?cs = "path_comps p"
  have ne: "Join (rs @ [b]) ''/'' \<noteq> []" using b by (cases "rs = []") (auto simp: Join_append)
  obtain t where t: "Join ?cs ''/'' = Join (rs @ [b]) ''/'' @ t"
    using assms(1,5) by (auto simp: HasPrefix_iff Clean_rooted)
  with ne have "?cs \<noteq> []" by auto
  then have cs: "?cs = Split (Join ?cs ''/'') slash"
    using path_comps_plain [OF assms(1)] by (simp add: Split_slash_Join)
  obtain x xs where x: "Split (b @ t) slash = (b @ x) # xs" using Split_prefix [OF b(1)] by blast
  show ?thesis
  proof (cases "rs = []")
    case True
    with cs t x show ?thesis by auto
  next
    case False
    with t have "Join ?cs ''/'' = Join rs ''/'' @ slash # (b @ t)" by (simp add: Join_append)
    with cs x Split_Join_append [OF False rs, of "b @ t"] show ?thesis by auto
  qed
qed

end
