(* ===== verification/ConfigStore.thy ===== *)
theory ConfigStore
  imports ConfigTypes GoPath
begin

text \<open>
  Loading, validating, defaulting and saving the configuration
  (\<^verbatim>\<open>internal/config/config.go\<close>, \<^verbatim>\<open>validate.go\<close>, \<^verbatim>\<open>defaults.go\<close>), over an explicit disk.
  The operating system and the YAML package are parameters (the record \<open>osenv\<close>): each call says
  whether it fails. \<open>atomicWrite\<close> returns every disk the write passes through, so that a crash
  between two system calls is a state of the model. The locale \<open>config_mutation\<close> is the contract
  all services share: check, change the configuration in memory, save it.
\<close>

section \<open>The disk and its environment\<close>

type_synonym disk = "string \<rightharpoonup> string"

datatype os_call =
    OsOpen string
  | OsRead string
  | OsCreateTemp string
  | OsWrite string
  | OsSync string
  | OsClose string
  | OsRename string string
  | OsRemove string

record osenv =
  yaml_Marshal :: "Config \<Rightarrow> error + string"
  yaml_Unmarshal :: "string \<Rightarrow> error + Config"
  os_err :: "os_call \<Rightarrow> error option"
  tmp_rand :: string
  short_write :: "string \<Rightarrow> nat"

record store =
  cfg :: Config
  disk :: disk

section \<open>Atomic replacement of a file\<close>

definition tmpName :: "osenv \<Rightarrow> string \<Rightarrow> string" where
  "tmpName env path = path_Dir path @ ''/.config-'' @ tmp_rand env @ ''.tmp''"

definition remove_tmp :: "osenv \<Rightarrow> string \<Rightarrow> disk \<Rightarrow> disk" where
  "remove_tmp env tmp d = (if os_err env (OsRemove tmp) = None then d(tmp := None) else d)"

definition atomicWrite :: "osenv \<Rightarrow> string \<Rightarrow> string \<Rightarrow> disk \<Rightarrow> error option \<times> disk list" where
  "atomicWrite env path data d =
     (let tmp = tmpName env path in
      case os_err env (OsCreateTemp (path_Dir path)) of
        Some e \<Rightarrow> (Some (''create temp file: '' @ e), [d])
      | None \<Rightarrow>
        (let d1 = d(tmp \<mapsto> []) in
         case os_err env (OsWrite tmp) of
           Some e \<Rightarrow> (let d2 = d1(tmp \<mapsto> take (short_write env data) data)
                      in (Some (''write temp: '' @ e), [d, d1, d2, remove_tmp env tmp d2]))
         | None \<Rightarrow>
           (let d2 = d1(tmp \<mapsto> data) in
            case os_err env (OsSync tmp) of
              Some e \<Rightarrow> (Some (''fsync temp: '' @ e), [d, d1, d2, remove_tmp env tmp d2])
            | None \<Rightarrow>
              (case os_err env (OsClose tmp) of
                 Some e \<Rightarrow> (Some (''close temp: '' @ e), [d, d1, d2, remove_tmp env tmp d2])
               | None \<Rightarrow>
                 (case os_err env (OsRename tmp path) of
                    Some e \<Rightarrow> (Some (''rename temp to config: '' @ e),
                               [d, d1, d2, remove_tmp env tmp d2])
                  | None \<Rightarrow> (None, [d, d1, d2, (d2(tmp := None))(path \<mapsto> data)]))))))"

definition Save :: "osenv \<Rightarrow> string \<Rightarrow> store \<Rightarrow> error option \<times> store" where
  "Save env path st =
     (case yaml_Marshal env (cfg st) of
        Inl e \<Rightarrow> (Some (''marshal config: '' @ e), st)
      | Inr data \<Rightarrow> (case atomicWrite env path data (disk st) of
          (r, ds) \<Rightarrow> (r, st\<lparr>disk := last ds\<rparr>)))"

definition SaveToFile :: "osenv \<Rightarrow> store \<Rightarrow> error option \<times> store" where
  "SaveToFile env st =
     (if cfgFilePath (cfg st) = [] then (Some ''config file path not set'', st)
      else Save env (cfgFilePath (cfg st)) st)"

definition SetFilePath :: "string \<Rightarrow> Config \<Rightarrow> Config" where
  "SetFilePath path c = c\<lparr>cfgFilePath := path\<rparr>"

section \<open>Loading\<close>

definition DNSSourceUser :: string where "DNSSourceUser = ''user''"
definition DNSSourceDHCPStatic :: string where "DNSSourceDHCPStatic = ''dhcp-static''"

text \<open>The migration loop of \<open>Load\<close>.\<close>

definition migrate_record :: "StaticDNSRecord \<Rightarrow> StaticDNSRecord" where
  "migrate_record r = (if srSource r = [] then r\<lparr>srSource := DNSSourceUser\<rparr> else r)"

definition Load :: "osenv \<Rightarrow> string \<Rightarrow> disk \<Rightarrow> error + Config" where
  "Load env path d =
     (case os_err env (OsOpen path) of
        Some e \<Rightarrow> Inl (''open config: '' @ e)
      | None \<Rightarrow>
        (case d path of
           None \<Rightarrow> Inl (''open config: open '' @ path @ '': no such file or directory'')
         | Some data \<Rightarrow>
           (case os_err env (OsRead path) of
              Some e \<Rightarrow> Inl (''read config: '' @ e)
            | None \<Rightarrow>
              (case yaml_Unmarshal env data of
                 Inl e \<Rightarrow> Inl (''parse config: '' @ e)
               | Inr c \<Rightarrow>
                 Inr (c\<lparr>cfgDNS := (cfgDNS c)\<lparr>dnsStaticRecords :=
                          map migrate_record (dnsStaticRecords (cfgDNS c))\<rparr>,
                        cfgFilePath := path\<rparr>)))))"

section \<open>Validation\<close>

definition validate_iface :: "nat \<Rightarrow> InterfaceConfig \<Rightarrow> error list" where
  "validate_iface i f =
     (let pre = ''interfaces['' @ Itoa (int i) @ '']'' in
      (if ifID f = [] then [pre @ ''.id is required''] else []) @
      (if ifDevice f = [] then [pre @ ''.device is required''] else []) @
      (if ifRole f \<notin> {''wan'', ''lan'', ''unused''}
       then [pre @ ''.role must be wan, lan, or unused''] else []))"

definition validate_vlan :: "nat \<Rightarrow> VLANConfig \<Rightarrow> error list" where
  "validate_vlan i v =
     (let pre = ''vlans['' @ Itoa (int i) @ '']'' in
      (if vlVID v < 1 \<or> vlVID v > 4094 then [pre @ ''.vid must be 1-4094''] else []) @
      (if vlParent v = [] then [pre @ ''.parent is required''] else []))"

definition quoted :: "string \<Rightarrow> string" where
  "quoted s = [CHR 0x27] @ s @ [CHR 0x27]"

definition Validate :: "Config \<Rightarrow> error list" where
  "Validate c =
     (if sysHostname (cfgSystem c) = [] then [''system.hostname is required''] else []) @
     (if sysWebPort (cfgSystem c) < 1 \<or> sysWebPort (cfgSystem c) > 65535
      then [''system.webPort must be 1-65535''] else []) @
     (if sysLanguage (cfgSystem c) \<noteq> [] \<and> sysLanguage (cfgSystem c) \<noteq> ''tr'' \<and>
         sysLanguage (cfgSystem c) \<noteq> ''en''
      then [''system.language must be '' @ quoted ''tr'' @ '' or '' @ quoted ''en''] else []) @
     (if tlsMode (sysTLS (cfgSystem c)) \<notin> {''self-signed'', ''mkcert'', ''acme'', []}
      then [''system.tls.mode must be self-signed, mkcert, or acme''] else []) @
     concat (map (\<lambda>(i, f). validate_iface i f) (enumerate 0 (cfgInterfaces c))) @
     (if ppMTU (cfgPPPoE c) > 0 \<and> (ppMTU (cfgPPPoE c) < 68 \<or> ppMTU (cfgPPPoE c) > 1500)
      then [''pppoe.mtu must be 68-1500''] else []) @
     (if ip6Enabled (cfgIPv6 c) \<notin> {''auto'', ''on'', ''off'', []}
      then [''ipv6.enabled must be auto, on, or off''] else []) @
     (if qosProfile (cfgQoS c) \<notin> {''cake'', ''fq_codel'', ''none'', []}
      then [''qos.profile must be cake, fq_codel, or none''] else []) @
     (if qosCongestionControl (cfgQoS c) \<notin> {''bbr'', ''cubic'', []}
      then [''qos.congestionControl must be bbr or cubic''] else []) @
     concat (map (\<lambda>(i, v). validate_vlan i v) (enumerate 0 (cfgVLANs c)))"

section \<open>Defaults\<close>

definition DefaultConfig :: Config where
  "DefaultConfig = zero_Config\<lparr>
     cfgSystem := zero_SystemConfig\<lparr>sysHostname := ''hermes'', sysDomain := ''lan'',
       sysTimezone := ''Europe/Istanbul'', sysLanguage := ''en'', sysWebPort := 8443,
       sysWebBind := ''10.10.10.1'',
       sysTLS := zero_TLSConfig\<lparr>tlsMode := ''self-signed'',
         tlsSelfSigned := \<lparr>ssCN = ''hermes.lan'', ssValidDays = 3650,
           ssSANs = [''hermes.lan'', ''10.10.10.1'', ''router.local'']\<rparr>\<rparr>\<rparr>,
     cfgPPPoE := zero_PPPoEConfig\<lparr>ppMTU := 1492, ppMRU := 1492, ppLCPEchoInterval := 10,
       ppLCPEchoFailure := 3, ppPersist := True, ppHoldoff := 5, ppIPv6CP := True\<rparr>,
     cfgFirewall := zero_FirewallConfig\<lparr>fwDefaultPolicy := ''drop'',
       fwTTLFix := zero_TTLFixConfig\<lparr>ttlValue := 64\<rparr>,
       fwRateLimits := [(''ssh'', ''3/minute''), (''web'', ''30/minute'')]\<rparr>,
     cfgQoS := zero_QoSConfig\<lparr>qosProfile := ''cake'', qosUploadKbps := 40000,
       qosDownloadKbps := 950000, qosCongestionControl := ''bbr''\<rparr>,
     cfgDHCP := zero_DHCPConfig\<lparr>dhcpRangeStart := ''10.10.10.100'',
       dhcpRangeEnd := ''10.10.10.250'', dhcpLeaseTime := ''12h'', dhcpGateway := ''10.10.10.1'',
       dhcpDNSServer := ''10.10.10.1''\<rparr>,
     cfgIPv6 := zero_IPv6Config\<lparr>ip6Enabled := ''auto'', ip6Mode := ''dhcpv6-pd'',
       ip6WAN := \<lparr>wan6AcceptRA = True, wan6RequestPrefix = True, wan6PrefixHint = ''/56'',
         wan6RapidCommit = True\<rparr>,
       ip6LAN := zero_IPv6LANConfig\<lparr>lan6Mode := ''slaac'',
         lan6ULA := \<lparr>ulaEnabled = True, ulaPrefix = ''fd00:abcd:1234::/48''\<rparr>,
         lan6RAInterval := 30, lan6RDNSS := True\<rparr>,
       ip6Tunnel := zero_IPv6TunnelConfig\<lparr>tunProvider := ''he.net'', tunDevice := ''lkt6in4'',
         tunAutoUpdate := True\<rparr>,
       ip6Privacy := True\<rparr>,
     cfgDNS := zero_DNSConfig\<lparr>
       dnsBlocklistURLs := [''https://raw.githubusercontent.com/StevenBlack/hosts/master/hosts''],
       dnsBlocklistUpdateSchedule := ''0 3 * * *'', dnsCacheSize := 50000,
       dnsQueryLog := \<lparr>qlEnabled = True, qlLogPath = ''/var/log/unbound/queries.log'',
         qlMaxSize = ''100M'', qlRetention = ''7d'', qlLogBlocked = True\<rparr>\<rparr>\<rparr>"

section \<open>What a save leaves on disk\<close>

lemma atomicWrite_path:
  assumes "tmpName env path \<noteq> path" and "atomicWrite env path data d = (r, ds)"
  shows "\<forall>d' \<in> set ds. d' path = d path \<or> d' path = Some data"
    and "ds \<noteq> [] \<and> (last ds) path = (if r = None then Some data else d path)"
  using assms
  by (auto simp: atomicWrite_def Let_def remove_tmp_def split: option.splits if_splits)

lemma atomicWrite_frame:
  assumes "atomicWrite env path data d = (r, ds)" and "q \<noteq> path" and "q \<noteq> tmpName env path"
  shows "\<forall>d' \<in> set ds. d' q = d q"
  using assms
  by (auto simp: atomicWrite_def Let_def remove_tmp_def split: option.splits if_splits)

lemma atomicWrite_success:
  assumes "atomicWrite env path data d = (None, ds)"
  shows "last ds = (d(tmpName env path := None))(path \<mapsto> data)"
  using assms by (auto simp: atomicWrite_def Let_def split: option.splits)

lemma SaveToFile_cfg [store_simps]: "cfg (snd (SaveToFile env st)) = cfg st"
  by (auto simp: SaveToFile_def Save_def split: sum.splits prod.splits)

lemma SaveToFile_ok:
  assumes "SaveToFile env st = (None, st')"
  obtains data where "yaml_Marshal env (cfg st) = Inr data" and "cfg st' = cfg st"
    and "cfgFilePath (cfg st) \<noteq> []" and "disk st' (cfgFilePath (cfg st)) = Some data"
  using assms
  by (auto simp: SaveToFile_def Save_def dest!: atomicWrite_success
      split: sum.splits prod.splits if_splits)

lemma SaveToFile_failed:
  assumes "SaveToFile env st = (Some e, st')"
    and "tmpName env (cfgFilePath (cfg st)) \<noteq> cfgFilePath (cfg st)"
  shows "cfg st' = cfg st" and "disk st' (cfgFilePath (cfg st)) = disk st (cfgFilePath (cfg st))"
  using assms atomicWrite_path(2) [OF assms(2)]
  by (fastforce simp: SaveToFile_def Save_def split: sum.splits prod.splits if_splits)+

section \<open>Loading back what was saved\<close>

definition sources_set :: "Config \<Rightarrow> bool" where
  "sources_set c \<longleftrightarrow> (\<forall>r \<in> set (dnsStaticRecords (cfgDNS c)). srSource r \<noteq> [])"

lemma migrate_record_source [simp]: "srSource (migrate_record r) \<noteq> []"
  by (simp add: migrate_record_def DNSSourceUser_def)

lemma map_migrate_id: "sources_set c \<Longrightarrow>
    map migrate_record (dnsStaticRecords (cfgDNS c)) = dnsStaticRecords (cfgDNS c)"
  by (auto simp: sources_set_def migrate_record_def intro!: map_idI)

lemma Load_sources_set: "Load env path d = Inr c \<Longrightarrow> sources_set c \<and> cfgFilePath c = path"
  by (auto simp: Load_def sources_set_def split: option.splits sum.splits)

lemma Load_saved:
  assumes "disk st path = Some data" and "yaml_Unmarshal env data = Inr (c\<lparr>cfgFilePath := []\<rparr>)"
    and "os_err env (OsOpen path) = None" and "os_err env (OsRead path) = None"
    and "sources_set c" and "cfgFilePath c = path"
  shows "Load env path (disk st) = Inr c"
proof -
  have "c\<lparr>cfgDNS := (cfgDNS c)\<lparr>dnsStaticRecords := dnsStaticRecords (cfgDNS c)\<rparr>,
      cfgFilePath := path\<rparr> = c"
    using assms(6) by simp
  with assms map_migrate_id [OF assms(5)] show ?thesis
    by (simp add: Load_def)
qed

section \<open>The contract of a configuration change\<close>

text \<open>
  Every service changes the configuration the same way: a check that may refuse the request, an
  update in memory, and \<open>SaveToFile\<close>. The facts below hold for every operation of that shape.
\<close>

locale config_mutation =
  fixes opn :: "osenv \<Rightarrow> 'a \<Rightarrow> store \<Rightarrow> error option \<times> store"
    and guard :: "'a \<Rightarrow> Config \<Rightarrow> error option"
    and upd :: "'a \<Rightarrow> Config \<Rightarrow> Config"
  assumes opn_eq: "opn env x st = (case guard x (cfg st) of
      Some e \<Rightarrow> (Some e, st) | None \<Rightarrow> SaveToFile env (st\<lparr>cfg := upd x (cfg st)\<rparr>))"
    and upd_path: "cfgFilePath (upd x c) = cfgFilePath c"
begin

lemma rejected: "guard x (cfg st) = Some e \<Longrightarrow> opn env x st = (Some e, st)"
  by (simp add: opn_eq)

lemma accepted_cfg: "guard x (cfg st) = None \<Longrightarrow> cfg (snd (opn env x st)) = upd x (cfg st)"
  by (simp add: opn_eq SaveToFile_cfg)

lemma success:
  assumes "opn env x st = (None, st')"
  shows "guard x (cfg st) = None" and "cfg st' = upd x (cfg st)"
    and "\<exists>data. yaml_Marshal env (cfg st') = Inr data \<and>
                disk st' (cfgFilePath (cfg st')) = Some data"
proof -
  show g: "guard x (cfg st) = None" using assms by (auto simp: opn_eq split: option.splits)
  with assms show "cfg st' = upd x (cfg st)"
    and "\<exists>data. yaml_Marshal env (cfg st') = Inr data \<and> disk st' (cfgFilePath (cfg st')) = Some data"
    by (auto simp: opn_eq elim!: SaveToFile_ok)
qed

lemma cfg_cases: "cfg (snd (opn env x st)) = cfg st \<or>
    guard x (cfg st) = None \<and> cfg (snd (opn env x st)) = upd x (cfg st)"
  by (cases "guard x (cfg st)") (auto simp: rejected accepted_cfg)

lemma path_kept: "cfgFilePath (cfg (snd (opn env x st))) = cfgFilePath (cfg st)"
  using cfg_cases [where env = env and x = x and st = st] by (auto simp: upd_path)

text \<open>An invariant of the configuration that the update keeps is kept, whatever the save does.\<close>

lemma preserves:
  assumes "I (cfg st)" and "\<And>c. I c \<Longrightarrow> guard x c = None \<Longrightarrow> I (upd x c)"
  shows "I (cfg (snd (opn env x st)))"
  using cfg_cases [where env = env and x = x and st = st] assms by auto

text \<open>A refused or failed change leaves the saved configuration file as it was.\<close>

lemma failed_disk:
  assumes "opn env x st = (Some e, st')"
    and "tmpName env (cfgFilePath (cfg st)) \<noteq> cfgFilePath (cfg st)"
  shows "disk st' (cfgFilePath (cfg st)) = disk st (cfgFilePath (cfg st))"
proof (cases "guard x (cfg st)")
  case None
  with assms(1) have "SaveToFile env (st\<lparr>cfg := upd x (cfg st)\<rparr>) = (Some e, st')"
    by (simp add: opn_eq)
  from SaveToFile_failed(2) [OF this] show ?thesis using assms(2) by (simp add: upd_path)
next
  case (Some _)
  with assms(1) show ?thesis by (simp add: opn_eq)
qed

end

section \<open>Properties\<close>

text \<open>
  The declarative reading of \<open>Validate\<close>: the values the configuration may take.
\<close>

definition valid_config :: "Config \<Rightarrow> bool" where
  "valid_config c \<longleftrightarrow>
     sysHostname (cfgSystem c) \<noteq> [] \<and>
     sysWebPort (cfgSystem c) \<in> {1..65535} \<and>
     sysLanguage (cfgSystem c) \<in> {[], ''tr'', ''en''} \<and>
     tlsMode (sysTLS (cfgSystem c)) \<in> {[], ''self-signed'', ''mkcert'', ''acme''} \<and>
     (\<forall>f \<in> set (cfgInterfaces c).
        ifID f \<noteq> [] \<and> ifDevice f \<noteq> [] \<and> ifRole f \<in> {''wan'', ''lan'', ''unused''}) \<and>
     (ppMTU (cfgPPPoE c) \<le> 0 \<or> ppMTU (cfgPPPoE c) \<in> {68..1500}) \<and>
     ip6Enabled (cfgIPv6 c) \<in> {[], ''auto'', ''on'', ''off''} \<and>
     qosProfile (cfgQoS c) \<in> {[], ''cake'', ''fq_codel'', ''none''} \<and>
     qosCongestionControl (cfgQoS c) \<in> {[], ''bbr'', ''cubic''} \<and>
     (\<forall>v \<in> set (cfgVLANs c). vlVID v \<in> {1..4094} \<and> vlParent v \<noteq> [])"

lemma validate_iface_Nil: "validate_iface i f = [] \<longleftrightarrow>
    ifID f \<noteq> [] \<and> ifDevice f \<noteq> [] \<and> ifRole f \<in> {''wan'', ''lan'', ''unused''}"
  by (simp add: validate_iface_def Let_def)

lemma validate_vlan_Nil: "validate_vlan i v = [] \<longleftrightarrow> vlVID v \<in> {1..4094} \<and> vlParent v \<noteq> []"
  by (auto simp: validate_vlan_def Let_def)

lemma concat_enumerate_Nil:
  assumes "\<And>i x. f i x = [] \<longleftrightarrow> P x"
  shows "concat (map (\<lambda>(i, x). f i x) (enumerate n xs)) = [] \<longleftrightarrow> (\<forall>x \<in> set xs. P x)"
  by (induction xs arbitrary: n) (auto simp: assms)

lemmas validate_lists_Nil =
  concat_enumerate_Nil [of validate_iface, OF validate_iface_Nil]
  concat_enumerate_Nil [of validate_vlan, OF validate_vlan_Nil]

text \<open>
  C1. \<open>Validate\<close> reports no error exactly for the configurations that meet every documented
  constraint (host name, ports, languages, TLS modes, interface roles, MTU, IPv6 and QoS modes,
  VLAN identifiers), over all interfaces and VLANs; the default configuration is one of them.
\<close>

theorem Validate_iff_valid:
  "(Validate c = [] \<longleftrightarrow> valid_config c) \<and> Validate DefaultConfig = []"
proof
  have if_Nil: "((if P then [x] else []) = []) = (\<not> P)" for P :: bool and x :: error by simp
  show "Validate c = [] \<longleftrightarrow> valid_config c"
    unfolding Validate_def valid_config_def append_is_Nil_conv validate_lists_Nil if_Nil
    by (intro conj_cong refl) auto
  show "Validate DefaultConfig = []"
    by (simp add: Validate_def DefaultConfig_def zero_defs)
qed

text \<open>
  C2. Crash safety of \<open>atomicWrite\<close>: in every state the disk passes through, the configuration
  file holds its old content or the whole new content, no other file changes but the temporary
  one, and the result says which: no error means the new content is in place, an error means the
  old one still is.
\<close>

theorem atomicWrite_crash_safe:
  assumes "tmpName env path \<noteq> path" and "atomicWrite env path data d = (r, ds)"
  shows "(\<forall>d' \<in> set ds. (d' path = d path \<or> d' path = Some data) \<and>
            (\<forall>q. q \<noteq> path \<and> q \<noteq> tmpName env path \<longrightarrow> d' q = d q)) \<and>
         (last ds) path = (if r = None then Some data else d path)"
  using atomicWrite_path [OF assms] atomicWrite_frame [OF assms(2)] by blast

definition quiet_env :: "Config \<Rightarrow> osenv" where
  "quiet_env c = \<lparr>yaml_Marshal = (\<lambda>_. Inr ''system: {}''), yaml_Unmarshal = (\<lambda>_. Inr c),
     os_err = (\<lambda>_. None), tmp_rand = ''7'', short_write = (\<lambda>_. 0)\<rparr>"

definition full_disk_env :: osenv where
  "full_disk_env = (quiet_env zero_Config)\<lparr>
     os_err := (\<lambda>call. case call of OsWrite _ \<Rightarrow> Some ''no space left on device'' | _ \<Rightarrow> None)\<rparr>"

lemma tmpName_router: "tmp_rand env = ''7'' \<Longrightarrow>
    tmpName env ''/etc/router.yaml'' = ''/etc/.config-7.tmp''"
proof -
  assume "tmp_rand env = ''7''"
  moreover have "path_Dir ''/etc/router.yaml'' = ''/etc''" by code_simp
  ultimately show ?thesis by (simp add: tmpName_def)
qed

theorem atomicWrite_crash_safe_witness:
  "\<exists>r ds. atomicWrite full_disk_env ''/etc/router.yaml'' ''new'' [''/etc/router.yaml'' \<mapsto> ''old''] =
      (r, ds) \<and> r \<noteq> None \<and> (last ds) ''/etc/router.yaml'' = Some ''old''"
proof -
  let ?d = "[''/etc/router.yaml'' \<mapsto> ''old'']"
  obtain r ds where w: "atomicWrite full_disk_env ''/etc/router.yaml'' ''new'' ?d = (r, ds)"
    by (cases "atomicWrite full_disk_env ''/etc/router.yaml'' ''new'' ?d")
  have t: "tmpName full_disk_env ''/etc/router.yaml'' \<noteq> ''/etc/router.yaml''"
    by (subst tmpName_router) (simp_all add: full_disk_env_def quiet_env_def)
  have "r \<noteq> None" using w
    by (auto simp: atomicWrite_def Let_def full_disk_env_def quiet_env_def)
  with w atomicWrite_crash_safe [OF t w] show ?thesis by simp
qed

text \<open>
  C3. A configuration that \<open>SaveToFile\<close> reports as saved is the configuration \<open>Load\<close> returns from
  that path, when the YAML package reads back the document it wrote (without the path field, which
  is tagged to be skipped) and every static DNS record carries its source.
\<close>

theorem save_load_roundtrip:
  assumes "SaveToFile env st = (None, st')"
    and "\<And>data. yaml_Marshal env (cfg st) = Inr data \<Longrightarrow>
          yaml_Unmarshal env data = Inr ((cfg st)\<lparr>cfgFilePath := []\<rparr>)"
    and "os_err env (OsOpen (cfgFilePath (cfg st))) = None"
    and "os_err env (OsRead (cfgFilePath (cfg st))) = None"
    and "sources_set (cfg st)"
  shows "Load env (cfgFilePath (cfg st)) (disk st') = Inr (cfg st)"
  using assms by (auto elim!: SaveToFile_ok intro!: Load_saved)

theorem save_load_roundtrip_witness:
  "\<exists>st'. SaveToFile (quiet_env DefaultConfig)
       \<lparr>cfg = SetFilePath ''/etc/router.yaml'' DefaultConfig, disk = Map.empty\<rparr> = (None, st') \<and>
     Load (quiet_env DefaultConfig) ''/etc/router.yaml'' (disk st') =
       Inr (SetFilePath ''/etc/router.yaml'' DefaultConfig)"
proof -
  let ?c = "SetFilePath ''/etc/router.yaml'' DefaultConfig"
  let ?env = "quiet_env DefaultConfig"
  let ?st = "\<lparr>cfg = ?c, disk = Map.empty\<rparr>"
  obtain st' where s: "SaveToFile ?env ?st = (None, st')"
    by (simp add: SaveToFile_def Save_def atomicWrite_def quiet_env_def Let_def SetFilePath_def)
  have "Load ?env (cfgFilePath (cfg ?st)) (disk st') = Inr (cfg ?st)"
    by (rule save_load_roundtrip [OF s])
      (simp_all add: quiet_env_def sources_set_def SetFilePath_def DefaultConfig_def zero_defs)
  with s show ?thesis by (simp add: SetFilePath_def)
qed

end
