(* ===== verification/Effects.thy ===== *)
theory Effects
  imports ConfigStore
begin

text \<open>
  System effects of the services in world-passing style. The world is the configuration store and the
  list of the system calls made so far: commands and file operations through \<open>netutil\<close>, and direct
  calls of package \<open>os\<close>. What a call answers may depend on all earlier calls and is a parameter. An
  action returns a value or an error, as Go functions do.
\<close>

section \<open>The world\<close>

definition nl :: string where "nl = [CHR 0x0A]"

datatype syscall =
    CRun string "string list"
  | CRunStdin string string "string list"
  | CRunEnv "string list" string "string list"
  | CWriteFile string string goint
  | CMkdirAll string goint
  | CReadFile string
  | COsWriteFile string string goint
  | COsMkdirAll string goint
  | COsReadFile string
  | COsRemove string
  | COsChmod string goint
  | COsExec string "string list"

record sysenv =
  seOS :: osenv
  seAnswer :: "syscall list \<Rightarrow> syscall \<Rightarrow> error + string"

record world =
  wStore :: store
  wTrace :: "syscall list"

type_synonym 'a action = "world \<Rightarrow> (error + 'a) \<times> world"

abbreviation wcfg :: "world \<Rightarrow> Config" where
  "wcfg w \<equiv> cfg (wStore w)"

section \<open>Actions\<close>

definition io_return :: "'a \<Rightarrow> 'a action" where
  "io_return a w = (Inr a, w)"

definition io_fail :: "error \<Rightarrow> 'a action" where
  "io_fail e w = (Inl e, w)"

definition io_bind :: "'a action \<Rightarrow> ('a \<Rightarrow> 'b action) \<Rightarrow> 'b action" where
  "io_bind m k w = (case m w of (Inl e, w') \<Rightarrow> (Inl e, w') | (Inr a, w') \<Rightarrow> k a w')"

definition io_then :: "'a action \<Rightarrow> 'b action \<Rightarrow> 'b action" where
  "io_then m n = io_bind m (\<lambda>_. n)"

text \<open>One system call.\<close>

definition sys :: "sysenv \<Rightarrow> syscall \<Rightarrow> string action" where
  "sys env c w = (seAnswer env (wTrace w) c, w\<lparr>wTrace := wTrace w @ [c]\<rparr>)"

text \<open>\<open>fmt.Errorf("... %w", err)\<close> around a failed action.\<close>

definition io_wrap :: "string \<Rightarrow> 'a action \<Rightarrow> 'a action" where
  "io_wrap pre m w = (case m w of (Inl e, w') \<Rightarrow> (Inl (pre @ e), w') | (Inr a, w') \<Rightarrow> (Inr a, w'))"

text \<open>A best-effort action, whose error is logged or discarded.\<close>

definition io_ignore :: "'a action \<Rightarrow> unit action" where
  "io_ignore m w = (Inr (), snd (m w))"

definition io_lift :: "error + 'a \<Rightarrow> 'a action" where
  "io_lift r w = (r, w)"

definition io_save :: "sysenv \<Rightarrow> unit action" where
  "io_save env w =
     (case SaveToFile (seOS env) (wStore w) of
        (None, st) \<Rightarrow> (Inr (), w\<lparr>wStore := st\<rparr>)
      | (Some e, st) \<Rightarrow> (Inl e, w\<lparr>wStore := st\<rparr>))"

definition io_update :: "(Config \<Rightarrow> Config) \<Rightarrow> unit action" where
  "io_update f w = (Inr (), w\<lparr>wStore := (wStore w)\<lparr>cfg := f (cfg (wStore w))\<rparr>\<rparr>)"

primrec io_each :: "('a \<Rightarrow> unit action) \<Rightarrow> 'a list \<Rightarrow> unit action" where
  "io_each f [] = io_return ()"
| "io_each f (x # xs) = io_then (f x) (io_each f xs)"

primrec io_map :: "('a \<Rightarrow> 'b action) \<Rightarrow> 'a list \<Rightarrow> 'b list action" where
  "io_map f [] = io_return []"
| "io_map f (x # xs) = io_bind (f x) (\<lambda>y. io_bind (io_map f xs) (\<lambda>ys. io_return (y # ys)))"

named_theorems io_simps "unfolding the action combinators"

lemmas io_defs [io_simps] = io_return_def io_fail_def io_bind_def io_then_def sys_def io_wrap_def
  io_ignore_def io_lift_def io_update_def

section \<open>What every action keeps\<close>

text \<open>The calls an action adds to the trace.\<close>

definition new_calls :: "world \<Rightarrow> world \<Rightarrow> syscall list" where
  "new_calls w w' = drop (length (wTrace w)) (wTrace w')"

definition extends :: "world \<Rightarrow> world \<Rightarrow> bool" where
  "extends w w' \<longleftrightarrow> prefix (wTrace w) (wTrace w')"

text \<open>
  An action that only makes calls with a given property and leaves the configuration alone: closed
  under the combinators, so that a service's footprint follows from those of its parts.
\<close>

definition only_calls :: "(syscall \<Rightarrow> bool) \<Rightarrow> 'a action \<Rightarrow> bool" where
  "only_calls P m \<longleftrightarrow> (\<forall>w r w'. m w = (r, w') \<longrightarrow>
     wStore w' = wStore w \<and> (\<exists>cs. wTrace w' = wTrace w @ cs \<and> list_all P cs))"

named_theorems footprint "footprints of actions"

lemma only_callsD:
  assumes "only_calls P m" "m w = (r, w')"
  shows "wStore w' = wStore w" "\<exists>cs. wTrace w' = wTrace w @ cs \<and> list_all P cs"
  using assms unfolding only_calls_def by blast+

lemma only_calls_return [footprint]: "only_calls P (io_return a)"
  and only_calls_fail [footprint]: "only_calls P (io_fail e)"
  and only_calls_lift [footprint]: "only_calls P (io_lift r)"
  by (auto simp: only_calls_def io_simps)

lemma only_calls_sys [footprint]: "P c \<Longrightarrow> only_calls P (sys env c)"
  by (auto simp: only_calls_def io_simps)

lemma only_calls_bind [footprint]:
  assumes "only_calls P m" "\<And>a. only_calls P (k a)"
  shows "only_calls P (io_bind m k)"
proof (unfold only_calls_def, intro allI impI)
  fix w r w'
  assume run: "io_bind m k w = (r, w')"
  obtain r1 w1 where m: "m w = (r1, w1)" by fastforce
  obtain cs where cs: "wStore w1 = wStore w" "wTrace w1 = wTrace w @ cs" "list_all P cs"
    using only_callsD [OF assms(1) m] by blast
  show "wStore w' = wStore w \<and> (\<exists>cs. wTrace w' = wTrace w @ cs \<and> list_all P cs)"
  proof (cases r1)
    case (Inl e)
    then show ?thesis using run m cs by (auto simp: io_bind_def)
  next
    case (Inr a)
    then have "k a w1 = (r, w')" using run m by (simp add: io_bind_def)
    from only_callsD [OF assms(2) this] obtain cs2 where "wStore w' = wStore w1"
      "wTrace w' = wTrace w1 @ cs2" "list_all P cs2" by blast
    then show ?thesis using cs by (auto intro: exI [of _ "cs @ cs2"])
  qed
qed

lemma only_calls_then [footprint]: "only_calls P m \<Longrightarrow> only_calls P n \<Longrightarrow> only_calls P (io_then m n)"
  by (simp add: io_then_def only_calls_bind)

lemma only_calls_wrap [footprint]: "only_calls P m \<Longrightarrow> only_calls P (io_wrap pre m)"
  by (fastforce simp: only_calls_def io_wrap_def split: sum.splits prod.splits)

lemma only_calls_ignore [footprint]: "only_calls P m \<Longrightarrow> only_calls P (io_ignore m)"
  unfolding only_calls_def io_ignore_def by (metis prod.collapse prod.inject)

lemma only_calls_each [footprint]: "(\<And>x. x \<in> set xs \<Longrightarrow> only_calls P (f x)) \<Longrightarrow> only_calls P (io_each f xs)"
  by (induction xs) (auto intro: footprint)

lemma only_calls_if [footprint]: "(b \<Longrightarrow> only_calls P m) \<Longrightarrow> (\<not> b \<Longrightarrow> only_calls P n) \<Longrightarrow> only_calls P (if b then m else n)"
  by simp

lemma only_calls_mono: "only_calls P m \<Longrightarrow> (\<And>c. P c \<Longrightarrow> Q c) \<Longrightarrow> only_calls Q m"
  unfolding only_calls_def list_all_iff by fast

text \<open>
  \<open>defer\<close> of a best-effort clean-up, and an action whose failure is followed by a best-effort repair
  before its wrapped error is returned.
\<close>

definition io_defer :: "'b action \<Rightarrow> 'a action \<Rightarrow> 'a action" where
  "io_defer cleanup m w = (case m w of (r, w') \<Rightarrow> (r, snd (cleanup w')))"

definition io_repair :: "string \<Rightarrow> 'b action \<Rightarrow> 'a action \<Rightarrow> 'a action" where
  "io_repair pre repair m w = (case m w of
       (Inl e, w') \<Rightarrow> (Inl (pre @ e), snd (repair w'))
     | (Inr a, w') \<Rightarrow> (Inr a, w'))"

lemma only_calls_defer [footprint]: "only_calls P c \<Longrightarrow> only_calls P m \<Longrightarrow> only_calls P (io_defer c m)"
proof (unfold only_calls_def, intro allI impI)
  fix w r w'
  assume C: "\<forall>w r w'. c w = (r, w') \<longrightarrow> wStore w' = wStore w \<and> (\<exists>cs. wTrace w' = wTrace w @ cs \<and> list_all P cs)"
    and M: "\<forall>w r w'. m w = (r, w') \<longrightarrow> wStore w' = wStore w \<and> (\<exists>cs. wTrace w' = wTrace w @ cs \<and> list_all P cs)"
    and run: "io_defer c m w = (r, w')"
  obtain w1 r2 where m: "m w = (r, w1)" and c: "c w1 = (r2, w')"
    using run by (cases "m w"; cases "c (snd (m w))") (auto simp: io_defer_def)
  obtain cs where "wStore w1 = wStore w" "wTrace w1 = wTrace w @ cs" "list_all P cs" using M m by blast
  moreover obtain cs' where "wStore w' = wStore w1" "wTrace w' = wTrace w1 @ cs'" "list_all P cs'" using C c by blast
  ultimately show "wStore w' = wStore w \<and> (\<exists>cs. wTrace w' = wTrace w @ cs \<and> list_all P cs)"
    by (auto intro!: exI [of _ "cs @ cs'"])
qed

text \<open>An environment in which every call succeeds with an empty answer.\<close>

definition calm_env :: sysenv where
  "calm_env = \<lparr>seOS = quiet_env zero_Config, seAnswer = (\<lambda>_ _. Inr [])\<rparr>"

definition calm_saved :: "world \<Rightarrow> world" where
  "calm_saved w = snd (io_save calm_env w)"

lemma calm_save: "cfgFilePath (wcfg w) \<noteq> [] \<Longrightarrow> io_save calm_env w = (Inr (), calm_saved w)"
  by (simp add: calm_saved_def io_save_def calm_env_def SaveToFile_def Save_def quiet_env_def atomicWrite_def Let_def)

lemma calm_answer [simp]: "seAnswer calm_env tr c = Inr []"
  by (simp add: calm_env_def)

section \<open>Saving\<close>

lemma wcfg_save: "io_save env w = (r, w') \<Longrightarrow> wcfg w' = wcfg w"
  using SaveToFile_cfg [of "seOS env" "wStore w"] by (auto simp: io_save_def split: prod.splits option.splits)

lemma wcfg_update_save:
  "io_then (io_update f) (io_wrap msg (io_save env)) w = (r, w') \<Longrightarrow> wcfg w' = f (wcfg w)"
  "io_then (io_update f) (io_save env) w = (r, w') \<Longrightarrow> wcfg w' = f (wcfg w)"
  by (auto simp: io_simps split: prod.splits sum.splits dest!: wcfg_save)

lemma save_ok:
  assumes "io_save env w = (Inr (), w')"
  shows "wcfg w' = wcfg w" "wTrace w' = wTrace w"
    "\<exists>data. yaml_Marshal (seOS env) (wcfg w) = Inr data \<and> disk (wStore w') (cfgFilePath (wcfg w)) = Some data"
  using assms by (auto simp: io_save_def elim!: SaveToFile_ok split: prod.splits option.splits)

end
