(* ===== verification/GoNet.thy ===== *)
theory GoNet
  imports Prelude
begin

unbundle bit_operations_syntax

text \<open>
  The part of Go's \<open>net\<close> package the program uses: textual IPv4 and IPv6 addresses, CIDR blocks,
  membership in a block and printing. The parsers follow \<open>net/netip\<close>. The facts at the end are about
  blocks: which addresses they hold and when two of them overlap.
\<close>

section \<open>Definitions\<close>

text \<open>A \<open>net.IP\<close>: its bytes, four or sixteen of them.\<close>

type_synonym goip = "nat list"

definition To4 :: "goip \<Rightarrow> goip option" where
  "To4 ip =
     (if length ip = 4 then Some ip
      else if length ip = 16 \<and> take 10 ip = replicate 10 0 \<and> ip ! 10 = 255 \<and> ip ! 11 = 255
      then Some (drop 12 ip) else None)"

definition v4_mapped :: "goip \<Rightarrow> goip" where
  "v4_mapped b = replicate 10 0 @ [255, 255] @ b"

subsection \<open>Parsing\<close>

text \<open>One field of a dotted address: decimal, at most 255, without a leading zero.\<close>

definition parse_octet :: "string \<Rightarrow> nat option" where
  "parse_octet s =
     (if s \<noteq> [] \<and> list_all is_digit s \<and> (hd s \<noteq> CHR ''0'' \<or> length s = 1) \<and> digits_val s \<le> 255
      then Some (digits_val s) else None)"

definition parseIPv4 :: "string \<Rightarrow> goip option" where
  "parseIPv4 s =
     (case map parse_octet (Split s (CHR ''.'')) of
        [Some a, Some b, Some c, Some d] \<Rightarrow> Some [a, b, c, d]
      | _ \<Rightarrow> None)"

definition hex_val :: "char \<Rightarrow> nat option" where
  "hex_val c =
     (let n = (of_char c :: nat) in
      if 48 \<le> n \<and> n \<le> 57 then Some (n - 48)
      else if 97 \<le> n \<and> n \<le> 102 then Some (n - 87)
      else if 65 \<le> n \<and> n \<le> 70 then Some (n - 55)
      else None)"

definition hex_group :: "string \<Rightarrow> nat" where
  "hex_group s = foldl (\<lambda>a c. 16 * a + the (hex_val c)) 0 s"

text \<open>
  The groups of an IPv6 address: the bytes read so far, where the ellipsis was seen, and the rest of the
  text. At most eight groups are read.
\<close>

fun parse_groups :: "nat \<Rightarrow> goip \<Rightarrow> nat option \<Rightarrow> string \<Rightarrow> (goip \<times> nat option \<times> string) option" where
  "parse_groups 0 bs ell s = Some (bs, ell, s)"
| "parse_groups (Suc n) bs ell s =
     (let g = takeWhile (\<lambda>c. hex_val c \<noteq> None) s; r = drop (length g) s in
      if g = [] \<or> length g > 4 then None
      else if r \<noteq> [] \<and> hd r = CHR ''.''
      then (if ell = None \<and> length bs \<noteq> 12 \<or> length bs + 4 > 16 then None
            else (case parseIPv4 s of None \<Rightarrow> None | Some v4 \<Rightarrow> Some (bs @ v4, ell, [])))
      else (let bs' = bs @ [hex_group g div 256, hex_group g mod 256] in
        case r of
          [] \<Rightarrow> Some (bs', ell, [])
        | a # r1 \<Rightarrow>
            if a \<noteq> CHR '':'' \<or> r1 = [] then None
            else if hd r1 = CHR '':''
            then (if ell \<noteq> None then None
                  else if tl r1 = [] then Some (bs', Some (length bs'), [])
                  else parse_groups n bs' (Some (length bs')) (tl r1))
            else parse_groups n bs' ell r1))"

definition expand_groups :: "goip \<times> nat option \<times> string \<Rightarrow> goip option" where
  "expand_groups x =
     (case x of (bs, ell, rest) \<Rightarrow>
      if rest \<noteq> [] then None
      else if length bs < 16
      then (case ell of None \<Rightarrow> None | Some e \<Rightarrow> Some (take e bs @ replicate (16 - length bs) 0 @ drop e bs))
      else if ell \<noteq> None then None else Some bs)"

definition parseIPv6 :: "string \<Rightarrow> goip option" where
  "parseIPv6 s =
     (if HasPrefix s ''::''
      then (if drop 2 s = [] then Some (replicate 16 0)
            else Option.bind (parse_groups 8 [] (Some 0) (drop 2 s)) expand_groups)
      else Option.bind (parse_groups 8 [] None s) expand_groups)"

text \<open>
  \<open>netip.ParseAddr\<close> decides by the first dot or colon; a zone, after a percent sign, is not accepted
  here. The result has the width it was written in.
\<close>

definition ParseAddr :: "string \<Rightarrow> goip option" where
  "ParseAddr s =
     (case find (\<lambda>c. c = CHR ''.'' \<or> c = CHR '':'' \<or> c = CHR ''%'') s of
        Some c \<Rightarrow> if c = CHR ''.'' then parseIPv4 s
                  else if c = CHR '':'' then parseIPv6 s else None
      | None \<Rightarrow> None)"

definition ParseIP :: "string \<Rightarrow> goip option" where
  "ParseIP s = map_option (\<lambda>ip. if length ip = 4 then v4_mapped ip else ip) (ParseAddr s)"

subsection \<open>Blocks\<close>

record IPNet =
  netIP :: goip
  netMask :: "nat list"

text \<open>\<open>net.CIDRMask\<close>: byte by byte, the number of ones that are left.\<close>

definition mask_byte :: "nat \<Rightarrow> nat" where
  "mask_byte n = (if n \<ge> 8 then 255 else 255 - 255 div 2 ^ n)"

definition CIDRMask :: "nat \<Rightarrow> nat \<Rightarrow> nat list" where
  "CIDRMask ones len = map (\<lambda>i. mask_byte (ones - 8 * i)) [0..<len]"

definition ip_Mask :: "goip \<Rightarrow> nat list \<Rightarrow> goip" where
  "ip_Mask ip msk = map2 (\<lambda>a b. a AND b) ip msk"

definition ParseCIDR :: "string \<Rightarrow> (goip \<times> IPNet) option" where
  "ParseCIDR s =
     (case Index s ''/'' of
        None \<Rightarrow> None
      | Some i \<Rightarrow>
        (let msk = drop (i + 1) s in
         case ParseAddr (take i s) of
           None \<Rightarrow> None
         | Some ip \<Rightarrow>
             if msk = [] \<or> \<not> list_all is_digit msk \<or> digits_val msk > 8 * length ip then None
             else (let m = CIDRMask (digits_val msk) (length ip)
                   in Some (if length ip = 4 then v4_mapped ip else ip, \<lparr>netIP = ip_Mask ip m, netMask = m\<rparr>))))"

text \<open>\<open>networkNumberAndMask\<close>: a block of mapped IPv4 addresses is an IPv4 block.\<close>

definition network_number :: "IPNet \<Rightarrow> goip \<times> nat list" where
  "network_number n =
     (case To4 (netIP n) of
        Some b \<Rightarrow> (b, if length (netMask n) = 16 then drop 12 (netMask n) else netMask n)
      | None \<Rightarrow> if length (netMask n) = 4 then ([], []) else (netIP n, netMask n))"

definition as_short :: "goip \<Rightarrow> goip" where
  "as_short ip = (case To4 ip of Some b \<Rightarrow> b | None \<Rightarrow> ip)"

definition net_Contains :: "IPNet \<Rightarrow> goip \<Rightarrow> bool" where
  "net_Contains n ip =
     (case network_number n of (nn, m) \<Rightarrow>
        length (as_short ip) = length nn \<and>
        list_all (\<lambda>((a, b), c). a AND c = b AND c) (zip (zip nn (as_short ip)) m))"

subsection \<open>Printing\<close>

definition ipv4_text :: "goip \<Rightarrow> string" where
  "ipv4_text b = Join (map nat_digits b) ''.''"

definition hex_char :: "nat \<Rightarrow> char" where
  "hex_char n = (if n < 10 then char_of (48 + n) else char_of (87 + n))"

fun hex_digits :: "nat \<Rightarrow> string" where
  "hex_digits n = (if n < 16 then [hex_char n] else hex_digits (n div 16) @ [hex_char (n mod 16)])"

declare hex_digits.simps [simp del]

definition ip_groups :: "goip \<Rightarrow> nat list" where
  "ip_groups ip = map (\<lambda>i. 256 * ip ! (2 * i) + ip ! (2 * i + 1)) [0..<8]"

text \<open>The first longest run of at least two zero groups: its start and end.\<close>

definition zero_run :: "nat list \<Rightarrow> nat \<Rightarrow> nat" where
  "zero_run gs i = length (takeWhile (\<lambda>g. g = 0) (drop i gs))"

definition longest_run :: "nat list \<Rightarrow> (nat \<times> nat) option" where
  "longest_run gs =
     foldl (\<lambda>best i. let l = zero_run gs i in
              if l \<ge> 2 \<and> (case best of None \<Rightarrow> True | Some (s, k) \<Rightarrow> l > k) then Some (i, l) else best)
       None [0..<8]"

definition ipv6_text :: "goip \<Rightarrow> string" where
  "ipv6_text ip =
     (let gs = ip_groups ip in
      case longest_run gs of
        None \<Rightarrow> Join (map hex_digits gs) '':''
      | Some (s, l) \<Rightarrow> Join (map hex_digits (take s gs)) '':'' @ ''::'' @ Join (map hex_digits (drop (s + l) gs)) '':'')"

definition ip_text :: "goip \<Rightarrow> string" where
  "ip_text ip = (case To4 ip of Some b \<Rightarrow> ipv4_text b | None \<Rightarrow> if length ip = 16 then ipv6_text ip else ''?'')"

section \<open>Blocks of addresses\<close>

text \<open>A block as \<open>ParseCIDR\<close> makes them.\<close>

definition cidr_block :: "IPNet \<Rightarrow> bool" where
  "cidr_block n \<longleftrightarrow> (\<exists>ones. netMask n = CIDRMask ones (length (netIP n))) \<and> (length (netIP n) = 4 \<or> length (netIP n) = 16)"

lemma length_CIDRMask [simp]: "length (CIDRMask n len) = len"
  by (simp add: CIDRMask_def)

lemma nth_CIDRMask: "i < len \<Longrightarrow> CIDRMask n len ! i = mask_byte (n - 8 * i)"
  by (simp add: CIDRMask_def)

lemma drop_CIDRMask: "drop 12 (CIDRMask n 16) = CIDRMask (n - 96) 4"
  by (rule nth_equalityI) (simp_all add: nth_CIDRMask diff_diff_add algebra_simps)

lemma mask_byte_nested:
  assumes "k \<le> n"
  shows "mask_byte n AND mask_byte k = mask_byte k"
proof (cases "n \<ge> 8")
  case True
  have small: "mask_byte k \<le> 255" by (simp add: mask_byte_def)
  have "(255 :: nat) = mask 8" by (simp add: mask_eq_exp_minus_1)
  then have "mask_byte k AND 255 = mask_byte k mod 2 ^ 8" by (metis take_bit_eq_mask take_bit_eq_mod)
  then show ?thesis using True small by (simp add: mask_byte_def and.commute)
next
  case False
  then have "n \<in> {0, 1, 2, 3, 4, 5, 6, 7}" "k \<in> {0, 1, 2, 3, 4, 5, 6, 7}" using assms by auto
  then show ?thesis using assms by (auto simp: mask_byte_def)
qed

lemma parse_octet_bound: "parse_octet s = Some n \<Longrightarrow> n \<le> 255"
  by (auto simp: parse_octet_def split: if_splits)

lemma parseIPv4_length: "parseIPv4 s = Some ip \<Longrightarrow> length ip = 4"
  by (auto simp: parseIPv4_def split: list.splits option.splits)

lemma parse_groups_ell:
  "parse_groups n bs ell s = Some (bs', ell', r) \<Longrightarrow> (\<And>e. ell = Some e \<Longrightarrow> e \<le> length bs) \<Longrightarrow>
     (\<forall>e. ell' = Some e \<longrightarrow> e \<le> length bs') \<and> (length bs + 2 * n \<le> 16 \<longrightarrow> length bs' \<le> 16)"
proof (induction n bs ell s arbitrary: bs' ell' r rule: parse_groups.induct)
  case (2 n bs ell s)
  let ?g = "takeWhile (\<lambda>c. hex_val c \<noteq> None) s"
  let ?r = "drop (length ?g) s"
  let ?bs = "bs @ [hex_group ?g div 256, hex_group ?g mod 256]"
  have g: "\<not> (?g = [] \<or> length ?g > 4)" using "2.prems"(1) by (auto simp: Let_def split: if_splits)
  show ?case
  proof (cases "?r \<noteq> [] \<and> hd ?r = CHR ''.''")
    case True
    then show ?thesis using "2.prems" g
      by (force simp: Let_def dest: parseIPv4_length split: if_splits option.splits)
  next
    case False
    show ?thesis
    proof (cases ?r)
      case Nil
      then show ?thesis using "2.prems" g by (force simp: Let_def split: if_splits)
    next
      case (Cons a r1)
      note IH1 = "2.IH"(1) [OF refl refl g False refl Cons]
      note IH2 = "2.IH"(2) [OF refl refl g False refl Cons]
      have ell: "\<And>e. ell = Some e \<Longrightarrow> e \<le> length ?bs" using "2.prems"(2) by fastforce
      show ?thesis
      proof (cases "a \<noteq> CHR '':'' \<or> r1 = []")
        case True
        then show ?thesis using "2.prems" g False Cons by (auto simp: Let_def split: if_splits)
      next
        case colon: False
        show ?thesis
        proof (cases "hd r1 = CHR '':''")
          case True
          then have n: "ell = None" using "2.prems"(1) g False Cons colon by (auto simp: Let_def split: if_splits)
          show ?thesis
          proof (cases "tl r1 = []")
            case True
            then show ?thesis using \<open>hd r1 = CHR '':''\<close> "2.prems" n g False Cons colon by (auto simp: Let_def split: if_splits)
          next
            case nonempty: False
            have run: "parse_groups n ?bs (Some (length ?bs)) (tl r1) = Some (bs', ell', r)"
              using True nonempty "2.prems"(1) n g False Cons colon by (auto simp: Let_def split: if_splits)
            have nn: "\<not> ell \<noteq> None" using n by simp
            show ?thesis using IH1 [OF colon True nn nonempty run] by auto
          qed
        next
          case single: False
          have run: "parse_groups n ?bs ell r1 = Some (bs', ell', r)"
            using single "2.prems"(1) g False Cons colon by (auto simp: Let_def split: if_splits)
          show ?thesis using IH2 [OF colon single run ell] by auto
        qed
      qed
    qed
  qed
qed auto

lemma expand_groups_length:
  "expand_groups (bs, ell, r) = Some ip \<Longrightarrow> length bs \<le> 16 \<Longrightarrow> (\<forall>e. ell = Some e \<longrightarrow> e \<le> length bs) \<Longrightarrow> length ip = 16"
  by (auto simp: expand_groups_def split: if_splits option.splits)

lemma parseIPv6_length: "parseIPv6 s = Some ip \<Longrightarrow> length ip = 16"
  by (auto simp: parseIPv6_def bind_eq_Some_conv split: if_splits
      dest!: parse_groups_ell intro: expand_groups_length)

lemma ParseAddr_length: "ParseAddr s = Some ip \<Longrightarrow> length ip = 4 \<or> length ip = 16"
  by (auto simp: ParseAddr_def dest: parseIPv4_length parseIPv6_length split: option.splits if_splits)

lemma ParseCIDR_block: "ParseCIDR s = Some (ip, n) \<Longrightarrow> cidr_block n"
  by (auto simp: ParseCIDR_def cidr_block_def ip_Mask_def Let_def dest!: ParseAddr_length split: option.splits if_splits)

lemma network_number_block:
  assumes "cidr_block n"
  obtains ones where "network_number n = (as_short (netIP n), CIDRMask ones (length (as_short (netIP n))))"
proof -
  obtain ones where m: "netMask n = CIDRMask ones (length (netIP n))" and l: "length (netIP n) = 4 \<or> length (netIP n) = 16"
    using assms by (auto simp: cidr_block_def)
  show ?thesis
  proof (cases "To4 (netIP n)")
    case None
    then have "length (netIP n) = 16" using l by (auto simp: To4_def)
    then show ?thesis using that [of ones] None m by (simp add: network_number_def as_short_def)
  next
    case (Some b)
    then consider "b = netIP n" "length (netIP n) = 4" | "b = drop 12 (netIP n)" "length (netIP n) = 16"
      by (auto simp: To4_def split: if_splits)
    then show ?thesis
    proof cases
      case 1
      then show ?thesis using that [of ones] Some m by (simp add: network_number_def as_short_def)
    next
      case 2
      then show ?thesis using that [of "ones - 96"] Some m by (simp add: network_number_def as_short_def drop_CIDRMask)
    qed
  qed
qed

lemma net_Contains_iff:
  assumes "network_number n = (nn, CIDRMask ones (length nn))"
  shows "net_Contains n ip \<longleftrightarrow> length (as_short ip) = length nn \<and>
    (\<forall>i < length nn. nn ! i AND mask_byte (ones - 8 * i) = as_short ip ! i AND mask_byte (ones - 8 * i))"
  using assms by (auto simp: net_Contains_def list_all_length nth_CIDRMask)

text \<open>Two blocks overlap when one contains the first address of the other, and only then.\<close>

lemma blocks_overlap_iff:
  assumes "cidr_block a" "cidr_block b"
  shows "net_Contains a (netIP b) \<or> net_Contains b (netIP a) \<longleftrightarrow> (\<exists>x. net_Contains a x \<and> net_Contains b x)"
proof -
  obtain oa where oa: "network_number a = (as_short (netIP a), CIDRMask oa (length (as_short (netIP a))))"
    using network_number_block [OF assms(1)] .
  obtain ob where ob: "network_number b = (as_short (netIP b), CIDRMask ob (length (as_short (netIP b))))"
    using network_number_block [OF assms(2)] .
  note ca = net_Contains_iff [OF oa] and cb = net_Contains_iff [OF ob]
  have self: "net_Contains a (netIP a)" "net_Contains b (netIP b)" by (simp_all add: ca cb)
  have narrow: "net_Contains n (netIP k)"
    if "net_Contains n x" "net_Contains k x" "p \<le> q"
      and n: "network_number n = (as_short (netIP n), CIDRMask p (length (as_short (netIP n))))"
      and k: "network_number k = (as_short (netIP k), CIDRMask q (length (as_short (netIP k))))" for n k x p q
  proof -
    have "as_short (netIP n) ! i AND mask_byte (p - 8 * i) = as_short (netIP k) ! i AND mask_byte (p - 8 * i)"
      if "i < length (as_short (netIP n))" for i
    proof -
      have nest: "mask_byte (q - 8 * i) AND mask_byte (p - 8 * i) = mask_byte (p - 8 * i)"
        using \<open>p \<le> q\<close> by (simp add: mask_byte_nested)
      have "as_short (netIP k) ! i AND mask_byte (q - 8 * i) = as_short x ! i AND mask_byte (q - 8 * i)"
        "as_short (netIP n) ! i AND mask_byte (p - 8 * i) = as_short x ! i AND mask_byte (p - 8 * i)"
        using \<open>net_Contains n x\<close> \<open>net_Contains k x\<close> \<open>i < length (as_short (netIP n))\<close>
        by (auto simp: net_Contains_iff [OF n] net_Contains_iff [OF k])
      then show ?thesis using nest by (metis and.assoc)
    qed
    then show ?thesis using \<open>net_Contains n x\<close> \<open>net_Contains k x\<close>
      by (auto simp: net_Contains_iff [OF n] net_Contains_iff [OF k])
  qed
  show ?thesis
  proof
    assume "\<exists>x. net_Contains a x \<and> net_Contains b x"
    then show "net_Contains a (netIP b) \<or> net_Contains b (netIP a)"
      using narrow [OF _ _ _ oa ob] narrow [OF _ _ _ ob oa] by (metis nat_le_linear)
  qed (use self in blast)
qed

end
