(* ===== verification/WebServer.thy ===== *)
theory WebServer
  imports RateLimit Effects GoNet GoPath
begin

text \<open>
  The HTTP side of the web process: sessions (\<open>web/auth.go\<close>), the middleware chain
  (\<open>web/middleware.go\<close>, \<open>i18n/middleware.go\<close>), and the server with its routes and its login handlers
  (\<open>web/server.go\<close>). A handler is a function of the request, the response written so far and the server's
  state; middleware maps handlers to handlers, as in the source. The cookie store of gorilla/sessions, the
  password hash and the page templates are parameters.
\<close>

section \<open>Requests, responses and handlers\<close>

record request =
  rqMethod :: string
  rqPath :: string
  rqRemoteAddr :: string
  rqCookies :: "(string \<times> string) list"
  rqHeader :: "string \<Rightarrow> string"
  rqForm :: "string \<Rightarrow> string"
  rqBadForm :: bool
  rqQuery :: "string \<Rightarrow> string"
  rqBody :: string
  rqVars :: "(string \<times> string) list"
  rqLang :: "string option"

record response =
  rsStatus :: "nat option"
  rsHeaders :: "string \<rightharpoonup> string"
  rsSetCookies :: "(string \<times> string) list"
  rsSession :: "bool option"
  rsBody :: string

definition empty_response :: response where
  "empty_response = \<lparr>rsStatus = None, rsHeaders = Map.empty, rsSetCookies = [], rsSession = None, rsBody = []\<rparr>"

text \<open>\<open>w.WriteHeader\<close>: only the first call counts.\<close>

definition WriteHeader :: "nat \<Rightarrow> response \<Rightarrow> response" where
  "WriteHeader code w = (if rsStatus w = None then w\<lparr>rsStatus := Some code\<rparr> else w)"

definition Header_Set :: "string \<Rightarrow> string \<Rightarrow> response \<Rightarrow> response" where
  "Header_Set k v w = w\<lparr>rsHeaders := (rsHeaders w)(k \<mapsto> v)\<rparr>"

definition SetCookie :: "string \<Rightarrow> string \<Rightarrow> response \<Rightarrow> response" where
  "SetCookie k v w = w\<lparr>rsSetCookies := rsSetCookies w @ [(k, v)]\<rparr>"

definition Write :: "string \<Rightarrow> response \<Rightarrow> response" where
  "Write body w = (WriteHeader 200 w)\<lparr>rsBody := rsBody w @ body\<rparr>"

definition http_Error :: "string \<Rightarrow> nat \<Rightarrow> response \<Rightarrow> response" where
  "http_Error msg code w =
     Write (msg @ [CHR 0x0A]) (WriteHeader code
       (Header_Set ''X-Content-Type-Options'' ''nosniff''
         (Header_Set ''Content-Type'' ''text/plain; charset=utf-8'' w)))"

definition http_Redirect :: "string \<Rightarrow> nat \<Rightarrow> response \<Rightarrow> response" where
  "http_Redirect url code w = WriteHeader code (Header_Set ''Location'' url w)"

definition Cookie :: "string \<Rightarrow> request \<Rightarrow> string option" where
  "Cookie k r = map_of (rqCookies r) k"

record tmplPageData =
  pdLang :: string
  pdPage :: string
  pdCSRFToken :: string
  pdError :: string

record Auth =
  passwordHash :: string

text \<open>The server's state: its limiters, the sessions' password hash, and the state of the services.\<close>

record 'a server =
  svAuth :: Auth
  svGlobal :: RateLimiter
  svLogin :: RateLimiter
  svProbe :: RateLimiter
  svDraws :: nat
  svApp :: 'a

text \<open>
  What the server takes from outside: the time of the request, the random source, the session decoded
  from the request's cookie, saving a session, the bcrypt comparison, the message catalogues and the
  template engine.
\<close>

record webenv =
  weNow :: gotime
  weFloat :: float_ops
  weRandom :: "nat \<Rightarrow> nat list"
  weSession :: "(string \<times> string) list \<Rightarrow> error + bool option"
  weSaveSession :: "(string \<times> string) list \<Rightarrow> bool \<Rightarrow> error option"
  weCompare :: "string \<Rightarrow> string \<Rightarrow> bool"
  weLocales :: "string \<rightharpoonup> (string \<rightharpoonup> string)"
  weFallback :: string
  weRender :: "string \<Rightarrow> string \<Rightarrow> tmplPageData \<Rightarrow> error + string"

type_synonym 'a handler = "request \<Rightarrow> response \<times> 'a server \<Rightarrow> response \<times> 'a server"

section \<open>Sessions\<close>

definition NewAuth :: "string \<Rightarrow> Auth" where
  "NewAuth hash = \<lparr>passwordHash = hash\<rparr>"

definition VerifyPassword :: "webenv \<Rightarrow> Auth \<Rightarrow> string \<Rightarrow> bool" where
  "VerifyPassword env a password = weCompare env (passwordHash a) password"

definition IsAuthenticated :: "webenv \<Rightarrow> request \<Rightarrow> bool" where
  "IsAuthenticated env r = (case weSession env (rqCookies r) of Inl e \<Rightarrow> False | Inr v \<Rightarrow> v = Some True)"

definition Login :: "webenv \<Rightarrow> request \<Rightarrow> response \<Rightarrow> error option \<times> response" where
  "Login env r w =
     (case weSaveSession env (rqCookies r) True of
        Some e \<Rightarrow> (Some e, w)
      | None \<Rightarrow> (None, w\<lparr>rsSession := Some True\<rparr>))"

definition Logout :: "webenv \<Rightarrow> request \<Rightarrow> response \<Rightarrow> error option \<times> response" where
  "Logout env r w =
     (case weSession env (rqCookies r) of
        Inl e \<Rightarrow> (Some e, w)
      | Inr v \<Rightarrow> (case weSaveSession env (rqCookies r) False of
                   Some e \<Rightarrow> (Some e, w)
                 | None \<Rightarrow> (None, w\<lparr>rsSession := Some False\<rparr>)))"

section \<open>Middleware\<close>

definition AuthRequired :: "webenv \<Rightarrow> 'a handler \<Rightarrow> 'a handler" where
  "AuthRequired env next_h r = (\<lambda>(w, s).
     if \<not> IsAuthenticated env r then (http_Redirect ''/login'' 303 w, s) else next_h r (w, s))"

definition hex_bytes :: "nat list \<Rightarrow> string" where
  "hex_bytes bs = concat (map (\<lambda>b. [hex_char (b div 16), hex_char (b mod 16)]) bs)"

definition getOrCreateCSRFToken :: "webenv \<Rightarrow> request \<Rightarrow> response \<times> 'a server \<Rightarrow> string \<times> response \<times> 'a server" where
  "getOrCreateCSRFToken env r = (\<lambda>(w, s).
     case Cookie ''csrf_token'' r of
       Some v \<Rightarrow> (v, w, s)
     | None \<Rightarrow>
         (let token = hex_bytes (weRandom env (svDraws s))
          in (token, SetCookie ''csrf_token'' token w, s\<lparr>svDraws := svDraws s + 1\<rparr>)))"

definition safe_method :: "string \<Rightarrow> bool" where
  "safe_method m \<longleftrightarrow> m = ''GET'' \<or> m = ''HEAD''"

text \<open>The token a request presents: the header if it is set, the form value otherwise.\<close>

definition presented_token :: "request \<Rightarrow> string" where
  "presented_token r =
     (let token = rqHeader r ''X-CSRF-Token'' in if token = [] then rqForm r ''csrf_token'' else token)"

definition CSRFProtect :: "webenv \<Rightarrow> 'a handler \<Rightarrow> 'a handler" where
  "CSRFProtect env next_h r = (\<lambda>(w, s).
     if safe_method (rqMethod r) then
       (case getOrCreateCSRFToken env r (w, s) of
          (token, w', s') \<Rightarrow> next_h r (Header_Set ''X-CSRF-Token'' token w', s'))
     else
       (case Cookie ''csrf_token'' r of
          None \<Rightarrow> (http_Error ''CSRF token missing'' 403 w, s)
        | Some cookie \<Rightarrow>
            if presented_token r = [] \<or> presented_token r \<noteq> cookie
            then (http_Error ''CSRF token invalid'' 403 w, s)
            else next_h r (w, s)))"

text \<open>\<open>net.SplitHostPort\<close>, the host only.\<close>

definition SplitHostPort :: "string \<Rightarrow> string option" where
  "SplitHostPort hp =
     (case LastIndexByte hp (CHR '':'') of
        None \<Rightarrow> None
      | Some i \<Rightarrow>
          if hd hp = CHR ''['' then
            (case Index hp '']'' of
               None \<Rightarrow> None
             | Some e \<Rightarrow>
                 if e + 1 \<noteq> i then None
                 else if CHR ''['' \<in> set (drop 1 hp) \<or> CHR '']'' \<in> set (drop (e + 1) hp) then None
                 else Some (drop 1 (take e hp)))
          else if CHR '':'' \<in> set (take i hp) then None
          else if CHR ''['' \<in> set hp \<or> CHR '']'' \<in> set hp then None
          else Some (take i hp))"

definition remote_host :: "request \<Rightarrow> string" where
  "remote_host r = (case SplitHostPort (rqRemoteAddr r) of None \<Rightarrow> rqRemoteAddr r | Some h \<Rightarrow> h)"

definition IsLoopback :: "goip \<Rightarrow> bool" where
  "IsLoopback ip = (case To4 ip of
       Some b \<Rightarrow> hd b = 127
     | None \<Rightarrow> ip = replicate 15 0 @ [1])"

definition LANOnly :: "IPNet list \<Rightarrow> 'a handler \<Rightarrow> 'a handler" where
  "LANOnly allowedNets next_h r = (\<lambda>(w, s).
     case ParseIP (remote_host r) of
       None \<Rightarrow> (http_Error ''Forbidden'' 403 w, s)
     | Some ip \<Rightarrow>
         if IsLoopback ip then next_h r (w, s)
         else if \<exists>n \<in> set allowedNets. net_Contains n ip then next_h r (w, s)
         else (http_Error ''Forbidden'' 403 w, s))"

text \<open>
  The limiter as middleware. Which of the server's three limiters it is, is given by the functions that
  read it from the server and put it back.
\<close>

definition RateMiddleware ::
    "webenv \<Rightarrow> ('a server \<Rightarrow> RateLimiter) \<Rightarrow> (RateLimiter \<Rightarrow> 'a server \<Rightarrow> 'a server) \<Rightarrow> 'a handler \<Rightarrow> 'a handler" where
  "RateMiddleware env get put next_h r = (\<lambda>(w, s).
     case Allow (weFloat env) (weNow env) (remote_host r) (get s) of
       (ok, rl) \<Rightarrow>
         if \<not> ok then (http_Error ''Too Many Requests'' 429 w, put rl s)
         else next_h r (w, put rl s))"

definition SecurityHeaders :: "'a handler \<Rightarrow> 'a handler" where
  "SecurityHeaders next_h r = (\<lambda>(w, s). next_h r
     (Header_Set ''Referrer-Policy'' ''strict-origin-when-cross-origin''
       (Header_Set ''X-Frame-Options'' ''DENY''
         (Header_Set ''X-Content-Type-Options'' ''nosniff''
           (Header_Set ''Content-Security-Policy''
              (''default-src 'self'; script-src 'self'; style-src 'self' 'unsafe-inline'; '' @
               ''img-src 'self' data:; connect-src 'self'; font-src 'self'; frame-ancestors 'none'' @ [CHR 0x27]) w))), s))"

text \<open>The log line aside, \<open>RequestLogger\<close> calls the next handler.\<close>

definition RequestLogger :: "'a handler \<Rightarrow> 'a handler" where
  "RequestLogger next_h = next_h"

subsection \<open>Languages\<close>

definition HasLocale :: "webenv \<Rightarrow> string \<Rightarrow> bool" where
  "HasLocale env code \<longleftrightarrow> weLocales env code \<noteq> None"

definition loc_T :: "webenv \<Rightarrow> string \<Rightarrow> string \<Rightarrow> string" where
  "loc_T env lang key =
     (case Option.bind (weLocales env lang) (\<lambda>m. m key) of
        Some msg \<Rightarrow> msg
      | None \<Rightarrow>
          if lang \<noteq> weFallback env then
            (case Option.bind (weLocales env (weFallback env)) (\<lambda>m. m key) of Some msg \<Rightarrow> msg | None \<Rightarrow> key)
          else key)"

definition detectAccept :: "webenv \<Rightarrow> request \<Rightarrow> string" where
  "detectAccept env r =
     (let accept = rqHeader r ''Accept-Language'';
          codes = map (\<lambda>part. SplitN2 (TrimSpace (SplitN2 part (CHR '';'') ! 0)) (CHR ''-'') ! 0) (Split accept (CHR '',''))
      in if accept \<noteq> [] then (case find (HasLocale env) codes of Some code \<Rightarrow> code | None \<Rightarrow> weFallback env)
         else weFallback env)"

definition detectLang :: "webenv \<Rightarrow> request \<Rightarrow> string" where
  "detectLang env r =
     (case Cookie ''lang'' r of
        Some c \<Rightarrow> if HasLocale env c then c else detectAccept env r
      | None \<Rightarrow> detectAccept env r)"

definition i18n_Middleware :: "webenv \<Rightarrow> 'a handler \<Rightarrow> 'a handler" where
  "i18n_Middleware env next_h r = next_h (r\<lparr>rqLang := Some (detectLang env r)\<rparr>)"

definition LangFromContext :: "request \<Rightarrow> string" where
  "LangFromContext r = (case rqLang r of Some lang \<Rightarrow> lang | None \<Rightarrow> ''en'')"

section \<open>The login handlers\<close>

definition login_page :: "webenv \<Rightarrow> request \<Rightarrow> string \<Rightarrow> string \<Rightarrow> tmplPageData" where
  "login_page env r token err =
     \<lparr>pdLang = LangFromContext r, pdPage = ''login'', pdCSRFToken = token, pdError = err\<rparr>"

definition handleLoginPage :: "webenv \<Rightarrow> 'a handler" where
  "handleLoginPage env r = (\<lambda>(w, s).
     if IsAuthenticated env r then (http_Redirect ''/'' 303 w, s)
     else (case getOrCreateCSRFToken env r (w, s) of (token, w', s') \<Rightarrow>
       (case weRender env ''login'' ''auth'' (login_page env r token []) of
          Inl e \<Rightarrow> (http_Error ''Internal Server Error'' 500 w', s')
        | Inr html \<Rightarrow> (Write html w', s'))))"

text \<open>HTMX callers get a header instead of a redirect.\<close>

definition hx_request :: "request \<Rightarrow> bool" where
  "hx_request r \<longleftrightarrow> rqHeader r ''HX-Request'' = ''true''"

definition handleLogin :: "webenv \<Rightarrow> 'a handler" where
  "handleLogin env r = (\<lambda>(w, s).
     if \<not> VerifyPassword env (svAuth s) (rqForm r ''password'') then
       (case getOrCreateCSRFToken env r (w, s) of (token, w', s') \<Rightarrow>
         (let data = login_page env r token (loc_T env (LangFromContext r) ''auth.wrongPassword'');
              w'' = WriteHeader 401 w'
          in case weRender env ''login'' ''auth'' data of
               Inl e \<Rightarrow> (w'', s')
             | Inr html \<Rightarrow> (Write html w'', s')))
     else (case Login env r w of
         (Some e, w') \<Rightarrow> (http_Error ''Internal Server Error'' 500 w', s)
       | (None, w') \<Rightarrow>
           if hx_request r then (WriteHeader 200 (Header_Set ''HX-Redirect'' ''/'' w'), s)
           else (http_Redirect ''/'' 303 w', s)))"

definition handleLogout :: "webenv \<Rightarrow> 'a handler" where
  "handleLogout env r = (\<lambda>(w, s).
     (let w' = snd (Logout env r w)
      in if hx_request r then (WriteHeader 200 (Header_Set ''HX-Redirect'' ''/login'' w'), s)
         else (http_Redirect ''/login'' 303 w', s)))"

definition handleLangSwitch :: "webenv \<Rightarrow> 'a handler" where
  "handleLangSwitch env r = (\<lambda>(w, s).
     (let lang = (if HasLocale env (rqForm r ''lang'') then rqForm r ''lang'' else weFallback env);
          w' = SetCookie ''lang'' lang w
      in if hx_request r then (WriteHeader 200 (Header_Set ''HX-Refresh'' ''true'' w'), s)
         else (http_Redirect ''/'' 303 w', s)))"

section \<open>Routes\<close>

datatype guard = Open | Authed | LoginLimited | AuthedProbed

type_synonym route = "string \<times> guard \<times> string"

text \<open>The calls of \<open>mux.Handle\<close> in order: the pattern, the wrappers around the handler, the handler.\<close>

definition routes :: "route list" where
  "routes = [
     (''GET /static/'', Open, ''static''),
     (''GET /login'', Open, ''handleLoginPage''),
     (''POST /login'', LoginLimited, ''handleLogin''),
     (''POST /logout'', Open, ''handleLogout''),
     (''POST /settings/lang'', Open, ''handleLangSwitch''),
     (''GET /{$}'', Authed, ''dashboard.HandlePage''),
     (''GET /events/stats'', Authed, ''sse.ServeHTTP''),
     (''GET /events/qos'', Authed, ''qosSse.ServeHTTP''),
     (''GET /settings'', Authed, ''settings.HandleSettingsPage''),
     (''POST /settings/web-password'', Authed, ''settings.HandleChangeWebPassword''),
     (''POST /settings/root-password'', Authed, ''settings.HandleChangeRootPassword''),
     (''POST /settings/hostname'', Authed, ''settings.HandleUpdateHostname''),
     (''POST /settings/timezone'', Authed, ''settings.HandleUpdateTimezone''),
     (''POST /system/reboot'', Authed, ''settings.HandleReboot''),
     (''POST /system/factory-reset'', Authed, ''settings.HandleFactoryReset''),
     (''GET /system/backup/export'', Authed, ''settings.HandleExport''),
     (''POST /system/backup/import'', Authed, ''settings.HandleImport''),
     (''GET /backup'', Authed, ''backuph.HandleBackupPage''),
     (''POST /backup/schedule'', Authed, ''backuph.HandleSaveSchedule''),
     (''POST /backup/target'', Authed, ''backuph.HandleAddTarget''),
     (''DELETE /backup/target/{name}'', Authed, ''backuph.HandleDeleteTarget''),
     (''POST /backup/run'', Authed, ''backuph.HandleRunNow''),
     (''GET /backup/history'', Authed, ''backuph.HandleHistory''),
     (''GET /system/update/check'', Authed, ''settings.HandleCheckUpdate''),
     (''POST /system/update/apply'', Authed, ''settings.HandleApplyUpdate''),
     (''POST /system/update/confirm'', Authed, ''settings.HandleConfirmUpdate''),
     (''POST /system/update/rollback'', Authed, ''settings.HandleRollbackUpdate''),
     (''GET /api/version'', Open, ''settings.HandleVersion''),
     (''GET /metrics'', Open, ''metricsh.HandleMetrics''),
     (''GET /network'', Authed, ''network.HandlePage''),
     (''POST /network/pppoe/connect'', Authed, ''pppoe.HandleConnect''),
     (''POST /network/pppoe/disconnect'', Authed, ''pppoe.HandleDisconnect''),
     (''POST /network/pppoe/sniff/start'', Authed, ''pppoe.HandleSniffStart''),
     (''POST /network/pppoe/sniff/stop'', Authed, ''pppoe.HandleSniffStop''),
     (''POST /network/healthcheck/{name}/reset'', Authed, ''health.HandleReset''),
     (''POST /network/vlan'', Authed, ''vlan.HandleAdd''),
     (''DELETE /network/vlan/{id}'', Authed, ''vlan.HandleDelete''),
     (''GET /firewall'', Authed, ''firewall.HandlePage''),
     (''POST /firewall/apply'', Authed, ''firewall.HandleApply''),
     (''POST /firewall/confirm'', Authed, ''firewall.HandleConfirm''),
     (''POST /firewall/rollback'', Authed, ''firewall.HandleRollback''),
     (''POST /firewall/port-forwards'', Authed, ''firewall.HandleAddPortForward''),
     (''DELETE /firewall/port-forwards/{index}'', Authed, ''firewall.HandleDeletePortForward''),
     (''POST /firewall/open-ports'', Authed, ''firewall.HandleAddOpenPort''),
     (''DELETE /firewall/open-ports/{index}'', Authed, ''firewall.HandleDeleteOpenPort''),
     (''POST /firewall/open-ports/{index}/toggle'', Authed, ''firewall.HandleToggleOpenPort''),
     (''POST /firewall/rules'', Authed, ''firewall.HandleAddRule''),
     (''DELETE /firewall/rules/{index}'', Authed, ''firewall.HandleDeleteRule''),
     (''POST /firewall/rules/{index}/toggle'', Authed, ''firewall.HandleToggleRule''),
     (''GET /dns'', Authed, ''dns.HandlePage''),
     (''POST /dns/clear-log'', Authed, ''dns.HandleClearLog''),
     (''POST /dns/blocklist/update'', Authed, ''dns.HandleUpdateBlocklist''),
     (''POST /dns/dot'', Authed, ''dns.HandleSaveDoT''),
     (''POST /dns/dot/probe'', AuthedProbed, ''dns.HandleProbeDoT''),
     (''POST /dns/doh/probe'', AuthedProbed, ''dns.HandleProbeDoH''),
     (''POST /dns/records'', Authed, ''dns.HandleAddRecord''),
     (''DELETE /dns/records/{index}'', Authed, ''dns.HandleDeleteRecord''),
     (''GET /dhcp'', Authed, ''dhcp.HandlePage''),
     (''POST /dhcp/static'', Authed, ''dhcp.HandleAddStatic''),
     (''DELETE /dhcp/static/{index}'', Authed, ''dhcp.HandleDeleteStatic''),
     (''GET /ipv6'', Authed, ''ipv6.HandlePage''),
     (''POST /ipv6/save'', Authed, ''ipv6.HandleSave''),
     (''POST /ipv6/renew'', Authed, ''ipv6.HandleRenew''),
     (''POST /ipv6/release'', Authed, ''ipv6.HandleRelease''),
     (''POST /ipv6/start'', Authed, ''ipv6.HandleStart''),
     (''POST /ipv6/stop'', Authed, ''ipv6.HandleStop''),
     (''POST /ipv6/tunnel/update'', Authed, ''ipv6.HandleTunnelUpdateNow''),
     (''POST /ipv6/subnet-map'', Authed, ''ipv6.HandleSubnetMap''),
     (''GET /qos'', Authed, ''qos.HandlePage''),
     (''POST /qos/apply'', Authed, ''qos.HandleApply''),
     (''POST /qos/clear'', Authed, ''qos.HandleClear''),
     (''GET /vpn'', Authed, ''vpn.HandlePage''),
     (''POST /vpn/server/peer'', Authed, ''vpn.HandleAddPeer''),
     (''DELETE /vpn/server/peer/{name}'', Authed, ''vpn.HandleRemovePeer''),
     (''POST /vpn/server/start'', Authed, ''vpn.HandleServerStart''),
     (''POST /vpn/server/stop'', Authed, ''vpn.HandleServerStop''),
     (''POST /vpn/client/{name}/connect'', Authed, ''vpn.HandleConnectClient''),
     (''POST /vpn/client/{name}/disconnect'', Authed, ''vpn.HandleDisconnectClient''),
     (''GET /vpn/s2s'', Authed, ''vpn.HandleS2SWizardPage''),
     (''POST /vpn/s2s/invite'', Authed, ''vpn.HandleS2SInvite''),
     (''POST /vpn/s2s/join'', Authed, ''vpn.HandleS2SJoin''),
     (''POST /vpn/s2s/finalize'', Authed, ''vpn.HandleS2SFinalize''),
     (''DELETE /vpn/s2s/{name}'', Authed, ''vpn.HandleS2SCancel''),
     (''GET /vpn/s2s/{name}/health'', Authed, ''vpn.HandleS2SHealth''),
     (''POST /vpn/s2s/{name}/reachability'', Authed, ''vpn.HandleS2SReachability''),
     (''GET /openvpn'', Authed, ''ovpn.HandlePage''),
     (''POST /openvpn/init-pki'', Authed, ''ovpn.HandleInitPKI''),
     (''POST /openvpn/server/start'', Authed, ''ovpn.HandleServerStart''),
     (''POST /openvpn/server/stop'', Authed, ''ovpn.HandleServerStop''),
     (''POST /openvpn/server/client'', Authed, ''ovpn.HandleAddClient''),
     (''DELETE /openvpn/server/client/{name}'', Authed, ''ovpn.HandleRevokeClient''),
     (''GET /openvpn/server/client/{name}/config'', Authed, ''ovpn.HandleDownloadOVPN''),
     (''POST /openvpn/client'', Authed, ''ovpn.HandleAddOutboundClient''),
     (''POST /openvpn/client/{name}/connect'', Authed, ''ovpn.HandleConnectOutbound''),
     (''POST /openvpn/client/{name}/disconnect'', Authed, ''ovpn.HandleDisconnectOutbound''),
     (''GET /routing'', Authed, ''routing.HandlePage''),
     (''POST /routing/policy'', Authed, ''routing.HandleAddPolicy''),
     (''DELETE /routing/policy/{name}'', Authed, ''routing.HandleDeletePolicy''),
     (''POST /routing/reorder'', Authed, ''routing.HandleReorder''),
     (''GET /nas'', Authed, ''nas.HandlePage''),
     (''POST /nas/shares'', Authed, ''nas.HandleAddShare''),
     (''DELETE /nas/shares/{name}'', Authed, ''nas.HandleDeleteShare''),
     (''POST /nas/m3u/sync'', Authed, ''nas.HandleSyncM3U''),
     (''POST /nas/m3u/discover-groups'', Authed, ''nas.HandleDiscoverGroups''),
     (''GET /storage'', Authed, ''storageh.HandlePage''),
     (''GET /syslog'', Authed, ''syslogh.HandlePage''),
     (''POST /syslog/server'', Authed, ''syslogh.HandleSaveServerConfig''),
     (''POST /syslog/client'', Authed, ''syslogh.HandleSaveClientConfig''),
     (''POST /syslog/client/facilities'', Authed, ''syslogh.HandleAddFacility''),
     (''DELETE /syslog/client/facilities/{index}'', Authed, ''syslogh.HandleRemoveFacility''),
     (''GET /ntp'', Authed, ''ntph.HandlePage''),
     (''POST /ntp/force-sync'', Authed, ''ntph.HandleForceSync''),
     (''POST /ntp/sources'', Authed, ''ntph.HandleAddSource''),
     (''DELETE /ntp/sources/{index}'', Authed, ''ntph.HandleRemoveSource''),
     (''POST /ntp/allow'', Authed, ''ntph.HandleAddAllowSubnet''),
     (''DELETE /ntp/allow/{index}'', Authed, ''ntph.HandleRemoveAllowSubnet''),
     (''POST /ntp/settings'', Authed, ''ntph.HandleSaveSettings'')
   ]"

subsection \<open>The request multiplexer of net/http\<close>

text \<open>
  A pattern is a verb, a space and a path. A last segment \<open>{$}\<close> matches the trailing slash only, an empty
  last segment any rest, a segment in braces any one segment but not a trailing slash. A \<open>GET\<close> pattern
  also serves \<open>HEAD\<close>.
\<close>

definition is_wild :: "string \<Rightarrow> bool" where
  "is_wild seg \<longleftrightarrow> seg \<noteq> [] \<and> hd seg = CHR ''{'' \<and> last seg = CHR ''}''"

fun match_segs :: "string list \<Rightarrow> string list \<Rightarrow> (string \<times> string) list option" where
  "match_segs [] [] = Some []"
| "match_segs [[]] (x # xs) = Some []"
| "match_segs [p] [x] =
     (if p = ''{$}'' then (if x = [] then Some [] else None)
      else if is_wild p then (if x = [] then None else Some [(butlast (tl p), x)])
      else if p = x then Some [] else None)"
| "match_segs (p # ps) (x # xs) =
     (if is_wild p then (if x = [] then None else map_option (Cons (butlast (tl p), x)) (match_segs ps xs))
      else if p = x then match_segs ps xs else None)"
| "match_segs _ _ = None"

definition pattern_method :: "string \<Rightarrow> string" where
  "pattern_method pat = takeWhile (\<lambda>c. c \<noteq> CHR '' '') pat"

definition pattern_path :: "string \<Rightarrow> string" where
  "pattern_path pat = drop 1 (dropWhile (\<lambda>c. c \<noteq> CHR '' '') pat)"

definition match_method :: "string \<Rightarrow> string \<Rightarrow> bool" where
  "match_method pat m \<longleftrightarrow> pattern_method pat = m \<or> pattern_method pat = ''GET'' \<and> m = ''HEAD''"

definition match_path :: "string \<Rightarrow> string \<Rightarrow> (string \<times> string) list option" where
  "match_path pat path = match_segs (tl (Split (pattern_path pat) slash)) (tl (Split path slash))"

definition cleanPath :: "string \<Rightarrow> string" where
  "cleanPath p =
     (if p = [] then ''/''
      else (let q = (if hd p \<noteq> slash then slash # p else p); np = Clean q
            in if last q = slash \<and> np \<noteq> ''/'' then np @ ''/'' else np))"

definition mux_match :: "string \<Rightarrow> string \<Rightarrow> (route \<times> (string \<times> string) list) option" where
  "mux_match m path =
     (case find (\<lambda>rt. match_method (fst rt) m \<and> match_path (fst rt) path \<noteq> None) routes of
        None \<Rightarrow> None
      | Some rt \<Rightarrow> Some (rt, the (match_path (fst rt) path)))"

text \<open>
  What the multiplexer does with a request: a redirect to the cleaned path or to the subtree with its
  slash, the route's handler, or one of the two errors.
\<close>

datatype mux_result = MovedTo string | Routed route "(string \<times> string) list" | NotAllowed | NotFound

definition find_path :: "string \<Rightarrow> string \<Rightarrow> mux_result" where
  "find_path m rawpath =
     (let path = (if m = ''CONNECT'' then rawpath else cleanPath rawpath) in
      case mux_match m path of
        None \<Rightarrow>
          if path \<noteq> [] \<and> last path \<noteq> slash \<and> mux_match m (path @ ''/'') \<noteq> None then MovedTo (path @ ''/'')
          else if path \<noteq> rawpath then MovedTo path
          else if list_ex (\<lambda>rt. match_path (fst rt) path \<noteq> None) routes then NotAllowed
          else NotFound
      | Some (rt, vars) \<Rightarrow> if path \<noteq> rawpath then MovedTo path else Routed rt vars)"

definition find_route :: "request \<Rightarrow> mux_result" where
  "find_route r = find_path (rqMethod r) (rqPath r)"

definition put_login :: "RateLimiter \<Rightarrow> 'a server \<Rightarrow> 'a server" where
  "put_login rl s = s\<lparr>svLogin := rl\<rparr>"

definition put_probe :: "RateLimiter \<Rightarrow> 'a server \<Rightarrow> 'a server" where
  "put_probe rl s = s\<lparr>svProbe := rl\<rparr>"

definition put_global :: "RateLimiter \<Rightarrow> 'a server \<Rightarrow> 'a server" where
  "put_global rl s = s\<lparr>svGlobal := rl\<rparr>"

text \<open>The handlers of the server itself; those of package \<open>handlers\<close> are given by name.\<close>

definition named_handler :: "webenv \<Rightarrow> (string \<Rightarrow> 'a handler) \<Rightarrow> string \<Rightarrow> 'a handler" where
  "named_handler env A n =
     (if n = ''handleLoginPage'' then handleLoginPage env
      else if n = ''handleLogin'' then handleLogin env
      else if n = ''handleLogout'' then handleLogout env
      else if n = ''handleLangSwitch'' then handleLangSwitch env
      else A n)"

fun install :: "webenv \<Rightarrow> guard \<Rightarrow> 'a handler \<Rightarrow> 'a handler" where
  "install env Open h = h"
| "install env Authed h = AuthRequired env h"
| "install env LoginLimited h = RateMiddleware env svLogin put_login h"
| "install env AuthedProbed h = AuthRequired env (RateMiddleware env svProbe put_probe h)"

definition mux_ServeHTTP :: "webenv \<Rightarrow> (string \<Rightarrow> 'a handler) \<Rightarrow> 'a handler" where
  "mux_ServeHTTP env A r = (\<lambda>(w, s).
     case find_route r of
       MovedTo url \<Rightarrow> (http_Redirect url 301 w, s)
     | NotAllowed \<Rightarrow> (http_Error ''Method Not Allowed'' 405 w, s)
     | NotFound \<Rightarrow> (http_Error ''404 page not found'' 404 w, s)
     | Routed (pat, g, n) vars \<Rightarrow> install env g (named_handler env A n) (r\<lparr>rqVars := vars\<rparr>) (w, s))"

section \<open>The server\<close>

definition allowedNets :: "Config \<Rightarrow> IPNet list" where
  "allowedNets c =
     map snd (List.map_filter (\<lambda>a. a)
       (ParseCIDR ''10.10.10.0/24'' #
        map (\<lambda>i. if ifRole i = ''lan'' \<and> ifAddress i \<noteq> [] then ParseCIDR (ifAddress i) else None) (cfgInterfaces c)))"

definition NewServer :: "Config \<Rightarrow> 'a \<Rightarrow> 'a server" where
  "NewServer c app =
     \<lparr>svAuth = NewAuth (sysAdminPasswordHash (cfgSystem c)),
      svGlobal = NewRateLimiter 30 60, svLogin = NewRateLimiter 1 5, svProbe = NewRateLimiter 1 2,
      svDraws = 0, svApp = app\<rparr>"

text \<open>The handler chain of \<open>NewServer\<close>, innermost first in the source.\<close>

definition server_handler :: "webenv \<Rightarrow> Config \<Rightarrow> (string \<Rightarrow> 'a handler) \<Rightarrow> 'a handler" where
  "server_handler env c A =
     LANOnly (allowedNets c)
       (i18n_Middleware env
         (RateMiddleware env svGlobal put_global
           (CSRFProtect env
             (SecurityHeaders
               (RequestLogger
                 (mux_ServeHTTP env A))))))"

definition ServeHTTP :: "webenv \<Rightarrow> Config \<Rightarrow> (string \<Rightarrow> 'a handler) \<Rightarrow> request \<Rightarrow> 'a server \<Rightarrow> response \<times> 'a server" where
  "ServeHTTP env c A r s = server_handler env c A r (empty_response, s)"

section \<open>Who reaches the handlers\<close>

definition lan_client :: "Config \<Rightarrow> request \<Rightarrow> bool" where
  "lan_client c r = (case ParseIP (remote_host r) of
       None \<Rightarrow> False
     | Some ip \<Rightarrow> IsLoopback ip \<or> (\<exists>n \<in> set (allowedNets c). net_Contains n ip))"

definition csrf_ok :: "request \<Rightarrow> bool" where
  "csrf_ok r \<longleftrightarrow> safe_method (rqMethod r) \<or>
     (presented_token r \<noteq> [] \<and> Cookie ''csrf_token'' r = Some (presented_token r))"

named_theorems web_simps "unfolding the middleware"

lemmas web_middleware [web_simps] = LANOnly_def i18n_Middleware_def RateMiddleware_def CSRFProtect_def
  SecurityHeaders_def RequestLogger_def AuthRequired_def

lemma request_fields [simp]:
  "remote_host (r\<lparr>rqLang := l\<rparr>) = remote_host r" "Cookie k (r\<lparr>rqLang := l\<rparr>) = Cookie k r"
  "presented_token (r\<lparr>rqLang := l\<rparr>) = presented_token r" "IsAuthenticated env (r\<lparr>rqLang := l\<rparr>) = IsAuthenticated env r"
  "IsAuthenticated env (r\<lparr>rqVars := v\<rparr>) = IsAuthenticated env r"
  by (simp_all add: remote_host_def Cookie_def presented_token_def IsAuthenticated_def Let_def cong: option.case_cong)

lemma LANOnly_pass: "lan_client c r \<Longrightarrow> LANOnly (allowedNets c) h r x = h r x"
  by (cases x) (auto simp: LANOnly_def lan_client_def split: option.splits)

lemma RateMiddleware_pass: "fst (Allow (weFloat env) (weNow env) (remote_host r) (get s)) \<Longrightarrow>
    RateMiddleware env get put h r (w, s) = h r (w, put (snd (Allow (weFloat env) (weNow env) (remote_host r) (get s))) s)"
  by (auto simp: RateMiddleware_def split: prod.splits)

lemma CSRFProtect_pass: "csrf_ok r \<Longrightarrow> \<not> safe_method (rqMethod r) \<Longrightarrow> CSRFProtect env h r x = h r x"
  by (cases x) (auto simp: CSRFProtect_def csrf_ok_def)

text \<open>Every route but these seven asks for a session.\<close>

lemma routes_guarded:
  "list_all (\<lambda>(pat, g, n). g \<in> {Authed, AuthedProbed} \<or>
     n \<in> {''static'', ''handleLoginPage'', ''handleLogin'', ''handleLogout'', ''handleLangSwitch'',
           ''settings.HandleVersion'', ''metricsh.HandleMetrics''}) routes"
  by (simp add: routes_def)

lemma mux_match_in: "mux_match m path = Some (rt, vars) \<Longrightarrow> rt \<in> set routes"
  unfolding mux_match_def find_Some_iff by (auto split: option.splits simp: find_Some_iff)

lemma find_route_in: "find_route r = Routed rt vars \<Longrightarrow> rt \<in> set routes"
  unfolding find_route_def find_path_def Let_def by (auto split: if_splits option.splits intro: mux_match_in)

text \<open>Middleware asks its handler about the request it got and nothing else.\<close>

lemma LANOnly_cong: "(\<And>x. h r x = h' r x) \<Longrightarrow> LANOnly nets h r x = LANOnly nets h' r x"
  by (cases x) (simp add: LANOnly_def split: option.splits)

lemma i18n_cong: "(\<And>x. h (r\<lparr>rqLang := Some (detectLang env r)\<rparr>) x = h' (r\<lparr>rqLang := Some (detectLang env r)\<rparr>) x) \<Longrightarrow>
    i18n_Middleware env h r x = i18n_Middleware env h' r x"
  by (simp add: i18n_Middleware_def)

lemma RateMiddleware_cong: "(\<And>x. h r x = h' r x) \<Longrightarrow> RateMiddleware env g p h r x = RateMiddleware env g p h' r x"
  by (auto simp: RateMiddleware_def split: prod.splits)

lemma CSRFProtect_cong: "(\<And>x. h r x = h' r x) \<Longrightarrow> CSRFProtect env h r x = CSRFProtect env h' r x"
  by (cases x) (simp add: CSRFProtect_def split: option.splits prod.splits)

lemma SecurityHeaders_cong: "(\<And>x. h r x = h' r x) \<Longrightarrow> SecurityHeaders h r x = SecurityHeaders h' r x"
  by (auto simp: SecurityHeaders_def split: prod.splits)

lemma AuthRequired_cong: "(\<And>x. h r x = h' r x) \<Longrightarrow> AuthRequired env h r x = AuthRequired env h' r x"
  by (auto simp: AuthRequired_def split: prod.splits)

lemmas middleware_cong = LANOnly_cong i18n_cong RateMiddleware_cong CSRFProtect_cong SecurityHeaders_cong

lemma mux_unauthenticated:
  assumes "\<not> IsAuthenticated env r"
    and "\<forall>n \<in> {''static'', ''settings.HandleVersion'', ''metricsh.HandleMetrics''}. A n = A' n"
  shows "mux_ServeHTTP env A r = mux_ServeHTTP env A' r"
proof (cases "find_route r")
  case (Routed rt vars)
  obtain pat g n where rt: "rt = (pat, g, n)" by (cases rt) auto
  have "g \<in> {Authed, AuthedProbed} \<or> named_handler env A n = named_handler env A' n"
    using find_route_in [OF Routed] routes_guarded assms(2) unfolding rt
    by (auto simp: list_all_iff named_handler_def)
  then have "install env g (named_handler env A n) (r\<lparr>rqVars := vars\<rparr>) x = install env g (named_handler env A' n) (r\<lparr>rqVars := vars\<rparr>) x" for x
  proof
    assume "named_handler env A n = named_handler env A' n"
    then show ?thesis by simp
  next
    assume "g \<in> {Authed, AuthedProbed}"
    then show ?thesis using assms(1) by (cases x) (auto simp: AuthRequired_def)
  qed
  then show ?thesis using Routed rt by (auto simp: mux_ServeHTTP_def)
qed (auto simp: mux_ServeHTTP_def)

lemma stopped_before_mux:
  assumes "\<not> (lan_client c r \<and> csrf_ok r \<and> fst (Allow (weFloat env) (weNow env) (remote_host r) (svGlobal s)))"
  shows "ServeHTTP env c A r s = ServeHTTP env c A' r s"
proof -
  consider "\<not> lan_client c r" | "lan_client c r" "\<not> fst (Allow (weFloat env) (weNow env) (remote_host r) (svGlobal s))"
    | "lan_client c r" "\<not> csrf_ok r" using assms by blast
  then show ?thesis
  proof cases
    case 1
    then show ?thesis
      by (auto simp: ServeHTTP_def server_handler_def LANOnly_def lan_client_def split: option.splits)
  next
    case 2
    then show ?thesis
      by (auto simp: ServeHTTP_def server_handler_def LANOnly_def lan_client_def i18n_Middleware_def
          RateMiddleware_def split: option.splits prod.splits)
  next
    case 3
    then have "CSRFProtect env h (r\<lparr>rqLang := l\<rparr>) x = CSRFProtect env h' (r\<lparr>rqLang := l\<rparr>) x" for h h' :: "'a handler" and l x
      by (cases x) (auto simp: csrf_ok_def CSRFProtect_def split: option.splits)
    then show ?thesis unfolding ServeHTTP_def server_handler_def by (intro LANOnly_cong i18n_cong RateMiddleware_cong)
  qed
qed

text \<open>
  C5. The only handlers a request can reach without a session are the static files, the version, the
  metrics and the server's own login, logout and language handlers; any other handler has an influence on
  the answer or on the state only if the client is on the LAN (or this host), holds an authenticated
  session, presents the token of its CSRF cookie when the verb is not \<open>GET\<close> or \<open>HEAD\<close>, and is within the
  global rate limit.
\<close>

theorem admin_handlers_guarded:
  assumes "\<forall>n \<in> {''static'', ''settings.HandleVersion'', ''metricsh.HandleMetrics''}. A n = A' n"
    and "ServeHTTP env c A r s \<noteq> ServeHTTP env c A' r s"
  shows "lan_client c r \<and> IsAuthenticated env r \<and> csrf_ok r \<and>
    fst (Allow (weFloat env) (weNow env) (remote_host r) (svGlobal s))"
proof (rule ccontr)
  assume no: "\<not> ?thesis"
  show False
  proof (cases "IsAuthenticated env r")
    case True
    then show ?thesis using stopped_before_mux [of c r env s A A'] assms(2) no by blast
  next
    case False
    then have "mux_ServeHTTP env A (r\<lparr>rqLang := l\<rparr>) = mux_ServeHTTP env A' (r\<lparr>rqLang := l\<rparr>)" for l
      using mux_unauthenticated [OF _ assms(1)] by simp
    then have "ServeHTTP env c A r s = ServeHTTP env c A' r s"
      unfolding ServeHTTP_def server_handler_def RequestLogger_def by (intro middleware_cong) simp
    then show ?thesis using assms(2) by contradiction
  qed
qed

definition demo_request :: "string \<Rightarrow> string \<Rightarrow> (string \<times> string) list \<Rightarrow> request" where
  "demo_request m path cookies =
     \<lparr>rqMethod = m, rqPath = path, rqRemoteAddr = ''127.0.0.1:50312'', rqCookies = cookies,
      rqHeader = (\<lambda>_. []), rqForm = (\<lambda>_. []), rqBadForm = False, rqQuery = (\<lambda>_. []), rqBody = [], rqVars = [], rqLang = None\<rparr>"

text \<open>An environment in which a cookie \<open>lankeeper=yes\<close> is an authenticated session.\<close>

definition demo_webenv :: webenv where
  "demo_webenv =
     \<lparr>weNow = 0, weFloat = exact_float, weRandom = (\<lambda>n. [n, 1]),
      weSession = (\<lambda>cs. Inr (if map_of cs ''lankeeper'' = Some ''yes'' then Some True else None)),
      weSaveSession = (\<lambda>_ _. None), weCompare = (\<lambda>h p. h = p), weLocales = Map.empty,
      weFallback = ''en'', weRender = (\<lambda>_ _ d. Inr (pdCSRFToken d))\<rparr>"

lemma demo_allow: "fst (Allow F t ip (NewRateLimiter r b))"
  by (simp add: Allow_def NewRateLimiter_def)

lemma demo_loopback: "ParseIP (remote_host (demo_request m path cs)) = Some (v4_mapped [127, 0, 0, 1])"
  "IsLoopback (v4_mapped [127, 0, 0, 1])"
  by (simp add: remote_host_def demo_request_def) code_simp+

lemma settings_route: "find_path ''GET'' ''/settings'' = Routed (''GET /settings'', Authed, ''settings.HandleSettingsPage'') []"
proof -
  have "cleanPath ''/settings'' = ''/settings''" by code_simp
  moreover have "mux_match ''GET'' ''/settings'' = Some ((''GET /settings'', Authed, ''settings.HandleSettingsPage''), [])"
    by code_simp
  ultimately show ?thesis by (simp add: find_path_def)
qed

lemma demo_route: "find_route ((demo_request ''GET'' ''/settings'' cs)\<lparr>rqLang := l\<rparr>)
    = Routed (''GET /settings'', Authed, ''settings.HandleSettingsPage'') []"
  by (simp add: find_route_def demo_request_def settings_route)

definition demo_page :: "nat \<Rightarrow> string \<Rightarrow> nat handler" where
  "demo_page k n r = (\<lambda>(w, s). if n = ''settings.HandleSettingsPage'' then (w, s\<lparr>svApp := k\<rparr>) else (w, s))"

theorem admin_handlers_guarded_witness:
  "IsAuthenticated demo_webenv (demo_request ''GET'' ''/settings'' [(''lankeeper'', ''yes'')])"
proof -
  let ?r = "demo_request ''GET'' ''/settings'' [(''lankeeper'', ''yes'')]"
  let ?s = "NewServer zero_Config (0 :: nat)"
  have auth: "IsAuthenticated demo_webenv ?r"
    by (simp add: IsAuthenticated_def demo_request_def demo_webenv_def)
  have lan: "lan_client zero_Config ?r" using demo_loopback(2) by (simp add: lan_client_def demo_loopback(1))
  have allow: "fst (Allow (weFloat env) (weNow env) (remote_host r) (svGlobal ?s))" for env r
    by (simp add: NewServer_def demo_allow)
  have get: "Cookie ''csrf_token'' ?r = None" and safe: "safe_method (rqMethod ?r)"
    by (simp_all add: demo_request_def Cookie_def safe_method_def)
  have app: "svApp (snd (ServeHTTP demo_webenv zero_Config (demo_page k) ?r ?s)) = k" for k
    unfolding ServeHTTP_def server_handler_def LANOnly_pass [OF lan] i18n_Middleware_def
      RateMiddleware_pass [where get = svGlobal, OF allow] CSRFProtect_def SecurityHeaders_def RequestLogger_def mux_ServeHTTP_def
    by (simp add: demo_route AuthRequired_def auth get safe getOrCreateCSRFToken_def demo_page_def Let_def
        named_handler_def)
  then have "ServeHTTP demo_webenv zero_Config (demo_page 1) ?r ?s \<noteq> ServeHTTP demo_webenv zero_Config (demo_page 2) ?r ?s"
    by (metis num.distinct(1) one_eq_numeral_iff)
  then show ?thesis
    using admin_handlers_guarded [of "demo_page 1" "demo_page 2" demo_webenv zero_Config ?r ?s]
    by (simp add: demo_page_def fun_eq_iff)
qed

section \<open>Tokens on the login page\<close>

text \<open>The cookie a browser holds after a response: the last one set under the name, if any was.\<close>

definition browser_cookie :: "string \<Rightarrow> request \<Rightarrow> response \<Rightarrow> string option" where
  "browser_cookie k r w = (case map_of (rev (rsSetCookies w)) k of Some v \<Rightarrow> Some v | None \<Rightarrow> Cookie k r)"

lemma hex_bytes_Nil [simp]: "hex_bytes bs = [] \<longleftrightarrow> bs = []"
  by (cases bs) (simp_all add: hex_bytes_def)

text \<open>A response of the chain shows the client a token that equals its cookie afterwards.\<close>

lemma getOrCreateCSRFToken_cookie:
  assumes "getOrCreateCSRFToken env r (w, s) = (token, w', s')" "\<forall>n. weRandom env n \<noteq> []"
  shows "(Cookie ''csrf_token'' r = None \<longrightarrow> token \<noteq> [] \<and> last (rsSetCookies w') = (''csrf_token'', token) \<and> rsSetCookies w' \<noteq> []) \<and>
    (Cookie ''csrf_token'' r = Some v \<longrightarrow> token = v \<and> w' = w \<and> s' = s)"
  using assms by (auto simp: getOrCreateCSRFToken_def SetCookie_def Let_def split: option.splits)

lemma map_of_rev_last: "xs \<noteq> [] \<Longrightarrow> last xs = (k, v) \<Longrightarrow> map_of (rev xs) k = Some v"
  by (cases xs rule: rev_cases) simp_all

text \<open>
  The form of the login page works on a first visit. A browser without a CSRF cookie is sent the
  page with a token that is the cookie it holds afterwards, although the middleware and the page each draw
  a token of their own; posting the form with that cookie passes the CSRF check.
\<close>

theorem first_login_form_accepted:
  assumes "Cookie ''csrf_token'' r = None" "rqMethod r = ''GET''" "\<not> IsAuthenticated env r"
    and "\<forall>n. weRandom env n \<noteq> []" "\<forall>d. weRender env ''login'' ''auth'' d = Inr (page d)"
    and "CSRFProtect env (handleLoginPage env) r (w, s) = (w', s')"
  shows "\<exists>t. rsBody w' = rsBody w @ page (login_page env r t []) \<and> browser_cookie ''csrf_token'' r w' = Some t \<and>
    rsHeaders w' ''X-CSRF-Token'' = Some (hex_bytes (weRandom env (svDraws s))) \<and>
    t = hex_bytes (weRandom env (svDraws s + 1)) \<and>
    (\<forall>post h x. Cookie ''csrf_token'' post = Some t \<and> rqMethod post = ''POST'' \<and> rqHeader post ''X-CSRF-Token'' = [] \<and>
       rqForm post ''csrf_token'' = t \<longrightarrow> CSRFProtect env h post x = h post x)"
proof -
  define t where "t = hex_bytes (weRandom env (svDraws s + 1))"
  have tn: "t \<noteq> []" using assms(4) by (simp add: t_def)
  have run: "w' = Write (page (login_page env r t []))
      (SetCookie ''csrf_token'' t (Header_Set ''X-CSRF-Token'' (hex_bytes (weRandom env (svDraws s)))
        (SetCookie ''csrf_token'' (hex_bytes (weRandom env (svDraws s))) w)))"
    using assms(6) by (simp add: CSRFProtect_def handleLoginPage_def getOrCreateCSRFToken_def assms(1-3,5)
        safe_method_def Let_def t_def)
  have "rsBody w' = rsBody w @ page (login_page env r t [])" "rsHeaders w' ''X-CSRF-Token'' = Some (hex_bytes (weRandom env (svDraws s)))"
    unfolding run by (simp_all add: Write_def WriteHeader_def SetCookie_def Header_Set_def)
  moreover have "browser_cookie ''csrf_token'' r w' = Some t"
    unfolding run by (simp add: browser_cookie_def Write_def WriteHeader_def SetCookie_def Header_Set_def)
  moreover have "CSRFProtect env h post x = h post x"
    if "Cookie ''csrf_token'' post = Some t \<and> rqMethod post = ''POST'' \<and> rqHeader post ''X-CSRF-Token'' = [] \<and> rqForm post ''csrf_token'' = t"
    for post h x
    using that tn by (intro CSRFProtect_pass) (simp_all add: csrf_ok_def presented_token_def safe_method_def)
  ultimately show ?thesis unfolding t_def by blast
qed

theorem first_login_form_accepted_witness:
  "\<exists>t. browser_cookie ''csrf_token'' (demo_request ''GET'' ''/login'' [])
     (fst (CSRFProtect demo_webenv (handleLoginPage demo_webenv) (demo_request ''GET'' ''/login'' []) (empty_response, NewServer zero_Config ()))) = Some t"
proof -
  let ?r = "demo_request ''GET'' ''/login'' []"
  obtain w' s' where run: "CSRFProtect demo_webenv (handleLoginPage demo_webenv) ?r (empty_response, NewServer zero_Config ()) = (w', s')"
    by (meson surj_pair)
  have "Cookie ''csrf_token'' ?r = None" "rqMethod ?r = ''GET''" "\<not> IsAuthenticated demo_webenv ?r"
    "\<forall>n. weRandom demo_webenv n \<noteq> []" "\<forall>d. weRender demo_webenv ''login'' ''auth'' d = Inr (pdCSRFToken d)"
    by (simp_all add: Cookie_def demo_request_def IsAuthenticated_def demo_webenv_def)
  from first_login_form_accepted [OF this run] show ?thesis unfolding run fst_conv by blast
qed

text \<open>
  A page that carries no token and a script that sends none cannot post: the request is refused whatever
  its session. The pages of package \<open>handlers\<close> leave the field of the template empty.
\<close>

lemma tokenless_post_refused:
  assumes "\<not> safe_method (rqMethod r)" "presented_token r = []"
  shows "\<exists>msg. CSRFProtect env h r (w, s) = (http_Error msg 403 w, s)"
  using assms by (auto simp: CSRFProtect_def split: option.splits)

end
