(* ===== verification/NetUtil.thy ===== *)
theory NetUtil
  imports GoNet GoPath
begin

text \<open>
  The validators of \<^verbatim>\<open>internal/netutil/validate.go\<close> and the parts of
  \<^verbatim>\<open>internal/netutil/iface.go\<close> that compute: the counters of \<open>/proc/net/dev\<close> and the sysfs paths.
  The files of \<open>/proc\<close> and \<open>/sys\<close> are parameters.
\<close>

section \<open>Validators\<close>

definition ValidateIP :: "string \<Rightarrow> error option" where
  "ValidateIP s = (if ParseIP s = None then Some (''invalid IP address: '' @ s) else None)"

definition ValidateCIDR :: "string \<Rightarrow> error option" where
  "ValidateCIDR s = (if ParseCIDR s = None then Some (''invalid CIDR: '' @ s) else None)"

text \<open>The regular expression of six pairs of hexadecimal digits separated by colons.\<close>

fun mac_match :: "nat \<Rightarrow> string \<Rightarrow> bool" where
  "mac_match 0 s = (case s of [a, b] \<Rightarrow> hex_val a \<noteq> None \<and> hex_val b \<noteq> None | _ \<Rightarrow> False)"
| "mac_match (Suc n) s =
     (case s of a # b # c # r \<Rightarrow> hex_val a \<noteq> None \<and> hex_val b \<noteq> None \<and> c = CHR '':'' \<and> mac_match n r
      | _ \<Rightarrow> False)"

definition ValidateMAC :: "string \<Rightarrow> error option" where
  "ValidateMAC s = (if \<not> mac_match 5 s then Some (''invalid MAC address: '' @ s) else None)"

definition ValidatePort :: "goint \<Rightarrow> error option" where
  "ValidatePort port =
     (if port < 1 \<or> port > 65535 then Some (''invalid port: '' @ Itoa port @ '' (must be 1-65535)'') else None)"

definition ValidateVLANID :: "goint \<Rightarrow> error option" where
  "ValidateVLANID vid =
     (if vid < 1 \<or> vid > 4094 then Some (''invalid VLAN ID: '' @ Itoa vid @ '' (must be 1-4094)'') else None)"

definition ValidateMTU :: "goint \<Rightarrow> error option" where
  "ValidateMTU mtu =
     (if mtu < 68 \<or> mtu > 9000 then Some (''invalid MTU: '' @ Itoa mtu @ '' (must be 68-9000)'') else None)"

definition ParseCIDRAddress :: "string \<Rightarrow> error + string \<times> goint" where
  "ParseCIDRAddress cidr =
     (case SplitN2 cidr (CHR ''/'') of
        [ip, pre] \<Rightarrow>
          if ParseIP ip = None then Inl (''invalid IP in CIDR: '' @ ip)
          else (case Atoi pre of
              Some p \<Rightarrow> if p < 0 \<or> p > 128 then Inl (''invalid prefix length in CIDR: '' @ pre) else Inr (ip, p)
            | None \<Rightarrow> Inl (''invalid prefix length in CIDR: '' @ pre))
      | _ \<Rightarrow> Inl (''invalid CIDR: '' @ cidr))"

section \<open>Interfaces\<close>

text \<open>\<open>fmt.Sscanf(s, "%d", &v)\<close> into a zero \<open>uint64\<close>: the leading digits, 0 when there are none or too many.\<close>

definition scan_uint64 :: "string \<Rightarrow> nat" where
  "scan_uint64 s =
     (let d = takeWhile is_digit s in if d \<noteq> [] \<and> digits_val d < 2 ^ 64 then digits_val d else 0)"

definition stats_line :: "string \<Rightarrow> string \<Rightarrow> (error + nat \<times> nat) option" where
  "stats_line name line0 =
     (let line = TrimSpace line0 in
      if \<not> HasPrefix line (name @ '':'') then None
      else (case Index line '':'' of
          None \<Rightarrow> None
        | Some i \<Rightarrow>
          (let fields = Fields (drop (i + 1) line) in
           if length fields < 10 then Some (Inl (''unexpected format for '' @ name))
           else Some (Inr (scan_uint64 (fields ! 0), scan_uint64 (fields ! 8))))))"

definition ReadInterfaceStats :: "error + string list \<Rightarrow> string \<Rightarrow> error + nat \<times> nat" where
  "ReadInterfaceStats dev_lines name =
     (case dev_lines of
        Inl e \<Rightarrow> Inl (''open /proc/net/dev: '' @ e)
      | Inr ls \<Rightarrow> (case List.map_filter (stats_line name) ls of
          r # _ \<Rightarrow> r
        | [] \<Rightarrow> Inl (''interface '' @ name @ '' not found in /proc/net/dev'')))"

definition virtPrefixes :: "string list" where
  "virtPrefixes = [''veth'', ''br-'', ''docker'', ''virbr'', ''vxlan'', ''tun'', ''tap'', ''wg'', ''ovpn'']"

definition isVirtualInterface :: "(string \<Rightarrow> string option) \<Rightarrow> string \<Rightarrow> bool" where
  "isVirtualInterface readlink name =
     (if list_ex (HasPrefix name) virtPrefixes then True
      else (case readlink (path_Join ''/sys/class/net'' name) of
          None \<Rightarrow> False | Some target \<Rightarrow> Contains target ''/virtual/''))"

definition readSysfs :: "(string \<Rightarrow> string option) \<Rightarrow> string \<Rightarrow> string \<Rightarrow> string" where
  "readSysfs read_file iface attr =
     (case read_file (path_Join (path_Join ''/sys/class/net'' iface) attr) of
        None \<Rightarrow> [] | Some d \<Rightarrow> TrimSpace d)"

definition readDriverName :: "(string \<Rightarrow> string option) \<Rightarrow> string \<Rightarrow> string" where
  "readDriverName readlink iface =
     (case readlink (path_Join (path_Join (path_Join ''/sys/class/net'' iface) ''device'') ''driver'') of
        None \<Rightarrow> [] | Some target \<Rightarrow> path_Base target)"

definition GetInterfaceState :: "(string \<Rightarrow> string option) \<Rightarrow> string \<Rightarrow> error + string" where
  "GetInterfaceState read_file name =
     (let state = readSysfs read_file name ''operstate'' in
      if state = [] then Inl (''interface '' @ name @ '' not found'') else Inr state)"

section \<open>What the validators accept\<close>

lemma mac_match_iff:
  "mac_match n s \<longleftrightarrow> (\<exists>ps. length ps = Suc n \<and> s = Join ps '':'' \<and>
     (\<forall>p \<in> set ps. length p = 2 \<and> list_all (\<lambda>c. hex_val c \<noteq> None) p))"
proof (induction n s rule: mac_match.induct)
  case (1 s)
  show ?case by (auto simp: length_Suc_conv numeral_2_eq_2 split: list.splits)
next
  case (2 n s)
  show ?case
  proof
    assume m: "mac_match (Suc n) s"
    then obtain a b r where s: "s = a # b # CHR '':'' # r" "hex_val a \<noteq> None" "hex_val b \<noteq> None" "mac_match n r"
      by (auto split: list.splits)
    then obtain ps where "length ps = Suc n" "r = Join ps '':''"
      "\<forall>p \<in> set ps. length p = 2 \<and> list_all (\<lambda>c. hex_val c \<noteq> None) p" using 2 by auto
    moreover from this have "ps \<noteq> []" by auto
    ultimately show "\<exists>ps. length ps = Suc (Suc n) \<and> s = Join ps '':'' \<and>
        (\<forall>p \<in> set ps. length p = 2 \<and> list_all (\<lambda>c. hex_val c \<noteq> None) p)"
      using s by (intro exI [of _ "[a, b] # ps"]) (auto simp: Join_Cons)
  next
    assume "\<exists>ps. length ps = Suc (Suc n) \<and> s = Join ps '':'' \<and>
        (\<forall>p \<in> set ps. length p = 2 \<and> list_all (\<lambda>c. hex_val c \<noteq> None) p)"
    then obtain qs where qs: "length qs = Suc (Suc n)" "s = Join qs '':''"
      "\<forall>p \<in> set qs. length p = 2 \<and> list_all (\<lambda>c. hex_val c \<noteq> None) p" by blast
    obtain p ps where "qs = p # ps" using qs(1) by (cases qs) auto
    then have ps: "length ps = Suc n" "s = Join (p # ps) '':''" "length p = 2" "list_all (\<lambda>c. hex_val c \<noteq> None) p"
      "\<forall>p \<in> set ps. length p = 2 \<and> list_all (\<lambda>c. hex_val c \<noteq> None) p"
      using qs by auto
    obtain a b where "p = [a, b]" using ps(3) by (auto simp: length_Suc_conv numeral_2_eq_2)
    moreover have "ps \<noteq> []" using ps(1) by auto
    ultimately have "s = a # b # CHR '':'' # Join ps '':''" using ps(2) by (simp add: Join_Cons)
    then show "mac_match (Suc n) s" using ps 2 \<open>p = [a, b]\<close> by auto
  qed
qed

lemma ValidateMAC_iff:
  "ValidateMAC s = None \<longleftrightarrow> (\<exists>ps. length ps = 6 \<and> s = Join ps '':'' \<and>
     (\<forall>p \<in> set ps. length p = 2 \<and> list_all (\<lambda>c. hex_val c \<noteq> None) p))"
  using mac_match_iff [of 5 s] unfolding ValidateMAC_def by (auto simp del: mac_match.simps)

text \<open>
  \<open>ParseCIDRAddress\<close> does not bound the prefix by the width of the address: an IPv4 address may
  have a prefix of up to 128, which \<open>ValidateCIDR\<close> rejects.
\<close>

lemma wide_prefix_accepted:
  "ParseCIDRAddress ''10.0.0.1/128'' = Inr (''10.0.0.1'', 128)" "ValidateCIDR ''10.0.0.1/128'' \<noteq> None"
  by code_simp+

end
