(* ===== verification/Handlers.thy ===== *)
theory Handlers
  imports WebServer NetUtil
begin

text \<open>
  What the request handlers of \<^verbatim>\<open>internal/web/handlers\<close> share: form fields, early returns with an error,
  the closing redirect or htmx refresh, page rendering (\<^verbatim>\<open>internal/tmpl/render.go\<close>) and the JSON text of a
  string. A handler here works on the state of its service; \<open>app_handler\<close> installs it in the server.
\<close>

section \<open>Handlers of a service\<close>

type_synonym 's hfun = "request \<Rightarrow> response \<times> 's \<Rightarrow> response \<times> 's"

definition app_handler :: "'s hfun \<Rightarrow> 's handler" where
  "app_handler h r = (\<lambda>(w, sv). case h r (w, svApp sv) of (w', s) \<Rightarrow> (w', sv\<lparr>svApp := s\<rparr>))"

definition PathValue :: "request \<Rightarrow> string \<Rightarrow> string" where
  "PathValue r k = (case map_of (rqVars r) k of Some v \<Rightarrow> v | None \<Rightarrow> [])"

text \<open>\<open>http.Error\<close> and return.\<close>

definition refuse :: "string \<Rightarrow> nat \<Rightarrow> response \<times> 's \<Rightarrow> response \<times> 's" where
  "refuse msg code = (\<lambda>(w, s). (http_Error msg code w, s))"

text \<open>The way out of every form handler.\<close>

definition finish :: "string \<Rightarrow> request \<Rightarrow> response \<times> 's \<Rightarrow> response \<times> 's" where
  "finish page r = (\<lambda>(w, s).
     if hx_request r then (WriteHeader 200 (Header_Set ''HX-Refresh'' ''true'' w), s)
     else (http_Redirect page 303 w, s))"

definition needs_form :: "request \<Rightarrow> (response \<times> 's \<Rightarrow> response \<times> 's) \<Rightarrow> response \<times> 's \<Rightarrow> response \<times> 's" where
  "needs_form r k = (if rqBadForm r then refuse ''bad form'' 400 else k)"

text \<open>
  A service action in a handler: an error is answered with the given status and text, a result is passed on.
\<close>

definition do_action ::
  "('s \<Rightarrow> (error + 'a) \<times> 's) \<Rightarrow> (error \<Rightarrow> string \<times> nat) \<Rightarrow> ('a \<Rightarrow> response \<times> 's \<Rightarrow> response \<times> 's) \<Rightarrow> response \<times> 's \<Rightarrow> response \<times> 's" where
  "do_action act fail k = (\<lambda>(w, s). case act s of
       (Inl e, s') \<Rightarrow> (case fail e of (msg, code) \<Rightarrow> refuse msg code (w, s'))
     | (Inr a, s') \<Rightarrow> k a (w, s'))"

definition err_text :: "nat \<Rightarrow> error \<Rightarrow> string \<times> nat" where
  "err_text code e = (e, code)"

text \<open>A change of the configuration as an action of a handler, and an action whose error is only logged.\<close>

definition on_store :: "(store \<Rightarrow> error option \<times> store) \<Rightarrow> world \<Rightarrow> (error + unit) \<times> world" where
  "on_store f wd = (case f (wStore wd) of
       (None, st) \<Rightarrow> (Inr (), wd\<lparr>wStore := st\<rparr>) | (Some e, st) \<Rightarrow> (Inl e, wd\<lparr>wStore := st\<rparr>))"

definition best_effort :: "'a action \<Rightarrow> (response \<times> world \<Rightarrow> response \<times> world) \<Rightarrow> response \<times> world \<Rightarrow> response \<times> world" where
  "best_effort m k = (\<lambda>(w, wd). k (w, snd (m wd)))"

text \<open>A look at the system whose errors are dropped, and a look at the configuration.\<close>

definition observe :: "('s \<Rightarrow> 'a \<times> 's) \<Rightarrow> ('a \<Rightarrow> response \<times> 's \<Rightarrow> response \<times> 's) \<Rightarrow> response \<times> 's \<Rightarrow> response \<times> 's" where
  "observe m k = (\<lambda>(w, s). case m s of (a, s') \<Rightarrow> k a (w, s'))"

definition with_cfg :: "(Config \<Rightarrow> response \<times> world \<Rightarrow> response \<times> world) \<Rightarrow> response \<times> world \<Rightarrow> response \<times> world" where
  "with_cfg k = (\<lambda>(w, wd). k (wcfg wd) (w, wd))"

text \<open>\<open>Renderer.Render\<close>: an unknown page fails before anything is written; a failing template may have written a part.\<close>

record 'd pageenv =
  pgExec :: "string \<Rightarrow> string \<Rightarrow> string \<Rightarrow> 'd \<Rightarrow> (string \<times> error option) option"

definition Render :: "'d pageenv \<Rightarrow> string \<Rightarrow> string \<Rightarrow> string \<Rightarrow> 'd \<Rightarrow> response \<Rightarrow> error option \<times> response" where
  "Render env page layout lang d w =
     (case pgExec env page (layout @ ''.html'') lang d of
        None \<Rightarrow> (Some (''template not found: templates/pages/'' @ page @ ''.html''), w)
      | Some (text, err) \<Rightarrow>
          (map_option (\<lambda>e. ''execute template '' @ page @ '': '' @ e) err,
           (let w1 = Header_Set ''Content-Type'' ''text/html; charset=utf-8'' w in if text = [] then w1 else Write text w1)))"

definition show_page :: "'d pageenv \<Rightarrow> string \<Rightarrow> request \<Rightarrow> 'd \<Rightarrow> response \<times> 's \<Rightarrow> response \<times> 's" where
  "show_page env page r d = (\<lambda>(w, s). case Render env page ''base'' (LangFromContext r) d w of
       (None, w1) \<Rightarrow> (w1, s)
     | (Some e, w1) \<Rightarrow> refuse ''Internal Server Error'' 500 (w1, s))"

section \<open>Checks of fields\<close>

lemma TrimSpace_idem [simp]: "TrimSpace (TrimSpace s) = TrimSpace s"
proof -
  define u v where "u = dropWhile is_space s" and "v = dropWhile is_space (rev u)"
  have u: "u = [] \<or> \<not> is_space (hd u)" unfolding u_def by (metis hd_dropWhile)
  have "rev u = takeWhile is_space (rev u) @ v" by (simp add: v_def)
  then have "u = rev v @ rev (takeWhile is_space (rev u))" by (metis rev_append rev_rev_ident)
  then have "rev v = [] \<or> \<not> is_space (hd (rev v))" using u by (metis append_is_Nil_conv hd_append2)
  then have "dropWhile is_space (rev v) = rev v" by (simp add: dropWhile_eq_self_iff)
  moreover have "dropWhile is_space v = v" by (simp add: v_def)
  ultimately show ?thesis by (simp add: TrimSpace_def flip: u_def v_def)
qed

text \<open>\<open>^[a-zA-Z0-9_-]+$\<close>, the names of VPN clients and peers.\<close>

definition name_byte :: "char \<Rightarrow> bool" where
  "name_byte c \<longleftrightarrow> (let n = (of_char c :: nat) in
     48 \<le> n \<and> n \<le> 57 \<or> 65 \<le> n \<and> n \<le> 90 \<or> 97 \<le> n \<and> n \<le> 122 \<or> c = CHR ''_'' \<or> c = CHR ''-'')"

definition namePattern :: "string \<Rightarrow> bool" where
  "namePattern s \<longleftrightarrow> s \<noteq> [] \<and> list_all name_byte s"

text \<open>A comma-separated list of blocks: blanks are dropped, the first bad one ends the loop.\<close>

fun cidr_list :: "string list \<Rightarrow> string + string list" where
  "cidr_list [] = Inr []"
| "cidr_list (s # ss) =
     (let t = TrimSpace s in
      if t = [] then cidr_list ss
      else if ValidateCIDR t \<noteq> None then Inl t
      else (case cidr_list ss of Inl b \<Rightarrow> Inl b | Inr ts \<Rightarrow> Inr (t # ts)))"

lemma cidr_list_ok: "cidr_list ss = Inr ts \<Longrightarrow> list_all (\<lambda>t. ValidateCIDR t = None \<and> t \<noteq> []) ts"
  by (induction ss arbitrary: ts) (auto simp: Let_def split: if_splits sum.splits)

section \<open>Invariants of the configuration\<close>

text \<open>
  A handler step keeps an invariant of the configuration when the changes it makes do; everything else
  it does leaves the configuration alone.
\<close>

definition cfg_step :: "(Config \<Rightarrow> bool) \<Rightarrow> (response \<times> world \<Rightarrow> response \<times> world) \<Rightarrow> bool" where
  "cfg_step I f \<longleftrightarrow> (\<forall>w wd. I (wcfg wd) \<longrightarrow> I (wcfg (snd (f (w, wd)))))"

named_theorems cfg_steps "handler steps that keep an invariant of the configuration"

lemma cfg_step_refuse [cfg_steps]: "cfg_step I (refuse msg code)"
  and cfg_step_finish [cfg_steps]: "cfg_step I (finish page r)"
  by (simp_all add: cfg_step_def refuse_def finish_def)

lemma cfg_step_page [cfg_steps]: "cfg_step I (show_page pg page r d)"
  by (auto simp: cfg_step_def show_page_def refuse_def split: prod.splits option.splits)

lemma cfg_step_form [cfg_steps]: "cfg_step I k \<Longrightarrow> cfg_step I (needs_form r k)"
  by (simp add: needs_form_def cfg_step_refuse)

lemma cfg_step_if [cfg_steps]: "(b \<Longrightarrow> cfg_step I f) \<Longrightarrow> (\<not> b \<Longrightarrow> cfg_step I g) \<Longrightarrow> cfg_step I (if b then f else g)"
  by simp

lemma cfg_step_action:
  assumes "\<And>wd. I (wcfg wd) \<Longrightarrow> I (wcfg (snd (act wd)))" "\<And>a. cfg_step I (k a)"
  shows "cfg_step I (do_action act fail k)"
  unfolding cfg_step_def
proof (intro allI impI)
  fix w :: response and wd :: world
  assume I: "I (wcfg wd)"
  obtain r wd' where act: "act wd = (r, wd')" by fastforce
  then have "I (wcfg wd')" using assms(1) [OF I] by simp
  then show "I (wcfg (snd (do_action act fail k (w, wd))))"
    using act assms(2) by (auto simp: do_action_def refuse_def cfg_step_def split: sum.splits prod.splits)
qed

lemma cfg_step_store [cfg_steps]:
  assumes "\<And>st. I (cfg st) \<Longrightarrow> I (cfg (snd (f st)))" "\<And>a. cfg_step I (k a)"
  shows "cfg_step I (do_action (on_store f) fail k)"
proof (rule cfg_step_action [OF _ assms(2)])
  fix wd :: world
  assume "I (wcfg wd)"
  then have "I (cfg (snd (f (wStore wd))))" by (rule assms(1))
  then show "I (wcfg (snd (on_store f wd)))" by (auto simp: on_store_def split: prod.splits option.splits)
qed

definition keeps_store :: "'a action \<Rightarrow> bool" where
  "keeps_store m \<longleftrightarrow> only_calls (\<lambda>_. True) m"

lemma keeps_storeD: "keeps_store m \<Longrightarrow> wStore (snd (m w)) = wStore w"
  unfolding keeps_store_def using only_callsD(1) [of "\<lambda>_. True" m w "fst (m w)" "snd (m w)"] by simp

lemma cfg_step_effect: "keeps_store m \<Longrightarrow> (\<And>a. cfg_step I (k a)) \<Longrightarrow> cfg_step I (do_action m fail k)"
  by (rule cfg_step_action) (simp_all add: keeps_storeD)

lemma cfg_step_best_effort [cfg_steps]: "keeps_store m \<Longrightarrow> cfg_step I k \<Longrightarrow> cfg_step I (best_effort m k)"
  by (simp add: cfg_step_def best_effort_def keeps_storeD)

lemma keeps_store_read: "(\<And>x. keeps_store (f x)) \<Longrightarrow> keeps_store (\<lambda>w. f (g w) w)"
  unfolding keeps_store_def only_calls_def by blast

lemma cfg_step_observe [cfg_steps]:
  "(\<And>wd. wStore (snd (m wd)) = wStore wd) \<Longrightarrow> (\<And>a. cfg_step I (k a)) \<Longrightarrow> cfg_step I (observe m k)"
proof (unfold cfg_step_def observe_def, intro allI impI)
  fix w :: response and wd :: world
  assume m: "\<And>wd. wStore (snd (m wd)) = wStore wd" and k: "\<And>a. \<forall>w wd. I (wcfg wd) \<longrightarrow> I (wcfg (snd (k a (w, wd))))"
    and I: "I (wcfg wd)"
  obtain a wd' where r: "m wd = (a, wd')" by fastforce
  then have "I (wcfg wd')" using m [of wd] I by simp
  then show "I (wcfg (snd (case (w, wd) of (w, s) \<Rightarrow> case m s of (a, s') \<Rightarrow> k a (w, s'))))" using r k by simp
qed

lemma cfg_step_with_cfg [cfg_steps]: "(\<And>c. I c \<Longrightarrow> cfg_step I (k c)) \<Longrightarrow> cfg_step I (with_cfg k)"
  by (simp add: cfg_step_def with_cfg_def)

text \<open>A run of requests through handlers that keep an invariant.\<close>

definition run_requests :: "('s hfun \<times> request \<times> response) list \<Rightarrow> 's \<Rightarrow> 's" where
  "run_requests rs s = foldl (\<lambda>s (h, r, w). snd (h r (w, s))) s rs"

lemma run_requests_keep:
  assumes "\<forall>(h, r, w) \<in> set rs. cfg_step I (h r)" "I (wcfg wd)"
  shows "I (wcfg (run_requests rs wd))"
  using assms
proof (induction rs arbitrary: wd)
  case (Cons x rs)
  obtain h r w where x: "x = (h, r, w)" by (cases x)
  then have "I (wcfg (snd (h r (w, wd))))" using Cons.prems by (auto simp: cfg_step_def)
  then show ?case using Cons.IH [of "snd (h r (w, wd))"] Cons.prems(1) x by (simp add: run_requests_def)
qed (simp add: run_requests_def)

section \<open>JSON text of a string\<close>

definition bslash :: char where "bslash = CHR 0x5C"
definition dquote :: char where "dquote = CHR 0x22"

text \<open>\<open>jsonString\<close> of \<^verbatim>\<open>handlers/vpn.go\<close>, on ASCII text.\<close>

definition json_char :: "char \<Rightarrow> string" where
  "json_char c =
     (if c = dquote then [bslash, dquote] else if c = bslash then [bslash, bslash]
      else if c = CHR 0x0A then [bslash, CHR ''n''] else if c = CHR 0x0D then [bslash, CHR ''r'']
      else if c = CHR 0x09 then [bslash, CHR ''t'']
      else if (of_char c :: nat) < 32
      then [bslash, CHR ''u'', CHR ''0'', CHR ''0'', hex_char (of_char c div 16), hex_char (of_char c mod 16)]
      else [c])"

definition jsonString :: "string \<Rightarrow> string" where
  "jsonString s = [dquote] @ concat (map json_char s) @ [dquote]"

definition boolStr :: "bool \<Rightarrow> string" where
  "boolStr b = (if b then ''true'' else ''false'')"

definition intStr :: "int \<Rightarrow> string" where
  "intStr i = Itoa i"

text \<open>\<open>%q\<close> of the fmt package, on ASCII text.\<close>

definition quote_char :: "char \<Rightarrow> string" where
  "quote_char c =
     (let n = (of_char c :: nat) in
      if c = dquote \<or> c = bslash then [bslash, c]
      else if n = 7 then [bslash, CHR ''a''] else if n = 8 then [bslash, CHR ''b''] else if n = 12 then [bslash, CHR ''f'']
      else if n = 10 then [bslash, CHR ''n''] else if n = 13 then [bslash, CHR ''r''] else if n = 9 then [bslash, CHR ''t'']
      else if n = 11 then [bslash, CHR ''v'']
      else if n < 32 \<or> n = 127 then [bslash, CHR ''x'', hex_char (n div 16), hex_char (n mod 16)]
      else [c])"

definition Quote :: "string \<Rightarrow> string" where
  "Quote s = [dquote] @ concat (map quote_char s) @ [dquote]"

text \<open>Reading a JSON string: the text between the quotation marks, with what follows the closing one.\<close>

definition simple_escape :: "char \<Rightarrow> char option" where
  "simple_escape c =
     (if c = dquote then Some dquote else if c = bslash then Some bslash else if c = CHR ''/'' then Some (CHR ''/'')
      else if c = CHR ''n'' then Some (CHR 0x0A) else if c = CHR ''r'' then Some (CHR 0x0D) else if c = CHR ''t'' then Some (CHR 0x09)
      else if c = CHR ''b'' then Some (CHR 0x08) else if c = CHR ''f'' then Some (CHR 0x0C) else None)"

fun json_read :: "string \<Rightarrow> (string \<times> string) option" where
  "json_read [] = None"
| "json_read (c # s) =
     (if c = dquote then Some ([], s)
      else if c \<noteq> bslash then (if (of_char c :: nat) < 32 then None else map_option (apfst ((#) c)) (json_read s))
      else (case s of
          e # r \<Rightarrow>
            (case simple_escape e of
               Some d \<Rightarrow> map_option (apfst ((#) d)) (json_read r)
             | None \<Rightarrow>
                 (case r of
                    a # b # x # y # r' \<Rightarrow>
                      if e = CHR ''u'' \<and> a = CHR ''0'' \<and> b = CHR ''0''
                      then (case (hex_val x, hex_val y) of
                          (Some i, Some j) \<Rightarrow> map_option (apfst ((#) (char_of (16 * i + j)))) (json_read r')
                        | _ \<Rightarrow> None)
                      else None
                  | _ \<Rightarrow> None))
        | [] \<Rightarrow> None))"

lemma hex_val_char: "n < 16 \<Longrightarrow> hex_val (hex_char n) = Some n"
  by (cases "n < 10") (auto simp: hex_val_def hex_char_def Let_def)

lemma json_read_char: "json_read (json_char c @ s) = map_option (apfst ((#) c)) (json_read s)"
proof -
  consider "c = dquote" | "c = bslash" | "c = CHR 0x0A" | "c = CHR 0x0D" | "c = CHR 0x09"
    | (ctl) "(of_char c :: nat) < 32" "c \<noteq> dquote" "c \<noteq> bslash" "c \<noteq> CHR 0x0A" "c \<noteq> CHR 0x0D" "c \<noteq> CHR 0x09"
    | (plain) "\<not> (of_char c :: nat) < 32" "c \<noteq> dquote" "c \<noteq> bslash" by blast
  then show ?thesis
  proof cases
    case ctl
    have "(of_char c :: nat) div 16 < 16" using ctl(1) by simp
    then have "hex_val (hex_char (of_char c div 16)) = Some (of_char c div 16)" by (rule hex_val_char)
    moreover have "hex_val (hex_char (of_char c mod 16)) = Some (of_char c mod 16)" by (rule hex_val_char) simp
    moreover have "json_char c = [bslash, CHR ''u'', CHR ''0'', CHR ''0'', hex_char (of_char c div 16), hex_char (of_char c mod 16)]"
      using ctl by (simp add: json_char_def)
    ultimately show ?thesis by (simp add: bslash_def dquote_def simple_escape_def)
  next
    case plain
    then have "c \<noteq> CHR 0x0A" "c \<noteq> CHR 0x0D" "c \<noteq> CHR 0x09" by auto
    then have "json_char c = [c]" using plain by (simp add: json_char_def)
    then show ?thesis using plain by simp
  qed (simp_all add: json_char_def bslash_def dquote_def simple_escape_def)
qed

text \<open>
  The hand-written JSON encoder is correct: a reader of JSON strings gets back every string, control
  bytes, quotation marks and backslashes included, and stops exactly at the closing quotation mark.
\<close>

theorem jsonString_roundtrip:
  "\<exists>body. jsonString s = dquote # body \<and> json_read (body @ rest) = Some (s, rest)"
proof -
  have "json_read (concat (map json_char s) @ dquote # rest) = Some (s, rest)"
    by (induction s) (simp_all add: json_read_char)
  then show ?thesis by (simp add: jsonString_def)
qed

end
