(* ===== verification/Files.thy ===== *)
theory Files
  imports Effects
begin

text \<open>
  Reasoning about actions: Hoare triples with a condition for each way out, and the content of files as a
  function of the calls made. A copy or a write that fails may leave anything in its target.
\<close>

section \<open>Triples\<close>

definition triple :: "(world \<Rightarrow> bool) \<Rightarrow> 'a action \<Rightarrow> ('a \<Rightarrow> world \<Rightarrow> bool) \<Rightarrow> (world \<Rightarrow> bool) \<Rightarrow> bool" where
  "triple P m Q E \<longleftrightarrow> (\<forall>w. P w \<longrightarrow> (case m w of (Inl e, w') \<Rightarrow> E w' | (Inr a, w') \<Rightarrow> Q a w'))"

named_theorems triples "rules for triples, one for each combinator"

lemma tripleD_ok: "triple P m Q E \<Longrightarrow> P w \<Longrightarrow> m w = (Inr a, w') \<Longrightarrow> Q a w'"
  and tripleD_err: "triple P m Q E \<Longrightarrow> P w \<Longrightarrow> m w = (Inl e, w') \<Longrightarrow> E w'"
  unfolding triple_def by (erule allE [of _ w]; simp)+

lemma triple_conseq:
  "triple P' m Q' E' \<Longrightarrow> (\<And>w. P w \<Longrightarrow> P' w) \<Longrightarrow> (\<And>a w. Q' a w \<Longrightarrow> Q a w) \<Longrightarrow> (\<And>w. E' w \<Longrightarrow> E w) \<Longrightarrow> triple P m Q E"
  by (fastforce simp: triple_def split: prod.splits sum.splits)

lemma triple_return [triples]: "(\<And>w. P w \<Longrightarrow> Q a w) \<Longrightarrow> triple P (io_return a) Q E"
  and triple_fail [triples]: "(\<And>w. P w \<Longrightarrow> E w) \<Longrightarrow> triple P (io_fail e) Q E"
  and triple_lift [triples]: "(\<And>w e. P w \<Longrightarrow> r = Inl e \<Longrightarrow> E w) \<Longrightarrow> (\<And>w a. P w \<Longrightarrow> r = Inr a \<Longrightarrow> Q a w) \<Longrightarrow> triple P (io_lift r) Q E"
  by (auto simp: triple_def io_simps split: sum.splits)

lemma triple_bind [triples]:
  assumes "triple P m R E" "\<And>a. triple (R a) (k a) Q E"
  shows "triple P (io_bind m k) Q E"
  unfolding triple_def io_bind_def
proof (intro allI impI)
  fix w
  assume "P w"
  obtain r w' where m: "m w = (r, w')" by fastforce
  show "case case m w of (Inl e, w') \<Rightarrow> (Inl e, w') | (Inr a, w') \<Rightarrow> k a w' of (Inl e, w') \<Rightarrow> E w' | (Inr a, w') \<Rightarrow> Q a w'"
  proof (cases r)
    case (Inl e)
    then show ?thesis using tripleD_err [OF assms(1) \<open>P w\<close>] m by simp
  next
    case (Inr a)
    then have "R a w'" using tripleD_ok [OF assms(1) \<open>P w\<close>] m by simp
    then show ?thesis using assms(2) [of a] m Inr by (auto simp: triple_def)
  qed
qed

lemma triple_then [triples]: "triple P m (\<lambda>_. R) E \<Longrightarrow> triple R n Q E \<Longrightarrow> triple P (io_then m n) Q E"
  unfolding io_then_def by (rule triple_bind) simp_all

lemma triple_wrap [triples]: "triple P m Q E \<Longrightarrow> triple P (io_wrap pre m) Q E"
  by (fastforce simp: triple_def io_wrap_def split: prod.splits sum.splits)

lemma triple_snd:
  assumes "triple P m (\<lambda>_. Q) Q" "P w"
  shows "Q (snd (m w))"
proof -
  obtain r w' where m: "m w = (r, w')" by fastforce
  show ?thesis using tripleD_ok [OF assms] tripleD_err [OF assms] m by (cases r) auto
qed

lemma triple_ignore [triples]: "triple P m (\<lambda>_. Q ()) (Q ()) \<Longrightarrow> triple P (io_ignore m) Q E"
  using triple_snd [of P m "Q ()"] by (simp add: triple_def [of P "io_ignore m"] io_ignore_def)

lemma triple_defer [triples]:
  assumes "triple P m R F" "\<And>a. triple (R a) c (\<lambda>_. Q a) (Q a)" "triple F c (\<lambda>_. E) E"
  shows "triple P (io_defer c m) Q E"
  unfolding triple_def io_defer_def
proof (intro allI impI)
  fix w
  assume "P w"
  obtain r w' where m: "m w = (r, w')" by fastforce
  show "case case m w of (r, w') \<Rightarrow> (r, snd (c w')) of (Inl e, w') \<Rightarrow> E w' | (Inr a, w') \<Rightarrow> Q a w'"
  proof (cases r)
    case (Inl e)
    then show ?thesis using triple_snd [OF assms(3)] tripleD_err [OF assms(1) \<open>P w\<close>] m by simp
  next
    case (Inr a)
    then show ?thesis using triple_snd [OF assms(2)] tripleD_ok [OF assms(1) \<open>P w\<close>] m by simp
  qed
qed

lemma triple_repair [triples]:
  assumes "triple P m Q F" "triple F c (\<lambda>_. E) E"
  shows "triple P (io_repair pre c m) Q E"
  unfolding triple_def io_repair_def
proof (intro allI impI)
  fix w
  assume "P w"
  obtain r w' where m: "m w = (r, w')" by fastforce
  show "case case m w of (Inl e, w') \<Rightarrow> (Inl (pre @ e), snd (c w')) | (Inr a, w') \<Rightarrow> (Inr a, w') of (Inl e, w') \<Rightarrow> E w' | (Inr a, w') \<Rightarrow> Q a w'"
  proof (cases r)
    case (Inl e)
    then show ?thesis using triple_snd [OF assms(2)] tripleD_err [OF assms(1) \<open>P w\<close>] m by simp
  next
    case (Inr a)
    then show ?thesis using tripleD_ok [OF assms(1) \<open>P w\<close>] m by simp
  qed
qed

lemma triple_sys:
  assumes "\<And>w a. P w \<Longrightarrow> seAnswer env (wTrace w) c = Inr a \<Longrightarrow> Q a (w\<lparr>wTrace := wTrace w @ [c]\<rparr>)"
    and "\<And>w e. P w \<Longrightarrow> seAnswer env (wTrace w) c = Inl e \<Longrightarrow> E (w\<lparr>wTrace := wTrace w @ [c]\<rparr>)"
  shows "triple P (sys env c) Q E"
  using assms by (auto simp: triple_def sys_def split: sum.splits)

section \<open>Files\<close>

type_synonym files = "string \<rightharpoonup> string"

definition store_file :: "error + string \<Rightarrow> string option \<Rightarrow> string \<Rightarrow> string option \<Rightarrow> files \<Rightarrow> files" where
  "store_file ans junk p x d = (case ans of Inr _ \<Rightarrow> d(p := x) | Inl _ \<Rightarrow> d(p := junk))"

fun file_effect :: "error + string \<Rightarrow> string option \<Rightarrow> syscall \<Rightarrow> files \<Rightarrow> files" where
  "file_effect ans junk (CRun n [f, a, b]) d = (if n = ''cp'' \<and> f = ''-f'' then store_file ans junk b (d a) d else d)"
| "file_effect ans junk (CRun n [f, a]) d = (if n = ''rm'' \<and> f = ''-f'' then store_file ans (d a) a None d else d)"
| "file_effect ans junk (COsWriteFile p x m) d = store_file ans junk p (Some x) d"
| "file_effect ans junk (CWriteFile p x m) d = store_file ans junk p (Some x) d"
| "file_effect ans junk (COsRemove p) d = store_file ans (d p) p None d"
| "file_effect ans junk c d = d"

text \<open>The files after a trace, from those at its start; \<open>junk\<close> is what a failed write left.\<close>

primrec files_rev :: "sysenv \<Rightarrow> (syscall list \<Rightarrow> string option) \<Rightarrow> files \<Rightarrow> syscall list \<Rightarrow> files" where
  "files_rev env junk d [] = d"
| "files_rev env junk d (c # cs) = file_effect (seAnswer env (rev cs) c) (junk (rev cs)) c (files_rev env junk d cs)"

definition files_after :: "sysenv \<Rightarrow> (syscall list \<Rightarrow> string option) \<Rightarrow> files \<Rightarrow> syscall list \<Rightarrow> files" where
  "files_after env junk d tr = files_rev env junk d (rev tr)"

lemma files_after_Nil [simp]: "files_after env junk d [] = d"
  by (simp add: files_after_def)

lemma files_after_snoc [simp]:
  "files_after env junk d (tr @ [c]) = file_effect (seAnswer env tr c) (junk tr) c (files_after env junk d tr)"
  by (simp add: files_after_def)

text \<open>The file a call may change.\<close>

fun target :: "syscall \<Rightarrow> string option" where
  "target (CRun n [f, a, b]) = (if n = ''cp'' \<and> f = ''-f'' then Some b else None)"
| "target (CRun n [f, a]) = (if n = ''rm'' \<and> f = ''-f'' then Some a else None)"
| "target (COsWriteFile p x m) = Some p"
| "target (CWriteFile p x m) = Some p"
| "target (COsRemove p) = Some p"
| "target c = None"

lemma file_effect_other: "target c \<noteq> Some p \<Longrightarrow> file_effect ans junk c d p = d p"
  by (cases "(ans, junk, c, d)" rule: file_effect.cases) (auto simp: store_file_def split: sum.splits if_splits)

lemma files_after_other:
  "list_all (\<lambda>c. target c \<noteq> Some p) cs \<Longrightarrow> files_after env junk d (tr @ cs) p = files_after env junk d tr p"
proof (induction cs rule: rev_induct)
  case (snoc c cs)
  then show ?case by (simp add: file_effect_other flip: append_assoc)
qed simp

text \<open>
  An action that leaves the files in \<open>S\<close> alone keeps every condition that speaks about those files or
  about calls made before.
\<close>

definition spares :: "string set \<Rightarrow> syscall \<Rightarrow> bool" where
  "spares S c \<longleftrightarrow> (\<forall>p \<in> S. target c \<noteq> Some p)"

definition stable :: "string set \<Rightarrow> (world \<Rightarrow> bool) \<Rightarrow> bool" where
  "stable S P \<longleftrightarrow> (\<forall>w w' cs. wTrace w' = wTrace w @ cs \<and> list_all (spares S) cs \<and> P w \<longrightarrow> P w')"

lemma stableI: "(\<And>w w' cs. wTrace w' = wTrace w @ cs \<Longrightarrow> list_all (spares S) cs \<Longrightarrow> P w \<Longrightarrow> P w') \<Longrightarrow> stable S P"
  unfolding stable_def by blast

lemma stable_file: "p \<in> S \<Longrightarrow> stable S (\<lambda>w. R (files_after env junk d (wTrace w) p))"
  by (rule stableI) (metis (mono_tags, lifting) files_after_other list.pred_mono_strong spares_def)

lemma stable_conj: "stable S P \<Longrightarrow> stable S Q \<Longrightarrow> stable S (\<lambda>w. P w \<and> Q w)"
  and stable_disj: "stable S P \<Longrightarrow> stable S Q \<Longrightarrow> stable S (\<lambda>w. P w \<or> Q w)"
  and stable_const: "stable S (\<lambda>w. b)"
  unfolding stable_def by blast+

lemma stable_ex: "(\<And>x. stable S (P x)) \<Longrightarrow> stable S (\<lambda>w. \<exists>x. P x w)"
  unfolding stable_def by blast

lemma triple_stable:
  assumes "only_calls (spares S) m" "stable S P"
  shows "triple P m (\<lambda>_. P) P"
proof -
  have "P w'" if run: "m w = (r, w')" and P: "P w" for w r w'
    using only_callsD(2) [OF assms(1) run] assms(2) P unfolding stable_def by blast
  then show ?thesis by (auto simp: triple_def split: prod.splits sum.splits)
qed

text \<open>Reading gives what the file holds, and fails on a file that is not there.\<close>

definition reads_files :: "sysenv \<Rightarrow> (syscall list \<Rightarrow> string option) \<Rightarrow> files \<Rightarrow> bool" where
  "reads_files env junk d \<longleftrightarrow> (\<forall>tr p. case files_after env junk d tr p of
       Some x \<Rightarrow> seAnswer env tr (COsReadFile p) = Inr x
     | None \<Rightarrow> (\<exists>e. seAnswer env tr (COsReadFile p) = Inl e))"

lemma reads_filesD:
  assumes "reads_files env junk d" "seAnswer env tr (COsReadFile p) = Inr x"
  shows "files_after env junk d tr p = Some x"
proof -
  have "case files_after env junk d tr p of Some x \<Rightarrow> seAnswer env tr (COsReadFile p) = Inr x
     | None \<Rightarrow> \<exists>e. seAnswer env tr (COsReadFile p) = Inl e"
    using assms(1) unfolding reads_files_def by blast
  then show ?thesis using assms(2) by (simp split: option.splits)
qed

text \<open>An environment where every call succeeds and prints the same, and reads give the files.\<close>

definition obedient :: "files \<Rightarrow> string \<Rightarrow> sysenv" where
  "obedient d out = \<lparr>seOS = quiet_env zero_Config, seAnswer = (\<lambda>tr c. case c of
       COsReadFile p \<Rightarrow> (case foldl (\<lambda>fs c. file_effect (Inr []) None c fs) d tr p of Some x \<Rightarrow> Inr x | None \<Rightarrow> Inl [])
     | _ \<Rightarrow> Inr out)\<rparr>"

lemma file_effect_ok: "file_effect (Inr x) j c fs = file_effect (Inr y) k c fs"
  by (cases "(Inr x :: error + string, j, c, fs)" rule: file_effect.cases) (auto simp: store_file_def)

lemma obedient_effect: "file_effect (seAnswer (obedient d out) tr c) j c fs = file_effect (Inr []) k c fs"
proof (cases "\<exists>p. c = COsReadFile p")
  case False
  then have "seAnswer (obedient d out) tr c = Inr out" by (cases c) (auto simp: obedient_def)
  then show ?thesis by (metis file_effect_ok)
qed auto

lemma files_after_obedient: "files_after (obedient d out) junk d tr = foldl (\<lambda>fs c. file_effect (Inr []) None c fs) d tr"
  by (induction tr rule: rev_induct) (simp_all add: obedient_effect [where k = None])

lemma obedient_reads: "reads_files (obedient d out) junk d"
  unfolding reads_files_def files_after_obedient by (auto simp: obedient_def split: option.splits)

end
