(* ===== verification/OpenVPN.thy ===== *)
theory OpenVPN
  imports Files GoNet GoPath
begin

text \<open>
  The OpenVPN service (\<^verbatim>\<open>internal/services/openvpn.go\<close>): key material through easy-rsa, clients of the
  server with their configuration directory, the server unit, and outgoing clients. The two templates
  and \<open>os.Stat\<close> are parameters. The flag \<open>running\<close> of the service is threaded beside the world.
\<close>

section \<open>Addresses\<close>

definition cidrToIPMask :: "string \<Rightarrow> string \<times> string" where
  "cidrToIPMask cidr =
     (if \<not> Contains cidr ''/'' then (cidr, ''255.255.255.0'')
      else (case ParseCIDR cidr of
          None \<Rightarrow> ([], [])
        | Some (ip, ipNet) \<Rightarrow> (ip_text ip, ip_text (netMask ipNet))))"

definition subnetFromCIDR :: "string \<Rightarrow> string" where
  "subnetFromCIDR cidr = (case ParseCIDR cidr of None \<Rightarrow> [] | Some (_, ipNet) \<Rightarrow> ip_text (netIP ipNet))"

section \<open>Key material\<close>

record ovpnRouteEntry =
  rtSubnetIP :: string
  rtSubnetMask :: string

record ovpnServerTemplateData =
  stServer :: OVPNServerConfig
  stSubnetIP :: string
  stSubnetMask :: string
  stSiteToSiteRoutes :: "ovpnRouteEntry list"

record ovpnenv =
  ovSys :: sysenv
  ovStat :: "syscall list \<Rightarrow> string \<Rightarrow> bool"
  ovServerTmpl :: "error + (ovpnServerTemplateData \<Rightarrow> error + string)"
  ovClientTmpl :: "error + (OVPNClientConfig \<Rightarrow> error + string)"

definition easyrsa :: string where "easyrsa = ''/usr/share/easy-rsa/easyrsa''"

definition pkiDir :: string where "pkiDir = ''/etc/openvpn/pki''"

definition easy :: "ovpnenv \<Rightarrow> string \<Rightarrow> string list \<Rightarrow> string action" where
  "easy env what args = io_wrap (what @ '': '') (sys (ovSys env) (CRunEnv [''EASYRSA_PKI='' @ pkiDir] easyrsa args))"

definition InitPKI :: "ovpnenv \<Rightarrow> unit action" where
  "InitPKI env =
     io_then (io_wrap ''mkdir pki: '' (sys (ovSys env) (CMkdirAll pkiDir 448)))
     (io_then (easy env ''init-pki'' [''init-pki''])
     (io_then (easy env ''build-ca'' [''build-ca'', ''nopass''])
     (io_then (easy env ''gen-req server'' [''gen-req'', ''server'', ''nopass''])
     (io_then (easy env ''sign-req server'' [''sign-req'', ''server'', ''server''])
     (io_then (easy env ''gen-dh'' [''gen-dh''])
     (io_then (io_wrap ''gen tls-auth key: '' (sys (ovSys env) (CRun ''openvpn'' [''--genkey'', ''secret'', pkiDir @ ''/ta.key''])))
     (io_then (easy env ''gen-crl'' [''gen-crl''])
      (io_return ()))))))))"

record OVPNServerStatus =
  osEnabled :: bool
  osActive :: bool
  osPKIReady :: bool
  osPort :: goint
  osProtocol :: string
  osClientCount :: nat

definition ovpn_ServerStatus :: "ovpnenv \<Rightarrow> OVPNServerStatus action" where
  "ovpn_ServerStatus env w =
     (let srv = ovpnServer (cfgOpenVPN (wcfg w)); pki = ovStat env (wTrace w) (pkiDir @ ''/ca.crt'') in
      case sys (ovSys env) (CRun ''pgrep'' [''-x'', ''openvpn'']) w of (r, w1) \<Rightarrow>
        (Inr \<lparr>osEnabled = ovsEnabled srv, osActive = (\<not> isl r), osPKIReady = pki, osPort = ovsPort srv,
              osProtocol = ovsProtocol srv, osClientCount = length (ovsClients srv)\<rparr>, w1))"

section \<open>Clients of the server\<close>

definition lan_addresses :: "Config \<Rightarrow> string list" where
  "lan_addresses c = map ifAddress (filter (\<lambda>i. ifRole i = ''lan'' \<and> ifAddress i \<noteq> []) (cfgInterfaces c))"

definition ccd_push :: "string \<Rightarrow> string" where
  "ccd_push addr = (case cidrToIPMask addr of (ip, msk) \<Rightarrow>
     if ip \<noteq> [] then ''push '' @ [CHR 0x22] @ ''route '' @ subnetFromCIDR addr @ '' '' @ msk @ [CHR 0x22] @ nl else [])"

definition ccd_iroute :: "string \<Rightarrow> string" where
  "ccd_iroute subnet = (case cidrToIPMask subnet of (ip, msk) \<Rightarrow>
     if ip \<noteq> [] then ''iroute '' @ ip @ '' '' @ msk @ nl else [])"

definition ccd_text :: "Config \<Rightarrow> OVPNClientEntry \<Rightarrow> string" where
  "ccd_text c e =
     (if oveFixedIP e \<noteq> [] then (case cidrToIPMask (oveFixedIP e @ ''/24'') of (ip, msk) \<Rightarrow>
        if ip \<noteq> [] then ''ifconfig-push '' @ oveFixedIP e @ '' '' @ msk @ nl else []) else []) @
     (if oveIsSiteToSite e
      then ''push-reset'' @ nl @ concat (map ccd_push (lan_addresses c)) @ concat (map ccd_iroute (oveRemoteSubnets e))
      else [])"

definition ccd_name :: "OVPNClientEntry \<Rightarrow> string" where
  "ccd_name e = (if oveCommonName e = [] then oveName e else oveCommonName e)"

definition writeCCD :: "ovpnenv \<Rightarrow> OVPNClientEntry \<Rightarrow> string action" where
  "writeCCD env e w =
     io_then (io_wrap ''mkdir ccd: '' (sys (ovSys env) (CMkdirAll ''/etc/openvpn/ccd'' 493)))
       (sys (ovSys env) (CWriteFile (path_Join ''/etc/openvpn/ccd'' (ccd_name e)) (ccd_text (wcfg w) e) 420)) w"

definition upd_ovpn_clients :: "(OVPNClientEntry list \<Rightarrow> OVPNClientEntry list) \<Rightarrow> Config \<Rightarrow> Config" where
  "upd_ovpn_clients f c =
     c\<lparr>cfgOpenVPN := (cfgOpenVPN c)\<lparr>ovpnServer := (ovpnServer (cfgOpenVPN c))\<lparr>ovsClients := f (ovsClients (ovpnServer (cfgOpenVPN c)))\<rparr>\<rparr>\<rparr>"

definition ovpn_persist :: "ovpnenv \<Rightarrow> unit action" where
  "ovpn_persist env = io_save (ovSys env)"

definition new_entry :: "string \<Rightarrow> bool \<Rightarrow> string list \<Rightarrow> string \<Rightarrow> OVPNClientEntry" where
  "new_entry name s2s subnets fixedIP =
     \<lparr>oveName = name, oveCommonName = name, oveFixedIP = fixedIP, oveEnabled = True, oveIsSiteToSite = s2s,
      oveRemoteSubnets = subnets\<rparr>"

definition ovpn_AddClient :: "ovpnenv \<Rightarrow> string \<Rightarrow> bool \<Rightarrow> string list \<Rightarrow> string \<Rightarrow> unit action" where
  "ovpn_AddClient env name s2s subnets fixedIP =
     io_then (easy env (''gen-req '' @ name) [''gen-req'', name, ''nopass''])
     (io_then (easy env (''sign-req '' @ name) [''sign-req'', ''client'', name])
     (io_then (io_update (upd_ovpn_clients (\<lambda>cs. cs @ [new_entry name s2s subnets fixedIP])))
     (io_then (io_ignore (writeCCD env (new_entry name s2s subnets fixedIP)))
      (io_wrap ''persist: '' (ovpn_persist env)))))"

primrec disable_first :: "string \<Rightarrow> OVPNClientEntry list \<Rightarrow> OVPNClientEntry list" where
  "disable_first name [] = []"
| "disable_first name (e # es) =
     (if oveName e = name then e\<lparr>oveEnabled := False\<rparr> # es else e # disable_first name es)"

definition RevokeClient :: "ovpnenv \<Rightarrow> string \<Rightarrow> unit action" where
  "RevokeClient env name =
     io_then (easy env (''revoke '' @ name) [''revoke'', name])
     (io_then (easy env ''gen-crl'' [''gen-crl''])
     (io_then (io_update (upd_ovpn_clients (disable_first name)))
      (io_wrap ''persist: '' (ovpn_persist env))))"

definition ListServerClients :: "Config \<Rightarrow> OVPNClientEntry list" where
  "ListServerClients c = ovsClients (ovpnServer (cfgOpenVPN c))"

section \<open>Client profiles\<close>

definition route_line :: "string \<Rightarrow> string" where
  "route_line cidr = (if subnetFromCIDR cidr \<noteq> []
     then ''route '' @ subnetFromCIDR cidr @ '' '' @ snd (cidrToIPMask cidr) @ nl else [])"

definition profile_head :: "OVPNServerConfig \<Rightarrow> string" where
  "profile_head srv =
     (let endpoint = (if ovsPublicEndpoint srv = [] then ''<YOUR_PUBLIC_IP>'' else ovsPublicEndpoint srv)
      in ''client'' @ nl @ ''dev tun'' @ nl @ ''proto '' @ ovsProtocol srv @ nl @
         ''remote '' @ endpoint @ '' '' @ Itoa (ovsPort srv) @ nl @
         ''resolv-retry infinite'' @ nl @ ''nobind'' @ nl @ ''persist-key'' @ nl @ ''persist-tun'' @ nl @
         ''cipher '' @ ovsCipher srv @ nl @ ''auth '' @ ovsAuth srv @ nl @ ''key-direction 1'' @ nl @ ''verb 3'' @ nl)"

definition profile_routes :: "Config \<Rightarrow> string \<Rightarrow> string" where
  "profile_routes c name =
     (let srv = ovpnServer (cfgOpenVPN c) in
      case find (\<lambda>e. oveName e = name \<or> oveCommonName e = name) (ovsClients srv) of
        Some e \<Rightarrow> if oveIsSiteToSite e
                  then ''route-nopull'' @ nl @ concat (map route_line (lan_addresses c)) @ route_line (ovsSubnet srv)
                  else []
      | None \<Rightarrow> [])"

definition profile_keys :: "string \<Rightarrow> string \<Rightarrow> string \<Rightarrow> string \<Rightarrow> string" where
  "profile_keys ca cert key ta =
     nl @ ''<ca>'' @ nl @ ca @ ''</ca>'' @ nl @ nl @ ''<cert>'' @ nl @ cert @ ''</cert>'' @ nl @ nl @
     ''<key>'' @ nl @ key @ ''</key>'' @ nl @ nl @ ''<tls-auth>'' @ nl @ ta @ ''</tls-auth>'' @ nl"

definition GenerateClientOVPN :: "ovpnenv \<Rightarrow> string \<Rightarrow> string action" where
  "GenerateClientOVPN env name =
     (let rd = (\<lambda>what p. io_wrap (''read '' @ what @ '': '') (sys (ovSys env) (COsReadFile p))) in
      io_bind (rd ''CA'' (pkiDir @ ''/ca.crt'')) (\<lambda>ca.
      io_bind (rd ''cert'' (pkiDir @ ''/issued/'' @ name @ ''.crt'')) (\<lambda>cert.
      io_bind (rd ''key'' (pkiDir @ ''/private/'' @ name @ ''.key'')) (\<lambda>key.
      io_bind (rd ''ta.key'' (pkiDir @ ''/ta.key'')) (\<lambda>ta w.
        (Inr (profile_head (ovpnServer (cfgOpenVPN (wcfg w))) @ profile_routes (wcfg w) name @ profile_keys ca cert key ta), w))))))"

section \<open>The server\<close>

definition s2s_routes :: "OVPNClientEntry \<Rightarrow> ovpnRouteEntry list" where
  "s2s_routes e =
     (if oveIsSiteToSite e \<and> oveEnabled e
      then map (\<lambda>(ip, msk). \<lparr>rtSubnetIP = ip, rtSubnetMask = msk\<rparr>)
             (filter (\<lambda>(ip, msk). ip \<noteq> []) (map cidrToIPMask (oveRemoteSubnets e)))
      else [])"

definition server_data :: "OVPNServerConfig \<Rightarrow> ovpnServerTemplateData" where
  "server_data srv =
     \<lparr>stServer = srv, stSubnetIP = fst (cidrToIPMask (ovsSubnet srv)), stSubnetMask = snd (cidrToIPMask (ovsSubnet srv)),
      stSiteToSiteRoutes = concat (map s2s_routes (ovsClients srv))\<rparr>"

definition render_server :: "ovpnenv \<Rightarrow> OVPNServerConfig \<Rightarrow> unit action" where
  "render_server env srv =
      io_bind (io_wrap ''parse openvpn server template: '' (io_lift (ovServerTmpl env))) (\<lambda>execute.
      io_then (io_wrap ''mkdir /etc/openvpn: '' (sys (ovSys env) (CMkdirAll ''/etc/openvpn'' 493)))
      (io_then (io_wrap ''mkdir /etc/openvpn/ccd: '' (sys (ovSys env) (CMkdirAll ''/etc/openvpn/ccd'' 493)))
      (io_bind (io_wrap ''render server.conf: '' (io_lift (execute (server_data srv)))) (\<lambda>text.
      io_then (io_wrap ''write server.conf: '' (sys (ovSys env) (CWriteFile ''/etc/openvpn/server.conf'' text 420)))
        (io_each (\<lambda>e. if oveEnabled e then io_ignore (writeCCD env e) else io_return ()) (ovsClients srv))))))"

definition ovpn_RenderServerConfig :: "ovpnenv \<Rightarrow> unit action" where
  "ovpn_RenderServerConfig env w = render_server env (ovpnServer (cfgOpenVPN (wcfg w))) w"

definition ErrOpenVPNAlreadyRunning :: error where
  "ErrOpenVPNAlreadyRunning = ''openvpn server already running''"

definition ErrOpenVPNAlreadyStopped :: error where
  "ErrOpenVPNAlreadyStopped = ''openvpn server already stopped''"

definition start_call :: syscall where
  "start_call = CRun ''systemctl'' [''start'', ''openvpn@server'']"

definition stop_call :: syscall where
  "stop_call = CRun ''systemctl'' [''stop'', ''openvpn@server'']"

definition ovpn_ServerStart :: "ovpnenv \<Rightarrow> bool \<times> world \<Rightarrow> error option \<times> bool \<times> world" where
  "ovpn_ServerStart env = (\<lambda>(running, w).
     if running then (Some ErrOpenVPNAlreadyRunning, running, w)
     else (case io_then (io_wrap ''render config: '' (ovpn_RenderServerConfig env)) (sys (ovSys env) start_call) w of
         (Inl e, w1) \<Rightarrow> (Some e, running, w1)
       | (Inr _, w1) \<Rightarrow> (None, True, w1)))"

definition ovpn_ServerStop :: "ovpnenv \<Rightarrow> bool \<times> world \<Rightarrow> error option \<times> bool \<times> world" where
  "ovpn_ServerStop env = (\<lambda>(running, w).
     if \<not> running then (Some ErrOpenVPNAlreadyStopped, running, w)
     else (case sys (ovSys env) stop_call w of
         (Inl e, w1) \<Rightarrow> (Some e, running, w1)
       | (Inr _, w1) \<Rightarrow> (None, False, w1)))"

section \<open>Outgoing clients\<close>

definition add_outbound :: "OVPNClientConfig \<Rightarrow> Config \<Rightarrow> Config" where
  "add_outbound cl c = c\<lparr>cfgOpenVPN := (cfgOpenVPN c)\<lparr>ovpnClients := ovpnClients (cfgOpenVPN c) @ [cl]\<rparr>\<rparr>"

definition imported_client :: "string \<Rightarrow> string \<Rightarrow> OVPNClientConfig" where
  "imported_client name text =
     \<lparr>ovcName = name, ovcConfigFile = text, ovcRemoteHost = [], ovcRemotePort = 0, ovcProtocol = [], ovcCipher = [],
      ovcAuth = [], ovcTLSAuth = False, ovcUsername = [], ovcPassword = [], ovcAutoConnect = False, ovcTable = 0, ovcFwmark = 0\<rparr>"

definition ImportClientConfig :: "ovpnenv \<Rightarrow> string \<Rightarrow> string \<Rightarrow> unit action" where
  "ImportClientConfig env name text =
     io_then (io_update (add_outbound (imported_client name text))) (io_ignore (ovpn_persist env))"

definition AddOutboundClient :: "ovpnenv \<Rightarrow> OVPNClientConfig \<Rightarrow> unit action" where
  "AddOutboundClient env cl = io_then (io_update (add_outbound cl)) (ovpn_persist env)"

definition ListOutboundClients :: "Config \<Rightarrow> OVPNClientConfig list" where
  "ListOutboundClients c = ovpnClients (cfgOpenVPN c)"

definition client_defaults :: "OVPNClientConfig \<Rightarrow> OVPNClientConfig" where
  "client_defaults c =
     c\<lparr>ovcRemotePort := (if ovcRemotePort c = 0 then 1194 else ovcRemotePort c),
       ovcProtocol := (if ovcProtocol c = [] then ''udp'' else ovcProtocol c),
       ovcCipher := (if ovcCipher c = [] then ''AES-256-GCM'' else ovcCipher c),
       ovcAuth := (if ovcAuth c = [] then ''SHA256'' else ovcAuth c)\<rparr>"

definition auth_path :: "string \<Rightarrow> string" where
  "auth_path name = ''/etc/openvpn/client/'' @ name @ ''-auth.txt''"

definition ovpn_renderClientConfig :: "ovpnenv \<Rightarrow> OVPNClientConfig \<Rightarrow> string \<Rightarrow> unit action" where
  "ovpn_renderClientConfig env c confPath =
     (if ovcConfigFile c \<noteq> []
      then io_then (sys (ovSys env) (CWriteFile confPath (ovcConfigFile c) 384)) (io_return ())
      else io_bind (io_wrap ''parse openvpn client template: '' (io_lift (ovClientTmpl env))) (\<lambda>execute.
        io_bind (io_wrap ''render client config: '' (io_lift (execute (client_defaults c)))) (\<lambda>text.
        io_then (sys (ovSys env) (CWriteFile confPath text 384))
          (if ovcUsername c \<noteq> [] \<and> ovcPassword c \<noteq> []
           then io_then (io_wrap ''write auth file: ''
             (sys (ovSys env) (CWriteFile (auth_path (ovcName c)) (ovcUsername c @ nl @ ovcPassword c @ nl) 384))) (io_return ())
           else io_return ()))))"

definition conf_path :: "string \<Rightarrow> string" where
  "conf_path name = ''/etc/openvpn/client/'' @ name @ ''.conf''"

definition pid_path :: "string \<Rightarrow> string" where
  "pid_path name = ''/var/run/openvpn-'' @ name @ ''.pid''"

definition connect_found :: "ovpnenv \<Rightarrow> string \<Rightarrow> OVPNClientConfig option \<Rightarrow> unit action" where
  "connect_found env name found =
     (case found of
        None \<Rightarrow> io_fail (''client '' @ quote_q name @ '' not found'')
      | Some c \<Rightarrow>
          io_then (io_wrap ''mkdir client dir: '' (sys (ovSys env) (CMkdirAll ''/etc/openvpn/client'' 448)))
          (io_then (io_wrap ''render client config: '' (ovpn_renderClientConfig env c (conf_path name)))
          (io_then (sys (ovSys env) (CRun ''openvpn'' [''--config'', conf_path name, ''--daemon'', ''--writepid'', pid_path name]))
           (io_return ()))))"

definition ovpn_ConnectClient :: "ovpnenv \<Rightarrow> string \<Rightarrow> unit action" where
  "ovpn_ConnectClient env name w = connect_found env name (find (\<lambda>c. ovcName c = name) (ovpnClients (cfgOpenVPN (wcfg w)))) w"

definition ovpn_DisconnectClient :: "ovpnenv \<Rightarrow> string \<Rightarrow> unit action" where
  "ovpn_DisconnectClient env name w =
     (case sys (ovSys env) (COsReadFile (pid_path name)) w of
        (Inl e, w1) \<Rightarrow> (Inr (), w1)
      | (Inr pid, w1) \<Rightarrow>
          io_then (io_ignore (sys (ovSys env) (CRun ''kill'' [TrimSpace pid])))
            (io_ignore (sys (ovSys env) (COsRemove (pid_path name)))) w1)"

section \<open>The server unit\<close>

text \<open>
  The successful starts (\<open>True\<close>) and stops of the unit in a trace, newest first, and the actions that
  make none.
\<close>

primrec unit_rev :: "sysenv \<Rightarrow> syscall list \<Rightarrow> bool list" where
  "unit_rev env [] = []"
| "unit_rev env (c # cs) =
     (if isl (seAnswer env (rev cs) c) then [] else if c = start_call then [True] else if c = stop_call then [False] else [])
     @ unit_rev env cs"

definition unit_log :: "sysenv \<Rightarrow> world \<Rightarrow> bool list" where
  "unit_log env w = unit_rev env (rev (wTrace w))"

fun alternates :: "bool list \<Rightarrow> bool" where
  "alternates [] = True"
| "alternates [b] = b"
| "alternates (a # b # r) = (a \<noteq> b \<and> alternates (b # r))"

lemma unit_log_store [simp]: "unit_log env (w\<lparr>wStore := st\<rparr>) = unit_log env w"
  by (simp add: unit_log_def)

lemma unit_log_call:
  "unit_log env (w\<lparr>wTrace := wTrace w @ [c]\<rparr>) =
     (if isl (seAnswer env (wTrace w) c) then [] else if c = start_call then [True] else if c = stop_call then [False] else [])
     @ unit_log env w"
  by (simp add: unit_log_def)

definition quiet :: "sysenv \<Rightarrow> 'a action \<Rightarrow> bool" where
  "quiet env m \<longleftrightarrow> (\<forall>w. unit_log env (snd (m w)) = unit_log env w)"

named_theorems quiet_intros "actions that neither start nor stop the unit"

lemma quietD: "quiet env m \<Longrightarrow> m w = (r, w') \<Longrightarrow> unit_log env w' = unit_log env w"
  unfolding quiet_def by (metis snd_conv)

lemma quiet_sys [quiet_intros]: "c \<noteq> start_call \<Longrightarrow> c \<noteq> stop_call \<Longrightarrow> quiet env (sys env c)"
  by (simp add: quiet_def sys_def unit_log_call)

lemma quiet_return [quiet_intros]: "quiet env (io_return a)"
  and quiet_fail [quiet_intros]: "quiet env (io_fail e)"
  and quiet_lift [quiet_intros]: "quiet env (io_lift r)"
  and quiet_update [quiet_intros]: "quiet env (io_update f)"
  by (simp_all add: quiet_def io_simps)

lemma quiet_save [quiet_intros]: "quiet env (io_save env)"
  by (auto simp: quiet_def io_save_def split: prod.splits option.splits)

lemma quiet_bind [quiet_intros]: "quiet env m \<Longrightarrow> (\<And>a. quiet env (k a)) \<Longrightarrow> quiet env (io_bind m k)"
  unfolding quiet_def io_bind_def by (auto split: prod.splits sum.splits) (metis snd_conv)+

lemma quiet_then [quiet_intros]: "quiet env m \<Longrightarrow> quiet env n \<Longrightarrow> quiet env (io_then m n)"
  by (simp add: io_then_def quiet_bind)

lemma quiet_wrap [quiet_intros]: "quiet env m \<Longrightarrow> quiet env (io_wrap pre m)"
  unfolding quiet_def io_wrap_def by (auto split: prod.splits sum.splits) (metis snd_conv)+

lemma quiet_ignore [quiet_intros]: "quiet env m \<Longrightarrow> quiet env (io_ignore m)"
  by (simp add: quiet_def io_ignore_def)

lemma quiet_if [quiet_intros]: "quiet env m \<Longrightarrow> quiet env n \<Longrightarrow> quiet env (if b then m else n)"
  by simp

lemma quiet_each [quiet_intros]: "(\<And>x. quiet env (f x)) \<Longrightarrow> quiet env (io_each f xs)"
  by (induction xs) (auto intro: quiet_intros)

text \<open>Reading the configuration first.\<close>

lemma quiet_read: "(\<And>w0. quiet env (f w0)) \<Longrightarrow> quiet env (\<lambda>w. f w w)"
  by (simp add: quiet_def)

lemma not_unit_call [simp]:
  "CRunEnv v n as \<noteq> start_call" "CRunEnv v n as \<noteq> stop_call" "CMkdirAll p m \<noteq> start_call" "CMkdirAll p m \<noteq> stop_call"
  "CWriteFile p d m \<noteq> start_call" "CWriteFile p d m \<noteq> stop_call" "COsReadFile p \<noteq> start_call" "COsReadFile p \<noteq> stop_call"
  "COsRemove p \<noteq> start_call" "COsRemove p \<noteq> stop_call"
  "n \<noteq> ''systemctl'' \<Longrightarrow> CRun n as \<noteq> start_call" "n \<noteq> ''systemctl'' \<Longrightarrow> CRun n as \<noteq> stop_call"
  by (simp_all add: start_call_def stop_call_def)

lemma easy_quiet [quiet_intros]: "quiet (ovSys env) (easy env what args)"
  unfolding easy_def by (intro quiet_intros) simp_all

lemma writeCCD_quiet [quiet_intros]: "quiet (ovSys env) (writeCCD env e)"
  unfolding writeCCD_def by (rule quiet_read) (intro quiet_intros; simp)

lemma ovpn_RenderServerConfig_quiet [quiet_intros]: "quiet (ovSys env) (ovpn_RenderServerConfig env)"
  unfolding ovpn_RenderServerConfig_def render_server_def by (rule quiet_read) (intro quiet_intros; simp)

lemma persist_quiet [quiet_intros]: "quiet (ovSys env) (ovpn_persist env)"
  unfolding ovpn_persist_def by (rule quiet_save)

lemma client_ops_quiet [quiet_intros]:
  "quiet (ovSys env) (InitPKI env)" "quiet (ovSys env) (ovpn_AddClient env name s2s subs ip)"
  "quiet (ovSys env) (RevokeClient env name)" "quiet (ovSys env) (AddOutboundClient env cl)"
  "quiet (ovSys env) (ImportClientConfig env name text)" "quiet (ovSys env) (ovpn_renderClientConfig env cl path)"
  unfolding InitPKI_def ovpn_AddClient_def RevokeClient_def AddOutboundClient_def ImportClientConfig_def ovpn_renderClientConfig_def
  by (intro quiet_intros; simp)+

lemma ovpn_ConnectClient_quiet [quiet_intros]: "quiet (ovSys env) (ovpn_ConnectClient env name)"
  unfolding ovpn_ConnectClient_def
proof (rule quiet_read [where f = "\<lambda>w. connect_found env name (find (\<lambda>c. ovcName c = name) (ovpnClients (cfgOpenVPN (wcfg w))))"])
  show "quiet (ovSys env) (connect_found env name (find (\<lambda>c. ovcName c = name) (ovpnClients (cfgOpenVPN (wcfg w)))))" for w
    unfolding connect_found_def by (split option.split) (intro conjI allI impI quiet_intros; simp)
qed

lemma ovpn_DisconnectClient_quiet [quiet_intros]: "quiet (ovSys env) (ovpn_DisconnectClient env name)"
proof -
  have "quiet (ovSys env) (io_then (io_ignore (sys (ovSys env) (CRun ''kill'' [pid]))) (io_ignore (sys (ovSys env) (COsRemove p))))" for pid p
    by (intro quiet_intros; simp)
  moreover have "quiet (ovSys env) (sys (ovSys env) (COsReadFile (pid_path name)))" by (intro quiet_intros; simp)
  ultimately show ?thesis
    by (auto simp: quiet_def ovpn_DisconnectClient_def split: prod.splits sum.splits) (metis snd_conv)+
qed

text \<open>The requests the service gets, and a run of them.\<close>

datatype ovpn_op =
    OvInit | OvStart | OvStop | OvAdd string bool "string list" string | OvRevoke string
  | OvImport string string | OvAddOutbound OVPNClientConfig | OvConnect string | OvDisconnect string

definition plain_op :: "unit action \<Rightarrow> bool \<times> world \<Rightarrow> bool \<times> world" where
  "plain_op m = (\<lambda>(running, w). (running, snd (m w)))"

fun ovpn_step :: "ovpnenv \<Rightarrow> ovpn_op \<Rightarrow> bool \<times> world \<Rightarrow> bool \<times> world" where
  "ovpn_step env OvInit s = plain_op (InitPKI env) s"
| "ovpn_step env OvStart s = snd (ovpn_ServerStart env s)"
| "ovpn_step env OvStop s = snd (ovpn_ServerStop env s)"
| "ovpn_step env (OvAdd name s2s subs ip) s = plain_op (ovpn_AddClient env name s2s subs ip) s"
| "ovpn_step env (OvRevoke name) s = plain_op (RevokeClient env name) s"
| "ovpn_step env (OvImport name text) s = plain_op (ImportClientConfig env name text) s"
| "ovpn_step env (OvAddOutbound cl) s = plain_op (AddOutboundClient env cl) s"
| "ovpn_step env (OvConnect name) s = plain_op (ovpn_ConnectClient env name) s"
| "ovpn_step env (OvDisconnect name) s = plain_op (ovpn_DisconnectClient env name) s"

definition unit_tracked :: "sysenv \<Rightarrow> bool \<times> world \<Rightarrow> bool" where
  "unit_tracked env = (\<lambda>(running, w). alternates (unit_log env w) \<and> (running \<longleftrightarrow> unit_log env w \<noteq> [] \<and> hd (unit_log env w)))"

lemma alternates_start: "alternates l \<Longrightarrow> \<not> (l \<noteq> [] \<and> hd l) \<Longrightarrow> alternates (True # l)"
  and alternates_stop: "alternates l \<Longrightarrow> l \<noteq> [] \<Longrightarrow> hd l \<Longrightarrow> alternates (False # l)"
  by (cases l; simp)+

lemma plain_op_tracked: "quiet env m \<Longrightarrow> unit_tracked env s \<Longrightarrow> unit_tracked env (plain_op m s)"
  by (cases s) (simp add: unit_tracked_def plain_op_def quiet_def)

lemma start_tracked:
  assumes "unit_tracked (ovSys env) (running, w)"
  shows "unit_tracked (ovSys env) (snd (ovpn_ServerStart env (running, w)))"
proof (cases running)
  case False
  obtain r w1 where render: "io_wrap ''render config: '' (ovpn_RenderServerConfig env) w = (r, w1)" by fastforce
  have "quiet (ovSys env) (io_wrap ''render config: '' (ovpn_RenderServerConfig env))" by (intro quiet_intros)
  then have log: "unit_log (ovSys env) w1 = unit_log (ovSys env) w" using render by (rule quietD)
  show ?thesis
  proof (cases r)
    case (Inl e)
    then show ?thesis using assms False render log
      by (simp add: ovpn_ServerStart_def io_then_def io_bind_def unit_tracked_def)
  next
    case (Inr u)
    show ?thesis
      using assms False render log Inr alternates_start [of "unit_log (ovSys env) w"]
      by (cases "seAnswer (ovSys env) (wTrace w1) start_call")
        (simp_all add: ovpn_ServerStart_def io_then_def io_bind_def sys_def unit_tracked_def unit_log_call)
  qed
qed (use assms in \<open>simp add: ovpn_ServerStart_def\<close>)

lemma stop_tracked:
  assumes "unit_tracked (ovSys env) (running, w)"
  shows "unit_tracked (ovSys env) (snd (ovpn_ServerStop env (running, w)))"
proof -
  have "stop_call \<noteq> start_call" by (simp add: start_call_def stop_call_def)
  then show ?thesis using assms alternates_stop [of "unit_log (ovSys env) w"]
    by (cases "seAnswer (ovSys env) (wTrace w) stop_call")
      (auto simp: ovpn_ServerStop_def sys_def unit_tracked_def unit_log_call)
qed

lemma step_tracked: "unit_tracked (ovSys env) s \<Longrightarrow> unit_tracked (ovSys env) (ovpn_step env op s)"
proof (cases op)
  case OvStart
  then show "unit_tracked (ovSys env) s \<Longrightarrow> ?thesis" by (cases s) (simp add: start_tracked)
next
  case OvStop
  then show "unit_tracked (ovSys env) s \<Longrightarrow> ?thesis" by (cases s) (simp add: stop_tracked)
qed (auto intro!: plain_op_tracked quiet_intros)

text \<open>
  C27. In every sequence of requests to a fresh service, whatever the commands answer, the successful
  starts and stops of the server unit alternate, beginning with a start, and the flag of the service
  says whether the last of them was a start.
\<close>

theorem server_unit_alternates:
  "case foldl (\<lambda>s op. ovpn_step env op s) (False, \<lparr>wStore = st, wTrace = []\<rparr>) ops of (running, w) \<Rightarrow>
     alternates (unit_log (ovSys env) w) \<and>
     running = (unit_log (ovSys env) w \<noteq> [] \<and> hd (unit_log (ovSys env) w))"
proof -
  have "unit_tracked (ovSys env) (False, \<lparr>wStore = st, wTrace = []\<rparr>)"
    by (simp add: unit_tracked_def unit_log_def)
  then have "unit_tracked (ovSys env) (foldl (\<lambda>s op. ovpn_step env op s) (False, \<lparr>wStore = st, wTrace = []\<rparr>) ops)"
    by (induction ops rule: rev_induct) (simp_all add: step_tracked)
  then show ?thesis unfolding unit_tracked_def by (simp split: prod.splits)
qed

section \<open>Revocation\<close>

lemma disable_first_others:
  "distinct (map oveName es) \<Longrightarrow> filter (\<lambda>e. oveName e \<noteq> name) (disable_first name es) = filter (\<lambda>e. oveName e \<noteq> name) es \<and>
   map oveName (disable_first name es) = map oveName es"
  by (induction es) auto

lemma disable_first_routes:
  "distinct (map oveName es) \<Longrightarrow>
   concat (map s2s_routes (disable_first name es)) = concat (map s2s_routes (filter (\<lambda>e. oveName e \<noteq> name) es))"
proof (induction es)
  case (Cons e es)
  show ?case
  proof (cases "oveName e = name")
    case True
    then have "filter (\<lambda>e. oveName e \<noteq> name) es = es" using Cons.prems by (auto simp: filter_id_conv image_iff)
    then show ?thesis using True by (simp add: s2s_routes_def)
  next
    case False
    then show ?thesis using Cons by simp
  qed
qed simp

definition revoke_calls :: "string \<Rightarrow> syscall list" where
  "revoke_calls name = [CRunEnv [''EASYRSA_PKI='' @ pkiDir] easyrsa [''revoke'', name],
     CRunEnv [''EASYRSA_PKI='' @ pkiDir] easyrsa [''gen-crl'']]"

lemma RevokeClient_ok:
  assumes "RevokeClient env name w = (Inr (), w')"
  shows "wcfg w' = upd_ovpn_clients (disable_first name) (wcfg w)" "wTrace w' = wTrace w @ revoke_calls name"
    "\<exists>data. yaml_Marshal (seOS (ovSys env)) (wcfg w') = Inr data \<and> disk (wStore w') (cfgFilePath (wcfg w')) = Some data"
proof -
  define w1 where "w1 = w\<lparr>wTrace := wTrace w @ revoke_calls name,
      wStore := (wStore w)\<lparr>cfg := upd_ovpn_clients (disable_first name) (wcfg w)\<rparr>\<rparr>"
  have s: "io_save (ovSys env) w1 = (Inr (), w')"
    using assms
    by (auto simp: RevokeClient_def easy_def io_simps ovpn_persist_def w1_def revoke_calls_def split: sum.splits prod.splits)
  from save_ok [OF this] show "wcfg w' = upd_ovpn_clients (disable_first name) (wcfg w)" "wTrace w' = wTrace w @ revoke_calls name"
    "\<exists>data. yaml_Marshal (seOS (ovSys env)) (wcfg w') = Inr data \<and> disk (wStore w') (cfgFilePath (wcfg w')) = Some data"
    by (simp_all add: w1_def)
qed

text \<open>
  A successful revocation revoked the certificate, renewed the revocation list and saved the new
  configuration; where names are unique, the server gets exactly the routes of the other clients from
  then on, and no other client has changed.
\<close>

theorem revoked_client_loses_routes:
  assumes "RevokeClient env name w = (Inr (), w')" "distinct (map oveName (ListServerClients (wcfg w)))"
  shows "stSiteToSiteRoutes (server_data (ovpnServer (cfgOpenVPN (wcfg w')))) =
      concat (map s2s_routes (filter (\<lambda>e. oveName e \<noteq> name) (ListServerClients (wcfg w)))) \<and>
    filter (\<lambda>e. oveName e \<noteq> name) (ListServerClients (wcfg w')) = filter (\<lambda>e. oveName e \<noteq> name) (ListServerClients (wcfg w)) \<and>
    wTrace w' = wTrace w @ revoke_calls name \<and>
    (\<exists>data. yaml_Marshal (seOS (ovSys env)) (wcfg w') = Inr data \<and> disk (wStore w') (cfgFilePath (wcfg w')) = Some data)"
proof -
  note ok = RevokeClient_ok [OF assms(1)]
  have "ListServerClients (wcfg w') = disable_first name (ListServerClients (wcfg w))"
    unfolding ok(1) by (simp add: ListServerClients_def upd_ovpn_clients_def)
  moreover from this have "stSiteToSiteRoutes (server_data (ovpnServer (cfgOpenVPN (wcfg w')))) =
      concat (map s2s_routes (disable_first name (ListServerClients (wcfg w))))"
    by (simp add: server_data_def ListServerClients_def)
  ultimately show ?thesis
    using disable_first_routes [OF assms(2)] disable_first_others [OF assms(2)] ok(2,3) by metis
qed

definition two_sites :: world where
  "two_sites = \<lparr>wStore = \<lparr>cfg = (upd_ovpn_clients (\<lambda>_. [new_entry ''a'' True [''10.1.0.0/16''] [], new_entry ''b'' True [''10.2.0.0/16''] []])
       zero_Config)\<lparr>cfgFilePath := ''/etc/r.yaml''\<rparr>, disk = Map.empty\<rparr>, wTrace = []\<rparr>"

definition calm_ovpn :: ovpnenv where
  "calm_ovpn = \<lparr>ovSys = calm_env, ovStat = (\<lambda>_ _. True), ovServerTmpl = Inl [], ovClientTmpl = Inl []\<rparr>"

theorem revoked_client_loses_routes_witness:
  "\<exists>w'. RevokeClient calm_ovpn ''a'' two_sites = (Inr (), w') \<and>
     stSiteToSiteRoutes (server_data (ovpnServer (cfgOpenVPN (wcfg w')))) =
       [\<lparr>rtSubnetIP = ''10.2.0.0'', rtSubnetMask = ''255.255.0.0''\<rparr>]"
proof -
  obtain r w' where run: "RevokeClient calm_ovpn ''a'' two_sites = (r, w')" by fastforce
  have "r = Inr ()"
    using run by (simp add: RevokeClient_def easy_def io_simps ovpn_persist_def calm_ovpn_def calm_save two_sites_def
        upd_ovpn_clients_def)
  then have ok: "RevokeClient calm_ovpn ''a'' two_sites = (Inr (), w')" using run by simp
  have cl: "ListServerClients (wcfg two_sites) = [new_entry ''a'' True [''10.1.0.0/16''] [], new_entry ''b'' True [''10.2.0.0/16''] []]"
    by (simp add: two_sites_def ListServerClients_def upd_ovpn_clients_def)
  have "s2s_routes (new_entry ''b'' True [''10.2.0.0/16''] []) = [\<lparr>rtSubnetIP = ''10.2.0.0'', rtSubnetMask = ''255.255.0.0''\<rparr>]"
    by code_simp
  then show ?thesis
    using revoked_client_loses_routes [OF ok] ok by (simp add: cl new_entry_def)
qed

end
