(* ===== verification/HandlersOpenVPN.thy ===== *)
theory HandlersOpenVPN
  imports Handlers OpenVPN
begin

text \<open>
  The OpenVPN pages and forms (\<^verbatim>\<open>internal/web/handlers/openvpn.go\<close>) over the service of theory \<open>OpenVPN\<close>,
  and what the checks of the forms guarantee about the files the service writes.
\<close>

section \<open>Handlers\<close>

type_synonym ovpn_state = "bool \<times> world"

definition on_world :: "'a action \<Rightarrow> ovpn_state \<Rightarrow> (error + 'a) \<times> ovpn_state" where
  "on_world m = (\<lambda>(running, w). case m w of (r, w') \<Rightarrow> (r, (running, w')))"

record ovpnPage =
  opServer :: OVPNServerStatus
  opClients :: "OVPNClientEntry list"
  opOutbound :: "OVPNClientConfig list"

definition ovpn_HandlePage :: "ovpnenv \<Rightarrow> ovpnPage pageenv \<Rightarrow> ovpn_state hfun" where
  "ovpn_HandlePage env pg r =
     do_action (on_world (ovpn_ServerStatus env)) (err_text 500) (\<lambda>st (w, (running, wd)).
       show_page pg ''openvpn'' r \<lparr>opServer = st, opClients = ListServerClients (wcfg wd), opOutbound = ListOutboundClients (wcfg wd)\<rparr>
         (w, (running, wd)))"

definition HandleInitPKI :: "ovpnenv \<Rightarrow> ovpn_state hfun" where
  "HandleInitPKI env r = do_action (on_world (InitPKI env)) (err_text 500) (\<lambda>_. finish ''/openvpn'' r)"

definition bad_name :: "string \<Rightarrow> bool" where
  "bad_name name \<longleftrightarrow> length name > 64 \<or> \<not> namePattern name"

definition name_message :: string where
  "name_message = ''name must be alphanumeric, dashes, or underscores (max 64 chars)''"

definition HandleAddClient :: "ovpnenv \<Rightarrow> ovpn_state hfun" where
  "HandleAddClient env r = needs_form r
     (let name = rqForm r ''name''; siteToSite = (rqForm r ''peerType'' = ''site-to-site''); fixedIP = rqForm r ''fixedIP'';
          raw = TrimSpace (rqForm r ''remoteSubnets'') in
      if name = [] then refuse ''name required'' 400
      else if bad_name name then refuse name_message 400
      else (case (if fixedIP = [] then None else ValidateIP fixedIP) of
          Some e \<Rightarrow> refuse (''invalid fixedIP: '' @ e) 400
        | None \<Rightarrow> (case (if raw \<noteq> [] \<and> siteToSite then cidr_list (Split raw (CHR '','')) else Inr []) of
            Inl bad \<Rightarrow> refuse (''invalid CIDR in remoteSubnets: '' @ bad) 400
          | Inr remoteSubnets \<Rightarrow>
              do_action (on_world (ovpn_AddClient env name siteToSite remoteSubnets fixedIP)) (err_text 500)
                (\<lambda>_. finish ''/openvpn'' r))))"

definition HandleDownloadOVPN :: "ovpnenv \<Rightarrow> ovpn_state hfun" where
  "HandleDownloadOVPN env r =
     (let name = PathValue r ''name'' in
      if bad_name name then refuse ''invalid client name'' 400
      else do_action (on_world (GenerateClientOVPN env name)) (\<lambda>_. (''generate failed'', 500)) (\<lambda>text (w, s).
        (Write text (Header_Set ''Content-Disposition'' (''attachment; filename='' @ [dquote] @ name @ ''.ovpn'' @ [dquote])
          (Header_Set ''Content-Type'' ''application/x-openvpn-profile'' w)), s)))"

text \<open>An operation that is already in the wanted state counts as done.\<close>

definition benign :: "error \<Rightarrow> (ovpn_state \<Rightarrow> error option \<times> ovpn_state) \<Rightarrow> ovpn_state \<Rightarrow> (error + unit) \<times> ovpn_state" where
  "benign ok act s = (case act s of
       (None, s') \<Rightarrow> (Inr (), s')
     | (Some e, s') \<Rightarrow> if e = ok then (Inr (), s') else (Inl e, s'))"

definition ovpn_HandleServerStart :: "ovpnenv \<Rightarrow> ovpn_state hfun" where
  "ovpn_HandleServerStart env r =
     do_action (benign ErrOpenVPNAlreadyRunning (ovpn_ServerStart env)) (err_text 500) (\<lambda>_. finish ''/openvpn'' r)"

definition ovpn_HandleServerStop :: "ovpnenv \<Rightarrow> ovpn_state hfun" where
  "ovpn_HandleServerStop env r =
     do_action (benign ErrOpenVPNAlreadyStopped (ovpn_ServerStop env)) (err_text 500) (\<lambda>_. finish ''/openvpn'' r)"

definition HandleRevokeClient :: "ovpnenv \<Rightarrow> ovpn_state hfun" where
  "HandleRevokeClient env r =
     do_action (on_world (RevokeClient env (PathValue r ''name''))) (err_text 400) (\<lambda>_. finish ''/openvpn'' r)"

definition validCiphers :: "string list" where
  "validCiphers = [''AES-256-GCM'', ''AES-128-GCM'', ''AES-256-CBC'', ''CHACHA20-POLY1305'']"

definition validAuths :: "string list" where
  "validAuths = [''SHA256'', ''SHA384'', ''SHA512'']"

definition form_port :: "request \<Rightarrow> string \<Rightarrow> goint option" where
  "form_port r k = (case Atoi (rqForm r k) of
       Some p \<Rightarrow> if ValidatePort p = None then Some p else None | None \<Rightarrow> None)"

definition outbound_of :: "request \<Rightarrow> string \<Rightarrow> goint \<Rightarrow> OVPNClientConfig" where
  "outbound_of r name port =
     \<lparr>ovcName = name, ovcConfigFile = rqForm r ''configFile'', ovcRemoteHost = rqForm r ''remoteHost'', ovcRemotePort = port,
      ovcProtocol = rqForm r ''protocol'', ovcCipher = rqForm r ''cipher'', ovcAuth = rqForm r ''auth'',
      ovcTLSAuth = (rqForm r ''tlsAuth'' = ''true''), ovcUsername = rqForm r ''username'', ovcPassword = rqForm r ''password'',
      ovcAutoConnect = False, ovcTable = 0, ovcFwmark = 0\<rparr>"

definition HandleAddOutboundClient :: "ovpnenv \<Rightarrow> ovpn_state hfun" where
  "HandleAddOutboundClient env r = needs_form r
     (let name = rqForm r ''name''; protocol = rqForm r ''protocol''; cipher = rqForm r ''cipher''; auth = rqForm r ''auth'' in
      if name = [] then refuse ''name required'' 400
      else if bad_name name then refuse name_message 400
      else if rqForm r ''remoteHost'' = [] then refuse ''remoteHost required'' 400
      else if protocol \<noteq> ''udp'' \<and> protocol \<noteq> ''tcp'' then refuse ''protocol must be udp or tcp'' 400
      else if cipher \<noteq> [] \<and> cipher \<notin> set validCiphers then refuse ''invalid cipher'' 400
      else if auth \<noteq> [] \<and> auth \<notin> set validAuths then refuse ''invalid auth'' 400
      else (case form_port r ''remotePort'' of
          None \<Rightarrow> refuse ''invalid port'' 400
        | Some port \<Rightarrow> do_action (on_world (AddOutboundClient env (outbound_of r name port))) (\<lambda>_. (''save failed'', 500))
                         (\<lambda>_. finish ''/openvpn'' r)))"

definition HandleConnectOutbound :: "ovpnenv \<Rightarrow> ovpn_state hfun" where
  "HandleConnectOutbound env r =
     do_action (on_world (ovpn_ConnectClient env (PathValue r ''name''))) (err_text 500) (\<lambda>_. finish ''/openvpn'' r)"

definition HandleDisconnectOutbound :: "ovpnenv \<Rightarrow> ovpn_state hfun" where
  "HandleDisconnectOutbound env r =
     do_action (on_world (ovpn_DisconnectClient env (PathValue r ''name''))) (err_text 500) (\<lambda>_. finish ''/openvpn'' r)"

text \<open>All of them, as the routes name them.\<close>

definition ovpn_handlers :: "ovpnenv \<Rightarrow> ovpnPage pageenv \<Rightarrow> ovpn_state hfun list" where
  "ovpn_handlers env pg =
     [ovpn_HandlePage env pg, HandleInitPKI env, HandleAddClient env, HandleDownloadOVPN env, ovpn_HandleServerStart env,
      ovpn_HandleServerStop env, HandleRevokeClient env, HandleAddOutboundClient env, HandleConnectOutbound env,
      HandleDisconnectOutbound env]"

section \<open>Where the service writes\<close>

definition names_ok :: "Config \<Rightarrow> bool" where
  "names_ok c \<longleftrightarrow>
     list_all (\<lambda>e. namePattern (ccd_name e)) (ListServerClients c) \<and> list_all (\<lambda>cl. namePattern (ovcName cl)) (ListOutboundClients c)"

text \<open>The files of the service: every name in them is a plain name.\<close>

definition ovpn_file :: "string \<Rightarrow> bool" where
  "ovpn_file p \<longleftrightarrow> p = ''/etc/openvpn/server.conf'' \<or>
     (\<exists>n. namePattern n \<and> (p = ''/etc/openvpn/ccd/'' @ n \<or> p = conf_path n \<or> p = auth_path n))"

definition ovpn_write :: "syscall \<Rightarrow> bool" where
  "ovpn_write c \<longleftrightarrow> (case c of CWriteFile p d m \<Rightarrow> ovpn_file p | _ \<Rightarrow> True)"

definition ovpn_good :: "world \<Rightarrow> bool" where
  "ovpn_good w \<longleftrightarrow> names_ok (wcfg w) \<and> list_all ovpn_write (wTrace w)"

definition preserved :: "'a action \<Rightarrow> bool" where
  "preserved m \<longleftrightarrow> triple ovpn_good m (\<lambda>_. ovpn_good) ovpn_good"

named_theorems keeps "actions that keep the names and write only files of the service"

lemma keeps_sys [keeps]: "ovpn_write c \<Longrightarrow> preserved (sys env c)"
  unfolding preserved_def by (rule triple_sys) (simp_all add: ovpn_good_def)

lemma keeps_return [keeps]: "preserved (io_return a)"
  and keeps_lift [keeps]: "preserved (io_lift r)"
  unfolding preserved_def by (intro triples; assumption)+

lemma keeps_update [keeps]: "(\<And>c. names_ok c \<Longrightarrow> names_ok (f c)) \<Longrightarrow> preserved (io_update f)"
  by (simp add: preserved_def triple_def io_update_def ovpn_good_def)

lemma keeps_save [keeps]: "preserved (io_save env)"
proof -
  have "ovpn_good (snd (io_save env w))" if "ovpn_good w" for w
  proof -
    obtain r w' where run: "io_save env w = (r, w')" by fastforce
    then have "wTrace w' = wTrace w" by (auto simp: io_save_def split: prod.splits option.splits)
    then show ?thesis using that wcfg_save [OF run] run by (simp add: ovpn_good_def)
  qed
  then show ?thesis by (auto simp: preserved_def triple_def split: prod.splits sum.splits) (metis snd_conv)+
qed

lemma keeps_bind [keeps]: "preserved m \<Longrightarrow> (\<And>a. preserved (k a)) \<Longrightarrow> preserved (io_bind m k)"
  unfolding preserved_def by (rule triple_bind)

lemma keeps_then [keeps]: "preserved m \<Longrightarrow> preserved n \<Longrightarrow> preserved (io_then m n)"
  unfolding preserved_def by (rule triple_then)

lemma keeps_wrap [keeps]: "preserved m \<Longrightarrow> preserved (io_wrap pre m)"
  unfolding preserved_def by (rule triple_wrap)

lemma keeps_ignore [keeps]: "preserved m \<Longrightarrow> preserved (io_ignore m)"
  unfolding preserved_def by (rule triple_ignore)

lemma keeps_if [keeps]: "(b \<Longrightarrow> preserved m) \<Longrightarrow> (\<not> b \<Longrightarrow> preserved n) \<Longrightarrow> preserved (if b then m else n)"
  by simp

lemma keeps_each [keeps]: "(\<And>x. x \<in> set xs \<Longrightarrow> preserved (f x)) \<Longrightarrow> preserved (io_each f xs)"
  by (induction xs) (simp_all add: keeps_return keeps_then)

lemma keeps_read: "(\<And>w0. ovpn_good w0 \<Longrightarrow> preserved (f w0)) \<Longrightarrow> preserved (\<lambda>w. f w w)"
  unfolding preserved_def triple_def by (intro allI impI) simp

lemma no_write [simp]:
  "ovpn_write (CRun n as)" "ovpn_write (CRunEnv v n as)" "ovpn_write (CMkdirAll p m)" "ovpn_write (COsReadFile p)"
  "ovpn_write (COsRemove p)" "ovpn_write start_call" "ovpn_write stop_call" "ovpn_write (CWriteFile ''/etc/openvpn/server.conf'' t m)"
  by (simp_all add: ovpn_write_def ovpn_file_def start_call_def stop_call_def)

lemma write_conf [simp]: "namePattern n \<Longrightarrow> ovpn_write (CWriteFile (conf_path n) t m)"
  and write_auth [simp]: "namePattern n \<Longrightarrow> ovpn_write (CWriteFile (auth_path n) t m)"
  by (auto simp: ovpn_write_def ovpn_file_def)

text \<open>A plain name stays a direct entry of the directory it is joined to.\<close>

lemma name_byte_plain: "name_byte c \<Longrightarrow> c \<noteq> slash \<and> c \<noteq> CHR ''.''"
  by (auto simp: name_byte_def Let_def)

lemma join_plain:
  assumes "namePattern n"
  shows "path_Join ''/etc/openvpn/ccd'' n = ''/etc/openvpn/ccd/'' @ n"
proof -
  have bytes: "\<forall>c \<in> set n. c \<noteq> slash \<and> c \<noteq> CHR ''.''" and ne: "n \<noteq> []"
    using assms name_byte_plain by (auto simp: namePattern_def list_all_iff)
  have split: "Split n slash = [n]" using bytes by (induction n) auto
  have "CHR ''.'' \<notin> set n" using bytes by blast
  then have dots: "n \<noteq> ''.''" "n \<noteq> ''..''" by (metis list.set_intros(1))+
  have "slash \<notin> set n" using bytes by blast
  then have "plain_comp n" using ne dots by (simp add: plain_comp_def)
  define d where "d = ''/etc/openvpn/ccd''"
  have abs: "IsAbs d" "IsAbs (d @ slash # n)" and ne_d: "d \<noteq> []" by (simp_all add: d_def IsAbs_def HasPrefix_def)
  have "path_comps (path_Join d n) = path_comps d @ [n]"
    using path_comps_path_Join [OF abs(1), of n] split dots \<open>plain_comp n\<close> by simp
  moreover have "path_Join d n = slash # Join (path_comps (path_Join d n)) ''/''"
    using Clean_rooted [OF abs(2)] path_comps_Clean [OF abs(2)] ne_d by (simp add: path_Join_def)
  moreover have "path_comps d = [''etc'', ''openvpn'', ''ccd'']" unfolding d_def by code_simp
  ultimately show ?thesis by (simp add: d_def)
qed

lemma writeCCD_keeps: "namePattern (ccd_name e) \<Longrightarrow> preserved (writeCCD env e)"
  unfolding writeCCD_def
  by (rule keeps_read, intro keeps) (auto simp: join_plain ovpn_write_def ovpn_file_def)

lemma easy_keeps [keeps]: "preserved (easy env what args)"
  unfolding easy_def by (intro keeps) simp

lemma InitPKI_keeps [keeps]: "preserved (InitPKI env)"
  unfolding InitPKI_def by (intro keeps) simp_all

lemma AddClient_keeps:
  assumes "namePattern name"
  shows "preserved (ovpn_AddClient env name s2s subnets ip)"
proof -
  have n: "ccd_name (new_entry name s2s subnets ip) = name" by (simp add: ccd_name_def new_entry_def)
  then show ?thesis using assms unfolding ovpn_AddClient_def ovpn_persist_def
    by (intro keeps writeCCD_keeps) (simp_all add: names_ok_def ListServerClients_def ListOutboundClients_def upd_ovpn_clients_def)
qed

lemma disable_first_names: "list_all (\<lambda>e. P (ccd_name e)) es \<Longrightarrow> list_all (\<lambda>e. P (ccd_name e)) (disable_first name es)"
  by (induction es) (auto simp: ccd_name_def)

lemma RevokeClient_keeps [keeps]: "preserved (RevokeClient env name)"
  unfolding RevokeClient_def ovpn_persist_def
  by (intro keeps) (simp add: names_ok_def ListServerClients_def ListOutboundClients_def upd_ovpn_clients_def disable_first_names)

lemma AddOutboundClient_keeps: "namePattern (ovcName cl) \<Longrightarrow> preserved (AddOutboundClient env cl)"
  unfolding AddOutboundClient_def ovpn_persist_def
  by (intro keeps) (simp add: names_ok_def ListServerClients_def ListOutboundClients_def add_outbound_def)

lemma renderClientConfig_keeps:
  "namePattern (ovcName cl) \<Longrightarrow> namePattern n \<Longrightarrow> preserved (ovpn_renderClientConfig env cl (conf_path n))"
  unfolding ovpn_renderClientConfig_def by (intro keeps; simp)

lemma ConnectClient_keeps [keeps]: "preserved (ovpn_ConnectClient env name)"
  unfolding ovpn_ConnectClient_def
proof (rule keeps_read [where f = "\<lambda>w. connect_found env name (find (\<lambda>c. ovcName c = name) (ovpnClients (cfgOpenVPN (wcfg w))))"])
  fix w0
  assume good: "ovpn_good w0"
  show "preserved (connect_found env name (find (\<lambda>c. ovcName c = name) (ovpnClients (cfgOpenVPN (wcfg w0)))))"
  proof (cases "find (\<lambda>c. ovcName c = name) (ovpnClients (cfgOpenVPN (wcfg w0)))")
    case None
    then show ?thesis by (simp add: connect_found_def preserved_def triple_def io_fail_def)
  next
    case (Some c)
    then have "c \<in> set (ovpnClients (cfgOpenVPN (wcfg w0)))" "ovcName c = name" by (auto simp: find_Some_iff)
    then have "namePattern (ovcName c)" "namePattern name"
      using good by (auto simp: ovpn_good_def names_ok_def ListOutboundClients_def list_all_iff)
    then show ?thesis unfolding Some connect_found_def option.case
      by (intro keeps renderClientConfig_keeps; simp)
  qed
qed

lemma DisconnectClient_keeps [keeps]: "preserved (ovpn_DisconnectClient env name)"
proof -
  have "preserved (io_then (io_ignore (sys (ovSys env) (CRun ''kill'' [pid]))) (io_ignore (sys (ovSys env) (COsRemove p))))" for pid p
    by (intro keeps; simp)
  moreover have "preserved (sys (ovSys env) (COsReadFile (pid_path name)))" by (intro keeps) simp
  ultimately show ?thesis
    unfolding ovpn_DisconnectClient_def preserved_def triple_def sys_def
    by (auto split: sum.splits) 
qed

lemma RenderServerConfig_keeps [keeps]: "preserved (ovpn_RenderServerConfig env)"
  unfolding ovpn_RenderServerConfig_def
proof (rule keeps_read [where f = "\<lambda>w. render_server env (ovpnServer (cfgOpenVPN (wcfg w)))"])
  fix w0
  assume good: "ovpn_good w0"
  have "preserved (if oveEnabled e then io_ignore (writeCCD env e) else io_return ())"
    if "e \<in> set (ovsClients (ovpnServer (cfgOpenVPN (wcfg w0))))" for e
    using good that by (intro keeps writeCCD_keeps) (auto simp: ovpn_good_def names_ok_def ListServerClients_def list_all_iff)
  then show "preserved (render_server env (ovpnServer (cfgOpenVPN (wcfg w0))))"
    unfolding render_server_def by (intro keeps_bind keeps_then keeps_wrap keeps_sys keeps_lift keeps_each; simp)
qed

lemma GenerateClientOVPN_keeps [keeps]: "preserved (GenerateClientOVPN env name)"
proof -
  have "preserved (\<lambda>w. (Inr (f (wcfg w)), w))" for f :: "Config \<Rightarrow> string" by (simp add: preserved_def triple_def)
  then show ?thesis unfolding GenerateClientOVPN_def Let_def by (intro keeps; simp)
qed

lemma ServerStatus_keeps [keeps]: "preserved (ovpn_ServerStatus env)"
  by (simp add: preserved_def triple_def ovpn_ServerStatus_def sys_def ovpn_good_def Let_def)

section \<open>Requests\<close>

text \<open>The states of the service after any number of requests to its handlers.\<close>

inductive ovpn_reach :: "ovpnenv \<Rightarrow> ovpnPage pageenv \<Rightarrow> ovpn_state \<Rightarrow> ovpn_state \<Rightarrow> bool"
  for env pg s0 where
  start: "ovpn_reach env pg s0 s0"
| request: "ovpn_reach env pg s0 s \<Longrightarrow> h \<in> set (ovpn_handlers env pg) \<Longrightarrow> ovpn_reach env pg s0 (snd (h r (resp, s)))"

definition safe_step :: "(response \<times> ovpn_state \<Rightarrow> response \<times> ovpn_state) \<Rightarrow> bool" where
  "safe_step f \<longleftrightarrow> (\<forall>resp running w. ovpn_good w \<longrightarrow> ovpn_good (snd (snd (f (resp, (running, w))))))"

named_theorems safe_steps "handler steps that keep the invariant"

lemma safe_refuse [safe_steps]: "safe_step (refuse msg code)"
  and safe_finish [safe_steps]: "safe_step (finish page r)"
  by (simp_all add: safe_step_def refuse_def finish_def)

lemma safe_page [safe_steps]: "safe_step (show_page pg page r d)"
  by (auto simp: safe_step_def show_page_def refuse_def split: prod.splits option.splits)

lemma safe_form [safe_steps]: "safe_step k \<Longrightarrow> safe_step (needs_form r k)"
  by (simp add: needs_form_def safe_refuse)

lemma safe_if [safe_steps]: "(b \<Longrightarrow> safe_step f) \<Longrightarrow> (\<not> b \<Longrightarrow> safe_step g) \<Longrightarrow> safe_step (if b then f else g)"
  by simp

lemma safe_action:
  assumes "\<And>running w. ovpn_good w \<Longrightarrow> ovpn_good (snd (snd (act (running, w))))" "\<And>a. safe_step (k a)"
  shows "safe_step (do_action act fail k)"
  unfolding safe_step_def
proof (intro allI impI)
  fix resp running w
  assume good: "ovpn_good w"
  obtain r b w' where act: "act (running, w) = (r, (b, w'))" by (metis prod_cases3)
  then have "ovpn_good w'" using assms(1) [OF good, of running] by simp
  then show "ovpn_good (snd (snd (do_action act fail k (resp, running, w))))"
    using act assms(2) by (auto simp: do_action_def refuse_def safe_step_def split: sum.splits prod.splits)
qed

lemma preservedD: "preserved m \<Longrightarrow> ovpn_good w \<Longrightarrow> ovpn_good (snd (m w))"
  unfolding preserved_def using triple_snd [of ovpn_good m ovpn_good] by blast

lemma safe_on_world [safe_steps]: "preserved m \<Longrightarrow> (\<And>a. safe_step (k a)) \<Longrightarrow> safe_step (do_action (on_world m) fail k)"
  by (rule safe_action) (auto simp: on_world_def split: prod.splits dest: preservedD)

lemma safe_start: "ovpn_good w \<Longrightarrow> ovpn_good (snd (snd (ovpn_ServerStart env (running, w))))"
proof -
  assume good: "ovpn_good w"
  have "preserved (io_then (io_wrap ''render config: '' (ovpn_RenderServerConfig env)) (sys (ovSys env) start_call))"
    by (intro keeps) simp
  from preservedD [OF this good] good show ?thesis
    by (auto simp: ovpn_ServerStart_def split: prod.splits sum.splits)
qed

lemma safe_stop: "ovpn_good w \<Longrightarrow> ovpn_good (snd (snd (ovpn_ServerStop env (running, w))))"
  by (auto simp: ovpn_ServerStop_def sys_def ovpn_good_def split: sum.splits)

lemma safe_benign [safe_steps]:
  "(\<And>running w. ovpn_good w \<Longrightarrow> ovpn_good (snd (snd (act (running, w))))) \<Longrightarrow> (\<And>a. safe_step (k a)) \<Longrightarrow>
   safe_step (do_action (benign e act) fail k)"
proof (rule safe_action)
  fix running w
  assume act: "\<And>running w. ovpn_good w \<Longrightarrow> ovpn_good (snd (snd (act (running, w))))" and good: "ovpn_good w"
  show "ovpn_good (snd (snd (benign e act (running, w))))"
    using act [OF good, of running] by (auto simp: benign_def split: prod.splits option.splits)
qed simp

lemma handlers_safe:
  "safe_step (ovpn_HandlePage env pg r)" "safe_step (HandleInitPKI env r)" "safe_step (HandleDownloadOVPN env r)"
  "safe_step (ovpn_HandleServerStart env r)" "safe_step (ovpn_HandleServerStop env r)" "safe_step (HandleRevokeClient env r)"
  "safe_step (HandleConnectOutbound env r)" "safe_step (HandleDisconnectOutbound env r)"
proof -
  have page: "safe_step (\<lambda>(w, running, wd). show_page pg ''openvpn'' r (f wd) (w, running, wd))" for f
    using safe_page [where pg = pg] unfolding safe_step_def by simp
  show "safe_step (ovpn_HandlePage env pg r)" unfolding ovpn_HandlePage_def by (intro safe_on_world keeps page)
  have "safe_step (\<lambda>(w, s). (g w, s))" for g :: "response \<Rightarrow> response" by (simp add: safe_step_def)
  then show "safe_step (HandleDownloadOVPN env r)"
    unfolding HandleDownloadOVPN_def Let_def by (intro safe_steps keeps)
qed (simp_all add: HandleInitPKI_def ovpn_HandleServerStart_def ovpn_HandleServerStop_def HandleRevokeClient_def
    HandleConnectOutbound_def HandleDisconnectOutbound_def safe_steps keeps safe_start safe_stop)

lemma add_handlers_safe: "safe_step (HandleAddClient env r)" "safe_step (HandleAddOutboundClient env r)"
proof -
  have "safe_step (do_action (on_world (ovpn_AddClient env (rqForm r ''name'') s2s subs ip)) (err_text 500) (\<lambda>_. finish ''/openvpn'' r))"
    if "\<not> bad_name (rqForm r ''name'')" for s2s subs ip
    using that by (intro safe_steps AddClient_keeps) (simp add: bad_name_def)
  then show "safe_step (HandleAddClient env r)"
    unfolding HandleAddClient_def Let_def
    by (intro safe_steps) (simp split: option.split sum.split add: safe_refuse)
  have "safe_step (do_action (on_world (AddOutboundClient env (outbound_of r (rqForm r ''name'') port))) (\<lambda>_. (''save failed'', 500)) (\<lambda>_. finish ''/openvpn'' r))"
    if "\<not> bad_name (rqForm r ''name'')" for port
    using that by (intro safe_steps AddOutboundClient_keeps) (simp add: bad_name_def outbound_of_def)
  then show "safe_step (HandleAddOutboundClient env r)"
    unfolding HandleAddOutboundClient_def Let_def
    by (intro safe_steps) (simp split: option.split add: safe_refuse)
qed

text \<open>
  C28. However the OpenVPN pages are used, the service writes no file but the server configuration and
  files of \<open>/etc/openvpn/ccd\<close> and \<open>/etc/openvpn/client\<close> whose names are letters, digits, dashes and
  underscores: the checks of the two forms keep path separators out of every name the configuration
  holds, and the names of the other requests reach no path that is written.
\<close>

theorem openvpn_requests_write_own_files:
  assumes "ovpn_reach env pg (running, w0) s" "names_ok (wcfg w0)" "wTrace w0 = []"
  shows "list_all ovpn_write (wTrace (snd s)) \<and> names_ok (wcfg (snd s))"
proof -
  have "ovpn_good (snd s)"
    using assms(1)
  proof induction
    case start
    then show ?case using assms(2,3) by (simp add: ovpn_good_def)
  next
    case (request s h r resp)
    then have "safe_step (h r)" by (auto simp: ovpn_handlers_def handlers_safe add_handlers_safe)
    then show ?case using request.IH by (cases s) (simp add: safe_step_def)
  qed
  then show ?thesis by (simp add: ovpn_good_def)
qed

definition fresh_ovpn :: world where
  "fresh_ovpn = \<lparr>wStore = \<lparr>cfg = zero_Config\<lparr>cfgFilePath := ''/etc/r.yaml''\<rparr>, disk = Map.empty\<rparr>, wTrace = []\<rparr>"

definition add_client_request :: request where
  "add_client_request = (demo_request ''POST'' ''/openvpn/clients'' [])\<lparr>rqForm := (\<lambda>k. if k = ''name'' then ''laptop'' else [])\<rparr>"

theorem openvpn_requests_write_own_files_witness:
  "let s = snd (HandleAddClient calm_ovpn add_client_request (empty_response, (False, fresh_ovpn)))
   in list_all ovpn_write (wTrace (snd s)) \<and> names_ok (wcfg (snd s))"
proof -
  let ?pg = "\<lparr>pgExec = (\<lambda>_ _ _ _. None)\<rparr>"
  have "ovpn_reach calm_ovpn ?pg (False, fresh_ovpn)
      (snd (HandleAddClient calm_ovpn add_client_request (empty_response, (False, fresh_ovpn))))"
    by (rule ovpn_reach.request [OF ovpn_reach.start]) (simp add: ovpn_handlers_def)
  moreover have "names_ok (wcfg fresh_ovpn)" "wTrace fresh_ovpn = []"
    by (simp_all add: fresh_ovpn_def names_ok_def ListServerClients_def ListOutboundClients_def zero_defs)
  ultimately show ?thesis unfolding Let_def by (rule openvpn_requests_write_own_files)
qed

end
