(* ===== verification/NAS.thy ===== *)
theory NAS
  imports Files GoPath "HOL-Library.List_Lexorder" "HOL-Library.Char_ord"
begin

text \<open>
  The NAS service (\<^verbatim>\<open>internal/services/nas.go\<close>): Samba shares, playlists (reading, filtering, grouping)
  and the synchronisation of playlists to files. Downloads, the Samba template and the clock are
  parameters.
\<close>

section \<open>Shares\<close>

record nasenv =
  nsSys :: sysenv
  nsTmpl :: "ShareConfig list \<Rightarrow> error + string"
  nsGet :: "string \<Rightarrow> error + string \<times> error option"
  nsNow :: gotime

definition map_shares :: "(ShareConfig list \<Rightarrow> ShareConfig list) \<Rightarrow> Config \<Rightarrow> Config" where
  "map_shares f c = c\<lparr>cfgNAS := (cfgNAS c)\<lparr>nasShares := f (nasShares (cfgNAS c))\<rparr>\<rparr>"

definition nas_persist :: "nasenv \<Rightarrow> unit action" where
  "nas_persist env = io_save (nsSys env)"

definition AddShare :: "nasenv \<Rightarrow> ShareConfig \<Rightarrow> unit action" where
  "AddShare env share = io_then (io_update (map_shares (\<lambda>ss. ss @ [share]))) (nas_persist env)"

definition GetShares :: "Config \<Rightarrow> ShareConfig list" where
  "GetShares c = nasShares (cfgNAS c)"

definition RemoveShare :: "nasenv \<Rightarrow> string \<Rightarrow> unit action" where
  "RemoveShare env name w =
     (case find_index (\<lambda>sh. shName sh = name) (GetShares (wcfg w)) of
        Some i \<Rightarrow> io_then (io_update (map_shares (remove_nth i))) (nas_persist env) w
      | None \<Rightarrow> (Inl (''share '' @ quote_q name @ '' not found''), w))"

definition nas_RenderConfig :: "nasenv \<Rightarrow> string action" where
  "nas_RenderConfig env w = io_lift (nsTmpl env (GetShares (wcfg w))) w"

definition nas_RenderToDisk :: "nasenv \<Rightarrow> string action" where
  "nas_RenderToDisk env = io_bind (nas_RenderConfig env) (\<lambda>rendered.
     io_wrap ''write smb.conf: '' (sys (nsSys env) (CWriteFile ''/etc/samba/smb.conf'' rendered 420)))"

definition nas_ApplyConfig :: "nasenv \<Rightarrow> unit action" where
  "nas_ApplyConfig env = io_then (nas_RenderToDisk env)
     (io_then (io_wrap ''reload samba: '' (sys (nsSys env) (CRun ''smbcontrol'' [''all'', ''reload-config'']))) (io_return ()))"

section \<open>Playlists\<close>

record M3UItem =
  miGroup :: string
  miTitle :: string
  miURL :: string

definition extinf :: string where "extinf = ''#EXTINF:''"

definition group_tag :: string where "group_tag = ''group-title='' @ [CHR 0x22]"

text \<open>The group and title collected so far, and one line.\<close>

definition m3u_group :: "string \<Rightarrow> string \<Rightarrow> string" where
  "m3u_group info old =
     (case Index info group_tag of
        Some i \<Rightarrow> (let rest = drop (i + length group_tag) info in
          case Index rest [CHR 0x22] of Some e \<Rightarrow> take e rest | None \<Rightarrow> old)
      | None \<Rightarrow> old)"

definition m3u_title :: "string \<Rightarrow> string \<Rightarrow> string" where
  "m3u_title info old = (case LastIndexByte info (CHR '','') of Some i \<Rightarrow> TrimSpace (drop (i + 1) info) | None \<Rightarrow> old)"

definition m3u_line :: "string \<times> string \<times> M3UItem list \<Rightarrow> string \<Rightarrow> string \<times> string \<times> M3UItem list" where
  "m3u_line st line0 = (case st of (grp, title, items) \<Rightarrow>
     (let line = TrimSpace line0 in
      if HasPrefix line extinf
      then (let info = drop (length extinf) line in (m3u_group info grp, m3u_title info title, items))
      else if line \<noteq> [] \<and> \<not> HasPrefix line ''#''
      then ([], [], items @ [\<lparr>miGroup = (if grp = [] then ''Ungrouped'' else grp),
              miTitle = (if title = [] then ''Unknown'' else title), miURL = line\<rparr>])
      else st))"

definition m3u_lines :: "string list \<Rightarrow> M3UItem list" where
  "m3u_lines lines = snd (snd (foldl m3u_line ([], [], []) lines))"

definition ParseM3UData :: "string \<Rightarrow> M3UItem list" where
  "ParseM3UData text = m3u_lines (Split text (CHR 0x0A))"

text \<open>
  \<open>bufio.Scanner\<close> by lines: a final empty piece is not a line, a carriage return before the line end is
  dropped, and a line that does not fit the buffer of 65536 bytes ends the scan with an error.
\<close>

definition drop_cr :: "string \<Rightarrow> string" where
  "drop_cr l = (if l \<noteq> [] \<and> last l = CHR 0x0D then butlast l else l)"

definition scan_pieces :: "string \<Rightarrow> string list" where
  "scan_pieces text = (let ps = Split text (CHR 0x0A) in if last ps = [] then butlast ps else ps)"

definition fits :: "string \<Rightarrow> bool" where
  "fits l \<longleftrightarrow> length l < 65536"

definition scan_lines :: "string \<times> error option \<Rightarrow> string list \<times> error option" where
  "scan_lines body =
     (let ps = scan_pieces (fst body)
      in (map drop_cr (takeWhile fits ps), if list_all fits ps then snd body else Some ''bufio.Scanner: token too long''))"

definition downloadAndParseM3U :: "nasenv \<Rightarrow> string \<Rightarrow> error + M3UItem list" where
  "downloadAndParseM3U env url =
     (case nsGet env url of
        Inl e \<Rightarrow> Inl e
      | Inr body \<Rightarrow> (case scan_lines body of
          (lines, None) \<Rightarrow> Inr (m3u_lines lines) | (lines, Some e) \<Rightarrow> Inl e))"

definition keep_item :: "string list \<Rightarrow> string list \<Rightarrow> M3UItem \<Rightarrow> bool" where
  "keep_item includeGroups excludeGroups item \<longleftrightarrow>
     \<not> (excludeGroups \<noteq> [] \<and> ToLower (miGroup item) \<in> set (map ToLower excludeGroups)) \<and>
     \<not> (includeGroups \<noteq> [] \<and> ToLower (miGroup item) \<notin> set (map ToLower includeGroups))"

definition filterM3UItems :: "M3UItem list \<Rightarrow> string list \<Rightarrow> string list \<Rightarrow> M3UItem list" where
  "filterM3UItems items includeGroups excludeGroups =
     (if includeGroups = [] \<and> excludeGroups = [] then items
      else filter (keep_item includeGroups excludeGroups) items)"

definition DiscoverM3UGroups :: "nasenv \<Rightarrow> string \<Rightarrow> error + string list" where
  "DiscoverM3UGroups env url =
     (case downloadAndParseM3U env url of
        Inl e \<Rightarrow> Inl e | Inr items \<Rightarrow> Inr (sort (remdups (map miGroup items))))"

definition sanitizePath :: "string \<Rightarrow> string" where
  "sanitizePath s = ReplaceBytes
     [(CHR ''/'', CHR ''_''), (CHR 0x5C, CHR ''_''), (CHR '':'', CHR ''_''), (CHR ''*'', CHR ''_''), (CHR ''?'', CHR ''_''),
      (CHR 0x22, CHR ''_''), (CHR ''<'', CHR ''_''), (CHR ''>'', CHR ''_''), (CHR ''|'', CHR ''_'')] s"

section \<open>Synchronisation\<close>

record M3USyncStatus =
  msRunning :: bool
  msLastSync :: gotime
  msTotalItems :: nat
  msErrors :: nat

definition GetM3UStatus :: "M3USyncStatus \<Rightarrow> M3USyncStatus" where
  "GetM3UStatus st = st"

type_synonym sync_state = "nat \<times> nat \<times> world"

definition strm_path :: "string \<Rightarrow> M3UItem \<Rightarrow> string" where
  "strm_path path item = path_Join (path_Join path (sanitizePath (miGroup item))) (sanitizePath (miTitle item) @ ''.strm'')"

definition sync_item :: "nasenv \<Rightarrow> string \<Rightarrow> sync_state \<Rightarrow> M3UItem \<Rightarrow> sync_state" where
  "sync_item env path st item = (case st of (items, errs, w) \<Rightarrow>
     (case sys (nsSys env) (COsMkdirAll (path_Join path (sanitizePath (miGroup item))) 493) w of
        (Inl e, w1) \<Rightarrow> (items, errs + 1, w1)
      | (Inr _, w1) \<Rightarrow>
          (case sys (nsSys env) (COsWriteFile (strm_path path item) (miURL item @ nl) 420) w1 of
             (Inl e, w2) \<Rightarrow> (items, errs + 1, w2)
           | (Inr _, w2) \<Rightarrow> (items + 1, errs, w2))))"

definition allowed_download :: "string \<Rightarrow> bool" where
  "allowed_download p \<longleftrightarrow> HasPrefix p ''/srv/'' \<or> HasPrefix p ''/mnt/''"

definition sync_source :: "nasenv \<Rightarrow> sync_state \<Rightarrow> M3USourceConfig \<Rightarrow> sync_state" where
  "sync_source env st source = (case st of (items, errs, w) \<Rightarrow>
     if \<not> allowed_download (m3uDownloadPath source) then (items, errs + 1, w)
     else (case downloadAndParseM3U env (m3uURL source) of
         Inl e \<Rightarrow> (items, errs + 1, w)
       | Inr found \<Rightarrow>
           (case sys (nsSys env) (COsMkdirAll (m3uDownloadPath source) 493) w of
              (Inl e, w1) \<Rightarrow> (items, errs, w1)
            | (Inr _, w1) \<Rightarrow> foldl (sync_item env (m3uDownloadPath source)) (items, errs, w1)
                (filterM3UItems found (m3uIncludeGroups source) (m3uExcludeGroups source)))))"

definition SyncM3U :: "nasenv \<Rightarrow> world \<Rightarrow> M3USyncStatus \<times> world" where
  "SyncM3U env w =
     (case foldl (sync_source env) (0, 0, w) (nasM3USources (cfgNAS (wcfg w))) of (items, errs, w1) \<Rightarrow>
        (\<lparr>msRunning = False, msLastSync = nsNow env, msTotalItems = items, msErrors = errs\<rparr>, w1))"

text \<open>One goroutine with a daily ticker for each source that has a schedule; each tick synchronises all sources.\<close>

definition scheduled_sources :: "Config \<Rightarrow> M3USourceConfig list" where
  "scheduled_sources c = filter (\<lambda>s. m3uSchedule s \<noteq> []) (nasM3USources (cfgNAS c))"

section \<open>Reading playlists\<close>

text \<open>The downloading reader and \<open>ParseM3UData\<close> are two copies of one loop.\<close>

lemma TrimSpace_drop_cr: "TrimSpace (drop_cr l) = TrimSpace l"
proof (cases "l \<noteq> [] \<and> last l = CHR 0x0D")
  case True
  then have l: "l = butlast l @ [CHR 0x0D]" by (metis append_butlast_last_id)
  have sp: "is_space (CHR 0x0D)" by (simp add: is_space_def)
  show ?thesis
  proof (cases "\<forall>c \<in> set (butlast l). is_space c")
    case True
    have d1: "dropWhile is_space (butlast l) = []" using True by simp
    have d2: "dropWhile is_space l = []" using True sp l by (metis Un_iff dropWhile_eq_Nil_conv empty_iff insert_iff list.set set_append)
    have "drop_cr l = butlast l" using \<open>l \<noteq> [] \<and> _\<close> by (simp add: drop_cr_def)
    then show ?thesis unfolding TrimSpace_def by (simp only: d1 d2)
  next
    case False
    then have "dropWhile is_space (butlast l @ [CHR 0x0D]) = dropWhile is_space (butlast l) @ [CHR 0x0D]"
      by (auto simp: dropWhile_append)
    then have "TrimSpace (butlast l @ [CHR 0x0D]) = TrimSpace (butlast l)" using sp by (simp add: TrimSpace_def)
    then show ?thesis using l True by (simp add: drop_cr_def)
  qed
qed (auto simp: drop_cr_def)

lemma m3u_line_cong: "TrimSpace a = TrimSpace b \<Longrightarrow> m3u_line st a = m3u_line st b"
  by (simp add: m3u_line_def)

lemma m3u_line_blank: "m3u_line st [] = st"
  by (auto simp: m3u_line_def TrimSpace_def HasPrefix_def extinf_def split: prod.splits)

lemma m3u_lines_map_cr: "m3u_lines (map drop_cr ls) = m3u_lines ls"
proof -
  have "foldl m3u_line st (map drop_cr ls) = foldl m3u_line st ls" for st
    by (induction ls arbitrary: st) (simp_all add: m3u_line_cong [OF TrimSpace_drop_cr])
  then show ?thesis by (simp add: m3u_lines_def)
qed

text \<open>
  The streaming reader of playlists agrees with \<open>ParseM3UData\<close>: on a body that arrives completely it
  returns the same items, except that one line of 65536 bytes or more makes it fail as a whole.
\<close>

theorem download_agrees_with_ParseM3UData:
  assumes "nsGet env url = Inr (text, None)"
  shows "downloadAndParseM3U env url =
    (if list_all fits (Split text (CHR 0x0A)) then Inr (ParseM3UData text) else Inl ''bufio.Scanner: token too long'')"
proof -
  let ?ps = "Split text (CHR 0x0A)"
  have ne: "?ps \<noteq> []" by (rule Split_not_Nil)
  have fitsN: "fits []" by (simp add: fits_def)
  have all: "list_all fits (scan_pieces text) = list_all fits ?ps"
  proof (cases "last ?ps = []")
    case True
    then have "?ps = butlast ?ps @ [[]]" using ne by (metis append_butlast_last_id)
    then have "list_all fits ?ps = list_all fits (butlast ?ps)" using fitsN by (metis list.pred_inject list_all_append)
    then show ?thesis using True by (simp add: scan_pieces_def)
  qed (simp add: scan_pieces_def)
  have items: "m3u_lines (scan_pieces text) = m3u_lines ?ps"
  proof (cases "last ?ps = []")
    case True
    then have "?ps = butlast ?ps @ [[]]" using ne by (metis append_butlast_last_id)
    then have "m3u_lines ?ps = m3u_lines (butlast ?ps)" by (metis foldl_Cons foldl_Nil foldl_append m3u_line_blank m3u_lines_def)
    then show ?thesis using True by (simp add: scan_pieces_def)
  qed (simp add: scan_pieces_def)
  show ?thesis
  proof (cases "list_all fits ?ps")
    case True
    then have tw: "takeWhile fits (scan_pieces text) = scan_pieces text" using all by (simp add: takeWhile_eq_all_conv list_all_iff)
    show ?thesis using True all items assms
      by (simp add: downloadAndParseM3U_def scan_lines_def Let_def m3u_lines_map_cr ParseM3UData_def tw del: takeWhile_eq_all_conv)
  next
    case False
    then show ?thesis using all assms by (simp add: downloadAndParseM3U_def scan_lines_def Let_def)
  qed
qed

definition demo_playlist :: string where
  "demo_playlist = ''#EXTM3U'' @ [CHR 0x0D, CHR 0x0A] @ ''#EXTINF:-1 group-title='' @ [CHR 0x22] @ ''News'' @ [CHR 0x22] @ '',One'' @
     [CHR 0x0D, CHR 0x0A] @ ''http://x/1'' @ [CHR 0x0A] @ ''http://x/2''"

definition demo_nas :: nasenv where
  "demo_nas = \<lparr>nsSys = calm_env, nsTmpl = (\<lambda>_. Inr []), nsGet = (\<lambda>_. Inr (demo_playlist, None)), nsNow = 0\<rparr>"

theorem download_agrees_with_ParseM3UData_witness:
  "downloadAndParseM3U demo_nas ''http://x'' = Inr
     [\<lparr>miGroup = ''News'', miTitle = ''One'', miURL = ''http://x/1''\<rparr>,
      \<lparr>miGroup = ''Ungrouped'', miTitle = ''Unknown'', miURL = ''http://x/2''\<rparr>]"
proof -
  have "nsGet demo_nas ''http://x'' = Inr (demo_playlist, None)" by (simp add: demo_nas_def)
  moreover have "list_all fits (Split demo_playlist (CHR 0x0A))" by (simp add: demo_playlist_def fits_def)
  moreover have "ParseM3UData demo_playlist =
     [\<lparr>miGroup = ''News'', miTitle = ''One'', miURL = ''http://x/1''\<rparr>,
      \<lparr>miGroup = ''Ungrouped'', miTitle = ''Unknown'', miURL = ''http://x/2''\<rparr>]" by code_simp
  ultimately show ?thesis using download_agrees_with_ParseM3UData [of demo_nas "''http://x''" demo_playlist] by simp
qed

section \<open>Where playlists are written\<close>

lemma clean_comps_continue: "clean_comps True acc (as @ bs) = clean_comps True (rev (clean_comps True acc as)) bs"
  by (induction as arbitrary: acc) (auto split: list.splits)

lemma path_comps_Join_rooted:
  assumes "IsAbs a"
  shows "path_comps (path_Join a b) = clean_comps True (rev (path_comps a)) (Split b slash)"
proof -
  have "a \<noteq> []" and abs: "IsAbs (a @ slash # b)" using assms by (auto simp: IsAbs_def HasPrefix_iff)
  then have "path_comps (path_Join a b) = path_comps (a @ slash # b)" by (simp add: path_Join_def path_comps_Clean)
  also have "\<dots> = clean_comps True [] (Split a slash @ Split b slash)" using abs by (simp add: path_comps_def Split_append)
  finally show ?thesis using assms by (simp add: clean_comps_continue path_comps_def)
qed

lemma sanitized: "slash \<notin> set (sanitizePath s)"
  by (auto simp: sanitizePath_def ReplaceBytes_def split: option.splits if_splits)

text \<open>
  The directory of a group is below the download directory, or is that directory (for an empty group
  name or a dot), or its parent (for two dots).
\<close>

definition group_dirs :: "string \<Rightarrow> string list set" where
  "group_dirs d = {path_comps d, butlast (path_comps d)} \<union> {path_comps d @ [g] |g. plain_comp g}"

lemma group_dir:
  assumes "IsAbs d"
  shows "path_comps (path_Join d (sanitizePath g)) \<in> group_dirs d"
proof -
  let ?g = "sanitizePath g"
  have step: "path_comps (path_Join d ?g) = clean_comps True (rev (path_comps d)) [?g]"
    using path_comps_Join_rooted [OF assms, of ?g] Split_single [OF sanitized] by simp
  consider "?g = [] \<or> ?g = ''.''" | "?g = ''..''" | "plain_comp ?g"
    using sanitized [of g] by (auto simp: plain_comp_def)
  then show ?thesis
  proof cases
    case 1
    then show ?thesis using step by (auto simp: group_dirs_def)
  next
    case 2
    have "butlast (path_comps d) = clean_comps True (rev (path_comps d)) [''..'']"
    proof (cases "path_comps d" rule: rev_cases)
      case (snoc xs x)
      then have "x \<noteq> ''..''" using path_comps_plain [OF assms, of x] by (auto simp: plain_comp_def)
      then show ?thesis using snoc by simp
    qed simp
    then show ?thesis using step 2 by (simp add: group_dirs_def)
  next
    case 3
    then show ?thesis using step by (auto simp: group_dirs_def plain_comp_def)
  qed
qed

lemma strm_plain: "slash \<notin> set t \<Longrightarrow> plain_comp (t @ ''.strm'')"
  by (auto simp: plain_comp_def append_eq_Cons_conv)

lemma strm_comps:
  assumes "IsAbs d"
  shows "\<exists>dir \<in> group_dirs d. \<exists>t. plain_comp (t @ ''.strm'') \<and> path_comps (strm_path d item) = dir @ [t @ ''.strm'']"
proof -
  let ?dir = "path_Join d (sanitizePath (miGroup item))" and ?t = "sanitizePath (miTitle item)"
  have p: "plain_comp (?t @ ''.strm'')" by (rule strm_plain [OF sanitized])
  then have ns: "slash \<notin> set (?t @ ''.strm'')" by (simp add: plain_comp_def)
  have "path_comps (path_Join ?dir (?t @ ''.strm'')) = path_comps ?dir @ [?t @ ''.strm'']"
    unfolding path_comps_Join_rooted [OF IsAbs_path_Join [OF assms]] Split_single [OF ns]
    using p by (simp add: plain_comp_def)
  then show ?thesis using group_dir [OF assms, of "miGroup item"] p unfolding strm_path_def by blast
qed

definition strm_call :: "string list \<Rightarrow> syscall \<Rightarrow> bool" where
  "strm_call ds c \<longleftrightarrow> (case c of
       COsWriteFile p x m \<Rightarrow> list_ex (\<lambda>d. allowed_download d \<and> (\<exists>dir \<in> group_dirs d. \<exists>t. plain_comp (t @ ''.strm'') \<and> path_comps p = dir @ [t @ ''.strm''])) ds
     | COsMkdirAll p m \<Rightarrow> list_ex (\<lambda>d. allowed_download d \<and> path_comps p \<in> group_dirs d) ds
     | _ \<Rightarrow> False)"

lemma allowed_abs: "allowed_download d \<Longrightarrow> IsAbs d"
  by (auto simp: allowed_download_def IsAbs_def HasPrefix_iff)

definition sync_ok :: "string list \<Rightarrow> world \<Rightarrow> sync_state \<Rightarrow> bool" where
  "sync_ok ds w0 st = (case st of (i, e, w) \<Rightarrow>
     wStore w = wStore w0 \<and> (\<exists>cs. wTrace w = wTrace w0 @ cs \<and> list_all (strm_call ds) cs))"

lemma sync_ok_call:
  "sync_ok ds w0 (i, e, w) \<Longrightarrow> strm_call ds c \<Longrightarrow> sync_ok ds w0 (i', e', w\<lparr>wTrace := wTrace w @ [c]\<rparr>)"
  by (auto simp: sync_ok_def)

lemma sync_ok_counts: "sync_ok ds w0 (i, e, w) \<Longrightarrow> sync_ok ds w0 (i', e', w)"
  by (simp add: sync_ok_def)

lemma sync_item_ok:
  assumes "sync_ok ds w0 st" "d \<in> set ds" "allowed_download d"
  shows "sync_ok ds w0 (sync_item env d st item)"
proof -
  obtain i e w where st: "st = (i, e, w)" by (cases st)
  have mk: "strm_call ds (COsMkdirAll (path_Join d (sanitizePath (miGroup item))) m)" for m
    using assms(2,3) group_dir [OF allowed_abs] by (auto simp: strm_call_def list_ex_iff)
  have wr: "strm_call ds (COsWriteFile (strm_path d item) x m)" for x m
    using assms(2,3) strm_comps [OF allowed_abs] by (auto simp: strm_call_def list_ex_iff)
  have 1: "sync_ok ds w0 (i', e', w\<lparr>wTrace := wTrace w @ [COsMkdirAll (path_Join d (sanitizePath (miGroup item))) 493]\<rparr>)" for i' e'
    using assms(1) mk unfolding st by (rule sync_ok_call)
  show ?thesis
    using 1 sync_ok_call [OF 1 wr] unfolding st sync_item_def
    by (auto simp: sys_def split: sum.splits)
qed

lemma sync_items_ok:
  "sync_ok ds w0 st \<Longrightarrow> d \<in> set ds \<Longrightarrow> allowed_download d \<Longrightarrow> sync_ok ds w0 (foldl (sync_item env d) st items)"
  by (induction items arbitrary: st) (simp_all add: sync_item_ok)

lemma sync_source_ok:
  assumes "sync_ok ds w0 st" "m3uDownloadPath source \<in> set ds"
  shows "sync_ok ds w0 (sync_source env st source)"
proof -
  obtain i e w where st: "st = (i, e, w)" by (cases st)
  let ?d = "m3uDownloadPath source"
  show ?thesis
  proof (cases "allowed_download ?d")
    case True
    have "strm_call ds (COsMkdirAll ?d 493)" using True assms(2) by (auto simp: strm_call_def list_ex_iff group_dirs_def)
    then have 1: "sync_ok ds w0 (i', e', w\<lparr>wTrace := wTrace w @ [COsMkdirAll ?d 493]\<rparr>)" for i' e'
      using assms(1) unfolding st by (rule sync_ok_call [rotated])
    show ?thesis
      using True 1 assms(1) sync_ok_counts [of ds w0 i e w] sync_items_ok [OF 1 assms(2) True]
      unfolding st sync_source_def by (auto simp: sys_def split: sum.splits)
  next
    case False
    then show ?thesis using assms(1) sync_ok_counts unfolding st sync_source_def by simp
  qed
qed

text \<open>
  Synchronising playlists writes only \<open>.strm\<close> files, whatever groups and titles the downloaded
  playlists contain: each lies in the download directory of a source below \<open>/srv\<close> or \<open>/mnt\<close>, in a direct
  subdirectory of it or, for a group named by two dots, in its parent directory. Nothing else is
  written and the configuration is unchanged.
\<close>

theorem sync_writes_strm_files:
  "\<exists>cs. wTrace (snd (SyncM3U env w)) = wTrace w @ cs \<and>
     list_all (strm_call (map m3uDownloadPath (nasM3USources (cfgNAS (wcfg w))))) cs \<and>
     wStore (snd (SyncM3U env w)) = wStore w"
proof -
  let ?src = "nasM3USources (cfgNAS (wcfg w))"
  have "sync_ok (map m3uDownloadPath ?src) w (foldl (sync_source env) (0, 0, w) ss)" if "set ss \<subseteq> set ?src" for ss
    using that
  proof (induction ss rule: rev_induct)
    case Nil
    then show ?case by (simp add: sync_ok_def)
  next
    case (snoc s ss)
    then show ?case by (simp add: sync_source_ok)
  qed
  from this [of ?src] show ?thesis by (auto simp: SyncM3U_def sync_ok_def split: prod.splits)
qed

end
