(* ===== verification/Storage.thy ===== *)
theory Storage
  imports Files GoPath
begin

text \<open>
  The storage service (\<^verbatim>\<open>internal/services/storage.go\<close>): reading the reports of mdadm, smartctl, df and
  lsblk, building an array and mounting a disk, and the entry in \<open>/etc/fstab\<close>.
\<close>

section \<open>Reports\<close>

text \<open>\<open>fmt.Sscanf(s, "%d", &v)\<close>: the value read, or none, in which case the target keeps its value.\<close>

definition Sscanf_d :: "string \<Rightarrow> goint option" where
  "Sscanf_d s0 =
     (let s = dropWhile is_space s0;
          neg = (s \<noteq> [] \<and> hd s = CHR ''-'');
          r = (if s \<noteq> [] \<and> (hd s = CHR ''-'' \<or> hd s = CHR ''+'') then tl s else s);
          d = takeWhile is_digit r; v = (if neg then - int (digits_val d) else int (digits_val d))
      in if d \<noteq> [] \<and> in_int64 v then Some v else None)"

definition scan_into :: "string \<Rightarrow> goint \<Rightarrow> goint" where
  "scan_into s old = (case Sscanf_d s of Some v \<Rightarrow> v | None \<Rightarrow> old)"

record DiskMember =
  dmDevice :: string
  dmState :: string

record RAIDStatus =
  rsDevice :: string
  rsLevel :: string
  rsState :: string
  rsActiveDisks :: goint
  rsTotalDisks :: goint
  rsMembers :: "DiskMember list"

definition raid_line :: "RAIDStatus \<Rightarrow> string \<Rightarrow> RAIDStatus" where
  "raid_line st0 line0 =
     (let line = TrimSpace line0;
          st1 = (if HasPrefix line ''Raid Level :'' then st0\<lparr>rsLevel := TrimSpace (TrimPrefix line ''Raid Level :'')\<rparr> else st0);
          st2 = (if HasPrefix line ''State :'' then st1\<lparr>rsState := TrimSpace (TrimPrefix line ''State :'')\<rparr> else st1);
          st3 = (if HasPrefix line ''Active Devices :''
                 then st2\<lparr>rsActiveDisks := scan_into (TrimPrefix line ''Active Devices :'') (rsActiveDisks st2)\<rparr> else st2);
          st4 = (if HasPrefix line ''Total Devices :''
                 then st3\<lparr>rsTotalDisks := scan_into (TrimPrefix line ''Total Devices :'') (rsTotalDisks st3)\<rparr> else st3)
      in if Contains line ''/dev/sd'' \<or> Contains line ''/dev/nvme''
         then (let fs = Fields line in
               if length fs \<ge> 7 then st4\<lparr>rsMembers := rsMembers st4 @ [\<lparr>dmDevice = last fs, dmState = fs ! 4\<rparr>]\<rparr> else st4)
         else st4)"

definition raid_device :: "Config \<Rightarrow> string" where
  "raid_device c = (if raidDevice (stoRAID (cfgStorage c)) = [] then ''/dev/md0'' else raidDevice (stoRAID (cfgStorage c)))"

definition GetRAIDStatus :: "sysenv \<Rightarrow> RAIDStatus action" where
  "GetRAIDStatus env w =
     (let device = raid_device (wcfg w) in
      io_bind (io_wrap ''mdadm detail: '' (sys env (CRun ''mdadm'' [''--detail'', device]))) (\<lambda>out.
        io_return (foldl raid_line
          \<lparr>rsDevice = device, rsLevel = [], rsState = [], rsActiveDisks = 0, rsTotalDisks = 0, rsMembers = []\<rparr>
          (Split out (CHR 0x0A)))) w)"

record SMARTInfo =
  smDevice :: string
  smModel :: string
  smTemperature :: goint
  smPowerOnHours :: goint
  smHealthOK :: bool
  smErrors :: goint

definition celsius_field :: "goint \<Rightarrow> string \<times> string \<Rightarrow> goint" where
  "celsius_field t p = (if snd p = ''Celsius'' then scan_into (fst p) t else t)"

definition tenth_field :: "string list \<Rightarrow> goint \<Rightarrow> goint" where
  "tenth_field fs old = (if length fs \<ge> 10 then scan_into (fs ! 9) old else old)"

definition temperature :: "string list \<Rightarrow> goint \<Rightarrow> goint" where
  "temperature fs old =
     (let t = foldl celsius_field old (zip fs (tl fs)) in if t = 0 then tenth_field fs t else t)"

definition after_colon :: "string \<Rightarrow> string" where
  "after_colon line = (case Index line '':'' of Some i \<Rightarrow> drop (i + 1) line | None \<Rightarrow> line)"

definition smart_line :: "SMARTInfo \<Rightarrow> string \<Rightarrow> SMARTInfo" where
  "smart_line st0 line0 =
     (let line = TrimSpace line0; fs = Fields line;
          st1 = (if HasPrefix line ''Device Model:'' \<or> HasPrefix line ''Model Number:''
                 then st0\<lparr>smModel := TrimSpace (after_colon line)\<rparr> else st0);
          st2 = (if Contains line ''Temperature_Celsius'' \<or> Contains line ''Temperature Sensor''
                 then st1\<lparr>smTemperature := temperature fs (smTemperature st1)\<rparr> else st1);
          st3 = (if Contains line ''Power_On_Hours'' then st2\<lparr>smPowerOnHours := tenth_field fs (smPowerOnHours st2)\<rparr> else st2);
          st4 = (if Contains line ''SMART overall-health'' \<and> Contains line ''FAILED'' then st3\<lparr>smHealthOK := False\<rparr> else st3)
      in if Contains line ''Reallocated_Sector'' then st4\<lparr>smErrors := tenth_field fs (smErrors st4)\<rparr> else st4)"

text \<open>A non-zero exit status is no error here; its output is then empty, as \<open>RunSimple\<close> returns it.\<close>

definition GetSMARTInfo :: "sysenv \<Rightarrow> string \<Rightarrow> SMARTInfo action" where
  "GetSMARTInfo env device w =
     (let read = (\<lambda>out. foldl smart_line
            \<lparr>smDevice = device, smModel = [], smTemperature = 0, smPowerOnHours = 0, smHealthOK = True, smErrors = 0\<rparr>
            (Split out (CHR 0x0A))) in
      case sys env (CRun ''smartctl'' [''-a'', device]) w of
        (Inl e, w1) \<Rightarrow> if Contains e ''exit status'' then (Inr (read []), w1) else (Inl (''smartctl: '' @ e), w1)
      | (Inr out, w1) \<Rightarrow> (Inr (read out), w1))"

record DiskUsage =
  duFilesystem :: string
  duSize :: string
  duUsed :: string
  duAvailable :: string
  duUsePercent :: string
  duMountPoint :: string

definition usage_line :: "string \<Rightarrow> DiskUsage list" where
  "usage_line line =
     (let fs = Fields line in
      if length fs < 6 \<or> \<not> HasPrefix (fs ! 0) ''/dev/'' then []
      else [\<lparr>duFilesystem = fs ! 0, duSize = fs ! 1, duUsed = fs ! 2, duAvailable = fs ! 3, duUsePercent = fs ! 4, duMountPoint = fs ! 5\<rparr>])"

definition GetDiskUsage :: "sysenv \<Rightarrow> DiskUsage list action" where
  "GetDiskUsage env =
     io_bind (io_wrap ''df: '' (sys env (CRun ''df'' [''-h'', ''--output=source,size,used,avail,pcent,target'']))) (\<lambda>out.
       io_return (concat (map usage_line (tl (Split out (CHR 0x0A))))))"

section \<open>Disks\<close>

record AvailableDisk =
  adDevice :: string
  adModel :: string
  adSize :: string
  adType :: string
  adInUse :: bool

definition disk_of :: "string list \<Rightarrow> string \<Rightarrow> AvailableDisk" where
  "disk_of fs rootDisk =
     \<lparr>adDevice = ''/dev/'' @ fs ! 0, adModel = fs ! 2, adSize = fs ! 1, adType = fs ! 3,
      adInUse = (length fs \<ge> 5 \<and> fs ! 4 \<noteq> [] \<or> Contains (TrimSpace rootDisk) (fs ! 0))\<rparr>"

definition disk_line :: "sysenv \<Rightarrow> AvailableDisk list \<times> world \<Rightarrow> string \<Rightarrow> AvailableDisk list \<times> world" where
  "disk_line env st line = (case st of (disks, w) \<Rightarrow>
     (let fs = Fields line in
      if length fs < 4 \<or> fs ! 3 \<noteq> ''disk'' then st
      else (case sys env (CRun ''findmnt'' [''-n'', ''-o'', ''SOURCE'', ''/'']) w of (r, w1) \<Rightarrow>
        (disks @ [disk_of fs (case r of Inr out \<Rightarrow> out | Inl _ \<Rightarrow> [])], w1))))"

definition discoverDisksFallback :: "sysenv \<Rightarrow> AvailableDisk list action" where
  "discoverDisksFallback env w =
     (case sys env (CRun ''lsblk'' [''-d'', ''-n'', ''-o'', ''NAME,SIZE,MODEL,TYPE,MOUNTPOINT'']) w of
        (Inl e, w1) \<Rightarrow> (Inl (''lsblk: '' @ e), w1)
      | (Inr out, w1) \<Rightarrow> (case foldl (disk_line env) ([], w1) (Split out (CHR 0x0A)) of (disks, w2) \<Rightarrow> (Inr disks, w2)))"

definition DiscoverDisks :: "sysenv \<Rightarrow> AvailableDisk list action" where
  "DiscoverDisks env =
     io_then (io_ignore (sys env (CRun ''lsblk'' [''-d'', ''-n'', ''-o'', ''NAME,SIZE,MODEL,TYPE,MOUNTPOINT'', ''--json''])))
       (discoverDisksFallback env)"

definition SetHDDStandby :: "sysenv \<Rightarrow> string \<Rightarrow> goint \<Rightarrow> string action" where
  "SetHDDStandby env device timeout = sys env (CRun ''hdparm'' [''-S'', Itoa timeout, device])"

definition fstab_entry :: "string \<Rightarrow> string \<Rightarrow> string \<Rightarrow> string" where
  "fstab_entry device mountPoint fsType = device @ '' '' @ mountPoint @ '' '' @ fsType @ '' defaults 0 2''"

definition trim_newlines :: "string \<Rightarrow> string" where
  "trim_newlines s = rev (dropWhile (\<lambda>c. c = CHR 0x0A) (rev s))"

definition fstab_with :: "string \<Rightarrow> string \<Rightarrow> string" where
  "fstab_with existing entry = trim_newlines existing @ nl @ entry @ nl"

definition appendFstabEntry :: "sysenv \<Rightarrow> string \<Rightarrow> string \<Rightarrow> string \<Rightarrow> unit action" where
  "appendFstabEntry env device mountPoint fsType w =
     (let entry = fstab_entry device mountPoint fsType in
      case sys env (CReadFile ''/etc/fstab'') w of (r, w1) \<Rightarrow>
        (let existing = (case r of Inr x \<Rightarrow> x | Inl _ \<Rightarrow> []) in
         if Contains existing entry then (Inr (), w1)
         else io_ignore (sys env (CWriteFile ''/etc/fstab'' (fstab_with existing entry) 420)) w1))"

definition run_step :: "sysenv \<Rightarrow> string \<Rightarrow> string \<Rightarrow> string list \<Rightarrow> string action" where
  "run_step env what cmd args = io_wrap (what @ '': '') (sys env (CRun cmd args))"

definition set_raid :: "string \<Rightarrow> goint \<Rightarrow> string list \<Rightarrow> Config \<Rightarrow> Config" where
  "set_raid dev level devices c =
     c\<lparr>cfgStorage := (cfgStorage c)\<lparr>stoRAID := (stoRAID (cfgStorage c))\<lparr>raidDevice := dev, raidLevel := level, raidMembers := devices\<rparr>\<rparr>\<rparr>"

definition create_args :: "string \<Rightarrow> goint \<Rightarrow> string list \<Rightarrow> string list" where
  "create_args md level devices =
     [''--create'', md, ''--level'', Itoa level, ''--raid-devices'', Itoa (int (length devices))] @ devices"

definition CreateRAID :: "sysenv \<Rightarrow> goint \<Rightarrow> string list \<Rightarrow> string \<Rightarrow> unit action" where
  "CreateRAID env level devices mountPoint w =
     (if length devices < 2 \<and> level \<noteq> 0 then (Inl (''RAID-'' @ Itoa level @ '' requires at least 2 devices''), w)
      else (let md = raid_device (wcfg w) in
        io_then (run_step env ''mdadm create'' ''mdadm'' (create_args md level devices))
        (io_then (run_step env ''mkfs'' ''mkfs.ext4'' [''-F'', md])
        (io_then (run_step env ''mkdir mount point'' ''mkdir'' [''-p'', mountPoint])
        (io_then (run_step env ''mount'' ''mount'' [md, mountPoint])
        (io_then (appendFstabEntry env md mountPoint ''ext4'')
        (io_then (io_ignore (sys env (CRun ''mdadm'' [''--detail'', ''--scan'', ''--verbose''])))
         (io_update (set_raid md level devices))))))) w))"

definition FormatAndMount :: "sysenv \<Rightarrow> string \<Rightarrow> string \<Rightarrow> unit action" where
  "FormatAndMount env device mountPoint =
     io_then (run_step env (''mkfs '' @ device) ''mkfs.ext4'' [''-F'', device])
     (io_then (run_step env ''mkdir mount point'' ''mkdir'' [''-p'', mountPoint])
     (io_then (run_step env (''mount '' @ device) ''mount'' [device, mountPoint])
      (appendFstabEntry env device mountPoint ''ext4'')))"

section \<open>The mount table\<close>

definition fstab_after :: "string \<Rightarrow> string \<Rightarrow> string" where
  "fstab_after x entry = (if Contains x entry then x else fstab_with x entry)"

lemma fstab_contains: "Contains (fstab_after x entry) entry"
  using Contains_mid [of "trim_newlines x @ nl" entry nl] by (simp add: fstab_after_def fstab_with_def)

lemma Split_snoc_piece: "c \<notin> set e \<Longrightarrow> Split (a @ c # e @ [c]) c = Split a c @ [e, []]"
proof -
  assume e: "c \<notin> set e"
  have tail: "Split (e @ [c]) c = [e, []]" using e by (induction e) auto
  show ?thesis
  proof (induction a)
    case Nil
    then show ?case using tail by simp
  next
    case (Cons x a)
    obtain q qs where "Split a c = q # qs" by (meson Split_not_Nil neq_Nil_conv)
    with Cons show ?case by simp
  qed
qed

text \<open>
  The mount table gets an entry at most once and loses none: the file written consists of the old
  lines (without blank lines at the end) and the entry on a line of its own, the entry is found in it, so
  that a second attempt writes nothing.
\<close>

theorem fstab_entry_added_once:
  fixes w :: world
  assumes "seAnswer env (wTrace w) (CReadFile ''/etc/fstab'') = Inr x"
    "CHR 0x0A \<notin> set (fstab_entry device mountPoint fsType)"
  defines "entry \<equiv> fstab_entry device mountPoint fsType"
  defines "rd \<equiv> CReadFile ''/etc/fstab''"
  shows "wTrace (snd (appendFstabEntry env device mountPoint fsType w)) = wTrace w @
      (if Contains x entry then [rd] else [rd, CWriteFile ''/etc/fstab'' (fstab_after x entry) 420]) \<and>
    (Contains x entry \<or> Split (fstab_after x entry) (CHR 0x0A) = Split (trim_newlines x) (CHR 0x0A) @ [entry, []]) \<and>
    (\<forall>w2 :: world. seAnswer env (wTrace w2) rd = Inr (fstab_after x entry) \<longrightarrow>
       wTrace (snd (appendFstabEntry env device mountPoint fsType w2)) = wTrace w2 @ [rd])"
proof (intro conjI allI impI)
  show "wTrace (snd (appendFstabEntry env device mountPoint fsType w)) = wTrace w @
      (if Contains x entry then [rd] else [rd, CWriteFile ''/etc/fstab'' (fstab_after x entry) 420])"
    using assms(1) by (simp add: appendFstabEntry_def sys_def io_ignore_def Let_def entry_def rd_def fstab_after_def)
  show "Contains x entry \<or> Split (fstab_after x entry) (CHR 0x0A) = Split (trim_newlines x) (CHR 0x0A) @ [entry, []]"
    using assms(2) Split_snoc_piece [of "CHR 0x0A" entry "trim_newlines x"]
    by (simp add: fstab_after_def fstab_with_def nl_def entry_def)
  fix w2 :: world
  assume "seAnswer env (wTrace w2) rd = Inr (fstab_after x entry)"
  then show "wTrace (snd (appendFstabEntry env device mountPoint fsType w2)) = wTrace w2 @ [rd]"
    using fstab_contains [of x entry] by (simp add: appendFstabEntry_def sys_def Let_def entry_def rd_def)
qed

definition root_only :: sysenv where
  "root_only = calm_env\<lparr>seAnswer := (\<lambda>_ _. Inr (''/dev/sda1 / ext4 defaults 0 1'' @ nl))\<rparr>"

definition blank_world :: world where
  "blank_world = \<lparr>wStore = \<lparr>cfg = zero_Config, disk = Map.empty\<rparr>, wTrace = []\<rparr>"

theorem fstab_entry_added_once_witness:
  "wTrace (snd (appendFstabEntry root_only ''/dev/md0'' ''/srv'' ''ext4'' blank_world)) =
     [CReadFile ''/etc/fstab'',
      CWriteFile ''/etc/fstab'' (''/dev/sda1 / ext4 defaults 0 1'' @ nl @ ''/dev/md0 /srv ext4 defaults 0 2'' @ nl) 420]"
proof -
  let ?x = "''/dev/sda1 / ext4 defaults 0 1'' @ nl" and ?e = "fstab_entry ''/dev/md0'' ''/srv'' ''ext4''"
  have "seAnswer root_only (wTrace blank_world) (CReadFile ''/etc/fstab'') = Inr ?x" by (simp add: root_only_def)
  moreover have "CHR 0x0A \<notin> set ?e" by code_simp
  moreover have "\<not> Contains ?x ?e" "fstab_after ?x ?e = ''/dev/sda1 / ext4 defaults 0 1'' @ nl @ ''/dev/md0 /srv ext4 defaults 0 2'' @ nl"
    by code_simp+
  ultimately show ?thesis
    using fstab_entry_added_once [of root_only blank_world ?x "''/dev/md0''" "''/srv''" "''ext4''"]
    by (simp add: blank_world_def)
qed

text \<open>A table that cannot be read is replaced by the new entry alone.\<close>

lemma unreadable_fstab_overwritten:
  assumes "seAnswer env (wTrace w) (CReadFile ''/etc/fstab'') = Inl e" "fstab_entry device mountPoint fsType \<noteq> []"
  shows "wTrace (snd (appendFstabEntry env device mountPoint fsType w)) = wTrace w @
    [CReadFile ''/etc/fstab'', CWriteFile ''/etc/fstab'' (nl @ fstab_entry device mountPoint fsType @ nl) 420]"
  using assms by (simp add: appendFstabEntry_def sys_def io_ignore_def Let_def Contains_def fstab_with_def trim_newlines_def)

section \<open>Building an array\<close>

definition raid_calls :: "string \<Rightarrow> goint \<Rightarrow> string list \<Rightarrow> string \<Rightarrow> syscall list" where
  "raid_calls md level devices mountPoint =
     [CRun ''mdadm'' (create_args md level devices), CRun ''mkfs.ext4'' [''-F'', md],
      CRun ''mkdir'' [''-p'', mountPoint], CRun ''mount'' [md, mountPoint]]"

text \<open>The calls answered without error, up to and excluding the first failure.\<close>

fun succeeded :: "sysenv \<Rightarrow> syscall list \<Rightarrow> syscall list \<Rightarrow> nat" where
  "succeeded env tr [] = 0"
| "succeeded env tr (c # cs) = (if isl (seAnswer env tr c) then 0 else Suc (succeeded env (tr @ [c]) cs))"

text \<open>
  An array is built strictly step by step: of creating the array, formatting it, making the mount
  point and mounting it, exactly the steps up to the first failing one are run. If one fails the
  configuration and the mount table stay as they are; if none fails the configuration records the array.
\<close>

theorem CreateRAID_stops_at_failure:
  fixes w :: world and mountPoint :: string and env :: sysenv
  assumes "\<not> (length devices < 2 \<and> level \<noteq> 0)"
  defines "cs \<equiv> raid_calls (raid_device (wcfg w)) level devices mountPoint"
  defines "n \<equiv> succeeded env (wTrace w) cs"
  shows "if n < 4
    then (\<exists>e. CreateRAID env level devices mountPoint w = (Inl e, w\<lparr>wTrace := wTrace w @ take (Suc n) cs\<rparr>))
    else (\<exists>w'. CreateRAID env level devices mountPoint w = (Inr (), w') \<and> prefix (wTrace w @ cs) (wTrace w') \<and>
            wcfg w' = set_raid (raid_device (wcfg w)) level devices (wcfg w))"
proof -
  have fst_ok: "\<exists>tr. appendFstabEntry env d m f w1 = (Inr (), w1\<lparr>wTrace := wTrace w1 @ tr\<rparr>)" for d m f and w1 :: world
    by (auto simp: appendFstabEntry_def sys_def io_ignore_def Let_def)
  have run: "io_then (run_step env what c as) k w1 =
      (case seAnswer env (wTrace w1) (CRun c as) of
         Inl e \<Rightarrow> (Inl (what @ '': '' @ e), w1\<lparr>wTrace := wTrace w1 @ [CRun c as]\<rparr>)
       | Inr _ \<Rightarrow> k (w1\<lparr>wTrace := wTrace w1 @ [CRun c as]\<rparr>))" for what c as w1 and k :: "unit action"
    by (simp add: run_step_def io_simps split: sum.splits)
  have last: "\<exists>w'. io_then (appendFstabEntry env md mountPoint ''ext4'')
        (io_then (io_ignore (sys env (CRun ''mdadm'' [''--detail'', ''--scan'', ''--verbose''])))
         (io_update (set_raid md level devices))) w1 = (Inr (), w') \<and> prefix (wTrace w1) (wTrace w') \<and>
        wcfg w' = set_raid md level devices (wcfg w1)" for md and w1 :: world
    using fst_ok [of md mountPoint "''ext4''" w1] by (auto simp: io_simps)
  show ?thesis
    using assms(1) last [of "raid_device (wcfg w)" "w\<lparr>wTrace := wTrace w @ cs\<rparr>"]
    unfolding n_def CreateRAID_def Let_def run
    by (auto simp: cs_def raid_calls_def split: sum.splits)
qed

theorem CreateRAID_stops_at_failure_witness:
  "\<exists>w'. CreateRAID calm_env 1 [''/dev/sda'', ''/dev/sdb''] ''/srv'' blank_world = (Inr (), w') \<and>
     raidMembers (stoRAID (cfgStorage (wcfg w'))) = [''/dev/sda'', ''/dev/sdb'']"
proof -
  have "\<not> (length [''/dev/sda'', ''/dev/sdb''] < 2 \<and> (1 :: goint) \<noteq> 0)" by simp
  from CreateRAID_stops_at_failure [OF this, of calm_env blank_world "''/srv''"]
  show ?thesis by (auto simp: raid_calls_def set_raid_def)
qed

text \<open>
  smartctl reports a failing disk by its exit status; the report is then dropped and the disk counted as
  healthy.
\<close>

lemma failing_disk_reported_healthy:
  assumes "seAnswer env (wTrace w) (CRun ''smartctl'' [''-a'', device]) = Inl e" "Contains e ''exit status''"
  shows "\<exists>info w'. GetSMARTInfo env device w = (Inr info, w') \<and> smHealthOK info \<and> smModel info = []"
proof -
  have "TrimSpace [] = []" by (simp add: TrimSpace_def)
  then show ?thesis using assms by (simp add: GetSMARTInfo_def sys_def Let_def smart_line_def HasPrefix_def Contains_def)
qed

end
