(* ===== verification/AddrBytes.thy ===== *)
theory AddrBytes
  imports GoNet
begin
text \<open>
  The bytes an accepted address or block can hold: text that \<open>net.ParseIP\<close> or \<open>net.ParseCIDR\<close> takes is made of
  hexadecimal digits, dots, colons and, in a block, the slash.
\<close>

section \<open>The bytes of an address\<close>

definition address_byte :: "char \<Rightarrow> bool" where
  "address_byte c \<longleftrightarrow> hex_val c \<noteq> None \<or> c = CHR ''.'' \<or> c = CHR '':''"

lemma digit_hex: "is_digit c \<Longrightarrow> hex_val c \<noteq> None"
  by (auto simp: is_digit_def hex_val_def Let_def)

lemma Split_bytes: "c \<in> set s \<Longrightarrow> c \<noteq> d \<Longrightarrow> \<exists>p \<in> set (Split s d). c \<in> set p"
proof (induction s)
  case (Cons x s)
  obtain q qs where q: "Split s d = q # qs" by (meson Split_not_Nil neq_Nil_conv)
  then show ?case using Cons by auto
qed simp

lemma parseIPv4_bytes: "parseIPv4 s = Some ip \<Longrightarrow> c \<in> set s \<Longrightarrow> address_byte c"
proof -
  assume p: "parseIPv4 s = Some ip" and c: "c \<in> set s"
  then have "\<forall>x \<in> set (map parse_octet (Split s (CHR ''.''))). x \<noteq> None"
    by (auto simp: parseIPv4_def split: list.splits option.splits)
  then have "\<forall>q \<in> set (Split s (CHR ''.'')). list_all is_digit q"
    by (auto simp: parse_octet_def split: if_splits)
  then show ?thesis using Split_bytes [OF c, of "CHR ''.''"] digit_hex by (auto simp: address_byte_def list_all_iff)
qed

lemma parse_groups_step:
  assumes "parse_groups (Suc n) bs ell s = Some x"
  shows "(\<exists>v4. parseIPv4 s = Some v4) \<or>
    (\<exists>p rest. s = p @ rest \<and> list_all address_byte p \<and> (rest = [] \<or> (\<exists>bs' ell'. parse_groups n bs' ell' rest = Some x)))"
proof -
  obtain g where g: "takeWhile (\<lambda>c. hex_val c \<noteq> None) s = g" by blast
  obtain r where r: "drop (length g) s = r" by blast
  have s: "s = g @ r" using g r by (metis append_take_drop_id takeWhile_eq_take)
  have G: "list_all address_byte g" using g by (auto simp: list_all_iff address_byte_def dest: set_takeWhileD)
  note run = assms [unfolded parse_groups.simps(2) [of n bs ell s] g Let_def r]
  show ?thesis
  proof (cases "r \<noteq> [] \<and> hd r = CHR ''.''")
    case True
    then have "\<exists>v4. parseIPv4 s = Some v4" using run by (simp split: if_splits option.splits)
    then show ?thesis by (rule disjI1)
  next
    case dot: False
    show ?thesis
    proof (cases r)
      case Nil
      then show ?thesis using s G by (intro disjI2 exI [of _ g] exI [of _ "[]"]) simp
    next
      case (Cons a r1)
      note run1 = run [unfolded Cons list.case if_not_P [OF dot [unfolded Cons]]]
      have a: "a = CHR '':''" and r1: "r1 \<noteq> []" using run1 by (simp_all split: if_splits)
      show ?thesis
      proof (cases "hd r1 = CHR '':''")
        case True
        then have "r1 = CHR '':'' # tl r1" using r1 by (metis list.collapse)
        then have "s = (g @ [CHR '':'', CHR '':'']) @ tl r1" using s Cons a by (metis append_Cons append_Nil append_assoc)
        moreover have "tl r1 = [] \<or> (\<exists>bs' ell'. parse_groups n bs' ell' (tl r1) = Some x)"
          using run1 a r1 True by (auto split: if_splits)
        moreover have "list_all address_byte (g @ [CHR '':'', CHR '':''])" using G by (simp add: address_byte_def)
        ultimately show ?thesis by blast
      next
        case False
        then have "\<exists>bs' ell'. parse_groups n bs' ell' r1 = Some x" using run1 a r1 by (auto split: if_splits)
        moreover have "s = (g @ [CHR '':'']) @ r1" using s Cons a by simp
        moreover have "list_all address_byte (g @ [CHR '':''])" using G by (simp add: address_byte_def)
        ultimately show ?thesis by blast
      qed
    qed
  qed
qed

lemma parse_groups_bytes: "parse_groups n bs ell s = Some (bs', ell', []) \<Longrightarrow> list_all address_byte s"
proof (induction n arbitrary: bs ell s)
  case (Suc n)
  from parse_groups_step [OF Suc.prems] show ?case
  proof (elim disjE exE conjE)
    fix v4
    assume "parseIPv4 s = Some v4"
    then show ?thesis using parseIPv4_bytes by (auto simp: list_all_iff)
  qed (auto dest: Suc.IH)
qed simp

lemma ParseAddr_bytes: "ParseAddr s = Some ip \<Longrightarrow> list_all address_byte s"
proof -
  assume p: "ParseAddr s = Some ip"
  have groups: "Option.bind (parse_groups 8 [] e t) expand_groups = Some ip \<Longrightarrow> list_all address_byte t" for e t
    by (auto simp: bind_eq_Some_conv expand_groups_def split: if_splits intro!: parse_groups_bytes)
  have six: "list_all address_byte s" if v6: "parseIPv6 s = Some ip"
  proof (cases "HasPrefix s ''::''")
    case True
    then have "s = ''::'' @ drop 2 s" by (metis HasPrefix_def append_take_drop_id length_Cons list.size(3) numeral_2_eq_2)
    then obtain t where t: "s = ''::'' @ t" by blast
    have "t = [] \<or> Option.bind (parse_groups 8 [] (Some 0) t) expand_groups = Some ip"
      using v6 True t by (auto simp: parseIPv6_def split: if_splits)
    then show ?thesis using groups [of "Some 0" t] t by (auto simp: address_byte_def)
  next
    case False
    then show ?thesis using v6 groups [of None s] by (simp add: parseIPv6_def)
  qed
  then show ?thesis using p parseIPv4_bytes [of s ip]
    by (auto simp: ParseAddr_def list_all_iff split: option.splits if_splits)
qed

lemma ParseIP_bytes: "ParseIP s = Some ip \<Longrightarrow> list_all address_byte s"
  by (auto simp: ParseIP_def intro: ParseAddr_bytes)

lemma ParseCIDR_bytes: "ParseCIDR s = Some r \<Longrightarrow> list_all (\<lambda>c. address_byte c \<or> c = CHR ''/'') s"
proof -
  assume p: "ParseCIDR s = Some r"
  then have "CHR ''/'' \<in> set s" using Index_none [of "CHR ''/''" s] by (auto simp: ParseCIDR_def split: option.splits)
  then obtain a b where s: "s = a @ CHR ''/'' # b" and a: "CHR ''/'' \<notin> set a" by (meson split_list_first)
  have "list_all address_byte a" "list_all is_digit b"
    using p Index_first [OF a, of b] s by (auto simp: ParseCIDR_def Let_def dest: ParseAddr_bytes split: option.splits if_splits)
  then show ?thesis using s digit_hex by (auto simp: list_all_iff address_byte_def)
qed

end
