(* ===== verification/ConfigWords.thy ===== *)
theory ConfigWords
  imports AddrBytes NetUtil Effects
begin

text \<open>
  Configuration files as lists of directives, each a line of words: what a daemon reads back from a file whose words
  contain no blanks is what was written. Addresses, blocks and numbers are such words.
\<close>

section \<open>Lines of words\<close>

text \<open>A file of lines of words, as many daemons read it: blanks separate words, empty lines say nothing.\<close>

definition directives :: "string \<Rightarrow> string list list" where
  "directives text = filter (\<lambda>ws. ws \<noteq> []) (map Fields (Split text (CHR 0x0A)))"

definition word_ok :: "string \<Rightarrow> bool" where
  "word_ok s \<longleftrightarrow> s \<noteq> [] \<and> (\<forall>c \<in> set s. \<not> is_space c)"

definition line_file :: "string list list \<Rightarrow> string" where
  "line_file L = concat (map (\<lambda>ws. nl @ Join ws '' '') L) @ nl"

lemma set_Join_words: "c \<in> set (Join ws '' '') \<Longrightarrow> c = CHR '' '' \<or> (\<exists>w \<in> set ws. c \<in> set w)"
proof (induction ws)
  case (Cons w ws)
  then show ?case by (cases ws) auto
qed simp

lemma directives_line_file: "\<forall>ws \<in> set L. \<forall>w \<in> set ws. word_ok w \<Longrightarrow> directives (line_file L) = filter (\<lambda>ws. ws \<noteq> []) L"
proof -
  assume L: "\<forall>ws \<in> set L. \<forall>w \<in> set ws. word_ok w"
  have "Split (line_file L) (CHR 0x0A) = [] # map (\<lambda>ws. Join ws '' '') L @ [[]]"
    using L
  proof (induction L)
    case (Cons ws L)
    have "CHR 0x0A \<notin> set (Join ws '' '')"
      using Cons.prems set_Join_words [of "CHR 0x0A" ws] by (auto simp: word_ok_def is_space_def)
    moreover have "line_file (ws # L) = CHR 0x0A # Join ws '' '' @ line_file L"
      "\<exists>r. line_file L = CHR 0x0A # r" by (simp_all add: line_file_def nl_def, cases L, simp_all)
    ultimately show ?case using Cons by (auto simp: Split_append_sep)
  qed (simp add: line_file_def nl_def)
  moreover have "map (Fields \<circ> (\<lambda>ws. Join ws '' '')) L = L"
    using L by (intro map_idI) (simp add: Fields_Join word_ok_def)
  ultimately show ?thesis by (simp add: directives_def Fields_def del: map_map add: map_map [symmetric])
qed

section \<open>Values that are words\<close>

lemma address_no_space: "address_byte c \<or> c = CHR ''/'' \<Longrightarrow> \<not> is_space c"
  by (auto simp: address_byte_def is_space_def hex_val_def)

lemma ValidateIP_word: "ValidateIP s = None \<Longrightarrow> word_ok s"
proof -
  assume "ValidateIP s = None"
  then obtain ip where ip: "ParseIP s = Some ip" by (auto simp: ValidateIP_def split: if_splits)
  then have "s \<noteq> []" by (auto simp: ParseIP_def ParseAddr_def)
  then show ?thesis using ParseIP_bytes [OF ip] address_no_space by (auto simp: word_ok_def list_all_iff)
qed

lemma ValidateCIDR_word: "ValidateCIDR s = None \<Longrightarrow> word_ok s"
proof -
  assume "ValidateCIDR s = None"
  then obtain n where n: "ParseCIDR s = Some n" by (auto simp: ValidateCIDR_def split: if_splits)
  then have "s \<noteq> []" by (auto simp: ParseCIDR_def)
  then show ?thesis using ParseCIDR_bytes [OF n] address_no_space by (auto simp: word_ok_def list_all_iff)
qed

lemma Itoa_word_ok: "word_ok (Itoa n)"
proof -
  have "\<not> is_space c" if "is_digit c" for c using that by (auto simp: is_digit_def is_space_def)
  then show ?thesis using nat_digits_props by (auto simp: Itoa_def word_ok_def list_all_iff is_space_def)
qed

end
