(* ===== verification/NTP.thy ===== *)
theory NTP
  imports Handlers ConfigWords Storage
begin

text \<open>
  The time service (\<^verbatim>\<open>internal/services/ntp.go\<close>) and its pages (\<^verbatim>\<open>internal/web/handlers/ntp.go\<close>): the
  sources and networks of chrony, the checks on them, the reports of \<open>chronyc\<close>, and the configuration file that
  the template \<^verbatim>\<open>configs/sysconf/chrony.conf.tmpl\<close> makes of them. The file has one line per directive, so that
  what the forms accept decides what chrony is told.
\<close>

section \<open>Checks\<close>

definition ntpHostChars :: string where
  "ntpHostChars = ''abcdefghijklmnopqrstuvwxyz'' @ ''ABCDEFGHIJKLMNOPQRSTUVWXYZ'' @ ''0123456789'' @ ''.-:''"

definition hasOnlyNTPHostChars :: "string \<Rightarrow> bool" where
  "hasOnlyNTPHostChars s \<longleftrightarrow> list_all (\<lambda>c. c \<in> set ntpHostChars) s"

fun host_labels :: "string \<Rightarrow> string list \<Rightarrow> error option" where
  "host_labels host [] = None"
| "host_labels host (label # ls) =
     (if label = [] \<or> length label > 63 then Some (''NTP source '' @ Quote host @ '' has an invalid label'')
      else if hd label = CHR ''-'' \<or> last label = CHR ''-''
      then Some (''NTP source '' @ Quote host @ '' label cannot start or end with a hyphen'')
      else host_labels host ls)"

definition validateNTPHost :: "string \<Rightarrow> error option" where
  "validateNTPHost host =
     (if host = [] then Some ''empty source''
      else if \<not> hasOnlyNTPHostChars host
      then Some (''NTP source '' @ Quote host @ '' contains characters that could inject chrony directives'')
      else if ParseIP host \<noteq> None then None
      else if length host > 253 then Some (''NTP source '' @ Quote host @ '' exceeds 253 characters'')
      else host_labels host (Split host (CHR ''.'')))"

section \<open>Reports\<close>

record NTPSource =
  nsState :: string
  nsName :: string
  nsStratum :: goint
  nsPoll :: string
  nsOffset :: string

record NTPStatus =
  nstSynced :: bool
  nstStratum :: goint
  nstRefSource :: string
  nstOffset :: string
  nstSources :: "NTPSource list"

text \<open>\<open>Sscanf(line, "Stratum : %d", ...)\<close>: a blank of the format stands for at least one blank.\<close>

definition skip_blanks :: "string \<Rightarrow> string option" where
  "skip_blanks s = (if s = [] \<or> is_space (hd s) then Some (dropWhile is_space s) else None)"

definition scan_stratum :: "string \<Rightarrow> goint \<Rightarrow> goint" where
  "scan_stratum line old =
     (case Option.bind (skip_blanks (drop 7 line))
             (\<lambda>r. if r \<noteq> [] \<and> hd r = CHR '':'' then skip_blanks (tl r) else None) of
        Some r \<Rightarrow> scan_into r old
      | None \<Rightarrow> old)"

definition ref_source :: "string \<Rightarrow> string \<Rightarrow> string" where
  "ref_source line old =
     (case Index line ''('' of
        None \<Rightarrow> old
      | Some i \<Rightarrow> (case Index (drop i line) '')'' of None \<Rightarrow> old | Some e \<Rightarrow> take (e - 1) (drop (i + 1) line)))"

definition tracking_line :: "NTPStatus \<Rightarrow> string \<Rightarrow> NTPStatus" where
  "tracking_line st0 line =
     (let st1 = (if HasPrefix line ''Reference ID'' then st0\<lparr>nstRefSource := ref_source line (nstRefSource st0)\<rparr> else st0);
          st2 = (if HasPrefix line ''Stratum'' then st1\<lparr>nstStratum := scan_stratum line (nstStratum st1)\<rparr> else st1);
          parts = Fields line;
          st3 = (if HasPrefix line ''System time'' \<and> length parts \<ge> 5
                 then st2\<lparr>nstOffset := parts ! 3 @ '' '' @ parts ! 4\<rparr> else st2)
      in if HasPrefix line ''Leap status'' \<and> Contains line ''Normal'' then st3\<lparr>nstSynced := True\<rparr> else st3)"

text \<open>\<open>string(b)\<close> of one byte: its UTF-8 encoding as a character.\<close>

definition byte_string :: "char \<Rightarrow> string" where
  "byte_string c = (let n = (of_char c :: nat) in if n < 128 then [c] else [char_of (192 + n div 64), char_of (128 + n mod 64)])"

definition source_line :: "string \<Rightarrow> NTPSource option" where
  "source_line line =
     (if length line < 3 \<or> hd line = CHR ''='' \<or> hd line = CHR ''2'' then None
      else let fs = Fields line in
        if length fs < 8 then None
        else Some \<lparr>nsState = byte_string (hd line), nsName = fs ! 1, nsStratum = scan_into (fs ! 2) 0, nsPoll = fs ! 3,
                   nsOffset = fs ! 7\<rparr>)"

definition getSources :: "sysenv \<Rightarrow> NTPSource list action" where
  "getSources env = io_bind (sys env (CRun ''chronyc'' [''sources'']))
     (\<lambda>out. io_return (List.map_filter source_line (Split out (CHR 0x0A))))"

text \<open>A failing \<open>chronyc\<close> gives an empty status, never an error.\<close>

definition ntp_GetStatus :: "sysenv \<Rightarrow> world \<Rightarrow> NTPStatus \<times> world" where
  "ntp_GetStatus env w =
     (let empty_status = \<lparr>nstSynced = False, nstStratum = 0, nstRefSource = [], nstOffset = [], nstSources = []\<rparr> in
      case sys env (CRun ''chronyc'' [''tracking'']) w of
        (Inl e, w1) \<Rightarrow> (empty_status, w1)
      | (Inr out, w1) \<Rightarrow>
          (case getSources env w1 of
             (r, w2) \<Rightarrow> ((foldl tracking_line empty_status (Split out (CHR 0x0A)))
                          \<lparr>nstSources := (case r of Inl e \<Rightarrow> [] | Inr ss \<Rightarrow> ss)\<rparr>, w2)))"

section \<open>The configuration file\<close>

definition chrony_text :: "NTPConfig \<Rightarrow> string" where
  "chrony_text c =
     concat (map (\<lambda>s. nl @ ''server '' @ s @ '' iburst'') (ntpcSources (ntpClient c))) @
     (if ntpcFallback (ntpClient c) = [] then [] else nl @ ''server '' @ ntpcFallback (ntpClient c) @ '' iburst'') @
     nl @ nl @ ''driftfile /var/lib/chrony/drift'' @ nl @ ''makestep 1.0 3'' @
     (if ntpRTCSync c then nl @ ''rtcsync'' else []) @
     nl @ ''logdir /var/log/chrony'' @
     (if ntpsEnabled (ntpServer c)
      then (if ntpsListenAddress (ntpServer c) = [] then [] else nl @ ''bindaddress '' @ ntpsListenAddress (ntpServer c)) @
           (if ntpsListenPort (ntpServer c) = 0 then [] else nl @ ''port '' @ Itoa (ntpsListenPort (ntpServer c))) @
           concat (map (\<lambda>s. nl @ ''allow '' @ s) (ntpAllowSubnets c)) @
           nl @ ''local stratum 10''
      else []) @ nl"

text \<open>Reading the template file is outside; its failure is a parameter.\<close>

record ntpenv =
  nteSys :: sysenv
  nteParse :: "error option"

definition ntp_RenderConfig :: "ntpenv \<Rightarrow> Config \<Rightarrow> error + string" where
  "ntp_RenderConfig env c = (case nteParse env of
       Some e \<Rightarrow> Inl (''parse chrony template: '' @ e) | None \<Rightarrow> Inr (chrony_text (cfgNTP c)))"

definition ntp_RenderToDisk :: "ntpenv \<Rightarrow> unit action" where
  "ntp_RenderToDisk env w = io_bind (io_lift (ntp_RenderConfig env (wcfg w))) (\<lambda>rendered.
     io_then (io_wrap ''write chrony config: '' (sys (nteSys env) (CWriteFile ''/etc/chrony/chrony.conf'' rendered 420)))
       (io_return ())) w"

definition ntp_Reload :: "ntpenv \<Rightarrow> unit action" where
  "ntp_Reload env = io_then (sys (nteSys env) (CRun ''systemctl'' [''reload'', ''chronyd''])) (io_return ())"

definition ntp_ApplyConfig :: "ntpenv \<Rightarrow> unit action" where
  "ntp_ApplyConfig env = io_then (ntp_RenderToDisk env) (ntp_Reload env)"

definition ForceSync :: "ntpenv \<Rightarrow> unit action" where
  "ForceSync env = io_then (sys (nteSys env) (CRun ''chronyc'' [''makestep''])) (io_return ())"

section \<open>Changes\<close>

definition map_ntp :: "(NTPConfig \<Rightarrow> NTPConfig) \<Rightarrow> Config \<Rightarrow> Config" where
  "map_ntp f c = c\<lparr>cfgNTP := f (cfgNTP c)\<rparr>"

definition map_sources :: "(string list \<Rightarrow> string list) \<Rightarrow> Config \<Rightarrow> Config" where
  "map_sources f = map_ntp (\<lambda>n. n\<lparr>ntpClient := (ntpClient n)\<lparr>ntpcSources := f (ntpcSources (ntpClient n))\<rparr>\<rparr>)"

definition map_subnets :: "(string list \<Rightarrow> string list) \<Rightarrow> Config \<Rightarrow> Config" where
  "map_subnets f = map_ntp (\<lambda>n. n\<lparr>ntpAllowSubnets := f (ntpAllowSubnets n)\<rparr>)"

abbreviation sources :: "Config \<Rightarrow> string list" where
  "sources c \<equiv> ntpcSources (ntpClient (cfgNTP c))"

abbreviation subnets :: "Config \<Rightarrow> string list" where
  "subnets c \<equiv> ntpAllowSubnets (cfgNTP c)"

definition MaxNTPSources :: nat where "MaxNTPSources = 20"
definition MaxNTPAllowSubnets :: nat where "MaxNTPAllowSubnets = 50"

definition source_guard :: "string \<Rightarrow> Config \<Rightarrow> error option" where
  "source_guard host0 c =
     (let host = TrimSpace host0 in
      case validateNTPHost host of
        Some e \<Rightarrow> Some e
      | None \<Rightarrow>
          if length (sources c) \<ge> MaxNTPSources
          then Some (''maximum '' @ Itoa (int MaxNTPSources) @ '' NTP sources reached'')
          else if list_ex (\<lambda>src. EqualFold src host) (sources c) then Some (''source '' @ host @ '' already exists'')
          else None)"

definition AddSource :: "osenv \<Rightarrow> string \<Rightarrow> store \<Rightarrow> error option \<times> store" where
  "AddSource env host st = (case source_guard host (cfg st) of
       Some e \<Rightarrow> (Some e, st)
     | None \<Rightarrow> SaveToFile env (st\<lparr>cfg := map_sources (\<lambda>ss. ss @ [TrimSpace host]) (cfg st)\<rparr>))"

definition RemoveSource :: "osenv \<Rightarrow> goint \<Rightarrow> store \<Rightarrow> error option \<times> store" where
  "RemoveSource env i st =
     (if bad_index i (sources (cfg st)) then (Some (''invalid source index: '' @ Itoa i), st)
      else SaveToFile env (st\<lparr>cfg := map_sources (remove_nth (nat i)) (cfg st)\<rparr>))"

definition subnet_guard :: "string \<Rightarrow> Config \<Rightarrow> error option" where
  "subnet_guard cidr0 c =
     (let cidr = TrimSpace cidr0 in
      if cidr = [] then Some ''empty subnet''
      else if length (subnets c) \<ge> MaxNTPAllowSubnets
      then Some (''maximum '' @ Itoa (int MaxNTPAllowSubnets) @ '' NTP allow subnets reached'')
      else if cidr \<in> set (subnets c) then Some (''subnet '' @ cidr @ '' already in allow list'')
      else None)"

definition AddAllowSubnet :: "osenv \<Rightarrow> string \<Rightarrow> store \<Rightarrow> error option \<times> store" where
  "AddAllowSubnet env cidr st = (case subnet_guard cidr (cfg st) of
       Some e \<Rightarrow> (Some e, st)
     | None \<Rightarrow> SaveToFile env (st\<lparr>cfg := map_subnets (\<lambda>ss. ss @ [TrimSpace cidr]) (cfg st)\<rparr>))"

definition RemoveAllowSubnet :: "osenv \<Rightarrow> goint \<Rightarrow> store \<Rightarrow> error option \<times> store" where
  "RemoveAllowSubnet env i st =
     (if bad_index i (subnets (cfg st)) then (Some (''invalid subnet index: '' @ Itoa i), st)
      else SaveToFile env (st\<lparr>cfg := map_subnets (remove_nth (nat i)) (cfg st)\<rparr>))"

record ntpSettings =
  nfFallback :: string
  nfListenAddress :: string
  nfListenPort :: goint
  nfServerEnabled :: bool
  nfRTCSync :: bool

definition settings_guard :: "ntpSettings \<Rightarrow> error option" where
  "settings_guard f =
     (let fallback = TrimSpace (nfFallback f); addr = TrimSpace (nfListenAddress f) in
      case (if fallback = [] then None else validateNTPHost fallback) of
        Some e \<Rightarrow> Some e
      | None \<Rightarrow> map_option (\<lambda>e. ''NTP listen address: '' @ e) (if addr = [] then None else ValidateIP addr))"

definition set_settings :: "ntpSettings \<Rightarrow> NTPConfig \<Rightarrow> NTPConfig" where
  "set_settings f n = n\<lparr>ntpClient := (ntpClient n)\<lparr>ntpcFallback := TrimSpace (nfFallback f)\<rparr>,
     ntpServer := \<lparr>ntpsEnabled = nfServerEnabled f, ntpsListenAddress = TrimSpace (nfListenAddress f), ntpsListenPort = nfListenPort f\<rparr>,
     ntpRTCSync := nfRTCSync f\<rparr>"

definition ntp_SaveSettings :: "osenv \<Rightarrow> ntpSettings \<Rightarrow> store \<Rightarrow> error option \<times> store" where
  "ntp_SaveSettings env f st = (case settings_guard f of
       Some e \<Rightarrow> (Some e, st)
     | None \<Rightarrow> SaveToFile env (st\<lparr>cfg := map_ntp (set_settings f) (cfg st)\<rparr>))"

lemma cfgNTP_map [simp]: "cfgNTP (map_ntp f c) = f (cfgNTP c)"
  and cfgFilePath_map_ntp [simp]: "cfgFilePath (map_ntp f c) = cfgFilePath c"
  by (simp_all add: map_ntp_def)

interpretation add_source: config_mutation AddSource source_guard "\<lambda>host. map_sources (\<lambda>ss. ss @ [TrimSpace host])"
  by unfold_locales (simp_all add: AddSource_def map_sources_def)

interpretation remove_source: config_mutation RemoveSource
  "\<lambda>i c. if bad_index i (sources c) then Some (''invalid source index: '' @ Itoa i) else None" "\<lambda>i. map_sources (remove_nth (nat i))"
  by unfold_locales (simp_all add: RemoveSource_def map_sources_def)

interpretation add_subnet: config_mutation AddAllowSubnet subnet_guard "\<lambda>cidr. map_subnets (\<lambda>ss. ss @ [TrimSpace cidr])"
  by unfold_locales (simp_all add: AddAllowSubnet_def map_subnets_def)

interpretation remove_subnet: config_mutation RemoveAllowSubnet
  "\<lambda>i c. if bad_index i (subnets c) then Some (''invalid subnet index: '' @ Itoa i) else None" "\<lambda>i. map_subnets (remove_nth (nat i))"
  by unfold_locales (simp_all add: RemoveAllowSubnet_def map_subnets_def)

interpretation save_settings: config_mutation ntp_SaveSettings "\<lambda>f _. settings_guard f" "\<lambda>f. map_ntp (set_settings f)"
  by unfold_locales (simp_all add: ntp_SaveSettings_def)

section \<open>Pages and forms\<close>

record ntpPage =
  npStatus :: NTPStatus
  npConfig :: NTPConfig

definition ntp_HandlePage :: "ntpenv \<Rightarrow> ntpPage pageenv \<Rightarrow> world hfun" where
  "ntp_HandlePage env pg r = observe (ntp_GetStatus (nteSys env)) (\<lambda>st. with_cfg (\<lambda>c.
     show_page pg ''ntp'' r \<lparr>npStatus = st, npConfig = cfgNTP c\<rparr>))"

definition HandleForceSync :: "ntpenv \<Rightarrow> world hfun" where
  "HandleForceSync env r = do_action (ForceSync env) (err_text 500) (\<lambda>_. finish ''/ntp'' r)"

text \<open>The end of every change: apply the configuration, log a failure, answer.\<close>

definition ntp_applied :: "ntpenv \<Rightarrow> request \<Rightarrow> response \<times> world \<Rightarrow> response \<times> world" where
  "ntp_applied env r = best_effort (ntp_ApplyConfig env) (finish ''/ntp'' r)"

definition HandleAddSource :: "ntpenv \<Rightarrow> world hfun" where
  "HandleAddSource env r = needs_form r
     (let host = TrimSpace (rqForm r ''host'') in
      if host = [] then refuse ''host required'' 400
      else do_action (on_store (AddSource (seOS (nteSys env)) host)) (err_text 400) (\<lambda>_. ntp_applied env r))"

definition HandleRemoveSource :: "ntpenv \<Rightarrow> world hfun" where
  "HandleRemoveSource env r = (case Atoi (PathValue r ''index'') of
       None \<Rightarrow> refuse ''invalid index'' 400
     | Some i \<Rightarrow> do_action (on_store (RemoveSource (seOS (nteSys env)) i)) (err_text 400) (\<lambda>_. ntp_applied env r))"

definition HandleAddAllowSubnet :: "ntpenv \<Rightarrow> world hfun" where
  "HandleAddAllowSubnet env r = needs_form r
     (let cidr = TrimSpace (rqForm r ''cidr'') in
      if ValidateCIDR cidr \<noteq> None then refuse ''invalid CIDR'' 400
      else do_action (on_store (AddAllowSubnet (seOS (nteSys env)) cidr)) (err_text 400) (\<lambda>_. ntp_applied env r))"

definition HandleRemoveAllowSubnet :: "ntpenv \<Rightarrow> world hfun" where
  "HandleRemoveAllowSubnet env r = (case Atoi (PathValue r ''index'') of
       None \<Rightarrow> refuse ''invalid index'' 400
     | Some i \<Rightarrow> do_action (on_store (RemoveAllowSubnet (seOS (nteSys env)) i)) (err_text 400) (\<lambda>_. ntp_applied env r))"

definition ntp_form :: "request \<Rightarrow> ntpSettings" where
  "ntp_form r = \<lparr>nfFallback = rqForm r ''fallback'', nfListenAddress = rqForm r ''listen_address'',
     nfListenPort = ParseInt_value (rqForm r ''listen_port''),
     nfServerEnabled = (rqForm r ''server_enabled'' = ''on''), nfRTCSync = (rqForm r ''rtc_sync'' = ''on'')\<rparr>"

definition ntp_HandleSaveSettings :: "ntpenv \<Rightarrow> world hfun" where
  "ntp_HandleSaveSettings env r = needs_form r
     (do_action (on_store (ntp_SaveSettings (seOS (nteSys env)) (ntp_form r))) (err_text 500) (\<lambda>_. ntp_applied env r))"

definition ntp_handlers :: "ntpenv \<Rightarrow> ntpPage pageenv \<Rightarrow> world hfun list" where
  "ntp_handlers env pg =
     [ntp_HandlePage env pg, HandleForceSync env, HandleAddSource env, HandleRemoveSource env, HandleAddAllowSubnet env,
      HandleRemoveAllowSubnet env, ntp_HandleSaveSettings env]"

section \<open>What chrony is told\<close>

definition chrony_lines :: "NTPConfig \<Rightarrow> string list list" where
  "chrony_lines c =
     map (\<lambda>s. [''server'', s, ''iburst'']) (ntpcSources (ntpClient c)) @
     (if ntpcFallback (ntpClient c) = [] then [] else [[''server'', ntpcFallback (ntpClient c), ''iburst'']]) @
     [[], [''driftfile'', ''/var/lib/chrony/drift''], [''makestep'', ''1.0'', ''3'']] @
     (if ntpRTCSync c then [[''rtcsync'']] else []) @
     [[''logdir'', ''/var/log/chrony'']] @
     (if ntpsEnabled (ntpServer c)
      then (if ntpsListenAddress (ntpServer c) = [] then [] else [[''bindaddress'', ntpsListenAddress (ntpServer c)]]) @
           (if ntpsListenPort (ntpServer c) = 0 then [] else [[''port'', Itoa (ntpsListenPort (ntpServer c))]]) @
           map (\<lambda>s. [''allow'', s]) (ntpAllowSubnets c) @ [[''local'', ''stratum'', ''10'']]
      else [])"

lemma chrony_text_lines: "chrony_text c = line_file (chrony_lines c)"
  by (simp add: chrony_text_def chrony_lines_def line_file_def o_def)

text \<open>What the forms keep.\<close>

definition ntp_ok :: "Config \<Rightarrow> bool" where
  "ntp_ok c \<longleftrightarrow>
     length (sources c) \<le> MaxNTPSources \<and> distinct (map ToLower (sources c)) \<and> list_all (\<lambda>s. validateNTPHost s = None) (sources c) \<and>
     length (subnets c) \<le> MaxNTPAllowSubnets \<and> distinct (subnets c) \<and> list_all (\<lambda>s. ValidateCIDR s = None) (subnets c) \<and>
     (let fb = ntpcFallback (ntpClient (cfgNTP c)) in fb = [] \<or> validateNTPHost fb = None) \<and>
     (let a = ntpsListenAddress (ntpServer (cfgNTP c)) in a = [] \<or> ValidateIP a = None)"

lemma host_chars_no_space: "c \<in> set ntpHostChars \<Longrightarrow> \<not> is_space c"
proof -
  have "list_all (\<lambda>c. \<not> is_space c) ntpHostChars" by code_simp
  then show "c \<in> set ntpHostChars \<Longrightarrow> \<not> is_space c" by (simp add: list_all_iff)
qed

lemma validateNTPHost_word: "validateNTPHost s = None \<Longrightarrow> word_ok s"
  by (auto simp: validateNTPHost_def word_ok_def hasOnlyNTPHostChars_def list_all_iff dest: host_chars_no_space split: if_splits)

lemma chrony_lines_words: "ntp_ok c \<Longrightarrow> list_all (list_all word_ok) (chrony_lines (cfgNTP c))"
proof -
  assume ok: "ntp_ok c"
  have "list_all word_ok (sources c)"
    using ok by (auto simp: ntp_ok_def list_all_iff intro: validateNTPHost_word)
  moreover have "list_all word_ok (subnets c)"
    using ok by (auto simp: ntp_ok_def list_all_iff intro: ValidateCIDR_word)
  moreover have "ntpcFallback (ntpClient (cfgNTP c)) \<noteq> [] \<Longrightarrow> word_ok (ntpcFallback (ntpClient (cfgNTP c)))"
    "ntpsListenAddress (ntpServer (cfgNTP c)) \<noteq> [] \<Longrightarrow> word_ok (ntpsListenAddress (ntpServer (cfgNTP c)))"
    using ok by (auto simp: ntp_ok_def Let_def intro: validateNTPHost_word ValidateIP_word)
  moreover have "list_all word_ok [''server'', ''iburst'', ''driftfile'', ''/var/lib/chrony/drift'', ''makestep'', ''1.0'', ''3'', ''rtcsync'',
      ''logdir'', ''/var/log/chrony'', ''bindaddress'', ''port'', ''allow'', ''local'', ''stratum'', ''10'']"
    by (simp add: word_ok_def is_space_def)
  ultimately show ?thesis using Itoa_word_ok by (simp add: chrony_lines_def list.pred_map o_def)
qed

lemma ntp_directives:
  "ntp_ok c \<Longrightarrow> directives (chrony_text (cfgNTP c)) = filter (\<lambda>ws. ws \<noteq> []) (chrony_lines (cfgNTP c))"
  using chrony_lines_words [of c] by (simp add: chrony_text_lines directives_line_file list_all_iff)

section \<open>The forms keep the configuration safe\<close>

lemma ntp_ok_add_source: "ntp_ok c \<Longrightarrow> source_guard host c = None \<Longrightarrow> ntp_ok (map_sources (\<lambda>ss. ss @ [TrimSpace host]) c)"
  by (auto simp: ntp_ok_def source_guard_def map_sources_def Let_def EqualFold_def list_ex_iff split: option.splits if_splits)

lemma ntp_ok_remove_source: "i < length (sources c) \<Longrightarrow> ntp_ok c \<Longrightarrow> ntp_ok (map_sources (remove_nth i) c)"
  using set_remove_nth [of i "sources c"]
  by (auto simp: ntp_ok_def map_sources_def list_all_iff remove_nth_map intro: distinct_remove_nth)

lemma ntp_ok_add_subnet:
  "ntp_ok c \<Longrightarrow> subnet_guard s c = None \<Longrightarrow> ValidateCIDR (TrimSpace s) = None \<Longrightarrow> ntp_ok (map_subnets (\<lambda>ss. ss @ [TrimSpace s]) c)"
  by (auto simp: ntp_ok_def subnet_guard_def map_subnets_def Let_def split: if_splits)

lemma ntp_ok_remove_subnet: "i < length (subnets c) \<Longrightarrow> ntp_ok c \<Longrightarrow> ntp_ok (map_subnets (remove_nth i) c)"
  using set_remove_nth [of i "subnets c"]
  by (auto simp: ntp_ok_def map_subnets_def list_all_iff intro: distinct_remove_nth)

lemma ntp_ok_settings: "ntp_ok c \<Longrightarrow> settings_guard f = None \<Longrightarrow> ntp_ok (map_ntp (set_settings f) c)"
  by (auto simp: ntp_ok_def settings_guard_def set_settings_def Let_def split: option.splits if_splits)

lemma ntp_changes:
  "ntp_ok (cfg st) \<Longrightarrow> ntp_ok (cfg (snd (AddSource env host st)))"
  "ntp_ok (cfg st) \<Longrightarrow> ntp_ok (cfg (snd (RemoveSource env i st)))"
  "ntp_ok (cfg st) \<Longrightarrow> ValidateCIDR (TrimSpace s) = None \<Longrightarrow> ntp_ok (cfg (snd (AddAllowSubnet env s st)))"
  "ntp_ok (cfg st) \<Longrightarrow> ntp_ok (cfg (snd (RemoveAllowSubnet env i st)))"
  "ntp_ok (cfg st) \<Longrightarrow> ntp_ok (cfg (snd (ntp_SaveSettings env f st)))"
  by (rule add_source.preserves remove_source.preserves add_subnet.preserves remove_subnet.preserves save_settings.preserves;
      auto intro: ntp_ok_add_source ntp_ok_remove_source ntp_ok_add_subnet ntp_ok_remove_subnet ntp_ok_settings
        simp: bad_index_def split: if_splits)+

lemma keeps_store_Apply: "keeps_store (ntp_ApplyConfig env)" "keeps_store (ForceSync env)"
proof -
  have "keeps_store (ntp_RenderToDisk env)"
    unfolding ntp_RenderToDisk_def [abs_def]
    by (rule keeps_store_read [where g = wcfg]) (unfold keeps_store_def, intro footprint TrueI)
  then show "keeps_store (ntp_ApplyConfig env)" "keeps_store (ForceSync env)"
    unfolding keeps_store_def ntp_ApplyConfig_def ntp_Reload_def ForceSync_def by (auto intro!: footprint)
qed

lemma ntp_applied_step [cfg_steps]: "cfg_step I (ntp_applied env r)"
  unfolding ntp_applied_def by (intro cfg_steps keeps_store_Apply)

lemma ntp_status_store: "wStore (snd (ntp_GetStatus env w)) = wStore w"
  by (auto simp: ntp_GetStatus_def getSources_def io_simps Let_def split: prod.splits sum.splits)

lemma ntp_handler_step:
  assumes "h \<in> set (ntp_handlers env pg)"
  shows "cfg_step ntp_ok (h r)"
proof -
  have page: "cfg_step ntp_ok (ntp_HandlePage env pg r)"
    unfolding ntp_HandlePage_def by (intro cfg_steps ntp_status_store)
  have sync: "cfg_step ntp_ok (HandleForceSync env r)"
    unfolding HandleForceSync_def by (intro cfg_step_effect cfg_steps keeps_store_Apply)
  have add: "cfg_step ntp_ok (HandleAddSource env r)"
    unfolding HandleAddSource_def Let_def by (intro cfg_steps ntp_changes)
  have rm: "cfg_step ntp_ok (HandleRemoveSource env r)"
    unfolding HandleRemoveSource_def by (cases "Atoi (PathValue r ''index'')") (auto intro!: cfg_steps ntp_changes)
  have adds: "cfg_step ntp_ok (HandleAddAllowSubnet env r)"
    unfolding HandleAddAllowSubnet_def Let_def by (intro cfg_steps ntp_changes) simp_all
  have rms: "cfg_step ntp_ok (HandleRemoveAllowSubnet env r)"
    unfolding HandleRemoveAllowSubnet_def by (cases "Atoi (PathValue r ''index'')") (auto intro!: cfg_steps ntp_changes)
  have sets: "cfg_step ntp_ok (ntp_HandleSaveSettings env r)"
    unfolding ntp_HandleSaveSettings_def by (intro cfg_steps ntp_changes)
  show ?thesis using assms page sync add rm adds rms sets by (auto simp: ntp_handlers_def)
qed

text \<open>
  C29. No sequence of requests to the time pages gets a directive of its own into \<open>chrony.conf\<close>. From a
  configuration that is well-formed, after any requests with any forms, the tables are within their bounds and free
  of duplicates, and the words that chrony reads, line by line, from the rendered file are exactly one \<open>server\<close> line per
  source, one \<open>allow\<close> line per network and the fixed lines of the template.
\<close>

theorem ntp_requests_cannot_inject:
  assumes "ntp_ok (wcfg wd)" "\<forall>(h, r, w) \<in> set rs. h \<in> set (ntp_handlers env pg)"
  shows "let c = wcfg (run_requests rs wd) in
    length (sources c) \<le> MaxNTPSources \<and> distinct (map ToLower (sources c)) \<and>
    length (subnets c) \<le> MaxNTPAllowSubnets \<and> distinct (subnets c) \<and>
    directives (chrony_text (cfgNTP c)) = filter (\<lambda>ws. ws \<noteq> []) (chrony_lines (cfgNTP c))"
proof -
  have "\<forall>(h, r, w) \<in> set rs. cfg_step ntp_ok (h r)"
    using assms(2) ntp_handler_step by fastforce
  then have "ntp_ok (wcfg (run_requests rs wd))" by (rule run_requests_keep [where I = ntp_ok, OF _ assms(1)])
  then show ?thesis using ntp_directives by (simp add: ntp_ok_def Let_def)
qed

definition ntp_request :: request where
  "ntp_request = \<lparr>rqMethod = ''POST'', rqPath = ''/ntp/sources'', rqRemoteAddr = [], rqCookies = [], rqHeader = (\<lambda>_. []),
     rqForm = (\<lambda>k. if k = ''host'' then ''pool.ntp.org'' @ nl @ ''allow 0.0.0.0/0'' else []), rqBadForm = False,
     rqQuery = (\<lambda>_. []), rqBody = [], rqVars = [], rqLang = None\<rparr>"

definition ntp_world :: world where
  "ntp_world = \<lparr>wStore = \<lparr>cfg = zero_Config, disk = Map.empty\<rparr>, wTrace = []\<rparr>"

theorem ntp_requests_cannot_inject_witness:
  "let c = wcfg (run_requests [(HandleAddSource \<lparr>nteSys = calm_env, nteParse = None\<rparr>, ntp_request, empty_response)] ntp_world) in
    length (sources c) \<le> MaxNTPSources \<and> distinct (map ToLower (sources c)) \<and>
    length (subnets c) \<le> MaxNTPAllowSubnets \<and> distinct (subnets c) \<and>
    directives (chrony_text (cfgNTP c)) = filter (\<lambda>ws. ws \<noteq> []) (chrony_lines (cfgNTP c))"
  by (rule ntp_requests_cannot_inject [where env = "\<lparr>nteSys = calm_env, nteParse = None\<rparr>" and pg = "\<lparr>pgExec = (\<lambda>_ _ _ _. None)\<rparr>"])
    (simp_all add: ntp_world_def ntp_ok_def zero_defs Let_def ntp_handlers_def)

end
