(* ===== verification/Syslog.thy ===== *)
theory Syslog
  imports Handlers GoPath
begin

text \<open>
  The log service (\<^verbatim>\<open>internal/services/syslog.go\<close>) and its pages (\<^verbatim>\<open>internal/web/handlers/syslog.go\<close>): the
  checks on the paths and ports that \<^verbatim>\<open>configs/sysconf/rsyslog.conf.tmpl\<close> puts between quotation marks, the
  changes of the configuration, and what the forms let through.
\<close>

section \<open>Checks\<close>

definition allowedTLSDirs :: "string list" where
  "allowedTLSDirs = [''/etc/ssl/'', ''/etc/pki/'', ''/etc/lankeeper/'', ''/etc/rsyslog.d/'']"

definition rsyslogPathChars :: string where
  "rsyslogPathChars = ''abcdefghijklmnopqrstuvwxyz'' @ ''ABCDEFGHIJKLMNOPQRSTUVWXYZ'' @ ''0123456789'' @ ''/._-+~''"

definition hasOnlyRsyslogPathChars :: "string \<Rightarrow> bool" where
  "hasOnlyRsyslogPathChars p \<longleftrightarrow> list_all (\<lambda>c. c \<in> set rsyslogPathChars) p"

definition validateRsyslogPort :: "string \<Rightarrow> string \<Rightarrow> error option" where
  "validateRsyslogPort field raw =
     (if raw = [] then None
      else (case Atoi raw of
          None \<Rightarrow> Some (''syslog '' @ field @ '' must be a decimal port number, got '' @ Quote raw)
        | Some n \<Rightarrow> ValidatePort n))"

text \<open>The tests that every path goes through: absolute, plain bytes, nothing that \<open>Clean\<close> would change.\<close>

definition path_shape :: "string \<Rightarrow> string \<Rightarrow> error option" where
  "path_shape field p =
     (if \<not> IsAbs p then Some (''syslog '' @ field @ '' must be an absolute path, got '' @ Quote p)
      else if \<not> hasOnlyRsyslogPathChars p
      then Some (''syslog '' @ field @ '' contains characters that could escape rsyslog's quoted-string syntax; allowed: '' @ rsyslogPathChars)
      else if Clean p \<noteq> p
      then Some (''syslog '' @ field @ '' contains traversal segments; expected '' @ Quote (Clean p) @ '', got '' @ Quote p)
      else None)"

definition validateLogPath :: "string \<Rightarrow> error option" where
  "validateLogPath p =
     (if p = [] then None
      else (case path_shape ''log_path'' p of
          Some e \<Rightarrow> Some e
        | None \<Rightarrow>
            if Clean p \<noteq> ''/var/log'' \<and> \<not> HasPrefix (Clean p @ ''/'') ''/var/log/''
            then Some (''syslog log_path '' @ Quote p @ '' must live under /var/log/'') else None))"

definition validateTLSPath :: "string \<Rightarrow> string \<Rightarrow> error option" where
  "validateTLSPath field p =
     (if p = [] then None
      else (case path_shape field p of
          Some e \<Rightarrow> Some e
        | None \<Rightarrow>
            if list_ex (\<lambda>dir. HasPrefix (Clean p @ ''/'') dir \<or> HasPrefix (Clean p) dir) allowedTLSDirs then None
            else Some (''syslog '' @ field @ '' '' @ Quote p @ '' must live under one of ['' @ Join allowedTLSDirs '' '' @ '']'')))"

section \<open>The configuration file\<close>

definition qt :: "string \<Rightarrow> string" where
  "qt s = [dquote] @ s @ [dquote]"

definition em_dash :: string where
  "em_dash = [CHR 0xE2, CHR 0x80, CHR 0x94]"

definition server_lines :: "SyslogServerConfig \<Rightarrow> string list" where
  "server_lines s =
     (if slgsEnabled s
      then [''# Syslog server '' @ em_dash @ '' receive logs from network devices''] @
        (if slgsEnableTLS s
         then [''# TLS for inbound syslog over TCP (RFC 5425). Loads the gtls network'',
               ''# stream driver and points imtcp at the configured certificate triple.'',
               ''global(''] @
              (if slgsTLSCAFile s = [] then [] else [''    DefaultNetstreamDriverCAFile='' @ qt (slgsTLSCAFile s)]) @
              [''    DefaultNetstreamDriverCertFile='' @ qt (slgsTLSCertFile s),
               ''    DefaultNetstreamDriverKeyFile='' @ qt (slgsTLSKeyFile s),
               '')'',
               ''module(load='' @ qt ''imtcp'' @ '' StreamDriver.Name='' @ qt ''gtls'' @ '' StreamDriver.Mode='' @ qt ''1'' @
                 '' StreamDriver.AuthMode='' @ qt ''anon'' @ '')'']
         else [''module(load='' @ qt ''imudp'' @ '')'',
               ''input(type='' @ qt ''imudp'' @ '' port='' @ qt (slgsListenUDP s) @ '')''] @
              (if slgsListenTCP s = [] then [] else [''module(load='' @ qt ''imtcp'' @ '')''])) @
        (if slgsListenTCP s = [] then [] else [''input(type='' @ qt ''imtcp'' @ '' port='' @ qt (slgsListenTCP s) @ '')'']) @
        (if slgsPerHostDirs s
         then [''template(name='' @ qt ''RemoteHost'' @ '' type='' @ qt ''string'' @ '' string='' @
                 qt (slgsLogPath s @ ''/%HOSTNAME%/%PROGRAMNAME%.log'') @ '')'',
               ''if $fromhost-ip != '' @ quoted ''127.0.0.1'' @ '' then {'',
               ''    action(type='' @ qt ''omfile'' @ '' dynaFile='' @ qt ''RemoteHost'' @ '')'',
               ''    stop'',
               ''}'']
         else [])
      else [])"

definition forward_lines :: "SyslogClientConfig \<Rightarrow> string \<Rightarrow> string list" where
  "forward_lines c f =
     (if slgcEnableTLS c
      then [f @ '' action(type='' @ qt ''omfwd'' @ '' target='' @ qt (slgcRemoteHost c) @ '' protocol='' @ qt ''tcp'',
            ''              StreamDriver='' @ qt ''gtls'' @ '' StreamDriverMode='' @ qt ''1'' @ '' StreamDriverAuthMode='' @ qt ''x509/name'',
            ''              StreamDriverPermittedPeers='' @ qt (slgcRemoteHost c) @ '')'']
      else [f @ '' '' @ (if slgcProtocol c = ''tcp'' then ''@@'' else ''@'') @ slgcRemoteHost c])"

definition client_lines :: "SyslogClientConfig \<Rightarrow> string list" where
  "client_lines c =
     (if slgcEnabled c
      then [''# Syslog client '' @ em_dash @ '' forward logs to remote server''] @
        (if slgcEnableTLS c \<and> slgcTLSCAFile c \<noteq> [] then [''global(DefaultNetstreamDriverCAFile='' @ qt (slgcTLSCAFile c) @ '')''] else []) @
        concat (map (forward_lines c) (slgcFacilities c))
      else [])"

definition rsyslog_text :: "SyslogConfig \<Rightarrow> string" where
  "rsyslog_text c =
     Join ([''module(load='' @ qt ''builtin:omfile'' @ '')''] @ server_lines (slgServer c) @ client_lines (slgClient c)) nl @ nl"

record syslogenv =
  sgSys :: sysenv
  sgParse :: "error option"
  sgReadDir :: "string \<Rightarrow> (error \<times> bool) + (string \<times> bool) list"

definition syslog_RenderConfig :: "syslogenv \<Rightarrow> Config \<Rightarrow> error + string" where
  "syslog_RenderConfig env c = (case sgParse env of
       Some e \<Rightarrow> Inl (''parse rsyslog template: '' @ e) | None \<Rightarrow> Inr (rsyslog_text (cfgSyslog c)))"

definition syslog_RenderToDisk :: "syslogenv \<Rightarrow> unit action" where
  "syslog_RenderToDisk env w = io_bind (io_lift (syslog_RenderConfig env (wcfg w))) (\<lambda>rendered.
     io_then (io_wrap ''write rsyslog config: '' (sys (sgSys env) (CWriteFile ''/etc/rsyslog.d/50-lankeeper.conf'' rendered 420)))
       (io_return ())) w"

definition syslog_Reload :: "syslogenv \<Rightarrow> unit action" where
  "syslog_Reload env = io_then (sys (sgSys env) (CRun ''systemctl'' [''reload'', ''rsyslog''])) (io_return ())"

definition syslog_ApplyConfig :: "syslogenv \<Rightarrow> unit action" where
  "syslog_ApplyConfig env = io_then (syslog_RenderToDisk env) (syslog_Reload env)"

section \<open>Changes\<close>

definition map_syslog :: "(SyslogConfig \<Rightarrow> SyslogConfig) \<Rightarrow> Config \<Rightarrow> Config" where
  "map_syslog f c = c\<lparr>cfgSyslog := f (cfgSyslog c)\<rparr>"

definition map_facilities :: "(string list \<Rightarrow> string list) \<Rightarrow> Config \<Rightarrow> Config" where
  "map_facilities f = map_syslog (\<lambda>s. s\<lparr>slgClient := (slgClient s)\<lparr>slgcFacilities := f (slgcFacilities (slgClient s))\<rparr>\<rparr>)"

abbreviation facilities :: "Config \<Rightarrow> string list" where
  "facilities c \<equiv> slgcFacilities (slgClient (cfgSyslog c))"

text \<open>The first check that fails.\<close>

definition first_error :: "error option list \<Rightarrow> error option" where
  "first_error es = (case find (\<lambda>e. e \<noteq> None) es of Some e \<Rightarrow> e | None \<Rightarrow> None)"

definition server_guard :: "SyslogServerConfig \<Rightarrow> error option" where
  "server_guard s = first_error
     [validateTLSPath ''tls_cert_file'' (slgsTLSCertFile s), validateTLSPath ''tls_key_file'' (slgsTLSKeyFile s),
      validateTLSPath ''tls_ca_file'' (slgsTLSCAFile s), validateLogPath (slgsLogPath s),
      validateRsyslogPort ''listen_udp'' (slgsListenUDP s), validateRsyslogPort ''listen_tcp'' (slgsListenTCP s)]"

definition SaveServerConfig :: "osenv \<Rightarrow> SyslogServerConfig \<Rightarrow> store \<Rightarrow> error option \<times> store" where
  "SaveServerConfig env s st = (case server_guard s of
       Some e \<Rightarrow> (Some e, st)
     | None \<Rightarrow> SaveToFile env (st\<lparr>cfg := map_syslog (\<lambda>x. x\<lparr>slgServer := s\<rparr>) (cfg st)\<rparr>))"

definition SaveClientConfig :: "osenv \<Rightarrow> SyslogClientConfig \<Rightarrow> store \<Rightarrow> error option \<times> store" where
  "SaveClientConfig env s st = (case validateTLSPath ''tls_ca_file'' (slgcTLSCAFile s) of
       Some e \<Rightarrow> (Some e, st)
     | None \<Rightarrow> SaveToFile env (st\<lparr>cfg := map_syslog (\<lambda>x. x\<lparr>slgClient := s\<rparr>) (cfg st)\<rparr>))"

definition facility_guard :: "string \<Rightarrow> Config \<Rightarrow> error option" where
  "facility_guard name0 c =
     (let name = TrimSpace name0 in
      if name = [] then Some ''empty facility''
      else if list_ex (\<lambda>f. EqualFold f name) (facilities c) then Some (''facility '' @ name @ '' already configured'')
      else None)"

definition AddFacility :: "osenv \<Rightarrow> string \<Rightarrow> store \<Rightarrow> error option \<times> store" where
  "AddFacility env name st = (case facility_guard name (cfg st) of
       Some e \<Rightarrow> (Some e, st)
     | None \<Rightarrow> SaveToFile env (st\<lparr>cfg := map_facilities (\<lambda>fs. fs @ [TrimSpace name]) (cfg st)\<rparr>))"

definition RemoveFacility :: "osenv \<Rightarrow> goint \<Rightarrow> store \<Rightarrow> error option \<times> store" where
  "RemoveFacility env i st =
     (if bad_index i (facilities (cfg st)) then (Some (''invalid facility index: '' @ Itoa i), st)
      else SaveToFile env (st\<lparr>cfg := map_facilities (remove_nth (nat i)) (cfg st)\<rparr>))"

lemma cfgSyslog_map [simp]: "cfgSyslog (map_syslog f c) = f (cfgSyslog c)"
  and cfgFilePath_map_syslog [simp]: "cfgFilePath (map_syslog f c) = cfgFilePath c"
  by (simp_all add: map_syslog_def)

interpretation save_server: config_mutation SaveServerConfig "\<lambda>s _. server_guard s" "\<lambda>s. map_syslog (\<lambda>x. x\<lparr>slgServer := s\<rparr>)"
  by unfold_locales (simp_all add: SaveServerConfig_def)

interpretation save_client: config_mutation SaveClientConfig
  "\<lambda>s _. validateTLSPath ''tls_ca_file'' (slgcTLSCAFile s)" "\<lambda>s. map_syslog (\<lambda>x. x\<lparr>slgClient := s\<rparr>)"
  by unfold_locales (simp_all add: SaveClientConfig_def)

interpretation add_facility: config_mutation AddFacility facility_guard "\<lambda>name. map_facilities (\<lambda>fs. fs @ [TrimSpace name])"
  by unfold_locales (simp_all add: AddFacility_def map_facilities_def)

interpretation remove_facility: config_mutation RemoveFacility
  "\<lambda>i c. if bad_index i (facilities c) then Some (''invalid facility index: '' @ Itoa i) else None" "\<lambda>i. map_facilities (remove_nth (nat i))"
  by unfold_locales (simp_all add: RemoveFacility_def map_facilities_def)

section \<open>Reports\<close>

definition TrimRight_nl :: "string \<Rightarrow> string" where
  "TrimRight_nl s = rev (dropWhile (\<lambda>c. c = CHR 0x0A) (rev s))"

definition log_limit :: "goint \<Rightarrow> goint" where
  "log_limit n = (if n \<le> 0 \<or> n > 500 then 100 else n)"

definition GetRecentLogs :: "syslogenv \<Rightarrow> goint \<Rightarrow> string list action" where
  "GetRecentLogs env n = io_bind (sys (sgSys env) (CRun ''tail'' [''-n'', Itoa (log_limit n), ''/var/log/syslog'']))
     (\<lambda>out. io_return (Split (TrimRight_nl out) (CHR 0x0A)))"

definition GetRemoteHosts :: "syslogenv \<Rightarrow> Config \<Rightarrow> error + string list" where
  "GetRemoteHosts env c =
     (let logPath = (if slgsLogPath (slgServer (cfgSyslog c)) = [] then ''/var/log/remote'' else slgsLogPath (slgServer (cfgSyslog c))) in
      case sgReadDir env logPath of
        Inl (e, notExist) \<Rightarrow> if notExist then Inr [] else Inl e
      | Inr entries \<Rightarrow> Inr (map fst (filter snd entries)))"

section \<open>Pages and forms\<close>

definition allowedFacilities :: "string list" where
  "allowedFacilities = [''auth'', ''authpriv'', ''cron'', ''daemon'', ''kern'', ''lpr'', ''mail'', ''news'', ''syslog'', ''user'',
     ''local0'', ''local1'', ''local2'', ''local3'', ''local4'', ''local5'', ''local6'', ''local7'']"

record syslogPage =
  sgpHosts :: "string list"
  sgpConfig :: SyslogConfig
  sgpRecentLogs :: "string list"

definition syslog_HandlePage :: "syslogenv \<Rightarrow> syslogPage pageenv \<Rightarrow> world hfun" where
  "syslog_HandlePage env pg r = with_cfg (\<lambda>c. observe (GetRecentLogs env 100) (\<lambda>logs.
     show_page pg ''syslog'' r
       \<lparr>sgpHosts = (case GetRemoteHosts env c of Inl e \<Rightarrow> [] | Inr hs \<Rightarrow> hs), sgpConfig = cfgSyslog c,
        sgpRecentLogs = (case logs of Inl e \<Rightarrow> [] | Inr ls \<Rightarrow> ls)\<rparr>))"

definition syslogResponse :: "request \<Rightarrow> response \<times> world \<Rightarrow> response \<times> world" where
  "syslogResponse r = finish ''/syslog'' r"

definition syslog_applied :: "syslogenv \<Rightarrow> request \<Rightarrow> response \<times> world \<Rightarrow> response \<times> world" where
  "syslog_applied env r = best_effort (syslog_ApplyConfig env) (syslogResponse r)"

definition server_form :: "request \<Rightarrow> SyslogServerConfig" where
  "server_form r = (let f = (\<lambda>k. TrimSpace (rqForm r k)) in
     \<lparr>slgsEnabled = (rqForm r ''enabled'' = ''on''), slgsListenUDP = f ''listen_udp'', slgsListenTCP = f ''listen_tcp'',
      slgsEnableTLS = (rqForm r ''enable_tls'' = ''on''), slgsTLSCertFile = f ''tls_cert_file'', slgsTLSKeyFile = f ''tls_key_file'',
      slgsTLSCAFile = f ''tls_ca_file'', slgsLogPath = f ''log_path'', slgsPerHostDirs = (rqForm r ''per_host_dirs'' = ''on''),
      slgsMaxRetention = f ''max_retention''\<rparr>)"

definition HandleSaveServerConfig :: "syslogenv \<Rightarrow> world hfun" where
  "HandleSaveServerConfig env r = needs_form r
     (do_action (on_store (SaveServerConfig (seOS (sgSys env)) (server_form r))) (err_text 400) (\<lambda>_. syslog_applied env r))"

definition client_form :: "request \<Rightarrow> SyslogClientConfig \<Rightarrow> SyslogClientConfig" where
  "client_form r current = current
     \<lparr>slgcEnabled := (rqForm r ''enabled'' = ''on''), slgcRemoteHost := TrimSpace (rqForm r ''remote_host''),
      slgcProtocol := (let proto = TrimSpace (rqForm r ''protocol'') in if proto \<noteq> ''tcp'' then ''udp'' else proto),
      slgcEnableTLS := (rqForm r ''enable_tls'' = ''on''), slgcTLSCAFile := TrimSpace (rqForm r ''tls_ca_file'')\<rparr>"

definition HandleSaveClientConfig :: "syslogenv \<Rightarrow> world hfun" where
  "HandleSaveClientConfig env r = needs_form r (with_cfg (\<lambda>c.
     do_action (on_store (SaveClientConfig (seOS (sgSys env)) (client_form r (slgClient (cfgSyslog c))))) (err_text 400)
       (\<lambda>_. syslog_applied env r)))"

definition HandleAddFacility :: "syslogenv \<Rightarrow> world hfun" where
  "HandleAddFacility env r = needs_form r
     (let name = ToLower (TrimSpace (rqForm r ''name'')) in
      if name \<notin> set allowedFacilities then refuse ''invalid facility'' 400
      else do_action (on_store (AddFacility (seOS (sgSys env)) name)) (err_text 400) (\<lambda>_. syslog_applied env r))"

definition HandleRemoveFacility :: "syslogenv \<Rightarrow> world hfun" where
  "HandleRemoveFacility env r = (case Atoi (PathValue r ''index'') of
       None \<Rightarrow> refuse ''invalid index'' 400
     | Some i \<Rightarrow> do_action (on_store (RemoveFacility (seOS (sgSys env)) i)) (err_text 400) (\<lambda>_. syslog_applied env r))"

definition syslog_handlers :: "syslogenv \<Rightarrow> syslogPage pageenv \<Rightarrow> world hfun list" where
  "syslog_handlers env pg =
     [syslog_HandlePage env pg, HandleSaveServerConfig env, HandleSaveClientConfig env, HandleAddFacility env, HandleRemoveFacility env]"

section \<open>Where the paths may point\<close>

text \<open>A path that is used as it is written, made of bytes that neither end a quoted string nor a line, below one of the roots.\<close>

definition confined :: "string list list \<Rightarrow> string \<Rightarrow> bool" where
  "confined roots p \<longleftrightarrow> IsAbs p \<and> Clean p = p \<and> hasOnlyRsyslogPathChars p \<and> (\<exists>d \<in> set roots. prefix d (path_comps p))"

text \<open>A field of the form: a path may be left empty.\<close>

definition path_field :: "string list list \<Rightarrow> string \<Rightarrow> bool" where
  "path_field roots p \<longleftrightarrow> p = [] \<or> confined roots p"

definition tls_roots :: "string list list" where
  "tls_roots = [[''etc'', ''ssl''], [''etc'', ''pki''], [''etc'', ''lankeeper''], [''etc'', ''rsyslog.d'']]"

definition log_roots :: "string list list" where
  "log_roots = [[''var'', ''log'']]"

lemma path_shape_None: "path_shape field p = None \<longleftrightarrow> IsAbs p \<and> hasOnlyRsyslogPathChars p \<and> Clean p = p"
  by (auto simp: path_shape_def)

lemma dir_prefix:
  assumes p: "IsAbs p" and rs: "rs \<noteq> []" "\<forall>r \<in> set rs. plain_comp r"
    and pre: "HasPrefix (Clean p @ ''/'') (slash # Join rs ''/'' @ ''/'')"
  shows "prefix rs (path_comps p)"
proof -
  let ?d = "slash # Join rs ''/'' @ ''/''"
  obtain t where t: "Clean p @ ''/'' = ?d @ t" using pre by (auto simp: HasPrefix_iff)
  show ?thesis
  proof (cases t rule: rev_cases)
    case Nil
    then have "Clean p = slash # Join rs ''/''" using t by simp
    then have "path_comps p = rs" using path_comps_Clean [OF p] path_comps_rooted [OF rs(2)] by simp
    then show ?thesis by simp
  next
    case (snoc u c)
    then have "Clean p = ?d @ u" using t by (metis append_assoc append_same_eq butlast_snoc)
    then have "HasPrefix (Clean p) ?d" by (auto simp: HasPrefix_iff)
    then show ?thesis using HasPrefix_dir_iff [OF p rs] by (auto simp: strict_prefix_def)
  qed
qed

lemma HasPrefix_longer: "HasPrefix s p \<Longrightarrow> HasPrefix (s @ u) p"
  by (auto simp: HasPrefix_iff)

lemma validateTLSPath_field: "validateTLSPath field p = None \<Longrightarrow> path_field tls_roots p"
proof -
  assume v: "validateTLSPath field p = None"
  show ?thesis
  proof (cases "p = []")
    case False
    then have shape: "IsAbs p" "hasOnlyRsyslogPathChars p" "Clean p = p"
      using v by (auto simp: validateTLSPath_def path_shape_None split: option.splits)
    have "\<exists>dir \<in> set allowedTLSDirs. HasPrefix (Clean p @ ''/'') dir"
      using v False by (auto simp: validateTLSPath_def list_ex_iff dest: HasPrefix_longer split: option.splits if_splits)
    moreover have "set allowedTLSDirs = (\<lambda>d. slash # Join d ''/'' @ ''/'') ` set tls_roots"
      by (simp add: allowedTLSDirs_def tls_roots_def)
    ultimately obtain d where d: "d \<in> set tls_roots" "HasPrefix (Clean p @ ''/'') (slash # Join d ''/'' @ ''/'')" by auto
    have "d \<noteq> []" "\<forall>r \<in> set d. plain_comp r" using d(1) by (auto simp: tls_roots_def plain_comp_def)
    from dir_prefix [OF shape(1) this d(2)] show ?thesis using shape d(1) by (auto simp: confined_def path_field_def)
  qed (simp add: confined_def path_field_def)
qed

lemma validateLogPath_field: "validateLogPath p = None \<Longrightarrow> path_field log_roots p"
proof -
  assume v: "validateLogPath p = None"
  show ?thesis
  proof (cases "p = []")
    case False
    then have shape: "IsAbs p" "hasOnlyRsyslogPathChars p" "Clean p = p"
      using v by (auto simp: validateLogPath_def path_shape_None split: option.splits)
    have "Clean p = ''/var/log'' \<or> HasPrefix (Clean p @ ''/'') ''/var/log/''"
      using v False by (auto simp: validateLogPath_def split: option.splits if_splits)
    then have "HasPrefix (Clean p @ ''/'') (slash # Join [''var'', ''log''] ''/'' @ ''/'')"
      by (auto simp: HasPrefix_def)
    then have "prefix [''var'', ''log''] (path_comps p)" by (rule dir_prefix [OF shape(1), rotated 2]) (simp_all add: plain_comp_def)
    then show ?thesis using shape by (simp add: confined_def path_field_def log_roots_def)
  qed (simp add: confined_def path_field_def)
qed

text \<open>A port as it is written into the file: an optional plus sign, digits, and a value in range.\<close>

definition port_text :: "string \<Rightarrow> bool" where
  "port_text s \<longleftrightarrow> s = [] \<or> (list_all (\<lambda>c. is_digit c \<or> c = CHR ''+'') s \<and> (\<exists>n. Atoi s = Some n \<and> 1 \<le> n \<and> n \<le> 65535))"

lemma validateRsyslogPort_text: "validateRsyslogPort field s = None \<Longrightarrow> port_text s"
proof -
  assume v: "validateRsyslogPort field s = None"
  show ?thesis
  proof (cases "s = []")
    case False
    then obtain n where n: "Atoi s = Some n" "1 \<le> n" "n \<le> 65535"
      using v by (auto simp: validateRsyslogPort_def ValidatePort_def split: option.splits if_splits)
    have "hd s \<noteq> CHR ''-''"
    proof
      assume "hd s = CHR ''-''"
      then have "n \<le> 0" using n(1) False by (auto simp: Atoi_def Let_def split: if_splits)
      then show False using n(2) by simp
    qed
    then have "list_all (\<lambda>c. is_digit c \<or> c = CHR ''+'') s"
      using n(1) False by (cases s) (auto simp: Atoi_def Let_def list_all_iff split: if_splits)
    then show ?thesis using n by (auto simp: port_text_def)
  qed (simp add: port_text_def)
qed

definition syslog_ok :: "Config \<Rightarrow> bool" where
  "syslog_ok c \<longleftrightarrow> (let s = slgServer (cfgSyslog c); cl = slgClient (cfgSyslog c) in
     list_all (path_field tls_roots) [slgsTLSCertFile s, slgsTLSKeyFile s, slgsTLSCAFile s, slgcTLSCAFile cl] \<and>
     path_field log_roots (slgsLogPath s) \<and> port_text (slgsListenUDP s) \<and> port_text (slgsListenTCP s) \<and>
     set (slgcFacilities cl) \<subseteq> set allowedFacilities \<and> distinct (slgcFacilities cl))"

lemma first_error_None: "first_error es = None \<longleftrightarrow> (\<forall>e \<in> set es. e = None)"
proof -
  have "(case find (\<lambda>e. e \<noteq> None) es of Some e \<Rightarrow> e | None \<Rightarrow> None) = None \<longleftrightarrow> (\<forall>e \<in> set es. e = None)"
    by (induction es) auto
  then show ?thesis by (simp add: first_error_def)
qed

lemma facilities_plain: "f \<in> set allowedFacilities \<Longrightarrow> TrimSpace f = f \<and> ToLower f = f"
proof -
  have "list_all (\<lambda>f. TrimSpace f = f \<and> ToLower f = f) allowedFacilities" by code_simp
  then show "f \<in> set allowedFacilities \<Longrightarrow> TrimSpace f = f \<and> ToLower f = f" by (simp add: list_all_iff)
qed

lemma syslog_ok_remove: "syslog_ok c \<Longrightarrow> i < length (facilities c) \<Longrightarrow> syslog_ok (map_facilities (remove_nth i) c)"
  using set_remove_nth [of i "facilities c"] distinct_remove_nth [of "facilities c" i]
  by (simp add: syslog_ok_def Let_def map_facilities_def) blast

lemma syslog_changes:
  "syslog_ok (cfg st) \<Longrightarrow> syslog_ok (cfg (snd (SaveServerConfig env s st)))"
  "syslog_ok (cfg st) \<Longrightarrow> set (slgcFacilities cl) \<subseteq> set allowedFacilities \<and> distinct (slgcFacilities cl) \<Longrightarrow>
     syslog_ok (cfg (snd (SaveClientConfig env cl st)))"
  "syslog_ok (cfg st) \<Longrightarrow> f \<in> set allowedFacilities \<Longrightarrow> syslog_ok (cfg (snd (AddFacility env f st)))"
  "syslog_ok (cfg st) \<Longrightarrow> syslog_ok (cfg (snd (RemoveFacility env i st)))"
proof -
  show "syslog_ok (cfg st) \<Longrightarrow> syslog_ok (cfg (snd (SaveServerConfig env s st)))"
    by (rule save_server.preserves)
      (auto simp: syslog_ok_def Let_def server_guard_def first_error_None
        intro: validateTLSPath_field validateLogPath_field validateRsyslogPort_text)
  show "syslog_ok (cfg st) \<Longrightarrow> set (slgcFacilities cl) \<subseteq> set allowedFacilities \<and> distinct (slgcFacilities cl) \<Longrightarrow>
     syslog_ok (cfg (snd (SaveClientConfig env cl st)))"
    by (rule save_client.preserves) (auto simp: syslog_ok_def Let_def intro: validateTLSPath_field)
  show "syslog_ok (cfg st) \<Longrightarrow> f \<in> set allowedFacilities \<Longrightarrow> syslog_ok (cfg (snd (AddFacility env f st)))"
    by (rule add_facility.preserves)
      (auto simp: syslog_ok_def Let_def map_facilities_def facility_guard_def facilities_plain list_ex_iff EqualFold_def split: if_splits)
  show "syslog_ok (cfg st) \<Longrightarrow> syslog_ok (cfg (snd (RemoveFacility env i st)))"
    by (rule remove_facility.preserves) (auto simp: bad_index_def intro: syslog_ok_remove split: if_splits)
qed

lemma syslog_keeps_store: "keeps_store (syslog_ApplyConfig env)"
proof -
  have "keeps_store (syslog_RenderToDisk env)"
    unfolding syslog_RenderToDisk_def [abs_def]
    by (rule keeps_store_read [where g = wcfg]) (unfold keeps_store_def, intro footprint TrueI)
  then show ?thesis unfolding keeps_store_def syslog_ApplyConfig_def syslog_Reload_def by (auto intro!: footprint)
qed

lemma syslog_applied_step [cfg_steps]: "cfg_step I (syslog_applied env r)"
  unfolding syslog_applied_def syslogResponse_def by (intro cfg_steps syslog_keeps_store)

lemma recent_logs_store: "wStore (snd (GetRecentLogs env n w)) = wStore w"
  by (auto simp: GetRecentLogs_def io_simps split: sum.splits)

lemma syslog_handler_step:
  assumes "h \<in> set (syslog_handlers env pg)"
  shows "cfg_step syslog_ok (h r)"
proof -
  have page: "cfg_step syslog_ok (syslog_HandlePage env pg r)"
    unfolding syslog_HandlePage_def by (intro cfg_steps recent_logs_store)
  have server: "cfg_step syslog_ok (HandleSaveServerConfig env r)"
    unfolding HandleSaveServerConfig_def by (intro cfg_steps syslog_changes)
  have client: "cfg_step syslog_ok (HandleSaveClientConfig env r)"
    unfolding HandleSaveClientConfig_def
    by (intro cfg_steps syslog_changes) (simp_all add: client_form_def syslog_ok_def Let_def)
  have add: "cfg_step syslog_ok (HandleAddFacility env r)"
    unfolding HandleAddFacility_def Let_def by (intro cfg_steps syslog_changes) simp_all
  have rm: "cfg_step syslog_ok (HandleRemoveFacility env r)"
    unfolding HandleRemoveFacility_def by (cases "Atoi (PathValue r ''index'')") (auto intro!: cfg_steps syslog_changes)
  show ?thesis using assms page server client add rm by (auto simp: syslog_handlers_def)
qed

text \<open>
  C30. No sequence of requests to the log pages makes rsyslog, which runs as root, open a configured path outside its
  directories. From a well-formed configuration, after any requests with any forms, every certificate, key and CA path that is
  not empty is a clean absolute path below one of the four allowed directories, a log path that is not empty is one below
  \<open>/var/log\<close>, all of them made of bytes that cannot leave a quoted string; a port that is not empty is digits, possibly after a
  plus sign, of a number in range, and only known facilities are forwarded, each once. An empty log path is accepted too, and then
  the logs of other hosts go below the root directory (\<open>empty_log_path_is_root\<close>); the remote host is not covered
  (\<open>remote_host_injects\<close>).
\<close>

theorem syslog_paths_stay_confined:
  assumes "syslog_ok (wcfg wd)" "\<forall>(h, r, w) \<in> set rs. h \<in> set (syslog_handlers env pg)"
  shows "let s = slgServer (cfgSyslog (wcfg (run_requests rs wd))); cl = slgClient (cfgSyslog (wcfg (run_requests rs wd))) in
    list_all (\<lambda>p. p = [] \<or> confined tls_roots p) [slgsTLSCertFile s, slgsTLSKeyFile s, slgsTLSCAFile s, slgcTLSCAFile cl] \<and>
    (slgsLogPath s = [] \<or> confined log_roots (slgsLogPath s)) \<and> port_text (slgsListenUDP s) \<and> port_text (slgsListenTCP s) \<and>
    set (slgcFacilities cl) \<subseteq> set allowedFacilities \<and> distinct (slgcFacilities cl)"
proof -
  have "\<forall>(h, r, w) \<in> set rs. cfg_step syslog_ok (h r)" using assms(2) syslog_handler_step by fastforce
  then have "syslog_ok (wcfg (run_requests rs wd))" by (rule run_requests_keep [where I = syslog_ok, OF _ assms(1)])
  then show ?thesis by (simp add: syslog_ok_def Let_def path_field_def)
qed

definition calm_syslog :: syslogenv where
  "calm_syslog = \<lparr>sgSys = calm_env, sgParse = None, sgReadDir = (\<lambda>_. Inr [])\<rparr>"

definition syslog_world :: world where
  "syslog_world = \<lparr>wStore = \<lparr>cfg = zero_Config\<lparr>cfgFilePath := ''/etc/r.yaml'',
     cfgSyslog := (cfgSyslog zero_Config)\<lparr>slgClient := (slgClient (cfgSyslog zero_Config))\<lparr>slgcFacilities := [''auth'']\<rparr>\<rparr>\<rparr>,
     disk = Map.empty\<rparr>, wTrace = []\<rparr>"

definition shadow_request :: request where
  "shadow_request = (demo_request ''POST'' ''/syslog/server'' [])\<lparr>rqForm := (\<lambda>k. if k = ''tls_key_file'' then ''/etc/ssl/../shadow'' else [])\<rparr>"

theorem syslog_paths_stay_confined_witness:
  "let wd = run_requests [(HandleSaveServerConfig calm_syslog, shadow_request, empty_response)] syslog_world;
     s = slgServer (cfgSyslog (wcfg wd)); cl = slgClient (cfgSyslog (wcfg wd)) in
    list_all (\<lambda>p. p = [] \<or> confined tls_roots p) [slgsTLSCertFile s, slgsTLSKeyFile s, slgsTLSCAFile s, slgcTLSCAFile cl] \<and>
    (slgsLogPath s = [] \<or> confined log_roots (slgsLogPath s)) \<and> port_text (slgsListenUDP s) \<and> port_text (slgsListenTCP s) \<and>
    set (slgcFacilities cl) \<subseteq> set allowedFacilities \<and> distinct (slgcFacilities cl)"
proof -
  let ?pg = "\<lparr>pgExec = (\<lambda>_ _ _ _. None)\<rparr>"
  have "syslog_ok (wcfg syslog_world)"
    by (simp add: syslog_ok_def syslog_world_def zero_defs path_field_def port_text_def allowedFacilities_def)
  moreover have "\<forall>(h, r, w) \<in> set [(HandleSaveServerConfig calm_syslog, shadow_request, empty_response)].
      h \<in> set (syslog_handlers calm_syslog ?pg)" by (simp add: syslog_handlers_def)
  ultimately show ?thesis
    using syslog_paths_stay_confined [of syslog_world "[(HandleSaveServerConfig calm_syslog, shadow_request, empty_response)]" calm_syslog ?pg]
    unfolding Let_def by blast
qed

section \<open>What the checks leave open\<close>

text \<open>
  The remote host of the client side is not checked at all: a line feed in it ends the forwarding action, and the rest of the
  field is a directive of its own in the file that rsyslog reads as root.
\<close>

definition inject_request :: request where
  "inject_request = (demo_request ''POST'' ''/syslog/client'' [])\<lparr>rqForm := (\<lambda>k.
     if k = ''enabled'' then ''on''
     else if k = ''remote_host'' then ''h'' @ nl @ ''module(load='' @ qt ''omprog'' @ '')'' else [])\<rparr>"

lemma remote_host_injects:
  "''module(load='' @ qt ''omprog'' @ '')'' \<in>
     set (Split (rsyslog_text (cfgSyslog (wcfg (snd (HandleSaveClientConfig calm_syslog inject_request (empty_response, syslog_world)))))) (CHR 0x0A))"
proof -
  let ?cl = "client_form inject_request (slgClient (cfgSyslog (wcfg syslog_world)))"
  have cl: "?cl = \<lparr>slgcEnabled = True, slgcRemoteHost = ''h'' @ nl @ ''module(load='' @ qt ''omprog'' @ '')'', slgcProtocol = ''udp'',
      slgcEnableTLS = False, slgcTLSCAFile = [], slgcFacilities = [''auth'']\<rparr>"
    by (simp add: client_form_def inject_request_def syslog_world_def zero_defs TrimSpace_def is_space_def nl_def qt_def dquote_def)
  have g: "validateTLSPath ''tls_ca_file'' (slgcTLSCAFile ?cl) = None" by (simp add: cl validateTLSPath_def)
  have "wcfg (snd (HandleSaveClientConfig calm_syslog inject_request (empty_response, syslog_world))) =
      map_syslog (\<lambda>x. x\<lparr>slgClient := ?cl\<rparr>) (wcfg syslog_world)"
    using save_client.accepted_cfg [where x = ?cl and st = "wStore syslog_world" and env = "seOS calm_env", OF g]
      keeps_storeD [OF syslog_keeps_store [of calm_syslog]]
    by (auto simp: HandleSaveClientConfig_def needs_form_def inject_request_def with_cfg_def do_action_def on_store_def refuse_def
        syslog_applied_def best_effort_def syslogResponse_def finish_def err_text_def demo_request_def calm_syslog_def split: prod.splits option.splits)
  then show ?thesis
    unfolding cl by (simp add: rsyslog_text_def server_lines_def client_lines_def forward_lines_def syslog_world_def zero_defs
        nl_def qt_def dquote_def em_dash_def)
qed

text \<open>An empty log path has no default in the template: the logs of other hosts go to the root directory.\<close>

lemma empty_log_path_is_root:
  "server_guard (s\<lparr>slgsLogPath := []\<rparr>) = server_guard (s\<lparr>slgsLogPath := ''/var/log''\<rparr>)"
  "slgsEnabled s \<Longrightarrow> slgsPerHostDirs s \<Longrightarrow>
     ''template(name='' @ qt ''RemoteHost'' @ '' type='' @ qt ''string'' @ '' string='' @ qt ''/%HOSTNAME%/%PROGRAMNAME%.log'' @ '')''
       \<in> set (server_lines (s\<lparr>slgsLogPath := []\<rparr>))"
proof -
  have "validateLogPath ''/var/log'' = None" by code_simp
  then show "server_guard (s\<lparr>slgsLogPath := []\<rparr>) = server_guard (s\<lparr>slgsLogPath := ''/var/log''\<rparr>)"
    by (simp add: server_guard_def validateLogPath_def)
qed (simp add: server_lines_def)

text \<open>The check on ports accepts a plus sign, which is then written into the file.\<close>

lemma plus_port_accepted: "validateRsyslogPort ''listen_udp'' ''+514'' = None"
  by (simp add: validateRsyslogPort_def Atoi_def digits_val_def digit_val_def is_digit_def in_int64_def min_int64_def max_int64_def ValidatePort_def)

end
