(* ===== verification/DNS.thy ===== *)
theory DNS
  imports ConfigStore GoNet
begin

text \<open>
  The DNS service (\<^verbatim>\<open>internal/services/dns.go\<close>): static records, the DNS-over-TLS settings and
  their checks, the blocklist, the query log with its statistics, and the data of the unbound
  template. Address parsing and name resolution of the net package, downloads and the order in which
  Go ranges over a map are parameters.
\<close>

section \<open>Definitions\<close>

subsection \<open>Addresses\<close>

record netenv =
  net_ParseIP :: "string \<Rightarrow> goip option"
  net_LookupIP :: "string \<Rightarrow> error + goip list"
  ip_String :: "goip \<Rightarrow> string"

definition IsLoopback :: "goip \<Rightarrow> bool" where
  "IsLoopback ip = (case To4 ip of Some b \<Rightarrow> b ! 0 = 127 | None \<Rightarrow> ip = replicate 15 0 @ [1])"

definition IsLinkLocalUnicast :: "goip \<Rightarrow> bool" where
  "IsLinkLocalUnicast ip =
     (case To4 ip of Some b \<Rightarrow> b ! 0 = 169 \<and> b ! 1 = 254
      | None \<Rightarrow> length ip = 16 \<and> ip ! 0 = 254 \<and> ip ! 1 div 64 = 2)"

definition IsUnspecified :: "goip \<Rightarrow> bool" where
  "IsUnspecified ip = (case To4 ip of Some b \<Rightarrow> b = [0, 0, 0, 0] | None \<Rightarrow> ip = replicate 16 0)"

definition IsPrivate :: "goip \<Rightarrow> bool" where
  "IsPrivate ip =
     (case To4 ip of
        Some b \<Rightarrow> b ! 0 = 10 \<or> b ! 0 = 172 \<and> b ! 1 div 16 = 1 \<or> b ! 0 = 192 \<and> b ! 1 = 168
      | None \<Rightarrow> length ip = 16 \<and> ip ! 0 div 2 = 126)"

definition isInternalIP :: "goip option \<Rightarrow> bool" where
  "isInternalIP ipo =
     (case ipo of None \<Rightarrow> True
      | Some ip \<Rightarrow> if IsLoopback ip \<or> IsLinkLocalUnicast ip \<or> IsUnspecified ip then True
                  else if IsPrivate ip then True else False)"

subsection \<open>DNS over TLS\<close>

definition parseDoTSpec :: "string \<Rightarrow> string \<times> string \<times> string" where
  "parseDoTSpec spec0 =
     (let (sni, spec) = (case Index spec0 ''#'' of
            Some i \<Rightarrow> (drop (i + 1) spec0, take i spec0) | None \<Rightarrow> ([], spec0));
          (port, host) = (case Index spec ''@'' of
            Some i \<Rightarrow> (drop (i + 1) spec, take i spec) | None \<Rightarrow> (''853'', spec))
      in (host, port, sni))"

definition dotSpecChars :: string where
  "dotSpecChars = ''abcdefghijklmnopqrstuvwxyz'' @ ''ABCDEFGHIJKLMNOPQRSTUVWXYZ'' @ ''0123456789'' @ ''.-:@#''"

definition hasOnlyDoTSpecChars :: "string \<Rightarrow> bool" where
  "hasOnlyDoTSpecChars s \<longleftrightarrow> list_all (\<lambda>c. c \<in> set dotSpecChars) s"

definition validateDoTHostNotInternal :: "netenv \<Rightarrow> string \<Rightarrow> error option" where
  "validateDoTHostNotInternal env host =
     (let addrs = (case net_ParseIP env host of
            Some ip \<Rightarrow> Inr [ip]
          | None \<Rightarrow> (case net_LookupIP env host of
              Inl e \<Rightarrow> Inl (''resolve '' @ quote_q host @ '': '' @ e)
            | Inr ips \<Rightarrow> if ips = [] then Inl (''no addresses for '' @ quote_q host) else Inr ips))
      in case addrs of
           Inl e \<Rightarrow> Some e
         | Inr as \<Rightarrow> (case find (\<lambda>ip. isInternalIP (Some ip)) as of
             Some ip \<Rightarrow> Some (''DoT upstream '' @ quote_q host @
               '' resolves to a private/loopback/link-local address ('' @ ip_String env ip @
               ''); refusing to probe internal hosts'')
           | None \<Rightarrow> None))"

definition parseAndValidateDoTSpec :: "netenv \<Rightarrow> string \<Rightarrow> error + string \<times> string \<times> string" where
  "parseAndValidateDoTSpec env spec =
     (if \<not> hasOnlyDoTSpecChars spec
      then Inl ''DoT upstream contains characters that could inject unbound.conf directives''
      else (case parseDoTSpec spec of (host, port, sni) \<Rightarrow>
        if host = [] then Inl ''empty or invalid upstream''
        else if sni = [] then Inl (''DoT upstream must include #hostname for certificate validation (e.g. '' @
               quote_q host @ ''#cloudflare-dns.com)'')
        else if port \<noteq> ''853'' then Inl (''DoT upstream port must be 853, got '' @ quote_q port)
        else (case validateDoTHostNotInternal env host of
            Some e \<Rightarrow> Inl e
          | None \<Rightarrow> Inr (host, port, sni))))"

subsection \<open>Configuration changes\<close>

definition map_dns :: "(DNSConfig \<Rightarrow> DNSConfig) \<Rightarrow> Config \<Rightarrow> Config" where
  "map_dns f c = c\<lparr>cfgDNS := f (cfgDNS c)\<rparr>"

definition SaveDNSSettings ::
    "netenv \<Rightarrow> osenv \<Rightarrow> bool \<times> string \<times> bool \<times> string \<Rightarrow> store \<Rightarrow> error option \<times> store" where
  "SaveDNSSettings net env args st =
     (case args of (enableDoT, dotUpstream0, enableDoH, dohUpstream0) \<Rightarrow>
       (let dotUpstream = TrimSpace dotUpstream0; dohUpstream = TrimSpace dohUpstream0 in
        if enableDoT \<and> enableDoH then (Some ''DoT and DoH cannot both be enabled'', st)
        else (case (if enableDoT then parseAndValidateDoTSpec net dotUpstream else Inr ([], [], [])) of
            Inl e \<Rightarrow> (Some e, st)
          | Inr _ \<Rightarrow> SaveToFile env (st\<lparr>cfg := map_dns (\<lambda>d. d\<lparr>dnsEnableDoT := enableDoT,
              dnsDoTUpstream := dotUpstream, dnsEnableDoH := enableDoH, dnsDoHUpstream := dohUpstream\<rparr>) (cfg st)\<rparr>))))"

definition MaxStaticDNSRecords :: nat where "MaxStaticDNSRecords = 500"

definition GetStaticRecords :: "store \<Rightarrow> StaticDNSRecord list" where
  "GetStaticRecords st = dnsStaticRecords (cfgDNS (cfg st))"

definition AddStaticRecord :: "osenv \<Rightarrow> StaticDNSRecord \<Rightarrow> store \<Rightarrow> error option \<times> store" where
  "AddStaticRecord env rec st =
     (if length (dnsStaticRecords (cfgDNS (cfg st))) \<ge> MaxStaticDNSRecords
      then (Some (''maximum '' @ Itoa (int MaxStaticDNSRecords) @ '' static DNS records reached''), st)
      else if list_ex (\<lambda>r. EqualFold (srName r) (srName rec)) (dnsStaticRecords (cfgDNS (cfg st)))
      then (Some (''DNS record '' @ srName rec @ '' already exists''), st)
      else SaveToFile env (st\<lparr>cfg := map_dns (\<lambda>d. d\<lparr>dnsStaticRecords := dnsStaticRecords d @ [rec]\<rparr>) (cfg st)\<rparr>))"

definition RemoveStaticRecord :: "osenv \<Rightarrow> goint \<Rightarrow> store \<Rightarrow> error option \<times> store" where
  "RemoveStaticRecord env index st =
     (if bad_index index (dnsStaticRecords (cfgDNS (cfg st)))
      then (Some (''invalid static record index: '' @ Itoa index), st)
      else SaveToFile env (st\<lparr>cfg := map_dns (\<lambda>d. d\<lparr>dnsStaticRecords :=
             remove_nth (nat index) (dnsStaticRecords d)\<rparr>) (cfg st)\<rparr>))"

text \<open>\<open>None\<close> stands for -1.\<close>

definition FindStaticRecordIndexBySource :: "store \<Rightarrow> string \<Rightarrow> string \<Rightarrow> nat option" where
  "FindStaticRecordIndexBySource st source name =
     find_index (\<lambda>r. srSource r = source \<and> EqualFold (srName r) name) (dnsStaticRecords (cfgDNS (cfg st)))"

subsection \<open>The blocklist\<close>

definition blocklist_line :: "string \<Rightarrow> string list" where
  "blocklist_line line0 =
     (let line = TrimSpace line0 in
      if line = [] \<or> HasPrefix line ''#'' then []
      else (let fields = Fields line in
        if length fields \<ge> 2 \<and> (fields ! 0 = ''0.0.0.0'' \<or> fields ! 0 = ''127.0.0.1'')
        then (if fields ! 1 \<noteq> ''localhost'' \<and> fields ! 1 \<noteq> ''0.0.0.0'' then [fields ! 1] else [])
        else []))"

text \<open>
  A download is the lines the scanner yields and its final error. A failed request has no lines.
\<close>

definition downloadBlocklist :: "string list \<times> error option \<Rightarrow> string list \<times> error option" where
  "downloadBlocklist body = (concat (map blocklist_line (fst body)), snd body)"

fun dedupe :: "string list \<Rightarrow> string set \<Rightarrow> string list" where
  "dedupe [] seen = []"
| "dedupe (d # ds) seen = (if d \<in> seen then dedupe ds seen else d # dedupe ds (insert d seen))"

definition blocklist_domains :: "(string \<Rightarrow> string list \<times> error option) \<Rightarrow> Config \<Rightarrow> string list" where
  "blocklist_domains fetch c =
     concat (map (\<lambda>url. case snd (downloadBlocklist (fetch url)) of
                          None \<Rightarrow> fst (downloadBlocklist (fetch url)) | Some e \<Rightarrow> [])
       (dnsBlocklistURLs (cfgDNS c)))"

definition zone_line :: "string \<Rightarrow> string" where
  "zone_line domain = ''local-zone: '' @ [CHR 0x22] @ domain @ [CHR 0x22] @ '' always_refuse'' @ [CHR 0x0A]"

text \<open>The new blocklist file; writing it and the reload may fail.\<close>

definition UpdateBlocklist ::
    "(string \<Rightarrow> string list \<times> error option) \<Rightarrow> error option \<Rightarrow> error option \<Rightarrow> store \<Rightarrow> error option \<times> store" where
  "UpdateBlocklist fetch write_err reload_err st =
     (let text = concat (map zone_line (dedupe (blocklist_domains fetch (cfg st)) {})) in
      case write_err of
        Some e \<Rightarrow> (Some (''write blocklist: '' @ e), st)
      | None \<Rightarrow> (map_option (\<lambda>e. ''unbound reload: '' @ e) reload_err,
                st\<lparr>disk := (disk st)(''/etc/unbound/blocklist.conf'' \<mapsto> text)\<rparr>))"

subsection \<open>The query log\<close>

record QueryLogEntry =
  qeTimestamp :: goint
  qeClientIP :: string
  qeDomain :: string
  qeQueryType :: string
  qeStatus :: string
  qeBlocked :: bool

record DomainCount =
  dcDomain :: string
  dcCount :: goint

record ClientCount =
  ccIP :: string
  ccHostname :: string
  ccCount :: goint

record DNSStats =
  stTotalQueries :: goint
  stCacheHits :: goint
  stCacheMisses :: goint
  stBlockedCount :: goint
  stTopDomains :: "DomainCount list"
  stTopClients :: "ClientCount list"
  stTopBlocked :: "DomainCount list"

record DNSService =
  queryBuf :: "QueryLogEntry list"
  stats :: DNSStats

definition bufSize :: nat where "bufSize = 10000"

definition zero_DNSStats :: DNSStats where
  "zero_DNSStats = \<lparr>stTotalQueries = 0, stCacheHits = 0, stCacheMisses = 0, stBlockedCount = 0,
     stTopDomains = [], stTopClients = [], stTopBlocked = []\<rparr>"

definition NewDNSService :: DNSService where
  "NewDNSService = \<lparr>queryBuf = [], stats = zero_DNSStats\<rparr>"

text \<open>
  The regular expression \<open>queryLogRegex\<close>. Its parts after the bracket alternate between runs of space
  and of non-space, so a match at a bracket is determined by the words that follow.
\<close>

definition re_space :: "char \<Rightarrow> bool" where
  "re_space c \<longleftrightarrow> c = CHR '' '' \<or> c = CHR 0x09 \<or> c = CHR 0x0A \<or> c = CHR 0x0C \<or> c = CHR 0x0D"

fun re_words :: "string \<Rightarrow> string \<Rightarrow> string list" where
  "re_words [] w = (if w = [] then [] else [rev w])"
| "re_words (c # s) w =
     (if re_space c then (if w = [] then re_words s [] else rev w # re_words s [])
      else re_words s (c # w))"

text \<open>A match that starts at the head of the text: the digits and the four groups after them.\<close>

definition re_at :: "string \<Rightarrow> string list option" where
  "re_at s =
     (case s of [] \<Rightarrow> None
      | c # r \<Rightarrow>
        (let digits = takeWhile is_digit r; rest = dropWhile is_digit r in
         if c = CHR ''['' \<and> digits \<noteq> [] \<and> rest \<noteq> [] \<and> hd rest = CHR '']'' \<and>
            tl rest \<noteq> [] \<and> re_space (hd (tl rest))
         then (let ws = re_words (tl rest) [] in
               if length ws \<ge> 6 \<and> ws ! 1 = ''info:''
               then Some [digits, ws ! 2, ws ! 3, ws ! 4, ws ! 5] else None)
         else None))"

fun FindStringSubmatch :: "string \<Rightarrow> string list option" where
  "FindStringSubmatch [] = None"
| "FindStringSubmatch (c # s) =
     (case re_at (c # s) of Some m \<Rightarrow> Some m | None \<Rightarrow> FindStringSubmatch s)"

text \<open>\<open>Sscanf\<close> leaves its target at 0 when the digits do not fit 64 bits.\<close>

definition parseQueryLogLine :: "string \<Rightarrow> QueryLogEntry option" where
  "parseQueryLogLine line =
     (case FindStringSubmatch line of
        None \<Rightarrow> None
      | Some ms \<Rightarrow>
        (let ts = (case Atoi (ms ! 0) of Some n \<Rightarrow> n | None \<Rightarrow> 0);
             entry = \<lparr>qeTimestamp = ts, qeClientIP = ms ! 1, qeDomain = TrimSuffix (ms ! 2) ''.'',
               qeQueryType = ms ! 3, qeStatus = ''NOERROR'', qeBlocked = False\<rparr>
         in Some (if Contains line ''REFUSED'' then entry\<lparr>qeStatus := ''REFUSED'', qeBlocked := True\<rparr>
                  else if Contains line ''NXDOMAIN'' then entry\<lparr>qeStatus := ''NXDOMAIN''\<rparr>
                  else entry)))"

definition push_query :: "QueryLogEntry \<Rightarrow> QueryLogEntry list \<Rightarrow> QueryLogEntry list" where
  "push_query e buf = (if length buf \<ge> bufSize then drop 1 buf else buf) @ [e]"

text \<open>One scanned line of \<open>tailQueryLog\<close>.\<close>

definition tail_line :: "string \<Rightarrow> DNSService \<Rightarrow> DNSService" where
  "tail_line line s =
     (case parseQueryLogLine line of
        None \<Rightarrow> s
      | Some e \<Rightarrow> s\<lparr>queryBuf := push_query e (queryBuf s),
          stats := (stats s)\<lparr>stBlockedCount := stBlockedCount (stats s) + (if qeBlocked e then 1 else 0)\<rparr>\<rparr>)"

text \<open>\<open>GetRecentQueries\<close> for arguments that are not negative.\<close>

definition GetRecentQueries :: "nat \<Rightarrow> nat \<Rightarrow> DNSService \<Rightarrow> QueryLogEntry list" where
  "GetRecentQueries limit offset s =
     (let total = length (queryBuf s) in
      if offset \<ge> total then []
      else (let endx = total - offset; start = endx - limit
            in rev (drop start (take endx (queryBuf s)))))"

definition ClearQueryLog :: "DNSService \<Rightarrow> DNSService" where
  "ClearQueryLog s = s\<lparr>queryBuf := [], stats := zero_DNSStats\<rparr>"

subsection \<open>Statistics\<close>

text \<open>A counting map as pairs in the order of first use.\<close>

fun count_word :: "string \<Rightarrow> DomainCount list \<Rightarrow> DomainCount list" where
  "count_word k [] = [\<lparr>dcDomain = k, dcCount = 1\<rparr>]"
| "count_word k (d # ds) =
     (if dcDomain d = k then d\<lparr>dcCount := dcCount d + 1\<rparr> # ds else d # count_word k ds)"

definition count_words :: "string list \<Rightarrow> DomainCount list" where
  "count_words ks = foldl (\<lambda>m k. count_word k m) [] ks"

text \<open>The two loops of \<open>topN\<close> over a slice, which exchange elements in place.\<close>

definition swap_step :: "nat \<Rightarrow> DomainCount list \<Rightarrow> nat \<Rightarrow> DomainCount list" where
  "swap_step i r j = (if dcCount (r ! j) > dcCount (r ! i) then r[i := r ! j, j := r ! i] else r)"

definition top_pass :: "DomainCount list \<Rightarrow> nat \<Rightarrow> DomainCount list" where
  "top_pass r i = foldl (swap_step i) r [Suc i..<length r]"

text \<open>\<open>result\<close> holds the entries of the map in the order Go ranges over it.\<close>

definition topN :: "DomainCount list \<Rightarrow> nat \<Rightarrow> DomainCount list" where
  "topN result n =
     (let r = foldl top_pass result [0..<min (length result) n]
      in if length r > n then take n r else r)"

definition computeTopLists :: "(DomainCount list \<Rightarrow> DomainCount list) \<Rightarrow> DNSService \<Rightarrow> DNSService" where
  "computeTopLists order s =
     (let domainCounts = count_words (map qeDomain (queryBuf s));
          clientCounts = count_words (map qeClientIP (queryBuf s));
          blockedCounts = count_words (map qeDomain (filter qeBlocked (queryBuf s)))
      in s\<lparr>stats := (stats s)\<lparr>stTopDomains := topN (order domainCounts) 10,
             stTopBlocked := topN (order blockedCounts) 10,
             stTopClients := map (\<lambda>dc. \<lparr>ccIP = dcDomain dc, ccHostname = [], ccCount = dcCount dc\<rparr>)
               (topN (order clientCounts) 10)\<rparr>\<rparr>)"

subsection \<open>The unbound template\<close>

record renderStaticRecord =
  rsName :: string
  rsIP :: string
  rsLocalZone :: bool
  rsPTR :: string

definition ipv4PTR :: "netenv \<Rightarrow> string \<Rightarrow> string" where
  "ipv4PTR env ip =
     (case net_ParseIP env ip of None \<Rightarrow> []
      | Some parsed \<Rightarrow> (case To4 parsed of None \<Rightarrow> []
        | Some v4 \<Rightarrow> Itoa (int (v4 ! 3)) @ ''.'' @ Itoa (int (v4 ! 2)) @ ''.'' @ Itoa (int (v4 ! 1)) @ ''.'' @
            Itoa (int (v4 ! 0)) @ ''.in-addr.arpa.''))"

definition buildRenderStaticRecords :: "netenv \<Rightarrow> StaticDNSRecord list \<Rightarrow> renderStaticRecord list" where
  "buildRenderStaticRecords env records =
     map (\<lambda>r. \<lparr>rsName = srName r, rsIP = srIP r, rsLocalZone = srLocalZone r,
       rsPTR = (if srDisableAutoPTR r then [] else ipv4PTR env (srIP r))\<rparr>) records"

record unboundTemplateData =
  utIPv6Enabled :: bool
  utAllowSubnets :: "string list"
  utULAPrefix :: string
  utCacheSize :: goint
  utQueryLogEnabled :: bool
  utQueryLogPath :: string
  utEnableDoT :: bool
  utDoTUpstream :: string
  utEnableDoH :: bool
  utStaticRecords :: "renderStaticRecord list"

text \<open>The data \<open>RenderConfig\<close> passes to the template; \<open>subnetFromCIDR\<close> is the argument \<open>subnet\<close>.\<close>

definition dns_template_data :: "netenv \<Rightarrow> (string \<Rightarrow> string) \<Rightarrow> Config \<Rightarrow> unboundTemplateData" where
  "dns_template_data env subnet c =
     (let d = cfgDNS c; logPath = qlLogPath (dnsQueryLog d) in
      \<lparr>utIPv6Enabled = ip6Enabled (cfgIPv6 c) \<noteq> ''off'',
       utAllowSubnets = concat (map (\<lambda>vlan. map (\<lambda>iface. subnet (ifAddress iface) @ ''/24'')
          (filter (\<lambda>iface. ifID iface = vlParent vlan \<and> ifAddress iface \<noteq> []) (cfgInterfaces c))) (cfgVLANs c)),
       utULAPrefix = ulaPrefix (lan6ULA (ip6LAN (cfgIPv6 c))),
       utCacheSize = (if dnsCacheSize d = 0 then 64 else dnsCacheSize d),
       utQueryLogEnabled = qlEnabled (dnsQueryLog d),
       utQueryLogPath = (if logPath = [] then ''/var/log/unbound-query.log'' else logPath),
       utEnableDoT = dnsEnableDoT d, utDoTUpstream = dnsDoTUpstream d,
       utEnableDoH = (dnsEnableDoH d \<and> \<not> dnsEnableDoT d),
       utStaticRecords = buildRenderStaticRecords env (dnsStaticRecords d)\<rparr>)"

text \<open>The file that \<open>tailQueryLog\<close> follows.\<close>

definition tail_path :: "Config \<Rightarrow> string" where
  "tail_path c = (let p = qlLogPath (dnsQueryLog (cfgDNS c)) in
     if p = [] then ''/var/log/unbound/queries.log'' else p)"

section \<open>The changes meet the contract\<close>

lemma cfgFilePath_map_dns [simp]: "cfgFilePath (map_dns f c) = cfgFilePath c"
  and cfgDNS_map_dns [simp]: "cfgDNS (map_dns f c) = f (cfgDNS c)"
  by (simp_all add: map_dns_def)

interpretation add_record: config_mutation AddStaticRecord
  "\<lambda>rec c. if length (dnsStaticRecords (cfgDNS c)) \<ge> MaxStaticDNSRecords
      then Some (''maximum '' @ Itoa (int MaxStaticDNSRecords) @ '' static DNS records reached'')
      else if list_ex (\<lambda>r. EqualFold (srName r) (srName rec)) (dnsStaticRecords (cfgDNS c))
      then Some (''DNS record '' @ srName rec @ '' already exists'') else None"
  "\<lambda>rec. map_dns (\<lambda>d. d\<lparr>dnsStaticRecords := dnsStaticRecords d @ [rec]\<rparr>)"
  by unfold_locales (simp_all add: AddStaticRecord_def)

interpretation remove_record: config_mutation RemoveStaticRecord
  "\<lambda>i c. if bad_index i (dnsStaticRecords (cfgDNS c))
      then Some (''invalid static record index: '' @ Itoa i) else None"
  "\<lambda>i. map_dns (\<lambda>d. d\<lparr>dnsStaticRecords := remove_nth (nat i) (dnsStaticRecords d)\<rparr>)"
  by unfold_locales (simp_all add: RemoveStaticRecord_def)

text \<open>The table of static records: bounded, and no name twice, in any capitalisation.\<close>

definition records_ok :: "Config \<Rightarrow> bool" where
  "records_ok c \<longleftrightarrow> length (dnsStaticRecords (cfgDNS c)) \<le> MaxStaticDNSRecords \<and>
     distinct (map (ToLower \<circ> srName) (dnsStaticRecords (cfgDNS c)))"

lemma records_ok_add: "records_ok (cfg st) \<Longrightarrow> records_ok (cfg (snd (AddStaticRecord env rec st)))"
  by (rule add_record.preserves)
    (auto simp: records_ok_def list_ex_iff EqualFold_def split: if_splits)

lemma records_ok_remove: "records_ok (cfg st) \<Longrightarrow> records_ok (cfg (snd (RemoveStaticRecord env i st)))"
proof (rule remove_record.preserves)
  fix c assume c: "records_ok c" and "(if bad_index i (dnsStaticRecords (cfgDNS c))
      then Some (''invalid static record index: '' @ Itoa i) else None) = None"
  then have "nat i < length (dnsStaticRecords (cfgDNS c))" by (auto dest: good_index split: if_splits)
  with c show "records_ok (map_dns (\<lambda>d. d\<lparr>dnsStaticRecords := remove_nth (nat i) (dnsStaticRecords d)\<rparr>) c)"
    unfolding records_ok_def by (auto simp: remove_nth_map distinct_remove_nth)
qed

lemma FindStaticRecordIndexBySource_Some:
  "FindStaticRecordIndexBySource st source name = Some i \<Longrightarrow>
     i < length (GetStaticRecords st) \<and> srSource (GetStaticRecords st ! i) = source \<and>
     EqualFold (srName (GetStaticRecords st ! i)) name"
  unfolding FindStaticRecordIndexBySource_def GetStaticRecords_def by (auto dest: find_index_Some)

section \<open>Upstream checks\<close>

lemma validated_host:
  assumes "validateDoTHostNotInternal env host = None"
  shows "\<exists>ips. ips \<noteq> [] \<and> (net_ParseIP env host = Some (hd ips) \<or> net_LookupIP env host = Inr ips) \<and>
    (\<forall>ip \<in> set ips. \<not> isInternalIP (Some ip))"
proof (cases "net_ParseIP env host")
  case (Some ip)
  with assms show ?thesis
    by (intro exI [of _ "[ip]"]) (auto simp: validateDoTHostNotInternal_def split: if_splits)
next
  case None
  with assms obtain ips where "net_LookupIP env host = Inr ips" "ips \<noteq> []"
    "find (\<lambda>ip. isInternalIP (Some ip)) ips = None"
    by (auto simp: validateDoTHostNotInternal_def split: sum.splits if_splits option.splits)
  then show ?thesis by (auto simp: find_None_iff)
qed

lemma Index_split: "Index s [c] = Some i \<Longrightarrow> s = take i s @ c # drop (i + 1) s \<and> c \<notin> set (take i s)"
proof -
  assume i: "Index s [c] = Some i"
  then have "c \<in> set s" using Index_none [of c s] by fastforce
  then obtain p q where s: "s = p @ c # q" "c \<notin> set p" by (meson split_list_first)
  with i have "i = length p" by (simp add: Index_first)
  with s show ?thesis by simp
qed

lemma parseDoTSpec_text:
  assumes "parseDoTSpec spec = (host, ''853'', sni)" and "sni \<noteq> []"
  shows "spec = host @ ''#'' @ sni \<or> spec = host @ ''@853#'' @ sni"
proof -
  obtain i where i: "Index spec ''#'' = Some i" "sni = drop (i + 1) spec"
    using assms by (cases "Index spec ''#''") (auto simp: parseDoTSpec_def split: option.splits)
  note hash = Index_split [OF i(1)]
  show ?thesis
  proof (cases "Index (take i spec) ''@''")
    case None
    with assms i hash show ?thesis by (simp add: parseDoTSpec_def)
  next
    case (Some j)
    with assms(1) i have "host = take j (take i spec)" "''853'' = drop (j + 1) (take i spec)"
      by (auto simp: parseDoTSpec_def)
    with Index_split [OF Some] have "take i spec = host @ ''@853''" by simp
    with hash i show ?thesis by (metis append.assoc append_Cons append_Nil)
  qed
qed

section \<open>The query buffer\<close>

interpretation query_log: bounded_log push_query bufSize
  by unfold_locales (auto simp: push_query_def bufSize_def)

lemma queryBuf_tail:
  "queryBuf (foldl (\<lambda>s l. tail_line l s) s lines) =
     foldl (\<lambda>b e. push_query e b) (queryBuf s) (List.map_filter parseQueryLogLine lines)"
  by (induction lines arbitrary: s) (auto simp: tail_line_def map_filter_simps split: option.split)

lemma GetRecentQueries_rev:
  "GetRecentQueries limit offset s = take limit (drop offset (rev (queryBuf s)))"
proof (cases "offset \<ge> length (queryBuf s)")
  case True
  then show ?thesis by (simp add: GetRecentQueries_def)
next
  case False
  let ?b = "queryBuf s" and ?e = "length (queryBuf s) - offset"
  have "rev (take ?e ?b) = drop offset (rev ?b)" using False by (simp add: rev_take)
  then have "rev (drop (?e - limit) (take ?e ?b)) = take (?e - (?e - limit)) (drop offset (rev ?b))"
    by (simp add: rev_drop)
  also have "\<dots> = take limit (drop offset (rev ?b))" 
  proof (cases "limit \<le> ?e")
    case True
    then show ?thesis by (simp only: diff_diff_cancel)
  next
    case False
    then show ?thesis by simp
  qed
  finally show ?thesis using False by (simp add: GetRecentQueries_def Let_def)
qed

section \<open>The top lists\<close>

lemma swap_step_length [simp]: "length (swap_step i r j) = length r"
  by (simp add: swap_step_def)

text \<open>An exchange above \<open>i\<close> keeps everything below and permutes the rest.\<close>

lemma swap_step_keeps:
  assumes "i < j" and "j < length r"
  shows "take i (swap_step i r j) = take i r \<and> mset (drop i (swap_step i r j)) = mset (drop i r)"
proof (cases "dcCount (r ! j) > dcCount (r ! i)")
  case True
  have "drop i (r[i := r ! j, j := r ! i]) = (drop i r)[0 := drop i r ! (j - i), j - i := drop i r ! 0]"
    using assms by (simp add: drop_update_swap)
  moreover have "mset ((drop i r)[0 := drop i r ! (j - i), j - i := drop i r ! 0]) = mset (drop i r)"
    using assms by (intro mset_swap) simp_all
  ultimately show ?thesis using True assms by (simp add: swap_step_def)
next
  case False
  then show ?thesis by (simp add: swap_step_def)
qed

lemma top_pass_prefix:
  assumes "i < length r" and "m \<le> length r"
  defines "q \<equiv> foldl (swap_step i) r [Suc i..<m]"
  shows "length q = length r \<and> take i q = take i r \<and> mset (drop i q) = mset (drop i r) \<and>
    (\<forall>k. i < k \<and> k < m \<longrightarrow> dcCount (q ! k) \<le> dcCount (q ! i))"
  using assms(2) unfolding q_def
proof (induction m)
  case 0
  then show ?case by simp
next
  case (Suc m)
  let ?q = "foldl (swap_step i) r [Suc i..<m]"
  show ?case
  proof (cases "Suc i \<le> m")
    case True
    then have step: "foldl (swap_step i) r [Suc i..<Suc m] = swap_step i ?q m" by simp
    from Suc have IH: "length ?q = length r" "take i ?q = take i r" "mset (drop i ?q) = mset (drop i r)"
      "\<And>k. i < k \<Longrightarrow> k < m \<Longrightarrow> dcCount (?q ! k) \<le> dcCount (?q ! i)" by simp_all
    have "dcCount (swap_step i ?q m ! k) \<le> dcCount (swap_step i ?q m ! i)" if "i < k" "k < Suc m" for k
      using IH(4) [of k] that True Suc.prems IH(1) assms(1) by (auto simp: swap_step_def nth_list_update)
    moreover have "take i (swap_step i ?q m) = take i r \<and> mset (drop i (swap_step i ?q m)) = mset (drop i r)"
      using swap_step_keeps [of i m ?q] True Suc.prems IH by simp
    ultimately show ?thesis unfolding step using IH(1) by simp
  next
    case False
    with Suc show ?thesis by simp
  qed
qed

lemma in_set_drop: "x \<in> set (drop i xs) \<longleftrightarrow> (\<exists>c. i \<le> c \<and> c < length xs \<and> x = xs ! c)"
proof
  assume "x \<in> set (drop i xs)"
  then obtain k where "k < length xs - i" "x = xs ! (i + k)" by (auto simp: in_set_conv_nth)
  then show "\<exists>c. i \<le> c \<and> c < length xs \<and> x = xs ! c" by (intro exI [of _ "i + k"]) simp
next
  assume "\<exists>c. i \<le> c \<and> c < length xs \<and> x = xs ! c"
  then obtain c where "i \<le> c" "c < length xs" "x = xs ! c" by blast
  then have "x = drop i xs ! (c - i)" "c - i < length (drop i xs)" by simp_all
  then show "x \<in> set (drop i xs)" by (metis nth_mem)
qed

text \<open>After \<open>i\<close> passes the first \<open>i\<close> entries are no smaller than anything to their right.\<close>

definition top_sorted :: "nat \<Rightarrow> DomainCount list \<Rightarrow> bool" where
  "top_sorted i r \<longleftrightarrow> (\<forall>a b. a < i \<and> a < b \<and> b < length r \<longrightarrow> dcCount (r ! b) \<le> dcCount (r ! a))"

lemma top_pass_step:
  assumes "i < length r" and "top_sorted i r"
  shows "top_sorted (Suc i) (top_pass r i) \<and> mset (top_pass r i) = mset r \<and> length (top_pass r i) = length r"
proof -
  let ?q = "top_pass r i"
  have q: "length ?q = length r" "take i ?q = take i r" "mset (drop i ?q) = mset (drop i r)"
    "\<And>k. i < k \<Longrightarrow> k < length r \<Longrightarrow> dcCount (?q ! k) \<le> dcCount (?q ! i)"
    using top_pass_prefix [OF assms(1) order_refl] by (simp_all add: top_pass_def)
  have "mset ?q = mset r" using q(2,3) by (metis append_take_drop_id mset_append)
  moreover have "dcCount (?q ! b) \<le> dcCount (?q ! a)" if "a < Suc i" "a < b" "b < length ?q" for a b
  proof (cases "a = i")
    case True
    with q(1,4) that show ?thesis by simp
  next
    case False
    with that have a: "a < i" by simp
    then have qa: "?q ! a = r ! a" using q(2) by (metis nth_take)
    show ?thesis
    proof (cases "b < i")
      case True
      then have "?q ! b = r ! b" using q(2) by (metis nth_take)
      with qa a that assms q(1) show ?thesis by (simp add: top_sorted_def)
    next
      case False
      then have "?q ! b \<in> set (drop i ?q)" using that unfolding in_set_drop by (intro exI [of _ b]) simp
      then have "?q ! b \<in> set (drop i r)" using q(3) by (metis set_mset_mset)
      then obtain c where "i \<le> c" "c < length r" "?q ! b = r ! c" by (auto simp: in_set_drop)
      with qa a assms(2) show ?thesis by (simp add: top_sorted_def)
    qed
  qed
  ultimately show ?thesis using q(1) by (auto simp: top_sorted_def)
qed

lemma top_passes:
  assumes "m \<le> length r"
  shows "top_sorted m (foldl top_pass r [0..<m]) \<and> mset (foldl top_pass r [0..<m]) = mset r"
  using assms
proof (induction m)
  case 0
  then show ?case by (simp add: top_sorted_def)
next
  case (Suc m)
  then have IH: "top_sorted m (foldl top_pass r [0..<m])" "mset (foldl top_pass r [0..<m]) = mset r" by simp_all
  have "m < length (foldl top_pass r [0..<m])" using IH(2) Suc.prems by (metis Suc_le_lessD size_mset)
  from top_pass_step [OF this IH(1)] IH(2) show ?case by simp
qed

section \<open>The blocklist\<close>

lemma dedupe_props: "distinct (dedupe ds seen) \<and> set (dedupe ds seen) = set ds - seen"
  by (induction ds arbitrary: seen) auto

section \<open>Properties\<close>

text \<open>
  C13. The table of static records stays within its bound of 500 and free of duplicate names, in any
  capitalisation, under adding and removing records, whether or not saving the file succeeds.
\<close>

theorem static_records_invariant:
  assumes "records_ok (cfg st)"
  shows "records_ok (cfg (snd (AddStaticRecord env rec st))) \<and>
    records_ok (cfg (snd (RemoveStaticRecord env i st)))"
  using assms by (simp add: records_ok_add records_ok_remove)

theorem static_records_invariant_witness:
  "records_ok (cfg (snd (AddStaticRecord (quiet_env zero_Config) (zero_StaticDNSRecord\<lparr>srName := ''a.lan''\<rparr>)
      \<lparr>cfg = zero_Config, disk = Map.empty\<rparr>))) \<and>
   records_ok (cfg (snd (RemoveStaticRecord (quiet_env zero_Config) 0 \<lparr>cfg = zero_Config, disk = Map.empty\<rparr>)))"
  by (rule static_records_invariant) (simp add: records_ok_def zero_defs)

text \<open>
  DNS settings that are accepted cannot turn on both encrypted transports, and an accepted
  DNS-over-TLS upstream is harmless in the resolver's configuration: it consists of allowed
  characters only (no space, quote or line end), has the form host, optional port 853, hash, non-empty
  certificate name, and every address of the host is public.
\<close>

theorem accepted_settings_safe:
  assumes "SaveDNSSettings net env (enableDoT, dot, enableDoH, doh) st = (None, st')"
  shows "\<not> (dnsEnableDoT (cfgDNS (cfg st')) \<and> dnsEnableDoH (cfgDNS (cfg st'))) \<and>
    (enableDoT \<longrightarrow> (\<exists>host sni ips. let u = dnsDoTUpstream (cfgDNS (cfg st')) in
       set u \<subseteq> set dotSpecChars \<and> host \<noteq> [] \<and> sni \<noteq> [] \<and>
       (u = host @ ''#'' @ sni \<or> u = host @ ''@853#'' @ sni) \<and> ips \<noteq> [] \<and>
       (net_ParseIP net host = Some (hd ips) \<or> net_LookupIP net host = Inr ips) \<and>
       (\<forall>ip \<in> set ips. \<not> isInternalIP (Some ip))))"
proof -
  have ex: "\<not> (enableDoT \<and> enableDoH)" using assms by (auto simp: SaveDNSSettings_def)
  have v: "enableDoT \<Longrightarrow> \<exists>r. parseAndValidateDoTSpec net (TrimSpace dot) = Inr r"
    using assms ex by (auto simp: SaveDNSSettings_def Let_def split: sum.splits)
  have st': "dnsEnableDoT (cfgDNS (cfg st')) = enableDoT \<and> dnsEnableDoH (cfgDNS (cfg st')) = enableDoH \<and>
      dnsDoTUpstream (cfgDNS (cfg st')) = TrimSpace dot"
    using assms ex by (auto simp: SaveDNSSettings_def Let_def elim!: SaveToFile_ok split: sum.splits if_splits)
  have "\<exists>host sni ips. set (TrimSpace dot) \<subseteq> set dotSpecChars \<and> host \<noteq> [] \<and> sni \<noteq> [] \<and>
       (TrimSpace dot = host @ ''#'' @ sni \<or> TrimSpace dot = host @ ''@853#'' @ sni) \<and> ips \<noteq> [] \<and>
       (net_ParseIP net host = Some (hd ips) \<or> net_LookupIP net host = Inr ips) \<and>
       (\<forall>ip \<in> set ips. \<not> isInternalIP (Some ip))" if on: "enableDoT"
  proof -
    obtain host sni where p: "parseDoTSpec (TrimSpace dot) = (host, ''853'', sni)" "host \<noteq> []" "sni \<noteq> []"
      and c: "hasOnlyDoTSpecChars (TrimSpace dot)" and n: "validateDoTHostNotInternal net host = None"
      using v [OF on] by (auto simp: parseAndValidateDoTSpec_def split: if_splits prod.splits option.splits)
    have "set (TrimSpace dot) \<subseteq> set dotSpecChars"
      using c by (auto simp: hasOnlyDoTSpecChars_def list_all_iff)
    with parseDoTSpec_text [OF p(1,3)] p validated_host [OF n] show ?thesis by blast
  qed
  with ex st' show ?thesis by (simp add: Let_def)
qed

definition demo_net :: netenv where
  "demo_net = \<lparr>net_ParseIP = \<lambda>s. if s = ''1.1.1.1'' then Some [1, 1, 1, 1] else None,
     net_LookupIP = \<lambda>_. Inl ''no such host'', ip_String = \<lambda>_. ''1.1.1.1''\<rparr>"

definition demo_dns_store :: store where
  "demo_dns_store = \<lparr>cfg = zero_Config\<lparr>cfgFilePath := ''/etc/router.yaml''\<rparr>, disk = Map.empty\<rparr>"

theorem accepted_settings_safe_witness:
  "\<exists>st'. SaveDNSSettings demo_net (quiet_env zero_Config) (True, ''1.1.1.1#one.one'', False, []) demo_dns_store = (None, st') \<and>
     dnsEnableDoT (cfgDNS (cfg st')) \<and> \<not> dnsEnableDoH (cfgDNS (cfg st'))"
proof -
  have spec: "TrimSpace ''1.1.1.1#one.one'' = ''1.1.1.1#one.one''" "TrimSpace [] = []"
    "hasOnlyDoTSpecChars ''1.1.1.1#one.one''" "parseDoTSpec ''1.1.1.1#one.one'' = (''1.1.1.1'', ''853'', ''one.one'')"
    by code_simp+
  have ok: "parseAndValidateDoTSpec demo_net ''1.1.1.1#one.one'' = Inr (''1.1.1.1'', ''853'', ''one.one'')"
    unfolding parseAndValidateDoTSpec_def
    by (simp add: spec validateDoTHostNotInternal_def demo_net_def isInternalIP_def IsLoopback_def
        IsLinkLocalUnicast_def IsUnspecified_def IsPrivate_def To4_def)
  obtain r st' where run: "SaveDNSSettings demo_net (quiet_env zero_Config) (True, ''1.1.1.1#one.one'', False, [])
      demo_dns_store = (r, st')" by force
  then have s: "SaveToFile (quiet_env zero_Config) (demo_dns_store\<lparr>cfg := map_dns (\<lambda>d. d\<lparr>dnsEnableDoT := True,
      dnsDoTUpstream := ''1.1.1.1#one.one'', dnsEnableDoH := False, dnsDoHUpstream := []\<rparr>) (cfg demo_dns_store)\<rparr>) = (r, st')"
    by (simp add: SaveDNSSettings_def spec ok)
  then have "r = None"
    by (simp add: SaveToFile_def Save_def demo_dns_store_def quiet_env_def atomicWrite_def Let_def)
  moreover have "dnsEnableDoT (cfgDNS (cfg (snd (SaveToFile (quiet_env zero_Config) (demo_dns_store\<lparr>cfg :=
      map_dns (\<lambda>d. d\<lparr>dnsEnableDoT := True, dnsDoTUpstream := ''1.1.1.1#one.one'', dnsEnableDoH := False,
        dnsDoHUpstream := []\<rparr>) (cfg demo_dns_store)\<rparr>)))))"
    unfolding SaveToFile_cfg by simp
  then have "dnsEnableDoT (cfgDNS (cfg st'))" unfolding s by simp
  ultimately show ?thesis using accepted_settings_safe [of demo_net _ True _ False] run by blast
qed

text \<open>The exchange sort stopped after \<open>n\<close> passes: its result, the rest, and how they compare.\<close>

lemma topN_split:
  "\<exists>omitted. mset xs = mset (topN xs n) + mset omitted \<and> length (topN xs n) = min (length xs) n \<and>
     sorted_wrt (\<lambda>x y. dcCount y \<le> dcCount x) (topN xs n) \<and>
     (\<forall>x \<in> set (topN xs n). \<forall>y \<in> set omitted. dcCount y \<le> dcCount x)"
proof -
  let ?m = "min (length xs) n"
  let ?r = "foldl top_pass xs [0..<?m]"
  have r: "top_sorted ?m ?r" "mset ?r = mset xs" using top_passes [of ?m xs] by simp_all
  then have len: "length ?r = length xs" by (metis size_mset)
  have eq: "topN xs n = take ?m ?r" using len by (cases "length xs \<le> n") (simp_all add: topN_def Let_def)
  have "sorted_wrt (\<lambda>x y. dcCount y \<le> dcCount x) (take ?m ?r)"
    using r(1) len by (auto simp: sorted_wrt_iff_nth_less top_sorted_def)
  moreover have "\<forall>x \<in> set (take ?m ?r). \<forall>y \<in> set (drop ?m ?r). dcCount y \<le> dcCount x"
    using r(1) len by (fastforce simp: in_set_conv_nth top_sorted_def)
  moreover have "mset xs = mset (take ?m ?r) + mset (drop ?m ?r)"
    using r(2) by (metis append_take_drop_id mset_append)
  ultimately show ?thesis unfolding eq using len by (intro exI [of _ "drop ?m ?r"]) simp
qed

lemma sorted_take_unique:
  assumes "mset xs = mset (r @ q)" "sorted_wrt (\<lambda>x y. y \<le> x) r" "\<forall>x \<in> set r. \<forall>y \<in> set q. y \<le> x"
  shows "r = take (length r) (rev (sort xs))"
proof -
  let ?s = "r @ rev (sort q)"
  have "sorted (rev ?s)"
    using assms(2,3) by (auto simp: sorted_append sorted_wrt_rev)
  moreover have "mset (rev ?s) = mset xs" using assms(1) by simp
  ultimately have "rev ?s = sort xs" by (metis properties_for_sort)
  then have "rev (sort xs) = ?s" by (metis rev_rev_ident)
  then show ?thesis by simp
qed

text \<open>
  \<open>topN\<close> agrees with sorting the whole map: whatever order the map was ranged over, the counts it
  returns are the first \<open>n\<close> of all counts in descending order, and the entries are entries of the map,
  none of them twice.
\<close>

theorem topN_is_sorted_prefix:
  "map dcCount (topN xs n) = take n (rev (sort (map dcCount xs))) \<and> mset (topN xs n) \<subseteq># mset xs"
proof -
  obtain q where q: "mset xs = mset (topN xs n) + mset q" "length (topN xs n) = min (length xs) n"
    "sorted_wrt (\<lambda>x y. dcCount y \<le> dcCount x) (topN xs n)"
    "\<forall>x \<in> set (topN xs n). \<forall>y \<in> set q. dcCount y \<le> dcCount x"
    using topN_split [of xs n] by blast
  have "mset (map dcCount xs) = mset (map dcCount (topN xs n) @ map dcCount q)"
    using q(1) by (simp flip: image_mset_union)
  then have "map dcCount (topN xs n) = take (length (map dcCount (topN xs n))) (rev (sort (map dcCount xs)))"
    by (rule sorted_take_unique) (use q(3,4) in \<open>simp_all add: sorted_wrt_map\<close>)
  then show ?thesis using q(1,2) by (simp add: min_def split: if_splits)
qed

text \<open>
  The query page shows the newest queries first: after any log lines were read from the start,
  \<open>GetRecentQueries\<close> returns, for a limit and an offset, that section of the parsed entries in reverse
  order, out of the last ten thousand.
\<close>

theorem recent_queries_newest_first:
  "GetRecentQueries limit offset (foldl (\<lambda>s l. tail_line l s) NewDNSService lines) =
     (let es = List.map_filter parseQueryLogLine lines
      in take limit (drop offset (rev (drop (length es - bufSize) es))))"
  by (simp add: GetRecentQueries_rev queryBuf_tail NewDNSService_def query_log.log_of_stream Let_def)

text \<open>
  A successful update writes a blocklist that refuses exactly the domains of the downloaded
  lists, each in one line.
\<close>

theorem blocklist_each_domain_once:
  assumes "UpdateBlocklist fetch write_err reload_err st = (None, st')"
  shows "\<exists>ds. disk st' = (disk st)(''/etc/unbound/blocklist.conf'' \<mapsto> concat (map zone_line ds)) \<and> distinct ds \<and>
    set ds = {d. \<exists>url \<in> set (dnsBlocklistURLs (cfgDNS (cfg st))). snd (fetch url) = None \<and>
      (\<exists>line \<in> set (fst (fetch url)). d \<in> set (blocklist_line line))}"
proof -
  have "set (blocklist_domains fetch (cfg st)) = {d. \<exists>url \<in> set (dnsBlocklistURLs (cfgDNS (cfg st))).
      snd (fetch url) = None \<and> (\<exists>line \<in> set (fst (fetch url)). d \<in> set (blocklist_line line))}"
    by (auto simp: blocklist_domains_def downloadBlocklist_def split: option.splits) (metis (no_types))
  with dedupe_props [of "blocklist_domains fetch (cfg st)" "{}"] assms show ?thesis
    by (intro exI [of _ "dedupe (blocklist_domains fetch (cfg st)) {}"])
      (auto simp: UpdateBlocklist_def Let_def split: option.splits)
qed

theorem blocklist_each_domain_once_witness:
  "\<exists>ds. (disk demo_dns_store)(''/etc/unbound/blocklist.conf'' \<mapsto> []) =
      (disk demo_dns_store)(''/etc/unbound/blocklist.conf'' \<mapsto> concat (map zone_line ds)) \<and> distinct ds \<and>
    set ds = {d. \<exists>url \<in> set (dnsBlocklistURLs (cfgDNS (cfg demo_dns_store))). snd (([], None) :: string list \<times> error option) = None \<and>
      (\<exists>line \<in> set (fst (([], None) :: string list \<times> error option)). d \<in> set (blocklist_line line))}"
  using blocklist_each_domain_once [of "\<lambda>_. ([], None)" None None demo_dns_store
      "demo_dns_store\<lparr>disk := (disk demo_dns_store)(''/etc/unbound/blocklist.conf'' \<mapsto> [])\<rparr>"]
  by (simp add: UpdateBlocklist_def demo_dns_store_def blocklist_domains_def zero_defs)

text \<open>
  With no log path configured, the resolver is told to log to one file and the service follows
  another one, so no query is ever seen.
\<close>

theorem default_log_paths_differ:
  "qlLogPath (dnsQueryLog (cfgDNS c)) = [] \<Longrightarrow> utQueryLogPath (dns_template_data env subnet c) \<noteq> tail_path c"
  by (simp add: dns_template_data_def tail_path_def Let_def)

theorem default_log_paths_differ_witness:
  "utQueryLogPath (dns_template_data demo_net (\<lambda>s. s) zero_Config) \<noteq> tail_path zero_Config"
  by (rule default_log_paths_differ) (simp add: zero_defs)

end
