(* ===== verification/Base64.thy ===== *)
theory Base64
  imports Prelude
begin

text \<open>
  Package \<open>encoding/base64\<close> of Go as the tokens and resolver stamps use it, and its round trip.
\<close>

section \<open>Definitions\<close>

text \<open>\<open>base64.RawURLEncoding\<close>: six bits a character, no padding.\<close>

definition b64_char :: "nat \<Rightarrow> char" where
  "b64_char n =
     (if n < 26 then char_of (65 + n) else if n < 52 then char_of (71 + n)
      else if n < 62 then char_of (n - 4) else if n = 62 then CHR ''-'' else CHR ''_'')"

definition b64_val :: "char \<Rightarrow> nat option" where
  "b64_val c =
     (let n = (of_char c :: nat) in
      if 65 \<le> n \<and> n \<le> 90 then Some (n - 65)
      else if 97 \<le> n \<and> n \<le> 122 then Some (n - 71)
      else if 48 \<le> n \<and> n \<le> 57 then Some (n + 4)
      else if c = CHR ''-'' then Some 62
      else if c = CHR ''_'' then Some 63
      else None)"

abbreviation byte :: "char \<Rightarrow> nat" where "byte c \<equiv> of_char c"

fun b64_encode :: "string \<Rightarrow> string" where
  "b64_encode (a # b # c # r) =
     [b64_char (byte a div 4), b64_char (byte a mod 4 * 16 + byte b div 16),
      b64_char (byte b mod 16 * 4 + byte c div 64), b64_char (byte c mod 64)] @ b64_encode r"
| "b64_encode [a, b] =
     [b64_char (byte a div 4), b64_char (byte a mod 4 * 16 + byte b div 16), b64_char (byte b mod 16 * 4)]"
| "b64_encode [a] = [b64_char (byte a div 4), b64_char (byte a mod 4 * 16)]"
| "b64_encode [] = []"

text \<open>Decoding the values of the characters; the bits left over at the end are not checked.\<close>

fun b64_bytes :: "nat list \<Rightarrow> string option" where
  "b64_bytes (a # b # c # d # r) =
     map_option (\<lambda>s. [char_of (a * 4 + b div 16), char_of (b mod 16 * 16 + c div 4), char_of (c mod 4 * 64 + d)] @ s)
       (b64_bytes r)"
| "b64_bytes [a, b, c] = Some [char_of (a * 4 + b div 16), char_of (b mod 16 * 16 + c div 4)]"
| "b64_bytes [a, b] = Some [char_of (a * 4 + b div 16)]"
| "b64_bytes [a] = None"
| "b64_bytes [] = Some []"

text \<open>Line ends are skipped.\<close>

definition b64_decode :: "string \<Rightarrow> string option" where
  "b64_decode s =
     (let cs = filter (\<lambda>c. c \<noteq> CHR 0x0A \<and> c \<noteq> CHR 0x0D) s in
      if list_all (\<lambda>c. b64_val c \<noteq> None) cs then b64_bytes (map (\<lambda>c. the (b64_val c)) cs) else None)"

section \<open>Round trip\<close>

lemma b64_char_cases: "(n :: nat) < 64 \<Longrightarrow> n < 26 \<or> 26 \<le> n \<and> n < 52 \<or> 52 \<le> n \<and> n < 62 \<or> n = 62 \<or> n = 63"
  by linarith

lemma b64_val_char: "n < 64 \<Longrightarrow> b64_val (b64_char n) = Some n"
  using b64_char_cases [of n] by (auto simp: b64_val_def b64_char_def Let_def)

lemma b64_char_plain:
  assumes "n < 64"
  shows "b64_char n \<noteq> CHR ''.'' \<and> b64_char n \<noteq> CHR 0x0A \<and> b64_char n \<noteq> CHR 0x0D \<and> \<not> is_space (b64_char n)"
proof -
  have v: "b64_val (b64_char n) \<noteq> None" using b64_val_char [OF assms] by simp
  have "b64_val CHR ''.'' = None" "b64_val CHR 0x0A = None" "b64_val CHR 0x0D = None" by code_simp+
  then have "b64_char n \<noteq> CHR ''.''" "b64_char n \<noteq> CHR 0x0A" "b64_char n \<noteq> CHR 0x0D" using v by (metis)+
  moreover have sp: "b64_val c = None" if "is_space c" for c
    using that unfolding is_space_def by (elim insertE emptyE; hypsubst; code_simp)
  have "\<not> is_space (b64_char n)" using v sp [of "b64_char n"] by (rule contrapos_nn)
  ultimately show ?thesis by (intro conjI)
qed

text \<open>The six-bit values of an encoded string.\<close>

fun b64_vals :: "string \<Rightarrow> nat list" where
  "b64_vals (a # b # c # r) =
     [byte a div 4, byte a mod 4 * 16 + byte b div 16, byte b mod 16 * 4 + byte c div 64, byte c mod 64] @ b64_vals r"
| "b64_vals [a, b] = [byte a div 4, byte a mod 4 * 16 + byte b div 16, byte b mod 16 * 4]"
| "b64_vals [a] = [byte a div 4, byte a mod 4 * 16]"
| "b64_vals [] = []"

lemma byte_less: "byte c < 256"
  by simp

lemma byte_quotients [simp]:
  "byte a div 4 < 64" "byte b div 16 < 16" "byte c div 64 < 4"
  "byte b div 16 div 16 = 0" "byte c div 64 div 4 = 0"
  using byte_less [of a] byte_less [of b] byte_less [of c] by (simp_all add: div_less_iff_less_mult flip: div_mult2_eq)

lemma byte_parts:
  "byte a mod 4 * 16 + byte b div 16 < 64" "byte b mod 16 * 4 + byte c div 64 < 64"
  "byte b mod 16 * 4 < 64" "byte a mod 4 * 16 < 64"
proof -
  have "byte a mod 4 < 4" "byte b mod 16 < 16" by simp_all
  then show "byte a mod 4 * 16 + byte b div 16 < 64" "byte b mod 16 * 4 + byte c div 64 < 64"
    "byte b mod 16 * 4 < 64" "byte a mod 4 * 16 < 64"
    using byte_quotients(2) [of b] byte_quotients(3) [of c] by linarith+
qed

lemma b64_vals_small: "n \<in> set (b64_vals s) \<Longrightarrow> n < 64"
  by (induction s rule: b64_vals.induct) (auto simp: byte_parts)

lemma b64_encode_vals: "b64_encode s = map b64_char (b64_vals s)"
  by (induction s rule: b64_vals.induct) simp_all

lemma b64_bytes_vals: "b64_bytes (b64_vals s) = Some s"
  by (induction s rule: b64_vals.induct) simp_all

lemma b64_decode_encode: "b64_decode (b64_encode s) = Some s"
proof -
  have plain: "\<forall>c \<in> set (b64_encode s). c \<noteq> CHR 0x0A \<and> c \<noteq> CHR 0x0D"
    by (auto simp: b64_encode_vals dest!: b64_vals_small b64_char_plain)
  have "map (\<lambda>c. the (b64_val c)) (b64_encode s) = b64_vals s"
    by (auto simp: b64_encode_vals b64_val_char b64_vals_small intro!: map_idI)
  moreover have "list_all (\<lambda>c. b64_val c \<noteq> None) (b64_encode s)"
    by (auto simp: b64_encode_vals list_all_iff b64_val_char b64_vals_small)
  ultimately show ?thesis using plain by (simp add: b64_decode_def b64_bytes_vals filter_True)
qed

lemma b64_text: "c \<in> set (b64_encode s) \<Longrightarrow> c \<noteq> CHR ''.'' \<and> \<not> is_space c"
  by (auto simp: b64_encode_vals dest!: b64_vals_small b64_char_plain)

end
