(* ===== verification/GoURL.thy ===== *)
theory GoURL
  imports GoNet
begin

text \<open>
  Package \<open>net/url\<close> of Go 1.26, as far as \<open>url.Parse\<close>, \<open>Hostname\<close> and \<open>Port\<close> are used: the parts
  scheme, host and path. Fragment, query and user information only matter for the errors they cause.
\<close>

section \<open>Definitions\<close>

record GoURL =
  uScheme :: string
  uHost :: string
  uPath :: string

definition is_alnum :: "char \<Rightarrow> bool" where
  "is_alnum c \<longleftrightarrow> (let n = (of_char c :: nat) in
     48 \<le> n \<and> n \<le> 57 \<or> 65 \<le> n \<and> n \<le> 90 \<or> 97 \<le> n \<and> n \<le> 122)"

definition is_letter :: "char \<Rightarrow> bool" where
  "is_letter c \<longleftrightarrow> is_alnum c \<and> \<not> is_digit c"

definition is_ctl :: "char \<Rightarrow> bool" where
  "is_ctl c \<longleftrightarrow> (of_char c :: nat) < 32 \<or> (of_char c :: nat) = 127"

text \<open>\<open>strings.Cut\<close> at a byte: before, after and whether it was found.\<close>

definition Cut :: "string \<Rightarrow> char \<Rightarrow> string \<times> string \<times> bool" where
  "Cut s c = (if c \<in> set s
     then (takeWhile (\<lambda>x. x \<noteq> c) s, tl (dropWhile (\<lambda>x. x \<noteq> c) s), True) else (s, [], False))"

subsection \<open>Escapes\<close>

datatype encoding = encodePath | encodeUserPassword | encodeHost | encodeZone | encodeFragment

text \<open>\<open>shouldEscape\<close> for the two host modes, the only ones in which decoding asks.\<close>

definition host_escapes :: "char \<Rightarrow> bool" where
  "host_escapes c \<longleftrightarrow> \<not> (is_alnum c \<or> c \<in> set ''!$&()*+,;=:[]<>'' \<or> c = CHR 0x27 \<or> c = CHR 0x22 \<or> c \<in> set ''-_.~'')"

definition hex_pair :: "char \<Rightarrow> char \<Rightarrow> nat" where
  "hex_pair a b = (case (hex_val a, hex_val b) of (Some x, Some y) \<Rightarrow> 16 * x + y | _ \<Rightarrow> 0)"

definition is_hex :: "char \<Rightarrow> bool" where
  "is_hex c \<longleftrightarrow> hex_val c \<noteq> None"

definition escape_refused :: "encoding \<Rightarrow> char \<Rightarrow> char \<Rightarrow> bool" where
  "escape_refused mode a b \<longleftrightarrow> \<not> (is_hex a \<and> is_hex b) \<or>
     mode = encodeHost \<and> hex_pair a b < 128 \<and> [a, b] \<noteq> ''25'' \<or>
     mode = encodeZone \<and> [a, b] \<noteq> ''25'' \<and> hex_pair a b \<noteq> 32 \<and> host_escapes (char_of (hex_pair a b))"

definition EscapeError :: "string \<Rightarrow> error" where
  "EscapeError s = ''invalid URL escape '' @ quote_q (take 3 s)"

definition InvalidHostError :: "char \<Rightarrow> error" where
  "InvalidHostError c = ''invalid character '' @ quote_q [c] @ '' in host name''"

definition byte_refused :: "encoding \<Rightarrow> char \<Rightarrow> bool" where
  "byte_refused mode c \<longleftrightarrow>
     (mode = encodeHost \<or> mode = encodeZone) \<and> (of_char c :: nat) < 128 \<and> host_escapes c"

fun url_unescape :: "encoding \<Rightarrow> string \<Rightarrow> error + string" where
  "url_unescape mode [] = Inr []"
| "url_unescape mode (c # s) =
     (if c = CHR ''%''
      then (case s of
          a # b # r \<Rightarrow>
            if escape_refused mode a b then Inl (EscapeError (c # s))
            else (case url_unescape mode r of Inl e \<Rightarrow> Inl e | Inr t \<Rightarrow> Inr (char_of (hex_pair a b) # t))
        | _ \<Rightarrow> Inl (EscapeError (c # s)))
      else if byte_refused mode c then Inl (InvalidHostError c)
      else (case url_unescape mode s of Inl e \<Rightarrow> Inl e | Inr t \<Rightarrow> Inr (c # t)))"

subsection \<open>The parts of a URL\<close>

text \<open>\<open>getScheme\<close>: scheme and rest, with the bytes read so far in reverse.\<close>

fun scheme_scan :: "string \<Rightarrow> string \<Rightarrow> string \<Rightarrow> error + string \<times> string" where
  "scheme_scan raw seen [] = Inr ([], raw)"
| "scheme_scan raw seen (c # s) =
     (if is_letter c then scheme_scan raw (c # seen) s
      else if is_digit c \<or> c \<in> set ''+-.''
      then (if seen = [] then Inr ([], raw) else scheme_scan raw (c # seen) s)
      else if c = CHR '':''
      then (if seen = [] then Inl ''missing protocol scheme'' else Inr (rev seen, s))
      else Inr ([], raw))"

definition getScheme :: "string \<Rightarrow> error + string \<times> string" where
  "getScheme raw = scheme_scan raw [] raw"

definition validOptionalPort :: "string \<Rightarrow> bool" where
  "validOptionalPort port \<longleftrightarrow> port = [] \<or> hd port = CHR '':'' \<and> list_all is_digit (tl port)"

text \<open>An address in brackets, with a zone after its first escaped percent sign.\<close>

definition unescape_literal :: "string \<Rightarrow> error + string" where
  "unescape_literal hostname =
     (case Index hostname ''%25'' of
        Some z \<Rightarrow> (case url_unescape encodeHost (take z hostname) of
            Inl e \<Rightarrow> Inl e
          | Inr h \<Rightarrow> (case url_unescape encodeZone (drop z hostname) of
                Inl e \<Rightarrow> Inl e | Inr zone \<Rightarrow> Inr (h @ zone)))
      | None \<Rightarrow> url_unescape encodeHost hostname)"

definition zone_address :: "string \<Rightarrow> bool" where
  "zone_address s \<longleftrightarrow> (case Cut s (CHR ''%'') of (a, zone, found) \<Rightarrow>
     (found \<longrightarrow> zone \<noteq> []) \<and> (\<exists>ip \<in> set_option (ParseAddr a). length ip = 16))"

definition parse_literal :: "string \<Rightarrow> error + string" where
  "parse_literal host =
     (case LastIndexByte host (CHR '']'') of
        None \<Rightarrow> Inl ''missing ']' in host''
      | Some i \<Rightarrow>
          (let colonPort = drop (i + 1) host in
           if \<not> validOptionalPort colonPort then Inl (''invalid port '' @ quote_q colonPort @ '' after host'')
           else (case unescape_literal (drop 1 (take i host)) of
               Inl e \<Rightarrow> Inl e
             | Inr h \<Rightarrow> if zone_address h then Inr (''['' @ h @ '']'' @ colonPort) else Inl ''invalid host'')))"

definition parseHost :: "string \<Rightarrow> error + string" where
  "parseHost host =
     (case LastIndexByte host (CHR ''['') of
        Some (Suc k) \<Rightarrow> Inl ''invalid IP-literal''
      | Some 0 \<Rightarrow> parse_literal host
      | None \<Rightarrow> (case LastIndexByte host (CHR '':'') of
            None \<Rightarrow> url_unescape encodeHost host
          | Some i \<Rightarrow>
              if Index host '':'' \<noteq> Some i then Inl (''invalid port '' @ quote_q (drop (the (Index host '':'')) host) @ '' after host'')
              else if \<not> validOptionalPort (drop i host) then Inl (''invalid port '' @ quote_q (drop i host) @ '' after host'')
              else url_unescape encodeHost host))"

definition validUserinfo :: "string \<Rightarrow> bool" where
  "validUserinfo s \<longleftrightarrow> list_all (\<lambda>c. is_alnum c \<or> c \<in> set ''-._:~!$&()*+,;=%@'' \<or> c = CHR 0x27) s"

definition check_userinfo :: "string \<Rightarrow> error option" where
  "check_userinfo userinfo =
     (if \<not> validUserinfo userinfo then Some ''net/url: invalid userinfo''
      else (case Cut userinfo (CHR '':'') of (user, pass, _) \<Rightarrow>
        (case url_unescape encodeUserPassword user of
           Inl e \<Rightarrow> Some e
         | Inr _ \<Rightarrow> (case url_unescape encodeUserPassword pass of Inl e \<Rightarrow> Some e | Inr _ \<Rightarrow> None))))"

definition parseAuthority :: "string \<Rightarrow> error + string" where
  "parseAuthority authority =
     (case LastIndexByte authority (CHR ''@'') of
        None \<Rightarrow> parseHost authority
      | Some i \<Rightarrow> (case parseHost (drop (i + 1) authority) of
            Inl e \<Rightarrow> Inl e
          | Inr host \<Rightarrow> (case check_userinfo (take i authority) of Some e \<Rightarrow> Inl e | None \<Rightarrow> Inr host)))"

text \<open>The internal \<open>parse\<close>, for a URL that does not come from a request line.\<close>

definition before_query :: "string \<Rightarrow> string" where
  "before_query rest = (case Cut rest (CHR ''?'') of (p, _, _) \<Rightarrow> p)"

definition parse_hierarchical :: "string \<Rightarrow> string \<Rightarrow> error + GoURL" where
  "parse_hierarchical scheme rest =
     (if HasPrefix rest ''//'' \<and> (scheme \<noteq> [] \<or> \<not> HasPrefix rest ''///'')
      then (let authority = takeWhile (\<lambda>c. c \<noteq> CHR ''/'') (drop 2 rest);
                path = dropWhile (\<lambda>c. c \<noteq> CHR ''/'') (drop 2 rest) in
            case parseAuthority authority of
              Inl e \<Rightarrow> Inl e
            | Inr host \<Rightarrow> (case url_unescape encodePath path of
                  Inl e \<Rightarrow> Inl e | Inr p \<Rightarrow> Inr \<lparr>uScheme = scheme, uHost = host, uPath = p\<rparr>))
      else (case url_unescape encodePath rest of
              Inl e \<Rightarrow> Inl e | Inr p \<Rightarrow> Inr \<lparr>uScheme = scheme, uHost = [], uPath = p\<rparr>))"

definition parse_url :: "string \<Rightarrow> error + GoURL" where
  "parse_url raw =
     (if list_ex is_ctl raw then Inl ''net/url: invalid control character in URL''
      else if raw = ''*'' then Inr \<lparr>uScheme = [], uHost = [], uPath = ''*''\<rparr>
      else (case getScheme raw of
          Inl e \<Rightarrow> Inl e
        | Inr (scheme0, rest0) \<Rightarrow>
            (let scheme = ToLower scheme0; rest = before_query rest0 in
             if HasPrefix rest ''/'' then parse_hierarchical scheme rest
             else if scheme \<noteq> [] then Inr \<lparr>uScheme = scheme, uHost = [], uPath = []\<rparr>
             else if CHR '':'' \<in> set (takeWhile (\<lambda>c. c \<noteq> CHR ''/'') rest)
             then Inl ''first path segment in URL cannot contain colon''
             else parse_hierarchical scheme rest)))"

definition url_Parse :: "string \<Rightarrow> error + GoURL" where
  "url_Parse rawURL =
     (case Cut rawURL (CHR ''#'') of (u, frag, _) \<Rightarrow>
      (case parse_url u of
         Inl e \<Rightarrow> Inl (''parse '' @ quote_q u @ '': '' @ e)
       | Inr url \<Rightarrow> (case url_unescape encodeFragment frag of
             Inl e \<Rightarrow> Inl (''parse '' @ quote_q rawURL @ '': '' @ e)
           | Inr _ \<Rightarrow> Inr url)))"

definition splitHostPort :: "string \<Rightarrow> string \<times> string" where
  "splitHostPort hostPort =
     (let (host, port) = (case LastIndexByte hostPort (CHR '':'') of
            Some i \<Rightarrow> if validOptionalPort (drop i hostPort) then (take i hostPort, drop (i + 1) hostPort) else (hostPort, [])
          | None \<Rightarrow> (hostPort, []))
      in (if HasPrefix host ''['' \<and> HasSuffix host '']'' then drop 1 (butlast host) else host, port))"

definition Hostname :: "GoURL \<Rightarrow> string" where
  "Hostname u = fst (splitHostPort (uHost u))"

definition url_Port :: "GoURL \<Rightarrow> string" where
  "url_Port u = snd (splitHostPort (uHost u))"

text \<open>\<open>net.JoinHostPort\<close>.\<close>

definition JoinHostPort :: "string \<Rightarrow> string \<Rightarrow> string" where
  "JoinHostPort host port = (if CHR '':'' \<in> set host
     then ''['' @ host @ '']:'' @ port else host @ '':'' @ port)"

section \<open>Plain URLs\<close>

text \<open>A URL made of a host name and a path of unreserved bytes is read as written.\<close>

definition host_byte :: "char \<Rightarrow> bool" where
  "host_byte c \<longleftrightarrow> is_alnum c \<or> c = CHR ''.'' \<or> c = CHR ''-''"

definition path_byte :: "char \<Rightarrow> bool" where
  "path_byte c \<longleftrightarrow> is_alnum c \<or> c \<in> set ''._~/-''"

lemma unescape_plain:
  assumes "\<forall>c \<in> set s. c \<noteq> CHR ''%'' \<and> \<not> byte_refused mode c"
  shows "url_unescape mode s = Inr s"
  using assms by (induction s) auto

lemma is_alnum_not_special:
  "is_alnum c \<Longrightarrow> c \<notin> {CHR ''%'', CHR ''['', CHR '':'', CHR ''@'', CHR ''/'', CHR ''?'', CHR ''#''} \<and> \<not> is_ctl c"
  by (auto simp: is_alnum_def is_ctl_def Let_def)

lemma host_byte_special:
  "host_byte c \<Longrightarrow> c \<notin> {CHR ''%'', CHR ''['', CHR '':'', CHR ''@'', CHR ''/'', CHR ''?'', CHR ''#''} \<and> \<not> is_ctl c"
  using is_alnum_not_special [of c] by (auto simp: host_byte_def is_ctl_def)

lemma host_byte_accepted: "host_byte c \<Longrightarrow> \<not> byte_refused mode c"
  by (auto simp: byte_refused_def host_escapes_def host_byte_def)

lemma host_byte_percent: "host_byte c \<Longrightarrow> c \<noteq> CHR ''%''"
  using host_byte_special [of c] by simp

lemma path_byte_special: "path_byte c \<Longrightarrow> c \<notin> {CHR ''%'', CHR ''?'', CHR ''#''} \<and> \<not> is_ctl c"
  using is_alnum_not_special [of c] by (auto simp: path_byte_def is_ctl_def)

lemma LastIndexByte_none: "c \<notin> set s \<Longrightarrow> LastIndexByte s c = None"
  by (induction s) auto

lemma parseAuthority_plain:
  assumes "\<forall>c \<in> set h. host_byte c"
  shows "parseAuthority h = Inr h"
proof -
  have n: "CHR ''['' \<notin> set h" "CHR '':'' \<notin> set h" "CHR ''@'' \<notin> set h"
    using assms host_byte_special by blast+
  have "url_unescape encodeHost h = Inr h"
    by (rule unescape_plain) (simp add: assms host_byte_accepted host_byte_percent)
  then show ?thesis using n by (simp add: parseAuthority_def parseHost_def LastIndexByte_none)
qed

lemma getScheme_https: "getScheme (''https:'' @ rest) = Inr (''https'', rest)"
  by (simp add: getScheme_def is_letter_def is_alnum_def is_digit_def)

text \<open>A URL with an authority and a path, each read by its own rule.\<close>

lemma https_url:
  assumes auth: "parseAuthority h = Inr h'" and path: "url_unescape encodePath (CHR ''/'' # q) = Inr p"
    and hs: "\<And>c. c \<in> set h \<Longrightarrow> c \<notin> {CHR ''/'', CHR ''?'', CHR ''#''} \<and> \<not> is_ctl c"
    and qs: "\<And>c. c \<in> set q \<Longrightarrow> c \<notin> {CHR ''?'', CHR ''#''} \<and> \<not> is_ctl c"
  shows "url_Parse (''https://'' @ h @ ''/'' @ q) = Inr \<lparr>uScheme = ''https'', uHost = h', uPath = p\<rparr>"
proof -
  let ?u = "''https:'' @ ''//'' @ h @ ''/'' @ q"
  have nofrag: "CHR ''#'' \<notin> set ?u" and nq: "CHR ''?'' \<notin> set (''//'' @ h @ ''/'' @ q)" using hs qs by auto
  have noctl: "\<not> list_ex is_ctl ?u"
    using hs qs by (auto simp: list_ex_iff) (auto simp: is_ctl_def)
  have "takeWhile (\<lambda>c. c \<noteq> CHR ''/'') (h @ CHR ''/'' # q) = h" "dropWhile (\<lambda>c. c \<noteq> CHR ''/'') (h @ CHR ''/'' # q) = CHR ''/'' # q"
    using hs by (auto simp: takeWhile_append2 dropWhile_append2)
  then have hier: "parse_hierarchical ''https'' (''//'' @ h @ ''/'' @ q) = Inr \<lparr>uScheme = ''https'', uHost = h', uPath = p\<rparr>"
    using path auth by (simp add: parse_hierarchical_def HasPrefix_def Let_def)
  have "before_query (''//'' @ h @ ''/'' @ q) = ''//'' @ h @ ''/'' @ q"
    using nq by (simp add: before_query_def Cut_def)
  moreover have "ToLower ''https'' = ''https''" by code_simp
  moreover have "HasPrefix (''//'' @ h @ ''/'' @ q) ''/''" by (simp add: HasPrefix_def)
  ultimately have "parse_url ?u = Inr \<lparr>uScheme = ''https'', uHost = h', uPath = p\<rparr>"
    using noctl hier unfolding parse_url_def getScheme_https by (simp add: Let_def)
  then show ?thesis using nofrag by (simp add: url_Parse_def Cut_def)
qed

lemma plain_url:
  assumes h: "\<forall>c \<in> set h. host_byte c" and p: "\<forall>c \<in> set p. path_byte c"
  shows "url_Parse (''https://'' @ h @ ''/'' @ p) = Inr \<lparr>uScheme = ''https'', uHost = h, uPath = CHR ''/'' # p\<rparr>"
proof (rule https_url [OF parseAuthority_plain [OF h]])
  show "c \<notin> {CHR ''/'', CHR ''?'', CHR ''#''} \<and> \<not> is_ctl c" if "c \<in> set h" for c
    using h that host_byte_special by blast
  show ps: "c \<notin> {CHR ''?'', CHR ''#''} \<and> \<not> is_ctl c" if "c \<in> set p" for c
    using p that path_byte_special by blast
  have "c \<noteq> CHR ''%''" if "c \<in> set p" for c using p that path_byte_special by blast
  then show "url_unescape encodePath (CHR ''/'' # p) = Inr (CHR ''/'' # p)"
    by (intro unescape_plain) (auto simp: byte_refused_def)
qed

text \<open>A host name with a port.\<close>

definition plain_authority :: "string \<Rightarrow> bool" where
  "plain_authority h \<longleftrightarrow> (\<exists>name port. h = name @ port \<and> name \<noteq> [] \<and> list_all host_byte name \<and>
     (port = [] \<or> (\<exists>ds. port = CHR '':'' # ds \<and> ds \<noteq> [] \<and> list_all is_digit ds)))"

lemma is_digit_alnum: "is_digit c \<Longrightarrow> is_alnum c"
  by (auto simp: is_digit_def is_alnum_def Let_def)

lemma LastIndexByte_unique: "c \<notin> set a \<Longrightarrow> c \<notin> set b \<Longrightarrow> LastIndexByte (a @ c # b) c = Some (length a)"
  by (induction a) (simp_all add: LastIndexByte_none)

lemma plain_authority_bytes:
  assumes "plain_authority h" "c \<in> set h"
  shows "(host_byte c \<or> c = CHR '':'') \<and> c \<notin> {CHR ''%'', CHR ''['', CHR ''@'', CHR ''/'', CHR ''?'', CHR ''#''} \<and> \<not> is_ctl c"
proof -
  have "host_byte c \<or> c = CHR '':''"
    using assms is_digit_alnum by (auto simp: plain_authority_def list_all_iff host_byte_def)
  then show ?thesis using host_byte_special [of c] by (auto simp: is_ctl_def)
qed

lemma parseAuthority_port:
  assumes "plain_authority h"
  shows "parseAuthority h = Inr h"
proof -
  have n: "CHR ''['' \<notin> set h" "CHR ''@'' \<notin> set h" using plain_authority_bytes [OF assms] by blast+
  have un: "url_unescape encodeHost h = Inr h"
  proof (rule unescape_plain, intro ballI)
    fix c
    assume "c \<in> set h"
    from plain_authority_bytes [OF assms this] have b: "host_byte c \<or> c = CHR '':''" and p: "c \<noteq> CHR ''%''" by auto
    have "\<not> byte_refused encodeHost (CHR '':'')" by (simp add: byte_refused_def host_escapes_def)
    then show "c \<noteq> CHR ''%'' \<and> \<not> byte_refused encodeHost c" using b p host_byte_accepted by auto
  qed
  obtain name port where h: "h = name @ port" "list_all host_byte name"
    and p: "port = [] \<or> (\<exists>ds. port = CHR '':'' # ds \<and> ds \<noteq> [] \<and> list_all is_digit ds)"
    using assms by (auto simp: plain_authority_def)
  have c: "CHR '':'' \<notin> set name" using h(2) host_byte_special by (auto simp: list_all_iff)
  from p show ?thesis
  proof
    assume "port = []"
    then show ?thesis using h n c un by (simp add: parseAuthority_def parseHost_def LastIndexByte_none)
  next
    assume "\<exists>ds. port = CHR '':'' # ds \<and> ds \<noteq> [] \<and> list_all is_digit ds"
    then obtain ds where ds: "port = CHR '':'' # ds" "list_all is_digit ds" by blast
    have "CHR '':'' \<notin> set ds" using ds(2) by (auto simp: list_all_iff is_digit_def)
    then have l: "LastIndexByte h (CHR '':'') = Some (length name)" using h(1) ds(1) c LastIndexByte_unique by simp
    have "Index h '':'' = Some (length name)" using h(1) ds(1) c by (simp add: Index_first)
    moreover have "validOptionalPort (drop (length name) h)" using h(1) ds by (simp add: validOptionalPort_def)
    ultimately show ?thesis using n l un by (simp add: parseAuthority_def parseHost_def LastIndexByte_none)
  qed
qed

lemma plain_host: "\<forall>c \<in> set h. host_byte c \<Longrightarrow> splitHostPort h = (h, [])"
proof -
  assume h: "\<forall>c \<in> set h. host_byte c"
  then have "CHR '':'' \<notin> set h" "CHR ''['' \<notin> set h" using host_byte_special by blast+
  moreover from this(2) have "\<not> HasPrefix h ''[''" by (auto simp: HasPrefix_iff)
  ultimately show ?thesis by (simp add: splitHostPort_def LastIndexByte_none)
qed

end
