(* ===== verification/DoH.thy ===== *)
theory DoH
  imports DNS Effects Base64 GoURL
begin

text \<open>
  The DNS-over-HTTPS service (\<^verbatim>\<open>internal/services/doh.go\<close>, \<^verbatim>\<open>doh_resolvers.go\<close>): the catalogue, the
  checks of an upstream, the binary stamp format with its encoder and decoder, the data of the
  dnscrypt-proxy template, and the probe. Name resolution, the template engine, HTTP and the DNS
  message package are parameters.
\<close>

section \<open>The catalogue\<close>

record BuiltInDoHResolver =
  brName :: string
  brDescription :: string

definition resolver :: "string \<Rightarrow> string \<Rightarrow> BuiltInDoHResolver" where
  "resolver n d = \<lparr>brName = n, brDescription = d\<rparr>"

definition BuiltInDoHResolvers :: "BuiltInDoHResolver list" where
  "BuiltInDoHResolvers =
     [resolver ''cloudflare'' ''Cloudflare 1.1.1.1 (no logging, no filter)'',
      resolver ''cloudflare-security'' ''Cloudflare 1.1.1.2 (malware filter)'',
      resolver ''cloudflare-family'' ''Cloudflare 1.1.1.3 (malware + adult filter)'',
      resolver ''quad9-doh-ip4-port443-nofilter-pri'' ''Quad9 9.9.9.10 (no filter, no DNSSEC, no ECS)'',
      resolver ''quad9-doh-ip4-port443-filter-pri'' ''Quad9 9.9.9.9 (malware filter, DNSSEC validated)'',
      resolver ''google'' ''Google 8.8.8.8 (no logging policy)'',
      resolver ''adguard-dns-doh'' ''AdGuard 94.140.14.14 (default ad-block)'',
      resolver ''adguard-dns-unfiltered-doh'' ''AdGuard 94.140.14.140 (no filter)'',
      resolver ''nextdns'' ''NextDNS (configure profile via custom sdns://)'',
      resolver ''mullvad-doh'' ''Mullvad (no logging, Sweden)'']"

definition IsBuiltInDoHResolver :: "string \<Rightarrow> bool" where
  "IsBuiltInDoHResolver name \<longleftrightarrow> list_ex (\<lambda>r. brName r = name) BuiltInDoHResolvers"

section \<open>Stamps\<close>

text \<open>
  A length-prefixed item and a sequence of them; indices and slices are only used inside the bounds
  the code has checked.
\<close>

definition readLP :: "string \<Rightarrow> nat \<Rightarrow> error + string \<times> nat" where
  "readLP raw cursor =
     (if cursor \<ge> length raw then Inl ''truncated length prefix''
      else (let n = byte (raw ! cursor) mod 128; cur = cursor + 1 in
            if cur + n > length raw then Inl ''truncated payload''
            else Inr (take n (drop cur raw), cur + n)))"

function skipVLP :: "string \<Rightarrow> nat \<Rightarrow> error + nat" where
  "skipVLP raw cursor =
     (if cursor \<ge> length raw then Inl ''truncated vlp''
      else (let more = (128 \<le> byte (raw ! cursor)); n = byte (raw ! cursor) mod 128; cur = cursor + 1 in
            if cur + n > length raw then Inl ''truncated vlp payload''
            else if \<not> more then Inr (cur + n) else skipVLP raw (cur + n)))"
  by pat_completeness auto
termination by (relation "measure (\<lambda>(raw, cursor). length raw - cursor)") auto

declare skipVLP.simps [simp del]

definition wrap_result :: "string \<Rightarrow> error + 'a \<Rightarrow> error + 'a" where
  "wrap_result pre r = (case r of Inl e \<Rightarrow> Inl (pre @ e) | Inr a \<Rightarrow> Inr a)"

definition with_slash :: "string \<Rightarrow> string" where
  "with_slash path = (if HasPrefix path ''/'' then path else ''/'' @ path)"

definition decodeDoHStamp :: "string \<Rightarrow> error + string \<times> string" where
  "decodeDoHStamp raw =
     (if length raw < 9 then Inl ''stamp truncated at properties''
      else (case wrap_result ''address: '' (readLP raw 9) of
          Inl e \<Rightarrow> Inl e
        | Inr (addr, next1) \<Rightarrow> (case wrap_result ''hashes: '' (skipVLP raw next1) of
            Inl e \<Rightarrow> Inl e
          | Inr cursor \<Rightarrow> (case wrap_result ''host: '' (readLP raw cursor) of
              Inl e \<Rightarrow> Inl e
            | Inr (host, next2) \<Rightarrow> (case wrap_result ''path: '' (readLP raw next2) of
                Inl e \<Rightarrow> Inl e
              | Inr (path, _) \<Rightarrow> Inr (host, with_slash path))))))"

definition writeLP :: "string \<Rightarrow> string" where
  "writeLP payload0 =
     (let payload = (if length payload0 > 127 then take 127 payload0 else payload0)
      in char_of (length payload) # payload)"

definition trim_padding :: "string \<Rightarrow> string" where
  "trim_padding s = rev (dropWhile (\<lambda>c. c = CHR ''='') (rev s))"

definition stamp_bytes_of :: "string \<Rightarrow> error + string" where
  "stamp_bytes_of spec =
     (case b64_decode (trim_padding (TrimPrefix spec ''sdns://'')) of
        None \<Rightarrow> Inl ''illegal base64 data'' | Some raw \<Rightarrow> Inr raw)"

definition parseSDNSEndpoint :: "string \<Rightarrow> error + string \<times> string" where
  "parseSDNSEndpoint spec = (case stamp_bytes_of spec of Inl e \<Rightarrow> Inl e | Inr raw \<Rightarrow> decodeDoHStamp raw)"

definition stamp_bytes :: "string \<Rightarrow> string \<Rightarrow> string \<Rightarrow> string" where
  "stamp_bytes addr host path =
     [CHR 0x02] @ replicate 8 (CHR 0x00) @ writeLP addr @ [CHR 0x00] @ writeLP host @ writeLP path"

definition httpsURLToStamp :: "string \<Rightarrow> error + string" where
  "httpsURLToStamp rawURL =
     (case url_Parse rawURL of
        Inl e \<Rightarrow> Inl e
      | Inr u \<Rightarrow>
          if uScheme u \<noteq> ''https'' then Inl (''scheme = '' @ uScheme u @ '', want https'')
          else (let host = Hostname u;
                    port = (if url_Port u = [] then ''443'' else url_Port u);
                    addr = (case ParseIP host of Some ip \<Rightarrow> JoinHostPort (ip_text ip) port | None \<Rightarrow> []);
                    path = (if uPath u = [] then ''/dns-query'' else uPath u)
                in Inr (''sdns://'' @ b64_encode (stamp_bytes addr host path))))"

section \<open>Checks\<close>

text \<open>The two regular expressions.\<close>

definition dohHostRegex :: "string \<Rightarrow> bool" where
  "dohHostRegex s \<longleftrightarrow> s \<noteq> [] \<and> length s \<le> 255 \<and> is_alnum (hd s) \<and> is_alnum (last s) \<and>
     list_all (\<lambda>c. is_alnum c \<or> c = CHR ''.'' \<or> c = CHR ''-'') s"

definition dohPathRegex :: "string \<Rightarrow> bool" where
  "dohPathRegex s \<longleftrightarrow> s \<noteq> [] \<and> hd s = CHR ''/'' \<and>
     list_all (\<lambda>c. is_alnum c \<or> c \<in> set ''._~/-%'') (tl s)"

definition validateDoHPort :: "string \<Rightarrow> error option" where
  "validateDoHPort s = (if s \<in> {''443'', ''4443'', ''8443''} then None
     else Some (''DoH port '' @ quote_q s @ '' not allowed (use 443/4443/8443)''))"

definition isIPLiteral :: "string \<Rightarrow> bool" where
  "isIPLiteral host \<longleftrightarrow> ParseIP host \<noteq> None"

text \<open>The environment: the system resolver.\<close>

type_synonym resolver_fn = "string \<Rightarrow> error + goip list"

definition checkUpstreamNotInternal :: "resolver_fn \<Rightarrow> string \<Rightarrow> error option" where
  "checkUpstreamNotInternal lookup host =
     (case ParseIP host of
        Some ip \<Rightarrow> if isInternalIP (Some ip) then Some (''upstream '' @ host @ '' is an internal address'') else None
      | None \<Rightarrow> (case lookup host of
            Inl e \<Rightarrow> Some (''lookup '' @ host @ '': '' @ e)
          | Inr addrs \<Rightarrow> (case find (\<lambda>a. isInternalIP (Some a)) addrs of
                Some a \<Rightarrow> Some (''upstream '' @ host @ '' resolved to internal address '' @ ip_text a)
              | None \<Rightarrow> None)))"

definition validateHTTPSUpstream :: "resolver_fn \<Rightarrow> string \<Rightarrow> error option" where
  "validateHTTPSUpstream lookup spec =
     (case url_Parse spec of
        Inl e \<Rightarrow> Some (''parse https url: '' @ e)
      | Inr u \<Rightarrow>
          if uScheme u \<noteq> ''https'' then Some ''scheme must be https''
          else if \<not> dohHostRegex (Hostname u) then Some (''invalid host '' @ quote_q (Hostname u))
          else if \<not> dohPathRegex (uPath u) then Some (''invalid path '' @ quote_q (uPath u))
          else if uPath u = [] \<or> uPath u = ''/'' then Some ''path must be a DoH endpoint (e.g. /dns-query)''
          else (case (if url_Port u = [] then None else validateDoHPort (url_Port u)) of
              Some e \<Rightarrow> Some e
            | None \<Rightarrow> checkUpstreamNotInternal lookup (Hostname u)))"

definition validateSDNSUpstream :: "resolver_fn \<Rightarrow> string \<Rightarrow> error option" where
  "validateSDNSUpstream lookup spec =
     (case stamp_bytes_of spec of
        Inl e \<Rightarrow> Some (''base64url decode: '' @ e)
      | Inr raw \<Rightarrow>
          if length raw < 1 then Some ''stamp too short''
          else if hd raw \<noteq> CHR 0x02
          then Some (''stamp protocol = 0x'' @ [hex_char (byte (hd raw) div 16), hex_char (byte (hd raw) mod 16)] @ '', want 0x02 (DoH)'')
          else (case decodeDoHStamp raw of
              Inl e \<Rightarrow> Some e
            | Inr (host, path) \<Rightarrow>
                if \<not> dohHostRegex host \<and> \<not> isIPLiteral host then Some (''invalid stamp host '' @ quote_q host)
                else if \<not> dohPathRegex path then Some (''invalid stamp path '' @ quote_q path)
                else checkUpstreamNotInternal lookup host))"

definition ValidateUpstream :: "resolver_fn \<Rightarrow> string \<Rightarrow> error option" where
  "ValidateUpstream lookup spec0 =
     (let spec = TrimSpace spec0 in
      if spec = [] then Some ''DoH upstream required''
      else if IsBuiltInDoHResolver spec then None
      else if HasPrefix spec ''https://'' then validateHTTPSUpstream lookup spec
      else if HasPrefix spec ''sdns://'' then validateSDNSUpstream lookup spec
      else Some ''DoH upstream must be a catalogue name, https:// URL, or sdns:// stamp'')"

section \<open>Rendering and applying\<close>

record dohCustomServer =
  csName :: string
  csStamp :: string

record dohTemplateData =
  tdServerNames :: "string list"
  tdCustomServers :: "dohCustomServer list"

record dohenv =
  dhSys :: sysenv
  dhTemplate :: "dohTemplateData \<Rightarrow> error + string"

definition doh_buildTemplateData :: "Config \<Rightarrow> dohTemplateData" where
  "doh_buildTemplateData c =
     (let upstream = TrimSpace (dnsDoHUpstream (cfgDNS c)) in
      if upstream = [] then \<lparr>tdServerNames = [], tdCustomServers = []\<rparr>
      else if IsBuiltInDoHResolver upstream then \<lparr>tdServerNames = [upstream], tdCustomServers = []\<rparr>
      else (let stamp = (if HasPrefix upstream ''https://''
                         then (case httpsURLToStamp upstream of Inr s \<Rightarrow> s | Inl _ \<Rightarrow> upstream) else upstream)
            in \<lparr>tdServerNames = [''lankeeper-custom''],
                tdCustomServers = [\<lparr>csName = ''lankeeper-custom'', csStamp = stamp\<rparr>]\<rparr>))"

definition doh_RenderConfig :: "dohenv \<Rightarrow> string action" where
  "doh_RenderConfig env w = io_lift (dhTemplate env (doh_buildTemplateData (wcfg w))) w"

definition dnscryptConfigPath :: string where
  "dnscryptConfigPath = ''/etc/dnscrypt-proxy/dnscrypt-proxy.toml''"

definition doh_RenderToDisk :: "dohenv \<Rightarrow> string action" where
  "doh_RenderToDisk env =
     io_bind (doh_RenderConfig env) (\<lambda>rendered.
       io_then (io_wrap ''mkdir dnscrypt-proxy dir: '' (sys (dhSys env) (CMkdirAll ''/etc/dnscrypt-proxy'' 493)))
         (sys (dhSys env) (CWriteFile dnscryptConfigPath rendered 420)))"

definition doh_ApplyConfig :: "dohenv \<Rightarrow> unit action" where
  "doh_ApplyConfig env =
     io_then (doh_RenderToDisk env) (\<lambda>w.
       (if \<not> dnsEnableDoH (cfgDNS (wcfg w))
        then io_ignore (sys (dhSys env) (CRun ''systemctl'' [''stop'', ''dnscrypt-proxy'']))
        else io_then (io_wrap ''restart dnscrypt-proxy: '' (sys (dhSys env) (CRun ''systemctl'' [''restart'', ''dnscrypt-proxy''])))
               (io_ignore (sys (dhSys env) (CRun ''systemctl'' [''enable'', ''dnscrypt-proxy''])))) w)"

section \<open>The probe\<close>

text \<open>
  The query is packed and the answer unpacked by the DNS message package, which gives the answer's
  return code; the exchange gives status and body, or an error.
\<close>

record probeenv =
  pbLookup :: resolver_fn
  pbPack :: "string \<Rightarrow> error + string"
  pbPost :: "string \<Rightarrow> string \<Rightarrow> error + nat \<times> (error + string)"
  pbUnpack :: "string \<Rightarrow> error + nat"
  pbRCodeText :: "nat \<Rightarrow> string"
  pbLatency :: duration

definition probe_endpoint :: "resolver_fn \<Rightarrow> string \<Rightarrow> error + string" where
  "probe_endpoint lookup spec =
     (if HasPrefix spec ''https://''
      then (case validateHTTPSUpstream lookup spec of Some e \<Rightarrow> Inl e | None \<Rightarrow> Inr spec)
      else if HasPrefix spec ''sdns://''
      then (case validateSDNSUpstream lookup spec of
          Some e \<Rightarrow> Inl e
        | None \<Rightarrow> (case parseSDNSEndpoint spec of
              Inl e \<Rightarrow> Inl e | Inr (host, path) \<Rightarrow> Inr (''https://'' @ host @ path)))
      else Inl ''probe requires https:// URL or sdns:// stamp'')"

definition Probe :: "probeenv \<Rightarrow> string \<Rightarrow> error + duration" where
  "Probe env spec0 =
     (let spec = TrimSpace spec0 in
      if IsBuiltInDoHResolver spec then Inl ''catalogue picks are validated by name; no probe required''
      else (case probe_endpoint (pbLookup env) spec of
          Inl e \<Rightarrow> Inl e
        | Inr endpoint \<Rightarrow> (case pbPack env ''www.example.com.'' of
            Inl e \<Rightarrow> Inl (''build query: '' @ e)
          | Inr query \<Rightarrow> (case pbPost env endpoint query of
              Inl e \<Rightarrow> Inl (''request: '' @ e)
            | Inr (status, body) \<Rightarrow>
                if status \<noteq> 200 then Inl (''HTTP '' @ Itoa (int status))
                else (case body of
                    Inl e \<Rightarrow> Inl (''read response: '' @ e)
                  | Inr b \<Rightarrow> (case pbUnpack env (take 4096 b) of
                      Inl e \<Rightarrow> Inl (''unpack DNS response: '' @ e)
                    | Inr rcode \<Rightarrow> if rcode \<noteq> 0 then Inl (''DNS rcode '' @ pbRCodeText env rcode)
                                 else Inr (pbLatency env)))))))"

section \<open>The wire format\<close>

text \<open>
  What a stamp is, independently of the code that reads it: items of at most 127 bytes after a length
  byte whose top bit is a flag; in a sequence the flag says that another item follows.
\<close>

definition lp_item :: "bool \<Rightarrow> string \<Rightarrow> string" where
  "lp_item flag xs = char_of (length xs + (if flag then 128 else 0)) # xs"

fun vlp_items :: "string list \<Rightarrow> string" where
  "vlp_items [] = []"
| "vlp_items [x] = lp_item False x"
| "vlp_items (x # y # r) = lp_item True x @ vlp_items (y # r)"

definition short :: "string \<Rightarrow> bool" where
  "short xs \<longleftrightarrow> length xs \<le> 127"

lemma lp_head [simp]: "short xs \<Longrightarrow> byte (hd (lp_item f xs)) mod 128 = length xs"
  and lp_flag [simp]: "short xs \<Longrightarrow> (128 \<le> byte (hd (lp_item f xs))) = f"
  and lp_length [simp]: "length (lp_item f xs) = Suc (length xs)"
  and lp_tl: "lp_item f xs = hd (lp_item f xs) # xs"
  by (auto simp: lp_item_def short_def)

text \<open>Any byte followed by enough others starts an item.\<close>

lemma lp_split:
  assumes "s \<noteq> []" "byte (hd s) mod 128 < length s"
  defines "x \<equiv> take (byte (hd s) mod 128) (tl s)"
  shows "s = lp_item (128 \<le> byte (hd s)) x @ drop (byte (hd s) mod 128) (tl s)" "short x"
    "length x = byte (hd s) mod 128"
proof -
  let ?n = "byte (hd s)"
  have b: "?n < 256" by (rule byte_less)
  have l: "length x = ?n mod 128" using assms by (simp add: x_def)
  then show "length x = byte (hd s) mod 128" .
  have "?n mod 128 + (if 128 \<le> ?n then 128 else 0) = ?n"
  proof (cases "128 \<le> ?n")
    case True
    have "?n - 128 < 128" using b by linarith
    then have "?n mod 128 = ?n - 128" using True by (simp add: le_mod_geq)
    then show ?thesis using True by simp
  qed simp
  then have "char_of (length x + (if 128 \<le> ?n then 128 else 0)) = hd s" using l by simp
  then show "s = lp_item (128 \<le> byte (hd s)) x @ drop (byte (hd s) mod 128) (tl s)"
    using assms(1) by (simp add: lp_item_def x_def)
  show "short x" using l by (simp add: short_def less_imp_le_nat mod_less_divisor)
qed

lemma readLP_item:
  assumes "short x"
  shows "readLP (pre @ lp_item f x @ post) (length pre) = Inr (x, length pre + Suc (length x))"
proof -
  have "(pre @ lp_item f x @ post) ! length pre = hd (lp_item f x)"
    by (simp add: nth_append lp_item_def)
  moreover have "take (length x) (drop (Suc (length pre)) (pre @ lp_item f x @ post)) = x" by (simp add: lp_item_def)
  ultimately show ?thesis using assms by (simp add: readLP_def Let_def)
qed

lemma readLP_ok:
  assumes "readLP raw cur = Inr (x, n)"
  obtains f where "drop cur raw = lp_item f x @ drop n raw" "short x" "n = cur + Suc (length x)" "n \<le> length raw"
proof -
  let ?s = "drop cur raw"
  have c: "cur < length raw" and fits: "Suc cur + byte (raw ! cur) mod 128 \<le> length raw"
    and x: "x = take (byte (raw ! cur) mod 128) (drop (Suc cur) raw)" and n: "n = Suc cur + byte (raw ! cur) mod 128"
    using assms by (auto simp: readLP_def Let_def not_le split: if_splits)
  have h: "hd ?s = raw ! cur" "tl ?s = drop (Suc cur) raw" "?s \<noteq> []"
    using c by (simp_all add: hd_drop_conv_nth tl_drop drop_Suc)
  have "byte (hd ?s) mod 128 < length ?s" using fits h c by simp
  from lp_split [OF h(3) this] h x n fits that show thesis
    by (simp add: add.commute)
qed

lemma skipVLP_items:
  assumes "hs \<noteq> []" "list_all short hs"
  shows "skipVLP (pre @ vlp_items hs @ post) (length pre) = Inr (length pre + length (vlp_items hs))"
  using assms
proof (induction hs arbitrary: pre rule: vlp_items.induct)
  case (2 x)
  have "(pre @ lp_item False x @ post) ! length pre = hd (lp_item False x)" by (simp add: nth_append lp_item_def)
  then show ?case using 2 by (subst skipVLP.simps) (simp add: Let_def del: mod_less)
next
  case (3 x y r)
  let ?rest = "vlp_items (y # r) @ post"
  have "(pre @ lp_item True x @ ?rest) ! length pre = hd (lp_item True x)" by (simp add: nth_append lp_item_def)
  moreover have "skipVLP ((pre @ lp_item True x) @ ?rest) (length (pre @ lp_item True x)) =
      Inr (length (pre @ lp_item True x) + length (vlp_items (y # r)))"
    by (rule "3.IH") (use 3 in simp_all)
  ultimately show ?case using 3(3) by (simp add: skipVLP.simps [of _ "length pre"] Let_def)
qed simp

lemma skipVLP_ok:
  assumes "skipVLP raw cur = Inr n"
  shows "\<exists>hs. hs \<noteq> [] \<and> list_all short hs \<and> drop cur raw = vlp_items hs @ drop n raw \<and> cur < n \<and> n \<le> length raw"
  using assms
proof (induction raw cur rule: skipVLP.induct)
  case (1 raw cur)
  let ?m = "byte (raw ! cur) mod 128"
  have c: "cur < length raw" and fits: "cur + 1 + ?m \<le> length raw"
    using "1.prems" by (auto simp: skipVLP.simps [of raw cur] Let_def not_le split: if_splits)
  have h: "hd (drop cur raw) = raw ! cur" "tl (drop cur raw) = drop (Suc cur) raw" "drop cur raw \<noteq> []"
    using c by (simp_all add: hd_drop_conv_nth tl_drop drop_Suc)
  obtain x where x: "drop cur raw = lp_item (128 \<le> byte (raw ! cur)) x @ drop (cur + 1 + ?m) raw" "short x"
    using lp_split [OF h(3)] h fits c by (simp add: add.commute)
  show ?case
  proof (cases "128 \<le> byte (raw ! cur)")
    case True
    then have rec: "skipVLP raw (cur + 1 + ?m) = Inr n"
      using "1.prems" c fits by (subst (asm) skipVLP.simps) (simp add: Let_def)
    from "1.IH" [OF _ refl refl refl _ _ this] True c fits
    obtain hs where hs: "hs \<noteq> []" "list_all short hs" "drop (cur + 1 + ?m) raw = vlp_items hs @ drop n raw"
      "cur + 1 + ?m < n" "n \<le> length raw" by auto
    then have "drop cur raw = vlp_items (x # hs) @ drop n raw" using x True by (cases hs) simp_all
    then show ?thesis using hs x by (intro exI [of _ "x # hs"]) simp
  next
    case False
    then have "n = cur + 1 + ?m" using "1.prems" c fits by (subst (asm) skipVLP.simps) (simp add: Let_def)
    then show ?thesis using x False fits by (intro exI [of _ "[x]"]) simp
  qed
qed

lemma decode_items:
  fixes proto rest f1 f2 f3
  assumes ok: "length props = 8" "short addr" "hashes \<noteq> []" "list_all short hashes" "short host" "short path"
  defines "raw \<equiv> proto # props @ lp_item f1 addr @ vlp_items hashes @ lp_item f2 host @ lp_item f3 path @ rest"
  shows "decodeDoHStamp raw = Inr (host, with_slash path)"
proof -
  let ?p1 = "proto # props" and ?p2 = "proto # props @ lp_item f1 addr"
  let ?p3 = "?p2 @ vlp_items hashes" let ?p4 = "?p3 @ lp_item f2 host"
  have "readLP raw 9 = Inr (addr, length ?p2)"
    using readLP_item [of addr ?p1 f1] ok by (simp add: raw_def)
  moreover have "skipVLP raw (length ?p2) = Inr (length ?p3)"
    using skipVLP_items [of hashes ?p2] ok by (simp add: raw_def)
  moreover have "readLP raw (length ?p3) = Inr (host, length ?p4)"
    using readLP_item [of host ?p3 f2] ok by (simp add: raw_def)
  moreover have "readLP raw (length ?p4) = Inr (path, length ?p4 + Suc (length path))"
    using readLP_item [of path ?p4 f3] ok by (simp add: raw_def)
  moreover have "\<not> length raw < 9" using ok by (simp add: raw_def)
  ultimately show ?thesis
    by (simp only: decodeDoHStamp_def wrap_result_def sum.case prod.case if_False)
qed

text \<open>
  The stamp decoder is exact: it returns a host and a path for precisely the byte strings that
  consist of a protocol byte, eight bytes of properties, an address item, a non-empty sequence of hash
  items, the host item, the path item and anything after it.
\<close>

theorem decodeDoHStamp_exact:
  "decodeDoHStamp raw = Inr (host, p) \<longleftrightarrow>
     (\<exists>proto props f1 addr hashes f2 f3 path rest.
        raw = proto # props @ lp_item f1 addr @ vlp_items hashes @ lp_item f2 host @ lp_item f3 path @ rest \<and>
        length props = 8 \<and> short addr \<and> hashes \<noteq> [] \<and> list_all short hashes \<and> short host \<and> short path \<and>
        p = with_slash path)"
proof
  assume "decodeDoHStamp raw = Inr (host, p)"
  then obtain addr n1 n2 n3 path n4 where
    len: "9 \<le> length raw" and a: "readLP raw 9 = Inr (addr, n1)" and hs: "skipVLP raw n1 = Inr n2"
    and h: "readLP raw n2 = Inr (host, n3)" and pa: "readLP raw n3 = Inr (path, n4)" and p: "p = with_slash path"
    by (auto simp: decodeDoHStamp_def wrap_result_def not_less split: if_splits sum.splits prod.splits)
  obtain f1 where 1: "drop 9 raw = lp_item f1 addr @ drop n1 raw" "short addr" using a by (rule readLP_ok)
  obtain hashes where 2: "hashes \<noteq> []" "list_all short hashes" "drop n1 raw = vlp_items hashes @ drop n2 raw"
    using skipVLP_ok [OF hs] by blast
  obtain f2 where 3: "drop n2 raw = lp_item f2 host @ drop n3 raw" "short host" using h by (rule readLP_ok)
  obtain f3 where 4: "drop n3 raw = lp_item f3 path @ drop n4 raw" "short path" using pa by (rule readLP_ok)
  obtain proto r where r: "raw = proto # r" using len by (cases raw) auto
  have "raw = proto # take 8 r @ lp_item f1 addr @ vlp_items hashes @ lp_item f2 host @ lp_item f3 path @ drop n4 raw"
    using 1 2 3 4 r by (metis append_take_drop_id drop_Suc_Cons eval_nat_numeral(3))
  moreover have "length (take 8 r) = 8" using len r by simp
  ultimately show "\<exists>proto props f1 addr hashes f2 f3 path rest.
        raw = proto # props @ lp_item f1 addr @ vlp_items hashes @ lp_item f2 host @ lp_item f3 path @ rest \<and>
        length props = 8 \<and> short addr \<and> hashes \<noteq> [] \<and> list_all short hashes \<and> short host \<and> short path \<and>
        p = with_slash path"
    using 1(2) 2(1,2) 3(2) 4(2) p by blast
next
  assume "\<exists>proto props f1 addr hashes f2 f3 path rest.
        raw = proto # props @ lp_item f1 addr @ vlp_items hashes @ lp_item f2 host @ lp_item f3 path @ rest \<and>
        length props = 8 \<and> short addr \<and> hashes \<noteq> [] \<and> list_all short hashes \<and> short host \<and> short path \<and>
        p = with_slash path"
  then obtain proto props f1 addr hashes f2 f3 path rest where
    raw: "raw = proto # props @ lp_item f1 addr @ vlp_items hashes @ lp_item f2 host @ lp_item f3 path @ rest"
    and "length props = 8" "short addr" "hashes \<noteq> []" "list_all short hashes" "short host" "short path" "p = with_slash path"
    by blast
  then show "decodeDoHStamp raw = Inr (host, p)" by (simp add: decode_items)
qed

section \<open>Stamps of URLs\<close>

lemma writeLP_item: "writeLP xs = lp_item False (take 127 xs)"
  by (simp add: writeLP_def lp_item_def Let_def min_def)

lemma short_take [simp]: "short (take 127 xs)"
  by (simp add: short_def)

lemma short_take_id: "short xs \<Longrightarrow> take 127 xs = xs"
  by (simp add: short_def)

lemma decode_stamp_bytes:
  "decodeDoHStamp (stamp_bytes addr host path) = Inr (take 127 host, with_slash (take 127 path))"
proof -
  have "stamp_bytes addr host path = CHR 0x02 # replicate 8 (CHR 0x00) @ lp_item False (take 127 addr) @ vlp_items [[]] @
      lp_item False (take 127 host) @ lp_item False (take 127 path) @ []"
    by (simp add: stamp_bytes_def writeLP_item lp_item_def char_of_def)
  moreover have "length (replicate 8 (CHR 0x00)) = 8" "list_all short [[]]" by (simp_all add: short_def)
  ultimately show ?thesis by (simp only: decode_items short_take list.distinct not_False_eq_True)
qed

lemma b64_no_padding: "c \<in> set (b64_encode s) \<Longrightarrow> c \<noteq> CHR ''=''"
proof -
  assume "c \<in> set (b64_encode s)"
  then obtain n where n: "n < 64" "c = b64_char n" by (auto simp: b64_encode_vals dest: b64_vals_small)
  then have "b64_val c \<noteq> None" by (simp add: b64_val_char)
  moreover have "b64_val CHR ''='' = None" by code_simp
  ultimately show ?thesis by metis
qed

lemma stamp_decodes: "stamp_bytes_of (''sdns://'' @ b64_encode raw) = Inr raw"
proof -
  have "dropWhile (\<lambda>c. c = CHR ''='') (rev (b64_encode raw)) = rev (b64_encode raw)"
    unfolding dropWhile_eq_self_iff using b64_no_padding [of "hd (rev (b64_encode raw))" raw]
    by (metis hd_in_set set_rev)
  then have "trim_padding (b64_encode raw) = b64_encode raw" by (simp add: trim_padding_def)
  moreover have "TrimPrefix (''sdns://'' @ b64_encode raw) ''sdns://'' = b64_encode raw"
    by (simp add: TrimPrefix_def HasPrefix_def)
  ultimately show ?thesis by (simp add: stamp_bytes_of_def b64_decode_encode)
qed

lemma stamp_trimmed: "TrimSpace (''sdns://'' @ b64_encode raw) = ''sdns://'' @ b64_encode raw"
proof -
  let ?s = "''sdns://'' @ b64_encode raw"
  have ns: "\<not> is_space c" if "c \<in> set ?s" for c using that b64_text [of c raw] by (auto simp: is_space_def)
  then have "dropWhile is_space ?s = ?s" by (simp add: is_space_def)
  moreover have "dropWhile is_space (rev ?s) = rev ?s"
    using ns by (metis dropWhile_eq_self_iff hd_in_set set_rev)
  ultimately show ?thesis by (simp add: TrimSpace_def)
qed

lemma stamp_not_builtin: "\<not> IsBuiltInDoHResolver (''sdns://'' @ s)" "\<not> IsBuiltInDoHResolver (''https://'' @ s)"
  by (simp_all add: IsBuiltInDoHResolver_def BuiltInDoHResolvers_def resolver_def)

lemma path_with_slash: "dohPathRegex p \<Longrightarrow> with_slash p = p"
  by (cases p) (auto simp: dohPathRegex_def with_slash_def HasPrefix_def)

lemma https_accepted:
  assumes "validateHTTPSUpstream lookup spec = None"
  obtains u where "url_Parse spec = Inr u" "uScheme u = ''https''" "dohHostRegex (Hostname u)" "dohPathRegex (uPath u)"
    "uPath u \<noteq> []" "checkUpstreamNotInternal lookup (Hostname u) = None"
  using assms that by (auto simp: validateHTTPSUpstream_def split: sum.splits if_splits option.splits)

text \<open>
  A custom URL that is accepted reaches the proxy unchanged: the configuration gets one static
  server whose stamp decodes to the host and path of the URL, and that stamp is accepted by the same
  check (for hosts and paths up to the 127 bytes an item of a stamp can hold).
\<close>

theorem accepted_url_becomes_its_stamp:
  assumes "ValidateUpstream lookup spec = None" "HasPrefix (TrimSpace spec) ''https://''"
    "url_Parse (TrimSpace spec) = Inr u" "short (Hostname u)" "short (uPath u)"
    "dnsDoHUpstream (cfgDNS c) = spec"
  shows "\<exists>stamp. doh_buildTemplateData c =
       \<lparr>tdServerNames = [''lankeeper-custom''], tdCustomServers = [\<lparr>csName = ''lankeeper-custom'', csStamp = stamp\<rparr>]\<rparr> \<and>
     parseSDNSEndpoint stamp = Inr (Hostname u, uPath u) \<and> ValidateUpstream lookup stamp = None"
proof -
  obtain t where t: "TrimSpace spec = ''https://'' @ t" using assms(2) by (auto simp: HasPrefix_iff)
  note nb = stamp_not_builtin(2) [of t, folded t]
  have v: "validateHTTPSUpstream lookup (TrimSpace spec) = None"
    using assms(1,2) nb by (simp add: ValidateUpstream_def Let_def split: if_splits)
  then obtain ok: "uScheme u = ''https''" "dohHostRegex (Hostname u)" "dohPathRegex (uPath u)" "uPath u \<noteq> []"
    "checkUpstreamNotInternal lookup (Hostname u) = None"
    using assms(3) by (elim https_accepted) simp
  obtain addr where st: "httpsURLToStamp (TrimSpace spec) = Inr (''sdns://'' @ b64_encode (stamp_bytes addr (Hostname u) (uPath u)))"
    using assms(3) ok(1,4) by (simp add: httpsURLToStamp_def Let_def)
  define raw where "raw = stamp_bytes addr (Hostname u) (uPath u)"
  have dec: "decodeDoHStamp raw = Inr (Hostname u, uPath u)"
    using assms(4,5) ok(3) by (simp add: raw_def decode_stamp_bytes short_take_id path_with_slash)
  have "hd raw = CHR 0x02" "\<not> length raw < 1" by (simp_all add: raw_def stamp_bytes_def)
  then have "validateSDNSUpstream lookup (''sdns://'' @ b64_encode raw) = None"
    using dec ok by (simp add: validateSDNSUpstream_def stamp_decodes del: append.simps)
  then have "ValidateUpstream lookup (''sdns://'' @ b64_encode raw) = None"
    using stamp_not_builtin(1) [of "b64_encode raw"] unfolding ValidateUpstream_def Let_def stamp_trimmed
    by (simp add: HasPrefix_def)
  moreover have "parseSDNSEndpoint (''sdns://'' @ b64_encode raw) = Inr (Hostname u, uPath u)"
    using dec by (simp add: parseSDNSEndpoint_def stamp_decodes del: append.simps)
  moreover have "doh_buildTemplateData c = \<lparr>tdServerNames = [''lankeeper-custom''],
      tdCustomServers = [\<lparr>csName = ''lankeeper-custom'', csStamp = ''sdns://'' @ b64_encode raw\<rparr>]\<rparr>"
    using st nb assms(2,6) t unfolding doh_buildTemplateData_def Let_def raw_def by simp
  ultimately show ?thesis by (intro exI [of _ "''sdns://'' @ b64_encode raw"]) simp
qed

theorem accepted_url_becomes_its_stamp_witness:
  "\<exists>stamp. doh_buildTemplateData (zero_Config\<lparr>cfgDNS := (cfgDNS zero_Config)\<lparr>dnsDoHUpstream := ''https://dns.example/q''\<rparr>\<rparr>) =
       \<lparr>tdServerNames = [''lankeeper-custom''], tdCustomServers = [\<lparr>csName = ''lankeeper-custom'', csStamp = stamp\<rparr>]\<rparr> \<and>
     parseSDNSEndpoint stamp = Inr (''dns.example'', ''/q'') \<and> ValidateUpstream (\<lambda>_. Inr [[9, 9, 9, 9]]) stamp = None"
proof -
  let ?u = "\<lparr>uScheme = ''https'', uHost = ''dns.example'', uPath = ''/q''\<rparr>"
  have "ValidateUpstream (\<lambda>_. Inr [[9, 9, 9, 9]]) ''https://dns.example/q'' = None"
    "HasPrefix (TrimSpace ''https://dns.example/q'') ''https://''"
    "url_Parse (TrimSpace ''https://dns.example/q'') = Inr ?u" "short (Hostname ?u)" "short (uPath ?u)"
    "Hostname ?u = ''dns.example''"
    by code_simp+
  from accepted_url_becomes_its_stamp [OF this(1-5)] this(6) show ?thesis by simp
qed

section \<open>What reaches the configuration file\<close>

text \<open>
  The bytes that are harmless in a single-quoted TOML string: not a quotation mark, not a control character,
  in particular no line end, which such a string may not contain. The base64 decoder skips line ends, so a
  stamp may bring them.
\<close>

definition config_byte :: "char \<Rightarrow> bool" where
  "config_byte c \<longleftrightarrow> is_alnum c \<or> c \<in> set ''-_:/=''"

definition line_end :: "char \<Rightarrow> bool" where
  "line_end c \<longleftrightarrow> c = CHR 0x0A \<or> c = CHR 0x0D"

definition stamp_byte :: "char \<Rightarrow> bool" where
  "stamp_byte c \<longleftrightarrow> config_byte c \<or> c = CHR 0x0A \<or> c = CHR 0x0D"

lemma b64_val_alphabet: "b64_val c \<noteq> None \<Longrightarrow> stamp_byte c"
  by (auto simp: b64_val_def stamp_byte_def config_byte_def is_alnum_def Let_def split: if_splits)

lemma b64_decode_alphabet:
  assumes "b64_decode s = Some raw"
  shows "list_all stamp_byte s"
proof -
  have "b64_val c \<noteq> None" if "c \<in> set s" "c \<noteq> CHR 0x0A" "c \<noteq> CHR 0x0D" for c
    using assms that by (auto simp: b64_decode_def Let_def list_all_iff split: if_splits)
  then show ?thesis using b64_val_alphabet by (fastforce simp: list_all_iff stamp_byte_def config_byte_def)
qed

lemma trim_padding_alphabet: "list_all stamp_byte (trim_padding s) \<Longrightarrow> list_all stamp_byte s"
proof -
  assume ok: "list_all stamp_byte (trim_padding s)"
  have "rev s = takeWhile (\<lambda>c. c = CHR ''='') (rev s) @ rev (trim_padding s)"
    by (simp add: trim_padding_def)
  then have "set s = set (takeWhile (\<lambda>c. c = CHR ''='') (rev s)) \<union> set (trim_padding s)"
    by (metis set_append set_rev)
  then have "c = CHR ''='' \<or> c \<in> set (trim_padding s)" if "c \<in> set s" for c
    using that by (auto dest: set_takeWhileD)
  then show ?thesis using ok by (fastforce simp: list_all_iff stamp_byte_def config_byte_def)
qed

lemma stamp_alphabet:
  assumes "stamp_bytes_of (''sdns://'' @ s) = Inr raw"
  shows "list_all stamp_byte (''sdns://'' @ s)"
proof -
  have "TrimPrefix (''sdns://'' @ s) ''sdns://'' = s" by (simp add: TrimPrefix_def HasPrefix_def)
  then have "b64_decode (trim_padding s) = Some raw"
    using assms by (simp add: stamp_bytes_of_def split: option.splits)
  then have "list_all stamp_byte s" by (rule trim_padding_alphabet [OF b64_decode_alphabet])
  then show ?thesis by (simp add: stamp_byte_def config_byte_def is_alnum_def)
qed

lemma stamp_byte_strict: "list_all stamp_byte s \<Longrightarrow> list_all (\<lambda>c. \<not> line_end c) s \<Longrightarrow> list_all config_byte s"
  by (auto simp: list_all_iff stamp_byte_def line_end_def)

lemma encoded_strict: "list_all config_byte (''sdns://'' @ b64_encode raw)"
proof (rule stamp_byte_strict [OF stamp_alphabet [OF stamp_decodes]])
  have "\<not> line_end c" if "c \<in> set (b64_encode raw)" for c
    using b64_text [OF that] by (auto simp: line_end_def is_space_def)
  then show "list_all (\<lambda>c. \<not> line_end c) (''sdns://'' @ b64_encode raw)" by (auto simp: list_all_iff line_end_def)
qed

lemma builtin_strict: "IsBuiltInDoHResolver s \<Longrightarrow> list_all config_byte s"
proof -
  assume "IsBuiltInDoHResolver s"
  then have "s \<in> brName ` set BuiltInDoHResolvers" by (auto simp: IsBuiltInDoHResolver_def list_ex_iff)
  moreover have "list_all (\<lambda>r. list_all config_byte (brName r)) BuiltInDoHResolvers" by code_simp
  ultimately show ?thesis by (auto simp: list_all_iff)
qed

text \<open>
  C26. What an accepted upstream brings into the proxy's configuration, where names and stamps stand in single
  quotes: names consist of harmless bytes. Stamps consist of harmless bytes and line ends, so that they hold no
  quotation mark, and line ends only come from a stamp the operator entered with line ends in it: for a
  catalogue name, a URL or a stamp without them every byte is harmless. A stamp with a line end is accepted
  and rendered (\<open>broken_stamp_accepted\<close>).
\<close>

theorem accepted_upstream_renders_safely:
  assumes "ValidateUpstream lookup (dnsDoHUpstream (cfgDNS c)) = None"
  shows "list_all (list_all config_byte) (tdServerNames (doh_buildTemplateData c)) \<and>
    list_all (\<lambda>cs. list_all (\<lambda>b. config_byte b \<or> line_end b) (csStamp cs) \<and>
      (list_all config_byte (csStamp cs) \<or>
       csStamp cs = TrimSpace (dnsDoHUpstream (cfgDNS c)) \<and> HasPrefix (csStamp cs) ''sdns://'' \<and> list_ex line_end (csStamp cs)))
      (tdCustomServers (doh_buildTemplateData c))"
proof -
  let ?s = "TrimSpace (dnsDoHUpstream (cfgDNS c))"
  have name: "list_all config_byte ''lankeeper-custom''" by code_simp
  consider "IsBuiltInDoHResolver ?s" "?s \<noteq> []"
    | (https) t where "\<not> IsBuiltInDoHResolver ?s" "?s = ''https://'' @ t" "validateHTTPSUpstream lookup ?s = None"
    | (sdns) t where "\<not> IsBuiltInDoHResolver ?s" "?s = ''sdns://'' @ t" "\<not> HasPrefix ?s ''https://''"
        "validateSDNSUpstream lookup ?s = None"
    using assms by (auto simp: ValidateUpstream_def Let_def HasPrefix_iff split: if_splits)
  then show ?thesis
  proof cases
    case 1
    then show ?thesis using builtin_strict by (simp add: doh_buildTemplateData_def)
  next
    case https
    obtain u where "url_Parse ?s = Inr u" "uScheme u = ''https''" using https(3) by (rule https_accepted)
    then obtain raw where st: "httpsURLToStamp ?s = Inr (''sdns://'' @ b64_encode raw)"
      by (simp add: httpsURLToStamp_def Let_def)
    have "list_all config_byte (''sdns://'' @ b64_encode raw)" by (rule encoded_strict)
    moreover from this have "list_all (\<lambda>b. config_byte b \<or> line_end b) (''sdns://'' @ b64_encode raw)"
      by (rule list.pred_mono_strong) simp
    moreover have "HasPrefix ?s ''https://''" "?s \<noteq> []" using https(2) by (simp_all add: HasPrefix_def)
    ultimately show ?thesis using https(1) st name by (simp add: doh_buildTemplateData_def del: append.simps)
  next
    case sdns
    obtain raw where "stamp_bytes_of (''sdns://'' @ t) = Inr raw"
      using sdns(2,4) by (auto simp: validateSDNSUpstream_def simp del: append.simps split: sum.splits)
    then have all: "list_all stamp_byte ?s" unfolding sdns(2) by (rule stamp_alphabet)
    then have "list_all (\<lambda>b. config_byte b \<or> line_end b) ?s" by (auto simp: list_all_iff stamp_byte_def line_end_def)
    moreover have "list_all config_byte ?s \<or> list_ex line_end ?s"
      using stamp_byte_strict [OF all] by (auto simp: list_all_iff list_ex_iff)
    moreover have "?s \<noteq> []" "HasPrefix ?s ''sdns://''" using sdns(2) by (simp_all add: HasPrefix_def)
    ultimately show ?thesis using sdns(1,3) name by (simp add: doh_buildTemplateData_def)
  qed
qed

definition plain_stamp :: string where
  "plain_stamp = ''sdns://'' @ b64_encode (stamp_bytes [] ''dns.example'' ''/dns-query'')"

definition broken_stamp :: string where
  "broken_stamp = ''sdns://'' @ CHR 0x0A # b64_encode (stamp_bytes [] ''dns.example'' ''/dns-query'')"

lemma broken_decodes: "stamp_bytes_of (''sdns://'' @ CHR 0x0A # b64_encode raw) = Inr raw"
proof -
  have "trim_padding (CHR 0x0A # b64_encode raw) = CHR 0x0A # trim_padding (b64_encode raw)"
    by (auto simp: trim_padding_def dropWhile_append)
  moreover have "TrimPrefix (''sdns://'' @ s) ''sdns://'' = s" for s by (simp add: TrimPrefix_def HasPrefix_def)
  moreover have "b64_decode (CHR 0x0A # t) = b64_decode t" for t by (simp add: b64_decode_def)
  ultimately show ?thesis using stamp_decodes [of raw] by (simp add: stamp_bytes_of_def del: append.simps)
qed

lemma demo_stamp_accepted:
  assumes "stamp_bytes_of (''sdns://'' @ t) = Inr (stamp_bytes [] ''dns.example'' ''/dns-query'')" "TrimSpace (''sdns://'' @ t) = ''sdns://'' @ t"
  shows "ValidateUpstream (\<lambda>_. Inr [[9, 9, 9, 9]]) (''sdns://'' @ t) = None"
proof -
  let ?raw = "stamp_bytes [] ''dns.example'' ''/dns-query''"
  have "hd ?raw = CHR 0x02" "\<not> length ?raw < 1" by (simp_all add: stamp_bytes_def)
  moreover have "decodeDoHStamp ?raw = Inr (''dns.example'', ''/dns-query'')"
    by (simp add: decode_stamp_bytes with_slash_def HasPrefix_def)
  moreover have "dohHostRegex ''dns.example''" "dohPathRegex ''/dns-query''" by code_simp+
  moreover have "checkUpstreamNotInternal (\<lambda>_. Inr [[9, 9, 9, 9]]) ''dns.example'' = None" by code_simp
  ultimately have "validateSDNSUpstream (\<lambda>_. Inr [[9, 9, 9, 9]]) (''sdns://'' @ t) = None"
    using assms(1) by (simp add: validateSDNSUpstream_def del: append.simps)
  then show ?thesis using stamp_not_builtin(1) [of t]
    unfolding ValidateUpstream_def Let_def assms(2) by (simp add: HasPrefix_def)
qed

abbreviation with_upstream :: "string \<Rightarrow> Config" where
  "with_upstream u \<equiv> zero_Config\<lparr>cfgDNS := (cfgDNS zero_Config)\<lparr>dnsDoHUpstream := u\<rparr>\<rparr>"

theorem accepted_upstream_renders_safely_witness:
  "map csStamp (tdCustomServers (doh_buildTemplateData (with_upstream plain_stamp))) = [plain_stamp] \<and> list_all config_byte plain_stamp"
proof -
  have "ValidateUpstream (\<lambda>_. Inr [[9, 9, 9, 9]]) (dnsDoHUpstream (cfgDNS (with_upstream plain_stamp))) = None"
    using demo_stamp_accepted [OF stamp_decodes stamp_trimmed] by (simp add: plain_stamp_def del: append.simps)
  note ok = accepted_upstream_renders_safely [OF this]
  have "\<not> list_ex line_end plain_stamp"
    using encoded_strict by (fastforce simp: plain_stamp_def list_all_iff list_ex_iff line_end_def config_byte_def is_alnum_def simp del: append.simps)
  moreover have "map csStamp (tdCustomServers (doh_buildTemplateData (with_upstream plain_stamp))) = [plain_stamp]"
    using stamp_trimmed stamp_not_builtin(1) by (simp add: doh_buildTemplateData_def plain_stamp_def HasPrefix_def)
  ultimately show ?thesis using ok by (auto simp: list_all_iff)
qed

text \<open>The check lets a line end through to the file, where it breaks the quoted string.\<close>

theorem broken_stamp_accepted:
  "ValidateUpstream (\<lambda>_. Inr [[9, 9, 9, 9]]) broken_stamp = None \<and>
   map csStamp (tdCustomServers (doh_buildTemplateData (with_upstream broken_stamp))) = [broken_stamp] \<and> list_ex line_end broken_stamp"
proof -
  let ?r = "CHR 0x0A # b64_encode (stamp_bytes [] ''dns.example'' ''/dns-query'')"
  have "TrimSpace (''sdns://'' @ ?r) = ''sdns://'' @ ?r" by code_simp
  then show ?thesis
    using demo_stamp_accepted [OF broken_decodes] stamp_not_builtin(1) [of ?r]
    by (simp add: broken_stamp_def doh_buildTemplateData_def HasPrefix_def line_end_def)
qed

section \<open>The guard against internal targets\<close>

text \<open>An accepted stamp names a host that is outside, by its address or by every address it resolves to.\<close>

lemma accepted_host_outside:
  assumes "checkUpstreamNotInternal lookup host = None"
  shows "case ParseIP host of Some ip \<Rightarrow> \<not> isInternalIP (Some ip)
    | None \<Rightarrow> \<exists>ips. lookup host = Inr ips \<and> (\<forall>ip \<in> set ips. \<not> isInternalIP (Some ip))"
  using assms by (auto simp: checkUpstreamNotInternal_def find_None_iff split: option.splits sum.splits if_splits)

text \<open>
  The address item of a stamp, which the proxy connects to, is skipped: a stamp of a public name with
  the address of a LAN host is accepted.
\<close>

definition lan_stamp :: string where
  "lan_stamp = ''sdns://'' @ b64_encode (stamp_bytes ''192.168.1.10:443'' ''dns.example'' ''/dns-query'')"

lemma stamp_address_unchecked:
  "ValidateUpstream (\<lambda>_. Inr [[9, 9, 9, 9]]) lan_stamp = None"
proof -
  let ?raw = "stamp_bytes ''192.168.1.10:443'' ''dns.example'' ''/dns-query''"
  have "hd ?raw = CHR 0x02" "\<not> length ?raw < 1" by (simp_all add: stamp_bytes_def)
  moreover have "decodeDoHStamp ?raw = Inr (''dns.example'', ''/dns-query'')"
    by (simp add: decode_stamp_bytes with_slash_def HasPrefix_def)
  moreover have "dohHostRegex ''dns.example''" "dohPathRegex ''/dns-query''" by code_simp+
  moreover have "checkUpstreamNotInternal (\<lambda>_. Inr [[9, 9, 9, 9]]) ''dns.example'' = None" by code_simp
  ultimately have "validateSDNSUpstream (\<lambda>_. Inr [[9, 9, 9, 9]]) lan_stamp = None"
    unfolding lan_stamp_def by (simp add: validateSDNSUpstream_def stamp_decodes del: append.simps)
  then show ?thesis using stamp_not_builtin(1) [of "b64_encode ?raw"]
    unfolding lan_stamp_def ValidateUpstream_def Let_def stamp_trimmed by (simp add: HasPrefix_def)
qed

text \<open>A host of 255 bytes passes the check but its stamp holds only the first 127.\<close>

lemma long_host_truncated:
  "parseSDNSEndpoint (''sdns://'' @ b64_encode (stamp_bytes addr host path)) = Inr (take 127 host, with_slash (take 127 path))"
  by (simp add: parseSDNSEndpoint_def stamp_decodes decode_stamp_bytes del: append.simps)

end
