(* ===== verification/BackupSchedule.thy ===== *)
theory BackupSchedule
  imports ConfigTypes "HOL-Library.Word"
begin

unbundle bit_operations_syntax

text \<open>
  The cron dialect of the backup scheduler (\<^verbatim>\<open>internal/services/backup_schedule.go\<close>): parsing
  a schedule into bit sets, the calendar of Go's time package that a schedule is matched against, the
  search for the next matching minute, and one turn of the scheduler goroutine. A location is the
  offset from UTC in seconds at each instant; the time zone database itself is a parameter.
\<close>

section \<open>Definitions\<close>

subsection \<open>Field sets\<close>

type_synonym fieldSet = "64 word"

text \<open>Go's \<open>1 << n\<close> at 64 bits, for a shift count that is not negative.\<close>

definition bit_at :: "int \<Rightarrow> fieldSet" where
  "bit_at n = push_bit (nat n) 1"

definition has :: "fieldSet \<Rightarrow> int \<Rightarrow> bool" where
  "has f n \<longleftrightarrow> n \<ge> 0 \<and> n < 64 \<and> f AND bit_at n \<noteq> 0"

text \<open>
  The loop \<open>for i := lo; i <= hi; i += step\<close> that sets bits. \<open>i\<close> wraps around at 64 bits and a
  negative shift count panics; the callers pass 64-bit values and a positive step.
\<close>

lemma wrap64_step:
  assumes "0 \<le> i" and "in_int64 i" and "in_int64 step" and "1 \<le> step"
  shows "wrap64 (i + step) = (if i + step \<le> max_int64 then i + step else i + step - 2 ^ 64)"
proof (cases "i + step \<le> max_int64")
  case True
  then show ?thesis using assms by (simp add: in_int64_def min_int64_def)
next
  case False
  let ?x = "i + step + 9223372036854775808 - 18446744073709551616"
  have "?x mod 18446744073709551616 = ?x"
    by (rule mod_pos_pos_trivial) (use False assms in \<open>simp_all add: in_int64_def max_int64_def\<close>)
  then have "(i + step + 9223372036854775808) mod 18446744073709551616 = ?x"
    by (metis minus_mod_self2)
  with False show ?thesis by (simp add: wrap64_def)
qed

function set_bits :: "int \<Rightarrow> int \<Rightarrow> int \<Rightarrow> fieldSet \<Rightarrow> fieldSet outcome" where
  "set_bits i hi step f =
     (if i > hi then Returned f
      else if i < 0 \<or> \<not> (in_int64 i \<and> in_int64 step \<and> 1 \<le> step) then Panicked
      else set_bits (wrap64 (i + step)) hi step (f OR bit_at i))"
  by pat_completeness auto
termination
proof (relation "measure (\<lambda>(i, hi, step, f). if i < 0 then 0 else nat (hi - i + 1))")
  show "wf (measure (\<lambda>(i, hi, step :: int, f :: fieldSet). if i < (0::int) then 0 else nat (hi - i + 1)))"
    by simp
next
  fix i hi step :: int and f :: fieldSet
  assume "\<not> hi < i" and "\<not> (i < 0 \<or> \<not> (in_int64 i \<and> in_int64 step \<and> 1 \<le> step))"
  moreover from this have "wrap64 (i + step) < 0 \<or> wrap64 (i + step) = i + step"
    using wrap64_step [of i step] by (auto simp: in_int64_def max_int64_def)
  ultimately show "((wrap64 (i + step), hi, step, f OR bit_at i), i, hi, step, f)
      \<in> measure (\<lambda>(i, hi, step, f). if i < 0 then 0 else nat (hi - i + 1))"
    by auto
qed

declare set_bits.simps [simp del]

definition makeFieldSet :: "int \<Rightarrow> int \<Rightarrow> bool \<Rightarrow> fieldSet" where
  "makeFieldSet mn mx every =
     (if every then foldl (\<lambda>f i. f OR bit_at i) 0 [mn..mx] else 0)"

subsection \<open>Parsing\<close>

text \<open>The step of an atom and what stands before it.\<close>

definition parseStep :: "string \<Rightarrow> (int \<times> string) outcome" where
  "parseStep atom =
     (case Index atom ''/'' of
        None \<Rightarrow> Returned (1, atom)
      | Some k \<Rightarrow> (case Atoi (drop (k + 1) atom) of
            None \<Rightarrow> Failed (''bad step '' @ quote_q atom)
          | Some s \<Rightarrow> if s < 1 then Failed (''bad step '' @ quote_q atom) else Returned (s, take k atom)))"

definition parseBounds :: "string \<Rightarrow> int \<Rightarrow> int \<Rightarrow> (int \<times> int) outcome" where
  "parseBounds atom mn mx =
     (if atom = ''*'' then Returned (mn, mx)
      else if Contains atom ''-'' then
        (let parts = SplitN2 atom (CHR ''-'') in
         case (Atoi (parts ! 0), Atoi (parts ! 1)) of
           (Some a, Some b) \<Rightarrow> Returned (a, b)
         | _ \<Rightarrow> Failed (''bad range '' @ quote_q atom))
      else (case Atoi atom of
           Some n \<Rightarrow> Returned (n, n)
         | None \<Rightarrow> Failed (''bad number '' @ quote_q atom)))"

definition parseAtom :: "string \<Rightarrow> int \<Rightarrow> int \<Rightarrow> fieldSet \<Rightarrow> fieldSet outcome" where
  "parseAtom atom0 mn mx out =
     (let atom = TrimSpace atom0 in
      if atom = [] then Returned out
      else bind_outcome (parseStep atom) (\<lambda>(step, rest).
        bind_outcome (parseBounds rest mn mx) (\<lambda>(lo, hi).
          if lo < mn \<or> hi > mx \<or> lo > hi
          then Failed (''out-of-range field '' @ Itoa lo @ ''-'' @ Itoa hi @
                 '' (allowed '' @ Itoa mn @ ''-'' @ Itoa mx @ '')'')
          else set_bits lo hi step out)))"

fun parseAtoms :: "string list \<Rightarrow> int \<Rightarrow> int \<Rightarrow> fieldSet \<Rightarrow> fieldSet outcome" where
  "parseAtoms [] mn mx out = Returned out"
| "parseAtoms (a # as) mn mx out =
     bind_outcome (parseAtom a mn mx out) (\<lambda>out'. parseAtoms as mn mx out')"

definition parseField :: "string \<Rightarrow> int \<Rightarrow> int \<Rightarrow> fieldSet outcome" where
  "parseField spec mn mx =
     (if spec = ''*'' then Returned (makeFieldSet mn mx True)
      else bind_outcome (parseAtoms (Split spec (CHR '','')) mn mx 0) (\<lambda>out.
        if out = 0 then Failed (''empty field '' @ quote_q spec) else Returned out))"

text \<open>A location: seconds east of UTC at an instant.\<close>

type_synonym location = "gotime \<Rightarrow> int"

record Schedule =
  schMinute :: fieldSet
  schHour :: fieldSet
  schDayOfMonth :: fieldSet
  schMonth :: fieldSet
  schDayOfWeek :: fieldSet
  schLoc :: location

definition parseFields :: "string \<Rightarrow> location \<Rightarrow> Schedule outcome" where
  "parseFields spec loc =
     (let parts = Fields spec in
      if length parts \<noteq> 5
      then Failed (''schedule must have 5 fields, got '' @ Itoa (int (length parts)))
      else bind_outcome (wrap_error ''minute'' (parseField (parts ! 0) 0 59)) (\<lambda>mi.
        bind_outcome (wrap_error ''hour'' (parseField (parts ! 1) 0 23)) (\<lambda>hr.
        bind_outcome (wrap_error ''day-of-month'' (parseField (parts ! 2) 1 31)) (\<lambda>dom.
        bind_outcome (wrap_error ''month'' (parseField (parts ! 3) 1 12)) (\<lambda>mo.
        bind_outcome (wrap_error ''day-of-week'' (parseField (parts ! 4) 0 6)) (\<lambda>dow.
          Returned \<lparr>schMinute = mi, schHour = hr, schDayOfMonth = dom, schMonth = mo,
                    schDayOfWeek = dow, schLoc = loc\<rparr>))))))"

text \<open>\<open>time.Local\<close> is the argument \<open>local\<close>.\<close>

definition ParseSchedule :: "location \<Rightarrow> string \<Rightarrow> location option \<Rightarrow> Schedule outcome" where
  "ParseSchedule local spec0 loc0 =
     (let spec = TrimSpace spec0 in
      if spec = [] then Failed ''empty schedule''
      else (let loc = (case loc0 of None \<Rightarrow> local | Some l \<Rightarrow> l) in
        if spec = ''@hourly'' then parseFields ''0 * * * *'' loc
        else if spec = ''@daily'' \<or> spec = ''@midnight'' then parseFields ''0 0 * * *'' loc
        else if spec = ''@weekly'' then parseFields ''0 0 * * 0'' loc
        else if spec = ''@monthly'' then parseFields ''0 0 1 * *'' loc
        else if spec = ''@yearly'' \<or> spec = ''@annually'' then parseFields ''0 0 1 1 *'' loc
        else parseFields spec loc))"

subsection \<open>The calendar of the time package\<close>

text \<open>
  An instant is a number of nanoseconds since 1 January of year 1, 00:00 UTC, a Monday and the zero
  \<open>time.Time\<close>. Year and day of the year are found by cutting off cycles of 400, 100, 4 and 1 years,
  month and day from the table of days before each month, as the time package does.
\<close>

definition wall_seconds :: "location \<Rightarrow> gotime \<Rightarrow> int" where
  "wall_seconds loc t = t div 1000000000 + loc t"

definition go_Second :: "location \<Rightarrow> gotime \<Rightarrow> int" where
  "go_Second loc t = wall_seconds loc t mod 60"

definition go_Minute :: "location \<Rightarrow> gotime \<Rightarrow> int" where
  "go_Minute loc t = wall_seconds loc t mod 3600 div 60"

definition go_Hour :: "location \<Rightarrow> gotime \<Rightarrow> int" where
  "go_Hour loc t = wall_seconds loc t mod 86400 div 3600"

definition go_Weekday :: "location \<Rightarrow> gotime \<Rightarrow> int" where
  "go_Weekday loc t = (wall_seconds loc t div 86400 + 1) mod 7"

definition year_yday :: "int \<Rightarrow> int \<times> int" where
  "year_yday days =
     (let n400 = days div 146097; d1 = days - 146097 * n400;
          n100 = d1 div 36524 - d1 div 36524 div 4; d2 = d1 - 36524 * n100;
          n4 = d2 div 1461; d3 = d2 - 1461 * n4;
          n1 = d3 div 365 - d3 div 365 div 4
      in (400 * n400 + 100 * n100 + 4 * n4 + n1 + 1, d3 - 365 * n1))"

definition isLeap :: "int \<Rightarrow> bool" where
  "isLeap year \<longleftrightarrow> year mod 4 = 0 \<and> (year mod 100 \<noteq> 0 \<or> year mod 400 = 0)"

definition daysBefore :: "int list" where
  "daysBefore = [0, 31, 59, 90, 120, 151, 181, 212, 243, 273, 304, 334, 365]"

definition month_day :: "int \<times> int \<Rightarrow> int \<times> int" where
  "month_day yd =
     (let year = fst yd; day0 = snd yd in
      if isLeap year \<and> day0 = 59 then (2, 29)
      else (let day = (if isLeap year \<and> day0 > 59 then day0 - 1 else day0);
                m = day div 31; e = daysBefore ! nat (m + 1)
            in if day \<ge> e then (m + 2, day - e + 1)
               else (m + 1, day - daysBefore ! nat m + 1)))"

definition go_Month :: "location \<Rightarrow> gotime \<Rightarrow> int" where
  "go_Month loc t = fst (month_day (year_yday (wall_seconds loc t div 86400)))"

definition go_Day :: "location \<Rightarrow> gotime \<Rightarrow> int" where
  "go_Day loc t = snd (month_day (year_yday (wall_seconds loc t div 86400)))"

subsection \<open>The next matching minute\<close>

definition matches :: "Schedule \<Rightarrow> gotime \<Rightarrow> bool" where
  "matches s t =
     (if \<not> has (schMinute s) (go_Minute (schLoc s) t) then False
      else if \<not> has (schHour s) (go_Hour (schLoc s) t) then False
      else if \<not> has (schMonth s) (go_Month (schLoc s) t) then False
      else (let mday = has (schDayOfMonth s) (go_Day (schLoc s) t);
                dow = has (schDayOfWeek s) (go_Weekday (schLoc s) t);
                dayOfMonthAll = (schDayOfMonth s = makeFieldSet 1 31 True);
                dayOfWeekAll = (schDayOfWeek s = makeFieldSet 0 6 True)
            in if dayOfMonthAll \<and> dayOfWeekAll then True
               else if dayOfMonthAll then dow
               else if dayOfWeekAll then mday
               else mday \<or> dow))"

definition go_Truncate :: "gotime \<Rightarrow> duration \<Rightarrow> gotime" where
  "go_Truncate t d = t - t mod d"

function next_loop :: "Schedule \<Rightarrow> gotime \<Rightarrow> gotime \<Rightarrow> gotime" where
  "next_loop s cap t =
     (if t < cap then (if matches s t then t else next_loop s cap (t + minute_ns)) else 0)"
  by pat_completeness auto
termination
  by (relation "measure (\<lambda>(s, cap, t). nat (cap - t))") (auto simp: minute_ns_def)

declare next_loop.simps [simp del]

text \<open>\<open>aloc\<close> is the location of the argument \<open>after\<close>; a nil schedule is \<open>None\<close>.\<close>

definition four_years :: duration where "four_years = 4 * 365 * 24 * 60 * minute_ns"

definition Next :: "location \<Rightarrow> Schedule option \<Rightarrow> gotime \<Rightarrow> gotime" where
  "Next aloc so after =
     (case so of None \<Rightarrow> 0
      | Some s \<Rightarrow>
          (let t = go_Truncate (after + (minute_ns - nanos (go_Second aloc after))) minute_ns;
               cap = after + four_years
           in next_loop s cap t))"

subsection \<open>The scheduler goroutine\<close>

record backupSnapshot =
  snEnabled :: bool
  snSchedule :: string
  snLocation :: "location option"
  snLastRun :: gotime

text \<open>
  One tick: the new \<open>nextFire\<close> and whether \<open>RunNow\<close> was called. \<open>Panicked\<close> ends the process.
\<close>

definition scheduler_tick :: "location \<Rightarrow> backupSnapshot \<Rightarrow> gotime \<Rightarrow> gotime \<Rightarrow> (gotime \<times> bool) outcome" where
  "scheduler_tick local snap now nextFire =
     (if \<not> snEnabled snap \<or> snSchedule snap = [] then Returned (0, False)
      else (case ParseSchedule local (snSchedule snap) (snLocation snap) of
          Panicked \<Rightarrow> Panicked
        | Failed e \<Rightarrow> Returned (nextFire, False)
        | Returned sched \<Rightarrow>
            (let nf = (if nextFire = 0 \<or> nextFire < snLastRun snap
                       then Next local (Some sched) now else nextFire)
             in if nf \<noteq> 0 \<and> \<not> now < nf
                then Returned (Next local (Some sched) (now + minute_ns), True)
                else Returned (nf, False))))"

definition MaxBackupHistory :: nat where "MaxBackupHistory = 50"

text \<open>\<open>trimHistory\<close>, for entries of any type.\<close>

definition trimHistory :: "'a list \<Rightarrow> 'a list" where
  "trimHistory history =
     (if length history \<le> MaxBackupHistory then history
      else drop (length history - MaxBackupHistory) history)"

section \<open>Bit sets\<close>

lemma has_iff: "has f i \<longleftrightarrow> 0 \<le> i \<and> i < 64 \<and> bit f (nat i)"
proof -
  have "f AND push_bit k 1 \<noteq> 0 \<longleftrightarrow> bit f k" for k
    by (simp add: push_bit_of_1 and_exp_eq_0_iff_not_bit)
  then show ?thesis by (auto simp: has_def bit_at_def)
qed

lemma has_zero [simp]: "\<not> has 0 i"
  by (simp add: has_iff)

lemma has_range: "has f i \<Longrightarrow> 0 \<le> i \<and> i < 64"
  by (simp add: has_iff)

lemma has_or_bit: "0 \<le> j \<Longrightarrow> j < 64 \<Longrightarrow> has (f OR bit_at j) i \<longleftrightarrow> has f i \<or> i = j"
  by (auto simp: has_iff bit_at_def bit_simps)

lemma has_ex: "f \<noteq> 0 \<longleftrightarrow> (\<exists>i. has f i)"
proof -
  have "\<exists>n < 64. bit f n" if "f \<noteq> 0"
  proof -
    from that obtain n where "bit f n" using bit_eqI [of f 0] by auto
    then show ?thesis using bit_imp_le_length [of f n] by auto
  qed
  then have "f \<noteq> 0 \<Longrightarrow> \<exists>i. has f i" unfolding has_iff by (metis nat_int of_nat_0_le_iff of_nat_less_numeral_iff)
  then show ?thesis by auto
qed

lemma has_eqI: "(\<And>i. has f i \<longleftrightarrow> has g i) \<Longrightarrow> f = g"
proof (rule bit_word_eqI)
  fix n assume "\<And>i. has f i \<longleftrightarrow> has g i" and "n < LENGTH(64)"
  then show "bit f n \<longleftrightarrow> bit g n" using has_iff [of f "int n"] has_iff [of g "int n"] by simp
qed

lemma has_makeFieldSet:
  assumes "0 \<le> mn" and "mx < 64"
  shows "has (makeFieldSet mn mx True) i \<longleftrightarrow> mn \<le> i \<and> i \<le> mx"
proof -
  have "\<forall>j \<in> set js. 0 \<le> j \<and> j < 64 \<Longrightarrow>
      has (foldl (\<lambda>f i. f OR bit_at i) f js) i \<longleftrightarrow> has f i \<or> i \<in> set js" for js f
    by (induction js arbitrary: f) (auto simp: has_or_bit)
  from this [of "[mn..mx]" 0] assms show ?thesis by (simp add: makeFieldSet_def)
qed

lemma set_bits_done: "hi < i \<Longrightarrow> set_bits i hi step f = Returned f"
  by (simp add: set_bits.simps)

lemma set_bits_continue:
  assumes "set_bits i hi step f = Returned g" and "i \<le> hi" and "0 \<le> hi"
  shows "0 \<le> i" and "1 \<le> step" and "set_bits (i + step) hi step (f OR bit_at i) = Returned g"
proof -
  from assms have ok: "0 \<le> i" "in_int64 i" "in_int64 step" "1 \<le> step"
    and next_: "set_bits (wrap64 (i + step)) hi step (f OR bit_at i) = Returned g"
    by (simp_all add: set_bits.simps [of i] split: if_splits)
  then show "0 \<le> i" "1 \<le> step" by simp_all
  have "\<not> wrap64 (i + step) < 0"
    using next_ assms(3) by (auto simp: set_bits.simps [of "wrap64 (i + step)"])
  then have "wrap64 (i + step) = i + step"
    using wrap64_step [OF ok] ok by (auto simp: in_int64_def max_int64_def split: if_splits)
  with next_ show "set_bits (i + step) hi step (f OR bit_at i) = Returned g" by simp
qed

text \<open>A loop that returns has set every \<open>step\<close>-th bit from \<open>i\<close> to \<open>hi\<close>.\<close>

lemma set_bits_exact:
  assumes "set_bits i hi step f = Returned g" and "0 \<le> hi" and "hi < 64"
  shows "has g n \<longleftrightarrow> has f n \<or> i \<le> n \<and> n \<le> hi \<and> step dvd n - i"
  using assms
proof (induction "nat (hi - i + 1)" arbitrary: i f rule: less_induct)
  case less
  show ?case
  proof (cases "hi < i")
    case True
    with less.prems show ?thesis by (auto simp: set_bits_done)
  next
    case False
    then have "i \<le> hi" by simp
    note go = set_bits_continue [OF less.prems(1) this less.prems(2)]
    have "nat (hi - (i + step) + 1) < nat (hi - i + 1)" using go(2) False by simp
    from less.hyps [OF this go(3) less.prems(2,3)]
    have "has g n \<longleftrightarrow> has f n \<or> n = i \<or> i + step \<le> n \<and> n \<le> hi \<and> step dvd n - (i + step)"
      using go(1) False less.prems(3) by (simp add: has_or_bit)
    moreover have "step dvd n - (i + step) \<longleftrightarrow> step dvd n - i"
      using dvd_add_right_iff [of step "step" "n - (i + step)"] by simp
    moreover have "i < n \<Longrightarrow> step dvd n - i \<Longrightarrow> i + step \<le> n"
      using zdvd_imp_le [of step "n - i"] by simp
    ultimately show ?thesis using False go(2) by auto
  qed
qed

lemma set_bits_returns:
  assumes "0 \<le> i" and "i < 128" and "1 \<le> step" and "step \<le> max_int64 - 128" and "hi < 64"
  shows "\<exists>g. set_bits i hi step f = Returned g"
  using assms
proof (induction "nat (hi - i + 1)" arbitrary: i f rule: less_induct)
  case less
  show ?case
  proof (cases "hi < i")
    case False
    with less.prems have "wrap64 (i + step) = i + step" "in_int64 i" "in_int64 step"
      by (simp_all add: in_int64_def max_int64_def min_int64_def)
    then have eq: "set_bits i hi step f = set_bits (i + step) hi step (f OR bit_at i)"
      using False less.prems by (simp add: set_bits.simps [of i])
    show ?thesis
    proof (cases "hi < i + step")
      case True
      then show ?thesis by (simp add: eq set_bits_done)
    next
      case small: False
      have "nat (hi - (i + step) + 1) < nat (hi - i + 1)" using False less.prems(3) by simp
      from less.hyps [OF this] small less.prems show ?thesis unfolding eq by simp
    qed
  qed (simp add: set_bits_done)
qed

section \<open>What parsing yields\<close>

definition within :: "int \<Rightarrow> int \<Rightarrow> fieldSet \<Rightarrow> bool" where
  "within mn mx f \<longleftrightarrow> (\<forall>i. has f i \<longrightarrow> mn \<le> i \<and> i \<le> mx)"

lemma parseAtom_within:
  assumes "parseAtom a mn mx f = Returned g" and "0 \<le> mn" and "mx < 64" and "within mn mx f"
  shows "within mn mx g"
proof (cases "TrimSpace a = []")
  case True
  with assms show ?thesis by (simp add: parseAtom_def)
next
  case False
  with assms(1) obtain step rest lo hi where b: "\<not> (lo < mn \<or> hi > mx \<or> lo > hi)"
    and s: "set_bits lo hi step f = Returned g"
    by (auto simp: parseAtom_def Let_def bind_outcome_Returned split: if_splits)
  with assms(2-) set_bits_exact [OF s] show ?thesis by (fastforce simp: within_def)
qed

lemma parseAtoms_within:
  "parseAtoms as mn mx f = Returned g \<Longrightarrow> 0 \<le> mn \<Longrightarrow> mx < 64 \<Longrightarrow> within mn mx f \<Longrightarrow> within mn mx g"
  by (induction as arbitrary: f) (auto simp: bind_outcome_Returned intro: parseAtom_within)

text \<open>A parsed field is a non-empty set of values of its range.\<close>

lemma parseField_within:
  assumes "parseField spec mn mx = Returned f" and "0 \<le> mn" and "mn \<le> mx" and "mx < 64"
  shows "within mn mx f \<and> f \<noteq> 0"
proof (cases "spec = ''*''")
  case True
  with assms has_makeFieldSet [of mn mx] show ?thesis by (auto simp: parseField_def within_def has_ex)
next
  case False
  with assms parseAtoms_within [of "Split spec (CHR '','')" mn mx 0 f] show ?thesis
    by (auto simp: parseField_def bind_outcome_Returned within_def split: if_splits)
qed

definition schedule_ok :: "Schedule \<Rightarrow> bool" where
  "schedule_ok s \<longleftrightarrow>
     (within 0 59 (schMinute s) \<and> schMinute s \<noteq> 0) \<and> (within 0 23 (schHour s) \<and> schHour s \<noteq> 0) \<and>
     (within 1 31 (schDayOfMonth s) \<and> schDayOfMonth s \<noteq> 0) \<and>
     (within 1 12 (schMonth s) \<and> schMonth s \<noteq> 0) \<and> (within 0 6 (schDayOfWeek s) \<and> schDayOfWeek s \<noteq> 0)"

lemma parseFields_ok: "parseFields spec loc = Returned s \<Longrightarrow> schedule_ok s \<and> schLoc s = loc"
  unfolding parseFields_def Let_def
  by (auto simp: bind_outcome_Returned schedule_ok_def dest: parseField_within split: if_splits)

subsection \<open>Printed fields\<close>

text \<open>The atoms of the dialect, how they are written, and the values they stand for.\<close>

datatype cron_base = Every | At int | Between int int

fun base_text :: "cron_base \<Rightarrow> string" where
  "base_text Every = ''*''"
| "base_text (At n) = Itoa n"
| "base_text (Between a b) = Itoa a @ ''-'' @ Itoa b"

fun base_bounds :: "int \<Rightarrow> int \<Rightarrow> cron_base \<Rightarrow> int \<times> int" where
  "base_bounds mn mx Every = (mn, mx)"
| "base_bounds mn mx (At n) = (n, n)"
| "base_bounds mn mx (Between a b) = (a, b)"

type_synonym cron_atom = "cron_base \<times> int option"

definition atom_text :: "cron_atom \<Rightarrow> string" where
  "atom_text a = base_text (fst a) @ (case snd a of None \<Rightarrow> [] | Some k \<Rightarrow> ''/'' @ Itoa k)"

definition atom_step :: "cron_atom \<Rightarrow> int" where
  "atom_step a = (case snd a of None \<Rightarrow> 1 | Some k \<Rightarrow> k)"

definition atom_ok :: "int \<Rightarrow> int \<Rightarrow> cron_atom \<Rightarrow> bool" where
  "atom_ok mn mx a \<longleftrightarrow> (let (lo, hi) = base_bounds mn mx (fst a) in
     mn \<le> lo \<and> lo \<le> hi \<and> hi \<le> mx \<and> 1 \<le> atom_step a \<and> atom_step a \<le> max_int64 - 128)"

definition atom_has :: "int \<Rightarrow> int \<Rightarrow> cron_atom \<Rightarrow> int \<Rightarrow> bool" where
  "atom_has mn mx a i \<longleftrightarrow> (let (lo, hi) = base_bounds mn mx (fst a) in
     lo \<le> i \<and> i \<le> hi \<and> atom_step a dvd i - lo)"

lemma Itoa_nonneg_digits: "0 \<le> n \<Longrightarrow> c \<in> set (Itoa n) \<Longrightarrow> is_digit c"
  by (auto simp: Itoa_def dest: nat_digits_is_digit)

lemma not_digit: "\<not> is_digit CHR ''*''" "\<not> is_digit CHR ''-''" "\<not> is_digit CHR ''/''"
    "\<not> is_digit CHR '',''"
  by (simp_all add: is_digit_def)

lemma digit_not_space: "is_digit c \<Longrightarrow> \<not> is_space c"
  by (auto simp: is_digit_def is_space_def)

lemma base_text_chars:
  assumes "0 \<le> mn" and "base_bounds mn mx b = (lo, hi)" and "0 \<le> lo" and "lo \<le> hi" and "c \<in> set (base_text b)"
  shows "is_digit c \<or> c = CHR ''*'' \<or> c = CHR ''-''"
  using assms Itoa_nonneg_digits [of lo c] Itoa_nonneg_digits [of hi c] by (cases b) auto

lemma parseBounds_text:
  assumes "0 \<le> mn" and "base_bounds mn mx b = (lo, hi)" and "mn \<le> lo" and "lo \<le> hi" and "hi \<le> mx" and "mx < 64"
  shows "parseBounds (base_text b) mn mx = Returned (lo, hi)"
proof -
  have range: "in_int64 lo" "in_int64 hi" using assms by (auto simp: in_int64_def min_int64_def max_int64_def)
  have star: "Itoa n @ t \<noteq> ''*''" if "0 \<le> n" for n t
    using Itoa_nonneg_digits [OF that, of "CHR ''*''"] not_digit(1)
    by (cases "Itoa n") (auto simp: Itoa_def split: if_splits)
  have dash: "CHR ''-'' \<notin> set (Itoa n)" if "0 \<le> n" for n
    using Itoa_nonneg_digits [OF that] not_digit(2) by blast
  show ?thesis
  proof (cases b)
    case Every
    with assms show ?thesis by (simp add: parseBounds_def)
  next
    case (At n)
    with assms range star [of n "[]"] dash [of n] show ?thesis
      by (simp add: parseBounds_def Contains_iff Atoi_Itoa)
  next
    case (Between x y)
    with assms range star [of x "''-'' @ Itoa y"] dash [of x] show ?thesis
      by (simp add: parseBounds_def Contains_iff Atoi_Itoa SplitN2_first Let_def)
  qed
qed

lemma parseAtom_text:
  assumes "atom_ok mn mx a" and "0 \<le> mn" and "mx < 64"
  shows "\<exists>g. parseAtom (atom_text a) mn mx f = Returned g \<and> (\<forall>i. has g i \<longleftrightarrow> has f i \<or> atom_has mn mx a i)"
proof -
  obtain lo hi where b: "base_bounds mn mx (fst a) = (lo, hi)" by force
  with assms have r: "mn \<le> lo" "lo \<le> hi" "hi \<le> mx" "1 \<le> atom_step a" "atom_step a \<le> max_int64 - 128"
    by (auto simp: atom_ok_def)
  note chars = base_text_chars [OF assms(2) b]
  have slash: "CHR ''/'' \<notin> set (base_text (fst a))"
    using chars r assms(2) not_digit(3) by fastforce
  have step: "parseStep (atom_text a) = Returned (atom_step a, base_text (fst a))"
  proof (cases "snd a")
    case None
    with slash show ?thesis by (simp add: parseStep_def atom_text_def atom_step_def Index_none)
  next
    case (Some k)
    with r have "in_int64 k" "1 \<le> k" by (simp_all add: atom_step_def in_int64_def min_int64_def)
    with Some slash show ?thesis
      by (simp add: parseStep_def atom_text_def atom_step_def Index_first Atoi_Itoa)
  qed
  have plain: "\<not> is_space CHR ''*''" "\<not> is_space CHR ''-''" "\<not> is_space CHR ''/''"
    by (simp_all add: is_space_def)
  have "\<forall>c \<in> set (base_text (fst a)). \<not> is_space c"
    using chars r assms(2) digit_not_space plain by (metis order_trans)
  moreover have "\<forall>c \<in> set (Itoa k). \<not> is_space c" if "1 \<le> k" for k
    using that Itoa_nonneg_digits [of k] digit_not_space by simp
  ultimately have "\<forall>c \<in> set (atom_text a). \<not> is_space c"
    using r(4) plain by (auto simp: atom_text_def atom_step_def split: option.splits)
  then have trim: "TrimSpace (atom_text a) = atom_text a" by (rule TrimSpace_no_space)
  have nonempty: "atom_text a \<noteq> []" by (cases "fst a") (simp_all add: atom_text_def Itoa_def)
  have eq: "parseAtom (atom_text a) mn mx f = set_bits lo hi (atom_step a) f"
    using r parseBounds_text [OF assms(2) b r(1-3) assms(3)]
    by (simp add: parseAtom_def trim nonempty step Let_def)
  obtain g where "set_bits lo hi (atom_step a) f = Returned g"
    using set_bits_returns [of lo "atom_step a" hi f] r assms by auto
  with set_bits_exact [OF this] eq r assms b show ?thesis by (auto simp: atom_has_def)
qed

lemma parseAtoms_text:
  assumes "\<forall>a \<in> set as. atom_ok mn mx a" and "0 \<le> mn" and "mx < 64"
  shows "\<exists>g. parseAtoms (map atom_text as) mn mx f = Returned g \<and>
    (\<forall>i. has g i \<longleftrightarrow> has f i \<or> (\<exists>a \<in> set as. atom_has mn mx a i))"
  using assms(1)
proof (induction as arbitrary: f)
  case Nil
  then show ?case by simp
next
  case (Cons a as)
  from Cons.prems have "atom_ok mn mx a" by simp
  from parseAtom_text [OF this assms(2,3), of f] obtain g where
    g: "parseAtom (atom_text a) mn mx f = Returned g" "\<forall>i. has g i \<longleftrightarrow> has f i \<or> atom_has mn mx a i"
    by blast
  from Cons.IH [of g] Cons.prems obtain h where
    h: "parseAtoms (map atom_text as) mn mx g = Returned h"
      "\<forall>i. has h i \<longleftrightarrow> has g i \<or> (\<exists>a \<in> set as. atom_has mn mx a i)" by auto
  from g h show ?case by auto
qed

lemma atom_text_comma: "atom_ok mn mx a \<Longrightarrow> 0 \<le> mn \<Longrightarrow> CHR '','' \<notin> set (atom_text a)"
proof
  assume a: "atom_ok mn mx a" "0 \<le> mn" "CHR '','' \<in> set (atom_text a)"
  obtain lo hi where b: "base_bounds mn mx (fst a) = (lo, hi)" by force
  with a have "0 \<le> lo" "lo \<le> hi" "1 \<le> atom_step a" by (auto simp: atom_ok_def)
  then show False
    using a(3) base_text_chars [OF a(2) b, of "CHR '',''"] Itoa_nonneg_digits [of "atom_step a" "CHR '',''"]
    by (auto simp: atom_text_def atom_step_def not_digit split: option.splits)
qed

lemma atom_has_self: "atom_ok mn mx a \<Longrightarrow> atom_has mn mx a (fst (base_bounds mn mx (fst a)))"
  by (auto simp: atom_ok_def atom_has_def)

lemma Join_text_star:
  assumes "as \<noteq> []" and "Join (map atom_text as) '','' = ''*''" and "\<forall>a \<in> set as. CHR '','' \<notin> set (atom_text a)"
  shows "as = [(Every, None)]"
proof -
  have "map atom_text as = Split (Join (map atom_text as) '','') (CHR '','')"
    using assms(1,3) by (subst Split_Join) auto
  also have "\<dots> = [''*'']" unfolding assms(2) by simp
  finally obtain a where a: "as = [a]" "atom_text a = ''*''" by auto
  have "Itoa n @ t \<noteq> ''*''" for n t
    using Itoa_chars [of "hd (Itoa n)" n] by (cases "Itoa n") (auto simp: is_digit_def Itoa_def split: if_splits)
  then have "fst a = Every" using a(2) by (cases "fst a") (auto simp: atom_text_def)
  with a show ?thesis by (cases a) (auto simp: atom_text_def split: option.splits)
qed

section \<open>The search\<close>

definition first_match :: "Schedule \<Rightarrow> gotime \<Rightarrow> gotime \<Rightarrow> gotime \<Rightarrow> bool" where
  "first_match s t cap r \<longleftrightarrow>
     (\<exists>k \<ge> 0. r = t + k * minute_ns \<and> r < cap \<and> matches s r \<and>
        (\<forall>j. 0 \<le> j \<and> j < k \<longrightarrow> \<not> matches s (t + j * minute_ns)))"

definition no_match :: "Schedule \<Rightarrow> gotime \<Rightarrow> gotime \<Rightarrow> bool" where
  "no_match s t cap \<longleftrightarrow> (\<forall>k. 0 \<le> k \<and> t + k * minute_ns < cap \<longrightarrow> \<not> matches s (t + k * minute_ns))"

lemma later_minutes: "t + minute_ns + k * minute_ns = t + (k + 1) * minute_ns"
  by (simp add: algebra_simps)

lemma first_match_later:
  assumes "\<not> matches s t" and "first_match s (t + minute_ns) cap r"
  shows "first_match s t cap r"
proof -
  from assms(2) obtain k where k: "0 \<le> k" "r = t + (k + 1) * minute_ns" "r < cap" "matches s r"
    and before: "\<And>j. 0 \<le> j \<Longrightarrow> j < k \<Longrightarrow> \<not> matches s (t + (j + 1) * minute_ns)"
    by (auto simp: first_match_def later_minutes)
  have "\<not> matches s (t + j * minute_ns)" if "0 \<le> j" "j < k + 1" for j
    using before [of "j - 1"] assms(1) that by (cases "j = 0") simp_all
  with k show ?thesis unfolding first_match_def by (intro exI [of _ "k + 1"]) simp
qed

lemma no_match_later:
  assumes "\<not> matches s t" and "no_match s (t + minute_ns) cap"
  shows "no_match s t cap"
  unfolding no_match_def
proof (intro allI impI)
  fix k :: int assume k: "0 \<le> k \<and> t + k * minute_ns < cap"
  have "k \<noteq> 0 \<Longrightarrow> \<not> matches s (t + (k - 1 + 1) * minute_ns)"
    using assms(2) k unfolding no_match_def later_minutes by (metis diff_add_cancel diff_ge_0_iff_ge int_one_le_iff_zero_less order_le_less)
  with assms(1) show "\<not> matches s (t + k * minute_ns)" by (cases "k = 0") simp_all
qed

lemma next_loop_finds:
  "0 < t \<Longrightarrow> next_loop s cap t = 0 \<and> no_match s t cap \<or>
     next_loop s cap t \<noteq> 0 \<and> first_match s t cap (next_loop s cap t)"
proof (induction s cap t rule: next_loop.induct)
  case (1 s cap t)
  consider (found) "t < cap" "matches s t" | (more) "t < cap" "\<not> matches s t" | (over) "cap \<le> t" by linarith
  then show ?case
  proof cases
    case found
    then show ?thesis using 1 by (auto simp: next_loop.simps [of s cap t] first_match_def intro!: exI [of _ 0])
  next
    case more
    then have "next_loop s cap t = next_loop s cap (t + minute_ns)" by (simp add: next_loop.simps [of s cap t])
    with 1 more show ?thesis using first_match_later no_match_later by (auto simp: minute_ns_def)
  next
    case over
    have "0 \<le> k \<Longrightarrow> \<not> t + k * minute_ns < cap" for k using over by (simp add: minute_ns_def)
    with over show ?thesis by (auto simp: next_loop.simps [of s cap t] no_match_def)
  qed
qed

text \<open>The search starts at the first minute boundary after its argument.\<close>

lemma next_start:
  assumes "aloc after mod 60 = 0"
  shows "go_Truncate (after + (minute_ns - nanos (go_Second aloc after))) minute_ns
    = after - after mod minute_ns + minute_ns"
proof -
  define q r where "q = after div 60000000000" and "r = after mod 60000000000"
  have after: "after = 60000000000 * q + r" and r: "0 \<le> r" "r < 60000000000"
    by (simp_all add: q_def r_def)
  have "after div 1000000000 = 60 * q + r div 1000000000" unfolding after by linarith
  then have "(after div 1000000000 + aloc after) mod 60 = (60 * q + r div 1000000000) mod 60"
    using assms by (metis add.right_neutral mod_add_right_eq)
  also have "\<dots> = (r div 1000000000) mod 60" by simp
  also have "\<dots> = r div 1000000000" by (rule mod_pos_pos_trivial) (use r in linarith)+
  finally have sec: "go_Second aloc after = r div 1000000000"
    by (simp add: go_Second_def wall_seconds_def)
  have "after + (60000000000 - r div 1000000000 * 1000000000) = 60000000000 * (q + 1) + r mod 1000000000"
    unfolding after by (simp add: minus_div_mult_eq_mod [symmetric] algebra_simps)
  moreover have "(60000000000 * (q + 1) + r mod 1000000000) mod 60000000000 = r mod 1000000000"
    using pos_mod_bound [of 1000000000 r] by (subst mod_mult_self4) (rule mod_pos_pos_trivial, simp_all)
  ultimately have "go_Truncate (after + (minute_ns - nanos (go_Second aloc after))) minute_ns = 60000000000 * (q + 1)"
    unfolding go_Truncate_def sec nanos_def minute_ns_def by (simp only: add_diff_cancel_right')
  also have "\<dots> = after - after mod minute_ns + minute_ns"
    unfolding minute_ns_def r_def [symmetric] by (simp add: after)
  finally show ?thesis .
qed

lemma Next_start: "0 \<le> after \<Longrightarrow> aloc after mod 60 = 0 \<Longrightarrow>
    Next aloc (Some s) after = next_loop s (after + four_years) (after - after mod minute_ns + minute_ns)"
  by (simp add: Next_def next_start)

lemma next_minutes:
  "minute_ns dvd t \<and> after < t \<longleftrightarrow> (\<exists>k \<ge> 0. t = after - after mod minute_ns + minute_ns + k * minute_ns)"
proof
  assume t: "minute_ns dvd t \<and> after < t"
  then obtain m where m: "t = minute_ns * m" by auto
  have "after div minute_ns < m"
    using t m by (simp add: minute_ns_def) 
  then show "\<exists>k \<ge> 0. t = after - after mod minute_ns + minute_ns + k * minute_ns"
    unfolding m minus_mod_eq_mult_div
    by (intro exI [of _ "m - after div minute_ns - 1"]) (simp add: algebra_simps)
next
  assume "\<exists>k \<ge> 0. t = after - after mod minute_ns + minute_ns + k * minute_ns"
  then obtain k where k: "0 \<le> k" "t = after - after mod minute_ns + minute_ns + k * minute_ns" by blast
  have "after mod minute_ns < minute_ns" by (simp add: minute_ns_def)
  moreover have "0 \<le> k * minute_ns" using k by (simp add: minute_ns_def)
  ultimately have "after < t" using k by linarith
  moreover have "minute_ns dvd t" unfolding k minus_mod_eq_mult_div by simp
  ultimately show "minute_ns dvd t \<and> after < t" by simp
qed

subsection \<open>Calendar bounds\<close>

lemma cut_century:
  assumes "0 \<le> (d::int)" and "d \<le> 146096" and "n = d div 36524 - d div 36524 div 4"
  shows "0 \<le> n" and "n \<le> 3" and "0 \<le> d - 36524 * n" and "d - 36524 * n \<le> 36524"
    and "d - 36524 * n = 36524 \<Longrightarrow> n = 3"
proof -
  define k where "k = d div 36524"
  have k: "36524 * k \<le> d" "d < 36524 * k + 36524" "0 \<le> k" "k \<le> 4" unfolding k_def using assms by linarith+
  then have "k = 0 \<or> k = 1 \<or> k = 2 \<or> k = 3 \<or> k = 4" by linarith
  then have n: "n = (if k = 4 then 3 else k)" using assms(3) unfolding k_def [symmetric] by auto
  show "0 \<le> n" "n \<le> 3" "0 \<le> d - 36524 * n" "d - 36524 * n \<le> 36524" "d - 36524 * n = 36524 \<Longrightarrow> n = 3"
    using k n assms(2) by (auto split: if_splits)
qed

lemma cut_year:
  assumes "0 \<le> (d::int)" and "d \<le> 1460" and "n = d div 365 - d div 365 div 4"
  shows "0 \<le> n" and "n \<le> 3" and "0 \<le> d - 365 * n" and "d - 365 * n \<le> 365"
    and "d - 365 * n = 365 \<Longrightarrow> n = 3 \<and> d = 1460"
proof -
  define k where "k = d div 365"
  have k: "365 * k \<le> d" "d < 365 * k + 365" "0 \<le> k" "k \<le> 4" unfolding k_def using assms by linarith+
  then have "k = 0 \<or> k = 1 \<or> k = 2 \<or> k = 3 \<or> k = 4" by linarith
  then have n: "n = (if k = 4 then 3 else k)" using assms(3) unfolding k_def [symmetric] by auto
  show "0 \<le> n" "n \<le> 3" "0 \<le> d - 365 * n" "d - 365 * n \<le> 365" "d - 365 * n = 365 \<Longrightarrow> n = 3 \<and> d = 1460"
    using k n assms(2) by (auto split: if_splits)
qed

text \<open>The day of the year is between 0 and 365, and 365 only in a leap year.\<close>

lemma year_yday_range:
  "0 \<le> snd (year_yday d) \<and> snd (year_yday d) \<le> 365 \<and>
     (snd (year_yday d) = 365 \<longrightarrow> isLeap (fst (year_yday d)))"
proof -
  define n400 d1 where "n400 = d div 146097" and "d1 = d - 146097 * n400"
  define n100 d2 where "n100 = d1 div 36524 - d1 div 36524 div 4" and "d2 = d1 - 36524 * n100"
  define n4 d3 where "n4 = d2 div 1461" and "d3 = d2 - 1461 * n4"
  define n1 where "n1 = d3 div 365 - d3 div 365 div 4"
  have eq: "year_yday d = (400 * n400 + 100 * n100 + 4 * n4 + n1 + 1, d3 - 365 * n1)"
    unfolding year_yday_def Let_def n1_def d3_def n4_def d2_def n100_def d1_def n400_def by (rule refl)
  have d1: "0 \<le> d1" "d1 \<le> 146096" unfolding d1_def n400_def by linarith+
  note c = cut_century [OF d1 n100_def, folded d2_def]
  have d3: "0 \<le> d3" "d3 \<le> 1460" and n4: "0 \<le> n4" "n4 \<le> 24" using c unfolding d3_def n4_def by linarith+
  note y = cut_year [OF d3 n1_def]
  have "isLeap (fst (year_yday d))" if "d3 - 365 * n1 = 365"
  proof -
    have n1: "n1 = 3" "d3 = 1460" using y(5) [OF that] by simp_all
    have yr: "fst (year_yday d) = 400 * n400 + (100 * n100 + 4 * n4 + 4)" using eq n1 by simp
    show ?thesis
    proof (cases "n4 = 24")
      case True
      then have "d2 = 36524" using n1 c(4) unfolding d3_def by simp
      then have "n100 = 3" by (rule c(5))
      with True show ?thesis unfolding isLeap_def yr by simp
    next
      case False
      have "fst (year_yday d) = (4 * n4 + 4) + 100 * (4 * n400 + n100)" using yr by simp
      then have "fst (year_yday d) mod 100 = (4 * n4 + 4) mod 100" by (metis mod_mult_self2)
      also have "\<dots> = 4 * n4 + 4" using False n4 by (intro mod_pos_pos_trivial) simp_all
      finally have "fst (year_yday d) mod 100 \<noteq> 0" using n4 by simp
      moreover have "fst (year_yday d) = 4 * (100 * n400 + 25 * n100 + n4 + 1)" using yr by simp
      then have "fst (year_yday d) mod 4 = 0" by (metis mod_mult_self1_is_0)
      ultimately show ?thesis by (simp add: isLeap_def)
    qed
  qed
  with y eq show ?thesis by simp
qed

lemma month_table: "\<forall>day \<in> set [0..364].
    (let m = day div 31; e = daysBefore ! nat (m + 1) in
     if day \<ge> e then 1 \<le> m + 2 \<and> m + 2 \<le> 12 \<and> 1 \<le> day - e + 1 \<and> day - e + 1 \<le> 31
     else 1 \<le> m + 1 \<and> m + 1 \<le> 12 \<and> 1 \<le> day - daysBefore ! nat m + 1 \<and> day - daysBefore ! nat m + 1 \<le> 31)"
  by code_simp

lemma month_day_range:
  "1 \<le> go_Month loc t \<and> go_Month loc t \<le> 12 \<and> 1 \<le> go_Day loc t \<and> go_Day loc t \<le> 31"
proof -
  define yd where "yd = year_yday (wall_seconds loc t div 86400)"
  define day where "day = (if isLeap (fst yd) \<and> snd yd > 59 then snd yd - 1 else snd yd)"
  have "0 \<le> day \<and> day \<le> 364"
    using year_yday_range [of "wall_seconds loc t div 86400"] unfolding day_def yd_def [symmetric] by auto
  then have tab: "let m = day div 31; e = daysBefore ! nat (m + 1) in
     if day \<ge> e then 1 \<le> m + 2 \<and> m + 2 \<le> 12 \<and> 1 \<le> day - e + 1 \<and> day - e + 1 \<le> 31
     else 1 \<le> m + 1 \<and> m + 1 \<le> 12 \<and> 1 \<le> day - daysBefore ! nat m + 1 \<and> day - daysBefore ! nat m + 1 \<le> 31"
    using month_table by auto
  show ?thesis
  proof (cases "isLeap (fst yd) \<and> snd yd = 59")
    case True
    then show ?thesis by (simp add: go_Month_def go_Day_def yd_def [symmetric] month_day_def Let_def)
  next
    case False
    then have "month_day yd = (let m = day div 31; e = daysBefore ! nat (m + 1) in
        if day \<ge> e then (m + 2, day - e + 1) else (m + 1, day - daysBefore ! nat m + 1))"
      unfolding month_day_def day_def Let_def by (subst if_not_P) (simp_all only: if_False refl not_False_eq_True)
    with tab show ?thesis unfolding go_Month_def go_Day_def yd_def [symmetric] Let_def
      by (simp split: if_splits)
  qed
qed

lemma Next_spec:
  assumes "0 \<le> after" and "aloc after mod 60 = 0"
  shows "Next aloc (Some s) after = 0 \<and>
      (\<forall>t. minute_ns dvd t \<and> after < t \<and> t < after + four_years \<longrightarrow> \<not> matches s t) \<or>
    minute_ns dvd Next aloc (Some s) after \<and> after < Next aloc (Some s) after \<and>
      Next aloc (Some s) after < after + four_years \<and> matches s (Next aloc (Some s) after) \<and>
      (\<forall>t. minute_ns dvd t \<and> after < t \<and> t < Next aloc (Some s) after \<longrightarrow> \<not> matches s t)"
proof -
  let ?t0 = "after - after mod minute_ns + minute_ns" and ?r = "Next aloc (Some s) after"
  have mins: "\<And>t. minute_ns dvd t \<and> after < t \<Longrightarrow> \<exists>k \<ge> 0. t = ?t0 + k * minute_ns"
    and conv: "\<And>k. 0 \<le> k \<Longrightarrow> minute_ns dvd ?t0 + k * minute_ns \<and> after < ?t0 + k * minute_ns"
    using next_minutes by blast+
  have "0 < ?t0" using conv [of 0] assms(1) by simp
  from next_loop_finds [OF this, of s "after + four_years"] Next_start [of after aloc s] assms
  consider "?r = 0" "no_match s ?t0 (after + four_years)" | "first_match s ?t0 (after + four_years) ?r" by auto
  then show ?thesis
  proof cases
    case 1
    then have "\<not> matches s t" if "minute_ns dvd t \<and> after < t \<and> t < after + four_years" for t
      using mins [of t] that unfolding no_match_def by auto
    with 1 show ?thesis by blast
  next
    case 2
    then obtain k where k: "0 \<le> k" "?r = ?t0 + k * minute_ns" "?r < after + four_years" "matches s ?r"
      "\<forall>j. 0 \<le> j \<and> j < k \<longrightarrow> \<not> matches s (?t0 + j * minute_ns)" unfolding first_match_def by blast
    have "\<not> matches s t" if t: "minute_ns dvd t \<and> after < t \<and> t < ?r" for t
    proof -
      obtain j where "0 \<le> j" "t = ?t0 + j * minute_ns" using mins [of t] t by blast
      moreover from this t k(2) have "j < k" by (simp add: minute_ns_def)
      ultimately show ?thesis using k(5) by blast
    qed
    with k conv [of k] show ?thesis by auto
  qed
qed

section \<open>The aliases\<close>

lemma fields_daily: "Fields ''0 0 * * *'' = [''0'', ''0'', ''*'', ''*'', ''*'']"
  by code_simp

lemma parseField_star: "parseField ''*'' mn mx = Returned (makeFieldSet mn mx True)"
  by (simp add: parseField_def)

lemma parseField_0: "0 \<le> mx \<Longrightarrow> mx < 64 \<Longrightarrow> parseField ''0'' 0 mx = Returned (bit_at 0)"
proof -
  assume mx: "0 \<le> mx" "mx < 64"
  have zero: "TrimSpace ''0'' = ''0''" "Index ''0'' ''/'' = None" "Contains ''0'' ''-'' = False"
    "Split ''0'' (CHR '','') = [''0'']" "Atoi ''0'' = Some 0"
    by code_simp+
  have step: "parseStep ''0'' = Returned (1, ''0'')" by code_simp
  have bounds: "parseBounds ''0'' 0 mx = Returned (0, 0)"
    unfolding parseBounds_def zero by simp
  have "set_bits 0 0 1 0 = Returned (bit_at 0)"
    by (simp add: set_bits.simps in_int64_def min_int64_def max_int64_def)
  moreover have "bit_at 0 \<noteq> 0" by (simp add: bit_at_def)
  ultimately show ?thesis using mx
    by (simp add: parseField_def zero(4) parseAtom_def zero(1) step bounds Let_def)
qed

definition daily :: "location \<Rightarrow> Schedule" where
  "daily loc = \<lparr>schMinute = bit_at 0, schHour = bit_at 0, schDayOfMonth = makeFieldSet 1 31 True,
     schMonth = makeFieldSet 1 12 True, schDayOfWeek = makeFieldSet 0 6 True, schLoc = loc\<rparr>"

lemma ParseSchedule_daily: "ParseSchedule local ''@daily'' (Some loc) = Returned (daily loc)"
proof -
  have "TrimSpace ''@daily'' = ''@daily''" by code_simp
  then show ?thesis
    by (simp add: ParseSchedule_def parseFields_def fields_daily parseField_star parseField_0 daily_def Let_def)
qed

lemma has_bit_at_0: "has (bit_at 0) i \<longleftrightarrow> i = 0"
  using has_or_bit [of 0 0 i] by simp

lemma matches_daily: "matches (daily loc) t \<longleftrightarrow> go_Minute loc t = 0 \<and> go_Hour loc t = 0"
  using month_day_range [of loc t] has_makeFieldSet [of 1 12 "go_Month loc t"]
  by (simp add: matches_def daily_def has_bit_at_0)

lemma local_midnight: "wall_seconds loc t mod 86400 = 0 \<Longrightarrow> matches (daily loc) t"
proof -
  assume m: "wall_seconds loc t mod 86400 = 0"
  then have "wall_seconds loc t mod 3600 = 0"
    using mod_mod_cancel [of 3600 86400 "wall_seconds loc t"] by simp
  with m show ?thesis by (simp add: matches_daily go_Minute_def go_Hour_def)
qed

section \<open>Properties\<close>

text \<open>
  Whatever the text, a schedule that \<open>ParseSchedule\<close> accepts is well formed: each of its five
  bit sets is non-empty and holds only values of its field (minutes 0 to 59, hours 0 to 23, days 1 to
  31, months 1 to 12, weekdays 0 to 6), and it carries the requested location.
\<close>

theorem ParseSchedule_ok:
  assumes "ParseSchedule local spec (Some loc) = Returned s"
  shows "schedule_ok s \<and> schLoc s = loc"
  using assms unfolding ParseSchedule_def Let_def
  by (auto dest: parseFields_ok simp del: parseFields_def split: if_splits)

theorem ParseSchedule_ok_witness: "schedule_ok (daily (\<lambda>_. 0)) \<and> schLoc (daily (\<lambda>_. 0)) = (\<lambda>_. 0)"
  by (rule ParseSchedule_ok [OF ParseSchedule_daily])

text \<open>
  Every list of atoms of the dialect (the star, numbers and ranges, each with or without a step)
  whose values fit the field is accepted as it is written, and yields exactly the set of values the
  atoms stand for.
\<close>

theorem parseField_text:
  assumes "as \<noteq> []" and "\<forall>a \<in> set as. atom_ok mn mx a" and "0 \<le> mn" and "mx < 64"
  shows "\<exists>f. parseField (Join (map atom_text as) '','') mn mx = Returned f \<and>
    (\<forall>i. has f i \<longleftrightarrow> (\<exists>a \<in> set as. atom_has mn mx a i))"
proof (cases "Join (map atom_text as) '','' = ''*''")
  case True
  have "as = [(Every, None)]" using Join_text_star [OF assms(1) True] assms(2,3) atom_text_comma by blast
  with assms True show ?thesis
    by (auto simp: parseField_star atom_has_def atom_step_def has_makeFieldSet atom_ok_def)
next
  case False
  from parseAtoms_text [OF assms(2-4), of 0] obtain f where
    f: "parseAtoms (map atom_text as) mn mx 0 = Returned f"
      "\<And>i. has f i \<longleftrightarrow> (\<exists>a \<in> set as. atom_has mn mx a i)" by auto
  have "Split (Join (map atom_text as) '','') (CHR '','') = map atom_text as"
    using assms atom_text_comma by (subst Split_Join) auto
  moreover have "f \<noteq> 0" using f(2) assms(1,2) atom_has_self has_ex by (metis last_in_set)
  ultimately show ?thesis using f False by (auto simp: parseField_def)
qed

theorem parseField_text_witness:
  "\<exists>f. parseField (Join (map atom_text [(Every, Some 15), (Between 3 5, None)]) '','') 0 59 = Returned f \<and>
    (\<forall>i. has f i \<longleftrightarrow> (\<exists>a \<in> set [(Every, Some 15), (Between 3 5, None)]. atom_has 0 59 a i))"
  by (rule parseField_text) (auto simp: atom_ok_def atom_step_def max_int64_def)

text \<open>
  C9. For an argument not before 1970 whose location has an offset of whole minutes, \<open>Next\<close> returns the
  earliest matching minute strictly after its argument, or the zero time when no minute of the
  following four years matches. The comment above the code says at or after: an argument that is itself a
  matching minute is not returned (\<open>Next_skips_argument\<close>).
\<close>

theorem Next_earliest:
  assumes "0 \<le> after" and "aloc after mod 60 = 0"
  shows "Next aloc (Some s) after = 0 \<and>
      (\<forall>t. minute_ns dvd t \<and> after < t \<and> t < after + four_years \<longrightarrow> \<not> matches s t) \<or>
    minute_ns dvd Next aloc (Some s) after \<and> after < Next aloc (Some s) after \<and>
      Next aloc (Some s) after < after + four_years \<and> matches s (Next aloc (Some s) after) \<and>
      (\<forall>t. minute_ns dvd t \<and> after < t \<and> t < Next aloc (Some s) after \<longrightarrow> \<not> matches s t)"
  using assms by (rule Next_spec)

theorem Next_earliest_witness:
  "Next (\<lambda>_. 3600) (Some (daily (\<lambda>_. 0))) 90000000000 = 0 \<and>
      (\<forall>t. minute_ns dvd t \<and> 90000000000 < t \<and> t < 90000000000 + four_years \<longrightarrow> \<not> matches (daily (\<lambda>_. 0)) t) \<or>
    minute_ns dvd Next (\<lambda>_. 3600) (Some (daily (\<lambda>_. 0))) 90000000000 \<and>
      90000000000 < Next (\<lambda>_. 3600) (Some (daily (\<lambda>_. 0))) 90000000000 \<and>
      Next (\<lambda>_. 3600) (Some (daily (\<lambda>_. 0))) 90000000000 < 90000000000 + four_years \<and>
      matches (daily (\<lambda>_. 0)) (Next (\<lambda>_. 3600) (Some (daily (\<lambda>_. 0))) 90000000000) \<and>
      (\<forall>t. minute_ns dvd t \<and> 90000000000 < t \<and> t < Next (\<lambda>_. 3600) (Some (daily (\<lambda>_. 0))) 90000000000 \<longrightarrow>
        \<not> matches (daily (\<lambda>_. 0)) t)"
  by (rule Next_earliest) simp_all

text \<open>The divergence: a positive argument is never its own next time, whether the schedule matches it or not.\<close>

theorem Next_skips_argument:
  assumes "0 < after" and "aloc after mod 60 = 0"
  shows "Next aloc (Some s) after \<noteq> after"
  using Next_spec [of after aloc s] assms by auto

text \<open>
  The daily schedule is live: in a zone with a fixed offset of whole minutes, the next run after
  any instant is less than a day and a minute away, at local midnight.
\<close>

theorem daily_fires_within_a_day:
  assumes "0 \<le> after" and "off mod 60 = 0"
  shows "\<exists>s. ParseSchedule local ''@daily'' (Some (\<lambda>_. off)) = Returned s \<and>
    after < Next (\<lambda>_. off) (Some s) after \<and> Next (\<lambda>_. off) (Some s) after \<le> after + 86400000000000 \<and>
    go_Hour (\<lambda>_. off) (Next (\<lambda>_. off) (Some s) after) = 0 \<and>
    go_Minute (\<lambda>_. off) (Next (\<lambda>_. off) (Some s) after) = 0"
proof -
  let ?s = "daily (\<lambda>_. off)" and ?r = "Next (\<lambda>_. off) (Some (daily (\<lambda>_. off))) after"
  obtain m where m: "off = 60 * m" using assms(2) by auto
  define x where "x = after + 60000000000 * m"
  define t where "t = after + 86400000000000 - x mod 86400000000000"
  have "x mod 86400000000000 < 86400000000000" "0 \<le> x mod 86400000000000" by simp_all
  then have range: "after < t" "t \<le> after + 86400000000000" unfolding t_def by simp_all
  define q where "q = x div 86400000000000"
  have "x mod 86400000000000 = x - 86400000000000 * q" unfolding q_def by (simp add: minus_mult_div_eq_mod [symmetric])
  then have t: "t = 60000000000 * (1440 * (q + 1) - m)" unfolding t_def x_def by simp
  have "t div 1000000000 = 60 * (1440 * (q + 1) - m)" unfolding t by simp
  then have "wall_seconds (\<lambda>_. off) t = 86400 * (q + 1)" by (simp add: wall_seconds_def m)
  then have "matches ?s t" by (intro local_midnight) simp
  moreover have "minute_ns dvd t" unfolding t minute_ns_def by simp
  moreover have "t < after + four_years" using range by (simp add: four_years_def minute_ns_def)
  ultimately have "after < ?r \<and> ?r \<le> t \<and> matches ?s ?r"
    using Next_spec [of after "\<lambda>_. off" ?s] assms range by (meson not_le)
  with range ParseSchedule_daily show ?thesis by (auto simp: matches_daily)
qed

theorem daily_fires_within_a_day_witness:
  "\<exists>s. ParseSchedule (\<lambda>_. 0) ''@daily'' (Some (\<lambda>_. 10800)) = Returned s \<and>
    7 < Next (\<lambda>_. 10800) (Some s) 7 \<and> Next (\<lambda>_. 10800) (Some s) 7 \<le> 7 + 86400000000000 \<and>
    go_Hour (\<lambda>_. 10800) (Next (\<lambda>_. 10800) (Some s) 7) = 0 \<and>
    go_Minute (\<lambda>_. 10800) (Next (\<lambda>_. 10800) (Some s) 7) = 0"
  by (rule daily_fires_within_a_day) simp_all

text \<open>
  After a run at \<open>now\<close>, the scheduler's next run is due more than a minute later or never,
  whatever the schedule says: it searches from one minute after \<open>now\<close> and \<open>Next\<close> looks strictly
  after its argument. Two runs never fall into one minute, and a schedule for every minute runs
  every other minute.
\<close>

theorem runs_more_than_a_minute_apart:
  assumes "scheduler_tick local snap now nextFire = Returned (nf', True)"
    and "0 \<le> now" and "local (now + minute_ns) mod 60 = 0"
  shows "nf' = 0 \<or> now + minute_ns < nf'"
proof -
  from assms(1) obtain s where "nf' = Next local (Some s) (now + minute_ns)"
    by (auto simp: scheduler_tick_def Let_def split: if_splits outcome.splits)
  with Next_spec [of "now + minute_ns" local s] assms(2,3) show ?thesis by (auto simp: minute_ns_def)
qed

definition demo_snapshot :: backupSnapshot where
  "demo_snapshot = \<lparr>snEnabled = True, snSchedule = ''@daily'', snLocation = Some (\<lambda>_. 0), snLastRun = 0\<rparr>"

theorem runs_more_than_a_minute_apart_witness:
  "Next (\<lambda>_. 0) (Some (daily (\<lambda>_. 0))) (7 + minute_ns) = 0 \<or>
     7 + minute_ns < Next (\<lambda>_. 0) (Some (daily (\<lambda>_. 0))) (7 + minute_ns)"
  by (rule runs_more_than_a_minute_apart [of "\<lambda>_. 0" demo_snapshot 7 5])
    (simp_all add: scheduler_tick_def demo_snapshot_def ParseSchedule_daily)

text \<open>
  A step close to the largest 64-bit integer brings the process down: in a field that does not
  start at 0 the loop counter wraps to a negative number and the shift by it panics.
\<close>

theorem parseField_step_overflow: "parseField ''*/9223372036854775807'' 1 31 = Panicked"
proof -
  have "Index ''*/9223372036854775807'' ''/'' = Some 1" by (simp add: HasPrefix_def)
  moreover have "Atoi ''9223372036854775807'' = Some 9223372036854775807"
    by (simp add: Atoi_def digits_val_def digit_val_def is_digit_def in_int64_def min_int64_def max_int64_def)
  ultimately have "parseStep ''*/9223372036854775807'' = Returned (9223372036854775807, ''*'')"
    by (simp add: parseStep_def)
  moreover have "TrimSpace ''*/9223372036854775807'' = ''*/9223372036854775807''"
    by (rule TrimSpace_no_space) (simp add: is_space_def)
  moreover have "set_bits 1 31 9223372036854775807 0 = Panicked"
    by (simp add: set_bits.simps wrap64_def in_int64_def min_int64_def max_int64_def)
  ultimately show ?thesis
    by (simp add: parseField_def parseAtom_def parseBounds_def)
qed

end
