(* ===== verification/DHCP.thy ===== *)
theory DHCP
  imports DNS BackupSchedule
begin

text \<open>
  The DHCP service (\<^verbatim>\<open>internal/services/dhcp.go\<close>): static leases, their mirror among the static
  DNS records, the wholesale rebuild of that mirror, the lease file, and the data of the dnsmasq
  template. The DNS service it calls is the one of theory \<open>DNS\<close>.
\<close>

section \<open>Definitions\<close>

subsection \<open>Static leases\<close>

definition staticLeaseFQDN :: "Config \<Rightarrow> string \<Rightarrow> string" where
  "staticLeaseFQDN c hostname =
     (let domain = (if sysDomain (cfgSystem c) = [] then ''lan'' else sysDomain (cfgSystem c))
      in hostname @ ''.'' @ domain)"

definition map_leases :: "(StaticLease list \<Rightarrow> StaticLease list) \<Rightarrow> Config \<Rightarrow> Config" where
  "map_leases f c = c\<lparr>cfgDHCP := (cfgDHCP c)\<lparr>dhcpStaticLeases := f (dhcpStaticLeases (cfgDHCP c))\<rparr>\<rparr>"

definition GetStaticLeases :: "store \<Rightarrow> StaticLease list" where
  "GetStaticLeases st = dhcpStaticLeases (cfgDHCP (cfg st))"

definition mirror_record :: "Config \<Rightarrow> StaticLease \<Rightarrow> StaticDNSRecord" where
  "mirror_record c l = zero_StaticDNSRecord\<lparr>srName := staticLeaseFQDN c (slHostname l), srIP := slIP l,
     srSource := DNSSourceDHCPStatic\<rparr>"

text \<open>The loop that looks for a conflict, in the order of the stored leases.\<close>

definition lease_conflict :: "StaticLease \<Rightarrow> Config \<Rightarrow> error option" where
  "lease_conflict new c =
     (case find (\<lambda>l. EqualFold (slMAC l) (slMAC new) \<or> slIP l = slIP new) (dhcpStaticLeases (cfgDHCP c)) of
        None \<Rightarrow> None
      | Some l \<Rightarrow> if EqualFold (slMAC l) (slMAC new)
          then Some (''MAC address '' @ slMAC new @ '' already has a static lease'')
          else Some (''IP address '' @ slIP new @ '' already reserved''))"

text \<open>The part of \<open>AddStaticLease\<close> up to \<open>persist\<close>.\<close>

definition store_lease :: "osenv \<Rightarrow> StaticLease \<Rightarrow> store \<Rightarrow> error option \<times> store" where
  "store_lease env new st =
     (case lease_conflict new (cfg st) of
        Some e \<Rightarrow> (Some e, st)
      | None \<Rightarrow> SaveToFile env (st\<lparr>cfg := map_leases (\<lambda>ls. ls @ [new]) (cfg st)\<rparr>))"

text \<open>\<open>wired\<close> says whether a DNS service was set. The error of the mirror is only logged.\<close>

definition AddStaticLease :: "bool \<Rightarrow> osenv \<Rightarrow> StaticLease \<Rightarrow> store \<Rightarrow> error option \<times> store" where
  "AddStaticLease wired env new st =
     (case store_lease env new st of
        (Some e, st1) \<Rightarrow> (Some e, st1)
      | (None, st1) \<Rightarrow>
          if wired \<and> slHostname new \<noteq> []
          then (None, snd (AddStaticRecord env (mirror_record (cfg st1) new) st1))
          else (None, st1))"

definition drop_lease :: "osenv \<Rightarrow> goint \<Rightarrow> store \<Rightarrow> error option \<times> store" where
  "drop_lease env index st =
     (if bad_index index (dhcpStaticLeases (cfgDHCP (cfg st)))
      then (Some (''invalid static lease index: '' @ Itoa index), st)
      else SaveToFile env (st\<lparr>cfg := map_leases (remove_nth (nat index)) (cfg st)\<rparr>))"

definition RemoveStaticLease :: "bool \<Rightarrow> osenv \<Rightarrow> goint \<Rightarrow> store \<Rightarrow> error option \<times> store" where
  "RemoveStaticLease wired env index st =
     (case drop_lease env index st of
        (Some e, st1) \<Rightarrow> (Some e, st1)
      | (None, st1) \<Rightarrow>
          (let removed = dhcpStaticLeases (cfgDHCP (cfg st)) ! nat index in
           if wired \<and> slHostname removed \<noteq> []
           then (case FindStaticRecordIndexBySource st1 DNSSourceDHCPStatic
                        (staticLeaseFQDN (cfg st1) (slHostname removed)) of
               Some idx \<Rightarrow> (None, snd (RemoveStaticRecord env (int idx) st1))
             | None \<Rightarrow> (None, st1))
           else (None, st1)))"

subsection \<open>Rebuilding the mirror\<close>

lemma RemoveStaticRecord_shrinks:
  assumes "find_index P (dnsStaticRecords (cfgDNS (cfg st))) = Some i"
  shows "dnsStaticRecords (cfgDNS (cfg (snd (RemoveStaticRecord env (int i) st)))) =
      remove_nth i (dnsStaticRecords (cfgDNS (cfg st)))"
    and "i < length (dnsStaticRecords (cfgDNS (cfg st)))"
proof -
  from find_index_Some [OF assms] show i: "i < length (dnsStaticRecords (cfgDNS (cfg st)))" by simp
  then have "\<not> bad_index (int i) (dnsStaticRecords (cfgDNS (cfg st)))" by (simp add: bad_index_def)
  then show "dnsStaticRecords (cfgDNS (cfg (snd (RemoveStaticRecord env (int i) st)))) =
      remove_nth i (dnsStaticRecords (cfgDNS (cfg st)))"
    by (subst remove_record.accepted_cfg) simp_all
qed

function strip_mirror :: "osenv \<Rightarrow> store \<Rightarrow> error option \<times> store" where
  "strip_mirror env st =
     (case find_index (\<lambda>r. srSource r = DNSSourceDHCPStatic) (dnsStaticRecords (cfgDNS (cfg st))) of
        None \<Rightarrow> (None, st)
      | Some idx \<Rightarrow> (case fst (RemoveStaticRecord env (int idx) st) of
          Some e \<Rightarrow> (Some (''strip dns mirror: '' @ e), snd (RemoveStaticRecord env (int idx) st))
        | None \<Rightarrow> strip_mirror env (snd (RemoveStaticRecord env (int idx) st))))"
  by pat_completeness auto
termination
proof (relation "measure (\<lambda>(env, st). length (dnsStaticRecords (cfgDNS (cfg st))))")
  fix env :: osenv and st :: store and i :: nat
  assume "find_index (\<lambda>r. srSource r = DNSSourceDHCPStatic) (dnsStaticRecords (cfgDNS (cfg st))) = Some i"
  from RemoveStaticRecord_shrinks [OF this]
  show "((env, snd (RemoveStaticRecord env (int i) st)), (env, st))
      \<in> measure (\<lambda>(env, st). length (dnsStaticRecords (cfgDNS (cfg st))))"
    by simp
qed simp

declare strip_mirror.simps [simp del]

definition readd_lease :: "osenv \<Rightarrow> store \<Rightarrow> StaticLease \<Rightarrow> store" where
  "readd_lease env st l =
     (if slHostname l = [] then st else snd (AddStaticRecord env (mirror_record (cfg st) l) st))"

text \<open>\<open>apply\<close> is the DNS service's \<open>ApplyConfig\<close>: render, write, reload.\<close>

definition SyncStaticDNSRecords ::
    "bool \<Rightarrow> osenv \<Rightarrow> (store \<Rightarrow> error option) \<Rightarrow> store \<Rightarrow> error option \<times> store" where
  "SyncStaticDNSRecords wired env apply_dns st =
     (if \<not> wired then (None, st)
      else (case strip_mirror env st of
          (Some e, st1) \<Rightarrow> (Some e, st1)
        | (None, st1) \<Rightarrow>
            (let st2 = foldl (readd_lease env) st1 (dhcpStaticLeases (cfgDHCP (cfg st1)))
             in (apply_dns st2, st2))))"

subsection \<open>The lease file\<close>

record Lease =
  leExpiry :: gotime
  leMAC :: string
  leIP :: string
  leHostname :: string
  leActive :: bool

definition go_Unix :: "int \<Rightarrow> gotime" where
  "go_Unix sec = nanos (wrap64 (sec + 62135596800))"

definition parse_lease_line :: "gotime \<Rightarrow> string \<Rightarrow> Lease option" where
  "parse_lease_line now line0 =
     (let line = TrimSpace line0 in
      if line = [] then None
      else (let fields = Fields line in
        if length fields < 4 then None
        else (let expiry = ParseInt_value (fields ! 0) in
          Some \<lparr>leExpiry = go_Unix expiry, leMAC = fields ! 1, leIP = fields ! 2,
                leHostname = (if fields ! 3 = ''*'' then [] else fields ! 3),
                leActive = (expiry = 0 \<or> go_Unix expiry > now)\<rparr>)))"

definition ParseLeaseData :: "gotime \<Rightarrow> string \<Rightarrow> Lease list" where
  "ParseLeaseData now data = List.map_filter (parse_lease_line now) (Split data (CHR 0x0A))"

record DeviceInfo =
  diMAC :: string
  diIP :: string
  diHostname :: string

definition GetDeviceList :: "Lease list \<Rightarrow> DeviceInfo list" where
  "GetDeviceList leases =
     map (\<lambda>l. \<lparr>diMAC = leMAC l, diIP = leIP l, diHostname = leHostname l\<rparr>) (filter leActive leases)"

text \<open>The commands \<open>RebuildDNSRecords\<close> runs for one active lease, after the mirror was rebuilt.\<close>

definition lease_commands :: "string \<Rightarrow> Lease \<Rightarrow> string list list" where
  "lease_commands resolveDomain l =
     (if leHostname l = [] \<or> \<not> leActive l then []
      else (let fqdn = leHostname l @ ''.'' @ resolveDomain; parts = Split (leIP l) (CHR ''.'') in
        [[''unbound-control'', ''local_data'', fqdn @ ''. 300 IN A '' @ leIP l],
         [''unbound-control'', ''local_data'', leHostname l @ ''. 300 IN A '' @ leIP l]] @
        (if length parts = 4
         then [[''unbound-control'', ''local_data'', parts ! 3 @ ''.'' @ parts ! 2 @ ''.'' @ parts ! 1 @ ''.'' @
                parts ! 0 @ ''.in-addr.arpa.'' @ '' 300 IN PTR '' @ fqdn @ ''.'']]
         else [])))"

definition RebuildDNSRecords ::
    "bool \<Rightarrow> osenv \<Rightarrow> (store \<Rightarrow> error option) \<Rightarrow> Lease list \<Rightarrow> string \<Rightarrow> store \<Rightarrow> string list list \<times> store" where
  "RebuildDNSRecords wired env apply_dns leases domain st =
     (let st1 = snd (SyncStaticDNSRecords wired env apply_dns st);
          d1 = (if domain = [] then sysDomain (cfgSystem (cfg st1)) else domain);
          resolveDomain = (if d1 = [] then ''lan'' else d1)
      in ([''unbound-control'', ''flush_zone'', resolveDomain] # concat (map (lease_commands resolveDomain) leases), st1))"

subsection \<open>The dnsmasq template\<close>

record vlanDHCPRange =
  vrDevice :: string
  vrRangeStart :: string
  vrRangeEnd :: string
  vrLeaseTime :: string
  vrGateway :: string
  vrDNSServer :: string

record dnsmasqTemplateData =
  dmLANDevice :: string
  dmRangeStart :: string
  dmRangeEnd :: string
  dmLeaseTime :: string
  dmGateway :: string
  dmGateway6 :: string
  dmDNSServer :: string
  dmDomain :: string
  dmStaticLeases :: "StaticLease list"
  dmIPv6Enabled :: bool
  dmULAPrefix :: string
  dmULARange :: string
  dmRAInterval :: goint
  dmVLANDHCPRanges :: "vlanDHCPRange list"

definition parent_device :: "Config \<Rightarrow> string \<Rightarrow> string" where
  "parent_device c parent = (case find (\<lambda>f. ifID f = parent) (cfgInterfaces c) of Some f \<Rightarrow> ifDevice f | None \<Rightarrow> [])"

text \<open>The data \<open>RenderConfig\<close> passes to the template; \<open>subnetFromCIDR\<close> is the argument \<open>subnet\<close>.\<close>

definition dhcp_template_data :: "(string \<Rightarrow> string) \<Rightarrow> Config \<Rightarrow> dnsmasqTemplateData" where
  "dhcp_template_data subnet c =
     (let d = cfgDHCP c;
          lanDevice = (case find (\<lambda>f. ifRole f = ''lan'') (cfgInterfaces c) of Some f \<Rightarrow> ifDevice f | None \<Rightarrow> []);
          leaseTime = (if dhcpLeaseTime d = [] then ''12h'' else dhcpLeaseTime d);
          gateway = (if dhcpGateway d = [] then ''10.10.10.1'' else dhcpGateway d);
          dnsServer = (if dhcpDNSServer d = [] then gateway else dhcpDNSServer d)
      in \<lparr>dmLANDevice = lanDevice, dmRangeStart = dhcpRangeStart d, dmRangeEnd = dhcpRangeEnd d,
          dmLeaseTime = leaseTime, dmGateway = gateway, dmGateway6 = [], dmDNSServer = dnsServer,
          dmDomain = (if sysDomain (cfgSystem c) = [] then ''lan'' else sysDomain (cfgSystem c)),
          dmStaticLeases = dhcpStaticLeases d, dmIPv6Enabled = ip6Enabled (cfgIPv6 c) \<noteq> ''off'',
          dmULAPrefix = (if ulaEnabled (lan6ULA (ip6LAN (cfgIPv6 c))) then ulaPrefix (lan6ULA (ip6LAN (cfgIPv6 c))) else []),
          dmULARange = [],
          dmRAInterval = (if lan6RAInterval (ip6LAN (cfgIPv6 c)) = 0 then 60 else lan6RAInterval (ip6LAN (cfgIPv6 c))),
          dmVLANDHCPRanges = concat (map (\<lambda>v.
             if vdEnabled (vlDHCP v) \<and> vlAddress v \<noteq> [] \<and> parent_device c (vlParent v) \<noteq> []
             then [\<lparr>vrDevice = parent_device c (vlParent v) @ ''.'' @ Itoa (vlVID v), vrRangeStart = [], vrRangeEnd = [],
                    vrLeaseTime = leaseTime, vrGateway = subnet (vlAddress v), vrDNSServer = subnet (vlAddress v)\<rparr>]
             else []) (cfgVLANs c))\<rparr>)"

section \<open>The changes meet the contract\<close>

lemma map_leases_simps [simp]:
  "cfgFilePath (map_leases f c) = cfgFilePath c"
  "cfgDNS (map_leases f c) = cfgDNS c"
  "cfgSystem (map_leases f c) = cfgSystem c"
  "dhcpStaticLeases (cfgDHCP (map_leases f c)) = f (dhcpStaticLeases (cfgDHCP c))"
  by (simp_all add: map_leases_def)

lemma map_dns_simps [simp]:
  "cfgDHCP (map_dns f c) = cfgDHCP c" "cfgSystem (map_dns f c) = cfgSystem c"
  by (simp_all add: map_dns_def)

interpretation store_lease: config_mutation store_lease lease_conflict "\<lambda>new. map_leases (\<lambda>ls. ls @ [new])"
  by unfold_locales (auto simp: store_lease_def split: option.split)

interpretation drop_lease: config_mutation drop_lease
  "\<lambda>i c. if bad_index i (dhcpStaticLeases (cfgDHCP c))
      then Some (''invalid static lease index: '' @ Itoa i) else None"
  "\<lambda>i. map_leases (remove_nth (nat i))"
  by unfold_locales (simp_all add: drop_lease_def)

text \<open>No two static leases share a hardware address, in any capitalisation, or an IP address.\<close>

definition leases_ok :: "Config \<Rightarrow> bool" where
  "leases_ok c \<longleftrightarrow> distinct (map (ToLower \<circ> slMAC) (dhcpStaticLeases (cfgDHCP c))) \<and>
     distinct (map slIP (dhcpStaticLeases (cfgDHCP c)))"

lemma lease_conflict_None:
  "lease_conflict new c = None \<longleftrightarrow> (\<forall>l \<in> set (dhcpStaticLeases (cfgDHCP c)).
     ToLower (slMAC l) \<noteq> ToLower (slMAC new) \<and> slIP l \<noteq> slIP new)"
proof -
  let ?P = "\<lambda>l. EqualFold (slMAC l) (slMAC new) \<or> slIP l = slIP new"
  have "lease_conflict new c = None \<longleftrightarrow> find ?P (dhcpStaticLeases (cfgDHCP c)) = None"
    by (auto simp: lease_conflict_def split: option.splits)
  also have "\<dots> \<longleftrightarrow> (\<forall>l \<in> set (dhcpStaticLeases (cfgDHCP c)). \<not> ?P l)" by (auto simp: find_None_iff)
  finally show ?thesis by (simp add: EqualFold_def)
qed

lemma leases_ok_store: "leases_ok (cfg st) \<Longrightarrow> leases_ok (cfg (snd (store_lease env new st)))"
  by (rule store_lease.preserves) (auto simp: leases_ok_def lease_conflict_None)

lemma leases_ok_drop: "leases_ok (cfg st) \<Longrightarrow> leases_ok (cfg (snd (drop_lease env i st)))"
  by (rule drop_lease.preserves) (auto simp: leases_ok_def remove_nth_map distinct_remove_nth)

text \<open>The DNS service leaves leases alone.\<close>

lemma leases_AddStaticRecord [store_simps]:
  "cfgDHCP (cfg (snd (AddStaticRecord env rec st))) = cfgDHCP (cfg st)"
  using add_record.cfg_cases [of env rec st] by auto

lemma system_AddStaticRecord [store_simps]:
  "cfgSystem (cfg (snd (AddStaticRecord env rec st))) = cfgSystem (cfg st)"
  using add_record.cfg_cases [of env rec st] by auto

lemma leases_RemoveStaticRecord [store_simps]:
  "cfgDHCP (cfg (snd (RemoveStaticRecord env i st))) = cfgDHCP (cfg st)"
  using remove_record.cfg_cases [of env i st] by auto

lemma system_RemoveStaticRecord [store_simps]:
  "cfgSystem (cfg (snd (RemoveStaticRecord env i st))) = cfgSystem (cfg st)"
  using remove_record.cfg_cases [of env i st] by auto

lemma AddStaticLease_leases:
  "dhcpStaticLeases (cfgDHCP (cfg (snd (AddStaticLease w env new st)))) =
     dhcpStaticLeases (cfgDHCP (cfg (snd (store_lease env new st))))"
  by (simp add: AddStaticLease_def store_simps split: prod.split option.split)

lemma RemoveStaticLease_leases:
  "dhcpStaticLeases (cfgDHCP (cfg (snd (RemoveStaticLease w env i st)))) =
     dhcpStaticLeases (cfgDHCP (cfg (snd (drop_lease env i st))))"
  by (simp add: RemoveStaticLease_def Let_def store_simps split: prod.split option.split)

section \<open>The mirror\<close>

definition user_records :: "Config \<Rightarrow> StaticDNSRecord list" where
  "user_records c = filter (\<lambda>r. srSource r \<noteq> DNSSourceDHCPStatic) (dnsStaticRecords (cfgDNS c))"

lemma filter_remove_nth: "i < length xs \<Longrightarrow> \<not> P (xs ! i) \<Longrightarrow> filter P (remove_nth i xs) = filter P xs"
proof -
  assume i: "i < length xs" "\<not> P (xs ! i)"
  then have "xs = take i xs @ xs ! i # drop (Suc i) xs" by (simp add: id_take_nth_drop)
  then have "filter P xs = filter P (take i xs) @ filter P (drop (Suc i) xs)" using i(2)
    by (metis filter.simps(2) filter_append)
  then show ?thesis by (simp add: remove_nth_def)
qed

lemma strip_mirror_result:
  "strip_mirror env st = (None, st') \<Longrightarrow>
     dnsStaticRecords (cfgDNS (cfg st')) = user_records (cfg st) \<and>
     cfgDHCP (cfg st') = cfgDHCP (cfg st) \<and> cfgSystem (cfg st') = cfgSystem (cfg st)"
proof (induction env st rule: strip_mirror.induct)
  case (1 env st)
  let ?recs = "dnsStaticRecords (cfgDNS (cfg st))" and ?P = "\<lambda>r. srSource r = DNSSourceDHCPStatic"
  show ?case
  proof (cases "find_index ?P ?recs")
    case None
    with 1(2) show ?thesis
      by (simp add: strip_mirror.simps [of env st] user_records_def find_index_None)
  next
    case (Some i)
    note rem = RemoveStaticRecord_shrinks(1) [OF Some, of env] RemoveStaticRecord_shrinks(2) [OF Some]
    let ?st1 = "snd (RemoveStaticRecord env (int i) st)"
    have ok: "fst (RemoveStaticRecord env (int i) st) = None" and rest: "strip_mirror env ?st1 = (None, st')"
      using 1(2) Some by (auto simp: strip_mirror.simps [of env st] split: option.splits)
    have "user_records (cfg ?st1) = user_records (cfg st)"
      using rem find_index_Some [OF Some] by (simp add: user_records_def filter_remove_nth)
    with 1(1) [OF Some ok rest] show ?thesis by (simp add: store_simps)
  qed
qed

text \<open>Adding the mirrored records one by one, on the record table alone.\<close>

definition add_named :: "StaticDNSRecord list \<Rightarrow> StaticDNSRecord \<Rightarrow> StaticDNSRecord list" where
  "add_named rs rec = (if length rs \<ge> MaxStaticDNSRecords \<or> (\<exists>r \<in> set rs. EqualFold (srName r) (srName rec))
     then rs else rs @ [rec])"

definition mirror_of :: "Config \<Rightarrow> StaticDNSRecord list" where
  "mirror_of c = map (mirror_record c) (filter (\<lambda>l. slHostname l \<noteq> []) (dhcpStaticLeases (cfgDHCP c)))"

lemma AddStaticRecord_records:
  "dnsStaticRecords (cfgDNS (cfg (snd (AddStaticRecord env rec st)))) = add_named (dnsStaticRecords (cfgDNS (cfg st))) rec"
  by (auto simp: AddStaticRecord_def add_named_def list_ex_iff SaveToFile_cfg)

lemma mirror_record_cong: "cfgSystem c = cfgSystem c' \<Longrightarrow> mirror_record c = mirror_record c'"
  by (auto simp: mirror_record_def staticLeaseFQDN_def)

lemma readd_leases:
  "cfgSystem (cfg st) = cfgSystem c \<Longrightarrow>
   dnsStaticRecords (cfgDNS (cfg (foldl (readd_lease env) st ls))) =
     foldl add_named (dnsStaticRecords (cfgDNS (cfg st))) (map (mirror_record c) (filter (\<lambda>l. slHostname l \<noteq> []) ls)) \<and>
   cfgDHCP (cfg (foldl (readd_lease env) st ls)) = cfgDHCP (cfg st) \<and>
   cfgSystem (cfg (foldl (readd_lease env) st ls)) = cfgSystem (cfg st)"
proof (induction ls arbitrary: st)
  case Nil
  then show ?case by simp
next
  case (Cons l ls)
  have "cfgSystem (cfg (readd_lease env st l)) = cfgSystem c" "cfgDHCP (cfg (readd_lease env st l)) = cfgDHCP (cfg st)"
    using Cons.prems by (simp_all add: readd_lease_def store_simps)
  moreover have "dnsStaticRecords (cfgDNS (cfg (readd_lease env st l))) = (if slHostname l = []
      then dnsStaticRecords (cfgDNS (cfg st)) else add_named (dnsStaticRecords (cfgDNS (cfg st))) (mirror_record c l))"
    using mirror_record_cong [OF Cons.prems] by (simp add: readd_lease_def AddStaticRecord_records)
  ultimately show ?case using Cons.IH [of "readd_lease env st l"] Cons.prems by simp
qed

text \<open>What the rebuild leaves, when stripping the old mirror could save each step.\<close>

lemma Sync_records:
  assumes "SyncStaticDNSRecords True env apply_dns st = (r, st')" and "strip_mirror env st = (None, st1)"
  shows "dnsStaticRecords (cfgDNS (cfg st')) = foldl add_named (user_records (cfg st)) (mirror_of (cfg st))"
    and "cfgDHCP (cfg st') = cfgDHCP (cfg st)" and "cfgSystem (cfg st') = cfgSystem (cfg st)"
proof -
  note strip = strip_mirror_result [OF assms(2)]
  have "st' = foldl (readd_lease env) st1 (dhcpStaticLeases (cfgDHCP (cfg st1)))"
    using assms by (simp add: SyncStaticDNSRecords_def Let_def)
  with readd_leases [of st1 "cfg st" env "dhcpStaticLeases (cfgDHCP (cfg st1))"] strip
  show "dnsStaticRecords (cfgDNS (cfg st')) = foldl add_named (user_records (cfg st)) (mirror_of (cfg st))"
    and "cfgDHCP (cfg st') = cfgDHCP (cfg st)" and "cfgSystem (cfg st') = cfgSystem (cfg st)"
    by (simp_all add: mirror_of_def)
qed

lemma add_named_fold:
  "\<exists>ms. foldl add_named rs xs = rs @ ms \<and> set ms \<subseteq> set xs \<and>
     (\<forall>x \<in> set xs. (\<exists>r \<in> set (rs @ ms). EqualFold (srName r) (srName x)) \<or> length (rs @ ms) \<ge> MaxStaticDNSRecords)"
proof (induction xs arbitrary: rs)
  case Nil
  then show ?case by simp
next
  case (Cons x xs)
  obtain ms where ms: "foldl add_named (add_named rs x) xs = add_named rs x @ ms" "set ms \<subseteq> set xs"
    "\<forall>y \<in> set xs. (\<exists>r \<in> set (add_named rs x @ ms). EqualFold (srName r) (srName y)) \<or>
       length (add_named rs x @ ms) \<ge> MaxStaticDNSRecords"
    using Cons.IH by blast
  show ?case
  proof (cases "add_named rs x = rs")
    case True
    then have "length rs \<ge> MaxStaticDNSRecords \<or> (\<exists>r \<in> set rs. EqualFold (srName r) (srName x))"
      by (auto simp: add_named_def split: if_splits)
    with ms True show ?thesis by (intro exI [of _ ms]) auto
  next
    case False
    then have "add_named rs x = rs @ [x]" by (auto simp: add_named_def split: if_splits)
    with ms show ?thesis by (intro exI [of _ "x # ms"]) auto
  qed
qed

lemma mirror_of_source: "r \<in> set (mirror_of c) \<Longrightarrow> srSource r = DNSSourceDHCPStatic"
  by (auto simp: mirror_of_def mirror_record_def)

section \<open>Lease lines\<close>

text \<open>A line as dnsmasq writes it: expiry, hardware address, address, name, client id.\<close>

type_synonym lease_entry = "int \<times> string \<times> string \<times> string \<times> string"

definition lease_words :: "lease_entry \<Rightarrow> string list" where
  "lease_words e = (case e of (sec, mac, ip, host, cid) \<Rightarrow> [Itoa sec, mac, ip, host, cid])"

definition entry_ok :: "lease_entry \<Rightarrow> bool" where
  "entry_ok e \<longleftrightarrow> in_int64 (fst e) \<and> (\<forall>w \<in> set (tl (lease_words e)). w \<noteq> [] \<and> (\<forall>c \<in> set w. \<not> is_space c))"

definition lease_of :: "gotime \<Rightarrow> lease_entry \<Rightarrow> Lease" where
  "lease_of now e = (case e of (sec, mac, ip, host, cid) \<Rightarrow>
     \<lparr>leExpiry = go_Unix sec, leMAC = mac, leIP = ip, leHostname = (if host = ''*'' then [] else host),
      leActive = (sec = 0 \<or> go_Unix sec > now)\<rparr>)"

lemma Itoa_word: "Itoa n \<noteq> [] \<and> (\<forall>c \<in> set (Itoa n). \<not> is_space c)"
proof -
  have "\<not> is_space CHR ''-''" by (simp add: is_space_def)
  then have "\<forall>c \<in> set (Itoa n). \<not> is_space c" using Itoa_chars digit_not_space by metis
  moreover have "Itoa n \<noteq> []" by (simp add: Itoa_def)
  ultimately show ?thesis by simp
qed

lemma lease_words_plain:
  "entry_ok e \<Longrightarrow> \<forall>w \<in> set (lease_words e). w \<noteq> [] \<and> (\<forall>c \<in> set w. \<not> is_space c)"
  using Itoa_word by (cases e) (auto simp: entry_ok_def lease_words_def)

text \<open>A line of words neither starts nor ends with a space, so trimming keeps it.\<close>

lemma TrimSpace_words:
  assumes "ws \<noteq> []" and "\<forall>w \<in> set ws. w \<noteq> [] \<and> (\<forall>c \<in> set w. \<not> is_space c)"
  shows "TrimSpace (Join ws '' '') = Join ws '' '' \<and> Join ws '' '' \<noteq> []"
proof -
  have ends: "Join ws '' '' \<noteq> [] \<and> \<not> is_space (hd (Join ws '' '')) \<and> \<not> is_space (last (Join ws '' ''))"
    using assms
  proof (induction ws rule: list_nonempty_induct)
    case (cons w ws)
    then show ?case by (auto simp: Join_Cons)
  qed auto
  then have "dropWhile is_space (Join ws '' '') = Join ws '' ''"
    "dropWhile is_space (rev (Join ws '' '')) = rev (Join ws '' '')"
    by (simp_all add: dropWhile_eq_self_iff hd_rev)
  with ends show ?thesis by (simp add: TrimSpace_def TrimLeft_def)
qed

lemma parse_lease_words:
  assumes "entry_ok e"
  shows "parse_lease_line now (Join (lease_words e) '' '') = Some (lease_of now e)"
proof -
  obtain sec mac ip host cid where e: "e = (sec, mac, ip, host, cid)" by (cases e) auto
  have ws: "lease_words e \<noteq> []" by (simp add: lease_words_def e)
  have "ParseInt_value (Itoa sec) = sec"
    using assms by (intro ParseInt_value_Atoi Atoi_Itoa) (simp add: entry_ok_def e)
  moreover have "Fields (Join (lease_words e) '' '') = [Itoa sec, mac, ip, host, cid]"
    using Fields_Join [OF lease_words_plain [OF assms]] by (simp add: lease_words_def e)
  ultimately show ?thesis
    using TrimSpace_words [OF ws lease_words_plain [OF assms]]
    by (simp add: parse_lease_line_def lease_of_def e Let_def)
qed

lemma lease_line_newline: "entry_ok e \<Longrightarrow> CHR 0x0A \<notin> set (Join (lease_words e) '' '')"
proof -
  have nl: "is_space CHR 0x0A" by (simp add: is_space_def)
  have "\<forall>w \<in> set ws. CHR 0x0A \<notin> set w \<Longrightarrow> CHR 0x0A \<notin> set (Join ws '' '')" for ws
    by (induction ws rule: induct_list012) auto
  moreover assume "entry_ok e"
  ultimately show ?thesis using lease_words_plain nl by blast
qed

section \<open>Properties\<close>

text \<open>
  No two static leases ever share a hardware address (in any capitalisation) or an IP address:
  adding and removing leases keeps it so, with or without a DNS service, whether or not saving
  succeeds.
\<close>

theorem static_leases_invariant:
  assumes "leases_ok (cfg st)"
  shows "leases_ok (cfg (snd (AddStaticLease wired env new st))) \<and>
    leases_ok (cfg (snd (RemoveStaticLease wired env i st)))"
  using leases_ok_store [OF assms, of env new] leases_ok_drop [OF assms, of env i]
  by (simp add: leases_ok_def AddStaticLease_leases RemoveStaticLease_leases)

theorem static_leases_invariant_witness:
  "leases_ok (cfg (snd (AddStaticLease True (quiet_env zero_Config) (zero_StaticLease\<lparr>slMAC := ''aa''\<rparr>) demo_dns_store))) \<and>
   leases_ok (cfg (snd (RemoveStaticLease True (quiet_env zero_Config) 0 demo_dns_store)))"
  by (rule static_leases_invariant) (simp add: leases_ok_def demo_dns_store_def zero_defs)

text \<open>
  C14. Rebuilding the mirror terminates and does what it says when every removal could be saved: the
  records of the user are untouched and in front, every other record mirrors a current lease, every
  lease with a host name has a record of its name unless the table is full, and a second rebuild
  changes nothing.
\<close>

theorem sync_rebuilds_mirror:
  assumes "SyncStaticDNSRecords True env apply_dns st = (r, st')" and "strip_mirror env st = (None, st1)"
    and "SyncStaticDNSRecords True env2 apply_dns2 st' = (r2, st'')" and "strip_mirror env2 st' = (None, st2)"
  shows "(\<exists>mirrored. dnsStaticRecords (cfgDNS (cfg st')) = user_records (cfg st) @ mirrored \<and>
      (\<forall>m \<in> set mirrored. \<exists>l \<in> set (dhcpStaticLeases (cfgDHCP (cfg st))). m = mirror_record (cfg st) l)) \<and>
    (\<forall>l \<in> set (dhcpStaticLeases (cfgDHCP (cfg st))). slHostname l \<noteq> [] \<longrightarrow>
      (\<exists>rec \<in> set (dnsStaticRecords (cfgDNS (cfg st'))).
         EqualFold (srName rec) (staticLeaseFQDN (cfg st) (slHostname l))) \<or>
      length (dnsStaticRecords (cfgDNS (cfg st'))) \<ge> MaxStaticDNSRecords) \<and>
    dnsStaticRecords (cfgDNS (cfg st'')) = dnsStaticRecords (cfgDNS (cfg st'))"
proof -
  note one = Sync_records [OF assms(1,2)] and two = Sync_records [OF assms(3,4)]
  obtain ms where ms: "foldl add_named (user_records (cfg st)) (mirror_of (cfg st)) = user_records (cfg st) @ ms"
    "set ms \<subseteq> set (mirror_of (cfg st))"
    "\<forall>x \<in> set (mirror_of (cfg st)). (\<exists>r \<in> set (user_records (cfg st) @ ms). EqualFold (srName r) (srName x)) \<or>
       length (user_records (cfg st) @ ms) \<ge> MaxStaticDNSRecords"
    using add_named_fold by blast
  have recs: "dnsStaticRecords (cfgDNS (cfg st')) = user_records (cfg st) @ ms" using one(1) ms(1) by simp
  have "filter (\<lambda>r. srSource r \<noteq> DNSSourceDHCPStatic) ms = []"
    using ms(2) mirror_of_source by (auto simp: filter_empty_conv)
  moreover have "filter (\<lambda>r. srSource r \<noteq> DNSSourceDHCPStatic) (user_records (cfg st)) = user_records (cfg st)"
    by (simp add: user_records_def)
  ultimately have "user_records (cfg st') = user_records (cfg st)"
    unfolding user_records_def [of "cfg st'"] recs by simp
  moreover have "mirror_of (cfg st') = mirror_of (cfg st)"
    using one(2) mirror_record_cong [OF one(3)] by (simp add: mirror_of_def)
  ultimately have idem: "dnsStaticRecords (cfgDNS (cfg st'')) = dnsStaticRecords (cfgDNS (cfg st'))"
    using one(1) two(1) by simp
  have named: "mirror_record (cfg st) l \<in> set (mirror_of (cfg st))"
    if "l \<in> set (dhcpStaticLeases (cfgDHCP (cfg st)))" "slHostname l \<noteq> []" for l
    using that by (auto simp: mirror_of_def)
  have name: "srName (mirror_record (cfg st) l) = staticLeaseFQDN (cfg st) (slHostname l)" for l
    by (simp add: mirror_record_def)
  have cover: "(\<exists>rec \<in> set (user_records (cfg st) @ ms). EqualFold (srName rec) (staticLeaseFQDN (cfg st) (slHostname l))) \<or>
      length (user_records (cfg st) @ ms) \<ge> MaxStaticDNSRecords"
    if "l \<in> set (dhcpStaticLeases (cfgDHCP (cfg st)))" "slHostname l \<noteq> []" for l
    using bspec [OF ms(3) named [OF that]] unfolding name .
  have "\<forall>m \<in> set ms. \<exists>l \<in> set (dhcpStaticLeases (cfgDHCP (cfg st))). m = mirror_record (cfg st) l"
    using ms(2) by (auto simp: mirror_of_def)
  with recs idem cover show ?thesis by simp
qed

definition lan_store :: store where
  "lan_store = \<lparr>cfg = zero_Config\<lparr>cfgFilePath := ''/etc/router.yaml'',
     cfgDHCP := zero_DHCPConfig\<lparr>dhcpStaticLeases := [\<lparr>slMAC = ''aa'', slIP = ''10.0.0.2'', slHostname = ''nas''\<rparr>,
       \<lparr>slMAC = ''bb'', slIP = ''10.0.0.3'', slHostname = ''nas''\<rparr>]\<rparr>,
     cfgDNS := zero_DNSConfig\<lparr>dnsStaticRecords := [zero_StaticDNSRecord\<lparr>srName := ''nas.lan'', srIP := ''10.0.0.2'',
       srSource := DNSSourceDHCPStatic\<rparr>]\<rparr>\<rparr>, disk = Map.empty\<rparr>"

lemma quiet_saves: "cfgFilePath (cfg st) \<noteq> [] \<Longrightarrow> fst (SaveToFile (quiet_env c) st) = None"
  by (simp add: SaveToFile_def Save_def quiet_env_def atomicWrite_def Let_def)

lemma quiet_strip:
  "cfgFilePath (cfg st) \<noteq> [] \<Longrightarrow> fst (strip_mirror (quiet_env c) st) = None"
proof (induction "quiet_env c" st rule: strip_mirror.induct)
  case (1 st)
  show ?case
  proof (cases "find_index (\<lambda>r. srSource r = DNSSourceDHCPStatic) (dnsStaticRecords (cfgDNS (cfg st)))")
    case None
    then show ?thesis by (simp add: strip_mirror.simps [of "quiet_env c" st])
  next
    case (Some i)
    have "\<not> bad_index (int i) (dnsStaticRecords (cfgDNS (cfg st)))"
      using find_index_Some [OF Some] by (simp add: bad_index_def)
    then have ok: "fst (RemoveStaticRecord (quiet_env c) (int i) st) = None"
      and path: "cfgFilePath (cfg (snd (RemoveStaticRecord (quiet_env c) (int i) st))) \<noteq> []"
      using 1(2) by (simp_all add: RemoveStaticRecord_def quiet_saves SaveToFile_cfg)
    from 1(1) [OF Some ok path] Some ok show ?thesis by (simp add: strip_mirror.simps [of "quiet_env c" st])
  qed
qed

lemma strip_mirror_path: "cfgFilePath (cfg (snd (strip_mirror env st))) = cfgFilePath (cfg st)"
proof (induction env st rule: strip_mirror.induct)
  case (1 env st)
  then show ?case
    by (subst strip_mirror.simps) (auto simp: remove_record.path_kept split: option.split)
qed

lemma readd_leases_path: "cfgFilePath (cfg (foldl (readd_lease env) st ls)) = cfgFilePath (cfg st)"
  by (induction ls arbitrary: st) (auto simp: readd_lease_def add_record.path_kept)

theorem sync_rebuilds_mirror_witness:
  "\<exists>r st'. SyncStaticDNSRecords True (quiet_env zero_Config) (\<lambda>_. None) lan_store = (r, st') \<and> (\<exists>mirrored. dnsStaticRecords (cfgDNS (cfg st')) = user_records (cfg lan_store) @ mirrored \<and>
      (\<forall>m \<in> set mirrored. \<exists>l \<in> set (dhcpStaticLeases (cfgDHCP (cfg lan_store))). m = mirror_record (cfg lan_store) l))"
proof -
  let ?env = "quiet_env zero_Config"
  obtain r st' where s1: "SyncStaticDNSRecords True ?env (\<lambda>_. None) lan_store = (r, st')" by force
  have p1: "cfgFilePath (cfg lan_store) \<noteq> []" by (simp add: lan_store_def)
  obtain st1 where t1: "strip_mirror ?env lan_store = (None, st1)"
    using quiet_strip [OF p1, of zero_Config] by (metis prod.collapse)
  have "cfgFilePath (cfg st1) = cfgFilePath (cfg lan_store)" using strip_mirror_path [of ?env lan_store] t1 by simp
  moreover have "st' = foldl (readd_lease ?env) st1 (dhcpStaticLeases (cfgDHCP (cfg st1)))"
    using s1 t1 by (simp add: SyncStaticDNSRecords_def Let_def)
  ultimately have p2: "cfgFilePath (cfg st') \<noteq> []" using p1 by (simp add: readd_leases_path)
  obtain st2 where t2: "strip_mirror ?env st' = (None, st2)"
    using quiet_strip [OF p2, of zero_Config] by (metis prod.collapse)
  obtain r2 st'' where s2: "SyncStaticDNSRecords True ?env (\<lambda>_. None) st' = (r2, st'')" by force
  from sync_rebuilds_mirror [OF s1 t1 s2 t2] s1 show ?thesis by blast
qed

text \<open>
  Removing a static lease never touches a record the user added: the records of other sources are
  the same before and after, in the same order.
\<close>

theorem remove_lease_keeps_user_records:
  "user_records (cfg (snd (RemoveStaticLease wired env i st))) = user_records (cfg st)"
proof -
  obtain e st1 where d: "drop_lease env i st = (e, st1)" by force
  have same: "user_records (cfg st1) = user_records (cfg st)"
    using drop_lease.cfg_cases [of env i st] d by (auto simp: user_records_def)
  have keep: "user_records (cfg (snd (RemoveStaticRecord env (int idx) st1))) = user_records (cfg st1)"
    if "FindStaticRecordIndexBySource st1 DNSSourceDHCPStatic name = Some idx" for name idx
  proof -
    from that have f: "find_index (\<lambda>r. srSource r = DNSSourceDHCPStatic \<and> EqualFold (srName r) name)
        (dnsStaticRecords (cfgDNS (cfg st1))) = Some idx"
      by (simp add: FindStaticRecordIndexBySource_def)
    show ?thesis using RemoveStaticRecord_shrinks [OF f] find_index_Some [OF f]
      by (simp add: user_records_def filter_remove_nth)
  qed
  show ?thesis
    using same keep unfolding RemoveStaticLease_def d
    by (auto simp: Let_def split: option.split)
qed

text \<open>
  Two leases may carry the same host name, and only the first gets a record. Removing that lease
  removes the record although the other lease still has the name, which then no longer resolves.
\<close>

theorem shared_hostname_loses_record:
  "\<exists>st'. RemoveStaticLease True (quiet_env zero_Config) 0 lan_store = (None, st') \<and>
     map slHostname (GetStaticLeases st') = [''nas''] \<and> GetStaticRecords st' = []"
proof -
  let ?env = "quiet_env zero_Config"
  obtain e st1 where d: "drop_lease ?env 0 lan_store = (e, st1)" by force
  have e: "e = None" using d quiet_saves [of "lan_store\<lparr>cfg := map_leases (remove_nth (nat 0)) (cfg lan_store)\<rparr>" zero_Config]
    by (auto simp: drop_lease_def bad_index_def lan_store_def zero_defs map_leases_def)
  have c1: "cfg st1 = map_leases (remove_nth 0) (cfg lan_store)"
    using drop_lease.success(2) [of ?env 0 lan_store st1] d e by simp
  have recs: "dnsStaticRecords (cfgDNS (cfg st1)) = [zero_StaticDNSRecord\<lparr>srName := ''nas.lan'', srIP := ''10.0.0.2'',
       srSource := DNSSourceDHCPStatic\<rparr>]" unfolding c1 by (simp add: lan_store_def)
  have idx: "FindStaticRecordIndexBySource st1 DNSSourceDHCPStatic ''nas.lan'' = Some 0"
    by (simp add: FindStaticRecordIndexBySource_def recs)
  have name: "staticLeaseFQDN (cfg st1) ''nas'' = ''nas.lan''"
    unfolding c1 by (simp add: staticLeaseFQDN_def lan_store_def zero_defs)
  have host: "slHostname (dhcpStaticLeases (cfgDHCP (cfg lan_store)) ! 0) = ''nas''"
    by (simp add: lan_store_def zero_defs)
  have run: "RemoveStaticLease True ?env 0 lan_store = (None, snd (RemoveStaticRecord ?env (int 0) st1))"
    by (simp add: RemoveStaticLease_def d e host name idx)
  have "dnsStaticRecords (cfgDNS (cfg (snd (RemoveStaticRecord ?env (int 0) st1)))) = []"
    using RemoveStaticRecord_shrinks(1) [of "\<lambda>_. True" st1 0 ?env] recs by (simp add: remove_nth_def)
  moreover have "map slHostname (dhcpStaticLeases (cfgDHCP (cfg st1))) = [''nas'']"
    unfolding c1 by (simp add: lan_store_def zero_defs remove_nth_def)
  ultimately show ?thesis unfolding run
    by (simp add: GetStaticLeases_def GetStaticRecords_def store_simps)
qed

text \<open>
  The ranges of VLANs never reach dnsmasq: whatever the configuration says, every VLAN's range is
  rendered with an empty start and an empty end.
\<close>

theorem vlan_ranges_rendered_empty:
  "\<forall>v \<in> set (dmVLANDHCPRanges (dhcp_template_data subnet c)). vrRangeStart v = [] \<and> vrRangeEnd v = []"
  by (auto simp: dhcp_template_data_def Let_def split: if_splits)

theorem vlan_ranges_rendered_empty_witness:
  "\<forall>v \<in> set (dmVLANDHCPRanges (dhcp_template_data (\<lambda>s. s) (zero_Config\<lparr>
      cfgInterfaces := [zero_InterfaceConfig\<lparr>ifID := ''lan'', ifDevice := ''eth1''\<rparr>],
      cfgVLANs := [zero_VLANConfig\<lparr>vlParent := ''lan'', vlAddress := ''10.0.9.1/24'',
        vlDHCP := zero_VLANDHCPConfig\<lparr>vdEnabled := True, vdRangeStart := ''10.0.9.10'', vdRangeEnd := ''10.0.9.99''\<rparr>\<rparr>]\<rparr>))).
     vrRangeStart v = [] \<and> vrRangeEnd v = []"
  by (rule vlan_ranges_rendered_empty)

text \<open>
  Reading a lease file gives back what was written: for entries whose words are non-empty and
  free of spaces and whose expiry fits 64 bits, the parsed leases are the entries, in order, with a
  star for the name read as no name and the activity decided by the expiry.
\<close>

theorem ParseLeaseData_lines:
  assumes "\<forall>e \<in> set es. entry_ok e"
  shows "ParseLeaseData now (Join (map (\<lambda>e. Join (lease_words e) '' '') es) [CHR 0x0A]) = map (lease_of now) es"
proof (cases "es = []")
  case True
  have "parse_lease_line now [] = None" by (simp add: parse_lease_line_def TrimSpace_def TrimLeft_def)
  with True show ?thesis by (simp add: ParseLeaseData_def map_filter_simps)
next
  case False
  have "Split (Join (map (\<lambda>e. Join (lease_words e) '' '') es) [CHR 0x0A]) (CHR 0x0A) =
      map (\<lambda>e. Join (lease_words e) '' '') es"
    using False assms lease_line_newline by (intro Split_Join) auto
  moreover have "List.map_filter (parse_lease_line now) (map (\<lambda>e. Join (lease_words e) '' '') es) = map (lease_of now) es"
    using assms by (induction es) (simp_all add: map_filter_simps parse_lease_words)
  ultimately show ?thesis by (simp add: ParseLeaseData_def)
qed

theorem ParseLeaseData_lines_witness:
  "ParseLeaseData 5 (Join (map (\<lambda>e. Join (lease_words e) '' '') [(0, ''aa'', ''10.0.0.2'', ''*'', ''id'')]) [CHR 0x0A]) =
     map (lease_of 5) [(0, ''aa'', ''10.0.0.2'', ''*'', ''id'')]"
  by (rule ParseLeaseData_lines)
    (simp add: entry_ok_def lease_words_def in_int64_def min_int64_def max_int64_def is_space_def)

end
