(* ===== verification/QoS.thy ===== *)
theory QoS
  imports DHCP Effects RateLimit "HOL-Library.List_Lexorder" "HOL-Library.Char_ord"
begin

text \<open>
  Traffic shaping (\<open>services/qos.go\<close>) and the per-client bandwidth sampler (\<open>services/qos_clients.go\<close>).
  The shaping commands act on a small model of the kernel's queueing state, so that what they leave
  behind can be stated. SHA-1 and the JSON of nft are parameters.
\<close>

section \<open>Shaping\<close>

definition wanDevice :: "Config \<Rightarrow> string" where
  "wanDevice c =
     (case find (\<lambda>i. ifRole i = ''wan'') (cfgInterfaces c) of
        None \<Rightarrow> ''ppp0''
      | Some i \<Rightarrow> if ifType i = ''pppoe'' then ''ppp0'' else ifDevice i)"

definition qos_clear :: "sysenv \<Rightarrow> unit action" where
  "qos_clear env w =
     (let wanDev = wanDevice (wcfg w) in
      io_then (io_ignore (sys env (CRun ''tc'' [''qdisc'', ''del'', ''dev'', wanDev, ''root''])))
       (io_then (io_ignore (sys env (CRun ''tc'' [''qdisc'', ''del'', ''dev'', ''ifb0'', ''root''])))
        (io_then (io_ignore (sys env (CRun ''ip'' [''link'', ''set'', ''ifb0'', ''down''])))
         (io_ignore (sys env (CRun ''ip'' [''link'', ''del'', ''ifb0'']))))) w)"

definition kbit :: "goint \<Rightarrow> string" where
  "kbit n = Itoa n @ ''kbit''"

definition egress_call :: "string \<Rightarrow> goint \<Rightarrow> syscall" where
  "egress_call wanDev upload = CRun ''tc'' [''qdisc'', ''replace'', ''dev'', wanDev, ''root'',
     ''cake'', ''bandwidth'', kbit upload, ''besteffort'', ''overhead'', ''44'', ''mpu'', ''84'', ''nat'', ''wash'']"

definition ingress_qdisc_call :: "string \<Rightarrow> syscall" where
  "ingress_qdisc_call wanDev = CRun ''tc'' [''qdisc'', ''replace'', ''dev'', wanDev, ''handle'', ''ffff:'', ''ingress'']"

definition redirect_call :: "string \<Rightarrow> syscall" where
  "redirect_call wanDev = CRun ''tc'' [''filter'', ''add'', ''dev'', wanDev, ''parent'', ''ffff:'',
     ''protocol'', ''all'', ''u32'', ''match'', ''u32'', ''0'', ''0'',
     ''action'', ''mirred'', ''egress'', ''redirect'', ''dev'', ''ifb0'']"

definition ingress_cake_call :: "goint \<Rightarrow> syscall" where
  "ingress_cake_call download = CRun ''tc'' [''qdisc'', ''replace'', ''dev'', ''ifb0'', ''root'',
     ''cake'', ''bandwidth'', kbit download, ''besteffort'', ''wash'', ''ingress'', ''overhead'', ''44'', ''mpu'', ''84'']"

definition applyCake :: "sysenv \<Rightarrow> string \<Rightarrow> string action" where
  "applyCake env wanDev w =
     (let q = cfgQoS (wcfg w) in
      io_then (io_wrap ''cake egress: '' (sys env (egress_call wanDev (qosUploadKbps q))))
       (io_then (io_ignore (sys env (CRun ''ip'' [''link'', ''add'', ''ifb0'', ''type'', ''ifb''])))
        (io_then (io_wrap ''ifb0 up: '' (sys env (CRun ''ip'' [''link'', ''set'', ''ifb0'', ''up''])))
         (io_then (io_wrap ''ingress qdisc: '' (sys env (ingress_qdisc_call wanDev)))
          (io_then (io_wrap ''ingress filter: '' (sys env (redirect_call wanDev)))
           (io_wrap ''cake ingress: '' (sys env (ingress_cake_call (qosDownloadKbps q)))))))) w)"

definition applyFqCodel :: "sysenv \<Rightarrow> string \<Rightarrow> string action" where
  "applyFqCodel env wanDev =
     io_wrap ''fq_codel: '' (sys env (CRun ''tc'' [''qdisc'', ''replace'', ''dev'', wanDev, ''root'', ''fq_codel'']))"

definition setCongestionControl :: "sysenv \<Rightarrow> string action" where
  "setCongestionControl env w =
     (let cc0 = qosCongestionControl (cfgQoS (wcfg w)); cc = (if cc0 = [] then ''bbr'' else cc0) in
      io_then (if cc = ''bbr'' then io_ignore (sys env (CRun ''sysctl'' [''-w'', ''net.core.default_qdisc=fq''])) else io_return ())
        (sys env (CRun ''sysctl'' [''-w'', ''net.ipv4.tcp_congestion_control='' @ cc])) w)"

definition qos_Apply :: "sysenv \<Rightarrow> unit action" where
  "qos_Apply env w =
     (let q = cfgQoS (wcfg w); wanDev = wanDevice (wcfg w) in
      io_then (io_ignore (qos_clear env))
        (if \<not> qosEnabled q \<or> qosProfile q = ''none'' then io_return ()
         else io_then (io_wrap ''set congestion control: '' (setCongestionControl env))
           (if qosProfile q = ''cake'' then io_bind (applyCake env wanDev) (\<lambda>_. io_return ())
            else if qosProfile q = ''fq_codel'' then io_bind (applyFqCodel env wanDev) (\<lambda>_. io_return ())
            else io_fail (''unknown QoS profile: '' @ qosProfile q))) w)"

definition qos_Clear :: "sysenv \<Rightarrow> unit action" where
  "qos_Clear env = qos_clear env"

record QoSStatus =
  qstEnabled :: bool
  qstProfile :: string
  qstUploadKbps :: goint
  qstDownloadKbps :: goint
  qstCongestionControl :: string
  qstEgressActive :: bool
  qstIngressActive :: bool

definition shaping_in :: "error + string \<Rightarrow> bool" where
  "shaping_in r = (case r of Inl e \<Rightarrow> False | Inr out \<Rightarrow> out \<noteq> [] \<and> (Contains out ''cake'' \<or> Contains out ''fq_codel''))"

definition qos_Status :: "sysenv \<Rightarrow> QoSStatus action" where
  "qos_Status env w =
     (let q = cfgQoS (wcfg w) in
      case sys env (CRun ''tc'' [''qdisc'', ''show'', ''dev'', wanDevice (wcfg w)]) w of (egress, w1) \<Rightarrow>
        (case sys env (CRun ''tc'' [''qdisc'', ''show'', ''dev'', ''ifb0'']) w1 of (ingress, w2) \<Rightarrow>
          (Inr \<lparr>qstEnabled = qosEnabled q, qstProfile = qosProfile q, qstUploadKbps = qosUploadKbps q,
             qstDownloadKbps = qosDownloadKbps q, qstCongestionControl = qosCongestionControl q,
             qstEgressActive = shaping_in egress, qstIngressActive = shaping_in ingress\<rparr>, w2)))"

section \<open>Per-client counters\<close>

definition MaxQoSClients :: nat where "MaxQoSClients = 64"
definition qosRingSize :: nat where "qosRingSize = 60"
definition qosTableName :: string where "qosTableName = ''lankeeper_qos''"
definition qosTmpPath :: string where "qosTmpPath = ''/tmp/lankeeper-qos.nft''"

record ClientUsage =
  cuMAC :: string
  cuIP :: string
  cuHostname :: string
  cuInBytes :: nat
  cuOutBytes :: nat
  cuInBPS :: nat
  cuOutBPS :: nat
  cuUpdated :: gotime

record nftCounter =
  ncName :: string
  ncBytes :: nat

text \<open>The sampler's state; Go's maps are association lists without duplicate keys.\<close>

record qosState =
  qsLastCounters :: "(string, nat \<times> nat) gomap"
  qsLastSample :: "gotime option"
  qsLeases :: "(string, Lease) gomap"
  qsHistory :: "(string, ClientUsage list) gomap"

record qosenv =
  qeSys :: sysenv
  qeFloat :: float_ops
  qeSha1 :: "string \<Rightarrow> nat list"
  qeDecode :: "string \<Rightarrow> error + nftCounter option list"

definition counterID :: "qosenv \<Rightarrow> string \<Rightarrow> string" where
  "counterID env mac =
     concat (map (\<lambda>b. [hex_char (b div 16), hex_char (b mod 16)])
       (take 4 (qeSha1 env (ToLower (filter (\<lambda>c. c \<noteq> CHR '':'' \<and> c \<noteq> CHR ''-'') mac)))))"

definition counterNames :: "qosenv \<Rightarrow> string \<Rightarrow> string \<times> string" where
  "counterNames env mac = (''cli_'' @ counterID env mac @ ''_in'', ''cli_'' @ counterID env mac @ ''_out'')"

definition tab :: string where "tab = [CHR 0x09]"

definition renderQoSTable :: "qosenv \<Rightarrow> string list \<Rightarrow> string" where
  "renderQoSTable env macs =
     ''table inet '' @ qosTableName @ '' {'' @ nl @
     concat (map (\<lambda>mac. tab @ ''counter '' @ fst (counterNames env mac) @ '' { }'' @ nl @
                        tab @ ''counter '' @ snd (counterNames env mac) @ '' { }'' @ nl) macs) @
     tab @ ''chain fwd {'' @ nl @
     tab @ tab @ ''type filter hook forward priority -200; policy accept;'' @ nl @
     concat (map (\<lambda>mac. tab @ tab @ ''ether daddr '' @ ToLower mac @ '' counter name '' @ fst (counterNames env mac) @ nl @
                        tab @ tab @ ''ether saddr '' @ ToLower mac @ '' counter name '' @ snd (counterNames env mac) @ nl) macs) @
     tab @ ''}'' @ nl @ ''}'' @ nl"

primrec dedup_macs :: "string list \<Rightarrow> string list \<Rightarrow> string list" where
  "dedup_macs seen [] = []"
| "dedup_macs seen (m # ms) =
     (let m' = ToLower (TrimSpace m)
      in if m' = [] \<or> m' \<in> set seen then dedup_macs seen ms else m' # dedup_macs (m' # seen) ms)"

definition dedupAndCap :: "string list \<Rightarrow> string list" where
  "dedupAndCap macs =
     (let out = sort (dedup_macs [] macs) in if length out > MaxQoSClients then take MaxQoSClients out else out)"

definition applyClientCounters :: "qosenv \<Rightarrow> string list \<Rightarrow> unit action" where
  "applyClientCounters env macs0 =
     (let macs = dedupAndCap macs0;
          script = ''table inet '' @ qosTableName @ nl @ ''delete table inet '' @ qosTableName @ nl @
            (if macs \<noteq> [] then renderQoSTable env macs else [])
      in io_then (io_wrap ''write qos nft script: '' (sys (qeSys env) (CWriteFile qosTmpPath script 384)))
           (io_bind (io_wrap ''apply qos nft script: '' (sys (qeSys env) (CRun ''nft'' [''-f'', qosTmpPath]))) (\<lambda>_. io_return ())))"

definition map_put :: "'k \<Rightarrow> 'v \<Rightarrow> ('k, 'v) gomap \<Rightarrow> ('k, 'v) gomap" where
  "map_put k v m = (k, v) # filter (\<lambda>e. fst e \<noteq> k) m"

definition lease_map :: "Lease list \<Rightarrow> (string, Lease) gomap" where
  "lease_map leases = foldl (\<lambda>m l. if leMAC l = [] then m else map_put (ToLower (leMAC l)) l m) [] leases"

definition RebuildClientCounters ::
    "qosenv \<Rightarrow> Lease list \<Rightarrow> qosState \<times> world \<Rightarrow> error option \<times> qosState \<times> world" where
  "RebuildClientCounters env leases sw = (case sw of (s, w) \<Rightarrow>
     (case applyClientCounters env (filter (\<lambda>m. m \<noteq> []) (map leMAC leases)) w of
        (Inl e, w') \<Rightarrow> (Some e, s, w')
      | (Inr _, w') \<Rightarrow> (None, s\<lparr>qsLeases := lease_map leases\<rparr>, w')))"

definition parseQoSCounters :: "qosenv \<Rightarrow> string \<Rightarrow> error + (string, nftCounter) gomap" where
  "parseQoSCounters env raw =
     (if raw = [] then Inr []
      else (case qeDecode env raw of
          Inl e \<Rightarrow> Inl (''decode nft json: '' @ e)
        | Inr items \<Rightarrow> Inr (foldl (\<lambda>m item. case item of
              None \<Rightarrow> m
            | Some c \<Rightarrow> if HasPrefix (ncName c) ''cli_'' then map_put (ncName c) c m else m) [] items)))"

text \<open>The byte count of a counter that is not listed is the zero value.\<close>

definition counter_bytes :: "(string, nftCounter) gomap \<Rightarrow> string \<Rightarrow> nat" where
  "counter_bytes m n = (case map_of m n of None \<Rightarrow> 0 | Some c \<Rightarrow> ncBytes c)"

text \<open>\<open>uint64(bps)\<close> cuts the fraction; the product with eight wraps at 64 bits.\<close>

definition bpsDelta :: "float_ops \<Rightarrow> nat \<Rightarrow> nat \<Rightarrow> rat \<Rightarrow> nat" where
  "bpsDelta F cur prev intervalSec =
     (if cur < prev \<or> intervalSec \<le> 0 then 0
      else nat (floor (f_round F (f_round F (of_nat ((cur - prev) * 8 mod 2 ^ 64)) / intervalSec))))"

definition client_usage ::
    "qosenv \<Rightarrow> qosState \<Rightarrow> (string, nftCounter) gomap \<Rightarrow> gotime \<Rightarrow> rat \<Rightarrow> string \<times> Lease \<Rightarrow> ClientUsage" where
  "client_usage env s counters now intervalSec = (\<lambda>(mac, lease).
     (let inB = counter_bytes counters (fst (counterNames env mac));
          outB = counter_bytes counters (snd (counterNames env mac));
          rates = (case map_of (qsLastCounters s) mac of
             None \<Rightarrow> (0, 0)
           | Some prev \<Rightarrow> (bpsDelta (qeFloat env) inB (fst prev) intervalSec, bpsDelta (qeFloat env) outB (snd prev) intervalSec))
      in \<lparr>cuMAC = mac, cuIP = leIP lease, cuHostname = leHostname lease, cuInBytes = inB, cuOutBytes = outB,
          cuInBPS = fst rates, cuOutBPS = snd rates, cuUpdated = now\<rparr>))"

definition push_usage :: "ClientUsage \<Rightarrow> ClientUsage list \<Rightarrow> ClientUsage list" where
  "push_usage u buf =
     (let buf' = (if length buf \<ge> qosRingSize then drop (length buf - qosRingSize + 1) buf else buf) in buf' @ [u])"

definition appendHistoryLocked :: "ClientUsage list \<Rightarrow> qosState \<Rightarrow> qosState" where
  "appendHistoryLocked usages s =
     (let put = (\<lambda>h u. map_put (cuMAC u) (push_usage u (case map_of h (cuMAC u) of None \<Rightarrow> [] | Some b \<Rightarrow> b)) h)
      in s\<lparr>qsHistory := filter (\<lambda>e. fst e \<in> cuMAC ` set usages) (foldl put (qsHistory s) usages)\<rparr>)"

definition no_table :: "error \<Rightarrow> bool" where
  "no_table e \<longleftrightarrow> Contains e ''No such file or directory'' \<or> Contains e ''does not exist''"

definition SamplePerClient ::
    "qosenv \<Rightarrow> gotime \<Rightarrow> qosState \<times> world \<Rightarrow> (error + ClientUsage list) \<times> qosState \<times> world" where
  "SamplePerClient env now sw = (case sw of (s, w) \<Rightarrow>
     (case sys (qeSys env) (CRun ''nft'' [''-j'', ''list'', ''table'', ''inet'', qosTableName]) w of
        (Inl e, w') \<Rightarrow> (if no_table e then Inr [] else Inl e, s, w')
      | (Inr out, w') \<Rightarrow>
          (case parseQoSCounters env out of
             Inl e \<Rightarrow> (Inl e, s, w')
           | Inr counters \<Rightarrow>
               (let prev = (case qsLastSample s of None \<Rightarrow> now | Some t \<Rightarrow> t);
                    i0 = Seconds (qeFloat env) (now - prev);
                    intervalSec = (if i0 \<le> 0 then 1 else i0);
                    usages = map (client_usage env s counters now intervalSec) (sort_key fst (qsLeases s));
                    last = map (\<lambda>u. (cuMAC u, (counter_bytes counters (fst (counterNames env (cuMAC u))),
                              counter_bytes counters (snd (counterNames env (cuMAC u)))))) usages
                in (Inr usages, appendHistoryLocked usages (s\<lparr>qsLastCounters := last, qsLastSample := Some now\<rparr>), w')))))"

definition ClientHistory :: "qosState \<Rightarrow> string \<Rightarrow> ClientUsage list" where
  "ClientHistory s mac = (case map_of (qsHistory s) (ToLower mac) of None \<Rightarrow> [] | Some b \<Rightarrow> b)"

text \<open>
  One tick of the sampler's goroutine. The result is the sample to publish, if there is one;
  \<open>leaseProvider\<close> may fail, and then the table stays as it is.
\<close>

definition sampler_tick ::
    "qosenv \<Rightarrow> (error + Lease list) \<Rightarrow> nat \<Rightarrow> gotime \<Rightarrow> nat \<Rightarrow> qosState \<times> world \<Rightarrow> ClientUsage list option \<times> qosState \<times> world" where
  "sampler_tick env leases resyncEvery now tick sw =
     (let sw1 = (if (tick + 1) mod resyncEvery = 0
                 then (case leases of Inl e \<Rightarrow> sw | Inr ls \<Rightarrow> snd (RebuildClientCounters env ls sw)) else sw)
      in case SamplePerClient env now sw1 of
           (Inl e, s, w) \<Rightarrow> (None, s, w)
         | (Inr usages, s, w) \<Rightarrow> (Some usages, s, w))"

section \<open>Which clients are counted\<close>

lemma dedup_macs_props:
  "set (dedup_macs seen ms) = {ToLower (TrimSpace m) | m. m \<in> set ms} - insert [] (set seen) \<and> distinct (dedup_macs seen ms)"
proof (induction ms arbitrary: seen)
  case (Cons m ms)
  then show ?case by (cases "ToLower (TrimSpace m) = [] \<or> ToLower (TrimSpace m) \<in> set seen") (auto simp: Let_def)
qed simp

text \<open>
  The counters are set up for the first sixty-four of the addresses present, in their order: normalising,
  dropping repetitions, sorting and cutting off computes the beginning of the sorted enumeration of the
  set of lower-cased non-empty addresses, whatever the order and the repetitions in the lease list.
\<close>

theorem dedupAndCap_is_prefix_of_set:
  "dedupAndCap macs = take 64 (sorted_list_of_set ({ToLower (TrimSpace m) | m. m \<in> set macs} - {[]}))"
proof -
  have d: "distinct (dedup_macs [] macs)" "set (dedup_macs [] macs) = {ToLower (TrimSpace m) | m. m \<in> set macs} - {[]}"
    using dedup_macs_props [of "[]" macs] by auto
  have "sort (dedup_macs [] macs) = sorted_list_of_set (set (dedup_macs [] macs))"
    using d(1) by (simp add: sorted_list_of_set_sort_remdups distinct_remdups_id)
  then show ?thesis using d(2) by (simp add: dedupAndCap_def MaxQoSClients_def Let_def)
qed

section \<open>The history of a client\<close>

interpretation usage_ring: bounded_log push_usage qosRingSize
  by unfold_locales (auto simp: push_usage_def qosRingSize_def Let_def Suc_diff_le)

definition history_ok :: "qosState \<Rightarrow> bool" where
  "history_ok s \<longleftrightarrow> (\<forall>(mac, buf) \<in> set (qsHistory s). buf \<noteq> [] \<and> length buf \<le> qosRingSize)"

lemma push_history_ok:
  assumes "\<forall>(mac, buf) \<in> set h. buf \<noteq> [] \<and> length buf \<le> qosRingSize"
  shows "\<forall>(mac, buf) \<in> set (foldl (\<lambda>h u. map_put (cuMAC u) (push_usage u (case map_of h (cuMAC u) of None \<Rightarrow> [] | Some b \<Rightarrow> b)) h) h us).
    buf \<noteq> [] \<and> length buf \<le> qosRingSize"
  using assms
proof (induction us arbitrary: h)
  case (Cons u us)
  have "length (case map_of h (cuMAC u) of None \<Rightarrow> [] | Some b \<Rightarrow> b) \<le> qosRingSize"
    using Cons.prems by (auto split: option.splits dest: map_of_SomeD)
  then have "push_usage u (case map_of h (cuMAC u) of None \<Rightarrow> [] | Some b \<Rightarrow> b) \<noteq> [] \<and>
      length (push_usage u (case map_of h (cuMAC u) of None \<Rightarrow> [] | Some b \<Rightarrow> b)) \<le> qosRingSize"
    using usage_ring.push_bounded usage_ring.push_newest by blast
  then have "\<forall>(mac, buf) \<in> set (map_put (cuMAC u) (push_usage u (case map_of h (cuMAC u) of None \<Rightarrow> [] | Some b \<Rightarrow> b)) h).
      buf \<noteq> [] \<and> length buf \<le> qosRingSize"
    using Cons.prems by (auto simp: map_put_def)
  from Cons.IH [OF this] show ?case by simp
qed simp

lemma appendHistory_ok:
  assumes "history_ok s"
  shows "history_ok (appendHistoryLocked us s)"
  using push_history_ok [OF assms [unfolded history_ok_def], of us]
  unfolding history_ok_def appendHistoryLocked_def Let_def by (auto simp: Ball_def)

lemma SamplePerClient_history:
  assumes "history_ok s"
  shows "history_ok (fst (snd (SamplePerClient env now (s, w))))"
proof -
  have "history_ok (appendHistoryLocked us (s\<lparr>qsLastCounters := l, qsLastSample := t\<rparr>))" for us l t
    using assms by (intro appendHistory_ok) (simp add: history_ok_def)
  then show ?thesis using assms by (simp add: SamplePerClient_def Let_def split: prod.splits sum.splits)
qed

lemma RebuildClientCounters_history: "history_ok s \<Longrightarrow> history_ok (fst (snd (RebuildClientCounters env ls (s, w))))"
  by (auto simp: RebuildClientCounters_def history_ok_def split: prod.splits sum.splits)

text \<open>No tick of the sampler lets a client's history outgrow its ring.\<close>

lemma sampler_tick_history:
  assumes "history_ok s" "sampler_tick env leases n now k (s, w) = (r, s', w')"
  shows "history_ok s' \<and> length (ClientHistory s' mac) \<le> 60"
proof -
  define sw where "sw = (if (k + 1) mod n = 0 then (case leases of Inl e \<Rightarrow> (s, w) | Inr ls \<Rightarrow> snd (RebuildClientCounters env ls (s, w))) else (s, w))"
  have "history_ok (fst sw)" using assms(1) RebuildClientCounters_history [OF assms(1)] by (auto simp: sw_def split: sum.splits)
  then have "history_ok (fst (snd (SamplePerClient env now sw)))" using SamplePerClient_history by (metis prod.collapse)
  moreover have "s' = fst (snd (SamplePerClient env now sw))"
    using assms(2) unfolding sampler_tick_def sw_def [symmetric] Let_def by (auto split: prod.splits sum.splits)
  ultimately have ok: "history_ok s'" by simp
  moreover have "length (ClientHistory s' mac) \<le> 60"
    using ok by (auto simp: ClientHistory_def history_ok_def qosRingSize_def split: option.splits dest: map_of_SomeD)
  ultimately show ?thesis by blast
qed

section \<open>What clearing leaves behind\<close>

text \<open>
  The queueing state the commands act on: the devices' root and ingress disciplines, the redirections, and
  the links. Only the forms of the commands that occur are interpreted.
\<close>

record tcstate =
  tcRoot :: "string \<rightharpoonup> string"
  tcIngress :: "string set"
  tcRedirects :: "(string \<times> string) set"
  tcLinks :: "string set"

fun tc_effect :: "syscall \<Rightarrow> tcstate \<Rightarrow> tcstate" where
  "tc_effect (CRun n as) t =
     (if n = ''tc'' \<and> take 3 as = [''qdisc'', ''del'', ''dev''] \<and> drop 4 as = [''root''] then t\<lparr>tcRoot := (tcRoot t)(as ! 3 := None)\<rparr>
      else if n = ''tc'' \<and> take 3 as = [''qdisc'', ''del'', ''dev''] \<and> drop 4 as = [''ingress'']
        then t\<lparr>tcIngress := tcIngress t - {as ! 3}, tcRedirects := {r \<in> tcRedirects t. fst r \<noteq> as ! 3}\<rparr>
      else if n = ''tc'' \<and> take 3 as = [''qdisc'', ''replace'', ''dev''] \<and> as ! 4 = ''root'' then t\<lparr>tcRoot := (tcRoot t)(as ! 3 \<mapsto> as ! 5)\<rparr>
      else if n = ''tc'' \<and> take 3 as = [''qdisc'', ''replace'', ''dev''] \<and> as ! 4 = ''handle'' then t\<lparr>tcIngress := insert (as ! 3) (tcIngress t)\<rparr>
      else if n = ''tc'' \<and> take 3 as = [''filter'', ''add'', ''dev''] then t\<lparr>tcRedirects := insert (as ! 3, last as) (tcRedirects t)\<rparr>
      else if n = ''ip'' \<and> take 2 as = [''link'', ''add''] then t\<lparr>tcLinks := insert (as ! 2) (tcLinks t)\<rparr>
      else if n = ''ip'' \<and> take 2 as = [''link'', ''del''] then t\<lparr>tcLinks := tcLinks t - {as ! 2}\<rparr>
      else t)"
| "tc_effect c t = t"

definition tc_run :: "syscall list \<Rightarrow> tcstate \<Rightarrow> tcstate" where
  "tc_run cs t = fold tc_effect cs t"

lemma clear_calls:
  "wTrace (snd (qos_clear env w)) = wTrace w @
     [CRun ''tc'' [''qdisc'', ''del'', ''dev'', wanDevice (wcfg w), ''root''],
      CRun ''tc'' [''qdisc'', ''del'', ''dev'', ''ifb0'', ''root''],
      CRun ''ip'' [''link'', ''set'', ''ifb0'', ''down''], CRun ''ip'' [''link'', ''del'', ''ifb0'']]"
  by (simp add: qos_clear_def io_simps)

lemma clear_keeps_config: "wStore (snd (qos_clear env w)) = wStore w" "fst (qos_clear env w) = Inr ()"
  by (simp_all add: qos_clear_def io_simps)

lemma congestion_calls:
  assumes "setCongestionControl env w = (Inr a, w')"
  shows "wStore w' = wStore w" "\<exists>cs. wTrace w' = wTrace w @ cs \<and> (\<forall>c \<in> set cs. \<exists>as. c = CRun ''sysctl'' as)"
  using assms by (auto simp: setCongestionControl_def io_simps Let_def split: if_splits sum.splits)

lemma cake_calls:
  assumes "applyCake env wanDev w = (Inr a, w')"
  shows "wStore w' = wStore w" "wTrace w' = wTrace w @
    [egress_call wanDev (qosUploadKbps (cfgQoS (wcfg w))), CRun ''ip'' [''link'', ''add'', ''ifb0'', ''type'', ''ifb''],
     CRun ''ip'' [''link'', ''set'', ''ifb0'', ''up''], ingress_qdisc_call wanDev, redirect_call wanDev,
     ingress_cake_call (qosDownloadKbps (cfgQoS (wcfg w)))]"
  using assms by (auto simp: applyCake_def io_simps Let_def split: sum.splits)

lemma Apply_cake_calls:
  assumes "qosEnabled (cfgQoS (wcfg w))" "qosProfile (cfgQoS (wcfg w)) = ''cake''" "qos_Apply env w = (Inr u, w')"
  shows "wStore w' = wStore w" "\<exists>pre. wTrace w' = wTrace w @ pre @
    [ingress_qdisc_call (wanDevice (wcfg w)), redirect_call (wanDevice (wcfg w)), ingress_cake_call (qosDownloadKbps (cfgQoS (wcfg w)))]"
proof -
  define w0 where "w0 = snd (qos_clear env w)"
  have c0: "wStore w0 = wStore w" "\<exists>cs. wTrace w0 = wTrace w @ cs" unfolding w0_def using clear_keeps_config clear_calls by blast+
  obtain a1 w1 where r1: "setCongestionControl env w0 = (Inr a1, w1)" and r: "io_bind (applyCake env (wanDevice (wcfg w))) (\<lambda>_. io_return ()) w1 = (Inr u, w')"
    using assms by (auto simp: qos_Apply_def io_simps w0_def [symmetric] Let_def split: prod.splits sum.splits)
  obtain a2 where r2: "applyCake env (wanDevice (wcfg w)) w1 = (Inr a2, w')"
    using r by (auto simp: io_simps split: prod.splits sum.splits)
  obtain cs where cs: "wTrace w1 = wTrace w0 @ cs" using congestion_calls(2) [OF r1] by blast
  show "wStore w' = wStore w" using cake_calls(1) [OF r2] congestion_calls(1) [OF r1] c0(1) by simp
  show "\<exists>pre. wTrace w' = wTrace w @ pre @
    [ingress_qdisc_call (wanDevice (wcfg w)), redirect_call (wanDevice (wcfg w)), ingress_cake_call (qosDownloadKbps (cfgQoS (wcfg w)))]"
    using cake_calls(2) [OF r2] cs c0 congestion_calls(1) [OF r1] by auto
qed

text \<open>
  Turning shaping off cuts the incoming traffic: after a successful \<open>Apply\<close> with the cake profile, \<open>Clear\<close>
  removes the root disciplines and the intermediate device and never the ingress discipline, so that the
  uplink's incoming packets stay redirected into a device that no longer exists.
\<close>

theorem clear_strands_ingress:
  assumes "qosEnabled (cfgQoS (wcfg w))" "qosProfile (cfgQoS (wcfg w)) = ''cake''" "qos_Apply env w = (Inr u, w1)"
  shows "\<exists>cs. wTrace (snd (qos_Clear env w1)) = wTrace w @ cs \<and>
    (wanDevice (wcfg w), ''ifb0'') \<in> tcRedirects (tc_run cs t) \<and> wanDevice (wcfg w) \<in> tcIngress (tc_run cs t) \<and>
    ''ifb0'' \<notin> tcLinks (tc_run cs t)"
proof -
  obtain pre where pre: "wTrace w1 = wTrace w @ pre @ [ingress_qdisc_call (wanDevice (wcfg w)), redirect_call (wanDevice (wcfg w)),
      ingress_cake_call (qosDownloadKbps (cfgQoS (wcfg w)))]" using Apply_cake_calls(2) [OF assms] by blast
  show ?thesis unfolding qos_Clear_def clear_calls pre Apply_cake_calls(1) [OF assms]
    by (simp add: tc_run_def ingress_qdisc_call_def redirect_call_def ingress_cake_call_def)
qed

definition shaped_world :: world where
  "shaped_world = \<lparr>wStore = \<lparr>cfg = zero_Config\<lparr>cfgQoS := (cfgQoS zero_Config)\<lparr>qosEnabled := True, qosProfile := ''cake'', qosCongestionControl := ''cubic''\<rparr>\<rparr>,
     disk = Map.empty\<rparr>, wTrace = []\<rparr>"

theorem clear_strands_ingress_witness:
  "\<exists>w1 cs. qos_Apply calm_env shaped_world = (Inr (), w1) \<and> wTrace (snd (qos_Clear calm_env w1)) = cs \<and>
    ''ifb0'' \<notin> tcLinks (tc_run cs \<lparr>tcRoot = Map.empty, tcIngress = {}, tcRedirects = {}, tcLinks = {}\<rparr>)"
proof -
  obtain w1 where run: "qos_Apply calm_env shaped_world = (Inr (), w1)"
    by (simp add: qos_Apply_def shaped_world_def io_simps calm_env_def qos_clear_def setCongestionControl_def applyCake_def Let_def)
  have c: "qosEnabled (cfgQoS (wcfg shaped_world))" "qosProfile (cfgQoS (wcfg shaped_world)) = ''cake''" "wTrace shaped_world = []"
    by (simp_all add: shaped_world_def)
  show ?thesis using clear_strands_ingress [OF c(1,2) run] run unfolding c(3) by auto
qed

end
