(* ===== verification/IPv6.thy ===== *)
theory IPv6
  imports Effects GoNet
begin

text \<open>
  The IPv6 service (\<^verbatim>\<open>internal/services/ipv6.go\<close>): the state of the delegated prefix, the
  assignment of sub-prefixes to the LAN and the VLANs, rendering and applying the configuration of
  dhcp6c and of dnsmasq's router advertisements, and the watcher that hands lease changes on. The
  templates, the JSON decoder, the random source and the file-system notifications are parameters.
\<close>

section \<open>Definitions\<close>

definition dhcp6cConfPath :: string where "dhcp6cConfPath = ''/etc/wide-dhcpv6/dhcp6c.conf''"
definition dhcp6cScriptPath :: string where "dhcp6cScriptPath = ''/etc/wide-dhcpv6/dhcp6c-script''"
definition ipv6StatePath :: string where "ipv6StatePath = ''/var/lib/lankeeper/state/ipv6-prefix.json''"
definition dhcp6cUnitName :: string where "dhcp6cUnitName = ''lankeeper-dhcp6c.service''"
definition dnsmasqRAConfPath :: string where "dnsmasqRAConfPath = ''/etc/dnsmasq.d/lankeeper-ipv6-ra.conf''"
definition defaultRAInterval :: goint where "defaultRAInterval = 30"

subsection \<open>The prefix state\<close>

record PrefixState =
  psTimestamp :: goint
  psReason :: string
  psPrefix :: string
  psPrefixLength :: goint
  psPreferredLifetime :: goint
  psValidLifetime :: goint
  psRDNSS :: string

definition zero_PrefixState :: PrefixState where
  "zero_PrefixState = \<lparr>psTimestamp = 0, psReason = [], psPrefix = [], psPrefixLength = 0,
     psPreferredLifetime = 0, psValidLifetime = 0, psRDNSS = []\<rparr>"

text \<open>
  The instant \<open>time.Unix(p.Timestamp, 0).Add(time.Duration(p.ValidLifetime) * time.Second)\<close>; the
  product is a 64-bit count of nanoseconds.
\<close>

definition lease_deadline :: "PrefixState \<Rightarrow> gotime" where
  "lease_deadline p = nanos (psTimestamp p) + wrap64 (psValidLifetime p * 1000000000)"

definition Expired :: "gotime \<Rightarrow> PrefixState \<Rightarrow> bool" where
  "Expired now p =
     (if psTimestamp p = 0 \<or> psValidLifetime p \<le> 0 then False else now > lease_deadline p)"

definition Active :: "gotime \<Rightarrow> PrefixState \<Rightarrow> bool" where
  "Active now p =
     (if psPrefix p = [] \<or> psValidLifetime p \<le> 0 then False
      else if psReason p = ''RELEASE'' \<or> psReason p = ''EXIT'' then False
      else if Expired now p then False
      else True)"

text \<open>\<open>time.Time.Sub\<close> saturates at the bounds of a duration.\<close>

definition time_Sub :: "gotime \<Rightarrow> gotime \<Rightarrow> duration" where
  "time_Sub t u = max min_int64 (min max_int64 (t - u))"

definition ExpiresIn :: "gotime \<Rightarrow> PrefixState \<Rightarrow> duration" where
  "ExpiresIn now p =
     (if psTimestamp p = 0 \<or> psValidLifetime p \<le> 0 then 0 else time_Sub (lease_deadline p) now)"

definition PrefixAge :: "gotime \<Rightarrow> PrefixState \<Rightarrow> duration" where
  "PrefixAge now p = (if psTimestamp p = 0 then 0 else time_Sub now (nanos (psTimestamp p)))"

definition CIDR :: "PrefixState \<Rightarrow> string" where
  "CIDR p = (if psPrefix p = [] \<or> psPrefixLength p = 0 then []
     else psPrefix p @ ''/'' @ Itoa (psPrefixLength p))"

definition leaseHash :: "PrefixState \<Rightarrow> string" where
  "leaseHash p = psPrefix p @ ''/'' @ Itoa (psPrefixLength p) @ ''|'' @ psReason p @ ''|'' @
     Itoa (psPreferredLifetime p) @ ''|'' @ Itoa (psValidLifetime p) @ ''|'' @ psRDNSS p"

subsection \<open>Sub-prefixes\<close>

record prefixInterface =
  pfiName :: string
  pfiDevice :: string
  pfiSLAID :: goint

definition resolve_iface :: "Config \<Rightarrow> string \<times> string \<Rightarrow> InterfaceConfig \<Rightarrow> string \<times> string" where
  "resolve_iface c wl f =
     (if ifRole f = ''wan''
      then (if ppUsername (cfgPPPoE c) \<noteq> [] then ''ppp0'' else ifDevice f, snd wl)
      else if ifRole f = ''lan'' then (fst wl, if snd wl = [] then ifDevice f else snd wl)
      else wl)"

definition resolveInterfaces :: "Config \<Rightarrow> error + string \<times> string" where
  "resolveInterfaces c =
     (case foldl (resolve_iface c) ([], []) (cfgInterfaces c) of (wan, lan) \<Rightarrow>
        if wan = [] then Inl ''no WAN interface configured''
        else if lan = [] then Inl ''no LAN interface configured''
        else Inr (wan, lan))"

text \<open>The text of the error of \<open>strconv.Atoi\<close> is a parameter.\<close>

definition parsePrefixHint :: "(string \<Rightarrow> error) \<Rightarrow> string \<Rightarrow> error + goint" where
  "parsePrefixHint atoi_err s =
     (let trimmed = TrimPrefix (TrimSpace s) ''/'' in
      case Atoi trimmed of
        None \<Rightarrow> Inl (''invalid prefix hint '' @ quote_q s @ '': '' @ atoi_err trimmed)
      | Some n \<Rightarrow> if n < 48 \<or> n > 64 then Inl (''prefix hint '' @ Itoa n @ '' outside [48,64]'')
                  else Inr n)"

definition routedPrefixLength :: "Config \<Rightarrow> string" where
  "routedPrefixLength c =
     (if ip6Mode (cfgIPv6 c) = ''6in4''
      then (let rp = TrimSpace (tunRoutedPrefix (ip6Tunnel (cfgIPv6 c))) in
        if rp \<noteq> []
        then (case LastIndexByte rp (CHR ''/'') of
            Some i \<Rightarrow> if i < length rp - 1 then drop i rp else ''/64''
          | None \<Rightarrow> ''/64'')
        else ''/64'')
      else (let h = TrimSpace (wan6PrefixHint (ip6WAN (cfgIPv6 c))) in
        if h \<noteq> [] then h else ''/56''))"

definition advertisedMTU :: "Config \<Rightarrow> goint" where
  "advertisedMTU c =
     (let pppoe = (ppUsername (cfgPPPoE c) \<noteq> []) in
      if ip6Mode (cfgIPv6 c) = ''6in4'' then (if pppoe then 1452 else 1480)
      else if pppoe then 1492 else 1500)"

definition dhcpLeaseTime :: "Config \<Rightarrow> string" where
  "dhcpLeaseTime c = (if ConfigTypes.dhcpLeaseTime (cfgDHCP c) \<noteq> [] then ConfigTypes.dhcpLeaseTime (cfgDHCP c) else ''12h'')"

definition pick :: "(string, goint) gomap \<Rightarrow> string \<Rightarrow> goint \<Rightarrow> goint" where
  "pick subnetMap key dflt = (case map_of subnetMap key of Some v \<Rightarrow> v | None \<Rightarrow> dflt)"

definition parent_dev :: "Config \<Rightarrow> VLANConfig \<Rightarrow> string" where
  "parent_dev c vlan =
     (case find (\<lambda>f. ifID f = vlParent vlan) (cfgInterfaces c) of Some f \<Rightarrow> ifDevice f | None \<Rightarrow> [])"

text \<open>One VLAN of the loop: the entries so far and the next automatic SLA-ID.\<close>

definition add_vlan :: "Config \<Rightarrow> goint \<Rightarrow> prefixInterface list \<times> goint \<Rightarrow> VLANConfig \<Rightarrow> prefixInterface list \<times> goint" where
  "add_vlan c maxSLA acc vlan =
     (case acc of (out, auto) \<Rightarrow>
      if vlID vlan = [] then (out, auto)
      else if parent_dev c vlan = [] \<or> vlVID vlan = 0 then (out, auto)
      else (let dev = parent_dev c vlan @ ''.'' @ Itoa (vlVID vlan);
                sla = pick (lan6SubnetMap (ip6LAN (cfgIPv6 c))) (vlID vlan) auto
            in if sla > maxSLA then (out, auto)
               else (out @ [\<lparr>pfiName = vlID vlan, pfiDevice = dev, pfiSLAID = sla\<rparr>], auto + 1)))"

definition buildPrefixInterfaces :: "Config \<Rightarrow> string \<Rightarrow> goint \<Rightarrow> prefixInterface list" where
  "buildPrefixInterfaces c lanDev slaLen =
     (let out = [\<lparr>pfiName = ''lan'', pfiDevice = lanDev,
                  pfiSLAID = pick (lan6SubnetMap (ip6LAN (cfgIPv6 c))) ''lan'' 0\<rparr>] in
      if slaLen = 0 then out
      else fst (foldl (add_vlan c (2 ^ nat slaLen - 1)) (out, 1) (cfgVLANs c)))"

definition sla_len :: "goint \<Rightarrow> goint" where
  "sla_len delegatedLen = (let slaLen = 64 - delegatedLen in if slaLen < 0 then 0 else slaLen)"

definition AnnouncedInterfaces :: "(string \<Rightarrow> error) \<Rightarrow> Config \<Rightarrow> error + prefixInterface list" where
  "AnnouncedInterfaces atoi_err c =
     (if ip6Enabled (cfgIPv6 c) = ''off'' then Inr []
      else (case resolveInterfaces c of
          Inl e \<Rightarrow> Inl e
        | Inr (wan, lan) \<Rightarrow> (case parsePrefixHint atoi_err (routedPrefixLength c) of
            Inl e \<Rightarrow> Inl e
          | Inr delegatedLen \<Rightarrow> Inr (buildPrefixInterfaces c lan (sla_len delegatedLen)))))"

subsection \<open>Checking a subnet map\<close>

text \<open>The loop over the map's entries, in the order of one iteration.\<close>

fun subnet_loop :: "string list \<Rightarrow> (goint \<times> string) list \<Rightarrow> (string, goint) gomap \<Rightarrow> error option" where
  "subnet_loop known seen [] = None"
| "subnet_loop known seen ((key, sla) # rest) =
     (if sla < 0 then Some (''subnetMap['' @ quote_q key @ ''] is negative ('' @ Itoa sla @ ''); SLA-ID must be >= 0'')
      else if key \<noteq> ''lan'' \<and> key \<notin> set known
      then Some (''subnetMap['' @ quote_q key @ ''] does not match any VLAN ID'')
      else (case map_of seen sla of
          Some other \<Rightarrow> Some (''subnetMap['' @ quote_q other @ ''] and subnetMap['' @ quote_q key @
              ''] both use SLA-ID '' @ Itoa sla)
        | None \<Rightarrow> subnet_loop known ((sla, key) # seen) rest))"

definition ValidateSubnetMap :: "Config \<Rightarrow> (string, goint) gomap \<Rightarrow> error option" where
  "ValidateSubnetMap c m =
     (case map_of m ''lan'' of
        Some v \<Rightarrow> if v \<noteq> 0 then Some (''primary LAN must keep SLA-ID 0, got '' @ Itoa v)
                  else subnet_loop (filter (\<lambda>i. i \<noteq> []) (map vlID (cfgVLANs c))) [] m
      | None \<Rightarrow> subnet_loop (filter (\<lambda>i. i \<noteq> []) (map vlID (cfgVLANs c))) [] m)"

subsection \<open>Rendering\<close>

record dhcp6cTemplateData =
  d6WANInterface :: string
  d6RapidCommit :: bool
  d6ScriptPath :: string
  d6SLALen :: goint
  d6PrefixInterfaces :: "prefixInterface list"

record dnsmasqRATemplateData =
  raInterfaces :: "prefixInterface list"
  raLeaseTime :: string
  raRAInterval :: goint
  raMTU :: goint
  raRDNSSAddrs :: "string list"
  raSearchDomain :: string
  raULAPrefix :: string
  raPrivacy :: bool

record ip6env =
  i6Sys :: sysenv
  i6Conf :: "dhcp6cTemplateData \<Rightarrow> error + string"
  i6Script :: "string \<Rightarrow> error + string"
  i6RA :: "dnsmasqRATemplateData \<Rightarrow> error + string"
  i6JSON :: "string \<Rightarrow> error + PrefixState"
  i6Rand :: "error + (nat \<times> nat \<times> nat \<times> nat \<times> nat)"
  i6NotExist :: "error \<Rightarrow> bool"
  i6AtoiErr :: "string \<Rightarrow> error"
  i6StatePath :: string

definition hex2 :: "nat \<Rightarrow> string" where
  "hex2 b = [hex_char (b div 16 mod 16), hex_char (b mod 16)]"

definition generateULAPrefix :: "ip6env \<Rightarrow> error + string" where
  "generateULAPrefix env =
     (case i6Rand env of
        Inl e \<Rightarrow> Inl (''read random: '' @ e)
      | Inr (r0, r1, r2, r3, r4) \<Rightarrow>
          Inr (''fd'' @ hex2 r0 @ '':'' @ hex2 r1 @ hex2 r2 @ '':'' @ hex2 r3 @ hex2 r4 @ ''::/48''))"

definition map_ip6 :: "(IPv6Config \<Rightarrow> IPv6Config) \<Rightarrow> Config \<Rightarrow> Config" where
  "map_ip6 f c = c\<lparr>cfgIPv6 := f (cfgIPv6 c)\<rparr>"

definition set_ula :: "string \<Rightarrow> Config \<Rightarrow> Config" where
  "set_ula p = map_ip6 (\<lambda>i. i\<lparr>ip6LAN := (ip6LAN i)\<lparr>lan6ULA := (lan6ULA (ip6LAN i))\<lparr>ulaPrefix := p\<rparr>\<rparr>\<rparr>)"

definition ula_prefix :: "ip6env \<Rightarrow> string action" where
  "ula_prefix env w =
     (let p = TrimSpace (ulaPrefix (lan6ULA (ip6LAN (cfgIPv6 (wcfg w))))) in
      if p \<noteq> [] then (Inr p, w)
      else (case generateULAPrefix env of
          Inl e \<Rightarrow> (Inr [], w)
        | Inr pfx \<Rightarrow>
            io_then (io_update (set_ula pfx)) (io_then (io_ignore (io_save (i6Sys env))) (io_return pfx)) w))"

definition rdnssAddrs :: "ip6env \<Rightarrow> string list action" where
  "rdnssAddrs env w =
     (case sys (i6Sys env) (CReadFile (i6StatePath env)) w of
        (Inr raw, w') \<Rightarrow>
          (if TrimSpace raw = [] then (Inr [], w')
           else (case i6JSON env raw of
               Inr st \<Rightarrow> (Inr (if psRDNSS st \<noteq> [] then filter (\<lambda>f. f \<noteq> []) (Fields (psRDNSS st)) else []), w')
             | Inl e \<Rightarrow> (Inr [], w')))
      | (Inl e, w') \<Rightarrow> (Inr [], w'))"

definition ra_data :: "Config \<Rightarrow> string \<Rightarrow> goint \<Rightarrow> string list \<Rightarrow> string \<Rightarrow> dnsmasqRATemplateData" where
  "ra_data c lan delegatedLen rdnss ula =
     \<lparr>raInterfaces = buildPrefixInterfaces c lan (sla_len delegatedLen),
      raLeaseTime = dhcpLeaseTime c,
      raRAInterval = (if lan6RAInterval (ip6LAN (cfgIPv6 c)) \<le> 0 then defaultRAInterval
                      else lan6RAInterval (ip6LAN (cfgIPv6 c))),
      raMTU = advertisedMTU c, raRDNSSAddrs = rdnss, raSearchDomain = sysDomain (cfgSystem c),
      raULAPrefix = ula, raPrivacy = ip6Privacy (cfgIPv6 c)\<rparr>"

definition RenderRAConfig :: "ip6env \<Rightarrow> string action" where
  "RenderRAConfig env w =
     (let c = wcfg w in
      if ip6Enabled (cfgIPv6 c) = ''off'' then (Inr [], w)
      else (case resolveInterfaces c of
          Inl e \<Rightarrow> (Inl e, w)
        | Inr (wan, lan) \<Rightarrow> (case parsePrefixHint (i6AtoiErr env) (routedPrefixLength c) of
            Inl e \<Rightarrow> (Inl e, w)
          | Inr delegatedLen \<Rightarrow>
              io_bind (rdnssAddrs env) (\<lambda>rdnss.
                io_bind (if ulaEnabled (lan6ULA (ip6LAN (cfgIPv6 c))) then ula_prefix env else io_return []) (\<lambda>ula.
                  io_lift (i6RA env (ra_data c lan delegatedLen rdnss ula)))) w)))"

definition RenderConfig :: "ip6env \<Rightarrow> Config \<Rightarrow> error + string" where
  "RenderConfig env c =
     (case resolveInterfaces c of
        Inl e \<Rightarrow> Inl e
      | Inr (wan, lan) \<Rightarrow>
        (let hint = (if wan6PrefixHint (ip6WAN (cfgIPv6 c)) = [] then ''/56''
                     else wan6PrefixHint (ip6WAN (cfgIPv6 c))) in
         case parsePrefixHint (i6AtoiErr env) hint of
           Inl e \<Rightarrow> Inl e
         | Inr delegatedLen \<Rightarrow>
             i6Conf env \<lparr>d6WANInterface = wan, d6RapidCommit = wan6RapidCommit (ip6WAN (cfgIPv6 c)),
               d6ScriptPath = dhcp6cScriptPath, d6SLALen = sla_len delegatedLen,
               d6PrefixInterfaces = buildPrefixInterfaces c lan (sla_len delegatedLen)\<rparr>))"

definition RenderScript :: "ip6env \<Rightarrow> error + string" where
  "RenderScript env = i6Script env ipv6StatePath"

definition pd_requested :: "Config \<Rightarrow> bool" where
  "pd_requested c \<longleftrightarrow> ip6Mode (cfgIPv6 c) \<noteq> ''6in4'' \<and> wan6RequestPrefix (ip6WAN (cfgIPv6 c))"

definition put_file :: "ip6env \<Rightarrow> string \<Rightarrow> string \<Rightarrow> string \<Rightarrow> goint \<Rightarrow> unit action" where
  "put_file env pre path content mode =
     io_wrap pre (io_bind (sys (i6Sys env) (CWriteFile path content mode)) (\<lambda>_. io_return ()))"

definition make_dir :: "ip6env \<Rightarrow> string \<Rightarrow> unit action" where
  "make_dir env dir =
     io_wrap (''mkdir '' @ dir @ '': '') (io_bind (sys (i6Sys env) (CMkdirAll dir 493)) (\<lambda>_. io_return ()))"

definition render_pd :: "ip6env \<Rightarrow> unit action" where
  "render_pd env w =
     io_bind (io_lift (RenderConfig env (wcfg w))) (\<lambda>conf.
       io_bind (io_lift (RenderScript env)) (\<lambda>script.
         io_then (make_dir env (path_Dir dhcp6cConfPath))
           (io_then (put_file env ''write dhcp6c.conf: '' dhcp6cConfPath conf 420)
                    (put_file env ''write dhcp6c-script: '' dhcp6cScriptPath script 493)))) w"

definition RenderToDisk :: "ip6env \<Rightarrow> unit action" where
  "RenderToDisk env w =
     (let c = wcfg w; mode = ip6Mode (cfgIPv6 c); off = (ip6Enabled (cfgIPv6 c) = ''off'') in
      if off \<or> \<not> pd_requested c \<and> mode \<noteq> ''6in4''
      then io_then
        (put_file env ''write disabled stub: '' dhcp6cConfPath (''# IPv6 PD disabled by LANKeeper config.'' @ nl) 420)
        (put_file env ''write disabled RA stub: '' dnsmasqRAConfPath (''# IPv6 RA disabled by LANKeeper config.'' @ nl) 420) w
      else
        io_then (make_dir env (path_Dir ipv6StatePath))
         (io_then (make_dir env (path_Dir dnsmasqRAConfPath))
          (io_then
            (if pd_requested c then render_pd env
             else if mode = ''6in4''
             then put_file env ''write 6in4 stub: '' dhcp6cConfPath (''# IPv6 mode is 6in4; dhcp6c is not used.'' @ nl) 420
             else io_return ())
            (io_bind (RenderRAConfig env)
              (\<lambda>raConf. put_file env ''write dnsmasq RA drop-in: '' dnsmasqRAConfPath raConf 420)))) w)"

subsection \<open>Units\<close>

definition run_unit :: "ip6env \<Rightarrow> string \<Rightarrow> string list \<Rightarrow> unit action" where
  "run_unit env pre args =
     io_wrap pre (io_bind (sys (i6Sys env) (CRun ''systemctl'' args)) (\<lambda>_. io_return ()))"

definition reloadDnsmasqLocked :: "ip6env \<Rightarrow> unit action" where
  "reloadDnsmasqLocked env = run_unit env ''reload dnsmasq: '' [''reload-or-restart'', ''dnsmasq'']"

definition ip6_Start :: "ip6env \<Rightarrow> unit action" where
  "ip6_Start env = run_unit env (''start '' @ dhcp6cUnitName @ '': '') [''enable'', ''--now'', dhcp6cUnitName]"

definition restartUnitLocked :: "ip6env \<Rightarrow> unit action" where
  "restartUnitLocked env = run_unit env (''restart '' @ dhcp6cUnitName @ '': '') [''restart'', dhcp6cUnitName]"

definition stopUnitLocked :: "ip6env \<Rightarrow> unit action" where
  "stopUnitLocked env w =
     (case sys (i6Sys env) (CRun ''systemctl'' [''stop'', dhcp6cUnitName]) w of
        (Inl e, w') \<Rightarrow> if Contains e ''exit status 5'' then (Inr (), w')
                      else (Inl (''stop '' @ dhcp6cUnitName @ '': '' @ e), w')
      | (Inr _, w') \<Rightarrow> (Inr (), w'))"

definition ip6_Stop :: "ip6env \<Rightarrow> unit action" where "ip6_Stop env = stopUnitLocked env"
definition ip6_Restart :: "ip6env \<Rightarrow> unit action" where "ip6_Restart env = restartUnitLocked env"
definition ip6_Release :: "ip6env \<Rightarrow> unit action" where "ip6_Release env = stopUnitLocked env"

definition ip6_Renew :: "ip6env \<Rightarrow> unit action" where
  "ip6_Renew env = run_unit env (''renew '' @ dhcp6cUnitName @ '': '') [''reload-or-restart'', dhcp6cUnitName]"

definition ip6_ApplyConfig :: "ip6env \<Rightarrow> unit action" where
  "ip6_ApplyConfig env =
     io_then (RenderToDisk env)
      (io_then (io_ignore (reloadDnsmasqLocked env))
        (\<lambda>w. (let c = wcfg w in
              if ip6Enabled (cfgIPv6 c) = ''off'' \<or> ip6Mode (cfgIPv6 c) = ''6in4'' \<or>
                 \<not> wan6RequestPrefix (ip6WAN (cfgIPv6 c))
              then stopUnitLocked env w else restartUnitLocked env w)))"

definition set_subnets :: "(string, goint) gomap \<Rightarrow> Config \<Rightarrow> Config" where
  "set_subnets m = map_ip6 (\<lambda>i. i\<lparr>ip6LAN := (ip6LAN i)\<lparr>lan6SubnetMap := m\<rparr>\<rparr>)"

definition SetSubnetMap :: "ip6env \<Rightarrow> (string, goint) gomap \<Rightarrow> unit action" where
  "SetSubnetMap env m w =
     (case ValidateSubnetMap (wcfg w) m of
        Some e \<Rightarrow> (Inl e, w)
      | None \<Rightarrow> io_then (io_update (set_subnets m))
          (io_then (io_wrap ''save subnet map: '' (io_save (i6Sys env))) (ip6_ApplyConfig env)) w)"

definition ip6_Status :: "ip6env \<Rightarrow> PrefixState action" where
  "ip6_Status env w =
     (case sys (i6Sys env) (CReadFile (i6StatePath env)) w of
        (Inl e, w') \<Rightarrow> if i6NotExist env e then (Inr zero_PrefixState, w')
                      else (Inl (''read '' @ i6StatePath env @ '': '' @ e), w')
      | (Inr raw, w') \<Rightarrow>
          if TrimSpace raw = [] then (Inr zero_PrefixState, w')
          else (case i6JSON env raw of
              Inl e \<Rightarrow> (Inl (''parse ipv6 state: '' @ e), w')
            | Inr st \<Rightarrow> (Inr st, w')))"

subsection \<open>The lease watcher\<close>

definition refreshRADropIn :: "ip6env \<Rightarrow> unit action" where
  "refreshRADropIn env w =
     (let c = wcfg w in
      if ip6Enabled (cfgIPv6 c) = ''off'' then (Inr (), w)
      else if ip6Mode (cfgIPv6 c) \<noteq> ''6in4'' \<and> \<not> wan6RequestPrefix (ip6WAN (cfgIPv6 c)) then (Inr (), w)
      else io_bind (io_wrap ''render RA: '' (RenderRAConfig env))
        (\<lambda>conf. io_then (put_file env ''write RA drop-in: '' dnsmasqRAConfPath conf 420)
                       (reloadDnsmasqLocked env)) w)"

text \<open>
  The watcher's state: the digest of the last lease handed on, and the leases the callback was
  called with so far. A dispatch is one step here: in the code it runs on the goroutine of a timer, and the
  callback of one lease may still run when the next lease is dispatched.
\<close>

record watcher =
  lastLeaseHash :: string
  handed :: "PrefixState list"

definition dispatchLeaseLocked ::
    "ip6env \<Rightarrow> (PrefixState \<Rightarrow> unit action) option \<Rightarrow> watcher \<times> world \<Rightarrow> watcher \<times> world" where
  "dispatchLeaseLocked env cb ww =
     (case ww of (v, w) \<Rightarrow>
      case ip6_Status env w of
        (Inl e, w1) \<Rightarrow> (v, w1)
      | (Inr state, w1) \<Rightarrow>
          if leaseHash state = lastLeaseHash v then (v, w1)
          else (let v1 = v\<lparr>lastLeaseHash := leaseHash state\<rparr>;
                    w2 = snd (refreshRADropIn env w1)
                in case cb of
                     None \<Rightarrow> (v1, w2)
                   | Some fn \<Rightarrow> (v1\<lparr>handed := handed v @ [state]\<rparr>, snd (fn state w2))))"

text \<open>
  Starting and stopping the watcher: whether the stop channel is set, whether the goroutine runs and
  whether a dispatch is pending. The arguments of the start are the failures of creating the
  directory, the notifier and the watch.
\<close>

record lease_watch =
  watcherStop :: bool
  watcherRuns :: bool
  watcherDebounce :: bool

definition StartLeaseWatcher ::
    "error option \<Rightarrow> error option \<Rightarrow> error option \<Rightarrow> string \<Rightarrow> lease_watch \<Rightarrow> error option \<times> lease_watch" where
  "StartLeaseWatcher mkErr newErr addErr statePath s =
     (if watcherStop s then (None, s)
      else (let s1 = s\<lparr>watcherStop := True\<rparr>; stateDir = path_Dir statePath in
        case mkErr of
          Some e \<Rightarrow> (Some (''ensure state dir '' @ stateDir @ '': '' @ e), s1)
        | None \<Rightarrow> (case newErr of
            Some e \<Rightarrow> (Some (''create fsnotify watcher: '' @ e), s1)
          | None \<Rightarrow> (case addErr of
              Some e \<Rightarrow> (Some (''watch '' @ stateDir @ '': '' @ e), s1)
            | None \<Rightarrow> (None, s1\<lparr>watcherRuns := True\<rparr>)))))"

definition StopLeaseWatcher :: "lease_watch \<Rightarrow> lease_watch" where
  "StopLeaseWatcher s =
     (if watcherStop s then s\<lparr>watcherStop := False, watcherDebounce := False, watcherRuns := False\<rparr>
      else s\<lparr>watcherDebounce := False\<rparr>)"

text \<open>
  A file-system event, and the debounce timer: an event on the state file of one of the four kinds
  restarts it; when it expires the lease is dispatched. The list is of the instants it expires at.
\<close>

record fsevent =
  evAt :: gotime
  evName :: string
  evRelevantOp :: bool

definition debounce :: duration where "debounce = 150000000"

fun watch_loop :: "string \<Rightarrow> gotime option \<Rightarrow> fsevent list \<Rightarrow> gotime list" where
  "watch_loop stateName timer [] = (case timer of Some d \<Rightarrow> [d] | None \<Rightarrow> [])"
| "watch_loop stateName timer (ev # rest) =
     (let fired = (case timer of Some d \<Rightarrow> d \<le> evAt ev | None \<Rightarrow> False);
          timer' = (if fired then None else timer);
          timer'' = (if path_Base (evName ev) \<noteq> stateName \<or> \<not> evRelevantOp ev then timer'
                     else Some (evAt ev + debounce))
      in (if fired then [the timer] else []) @ watch_loop stateName timer'' rest)"

section \<open>Sub-prefix assignment\<close>

abbreviation subnets :: "Config \<Rightarrow> (string, goint) gomap" where
  "subnets c \<equiv> lan6SubnetMap (ip6LAN (cfgIPv6 c))"

lemma add_vlan_cases:
  obtains (skipped) "add_vlan c M (out, a) v = (out, a)"
    | (added) p where "add_vlan c M (out, a) v = (out @ [p], a + 1)" "pfiName p = vlID v" "vlID v \<noteq> []"
        "pfiSLAID p = pick (subnets c) (vlID v) a" "pfiSLAID p \<le> M"
proof (cases "vlID v = [] \<or> parent_dev c v = [] \<or> vlVID v = 0 \<or> pick (subnets c) (vlID v) a > M")
  case True
  then have "add_vlan c M (out, a) v = (out, a)" by (auto simp: add_vlan_def Let_def)
  then show ?thesis by (rule skipped)
next
  case False
  then show ?thesis
    using added [of "\<lparr>pfiName = vlID v, pfiDevice = parent_dev c v @ ''.'' @ Itoa (vlVID v),
        pfiSLAID = pick (subnets c) (vlID v) a\<rparr>"]
    by (simp add: add_vlan_def Let_def)
qed

lemma subseq_distinct: "subseq xs ys \<Longrightarrow> distinct ys \<Longrightarrow> distinct xs"
  by (induction rule: list_emb.induct) (auto dest: list_emb_set)

text \<open>The entries the loop adds: in the order of the VLANs, each within the bound.\<close>

lemma add_vlans:
  "\<exists>new. fst (foldl (add_vlan c M) (out, a) vs) = out @ new \<and>
     subseq (map pfiName new) (map vlID vs) \<and>
     (\<forall>p \<in> set new. pfiName p \<noteq> [] \<and> pfiSLAID p \<le> M \<and> (\<exists>k \<ge> a. pfiSLAID p = pick (subnets c) (pfiName p) k)) \<and>
     (subnets c = [] \<longrightarrow> map pfiSLAID new = map (\<lambda>i. a + int i) [0..<length new])"
proof (induction vs arbitrary: out a)
  case Nil
  show ?case by simp
next
  case (Cons v vs)
  show ?case
  proof (cases rule: add_vlan_cases [of c M out a v])
    case skipped
    then show ?thesis using Cons.IH [of out a] by (auto intro: list_emb_Cons)
  next
    case (added p)
    obtain new where new: "fst (foldl (add_vlan c M) (out @ [p], a + 1) vs) = (out @ [p]) @ new"
      "subseq (map pfiName new) (map vlID vs)"
      "\<forall>q \<in> set new. pfiName q \<noteq> [] \<and> pfiSLAID q \<le> M \<and> (\<exists>k \<ge> a + 1. pfiSLAID q = pick (subnets c) (pfiName q) k)"
      "subnets c = [] \<longrightarrow> map pfiSLAID new = map (\<lambda>i. a + 1 + int i) [0..<length new]"
      using Cons.IH [of "out @ [p]" "a + 1"] by blast
    have "subnets c = [] \<longrightarrow> map pfiSLAID (p # new) = map (\<lambda>i. a + int i) [0..<length (p # new)]"
    proof
      assume e: "subnets c = []"
      then have "pfiSLAID p = a" using added(4) by (simp add: pick_def)
      moreover have "map pfiSLAID new = map ((\<lambda>i. a + int i) \<circ> Suc) [0..<length new]"
        using new(4) e by (simp add: o_def algebra_simps)
      ultimately show "map pfiSLAID (p # new) = map (\<lambda>i. a + int i) [0..<length (p # new)]"
        by (simp add: upt_conv_Cons map_Suc_upt [symmetric] del: upt_Suc)
    qed
    moreover have "\<forall>q \<in> set (p # new). pfiName q \<noteq> [] \<and> pfiSLAID q \<le> M \<and> (\<exists>k \<ge> a. pfiSLAID q = pick (subnets c) (pfiName q) k)"
    proof
      fix q assume "q \<in> set (p # new)"
      then consider "q = p" | "q \<in> set new" by auto
      then show "pfiName q \<noteq> [] \<and> pfiSLAID q \<le> M \<and> (\<exists>k \<ge> a. pfiSLAID q = pick (subnets c) (pfiName q) k)"
      proof cases
        case 1
        then show ?thesis using added by auto
      next
        case 2
        then obtain k where "a + 1 \<le> k" "pfiSLAID q = pick (subnets c) (pfiName q) k" "pfiName q \<noteq> []" "pfiSLAID q \<le> M"
          using new(3) by blast
        then show ?thesis by (intro conjI exI [of _ k]) simp_all
      qed
    qed
    moreover have "subseq (map pfiName (p # new)) (map vlID (v # vs))" using new(2) added(2) by simp
    moreover have "fst (foldl (add_vlan c M) (out, a) (v # vs)) = out @ p # new" using new(1) added(1) by simp
    ultimately show ?thesis by blast
  qed
qed

text \<open>What an accepted map promises.\<close>

definition subnet_map_ok :: "Config \<Rightarrow> (string, goint) gomap \<Rightarrow> bool" where
  "subnet_map_ok c m \<longleftrightarrow>
     (\<forall>v. map_of m ''lan'' = Some v \<longrightarrow> v = 0) \<and>
     (\<forall>(k, v) \<in> set m. 0 \<le> v \<and> (k = ''lan'' \<or> k \<noteq> [] \<and> k \<in> vlID ` set (cfgVLANs c))) \<and>
     distinct (map snd m)"

lemma subnet_loop_None:
  "subnet_loop known seen m = None \<longleftrightarrow>
     (\<forall>(k, v) \<in> set m. 0 \<le> v \<and> (k = ''lan'' \<or> k \<in> set known) \<and> v \<notin> fst ` set seen) \<and> distinct (map snd m)"
proof (induction known seen m rule: subnet_loop.induct)
  case (2 known seen key sla rest)
  show ?case
  proof (cases "sla < 0 \<or> (key \<noteq> ''lan'' \<and> key \<notin> set known) \<or> map_of seen sla \<noteq> None")
    case True
    then show ?thesis by (auto split: option.splits simp: map_of_eq_None_iff)
  next
    case False
    then have n: "\<not> sla < 0" "\<not> (key \<noteq> ''lan'' \<and> key \<notin> set known)" "map_of seen sla = None" by auto
    then have f: "sla \<notin> fst ` set seen" by (simp add: map_of_eq_None_iff)
    show ?thesis using n f "2.IH" [OF n] by (auto 0 3 simp: image_iff)
  qed
qed simp

lemma ValidateSubnetMap_ok: "ValidateSubnetMap c m = None \<longleftrightarrow> subnet_map_ok c m"
  by (auto simp: ValidateSubnetMap_def subnet_map_ok_def subnet_loop_None split: option.splits)

lemma subnet_map_inj:
  assumes "subnet_map_ok c m" "map_of m k = Some v" "map_of m k' = Some v"
  shows "k = k'"
proof -
  have "(k, v) \<in> set m" "(k', v) \<in> set m" using assms(2,3) by (auto dest: map_of_SomeD)
  moreover have "inj_on snd (set m)" using assms(1) by (simp add: subnet_map_ok_def distinct_map)
  ultimately show ?thesis by (metis inj_onD prod.inject snd_conv)
qed

lemma subnet_map_nonneg: "subnet_map_ok c m \<Longrightarrow> map_of m k = Some v \<Longrightarrow> 0 \<le> v"
  by (auto simp: subnet_map_ok_def dest: map_of_SomeD)

lemma pick_nonneg: "subnet_map_ok c m \<Longrightarrow> 0 \<le> k \<Longrightarrow> 0 \<le> pick m key k"
  by (auto simp: pick_def dest: subnet_map_nonneg split: option.splits)

lemma parsePrefixHint_range: "parsePrefixHint err s = Inr n \<Longrightarrow> 48 \<le> n \<and> n \<le> 64"
  by (auto simp: parsePrefixHint_def Let_def split: option.splits if_splits)

text \<open>The shape of an assignment: the LAN first, then VLANs.\<close>

lemma assignment:
  assumes "subnet_map_ok c (subnets c)" "0 \<le> n"
  obtains new where "buildPrefixInterfaces c lan n =
      \<lparr>pfiName = ''lan'', pfiDevice = lan, pfiSLAID = 0\<rparr> # new"
    "subseq (map pfiName new) (map vlID (cfgVLANs c))"
    "\<forall>p \<in> set new. pfiName p \<noteq> [] \<and> pfiSLAID p \<le> 2 ^ nat n - 1 \<and> (\<exists>k \<ge> 1. pfiSLAID p = pick (subnets c) (pfiName p) k)"
    "subnets c = [] \<longrightarrow> map pfiSLAID new = map (\<lambda>i. 1 + int i) [0..<length new]"
proof -
  have l: "pick (subnets c) ''lan'' 0 = 0"
    using assms(1) by (auto simp: pick_def subnet_map_ok_def split: option.splits)
  show ?thesis
  proof (cases "n = 0")
    case True
    then show ?thesis using that [of "[]"] l by (simp add: buildPrefixInterfaces_def)
  next
    case False
    then show ?thesis
      using that add_vlans [of c "2 ^ nat n - 1" "[\<lparr>pfiName = ''lan'', pfiDevice = lan, pfiSLAID = 0\<rparr>]" 1 "cfgVLANs c"] l
      by (auto simp: buildPrefixInterfaces_def Let_def)
  qed
qed

lemma assignment_fits:
  assumes "subnet_map_ok c (subnets c)" "0 \<le> n" "p \<in> set (buildPrefixInterfaces c lan n)"
  shows "0 \<le> pfiSLAID p \<and> pfiSLAID p < 2 ^ nat n"
proof -
  obtain new where new: "buildPrefixInterfaces c lan n = \<lparr>pfiName = ''lan'', pfiDevice = lan, pfiSLAID = 0\<rparr> # new"
    "\<forall>p \<in> set new. pfiName p \<noteq> [] \<and> pfiSLAID p \<le> 2 ^ nat n - 1 \<and> (\<exists>k \<ge> 1. pfiSLAID p = pick (subnets c) (pfiName p) k)"
    using assignment [OF assms(1,2)] by metis
  consider "pfiSLAID p = 0" | "p \<in> set new" using assms(3) new(1) by auto
  then show ?thesis
  proof cases
    case 2
    then obtain k where "1 \<le> k" "pfiSLAID p = pick (subnets c) (pfiName p) k" "pfiSLAID p \<le> 2 ^ nat n - 1"
      using new(2) by blast
    then show ?thesis using pick_nonneg [OF assms(1), of k "pfiName p"] by simp
  qed simp
qed

lemma assignment_auto_distinct:
  assumes "subnet_map_ok c (subnets c)" "0 \<le> n" "subnets c = []"
  shows "distinct (map pfiSLAID (buildPrefixInterfaces c lan n))"
proof -
  obtain new where new: "buildPrefixInterfaces c lan n = \<lparr>pfiName = ''lan'', pfiDevice = lan, pfiSLAID = 0\<rparr> # new"
    "map pfiSLAID new = map (\<lambda>i. 1 + int i) [0..<length new]"
    using assignment [OF assms(1,2)] assms(3) by metis
  have eq: "map pfiSLAID (buildPrefixInterfaces c lan n) = 0 # map (\<lambda>i. 1 + int i) [0..<length new]"
    unfolding new(1) list.map new(2) by simp
  show ?thesis unfolding eq by (auto simp: distinct_map inj_on_def)
qed

text \<open>The map names the LAN and every VLAN.\<close>

definition subnets_cover :: "Config \<Rightarrow> bool" where
  "subnets_cover c \<longleftrightarrow>
     list_all (\<lambda>k. k = [] \<or> k \<in> fst ` set (subnets c)) (''lan'' # map vlID (cfgVLANs c))"

lemma assignment_map_distinct:
  assumes "subnet_map_ok c (subnets c)" "0 \<le> n" "distinct (''lan'' # map vlID (cfgVLANs c))" "subnets_cover c"
  shows "distinct (map pfiSLAID (buildPrefixInterfaces c lan n))"
proof -
  let ?ps = "buildPrefixInterfaces c lan n"
  obtain new where new: "?ps = \<lparr>pfiName = ''lan'', pfiDevice = lan, pfiSLAID = 0\<rparr> # new"
    "subseq (map pfiName new) (map vlID (cfgVLANs c))"
    "\<forall>p \<in> set new. pfiName p \<noteq> [] \<and> pfiSLAID p \<le> 2 ^ nat n - 1 \<and> (\<exists>k \<ge> 1. pfiSLAID p = pick (subnets c) (pfiName p) k)"
    using assignment [OF assms(1,2)] by metis
  have names: "distinct (map pfiName ?ps)"
    using subseq_distinct [OF _ assms(3), of "map pfiName ?ps"] new(1,2) by simp
  have "map_of (subnets c) (pfiName p) = Some (pfiSLAID p)" if "p \<in> set ?ps" for p
  proof (cases "p \<in> set new")
    case True
    then have "pfiName p \<in> set (map vlID (cfgVLANs c))" "pfiName p \<noteq> []"
      using list_emb_set [OF new(2), of "pfiName p"] new(3) by auto
    then have "pfiName p \<in> fst ` set (subnets c)" using assms(4) by (auto simp: subnets_cover_def list_all_iff)
    then obtain v where v: "map_of (subnets c) (pfiName p) = Some v" by (metis map_of_eq_None_iff not_Some_eq)
    then have "pfiSLAID p = v" using new(3) True by (auto simp: pick_def)
    then show ?thesis using v by simp
  next
    case False
    then have p: "pfiName p = ''lan''" "pfiSLAID p = 0" using that unfolding new(1) by auto
    have "''lan'' \<in> fst ` set (subnets c)" using assms(4) by (simp add: subnets_cover_def)
    then obtain v where "map_of (subnets c) ''lan'' = Some v" by (metis map_of_eq_None_iff not_Some_eq)
    then show ?thesis using p assms(1) by (simp add: subnet_map_ok_def)
  qed
  then have "inj_on pfiSLAID (set ?ps)"
    using names subnet_map_inj [OF assms(1)] by (metis (no_types, lifting) distinct_map inj_on_def)
  then show ?thesis using names by (auto simp: distinct_map)
qed

text \<open>
  With a subnet map that passed its check, every announced interface gets a sub-prefix within the
  delegation: its SLA-ID is not negative and fits in the bits between the delegated length and 64,
  and the LAN has 0. When the map is empty, or covers the LAN and all VLANs, no two interfaces share a
  sub-prefix.
\<close>

theorem sub_prefixes_fit:
  assumes "ValidateSubnetMap c (subnets c) = None" "distinct (''lan'' # map vlID (cfgVLANs c))"
    and "ip6Enabled (cfgIPv6 c) \<noteq> ''off''" "AnnouncedInterfaces err c = Inr ps"
  shows "\<exists>n. parsePrefixHint err (routedPrefixLength c) = Inr n \<and>
     (\<forall>p \<in> set ps. 0 \<le> pfiSLAID p \<and> pfiSLAID p < 2 ^ nat (64 - n)) \<and> ps \<noteq> [] \<and> pfiSLAID (hd ps) = 0 \<and>
     (subnets c = [] \<or> subnets_cover c \<longrightarrow> distinct (map pfiSLAID ps))"
proof -
  obtain wan lan n where r: "resolveInterfaces c = Inr (wan, lan)"
    and n: "parsePrefixHint err (routedPrefixLength c) = Inr n"
    and ps': "ps = buildPrefixInterfaces c lan (sla_len n)"
    using assms(3,4) by (auto simp: AnnouncedInterfaces_def split: sum.splits)
  have range: "0 \<le> 64 - n" using parsePrefixHint_range [OF n] by simp
  then have ps: "ps = buildPrefixInterfaces c lan (64 - n)" using ps' by (simp add: sla_len_def)
  have ok: "subnet_map_ok c (subnets c)" using assms(1) by (simp add: ValidateSubnetMap_ok)
  obtain new where "ps = \<lparr>pfiName = ''lan'', pfiDevice = lan, pfiSLAID = 0\<rparr> # new"
    using assignment [OF ok range, of lan] ps by metis
  then have "ps \<noteq> [] \<and> pfiSLAID (hd ps) = 0" by simp
  moreover have "\<forall>p \<in> set ps. 0 \<le> pfiSLAID p \<and> pfiSLAID p < 2 ^ nat (64 - n)"
    using assignment_fits [OF ok range] ps by blast
  moreover have "subnets c = [] \<or> subnets_cover c \<longrightarrow> distinct (map pfiSLAID ps)"
    using assignment_auto_distinct [OF ok range] assignment_map_distinct [OF ok range assms(2)] ps by blast
  ultimately show ?thesis using n by blast
qed

text \<open>A router with a LAN, two VLANs and a /56.\<close>

definition demo_iface :: "string \<Rightarrow> string \<Rightarrow> InterfaceConfig" where
  "demo_iface d r = zero_InterfaceConfig\<lparr>ifID := d, ifDevice := d, ifRole := r\<rparr>"

definition demo_vlan :: "string \<Rightarrow> goint \<Rightarrow> VLANConfig" where
  "demo_vlan i v = zero_VLANConfig\<lparr>vlID := i, vlParent := ''br0'', vlVID := v\<rparr>"

definition demo_ip6 :: "(string, goint) gomap \<Rightarrow> Config" where
  "demo_ip6 m = set_subnets m (zero_Config\<lparr>cfgInterfaces := [demo_iface ''eth0'' ''wan'', demo_iface ''br0'' ''lan''],
     cfgVLANs := [demo_vlan ''guest'' 3, demo_vlan ''iot'' 4]\<rparr>)"

lemmas demo_ip6_defs = demo_ip6_def demo_iface_def demo_vlan_def set_subnets_def map_ip6_def zero_defs

lemma demo_hint: "parsePrefixHint err (routedPrefixLength (demo_ip6 m)) = Inr 56"
proof -
  have "routedPrefixLength (demo_ip6 m) = ''/56''"
    by (simp add: routedPrefixLength_def demo_ip6_defs TrimSpace_def TrimLeft_def)
  moreover have "TrimPrefix (TrimSpace ''/56'') ''/'' = ''56''" by code_simp
  moreover have "Atoi ''56'' = Some 56" by code_simp
  ultimately show ?thesis by (simp add: parsePrefixHint_def)
qed

lemma demo_announced:
  "AnnouncedInterfaces err (demo_ip6 m) = Inr (buildPrefixInterfaces (demo_ip6 m) ''br0'' 8)"
proof -
  have "resolveInterfaces (demo_ip6 m) = Inr (''eth0'', ''br0'')"
    by (simp add: resolveInterfaces_def resolve_iface_def demo_ip6_defs)
  moreover have "ip6Enabled (cfgIPv6 (demo_ip6 m)) \<noteq> ''off''" by (simp add: demo_ip6_defs)
  ultimately show ?thesis by (simp add: AnnouncedInterfaces_def demo_hint sla_len_def)
qed

theorem sub_prefixes_fit_witness:
  "\<exists>ps. AnnouncedInterfaces (\<lambda>_. []) (demo_ip6 [(''lan'', 0), (''guest'', 7), (''iot'', 1)]) = Inr ps \<and>
     distinct (map pfiSLAID ps)"
proof -
  let ?m = "[(''lan'', 0), (''guest'', 7), (''iot'', 1)]"
  have "ValidateSubnetMap (demo_ip6 ?m) (subnets (demo_ip6 ?m)) = None"
    by (simp add: ValidateSubnetMap_def demo_ip6_defs)
  moreover have "distinct (''lan'' # map vlID (cfgVLANs (demo_ip6 ?m)))" by (simp add: demo_ip6_defs)
  moreover have "ip6Enabled (cfgIPv6 (demo_ip6 ?m)) \<noteq> ''off''" by (simp add: demo_ip6_defs)
  moreover have "subnets_cover (demo_ip6 ?m)" by (simp add: subnets_cover_def demo_ip6_defs)
  ultimately show ?thesis using sub_prefixes_fit [OF _ _ _ demo_announced] demo_announced by blast
qed

text \<open>
  A partial subnet map that passes the check can still give two interfaces the same sub-prefix: the
  automatic numbers of the VLANs it leaves out are counted from 1 without regard to the numbers it
  assigns.
\<close>

theorem partial_subnet_map_collides:
  "\<exists>c ps. ValidateSubnetMap c (subnets c) = None \<and> distinct (''lan'' # map vlID (cfgVLANs c)) \<and>
     AnnouncedInterfaces (\<lambda>_. []) c = Inr ps \<and> \<not> distinct (map pfiSLAID ps)"
proof -
  let ?c = "demo_ip6 [(''iot'', 1)]"
  have ok: "ValidateSubnetMap ?c (subnets ?c) = None" by (simp add: ValidateSubnetMap_def demo_ip6_defs)
  have d: "distinct (''lan'' # map vlID (cfgVLANs ?c))" by (simp add: demo_ip6_defs)
  have "map pfiSLAID (buildPrefixInterfaces ?c ''br0'' 8) = [0, 1, 1]"
    by (simp add: buildPrefixInterfaces_def add_vlan_def parent_dev_def pick_def demo_ip6_defs Let_def)
  then have "\<not> distinct (map pfiSLAID (buildPrefixInterfaces ?c ''br0'' 8))" by simp
  then show ?thesis using ok d demo_announced by blast
qed

section \<open>Handing lease changes on\<close>

text \<open>
  A run of the watcher: one dispatch per expiry of the timer, each with what the system answers at
  that time. Besides the final state it collects the leases the dispatches read successfully.
\<close>

fun dispatches :: "(PrefixState \<Rightarrow> unit action) option \<Rightarrow> ip6env list \<Rightarrow> watcher \<times> world \<Rightarrow>
    PrefixState list \<times> watcher \<times> world" where
  "dispatches cb [] ww = ([], ww)"
| "dispatches cb (env # envs) ww =
     (case dispatches cb envs (dispatchLeaseLocked env cb ww) of (seen, ww') \<Rightarrow>
        ((case ip6_Status env (snd ww) of (Inr st, _) \<Rightarrow> [st] | _ \<Rightarrow> []) @ seen, ww'))"

fun lease_changes :: "string \<Rightarrow> PrefixState list \<Rightarrow> PrefixState list" where
  "lease_changes h [] = []"
| "lease_changes h (s # ss) =
     (if leaseHash s = h then lease_changes h ss else s # lease_changes (leaseHash s) ss)"

lemma dispatchLeaseLocked_handed:
  "dispatchLeaseLocked env (Some fn) (v, w) = (v', w') \<Longrightarrow>
     (case ip6_Status env w of
        (Inl e, _) \<Rightarrow> v' = v
      | (Inr st, _) \<Rightarrow> lastLeaseHash v' = leaseHash st \<and>
          handed v' = handed v @ (if leaseHash st = lastLeaseHash v then [] else [st]))"
  by (auto simp: dispatchLeaseLocked_def Let_def split: prod.splits sum.splits if_splits)

lemma dispatches_handed:
  "dispatches (Some fn) envs (v, w) = (seen, v', w') \<Longrightarrow>
     handed v' = handed v @ lease_changes (lastLeaseHash v) seen"
proof (induction envs arbitrary: v w seen)
  case (Cons env envs)
  obtain v1 w1 where d: "dispatchLeaseLocked env (Some fn) (v, w) = (v1, w1)" by fastforce
  obtain seen1 where rest: "dispatches (Some fn) envs (v1, w1) = (seen1, v', w')"
    and seen: "seen = (case ip6_Status env w of (Inr st, _) \<Rightarrow> [st] | _ \<Rightarrow> []) @ seen1"
    using Cons.prems d by (auto split: prod.splits)
  note IH = Cons.IH [OF rest]
  show ?case
  proof (cases "fst (ip6_Status env w)")
    case (Inl e)
    then have "v1 = v" "seen = seen1" using dispatchLeaseLocked_handed [OF d] seen by (auto split: prod.splits)
    then show ?thesis using IH by simp
  next
    case (Inr st)
    then have "lastLeaseHash v1 = leaseHash st"
      "handed v1 = handed v @ (if leaseHash st = lastLeaseHash v then [] else [st])" "seen = st # seen1"
      using dispatchLeaseLocked_handed [OF d] seen by (auto split: prod.splits)
    then show ?thesis using IH by simp
  qed
qed simp

lemma leaseHash_not_Nil: "leaseHash s \<noteq> []"
  by (simp add: leaseHash_def)

lemma lease_changes_remdups:
  "map leaseHash (lease_changes h ss) =
     (let hs = remdups_adj (map leaseHash ss) in if hs \<noteq> [] \<and> hd hs = h then tl hs else hs)"
proof (induction h ss rule: lease_changes.induct)
  case (2 h s ss)
  show ?case using 2 by (cases ss) (auto simp: Let_def)
qed simp

text \<open>
  C17. The callback is called exactly when the lease changes: over any run of the watcher, the leases
  handed on are the leases read, with runs of equal digests reduced to their first one. Reads that
  fail are passed over, and what the callback and the refresh of the advertisements do has no
  influence.
\<close>

theorem lease_changes_handed_on:
  assumes "dispatches (Some fn) envs (\<lparr>lastLeaseHash = [], handed = []\<rparr>, w) = (seen, v', w')"
  shows "map leaseHash (handed v') = remdups_adj (map leaseHash seen)"
proof -
  have "hd (remdups_adj (map leaseHash seen)) \<noteq> []" if "seen \<noteq> []"
    using that leaseHash_not_Nil by (cases seen) auto
  then show ?thesis using dispatches_handed [OF assms] by (auto simp: lease_changes_remdups Let_def)
qed

text \<open>A state file that is first missing, then holds a lease twice, then is unreadable.\<close>

definition demo_lease :: PrefixState where
  "demo_lease = zero_PrefixState\<lparr>psPrefix := ''2001:db8::'', psReason := ''REPLY''\<rparr>"

definition lease_env :: "error + string \<Rightarrow> ip6env" where
  "lease_env r = \<lparr>i6Sys = calm_env\<lparr>seAnswer := (\<lambda>_ c. case c of CReadFile _ \<Rightarrow> r | _ \<Rightarrow> Inr [])\<rparr>,
     i6Conf = (\<lambda>_. Inr []), i6Script = (\<lambda>_. Inr []), i6RA = (\<lambda>_. Inr []),
     i6JSON = (\<lambda>_. Inr demo_lease), i6Rand = Inl ''none'', i6NotExist = (\<lambda>e. e = ''ENOENT''),
     i6AtoiErr = (\<lambda>_. []), i6StatePath = ipv6StatePath\<rparr>"

theorem lease_changes_handed_on_witness:
  "\<exists>seen v' w'. dispatches (Some (\<lambda>_. io_return ()))
      [lease_env (Inl ''ENOENT''), lease_env (Inr ''{}''), lease_env (Inr ''{}''), lease_env (Inl ''EIO'')]
      (\<lparr>lastLeaseHash = [], handed = []\<rparr>, \<lparr>wStore = \<lparr>cfg = demo_ip6 [], disk = Map.empty\<rparr>, wTrace = []\<rparr>) = (seen, v', w') \<and>
     seen = [zero_PrefixState, demo_lease, demo_lease] \<and>
     map leaseHash (handed v') = map leaseHash [zero_PrefixState, demo_lease]"
proof -
  let ?envs = "[lease_env (Inl ''ENOENT''), lease_env (Inr ''{}''), lease_env (Inr ''{}''), lease_env (Inl ''EIO'')]"
  let ?ww = "(\<lparr>lastLeaseHash = [], handed = []\<rparr>, \<lparr>wStore = \<lparr>cfg = demo_ip6 [], disk = Map.empty\<rparr>, wTrace = []\<rparr>)"
  obtain seen v' w' where run: "dispatches (Some (\<lambda>_. io_return ())) ?envs ?ww = (seen, v', w')"
    by (metis prod_cases3)
  have ts: "TrimSpace ''{}'' = ''{}''" by code_simp
  have status: "(case ip6_Status (lease_env (Inl ''ENOENT'')) w of (Inr st, _) \<Rightarrow> [st] | _ \<Rightarrow> []) = [zero_PrefixState]"
    "(case ip6_Status (lease_env (Inr ''{}'')) w of (Inr st, _) \<Rightarrow> [st] | _ \<Rightarrow> []) = [demo_lease]"
    "(case ip6_Status (lease_env (Inl ''EIO'')) w of (Inr st, _) \<Rightarrow> [st] | _ \<Rightarrow> []) = []" for w
    by (simp_all add: ip6_Status_def lease_env_def sys_def ts calm_env_def)
  have "seen = [zero_PrefixState, demo_lease, demo_lease]"
    using run by (simp only: dispatches.simps status) (simp split: prod.splits)
  moreover have "leaseHash zero_PrefixState \<noteq> leaseHash demo_lease"
    by (simp add: leaseHash_def zero_PrefixState_def demo_lease_def)
  ultimately show ?thesis using lease_changes_handed_on [OF run] run by auto
qed

section \<open>Debouncing\<close>

definition relevant :: "string \<Rightarrow> fsevent \<Rightarrow> bool" where
  "relevant stateName ev \<longleftrightarrow> path_Base (evName ev) = stateName \<and> evRelevantOp ev"

text \<open>Of the instants of relevant events, those that no other follows within 150 ms.\<close>

fun quiet_after :: "gotime list \<Rightarrow> gotime list" where
  "quiet_after [] = []"
| "quiet_after [t] = [t]"
| "quiet_after (t # u # ts) = (if t + debounce \<le> u then t # quiet_after (u # ts) else quiet_after (u # ts))"

lemma watch_loop_quiet:
  assumes "sorted (map evAt evs)"
  shows "watch_loop n timer evs =
    (case timer of
       None \<Rightarrow> map (\<lambda>t. t + debounce) (quiet_after (map evAt (filter (relevant n) evs)))
     | Some d \<Rightarrow> map (\<lambda>t. t + debounce) (quiet_after ((d - debounce) # map evAt (filter (relevant n) evs))))"
  using assms
proof (induction n timer evs rule: watch_loop.induct)
  case (2 n timer ev rest)
  have s: "sorted (map evAt rest)" and le: "\<forall>e \<in> set rest. evAt ev \<le> evAt e" using "2.prems" by auto
  show ?case
  proof (cases "relevant n ev")
    case True
    then show ?thesis using "2.IH" [OF refl refl refl s]
      by (auto simp: relevant_def Let_def split: option.splits)
  next
    case False
    show ?thesis
    proof (cases "map evAt (filter (relevant n) rest)")
      case Nil
      then show ?thesis using False "2.IH" [OF refl refl refl s]
        by (auto simp: relevant_def Let_def split: option.splits)
    next
      case (Cons t ts)
      then obtain e where "e \<in> set (filter (relevant n) rest)" "evAt e = t" by (metis list.set_intros(1) list.set_map imageE)
      then have "evAt ev \<le> t" using le by auto
      then show ?thesis using False Cons "2.IH" [OF refl refl refl s]
        by (auto simp: relevant_def Let_def split: option.splits)
    qed
  qed
qed (auto split: option.splits)

section \<open>Starting the watcher\<close>

text \<open>
  A start that fails is not undone: until the watcher is stopped, every later start reports success
  and starts nothing.
\<close>

lemma failed_start_sticks:
  assumes "\<not> watcherStop s" "\<not> watcherRuns s" "StartLeaseWatcher a b c path s = (Some e, s')"
  shows "StartLeaseWatcher a' b' c' path' s' = (None, s') \<and> \<not> watcherRuns s' \<and>
    fst (StartLeaseWatcher None None None path' (StopLeaseWatcher s')) = None"
  using assms by (auto simp: StartLeaseWatcher_def StopLeaseWatcher_def Let_def split: option.splits)

text \<open>A lease in use has not reached its deadline, and one that was released is not in use.\<close>

lemma Active_iff:
  assumes "0 < psValidLifetime p" "psValidLifetime p * 1000000000 \<le> max_int64" "psTimestamp p \<noteq> 0"
  shows "Active now p \<longleftrightarrow> psPrefix p \<noteq> [] \<and> psReason p \<notin> {''RELEASE'', ''EXIT''} \<and>
     now \<le> nanos (psTimestamp p + psValidLifetime p)"
proof -
  have "in_int64 (psValidLifetime p * 1000000000)"
    using assms by (simp add: in_int64_def max_int64_def min_int64_def)
  then show ?thesis using assms by (auto simp: Active_def Expired_def lease_deadline_def nanos_def)
qed

end
