(* ===== verification/PPPoE.thy ===== *)
theory PPPoE
  imports IPv6 Files
begin

text \<open>
  The PPPoE service (\<open>services/pppoe.go\<close>), the 6in4 tunnel with its dynamic-DNS client
  (\<open>services/sixinfour.go\<close>), and the callbacks that join them to the IPv6 service (\<open>web/server.go\<close>).
  Templates, interface addresses, HTTP and the JSON of the tunnel's state file are parameters.
\<close>

section \<open>PPPoE\<close>

record peerTemplateData =
  ptWANDevice :: string
  ptUsername :: string
  ptMTU :: goint
  ptMRU :: goint
  ptLCPEchoInterval :: goint
  ptLCPEchoFailure :: goint
  ptHoldoff :: goint
  ptIPv6CP :: bool

record PPPoEStatus =
  psConnected :: bool
  psInterface :: string
  psLocalIP :: string
  psLocalIPv6 :: string
  psPID :: goint

text \<open>A signal as the interface value passed to \<open>Process.Signal\<close>: nil, or a number of the system.\<close>

record pppenv =
  ppSys :: sysenv
  ppAddrs :: "syscall list \<Rightarrow> string \<Rightarrow> error + string list"
  ppPeerTemplate :: "error + (peerTemplateData \<Rightarrow> error + string)"
  ppKill :: "syscall list \<Rightarrow> goint \<Rightarrow> nat \<Rightarrow> error option"

definition or_default :: "goint \<Rightarrow> goint \<Rightarrow> goint" where
  "or_default d n = (if n = 0 then d else n)"

definition wan_device :: "Config \<Rightarrow> string" where
  "wan_device c = (case find (\<lambda>i. ifRole i = ''wan'') (cfgInterfaces c) of Some i \<Rightarrow> ifDevice i | None \<Rightarrow> [])"

definition peer_data :: "Config \<Rightarrow> string \<Rightarrow> peerTemplateData" where
  "peer_data c wanDevice =
     (let p = cfgPPPoE c in
      \<lparr>ptWANDevice = wanDevice, ptUsername = ppUsername p, ptMTU = or_default 1492 (ppMTU p),
       ptMRU = or_default 1492 (ppMRU p), ptLCPEchoInterval = or_default 10 (ppLCPEchoInterval p),
       ptLCPEchoFailure = or_default 3 (ppLCPEchoFailure p), ptHoldoff = or_default 5 (ppHoldoff p),
       ptIPv6CP = ppIPv6CP p\<rparr>)"

text \<open>The content is that of a failed read when reading fails: none.\<close>

definition appendToFile :: "sysenv \<Rightarrow> string \<Rightarrow> string \<Rightarrow> unit action" where
  "appendToFile env p line w =
     (case sys env (CReadFile p) w of (r, w1) \<Rightarrow>
       (let existing = (case r of Inl e \<Rightarrow> [] | Inr x \<Rightarrow> x) in
        if Contains existing (TrimSpace line) then (Inr (), w1)
        else io_bind (sys env (CWriteFile p (existing @ line) 384)) (\<lambda>_. io_return ()) w1))"

definition secrets_line :: "PPPoEConfig \<Rightarrow> string" where
  "secrets_line p = quote_q (ppUsername p) @ '' * '' @ quote_q (ppPassword p) @ nl"

definition renderConfig :: "pppenv \<Rightarrow> unit action" where
  "renderConfig env w =
     (let c = wcfg w; wanDevice = wan_device c; sysE = ppSys env in
      if wanDevice = [] then (Inl ''no WAN interface configured'', w)
      else io_then (io_wrap ''mkdir /etc/ppp/peers: '' (sys sysE (CMkdirAll ''/etc/ppp/peers'' 493)))
       (io_then (\<lambda>w1. case sys sysE (COsReadFile ''configs/sysconf/pppoe-options.tmpl'') w1 of
            (Inl e, w2) \<Rightarrow> (Inr (), w2)
          | (Inr optSrc, w2) \<Rightarrow>
              io_bind (io_wrap ''write /etc/ppp/options: '' (sys sysE (CWriteFile ''/etc/ppp/options'' optSrc 420))) (\<lambda>_. io_return ()) w2)
        (io_bind (io_wrap ''parse peer template: '' (io_lift (ppPeerTemplate env))) (\<lambda>tmpl.
         io_bind (io_wrap ''execute peer template: '' (io_lift (tmpl (peer_data c wanDevice)))) (\<lambda>buf.
         io_then (io_wrap ''write peer file: '' (sys sysE (CWriteFile ''/etc/ppp/peers/wan'' buf 420)))
          (if ppPassword (cfgPPPoE c) \<noteq> []
           then io_then (io_wrap ''write chap-secrets: '' (appendToFile sysE ''/etc/ppp/chap-secrets'' (secrets_line (cfgPPPoE c))))
                        (io_wrap ''write pap-secrets: '' (appendToFile sysE ''/etc/ppp/pap-secrets'' (secrets_line (cfgPPPoE c))))
           else io_return ()))))) w)"

definition readPID :: "pppenv \<Rightarrow> goint action" where
  "readPID env =
     io_bind (sys (ppSys env) (COsReadFile ''/var/run/ppp0.pid'')) (\<lambda>data.
       (case Atoi (TrimSpace (Split (TrimSpace data) (CHR 0x0A) ! 0)) of
          None \<Rightarrow> io_fail ''parse pid: invalid syntax''
        | Some pid \<Rightarrow> io_return pid))"

text \<open>\<open>Process.Signal\<close> refuses a value that is no \<open>syscall.Signal\<close>, and nil is none.\<close>

definition process_Signal :: "pppenv \<Rightarrow> syscall list \<Rightarrow> goint \<Rightarrow> nat option \<Rightarrow> error option" where
  "process_Signal env tr pid sig =
     (case sig of None \<Rightarrow> Some ''os: unsupported signal type'' | Some s \<Rightarrow> ppKill env tr pid s)"

definition processExists :: "pppenv \<Rightarrow> syscall list \<Rightarrow> goint \<Rightarrow> bool" where
  "processExists env tr pid \<longleftrightarrow> process_Signal env tr pid None = None"

definition scan_addr :: "PPPoEStatus \<Rightarrow> string \<Rightarrow> PPPoEStatus" where
  "scan_addr st addr =
     (if Contains addr ''.'' \<and> psLocalIP st = [] then st\<lparr>psLocalIP := SplitN2 addr (CHR ''/'') ! 0\<rparr>
      else if Contains addr '':'' \<and> \<not> HasPrefix addr ''fe80'' \<and> psLocalIPv6 st = []
      then st\<lparr>psLocalIPv6 := SplitN2 addr (CHR ''/'') ! 0\<rparr> else st)"

definition down_status :: PPPoEStatus where
  "down_status = \<lparr>psConnected = False, psInterface = [], psLocalIP = [], psLocalIPv6 = [], psPID = 0\<rparr>"

text \<open>The flag \<open>connected\<close> is the service's own state.\<close>

definition ppp_Status :: "pppenv \<Rightarrow> bool \<times> world \<Rightarrow> PPPoEStatus \<times> bool \<times> world" where
  "ppp_Status env cw = (case cw of (connected, w) \<Rightarrow>
     (case readPID env w of
        (Inl e, w1) \<Rightarrow> (down_status, connected, w1)
      | (Inr pid, w1) \<Rightarrow>
          if pid = 0 \<or> \<not> processExists env (wTrace w1) pid then (down_status, connected, w1)
          else (let st0 = \<lparr>psConnected = True, psInterface = ''ppp0'', psLocalIP = [], psLocalIPv6 = [], psPID = pid\<rparr>;
                    st = (case ppAddrs env (wTrace w1) ''ppp0'' of Inl e \<Rightarrow> st0 | Inr addrs \<Rightarrow> foldl scan_addr st0 addrs)
                in (st, True, w1))))"

text \<open>
  A callback set by \<open>SetOnConnect\<close> or \<open>SetOnDisconnect\<close> works on the service's flag, the state of the
  services it calls, and the world. Its error is logged.
\<close>

type_synonym 's hook = "bool \<times> 's \<times> world \<Rightarrow> error option \<times> bool \<times> 's \<times> world"

definition run_hook :: "'s hook option \<Rightarrow> bool \<times> 's \<times> world \<Rightarrow> bool \<times> 's \<times> world" where
  "run_hook h st = (case h of None \<Rightarrow> st | Some f \<Rightarrow> snd (f st))"

definition ppp_Connect :: "pppenv \<Rightarrow> 's hook option \<Rightarrow> bool \<times> 's \<times> world \<Rightarrow> error option \<times> bool \<times> 's \<times> world" where
  "ppp_Connect env onConnect st = (case st of (connected, x, w) \<Rightarrow>
     (case io_then (io_wrap ''render pppoe config: '' (renderConfig env))
             (io_wrap ''start pppd: '' (sys (ppSys env) (CRun ''pppd'' [''call'', ''wan'']))) w of
        (Inl e, w1) \<Rightarrow> (Some e, connected, x, w1)
      | (Inr _, w1) \<Rightarrow> (None, run_hook onConnect (True, x, w1))))"

definition ppp_Disconnect :: "pppenv \<Rightarrow> 's hook option \<Rightarrow> bool \<times> 's \<times> world \<Rightarrow> error option \<times> bool \<times> 's \<times> world" where
  "ppp_Disconnect env onDisconnect st = (case st of (connected, x, w) \<Rightarrow>
     (case io_bind (io_wrap ''read pppd pid: '' (readPID env)) (\<lambda>pid.
             if pid > 0 then io_bind (io_wrap ''kill pppd: '' (sys (ppSys env) (CRun ''kill'' [Itoa pid]))) (\<lambda>_. io_return ())
             else io_return ()) w of
        (Inl e, w1) \<Rightarrow> (Some e, connected, x, w1)
      | (Inr _, w1) \<Rightarrow> (None, run_hook onDisconnect (False, x, w1))))"

subsection \<open>Capturing credentials\<close>

definition SniffStart :: "pppenv \<Rightarrow> unit action" where
  "SniffStart env w =
     (let wanDevice = wan_device (wcfg w); sysE = ppSys env in
      if wanDevice = [] then (Inl ''no WAN interface configured'', w)
      else io_bind (io_wrap ''read pppoe-server-options: '' (sys sysE (COsReadFile ''configs/sysconf/pppoe-server-options.tmpl'')))
       (\<lambda>optSrc. io_then (io_wrap ''mkdir /etc/ppp: '' (sys sysE (CMkdirAll ''/etc/ppp'' 493)))
         (io_then (io_wrap ''write pppoe-server-options: '' (sys sysE (CWriteFile ''/etc/pppoe-server-options'' optSrc 420)))
          (io_then (io_ignore (sys sysE (COsRemove ''/var/log/pppoe-sniff.log'')))
           (io_bind (io_wrap ''start pppoe-server: '' (sys sysE
              (CRun ''pppoe-server'' [''-I'', wanDevice, ''-O'', ''/etc/pppoe-server-options'', ''-F''])))
            (\<lambda>_. io_return ()))))) w)"

definition SniffStop :: "pppenv \<Rightarrow> unit action" where
  "SniffStop env = io_ignore (sys (ppSys env) (CRun ''pkill'' [''-f'', ''pppoe-server'']))"

text \<open>\<open>strings.Trim\<close> of double quotes.\<close>

definition trim_quotes :: "string \<Rightarrow> string" where
  "trim_quotes s = rev (dropWhile (\<lambda>c. c = CHR 0x22) (rev (dropWhile (\<lambda>c. c = CHR 0x22) s)))"

definition last_field :: "string \<Rightarrow> string \<Rightarrow> string \<Rightarrow> string" where
  "last_field key old line =
     foldl (\<lambda>acc part. if HasPrefix part key then trim_quotes (TrimPrefix part key) else acc) old (Fields line)"

record SniffStatus =
  snActive :: bool
  snCapturedUser :: string
  snCapturedPass :: string

definition scan_sniff_line :: "SniffStatus \<Rightarrow> string \<Rightarrow> SniffStatus" where
  "scan_sniff_line st line =
     (let st1 = (if Contains line ''user='' then st\<lparr>snCapturedUser := last_field ''user='' (snCapturedUser st) line\<rparr> else st)
      in if Contains line ''PAP'' \<and> Contains line ''password''
         then st1\<lparr>snCapturedPass := last_field ''password='' (snCapturedPass st1) line\<rparr> else st1)"

definition SniffStatus_of :: "pppenv \<Rightarrow> SniffStatus action" where
  "SniffStatus_of env w =
     (case sys (ppSys env) (CRun ''pgrep'' [''-f'', ''pppoe-server'']) w of (r, w1) \<Rightarrow>
       (let st = \<lparr>snActive = (\<not> isl r), snCapturedUser = [], snCapturedPass = []\<rparr> in
        case sys (ppSys env) (COsReadFile ''/var/log/pppoe-sniff.log'') w1 of
          (Inl e, w2) \<Rightarrow> (Inr st, w2)
        | (Inr logData, w2) \<Rightarrow> (Inr (foldl scan_sniff_line st (Split logData (CHR 0x0A))), w2)))"

section \<open>The 6in4 tunnel\<close>

record TunnelStatus =
  tsActive :: bool
  tsDevice :: string
  tsServerIPv4 :: string
  tsClientIPv6 :: string
  tsRoutedPrefix :: string
  tsMTU :: goint
  tsLocalIPv4 :: string
  tsLastApplied :: gotime
  tsLastDDNS :: string
  tsLastDDNSTime :: gotime
  tsRxBytes :: nat
  tsTxBytes :: nat

definition zero_TunnelStatus :: TunnelStatus where
  "zero_TunnelStatus = \<lparr>tsActive = False, tsDevice = [], tsServerIPv4 = [], tsClientIPv6 = [], tsRoutedPrefix = [],
     tsMTU = 0, tsLocalIPv4 = [], tsLastApplied = 0, tsLastDDNS = [], tsLastDDNSTime = 0, tsRxBytes = 0, tsTxBytes = 0\<rparr>"

text \<open>The requests sent to the tunnel broker so far are kept with the service's two fields.\<close>

record SixInFour =
  siRunning :: bool
  siLastIPv4 :: string
  siSent :: "string list"

record sixenv =
  sxSys :: sysenv
  sxAddrs :: "syscall list \<Rightarrow> string \<Rightarrow> error + string list"
  sxHttp :: "syscall list \<Rightarrow> string \<Rightarrow> error + string"
  sxEncode :: "TunnelStatus \<Rightarrow> string"
  sxDecode :: "string \<Rightarrow> TunnelStatus"
  sxCounters :: "string \<Rightarrow> (nat \<times> nat) option"
  sxNow :: gotime

definition tunnel :: "Config \<Rightarrow> IPv6TunnelConfig" where
  "tunnel c = ip6Tunnel (cfgIPv6 c)"

definition six_device :: "Config \<Rightarrow> string" where
  "six_device c = (if TrimSpace (tunDevice (tunnel c)) \<noteq> [] then TrimSpace (tunDevice (tunnel c)) else ''lkt6in4'')"

definition effectiveMTU :: "Config \<Rightarrow> goint" where
  "effectiveMTU c = (if ppUsername (cfgPPPoE c) \<noteq> [] then 1452 else 1480)"

definition six_validate :: "Config \<Rightarrow> error option" where
  "six_validate c =
     (if tunServerIPv4 (tunnel c) = [] then Some ''6in4: ServerIPv4 not configured''
      else if tunClientIPv6 (tunnel c) = [] then Some ''6in4: ClientIPv6 not configured''
      else if tunRoutedPrefix (tunnel c) = [] then Some ''6in4: RoutedPrefix not configured''
      else None)"

definition localIPv4 :: "sixenv \<Rightarrow> string action" where
  "localIPv4 env w =
     (let c = wcfg w;
          dev = (if ppUsername (cfgPPPoE c) = []
                 then (case find (\<lambda>i. ifRole i = ''wan'') (cfgInterfaces c) of Some i \<Rightarrow> ifDevice i | None \<Rightarrow> ''ppp0'')
                 else ''ppp0'')
      in case sxAddrs env (wTrace w) dev of
           Inl e \<Rightarrow> (Inl (''read '' @ dev @ '' addresses: '' @ e), w)
         | Inr addrs \<Rightarrow>
             (case find (\<lambda>a. \<not> Contains a '':'' \<and> Contains a ''.'') addrs of
                Some a \<Rightarrow> (Inr (SplitN2 a (CHR ''/'') ! 0), w)
              | None \<Rightarrow> (Inl (''no IPv4 address on '' @ dev), w)))"

definition six_statePath :: string where "six_statePath = ''/var/lib/lankeeper/state/ipv6-tunnel.json''"

definition persistState :: "sixenv \<Rightarrow> TunnelStatus \<Rightarrow> unit action" where
  "persistState env st = io_bind (sys (sxSys env) (CWriteFile six_statePath (sxEncode env st) 420)) (\<lambda>_. io_return ())"

definition six_ip :: "sixenv \<Rightarrow> string \<Rightarrow> string list \<Rightarrow> string action" where
  "six_ip env pre as = io_wrap pre (sys (sxSys env) (CRun ''ip'' as))"

definition bring_up :: "sixenv \<Rightarrow> Config \<Rightarrow> string \<Rightarrow> string action" where
  "bring_up env c localV4 =
     (let dev = six_device c in
      io_then (io_ignore (sys (sxSys env) (CRun ''ip'' [''tunnel'', ''del'', dev])))
       (io_then (six_ip env ''ip tunnel add: '' [''tunnel'', ''add'', dev, ''mode'', ''sit'', ''remote'', tunServerIPv4 (tunnel c),
            ''local'', localV4, ''ttl'', ''255''])
        (io_then (six_ip env ''ip link set up: '' [''link'', ''set'', dev, ''up'', ''mtu'', Itoa (effectiveMTU c)])
         (io_then (six_ip env ''ip addr add: '' [''addr'', ''add'', tunClientIPv6 (tunnel c), ''dev'', dev])
          (six_ip env ''ip -6 route add: '' [''-6'', ''route'', ''add'', ''::/0'', ''dev'', dev])))))"

definition six_Start :: "sixenv \<Rightarrow> SixInFour \<times> world \<Rightarrow> error option \<times> SixInFour \<times> world" where
  "six_Start env sw = (case sw of (s, w) \<Rightarrow>
     (let c = wcfg w in
      case six_validate c of
        Some e \<Rightarrow> (Some e, s, w)
      | None \<Rightarrow>
          (case localIPv4 env w of
             (Inl e, w1) \<Rightarrow> (Some e, s, w1)
           | (Inr localV4, w1) \<Rightarrow>
               (case bring_up env c localV4 w1 of
                  (Inl e, w2) \<Rightarrow> (Some e, s, w2)
                | (Inr _, w2) \<Rightarrow>
                    (None, s\<lparr>siRunning := True\<rparr>, snd (persistState env (zero_TunnelStatus\<lparr>tsActive := True, tsDevice := six_device c,
                       tsServerIPv4 := tunServerIPv4 (tunnel c), tsClientIPv6 := tunClientIPv6 (tunnel c),
                       tsRoutedPrefix := tunRoutedPrefix (tunnel c), tsMTU := effectiveMTU c, tsLocalIPv4 := localV4,
                       tsLastApplied := sxNow env\<rparr>) w2))))))"

definition six_Stop :: "sixenv \<Rightarrow> SixInFour \<times> world \<Rightarrow> SixInFour \<times> world" where
  "six_Stop env sw = (case sw of (s, w) \<Rightarrow>
     (let dev = six_device (wcfg w) in
      (s\<lparr>siRunning := False\<rparr>,
       snd (io_then (io_ignore (sys (sxSys env) (CRun ''ip'' [''-6'', ''route'', ''del'', ''::/0'', ''dev'', dev])))
         (io_then (io_ignore (sys (sxSys env) (CRun ''ip'' [''link'', ''set'', dev, ''down''])))
          (io_then (io_ignore (sys (sxSys env) (CRun ''ip'' [''tunnel'', ''del'', dev])))
           (io_ignore (persistState env (zero_TunnelStatus\<lparr>tsDevice := dev\<rparr>))))) w))))"

definition six_Restart :: "sixenv \<Rightarrow> SixInFour \<times> world \<Rightarrow> error option \<times> SixInFour \<times> world" where
  "six_Restart env sw = six_Start env (six_Stop env sw)"

definition six_Status :: "sixenv \<Rightarrow> TunnelStatus action" where
  "six_Status env w =
     (case sys (sxSys env) (CReadFile six_statePath) w of (r, w1) \<Rightarrow>
       (let st0 = (case r of Inl e \<Rightarrow> zero_TunnelStatus | Inr raw \<Rightarrow> if raw = [] then zero_TunnelStatus else sxDecode env raw);
            st1 = (if tsDevice st0 = [] then st0\<lparr>tsDevice := six_device (wcfg w)\<rparr> else st0);
            st2 = (if tsRoutedPrefix st1 = [] then st1\<lparr>tsRoutedPrefix := tunRoutedPrefix (tunnel (wcfg w))\<rparr> else st1)
        in case sys (sxSys env) (CRun ''ip'' [''-s'', ''-j'', ''link'', ''show'', tsDevice st2]) w1 of
             (Inl e, w2) \<Rightarrow> (Inr st2, w2)
           | (Inr out, w2) \<Rightarrow>
               (case (if out = [] then None else sxCounters env out) of
                  None \<Rightarrow> (Inr st2, w2)
                | Some (rx, tx) \<Rightarrow> (Inr (st2\<lparr>tsRxBytes := rx, tsTxBytes := tx\<rparr>), w2))))"

record DDNSResult =
  ddCode :: string
  ddIP :: string
  ddRaw :: string

definition parseDDNSResponse :: "string \<Rightarrow> DDNSResult" where
  "parseDDNSResponse body0 =
     (let body = TrimSpace body0; fs = Fields body in
      if body = [] then \<lparr>ddCode = [], ddIP = [], ddRaw = body\<rparr>
      else \<lparr>ddCode = fs ! 0, ddIP = (if length fs > 1 then fs ! 1 else []), ddRaw = body\<rparr>)"

definition accepted_code :: "string \<Rightarrow> bool" where
  "accepted_code code \<longleftrightarrow> code = ''good'' \<or> code = ''nochg''"

definition UpdateRemoteIPv4 ::
    "sixenv \<Rightarrow> string \<Rightarrow> SixInFour \<times> world \<Rightarrow> (error + DDNSResult) \<times> SixInFour \<times> world" where
  "UpdateRemoteIPv4 env currentIPv4 sw = (case sw of (s, w) \<Rightarrow>
     if currentIPv4 = [] then (Inl ''UpdateRemoteIPv4: empty IPv4'', s, w)
     else if currentIPv4 = siLastIPv4 s then (Inr \<lparr>ddCode = ''nochg'', ddIP = currentIPv4, ddRaw = ''dedup''\<rparr>, s, w)
     else (let t = tunnel (wcfg w) in
       if tunTunnelID t = [] \<or> tunUsername t = [] \<or> tunUpdateKey t = []
       then (Inl ''UpdateRemoteIPv4: TunnelID/Username/UpdateKey not configured'', s, w)
       else (let s1 = s\<lparr>siSent := siSent s @ [currentIPv4]\<rparr> in
         case sxHttp env (wTrace w) currentIPv4 of
           Inl e \<Rightarrow> (Inl (''nic/update: '' @ e), s1, w)
         | Inr body \<Rightarrow>
             (let res = parseDDNSResponse body;
                  s2 = (if accepted_code (ddCode res) then s1\<lparr>siLastIPv4 := currentIPv4\<rparr> else s1)
              in case six_Status env w of
                   (Inl e, w1) \<Rightarrow> (Inr res, s2, w1)
                 | (Inr st, w1) \<Rightarrow>
                     (Inr res, s2, if tsDevice st \<noteq> []
                        then snd (persistState env (st\<lparr>tsLastDDNS := ddCode res, tsLastDDNSTime := sxNow env\<rparr>) w1) else w1)))))"

section \<open>The callbacks\<close>

text \<open>What \<open>NewServer\<close> passes to \<open>SetOnConnect\<close> and \<open>SetOnDisconnect\<close>.\<close>

definition lift_action :: "unit action \<Rightarrow> bool \<times> SixInFour \<times> world \<Rightarrow> error option \<times> bool \<times> SixInFour \<times> world" where
  "lift_action m st = (case st of (con, s, w) \<Rightarrow> (case m w of
       (Inl e, w') \<Rightarrow> (Some e, con, s, w')
     | (Inr _, w') \<Rightarrow> (None, con, s, w')))"

definition onConnect :: "pppenv \<Rightarrow> sixenv \<Rightarrow> ip6env \<Rightarrow> SixInFour hook" where
  "onConnect pe se ie st = (case st of (con, s, w) \<Rightarrow>
     if ip6Mode (cfgIPv6 (wcfg w)) = ''6in4'' then
       (case ppp_Status pe (con, w) of (ps, con1, w1) \<Rightarrow>
         (let (s2, w2) = (if psLocalIP ps \<noteq> [] \<and> tunAutoUpdate (tunnel (wcfg w1))
                          then snd (UpdateRemoteIPv4 se (psLocalIP ps) (s, w1)) else (s, w1))
          in case six_Restart se (s2, w2) of
               (Some e, s3, w3) \<Rightarrow> (Some (''6in4 restart on connect: '' @ e), con1, s3, w3)
             | (None, s3, w3) \<Rightarrow> lift_action (ip6_ApplyConfig ie) (con1, s3, w3)))
     else lift_action (ip6_Restart ie) st)"

definition onDisconnect :: "sixenv \<Rightarrow> ip6env \<Rightarrow> SixInFour hook" where
  "onDisconnect se ie st = (case st of (con, s, w) \<Rightarrow>
     if ip6Mode (cfgIPv6 (wcfg w)) = ''6in4''
     then (case six_Stop se (s, w) of (s1, w1) \<Rightarrow> (None, con, s1, w1))
     else lift_action (ip6_Stop ie) st)"

section \<open>The link is always reported down\<close>

lemma processExists_never: "\<not> processExists env tr pid"
  by (simp add: processExists_def process_Signal_def)

lemma ppp_Status_down: "fst (ppp_Status env (con, w)) = down_status" "fst (snd (ppp_Status env (con, w))) = con"
  by (auto simp: ppp_Status_def processExists_never split: prod.splits sum.splits)

lemma six_Stop_sent: "six_Stop env (s, w) = (s1, w1) \<Longrightarrow> siSent s1 = siSent s \<and> siLastIPv4 s1 = siLastIPv4 s"
  by (auto simp: six_Stop_def Let_def)

lemma six_Start_sent: "six_Start env (s, w) = (r, s1, w1) \<Longrightarrow> siSent s1 = siSent s \<and> siLastIPv4 s1 = siLastIPv4 s"
  by (auto simp: six_Start_def Let_def split: option.splits prod.splits sum.splits)

lemma six_Restart_sent:
  assumes "six_Restart env (s, w) = (r, s1, w1)"
  shows "siSent s1 = siSent s"
proof -
  obtain s0 w0 where stop: "six_Stop env (s, w) = (s0, w0)" by fastforce
  show ?thesis using assms six_Start_sent [of env s0 w0 r s1 w1] six_Stop_sent [OF stop]
    unfolding six_Restart_def stop by simp
qed

lemma lift_action_sent: "lift_action m (con, s, w) = (r, con', s', w') \<Longrightarrow> s' = s"
  by (auto simp: lift_action_def split: prod.splits sum.splits)

text \<open>
  The status of the PPPoE link is always that of a link that is down, whether or not pppd runs: probing
  the process with a nil signal always fails. So the callback run after a successful connection never
  tells the tunnel broker about the new address, even with automatic updates on.
\<close>

theorem reconnect_never_updates_broker:
  assumes "ppp_Connect pe (Some (onConnect pe se ie)) (con, s, w) = (r, con', s', w')"
  shows "fst (ppp_Status pe (con', w')) = down_status \<and> siSent s' = siSent s"
proof (cases r)
  case (Some e)
  then have "s' = s" using assms by (auto simp: ppp_Connect_def split: prod.splits sum.splits)
  then show ?thesis by (simp add: ppp_Status_down)
next
  case None
  then obtain w1 where hook: "snd (onConnect pe se ie (True, s, w1)) = (con', s', w')"
    using assms by (auto simp: ppp_Connect_def run_hook_def split: prod.splits sum.splits)
  have "siSent s' = siSent s"
  proof (cases "ip6Mode (cfgIPv6 (wcfg w1)) = ''6in4''")
    case True
    obtain con1 w2 where ps: "ppp_Status pe (True, w1) = (down_status, con1, w2)"
      using ppp_Status_down(1) [of pe True w1] by (metis prod.collapse)
    obtain e3 s3 w3 where r3: "six_Restart se (s, w2) = (e3, s3, w3)" by (metis prod_cases3)
    have s3: "siSent s3 = siSent s" by (rule six_Restart_sent [OF r3])
    obtain e4 c4 s4 w4 where r4: "lift_action (ip6_ApplyConfig ie) (con1, s3, w3) = (e4, c4, s4, w4)" by (metis prod_cases4)
    have "onConnect pe se ie (True, s, w1) = (case e3 of Some e \<Rightarrow> (Some (''6in4 restart on connect: '' @ e), con1, s3, w3)
        | None \<Rightarrow> (e4, c4, s4, w4))"
      using True ps r3 r4 by (simp add: onConnect_def down_status_def split: option.splits)
    then show ?thesis using hook s3 lift_action_sent [OF r4] by (cases e3) simp_all
  next
    case False
    obtain e4 c4 s4 w4 where r4: "lift_action (ip6_Restart ie) (True, s, w1) = (e4, c4, s4, w4)" by (metis prod_cases4)
    then show ?thesis using False hook lift_action_sent [OF r4] by (simp add: onConnect_def)
  qed
  then show ?thesis by (simp add: ppp_Status_down)
qed

definition idle_six :: SixInFour where
  "idle_six = \<lparr>siRunning = False, siLastIPv4 = [], siSent = []\<rparr>"

definition demo_pppenv :: pppenv where
  "demo_pppenv = \<lparr>ppSys = calm_env, ppAddrs = (\<lambda>_ _. Inr [''203.0.113.7/32'']), ppPeerTemplate = Inr (\<lambda>_. Inr []), ppKill = (\<lambda>_ _ _. None)\<rparr>"

theorem reconnect_never_updates_broker_witness:
  "\<forall>se ie w. siSent (fst (snd (snd (ppp_Connect demo_pppenv (Some (onConnect demo_pppenv se ie)) (False, idle_six, w))))) = []"
proof (intro allI)
  fix se ie w
  obtain r c s' w' where run: "ppp_Connect demo_pppenv (Some (onConnect demo_pppenv se ie)) (False, idle_six, w) = (r, c, s', w')"
    by (metis prod_cases4)
  show "siSent (fst (snd (snd (ppp_Connect demo_pppenv (Some (onConnect demo_pppenv se ie)) (False, idle_six, w))))) = []"
    using reconnect_never_updates_broker [OF run] unfolding run by (simp add: idle_six_def)
qed

section \<open>Dynamic DNS\<close>

text \<open>An address the broker accepted is not sent again until another one has been accepted.\<close>

lemma accepted_address_not_resent:
  assumes "UpdateRemoteIPv4 env ip (s, w) = (Inr res, s1, w1)" "accepted_code (ddCode res)"
  shows "UpdateRemoteIPv4 env' ip (s1, w2) = (Inr \<lparr>ddCode = ''nochg'', ddIP = ip, ddRaw = ''dedup''\<rparr>, s1, w2)"
proof -
  have "ip \<noteq> []" "siLastIPv4 s1 = ip"
    using assms by (auto simp: UpdateRemoteIPv4_def Let_def split: if_splits sum.splits prod.splits)
  then show ?thesis by (simp add: UpdateRemoteIPv4_def)
qed

lemma refused_address_not_cached:
  assumes "UpdateRemoteIPv4 env ip (s, w) = (Inr res, s1, w1)" "\<not> accepted_code (ddCode res)"
  shows "siLastIPv4 s1 = siLastIPv4 s"
  using assms by (auto simp: UpdateRemoteIPv4_def Let_def accepted_code_def split: if_splits sum.splits prod.splits)

section \<open>The secrets files\<close>

text \<open>
  Appending keeps what could be read of the file. A read that fails is taken for an empty file, and then
  the line replaces everything that was there.
\<close>

lemma appendToFile_calls:
  "wTrace (snd (appendToFile env p line w)) = wTrace w @ CReadFile p #
     (case seAnswer env (wTrace w) (CReadFile p) of
        Inl e \<Rightarrow> if Contains [] (TrimSpace line) then [] else [CWriteFile p line 384]
      | Inr x \<Rightarrow> if Contains x (TrimSpace line) then [] else [CWriteFile p (x @ line) 384])"
  by (auto simp: appendToFile_def io_simps Let_def split: sum.splits)

end
