(* ===== verification/Update.thy ===== *)
theory Update
  imports Files GoPath
begin

text \<open>
  Self-update (\<open>services/update.go\<close>): finding a release, downloading, checking and installing it, and the
  confirmation window after which the previous binary comes back. HTTP, SHA-256, gzip and tar, the JSON
  of the state file and the backup made beforehand are parameters. What the calls do to files is a
  function of the trace, so that the theorems speak about the binary on disk.
\<close>

section \<open>Versions\<close>

definition parseSemver :: "string \<Rightarrow> int list" where
  "parseSemver v0 =
     (let v1 = TrimPrefix v0 ''v'';
          v2 = (case Index v1 ''-'' of Some i \<Rightarrow> take i v1 | None \<Rightarrow> v1);
          parts = Split v2 (CHR ''.'')
      in map (\<lambda>i. if i < length parts then ParseInt_value (parts ! i) else 0) [0..<3])"

fun compare_parts :: "int list \<Rightarrow> int list \<Rightarrow> int" where
  "compare_parts (a # as) (b # bs) = (if a > b then 1 else if a < b then - 1 else compare_parts as bs)"
| "compare_parts _ _ = 0"

definition CompareSemver :: "string \<Rightarrow> string \<Rightarrow> int" where
  "CompareSemver a b = compare_parts (parseSemver a) (parseSemver b)"

section \<open>State\<close>

record UpdateInfo =
  uiAvailable :: bool
  uiCurrentVersion :: string
  uiLatestVersion :: string
  uiArchitecture :: string
  uiReleaseNotes :: string
  uiDownloadURL :: string
  uiChecksumURL :: string
  uiAssetName :: string
  uiPublishedAt :: string
  uiAssetSize :: int

record ghAsset =
  gaName :: string
  gaSize :: int
  gaURL :: string

record ghRelease =
  grTagName :: string
  grBody :: string
  grPublished :: string
  grAssets :: "ghAsset list"

record updateState =
  ustPendingVersion :: string
  ustPreviousVersion :: string
  ustBackupBinary :: string
  ustAppliedAt :: gotime

text \<open>
  The service. \<open>usTimers\<close> are the watchdog goroutines waiting, each with the time it fires; \<open>usCancel\<close>
  is the one the field \<open>watchdogCancel\<close> can stop.
\<close>

record UpdateService =
  usVersion :: string
  usCommit :: string
  usDate :: string
  usArchitecture :: string
  usBinaryPath :: string
  usStatePath :: string
  usPending :: string
  usPrevious :: string
  usBackupBinary :: string
  usTimers :: "(nat \<times> gotime) list"
  usNextTimer :: nat
  usCancel :: "nat option"

record tarMember =
  tmName :: string
  tmRegular :: bool
  tmContent :: string

record updenv =
  upSys :: sysenv
  upGet :: "syscall list \<Rightarrow> string \<Rightarrow> error + nat \<times> string"
  upRelease :: "string \<Rightarrow> error + ghRelease"
  upSha256 :: "string \<Rightarrow> string"
  upGunzip :: "string \<Rightarrow> error + (error + tarMember) list"
  upEncode :: "updateState \<Rightarrow> string"
  upDecode :: "string \<Rightarrow> error + updateState"
  upExport :: "(string \<Rightarrow> unit action) option"

definition updateConfirmWindow :: duration where
  "updateConfirmWindow = nanos 60"

section \<open>Looking for a release\<close>

definition release_url :: string where
  "release_url = ''https://api.github.com/repos/KilimcininKorOglu/lankeeper/releases/latest''"

text \<open>One pass over the assets: a later match replaces an earlier one.\<close>

definition pick_asset :: "string \<Rightarrow> ghAsset \<Rightarrow> UpdateInfo \<Rightarrow> UpdateInfo" where
  "pick_asset needle a info =
     (let i1 = (if Contains (gaName a) needle \<and> HasSuffix (gaName a) ''.tar.gz''
                then info\<lparr>uiAssetName := gaName a, uiDownloadURL := gaURL a, uiAssetSize := gaSize a\<rparr> else info)
      in if gaName a = ''SHA256SUMS'' \<or> gaName a = ''checksums.txt'' then i1\<lparr>uiChecksumURL := gaURL a\<rparr> else i1)"

definition CheckForUpdate :: "updenv \<Rightarrow> UpdateService \<Rightarrow> UpdateInfo action" where
  "CheckForUpdate env s w =
     (case upGet env (wTrace w) release_url of
        Inl e \<Rightarrow> (Inl (''fetch releases: '' @ e), w)
      | Inr (code, body) \<Rightarrow>
          if code \<noteq> 200 then (Inl (''GitHub API returned '' @ Itoa (int code)), w)
          else (case upRelease env body of
              Inl e \<Rightarrow> (Inl (''decode release: '' @ e), w)
            | Inr rel \<Rightarrow>
                (let info = \<lparr>uiAvailable = False, uiCurrentVersion = usVersion s, uiLatestVersion = grTagName rel,
                       uiArchitecture = usArchitecture s, uiReleaseNotes = grBody rel, uiDownloadURL = [],
                       uiChecksumURL = [], uiAssetName = [], uiPublishedAt = grPublished rel, uiAssetSize = 0\<rparr>;
                     picked = foldl (\<lambda>i a. pick_asset (''linux-'' @ usArchitecture s) a i) info (grAssets rel)
                 in (Inr (picked\<lparr>uiAvailable := CompareSemver (grTagName rel) (usVersion s) > 0\<rparr>), w))))"

section \<open>Installing\<close>

definition safeUpdateFileName :: "string \<Rightarrow> string" where
  "safeUpdateFileName name =
     (let n = path_Base (TrimSpace name)
      in if n = ''.'' \<or> n = ''/'' \<or> n = [] then ''lankeeper-update.tar.gz'' else n)"

definition downloadFile :: "updenv \<Rightarrow> string \<Rightarrow> string \<Rightarrow> unit action" where
  "downloadFile env url dest w =
     (case upGet env (wTrace w) url of
        Inl e \<Rightarrow> (Inl e, w)
      | Inr (code, body) \<Rightarrow>
          if code \<noteq> 200 then (Inl (''download returned '' @ Itoa (int code)), w)
          else io_bind (sys (upSys env) (COsWriteFile dest body 438)) (\<lambda>_. io_return ()) w)"

text \<open>The digest the checksum file gives for a file name: the first line that mentions it.\<close>

definition expected_hash :: "string \<Rightarrow> string \<Rightarrow> string" where
  "expected_hash body archiveName =
     (case find (\<lambda>fs. length fs \<ge> 2 \<and> Contains (fs ! 1) archiveName)
             (map Fields (Split body (CHR 0x0A))) of
        None \<Rightarrow> []
      | Some fs \<Rightarrow> ToLower (fs ! 0))"

definition verifyChecksum :: "updenv \<Rightarrow> UpdateInfo \<Rightarrow> string \<Rightarrow> unit action" where
  "verifyChecksum env info archivePath w =
     (if uiChecksumURL info = [] then (Inr (), w)
      else (case upGet env (wTrace w) (uiChecksumURL info) of
          Inl e \<Rightarrow> (Inl (''download checksum file: '' @ e), w)
        | Inr (code, body) \<Rightarrow>
            if code \<noteq> 200 then (Inl (''checksum file returned HTTP '' @ Itoa (int code)), w)
            else (let expectedHash = expected_hash (take 65536 body) (path_Base archivePath) in
              if expectedHash = []
              then (Inl (''no checksum found for '' @ path_Base archivePath @ '' in release checksum file''), w)
              else io_bind (io_wrap ''open archive for checksum: '' (sys (upSys env) (COsReadFile archivePath)))
                (\<lambda>data. if upSha256 env data \<noteq> expectedHash
                  then io_fail (''SHA-256 mismatch: expected '' @ expectedHash @ '', got '' @ upSha256 env data)
                  else io_return ()) w)))"

fun find_binary :: "(error + tarMember) list \<Rightarrow> error + string" where
  "find_binary [] = Inl ''binary 'lankeeper' not found in archive''"
| "find_binary (Inl e # ms) = Inl (''tar read: '' @ e)"
| "find_binary (Inr m # ms) =
     (if path_Base (tmName m) = ''lankeeper'' \<and> tmRegular m then Inr (tmContent m) else find_binary ms)"

definition extractBinary :: "updenv \<Rightarrow> string \<Rightarrow> string \<Rightarrow> unit action" where
  "extractBinary env archivePath destPath =
     io_bind (sys (upSys env) (COsReadFile archivePath)) (\<lambda>data.
     io_bind (io_wrap ''gzip open: '' (io_lift (upGunzip env data))) (\<lambda>members.
     io_bind (io_lift (find_binary members)) (\<lambda>bin.
     io_then (sys (upSys env) (COsWriteFile destPath bin 438))
       (io_then (io_wrap ''chmod binary: '' (sys (upSys env) (COsChmod destPath 493)))
         (io_return ())))))"

definition cp_f :: "updenv \<Rightarrow> string \<Rightarrow> string \<Rightarrow> string action" where
  "cp_f env a b = sys (upSys env) (CRun ''cp'' [''-f'', a, b])"

definition runBinaryVersion :: "updenv \<Rightarrow> UpdateService \<Rightarrow> string action" where
  "runBinaryVersion env s = sys (upSys env) (COsExec (usBinaryPath s) [''version''])"

text \<open>An error of the run and a wrong answer are treated alike.\<close>

definition check_version :: "updenv \<Rightarrow> UpdateService \<Rightarrow> string \<Rightarrow> unit action" where
  "check_version env s latest w =
     (case runBinaryVersion env s w of
        (Inl e, w') \<Rightarrow> (Inl [], w')
      | (Inr out, w') \<Rightarrow> if Contains out (TrimPrefix latest ''v'') then (Inr (), w') else (Inl [], w'))"

definition saveUpdateState :: "updenv \<Rightarrow> UpdateService \<Rightarrow> updateState \<Rightarrow> string action" where
  "saveUpdateState env s st =
     io_then (sys (upSys env) (COsMkdirAll (path_Dir (usStatePath s)) 488))
       (sys (upSys env) (COsWriteFile (usStatePath s) (upEncode env st @ [CHR 0x0A]) 384))"

text \<open>Removing a file that does not exist is no error; the environment answers so for such a path.\<close>

definition clearUpdateState :: "updenv \<Rightarrow> UpdateService \<Rightarrow> string action" where
  "clearUpdateState env s = sys (upSys env) (COsRemove (usStatePath s))"

definition updateBootBranding :: "updenv \<Rightarrow> string \<Rightarrow> unit action" where
  "updateBootBranding env version =
     (if TrimSpace version = [] then io_return ()
      else io_ignore (io_then
        (sys (upSys env) (CWriteFile ''/etc/default/grub.d/lankeeper.cfg''
           (''GRUB_DISTRIBUTOR='' @ [CHR 0x22] @ ''LANKeeper '' @ TrimSpace version @ [CHR 0x22, CHR 0x0A]) 420))
        (sys (upSys env) (CRun ''update-grub'' []))))"

definition restart_units :: "updenv \<Rightarrow> string action" where
  "restart_units env = sys (upSys env) (CRun ''systemctl'' [''restart'', ''lankeeper.target''])"

definition tmpBinary :: string where "tmpBinary = ''/tmp/lankeeper-new''"

definition backup_of :: "UpdateService \<Rightarrow> string" where
  "backup_of s = usBinaryPath s @ ''.bak''"

definition pre_update_backup :: "updenv \<Rightarrow> UpdateInfo \<Rightarrow> unit action" where
  "pre_update_backup env info =
     (case upExport env of
        None \<Rightarrow> io_return ()
      | Some export \<Rightarrow>
          (let backupPath = ''/var/lib/lankeeper/backups/pre-update-'' @ uiLatestVersion info @ ''.tar.gz''
           in io_then (io_ignore (sys (upSys env) (COsMkdirAll (path_Dir backupPath) 493)))
                (io_ignore (export backupPath))))"

text \<open>
  From the backup of the binary to the recorded state: every failure after the first copy puts the backup
  back before the error is returned.
\<close>

definition install_steps :: "updenv \<Rightarrow> UpdateService \<Rightarrow> UpdateInfo \<Rightarrow> gotime \<Rightarrow> unit action" where
  "install_steps env s info now =
     (let restore = cp_f env (backup_of s) (usBinaryPath s) in
      io_then (io_wrap ''backup binary: '' (cp_f env (usBinaryPath s) (backup_of s)))
       (io_then (io_repair ''install binary: '' restore (cp_f env tmpBinary (usBinaryPath s)))
        (io_then (io_repair ''chmod: '' restore (sys (upSys env) (CRun ''chmod'' [''+x'', usBinaryPath s])))
         (io_then (io_repair ''version verification failed'' restore (check_version env s (uiLatestVersion info)))
          (io_then (io_repair ''save update state: '' restore
             (saveUpdateState env s \<lparr>ustPendingVersion = uiLatestVersion info, ustPreviousVersion = usVersion s,
                ustBackupBinary = backup_of s, ustAppliedAt = now\<rparr>))
           (io_return ()))))))"

definition apply_steps :: "updenv \<Rightarrow> UpdateService \<Rightarrow> UpdateInfo \<Rightarrow> gotime \<Rightarrow> unit action" where
  "apply_steps env s info now =
     (let tmpArchive = path_Join ''/tmp'' (safeUpdateFileName (uiAssetName info)) in
      io_then (pre_update_backup env info)
       (io_then (io_wrap ''download: '' (downloadFile env (uiDownloadURL info) tmpArchive))
        (io_defer (sys (upSys env) (COsRemove tmpArchive))
         (io_then (io_wrap ''checksum verification: '' (verifyChecksum env info tmpArchive))
          (io_then (io_wrap ''extract: '' (extractBinary env tmpArchive tmpBinary))
           (io_defer (sys (upSys env) (COsRemove tmpBinary))
            (io_then (install_steps env s info now)
             (io_then (updateBootBranding env (uiLatestVersion info)) (io_ignore (restart_units env))))))))))"

definition start_watchdog :: "gotime \<Rightarrow> UpdateService \<Rightarrow> UpdateService" where
  "start_watchdog at s = s\<lparr>usTimers := usTimers s @ [(usNextTimer s, at)], usCancel := Some (usNextTimer s),
     usNextTimer := usNextTimer s + 1\<rparr>"

definition cancel_watchdog :: "UpdateService \<Rightarrow> UpdateService" where
  "cancel_watchdog s = (case usCancel s of
       None \<Rightarrow> s
     | Some k \<Rightarrow> s\<lparr>usTimers := filter (\<lambda>t. fst t \<noteq> k) (usTimers s), usCancel := None\<rparr>)"

definition ApplyUpdate ::
    "updenv \<Rightarrow> UpdateInfo \<Rightarrow> gotime \<Rightarrow> UpdateService \<times> world \<Rightarrow> error option \<times> UpdateService \<times> world" where
  "ApplyUpdate env info now sw = (case sw of (s, w) \<Rightarrow>
     if uiDownloadURL info = []
     then (Some (''no download URL for linux-'' @ usArchitecture s @ '' asset''), s, w)
     else (case apply_steps env s info now w of
         (Inl e, w') \<Rightarrow> (Some e, s, w')
       | (Inr _, w') \<Rightarrow>
           (None,
            start_watchdog (now + updateConfirmWindow)
              (s\<lparr>usPending := uiLatestVersion info, usPrevious := usVersion s, usBackupBinary := backup_of s\<rparr>),
            w')))"

section \<open>Confirmation and rollback\<close>

definition forget_pending :: "UpdateService \<Rightarrow> UpdateService" where
  "forget_pending s = s\<lparr>usPending := [], usPrevious := [], usBackupBinary := []\<rparr>"

definition ConfirmUpdate :: "updenv \<Rightarrow> UpdateService \<times> world \<Rightarrow> UpdateService \<times> world" where
  "ConfirmUpdate env sw = (case sw of (s0, w) \<Rightarrow>
     (let s = cancel_watchdog s0;
          w1 = (if usBackupBinary s \<noteq> [] then snd (sys (upSys env) (CRun ''rm'' [''-f'', usBackupBinary s]) w) else w);
          w2 = snd (clearUpdateState env s w1)
      in (forget_pending s, w2)))"

definition Rollback :: "updenv \<Rightarrow> UpdateService \<times> world \<Rightarrow> error option \<times> UpdateService \<times> world" where
  "Rollback env sw = (case sw of (s0, w) \<Rightarrow>
     (let s = cancel_watchdog s0;
          backupBinary = (if usBackupBinary s = [] then backup_of s else usBackupBinary s)
      in case cp_f env backupBinary (usBinaryPath s) w of
           (Inl e, w1) \<Rightarrow> (Some (''rollback: '' @ e), s, w1)
         | (Inr _, w1) \<Rightarrow>
             (let w2 = (if usPrevious s \<noteq> [] then snd (updateBootBranding env (usPrevious s) w1) else w1);
                  w3 = snd (clearUpdateState env s w2);
                  w4 = snd (restart_units env w3)
              in (None, forget_pending s, w4))))"

text \<open>A watchdog whose time has come: it is no longer waiting, and it rolls back.\<close>

definition watchdog_fires :: "updenv \<Rightarrow> nat \<Rightarrow> UpdateService \<times> world \<Rightarrow> UpdateService \<times> world" where
  "watchdog_fires env k sw = (case sw of (s, w) \<Rightarrow>
     snd (Rollback env (s\<lparr>usTimers := filter (\<lambda>t. fst t \<noteq> k) (usTimers s)\<rparr>, w)))"

text \<open>A start of the process: \<open>NewUpdateService\<close> with the state file read back.\<close>

definition fresh_service :: "UpdateService \<Rightarrow> string \<Rightarrow> UpdateService" where
  "fresh_service s version = s\<lparr>usVersion := version, usPending := [], usPrevious := [], usBackupBinary := [],
     usTimers := [], usNextTimer := 0, usCancel := None\<rparr>"

definition restorePendingUpdate :: "updenv \<Rightarrow> gotime \<Rightarrow> UpdateService \<times> world \<Rightarrow> UpdateService \<times> world" where
  "restorePendingUpdate env now sw = (case sw of (s, w) \<Rightarrow>
     case sys (upSys env) (COsReadFile (usStatePath s)) w of
       (Inl e, w') \<Rightarrow> (s, w')
     | (Inr data, w') \<Rightarrow>
         (case upDecode env data of
            Inl e \<Rightarrow> (s, w')
          | Inr st \<Rightarrow>
              if ustPendingVersion st = [] \<or> ustBackupBinary st = [] then (s, w')
              else (start_watchdog (now + max 0 (updateConfirmWindow - (now - ustAppliedAt st)))
                 (s\<lparr>usPending := ustPendingVersion st, usPrevious := ustPreviousVersion st,
                    usBackupBinary := ustBackupBinary st\<rparr>), w')))"

definition NewUpdateService :: "updenv \<Rightarrow> gotime \<Rightarrow> string \<Rightarrow> UpdateService \<times> world \<Rightarrow> UpdateService \<times> world" where
  "NewUpdateService env now version sw = (case sw of (s, w) \<Rightarrow>
     restorePendingUpdate env now (fresh_service s version, w))"

definition HasPendingUpdate :: "UpdateService \<Rightarrow> bool" where
  "HasPendingUpdate s \<longleftrightarrow> usPending s \<noteq> []"

section \<open>Footprints\<close>

text \<open>
  The paths of a service are apart: the archive and the new binary in the temporary directory, the state
  file and the boot configuration are not the installed binary or its backup.
\<close>

definition update_archive :: "UpdateInfo \<Rightarrow> string" where
  "update_archive info = path_Join ''/tmp'' (safeUpdateFileName (uiAssetName info))"

definition binary_files :: "UpdateService \<Rightarrow> string set" where
  "binary_files s = {usBinaryPath s, backup_of s}"

definition paths_apart :: "UpdateService \<Rightarrow> UpdateInfo \<Rightarrow> bool" where
  "paths_apart s info \<longleftrightarrow> binary_files s \<inter> {update_archive info, tmpBinary, usStatePath s, ''/etc/default/grub.d/lankeeper.cfg''} = {}
     \<and> usStatePath s \<notin> {update_archive info, tmpBinary, ''/etc/default/grub.d/lankeeper.cfg''} \<and> update_archive info \<noteq> tmpBinary"

definition export_apart :: "updenv \<Rightarrow> string set \<Rightarrow> bool" where
  "export_apart env S = (case upExport env of None \<Rightarrow> True | Some ex \<Rightarrow> (\<forall>p. only_calls (spares S) (ex p)))"

lemma spares_simps [simp]:
  "spares S (COsReadFile p)" "spares S (COsMkdirAll p m)" "spares S (COsChmod p m)" "spares S (COsExec p as)"
  "spares S (COsWriteFile p x m) \<longleftrightarrow> p \<notin> S" "spares S (CWriteFile p x m) \<longleftrightarrow> p \<notin> S" "spares S (COsRemove p) \<longleftrightarrow> p \<notin> S"
  "spares S (CRun ''cp'' [''-f'', a, b]) \<longleftrightarrow> b \<notin> S" "spares S (CRun ''rm'' [''-f'', a]) \<longleftrightarrow> a \<notin> S"
  "spares S (CRun ''chmod'' [x, a])" "spares S (CRun ''systemctl'' [x, a])" "spares S (CRun n [])"
  by (auto simp: spares_def)

lemma pre_update_backup_spares: "export_apart env S \<Longrightarrow> only_calls (spares S) (pre_update_backup env info)"
  unfolding pre_update_backup_def export_apart_def Let_def
  by (auto split: option.splits intro!: footprint)

lemma only_calls_cases:
  assumes "\<And>w. \<exists>n. m w = n w \<and> only_calls P n"
  shows "only_calls P m"
  using assms unfolding only_calls_def by metis

lemma downloadFile_spares: "dest \<notin> S \<Longrightarrow> only_calls (spares S) (downloadFile env url dest)"
proof (rule only_calls_cases)
  fix w
  assume dest: "dest \<notin> S"
  show "\<exists>n. downloadFile env url dest w = n w \<and> only_calls (spares S) n"
  proof (cases "upGet env (wTrace w) url")
    case (Inl e)
    then have "downloadFile env url dest w = io_fail e w" by (simp add: downloadFile_def io_simps)
    then show ?thesis using only_calls_fail by blast
  next
    case (Inr cb)
    obtain code body where cb: "cb = (code, body)" by fastforce
    have "downloadFile env url dest w = (if code \<noteq> 200 then io_fail (''download returned '' @ Itoa (int code))
        else io_bind (sys (upSys env) (COsWriteFile dest body 438)) (\<lambda>_. io_return ())) w"
      using Inr cb by (simp add: downloadFile_def io_fail_def)
    moreover have "only_calls (spares S) (if code \<noteq> 200 then io_fail (''download returned '' @ Itoa (int code))
        else io_bind (sys (upSys env) (COsWriteFile dest body 438)) (\<lambda>_. io_return ()))"
      using dest by (auto intro!: footprint)
    ultimately show ?thesis by blast
  qed
qed

lemma extractBinary_spares: "dest \<notin> S \<Longrightarrow> only_calls (spares S) (extractBinary env a dest)"
  unfolding extractBinary_def by (auto intro!: footprint)

lemma updateBootBranding_spares: "''/etc/default/grub.d/lankeeper.cfg'' \<notin> S \<Longrightarrow> only_calls (spares S) (updateBootBranding env v)"
  unfolding updateBootBranding_def by (auto intro!: footprint)

lemma updateBootBranding_triple:
  assumes "stable S P" "''/etc/default/grub.d/lankeeper.cfg'' \<notin> S"
  shows "triple P (updateBootBranding env v) (\<lambda>_. P) E"
proof (cases "TrimSpace v = []")
  case True
  then show ?thesis by (auto simp: updateBootBranding_def intro: triple_return)
next
  case False
  have "only_calls (spares S) (io_then (sys (upSys env) (CWriteFile ''/etc/default/grub.d/lankeeper.cfg'' x 420)) (sys (upSys env) (CRun ''update-grub'' [])))" for x
    using assms(2) by (auto intro!: footprint)
  from triple_stable [OF this assms(1)] show ?thesis using False by (simp add: updateBootBranding_def triple_ignore)
qed

lemma saveUpdateState_spares: "usStatePath s \<notin> S \<Longrightarrow> only_calls (spares S) (saveUpdateState env s st)"
  unfolding saveUpdateState_def by (auto intro!: footprint)

lemma restart_spares: "only_calls (spares S) (restart_units env)"
  unfolding restart_units_def by (auto intro!: footprint)

lemma check_version_spares: "only_calls (spares S) (check_version env s v)"
  by (auto simp: only_calls_def check_version_def runBinaryVersion_def sys_def split: sum.splits if_splits)

lemma verifyChecksum_spares: "only_calls (spares S) (verifyChecksum env info a)"
  by (auto simp: only_calls_def verifyChecksum_def io_simps Let_def split: sum.splits if_splits prod.splits)

section \<open>A failed update\<close>

definition restore_call :: "UpdateService \<Rightarrow> syscall" where
  "restore_call s = CRun ''cp'' [''-f'', backup_of s, usBinaryPath s]"

definition restore_failed :: "updenv \<Rightarrow> UpdateService \<Rightarrow> syscall list \<Rightarrow> bool" where
  "restore_failed env s tr \<longleftrightarrow>
     (\<exists>tr1 tr2 e. tr = tr1 @ restore_call s # tr2 \<and> seAnswer (upSys env) tr1 (restore_call s) = Inl e)"

lemma stable_restore_failed: "stable S (\<lambda>w. restore_failed env s (wTrace w))"
  by (rule stableI) (force simp: restore_failed_def)

lemma backup_apart: "backup_of s \<noteq> usBinaryPath s"
  by (simp add: backup_of_def)

text \<open>The condition that the old binary is in place, or that putting it back failed.\<close>

definition old_in_place ::
    "updenv \<Rightarrow> (syscall list \<Rightarrow> string option) \<Rightarrow> files \<Rightarrow> UpdateService \<Rightarrow> string option \<Rightarrow> world \<Rightarrow> bool" where
  "old_in_place env junk d s old w \<longleftrightarrow>
     files_after (upSys env) junk d (wTrace w) (usBinaryPath s) = old \<or> restore_failed env s (wTrace w)"

definition old_kept ::
    "updenv \<Rightarrow> (syscall list \<Rightarrow> string option) \<Rightarrow> files \<Rightarrow> UpdateService \<Rightarrow> string option \<Rightarrow> world \<Rightarrow> bool" where
  "old_kept env junk d s old w \<longleftrightarrow> files_after (upSys env) junk d (wTrace w) (backup_of s) = old"

lemma stable_old_in_place: "usBinaryPath s \<in> S \<Longrightarrow> stable S (old_in_place env junk d s old)"
  unfolding old_in_place_def [abs_def] by (intro stable_disj stable_restore_failed stable_file [where R = "\<lambda>x. x = old"])

lemma stable_old_kept: "backup_of s \<in> S \<Longrightarrow> stable S (old_kept env junk d s old)"
  unfolding old_kept_def [abs_def] by (rule stable_file [where R = "\<lambda>x. x = old"])

lemma restore_triple:
  "triple (old_kept env junk d s old) (cp_f env (backup_of s) (usBinaryPath s))
     (\<lambda>_. old_in_place env junk d s old) (old_in_place env junk d s old)"
  unfolding cp_f_def
proof (rule triple_sys)
  fix w :: world and a
  assume "old_kept env junk d s old w" "seAnswer (upSys env) (wTrace w) (CRun ''cp'' [''-f'', backup_of s, usBinaryPath s]) = Inr a"
  then show "old_in_place env junk d s old (w\<lparr>wTrace := wTrace w @ [CRun ''cp'' [''-f'', backup_of s, usBinaryPath s]]\<rparr>)"
    by (simp add: old_in_place_def old_kept_def store_file_def)
next
  fix w :: world and e
  assume "seAnswer (upSys env) (wTrace w) (CRun ''cp'' [''-f'', backup_of s, usBinaryPath s]) = Inl e"
  then have "restore_failed env s (wTrace w @ [CRun ''cp'' [''-f'', backup_of s, usBinaryPath s]])"
    unfolding restore_failed_def restore_call_def by blast
  then show "old_in_place env junk d s old (w\<lparr>wTrace := wTrace w @ [CRun ''cp'' [''-f'', backup_of s, usBinaryPath s]]\<rparr>)"
    by (simp add: old_in_place_def)
qed

lemma install_failure:
  assumes "paths_apart s info"
  shows "triple (\<lambda>w. files_after (upSys env) junk d (wTrace w) (usBinaryPath s) = old) (install_steps env s info now)
     (\<lambda>_. old_kept env junk d s old) (old_in_place env junk d s old)"
proof -
  let ?kept = "old_kept env junk d s old" and ?ok = "old_in_place env junk d s old"
  have state: "usStatePath s \<notin> {backup_of s}" using assms by (auto simp: paths_apart_def binary_files_def)
  have keep: "only_calls (spares {backup_of s}) m \<Longrightarrow> triple ?kept m (\<lambda>_. ?kept) ?kept" for m :: "'b action"
    by (rule triple_stable [OF _ stable_old_kept [of s "{backup_of s}"]]) auto
  have backup: "triple (\<lambda>w. files_after (upSys env) junk d (wTrace w) (usBinaryPath s) = old)
      (cp_f env (usBinaryPath s) (backup_of s)) (\<lambda>_. ?kept) ?ok"
    unfolding cp_f_def using backup_apart [of s]
    by (intro triple_sys) (auto simp: old_kept_def old_in_place_def store_file_def)
  have install: "triple ?kept (cp_f env tmpBinary (usBinaryPath s)) (\<lambda>_. ?kept) ?kept"
    unfolding cp_f_def using backup_apart [of s] by (intro keep footprint) auto
  have chmod: "triple ?kept (sys (upSys env) (CRun ''chmod'' [''+x'', usBinaryPath s])) (\<lambda>_. ?kept) ?kept"
    by (intro keep footprint) simp
  show ?thesis unfolding install_steps_def Let_def
    by (rule triple_then [OF triple_wrap [OF backup]] triple_then [OF triple_repair [OF install restore_triple]]
        triple_then [OF triple_repair [OF chmod restore_triple]]
        triple_then [OF triple_repair [OF keep [OF check_version_spares] restore_triple]]
        triple_then [OF triple_repair [OF keep [OF saveUpdateState_spares [OF state]] restore_triple]]
        triple_return)+
qed

lemma apply_failure:
  assumes "paths_apart s info" "export_apart env (binary_files s)"
  shows "triple (\<lambda>w. files_after (upSys env) junk d (wTrace w) (usBinaryPath s) = old) (apply_steps env s info now)
     (\<lambda>_. old_kept env junk d s old) (old_in_place env junk d s old)"
proof -
  let ?now = "\<lambda>w. files_after (upSys env) junk d (wTrace w) (usBinaryPath s) = old"
  let ?kept = "old_kept env junk d s old" and ?ok = "old_in_place env junk d s old" and ?S = "binary_files s"
  have apart: "update_archive info \<notin> ?S" "tmpBinary \<notin> ?S" "''/etc/default/grub.d/lankeeper.cfg'' \<notin> ?S"
    using assms(1) by (auto simp: paths_apart_def)
  have stable: "stable ?S ?now" "stable ?S ?kept" "stable ?S ?ok"
    by (auto intro!: stable_file [where R = "\<lambda>x. x = old"] stable_old_kept stable_old_in_place simp: binary_files_def)
  have before: "triple ?now m (\<lambda>_. ?now) ?ok" if "only_calls (spares ?S) m" for m :: "'b action"
    by (rule triple_conseq [OF triple_stable [OF that stable(1)]]) (auto simp: old_in_place_def)
  have after: "triple ?kept m (\<lambda>_. ?kept) ?kept" "triple ?ok m (\<lambda>_. ?ok) ?ok" if "only_calls (spares ?S) m" for m :: "'b action"
    using triple_stable [OF that] stable by blast+
  have remove: "only_calls (spares ?S) (sys (upSys env) (COsRemove p))" if "p \<notin> ?S" for p
    using that by (intro footprint) simp
  have tail: "triple ?kept (io_then (updateBootBranding env v) (io_ignore (restart_units env))) (\<lambda>_. ?kept) ?ok" for v
    by (rule triple_then [OF updateBootBranding_triple [OF stable(2) apart(3)] triple_ignore [OF after(1) [OF restart_spares]]])
  show ?thesis unfolding apply_steps_def Let_def update_archive_def [symmetric]
    by (rule triple_then [OF before [OF pre_update_backup_spares [OF assms(2)]]]
        triple_then [OF triple_wrap [OF before [OF downloadFile_spares [OF apart(1)]]]]
        triple_defer [OF _ after(1) [OF remove [OF apart(1)]] after(2) [OF remove [OF apart(1)]]]
        triple_then [OF triple_wrap [OF before [OF verifyChecksum_spares]]]
        triple_then [OF triple_wrap [OF before [OF extractBinary_spares [OF apart(2)]]]]
        triple_defer [OF _ after(1) [OF remove [OF apart(2)]] after(2) [OF remove [OF apart(2)]]]
        triple_then [OF install_failure [OF assms(1)] tail])+
qed

text \<open>
  An update that fails leaves the service as it was and the old binary in place, whichever of its
  steps failed and whatever the failed step left behind, unless putting the backup back failed as well.
\<close>

theorem failed_update_keeps_binary:
  assumes "paths_apart s info" "export_apart env (binary_files s)"
    and "ApplyUpdate env info now (s, w) = (Some e, s', w')"
  shows "s' = s \<and> (files_after (upSys env) junk d (wTrace w') (usBinaryPath s) =
      files_after (upSys env) junk d (wTrace w) (usBinaryPath s) \<or> restore_failed env s (wTrace w'))"
proof (cases "uiDownloadURL info = []")
  case True
  then show ?thesis using assms(3) by (simp add: ApplyUpdate_def)
next
  case False
  then have run: "apply_steps env s info now w = (Inl e, w')" "s' = s"
    using assms(3) by (auto simp: ApplyUpdate_def split: prod.splits sum.splits)
  show ?thesis using tripleD_err [OF apply_failure [OF assms(1,2)] refl run(1)] run(2)
    unfolding old_in_place_def by blast
qed

section \<open>A successful update\<close>

text \<open>The archive's digest is the one the release's checksum file gives for it, when there is such a file.\<close>

definition digest_checked :: "updenv \<Rightarrow> UpdateInfo \<Rightarrow> string \<Rightarrow> bool" where
  "digest_checked env info data \<longleftrightarrow> uiChecksumURL info = [] \<or>
     (\<exists>tr body. upGet env tr (uiChecksumURL info) = Inr (200, body) \<and> upSha256 env data \<noteq> [] \<and>
        upSha256 env data = expected_hash (take 65536 body) (path_Base (update_archive info)))"

definition checked_binary :: "updenv \<Rightarrow> UpdateInfo \<Rightarrow> string \<Rightarrow> bool" where
  "checked_binary env info bin \<longleftrightarrow>
     (\<exists>data ms. digest_checked env info data \<and> upGunzip env data = Inr ms \<and> find_binary ms = Inr bin)"

lemma triple_keeps: "only_calls (spares S) m \<Longrightarrow> stable S P \<Longrightarrow> triple P m (\<lambda>_. P) (\<lambda>_. True)"
  using triple_conseq [OF triple_stable] by fastforce

lemma triple_conj:
  assumes "triple P m (\<lambda>_. Q) (\<lambda>_. True)" "triple P' m (\<lambda>_. Q') (\<lambda>_. True)"
  shows "triple (\<lambda>w. P w \<and> P' w) m (\<lambda>_ w. Q w \<and> Q' w) (\<lambda>_. True)"
  unfolding triple_def
proof (intro allI impI)
  fix w
  assume "P w \<and> P' w"
  obtain r w' where m: "m w = (r, w')" by fastforce
  show "case m w of (Inl e, w') \<Rightarrow> True | (Inr a, w') \<Rightarrow> Q w' \<and> Q' w'"
    using tripleD_ok [OF assms(1), of w _ w'] tripleD_ok [OF assms(2), of w _ w'] m \<open>P w \<and> P' w\<close> by (cases r) auto
qed

lemma verifyChecksum_ok:
  assumes "reads_files (upSys env) junk d"
  shows "triple (\<lambda>w. True) (verifyChecksum env info (update_archive info))
     (\<lambda>_ w. uiChecksumURL info = [] \<or> (\<exists>data. files_after (upSys env) junk d (wTrace w) (update_archive info) = Some data \<and> digest_checked env info data))
     (\<lambda>_. True)"
proof -
  have "uiChecksumURL info = [] \<or> (\<exists>data. files_after (upSys env) junk d (wTrace w') (update_archive info) = Some data \<and> digest_checked env info data)"
    if run: "verifyChecksum env info (update_archive info) w = (Inr u, w')" for w u w'
  proof (cases "uiChecksumURL info = []")
    case False
    from run False obtain code body data where get: "upGet env (wTrace w) (uiChecksumURL info) = Inr (code, body)" "code = 200"
      and read: "seAnswer (upSys env) (wTrace w) (COsReadFile (update_archive info)) = Inr data"
      and w': "w' = w\<lparr>wTrace := wTrace w @ [COsReadFile (update_archive info)]\<rparr>"
      and hash: "upSha256 env data = expected_hash (take 65536 body) (path_Base (update_archive info))" "upSha256 env data \<noteq> []"
      by (auto simp: verifyChecksum_def io_simps Let_def split: sum.splits if_splits prod.splits)
    have "files_after (upSys env) junk d (wTrace w') (update_archive info) = Some data"
      using reads_filesD [OF assms read] unfolding w' by simp
    moreover have "digest_checked env info data" unfolding digest_checked_def using get hash by blast
    ultimately show ?thesis by blast
  qed simp
  then show ?thesis by (auto simp: triple_def split: prod.splits sum.splits)
qed

lemma extractBinary_ok:
  assumes "reads_files (upSys env) junk d"
  shows "triple (\<lambda>w. uiChecksumURL info = [] \<or> (\<exists>data. files_after (upSys env) junk d (wTrace w) (update_archive info) = Some data \<and> digest_checked env info data))
     (extractBinary env (update_archive info) tmpBinary)
     (\<lambda>_ w. \<exists>bin. checked_binary env info bin \<and> files_after (upSys env) junk d (wTrace w) tmpBinary = Some bin) (\<lambda>_. True)"
  (is "triple ?P _ ?Q _")
proof -
  let ?fs = "\<lambda>w. files_after (upSys env) junk d (wTrace w)"
  have read: "triple ?P (sys (upSys env) (COsReadFile (update_archive info))) (\<lambda>data _. digest_checked env info data) (\<lambda>_. True)"
  proof (rule triple_sys)
    fix w :: world and data
    assume "?P w" "seAnswer (upSys env) (wTrace w) (COsReadFile (update_archive info)) = Inr data"
    then show "digest_checked env info data" using reads_filesD [OF assms] by (fastforce simp: digest_checked_def)
  qed simp
  have ch: "triple (?Q ()) (sys (upSys env) (COsChmod tmpBinary 493)) (\<lambda>_. ?Q ()) (\<lambda>_. True)"
    by (intro triple_keeps [where S = "{tmpBinary}"] footprint stable_ex stable_conj stable_const stable_file) simp_all
  have wr: "triple (\<lambda>_. checked_binary env info bin) (sys (upSys env) (COsWriteFile tmpBinary bin 438)) (\<lambda>_. ?Q ()) (\<lambda>_. True)" for bin
    by (intro triple_sys) (auto simp: store_file_def)
  have rest: "triple (\<lambda>_. checked_binary env info bin)
      (io_then (sys (upSys env) (COsWriteFile tmpBinary bin 438))
        (io_then (io_wrap ''chmod binary: '' (sys (upSys env) (COsChmod tmpBinary 493))) (io_return ()))) ?Q (\<lambda>_. True)" for bin
    by (rule triple_then [OF wr triple_then [OF triple_wrap [OF ch] triple_return]]) simp
  show ?thesis unfolding extractBinary_def
    by (rule triple_bind [OF read triple_bind [OF triple_wrap [OF triple_lift [where
          Q = "\<lambda>ms _. \<exists>data. digest_checked env info data \<and> upGunzip env data = Inr ms"]]
        triple_bind [OF triple_lift [where Q = "\<lambda>bin _. checked_binary env info bin"] rest]]])
      (auto simp: checked_binary_def)
qed

lemma install_success:
  assumes "paths_apart s info"
  shows "triple (\<lambda>w. files_after (upSys env) junk d (wTrace w) (usBinaryPath s) = old \<and>
       (\<exists>bin. checked_binary env info bin \<and> files_after (upSys env) junk d (wTrace w) tmpBinary = Some bin))
     (install_steps env s info now)
     (\<lambda>_ w. files_after (upSys env) junk d (wTrace w) (backup_of s) = old \<and>
       (\<exists>bin. checked_binary env info bin \<and> files_after (upSys env) junk d (wTrace w) (usBinaryPath s) = Some bin) \<and>
       files_after (upSys env) junk d (wTrace w) (usStatePath s) =
         Some (upEncode env \<lparr>ustPendingVersion = uiLatestVersion info, ustPreviousVersion = usVersion s,
           ustBackupBinary = backup_of s, ustAppliedAt = now\<rparr> @ [CHR 0x0A])) (\<lambda>_. True)"
proof -
  let ?f = "\<lambda>w. files_after (upSys env) junk d (wTrace w)"
  let ?new = "\<lambda>p w. \<exists>bin. checked_binary env info bin \<and> ?f w p = Some bin"
  let ?both = "\<lambda>w. ?f w (backup_of s) = old \<and> ?new (usBinaryPath s) w"
  have apart: "usBinaryPath s \<noteq> backup_of s" "tmpBinary \<noteq> backup_of s" "tmpBinary \<noteq> usBinaryPath s"
    "usStatePath s \<notin> binary_files s"
    using assms backup_apart [of s] by (auto simp: paths_apart_def binary_files_def)
  have stable: "stable (binary_files s) ?both"
    by (intro stable_conj stable_ex stable_const stable_file [where R = "\<lambda>x. x = old"] stable_file) (simp_all add: binary_files_def)
  have backup: "triple (\<lambda>w. ?f w (usBinaryPath s) = old \<and> ?new tmpBinary w) (cp_f env (usBinaryPath s) (backup_of s))
      (\<lambda>_ w. ?f w (backup_of s) = old \<and> ?new tmpBinary w) (\<lambda>_. True)"
    unfolding cp_f_def using apart by (intro triple_sys) (auto simp: store_file_def)
  have install: "triple (\<lambda>w. ?f w (backup_of s) = old \<and> ?new tmpBinary w) (cp_f env tmpBinary (usBinaryPath s)) (\<lambda>_. ?both) (\<lambda>_. True)"
    unfolding cp_f_def using apart by (intro triple_sys) (auto simp: store_file_def)
  have chm: "triple ?both (sys (upSys env) (CRun ''chmod'' [''+x'', usBinaryPath s])) (\<lambda>_. ?both) (\<lambda>_. True)"
    by (rule triple_keeps [OF only_calls_sys stable]) simp
  have vers: "triple ?both (check_version env s v) (\<lambda>_. ?both) (\<lambda>_. True)" for v
    by (rule triple_keeps [OF check_version_spares stable])
  have mkd: "triple ?both (sys (upSys env) (COsMkdirAll p m)) (\<lambda>_. ?both) (\<lambda>_. True)" for p m
    by (rule triple_keeps [OF only_calls_sys stable]) simp
  have sta: "triple ?both (saveUpdateState env s st) (\<lambda>_ w. ?both w \<and> ?f w (usStatePath s) = Some (upEncode env st @ [CHR 0x0A])) (\<lambda>_. True)" for st
    unfolding saveUpdateState_def using apart(4)
    by (intro triple_then [OF mkd] triple_sys) (auto simp: store_file_def binary_files_def)
  have any: "triple (\<lambda>_. True) m (\<lambda>_ _. True) (\<lambda>_. True)" for m :: "'b action"
    by (auto simp: triple_def split: prod.splits sum.splits)
  show ?thesis unfolding install_steps_def Let_def
    by (rule triple_then [OF triple_wrap [OF backup] triple_then [OF triple_repair [OF install any]
        triple_then [OF triple_repair [OF chm any] triple_then [OF triple_repair [OF vers any]
          triple_then [OF triple_repair [OF sta any] triple_return]]]]]) simp
qed

definition pending_record :: "UpdateService \<Rightarrow> UpdateInfo \<Rightarrow> gotime \<Rightarrow> updateState" where
  "pending_record s info now = \<lparr>ustPendingVersion = uiLatestVersion info, ustPreviousVersion = usVersion s,
     ustBackupBinary = backup_of s, ustAppliedAt = now\<rparr>"

lemma pending_record_fields [simp]:
  "ustPendingVersion (pending_record s info now) = uiLatestVersion info" "ustPreviousVersion (pending_record s info now) = usVersion s"
  "ustBackupBinary (pending_record s info now) = backup_of s" "ustAppliedAt (pending_record s info now) = now"
  by (simp_all add: pending_record_def)

text \<open>The files an update leaves behind.\<close>

definition updated_files :: "updenv \<Rightarrow> UpdateService \<Rightarrow> UpdateInfo \<Rightarrow> gotime \<Rightarrow> string option \<Rightarrow> files \<Rightarrow> bool" where
  "updated_files env s info now old f \<longleftrightarrow> f (backup_of s) = old \<and>
     (\<exists>bin. checked_binary env info bin \<and> f (usBinaryPath s) = Some bin) \<and>
     f (usStatePath s) = Some (upEncode env (pending_record s info now) @ [CHR 0x0A])"

lemma stable_updated:
  "stable (insert (usStatePath s) (binary_files s)) (\<lambda>w. updated_files env s info now old (files_after (upSys env) junk d (wTrace w)))"
  unfolding updated_files_def
  by (intro stable_conj stable_ex stable_const stable_file [where R = "\<lambda>x. x = old"]
      stable_file [where R = "\<lambda>x. x = Some c" for c] stable_file) (simp_all add: binary_files_def)

lemma apply_success:
  assumes apart: "paths_apart s info" "export_apart env (binary_files s)" and reads: "reads_files (upSys env) junk d"
  shows "triple (\<lambda>w. files_after (upSys env) junk d (wTrace w) (usBinaryPath s) = old) (apply_steps env s info now)
     (\<lambda>_ w. updated_files env s info now old (files_after (upSys env) junk d (wTrace w))) (\<lambda>_. True)"
proof -
  let ?f = "\<lambda>w. files_after (upSys env) junk d (wTrace w)"
  let ?now = "\<lambda>w. ?f w (usBinaryPath s) = old"
  let ?ver = "\<lambda>w. uiChecksumURL info = [] \<or> (\<exists>data. ?f w (update_archive info) = Some data \<and> digest_checked env info data)"
  let ?ext = "\<lambda>w. \<exists>bin. checked_binary env info bin \<and> ?f w tmpBinary = Some bin"
  let ?upd = "\<lambda>w. updated_files env s info now old (?f w)"
  have B: "update_archive info \<notin> {usBinaryPath s}" "tmpBinary \<notin> {usBinaryPath s}"
    and S: "update_archive info \<notin> insert (usStatePath s) (binary_files s)" "tmpBinary \<notin> insert (usStatePath s) (binary_files s)"
      "''/etc/default/grub.d/lankeeper.cfg'' \<notin> insert (usStatePath s) (binary_files s)"
    using apart(1) by (auto simp: paths_apart_def binary_files_def)
  have st: "stable {usBinaryPath s} ?now" by (rule stable_file [where R = "\<lambda>x. x = old"]) simp
  have ex: "export_apart env {usBinaryPath s}"
    using apart(2) by (fastforce simp: export_apart_def binary_files_def spares_def split: option.splits elim: only_calls_mono)
  have conj: "triple ?now m (\<lambda>_. ?now) (\<lambda>_. True) \<Longrightarrow> triple P m (\<lambda>_. Q) (\<lambda>_. True) \<Longrightarrow> triple (\<lambda>w. ?now w \<and> P w) m (\<lambda>_ w. ?now w \<and> Q w) (\<lambda>_. True)"
    for m :: "unit action" and P Q by (rule triple_conj)
  have v: "triple ?now (verifyChecksum env info (update_archive info)) (\<lambda>_ w. ?now w \<and> ?ver w) (\<lambda>_. True)"
    using conj [OF triple_keeps [OF verifyChecksum_spares st] verifyChecksum_ok [OF reads]] by simp
  have e: "triple (\<lambda>w. ?now w \<and> ?ver w) (extractBinary env (update_archive info) tmpBinary) (\<lambda>_ w. ?now w \<and> ?ext w) (\<lambda>_. True)"
    by (rule conj [OF triple_keeps [OF extractBinary_spares [OF B(2)] st] extractBinary_ok [OF reads]])
  have ins: "triple (\<lambda>w. ?now w \<and> ?ext w) (install_steps env s info now) (\<lambda>_. ?upd) (\<lambda>_. True)"
    using install_success [OF apart(1)] unfolding updated_files_def pending_record_def .
  have any: "triple (\<lambda>_. True) m (\<lambda>_ _. True) (\<lambda>_. True)" for m :: "'b action"
    by (auto simp: triple_def split: prod.splits sum.splits)
  have keep: "triple ?upd m (\<lambda>_. ?upd) ?upd" if "only_calls (spares (insert (usStatePath s) (binary_files s))) m" for m :: "'b action"
    by (rule triple_stable [OF that stable_updated])
  have tail: "triple ?upd (io_then (updateBootBranding env l) (io_ignore (restart_units env))) (\<lambda>_. ?upd) (\<lambda>_. True)" for l
    by (rule triple_then [OF updateBootBranding_triple [OF stable_updated S(3)] triple_ignore [OF keep [OF restart_spares]]])
  have rm: "triple ?upd (sys (upSys env) (COsRemove p)) (\<lambda>_. ?upd) ?upd" if "p \<notin> insert (usStatePath s) (binary_files s)" for p
    by (rule keep [OF only_calls_sys]) (use that in simp)
  show ?thesis unfolding apply_steps_def Let_def update_archive_def [symmetric]
    by (rule triple_then [OF triple_keeps [OF pre_update_backup_spares [OF ex] st]
        triple_then [OF triple_wrap [OF triple_keeps [OF downloadFile_spares [OF B(1)] st]]
          triple_defer [OF triple_then [OF triple_wrap [OF v] triple_then [OF triple_wrap [OF e]
            triple_defer [OF triple_then [OF ins tail] rm [OF S(2)] any]]] rm [OF S(1)] any]]])
qed

lemma ApplyUpdate_ok:
  assumes "ApplyUpdate env info now (s, w) = (None, s', w')"
  shows "\<exists>u. apply_steps env s info now w = (Inr u, w')"
    "s' = start_watchdog (now + updateConfirmWindow)
       (s\<lparr>usPending := uiLatestVersion info, usPrevious := usVersion s, usBackupBinary := backup_of s\<rparr>)"
  using assms by (auto simp: ApplyUpdate_def split: prod.splits sum.splits if_splits)

text \<open>
  After an update that succeeded, the installed binary is the program found in an archive whose
  SHA-256 is the one in the release's checksum file (when the release has one), the backup is the binary
  that was installed before, and a watchdog is set to fire sixty seconds later.
\<close>

theorem update_installs_checked_binary:
  assumes "paths_apart s info" "export_apart env (binary_files s)" "reads_files (upSys env) junk d"
    and "ApplyUpdate env info now (s, w) = (None, s', w')"
  shows "(\<exists>bin. checked_binary env info bin \<and> files_after (upSys env) junk d (wTrace w') (usBinaryPath s) = Some bin) \<and>
    files_after (upSys env) junk d (wTrace w') (backup_of s) = files_after (upSys env) junk d (wTrace w) (usBinaryPath s) \<and>
    usPending s' = uiLatestVersion info \<and> (\<exists>k. usCancel s' = Some k \<and> (k, now + 60000000000) \<in> set (usTimers s'))"
proof -
  note ok = ApplyUpdate_ok [OF assms(4)]
  obtain u where "apply_steps env s info now w = (Inr u, w')" using ok(1) by blast
  from tripleD_ok [OF apply_success [OF assms(1-3)] refl this]
  show ?thesis unfolding ok(2) by (simp add: updated_files_def start_watchdog_def updateConfirmWindow_def nanos_def)
qed

section \<open>Back to the old version\<close>

text \<open>
  C25. An update that is not confirmed is undone even though installing it restarts the program. The
  process that comes up reads the pending update from the state file and has one watchdog, which fires sixty
  seconds after the update (at once when that is over); when it fires and its copy succeeds, the binary is
  again the one from before the update and nothing is pending.
\<close>

theorem unconfirmed_update_reverts:
  assumes "paths_apart s info" "export_apart env (binary_files s)" "reads_files (upSys env) junk d"
    and "ApplyUpdate env info now (s, w) = (None, s', w')" "uiLatestVersion info \<noteq> []"
    and "upDecode env (upEncode env (pending_record s info now) @ [CHR 0x0A]) = Inr (pending_record s info now)"
    and "NewUpdateService env t v (s', w') = (s2, w2)"
    and "watchdog_fires env 0 (s2, w2) = (s3, w3)" "seAnswer (upSys env) (wTrace w2) (restore_call s) = Inr out"
  shows "usTimers s2 = [(0, max t (now + 60000000000))] \<and> usPending s2 = uiLatestVersion info \<and>
    files_after (upSys env) junk d (wTrace w3) (usBinaryPath s) = files_after (upSys env) junk d (wTrace w) (usBinaryPath s) \<and>
    usPending s3 = [] \<and> usTimers s3 = []"
proof -
  let ?f = "files_after (upSys env) junk d"
  note ok = ApplyUpdate_ok [OF assms(4)]
  obtain u where "apply_steps env s info now w = (Inr u, w')" using ok(1) by blast
  from tripleD_ok [OF apply_success [OF assms(1-3)] refl this]
  have upd: "updated_files env s info now (?f (wTrace w) (usBinaryPath s)) (?f (wTrace w'))" .
  then have read: "seAnswer (upSys env) (wTrace w') (COsReadFile (usStatePath s)) = Inr (upEncode env (pending_record s info now) @ [CHR 0x0A])"
    using spec [OF spec [OF assms(3) [unfolded reads_files_def]], of "wTrace w'" "usStatePath s"] by (simp add: updated_files_def)
  define s1 where "s1 = fresh_service s' v"
  have paths: "usStatePath s' = usStatePath s" "usBinaryPath s' = usBinaryPath s"
    unfolding ok(2) by (simp_all add: start_watchdog_def)
  have s1: "usStatePath s1 = usStatePath s" by (simp add: s1_def fresh_service_def paths)
  have bne: "backup_of s \<noteq> []" by (simp add: backup_of_def)
  have new: "s2 = start_watchdog (t + max 0 (updateConfirmWindow - (t - now)))
      (s1\<lparr>usPending := uiLatestVersion info, usPrevious := usVersion s, usBackupBinary := backup_of s\<rparr>)"
    "w2 = w'\<lparr>wTrace := wTrace w' @ [COsReadFile (usStatePath s)]\<rparr>"
    using assms(7) read bne assms(5) unfolding NewUpdateService_def restorePendingUpdate_def
    by (simp_all add: sys_def s1_def [symmetric] s1 assms(6))
  have s2: "usTimers s2 = [(0, max t (now + 60000000000))]" "usPending s2 = uiLatestVersion info" "usCancel s2 = Some 0"
    "usBackupBinary s2 = backup_of s" "usBinaryPath s2 = usBinaryPath s" "usStatePath s2 = usStatePath s"
    unfolding new(1) by (auto simp: start_watchdog_def s1_def fresh_service_def paths updateConfirmWindow_def nanos_def)
  define wc where "wc = w2\<lparr>wTrace := wTrace w2 @ [restore_call s]\<rparr>"
  define wb where "wb = (if usVersion s \<noteq> [] then snd (updateBootBranding env (usVersion s) wc) else wc)"
  have prev: "usPrevious s2 = usVersion s" unfolding new(1) by (simp add: start_watchdog_def)
  define s4 where "s4 = cancel_watchdog (s2\<lparr>usTimers := filter (\<lambda>t. fst t \<noteq> 0) (usTimers s2)\<rparr>)"
  have s4: "usTimers s4 = []" "usBackupBinary s4 = backup_of s" "usBinaryPath s4 = usBinaryPath s"
    "usStatePath s4 = usStatePath s" "usPrevious s4 = usVersion s"
    by (simp_all add: s4_def cancel_watchdog_def s2 prev)
  have run: "w3 = snd (restart_units env (snd (sys (upSys env) (COsRemove (usStatePath s)) wb)))" "usPending s3 = []" "usTimers s3 = []"
    using assms(8,9) bne unfolding watchdog_fires_def Rollback_def wb_def wc_def prod.case s4_def [symmetric] Let_def
    by (cases "usVersion s = []"; auto simp: s4 cp_f_def sys_def restore_call_def forget_pending_def clearUpdateState_def)+
  let ?P = "\<lambda>w1. ?f (wTrace w1) (usBinaryPath s) = ?f (wTrace w) (usBinaryPath s)"
  have st: "stable {usBinaryPath s} ?P" by (rule stable_file [where R = "\<lambda>x. x = c" for c]) simp
  have apart: "usStatePath s \<notin> {usBinaryPath s}" "''/etc/default/grub.d/lankeeper.cfg'' \<notin> {usBinaryPath s}"
    using assms(1) by (auto simp: paths_apart_def binary_files_def)
  have "?f (wTrace w2) (backup_of s) = ?f (wTrace w) (usBinaryPath s)" using upd by (simp add: new(2) updated_files_def)
  then have "?P wc" using assms(9) unfolding wc_def by (simp add: restore_call_def store_file_def)
  then have "?P wb" unfolding wb_def
    using triple_snd [OF updateBootBranding_triple [OF st apart(2)], of wc env "usVersion s"] by simp
  then have "?P (snd (sys (upSys env) (COsRemove (usStatePath s)) wb))"
    using apart(1) by (intro triple_snd [OF triple_stable [OF only_calls_sys st]]) simp_all
  then have "?P w3" unfolding run(1) by (intro triple_snd [OF triple_stable [OF restart_spares st]])
  then show ?thesis using s2 run by blast
qed

section \<open>A release installed\<close>

definition demo_service :: UpdateService where
  "demo_service = \<lparr>usVersion = ''v1.0.0'', usCommit = [], usDate = [], usArchitecture = ''amd64'',
     usBinaryPath = ''/usr/local/bin/lankeeper'', usStatePath = ''/var/lib/lankeeper/update-state.json'',
     usPending = [], usPrevious = [], usBackupBinary = [], usTimers = [], usNextTimer = 0, usCancel = None\<rparr>"

definition demo_info :: UpdateInfo where
  "demo_info = \<lparr>uiAvailable = True, uiCurrentVersion = ''v1.0.0'', uiLatestVersion = ''v1.1.0'', uiArchitecture = ''amd64'',
     uiReleaseNotes = [], uiDownloadURL = ''D'', uiChecksumURL = ''C'', uiAssetName = ''lk-linux-amd64.tar.gz'',
     uiPublishedAt = [], uiAssetSize = 1\<rparr>"

definition demo_files :: files where
  "demo_files = [''/usr/local/bin/lankeeper'' \<mapsto> ''OLD'']"

definition demo_env :: "string \<Rightarrow> updenv" where
  "demo_env printed = \<lparr>upSys = obedient demo_files printed,
     upGet = (\<lambda>_ url. Inr (200, if url = ''C'' then ''abc  lk-linux-amd64.tar.gz'' else ''ARCHIVE'')),
     upRelease = (\<lambda>_. Inl []), upSha256 = (\<lambda>_. ''abc''),
     upGunzip = (\<lambda>_. Inr [Inr \<lparr>tmName = ''bin/lankeeper'', tmRegular = True, tmContent = ''NEW''\<rparr>]),
     upEncode = (\<lambda>_. []), upDecode = (\<lambda>_. Inr (pending_record demo_service demo_info 5)), upExport = None\<rparr>"

definition demo_world :: world where
  "demo_world = \<lparr>wStore = \<lparr>cfg = zero_Config, disk = Map.empty\<rparr>, wTrace = []\<rparr>"

lemma demo_apart: "paths_apart demo_service demo_info" "export_apart (demo_env p) S"
  by (simp add: paths_apart_def binary_files_def backup_of_def update_archive_def, code_simp) (simp add: export_apart_def demo_env_def)

lemma obedient_answer: "target c \<noteq> None \<or> (\<exists>n as. c = CRun n as) \<or> (\<exists>n as. c = COsExec n as) \<or> (\<exists>n m. c = COsChmod n m) \<or> (\<exists>n m. c = COsMkdirAll n m)
    \<Longrightarrow> seAnswer (obedient d out) tr c = Inr out"
  by (cases c) (auto simp: obedient_def)

lemma obedient_read: "seAnswer (obedient d out) (tr @ [COsWriteFile p x m]) (COsReadFile p) = Inr x"
  "seAnswer (obedient d out) (tr @ [COsWriteFile p x m, COsReadFile p]) (COsReadFile p) = Inr x"
  by (simp_all add: obedient_def store_file_def)

lemma demo_archive: "update_archive demo_info = ''/tmp/lk-linux-amd64.tar.gz''" "path_Base ''/tmp/lk-linux-amd64.tar.gz'' = ''lk-linux-amd64.tar.gz''"
  by code_simp+

lemma demo_values:
  "expected_hash ''abc  lk-linux-amd64.tar.gz'' ''lk-linux-amd64.tar.gz'' = ''abc''"
  "path_Base ''bin/lankeeper'' = ''lankeeper''"
  "Contains ''1.1.0'' (TrimPrefix ''v1.1.0'' ''v'')" "\<not> Contains ''1.0.0'' (TrimPrefix ''v1.1.0'' ''v'')"
  "TrimSpace ''v1.1.0'' \<noteq> []"
  by code_simp+

lemma demo_env_fields:
  "upSys (demo_env p) = obedient demo_files p" "upExport (demo_env p) = None"
  "upGet (demo_env p) tr ''D'' = Inr (200, ''ARCHIVE'')" "upGet (demo_env p) tr ''C'' = Inr (200, ''abc  lk-linux-amd64.tar.gz'')"
  "upSha256 (demo_env p) x = ''abc''" "upGunzip (demo_env p) x = Inr [Inr \<lparr>tmName = ''bin/lankeeper'', tmRegular = True, tmContent = ''NEW''\<rparr>]"
  by (simp_all add: demo_env_def)

lemma demo_info_fields:
  "uiDownloadURL demo_info = ''D''" "uiChecksumURL demo_info = ''C''" "uiLatestVersion demo_info = ''v1.1.0''"
  by (simp_all add: demo_info_def)

lemma demo_prepare:
  assumes "wTrace w0 = []"
  shows "downloadFile (demo_env p) ''D'' (update_archive demo_info) w0
       = (Inr (), w0\<lparr>wTrace := [COsWriteFile (update_archive demo_info) ''ARCHIVE'' 438]\<rparr>)"
    and "verifyChecksum (demo_env p) demo_info (update_archive demo_info) (w0\<lparr>wTrace := [COsWriteFile (update_archive demo_info) ''ARCHIVE'' 438]\<rparr>)
       = (Inr (), w0\<lparr>wTrace := [COsWriteFile (update_archive demo_info) ''ARCHIVE'' 438, COsReadFile (update_archive demo_info)]\<rparr>)"
    and "\<exists>tr. extractBinary (demo_env p) (update_archive demo_info) tmpBinary
         (w0\<lparr>wTrace := [COsWriteFile (update_archive demo_info) ''ARCHIVE'' 438, COsReadFile (update_archive demo_info)]\<rparr>)
       = (Inr (), w0\<lparr>wTrace := tr\<rparr>)"
proof -
  let ?A = "update_archive demo_info"
  have t: "take 65536 ''abc  lk-linux-amd64.tar.gz'' = ''abc  lk-linux-amd64.tar.gz''" by simp
  show "downloadFile (demo_env p) ''D'' ?A w0 = (Inr (), w0\<lparr>wTrace := [COsWriteFile ?A ''ARCHIVE'' 438]\<rparr>)"
    using assms by (simp add: downloadFile_def demo_env_fields io_simps obedient_answer)
  show "verifyChecksum (demo_env p) demo_info ?A (w0\<lparr>wTrace := [COsWriteFile ?A ''ARCHIVE'' 438]\<rparr>)
       = (Inr (), w0\<lparr>wTrace := [COsWriteFile ?A ''ARCHIVE'' 438, COsReadFile ?A]\<rparr>)"
    using obedient_read(1) [of demo_files p "[]" ?A "''ARCHIVE''" 438]
    by (simp add: verifyChecksum_def demo_env_fields demo_info_fields t demo_archive demo_values io_simps)
  show "\<exists>tr. extractBinary (demo_env p) ?A tmpBinary (w0\<lparr>wTrace := [COsWriteFile ?A ''ARCHIVE'' 438, COsReadFile ?A]\<rparr>) = (Inr (), w0\<lparr>wTrace := tr\<rparr>)"
    using obedient_read(2) [of demo_files p "[]" ?A "''ARCHIVE''" 438]
    by (auto simp: extractBinary_def demo_env_fields demo_values io_simps obedient_answer)
qed

lemma demo_installs:
  "fst (install_steps (demo_env ''1.0.0'') demo_service demo_info 5 w) = Inl ''version verification failed''"
  "\<exists>u. fst (install_steps (demo_env ''1.1.0'') demo_service demo_info 5 w) = Inr u"
  by (simp_all add: install_steps_def Let_def io_simps cp_f_def demo_env_fields obedient_answer io_repair_def check_version_def
      runBinaryVersion_def demo_info_fields demo_values saveUpdateState_def)

lemma fst_io_defer [simp]: "fst (io_defer c m w) = fst (m w)"
  by (simp add: io_defer_def split: prod.splits)

lemma fst_io_then: "fst (io_then m n w) = (case fst (m w) of Inl e \<Rightarrow> Inl e | Inr _ \<Rightarrow> fst (n (snd (m w))))"
  by (simp add: io_simps split: prod.splits sum.splits)

lemma fst_branding: "fst (updateBootBranding env v w) = Inr ()"
  by (simp add: updateBootBranding_def io_return_def io_ignore_def)

lemma demo_apply:
  assumes "\<And>w. fst (install_steps (demo_env p) demo_service demo_info 5 w) = r"
  shows "fst (apply_steps (demo_env p) demo_service demo_info 5 demo_world) = r"
proof -
  have t0: "wTrace demo_world = []" by (simp add: demo_world_def)
  obtain tr where ex: "extractBinary (demo_env p) (update_archive demo_info) tmpBinary
       (demo_world\<lparr>wTrace := [COsWriteFile (update_archive demo_info) ''ARCHIVE'' 438, COsReadFile (update_archive demo_info)]\<rparr>)
     = (Inr (), demo_world\<lparr>wTrace := tr\<rparr>)" using demo_prepare(3) [OF t0] by blast
  show ?thesis unfolding apply_steps_def Let_def update_archive_def [symmetric]
    by (simp add: fst_io_then io_wrap_def pre_update_backup_def demo_env_fields demo_info_fields io_return_def
        demo_prepare [OF t0] ex assms fst_branding io_ignore_def split: sum.splits)
qed

lemma demo_runs:
  "\<exists>s w. ApplyUpdate (demo_env ''1.0.0'') demo_info 5 (demo_service, demo_world) = (Some ''version verification failed'', s, w)"
  "\<exists>s w. ApplyUpdate (demo_env ''1.1.0'') demo_info 5 (demo_service, demo_world) = (None, s, w)"
  using demo_apply [OF demo_installs(1)] demo_apply [of "''1.1.0''" "Inr ()"] demo_installs(2)
  by (auto simp: ApplyUpdate_def demo_info_fields split: prod.splits sum.splits)

lemma demo_paths: "usBinaryPath demo_service = ''/usr/local/bin/lankeeper''" "files_after env junk demo_files (wTrace demo_world) ''/usr/local/bin/lankeeper'' = Some ''OLD''"
  by (simp_all add: demo_service_def demo_files_def demo_world_def)

theorem failed_update_keeps_binary_witness:
  "\<exists>s w. ApplyUpdate (demo_env ''1.0.0'') demo_info 5 (demo_service, demo_world) = (Some ''version verification failed'', s, w) \<and>
     (files_after (obedient demo_files ''1.0.0'') (\<lambda>_. None) demo_files (wTrace w) ''/usr/local/bin/lankeeper'' = Some ''OLD'' \<or>
      restore_failed (demo_env ''1.0.0'') demo_service (wTrace w))"
proof -
  obtain s w where run: "ApplyUpdate (demo_env ''1.0.0'') demo_info 5 (demo_service, demo_world) = (Some ''version verification failed'', s, w)"
    using demo_runs(1) by blast
  show ?thesis using failed_update_keeps_binary [OF demo_apart run, of "\<lambda>_. None" demo_files] run
    unfolding demo_paths demo_env_fields(1) by blast
qed

lemma demo_reads: "reads_files (upSys (demo_env p)) (\<lambda>_. None) demo_files"
  unfolding demo_env_fields(1) by (rule obedient_reads)

theorem update_installs_checked_binary_witness:
  "\<exists>s w. ApplyUpdate (demo_env ''1.1.0'') demo_info 5 (demo_service, demo_world) = (None, s, w) \<and>
     (\<exists>bin. checked_binary (demo_env ''1.1.0'') demo_info bin \<and>
        files_after (obedient demo_files ''1.1.0'') (\<lambda>_. None) demo_files (wTrace w) ''/usr/local/bin/lankeeper'' = Some bin)"
proof -
  obtain s w where run: "ApplyUpdate (demo_env ''1.1.0'') demo_info 5 (demo_service, demo_world) = (None, s, w)"
    using demo_runs(2) by blast
  show ?thesis using update_installs_checked_binary [OF demo_apart demo_reads run] run
    unfolding demo_paths demo_env_fields(1) by blast
qed

theorem unconfirmed_update_reverts_witness:
  "\<exists>s' w' s2 w2 s3 w3. ApplyUpdate (demo_env ''1.1.0'') demo_info 5 (demo_service, demo_world) = (None, s', w') \<and>
     NewUpdateService (demo_env ''1.1.0'') 9 ''v1.1.0'' (s', w') = (s2, w2) \<and> usTimers s2 = [(0, 60000000005)] \<and>
     watchdog_fires (demo_env ''1.1.0'') 0 (s2, w2) = (s3, w3) \<and>
     files_after (obedient demo_files ''1.1.0'') (\<lambda>_. None) demo_files (wTrace w3) ''/usr/local/bin/lankeeper'' = Some ''OLD''"
proof -
  obtain s' w' where run: "ApplyUpdate (demo_env ''1.1.0'') demo_info 5 (demo_service, demo_world) = (None, s', w')"
    using demo_runs(2) by blast
  obtain s2 w2 where new: "NewUpdateService (demo_env ''1.1.0'') 9 ''v1.1.0'' (s', w') = (s2, w2)" by fastforce
  obtain s3 w3 where fire: "watchdog_fires (demo_env ''1.1.0'') 0 (s2, w2) = (s3, w3)" by fastforce
  have v: "uiLatestVersion demo_info \<noteq> []" by (simp add: demo_info_def)
  have dec: "upDecode (demo_env ''1.1.0'') x = Inr (pending_record demo_service demo_info 5)" for x by (simp add: demo_env_def)
  have ans: "seAnswer (upSys (demo_env ''1.1.0'')) (wTrace w2) (restore_call demo_service) = Inr ''1.1.0''"
    unfolding demo_env_fields(1) by (rule obedient_answer) (simp add: restore_call_def)
  from unconfirmed_update_reverts [OF demo_apart demo_reads run v dec new fire ans] run new fire
  show ?thesis unfolding demo_paths demo_env_fields(1) by auto
qed

end
