(* ===== verification/SSE.thy ===== *)
theory SSE
  imports Prelude "HOL-Library.Multiset"
begin

text \<open>
  The broker of server-sent events (\<open>web/sse.go\<close>). Its goroutines interleave: publishers hold the read
  lock while they walk over the clients, subscribing and deleting take the write lock, and a channel is
  closed after its entry has been deleted and the lock released. The steps of the relation below are the
  pieces between two scheduling points, guarded by the lock.
\<close>

section \<open>Channels\<close>

record chan =
  chBuf :: "string list"
  chClosed :: bool
  chGot :: "string list"

definition chan_cap :: nat where "chan_cap = 16"

definition make_chan :: chan where
  "make_chan = \<lparr>chBuf = [], chClosed = False, chGot = []\<rparr>"

text \<open>
  A send \<open>ch <- msg\<close> panics on a closed channel, blocks on a full buffer and otherwise appends. In a
  \<open>select\<close> with a \<open>default\<close> branch a send that would block leaves the channel as it is.
\<close>

datatype send_result = Done chan | Blocks | Panics

definition chan_send :: "string \<Rightarrow> chan \<Rightarrow> send_result" where
  "chan_send msg ch =
     (if chClosed ch then Panics
      else if length (chBuf ch) < chan_cap then Done (ch\<lparr>chBuf := chBuf ch @ [msg]\<rparr>) else Blocks)"

definition try_send :: "string \<Rightarrow> chan \<Rightarrow> send_result" where
  "try_send msg ch = (case chan_send msg ch of Blocks \<Rightarrow> Done ch | r \<Rightarrow> r)"

text \<open>\<open>close(ch)\<close>: closing twice panics.\<close>

definition close_chan :: "chan \<Rightarrow> chan option" where
  "close_chan ch = (if chClosed ch then None else Some (ch\<lparr>chClosed := True\<rparr>))"

section \<open>The broker\<close>

text \<open>
  Channels are numbered in the order they are made. \<open>brPubs\<close> holds the publishers under way with the
  clients they have still to serve, \<open>brClosing\<close> the channels deleted and not yet closed.
\<close>

record broker =
  brClients :: "nat set"
  brChans :: "nat \<Rightarrow> chan"
  brNext :: nat
  brPubs :: "(string \<times> nat list) list"
  brClosing :: "nat set"
  brPublished :: "string set"
  brPanic :: bool

definition NewSSEBroker :: broker where
  "NewSSEBroker = \<lparr>brClients = {}, brChans = (\<lambda>_. make_chan), brNext = 0, brPubs = [], brClosing = {},
     brPublished = {}, brPanic = False\<rparr>"

definition set_chan :: "nat \<Rightarrow> chan option \<Rightarrow> broker \<Rightarrow> broker" where
  "set_chan i r b = (case r of
       None \<Rightarrow> b\<lparr>brPanic := True\<rparr>
     | Some ch \<Rightarrow> b\<lparr>brChans := (brChans b)(i := ch)\<rparr>)"

definition Subscribe :: "broker \<Rightarrow> broker" where
  "Subscribe b = b\<lparr>brClients := insert (brNext b) (brClients b),
     brChans := (brChans b)(brNext b := make_chan), brNext := brNext b + 1\<rparr>"

definition Unsubscribe_delete :: "nat \<Rightarrow> broker \<Rightarrow> broker" where
  "Unsubscribe_delete i b = b\<lparr>brClients := brClients b - {i}, brClosing := insert i (brClosing b)\<rparr>"

definition Unsubscribe_close :: "nat \<Rightarrow> broker \<Rightarrow> broker" where
  "Unsubscribe_close i b = set_chan i (close_chan (brChans b i)) (b\<lparr>brClosing := brClosing b - {i}\<rparr>)"

text \<open>\<open>fmt.Sprintf("event: %s\ndata: %s\n\n", event, jsonData)\<close>.\<close>

definition sse_message :: "string \<Rightarrow> string \<Rightarrow> string" where
  "sse_message ev json = ''event: '' @ ev @ [CHR 0x0A] @ ''data: '' @ json @ [CHR 0x0A, CHR 0x0A]"

definition Publish_lock :: "string \<Rightarrow> nat list \<Rightarrow> broker \<Rightarrow> broker" where
  "Publish_lock msg ids b = b\<lparr>brPubs := brPubs b @ [(msg, ids)], brPublished := insert msg (brPublished b)\<rparr>"

text \<open>
  The next step of a publisher: one send, or the release of the lock at the end. \<open>None\<close>: the goroutine is
  blocked and has no step.
\<close>

definition Publish_send :: "nat \<Rightarrow> broker \<Rightarrow> broker option" where
  "Publish_send k b = (case brPubs b ! k of
       (msg, []) \<Rightarrow> Some (b\<lparr>brPubs := remove_nth k (brPubs b)\<rparr>)
     | (msg, i # rest) \<Rightarrow> (case try_send msg (brChans b i) of
           Done ch \<Rightarrow> Some (b\<lparr>brPubs := (brPubs b)[k := (msg, rest)], brChans := (brChans b)(i := ch)\<rparr>)
         | Blocks \<Rightarrow> None
         | Panics \<Rightarrow> Some (b\<lparr>brPubs := (brPubs b)[k := (msg, rest)], brPanic := True\<rparr>)))"

definition Receive :: "nat \<Rightarrow> broker \<Rightarrow> broker" where
  "Receive i b = (case chBuf (brChans b i) of
       [] \<Rightarrow> b
     | m # ms \<Rightarrow> b\<lparr>brChans := (brChans b)(i := (brChans b i)\<lparr>chBuf := ms, chGot := chGot (brChans b i) @ [m]\<rparr>)\<rparr>)"

definition ClientCount :: "broker \<Rightarrow> nat" where
  "ClientCount b = card (brClients b)"

text \<open>
  A request handler subscribes, receives, and unsubscribes once, when its request ends: deleting and
  closing are the two halves of the deferred call. Publishers visit the clients in any order.
\<close>

inductive br_step :: "broker \<Rightarrow> broker \<Rightarrow> bool" where
  subscribe: "brPubs b = [] \<Longrightarrow> br_step b (Subscribe b)"
| unsub_delete: "brPubs b = [] \<Longrightarrow> i \<in> brClients b \<Longrightarrow> br_step b (Unsubscribe_delete i b)"
| unsub_close: "i \<in> brClosing b \<Longrightarrow> br_step b (Unsubscribe_close i b)"
| publish: "mset ids = mset_set (brClients b) \<Longrightarrow> br_step b (Publish_lock msg ids b)"
| send: "k < length (brPubs b) \<Longrightarrow> Publish_send k b = Some b' \<Longrightarrow> br_step b b'"
| receive: "i < brNext b \<Longrightarrow> br_step b (Receive i b)"

inductive br_reachable :: "broker \<Rightarrow> bool" where
  init: "br_reachable NewSSEBroker"
| step: "br_reachable b \<Longrightarrow> br_step b b' \<Longrightarrow> br_reachable b'"

section \<open>No send on a closed channel\<close>

definition chan_ok :: "string set \<Rightarrow> chan \<Rightarrow> bool" where
  "chan_ok P ch \<longleftrightarrow> length (chBuf ch) \<le> chan_cap \<and> set (chBuf ch) \<subseteq> P \<and> set (chGot ch) \<subseteq> P"

definition broker_ok :: "broker \<Rightarrow> bool" where
  "broker_ok b \<longleftrightarrow> \<not> brPanic b \<and> finite (brClients b) \<and>
     (\<forall>i \<in> brClients b \<union> brClosing b. \<not> chClosed (brChans b i) \<and> i < brNext b) \<and>
     brClients b \<inter> brClosing b = {} \<and>
     (\<forall>(msg, ids) \<in> set (brPubs b). set ids \<subseteq> brClients b \<and> msg \<in> brPublished b) \<and>
     (\<forall>i. chan_ok (brPublished b) (brChans b i))"

lemma broker_okD:
  assumes "broker_ok b"
  shows "\<not> brPanic b" "finite (brClients b)" "brClients b \<inter> brClosing b = {}"
    "i \<in> brClients b \<Longrightarrow> \<not> chClosed (brChans b i) \<and> i < brNext b"
    "i \<in> brClosing b \<Longrightarrow> \<not> chClosed (brChans b i) \<and> i < brNext b"
    "(msg, ids) \<in> set (brPubs b) \<Longrightarrow> set ids \<subseteq> brClients b \<and> msg \<in> brPublished b"
    "chan_ok (brPublished b) (brChans b i)"
  using assms unfolding broker_ok_def by blast+

lemma chan_ok_mono: "chan_ok P ch \<Longrightarrow> P \<subseteq> Q \<Longrightarrow> chan_ok Q ch"
  by (auto simp: chan_ok_def)

lemma chan_ok_make [simp]: "chan_ok P make_chan"
  by (simp add: chan_ok_def make_chan_def)

lemma try_send_open:
  assumes "\<not> chClosed ch" "chan_ok P ch" "msg \<in> P"
  obtains ch' where "try_send msg ch = Done ch'" "\<not> chClosed ch'" "chan_ok P ch'"
proof (cases "length (chBuf ch) < chan_cap")
  case True
  then show ?thesis using assms by (intro that [of "ch\<lparr>chBuf := chBuf ch @ [msg]\<rparr>"]) (simp_all add: try_send_def chan_send_def chan_ok_def)
next
  case False
  then show ?thesis using assms by (intro that [of ch]) (simp_all add: try_send_def chan_send_def)
qed

lemma send_ok:
  assumes ok: "broker_ok b" and k: "k < length (brPubs b)"
  shows "\<exists>b'. Publish_send k b = Some b' \<and> broker_ok b'"
proof -
  obtain msg ids where p: "brPubs b ! k = (msg, ids)" by fastforce
  then have mem: "(msg, ids) \<in> set (brPubs b)" using k nth_mem by fastforce
  note pub = broker_okD(6) [OF ok mem]
  show ?thesis
  proof (cases ids)
    case Nil
    then have eq: "Publish_send k b = Some (b\<lparr>brPubs := remove_nth k (brPubs b)\<rparr>)" by (simp add: Publish_send_def p)
    have "\<forall>x \<in> set (remove_nth k (brPubs b)). x \<in> set (brPubs b)" using set_remove_nth [of k "brPubs b"] by blast
    then show ?thesis unfolding eq using ok by (simp add: broker_ok_def)
  next
    case (Cons i rest)
    then have i: "i \<in> brClients b" using pub by auto
    obtain ch' where ch': "try_send msg (brChans b i) = Done ch'" "\<not> chClosed ch'" "chan_ok (brPublished b) ch'"
      using try_send_open broker_okD(4,7) [OF ok] i pub by blast
    have eq: "Publish_send k b = Some (b\<lparr>brPubs := (brPubs b)[k := (msg, rest)], brChans := (brChans b)(i := ch')\<rparr>)"
      by (simp add: Publish_send_def p Cons ch')
    have "set rest \<subseteq> brClients b" "msg \<in> brPublished b" using pub Cons by auto
    then have "\<forall>(m, ids) \<in> set ((brPubs b)[k := (msg, rest)]). set ids \<subseteq> brClients b \<and> m \<in> brPublished b"
      using set_update_subset_insert [of "brPubs b" k "(msg, rest)"] broker_okD(6) [OF ok] by fast
    then show ?thesis unfolding eq using ok ch' i unfolding broker_ok_def by simp
  qed
qed

lemma step_ok: "br_step b b' \<Longrightarrow> broker_ok b \<Longrightarrow> broker_ok b'"
proof (induction rule: br_step.induct)
  case (subscribe b)
  have "brNext b \<notin> brClosing b" using broker_okD(5) [OF subscribe(2), of "brNext b"] by blast
  then show ?case using subscribe by (auto simp: broker_ok_def Subscribe_def make_chan_def chan_ok_def less_Suc_eq)
next
  case (unsub_delete b i)
  then show ?case by (auto simp: broker_ok_def Unsubscribe_delete_def)
next
  case (unsub_close i b)
  have "chan_ok (brPublished b) ((brChans b i)\<lparr>chClosed := True\<rparr>)"
    using broker_okD(7) [OF unsub_close(2), of i] by (simp add: chan_ok_def)
  then show ?case using unsub_close broker_okD(5) [OF unsub_close(2,1)]
    by (auto simp: broker_ok_def Unsubscribe_close_def set_chan_def close_chan_def)
next
  case (publish ids b msg)
  have "set ids = brClients b" using publish broker_okD(2) [OF publish(2)] by (metis finite_set_mset_mset_set set_mset_mset)
  moreover have "chan_ok (insert msg (brPublished b)) (brChans b i)" for i
    using chan_ok_mono [OF broker_okD(7) [OF publish(2)]] by blast
  ultimately show ?case using publish(2) by (auto simp: broker_ok_def Publish_lock_def)
next
  case (send k b b')
  then show ?case using send_ok [of b k] by auto
next
  case (receive i b)
  show ?case
  proof (cases "chBuf (brChans b i)")
    case Nil
    then show ?thesis using receive by (simp add: Receive_def)
  next
    case (Cons m ms)
    have "chan_ok (brPublished b) ((brChans b i)\<lparr>chBuf := ms, chGot := chGot (brChans b i) @ [m]\<rparr>)"
      using broker_okD(7) [OF receive(2), of i] Cons by (simp add: chan_ok_def)
    then show ?thesis using receive(2) Cons by (auto simp: broker_ok_def Receive_def)
  qed
qed

lemma reachable_ok: "br_reachable b \<Longrightarrow> broker_ok b"
proof (induction rule: br_reachable.induct)
  case init
  show ?case by (simp add: broker_ok_def NewSSEBroker_def)
next
  case (step b b')
  show ?case by (rule step_ok [OF step.hyps(2) step.IH])
qed

text \<open>
  C23. Whatever the interleaving of subscribers, readers and publishers, the broker never sends on a
  closed channel and never closes one twice; a slow reader holds at most sixteen messages, and a reader
  gets only messages that were published.
\<close>

theorem sse_broker_safe:
  assumes "br_reachable b"
  shows "\<not> brPanic b \<and> (\<forall>i. length (chBuf (brChans b i)) \<le> 16 \<and>
    set (chGot (brChans b i) @ chBuf (brChans b i)) \<subseteq> brPublished b)"
  using broker_okD(1,7) [OF reachable_ok [OF assms]] by (auto simp: chan_ok_def chan_cap_def)

section \<open>Publishing does not wait for readers\<close>

text \<open>The sends and the unlocks that the publishers under way have still to make.\<close>

definition pub_work :: "broker \<Rightarrow> nat" where
  "pub_work b = sum_list (map (\<lambda>(msg, ids). length ids + 1) (brPubs b))"

text \<open>Steps of publishers only, no reader among them.\<close>

inductive pub_run :: "nat \<Rightarrow> broker \<Rightarrow> broker \<Rightarrow> bool" where
  none: "pub_run 0 b b"
| more: "k < length (brPubs b) \<Longrightarrow> Publish_send k b = Some b1 \<Longrightarrow> pub_run n b1 b' \<Longrightarrow> pub_run (Suc n) b b'"

lemma sum_list_update_nat: "k < length xs \<Longrightarrow> (sum_list (xs[k := y]) :: nat) + xs ! k = sum_list xs + y"
proof (induction xs arbitrary: k)
  case (Cons x xs)
  then show ?case by (cases k) auto
qed simp

lemma send_work:
  assumes k: "k < length (brPubs b)" and step: "Publish_send k b = Some b'"
  shows "Suc (pub_work b') = pub_work b"
proof -
  let ?w = "\<lambda>(msg :: string, ids :: nat list). length ids + 1"
  obtain msg ids where p: "brPubs b ! k = (msg, ids)" by fastforce
  show ?thesis
  proof (cases ids)
    case Nil
    have "mset (brPubs b) = add_mset (msg, []) (mset (remove_nth k (brPubs b)))"
      using mset_remove_nth [OF k] by (simp add: p Nil)
    then have "sum_mset (image_mset ?w (mset (brPubs b))) = sum_mset (image_mset ?w (mset (remove_nth k (brPubs b)))) + 1" by simp
    moreover have "brPubs b' = remove_nth k (brPubs b)" using step by (auto simp: Publish_send_def p Nil)
    ultimately show ?thesis by (simp add: pub_work_def sum_mset_sum_list [symmetric])
  next
    case (Cons i rest)
    have "sum_list ((map ?w (brPubs b))[k := length rest + 1]) + ?w (brPubs b ! k) = sum_list (map ?w (brPubs b)) + (length rest + 1)"
      using sum_list_update_nat [of k "map ?w (brPubs b)"] k by simp
    moreover have "brPubs b' = (brPubs b)[k := (msg, rest)]"
      using step by (auto simp: Publish_send_def p Cons split: send_result.splits)
    ultimately show ?thesis by (simp add: pub_work_def p Cons map_update)
  qed
qed

lemma pub_run_ok: "pub_run n b b' \<Longrightarrow> broker_ok b \<Longrightarrow> broker_ok b'"
proof (induction rule: pub_run.induct)
  case (more k b b1 n b')
  then show ?case using send_ok [of b k] by auto
qed

lemma pub_run_count: "pub_run n b b' \<Longrightarrow> n \<le> pub_work b \<and> (n = pub_work b \<longleftrightarrow> brPubs b' = [])"
proof (induction rule: pub_run.induct)
  case (none b)
  then show ?case by (cases "brPubs b") (auto simp: pub_work_def)
next
  case (more k b b1 n b')
  then show ?case using send_work [OF more(1,2)] by auto
qed

lemma pub_run_all: "broker_ok b \<Longrightarrow> n \<le> pub_work b \<Longrightarrow> \<exists>b'. pub_run n b b'"
proof (induction n arbitrary: b)
  case 0
  then show ?case by (auto intro: pub_run.none)
next
  case (Suc n)
  then have "brPubs b \<noteq> []" by (auto simp: pub_work_def)
  then have k: "0 < length (brPubs b)" by simp
  obtain b1 where b1: "Publish_send 0 b = Some b1" "broker_ok b1" using send_ok [OF Suc.prems(1) k] by blast
  have "n \<le> pub_work b1" using send_work [OF k b1(1)] Suc.prems(2) by simp
  then obtain b' where "pub_run n b1 b'" using Suc.IH [OF b1(2)] by blast
  then show ?case using pub_run.more [OF k b1(1)] by blast
qed

text \<open>
  C24. A publisher that holds the lock never waits for a reader. In every reachable state, however full the
  buffers, each publisher under way has a next step, and it does not panic. With no step of a reader, the
  publishers' steps in any order come to at most as many as there are sends and unlocks outstanding; that many
  can be taken, and after exactly that many every publisher has returned and released the lock.
\<close>

theorem publish_terminates:
  assumes "br_reachable b"
  shows "(\<forall>k < length (brPubs b). \<exists>b'. Publish_send k b = Some b' \<and> \<not> brPanic b') \<and>
    (\<exists>b'. pub_run (pub_work b) b b') \<and>
    (\<forall>n b'. pub_run n b b' \<longrightarrow> n \<le> pub_work b \<and> (n = pub_work b \<longleftrightarrow> brPubs b' = []) \<and> \<not> brPanic b')"
proof (intro conjI allI impI)
  note ok = reachable_ok [OF assms]
  show "\<exists>b'. Publish_send k b = Some b' \<and> \<not> brPanic b'" if "k < length (brPubs b)" for k
    using send_ok [OF ok that] broker_okD(1) by blast
  show "\<exists>b'. pub_run (pub_work b) b b'" by (rule pub_run_all [OF ok]) simp
  show "n \<le> pub_work b" "n = pub_work b \<longleftrightarrow> brPubs b' = []" "\<not> brPanic b'" if "pub_run n b b'" for n b'
    using pub_run_count [OF that] broker_okD(1) [OF pub_run_ok [OF that ok]] by blast+
qed

text \<open>A client that reads nothing and has had sixteen messages: the publisher of the next goes on.\<close>

definition demo_broker :: broker where
  "demo_broker = Publish_lock (sse_message ''stats'' ''1'') [0] (Subscribe NewSSEBroker)"

lemma demo_reachable: "br_reachable demo_broker"
proof -
  have "br_reachable (Subscribe NewSSEBroker)"
    by (rule br_reachable.step [OF br_reachable.init br_step.subscribe]) (simp add: NewSSEBroker_def)
  then show ?thesis unfolding demo_broker_def
    by (rule br_reachable.step) (rule br_step.publish, simp add: Subscribe_def NewSSEBroker_def)
qed

theorem sse_broker_safe_witness: "\<exists>b. Publish_send 0 demo_broker = Some b \<and> \<not> brPanic b"
proof -
  obtain b where b: "Publish_send 0 demo_broker = Some b" using send_ok [OF reachable_ok [OF demo_reachable], of 0]
    by (auto simp: demo_broker_def Publish_lock_def)
  have "0 < length (brPubs demo_broker)" by (simp add: demo_broker_def Publish_lock_def)
  then have "br_reachable b" using b by (rule br_reachable.step [OF demo_reachable br_step.send])
  from sse_broker_safe [OF this] b show ?thesis by blast
qed

definition full_broker :: "nat \<Rightarrow> broker" where
  "full_broker n = (Subscribe NewSSEBroker)\<lparr>brChans := (\<lambda>_. make_chan)(0 := make_chan\<lparr>chBuf := replicate n ''m''\<rparr>),
     brPublished := (if n = 0 then {} else {''m''})\<rparr>"

lemma full_reachable: "n \<le> 16 \<Longrightarrow> br_reachable (full_broker n)"
proof (induction n)
  case 0
  have "br_reachable (Subscribe NewSSEBroker)"
    by (rule br_reachable.step [OF br_reachable.init br_step.subscribe]) (simp add: NewSSEBroker_def)
  moreover have "full_broker 0 = Subscribe NewSSEBroker" by (simp add: full_broker_def Subscribe_def NewSSEBroker_def make_chan_def)
  ultimately show ?case by simp
next
  case (Suc n)
  let ?b = "full_broker n"
  have p: "brPubs ?b = []" "brClients ?b = {0}" by (simp_all add: full_broker_def Subscribe_def NewSSEBroker_def)
  have r1: "br_reachable (Publish_lock ''m'' [0] ?b)"
    using Suc by (intro br_reachable.step [OF _ br_step.publish]) (simp_all add: p)
  define b2 where "b2 = (full_broker (Suc n))\<lparr>brPubs := [(''m'', [])]\<rparr>"
  have "Publish_send 0 (Publish_lock ''m'' [0] ?b) = Some b2"
    using Suc.prems by (auto simp: Publish_send_def Publish_lock_def b2_def full_broker_def Subscribe_def NewSSEBroker_def try_send_def
        chan_send_def chan_cap_def make_chan_def replicate_append_same)
  then have r2: "br_reachable b2" by (intro br_reachable.step [OF r1] br_step.send) (simp_all add: Publish_lock_def)
  have "Publish_send 0 b2 = Some (full_broker (Suc n))"
    by (simp add: Publish_send_def b2_def remove_nth_def full_broker_def Subscribe_def NewSSEBroker_def)
  then show ?case by (intro br_reachable.step [OF r2] br_step.send) (simp_all add: b2_def)
qed

theorem publish_terminates_witness:
  "length (chBuf (brChans (full_broker 16) 0)) = 16 \<and> (\<exists>b'. Publish_send 0 (Publish_lock ''x'' [0] (full_broker 16)) = Some b' \<and> \<not> brPanic b')"
proof -
  have "br_reachable (Publish_lock ''x'' [0] (full_broker 16))"
    by (intro br_reachable.step [OF full_reachable br_step.publish]) (simp_all add: full_broker_def Subscribe_def NewSSEBroker_def)
  from publish_terminates [OF this] show ?thesis by (simp add: Publish_lock_def) (simp add: full_broker_def)
qed

end
