(* ===== verification/LinkTree.thy ===== *)
theory LinkTree
  imports GoPath
begin

text \<open>
  Symbolic links: a file tree, the way the kernel walks a path through it, and
  \<open>filepath.EvalSymlinks\<close> on it. Where the kernel creates or opens a file is the specification the
  agent's path check is measured against. A location is the list of names from the root.
\<close>

section \<open>Trees\<close>

datatype node = Directory | Regular | Link string

type_synonym tree = "string list \<rightharpoonup> node"

definition is_directory :: "tree \<Rightarrow> string list \<Rightarrow> bool" where
  "is_directory t cur \<longleftrightarrow> cur = [] \<or> t cur = Some Directory"

text \<open>
  Following components from a directory, with a budget of links: the location reached and what is left
  of the budget. \<open>..\<close> leads to the parent of the directory reached, not of its name.
\<close>

function walk :: "tree \<Rightarrow> nat \<Rightarrow> string list \<Rightarrow> string list \<Rightarrow> (string list \<times> nat) option" where
  "walk t n cur [] = Some (cur, n)"
| "walk t n cur (c # cs) =
     (if \<not> is_directory t cur then None
      else if c = [] \<or> c = ''.'' then walk t n cur cs
      else if c = ''..'' then walk t n (butlast cur) cs
      else (case t (cur @ [c]) of
          None \<Rightarrow> None
        | Some (Link target) \<Rightarrow>
            if n = 0 then None else walk t (n - 1) (if IsAbs target then [] else cur) (Split target slash @ cs)
        | Some _ \<Rightarrow> walk t n (cur @ [c]) cs))"
  by pat_completeness auto
termination by (relation "measures [\<lambda>(_, n, _, _). n, \<lambda>(_, _, _, cs). length cs]") auto

text \<open>
  Opening for writing with creation: the last component need not exist, and a last component that is a
  link is followed, also when its target does not exist.
\<close>

function create :: "tree \<Rightarrow> nat \<Rightarrow> string list \<Rightarrow> string list \<Rightarrow> string list option" where
  "create t n cur [] = Some cur"
| "create t n cur (c # cs) =
     (if \<not> is_directory t cur then None
      else if c = [] \<or> c = ''.'' then create t n cur cs
      else if c = ''..'' then create t n (butlast cur) cs
      else (case t (cur @ [c]) of
          None \<Rightarrow> if cs = [] then Some (cur @ [c]) else None
        | Some (Link target) \<Rightarrow>
            if n = 0 then None else create t (n - 1) (if IsAbs target then [] else cur) (Split target slash @ cs)
        | Some _ \<Rightarrow> create t n (cur @ [c]) cs))"
  by pat_completeness auto
termination by (relation "measures [\<lambda>(_, n, _, _). n, \<lambda>(_, _, _, cs). length cs]") auto

text \<open>The kernel follows at most 40 links, \<open>EvalSymlinks\<close> at most 255. All paths here are absolute.\<close>

definition open_existing :: "tree \<Rightarrow> string \<Rightarrow> string list option" where
  "open_existing t p = map_option fst (walk t 40 [] (Split p slash))"

definition open_create :: "tree \<Rightarrow> string \<Rightarrow> string list option" where
  "open_create t p = create t 40 [] (Split p slash)"

definition EvalSymlinks :: "tree \<Rightarrow> string \<Rightarrow> string option" where
  "EvalSymlinks t p = (case walk t 255 [] (Split p slash) of None \<Rightarrow> None | Some (q, _) \<Rightarrow> Some (slash # Join q ''/''))"

text \<open>The directory entry a path names, its last component not followed.\<close>

definition entry :: "tree \<Rightarrow> string \<Rightarrow> node option" where
  "entry t p = (case walk t 255 [] (butlast (path_comps p)) of None \<Rightarrow> None | Some (d, _) \<Rightarrow> t (d @ [last (path_comps p)]))"

definition dangling :: "tree \<Rightarrow> string \<Rightarrow> bool" where
  "dangling t p \<longleftrightarrow> EvalSymlinks t p = None \<and> (case entry t p of Some (Link _) \<Rightarrow> True | _ \<Rightarrow> False)"

section \<open>Walking in parts\<close>

lemma walk_append:
  "walk t n cur (xs @ ys) = (case walk t n cur xs of None \<Rightarrow> None | Some (d, k) \<Rightarrow> walk t k d ys)"
  by (induction t n cur xs rule: walk.induct) (auto split: option.splits node.splits)

lemma create_append:
  "ys \<noteq> [] \<Longrightarrow> create t n cur (xs @ ys) = (case walk t n cur xs of None \<Rightarrow> None | Some (d, k) \<Rightarrow> create t k d ys)"
  by (induction t n cur xs rule: walk.induct) (auto split: option.splits node.splits)

lemma walk_more: "walk t n cur cs = Some (q, k) \<Longrightarrow> walk t (n + m) cur cs = Some (q, k + m)"
  by (induction t n cur cs rule: walk.induct) (auto split: option.splits node.splits if_splits)

lemma create_more: "create t n cur cs = Some q \<Longrightarrow> create t (n + m) cur cs = Some q"
  by (induction t n cur cs rule: create.induct) (auto split: option.splits node.splits if_splits)

lemma walk_create: "walk t n cur cs = Some (q, k) \<Longrightarrow> create t n cur cs = Some q"
  by (induction t n cur cs rule: walk.induct) (auto split: option.splits node.splits if_splits)

lemma walk_plain:
  "walk t n cur cs = Some (q, k) \<Longrightarrow> list_all (\<lambda>c. slash \<notin> set c) cs \<Longrightarrow> list_all plain_comp cur \<Longrightarrow> list_all plain_comp q"
proof (induction t n cur cs rule: walk.induct)
  case (2 t n cur c cs)
  have "list_all (\<lambda>c. slash \<notin> set c) (Split u slash)" for u
    by (auto simp: list_all_iff dest: Split_no_sep)
  moreover have "list_all plain_comp (butlast cur)" using "2.prems"(3) by (auto simp: list_all_iff dest: in_set_butlastD)
  moreover have "c \<noteq> [] \<Longrightarrow> c \<noteq> ''.'' \<Longrightarrow> c \<noteq> ''..'' \<Longrightarrow> plain_comp c" using "2.prems"(2) by (simp add: plain_comp_def)
  ultimately show ?case using 2 by (auto split: if_splits option.splits node.splits)
qed simp

section \<open>Cleaned paths\<close>

lemma Split_rooted: "\<forall>c \<in> set cs. plain_comp c \<Longrightarrow> Split (slash # Join cs ''/'') slash = [] # (if cs = [] then [[]] else cs)"
  by (simp add: Split_slash_Join)

lemma walk_rooted: "\<forall>c \<in> set cs. plain_comp c \<Longrightarrow> walk t n [] (Split (slash # Join cs ''/'') slash) = walk t n [] cs"
  by (simp add: Split_rooted is_directory_def del: Split.simps)

lemma create_rooted: "\<forall>c \<in> set cs. plain_comp c \<Longrightarrow> create t n [] (Split (slash # Join cs ''/'') slash) = create t n [] cs"
  by (simp add: Split_rooted is_directory_def del: Split.simps)

lemma clean_walk: "IsAbs p \<Longrightarrow> walk t n [] (Split (Clean p) slash) = walk t n [] (path_comps p)"
  and clean_create: "IsAbs p \<Longrightarrow> create t n [] (Split (Clean p) slash) = create t n [] (path_comps p)"
  using path_comps_plain [of p] by (simp_all add: Clean_rooted walk_rooted create_rooted del: Split.simps)

text \<open>The directory and the last name of a cleaned path.\<close>

lemma Clean_parts:
  assumes "IsAbs p" "path_comps p = xs @ [b]"
  shows "path_Dir (Clean p) = slash # Join xs ''/''" "path_Base (Clean p) = b"
proof -
  have pl: "\<forall>c \<in> set xs. plain_comp c" "plain_comp b" using path_comps_plain [OF assms(1)] assms(2) by auto
  define d where "d = slash # (if xs = [] then [] else Join xs ''/'' @ ''/'')"
  have c: "Clean p = d @ b" using assms by (cases "xs = []") (simp_all add: Clean_rooted d_def Join_append)
  have "slash \<notin> set b" using pl(2) by (simp add: plain_comp_def)
  moreover have "last d = slash" "d \<noteq> []" by (simp_all add: d_def)
  ultimately have "dropWhile (\<lambda>c. c \<noteq> slash) (rev (d @ b)) = rev d"
    by (cases d rule: rev_cases) (auto simp: dropWhile_append3)
  then have "path_Dir (Clean p) = Clean d" by (simp add: path_Dir_def c)
  moreover have "path_comps d = xs"
  proof (cases "xs = []")
    case False
    have "Split d slash = [] # xs @ [[]]" using False pl(1) by (simp add: d_def Split_Join_append)
    then show ?thesis using pl(1) clean_comps_append [of "[[]]" True "[]" xs] clean_comps_id [of xs True "[]"]
      by (simp add: path_comps_def d_def plain_comp_def)
  qed (simp add: d_def path_comps_def)
  ultimately show "path_Dir (Clean p) = slash # Join xs ''/''" by (simp add: Clean_rooted d_def)
  have "b \<noteq> []" using pl(2) by (simp add: plain_comp_def)
  then have "last b \<noteq> slash" using \<open>slash \<notin> set b\<close> last_in_set by metis
  with \<open>b \<noteq> []\<close> have "rev (dropWhile (\<lambda>c. c = slash) (rev (d @ b))) = d @ b"
    by (cases b rule: rev_cases) auto
  moreover have "last (Split (d @ b) slash) = b"
    using pl \<open>slash \<notin> set b\<close> by (cases "xs = []") (simp_all add: d_def Split_Join_append Split_single)
  ultimately show "path_Base (Clean p) = b" using \<open>d \<noteq> []\<close> \<open>b \<noteq> []\<close> by (simp add: path_Base_def c Let_def)
qed

text \<open>
  Where the kernel creates a file is where the check looks: the fully resolved path when there is one,
  and otherwise the name in the resolved directory, unless that name is a link to nowhere.
\<close>

lemma created_where_checked:
  assumes abs: "IsAbs p" and op: "open_create t (Clean p) = Some q" and nd: "\<not> dangling t (Clean p)"
  shows "list_all plain_comp q"
    and "(case EvalSymlinks t (Clean p) of
        Some r \<Rightarrow> r
      | None \<Rightarrow> (case EvalSymlinks t (path_Dir (Clean p)) of Some d \<Rightarrow> path_Join d (path_Base (Clean p)) | None \<Rightarrow> Clean p)) =
      slash # Join q ''/''"
proof -
  let ?cs = "path_comps p"
  have pl: "\<forall>c \<in> set ?cs. plain_comp c" using path_comps_plain [OF abs] by blast
  then have ns: "list_all (\<lambda>c. slash \<notin> set c) ?cs" by (simp add: list_all_iff plain_comp_def)
  have op255: "create t 255 [] ?cs = Some q"
    using create_more [of t 40 "[]" ?cs q 215] op clean_create [OF abs] by (simp add: open_create_def)
  have goal: "list_all plain_comp q \<and> (case EvalSymlinks t (Clean p) of
        Some r \<Rightarrow> r
      | None \<Rightarrow> (case EvalSymlinks t (path_Dir (Clean p)) of Some d \<Rightarrow> path_Join d (path_Base (Clean p)) | None \<Rightarrow> Clean p)) =
      slash # Join q ''/''"
  proof (cases "walk t 255 [] ?cs")
    case (Some w)
    then obtain q' k where w: "walk t 255 [] ?cs = Some (q', k)" by (cases w) auto
    then have "q' = q" using walk_create op255 by fastforce
    moreover have "list_all plain_comp q'" using walk_plain [OF w ns] by simp
    ultimately show ?thesis using w by (simp add: EvalSymlinks_def clean_walk [OF abs])
  next
    case None
    then have "?cs \<noteq> []" by auto
    then obtain xs b where xb: "?cs = xs @ [b]" by (metis rev_exhaust)
    then obtain d k where d: "walk t 255 [] xs = Some (d, k)" and c: "create t k d [b] = Some q"
      using op255 create_append [of "[b]" t 255 "[]" xs] by (auto split: option.splits)
    have b: "plain_comp b" using pl xb by auto
    then have bn: "b \<noteq> []" "b \<noteq> ''.''" "b \<noteq> ''..''" by (simp_all add: plain_comp_def)
    have wb: "walk t k d [b] = None" using None xb d by (simp add: walk_append)
    have isd: "is_directory t d" using c by (simp split: if_splits)
    have dp: "list_all plain_comp d" using walk_plain [OF d] ns xb by simp
    have "EvalSymlinks t (Clean p) = None" using None by (simp add: EvalSymlinks_def clean_walk [OF abs])
    moreover have "entry t (Clean p) = t (d @ [b])" using d xb abs by (simp add: entry_def path_comps_Clean)
    ultimately have "t (d @ [b]) = None"
      using nd wb isd bn by (auto simp: dangling_def split: option.splits node.splits)
    then have q: "q = d @ [b]" using c isd bn by simp
    have dir: "EvalSymlinks t (path_Dir (Clean p)) = Some (slash # Join d ''/'')"
      using d pl xb Clean_parts(1) [OF abs xb] by (simp add: EvalSymlinks_def walk_rooted del: Split.simps)
    have "path_comps (path_Join (slash # Join d ''/'') b) = d @ [b]"
      using path_comps_path_Join [of "slash # Join d ''/''" b] b path_comps_rooted [of d] dp
      by (simp add: Split_single plain_comp_def list_all_iff)
    then have "path_Join (slash # Join d ''/'') b = slash # Join (d @ [b]) ''/''"
      using Clean_path_Join [of "slash # Join d ''/''" b] Clean_rooted [of "path_Join (slash # Join d ''/'') b"] by (simp add: IsAbs_path_Join)
    then show ?thesis
      using dir q dp b \<open>EvalSymlinks t (Clean p) = None\<close> Clean_parts(2) [OF abs xb] by simp
  qed
  from goal show "list_all plain_comp q" by blast
  from goal show "(case EvalSymlinks t (Clean p) of
        Some r \<Rightarrow> r
      | None \<Rightarrow> (case EvalSymlinks t (path_Dir (Clean p)) of Some d \<Rightarrow> path_Join d (path_Base (Clean p)) | None \<Rightarrow> Clean p)) =
      slash # Join q ''/''" by blast
qed

lemma opened_where_checked:
  assumes abs: "IsAbs p" and op: "open_existing t (Clean p) = Some q"
  shows "list_all plain_comp q \<and> EvalSymlinks t (Clean p) = Some (slash # Join q ''/'')"
proof -
  obtain k where "walk t 40 [] (path_comps p) = Some (q, k)" using op by (auto simp: open_existing_def clean_walk [OF abs])
  then have w: "walk t 255 [] (path_comps p) = Some (q, k + 215)" using walk_more [of t 40 "[]" _ q k 215] by simp
  have "list_all (\<lambda>c. slash \<notin> set c) (path_comps p)" using path_comps_plain [OF abs] by (auto simp: list_all_iff plain_comp_def)
  then show ?thesis using walk_plain [OF w] w by (simp add: EvalSymlinks_def clean_walk [OF abs])
qed

end
