(* ===== verification/Agent.thy ===== *)
theory Agent
  imports LinkTree
begin

text \<open>
  The privileged agent (\<^verbatim>\<open>internal/agent/operations.go\<close> and \<^verbatim>\<open>server.go\<close>): the command
  whitelist, the path rules with their symbolic-link resolution, the five built-in operations and
  the JSON-RPC dispatcher. A request is modelled after JSON decoding: a raw parameter message is
  the outcome of decoding it into the struct the handler asks for. What the handlers do to the
  system is returned as a list of effects; the operating system's answers are parameters.
\<close>

section \<open>Whitelists\<close>

definition allowedCommands :: "string list" where
  "allowedCommands =
     [''nft'', ''ip'', ''tc'', ''sysctl'',
      ''wg'', ''wg-quick'', ''pppd'', ''pppoe-server'',
      ''openvpn'', ''systemctl'', ''hostnamectl'', ''timedatectl'',
      ''unbound-control'', ''chronyc'', ''smbcontrol'',
      ''mdadm'', ''mkfs.ext4'', ''mount'', ''lsblk'', ''findmnt'',
      ''smartctl'', ''hdparm'', ''tar'',
      ''dig'', ''ping'', ''pgrep'', ''pkill'', ''killall'',
      ''dhclient'', ''chpasswd'', ''df'',
      ''cp'', ''chmod'', ''mv'', ''rm'', ''kill'',
      ''openssl'', ''usermod'', ''localectl'', ''loadkeys'',
      ''easyrsa'', ''mkdir'', ''tail'', ''update-grub'',
      ''dhcp6c'', ''dhcp6ctl'']"

datatype pathRuleKind = dirPrefix | exactFile | filenamePrefix

record pathRule =
  pattern :: string
  kind :: pathRuleKind

abbreviation prule :: "string \<Rightarrow> pathRuleKind \<Rightarrow> pathRule" where
  "prule p k \<equiv> \<lparr>pattern = p, kind = k\<rparr>"

definition allowedWriteRules :: "pathRule list" where
  "allowedWriteRules =
     [prule ''/etc/ppp/'' dirPrefix,
      prule ''/etc/openvpn/'' dirPrefix,
      prule ''/etc/nftables.conf'' exactFile,
      prule ''/etc/unbound/'' dirPrefix,
      prule ''/etc/dnsmasq.conf'' exactFile,
      prule ''/etc/dnsmasq.d/'' dirPrefix,
      prule ''/etc/wireguard/'' dirPrefix,
      prule ''/etc/samba/'' dirPrefix,
      prule ''/etc/chrony/'' dirPrefix,
      prule ''/etc/rsyslog.d/'' dirPrefix,
      prule ''/etc/lankeeper/'' dirPrefix,
      prule ''/etc/default/grub.d/'' dirPrefix,
      prule ''/etc/wide-dhcpv6/'' dirPrefix,
      prule ''/etc/dnscrypt-proxy/'' dirPrefix,
      prule ''/etc/fstab'' exactFile,
      prule ''/etc/pppoe-server-options'' exactFile,
      prule ''/var/lib/lankeeper/'' dirPrefix,
      prule ''/var/log/'' dirPrefix,
      prule ''/tmp/nftables-'' filenamePrefix,
      prule ''/tmp/lankeeper-'' filenamePrefix]"

definition allowedReadRules :: "pathRule list" where
  "allowedReadRules =
     [prule ''/etc/ppp/'' dirPrefix,
      prule ''/etc/openvpn/'' dirPrefix,
      prule ''/etc/wireguard/'' dirPrefix,
      prule ''/etc/lankeeper/'' dirPrefix,
      prule ''/etc/unbound/'' dirPrefix,
      prule ''/etc/dnsmasq.conf'' exactFile,
      prule ''/etc/dnsmasq.d/'' dirPrefix,
      prule ''/etc/samba/'' dirPrefix,
      prule ''/etc/chrony/'' dirPrefix,
      prule ''/etc/rsyslog.d/'' dirPrefix,
      prule ''/etc/wide-dhcpv6/'' dirPrefix,
      prule ''/etc/dnscrypt-proxy/'' dirPrefix,
      prule ''/etc/fstab'' exactFile,
      prule ''/var/lib/lankeeper/'' dirPrefix,
      prule ''/var/log/'' dirPrefix,
      prule ''/var/run/'' dirPrefix,
      prule ''/proc/mdstat'' exactFile,
      prule ''/tmp/nftables-'' filenamePrefix,
      prule ''/tmp/lankeeper-'' filenamePrefix]"

text \<open>\<open>filepath.EvalSymlinks\<close> on the current file system; \<open>None\<close> is its error.\<close>

type_synonym symlinks = "string \<Rightarrow> string option"

definition resolveRule :: "symlinks \<Rightarrow> pathRule \<Rightarrow> pathRule" where
  "resolveRule es r =
     (case kind r of
        dirPrefix \<Rightarrow>
          (let dir = TrimSuffix (pattern r) ''/'' in
           case es dir of
             Some real \<Rightarrow> if real \<noteq> dir then r\<lparr>pattern := real @ ''/''\<rparr> else r
           | None \<Rightarrow> r)
      | exactFile \<Rightarrow>
          (case es (pattern r) of Some real \<Rightarrow> r\<lparr>pattern := real\<rparr> | None \<Rightarrow> r)
      | filenamePrefix \<Rightarrow>
          (let dir = path_Dir (pattern r); base = path_Base (pattern r) in
           case es dir of
             Some real \<Rightarrow> if real \<noteq> dir then r\<lparr>pattern := path_Join real base\<rparr> else r
           | None \<Rightarrow> r))"

definition resolveRulePatterns :: "symlinks \<Rightarrow> pathRule list \<Rightarrow> pathRule list" where
  "resolveRulePatterns es rules = map (resolveRule es) rules"

text \<open>The path \<open>checkPathRules\<close> compares with the rules.\<close>

definition resolvePath :: "symlinks \<Rightarrow> string \<Rightarrow> string" where
  "resolvePath es path =
     (let clean = Clean path in
      case es clean of
        Some resolved \<Rightarrow> resolved
      | None \<Rightarrow> (case es (path_Dir clean) of
            Some resolvedDir \<Rightarrow> path_Join resolvedDir (path_Base clean)
          | None \<Rightarrow> clean))"

fun ruleMatches :: "string \<Rightarrow> pathRule \<Rightarrow> bool" where
  "ruleMatches clean r =
     (case kind r of
        dirPrefix \<Rightarrow> HasPrefix clean (pattern r)
      | exactFile \<Rightarrow> clean = pattern r
      | filenamePrefix \<Rightarrow> HasPrefix clean (pattern r))"

definition checkPathRules :: "symlinks \<Rightarrow> string \<Rightarrow> pathRule list \<Rightarrow> bool" where
  "checkPathRules es path rules = list_ex (ruleMatches (resolvePath es path)) rules"

section \<open>Operations\<close>

record ExecParams =
  exCmd :: string
  exArgs :: "string list"
  exStdin :: string
  exEnv :: "string list"

record ExecResult =
  exStdout :: string
  exStderr :: string
  exExitCode :: goint

record FileWriteParams =
  fwpPath :: string
  fwpContent :: string
  fwpMode :: goint
  fwpMkdirP :: bool

record FileReadParams =
  frpPath :: string

record MkdirParams =
  mkpPath :: string
  mkpMode :: goint

text \<open>A raw parameter message: what decoding it into each params struct gives.\<close>

record RawMessage =
  asExec :: "error + ExecParams"
  asWrite :: "error + FileWriteParams"
  asRead :: "error + FileReadParams"
  asMkdir :: "error + MkdirParams"

text \<open>What a handler asks of the operating system, in order.\<close>

datatype effect =
    EExec ExecParams
  | EMkdirAll string goint
  | EWriteFile string string goint
  | EReadFile string

text \<open>The operating system's answers, and the rules after \<open>init\<close> has resolved them.\<close>

record agentEnv =
  symlinks_of :: symlinks
  writeRules :: "pathRule list"
  readRules :: "pathRule list"
  runCmd :: "ExecParams \<Rightarrow> ExecResult \<times> error option"
  mkdirErr :: "string \<Rightarrow> error option"
  writeErr :: "string \<Rightarrow> error option"
  readFileOf :: "string \<Rightarrow> error + string"

datatype opResult =
    RPong
  | RExec ExecResult
  | RStatusOk
  | RContent string

type_synonym handler = "agentEnv \<Rightarrow> RawMessage \<Rightarrow> effect list \<times> (error + opResult)"

text \<open>The conversion \<open>os.FileMode(m)\<close> to an unsigned 32-bit integer.\<close>

definition FileMode :: "goint \<Rightarrow> goint" where
  "FileMode m = m mod 4294967296"

definition opPing :: handler where
  "opPing env raw = ([], Inr RPong)"

definition opExecRun :: handler where
  "opExecRun env raw =
     (case asExec raw of
        Inl e \<Rightarrow> ([], Inl (''invalid params: '' @ e))
      | Inr params \<Rightarrow>
        (let baseName = path_Base (exCmd params) in
         if baseName \<notin> set allowedCommands
         then ([], Inl (''command not allowed: '' @ baseName))
         else (case runCmd env params of
             (result, Some e) \<Rightarrow> ([EExec params], Inl (''exec '' @ baseName @ '': '' @ e @
                 '' (stderr: '' @ exStderr result @ '')''))
           | (result, None) \<Rightarrow> ([EExec params], Inr (RExec result)))))"

definition opFileWrite :: handler where
  "opFileWrite env raw =
     (case asWrite raw of
        Inl e \<Rightarrow> ([], Inl (''invalid params: '' @ e))
      | Inr params \<Rightarrow>
        (if \<not> checkPathRules (symlinks_of env) (fwpPath params) (writeRules env)
         then ([], Inl (''write not allowed to path: '' @ fwpPath params))
         else
          (let mode = (if FileMode (fwpMode params) = 0 then 420 else FileMode (fwpMode params));
               dir = path_Dir (fwpPath params);
               mk = (if fwpMkdirP params then [EMkdirAll dir 493] else []);
               wr = EWriteFile (fwpPath params) (fwpContent params) mode in
           case (if fwpMkdirP params then mkdirErr env dir else None) of
             Some e \<Rightarrow> (mk, Inl (''mkdir parent: '' @ e))
           | None \<Rightarrow> (case writeErr env (fwpPath params) of
                 Some e \<Rightarrow> (mk @ [wr], Inl (''write file: '' @ e))
               | None \<Rightarrow> (mk @ [wr], Inr RStatusOk)))))"

definition opFileRead :: handler where
  "opFileRead env raw =
     (case asRead raw of
        Inl e \<Rightarrow> ([], Inl (''invalid params: '' @ e))
      | Inr params \<Rightarrow>
        (if \<not> checkPathRules (symlinks_of env) (frpPath params) (readRules env)
         then ([], Inl (''read not allowed for path: '' @ frpPath params))
         else (case readFileOf env (frpPath params) of
             Inl e \<Rightarrow> ([EReadFile (frpPath params)], Inl (''read file: '' @ e))
           | Inr data \<Rightarrow> ([EReadFile (frpPath params)], Inr (RContent data)))))"

definition opFileMkdir :: handler where
  "opFileMkdir env raw =
     (case asMkdir raw of
        Inl e \<Rightarrow> ([], Inl (''invalid params: '' @ e))
      | Inr params \<Rightarrow>
        (if \<not> checkPathRules (symlinks_of env) (mkpPath params) (writeRules env)
         then ([], Inl (''mkdir not allowed for path: '' @ mkpPath params))
         else
          (let mode = (if FileMode (mkpMode params) = 0 then 493 else FileMode (mkpMode params)) in
           case mkdirErr env (mkpPath params) of
             Some e \<Rightarrow> ([EMkdirAll (mkpPath params) mode], Inl (''mkdir: '' @ e))
           | None \<Rightarrow> ([EMkdirAll (mkpPath params) mode], Inr RStatusOk))))"

section \<open>The server\<close>

record Request =
  rqJSONRPC :: string
  rqMethod :: string
  rqParams :: RawMessage
  rqID :: goint

record RPCError =
  rpcCode :: goint
  rpcMessage :: string

record Response =
  rsJSONRPC :: string
  rsResult :: "opResult option"
  rsError :: "RPCError option"
  rsID :: goint

record Server =
  svSocketPath :: string
  svHandlers :: "string \<rightharpoonup> handler"

definition NewServer :: "string \<Rightarrow> Server" where
  "NewServer path = \<lparr>svSocketPath = path, svHandlers = Map.empty\<rparr>"

definition Register :: "string \<Rightarrow> handler \<Rightarrow> Server \<Rightarrow> Server" where
  "Register method h s = s\<lparr>svHandlers := (svHandlers s)(method \<mapsto> h)\<rparr>"

definition GetHandler :: "Server \<Rightarrow> string \<Rightarrow> handler option" where
  "GetHandler s method = svHandlers s method"

definition RegisterBuiltinOps :: "Server \<Rightarrow> Server" where
  "RegisterBuiltinOps s =
     Register ''file.mkdir'' opFileMkdir
      (Register ''file.read'' opFileRead
       (Register ''file.write'' opFileWrite
        (Register ''exec.run'' opExecRun
         (Register ''ping'' opPing s))))"

definition error_response :: "Request \<Rightarrow> goint \<Rightarrow> string \<Rightarrow> Response" where
  "error_response req code msg =
     \<lparr>rsJSONRPC = ''2.0'', rsResult = None, rsError = Some \<lparr>rpcCode = code, rpcMessage = msg\<rparr>,
      rsID = rqID req\<rparr>"

definition dispatch :: "agentEnv \<Rightarrow> Server \<Rightarrow> Request \<Rightarrow> effect list \<times> Response" where
  "dispatch env s req =
     (if rqJSONRPC req \<noteq> ''2.0''
      then ([], error_response req (- 32600) ''invalid JSON-RPC version'')
      else (case svHandlers s (rqMethod req) of
          None \<Rightarrow> ([], error_response req (- 32601) (''method not found: '' @ rqMethod req))
        | Some h \<Rightarrow> (case h env (rqParams req) of
            (es, Inl e) \<Rightarrow> (es, error_response req (- 32000) e)
          | (es, Inr r) \<Rightarrow> (es, \<lparr>rsJSONRPC = ''2.0'', rsResult = Some r, rsError = None,
                               rsID = rqID req\<rparr>))))"

text \<open>
  The loop of \<open>handleConn\<close> over the requests a connection decodes, in order; the environment may
  change from one request to the next.
\<close>

fun handleConn :: "Server \<Rightarrow> (agentEnv \<times> Request) list \<Rightarrow> effect list \<times> Response list" where
  "handleConn s [] = ([], [])"
| "handleConn s ((env, req) # rest) =
     (case dispatch env s req of (es, resp) \<Rightarrow>
       (case handleConn s rest of (es', resps) \<Rightarrow> (es @ es', resp # resps)))"

section \<open>What the path rules mean\<close>

text \<open>The documented behaviour of \<open>EvalSymlinks\<close> the checks rely on: results are cleaned paths.\<close>

definition symlinks_ok :: "symlinks \<Rightarrow> bool" where
  "symlinks_ok es \<longleftrightarrow> (\<forall>p q. es p = Some q \<longrightarrow> Clean q = q \<and> (IsAbs p \<longrightarrow> IsAbs q))"

definition real_path :: "symlinks \<Rightarrow> string \<Rightarrow> string" where
  "real_path es p = (case es p of Some q \<Rightarrow> q | None \<Rightarrow> p)"

text \<open>
  The place in the file tree a rule of the source stands for: strictly below a directory, one
  file, or below an entry of a directory whose name starts with a prefix.
\<close>

definition in_location :: "symlinks \<Rightarrow> pathRule \<Rightarrow> string list \<Rightarrow> bool" where
  "in_location es r cs =
     (case kind r of
        dirPrefix \<Rightarrow> strict_prefix (path_comps (real_path es (TrimSuffix (pattern r) ''/''))) cs
      | exactFile \<Rightarrow> cs = path_comps (real_path es (pattern r))
      | filenamePrefix \<Rightarrow> (\<exists>x xs. cs = path_comps (real_path es (path_Dir (pattern r))) @
           (path_Base (pattern r) @ x) # xs))"

text \<open>The shape of the rules in the two tables, checked by evaluation.\<close>

definition rule_shape :: "pathRule \<Rightarrow> bool" where
  "rule_shape r =
     (case kind r of
        dirPrefix \<Rightarrow> (let d = TrimSuffix (pattern r) ''/'' in
           IsAbs d \<and> d \<noteq> ''/'' \<and> Clean d = d \<and> pattern r = d @ ''/'')
      | exactFile \<Rightarrow> IsAbs (pattern r) \<and> Clean (pattern r) = pattern r
      | filenamePrefix \<Rightarrow> (let d = path_Dir (pattern r); b = path_Base (pattern r) in
           IsAbs d \<and> Clean d = d \<and> plain_comp b \<and>
           pattern r = slash # Join (path_comps d @ [b]) ''/''))"

lemma write_rules_shape: "list_all rule_shape allowedWriteRules"
  by code_simp

lemma read_rules_shape: "list_all rule_shape allowedReadRules"
  by code_simp

lemma resolvePath_clean:
  assumes "symlinks_ok es" and "IsAbs (resolvePath es p)"
  shows "Clean (resolvePath es p) = resolvePath es p"
  using assms by (auto simp: resolvePath_def Let_def symlinks_ok_def Clean_Clean Clean_path_Join
      split: option.splits)

lemma dir_pattern_match:
  assumes "IsAbs c" and "Clean c = c" and d: "IsAbs d" "Clean d = d" and "HasPrefix c (d @ ''/'')"
  shows "strict_prefix (path_comps d) (path_comps c)"
proof (cases "path_comps d = []")
  case True
  then have "d = ''/''" using Clean_rooted [OF d(1)] d(2) by simp
  then obtain t where t: "c = ''//'' @ t" using assms(5) by (auto simp: HasPrefix_iff)
  have "Join (path_comps c) ''/'' = slash # t"
    using Clean_rooted [OF assms(1)] assms(2) t by simp
  then have "path_comps c \<noteq> []" by auto
  with True show ?thesis by (simp add: strict_prefix_def)
next
  case False
  have "d = slash # Join (path_comps d) ''/''" using Clean_rooted [OF d(1)] d(2) by simp
  then have "HasPrefix (Clean c) (slash # Join (path_comps d) ''/'' @ ''/'')"
    using assms(2,5) by (metis append_Cons)
  then show ?thesis
    using HasPrefix_dir_iff [OF assms(1) False] path_comps_plain [OF d(1)] by blast
qed

lemma real_path_abs:
  assumes "symlinks_ok es" and "IsAbs p" and "Clean p = p"
  shows "IsAbs (real_path es p) \<and> Clean (real_path es p) = real_path es p"
  using assms by (auto simp: real_path_def symlinks_ok_def split: option.splits)

lemma resolveRule_pattern:
  assumes "rule_shape r"
  shows "kind (resolveRule es r) = kind r"
    and "kind r = dirPrefix \<Longrightarrow>
           pattern (resolveRule es r) = real_path es (TrimSuffix (pattern r) ''/'') @ ''/''"
    and "kind r = exactFile \<Longrightarrow> pattern (resolveRule es r) = real_path es (pattern r)"
  using assms
  by (auto simp: resolveRule_def rule_shape_def real_path_def Let_def
      split: option.splits pathRuleKind.splits)

lemma resolveRule_filename:
  assumes "rule_shape r" and "kind r = filenamePrefix" and "symlinks_ok es"
  shows "pattern (resolveRule es r) =
     slash # Join (path_comps (real_path es (path_Dir (pattern r))) @ [path_Base (pattern r)]) ''/''"
proof (cases "\<exists>real. es (path_Dir (pattern r)) = Some real \<and> real \<noteq> path_Dir (pattern r)")
  case False
  then have "pattern (resolveRule es r) = pattern r"
    "real_path es (path_Dir (pattern r)) = path_Dir (pattern r)"
    using assms by (auto simp: resolveRule_def real_path_def Let_def split: option.splits)
  with assms show ?thesis by (simp add: rule_shape_def Let_def)
next
  case True
  then obtain real where real: "es (path_Dir (pattern r)) = Some real" "real \<noteq> path_Dir (pattern r)"
    by blast
  have b: "plain_comp (path_Base (pattern r))" and "IsAbs (path_Dir (pattern r))"
    using assms by (auto simp: rule_shape_def Let_def)
  then have abs: "IsAbs real" using assms(3) real by (auto simp: symlinks_ok_def)
  have "Split (path_Base (pattern r)) slash = [path_Base (pattern r)]"
    using b by (simp add: Split_single plain_comp_def)
  then have "path_comps (path_Join real (path_Base (pattern r))) = path_comps real @ [path_Base (pattern r)]"
    using path_comps_path_Join [OF abs, of "path_Base (pattern r)"] b by (simp add: plain_comp_def)
  moreover have "path_Join real (path_Base (pattern r)) =
      slash # Join (path_comps (path_Join real (path_Base (pattern r)))) ''/''"
    using Clean_rooted [OF IsAbs_path_Join [OF abs]] Clean_path_Join [OF IsAbs_path_Join [OF abs]]
    by metis
  ultimately show ?thesis using real assms(2)
    by (simp add: resolveRule_def real_path_def Let_def)
qed

lemma ruleMatches_location:
  assumes es: "symlinks_ok es" and "rule_shape r"
    and c: "IsAbs c \<Longrightarrow> Clean c = c" and m: "ruleMatches c (resolveRule es r)"
  shows "in_location es r (path_comps c) \<and> IsAbs c"
proof (cases "kind r")
  case dirPrefix
  let ?d = "real_path es (TrimSuffix (pattern r) ''/'')"
  have d: "IsAbs ?d" "Clean ?d = ?d"
    using real_path_abs [OF es] assms(2) dirPrefix by (auto simp: rule_shape_def Let_def)
  have pre: "HasPrefix c (?d @ ''/'')"
    using m dirPrefix resolveRule_pattern [OF assms(2)] by simp
  with d(1) have "IsAbs c" by (auto simp: IsAbs_def HasPrefix_iff)
  with pre d c show ?thesis by (simp add: dir_pattern_match in_location_def dirPrefix)
next
  case exactFile
  have "IsAbs (real_path es (pattern r))"
    using real_path_abs [OF es] assms(2) exactFile by (auto simp: rule_shape_def)
  with m exactFile resolveRule_pattern [OF assms(2)] show ?thesis by (simp add: in_location_def)
next
  case filenamePrefix
  let ?d = "real_path es (path_Dir (pattern r))"
  have d: "IsAbs ?d" and b: "plain_comp (path_Base (pattern r))"
    using real_path_abs [OF es] assms(2) filenamePrefix by (auto simp: rule_shape_def Let_def)
  have pre: "HasPrefix c (slash # Join (path_comps ?d @ [path_Base (pattern r)]) ''/'')"
    using m filenamePrefix resolveRule_pattern(1) [OF assms(2)]
      resolveRule_filename [OF assms(2) filenamePrefix es] by simp
  then have abs: "IsAbs c" by (auto simp: IsAbs_def HasPrefix_iff)
  have "\<exists>x xs. path_comps c = path_comps ?d @ (path_Base (pattern r) @ x) # xs"
    by (rule HasPrefix_file [OF abs]) (use pre c abs b path_comps_plain [OF d] in \<open>auto simp: plain_comp_def\<close>)
  with abs show ?thesis by (simp add: in_location_def filenamePrefix)
qed

lemma checkPathRules_location:
  assumes "symlinks_ok es0" and "symlinks_ok es" and "list_all rule_shape rules"
    and "checkPathRules es p (resolveRulePatterns es0 rules)"
  shows "\<exists>r \<in> set rules. in_location es0 r (path_comps (resolvePath es p)) \<and> IsAbs (resolvePath es p)"
proof -
  obtain r where r: "r \<in> set rules" "ruleMatches (resolvePath es p) (resolveRule es0 r)"
    using assms(4) by (auto simp: checkPathRules_def resolveRulePatterns_def list_ex_iff)
  moreover have "rule_shape r" using r(1) assms(3) by (simp add: list_all_iff)
  ultimately show ?thesis
    using ruleMatches_location [OF assms(1)] resolvePath_clean [OF assms(2)] by blast
qed

section \<open>Where the operations act\<close>

text \<open>The link resolution of the environment is that of a file tree.\<close>

definition sees_tree :: "tree \<Rightarrow> symlinks \<Rightarrow> bool" where
  "sees_tree t es \<longleftrightarrow> (\<forall>p. IsAbs p \<longrightarrow> es p = EvalSymlinks t p)"

text \<open>
  A path the kernel creates a file at \<open>q\<close> for, and so it does for the cleaned path, the last name
  being no link to nowhere; and a path it opens the file at \<open>q\<close> for.
\<close>

definition creates_at :: "tree \<Rightarrow> string \<Rightarrow> string list \<Rightarrow> bool" where
  "creates_at t p q \<longleftrightarrow> IsAbs p \<and> open_create t p = Some q \<and> open_create t (Clean p) = Some q \<and> \<not> dangling t (Clean p)"

definition opens_at :: "tree \<Rightarrow> string \<Rightarrow> string list \<Rightarrow> bool" where
  "opens_at t p q \<longleftrightarrow> IsAbs p \<and> open_existing t p = Some q \<and> open_existing t (Clean p) = Some q"

lemma resolvePath_create:
  assumes "sees_tree t es" "IsAbs p" "open_create t (Clean p) = Some q" "\<not> dangling t (Clean p)"
  shows "path_comps (resolvePath es p) = q"
proof -
  have whole: "es (Clean p) = EvalSymlinks t (Clean p)" using assms(1,2) by (simp add: IsAbs_Clean sees_tree_def)
  have "IsAbs (path_Dir (Clean p))"
  proof (cases "path_comps p" rule: rev_cases)
    case Nil
    then show ?thesis using assms(2) by (simp add: Clean_rooted path_Dir_def)
  next
    case (snoc xs b)
    then show ?thesis using Clean_parts(1) [OF assms(2) snoc] by simp
  qed
  then have dir: "es (path_Dir (Clean p)) = EvalSymlinks t (path_Dir (Clean p))" using assms(1) by (simp add: sees_tree_def)
  have "resolvePath es p = slash # Join q ''/''"
    using created_where_checked(2) [OF assms(2-4)] unfolding resolvePath_def Let_def whole dir .
  then show ?thesis using created_where_checked(1) [OF assms(2-4)] by (simp add: path_comps_rooted list_all_iff)
qed

lemma resolvePath_open:
  assumes "sees_tree t es" "IsAbs p" "open_existing t (Clean p) = Some q"
  shows "path_comps (resolvePath es p) = q"
proof -
  have "IsAbs (Clean p)" using assms(2) by (simp add: IsAbs_Clean)
  then have "resolvePath es p = slash # Join q ''/''"
    using opened_where_checked [OF assms(2,3)] assms(1) by (simp add: resolvePath_def Let_def sees_tree_def)
  then show ?thesis using opened_where_checked [OF assms(2,3)] by (simp add: path_comps_rooted list_all_iff)
qed

section \<open>Properties\<close>

abbreviation agentServer :: Server where
  "agentServer \<equiv> RegisterBuiltinOps (NewServer ''/run/lankeeper/agent.sock'')"

lemma agent_handlers: "svHandlers agentServer = [''ping'' \<mapsto> opPing, ''exec.run'' \<mapsto> opExecRun,
    ''file.write'' \<mapsto> opFileWrite, ''file.read'' \<mapsto> opFileRead, ''file.mkdir'' \<mapsto> opFileMkdir]"
  by (simp add: RegisterBuiltinOps_def Register_def NewServer_def)

text \<open>What the tables let the agent do in a given environment.\<close>

definition may_write :: "agentEnv \<Rightarrow> string \<Rightarrow> bool" where
  "may_write env p = checkPathRules (symlinks_of env) p (writeRules env)"

definition may_read :: "agentEnv \<Rightarrow> string \<Rightarrow> bool" where
  "may_read env p = checkPathRules (symlinks_of env) p (readRules env)"

fun authorised :: "agentEnv \<Rightarrow> effect \<Rightarrow> bool" where
  "authorised env (EExec p) = (path_Base (exCmd p) \<in> set allowedCommands)"
| "authorised env (EMkdirAll p m) = (may_write env p \<or> (\<exists>q. may_write env q \<and> p = path_Dir q))"
| "authorised env (EWriteFile p c m) = may_write env p"
| "authorised env (EReadFile p) = may_read env p"

lemma opPing_authorised: "e \<in> set (fst (opPing env raw)) \<Longrightarrow> authorised env e"
  by (simp add: opPing_def)

lemma opExecRun_authorised: "e \<in> set (fst (opExecRun env raw)) \<Longrightarrow> authorised env e"
  by (auto simp: opExecRun_def Let_def split: sum.splits if_splits prod.splits option.splits)

lemma opFileWrite_authorised: "e \<in> set (fst (opFileWrite env raw)) \<Longrightarrow> authorised env e"
  by (auto simp: opFileWrite_def Let_def may_write_def split: sum.splits if_splits option.splits)

lemma opFileRead_authorised: "e \<in> set (fst (opFileRead env raw)) \<Longrightarrow> authorised env e"
  by (auto simp: opFileRead_def may_read_def split: sum.splits if_splits)

lemma opFileMkdir_authorised: "e \<in> set (fst (opFileMkdir env raw)) \<Longrightarrow> authorised env e"
  by (auto simp: opFileMkdir_def Let_def may_write_def split: sum.splits if_splits option.splits)

lemmas ops_authorised = opPing_authorised opExecRun_authorised opFileWrite_authorised
  opFileRead_authorised opFileMkdir_authorised

lemma dispatch_effects:
  assumes "e \<in> set (fst (dispatch env s req))"
  obtains h where "svHandlers s (rqMethod req) = Some h" and "rqJSONRPC req = ''2.0''"
    and "e \<in> set (fst (h env (rqParams req)))"
  using assms by (auto simp: dispatch_def split: if_splits option.splits prod.splits sum.splits)

lemma dispatch_authorised:
  assumes "e \<in> set (fst (dispatch env agentServer req))"
  shows "authorised env e"
  using assms
  by (rule dispatch_effects) (auto simp: agent_handlers split: if_splits intro: ops_authorised)

lemma handleConn_effects:
  "e \<in> set (fst (handleConn s reqs)) \<longleftrightarrow>
     (\<exists>(env, req) \<in> set reqs. e \<in> set (fst (dispatch env s req)))"
  by (induction s reqs rule: handleConn.induct) (auto split: prod.splits)

text \<open>
  C4. Confinement of the privileged agent: over any sequence of requests on a connection, every
  command it runs has a whitelisted base name, and a file it writes or reads, the kernel following all
  symbolic links of the tree the check looked at, lies in a place one of the write or read rules stands for.
  This holds for an absolute path whose directories are in that tree, that leads where its cleaned form leads
  and, for a write, whose last name is no link to nowhere; in the other cases the check can be passed from
  outside of those places (\<open>links_lead_out\<close>). A directory it makes is at such a path or is the parent of one.
\<close>

theorem agent_confined:
  assumes "symlinks_ok es0"
    and "\<And>env req. (env, req) \<in> set reqs \<Longrightarrow> symlinks_ok (symlinks_of env) \<and>
          writeRules env = resolveRulePatterns es0 allowedWriteRules \<and> readRules env = resolveRulePatterns es0 allowedReadRules"
    and "e \<in> set (fst (handleConn agentServer reqs))"
  shows "\<exists>(env, req) \<in> set reqs. e \<in> set (fst (dispatch env agentServer req)) \<and>
     (case e of
        EExec p \<Rightarrow> path_Base (exCmd p) \<in> set allowedCommands
      | EWriteFile p c m \<Rightarrow> (\<forall>t loc. sees_tree t (symlinks_of env) \<and> creates_at t p loc \<longrightarrow>
            (\<exists>r \<in> set allowedWriteRules. in_location es0 r loc))
      | EReadFile p \<Rightarrow> (\<forall>t loc. sees_tree t (symlinks_of env) \<and> opens_at t p loc \<longrightarrow>
            (\<exists>r \<in> set allowedReadRules. in_location es0 r loc))
      | EMkdirAll p m \<Rightarrow> (\<exists>q. (p = q \<or> p = path_Dir q) \<and> (\<forall>t loc. sees_tree t (symlinks_of env) \<and> creates_at t q loc \<longrightarrow>
            (\<exists>r \<in> set allowedWriteRules. in_location es0 r loc))))"
proof -
  obtain env req where er: "(env, req) \<in> set reqs" "e \<in> set (fst (dispatch env agentServer req))"
    using assms(3) by (auto simp: handleConn_effects)
  note env = assms(2) [OF er(1)]
  have w: "\<exists>r \<in> set allowedWriteRules. in_location es0 r loc"
    if "may_write env p" "sees_tree t (symlinks_of env)" "creates_at t p loc" for p t loc
    using checkPathRules_location [OF assms(1) _ write_rules_shape] env that resolvePath_create [of t "symlinks_of env" p loc]
    by (auto simp: may_write_def creates_at_def)
  have r: "\<exists>r \<in> set allowedReadRules. in_location es0 r loc"
    if "may_read env p" "sees_tree t (symlinks_of env)" "opens_at t p loc" for p t loc
    using checkPathRules_location [OF assms(1) _ read_rules_shape] env that resolvePath_open [of t "symlinks_of env" p loc]
    by (auto simp: may_read_def opens_at_def)
  have au: "authorised env e" by (rule dispatch_authorised [OF er(2)])
  show ?thesis
  proof (intro bexI [of _ "(env, req)"] case_prodI conjI er)
    show "case e of
        EExec p \<Rightarrow> path_Base (exCmd p) \<in> set allowedCommands
      | EWriteFile p c m \<Rightarrow> (\<forall>t loc. sees_tree t (symlinks_of env) \<and> creates_at t p loc \<longrightarrow>
            (\<exists>r \<in> set allowedWriteRules. in_location es0 r loc))
      | EReadFile p \<Rightarrow> (\<forall>t loc. sees_tree t (symlinks_of env) \<and> opens_at t p loc \<longrightarrow>
            (\<exists>r \<in> set allowedReadRules. in_location es0 r loc))
      | EMkdirAll p m \<Rightarrow> (\<exists>q. (p = q \<or> p = path_Dir q) \<and> (\<forall>t loc. sees_tree t (symlinks_of env) \<and> creates_at t q loc \<longrightarrow>
            (\<exists>r \<in> set allowedWriteRules. in_location es0 r loc)))"
    proof (cases e)
      case (EWriteFile p c m)
      then show ?thesis using w [of p] au by auto
    next
      case (EReadFile p)
      then show ?thesis using r [of p] au by auto
    next
      case (EMkdirAll p m)
      then obtain q where "may_write env q" "p = q \<or> p = path_Dir q" using au by auto
      then show ?thesis using EMkdirAll w [of q] by auto
    qed (use au in auto)
  qed
qed

text \<open>A host without symbolic links, and one request the web process sends.\<close>

definition no_links :: symlinks where
  "no_links p = (if IsAbs p then Some (Clean p) else None)"

definition plain_env :: agentEnv where
  "plain_env = \<lparr>symlinks_of = no_links,
     writeRules = resolveRulePatterns no_links allowedWriteRules,
     readRules = resolveRulePatterns no_links allowedReadRules,
     runCmd = (\<lambda>_. (\<lparr>exStdout = [], exStderr = [], exExitCode = 0\<rparr>, None)),
     mkdirErr = (\<lambda>_. None), writeErr = (\<lambda>_. None), readFileOf = (\<lambda>_. Inr [])\<rparr>"

definition write_msg :: "string \<Rightarrow> string \<Rightarrow> goint \<Rightarrow> RawMessage" where
  "write_msg p c m = \<lparr>asExec = Inl ''cmd'', asWrite = Inr \<lparr>fwpPath = p, fwpContent = c,
     fwpMode = m, fwpMkdirP = True\<rparr>, asRead = Inl ''path'', asMkdir = Inl ''path''\<rparr>"

definition exec_msg :: "string \<Rightarrow> RawMessage" where
  "exec_msg cmd = \<lparr>asExec = Inr \<lparr>exCmd = cmd, exArgs = [], exStdin = [], exEnv = []\<rparr>,
     asWrite = Inl ''path'', asRead = Inl ''path'', asMkdir = Inl ''path''\<rparr>"

definition request :: "string \<Rightarrow> RawMessage \<Rightarrow> Request" where
  "request method raw = \<lparr>rqJSONRPC = ''2.0'', rqMethod = method, rqParams = raw, rqID = 1\<rparr>"

lemma symlinks_ok_no_links: "symlinks_ok no_links"
  by (auto simp: symlinks_ok_def no_links_def Clean_idem IsAbs_Clean)

lemma plain_may_write: "may_write plain_env ''/etc/unbound/../unbound/u.conf''"
    "may_write plain_env ''/tmp/lankeeper-x/nft''"
  by (simp_all add: may_write_def plain_env_def, code_simp+)

lemma write_dispatched:
  assumes "may_write plain_env p"
  shows "dispatch plain_env agentServer (request ''file.write'' (write_msg p c m)) =
    ([EMkdirAll (path_Dir p) 493,
      EWriteFile p c (if FileMode m = 0 then 420 else FileMode m)],
     \<lparr>rsJSONRPC = ''2.0'', rsResult = Some RStatusOk, rsError = None, rsID = 1\<rparr>)"
  using assms
  by (simp add: dispatch_def request_def agent_handlers opFileWrite_def write_msg_def Let_def
      may_write_def plain_env_def)

lemma exec_dispatched:
  assumes "path_Base cmd \<in> set allowedCommands"
  shows "fst (dispatch plain_env agentServer (request ''exec.run'' (exec_msg cmd))) =
    [EExec \<lparr>exCmd = cmd, exArgs = [], exStdin = [], exEnv = []\<rparr>]"
  using assms
  by (simp add: dispatch_def request_def agent_handlers opExecRun_def exec_msg_def Let_def
      plain_env_def)

text \<open>A host with links: one to a directory, one to a file that is not there.\<close>

definition link_tree :: tree where
  "link_tree = map_of [([''etc''], Directory), ([''etc'', ''unbound''], Directory), ([''root''], Directory), ([''root'', ''s''], Directory),
     ([''etc'', ''unbound'', ''d''], Link ''/root/s''), ([''etc'', ''unbound'', ''l''], Link ''/root/x''),
     ([''etc'', ''unbound'', ''u''], Link ''../unbound'')]"

definition tree_links :: "tree \<Rightarrow> symlinks" where
  "tree_links t p = (if IsAbs p then EvalSymlinks t p else None)"

lemma sees_tree_links: "sees_tree t (tree_links t)"
  by (simp add: sees_tree_def tree_links_def)

lemma symlinks_ok_tree: "symlinks_ok (tree_links t)"
proof (unfold symlinks_ok_def, intro allI impI)
  fix p q
  assume "tree_links t p = Some q"
  then obtain cs k where w: "walk t 255 [] (Split p slash) = Some (cs, k)" and q: "q = slash # Join cs ''/''"
    by (auto simp: tree_links_def EvalSymlinks_def split: if_splits option.splits)
  have "list_all plain_comp cs" by (rule walk_plain [OF w]) (auto simp: list_all_iff dest: Split_no_sep)
  then show "Clean q = q \<and> (IsAbs p \<longrightarrow> IsAbs q)" using q by (simp add: Clean_rooted path_comps_rooted list_all_iff)
qed

definition link_env :: agentEnv where
  "link_env = plain_env\<lparr>symlinks_of := tree_links link_tree, writeRules := resolveRulePatterns (tree_links link_tree) allowedWriteRules,
     readRules := resolveRulePatterns (tree_links link_tree) allowedReadRules\<rparr>"

theorem agent_confined_witness:
  "open_create link_tree ''/etc/unbound/u/u.conf'' = Some [''etc'', ''unbound'', ''u.conf''] \<and>
   (\<exists>r \<in> set allowedWriteRules. in_location (tree_links link_tree) r [''etc'', ''unbound'', ''u.conf''])"
proof -
  let ?p = "''/etc/unbound/u/u.conf''" and ?es = "tree_links link_tree"
  let ?req = "(link_env, request ''file.write'' (write_msg ?p ''server:'' 420))"
  have "may_write link_env ?p" by (simp add: may_write_def link_env_def, code_simp)
  then have "EWriteFile ?p ''server:'' 420 \<in> set (fst (handleConn agentServer [?req]))"
    by (simp add: handleConn_effects dispatch_def request_def agent_handlers opFileWrite_def write_msg_def Let_def may_write_def
        link_env_def plain_env_def FileMode_def del: handleConn.simps)
  note c = agent_confined [OF symlinks_ok_tree _ this, of link_tree, simplified]
  have o: "open_create link_tree ?p = Some [''etc'', ''unbound'', ''u.conf'']" "Clean ?p = ?p" "\<not> dangling link_tree ?p" "IsAbs ?p"
    by code_simp+
  show ?thesis using c o sees_tree_links [of link_tree] symlinks_ok_tree [of link_tree]
    by (auto simp: link_env_def creates_at_def)
qed

text \<open>
  The three ways out of the rules: a last name that is a link to nowhere, a \<open>..\<close> behind a link to a
  directory (the check cleans the path by its text, the kernel does not), and missing directories below such
  a link, which the check compares unresolved and \<open>MkdirAll\<close> then makes at the link's target.
\<close>

theorem links_lead_out:
  "may_write link_env ''/etc/unbound/l'' \<and> open_create link_tree ''/etc/unbound/l'' = Some [''root'', ''x''] \<and>
   may_write link_env ''/etc/unbound/d/../f'' \<and> open_create link_tree ''/etc/unbound/d/../f'' = Some [''root'', ''f''] \<and>
   may_write link_env ''/etc/unbound/d/n/f'' \<and> open_create link_tree (path_Dir ''/etc/unbound/d/n/f'') = Some [''root'', ''s'', ''n'']"
  by (simp add: may_write_def link_env_def, code_simp)

text \<open>
  The whitelists do not compose to a boundary: the web process can have the agent write any
  content, executable, to \<open>/tmp/lankeeper-x/nft\<close> (the file-name prefix rule also admits
  subdirectories) and then run that very file, since the command check looks at the base name
  only.
\<close>

theorem agent_runs_planted_program:
  "\<exists>reqs. \<exists>es resps. handleConn agentServer reqs = (es, resps) \<and>
     EWriteFile ''/tmp/lankeeper-x/nft'' payload 493 \<in> set es \<and>
     EExec \<lparr>exCmd = ''/tmp/lankeeper-x/nft'', exArgs = [], exStdin = [], exEnv = []\<rparr> \<in> set es"
proof -
  let ?p = "''/tmp/lankeeper-x/nft''"
  let ?reqs = "[(plain_env, request ''file.write'' (write_msg ?p payload 493)),
     (plain_env, request ''exec.run'' (exec_msg ?p))]"
  have base: "path_Base ?p \<in> set allowedCommands" by code_simp
  have w: "EWriteFile ?p payload 493 \<in> set (fst (handleConn agentServer ?reqs))"
    using write_dispatched [OF plain_may_write(2)] by (auto simp: handleConn_effects FileMode_def simp del: handleConn.simps)
  have x: "EExec \<lparr>exCmd = ?p, exArgs = [], exStdin = [], exEnv = []\<rparr> \<in> set (fst (handleConn agentServer ?reqs))"
    using exec_dispatched [OF base] by (auto simp: handleConn_effects simp del: handleConn.simps)
  show ?thesis using w x by (intro exI [of _ ?reqs] exI) (auto simp: prod_eq_iff simp del: handleConn.simps)
qed

end
