(* ===== verification/AgentClient.thy ===== *)
theory AgentClient
  imports Agent
begin

text \<open>
  The web process's side of the agent protocol: the client of \<^verbatim>\<open>internal/agent/client.go\<close> and
  the helpers of \<^verbatim>\<open>internal/netutil/exec.go\<close> that send requests through it or, without an
  agent, act locally. A connection is the queue of responses the server has put on it and the client
  has not read; the answer to a request whose sending or reading failed may still arrive there, and only
  closing the connection discards it. Network failures are parameters of each call; the server is \<open>dispatch\<close> of theory
  \<open>Agent\<close>.
\<close>

section \<open>Strings in JSON\<close>

text \<open>
  Encoding a string with \<open>encoding/json\<close> replaces every byte that is not part of a valid UTF-8
  sequence by the replacement character, U+FFFD; decoding gives back the rest unchanged.
\<close>

definition cont_byte :: "nat \<Rightarrow> nat \<Rightarrow> char \<Rightarrow> bool" where
  "cont_byte lo hi c \<longleftrightarrow> lo \<le> of_char c \<and> (of_char c :: nat) \<le> hi"

text \<open>The length of the UTF-8 sequence a string starts with; 0 when it starts with none.\<close>

definition utf8_len :: "string \<Rightarrow> nat" where
  "utf8_len s =
     (case s of [] \<Rightarrow> 0
      | a # r \<Rightarrow>
        (let b = (of_char a :: nat);
             c2 = (\<lambda>lo hi. (case r of x # _ \<Rightarrow> cont_byte lo hi x | [] \<Rightarrow> False));
             c3 = (case r of _ # y # _ \<Rightarrow> cont_byte 128 191 y | _ \<Rightarrow> False);
             c4 = (case r of _ # _ # z # _ \<Rightarrow> cont_byte 128 191 z | _ \<Rightarrow> False)
         in if b < 128 then 1
            else if 194 \<le> b \<and> b \<le> 223 then (if c2 128 191 then 2 else 0)
            else if b = 224 then (if c2 160 191 \<and> c3 then 3 else 0)
            else if b = 237 then (if c2 128 159 \<and> c3 then 3 else 0)
            else if 225 \<le> b \<and> b \<le> 239 then (if c2 128 191 \<and> c3 then 3 else 0)
            else if b = 240 then (if c2 144 191 \<and> c3 \<and> c4 then 4 else 0)
            else if 241 \<le> b \<and> b \<le> 243 then (if c2 128 191 \<and> c3 \<and> c4 then 4 else 0)
            else if b = 244 then (if c2 128 143 \<and> c3 \<and> c4 then 4 else 0)
            else 0))"

definition replacement_char :: string where
  "replacement_char = [char_of (239 :: nat), char_of (191 :: nat), char_of (189 :: nat)]"

function json_text :: "string \<Rightarrow> string" where
  "json_text s =
     (if s = [] then []
      else if utf8_len s = 0 then replacement_char @ json_text (tl s)
      else take (utf8_len s) s @ json_text (drop (utf8_len s) s))"
  by pat_completeness auto
termination by (relation "measure length") auto

declare json_text.simps [simp del]

definition is_ascii :: "string \<Rightarrow> bool" where
  "is_ascii s \<longleftrightarrow> list_all (\<lambda>c. of_char c < (128 :: nat)) s"

lemma json_text_ascii: "is_ascii s \<Longrightarrow> json_text s = s"
proof (induction s)
  case Nil
  then show ?case by (simp add: json_text.simps)
next
  case (Cons c s)
  then have "utf8_len (c # s) = 1" by (simp add: utf8_len_def is_ascii_def Let_def)
  with Cons show ?case by (simp add: json_text.simps [of "c # s"] is_ascii_def)
qed

section \<open>Messages\<close>

text \<open>
  What decoding a marshalled parameter struct gives at the other end. A field the target struct has
  and the message lacks is zero; fields the target does not have are ignored.
\<close>

definition zero_ExecParams :: ExecParams where
  "zero_ExecParams = \<lparr>exCmd = [], exArgs = [], exStdin = [], exEnv = []\<rparr>"

definition zero_FileWriteParams :: FileWriteParams where
  "zero_FileWriteParams = \<lparr>fwpPath = [], fwpContent = [], fwpMode = 0, fwpMkdirP = False\<rparr>"

definition marshal_exec :: "ExecParams \<Rightarrow> RawMessage" where
  "marshal_exec p =
     \<lparr>asExec = Inr \<lparr>exCmd = json_text (exCmd p), exArgs = map json_text (exArgs p),
        exStdin = json_text (exStdin p), exEnv = map json_text (exEnv p)\<rparr>,
      asWrite = Inr zero_FileWriteParams, asRead = Inr \<lparr>frpPath = []\<rparr>,
      asMkdir = Inr \<lparr>mkpPath = [], mkpMode = 0\<rparr>\<rparr>"

definition marshal_write :: "FileWriteParams \<Rightarrow> RawMessage" where
  "marshal_write p =
     \<lparr>asExec = Inr zero_ExecParams,
      asWrite = Inr \<lparr>fwpPath = json_text (fwpPath p), fwpContent = json_text (fwpContent p),
        fwpMode = fwpMode p, fwpMkdirP = fwpMkdirP p\<rparr>,
      asRead = Inr \<lparr>frpPath = json_text (fwpPath p)\<rparr>,
      asMkdir = Inr \<lparr>mkpPath = json_text (fwpPath p), mkpMode = fwpMode p\<rparr>\<rparr>"

definition marshal_mkdir :: "MkdirParams \<Rightarrow> RawMessage" where
  "marshal_mkdir p =
     \<lparr>asExec = Inr zero_ExecParams,
      asWrite = Inr (zero_FileWriteParams\<lparr>fwpPath := json_text (mkpPath p), fwpMode := mkpMode p\<rparr>),
      asRead = Inr \<lparr>frpPath = json_text (mkpPath p)\<rparr>,
      asMkdir = Inr \<lparr>mkpPath = json_text (mkpPath p), mkpMode = mkpMode p\<rparr>\<rparr>"

definition marshal_read :: "string \<Rightarrow> RawMessage" where
  "marshal_read path =
     \<lparr>asExec = Inr zero_ExecParams,
      asWrite = Inr (zero_FileWriteParams\<lparr>fwpPath := json_text path\<rparr>),
      asRead = Inr \<lparr>frpPath = json_text path\<rparr>,
      asMkdir = Inr \<lparr>mkpPath = json_text path, mkpMode = 0\<rparr>\<rparr>"

text \<open>A response as it is after one trip through JSON.\<close>

fun json_result :: "opResult \<Rightarrow> opResult" where
  "json_result (RExec r) = RExec \<lparr>exStdout = json_text (exStdout r), exStderr = json_text (exStderr r),
     exExitCode = exExitCode r\<rparr>"
| "json_result (RContent s) = RContent (json_text s)"
| "json_result RPong = RPong"
| "json_result RStatusOk = RStatusOk"

definition json_response :: "Response \<Rightarrow> Response" where
  "json_response r =
     r\<lparr>rsResult := map_option json_result (rsResult r),
       rsError := map_option (\<lambda>e. e\<lparr>rpcMessage := json_text (rpcMessage e)\<rparr>) (rsError r)\<rparr>"

section \<open>The client\<close>

record Client =
  clSocketPath :: string
  clTimeout :: duration
  clConn :: "Response list option"
  clNextID :: goint

text \<open>
  How the network treats one call: dialling, sending and reading may fail; a request whose sending
  failed may have reached the server all the same.
\<close>

record callEnv =
  dialErr :: "error option"
  sendErr :: "error option"
  delivered :: bool
  readErr :: "error option"
  remote :: agentEnv

definition NewClient :: "string \<Rightarrow> Client" where
  "NewClient path = \<lparr>clSocketPath = path, clTimeout = nanos 10, clConn = None, clNextID = 0\<rparr>"

definition ensureConn :: "callEnv \<Rightarrow> Client \<Rightarrow> error option \<times> Client" where
  "ensureConn env c =
     (case clConn c of
        Some q \<Rightarrow> (None, c)
      | None \<Rightarrow> (case dialErr env of
          Some e \<Rightarrow> (Some (''dial agent: '' @ e), c)
        | None \<Rightarrow> (None, c\<lparr>clConn := Some []\<rparr>)))"

definition client_close :: "Client \<Rightarrow> Client" where
  "client_close c = c\<lparr>clConn := None\<rparr>"

definition Call :: "callEnv \<Rightarrow> Server \<Rightarrow> string \<Rightarrow> RawMessage \<Rightarrow> Client \<Rightarrow>
    (error + opResult option) \<times> effect list \<times> Client" where
  "Call env srv meth params c0 =
     (case ensureConn env c0 of
        (Some e, c) \<Rightarrow> (Inl e, [], c)
      | (None, c) \<Rightarrow>
        (let c1 = c\<lparr>clNextID := wrap64 (clNextID c + 1)\<rparr>;
             req = \<lparr>rqJSONRPC = ''2.0'', rqMethod = meth, rqParams = params, rqID = clNextID c1\<rparr>;
             answer = dispatch (remote env) srv req;
             wire = the (clConn c1) @ [json_response (snd answer)]
         in case sendErr env of
              Some e \<Rightarrow> (Inl (''send request: '' @ e), if delivered env then fst answer else [],
                         client_close (if delivered env then c1\<lparr>clConn := Some wire\<rparr> else c1))
            | None \<Rightarrow>
              (case readErr env of
                 Some e \<Rightarrow> (Inl (''read response: '' @ e), fst answer, client_close (c1\<lparr>clConn := Some wire\<rparr>))
               | None \<Rightarrow>
                 (let resp = hd wire; c2 = c1\<lparr>clConn := Some (tl wire)\<rparr> in
                  case rsError resp of
                    Some err \<Rightarrow> (Inl (''rpc error '' @ Itoa (rpcCode err) @ '': '' @ rpcMessage err),
                                 fst answer, c2)
                  | None \<Rightarrow> (Inr (rsResult resp), fst answer, c2)))))"

section \<open>The helpers of netutil\<close>

text \<open>
  The package variable \<open>agentClient\<close> is the optional client; \<open>nuLocal\<close> answers for the local
  operating system when it is nil.
\<close>

record netutilEnv =
  nuCall :: callEnv
  nuServer :: Server
  nuLocal :: agentEnv

definition runViaAgentFull :: "netutilEnv \<Rightarrow> string \<Rightarrow> string list \<Rightarrow> string \<Rightarrow> string list \<Rightarrow> Client \<Rightarrow>
    ExecResult option \<times> error option \<times> effect list \<times> Client" where
  "runViaAgentFull env stdin envv name args cl =
     (case Call (nuCall env) (nuServer env) ''exec.run''
             (marshal_exec \<lparr>exCmd = name, exArgs = args, exStdin = stdin, exEnv = envv\<rparr>) cl of
        (Inl e, es, cl') \<Rightarrow> (None, Some (''agent exec.run '' @ name @ '': '' @ e), es, cl')
      | (Inr (Some (RExec r)), es, cl') \<Rightarrow> (Some r, None, es, cl')
      | (Inr _, es, cl') \<Rightarrow> (Some \<lparr>exStdout = [], exStderr = [], exExitCode = 0\<rparr>, None, es, cl'))"

definition RunLocal :: "netutilEnv \<Rightarrow> string \<Rightarrow> string list \<Rightarrow>
    ExecResult option \<times> error option \<times> effect list" where
  "RunLocal env name args =
     (let p = \<lparr>exCmd = name, exArgs = args, exStdin = [], exEnv = []\<rparr> in
      case runCmd (nuLocal env) p of
        (r, Some e) \<Rightarrow> (Some r, Some (''exec '' @ name @ '': '' @ e), [EExec p])
      | (r, None) \<Rightarrow> (Some r, None, [EExec p]))"

definition Run :: "netutilEnv \<Rightarrow> string \<Rightarrow> string list \<Rightarrow> Client option \<Rightarrow>
    ExecResult option \<times> error option \<times> effect list \<times> Client option" where
  "Run env name args agentClient =
     (case agentClient of
        Some cl \<Rightarrow> (case runViaAgentFull env [] [] name args cl of (r, e, es, cl') \<Rightarrow> (r, e, es, Some cl'))
      | None \<Rightarrow> (case RunLocal env name args of (r, e, es) \<Rightarrow> (r, e, es, None)))"

definition RunSimple :: "netutilEnv \<Rightarrow> string \<Rightarrow> string list \<Rightarrow> Client option \<Rightarrow>
    (error + string) \<times> effect list \<times> Client option" where
  "RunSimple env name args agentClient =
     (case Run env name args agentClient of
        (_, Some e, es, cl) \<Rightarrow> (Inl e, es, cl)
      | (r, None, es, cl) \<Rightarrow> (Inr (exStdout (the r)), es, cl))"

definition RunWithStdin :: "netutilEnv \<Rightarrow> string \<Rightarrow> string \<Rightarrow> string list \<Rightarrow> Client option \<Rightarrow>
    (error + string) \<times> effect list \<times> Client option" where
  "RunWithStdin env stdin name args agentClient =
     (case agentClient of
        Some cl \<Rightarrow> (case runViaAgentFull env stdin [] name args cl of
            (_, Some e, es, cl') \<Rightarrow> (Inl e, es, Some cl')
          | (r, None, es, cl') \<Rightarrow> (Inr (exStdout (the r)), es, Some cl'))
      | None \<Rightarrow>
        (let p = \<lparr>exCmd = name, exArgs = args, exStdin = stdin, exEnv = []\<rparr> in
         case runCmd (nuLocal env) p of
           (r, Some e) \<Rightarrow> (Inl (''exec '' @ name @ '': '' @ e @ '' (stderr: '' @ exStderr r @ '')''), [EExec p], None)
         | (r, None) \<Rightarrow> (Inr (exStdout r), [EExec p], None)))"

definition RunWithEnv :: "netutilEnv \<Rightarrow> string list \<Rightarrow> string \<Rightarrow> string list \<Rightarrow> Client option \<Rightarrow>
    ExecResult option \<times> error option \<times> effect list \<times> Client option" where
  "RunWithEnv env envv name args agentClient =
     (case agentClient of
        Some cl \<Rightarrow> (case runViaAgentFull env [] envv name args cl of (r, e, es, cl') \<Rightarrow> (r, e, es, Some cl'))
      | None \<Rightarrow>
        (let p = \<lparr>exCmd = name, exArgs = args, exStdin = [], exEnv = envv\<rparr> in
         case runCmd (nuLocal env) p of
           (r, Some e) \<Rightarrow> (Some r, Some (''exec '' @ name @ '': '' @ e), [EExec p], None)
         | (r, None) \<Rightarrow> (Some r, None, [EExec p], None)))"

definition WriteFile :: "netutilEnv \<Rightarrow> string \<Rightarrow> string \<Rightarrow> goint \<Rightarrow> Client option \<Rightarrow>
    error option \<times> effect list \<times> Client option" where
  "WriteFile env path content mode agentClient =
     (case agentClient of
        Some cl \<Rightarrow> (case Call (nuCall env) (nuServer env) ''file.write''
             (marshal_write \<lparr>fwpPath = path, fwpContent = content, fwpMode = mode, fwpMkdirP = True\<rparr>) cl of
            (Inl e, es, cl') \<Rightarrow> (Some (''agent file.write '' @ path @ '': '' @ e), es, Some cl')
          | (Inr _, es, cl') \<Rightarrow> (None, es, Some cl'))
      | None \<Rightarrow> (case mkdirErr (nuLocal env) (path_Dir path) of
            Some e \<Rightarrow> (Some (''mkdir parent: '' @ e), [EMkdirAll (path_Dir path) 493], None)
          | None \<Rightarrow> (writeErr (nuLocal env) path,
              [EMkdirAll (path_Dir path) 493, EWriteFile path content mode], None)))"

definition MkdirAll :: "netutilEnv \<Rightarrow> string \<Rightarrow> goint \<Rightarrow> Client option \<Rightarrow>
    error option \<times> effect list \<times> Client option" where
  "MkdirAll env path mode agentClient =
     (case agentClient of
        Some cl \<Rightarrow> (case Call (nuCall env) (nuServer env) ''file.mkdir''
             (marshal_mkdir \<lparr>mkpPath = path, mkpMode = mode\<rparr>) cl of
            (Inl e, es, cl') \<Rightarrow> (Some (''agent file.mkdir '' @ path @ '': '' @ e), es, Some cl')
          | (Inr _, es, cl') \<Rightarrow> (None, es, Some cl'))
      | None \<Rightarrow> (mkdirErr (nuLocal env) path, [EMkdirAll path mode], None))"

definition ReadFile :: "netutilEnv \<Rightarrow> string \<Rightarrow> Client option \<Rightarrow>
    (error + string) \<times> effect list \<times> Client option" where
  "ReadFile env path agentClient =
     (case agentClient of
        Some cl \<Rightarrow> (case Call (nuCall env) (nuServer env) ''file.read'' (marshal_read path) cl of
            (Inl e, es, cl') \<Rightarrow> (Inl (''agent file.read '' @ path @ '': '' @ e), es, Some cl')
          | (Inr (Some (RContent s)), es, cl') \<Rightarrow> (Inr s, es, Some cl')
          | (Inr _, es, cl') \<Rightarrow> (Inr [], es, Some cl'))
      | None \<Rightarrow> (readFileOf (nuLocal env) path, [EReadFile path], None))"

section \<open>Requests and answers stay paired\<close>

text \<open>Between two calls nothing is left on the connection.\<close>

definition idle :: "Client \<Rightarrow> bool" where
  "idle c \<longleftrightarrow> clConn c = None \<or> clConn c = Some []"

text \<open>The result of a call is what the server answers to that call's own request, or an error.\<close>

definition own_answer :: "Server \<Rightarrow> callEnv \<times> string \<times> RawMessage \<Rightarrow>
    (error + opResult option) \<times> effect list \<Rightarrow> bool" where
  "own_answer srv call res =
     (case (call, res) of ((env, meth, params), (r, es)) \<Rightarrow>
        (\<exists>i. case dispatch (remote env) srv
                 \<lparr>rqJSONRPC = ''2.0'', rqMethod = meth, rqParams = params, rqID = i\<rparr> of
              (es', resp) \<Rightarrow>
                (case r of
                   Inr v \<Rightarrow> es = es' \<and> rsError resp = None \<and> v = map_option json_result (rsResult resp)
                 | Inl e \<Rightarrow> es = es' \<or> es = [])))"

lemma Call_own_answer:
  assumes "idle c" "Call env srv meth params c = (r, es, c')"
  shows "idle c' \<and> own_answer srv (env, meth, params) (r, es)"
proof (cases "ensureConn env c")
  case (Pair err c1)
  show ?thesis
  proof (cases err)
    case (Some e)
    then have "c' = c" "es = []" "r = Inl e" using assms Pair
      by (auto simp: Call_def ensureConn_def split: option.splits)
    then show ?thesis using assms(1) by (auto simp: own_answer_def)
  next
    case None
    then have conn: "clConn c1 = Some []" using assms(1) Pair
      by (auto simp: ensureConn_def idle_def split: option.splits)
    obtain es' resp where d: "dispatch (remote env) srv \<lparr>rqJSONRPC = ''2.0'', rqMethod = meth,
        rqParams = params, rqID = wrap64 (clNextID c1 + 1)\<rparr> = (es', resp)" by fastforce
    then have "idle c' \<and> (case r of Inr v \<Rightarrow> es = es' \<and> rsError resp = None \<and>
        v = map_option json_result (rsResult resp) | Inl e \<Rightarrow> es = es' \<or> es = [])"
      using assms(2) None Pair conn
      by (auto simp: Call_def Let_def idle_def client_close_def json_response_def split: option.splits if_splits)
    then show ?thesis unfolding own_answer_def
      by (auto simp: d intro!: exI [of _ "wrap64 (clNextID c1 + 1)"])
  qed
qed

fun calls :: "Server \<Rightarrow> Client \<Rightarrow> (callEnv \<times> string \<times> RawMessage) list \<Rightarrow>
    ((error + opResult option) \<times> effect list) list \<times> Client" where
  "calls srv c [] = ([], c)"
| "calls srv c ((env, meth, params) # rest) =
     (case Call env srv meth params c of (r, es, c') \<Rightarrow>
       (case calls srv c' rest of (rs, c'') \<Rightarrow> ((r, es) # rs, c'')))"

lemma calls_own_answers:
  "idle c \<Longrightarrow> calls srv c cs = (rs, c') \<Longrightarrow> list_all2 (own_answer srv) cs rs \<and> idle c'"
proof (induction srv c cs arbitrary: rs c' rule: calls.induct)
  case (2 srv c env meth params rest)
  obtain r es c1 where call: "Call env srv meth params c = (r, es, c1)" by (metis prod_cases3)
  obtain rs1 where "calls srv c1 rest = (rs1, c')" "rs = (r, es) # rs1"
    using "2.prems"(2) call by (auto split: prod.splits)
  then show ?case using Call_own_answer [OF "2.prems"(1) call] "2.IH" [OF call [symmetric]] by auto
qed simp

lemma idle_NewClient [simp]: "idle (NewClient path)"
  by (simp add: idle_def NewClient_def)

text \<open>
  C15. Answers stay paired with their requests: in any sequence of calls over one client, whatever
  dials, sends and reads fail or time out in between, a call that succeeds returns what the server
  answers to that very request, and a call that fails had the effects of that request or none. A
  response that arrives after its call timed out is never taken for the answer to a later one.
\<close>

theorem client_answers_match:
  assumes "calls srv (NewClient path) cs = (rs, c)"
  shows "list_all2 (own_answer srv) cs rs \<and> idle c"
  using calls_own_answers [OF idle_NewClient assms] .

definition good_call :: "callEnv" where
  "good_call = \<lparr>dialErr = None, sendErr = None, delivered = True, readErr = None, remote = plain_env\<rparr>"

text \<open>A command that times out, and then a ping.\<close>

theorem client_answers_match_witness:
  "\<exists>es. calls agentServer (NewClient ''/run/a.sock'')
      [(good_call\<lparr>readErr := Some ''timeout''\<rparr>, ''exec.run'', marshal_exec (zero_ExecParams\<lparr>exCmd := ''nft''\<rparr>)),
       (good_call, ''ping'', marshal_read [])] =
      ([(Inl ''read response: timeout'', es), (Inr (Some RPong), [])],
       \<lparr>clSocketPath = ''/run/a.sock'', clTimeout = nanos 10, clConn = Some [], clNextID = 2\<rparr>) \<and>
     own_answer agentServer (good_call, ''ping'', marshal_read []) (Inr (Some RPong), [])"
proof -
  let ?x = "(good_call\<lparr>readErr := Some ''timeout''\<rparr>, ''exec.run'', marshal_exec (zero_ExecParams\<lparr>exCmd := ''nft''\<rparr>))"
  let ?p = "(good_call, ''ping'', marshal_read [])"
  let ?es = "fst (dispatch plain_env agentServer \<lparr>rqJSONRPC = ''2.0'', rqMethod = ''exec.run'',
      rqParams = marshal_exec (zero_ExecParams\<lparr>exCmd := ''nft''\<rparr>), rqID = 1\<rparr>)"
  have "wrap64 (0 + 1) = 1" "wrap64 (1 + 1) = 2" by (simp_all add: wrap64_def)
  then have run: "calls agentServer (NewClient ''/run/a.sock'') [?x, ?p] =
      ([(Inl ''read response: timeout'', ?es), (Inr (Some RPong), [])],
       \<lparr>clSocketPath = ''/run/a.sock'', clTimeout = nanos 10, clConn = Some [], clNextID = 2\<rparr>)"
    by (simp add: Call_def ensureConn_def NewClient_def good_call_def Let_def client_close_def
        dispatch_def agent_handlers opPing_def json_response_def)
  show ?thesis using client_answers_match [OF run] run by auto
qed

section \<open>Files and commands through the agent\<close>

lemma Call_success:
  assumes "idle c" "Call env agentServer meth params c = (Inr v, es, c')"
  shows "\<exists>h r. svHandlers agentServer meth = Some h \<and> h (remote env) params = (es, Inr r) \<and> v = Some (json_result r)"
  using Call_own_answer [OF assms]
  by (auto simp: own_answer_def dispatch_def error_response_def split: option.splits sum.splits prod.splits)

text \<open>
  A file the web process is told was written has been written: when \<open>WriteFile\<close> through the agent
  reports no error, the agent created the parent directory and wrote the whole content (bytes that
  are not UTF-8 replaced) with the given mode, and the path is one the write rules admit.
\<close>

theorem WriteFile_through_agent:
  assumes "idle cl" "nuServer env = agentServer"
    and "WriteFile env path content mode (Some cl) = (None, es, cl')"
  shows "es = [EMkdirAll (path_Dir (json_text path)) 493,
      EWriteFile (json_text path) (json_text content) (if FileMode mode = 0 then 420 else FileMode mode)] \<and>
    may_write (remote (nuCall env)) (json_text path)"
proof -
  obtain v c2 where call: "Call (nuCall env) agentServer ''file.write''
      (marshal_write \<lparr>fwpPath = path, fwpContent = content, fwpMode = mode, fwpMkdirP = True\<rparr>) cl = (Inr v, es, c2)"
    using assms(2,3) by (auto simp: WriteFile_def split: prod.splits sum.splits)
  show ?thesis using Call_success [OF assms(1) call]
    by (auto simp: agent_handlers opFileWrite_def marshal_write_def may_write_def Let_def
        split: if_splits option.splits)
qed

lemma ascii_samples:
  "json_text ''/etc/unbound/../unbound/u.conf'' = ''/etc/unbound/../unbound/u.conf''"
  "json_text ''server:'' = ''server:''"
  by (rule json_text_ascii, code_simp)+

theorem WriteFile_through_agent_witness:
  "\<exists>cl'. WriteFile \<lparr>nuCall = good_call, nuServer = agentServer, nuLocal = plain_env\<rparr>
      ''/etc/unbound/../unbound/u.conf'' ''server:'' 420 (Some (NewClient ''/run/a.sock'')) =
     (None, [EMkdirAll (path_Dir ''/etc/unbound/../unbound/u.conf'') 493,
        EWriteFile ''/etc/unbound/../unbound/u.conf'' ''server:'' 420], cl')"
proof -
  let ?p = "''/etc/unbound/../unbound/u.conf''"
  let ?env = "\<lparr>nuCall = good_call, nuServer = agentServer, nuLocal = plain_env\<rparr>"
  obtain es cl' where run: "WriteFile ?env ?p ''server:'' 420 (Some (NewClient ''/run/a.sock'')) = (None, es, cl')"
    using plain_may_write(1)
    by (auto simp: WriteFile_def Call_def ensureConn_def NewClient_def good_call_def Let_def dispatch_def
        agent_handlers opFileWrite_def marshal_write_def may_write_def ascii_samples json_response_def
        error_response_def plain_env_def)
  show ?thesis using WriteFile_through_agent [OF _ _ run] run by (simp add: ascii_samples FileMode_def)
qed

end
