(* ===== verification/WebProcess.thy ===== *)
theory WebProcess
  imports AgentClient IPv6
begin

text \<open>
  Services and agent put together: the answers a service gets in the web process are those of the
  agent, reached through the client. Calls of package \<open>os\<close> stay in the web process.
\<close>

section \<open>Answers from the agent\<close>

definition agent_answer :: "callEnv \<Rightarrow> (syscall \<Rightarrow> error + string) \<Rightarrow> syscall list \<Rightarrow> syscall \<Rightarrow> error + string" where
  "agent_answer ce os tr c =
     (let nu = \<lparr>nuCall = ce, nuServer = agentServer, nuLocal = remote ce\<rparr>;
          cl = Some (NewClient ''/run/lankeeper/agent.sock'');
          stdout = (\<lambda>res. case res of (_, Some e, _) \<Rightarrow> Inl e | (r, None, _) \<Rightarrow> Inr (exStdout (the r)));
          unit = (\<lambda>res. case res of (Some e, _) \<Rightarrow> Inl e | (None, _) \<Rightarrow> Inr [])
      in case c of
           CRun n as \<Rightarrow> stdout (Run nu n as cl)
         | CRunStdin s n as \<Rightarrow> fst (RunWithStdin nu s n as cl)
         | CRunEnv v n as \<Rightarrow> stdout (RunWithEnv nu v n as cl)
         | CWriteFile p d m \<Rightarrow> unit (WriteFile nu p d m cl)
         | CMkdirAll p m \<Rightarrow> unit (MkdirAll nu p m cl)
         | CReadFile p \<Rightarrow> fst (ReadFile nu p cl)
         | _ \<Rightarrow> os c)"

text \<open>The agent on a host whose configuration directories are not symbolic links.\<close>

definition standard_agent :: "agentEnv \<Rightarrow> bool" where
  "standard_agent env \<longleftrightarrow> symlinks_of env = no_links \<and>
     writeRules env = resolveRulePatterns no_links allowedWriteRules \<and>
     readRules env = resolveRulePatterns no_links allowedReadRules"

text \<open>
  A directory rule ends in a slash and the checked path does not, so that the directory a rule names
  is itself outside it.
\<close>

lemma refused_mkdir:
  assumes "standard_agent (remote ce)" "is_ascii p"
    and "\<not> checkPathRules no_links p (resolveRulePatterns no_links allowedWriteRules)"
  shows "\<exists>e. agent_answer ce os tr (CMkdirAll p m) = Inl e"
proof -
  let ?c = "NewClient ''/run/lankeeper/agent.sock''"
  obtain r es cl' where call: "Call ce agentServer ''file.mkdir'' (marshal_mkdir \<lparr>mkpPath = p, mkpMode = m\<rparr>) ?c = (r, es, cl')"
    by (metis prod_cases3)
  have "\<exists>e. r = Inl e"
  proof (cases r)
    case (Inr v)
    from Call_success [OF idle_NewClient call [unfolded Inr]] show ?thesis
      using assms by (auto simp: agent_handlers opFileMkdir_def marshal_mkdir_def json_text_ascii standard_agent_def)
  qed simp
  then show ?thesis using call by (auto simp: agent_answer_def MkdirAll_def)
qed

lemma ra_dir_refused:
  "path_Dir dnsmasqRAConfPath = ''/etc/dnsmasq.d''"
  "\<not> checkPathRules no_links ''/etc/dnsmasq.d'' (resolveRulePatterns no_links allowedWriteRules)"
  by code_simp+

definition is_mkdir :: "syscall \<Rightarrow> bool" where
  "is_mkdir c = (case c of CMkdirAll _ _ \<Rightarrow> True | _ \<Rightarrow> False)"

lemma make_dir_run:
  "make_dir env d w =
     (case seAnswer (i6Sys env) (wTrace w) (CMkdirAll d 493) of
        Inl e \<Rightarrow> (Inl (''mkdir '' @ d @ '': '' @ e), w\<lparr>wTrace := wTrace w @ [CMkdirAll d 493]\<rparr>)
      | Inr _ \<Rightarrow> (Inr (), w\<lparr>wTrace := wTrace w @ [CMkdirAll d 493]\<rparr>))"
  by (simp add: make_dir_def io_simps split: sum.splits)

text \<open>
  C16. Behind the agent, IPv6 cannot be turned on. Whenever the configuration asks for prefix delegation
  or a tunnel, applying it fails, at the latest at the creation of \<open>/etc/dnsmasq.d\<close>, which the agent refuses because
  its write rule covers only paths below that directory. No file is written and no unit is touched,
  whatever the network and the operating system answer.
\<close>

theorem ipv6_apply_refused_by_agent:
  assumes "standard_agent (remote ce)" "seAnswer (i6Sys env) = agent_answer ce os"
    and "ip6Enabled (cfgIPv6 (wcfg w)) \<noteq> ''off''"
    and "pd_requested (wcfg w) \<or> ip6Mode (cfgIPv6 (wcfg w)) = ''6in4''"
  shows "\<exists>e w' cs. ip6_ApplyConfig env w = (Inl e, w') \<and> wTrace w' = wTrace w @ cs \<and> list_all is_mkdir cs"
proof -
  let ?k = "io_then (make_dir env ''/etc/dnsmasq.d'')"
  obtain n where n: "RenderToDisk env w = io_then (make_dir env (path_Dir ipv6StatePath)) (?k n) w"
    using assms(3,4) by (auto simp: RenderToDisk_def Let_def ra_dir_refused)
  have "is_ascii ''/etc/dnsmasq.d''" by code_simp
  then have refused: "\<exists>e. make_dir env ''/etc/dnsmasq.d'' w1 = (Inl e, w1\<lparr>wTrace := wTrace w1 @ [CMkdirAll ''/etc/dnsmasq.d'' 493]\<rparr>)" for w1
    using refused_mkdir [OF assms(1) _ ra_dir_refused(2), of os "wTrace w1" 493]
    by (auto simp: make_dir_run assms(2))
  have "\<exists>e w' cs. RenderToDisk env w = (Inl e, w') \<and> wTrace w' = wTrace w @ cs \<and> list_all is_mkdir cs"
    unfolding n io_then_def io_bind_def make_dir_run [of env "path_Dir ipv6StatePath"]
    using refused [of "w\<lparr>wTrace := wTrace w @ [CMkdirAll (path_Dir ipv6StatePath) 493]\<rparr>"]
    by (auto simp: is_mkdir_def split: sum.splits)
  then show ?thesis by (auto simp: ip6_ApplyConfig_def io_then_def io_bind_def)
qed

theorem ipv6_apply_refused_by_agent_witness:
  "\<exists>e w'. ip6_ApplyConfig
      ((lease_env (Inr []))\<lparr>i6Sys := calm_env\<lparr>seAnswer := agent_answer good_call (\<lambda>_. Inr [])\<rparr>\<rparr>)
      \<lparr>wStore = \<lparr>cfg = map_ip6 (\<lambda>i. i\<lparr>ip6WAN := (ip6WAN i)\<lparr>wan6RequestPrefix := True\<rparr>\<rparr>) (demo_ip6 []), disk = Map.empty\<rparr>,
        wTrace = []\<rparr> = (Inl e, w')"
proof -
  let ?env = "(lease_env (Inr []))\<lparr>i6Sys := calm_env\<lparr>seAnswer := agent_answer good_call (\<lambda>_. Inr [])\<rparr>\<rparr>"
  let ?w = "\<lparr>wStore = \<lparr>cfg = map_ip6 (\<lambda>i. i\<lparr>ip6WAN := (ip6WAN i)\<lparr>wan6RequestPrefix := True\<rparr>\<rparr>) (demo_ip6 []), disk = Map.empty\<rparr>,
        wTrace = []\<rparr>"
  have "standard_agent (remote good_call)" by (simp add: standard_agent_def good_call_def plain_env_def)
  moreover have "seAnswer (i6Sys ?env) = agent_answer good_call (\<lambda>_. Inr [])" by simp
  moreover have "ip6Enabled (cfgIPv6 (wcfg ?w)) \<noteq> ''off''" "pd_requested (wcfg ?w) \<or> ip6Mode (cfgIPv6 (wcfg ?w)) = ''6in4''"
    by (simp_all add: demo_ip6_defs pd_requested_def)
  ultimately show ?thesis using ipv6_apply_refused_by_agent [of good_call ?env _ ?w] by blast
qed

end
