(* ===== verification/Routing.thy ===== *)
theory Routing
  imports Effects
begin

text \<open>
  Policy-based routing (\<^verbatim>\<open>internal/services/routing.go\<close>): the list of policies with its edits and
  priorities, the nftables chain generated from it, and the commands that install and remove it. The
  sort routine and the answers of the commands are parameters.
\<close>

section \<open>Definitions\<close>

subsection \<open>Editing the policies\<close>

abbreviation policies :: "Config \<Rightarrow> RoutingPolicy list" where
  "policies c \<equiv> rtPolicies (cfgRouting c)"

definition map_policies :: "(RoutingPolicy list \<Rightarrow> RoutingPolicy list) \<Rightarrow> Config \<Rightarrow> Config" where
  "map_policies f c = c\<lparr>cfgRouting := (cfgRouting c)\<lparr>rtPolicies := f (policies c)\<rparr>\<rparr>"

type_synonym policy_sort = "RoutingPolicy list \<Rightarrow> RoutingPolicy list"

definition GetPolicies :: "policy_sort \<Rightarrow> store \<Rightarrow> RoutingPolicy list" where
  "GetPolicies srt st = srt (policies (cfg st))"

definition AddPolicy :: "osenv \<Rightarrow> RoutingPolicy \<Rightarrow> store \<Rightarrow> error option \<times> store" where
  "AddPolicy env policy st =
     SaveToFile env (st\<lparr>cfg := map_policies (\<lambda>ps. ps @
       [assign_priority rpPriority (\<lambda>n p. p\<lparr>rpPriority := n\<rparr>) policy ps]) (cfg st)\<rparr>)"

definition RemovePolicy :: "osenv \<Rightarrow> string \<Rightarrow> store \<Rightarrow> error option \<times> store" where
  "RemovePolicy env name st =
     (case find_index (\<lambda>p. rpName p = name) (policies (cfg st)) of
        Some i \<Rightarrow> SaveToFile env (st\<lparr>cfg := map_policies (remove_nth i) (cfg st)\<rparr>)
      | None \<Rightarrow> (Some (''policy '' @ quote_q name @ '' not found''), st))"

text \<open>The map from names to policies holds, for each name, the last policy that has it.\<close>

definition last_named :: "string \<Rightarrow> RoutingPolicy list \<Rightarrow> nat option" where
  "last_named name ps =
     (case find_index (\<lambda>p. rpName p = name) (rev ps) of Some j \<Rightarrow> Some (length ps - 1 - j) | None \<Rightarrow> None)"

definition set_priority :: "RoutingPolicy list \<Rightarrow> nat \<times> string \<Rightarrow> RoutingPolicy list" where
  "set_priority ps iname =
     (case last_named (snd iname) ps of
        Some k \<Rightarrow> ps[k := (ps ! k)\<lparr>rpPriority := wrap64 ((int (fst iname) + 1) * 10)\<rparr>]
      | None \<Rightarrow> ps)"

definition UpdatePriorities :: "osenv \<Rightarrow> string list \<Rightarrow> store \<Rightarrow> error option \<times> store" where
  "UpdatePriorities env orderedNames st =
     SaveToFile env (st\<lparr>cfg := map_policies (\<lambda>ps. foldl set_priority ps (enumerate 0 orderedNames)) (cfg st)\<rparr>)"

definition TogglePolicy :: "osenv \<Rightarrow> string \<times> bool \<Rightarrow> store \<Rightarrow> error option \<times> store" where
  "TogglePolicy env = (\<lambda>(name, enabled) st.
     (case find_index (\<lambda>p. rpName p = name) (policies (cfg st)) of
        Some i \<Rightarrow> SaveToFile env (st\<lparr>cfg := map_policies
            (\<lambda>ps. ps[i := (ps ! i)\<lparr>rpEnabled := enabled\<rparr>]) (cfg st)\<rparr>)
      | None \<Rightarrow> (Some (''policy '' @ quote_q name @ '' not found''), st)))"

subsection \<open>The chain\<close>

record tunnelRef =
  tnTable :: goint
  tnFwmark :: goint

definition findTunnel :: "Config \<Rightarrow> string \<Rightarrow> tunnelRef option" where
  "findTunnel c name =
     (case find (\<lambda>t. wgcName t = name) (vpnClients (cfgVPN c)) of
        Some t \<Rightarrow> Some \<lparr>tnTable = wgcTable t, tnFwmark = wgcFwmark t\<rparr>
      | None \<Rightarrow> (case find (\<lambda>t. ovcName t = name) (ovpnClients (cfgOpenVPN c)) of
          Some t \<Rightarrow> Some \<lparr>tnTable = ovcTable t, tnFwmark = ovcFwmark t\<rparr>
        | None \<Rightarrow> None))"

definition sanitizeName :: "string \<Rightarrow> string" where
  "sanitizeName s = ReplaceBytes [(CHR '' '', CHR ''_''), (CHR ''-'', CHR ''_''), (CHR ''.'', CHR ''_'')] s"

definition dquote :: string where "dquote = [CHR 0x22]"

definition buildScheduleMatch :: "string \<Rightarrow> string" where
  "buildScheduleMatch schedule =
     (case Split schedule (CHR ''-'') of
        [a, b] \<Rightarrow>
          (let start = TrimSpace a; end' = TrimSpace b in
           if start = [] \<or> end' = [] then []
           else ''meta hour >= '' @ dquote @ start @ dquote @ '' meta hour < '' @ dquote @ end' @ dquote @ '' '')
      | _ \<Rightarrow> [])"

definition rule_pre :: string where "rule_pre = ''add rule inet filter pbr_policies ''"

definition mark_line :: "string \<Rightarrow> string \<Rightarrow> goint \<Rightarrow> string" where
  "mark_line sched m fwmark = rule_pre @ sched @ m @ '' meta mark set '' @ Itoa fwmark @ nl"

definition drop_line :: "string \<Rightarrow> goint \<Rightarrow> string" where
  "drop_line m fwmark = rule_pre @ m @ '' meta mark != '' @ Itoa fwmark @ '' drop'' @ nl"

definition set_name :: "RoutingPolicy \<Rightarrow> string" where
  "set_name p = ''pbr_'' @ sanitizeName (rpName p)"

text \<open>The lines one enabled policy with a known tunnel contributes.\<close>

definition policy_lines :: "RoutingPolicy \<Rightarrow> goint \<Rightarrow> string" where
  "policy_lines p fwmark =
     (let schedulePrefix = (if rpSchedule p \<noteq> [] then buildScheduleMatch (rpSchedule p) else []);
          proto = (if rpProtocol p = [] then ''tcp'' else rpProtocol p)
      in concat (map (\<lambda>mac. mark_line schedulePrefix (''ether saddr '' @ mac) fwmark) (rpSrcMACs p)) @
         concat (map (\<lambda>ip. mark_line schedulePrefix (''ip saddr '' @ ip) fwmark) (rpSrcIPs p)) @
         concat (map (\<lambda>dst. mark_line schedulePrefix (''ip daddr '' @ dst) fwmark) (rpDstIPs p)) @
         concat (map (\<lambda>port. mark_line schedulePrefix (proto @ '' dport '' @ Itoa port) fwmark) (rpDstPorts p)) @
         (if rpDomains p \<noteq> []
          then ''add set inet filter '' @ set_name p @ '' { type ipv4_addr ; flags timeout ; }'' @ nl @
               mark_line schedulePrefix (''ip daddr @'' @ set_name p) fwmark
          else []) @
         (if rpKillSwitch p
          then concat (map (\<lambda>mac. drop_line (''ether saddr '' @ mac) fwmark) (rpSrcMACs p)) @
               concat (map (\<lambda>ip. drop_line (''ip saddr '' @ ip) fwmark) (rpSrcIPs p))
          else []))"

definition generateFullNftChain :: "Config \<Rightarrow> RoutingPolicy list \<Rightarrow> string" where
  "generateFullNftChain c ps =
     ''flush chain inet filter pbr_policies 2>/dev/null'' @ nl @
     ''add chain inet filter pbr_policies { type filter hook forward priority -1 ; policy accept ; }'' @ nl @
     concat (map (\<lambda>p. if \<not> rpEnabled p then []
         else (case findTunnel c (rpTunnel p) of None \<Rightarrow> [] | Some t \<Rightarrow> policy_lines p (tnFwmark t))) ps) @
     ''add rule inet filter pbr_policies ct mark set meta mark'' @ nl"

definition GenerateNftRules :: "policy_sort \<Rightarrow> Config \<Rightarrow> string" where
  "GenerateNftRules srt c = generateFullNftChain c (srt (policies c))"

subsection \<open>Installing and removing\<close>

text \<open>The sets of domains by their nftables name, each without duplicates.\<close>

type_synonym domain_sets = "string \<rightharpoonup> string list"

definition applyNftRules :: "sysenv \<Rightarrow> string \<Rightarrow> unit action" where
  "applyNftRules env rules w =
     (let tmpFile = ''/tmp/pbr-rules.nft'' in
      case sys env (COsWriteFile tmpFile rules 384) w of
        (Inl e, w1) \<Rightarrow> (Inl (''write PBR rules: '' @ e), w1)
      | (Inr _, w1) \<Rightarrow> (case sys env (CRun ''nft'' [''-f'', tmpFile]) w1 of
          (r, w2) \<Rightarrow> (case r of Inl e \<Rightarrow> Inl e | Inr _ \<Rightarrow> Inr (), snd (sys env (COsRemove tmpFile) w2))))"

definition resolve_line :: "sysenv \<Rightarrow> string \<Rightarrow> string \<Rightarrow> unit action" where
  "resolve_line env setName line =
     (let ip = TrimSpace line in
      if ip = [] \<or> Contains ip '':'' then io_return ()
      else io_ignore (sys env (CRun ''nft'' [''add'', ''element'', ''inet'', ''filter'', setName,
             ''{'', ip, ''timeout'', ''300s'', ''}''])))"

definition resolve_domain :: "sysenv \<Rightarrow> string \<Rightarrow> string \<Rightarrow> unit action" where
  "resolve_domain env setName domain w =
     (case sys env (CRun ''dig'' [''+short'', domain]) w of
        (Inl e, w1) \<Rightarrow> (Inr (), w1)
      | (Inr out, w1) \<Rightarrow> io_each (resolve_line env setName) (Split (TrimSpace out) (CHR 0x0A)) w1)"

definition resolveDomains :: "sysenv \<Rightarrow> string \<Rightarrow> string list \<Rightarrow> unit action" where
  "resolveDomains env setName domains = io_each (resolve_domain env setName) domains"

definition add_domains :: "string \<Rightarrow> string list \<Rightarrow> domain_sets \<Rightarrow> domain_sets" where
  "add_domains setName domains ds =
     ds(setName \<mapsto> fold List.insert domains (case ds setName of Some xs \<Rightarrow> xs | None \<Rightarrow> []))"

definition setupDomainSet :: "sysenv \<Rightarrow> RoutingPolicy \<Rightarrow> domain_sets \<times> world \<Rightarrow> domain_sets \<times> world" where
  "setupDomainSet env p dw =
     (case dw of (ds, w) \<Rightarrow>
       (add_domains (set_name p) (rpDomains p) ds, snd (resolveDomains env (set_name p) (rpDomains p) w)))"

definition rule_del :: "tunnelRef \<Rightarrow> syscall" where
  "rule_del t = CRun ''ip'' [''rule'', ''del'', ''fwmark'', Itoa (tnFwmark t), ''lookup'', Itoa (tnTable t)]"

definition rule_add :: "tunnelRef \<Rightarrow> RoutingPolicy \<Rightarrow> syscall" where
  "rule_add t p = CRun ''ip'' [''rule'', ''add'', ''fwmark'', Itoa (tnFwmark t), ''lookup'', Itoa (tnTable t),
     ''priority'', Itoa (rpPriority p)]"

definition apply_policy :: "sysenv \<Rightarrow> Config \<Rightarrow> domain_sets \<times> world \<Rightarrow> RoutingPolicy \<Rightarrow> domain_sets \<times> world" where
  "apply_policy env c dw p =
     (if \<not> rpEnabled p then dw
      else (case findTunnel c (rpTunnel p) of
          None \<Rightarrow> dw
        | Some t \<Rightarrow>
          (let w1 = snd (sys env (rule_del t) (snd dw)); w2 = snd (sys env (rule_add t p) w1)
           in if rpDomains p \<noteq> [] then setupDomainSet env p (fst dw, w2) else (fst dw, w2))))"

definition pbr_Apply :: "sysenv \<Rightarrow> policy_sort \<Rightarrow> domain_sets \<times> world \<Rightarrow> error option \<times> domain_sets \<times> world" where
  "pbr_Apply env srt dw =
     (let c = wcfg (snd dw); ps = srt (policies c) in
      case applyNftRules env (generateFullNftChain c ps) (snd dw) of
        (Inl e, w1) \<Rightarrow> (Some (''apply nft PBR chain: '' @ e), fst dw, w1)
      | (Inr _, w1) \<Rightarrow> (None, foldl (apply_policy env c) (fst dw, w1) ps))"

definition clear_policy :: "sysenv \<Rightarrow> Config \<Rightarrow> RoutingPolicy \<Rightarrow> unit action" where
  "clear_policy env c p =
     (case findTunnel c (rpTunnel p) of
        None \<Rightarrow> io_return ()
      | Some t \<Rightarrow> io_then (io_ignore (sys env (rule_del t)))
          (if rpDomains p \<noteq> []
           then io_ignore (sys env (CRun ''nft'' [''delete'', ''set'', ''inet'', ''filter'', set_name p]))
           else io_return ()))"

definition pbr_Clear :: "sysenv \<Rightarrow> unit action" where
  "pbr_Clear env w =
     io_then (io_ignore (sys env (CRun ''nft'' [''delete'', ''chain'', ''inet'', ''filter'', ''pbr_policies''])))
       (io_each (clear_policy env (wcfg w)) (policies (wcfg w))) w"

text \<open>One tick of the refresh goroutine; the sets and their domains come in some order of the maps.\<close>

definition refresh_tick :: "sysenv \<Rightarrow> (string \<times> string list) list \<Rightarrow> unit action" where
  "refresh_tick env sets = io_each (\<lambda>(setName, domains). resolveDomains env setName domains) sets"

section \<open>The edits as configuration changes\<close>

lemma cfgFilePath_map_policies [simp]: "cfgFilePath (map_policies f c) = cfgFilePath c"
  by (simp add: map_policies_def)

lemma policies_map_policies [simp]: "policies (map_policies f c) = f (policies c)"
  by (simp add: map_policies_def)

interpretation add_policy: config_mutation AddPolicy "\<lambda>_ _. None"
  "\<lambda>p. map_policies (\<lambda>ps. ps @ [assign_priority rpPriority (\<lambda>n p. p\<lparr>rpPriority := n\<rparr>) p ps])"
  by unfold_locales (simp_all add: AddPolicy_def)

interpretation remove_policy: config_mutation RemovePolicy
  "\<lambda>name c. if find_index (\<lambda>p. rpName p = name) (policies c) = None
     then Some (''policy '' @ quote_q name @ '' not found'') else None"
  "\<lambda>name. map_policies (\<lambda>ps. remove_nth (the (find_index (\<lambda>p. rpName p = name) ps)) ps)"
  by unfold_locales (auto simp: RemovePolicy_def map_policies_def split: option.splits)

interpretation update_priorities: config_mutation UpdatePriorities "\<lambda>_ _. None"
  "\<lambda>names. map_policies (\<lambda>ps. foldl set_priority ps (enumerate 0 names))"
  by unfold_locales (simp_all add: UpdatePriorities_def)

interpretation toggle_policy: config_mutation TogglePolicy
  "\<lambda>(name, _) c. if find_index (\<lambda>p. rpName p = name) (policies c) = None
     then Some (''policy '' @ quote_q name @ '' not found'') else None"
  "\<lambda>(name, en). map_policies (\<lambda>ps. ps[the (find_index (\<lambda>p. rpName p = name) ps) :=
     (ps ! the (find_index (\<lambda>p. rpName p = name) ps))\<lparr>rpEnabled := en\<rparr>])"
  by unfold_locales (auto simp: TogglePolicy_def map_policies_def split: option.splits)

interpretation pbr_policies: auto_priority rpPriority "\<lambda>n p. p\<lparr>rpPriority := n\<rparr>"
  by unfold_locales simp

section \<open>Reordering\<close>

lemma sorts_by_key_unique:
  assumes "sorts_by (\<lambda>x y. key x < (key y :: int)) srt"
  shows "map key (srt xs) = sort (map key xs)"
proof -
  have "mset (srt xs) = mset xs" "sorted_wrt (\<lambda>x y. \<not> key y < key x) (srt xs)"
    using assms by (auto simp: sorts_by_def)
  then have "sorted (map key (srt xs))" "mset (map key (srt xs)) = mset (map key xs)"
    by (simp_all add: sorted_map not_less)
  then show ?thesis by (metis properties_for_sort)
qed

lemma last_named_distinct:
  assumes "distinct (map rpName ps)"
  shows "(case last_named n ps of Some k \<Rightarrow> ps[k := f (ps ! k)] | None \<Rightarrow> ps) =
    map (\<lambda>p. if rpName p = n then f p else p) ps"
proof (cases "find_index (\<lambda>p. rpName p = n) (rev ps)")
  case None
  then have "\<forall>p \<in> set ps. rpName p \<noteq> n" by (simp add: find_index_None)
  then show ?thesis using None by (simp add: last_named_def map_idI)
next
  case (Some j)
  let ?k = "length ps - 1 - j"
  have j: "j < length ps" "rpName (rev ps ! j) = n" using find_index_Some [OF Some] by auto
  then have k: "?k < length ps" "rpName (ps ! ?k) = n" by (simp_all add: rev_nth)
  have "ps[?k := f (ps ! ?k)] = map (\<lambda>p. if rpName p = n then f p else p) ps"
  proof (rule nth_equalityI)
    fix i assume i: "i < length (ps[?k := f (ps ! ?k)])"
    show "ps[?k := f (ps ! ?k)] ! i = map (\<lambda>p. if rpName p = n then f p else p) ps ! i"
    proof (cases "i = ?k")
      case False
      then have "rpName (ps ! i) \<noteq> n" using i k assms by (metis length_list_update length_map nth_eq_iff_index_eq nth_map)
      then show ?thesis using i False by simp
    qed (use i k in simp)
  qed simp
  then show ?thesis using Some by (simp add: last_named_def)
qed

lemma set_priority_map:
  "distinct (map rpName ps) \<Longrightarrow> set_priority ps (i, n) =
     map (\<lambda>p. if rpName p = n then p\<lparr>rpPriority := wrap64 ((int i + 1) * 10)\<rparr> else p) ps"
  unfolding set_priority_def fst_conv snd_conv by (rule last_named_distinct)

text \<open>The priority a name gets from its place in the list.\<close>

definition place :: "nat \<Rightarrow> string list \<Rightarrow> string \<Rightarrow> goint option" where
  "place k names n = map_option (\<lambda>i. wrap64 ((int (k + i) + 1) * 10)) (find_index (\<lambda>m. m = n) names)"

lemma set_priorities_map:
  "distinct (map rpName ps) \<Longrightarrow> distinct names \<Longrightarrow> foldl set_priority ps (enumerate k names) =
     map (\<lambda>p. case place k names (rpName p) of Some v \<Rightarrow> p\<lparr>rpPriority := v\<rparr> | None \<Rightarrow> p) ps"
proof (induction names arbitrary: k ps)
  case Nil
  show ?case by (simp add: place_def)
next
  case (Cons n names)
  let ?ps = "map (\<lambda>p. if rpName p = n then p\<lparr>rpPriority := wrap64 ((int k + 1) * 10)\<rparr> else p) ps"
  have "map rpName ?ps = map rpName ps" by simp
  then have d: "distinct (map rpName ?ps)" using Cons.prems(1) by metis
  have "place (Suc k) names n = None" using Cons.prems(2) by (auto simp: place_def find_index_None)
  then show ?case using Cons.IH [OF d, of "Suc k"] Cons.prems
    by (auto simp: set_priority_map place_def option.map_comp o_def algebra_simps split: option.splits)
qed

lemma place_nth:
  assumes "distinct names" "i < length names"
  shows "place 0 names (names ! i) = Some (wrap64 ((int i + 1) * 10))"
proof -
  obtain j where j: "find_index (\<lambda>m. m = names ! i) names = Some j"
    using assms(2) find_index_None [of "\<lambda>m. m = names ! i" names] by (metis not_Some_eq nth_mem)
  then have "j = i" using find_index_Some [OF j] assms nth_eq_iff_index_eq by metis
  then show ?thesis using j by (simp add: place_def)
qed

lemma places_sorted:
  assumes "distinct names" "10 * int (length names) \<le> max_int64"
  shows "map (the \<circ> place 0 names) names = map (\<lambda>i. (int i + 1) * 10) [0..<length names]"
proof (rule nth_equalityI)
  fix i assume "i < length (map (the \<circ> place 0 names) names)"
  then have i: "i < length names" by simp
  then have "in_int64 ((int i + 1) * 10)" using assms(2) by (simp add: in_int64_def min_int64_def)
  then show "map (the \<circ> place 0 names) names ! i = map (\<lambda>i. (int i + 1) * 10) [0..<length names] ! i"
    using i place_nth [OF assms(1) i] by simp
qed simp

text \<open>
  Dragging policies into a new order works: for distinct names, after \<open>UpdatePriorities\<close> with the
  names in some order, the sorted list of policies has exactly that order, whichever sort routine is
  used and whether or not the configuration could be saved.
\<close>

theorem reorder_policies:
  assumes "distinct (map rpName (policies (cfg st)))" "mset names = mset (map rpName (policies (cfg st)))"
    and "10 * int (length names) \<le> max_int64" "sorts_by (\<lambda>p q. rpPriority p < rpPriority q) srt"
    and "UpdatePriorities env names st = (r, st')"
  shows "map rpName (GetPolicies srt st') = names"
proof -
  have dn: "distinct names" using assms(1,2) by (metis mset_eq_imp_distinct_iff)
  let ?f = "the \<circ> place 0 names"
  let ?qs = "foldl set_priority (policies (cfg st)) (enumerate 0 names)"
  let ?set = "\<lambda>p. case place 0 names (rpName p) of Some v \<Rightarrow> p\<lparr>rpPriority := v\<rparr> | None \<Rightarrow> p"
  have qs: "?qs = map ?set (policies (cfg st))" using set_priorities_map [OF assms(1) dn] .
  have st': "policies (cfg st') = ?qs"
    using update_priorities.accepted_cfg [where env = env and x = names and st = st] assms(5) by simp
  have inj: "inj_on ?f (set names)"
    using places_sorted [OF dn assms(3)] distinct_map [of ?f names] by (simp add: distinct_map inj_on_def)
  have names_qs: "map rpName ?qs = map rpName (policies (cfg st))"
    unfolding qs by (auto split: option.splits)
  have prio: "rpPriority q = ?f (rpName q) \<and> rpName q \<in> set names" if q: "q \<in> set ?qs" for q
  proof -
    obtain p where p: "p \<in> set (policies (cfg st))" "q = ?set p" using q unfolding qs set_map by blast
    then have "rpName p \<in> set names" using assms(2) by (metis image_eqI set_map set_mset_mset)
    then obtain i where "i < length names" "rpName p = names ! i" by (metis in_set_conv_nth)
    then have "place 0 names (rpName p) = Some (wrap64 ((int i + 1) * 10))" using place_nth [OF dn] by simp
    then show ?thesis using p \<open>rpName p \<in> set names\<close> by simp
  qed
  let ?rs = "srt ?qs"
  have m: "mset ?rs = mset ?qs" using assms(4) by (simp add: sorts_by_def)
  then have s: "set ?rs = set ?qs" by (metis set_mset_mset)
  have "map ?f (map rpName ?rs) = map rpPriority ?rs" using prio s by simp
  also have "\<dots> = sort (map rpPriority ?qs)" using sorts_by_key_unique [OF assms(4)] .
  also have "map rpPriority ?qs = map ?f (map rpName ?qs)" using prio by simp
  also have "sort \<dots> = sort (map ?f names)"
    using assms(2) names_qs by (metis mset_map sorted_list_of_multiset_mset)
  also have "\<dots> = map ?f names"
    unfolding places_sorted [OF dn assms(3)] by (rule sorted_sort_id) (simp add: sorted_iff_nth_mono)
  finally have eq: "map ?f (map rpName ?rs) = map ?f names" .
  have "set (map rpName ?rs) \<subseteq> set names" using prio s by auto
  then have "map rpName ?rs = names" using eq inj by (metis inj_on_map_eq_map sup.orderE sup_commute)
  then show ?thesis by (simp add: GetPolicies_def st')
qed

definition demo_policy :: "string \<Rightarrow> goint \<Rightarrow> RoutingPolicy" where
  "demo_policy n k = zero_RoutingPolicy\<lparr>rpName := n, rpPriority := k\<rparr>"

theorem reorder_policies_witness:
  "map rpName (GetPolicies (sort_key rpPriority) (snd (UpdatePriorities (quiet_env zero_Config) [''tv'', ''pc'']
     \<lparr>cfg = map_policies (\<lambda>_. [demo_policy ''pc'' 10, demo_policy ''tv'' 20]) zero_Config, disk = Map.empty\<rparr>))) = [''tv'', ''pc'']"
proof -
  let ?st = "\<lparr>cfg = map_policies (\<lambda>_. [demo_policy ''pc'' 10, demo_policy ''tv'' 20]) zero_Config, disk = Map.empty\<rparr>"
  have "distinct (map rpName (policies (cfg ?st)))" "mset [''tv'', ''pc''] = mset (map rpName (policies (cfg ?st)))"
    "10 * int (length [''tv'', ''pc'']) \<le> max_int64"
    by (simp_all add: demo_policy_def max_int64_def)
  then show ?thesis
    using reorder_policies [of ?st "[''tv'', ''pc'']" "sort_key rpPriority" "quiet_env zero_Config"] sort_key_sorts_by
    by (metis prod.collapse)
qed

section \<open>The meaning of the chain\<close>

text \<open>
  The lines of the chain as nftables reads them: a rule that sets the mark of a packet its match and
  hours apply to, a rule that drops a matching packet with another mark, and a set.
\<close>

datatype chain_item =
    SetMark string string goint
  | DropUnless string goint
  | AddSet string

fun item_text :: "chain_item \<Rightarrow> string" where
  "item_text (SetMark hours m f) = mark_line hours m f"
| "item_text (DropUnless m f) = drop_line m f"
| "item_text (AddSet n) = ''add set inet filter '' @ n @ '' { type ipv4_addr ; flags timeout ; }'' @ nl"

definition source_matches :: "RoutingPolicy \<Rightarrow> string list" where
  "source_matches p = map (\<lambda>mac. ''ether saddr '' @ mac) (rpSrcMACs p) @ map (\<lambda>ip. ''ip saddr '' @ ip) (rpSrcIPs p)"

definition mark_items :: "RoutingPolicy \<Rightarrow> goint \<Rightarrow> chain_item list" where
  "mark_items p f =
     (let h = (if rpSchedule p \<noteq> [] then buildScheduleMatch (rpSchedule p) else []);
          proto = (if rpProtocol p = [] then ''tcp'' else rpProtocol p)
      in map (\<lambda>m. SetMark h m f)
           (source_matches p @ map (\<lambda>d. ''ip daddr '' @ d) (rpDstIPs p) @
            map (\<lambda>port. proto @ '' dport '' @ Itoa port) (rpDstPorts p)) @
         (if rpDomains p \<noteq> [] then [AddSet (set_name p), SetMark h (''ip daddr @'' @ set_name p) f] else []))"

definition drop_items :: "RoutingPolicy \<Rightarrow> goint \<Rightarrow> chain_item list" where
  "drop_items p f = (if rpKillSwitch p then map (\<lambda>m. DropUnless m f) (source_matches p) else [])"

definition policy_items :: "Config \<Rightarrow> RoutingPolicy \<Rightarrow> chain_item list" where
  "policy_items c p =
     (if \<not> rpEnabled p then []
      else (case findTunnel c (rpTunnel p) of
          None \<Rightarrow> [] | Some t \<Rightarrow> mark_items p (tnFwmark t) @ drop_items p (tnFwmark t)))"

text \<open>The verdict on a packet for which \<open>holds\<close> says what expressions apply: dropped, or its mark.\<close>

fun run_chain :: "(string \<Rightarrow> bool) \<Rightarrow> chain_item list \<Rightarrow> goint \<Rightarrow> goint option" where
  "run_chain holds [] mark = Some mark"
| "run_chain holds (SetMark h m f # r) mark = run_chain holds r (if holds h \<and> holds m then f else mark)"
| "run_chain holds (DropUnless m f # r) mark = (if holds m \<and> mark \<noteq> f then None else run_chain holds r mark)"
| "run_chain holds (AddSet n # r) mark = run_chain holds r mark"

lemma policy_lines_text:
  "policy_lines p f = concat (map item_text (mark_items p f @ drop_items p f))"
  by (simp add: policy_lines_def mark_items_def drop_items_def source_matches_def Let_def o_def)

lemma chain_text:
  "generateFullNftChain c ps = ''flush chain inet filter pbr_policies 2>/dev/null'' @ nl @
     ''add chain inet filter pbr_policies { type filter hook forward priority -1 ; policy accept ; }'' @ nl @
     concat (map item_text (concat (map (policy_items c) ps))) @
     ''add rule inet filter pbr_policies ct mark set meta mark'' @ nl"
proof -
  have "concat (map (\<lambda>p. if \<not> rpEnabled p then []
         else (case findTunnel c (rpTunnel p) of None \<Rightarrow> [] | Some t \<Rightarrow> policy_lines p (tnFwmark t))) ps) =
      concat (map item_text (concat (map (policy_items c) ps)))"
    by (induction ps) (auto simp: policy_items_def policy_lines_text split: option.splits)
  then show ?thesis by (simp only: generateFullNftChain_def)
qed

lemma run_chain_append:
  "run_chain holds (xs @ ys) mark = (case run_chain holds xs mark of None \<Rightarrow> None | Some m \<Rightarrow> run_chain holds ys m)"
  by (induction holds xs mark rule: run_chain.induct) auto

fun item_marks :: "chain_item \<Rightarrow> goint list" where
  "item_marks (SetMark h m f) = [f]"
| "item_marks _ = []"

lemma run_chain_mark:
  "run_chain holds xs mark = Some mark' \<Longrightarrow> mark' = mark \<or> (\<exists>x \<in> set xs. mark' \<in> set (item_marks x))"
  by (induction holds xs mark rule: run_chain.induct) (auto split: if_splits)

lemma mark_items_mark: "x \<in> set (mark_items p f) \<Longrightarrow> m \<in> set (item_marks x) \<Longrightarrow> m = f"
  by (auto simp: mark_items_def Let_def split: if_splits)

lemma policy_items_mark:
  "x \<in> set (policy_items c q) \<Longrightarrow> m \<in> set (item_marks x) \<Longrightarrow>
     rpEnabled q \<and> map_option tnFwmark (findTunnel c (rpTunnel q)) = Some m"
  by (cases "findTunnel c (rpTunnel q)")
    (auto simp: policy_items_def drop_items_def dest: mark_items_mark split: if_splits)

lemma run_drops:
  "run_chain holds (map (\<lambda>m. DropUnless m f) ms) mark =
     (if mark \<noteq> f \<and> (\<exists>m \<in> set ms. holds m) then None else Some mark)"
  by (induction ms) auto

text \<open>
  The rules of the chain, read alone, mean what the policies say: a packet whose source matches an enabled
  policy with the kill switch on is dropped or leaves with the mark of that policy's tunnel or of the tunnel
  of a policy after it. This is a fact about the rule items only. The script they are part of is not one nft
  loads (\<open>policy_routing_never_installed\<close>), and its chain is at the forward hook, where the mark comes after the
  routing decision.
\<close>

theorem kill_rules_drop_or_mark:
  assumes "rpEnabled p" "rpKillSwitch p" "findTunnel c (rpTunnel p) = Some t"
    and "\<exists>m \<in> set (source_matches p). holds m"
    and "run_chain holds (concat (map (policy_items c) (before @ p # after))) mark = Some mark'"
  shows "generateFullNftChain c (before @ p # after) =
      ''flush chain inet filter pbr_policies 2>/dev/null'' @ nl @
      ''add chain inet filter pbr_policies { type filter hook forward priority -1 ; policy accept ; }'' @ nl @
      concat (map item_text (concat (map (policy_items c) (before @ p # after)))) @
      ''add rule inet filter pbr_policies ct mark set meta mark'' @ nl \<and>
    (\<exists>q \<in> set (p # after). rpEnabled q \<and> map_option tnFwmark (findTunnel c (rpTunnel q)) = Some mark')"
proof -
  let ?f = "tnFwmark t"
  obtain m1 m2 where
    m2: "run_chain holds (map (\<lambda>m. DropUnless m ?f) (source_matches p)) m1 = Some m2" and
    rest: "run_chain holds (concat (map (policy_items c) after)) m2 = Some mark'"
    using assms(1-3,5)
    by (auto simp: run_chain_append policy_items_def drop_items_def split: option.splits)
  have "m2 = ?f" using m2 assms(4) by (auto simp: run_drops split: if_splits)
  have "\<exists>q \<in> set (p # after). rpEnabled q \<and> map_option tnFwmark (findTunnel c (rpTunnel q)) = Some mark'"
    using run_chain_mark [OF rest]
  proof
    assume "mark' = m2"
    then show ?thesis using \<open>m2 = ?f\<close> assms(1,3) by simp
  next
    assume "\<exists>x \<in> set (concat (map (policy_items c) after)). mark' \<in> set (item_marks x)"
    then show ?thesis using policy_items_mark by fastforce
  qed
  then show ?thesis using chain_text by blast
qed

section \<open>Loading the chain\<close>

text \<open>
  What \<open>nft -f\<close> reads: the text last written to the file. The command \<open>flush chain\<close> takes a family, a table and
  a chain; anything else on its line, but a separator or a comment, is a syntax error, and a file with a
  syntax error is refused as a whole.
\<close>

definition file_text :: "syscall list \<Rightarrow> string \<Rightarrow> string option" where
  "file_text tr f = foldl (\<lambda>a c. case c of
       COsWriteFile p text' m \<Rightarrow> if p = f then Some text' else a
     | COsRemove p \<Rightarrow> if p = f then None else a
     | _ \<Rightarrow> a) None tr"

definition bad_flush :: "string \<Rightarrow> bool" where
  "bad_flush line \<longleftrightarrow> CHR '';'' \<notin> set line \<and> CHR ''#'' \<notin> set line \<and>
     take 2 (Fields line) = [''flush'', ''chain''] \<and> length (Fields line) > 5"

definition nft_refuses_bad_flush :: "sysenv \<Rightarrow> bool" where
  "nft_refuses_bad_flush env \<longleftrightarrow> (\<forall>tr f text'. file_text tr f = Some text' \<and>
     (\<exists>line \<in> set (Split text' (CHR 0x0A)). bad_flush line) \<longrightarrow> isl (seAnswer env tr (CRun ''nft'' [''-f'', f])))"

lemma chain_first_line: "\<exists>rest. Split (generateFullNftChain c ps) (CHR 0x0A) = ''flush chain inet filter pbr_policies 2>/dev/null'' # rest"
  by (simp add: generateFullNftChain_def nl_def)

lemma chain_bad_flush: "\<exists>line \<in> set (Split (generateFullNftChain c ps) (CHR 0x0A)). bad_flush line"
proof -
  have "bad_flush ''flush chain inet filter pbr_policies 2>/dev/null''" by code_simp
  then show ?thesis using chain_first_line [of c ps] by fastforce
qed

lemma file_text_written: "file_text (tr @ [COsWriteFile f text' m]) f = Some text'"
  by (simp add: file_text_def)

text \<open>
  C18. Policy-based routing is never installed. Whatever policies are configured, \<open>Apply\<close> returns an error:
  the first line of every generated script carries the shell redirection \<open>2>/dev/null\<close>, which nft, refusing
  files with a malformed \<open>flush chain\<close>, does not load. The only calls made are the write of the script, \<open>nft -f\<close>,
  which failed, and the removal of the script: no rule that looks up a tunnel's table, no domain set and,
  whatever the policies say, no kill switch.
\<close>

theorem policy_routing_never_installed:
  assumes "nft_refuses_bad_flush env"
  shows "\<exists>e w1. pbr_Apply env srt (ds, w) = (Some e, ds, w1) \<and> HasPrefix e ''apply nft PBR chain: '' \<and> wStore w1 = wStore w \<and>
    (let script = generateFullNftChain (wcfg w) (srt (policies (wcfg w))); f = ''/tmp/pbr-rules.nft''; load = CRun ''nft'' [''-f'', f];
         tr = wTrace w @ [COsWriteFile f script 384] in
     wTrace w1 = tr \<or> isl (seAnswer env tr load) \<and> wTrace w1 = tr @ [load, COsRemove f])"
proof -
  let ?script = "generateFullNftChain (wcfg w) (srt (policies (wcfg w)))"
  let ?tr = "wTrace w @ [COsWriteFile ''/tmp/pbr-rules.nft'' ?script 384]"
  have "isl (seAnswer env ?tr (CRun ''nft'' [''-f'', ''/tmp/pbr-rules.nft'']))"
    using assms file_text_written chain_bad_flush unfolding nft_refuses_bad_flush_def by blast
  then obtain e where "seAnswer env ?tr (CRun ''nft'' [''-f'', ''/tmp/pbr-rules.nft'']) = Inl e" by (auto simp: isl_def)
  then show ?thesis
    by (cases "seAnswer env (wTrace w) (COsWriteFile ''/tmp/pbr-rules.nft'' ?script 384)")
      (simp_all add: pbr_Apply_def applyNftRules_def sys_def Let_def HasPrefix_def)
qed

text \<open>A host whose nft refuses every file with a malformed flush, and a policy with the kill switch.\<close>

definition tunnel_config :: Config where
  "tunnel_config = zero_Config\<lparr>cfgVPN := zero_VPNConfig\<lparr>vpnClients :=
     [zero_WGClientTunnel\<lparr>wgcName := ''wg1'', wgcTable := 100, wgcFwmark := 256\<rparr>]\<rparr>\<rparr>"

definition kill_policy :: RoutingPolicy where
  "kill_policy = zero_RoutingPolicy\<lparr>rpName := ''tv'', rpEnabled := True, rpTunnel := ''wg1'', rpKillSwitch := True,
     rpSrcMACs := [''aa'']\<rparr>"

definition strict_nft :: sysenv where
  "strict_nft = \<lparr>seOS = quiet_env zero_Config, seAnswer = (\<lambda>tr c. case c of
       CRun cmd [opt, f] \<Rightarrow> (case file_text tr f of
           Some text' \<Rightarrow> if cmd = ''nft'' \<and> list_ex bad_flush (Split text' (CHR 0x0A)) then Inl ''syntax error'' else Inr []
         | None \<Rightarrow> Inr [])
     | _ \<Rightarrow> Inr [])\<rparr>"

theorem policy_routing_never_installed_witness:
  "\<exists>e w1. pbr_Apply strict_nft id (Map.empty, \<lparr>wStore = \<lparr>cfg = map_policies (\<lambda>_. [kill_policy]) tunnel_config, disk = Map.empty\<rparr>, wTrace = []\<rparr>) =
     (Some e, Map.empty, w1) \<and> \<not> list_ex (\<lambda>c. case c of CRun cmd _ \<Rightarrow> cmd = ''ip'' | _ \<Rightarrow> False) (wTrace w1)"
proof -
  have "nft_refuses_bad_flush strict_nft"
    by (auto simp: nft_refuses_bad_flush_def strict_nft_def list_ex_iff)
  from policy_routing_never_installed [OF this, of id Map.empty "\<lparr>wStore = \<lparr>cfg = map_policies (\<lambda>_. [kill_policy]) tunnel_config,
      disk = Map.empty\<rparr>, wTrace = []\<rparr>"]
  show ?thesis by (auto simp: Let_def)
qed

end
