(* ===== verification/VPN.thy ===== *)
theory VPN
  imports Effects GoNet
begin

text \<open>
  The WireGuard service (\<^verbatim>\<open>internal/services/vpn.go\<close>): client tunnels, the server with its running
  flag, its peers, and the configuration text handed to a peer. The two templates and what the
  commands answer are parameters.
\<close>

section \<open>Definitions\<close>

record vpnenv =
  veSys :: sysenv
  veClientTmpl :: "WGClientTunnel \<Rightarrow> error + string"
  veServerTmpl :: "WGServerConfig \<Rightarrow> error + string"

abbreviation server_of :: "Config \<Rightarrow> WGServerConfig" where
  "server_of c \<equiv> vpnServer (cfgVPN c)"

abbreviation peers_of :: "Config \<Rightarrow> WGServerPeer list" where
  "peers_of c \<equiv> wgsPeers (server_of c)"

definition map_peers :: "(WGServerPeer list \<Rightarrow> WGServerPeer list) \<Rightarrow> Config \<Rightarrow> Config" where
  "map_peers f c = c\<lparr>cfgVPN := (cfgVPN c)\<lparr>vpnServer := (server_of c)\<lparr>wgsPeers := f (peers_of c)\<rparr>\<rparr>\<rparr>"

subsection \<open>Client tunnels\<close>

record WGTunnelStatus =
  wtsName :: string
  wtsActive :: bool
  wtsPublicKey :: string
  wtsEndpoint :: string
  wtsTransfer :: string
  wtsHandshake :: string

definition show_line :: "WGTunnelStatus \<Rightarrow> string \<Rightarrow> WGTunnelStatus" where
  "show_line st line0 =
     (let line = TrimSpace line0;
          s1 = (if HasPrefix line ''public key:'' then st\<lparr>wtsPublicKey := TrimPrefix line ''public key: ''\<rparr> else st);
          s2 = (if HasPrefix line ''transfer:'' then s1\<lparr>wtsTransfer := TrimPrefix line ''transfer: ''\<rparr> else s1)
      in if HasPrefix line ''latest handshake:''
         then s2\<lparr>wtsHandshake := TrimPrefix line ''latest handshake: ''\<rparr> else s2)"

definition wg_iface :: "nat \<Rightarrow> string" where
  "wg_iface i = ''wg'' @ Itoa (int i)"

definition tunnel_status :: "vpnenv \<Rightarrow> nat \<times> WGClientTunnel \<Rightarrow> WGTunnelStatus action" where
  "tunnel_status env ic w =
     (let st = \<lparr>wtsName = wgcName (snd ic), wtsActive = False, wtsPublicKey = [], wtsEndpoint = wgcEndpoint (snd ic),
                wtsTransfer = [], wtsHandshake = []\<rparr> in
      case sys (veSys env) (CRun ''wg'' [''show'', wg_iface (fst ic)]) w of
        (Inl e, w') \<Rightarrow> (Inr st, w')
      | (Inr out, w') \<Rightarrow> (Inr (if Contains out ''public key''
            then foldl show_line (st\<lparr>wtsActive := True\<rparr>) (Split out (CHR 0x0A)) else st), w'))"

definition ListClientTunnels :: "vpnenv \<Rightarrow> WGTunnelStatus list action" where
  "ListClientTunnels env w = io_map (tunnel_status env) (enumerate 0 (vpnClients (cfgVPN (wcfg w)))) w"

definition findClient :: "Config \<Rightarrow> string \<Rightarrow> (nat \<times> WGClientTunnel) option" where
  "findClient c name =
     map_option (\<lambda>i. (i, vpnClients (cfgVPN c) ! i)) (find_index (\<lambda>t. wgcName t = name) (vpnClients (cfgVPN c)))"

definition renderClientConfig :: "vpnenv \<Rightarrow> WGClientTunnel \<Rightarrow> string \<Rightarrow> unit action" where
  "renderClientConfig env client path =
     io_bind (io_lift (veClientTmpl env client))
       (\<lambda>text. io_bind (sys (veSys env) (CWriteFile path text 384)) (\<lambda>_. io_return ()))"

definition renderServerConfig :: "vpnenv \<Rightarrow> string \<Rightarrow> unit action" where
  "renderServerConfig env path w =
     io_bind (io_lift (veServerTmpl env (server_of (wcfg w))))
       (\<lambda>text. io_bind (sys (veSys env) (CWriteFile path text 384)) (\<lambda>_. io_return ())) w"

definition client_conf :: "nat \<Rightarrow> string" where
  "client_conf i = path_Join ''/etc/wireguard'' (wg_iface i @ ''.conf'')"

definition ConnectClient :: "vpnenv \<Rightarrow> string \<Rightarrow> unit action" where
  "ConnectClient env name w =
     (case findClient (wcfg w) name of
        None \<Rightarrow> (Inl (''tunnel '' @ quote_q name @ '' not found''), w)
      | Some (idx, client) \<Rightarrow>
          io_then (renderClientConfig env client (client_conf idx))
           (io_then (io_wrap (''wg-quick up '' @ wg_iface idx @ '': '') (sys (veSys env) (CRun ''wg-quick'' [''up'', wg_iface idx])))
            (io_then (io_ignore (sys (veSys env) (CRun ''ip'' [''route'', ''add'', ''default'', ''dev'', wg_iface idx,
                        ''table'', Itoa (wgcTable client)])))
              (io_ignore (sys (veSys env) (CRun ''ip'' [''rule'', ''add'', ''fwmark'', Itoa (wgcFwmark client),
                        ''lookup'', Itoa (wgcTable client)]))))) w)"

definition DisconnectClient :: "vpnenv \<Rightarrow> string \<Rightarrow> unit action" where
  "DisconnectClient env name w =
     (case findClient (wcfg w) name of
        None \<Rightarrow> (Inl (''tunnel '' @ quote_q name @ '' not found''), w)
      | Some (idx, client) \<Rightarrow>
          io_then (io_ignore (sys (veSys env) (CRun ''ip'' [''rule'', ''del'', ''fwmark'', Itoa (wgcFwmark client)])))
           (io_then (io_ignore (sys (veSys env) (CRun ''ip'' [''route'', ''del'', ''default'', ''dev'', wg_iface idx,
                        ''table'', Itoa (wgcTable client)])))
             (io_bind (sys (veSys env) (CRun ''wg-quick'' [''down'', wg_iface idx])) (\<lambda>_. io_return ()))) w)"

definition GenerateKeypair :: "vpnenv \<Rightarrow> (string \<times> string) action" where
  "GenerateKeypair env =
     io_bind (io_wrap ''genkey: '' (sys (veSys env) (CRun ''wg'' [''genkey'']))) (\<lambda>privOut.
       let privateKey = TrimSpace privOut in
       io_bind (io_wrap ''pubkey: '' (sys (veSys env) (CRunStdin (privateKey @ [CHR 0x0A]) ''wg'' [''pubkey''])))
         (\<lambda>pubOut. io_return (privateKey, TrimSpace pubOut)))"

definition GeneratePresharedKey :: "vpnenv \<Rightarrow> string action" where
  "GeneratePresharedKey env =
     io_bind (io_wrap ''genpsk: '' (sys (veSys env) (CRun ''wg'' [''genpsk'']))) (\<lambda>out. io_return (TrimSpace out))"

subsection \<open>The server\<close>

record WGPeerStatus =
  wpsName :: string
  wpsPublicKey :: string
  wpsAllowedIPs :: string
  wpsIsSiteToSite :: bool
  wpsRemoteSubnets :: "string list"

record WGServerStatus =
  wssEnabled :: bool
  wssActive :: bool
  wssListenPort :: goint
  wssPublicKey :: string
  wssPeers :: "WGPeerStatus list"

definition server_key_line :: "string \<Rightarrow> string \<Rightarrow> string" where
  "server_key_line k line0 =
     (let line = TrimSpace line0 in if HasPrefix line ''public key:'' then TrimPrefix line ''public key: '' else k)"

definition ServerStatus :: "vpnenv \<Rightarrow> WGServerStatus action" where
  "ServerStatus env w =
     (let srv = server_of (wcfg w);
          st = \<lparr>wssEnabled = wgsEnabled srv, wssActive = False, wssListenPort = wgsListenPort srv, wssPublicKey = [],
             wssPeers = map (\<lambda>p. \<lparr>wpsName = wgpName p, wpsPublicKey = wgpPublicKey p, wpsAllowedIPs = wgpAllowedIPs p,
               wpsIsSiteToSite = wgpIsSiteToSite p, wpsRemoteSubnets = wgpRemoteSubnets p\<rparr>) (wgsPeers srv)\<rparr> in
      case sys (veSys env) (CRun ''wg'' [''show'', ''wgs0'']) w of
        (Inl e, w') \<Rightarrow> (Inr st, w')
      | (Inr out, w') \<Rightarrow> (Inr (if Contains out ''public key''
            then st\<lparr>wssActive := True, wssPublicKey := foldl server_key_line [] (Split out (CHR 0x0A))\<rparr> else st), w'))"

definition ErrVPNAlreadyRunning :: error where "ErrVPNAlreadyRunning = ''wireguard server already running''"
definition ErrVPNAlreadyStopped :: error where "ErrVPNAlreadyStopped = ''wireguard server already stopped''"

text \<open>The flag \<open>running\<close> of the service, next to the world.\<close>

definition ServerUp :: "vpnenv \<Rightarrow> bool \<times> world \<Rightarrow> error option \<times> bool \<times> world" where
  "ServerUp env rw =
     (case rw of (running, w) \<Rightarrow>
      if running then (Some ErrVPNAlreadyRunning, running, w)
      else (case io_then (renderServerConfig env ''/etc/wireguard/wgs0.conf'')
                  (sys (veSys env) (CRun ''wg-quick'' [''up'', ''wgs0''])) w of
          (Inl e, w') \<Rightarrow> (Some e, running, w')
        | (Inr _, w') \<Rightarrow> (None, True, w')))"

definition ServerDown :: "vpnenv \<Rightarrow> bool \<times> world \<Rightarrow> error option \<times> bool \<times> world" where
  "ServerDown env rw =
     (case rw of (running, w) \<Rightarrow>
      if \<not> running then (Some ErrVPNAlreadyStopped, running, w)
      else (case sys (veSys env) (CRun ''wg-quick'' [''down'', ''wgs0'']) w of
          (Inl e, w') \<Rightarrow> (Some e, running, w')
        | (Inr _, w') \<Rightarrow> (None, False, w')))"

definition RenderServerConfig :: "vpnenv \<Rightarrow> unit action" where
  "RenderServerConfig env = renderServerConfig env ''/etc/wireguard/wgs0.conf''"

definition RenderAllClientConfigs :: "vpnenv \<Rightarrow> unit action" where
  "RenderAllClientConfigs env w =
     io_each (\<lambda>(idx, client). io_wrap (''render client '' @ wgcName client @ '': '')
         (renderClientConfig env client (client_conf idx)))
       (enumerate 0 (vpnClients (cfgVPN (wcfg w)))) w"

subsection \<open>Peers\<close>

definition new_peer :: "string \<Rightarrow> bool \<Rightarrow> string list \<Rightarrow> string \<Rightarrow> string \<Rightarrow> string \<Rightarrow> nat \<Rightarrow> WGServerPeer" where
  "new_peer name siteToSite remoteSubnets endpoint pubKey psk npeers =
     (let nextIP = ''10.10.11.'' @ Itoa (int npeers + 2) @ ''/32'' in
      \<lparr>wgpName = name, wgpPublicKey = pubKey, wgpPresharedKey = psk,
       wgpAllowedIPs = (if siteToSite \<and> remoteSubnets \<noteq> [] then nextIP @ '', '' @ Join remoteSubnets '', '' else nextIP),
       wgpKeepalive = 25, wgpEndpoint = endpoint, wgpRemoteSubnets = remoteSubnets, wgpIsSiteToSite = siteToSite,
       wgpPending = False, wgpInviteExpiresAt = 0\<rparr>)"

definition AddPeer :: "vpnenv \<Rightarrow> string \<Rightarrow> bool \<Rightarrow> string list \<Rightarrow> string \<Rightarrow> (WGServerPeer \<times> string) action" where
  "AddPeer env name siteToSite remoteSubnets endpoint =
     io_bind (GenerateKeypair env) (\<lambda>(privKey, pubKey) w.
       (let (r, w1) = GeneratePresharedKey env w;
            psk = (case r of Inr k \<Rightarrow> k | Inl _ \<Rightarrow> []);
            peer = new_peer name siteToSite remoteSubnets endpoint pubKey psk (length (peers_of (wcfg w1)))
        in io_then (io_update (map_peers (\<lambda>ps. ps @ [peer])))
             (io_then (io_wrap ''persist: '' (io_save (veSys env))) (io_return (peer, privKey))) w1))"

definition RemovePeer :: "osenv \<Rightarrow> string \<Rightarrow> store \<Rightarrow> error option \<times> store" where
  "RemovePeer env name st =
     (case find_index (\<lambda>p. wgpName p = name) (peers_of (cfg st)) of
        Some i \<Rightarrow> SaveToFile env (st\<lparr>cfg := map_peers (remove_nth i) (cfg st)\<rparr>)
      | None \<Rightarrow> (Some (''peer '' @ quote_q name @ '' not found''), st))"

definition addressToSubnet :: "string \<Rightarrow> string" where
  "addressToSubnet addr =
     (case LastIndexByte addr (CHR ''.'') of
        None \<Rightarrow> addr
      | Some idx \<Rightarrow> take idx addr @ ''.0'' @ (case Index addr ''/'' of Some i \<Rightarrow> drop i addr | None \<Rightarrow> ''/24''))"

definition localSubnets :: "Config \<Rightarrow> string list" where
  "localSubnets c =
     map (\<lambda>f. addressToSubnet (ifAddress f))
       (filter (\<lambda>f. \<not> (ifRole f \<noteq> ''lan'' \<or> ifAddress f = [])) (cfgInterfaces c)) @
     (if wgsAddress (server_of c) \<noteq> [] then [addressToSubnet (wgsAddress (server_of c))] else [])"

definition wg_line :: "string \<Rightarrow> string \<Rightarrow> string" where
  "wg_line key val = key @ '' = '' @ val @ [CHR 0x0A]"

definition GeneratePeerConfig :: "Config \<Rightarrow> WGServerPeer \<Rightarrow> string \<Rightarrow> string" where
  "GeneratePeerConfig c peer peerPrivKey =
     (let server = server_of c;
          peerTunnelIP = (case Index (wgpAllowedIPs peer) '','' of
              Some idx \<Rightarrow> TrimSpace (take idx (wgpAllowedIPs peer)) | None \<Rightarrow> wgpAllowedIPs peer);
          wgEndpoint = (if wgsPublicEndpoint server = [] then ''<YOUR_PUBLIC_IP>'' else wgsPublicEndpoint server)
      in ''[Interface]'' @ [CHR 0x0A] @
         wg_line ''PrivateKey'' peerPrivKey @
         wg_line ''Address'' peerTunnelIP @
         (if \<not> wgpIsSiteToSite peer then wg_line ''DNS'' (wgsDNS server) else []) @
         (if wgsMTU server > 0 then wg_line ''MTU'' (Itoa (wgsMTU server)) else []) @
         [CHR 0x0A] @ ''[Peer]'' @ [CHR 0x0A] @
         wg_line ''PublicKey'' (wgsPublicKey server) @
         (if wgpPresharedKey peer \<noteq> [] then wg_line ''PresharedKey'' (wgpPresharedKey peer) else []) @
         wg_line ''Endpoint'' (wgEndpoint @ '':'' @ Itoa (wgsListenPort server)) @
         (if wgpIsSiteToSite peer then wg_line ''AllowedIPs'' (Join (localSubnets c) '', '')
          else wg_line ''AllowedIPs'' ''0.0.0.0/0, ::/0'') @
         (if wgpKeepalive peer > 0 then wg_line ''PersistentKeepalive'' (Itoa (wgpKeepalive peer)) else []))"

section \<open>The edits as configuration changes\<close>

lemma map_peers_simps [simp]:
  "peers_of (map_peers f c) = f (peers_of c)" "cfgFilePath (map_peers f c) = cfgFilePath c"
  "cfgInterfaces (map_peers f c) = cfgInterfaces c" "cfgSystem (map_peers f c) = cfgSystem c"
  "wgsAddress (server_of (map_peers f c)) = wgsAddress (server_of c)"
  "wgsPublicKey (server_of (map_peers f c)) = wgsPublicKey (server_of c)"
  by (simp_all add: map_peers_def)

lemma localSubnets_map_peers [simp]: "localSubnets (map_peers f c) = localSubnets c"
  by (simp add: localSubnets_def)

interpretation remove_peer: config_mutation RemovePeer
  "\<lambda>name c. if find_index (\<lambda>p. wgpName p = name) (peers_of c) = None
     then Some (''peer '' @ quote_q name @ '' not found'') else None"
  "\<lambda>name. map_peers (\<lambda>ps. remove_nth (the (find_index (\<lambda>p. wgpName p = name) ps)) ps)"
  by unfold_locales (auto simp: RemovePeer_def map_peers_def split: option.splits)

text \<open>
  The name of a removed peer is free again when names are distinct, and no other peer is lost.
\<close>

lemma RemovePeer_removes:
  assumes "RemovePeer env name st = (r, st')" "distinct (map wgpName (peers_of (cfg st)))"
  shows "peers_of (cfg st') = filter (\<lambda>p. wgpName p \<noteq> name) (peers_of (cfg st))"
proof (cases "find_index (\<lambda>p. wgpName p = name) (peers_of (cfg st))")
  case None
  then have "st' = st" using assms(1) by (simp add: RemovePeer_def)
  moreover have "\<forall>p \<in> set (peers_of (cfg st)). wgpName p \<noteq> name" using None by (simp add: find_index_None)
  ultimately show ?thesis by (simp add: filter_id_conv)
next
  case (Some i)
  let ?ps = "peers_of (cfg st)"
  have i: "i < length ?ps" "wgpName (?ps ! i) = name" using find_index_Some [OF Some] by auto
  have split: "?ps = take i ?ps @ ?ps ! i # drop (Suc i) ?ps" using i(1) by (rule id_take_nth_drop)
  have "wgpName p \<noteq> name" if "p \<in> set (take i ?ps @ drop (Suc i) ?ps)" for p
  proof -
    have "distinct (map wgpName (take i ?ps @ ?ps ! i # drop (Suc i) ?ps))" using assms(2) split by metis
    then show ?thesis using that i(2) by (auto simp: image_iff)
  qed
  then have "filter (\<lambda>p. wgpName p \<noteq> name) (take i ?ps @ ?ps ! i # drop (Suc i) ?ps) = take i ?ps @ drop (Suc i) ?ps"
    using i(2) by (simp add: filter_id_conv)
  moreover have "peers_of (cfg st') = remove_nth i ?ps"
    using remove_peer.accepted_cfg [where env = env and x = name and st = st] assms(1) Some by simp
  ultimately show ?thesis using split by (metis remove_nth_def)
qed

end
