(* ===== verification/SiteToSite.thy ===== *)
theory SiteToSite
  imports VPN NetUtil Base64
begin

text \<open>
  The site-to-site wizard of the WireGuard service (\<^verbatim>\<open>internal/services/vpn_s2s.go\<close>): signed join and
  reply tokens, the life cycle of a pending peer, tunnel addresses, the overlap check of subnets, and
  the status of a peer. HMAC-SHA256 and the JSON encoding of the two payloads are parameters.
\<close>

section \<open>Tokens\<close>

record S2SInvite =
  invVersion :: goint
  invKind :: string
  invName :: string
  invSiteName :: string
  invEndpoint :: string
  invPublicKey :: string
  invPresharedKey :: string
  invTunnelIP :: string
  invRemoteSubnets :: "string list"
  invExpectedSubnets :: "string list"
  invCreatedAt :: gotime
  invExpiresAt :: gotime

record S2SAck =
  ackVersion :: goint
  ackKind :: string
  ackName :: string
  ackPublicKey :: string
  ackCreatedAt :: gotime

datatype s2s_error =
    ErrInviteExpired
  | ErrInviteSignature
  | ErrInviteSchema goint
  | ErrInviteMalformed string
  | ErrPeerNotPending
  | ErrPeerSubnetConflict string
  | ErrOther error

record s2senv =
  s2VPN :: vpnenv
  s2HMAC :: "string \<Rightarrow> string \<Rightarrow> string"
  s2EncInvite :: "S2SInvite \<Rightarrow> string"
  s2DecInvite :: "string \<Rightarrow> error + S2SInvite"
  s2EncAck :: "S2SAck \<Rightarrow> string"
  s2DecAck :: "string \<Rightarrow> error + S2SAck"

definition inviteSchemaVersion :: goint where "inviteSchemaVersion = 1"
definition inviteDefaultTTL :: duration where "inviteDefaultTTL = nanos 3600"
definition tokenKindInvite :: string where "tokenKindInvite = ''invite''"
definition tokenKindAck :: string where "tokenKindAck = ''ack''"

definition signingKey :: "Config \<Rightarrow> string" where
  "signingKey c = sysSessionSecret (cfgSystem c)"

definition signToken :: "s2senv \<Rightarrow> Config \<Rightarrow> string \<Rightarrow> string" where
  "signToken env c body = b64_encode body @ ''.'' @ b64_encode (s2HMAC env (signingKey c) body)"

definition verifyToken :: "s2senv \<Rightarrow> Config \<Rightarrow> string \<Rightarrow> s2s_error + string" where
  "verifyToken env c token =
     (case Split (TrimSpace token) (CHR ''.'') of
        [p0, p1] \<Rightarrow>
          (case b64_decode p0 of
             None \<Rightarrow> Inl (ErrInviteMalformed ''body decode'')
           | Some body \<Rightarrow> (case b64_decode p1 of
               None \<Rightarrow> Inl (ErrInviteMalformed ''sig decode'')
             | Some sig \<Rightarrow> if s2HMAC env (signingKey c) body \<noteq> sig then Inl ErrInviteSignature else Inr body))
      | _ \<Rightarrow> Inl (ErrInviteMalformed []))"

text \<open>The zero time is 0.\<close>

definition ParseInviteToken :: "s2senv \<Rightarrow> Config \<Rightarrow> gotime \<Rightarrow> string \<Rightarrow> s2s_error + S2SInvite" where
  "ParseInviteToken env c now token =
     (case verifyToken env c token of
        Inl e \<Rightarrow> Inl e
      | Inr body \<Rightarrow> (case s2DecInvite env body of
          Inl e \<Rightarrow> Inl (ErrInviteMalformed (''json: '' @ e))
        | Inr iv \<Rightarrow>
            if invVersion iv \<noteq> inviteSchemaVersion then Inl (ErrInviteSchema (invVersion iv))
            else if invKind iv \<noteq> tokenKindInvite then Inl (ErrInviteMalformed (''kind '' @ quote_q (invKind iv)))
            else if invExpiresAt iv \<noteq> 0 \<and> now > invExpiresAt iv then Inl ErrInviteExpired
            else Inr iv))"

definition ParseAckToken :: "s2senv \<Rightarrow> Config \<Rightarrow> string \<Rightarrow> s2s_error + S2SAck" where
  "ParseAckToken env c token =
     (case verifyToken env c token of
        Inl e \<Rightarrow> Inl e
      | Inr body \<Rightarrow> (case s2DecAck env body of
          Inl e \<Rightarrow> Inl (ErrInviteMalformed (''json: '' @ e))
        | Inr ack \<Rightarrow>
            if ackVersion ack \<noteq> inviteSchemaVersion then Inl (ErrInviteSchema (ackVersion ack))
            else if ackKind ack \<noteq> tokenKindAck then Inl (ErrInviteMalformed (''kind '' @ quote_q (ackKind ack)))
            else Inr ack))"

section \<open>Addresses and subnets\<close>

definition peer_ip :: "WGServerPeer \<Rightarrow> string" where
  "peer_ip p = TrimSpace (hd (SplitN2 (TrimSpace (hd (SplitN2 (wgpAllowedIPs p) (CHR ''/'')))) (CHR '','')))"

definition tunnel_candidate :: "nat \<Rightarrow> string" where
  "tunnel_candidate n = ''10.10.11.'' @ Itoa (int n)"

definition nextTunnelIP :: "Config \<Rightarrow> error + string" where
  "nextTunnelIP c =
     (let used = ''10.10.11.1'' # map peer_ip (peers_of c) in
      case find (\<lambda>n. tunnel_candidate n \<notin> set used) [2..<255] of
        Some n \<Rightarrow> Inr (tunnel_candidate n @ ''/32'')
      | None \<Rightarrow> Inl ''no free tunnel IPs in 10.10.11.0/24'')"

definition blocks_clash :: "string \<Rightarrow> string \<Rightarrow> bool" where
  "blocks_clash r l =
     (case (ParseCIDR (TrimSpace r), ParseCIDR (TrimSpace l)) of
        (Some (_, rNet), Some (_, lNet)) \<Rightarrow> net_Contains rNet (netIP lNet) \<or> net_Contains lNet (netIP rNet)
      | _ \<Rightarrow> False)"

definition subnetsConflict :: "Config \<Rightarrow> string list \<Rightarrow> string option" where
  "subnetsConflict c remote = find (\<lambda>r. list_ex (blocks_clash r) (localSubnets c)) remote"

section \<open>The wizard\<close>

type_synonym 'a s2s = "world \<Rightarrow> (s2s_error + 'a) \<times> world"

definition s2_lift :: "'a action \<Rightarrow> 'a s2s" where
  "s2_lift m w = (case m w of (Inl e, w') \<Rightarrow> (Inl (ErrOther e), w') | (Inr a, w') \<Rightarrow> (Inr a, w'))"

definition s2_bind :: "'a s2s \<Rightarrow> ('a \<Rightarrow> 'b s2s) \<Rightarrow> 'b s2s" where
  "s2_bind m k w = (case m w of (Inl e, w') \<Rightarrow> (Inl e, w') | (Inr a, w') \<Rightarrow> k a w')"

definition allowed_ips :: "string \<Rightarrow> string list \<Rightarrow> string" where
  "allowed_ips ip subnets = (if subnets \<noteq> [] then ip @ '', '' @ Join subnets '', '' else ip)"

text \<open>Appending a peer unless its name is taken, and saving.\<close>

definition add_peer :: "s2senv \<Rightarrow> string \<Rightarrow> WGServerPeer \<Rightarrow> unit s2s" where
  "add_peer env msg peer w =
     (if list_ex (\<lambda>p. wgpName p = wgpName peer) (peers_of (wcfg w))
      then (Inl (ErrOther (''peer '' @ quote_q (wgpName peer) @ '' already exists'')), w)
      else s2_lift (io_then (io_update (map_peers (\<lambda>ps. ps @ [peer]))) (io_wrap msg (io_save (veSys (s2VPN env))))) w)"

definition pending_peer :: "string \<Rightarrow> string \<Rightarrow> string \<Rightarrow> string list \<Rightarrow> gotime \<Rightarrow> WGServerPeer" where
  "pending_peer name psk tunnelIP expectedRemote expires =
     \<lparr>wgpName = name, wgpPublicKey = [], wgpPresharedKey = psk, wgpAllowedIPs = allowed_ips tunnelIP expectedRemote,
      wgpKeepalive = 25, wgpEndpoint = [], wgpRemoteSubnets = expectedRemote, wgpIsSiteToSite = True,
      wgpPending = True, wgpInviteExpiresAt = expires\<rparr>"

text \<open>
  Issuing an invitation has two parts. The first checks the form and chooses key and tunnel address,
  without the service's lock; the second appends the peer under the lock, saves and makes the token.
  \<open>now\<close> is the current time truncated to the second.
\<close>

definition invite_prepare :: "s2senv \<Rightarrow> string \<Rightarrow> string \<Rightarrow> string list \<Rightarrow> (string \<times> string) s2s" where
  "invite_prepare env peerName endpoint expectedRemote w =
     (if peerName = [] then (Inl (ErrOther ''peer name required''), w)
      else if endpoint = [] then (Inl (ErrOther ''endpoint required''), w)
      else (case subnetsConflict (wcfg w) expectedRemote of
          Some conflict \<Rightarrow> (Inl (ErrPeerSubnetConflict conflict), w)
        | None \<Rightarrow>
            s2_bind (s2_lift (io_wrap ''psk: '' (GeneratePresharedKey (s2VPN env)))) (\<lambda>psk w1.
              s2_bind (s2_lift (io_lift (nextTunnelIP (wcfg w1)))) (\<lambda>tunnelIP w2. (Inr (psk, tunnelIP), w2)) w1) w))"

definition invite_commit :: "s2senv \<Rightarrow> gotime \<Rightarrow> string \<Rightarrow> string \<Rightarrow> string \<Rightarrow> string list \<Rightarrow> string \<times> string \<Rightarrow>
    (string \<times> WGServerPeer) s2s" where
  "invite_commit env now peerName siteName endpoint expectedRemote = (\<lambda>(psk, tunnelIP).
     (let expires = now + inviteDefaultTTL;
          pending = pending_peer peerName psk tunnelIP expectedRemote expires
      in s2_bind (add_peer env ''persist pending peer: '' pending) (\<lambda>_ w2.
           (Inr (signToken env (wcfg w2) (s2EncInvite env
              \<lparr>invVersion = inviteSchemaVersion, invKind = tokenKindInvite, invName = peerName,
               invSiteName = siteName, invEndpoint = endpoint,
               invPublicKey = wgsPublicKey (server_of (wcfg w2)), invPresharedKey = psk,
               invTunnelIP = tunnelIP, invRemoteSubnets = localSubnets (wcfg w2),
               invExpectedSubnets = expectedRemote, invCreatedAt = now, invExpiresAt = expires\<rparr>), pending), w2))))"

definition CreateS2SInvite :: "s2senv \<Rightarrow> gotime \<Rightarrow> string \<Rightarrow> string \<Rightarrow> string \<Rightarrow> string list \<Rightarrow> (string \<times> WGServerPeer) s2s" where
  "CreateS2SInvite env now peerName siteName endpoint expectedRemote =
     s2_bind (invite_prepare env peerName endpoint expectedRemote) (invite_commit env now peerName siteName endpoint expectedRemote)"

definition ConsumeInvite :: "s2senv \<Rightarrow> gotime \<Rightarrow> string \<Rightarrow> (string \<times> string \<times> WGServerPeer) s2s" where
  "ConsumeInvite env now token w =
     (case ParseInviteToken env (wcfg w) now token of
        Inl e \<Rightarrow> (Inl e, w)
      | Inr iv \<Rightarrow> (case subnetsConflict (wcfg w) (invRemoteSubnets iv) of
          Some conflict \<Rightarrow> (Inl (ErrPeerSubnetConflict conflict), w)
        | None \<Rightarrow>
            s2_bind (s2_lift (io_wrap ''genkey: '' (GenerateKeypair (s2VPN env)))) (\<lambda>(priv, pub).
              (let peer = \<lparr>wgpName = invName iv, wgpPublicKey = invPublicKey iv, wgpPresharedKey = invPresharedKey iv,
                     wgpAllowedIPs = allowed_ips (invTunnelIP iv) (invRemoteSubnets iv), wgpKeepalive = 25,
                     wgpEndpoint = invEndpoint iv, wgpRemoteSubnets = invRemoteSubnets iv, wgpIsSiteToSite = True,
                     wgpPending = False, wgpInviteExpiresAt = 0\<rparr>
               in s2_bind (add_peer env ''persist peer: '' peer) (\<lambda>_ w2.
                    (Inr (signToken env (wcfg w2) (s2EncAck env
                       \<lparr>ackVersion = inviteSchemaVersion, ackKind = tokenKindAck, ackName = invName iv,
                        ackPublicKey = pub, ackCreatedAt = now\<rparr>), pub, peer), w2)))) w))"

definition finalize_peer :: "string \<Rightarrow> WGServerPeer \<Rightarrow> WGServerPeer" where
  "finalize_peer key p = p\<lparr>wgpPublicKey := key, wgpPending := False, wgpInviteExpiresAt := 0\<rparr>"

definition FinalizeInvite :: "s2senv \<Rightarrow> string \<Rightarrow> string \<Rightarrow> WGServerPeer s2s" where
  "FinalizeInvite env peerName ackToken w =
     (case ParseAckToken env (wcfg w) ackToken of
        Inl e \<Rightarrow> (Inl e, w)
      | Inr ack \<Rightarrow>
          if ackName ack \<noteq> peerName
          then (Inl (ErrInviteMalformed (''ack name '' @ quote_q (ackName ack) @ '' does not match peer '' @ quote_q peerName)), w)
          else (case find_index (\<lambda>p. wgpName p = peerName) (peers_of (wcfg w)) of
              None \<Rightarrow> (Inl (ErrOther (''peer '' @ quote_q peerName @ '' not found'')), w)
            | Some idx \<Rightarrow>
                if \<not> wgpPending (peers_of (wcfg w) ! idx) then (Inl ErrPeerNotPending, w)
                else (let saved = finalize_peer (ackPublicKey ack) (peers_of (wcfg w) ! idx)
                      in s2_bind (s2_lift (io_then (io_update (map_peers (\<lambda>ps. ps[idx := saved])))
                           (io_wrap ''persist finalize: '' (io_save (veSys (s2VPN env)))))) (\<lambda>_ w2. (Inr saved, w2)) w)))"

definition CancelInvite :: "s2senv \<Rightarrow> string \<Rightarrow> unit s2s" where
  "CancelInvite env peerName w =
     (case find_index (\<lambda>p. wgpName p = peerName) (peers_of (wcfg w)) of
        None \<Rightarrow> (Inr (), w)
      | Some i \<Rightarrow> if \<not> wgpPending (peers_of (wcfg w) ! i) then (Inl ErrPeerNotPending, w)
          else s2_lift (io_then (io_update (map_peers (remove_nth i))) (io_save (veSys (s2VPN env)))) w)"

definition invite_expired :: "gotime \<Rightarrow> WGServerPeer \<Rightarrow> bool" where
  "invite_expired now p \<longleftrightarrow> wgpPending p \<and> wgpInviteExpiresAt p \<noteq> 0 \<and> now > wgpInviteExpiresAt p"

definition GCExpiredInvites :: "s2senv \<Rightarrow> gotime \<Rightarrow> world \<Rightarrow> nat \<times> world" where
  "GCExpiredInvites env now w =
     (let reaped = length (filter (invite_expired now) (peers_of (wcfg w)));
          w1 = snd (io_update (map_peers (filter (\<lambda>p. \<not> invite_expired now p))) w)
      in (reaped, if reaped > 0 then snd (io_save (veSys (s2VPN env)) w1) else w1))"

section \<open>The running interface\<close>

definition SyncWGServer :: "s2senv \<Rightarrow> unit action" where
  "SyncWGServer env =
     (let v = s2VPN env; tmpPath = ''/tmp/lankeeper-wgs0-sync.conf'' in
      io_then (RenderServerConfig v)
       (io_bind (io_wrap ''wg-quick strip: '' (sys (veSys v) (CRun ''wg-quick'' [''strip'', ''wgs0''])))
         (\<lambda>stripped. io_then (io_wrap ''write stripped: '' (sys (veSys v) (CWriteFile tmpPath stripped 384)))
            (io_then (io_wrap ''wg syncconf: '' (sys (veSys v) (CRun ''wg'' [''syncconf'', ''wgs0'', tmpPath])))
              (io_return ())))))"

record S2SHealthInfo =
  shiName :: string
  shiOnline :: bool
  shiHandshakeAgeSec :: goint
  shiRxBytes :: nat
  shiTxBytes :: nat
  shiEndpoint :: string
  shiRemoteSubnets :: "string list"

definition findS2SPeer :: "Config \<Rightarrow> string \<Rightarrow> WGServerPeer option" where
  "findS2SPeer c name = find (\<lambda>p. wgpName p = name \<and> wgpIsSiteToSite p) (peers_of c)"

text \<open>\<open>fmt.Sscanf\<close> of a signed number.\<close>

definition scan_int64 :: "string \<Rightarrow> goint" where
  "scan_int64 s =
     (let neg = (s \<noteq> [] \<and> hd s = CHR ''-''); r = (if s \<noteq> [] \<and> (hd s = CHR ''-'' \<or> hd s = CHR ''+'') then tl s else s);
          d = takeWhile is_digit r; v = (if neg then - int (digits_val d) else int (digits_val d))
      in if d \<noteq> [] \<and> in_int64 v then v else 0)"

definition health_of :: "goint \<Rightarrow> WGServerPeer \<Rightarrow> string \<Rightarrow> string list \<Rightarrow> S2SHealthInfo" where
  "health_of nowUnix peer peerName dump_lines =
     (let info = \<lparr>shiName = peerName, shiOnline = False, shiHandshakeAgeSec = -1, shiRxBytes = 0, shiTxBytes = 0,
                  shiEndpoint = wgpEndpoint peer, shiRemoteSubnets = wgpRemoteSubnets peer\<rparr> in
      case find (\<lambda>fs. \<not> length fs < 8 \<and> fs ! 0 = wgpPublicKey peer) (map (\<lambda>l. Split l (CHR 0x09)) dump_lines) of
        None \<Rightarrow> info
      | Some fs \<Rightarrow>
          (let hs = scan_int64 (fs ! 4);
               age = wrap64 (nowUnix - hs);
               i1 = (if hs > 0 then info\<lparr>shiHandshakeAgeSec := age, shiOnline := age < 180\<rparr> else info)
           in i1\<lparr>shiRxBytes := scan_uint64 (fs ! 5), shiTxBytes := scan_uint64 (fs ! 6)\<rparr>))"

definition S2SHealth :: "s2senv \<Rightarrow> goint \<Rightarrow> string \<Rightarrow> S2SHealthInfo action" where
  "S2SHealth env nowUnix peerName =
     io_bind (io_wrap ''wg show dump: '' (sys (veSys (s2VPN env)) (CRun ''wg'' [''show'', ''wgs0'', ''dump''])))
       (\<lambda>out w. (case findS2SPeer (wcfg w) peerName of
           None \<Rightarrow> (Inl (''s2s peer '' @ quote_q peerName @ '' not found''), w)
         | Some peer \<Rightarrow> (Inr (health_of nowUnix peer peerName (Split out (CHR 0x0A))), w)))"

definition gatewayOfSubnet :: "string \<Rightarrow> error + string" where
  "gatewayOfSubnet cidr =
     (case ParseCIDR (TrimSpace cidr) of
        None \<Rightarrow> Inl ''parse cidr''
      | Some (ip, n) \<Rightarrow>
          (let gw = netIP n; k = length gw - 1; lastb = gw ! k
           in Inr (ip_text (gw[k := (if even lastb then lastb + 1 else lastb)]))))"

definition S2SReachability :: "s2senv \<Rightarrow> string \<Rightarrow> unit action" where
  "S2SReachability env peerName w =
     (case findS2SPeer (wcfg w) peerName of
        None \<Rightarrow> (Inl (''s2s peer '' @ quote_q peerName @ '' not found''), w)
      | Some peer \<Rightarrow> (case wgpRemoteSubnets peer of
          [] \<Rightarrow> (Inl ''peer has no remote subnets'', w)
        | r # _ \<Rightarrow> (case gatewayOfSubnet r of
            Inl e \<Rightarrow> (Inl e, w)
          | Inr target \<Rightarrow>
              io_bind (io_wrap (''ping '' @ target @ '' via wgs0: '')
                (sys (veSys (s2VPN env)) (CRun ''ping'' [''-c'', ''1'', ''-W'', ''2'', ''-I'', ''wgs0'', target])))
                (\<lambda>_. io_return ()) w)))"

section \<open>Tokens and secrets\<close>

lemma verify_signed:
  "verifyToken env c (signToken env c0 body) =
     (if s2HMAC env (signingKey c) body \<noteq> s2HMAC env (signingKey c0) body then Inl ErrInviteSignature else Inr body)"
proof -
  let ?sig = "b64_encode (s2HMAC env (signingKey c0) body)"
  have "\<not> is_space (CHR ''.'')" by code_simp
  then have "TrimSpace (signToken env c0 body) = signToken env c0 body"
    by (intro TrimSpace_no_space) (auto simp: signToken_def dest: b64_text)
  moreover have "Split (b64_encode body @ CHR ''.'' # ?sig) (CHR ''.'') = [b64_encode body, ?sig]"
    using Split_append_sep [of "CHR ''.''" "b64_encode body" ?sig] Split_single [of "CHR ''.''" ?sig] b64_text by metis
  ultimately show ?thesis by (simp add: verifyToken_def signToken_def b64_decode_encode)
qed

text \<open>
  C20. A join token is accepted exactly by a router with the signer's secret and until it expires: parsing
  a signed invitation returns its payload when the signatures agree and it has not expired, and otherwise
  says which of the two failed. Nothing is lost on the way through the text form.
\<close>

theorem invite_token_roundtrip:
  assumes "s2DecInvite env (s2EncInvite env iv) = Inr iv"
    and "invVersion iv = inviteSchemaVersion" "invKind iv = tokenKindInvite"
  shows "ParseInviteToken env c now (signToken env c0 (s2EncInvite env iv)) =
     (if s2HMAC env (signingKey c) (s2EncInvite env iv) \<noteq> s2HMAC env (signingKey c0) (s2EncInvite env iv)
      then Inl ErrInviteSignature
      else if invExpiresAt iv \<noteq> 0 \<and> now > invExpiresAt iv then Inl ErrInviteExpired else Inr iv)"
  using assms by (simp add: ParseInviteToken_def verify_signed)

text \<open>A toy signature and an encoding of the payloads by their names.\<close>

definition demo_invite :: S2SInvite where
  "demo_invite = \<lparr>invVersion = 1, invKind = ''invite'', invName = ''b'', invSiteName = [], invEndpoint = ''a:1'',
     invPublicKey = ''K'', invPresharedKey = ''P'', invTunnelIP = ''10.10.11.2/32'', invRemoteSubnets = [],
     invExpectedSubnets = [], invCreatedAt = 0, invExpiresAt = nanos 3600\<rparr>"

definition demo_s2s :: s2senv where
  "demo_s2s = \<lparr>s2VPN = \<lparr>veSys = calm_env, veClientTmpl = (\<lambda>_. Inr []), veServerTmpl = (\<lambda>_. Inr [])\<rparr>,
     s2HMAC = (\<lambda>k b. k @ b), s2EncInvite = (\<lambda>_. ''i''), s2DecInvite = (\<lambda>_. Inr demo_invite),
     s2EncAck = (\<lambda>_. ''k''), s2DecAck = (\<lambda>_. Inl ''no'')\<rparr>"

definition secret_config :: "string \<Rightarrow> Config" where
  "secret_config k = zero_Config\<lparr>cfgSystem := zero_SystemConfig\<lparr>sysSessionSecret := k\<rparr>\<rparr>"

theorem invite_token_roundtrip_witness:
  "ParseInviteToken demo_s2s (secret_config ''s'') 5 (signToken demo_s2s (secret_config ''s'') ''i'') = Inr demo_invite"
proof -
  have "s2DecInvite demo_s2s (s2EncInvite demo_s2s demo_invite) = Inr demo_invite"
    "invVersion demo_invite = inviteSchemaVersion" "invKind demo_invite = tokenKindInvite"
    by (simp_all add: demo_s2s_def demo_invite_def inviteSchemaVersion_def tokenKindInvite_def)
  from invite_token_roundtrip [OF this, of "secret_config ''s''" 5 "secret_config ''s''"]
  show ?thesis by (simp add: demo_s2s_def demo_invite_def nanos_def)
qed

section \<open>What the wizard does to the configuration\<close>

lemma s2_lift_eq: "s2_lift m w = (r, w') \<longleftrightarrow>
    (\<exists>r'. m w = (r', w') \<and> r = (case r' of Inl e \<Rightarrow> Inl (ErrOther e) | Inr a \<Rightarrow> Inr a))"
  by (auto simp: s2_lift_def split: prod.splits sum.splits)

lemma s2_bind_cases:
  assumes "s2_bind m k w = (r, w')"
  obtains (failed) e where "m w = (Inl e, w')" "r = Inl e"
    | (ok) a w1 where "m w = (Inr a, w1)" "k a w1 = (r, w')"
  using assms by (auto simp: s2_bind_def split: prod.splits sum.splits)

lemma add_peer_cfg:
  assumes "add_peer env msg peer w = (r, w')"
  shows "wcfg w' = wcfg w \<and> (\<exists>e. r = Inl e) \<or>
    wgpName peer \<notin> wgpName ` set (peers_of (wcfg w)) \<and> wcfg w' = map_peers (\<lambda>ps. ps @ [peer]) (wcfg w)"
  using assms by (auto simp: add_peer_def list_ex_iff s2_lift_eq split: if_splits dest!: wcfg_update_save)

lemma psk_cfg: "GeneratePresharedKey v w = (r, w') \<Longrightarrow> wcfg w' = wcfg w"
  by (auto simp: GeneratePresharedKey_def io_simps split: prod.splits sum.splits)

text \<open>The outcomes of issuing an invitation.\<close>

lemma invite_prepare_cfg:
  assumes "invite_prepare env name ep remote w = (r, w')"
  shows "wcfg w' = wcfg w" "r = Inr (psk, ip) \<Longrightarrow> nextTunnelIP (wcfg w) = Inr ip"
proof -
  have "wcfg w' = wcfg w \<and> (\<forall>psk ip. r = Inr (psk, ip) \<longrightarrow> nextTunnelIP (wcfg w) = Inr ip)"
    using assms
    by (auto simp: invite_prepare_def s2_lift_eq io_simps split: if_splits option.splits prod.splits sum.splits
        dest!: psk_cfg elim!: s2_bind_cases)
  then show "wcfg w' = wcfg w" "r = Inr (psk, ip) \<Longrightarrow> nextTunnelIP (wcfg w) = Inr ip" by blast+
qed

lemma invite_commit_cfg:
  assumes "invite_commit env now name site ep remote (psk, ip) w = (r, w')"
  obtains (failed) e where "r = Inl e" "wcfg w' = wcfg w"
    | (added) peer where "peer = pending_peer name psk ip remote (now + inviteDefaultTTL)"
        "name \<notin> wgpName ` set (peers_of (wcfg w))" "wcfg w' = map_peers (\<lambda>ps. ps @ [peer]) (wcfg w)"
        "\<And>token p. r = Inr (token, p) \<Longrightarrow> \<exists>body. token = signToken env (wcfg w') body"
proof -
  let ?peer = "pending_peer name psk ip remote (now + inviteDefaultTTL)"
  obtain r1 w1 where ap: "add_peer env ''persist pending peer: '' ?peer w = (r1, w1)" by fastforce
  have w1: "w1 = w'" and bodies: "\<And>token p. r = Inr (token, p) \<Longrightarrow> \<exists>body. token = signToken env (wcfg w') body"
    and err: "\<And>e. r1 = Inl e \<Longrightarrow> r = Inl e"
    using assms ap by (auto simp: invite_commit_def s2_bind_def Let_def split: sum.splits)
  from add_peer_cfg [OF ap] show ?thesis
    using failed added [OF refl _ _ bodies] w1 err by (auto simp: pending_peer_def)
qed

lemma CreateS2SInvite_cases:
  assumes "CreateS2SInvite env now name site ep remote w = (r, w')"
  obtains (failed) e where "r = Inl e" "wcfg w' = wcfg w"
    | (added) ip psk peer where "nextTunnelIP (wcfg w) = Inr ip" "peer = pending_peer name psk ip remote (now + inviteDefaultTTL)"
        "name \<notin> wgpName ` set (peers_of (wcfg w))" "wcfg w' = map_peers (\<lambda>ps. ps @ [peer]) (wcfg w)"
        "\<And>token p. r = Inr (token, p) \<Longrightarrow> \<exists>body. token = signToken env (wcfg w') body"
  using assms unfolding CreateS2SInvite_def
proof (cases rule: s2_bind_cases)
  case (failed e)
  then show ?thesis using invite_prepare_cfg(1) that(1) by blast
next
  case (ok a w1)
  obtain psk ip where a: "a = (psk, ip)" by (cases a)
  have w1: "wcfg w1 = wcfg w" "nextTunnelIP (wcfg w) = Inr ip" using invite_prepare_cfg [OF ok(1)] a by blast+
  from ok(2) [unfolded a] show ?thesis
  proof (cases rule: invite_commit_cfg)
    case (failed e)
    then show ?thesis using that(1) w1 by simp
  next
    case (added peer)
    show ?thesis by (rule that(2) [OF w1(2) added(1) _ _ added(4)]) (use added w1 in auto)
  qed
qed

text \<open>
  The wizard cannot connect two routers: a token is signed with the session secret of the router
  that issues it and verified with that of the router that joins. Whenever signatures under the two
  secrets differ, joining fails with a signature error and changes nothing.
\<close>

theorem invite_refused_by_other_router:
  assumes "CreateS2SInvite env now name site ep remote wA = (Inr (token, peer), wA')"
    and "\<And>body. s2HMAC env (signingKey (wcfg wB)) body \<noteq> s2HMAC env (signingKey (wcfg wA)) body"
  shows "ConsumeInvite env now' token wB = (Inl ErrInviteSignature, wB)"
proof -
  from assms(1) obtain body where t: "token = signToken env (wcfg wA') body" and k: "signingKey (wcfg wA') = signingKey (wcfg wA)"
    by (cases rule: CreateS2SInvite_cases) (auto simp: signingKey_def)
  have "verifyToken env (wcfg wB) token = Inl ErrInviteSignature"
    unfolding t verify_signed k using assms(2) by simp
  then show ?thesis by (simp add: ConsumeInvite_def ParseInviteToken_def)
qed

definition site_world :: "string \<Rightarrow> world" where
  "site_world k = \<lparr>wStore = \<lparr>cfg = SetFilePath ''/etc/router.yaml'' (secret_config k), disk = Map.empty\<rparr>, wTrace = []\<rparr>"

lemma site_peers: "peers_of (wcfg (site_world k)) = []" "localSubnets (wcfg (site_world k)) = []"
  by (simp_all add: site_world_def secret_config_def SetFilePath_def localSubnets_def zero_defs)

lemma site_next_ip: "\<exists>ip. nextTunnelIP (wcfg (site_world k)) = Inr ip"
proof -
  have "tunnel_candidate 2 \<noteq> ''10.10.11.1''" by code_simp
  then have "find (\<lambda>n. tunnel_candidate n \<notin> {''10.10.11.1''}) (2 # [3..<255]) = Some 2" by simp
  moreover have "2 # [3..<255] = [2..<255]" by (rule upt_eq_Cons_conv [THEN iffD2, symmetric]) simp
  ultimately have "find (\<lambda>n. tunnel_candidate n \<notin> {''10.10.11.1''}) [2..<255] = Some 2" by metis
  then show ?thesis by (simp add: nextTunnelIP_def site_peers del: upt_rec_numeral)
qed

theorem invite_refused_by_other_router_witness:
  "\<exists>token peer wA'. CreateS2SInvite demo_s2s 0 ''b'' [] ''a:1'' [] (site_world ''s'') = (Inr (token, peer), wA') \<and>
     ConsumeInvite demo_s2s 5 token (site_world ''t'') = (Inl ErrInviteSignature, site_world ''t'')"
proof -
  obtain ip where ip: "nextTunnelIP (wcfg (site_world ''s'')) = Inr ip" using site_next_ip by blast
  have "cfgFilePath (wcfg (site_world ''s'')) \<noteq> []" by (simp add: site_world_def SetFilePath_def)
  then obtain token peer wA' where run:
      "CreateS2SInvite demo_s2s 0 ''b'' [] ''a:1'' [] (site_world ''s'') = (Inr (token, peer), wA')"
    using ip site_peers [of "''s''"]
    by (simp add: CreateS2SInvite_def invite_prepare_def invite_commit_def subnetsConflict_def s2_bind_def s2_lift_def io_simps GeneratePresharedKey_def
        demo_s2s_def add_peer_def calm_save TrimSpace_def TrimLeft_def pending_peer_def Let_def)
  have "s2HMAC demo_s2s (signingKey (wcfg (site_world ''t''))) body \<noteq> s2HMAC demo_s2s (signingKey (wcfg (site_world ''s''))) body" for body
    by (simp add: demo_s2s_def signingKey_def site_world_def secret_config_def SetFilePath_def)
  then show ?thesis using invite_refused_by_other_router [OF run] run by blast
qed

section \<open>Tunnel addresses\<close>

lemma tunnel_candidate_plain:
  "CHR ''/'' \<notin> set (tunnel_candidate n)" "CHR '','' \<notin> set (tunnel_candidate n)"
  "\<forall>c \<in> set (tunnel_candidate n). \<not> is_space c"
proof -
  have "\<not> is_digit (CHR ''/'')" "\<not> is_digit (CHR '','')" "\<not> is_space (CHR ''-'')" "\<not> is_space (CHR ''1'')"
    "\<not> is_space (CHR ''0'')" "\<not> is_space (CHR ''.'')" by code_simp+
  moreover have "is_digit c \<Longrightarrow> \<not> is_space c" for c by (auto simp: is_digit_def is_space_def)
  ultimately show "CHR ''/'' \<notin> set (tunnel_candidate n)" "CHR '','' \<notin> set (tunnel_candidate n)"
    "\<forall>c \<in> set (tunnel_candidate n). \<not> is_space c"
    using Itoa_chars [of _ "int n"] by (auto simp: tunnel_candidate_def)
qed

lemma tunnel_candidate_inj: "tunnel_candidate m = tunnel_candidate n \<Longrightarrow> m = n"
  by (auto simp: tunnel_candidate_def dest: Itoa_inj)

lemma peer_ip_allowed:
  assumes "wgpAllowedIPs p = allowed_ips (tunnel_candidate n @ ''/32'') subnets"
  shows "peer_ip p = tunnel_candidate n"
proof -
  obtain r where "wgpAllowedIPs p = tunnel_candidate n @ CHR ''/'' # r"
    using assms by (auto simp: allowed_ips_def split: if_splits)
  moreover have "TrimSpace (tunnel_candidate n) = tunnel_candidate n"
    by (rule TrimSpace_no_space) (rule tunnel_candidate_plain)
  ultimately show ?thesis
    using SplitN2_first [of "CHR ''/''" "tunnel_candidate n" r] tunnel_candidate_plain [of n]
    by (simp add: peer_ip_def SplitN2_def Index_none)
qed

lemma find_range_Some:
  "find P [a..<b] = Some n \<longleftrightarrow> n \<in> {a..<b} \<and> P n \<and> (\<forall>m \<in> {a..<n}. \<not> P m)"
proof -
  have "find P [a..<b] = Some n \<longleftrightarrow> (\<exists>i < length [a..<b]. P ([a..<b] ! i) \<and> n = [a..<b] ! i \<and> (\<forall>j < i. \<not> P ([a..<b] ! j)))"
    by (rule find_Some_iff)
  also have "\<dots> \<longleftrightarrow> n \<in> {a..<b} \<and> P n \<and> (\<forall>m \<in> {a..<n}. \<not> P m)"
    by (auto intro!: exI [of _ "n - a"]) (metis add.commute le_add_diff_inverse less_diff_conv2 nat_less_le)
  finally show ?thesis .
qed

lemma nextTunnelIP_ok:
  assumes "nextTunnelIP c = Inr ip"
  obtains n where "2 \<le> n" "n < 255" "ip = tunnel_candidate n @ ''/32''" "tunnel_candidate n \<notin> peer_ip ` set (peers_of c)"
    "\<And>m. 2 \<le> m \<Longrightarrow> m < n \<Longrightarrow> tunnel_candidate m \<in> insert ''10.10.11.1'' (peer_ip ` set (peers_of c))"
  using assms by (auto simp: nextTunnelIP_def find_range_Some simp del: upt_rec_numeral split: option.splits)

lemma nextTunnelIP_full:
  assumes "nextTunnelIP c = Inl e" "2 \<le> n" "n < 255"
  shows "tunnel_candidate n \<in> peer_ip ` set (peers_of c)"
proof -
  have "tunnel_candidate 1 = ''10.10.11.1''" by code_simp
  then have "tunnel_candidate n \<noteq> ''10.10.11.1''" using tunnel_candidate_inj [of n 1] assms(2) by auto
  then show ?thesis using assms
    by (auto simp: nextTunnelIP_def find_None_iff simp del: upt_rec_numeral split: option.splits)
qed

section \<open>The life cycle of peers\<close>

text \<open>
  The steps of the issuing router. The first part of an invitation leaves the choice it made with the request
  that goes on to the second part; the requests between the two are listed beside the world. The other
  steps are the reply, cancelling, the removal of expired invitations and of a peer, each under the lock.
\<close>

record invite_job =
  ijName :: string
  ijSite :: string
  ijEndpoint :: string
  ijRemote :: "string list"
  ijChoice :: "string \<times> string"

inductive s2s_step :: "s2senv \<Rightarrow> world \<times> invite_job list \<Rightarrow> world \<times> invite_job list \<Rightarrow> bool" for env where
  prepare: "invite_prepare env name ep remote w = (Inr choice, w') \<Longrightarrow>
    s2s_step env (w, js) (w', \<lparr>ijName = name, ijSite = site, ijEndpoint = ep, ijRemote = remote, ijChoice = choice\<rparr> # js)"
| refused: "invite_prepare env name ep remote w = (Inl e, w') \<Longrightarrow> s2s_step env (w, js) (w', js)"
| commit: "j \<in> set js \<Longrightarrow> invite_commit env now (ijName j) (ijSite j) (ijEndpoint j) (ijRemote j) (ijChoice j) w = (r, w') \<Longrightarrow>
    s2s_step env (w, js) (w', remove1 j js)"
| finalize: "FinalizeInvite env name token w = (r, w') \<Longrightarrow> s2s_step env (w, js) (w', js)"
| cancel: "CancelInvite env name w = (r, w') \<Longrightarrow> s2s_step env (w, js) (w', js)"
| expire: "GCExpiredInvites env now w = (k, w') \<Longrightarrow> s2s_step env (w, js) (w', js)"
| remove: "RemovePeer (seOS (veSys (s2VPN env))) name (wStore w) = (r, st') \<Longrightarrow> s2s_step env (w, js) (w\<lparr>wStore := st'\<rparr>, js)"

text \<open>Runs in which an invitation is begun only when no other is between its two parts.\<close>

definition serial_step :: "s2senv \<Rightarrow> world \<times> invite_job list \<Rightarrow> world \<times> invite_job list \<Rightarrow> bool" where
  "serial_step env a b \<longleftrightarrow> s2s_step env a b \<and> length (snd b) \<le> 1"

definition names_ok :: "WGServerPeer list \<Rightarrow> bool" where
  "names_ok ps \<longleftrightarrow> distinct (map wgpName ps) \<and> (\<forall>p \<in> set ps. wgpPending p \<longrightarrow> wgpPublicKey p = [])"

definition addresses_ok :: "WGServerPeer list \<Rightarrow> bool" where
  "addresses_ok ps \<longleftrightarrow> distinct (map peer_ip ps)"

lemma names_ok_remove: "names_ok ps \<Longrightarrow> names_ok (remove_nth i ps)"
  and addresses_ok_remove: "addresses_ok ps \<Longrightarrow> addresses_ok (remove_nth i ps)"
  using set_remove_nth [of i ps] by (auto simp: names_ok_def addresses_ok_def remove_nth_map distinct_remove_nth)

lemma names_ok_filter: "names_ok ps \<Longrightarrow> names_ok (filter P ps)"
  and addresses_ok_filter: "addresses_ok ps \<Longrightarrow> addresses_ok (filter P ps)"
  by (auto simp: names_ok_def addresses_ok_def distinct_map_filter)

lemma map_update_same: "f x = f (ps ! i) \<Longrightarrow> map f (ps[i := x]) = map f ps"
  by (metis list_update_id map_update)

lemma FinalizeInvite_cfg:
  assumes "FinalizeInvite env name token w = (r, w')"
  shows "wcfg w' = wcfg w \<or> (\<exists>k i. i < length (peers_of (wcfg w)) \<and>
    wcfg w' = map_peers (\<lambda>ps. ps[i := finalize_peer k (peers_of (wcfg w) ! i)]) (wcfg w))"
proof (cases "ParseAckToken env (wcfg w) token")
  case (Inl e)
  then show ?thesis using assms by (simp add: FinalizeInvite_def)
next
  case (Inr ack)
  show ?thesis
  proof (cases "ackName ack \<noteq> name \<or> find_index (\<lambda>p. wgpName p = name) (peers_of (wcfg w)) = None")
    case True
    then have "w' = w" using assms Inr by (auto simp: FinalizeInvite_def split: option.splits if_splits)
    then show ?thesis by simp
  next
    case False
    then obtain i where i: "find_index (\<lambda>p. wgpName p = name) (peers_of (wcfg w)) = Some i" by blast
    let ?f = "map_peers (\<lambda>ps. ps[i := finalize_peer (ackPublicKey ack) (peers_of (wcfg w) ! i)])"
    show ?thesis
    proof (cases "wgpPending (peers_of (wcfg w) ! i)")
      case True
      then have "\<exists>r2. io_then (io_update ?f) (io_wrap ''persist finalize: '' (io_save (veSys (s2VPN env)))) w = (r2, w')"
        using assms Inr i False
        by (auto simp: FinalizeInvite_def Let_def s2_lift_eq elim!: s2_bind_cases)
      then have "wcfg w' = ?f (wcfg w)" using wcfg_update_save(1) by blast
      moreover have "i < length (peers_of (wcfg w))" using find_index_Some [OF i] by blast
      ultimately show ?thesis by blast
    qed (use assms Inr i False in \<open>simp add: FinalizeInvite_def\<close>)
  qed
qed

lemma GCExpiredInvites_cfg:
  "wcfg (snd (GCExpiredInvites env now w)) = map_peers (filter (\<lambda>p. \<not> invite_expired now p)) (wcfg w)"
proof -
  let ?w1 = "snd (io_update (map_peers (filter (\<lambda>p. \<not> invite_expired now p))) w)"
  have "wcfg (snd (io_save (veSys (s2VPN env)) ?w1)) = wcfg ?w1" by (rule wcfg_save) (rule prod.collapse [symmetric])
  moreover have "wcfg ?w1 = map_peers (filter (\<lambda>p. \<not> invite_expired now p)) (wcfg w)" by (simp add: io_update_def)
  ultimately show ?thesis unfolding GCExpiredInvites_def Let_def snd_conv 
    by (cases "0 < length (filter (invite_expired now) (peers_of (wcfg w)))") (simp_all only: if_True if_False)
qed

lemma finalize_keeps:
  assumes "i < length ps"
  shows "map peer_ip (ps[i := finalize_peer k (ps ! i)]) = map peer_ip ps"
    and "names_ok ps \<Longrightarrow> names_ok (ps[i := finalize_peer k (ps ! i)])"
proof -
  show "map peer_ip (ps[i := finalize_peer k (ps ! i)]) = map peer_ip ps"
    by (simp add: map_update_same finalize_peer_def peer_ip_def)
  have "map wgpName (ps[i := finalize_peer k (ps ! i)]) = map wgpName ps"
    by (simp add: map_update_same finalize_peer_def)
  moreover have "\<forall>p \<in> set (ps[i := finalize_peer k (ps ! i)]). wgpPending p \<longrightarrow> wgpPublicKey p = []" if "names_ok ps"
    using that set_update_subset_insert [of ps i "finalize_peer k (ps ! i)"]
    by (auto simp: names_ok_def finalize_peer_def)
  ultimately show "names_ok ps \<Longrightarrow> names_ok (ps[i := finalize_peer k (ps ! i)])" by (simp add: names_ok_def)
qed

text \<open>What a step does to the peers.\<close>

lemma s2s_step_peers:
  assumes "s2s_step env (w, js) (w', js')"
  obtains (chosen) j psk ip where "wcfg w' = wcfg w" "js' = j # js" "ijChoice j = (psk, ip)" "nextTunnelIP (wcfg w) = Inr ip"
    | (same) "peers_of (wcfg w') = peers_of (wcfg w)" "js' = js"
    | (dropped) j where "peers_of (wcfg w') = peers_of (wcfg w)" "j \<in> set js" "js' = remove1 j js"
    | (added) j psk ip now where "j \<in> set js" "js' = remove1 j js" "ijChoice j = (psk, ip)" "ijName j \<notin> wgpName ` set (peers_of (wcfg w))"
        "peers_of (wcfg w') = peers_of (wcfg w) @ [pending_peer (ijName j) psk ip (ijRemote j) (now + inviteDefaultTTL)]"
    | (finalized) i k where "js' = js" "i < length (peers_of (wcfg w))"
        "peers_of (wcfg w') = (peers_of (wcfg w))[i := finalize_peer k (peers_of (wcfg w) ! i)]"
    | (removed) i where "js' = js" "peers_of (wcfg w') = remove_nth i (peers_of (wcfg w))"
    | (filtered) P where "js' = js" "peers_of (wcfg w') = filter P (peers_of (wcfg w))"
  using assms
proof (cases rule: s2s_step.cases)
  case (prepare name ep remote choice site)
  obtain psk ip where c: "choice = (psk, ip)" by (cases choice)
  have "nextTunnelIP (wcfg w) = Inr ip" using invite_prepare_cfg(2) [OF prepare(2)] c by blast
  then show ?thesis using chosen prepare invite_prepare_cfg(1) [OF prepare(2)] c by simp
next
  case (refused name ep remote e)
  then show ?thesis using same invite_prepare_cfg(1) [OF refused(2)] by simp
next
  case (commit j now r)
  obtain psk ip where c: "ijChoice j = (psk, ip)" by (cases "ijChoice j")
  from commit(3) [unfolded c] show ?thesis
  proof (cases rule: invite_commit_cfg)
    case (failed e)
    then show ?thesis using dropped commit by simp
  next
    case (added peer)
    then show ?thesis using that(4) [of j psk ip now] commit c by simp
  qed
next
  case (finalize name token r)
  then show ?thesis using FinalizeInvite_cfg [of env name token w r w'] same finalized by auto
next
  case (cancel name r)
  then have "wcfg w' = wcfg w \<or> (\<exists>i. wcfg w' = map_peers (remove_nth i) (wcfg w))"
    by (auto simp: CancelInvite_def s2_lift_eq split: option.splits if_splits dest!: wcfg_update_save)
  then show ?thesis using cancel same removed by auto
next
  case (expire now k)
  then have "wcfg w' = map_peers (filter (\<lambda>p. \<not> invite_expired now p)) (wcfg w)"
    using GCExpiredInvites_cfg [of env now w] by simp
  then show ?thesis using expire filtered by simp
next
  case (remove name r st')
  have "peers_of (cfg st') = peers_of (wcfg w) \<or> (\<exists>i. peers_of (cfg st') = remove_nth i (peers_of (wcfg w)))"
  proof (cases "find_index (\<lambda>p. wgpName p = name) (peers_of (wcfg w))")
    case (Some i)
    then have "st' = snd (SaveToFile (seOS (veSys (s2VPN env))) (wStore w\<lparr>cfg := map_peers (remove_nth i) (wcfg w)\<rparr>))"
      using remove(3) by (simp add: RemovePeer_def)
    then show ?thesis by (auto simp: SaveToFile_cfg)
  qed (use remove(3) in \<open>simp add: RemovePeer_def\<close>)
  then show ?thesis using remove removed same by auto
qed

lemma names_ok_step:
  assumes "s2s_step env (w, js) (w', js')" "names_ok (peers_of (wcfg w))"
  shows "names_ok (peers_of (wcfg w'))"
  using assms(1)
proof (cases rule: s2s_step_peers)
  case (added j psk ip now)
  then show ?thesis using assms(2) by (auto simp: names_ok_def pending_peer_def)
qed (use assms(2) finalize_keeps names_ok_remove names_ok_filter in auto)

text \<open>
  With at most one invitation between its parts, the address it chose stays free: no other step adds a peer.
\<close>

definition choice_free :: "world \<times> invite_job list \<Rightarrow> bool" where
  "choice_free = (\<lambda>(w, js). addresses_ok (peers_of (wcfg w)) \<and> length js \<le> 1 \<and>
     (\<forall>j \<in> set js. \<exists>n. snd (ijChoice j) = tunnel_candidate n @ ''/32'' \<and> tunnel_candidate n \<notin> peer_ip ` set (peers_of (wcfg w))))"

lemma choice_free_mono:
  "choice_free (w, js) \<Longrightarrow> addresses_ok (peers_of (wcfg w')) \<Longrightarrow> set (map peer_ip (peers_of (wcfg w'))) \<subseteq> set (map peer_ip (peers_of (wcfg w))) \<Longrightarrow>
     set js' \<subseteq> set js \<Longrightarrow> length js' \<le> 1 \<Longrightarrow> choice_free (w', js')"
  by (simp add: choice_free_def) (meson subset_iff)

lemma choice_free_step:
  assumes "serial_step env (w, js) (w', js')" "choice_free (w, js)"
  shows "choice_free (w', js')"
proof -
  have l: "length js' \<le> 1" and st: "s2s_step env (w, js) (w', js')" using assms(1) by (simp_all add: serial_step_def)
  note mono = choice_free_mono [OF assms(2) _ _ _ l]
  have ad: "addresses_ok (peers_of (wcfg w))" using assms(2) by (simp add: choice_free_def)
  from st show ?thesis
  proof (cases rule: s2s_step_peers)
    case (chosen j psk ip)
    obtain n where "ip = tunnel_candidate n @ ''/32''" "tunnel_candidate n \<notin> peer_ip ` set (peers_of (wcfg w))"
      using nextTunnelIP_ok [OF chosen(4)] by metis
    then show ?thesis using chosen ad l by (auto simp: choice_free_def)
  next
    case (added j psk ip now)
    then have js: "js = [j]" using assms(2) by (cases js) (auto simp: choice_free_def)
    obtain n where n: "ip = tunnel_candidate n @ ''/32''" "tunnel_candidate n \<notin> peer_ip ` set (peers_of (wcfg w))"
      using assms(2) added(3) js by (auto simp: choice_free_def)
    have "peer_ip (pending_peer (ijName j) psk ip (ijRemote j) (now + inviteDefaultTTL)) = tunnel_candidate n"
      using n(1) by (intro peer_ip_allowed) (simp add: pending_peer_def)
    then show ?thesis using added js n(2) ad by (auto simp: choice_free_def addresses_ok_def)
  next
    case (finalized i k)
    then have "map peer_ip (peers_of (wcfg w')) = map peer_ip (peers_of (wcfg w))" using finalize_keeps(1) by simp
    moreover from this have "peer_ip ` set (peers_of (wcfg w')) = peer_ip ` set (peers_of (wcfg w))" by (metis list.set_map)
    ultimately show ?thesis using mono finalized(1) ad by (simp add: addresses_ok_def)
  next
    case (removed i)
    show ?thesis by (rule mono) (use removed ad addresses_ok_remove set_remove_nth in fastforce)+
  next
    case (filtered P)
    show ?thesis by (rule mono) (use filtered ad addresses_ok_filter in auto)
  next
    case (dropped j)
    show ?thesis by (rule mono) (use dropped ad set_remove1_subset [of j js] in auto)
  next
    case same
    show ?thesis by (rule mono) (use same ad in auto)
  qed
qed

lemma choice_free_run: "(serial_step env)\<^sup>*\<^sup>* a b \<Longrightarrow> choice_free a \<Longrightarrow> choice_free b"
proof (induction rule: rtranclp_induct)
  case (step b c)
  then show ?case using choice_free_step [of env "fst b" "snd b" "fst c" "snd c"] by simp
qed

lemma names_ok_run: "(s2s_step env)\<^sup>*\<^sup>* a b \<Longrightarrow> names_ok (peers_of (wcfg (fst a))) \<Longrightarrow> names_ok (peers_of (wcfg (fst b)))"
proof (induction rule: rtranclp_induct)
  case (step b c)
  then show ?case using names_ok_step [of env "fst b" "snd b" "fst c" "snd c"] by simp
qed

text \<open>
  C19. On the router that issues invitations, in any interleaving of invitations with replies, cancellations,
  expiries and removals, whatever saves or commands fail: no two peers ever share a name, and a peer whose
  invitation is pending has no key yet. In those runs in which no invitation is begun while another is
  between choosing its address and storing its peer, no two peers share a tunnel address either. The code
  does not ensure that condition (\<open>concurrent_invites_share_address\<close>). Peers added by hand are not part of
  the runs.
\<close>

theorem s2s_peers_invariant:
  assumes "(s2s_step env)\<^sup>*\<^sup>* (w, []) (w', js)" "names_ok (peers_of (wcfg w))"
  shows "names_ok (peers_of (wcfg w')) \<and>
    ((serial_step env)\<^sup>*\<^sup>* (w, []) (w', js) \<and> addresses_ok (peers_of (wcfg w)) \<longrightarrow> addresses_ok (peers_of (wcfg w')))"
  using names_ok_run [OF assms(1)] choice_free_run [of env "(w, [])" "(w', js)"] assms(2) by (auto simp: choice_free_def)

text \<open>An invitation without interruption is a serial run.\<close>

lemma CreateS2SInvite_serial:
  assumes "CreateS2SInvite env now name site ep remote w = (r, w')"
  shows "(serial_step env)\<^sup>*\<^sup>* (w, []) (w', [])"
  using assms unfolding CreateS2SInvite_def
proof (cases rule: s2_bind_cases)
  case (failed e)
  then have "serial_step env (w, []) (w', [])" by (auto simp: serial_step_def intro: s2s_step.refused)
  then show ?thesis by blast
next
  case (ok choice w1)
  let ?j = "\<lparr>ijName = name, ijSite = site, ijEndpoint = ep, ijRemote = remote, ijChoice = choice\<rparr>"
  have "serial_step env (w, []) (w1, [?j])" using ok(1) by (auto simp: serial_step_def intro: s2s_step.prepare)
  moreover have "serial_step env (w1, [?j]) (w', [])"
    using s2s_step.commit [of ?j "[?j]" env now w1 r w'] ok(2) by (simp add: serial_step_def)
  ultimately show ?thesis by (meson converse_rtranclp_into_rtranclp rtranclp.rtrancl_refl)
qed

lemma serial_is_run: "(serial_step env)\<^sup>*\<^sup>* a b \<Longrightarrow> (s2s_step env)\<^sup>*\<^sup>* a b"
  by (rule mono_rtranclp [rule_format]) (auto simp: serial_step_def)

theorem s2s_peers_invariant_witness:
  "\<exists>w'. (serial_step demo_s2s)\<^sup>*\<^sup>* (site_world ''s'', []) (w', []) \<and> names_ok (peers_of (wcfg w')) \<and> addresses_ok (peers_of (wcfg w'))"
proof -
  obtain r w' where "CreateS2SInvite demo_s2s 0 ''b'' [] ''a:1'' [] (site_world ''s'') = (r, w')" by fastforce
  then have run: "(serial_step demo_s2s)\<^sup>*\<^sup>* (site_world ''s'', []) (w', [])" by (rule CreateS2SInvite_serial)
  have "names_ok (peers_of (wcfg (site_world ''s'')))" "addresses_ok (peers_of (wcfg (site_world ''s'')))"
    by (simp_all add: site_peers names_ok_def addresses_ok_def)
  then show ?thesis using s2s_peers_invariant [OF serial_is_run [OF run]] run by blast
qed

text \<open>
  Two invitations at the same time: both choose before either stores its peer, and both peers have the same
  tunnel address.
\<close>

lemma prepare_demo:
  assumes "peers_of (wcfg w) = []" "localSubnets (wcfg w) = []" "name \<noteq> []"
  shows "\<exists>ip w'. invite_prepare demo_s2s name ''a:1'' [] w = (Inr ([], ip), w') \<and> wcfg w' = wcfg w \<and> nextTunnelIP (wcfg w) = Inr ip"
proof -
  have "nextTunnelIP (wcfg w) = nextTunnelIP (wcfg (site_world ''s''))"
    using assms(1) site_peers [of "''s''"] by (simp add: nextTunnelIP_def)
  then obtain ip where ip: "nextTunnelIP (wcfg w) = Inr ip" using site_next_ip by metis
  then show ?thesis using assms
    by (simp add: invite_prepare_def subnetsConflict_def s2_bind_def s2_lift_def io_simps GeneratePresharedKey_def
        demo_s2s_def calm_env_def TrimSpace_def TrimLeft_def)
qed

lemma calm_saved_cfg: "wcfg (calm_saved w) = wcfg w"
  unfolding calm_saved_def by (rule wcfg_save) (rule prod.collapse [symmetric])

lemma commit_demo:
  assumes "name \<notin> wgpName ` set (peers_of (wcfg w))" "cfgFilePath (wcfg w) \<noteq> []"
  shows "\<exists>r w'. invite_commit demo_s2s 0 name [] ''a:1'' [] (psk, ip) w = (r, w') \<and>
     wcfg w' = map_peers (\<lambda>ps. ps @ [pending_peer name psk ip [] inviteDefaultTTL]) (wcfg w)"
  using assms
  by (auto simp: invite_commit_def s2_bind_def s2_lift_def io_simps demo_s2s_def add_peer_def calm_save pending_peer_def Let_def list_ex_iff calm_saved_cfg)

theorem concurrent_invites_share_address:
  "\<exists>w'. (s2s_step demo_s2s)\<^sup>*\<^sup>* (site_world ''s'', []) (w', []) \<and> names_ok (peers_of (wcfg w')) \<and> \<not> addresses_ok (peers_of (wcfg w'))"
proof -
  let ?w = "site_world ''s''"
  obtain ip w1 where p1: "invite_prepare demo_s2s ''b'' ''a:1'' [] ?w = (Inr ([], ip), w1)" "wcfg w1 = wcfg ?w" "nextTunnelIP (wcfg ?w) = Inr ip"
    using prepare_demo [of ?w "''b''"] site_peers by auto
  obtain w2 where p2: "invite_prepare demo_s2s ''c'' ''a:1'' [] w1 = (Inr ([], ip), w2)" "wcfg w2 = wcfg ?w"
    using prepare_demo [of w1 "''c''"] site_peers p1 by auto
  let ?b = "pending_peer ''b'' [] ip [] inviteDefaultTTL" and ?c = "pending_peer ''c'' [] ip [] inviteDefaultTTL"
  have f: "cfgFilePath (wcfg ?w) \<noteq> []" by (simp add: site_world_def SetFilePath_def)
  obtain r3 w3 where c1: "invite_commit demo_s2s 0 ''b'' [] ''a:1'' [] ([], ip) w2 = (r3, w3)" "wcfg w3 = map_peers (\<lambda>ps. ps @ [?b]) (wcfg ?w)"
    using commit_demo [of "''b''" w2 "[]" ip] p2(2) f site_peers by auto
  have b: "peers_of (wcfg w3) = [?b]" using c1(2) site_peers by simp
  have "cfgFilePath (wcfg w3) \<noteq> []" using c1(2) f by simp
  then obtain r4 w4 where c2: "invite_commit demo_s2s 0 ''c'' [] ''a:1'' [] ([], ip) w3 = (r4, w4)"
      "wcfg w4 = map_peers (\<lambda>ps. ps @ [?c]) (wcfg w3)"
    using commit_demo [of "''c''" w3 "[]" ip] b by (auto simp: pending_peer_def)
  let ?j = "\<lambda>n. \<lparr>ijName = n, ijSite = [], ijEndpoint = ''a:1'', ijRemote = [], ijChoice = ([], ip)\<rparr>"
  have s1: "s2s_step demo_s2s (?w, []) (w1, [?j ''b''])" using p1(1) by (rule s2s_step.prepare)
  have s2: "s2s_step demo_s2s (w1, [?j ''b'']) (w2, [?j ''c'', ?j ''b''])" using p2(1) by (rule s2s_step.prepare)
  have s3: "s2s_step demo_s2s (w2, [?j ''c'', ?j ''b'']) (w3, [?j ''c''])"
    using s2s_step.commit [of "?j ''b''" "[?j ''c'', ?j ''b'']" demo_s2s 0 w2 r3 w3] c1(1) by simp
  have s4: "s2s_step demo_s2s (w3, [?j ''c'']) (w4, [])"
    using s2s_step.commit [of "?j ''c''" "[?j ''c'']" demo_s2s 0 w3 r4 w4] c2(1) by simp
  have "(s2s_step demo_s2s)\<^sup>*\<^sup>* (?w, []) (w4, [])"
    using s1 s2 s3 s4 by (meson converse_rtranclp_into_rtranclp rtranclp.rtrancl_refl)
  moreover have "peers_of (wcfg w4) = [?b, ?c]" using c2(2) b by simp
  then have "names_ok (peers_of (wcfg w4)) \<and> \<not> addresses_ok (peers_of (wcfg w4))"
    by (auto simp: names_ok_def addresses_ok_def pending_peer_def peer_ip_def)
  ultimately show ?thesis by blast
qed

text \<open>
  Peers added by hand are numbered by how many there are: after the removal of the first of two, the
  next one gets the address of the second.
\<close>

lemma AddPeer_reuses_address:
  fixes a b c :: string
  assumes "peers_of c0 = [new_peer a False [] [] [] [] 0, new_peer b False [] [] [] [] 1]" "a \<noteq> b"
  shows "peer_ip (new_peer c False [] [] [] [] (length (filter (\<lambda>p. wgpName p \<noteq> a) (peers_of c0)))) =
    peer_ip (new_peer b False [] [] [] [] 1)"
  using assms by (simp add: new_peer_def peer_ip_def Let_def)

section \<open>Overlapping subnets\<close>

definition in_block :: "string \<Rightarrow> goip \<Rightarrow> bool" where
  "in_block cidr x = (case ParseCIDR (TrimSpace cidr) of Some (_, n) \<Rightarrow> net_Contains n x | None \<Rightarrow> False)"

lemma blocks_clash_iff: "blocks_clash r l \<longleftrightarrow> (\<exists>x. in_block r x \<and> in_block l x)"
proof (cases "ParseCIDR (TrimSpace r)")
  case None
  then show ?thesis by (simp add: blocks_clash_def in_block_def)
next
  case r: (Some rn)
  show ?thesis
  proof (cases "ParseCIDR (TrimSpace l)")
    case None
    then show ?thesis using r by (auto simp: blocks_clash_def in_block_def split: prod.splits)
  next
    case l: (Some ln)
    have "cidr_block (snd rn)" "cidr_block (snd ln)"
      using r l ParseCIDR_block [of _ "fst rn" "snd rn"] ParseCIDR_block [of _ "fst ln" "snd ln"] by auto
    then show ?thesis using r l blocks_overlap_iff [of "snd rn" "snd ln"]
      by (auto simp: blocks_clash_def in_block_def split: prod.splits)
  qed
qed

text \<open>
  C21. The overlap check is exact: it names the first remote subnet that shares an address with a local
  one, and accepts the list when there is none. Subnets that do not parse are passed over.
\<close>

theorem subnetsConflict_exact:
  "subnetsConflict c remote =
     find (\<lambda>r. list_ex (\<lambda>l. \<exists>x. in_block r x \<and> in_block l x) (localSubnets c)) remote"
  by (simp add: subnetsConflict_def blocks_clash_iff cong: list_ex_cong)

end
