(* ===== verification/AtomicChange.thy ===== *)
theory AtomicChange
  imports Prelude
begin

text \<open>
  The snapshot, validate, apply, roll-back object of \<^verbatim>\<open>internal/netutil/atomic.go\<close>. The
  program \<open>nft\<close> is a parameter: what it lists, checks, loads and flushes is a function of the
  kernel's rule set, whose type is left open. A configuration file is represented by its content.
\<close>

section \<open>Definitions\<close>

record 'k nftops =
  nftList :: "'k \<Rightarrow> error + string"
  nftCheck :: "'k \<Rightarrow> string \<Rightarrow> error option"
  nftLoad :: "'k \<Rightarrow> string \<Rightarrow> error + 'k"
  nftFlush :: "'k \<Rightarrow> error + 'k"
  rollbackWriteErr :: "error option"

text \<open>The field \<open>timer\<close> holds whether the watchdog of this change is set.\<close>

record AtomicChange =
  acService :: string
  acSnapshot :: string
  acApplied :: bool
  acTimer :: bool

definition NewAtomicChange :: "string \<Rightarrow> AtomicChange" where
  "NewAtomicChange service =
     \<lparr>acService = service, acSnapshot = [], acApplied = False, acTimer = False\<rparr>"

definition ac_Snapshot :: "'k nftops \<Rightarrow> 'k \<Rightarrow> AtomicChange \<Rightarrow> error option \<times> AtomicChange" where
  "ac_Snapshot nft k ac =
     (if acService ac = ''firewall''
      then (case nftList nft k of
          Inl e \<Rightarrow> (Some (''snapshot firewall: '' @ e), ac)
        | Inr out \<Rightarrow> (None, ac\<lparr>acSnapshot := out\<rparr>))
      else (Some (''unknown service: '' @ acService ac), ac))"

definition ac_Validate :: "'k nftops \<Rightarrow> 'k \<Rightarrow> string \<Rightarrow> AtomicChange \<Rightarrow> error option" where
  "ac_Validate nft k config ac =
     (if acService ac = ''firewall''
      then (case nftCheck nft k config of
          Some e \<Rightarrow> Some (''validate firewall: '' @ e)
        | None \<Rightarrow> None)
      else Some (''unknown service: '' @ acService ac))"

definition ac_Apply ::
    "'k nftops \<Rightarrow> 'k \<Rightarrow> string \<Rightarrow> AtomicChange \<Rightarrow> error option \<times> AtomicChange \<times> 'k" where
  "ac_Apply nft k config ac =
     (if acService ac = ''firewall''
      then (case nftLoad nft k config of
          Inl e \<Rightarrow> (Some (''apply firewall: '' @ e), ac, k)
        | Inr k' \<Rightarrow> (None, ac\<lparr>acApplied := True\<rparr>, k'))
      else (Some (''unknown service: '' @ acService ac), ac, k))"

definition ac_StartWatchdog :: "AtomicChange \<Rightarrow> AtomicChange" where
  "ac_StartWatchdog ac = ac\<lparr>acTimer := True\<rparr>"

definition ac_Confirm :: "AtomicChange \<Rightarrow> AtomicChange" where
  "ac_Confirm ac = ac\<lparr>acTimer := False\<rparr>"

definition ac_Rollback ::
    "'k nftops \<Rightarrow> 'k \<Rightarrow> AtomicChange \<Rightarrow> error option \<times> AtomicChange \<times> 'k" where
  "ac_Rollback nft k ac0 =
     (let ac = ac0\<lparr>acTimer := False\<rparr> in
      if acSnapshot ac = [] then (Some ''no snapshot to rollback to'', ac, k)
      else if acService ac = ''firewall''
      then (case nftFlush nft k of
          Inl e \<Rightarrow> (Some (''flush for rollback: '' @ e), ac, k)
        | Inr k1 \<Rightarrow> (case rollbackWriteErr nft of
            Some e \<Rightarrow> (Some (''write rollback: '' @ e), ac, k1)
          | None \<Rightarrow> (case nftLoad nft k1 (acSnapshot ac) of
              Inl e \<Rightarrow> (Some (''apply rollback: '' @ e), ac, k1)
            | Inr k2 \<Rightarrow> (None, ac\<lparr>acApplied := False\<rparr>, k2))))
      else (None, ac\<lparr>acApplied := False\<rparr>, k))"

definition ac_GetSnapshot :: "AtomicChange \<Rightarrow> string" where
  "ac_GetSnapshot ac = acSnapshot ac"

section \<open>Facts\<close>

text \<open>
  The documented behaviour of \<open>nft\<close> a roll-back relies on: flushing succeeds, and loading a
  listing into the flushed kernel gives back the rule set it was taken from.
\<close>

definition nft_restores :: "'k nftops \<Rightarrow> bool" where
  "nft_restores nft \<longleftrightarrow> rollbackWriteErr nft = None \<and>
     (\<forall>k k' out. nftList nft k = Inr out \<longrightarrow>
        (\<exists>k1. nftFlush nft k' = Inr k1 \<and> nftLoad nft k1 out = Inr k))"

lemma ac_Rollback_restores:
  assumes "nft_restores nft" and "nftList nft k0 = Inr (acSnapshot ac)"
    and "acSnapshot ac \<noteq> []" and "acService ac = ''firewall''"
  shows "ac_Rollback nft k ac = (None, ac\<lparr>acTimer := False, acApplied := False\<rparr>, k0)"
proof -
  obtain k1 where "nftFlush nft k = Inr k1" "nftLoad nft k1 (acSnapshot ac) = Inr k0"
    using assms(1,2) unfolding nft_restores_def by blast
  with assms show ?thesis by (simp add: ac_Rollback_def nft_restores_def Let_def)
qed

lemma ac_Rollback_snapshot [simp]:
  "acSnapshot (fst (snd (ac_Rollback nft k ac))) = acSnapshot ac"
  "acTimer (fst (snd (ac_Rollback nft k ac))) = False"
  by (auto simp: ac_Rollback_def Let_def split: sum.splits option.splits)

end
