(* ===== verification/Firewall.thy ===== *)
theory Firewall
  imports ConfigStore AtomicChange
begin

text \<open>
  The firewall service (\<^verbatim>\<open>internal/services/firewall.go\<close>): the configuration edits, the data
  handed to the nftables template, the custom-rule text, and the apply / confirm / roll-back
  life cycle with its 30 s watchdogs as a transition system.
\<close>

section \<open>Editing the configuration\<close>

definition map_fw :: "(FirewallConfig \<Rightarrow> FirewallConfig) \<Rightarrow> Config \<Rightarrow> Config" where
  "map_fw f c = c\<lparr>cfgFirewall := f (cfgFirewall c)\<rparr>"

definition AddOpenPort :: "osenv \<Rightarrow> OpenPort \<Rightarrow> store \<Rightarrow> error option \<times> store" where
  "AddOpenPort env p st =
     SaveToFile env (st\<lparr>cfg := map_fw (\<lambda>f. f\<lparr>fwOpenPorts := fwOpenPorts f @ [p]\<rparr>) (cfg st)\<rparr>)"

definition RemoveOpenPort :: "osenv \<Rightarrow> goint \<Rightarrow> store \<Rightarrow> error option \<times> store" where
  "RemoveOpenPort env index st =
     (if bad_index index (fwOpenPorts (cfgFirewall (cfg st)))
      then (Some (''invalid open port index: '' @ Itoa index), st)
      else SaveToFile env (st\<lparr>cfg := map_fw
        (\<lambda>f. f\<lparr>fwOpenPorts := remove_nth (nat index) (fwOpenPorts f)\<rparr>) (cfg st)\<rparr>))"

definition ToggleOpenPort :: "osenv \<Rightarrow> goint \<times> bool \<Rightarrow> store \<Rightarrow> error option \<times> store" where
  "ToggleOpenPort env = (\<lambda>(index, enabled) st.
     (if bad_index index (fwOpenPorts (cfgFirewall (cfg st)))
      then (Some (''invalid open port index: '' @ Itoa index), st)
      else SaveToFile env (st\<lparr>cfg := map_fw
        (\<lambda>f. f\<lparr>fwOpenPorts := (fwOpenPorts f)[nat index :=
            (fwOpenPorts f ! nat index)\<lparr>opEnabled := enabled\<rparr>]\<rparr>) (cfg st)\<rparr>)))"

definition GetOpenPorts :: "store \<Rightarrow> OpenPort list" where
  "GetOpenPorts st = fwOpenPorts (cfgFirewall (cfg st))"

definition AddPortForward :: "osenv \<Rightarrow> PortForward \<Rightarrow> store \<Rightarrow> error option \<times> store" where
  "AddPortForward env p st =
     SaveToFile env (st\<lparr>cfg := map_fw (\<lambda>f. f\<lparr>fwPortForwards := fwPortForwards f @ [p]\<rparr>) (cfg st)\<rparr>)"

definition RemovePortForward :: "osenv \<Rightarrow> goint \<Rightarrow> store \<Rightarrow> error option \<times> store" where
  "RemovePortForward env index st =
     (if bad_index index (fwPortForwards (cfgFirewall (cfg st)))
      then (Some (''invalid port forward index: '' @ Itoa index), st)
      else SaveToFile env (st\<lparr>cfg := map_fw
        (\<lambda>f. f\<lparr>fwPortForwards := remove_nth (nat index) (fwPortForwards f)\<rparr>) (cfg st)\<rparr>))"

definition AddRule :: "osenv \<Rightarrow> FirewallRule \<Rightarrow> store \<Rightarrow> error option \<times> store" where
  "AddRule env rule st =
     SaveToFile env (st\<lparr>cfg := map_fw (\<lambda>f. f\<lparr>fwRules := fwRules f @
       [assign_priority frPriority (\<lambda>n r. r\<lparr>frPriority := n\<rparr>) rule (fwRules f)]\<rparr>) (cfg st)\<rparr>)"

definition RemoveRule :: "osenv \<Rightarrow> goint \<Rightarrow> store \<Rightarrow> error option \<times> store" where
  "RemoveRule env index st =
     (if bad_index index (fwRules (cfgFirewall (cfg st)))
      then (Some (''invalid rule index: '' @ Itoa index), st)
      else SaveToFile env (st\<lparr>cfg := map_fw
        (\<lambda>f. f\<lparr>fwRules := remove_nth (nat index) (fwRules f)\<rparr>) (cfg st)\<rparr>))"

definition ToggleRule :: "osenv \<Rightarrow> goint \<times> bool \<Rightarrow> store \<Rightarrow> error option \<times> store" where
  "ToggleRule env = (\<lambda>(index, enabled) st.
     (if bad_index index (fwRules (cfgFirewall (cfg st)))
      then (Some (''invalid rule index: '' @ Itoa index), st)
      else SaveToFile env (st\<lparr>cfg := map_fw
        (\<lambda>f. f\<lparr>fwRules := (fwRules f)[nat index :=
            (fwRules f ! nat index)\<lparr>frEnabled := enabled\<rparr>]\<rparr>) (cfg st)\<rparr>)))"

definition GetCustomRules :: "store \<Rightarrow> FirewallRule list" where
  "GetCustomRules st = fwRules (cfgFirewall (cfg st))"

section \<open>The text of the custom rules\<close>

definition dquoted :: "string \<Rightarrow> string" where
  "dquoted s = [CHR 0x22] @ s @ [CHR 0x22]"

definition rule_conditions :: "FirewallRule \<Rightarrow> string list" where
  "rule_conditions r =
     (if frInterface r \<noteq> [] then
        (if frDirection r = ''in'' then [''iifname '' @ dquoted (frInterface r)]
         else [''oifname '' @ dquoted (frInterface r)]) else []) @
     (if frSrcIP r \<noteq> [] then [''ip saddr '' @ frSrcIP r] else []) @
     (if frDstIP r \<noteq> [] then [''ip daddr '' @ frDstIP r] else []) @
     (if frProtocol r \<noteq> [] \<and> frPort r > 0 then [frProtocol r @ '' dport '' @ Itoa (frPort r)]
      else if frProtocol r \<noteq> [] then [''meta l4proto '' @ frProtocol r] else [])"

definition custom_rule_line :: "FirewallRule \<Rightarrow> string" where
  "custom_rule_line r =
     (let action = (if frAction r = [] then ''accept'' else frAction r) in
      if \<not> frEnabled r \<or> rule_conditions r = [] then []
      else ''        '' @ Join (rule_conditions r) '' '' @ '' '' @ action @ '' # '' @ frName r @
           [CHR 0x0A])"

definition GenerateCustomNftRules :: "Config \<Rightarrow> string" where
  "GenerateCustomNftRules c = concat (map custom_rule_line (fwRules (cfgFirewall c)))"

section \<open>The data of the rule-set template\<close>

record nftTemplateData =
  ntLANInterfaces :: "string list"
  ntWANInterfaces :: "string list"
  ntIPv6WANInterfaces :: "string list"
  ntLANDevice :: string
  ntWANDevice :: string
  ntIsolatedVLANs :: "string list"
  ntVLANDevice :: string
  ntPortForwards :: "PortForward list"
  ntRateLimits :: "(string, string) gomap"
  ntWebPort :: goint
  ntIPv6Enabled :: bool
  ntSixInFourEnabled :: bool
  ntSixInFourServer :: string
  ntUSBNATEnabled :: bool
  ntUSBInterface :: string
  ntTTLFixEnabled :: bool
  ntTTLFixValue :: goint
  ntWGServerEnabled :: bool
  ntWGServerIface :: string
  ntWGClientIfaces :: "string list"
  ntOVPNServerEnabled :: bool
  ntOVPNServerIface :: string

text \<open>The device of the first interface with the given identifier, \<open>""\<close> when there is none.\<close>

definition device_of :: "InterfaceConfig list \<Rightarrow> string \<Rightarrow> string" where
  "device_of ifs ident = (case find (\<lambda>f. ifID f = ident) ifs of Some f \<Rightarrow> ifDevice f | None \<Rightarrow> [])"

text \<open>The devices with a role, and the first of them that is not empty.\<close>

definition role_devices :: "string \<Rightarrow> InterfaceConfig list \<Rightarrow> string list" where
  "role_devices role ifs = map ifDevice (filter (\<lambda>f. ifRole f = role) ifs)"

definition first_nonempty :: "string list \<Rightarrow> string" where
  "first_nonempty ds = (case find (\<lambda>d. d \<noteq> []) ds of Some d \<Rightarrow> d | None \<Rightarrow> [])"

definition vlan_device :: "InterfaceConfig list \<Rightarrow> VLANConfig \<Rightarrow> string" where
  "vlan_device ifs v = device_of ifs (vlParent v) @ ''.'' @ Itoa (vlVID v)"

definition isolated_vlans :: "InterfaceConfig list \<Rightarrow> VLANConfig list \<Rightarrow> string list" where
  "isolated_vlans ifs vs =
     map (vlan_device ifs) (filter (\<lambda>v. vlIsolated v \<and> device_of ifs (vlParent v) \<noteq> []) vs)"

definition buildTemplateData :: "Config \<Rightarrow> nftTemplateData" where
  "buildTemplateData c =
     (let ifs = cfgInterfaces c; fw = cfgFirewall c; tun = ip6Tunnel (cfgIPv6 c);
          v6 = ip6Enabled (cfgIPv6 c) \<noteq> ''off'';
          sixin4 = ip6Mode (cfgIPv6 c) = ''6in4'' \<and> v6;
          tdev = TrimSpace (tunDevice tun); srv = TrimSpace (tunServerIPv4 tun);
          usb = usbEnabled (cfgUSBTether c) \<and> usbNAT (cfgUSBTether c);
          ovs = ovpnServer (cfgOpenVPN c)
      in \<lparr>ntLANInterfaces = role_devices ''lan'' ifs,
          ntWANInterfaces = role_devices ''wan'' ifs,
          ntIPv6WANInterfaces = (if sixin4 then [if tdev = [] then ''lkt6in4'' else tdev] else []),
          ntLANDevice = first_nonempty (role_devices ''lan'' ifs),
          ntWANDevice = first_nonempty (role_devices ''wan'' ifs),
          ntIsolatedVLANs = isolated_vlans ifs (cfgVLANs c),
          ntVLANDevice = [],
          ntPortForwards = fwPortForwards fw,
          ntRateLimits = fwRateLimits fw,
          ntWebPort = sysWebPort (cfgSystem c),
          ntIPv6Enabled = v6,
          ntSixInFourEnabled = (sixin4 \<and> srv \<noteq> []),
          ntSixInFourServer = (if sixin4 then srv else []),
          ntUSBNATEnabled = usb,
          ntUSBInterface = (if \<not> usb then []
             else if usbInterface (cfgUSBTether c) = [] then ''usb0'' else usbInterface (cfgUSBTether c)),
          ntTTLFixEnabled = ttlEnabled (fwTTLFix fw),
          ntTTLFixValue = (if ttlValue (fwTTLFix fw) = 0 then 64 else ttlValue (fwTTLFix fw)),
          ntWGServerEnabled = wgsEnabled (vpnServer (cfgVPN c)),
          ntWGServerIface = (if wgsEnabled (vpnServer (cfgVPN c)) then ''wgs0'' else []),
          ntWGClientIfaces = map (\<lambda>i. ''wg'' @ Itoa (int i)) [0..<length (vpnClients (cfgVPN c))],
          ntOVPNServerEnabled = ovsEnabled ovs,
          ntOVPNServerIface = (if \<not> ovsEnabled ovs then []
             else if ovsDevice ovs = [] then ''tun0'' else ovsDevice ovs)\<rparr>)"

section \<open>Apply, confirm, roll back\<close>

text \<open>
  The state of the service and its surroundings. Every change object has an index in \<open>heap\<close>, and
  at most one watchdog, known by the same index: \<open>armed\<close> maps it to its deadline, \<open>fired\<close> lists
  the watchdogs whose callback has started and not yet run (from then on stopping the timer has no
  effect). \<open>change\<close> is the pending change of the service.
\<close>

record 'k fwstate =
  kernel :: 'k
  heap :: "nat \<rightharpoonup> AtomicChange"
  next_id :: nat
  armed :: "nat \<rightharpoonup> gotime"
  fired :: "nat list"
  now :: gotime
  fwcfg :: Config
  change :: "nat option"

text \<open>The text the template gives for its data, or the error of rendering it to a file.\<close>

type_synonym nftTemplate = "nftTemplateData \<Rightarrow> error + string"

definition watchdog_ns :: duration where "watchdog_ns = nanos 30"

definition fw_Apply :: "'k nftops \<Rightarrow> nftTemplate \<Rightarrow> 'k fwstate \<Rightarrow> error option \<times> 'k fwstate" where
  "fw_Apply nft tmpl w =
     (case tmpl (buildTemplateData (fwcfg w)) of
        Inl e \<Rightarrow> (Some (''render nftables: '' @ e), w)
      | Inr config \<Rightarrow>
        (let ac0 = NewAtomicChange ''firewall'';
             ac1 = snd (ac_Snapshot nft (kernel w) ac0)
         in case ac_Validate nft (kernel w) config ac1 of
              Some e \<Rightarrow> (Some (''validate nftables: '' @ e), w)
            | None \<Rightarrow>
              (case ac_Apply nft (kernel w) config ac1 of
                 (Some e, ac2, k') \<Rightarrow> (Some (''apply nftables: '' @ e), w\<lparr>kernel := k'\<rparr>)
               | (None, ac2, k') \<Rightarrow>
                 (None, w\<lparr>kernel := k',
                    heap := (heap w)(next_id w \<mapsto> ac_StartWatchdog ac2),
                    next_id := Suc (next_id w),
                    armed := (armed w)(next_id w \<mapsto> now w + watchdog_ns),
                    change := Some (next_id w)\<rparr>))))"

definition fw_Confirm :: "'k fwstate \<Rightarrow> 'k fwstate" where
  "fw_Confirm w =
     (case change w of
        None \<Rightarrow> w
      | Some i \<Rightarrow> w\<lparr>heap := (heap w)(i := map_option ac_Confirm (heap w i)),
                   armed := (armed w)(i := None), change := None\<rparr>)"

text \<open>Running \<open>Rollback\<close> of the change object \<open>i\<close>.\<close>

definition rollback_change :: "'k nftops \<Rightarrow> nat \<Rightarrow> 'k fwstate \<Rightarrow> error option \<times> 'k fwstate" where
  "rollback_change nft i w =
     (case heap w i of
        None \<Rightarrow> (None, w)
      | Some ac \<Rightarrow> (case ac_Rollback nft (kernel w) ac of
          (r, ac', k') \<Rightarrow> (r, w\<lparr>kernel := k', heap := (heap w)(i \<mapsto> ac'),
                               armed := (armed w)(i := None)\<rparr>)))"

definition fw_Rollback :: "'k nftops \<Rightarrow> 'k fwstate \<Rightarrow> error option \<times> 'k fwstate" where
  "fw_Rollback nft w =
     (case change w of
        None \<Rightarrow> (None, w)
      | Some i \<Rightarrow> (case rollback_change nft i w of (r, w') \<Rightarrow> (r, w'\<lparr>change := None\<rparr>)))"

definition HasPendingChange :: "'k fwstate \<Rightarrow> bool" where
  "HasPendingChange w \<longleftrightarrow> change w \<noteq> None"

text \<open>
  One step of the whole: a service call (they exclude each other by the service's mutex), the
  passing of time, a timer whose deadline has come starting its callback, or such a callback
  running. A callback takes the lock of its change object only, not the service's: in the code its
  flush and its load can have a service call between them; here they are one step.
\<close>

inductive fw_step :: "'k nftops \<Rightarrow> nftTemplate \<Rightarrow> 'k fwstate \<Rightarrow> 'k fwstate \<Rightarrow> bool"
  for nft tmpl where
  step_apply: "fw_step nft tmpl w (snd (fw_Apply nft tmpl w))"
| step_confirm: "fw_step nft tmpl w (fw_Confirm w)"
| step_rollback: "fw_step nft tmpl w (snd (fw_Rollback nft w))"
| step_config: "fw_step nft tmpl w (w\<lparr>fwcfg := c\<rparr>)"
| step_elapse: "0 \<le> d \<Longrightarrow> fw_step nft tmpl w (w\<lparr>now := now w + d\<rparr>)"
| step_expire: "armed w i = Some t \<Longrightarrow> t \<le> now w \<Longrightarrow>
    fw_step nft tmpl w (w\<lparr>armed := (armed w)(i := None), fired := i # fired w\<rparr>)"
| step_watchdog: "i \<in> set (fired w) \<Longrightarrow>
    fw_step nft tmpl w (snd (rollback_change nft i (w\<lparr>fired := remove1 i (fired w)\<rparr>)))"

section \<open>The edits meet the contract\<close>

lemma cfgFilePath_map_fw [simp]: "cfgFilePath (map_fw f c) = cfgFilePath c"
  and cfgFirewall_map_fw [simp]: "cfgFirewall (map_fw f c) = f (cfgFirewall c)"
  by (simp_all add: map_fw_def)

interpretation add_open_port: config_mutation AddOpenPort "\<lambda>_ _. None"
  "\<lambda>p. map_fw (\<lambda>f. f\<lparr>fwOpenPorts := fwOpenPorts f @ [p]\<rparr>)"
  by unfold_locales (simp_all add: AddOpenPort_def)

interpretation remove_open_port: config_mutation RemoveOpenPort
  "\<lambda>i c. if bad_index i (fwOpenPorts (cfgFirewall c))
         then Some (''invalid open port index: '' @ Itoa i) else None"
  "\<lambda>i. map_fw (\<lambda>f. f\<lparr>fwOpenPorts := remove_nth (nat i) (fwOpenPorts f)\<rparr>)"
  by unfold_locales (simp_all add: RemoveOpenPort_def)

interpretation toggle_open_port: config_mutation ToggleOpenPort
  "\<lambda>(i, _) c. if bad_index i (fwOpenPorts (cfgFirewall c))
         then Some (''invalid open port index: '' @ Itoa i) else None"
  "\<lambda>(i, en). map_fw (\<lambda>f. f\<lparr>fwOpenPorts := (fwOpenPorts f)[nat i :=
            (fwOpenPorts f ! nat i)\<lparr>opEnabled := en\<rparr>]\<rparr>)"
  by unfold_locales (auto simp: ToggleOpenPort_def)

interpretation add_port_forward: config_mutation AddPortForward "\<lambda>_ _. None"
  "\<lambda>p. map_fw (\<lambda>f. f\<lparr>fwPortForwards := fwPortForwards f @ [p]\<rparr>)"
  by unfold_locales (simp_all add: AddPortForward_def)

interpretation remove_port_forward: config_mutation RemovePortForward
  "\<lambda>i c. if bad_index i (fwPortForwards (cfgFirewall c))
         then Some (''invalid port forward index: '' @ Itoa i) else None"
  "\<lambda>i. map_fw (\<lambda>f. f\<lparr>fwPortForwards := remove_nth (nat i) (fwPortForwards f)\<rparr>)"
  by unfold_locales (simp_all add: RemovePortForward_def)

interpretation add_rule: config_mutation AddRule "\<lambda>_ _. None"
  "\<lambda>r. map_fw (\<lambda>f. f\<lparr>fwRules := fwRules f @
       [assign_priority frPriority (\<lambda>n r. r\<lparr>frPriority := n\<rparr>) r (fwRules f)]\<rparr>)"
  by unfold_locales (simp_all add: AddRule_def)

interpretation remove_rule: config_mutation RemoveRule
  "\<lambda>i c. if bad_index i (fwRules (cfgFirewall c))
         then Some (''invalid rule index: '' @ Itoa i) else None"
  "\<lambda>i. map_fw (\<lambda>f. f\<lparr>fwRules := remove_nth (nat i) (fwRules f)\<rparr>)"
  by unfold_locales (simp_all add: RemoveRule_def)

interpretation toggle_rule: config_mutation ToggleRule
  "\<lambda>(i, _) c. if bad_index i (fwRules (cfgFirewall c))
         then Some (''invalid rule index: '' @ Itoa i) else None"
  "\<lambda>(i, en). map_fw (\<lambda>f. f\<lparr>fwRules := (fwRules f)[nat i :=
            (fwRules f ! nat i)\<lparr>frEnabled := en\<rparr>]\<rparr>)"
  by unfold_locales (auto simp: ToggleRule_def)

interpretation fw_rules: auto_priority frPriority "\<lambda>n r. r\<lparr>frPriority := n\<rparr>"
  by unfold_locales simp

section \<open>Facts about the life cycle\<close>

text \<open>What a successful \<open>Apply\<close> leaves behind.\<close>

lemma fw_Apply_ok:
  assumes "fw_Apply nft tmpl w = (None, w1)"
  obtains ac k' where "heap w1 = (heap w)(next_id w \<mapsto> ac)" and "kernel w1 = k'"
    and "acService ac = ''firewall''" and "acTimer ac"
    and "\<And>out. nftList nft (kernel w) = Inr out \<Longrightarrow> acSnapshot ac = out"
    and "next_id w1 = Suc (next_id w)" and "change w1 = Some (next_id w)" and "fired w1 = fired w"
    and "now w1 = now w" and "armed w1 = (armed w)(next_id w \<mapsto> now w + watchdog_ns)"
  using assms
  by (auto simp: fw_Apply_def Let_def ac_Apply_def ac_Snapshot_def NewAtomicChange_def
      ac_StartWatchdog_def split: sum.splits option.splits prod.splits if_splits)

lemma fw_Apply_failed: "fw_Apply nft tmpl w = (Some e, w') \<Longrightarrow> w' = w"
  by (auto simp: fw_Apply_def Let_def ac_Apply_def split: sum.splits option.splits prod.splits if_splits)

lemma fw_Apply_cases:
  obtains (failed) e where "fw_Apply nft tmpl w = (Some e, w)"
  | (ok) w1 where "fw_Apply nft tmpl w = (None, w1)"
  using fw_Apply_failed by (metis option.exhaust surj_pair)

text \<open>A change object, once made, keeps its snapshot in every later state.\<close>

definition holds_snapshot :: "nat \<Rightarrow> string \<Rightarrow> 'k fwstate \<Rightarrow> bool" where
  "holds_snapshot i out w \<longleftrightarrow> i < next_id w \<and>
     (\<exists>ac. heap w i = Some ac \<and> acSnapshot ac = out \<and> acService ac = ''firewall'')"

lemma ac_Rollback_keeps:
  assumes "ac_Rollback nft k ac = (r, ac', k')"
  shows "acSnapshot ac' = acSnapshot ac" and "acService ac' = acService ac"
  using assms by (auto simp: ac_Rollback_def Let_def split: sum.splits option.splits if_splits)

lemma holds_snapshot_rollback:
  "holds_snapshot i out w \<Longrightarrow> holds_snapshot i out (snd (rollback_change nft j w))"
  by (auto simp: holds_snapshot_def rollback_change_def ac_Rollback_keeps
      split: option.splits prod.splits)

lemma holds_snapshot_confirm: "holds_snapshot i out w \<Longrightarrow> holds_snapshot i out (fw_Confirm w)"
  by (cases "change w") (auto simp: holds_snapshot_def fw_Confirm_def ac_Confirm_def)

lemma holds_snapshot_fw_Rollback:
  assumes "holds_snapshot i out w"
  shows "holds_snapshot i out (snd (fw_Rollback nft w))"
proof (cases "change w")
  case None
  with assms show ?thesis by (simp add: fw_Rollback_def)
next
  case (Some j)
  then have "snd (fw_Rollback nft w) = (snd (rollback_change nft j w))\<lparr>change := None\<rparr>"
    by (simp add: fw_Rollback_def split: prod.splits)
  with holds_snapshot_rollback [OF assms, of nft j] show ?thesis by (simp add: holds_snapshot_def)
qed

lemma holds_snapshot_step:
  assumes "fw_step nft tmpl w w'" and "holds_snapshot i out w"
  shows "holds_snapshot i out w'"
  using assms(1)
proof (cases rule: fw_step.cases)
  case step_apply
  show ?thesis
  proof (cases nft tmpl w rule: fw_Apply_cases)
    case (failed e)
    with step_apply assms(2) show ?thesis by simp
  next
    case (ok w1)
    with step_apply assms(2) show ?thesis
      by (auto simp: holds_snapshot_def elim!: fw_Apply_ok)
  qed
next
  case step_confirm
  with assms(2) show ?thesis by (simp add: holds_snapshot_confirm)
next
  case step_rollback
  with assms(2) show ?thesis by (simp add: holds_snapshot_fw_Rollback)
next
  case (step_watchdog j)
  have "holds_snapshot i out (w\<lparr>fired := remove1 j (fired w)\<rparr>)"
    using assms(2) by (simp add: holds_snapshot_def)
  with step_watchdog show ?thesis by (simp add: holds_snapshot_rollback)
qed (use assms(2) in \<open>auto simp: holds_snapshot_def\<close>)

lemma holds_snapshot_run:
  "(fw_step nft tmpl)\<^sup>*\<^sup>* w v \<Longrightarrow> holds_snapshot i out w \<Longrightarrow> holds_snapshot i out v"
  by (induction rule: rtranclp_induct) (auto intro: holds_snapshot_step)

lemma watchdog_run:
  assumes "nft_restores nft" and "nftList nft k0 = Inr out" and "holds_snapshot i out v"
  shows "kernel (snd (rollback_change nft i v)) = (if out = [] then kernel v else k0)"
    and "change (snd (rollback_change nft i v)) = change v"
proof -
  obtain ac where ac: "heap v i = Some ac" "acSnapshot ac = out" "acService ac = ''firewall''"
    using assms(3) by (auto simp: holds_snapshot_def)
  show "kernel (snd (rollback_change nft i v)) = (if out = [] then kernel v else k0)"
    using ac assms ac_Rollback_restores [OF assms(1), of k0 ac "kernel v"]
    by (auto simp: rollback_change_def ac_Rollback_def Let_def)
  show "change (snd (rollback_change nft i v)) = change v"
    by (auto simp: rollback_change_def split: option.splits prod.splits)
qed

text \<open>With no watchdog set or started, nothing but a successful \<open>Apply\<close> changes the kernel.\<close>

definition settled :: "'k fwstate \<Rightarrow> bool" where
  "settled w \<longleftrightarrow> armed w = Map.empty \<and> fired w = [] \<and> change w = None"

lemma settled_step:
  assumes "fw_step nft tmpl w w'" and "next_id w' = next_id w" and "settled w"
  shows "settled w' \<and> kernel w' = kernel w"
  using assms(1)
proof (cases rule: fw_step.cases)
  case step_apply
  show ?thesis
  proof (cases nft tmpl w rule: fw_Apply_cases)
    case (failed e)
    with step_apply assms(3) show ?thesis by simp
  next
    case (ok w1)
    with step_apply assms(2) show ?thesis by (auto elim!: fw_Apply_ok)
  qed
qed (use assms(3) in \<open>auto simp: settled_def fw_Confirm_def fw_Rollback_def\<close>)

lemma settled_run:
  "(\<lambda>a b. fw_step nft tmpl a b \<and> next_id b = next_id a)\<^sup>*\<^sup>* w v \<Longrightarrow> settled w \<Longrightarrow>
     settled v \<and> kernel v = kernel w"
  by (induction rule: rtranclp_induct) (use settled_step in fastforce)+

section \<open>Properties\<close>

text \<open>
  A step takes the callback of change \<open>i\<close> off the started ones only by running it.
\<close>

lemma fired_fw_calls [simp]:
  "fired (fw_Confirm w) = fired w" "fired (snd (rollback_change nft i w)) = fired w" "fired (snd (fw_Rollback nft w)) = fired w"
  by (auto simp: fw_Confirm_def rollback_change_def fw_Rollback_def split: option.splits prod.splits)

lemma fired_fw_Apply [simp]: "fired (snd (fw_Apply nft tmpl w)) = fired w"
  by (cases nft tmpl w rule: fw_Apply_cases) (auto elim!: fw_Apply_ok)

lemma count_remove1: "count_list (remove1 j xs) i = (if i = j then count_list xs i - 1 else count_list xs i)"
  by (induction xs) (auto simp: count_list_0_iff)

lemma callback_run:
  assumes "fw_step nft tmpl v v'" and "count_list (fired v') i < count_list (fired v) i"
  shows "v' = snd (rollback_change nft i (v\<lparr>fired := remove1 i (fired v)\<rparr>))"
  using assms by (cases rule: fw_step.cases) (auto simp: count_remove1 split: if_splits)

text \<open>
  Between a successful \<open>Apply\<close> with no other watchdog about and the next confirmation, roll-back request or
  successful \<open>Apply\<close> (the steps that change \<open>change\<close>): the watchdog is set with its deadline, or its callback has
  started, or it has run.
\<close>

definition under_watch :: "nat \<Rightarrow> gotime \<Rightarrow> 'k \<Rightarrow> 'k \<Rightarrow> 'k fwstate \<Rightarrow> bool" where
  "under_watch i t new old w \<longleftrightarrow>
     armed w = [i \<mapsto> t] \<and> fired w = [] \<and> kernel w = new \<or>
     armed w = Map.empty \<and> fired w = [i] \<and> kernel w = new \<or>
     armed w = Map.empty \<and> fired w = [] \<and> kernel w = old"

lemma armed_rollback: "armed (snd (rollback_change nft i w)) = armed w \<or> armed (snd (rollback_change nft i w)) = (armed w)(i := None)"
  by (auto simp: rollback_change_def split: option.splits prod.splits)

lemma under_watch_step:
  assumes "fw_step nft tmpl w w'" "change w' = change w" "change w = Some i" "i < next_id w"
    and r: "\<And>v. holds_snapshot i out v \<Longrightarrow> kernel v = new \<Longrightarrow> kernel (snd (rollback_change nft i v)) = old"
    and "under_watch i t new old w" "holds_snapshot i out w"
  shows "under_watch i t new old w'"
  using assms(1)
proof (cases rule: fw_step.cases)
  case step_apply
  then show ?thesis using assms(2-4,6) by (cases nft tmpl w rule: fw_Apply_cases) (auto elim!: fw_Apply_ok)
next
  case step_confirm
  then show ?thesis using assms(2,3) by (simp add: fw_Confirm_def)
next
  case step_rollback
  then show ?thesis using assms(2,3) by (simp add: fw_Rollback_def split: prod.splits)
next
  case (step_expire j u)
  then show ?thesis using assms(6) by (auto simp: under_watch_def split: if_splits)
next
  case (step_watchdog j)
  then have w: "j = i" "armed w = Map.empty" "fired w = [i]" "kernel w = new" using assms(6) by (auto simp: under_watch_def)
  have "holds_snapshot i out (w\<lparr>fired := []\<rparr>)" using assms(7) by (simp add: holds_snapshot_def)
  from r [OF this] w have "kernel w' = old" "fired w' = []" using step_watchdog by simp_all
  moreover have "armed w' = Map.empty" using step_watchdog w armed_rollback [of nft i "w\<lparr>fired := []\<rparr>"] by auto
  ultimately show ?thesis by (simp add: under_watch_def)
qed (use assms(6) in \<open>auto simp: under_watch_def\<close>)

lemma under_watch_run:
  assumes "(\<lambda>a b. fw_step nft tmpl a b \<and> change b = change a)\<^sup>*\<^sup>* w v" "change w = Some i"
    and "\<And>u. holds_snapshot i out u \<Longrightarrow> kernel u = new \<Longrightarrow> kernel (snd (rollback_change nft i u)) = old"
    and "under_watch i t new old w" "holds_snapshot i out w"
  shows "under_watch i t new old v \<and> holds_snapshot i out v \<and> change v = Some i"
  using assms(1)
proof (induction rule: rtranclp_induct)
  case (step u u')
  then show ?case using under_watch_step [of nft tmpl u u' i out new old t] assms(3) holds_snapshot_step [of nft tmpl u u' i out]
    by (auto simp: holds_snapshot_def)
qed (use assms in simp)

text \<open>
  C6. The watchdog undoes an unconfirmed change, provided the snapshot before \<open>Apply\<close> succeeded and nft
  loads its own listing back. After a successful \<open>Apply\<close>, whatever service calls, edits, delays and other
  watchdogs follow, the callback of that change, once started, can run, and every step that runs it gives
  the kernel the rule set it had before that \<open>Apply\<close>. If no other watchdog was about, then until the change is
  confirmed, rolled back on request or replaced, the kernel has the new rules with the watchdog due 30
  seconds after \<open>Apply\<close> or its callback started, or it has the old rules again. The exception in both is an
  empty listing (no rule was loaded before): then the roll-back refuses and the unconfirmed rules stay. A
  roll-back is one step here: in the code its flush and its load are two commands under the lock of the
  change, between which a service call under the lock of the service may come.
\<close>

theorem watchdog_restores:
  assumes "nft_restores nft" and "fw_Apply nft tmpl w = (None, w1)"
    and "nftList nft (kernel w) = Inr out" and "(fw_step nft tmpl)\<^sup>*\<^sup>* w1 v"
  shows "(next_id w \<in> set (fired v) \<longrightarrow> (\<exists>v'. fw_step nft tmpl v v' \<and> fired v' = remove1 (next_id w) (fired v))) \<and>
    (fw_step nft tmpl v v' \<and> count_list (fired v') (next_id w) < count_list (fired v) (next_id w) \<longrightarrow>
      kernel v' = (if out = [] then kernel v else kernel w)) \<and>
    (armed w = Map.empty \<and> fired w = [] \<and> (\<lambda>a b. fw_step nft tmpl a b \<and> change b = change a)\<^sup>*\<^sup>* w1 u \<longrightarrow>
      under_watch (next_id w) (now w + nanos 30) (kernel w1) (if out = [] then kernel w1 else kernel w) u)"
proof -
  let ?i = "next_id w"
  have h1: "holds_snapshot ?i out w1" using assms(2,3) by (auto simp: holds_snapshot_def elim!: fw_Apply_ok)
  from holds_snapshot_run [OF assms(4) this] have h: "holds_snapshot ?i out (v\<lparr>fired := remove1 ?i (fired v)\<rparr>)"
    by (simp add: holds_snapshot_def)
  have fires: "\<exists>v'. fw_step nft tmpl v v' \<and> fired v' = remove1 ?i (fired v)" if "?i \<in> set (fired v)"
    using fw_step.step_watchdog [OF that, of nft tmpl] by fastforce
  have restores: "kernel v' = (if out = [] then kernel v else kernel w)"
    if "fw_step nft tmpl v v'" "count_list (fired v') ?i < count_list (fired v) ?i"
    using watchdog_run(1) [OF assms(1,3) h] callback_run [OF that] by simp
  have watched: "under_watch ?i (now w + nanos 30) (kernel w1) (if out = [] then kernel w1 else kernel w) u"
    if "armed w = Map.empty" "fired w = []" "(\<lambda>a b. fw_step nft tmpl a b \<and> change b = change a)\<^sup>*\<^sup>* w1 u"
  proof (rule conjunct1 [OF under_watch_run [OF that(3)]])
    show "change w1 = Some ?i" using assms(2) by (auto elim!: fw_Apply_ok)
    show "kernel (snd (rollback_change nft ?i x)) = (if out = [] then kernel w1 else kernel w)"
      if "holds_snapshot ?i out x" "kernel x = kernel w1" for x
      using watchdog_run(1) [OF assms(1,3) that(1)] that(2) by simp
    show "under_watch ?i (now w + nanos 30) (kernel w1) (if out = [] then kernel w1 else kernel w) w1"
      using assms(2) that(1,2) by (auto simp: under_watch_def watchdog_ns_def elim!: fw_Apply_ok)
  qed (rule h1)
  show ?thesis using fires restores watched by blast
qed

text \<open>A kernel whose rule set is its own listing, and a template that renders the web port.\<close>

definition text_nft :: "string nftops" where
  "text_nft = \<lparr>nftList = Inr, nftCheck = (\<lambda>_ _. None), nftLoad = (\<lambda>_ s. Inr s),
     nftFlush = (\<lambda>_. Inr []), rollbackWriteErr = None\<rparr>"

definition port_tmpl :: nftTemplate where
  "port_tmpl d = Inr (''port '' @ Itoa (ntWebPort d))"

definition boot_state :: "string \<Rightarrow> string fwstate" where
  "boot_state k = \<lparr>kernel = k, heap = Map.empty, next_id = 0, armed = Map.empty, fired = [],
     now = 1, fwcfg = DefaultConfig, change = None\<rparr>"

lemma text_nft_restores: "nft_restores text_nft"
  by (simp add: nft_restores_def text_nft_def)

lemma text_nft_apply:
  "\<exists>w1. fw_Apply text_nft port_tmpl w = (None, w1) \<and>
     kernel w1 = ''port '' @ Itoa (sysWebPort (cfgSystem (fwcfg w))) \<and> fwcfg w1 = fwcfg w"
  by (simp add: fw_Apply_def port_tmpl_def text_nft_def ac_Snapshot_def ac_Validate_def
      ac_Apply_def NewAtomicChange_def Let_def buildTemplateData_def)

text \<open>Time passes, the timer of change \<open>i\<close> comes due and its callback starts.\<close>

lemma expire_run:
  assumes "armed w i = Some t"
  obtains v where "(fw_step nft tmpl)\<^sup>*\<^sup>* w v" and "i \<in> set (fired v)"
    and "heap v = heap w" and "next_id v = next_id w" and "change v = change w"
    and "kernel v = kernel w"
proof -
  let ?w1 = "w\<lparr>now := now w + (if t \<le> now w then 0 else t - now w)\<rparr>"
  let ?w2 = "?w1\<lparr>armed := (armed ?w1)(i := None), fired := i # fired ?w1\<rparr>"
  have "fw_step nft tmpl w ?w1" by (rule step_elapse) simp
  moreover have "fw_step nft tmpl ?w1 ?w2" by (rule step_expire [where t = t]) (use assms in auto)
  ultimately have "(fw_step nft tmpl)\<^sup>*\<^sup>* w ?w2" by (meson r_into_rtranclp rtranclp.rtrancl_into_rtrancl)
  then show ?thesis by (rule that) simp_all
qed

theorem watchdog_restores_witness:
  "\<exists>w1 v v'. fw_Apply text_nft port_tmpl (boot_state ''old'') = (None, w1) \<and>
     (fw_step text_nft port_tmpl)\<^sup>*\<^sup>* w1 v \<and> fw_step text_nft port_tmpl v v' \<and> kernel v' = ''old''"
proof -
  let ?w = "boot_state ''old''"
  obtain w1 where a: "fw_Apply text_nft port_tmpl ?w = (None, w1)" using text_nft_apply by blast
  have "armed w1 (next_id ?w) = Some (now ?w + watchdog_ns)" using a by (auto elim!: fw_Apply_ok)
  then obtain v where v: "(fw_step text_nft port_tmpl)\<^sup>*\<^sup>* w1 v" "next_id ?w \<in> set (fired v)"
    by (rule expire_run)
  have out: "nftList text_nft (kernel ?w) = Inr ''old''" by (simp add: text_nft_def boot_state_def)
  obtain v' where v': "fw_step text_nft port_tmpl v v'" "fired v' = remove1 (next_id ?w) (fired v)"
    using watchdog_restores [OF text_nft_restores a out v(1)] v(2) by blast
  have "count_list (fired v') (next_id ?w) < count_list (fired v) (next_id ?w)"
    using v(2) v'(2) by (simp add: count_remove1 count_list_0_iff neq0_conv [symmetric] del: neq0_conv)
  with watchdog_restores [OF text_nft_restores a out v(1), of v'] v'(1) have "kernel v' = ''old''" by (simp add: boot_state_def)
  then show ?thesis using a v(1) v'(1) by blast
qed

text \<open>
  A confirmed change stays: when no watchdog was set or running before \<open>Apply\<close>, then after
  \<open>Apply\<close> and \<open>Confirm\<close> no sequence of later steps without a further successful \<open>Apply\<close> (time,
  timers, roll-back and confirm requests, failed applies, edits) changes the kernel's rules.
\<close>

theorem confirmed_change_stays:
  assumes "armed w = Map.empty" and "fired w = []" and "fw_Apply nft tmpl w = (None, w1)"
    and "(\<lambda>a b. fw_step nft tmpl a b \<and> next_id b = next_id a)\<^sup>*\<^sup>* (fw_Confirm w1) v"
  shows "kernel v = kernel w1 \<and> change v = None"
proof -
  have c: "change w1 = Some (next_id w)" "armed w1 = [next_id w \<mapsto> now w + watchdog_ns]" "fired w1 = []"
    using assms(1,2,3) by (auto elim!: fw_Apply_ok)
  then have "settled (fw_Confirm w1)" by (simp add: settled_def fw_Confirm_def)
  from settled_run [OF assms(4) this] c show ?thesis by (simp add: settled_def fw_Confirm_def)
qed

theorem confirmed_change_stays_witness:
  "\<exists>w1 v. fw_Apply text_nft port_tmpl (boot_state ''old'') = (None, w1) \<and>
     (\<lambda>a b. fw_step text_nft port_tmpl a b \<and> next_id b = next_id a)\<^sup>*\<^sup>* (fw_Confirm w1) v \<and>
     now v = now w1 + nanos 60 \<and> kernel v = ''port 8443''"
proof -
  obtain w1 where a: "fw_Apply text_nft port_tmpl (boot_state ''old'') = (None, w1)"
    and k: "kernel w1 = ''port '' @ Itoa 8443"
    using text_nft_apply [of "boot_state ''old''"] by (auto simp: boot_state_def DefaultConfig_def)
  have k8: "Itoa 8443 = ''8443''" by (simp add: eval_digits)
  let ?v = "(fw_Confirm w1)\<lparr>now := now (fw_Confirm w1) + nanos 60\<rparr>"
  have n: "now (fw_Confirm w1) = now w1" by (simp add: fw_Confirm_def split: option.splits)
  have "fw_step text_nft port_tmpl (fw_Confirm w1) ?v" by (rule step_elapse) (simp add: nanos_def)
  then have r: "(\<lambda>a b. fw_step text_nft port_tmpl a b \<and> next_id b = next_id a)\<^sup>*\<^sup>* (fw_Confirm w1) ?v"
    by (simp add: r_into_rtranclp)
  have e: "armed (boot_state ''old'') = Map.empty" "fired (boot_state ''old'') = []"
    by (simp_all add: boot_state_def)
  from confirmed_change_stays [OF e a r] have kv: "kernel ?v = ''port 8443''" using k k8 by simp
  have nv: "now ?v = now w1 + nanos 60" using n by simp
  show ?thesis by (intro exI conjI) (fact a r nv kv)+
qed

text \<open>
  A second \<open>Apply\<close> before the first was confirmed leaves the first watchdog running: even
  after the operator confirms the second change, a run follows in which the kernel falls back to
  the rules from before the first, and no change is pending.
\<close>

theorem stale_watchdog_undoes_confirmed_change:
  assumes "nft_restores nft" and "fw_Apply nft tmpl w = (None, w1)"
    and "fw_Apply nft tmpl w1 = (None, w2)"
    and "nftList nft (kernel w) = Inr out" and "out \<noteq> []"
  shows "\<exists>v. (fw_step nft tmpl)\<^sup>*\<^sup>* (fw_Confirm w2) v \<and> kernel v = kernel w \<and> change v = None"
proof -
  let ?i = "next_id w" and ?w3 = "fw_Confirm w2"
  have s1: "holds_snapshot ?i out w1"
    using assms(2,4) by (auto simp: holds_snapshot_def elim!: fw_Apply_ok)
  have "(fw_step nft tmpl)\<^sup>*\<^sup>* w1 ?w3"
    using step_apply [of nft tmpl w1] step_confirm [of nft tmpl w2] assms(3)
    by (metis r_into_rtranclp rtranclp.rtrancl_into_rtrancl snd_conv)
  then have s3: "holds_snapshot ?i out ?w3" using s1 by (rule holds_snapshot_run)
  have "armed w1 ?i = Some (now w + watchdog_ns)" "next_id w1 = Suc ?i"
    using assms(2) by (auto elim!: fw_Apply_ok)
  then have a2: "armed w2 ?i = Some (now w + watchdog_ns)" "change w2 = Some (Suc ?i)"
    using assms(3) by (auto elim!: fw_Apply_ok)
  then have "armed ?w3 ?i = Some (now w + watchdog_ns)" by (simp add: fw_Confirm_def)
  then obtain v where v: "(fw_step nft tmpl)\<^sup>*\<^sup>* ?w3 v" "?i \<in> set (fired v)" "change v = change ?w3"
    by (rule expire_run)
  let ?v = "v\<lparr>fired := remove1 ?i (fired v)\<rparr>"
  have "holds_snapshot ?i out ?v" using holds_snapshot_run [OF v(1) s3] by (simp add: holds_snapshot_def)
  then have "kernel (snd (rollback_change nft ?i ?v)) = kernel w"
    "change (snd (rollback_change nft ?i ?v)) = change ?w3"
    using watchdog_run [OF assms(1,4), of ?i ?v] assms(5) v(3) by simp_all
  moreover have "(fw_step nft tmpl)\<^sup>*\<^sup>* ?w3 (snd (rollback_change nft ?i ?v))"
    using v(1) step_watchdog [OF v(2)] by (rule rtranclp.rtrancl_into_rtrancl)
  ultimately show ?thesis using a2(2) by (auto simp: fw_Confirm_def)
qed

theorem stale_watchdog_undoes_confirmed_change_witness:
  "\<exists>w1 w2 v. fw_Apply text_nft port_tmpl (boot_state ''old'') = (None, w1) \<and>
     fw_Apply text_nft port_tmpl w1 = (None, w2) \<and>
     (fw_step text_nft port_tmpl)\<^sup>*\<^sup>* (fw_Confirm w2) v \<and> kernel v = ''old'' \<and> change v = None"
proof -
  let ?w = "boot_state ''old''"
  obtain w1 where a1: "fw_Apply text_nft port_tmpl ?w = (None, w1)" using text_nft_apply by blast
  obtain w2 where a2: "fw_Apply text_nft port_tmpl w1 = (None, w2)" using text_nft_apply by blast
  have "nftList text_nft (kernel ?w) = Inr ''old''" by (simp add: text_nft_def boot_state_def)
  from stale_watchdog_undoes_confirmed_change [OF text_nft_restores a1 a2 this] a1 a2
  show ?thesis by (auto simp: boot_state_def)
qed

text \<open>
  The rule set is a function of the template data, and that data ignores the operator's custom
  rules and open ports: changing either list changes neither the data nor the outcome of \<open>Apply\<close>
  on the kernel.
\<close>

theorem ruleset_ignores_custom_rules:
  "buildTemplateData (map_fw (\<lambda>f. f\<lparr>fwRules := rs, fwOpenPorts := ps\<rparr>) c) = buildTemplateData c \<and>
   kernel (snd (fw_Apply nft tmpl (w\<lparr>fwcfg := map_fw (\<lambda>f. f\<lparr>fwRules := rs, fwOpenPorts := ps\<rparr>) (fwcfg w)\<rparr>))) =
   kernel (snd (fw_Apply nft tmpl w))"
proof -
  have eq: "buildTemplateData (map_fw (\<lambda>f. f\<lparr>fwRules := rs, fwOpenPorts := ps\<rparr>) c') = buildTemplateData c'"
    for c' by (simp add: buildTemplateData_def map_fw_def Let_def)
  then show ?thesis
    by (auto simp: fw_Apply_def eq Let_def split: sum.splits option.splits prod.splits)
qed

text \<open>
  Adding a custom rule without a priority: on success the rule is appended behind all others
  in priority (short of integer overflow), the rest of the list is unchanged, and the new
  configuration is the one on disk; on failure the file on disk is unchanged.
\<close>

theorem AddRule_appends_last:
  assumes "AddRule env rule st = (r, st')" and "frPriority rule = 0"
    and "max_priority frPriority (GetCustomRules st) \<le> max_int64 - 10"
    and "tmpName env (cfgFilePath (cfg st)) \<noteq> cfgFilePath (cfg st)"
  shows "(r = None \<longrightarrow> (\<exists>rule' data. GetCustomRules st' = GetCustomRules st @ [rule'] \<and>
            rule'\<lparr>frPriority := 0\<rparr> = rule \<and>
            (\<forall>q \<in> set (GetCustomRules st). frPriority q < frPriority rule') \<and>
            yaml_Marshal env (cfg st') = Inr data \<and> disk st' (cfgFilePath (cfg st')) = Some data)) \<and>
         (r \<noteq> None \<longrightarrow> disk st' (cfgFilePath (cfg st)) = disk st (cfgFilePath (cfg st)))"
proof (cases r)
  case (Some e)
  with add_rule.failed_disk assms(1,4) show ?thesis by blast
next
  case None
  let ?rs = "fwRules (cfgFirewall (cfg st))"
  let ?r' = "assign_priority frPriority (\<lambda>n r. r\<lparr>frPriority := n\<rparr>) rule ?rs"
  have ok: "AddRule env rule st = (None, st')" using assms(1) None by simp
  have "\<forall>q \<in> set ?rs. frPriority q < frPriority ?r'"
    using fw_rules.assigned_last assms(2,3) by (auto simp: GetCustomRules_def)
  moreover have "?r'\<lparr>frPriority := 0\<rparr> = rule" using assms(2) by (simp add: assign_priority_def)
  moreover have "GetCustomRules st' = GetCustomRules st @ [?r']"
    using add_rule.success(2) [OF ok] by (simp add: GetCustomRules_def)
  ultimately show ?thesis
    using add_rule.success(3) [OF ok] None by (auto simp: GetCustomRules_def)
qed

definition demo_store :: "Config \<Rightarrow> store" where
  "demo_store c = \<lparr>cfg = SetFilePath ''/etc/router.yaml'' c, disk = Map.empty\<rparr>"

lemma tmpName_quiet: "tmpName (quiet_env c) ''/etc/router.yaml'' \<noteq> ''/etc/router.yaml''"
  by (subst tmpName_router) (simp_all add: quiet_env_def)

theorem AddRule_appends_last_witness:
  "\<exists>st'. AddRule (quiet_env DefaultConfig) (zero_FirewallRule\<lparr>frName := ''ssh''\<rparr>)
       (demo_store DefaultConfig) = (None, st') \<and>
     (\<exists>rule'. GetCustomRules st' = [rule'] \<and> frName rule' = ''ssh'')"
proof -
  let ?st = "demo_store DefaultConfig" and ?r = "zero_FirewallRule\<lparr>frName := ''ssh''\<rparr>"
  obtain r st' where a: "AddRule (quiet_env DefaultConfig) ?r ?st = (r, st')" by force
  have rules: "GetCustomRules ?st = []"
    by (simp add: GetCustomRules_def demo_store_def SetFilePath_def DefaultConfig_def zero_defs)
  have none: "r = None" using a
    by (auto simp: AddRule_def SaveToFile_def Save_def atomicWrite_def quiet_env_def Let_def
        demo_store_def SetFilePath_def)
  have "frPriority ?r = 0" by (simp add: zero_defs)
  moreover have "max_priority frPriority (GetCustomRules ?st) \<le> max_int64 - 10"
    by (simp add: rules max_priority_def max_int64_def)
  moreover have "tmpName (quiet_env DefaultConfig) (cfgFilePath (cfg ?st)) \<noteq> cfgFilePath (cfg ?st)"
    using tmpName_quiet by (simp add: demo_store_def SetFilePath_def)
  ultimately obtain rule' where "GetCustomRules st' = [rule']" "rule'\<lparr>frPriority := 0\<rparr> = ?r"
    using AddRule_appends_last [OF a] none rules by auto
  then have "frName (rule'\<lparr>frPriority := 0\<rparr>) = ''ssh''" by simp
  with a none \<open>GetCustomRules st' = [rule']\<close> show ?thesis by simp
qed

end
