(* ===== verification/HealthCheck.thy ===== *)
theory HealthCheck
  imports ConfigTypes
begin

text \<open>
  The health-check service (\<^verbatim>\<open>internal/services/healthcheck.go\<close>): probing targets, counting
  failures, running recovery actions, and the cooldown goroutines that end a quiet period. The
  outcomes of commands, HTTP requests and sysfs reads are parameters. A tick of one check
  (\<open>executeCheck\<close> with the actions it starts) is one step; cooldown goroutines and resets
  interleave between ticks.
\<close>

section \<open>Definitions\<close>

record CheckResult =
  crName :: string
  crStatus :: string
  crLastCheck :: gotime
  crFailureCount :: goint
  crLastAction :: string
  crLastActionAt :: gotime
  crInCooldown :: bool

text \<open>
  The outside world as one tick sees it: whether a command fails, the status of an HTTP request
  (\<open>None\<close> for an error), the operational state of a device (empty when it cannot be read), whether
  the context is cancelled while an action waits, and the value part of \<open>time.ParseDuration\<close>,
  whose error the code drops.
\<close>

record hcenv =
  runErr :: "string list \<Rightarrow> error option"
  httpGet :: "string \<Rightarrow> goint option"
  operstate :: "string \<Rightarrow> string"
  cancelledInDelay :: "HealthCheckAction \<Rightarrow> bool"
  parseDuration :: "string \<Rightarrow> duration"

text \<open>
  The service: the results map, the cooldown goroutines that are asleep (name and wake-up time),
  the clock, the log of successful actions (time, check, cooldown), which the code only prints, and
  the commands that were run, newest first.
\<close>

record hcstate =
  results :: "string \<rightharpoonup> CheckResult"
  sleeping :: "(string \<times> gotime) list"
  clock :: gotime
  acted :: "(gotime \<times> string \<times> duration) list"
  commands :: "string list list"

definition new_result :: "string \<Rightarrow> string \<Rightarrow> CheckResult" where
  "new_result name status = \<lparr>crName = name, crStatus = status, crLastCheck = 0,
     crFailureCount = 0, crLastAction = [], crLastActionAt = 0, crInCooldown = False\<rparr>"

definition NewHealthCheckService :: "gotime \<Rightarrow> hcstate" where
  "NewHealthCheckService t = \<lparr>results = Map.empty, sleeping = [], clock = t, acted = [], commands = []\<rparr>"

definition hc_Start :: "Config \<Rightarrow> hcstate \<Rightarrow> hcstate" where
  "hc_Start c s = s\<lparr>results := foldl (\<lambda>m e. m(hcName e \<mapsto> new_result (hcName e) ''unknown''))
     (results s) (hccChecks (cfgHealthCheck c))\<rparr>"

definition GetResult :: "hcstate \<Rightarrow> string \<Rightarrow> CheckResult option" where
  "GetResult s name = results s name"

definition ResetCounter :: "string \<Rightarrow> hcstate \<Rightarrow> hcstate" where
  "ResetCounter name s =
     (case results s name of
        Some r \<Rightarrow> s\<lparr>results := (results s)(name \<mapsto>
            r\<lparr>crFailureCount := 0, crStatus := ''ok'', crInCooldown := False\<rparr>)\<rparr>
      | None \<Rightarrow> s)"

subsection \<open>Probing\<close>

definition httpProbe :: "hcenv \<Rightarrow> string \<Rightarrow> goint \<Rightarrow> bool" where
  "httpProbe env url expectStatus =
     (let want = (if expectStatus = 0 then 204 else expectStatus) in
      case httpGet env url of None \<Rightarrow> False | Some status \<Rightarrow> status = want)"

definition probeTarget :: "hcenv \<Rightarrow> HealthCheckTarget \<Rightarrow> bool" where
  "probeTarget env t =
     (if htType t = ''ping'' then runErr env [''ping'', ''-c'', ''1'', ''-W'', ''3'', htHost t] = None
      else if htType t = ''http'' then httpProbe env (htURL t) (htExpectStatus t)
      else False)"

fun probeTargets :: "hcenv \<Rightarrow> HealthCheckTarget list \<Rightarrow> bool" where
  "probeTargets env [] = False"
| "probeTargets env (t # ts) = (if probeTarget env t then True else probeTargets env ts)"

subsection \<open>Recovery actions\<close>

definition hc_run :: "hcenv \<Rightarrow> string list \<Rightarrow> hcstate \<Rightarrow> hcstate \<times> error option" where
  "hc_run env argv s = (s\<lparr>commands := argv # commands s\<rparr>, runErr env argv)"

definition hc_sleep :: "duration \<Rightarrow> hcstate \<Rightarrow> hcstate" where
  "hc_sleep d s = (if d > 0 then s\<lparr>clock := clock s + d\<rparr> else s)"

definition actionRestartInterface ::
    "hcenv \<Rightarrow> Config \<Rightarrow> string \<Rightarrow> hcstate \<Rightarrow> hcstate \<times> error option" where
  "actionRestartInterface env c ifaceID s =
     (let device = (case find (\<lambda>f. ifID f = ifaceID) (cfgInterfaces c) of
                      Some f \<Rightarrow> ifDevice f | None \<Rightarrow> []) in
      if device = [] then (s, Some (''interface '' @ ifaceID @ '' not found''))
      else (let s1 = fst (hc_run env [''ip'', ''link'', ''set'', device, ''down''] s);
                s2 = hc_sleep (nanos 2) s1
            in hc_run env [''ip'', ''link'', ''set'', device, ''up''] s2))"

definition actionRestartPPPoE :: "hcenv \<Rightarrow> hcstate \<Rightarrow> hcstate \<times> error option" where
  "actionRestartPPPoE env s =
     (let s1 = fst (hc_run env [''killall'', ''pppd''] s);
          s2 = hc_sleep (nanos 3) s1
      in hc_run env [''pppd'', ''call'', ''wan''] s2)"

definition actionFailoverUSB :: "hcenv \<Rightarrow> Config \<Rightarrow> hcstate \<Rightarrow> hcstate \<times> error option" where
  "actionFailoverUSB env c s =
     (let usb = cfgUSBTether c;
          iface = (if usbInterface usb = [] then ''usb0'' else usbInterface usb) in
      if operstate env iface \<noteq> ''up'' then (s, Some (''USB interface '' @ iface @ '' not available''))
      else (case hc_run env [''dhclient'', ''-1'', iface] s of
          (s1, Some e) \<Rightarrow> (s1, Some (''dhclient USB: '' @ e))
        | (s1, None) \<Rightarrow>
            (let metric = (if usbMetric usb = 0 then 100 else usbMetric usb) in
             hc_run env [''ip'', ''route'', ''replace'', ''default'', ''dev'', iface,
                         ''metric'', Itoa metric] s1)))"

definition actionReboot :: "hcenv \<Rightarrow> hcstate \<Rightarrow> hcstate \<times> error option" where
  "actionReboot env s = hc_run env [''systemctl'', ''reboot''] s"

text \<open>\<open>None\<close> for an unknown type, otherwise the new state and the error the action returned.\<close>

definition runAction ::
    "hcenv \<Rightarrow> Config \<Rightarrow> HealthCheckEntry \<Rightarrow> string \<Rightarrow> hcstate \<Rightarrow> (hcstate \<times> error option) option" where
  "runAction env c check ty s =
     (if ty = ''restartInterface'' then Some (actionRestartInterface env c (hcInterface check) s)
      else if ty = ''restartPppoe'' then Some (actionRestartPPPoE env s)
      else if ty = ''failoverUsb'' then Some (actionFailoverUSB env c s)
      else if ty = ''rebootSystem'' then Some (actionReboot env s)
      else None)"

definition note_action :: "string \<Rightarrow> string \<Rightarrow> hcstate \<Rightarrow> hcstate" where
  "note_action name ty s =
     (case results s name of
        Some r \<Rightarrow> s\<lparr>results := (results s)(name \<mapsto>
            r\<lparr>crLastAction := ty, crLastActionAt := clock s\<rparr>)\<rparr>
      | None \<Rightarrow> s)"

definition enter_cooldown :: "string \<Rightarrow> duration \<Rightarrow> hcstate \<Rightarrow> hcstate" where
  "enter_cooldown name cooldown s =
     s\<lparr>results := (case results s name of
           Some r \<Rightarrow> (results s)(name \<mapsto> r\<lparr>crInCooldown := True, crFailureCount := 0\<rparr>)
         | None \<Rightarrow> results s),
       sleeping := (name, clock s + cooldown) # sleeping s,
       acted := (clock s, name, cooldown) # acted s\<rparr>"

fun executeActions ::
    "hcenv \<Rightarrow> Config \<Rightarrow> HealthCheckEntry \<Rightarrow> duration \<Rightarrow> HealthCheckAction list \<Rightarrow> hcstate \<Rightarrow> hcstate" where
  "executeActions env c check cooldown [] s = s"
| "executeActions env c check cooldown (a # as) s =
     (let delay = parseDuration env (haDelay a) in
      if delay > 0 \<and> cancelledInDelay env a then s
      else (let s1 = note_action (hcName check) (haType a) (hc_sleep delay s) in
        case runAction env c check (haType a) s1 of
          None \<Rightarrow> executeActions env c check cooldown as s1
        | Some (s2, Some e) \<Rightarrow> executeActions env c check cooldown as s2
        | Some (s2, None) \<Rightarrow> enter_cooldown (hcName check) cooldown s2))"

subsection \<open>One tick of a check\<close>

definition count_probe :: "bool \<Rightarrow> gotime \<Rightarrow> CheckResult \<Rightarrow> CheckResult" where
  "count_probe ok t r =
     (if ok then r\<lparr>crLastCheck := t, crStatus := ''ok'', crFailureCount := 0\<rparr>
      else r\<lparr>crLastCheck := t, crFailureCount := crFailureCount r + 1, crStatus := ''failing''\<rparr>)"

definition executeCheck :: "hcenv \<Rightarrow> Config \<Rightarrow> HealthCheckEntry \<Rightarrow> duration \<Rightarrow> hcstate \<Rightarrow> hcstate" where
  "executeCheck env c check cooldown s =
     (let name = hcName check in
      if (case results s name of Some r \<Rightarrow> crInCooldown r | None \<Rightarrow> False) then s
      else
        (let ok = probeTargets env (hcTargets check);
             r0 = (case results s name of Some r \<Rightarrow> r | None \<Rightarrow> new_result name []);
             r1 = count_probe ok (clock s) r0;
             s1 = s\<lparr>results := (results s)(name \<mapsto> r1)\<rparr>
         in if crFailureCount r1 \<ge> hcFailureThreshold check \<and> hcFailureThreshold check > 0
            then executeActions env c check cooldown (hcActions check) s1
            else s1))"

text \<open>
  \<open>runCheck\<close>: the durations of a check with their defaults, and one turn of its ticker loop. A turn is one
  step here: the code holds the lock while it reads and writes the result, not during the probe and the
  actions, where a cooldown of another check may end or a counter may be reset.
\<close>

definition check_interval :: "hcenv \<Rightarrow> HealthCheckEntry \<Rightarrow> duration" where
  "check_interval env check =
     (let d = parseDuration env (hcInterval check) in if d = 0 then nanos 30 else d)"

definition check_cooldown :: "hcenv \<Rightarrow> HealthCheckEntry \<Rightarrow> duration" where
  "check_cooldown env check =
     (let d = parseDuration env (hcCooldown check) in if d = 0 then 5 * minute_ns else d)"

definition runCheck_tick :: "hcenv \<Rightarrow> Config \<Rightarrow> HealthCheckEntry \<Rightarrow> hcstate \<Rightarrow> hcstate" where
  "runCheck_tick env c check s = executeCheck env c check (check_cooldown env check) s"

text \<open>A cooldown goroutine waking up.\<close>

definition end_cooldown :: "string \<times> gotime \<Rightarrow> hcstate \<Rightarrow> hcstate" where
  "end_cooldown g s =
     (let name = fst g in
      s\<lparr>sleeping := remove1 g (sleeping s),
        results := (case results s name of
            Some r \<Rightarrow> (results s)(name \<mapsto> r\<lparr>crInCooldown := False\<rparr>)
          | None \<Rightarrow> results s)\<rparr>)"

text \<open>
  The steps of the service: a ticker of a configured check fires, a cooldown goroutine whose time
  has come wakes up, time passes. The second relation adds the user's counter reset.
\<close>

inductive hc_step :: "Config \<Rightarrow> hcstate \<Rightarrow> hcstate \<Rightarrow> bool" for c where
  tick: "check \<in> set (hccChecks (cfgHealthCheck c)) \<Longrightarrow> hc_step c s (runCheck_tick env c check s)"
| wake: "g \<in> set (sleeping s) \<Longrightarrow> snd g \<le> clock s \<Longrightarrow> hc_step c s (end_cooldown g s)"
| pass: "0 \<le> d \<Longrightarrow> hc_step c s (s\<lparr>clock := clock s + d\<rparr>)"

inductive hc_step_reset :: "Config \<Rightarrow> hcstate \<Rightarrow> hcstate \<Rightarrow> bool" for c where
  plain: "hc_step c s s' \<Longrightarrow> hc_step_reset c s s'"
| reset: "hc_step_reset c s (ResetCounter name s)"

section \<open>What a tick changes\<close>

definition cooling :: "hcstate \<Rightarrow> string \<Rightarrow> bool" where
  "cooling s n \<longleftrightarrow> (case results s n of Some r \<Rightarrow> crInCooldown r | None \<Rightarrow> False)"

text \<open>A state reached from another without entering a cooldown, or by entering one.\<close>

definition same_phase :: "hcstate \<Rightarrow> hcstate \<Rightarrow> bool" where
  "same_phase s s' \<longleftrightarrow> sleeping s' = sleeping s \<and> acted s' = acted s \<and> clock s \<le> clock s' \<and>
     (\<forall>n. cooling s' n = cooling s n) \<and> dom (results s) \<subseteq> dom (results s')"

definition entered :: "string \<Rightarrow> duration \<Rightarrow> hcstate \<Rightarrow> hcstate \<Rightarrow> bool" where
  "entered n cd s s' \<longleftrightarrow> sleeping s' = (n, clock s' + cd) # sleeping s \<and>
     acted s' = (clock s', n, cd) # acted s \<and> clock s \<le> clock s' \<and>
     (\<forall>m. cooling s' m = (m = n \<or> cooling s m)) \<and> dom (results s) \<subseteq> dom (results s')"

lemma same_phase_refl: "same_phase s s"
  by (simp add: same_phase_def)

lemma same_phase_trans: "same_phase s s1 \<Longrightarrow> same_phase s1 s2 \<Longrightarrow> same_phase s s2"
  unfolding same_phase_def by (metis order_trans)

lemma same_phase_entered: "same_phase s s1 \<Longrightarrow> entered n cd s1 s2 \<Longrightarrow> entered n cd s s2"
  unfolding same_phase_def entered_def by (elim conjE, intro conjI) auto

lemma note_action_phase: "same_phase s (note_action n ty s)"
  by (auto simp: same_phase_def note_action_def cooling_def split: option.splits)

lemma hc_sleep_phase: "same_phase s (hc_sleep d s)"
  by (simp add: same_phase_def hc_sleep_def cooling_def)

lemma hc_run_phase: "same_phase s (fst (hc_run env argv s))"
  by (simp add: same_phase_def hc_run_def cooling_def)

lemma runAction_phase:
  assumes "runAction env c check ty s = Some (s', e)"
  shows "same_phase s s'"
proof -
  note ps = hc_run_phase hc_sleep_phase same_phase_refl
  have "same_phase s (fst (actionRestartInterface env c i s))" for i
    unfolding actionRestartInterface_def Let_def
    by (simp add: same_phase_refl) (meson ps same_phase_trans)
  moreover have "same_phase s (fst (actionRestartPPPoE env s))"
    unfolding actionRestartPPPoE_def Let_def by (meson ps same_phase_trans)
  moreover have "same_phase s (fst (actionFailoverUSB env c s))"
    by (simp add: actionFailoverUSB_def Let_def hc_run_def same_phase_def cooling_def split: option.split)
  moreover have "same_phase s (fst (actionReboot env s))"
    unfolding actionReboot_def by (rule hc_run_phase)
  moreover consider "runAction env c check ty s = Some (actionRestartInterface env c (hcInterface check) s)"
    | "runAction env c check ty s = Some (actionRestartPPPoE env s)"
    | "runAction env c check ty s = Some (actionFailoverUSB env c s)"
    | "runAction env c check ty s = Some (actionReboot env s)"
    using assms unfolding runAction_def by (metis option.distinct(1))
  ultimately show ?thesis using assms by cases (metis fst_conv option.inject)+
qed

lemma enter_cooldown_entered: "n \<in> dom (results s) \<Longrightarrow> entered n cd s (enter_cooldown n cd s)"
  by (auto simp: entered_def enter_cooldown_def cooling_def split: option.splits)

lemma same_phase_dom: "same_phase s s' \<Longrightarrow> n \<in> dom (results s) \<Longrightarrow> n \<in> dom (results s')"
  by (auto simp: same_phase_def)

lemma executeActions_phase:
  "hcName check \<in> dom (results s) \<Longrightarrow>
     same_phase s (executeActions env c check cd as s) \<or>
     entered (hcName check) cd s (executeActions env c check cd as s)"
proof (induction as arbitrary: s)
  case Nil
  then show ?case by (simp add: same_phase_refl)
next
  case (Cons a as)
  let ?d = "parseDuration env (haDelay a)"
  let ?s1 = "note_action (hcName check) (haType a) (hc_sleep ?d s)"
  have p: "same_phase s ?s1" by (meson note_action_phase hc_sleep_phase same_phase_trans)
  show ?case
  proof (cases "?d > 0 \<and> cancelledInDelay env a")
    case True
    then show ?thesis by (simp add: same_phase_refl)
  next
    case live: False
    consider (unknown) "runAction env c check (haType a) ?s1 = None"
      | (failed) s2 e where "runAction env c check (haType a) ?s1 = Some (s2, Some e)"
      | (acts) s2 where "runAction env c check (haType a) ?s1 = Some (s2, None)"
      by (metis option.exhaust surj_pair)
    then show ?thesis
    proof cases
      case unknown
      with live have eq: "executeActions env c check cd (a # as) s = executeActions env c check cd as ?s1"
        by (auto simp: Let_def)
      show ?thesis unfolding eq
        using Cons.IH [OF same_phase_dom [OF p Cons.prems]] p
        by (meson same_phase_trans same_phase_entered)
    next
      case failed
      with live have eq: "executeActions env c check cd (a # as) s = executeActions env c check cd as s2"
        by (auto simp: Let_def)
      have q: "same_phase s s2" using p runAction_phase [OF failed] by (rule same_phase_trans)
      show ?thesis unfolding eq
        using Cons.IH [OF same_phase_dom [OF q Cons.prems]] q
        by (meson same_phase_trans same_phase_entered)
    next
      case acts
      with live have eq: "executeActions env c check cd (a # as) s = enter_cooldown (hcName check) cd s2"
        by (auto simp: Let_def)
      have q: "same_phase s s2" using p runAction_phase [OF acts] by (rule same_phase_trans)
      show ?thesis unfolding eq
        using same_phase_entered [OF q enter_cooldown_entered [OF same_phase_dom [OF q Cons.prems]]] by simp
    qed
  qed
qed

definition tick_state :: "hcenv \<Rightarrow> HealthCheckEntry \<Rightarrow> hcstate \<Rightarrow> CheckResult" where
  "tick_state env check s = count_probe (probeTargets env (hcTargets check)) (clock s)
     (case results s (hcName check) of Some r \<Rightarrow> r | None \<Rightarrow> new_result (hcName check) [])"

lemma executeCheck_unfold:
  assumes "\<not> cooling s (hcName check)"
  shows "executeCheck env c check cd s =
     (let r1 = tick_state env check s; s1 = s\<lparr>results := (results s)(hcName check \<mapsto> r1)\<rparr> in
      if crFailureCount r1 \<ge> hcFailureThreshold check \<and> hcFailureThreshold check > 0
      then executeActions env c check cd (hcActions check) s1 else s1)"
  using assms by (simp add: executeCheck_def cooling_def tick_state_def Let_def)

lemma executeCheck_cooling: "cooling s (hcName check) \<Longrightarrow> executeCheck env c check cd s = s"
  by (simp add: executeCheck_def cooling_def)

lemma count_probe_cooldown [simp]: "crInCooldown (count_probe ok t r) = crInCooldown r"
  by (simp add: count_probe_def)

lemma tick_phase:
  assumes "\<not> cooling s (hcName check)"
  shows "same_phase s (s\<lparr>results := (results s)(hcName check \<mapsto> tick_state env check s)\<rparr>)"
  using assms by (auto simp: same_phase_def cooling_def tick_state_def new_result_def split: option.splits)

lemma executeCheck_phase:
  assumes "\<not> cooling s (hcName check)"
  shows "same_phase s (executeCheck env c check cd s) \<or>
         entered (hcName check) cd s (executeCheck env c check cd s)"
proof -
  let ?s1 = "s\<lparr>results := (results s)(hcName check \<mapsto> tick_state env check s)\<rparr>"
  have "same_phase ?s1 (executeActions env c check cd (hcActions check) ?s1) \<or>
      entered (hcName check) cd ?s1 (executeActions env c check cd (hcActions check) ?s1)"
    by (rule executeActions_phase) simp
  then have "same_phase s (executeActions env c check cd (hcActions check) ?s1) \<or>
      entered (hcName check) cd s (executeActions env c check cd (hcActions check) ?s1)"
    using tick_phase [OF assms, of env] by (meson same_phase_trans same_phase_entered)
  with tick_phase [OF assms, of env] show ?thesis
    unfolding executeCheck_unfold [OF assms] Let_def by simp
qed

section \<open>The cooldown invariant\<close>

definition spaced :: "(gotime \<times> string \<times> duration) list \<Rightarrow> bool" where
  "spaced = sorted_wrt (\<lambda>(a, n, _) (b, m, d). n = m \<longrightarrow> b + d \<le> a)"

definition hc_inv :: "hcstate \<Rightarrow> bool" where
  "hc_inv s \<longleftrightarrow>
     (\<forall>n w. (n, w) \<in> set (sleeping s) \<longrightarrow> cooling s n) \<and>
     distinct (map fst (sleeping s)) \<and>
     (\<forall>t n d. (t, n, d) \<in> set (acted s) \<longrightarrow> t + d \<le> clock s \<or> (n, t + d) \<in> set (sleeping s)) \<and>
     spaced (acted s)"

lemma hc_inv_same_phase: "same_phase s s' \<Longrightarrow> hc_inv s \<Longrightarrow> hc_inv s'"
  unfolding same_phase_def hc_inv_def by (metis order_trans)

lemma hc_inv_entered:
  assumes "entered n cd s s'" and "\<not> cooling s n" and "hc_inv s"
  shows "hc_inv s'"
proof -
  have ns: "\<And>w. (n, w) \<notin> set (sleeping s)" using assms(2,3) by (auto simp: hc_inv_def)
  then have "n \<notin> fst ` set (sleeping s)" by force
  moreover have "spaced ((clock s', n, cd) # acted s)"
    using ns assms(1,3) by (fastforce simp: hc_inv_def entered_def spaced_def)
  moreover have "\<forall>t m d. (t, m, d) \<in> set ((clock s', n, cd) # acted s) \<longrightarrow>
      t + d \<le> clock s' \<or> (m, t + d) \<in> set ((n, clock s' + cd) # sleeping s)"
    using assms(1,3) unfolding hc_inv_def entered_def by fastforce
  ultimately show ?thesis
    using assms(1,3) unfolding hc_inv_def entered_def by simp
qed

lemma hc_inv_wake:
  assumes "g \<in> set (sleeping s)" and "snd g \<le> clock s" and "hc_inv s"
  shows "hc_inv (end_cooldown g s)"
proof -
  obtain n w where g: "g = (n, w)" by (cases g)
  have dist: "distinct (map fst (sleeping s))" using assms(3) by (simp add: hc_inv_def)
  then have "distinct (sleeping s)" by (simp add: distinct_map)
  then have rem: "set (remove1 g (sleeping s)) = set (sleeping s) - {g}" by simp
  have only: "m \<noteq> n" if "(m, w') \<in> set (remove1 g (sleeping s))" for m w'
  proof
    assume "m = n"
    with that rem have "(n, w') \<in> set (sleeping s)" "(n, w') \<noteq> (n, w)" using g by auto
    moreover have "(n, w) \<in> set (sleeping s)" using assms(1) g by simp
    ultimately show False using eq_key_imp_eq_value [OF dist, of n w' w] by simp
  qed
  have cool': "cooling (end_cooldown g s) m = (m \<noteq> n \<and> cooling s m)" for m
    by (auto simp: end_cooldown_def cooling_def g Let_def split: option.splits)
  have "distinct (map fst (remove1 g (sleeping s)))"
    using dist by (metis distinct_remove1 distinct_map inj_on_subset set_remove1_subset)
  moreover have "\<forall>m w'. (m, w') \<in> set (remove1 g (sleeping s)) \<longrightarrow> cooling (end_cooldown g s) m"
    using assms(3) only rem unfolding cool' hc_inv_def by blast
  moreover have "\<forall>t m d. (t, m, d) \<in> set (acted s) \<longrightarrow>
      t + d \<le> clock s \<or> (m, t + d) \<in> set (remove1 g (sleeping s))"
    using assms(2,3) g unfolding rem hc_inv_def by fastforce
  ultimately show ?thesis using assms(3) unfolding hc_inv_def by (simp add: end_cooldown_def Let_def)
qed

lemma hc_inv_step:
  assumes "hc_step c s s'" and "hc_inv s"
  shows "hc_inv s'"
  using assms(1)
proof (cases rule: hc_step.cases)
  case (tick check env)
  show ?thesis
  proof (cases "cooling s (hcName check)")
    case True
    with tick assms(2) show ?thesis by (simp add: runCheck_tick_def executeCheck_cooling)
  next
    case False
    from executeCheck_phase [OF this, of env c "check_cooldown env check"] show ?thesis
      unfolding tick runCheck_tick_def using assms(2) False by (meson hc_inv_same_phase hc_inv_entered)
  qed
next
  case (wake g)
  with assms(2) show ?thesis by (simp add: hc_inv_wake)
next
  case (pass d)
  with assms(2) show ?thesis by (force simp: hc_inv_def cooling_def)
qed

lemma hc_inv_init:
  "hc_inv (hc_Start c (NewHealthCheckService t))"
  by (simp add: hc_inv_def spaced_def hc_Start_def NewHealthCheckService_def)

lemma hc_inv_run: "(hc_step c)\<^sup>*\<^sup>* s s' \<Longrightarrow> hc_inv s \<Longrightarrow> hc_inv s'"
  by (induction rule: rtranclp_induct) (auto intro: hc_inv_step)

section \<open>Failing ticks\<close>

definition failing_tick :: "HealthCheckEntry \<Rightarrow> hcenv \<Rightarrow> bool" where
  "failing_tick check env \<longleftrightarrow> \<not> probeTargets env (hcTargets check)"

text \<open>Several ticks of one check in a row, each with the outside world it sees.\<close>

fun run_ticks :: "Config \<Rightarrow> HealthCheckEntry \<Rightarrow> duration \<Rightarrow> hcenv list \<Rightarrow> hcstate \<Rightarrow> hcstate" where
  "run_ticks c check cd [] s = s"
| "run_ticks c check cd (env # envs) s = run_ticks c check cd envs (executeCheck env c check cd s)"

definition failures :: "hcstate \<Rightarrow> string \<Rightarrow> goint" where
  "failures s n = (case results s n of Some r \<Rightarrow> crFailureCount r | None \<Rightarrow> 0)"

lemma probeTargets_iff: "probeTargets env ts \<longleftrightarrow> (\<exists>t \<in> set ts. probeTarget env t)"
  by (induction ts) auto

lemma failing_tick_count:
  assumes "failing_tick check env"
  shows "crFailureCount (tick_state env check s) = failures s (hcName check) + 1"
    and "crStatus (tick_state env check s) = ''failing''"
  using assms by (simp_all add: failing_tick_def tick_state_def count_probe_def failures_def
      new_result_def split: option.split)

lemma executeCheck_below:
  assumes "\<not> cooling s (hcName check)" and "failing_tick check env"
    and "failures s (hcName check) + 1 < hcFailureThreshold check"
  shows "commands (executeCheck env c check cd s) = commands s"
    and "\<not> cooling (executeCheck env c check cd s) (hcName check)"
    and "failures (executeCheck env c check cd s) (hcName check) = failures s (hcName check) + 1"
  using assms(1,3) tick_phase [OF assms(1), of env] failing_tick_count [OF assms(2), of s]
  by (simp_all add: executeCheck_unfold Let_def failures_def same_phase_def)

lemma failing_run_below:
  assumes "\<not> cooling s (hcName check)" and "\<forall>env \<in> set envs. failing_tick check env"
    and "failures s (hcName check) + int (length envs) < hcFailureThreshold check"
  shows "commands (run_ticks c check cd envs s) = commands s \<and>
    \<not> cooling (run_ticks c check cd envs s) (hcName check) \<and>
    failures (run_ticks c check cd envs s) (hcName check) =
      failures s (hcName check) + int (length envs)"
  using assms
proof (induction envs arbitrary: s)
  case Nil
  then show ?case by simp
next
  case (Cons env envs)
  then have "failing_tick check env" "failures s (hcName check) + 1 < hcFailureThreshold check" by auto
  note step = executeCheck_below [OF Cons.prems(1) this, of c cd]
  show ?case using Cons.IH [OF step(2)] Cons.prems step by simp
qed

section \<open>Properties\<close>

text \<open>
  C8. Recovery actions are rate limited: in every run of the service from its start, through ticks of
  the checks, cooldown goroutines waking up and time passing, a second successful action of a check
  comes no sooner than the cooldown of the first one after it.
\<close>

theorem actions_spaced:
  assumes "(hc_step c)\<^sup>*\<^sup>* (hc_Start c (NewHealthCheckService t0)) s"
    and "acted s = newer @ (t2, n, d2) # between @ (t1, n, d1) # older"
  shows "t1 + d1 \<le> t2"
  using hc_inv_run [OF assms(1) hc_inv_init] assms(2)
  by (simp add: hc_inv_def spaced_def sorted_wrt_append)

definition demo_check :: HealthCheckEntry where
  "demo_check = zero_HealthCheckEntry\<lparr>hcName := ''wan'', hcFailureThreshold := 1,
     hcActions := [zero_HealthCheckAction\<lparr>haType := ''rebootSystem''\<rparr>]\<rparr>"

definition demo_cfg :: Config where
  "demo_cfg = zero_Config\<lparr>cfgHealthCheck := zero_HealthCheckConfig\<lparr>hccChecks := [demo_check]\<rparr>\<rparr>"

definition demo_env :: hcenv where
  "demo_env = \<lparr>runErr = \<lambda>_. None, httpGet = \<lambda>_. None, operstate = \<lambda>_. [],
     cancelledInDelay = \<lambda>_. False, parseDuration = \<lambda>_. 0\<rparr>"

lemmas demo_simps = demo_check_def demo_cfg_def demo_env_def zero_defs hc_Start_def
  NewHealthCheckService_def new_result_def runCheck_tick_def executeCheck_def check_cooldown_def
  count_probe_def note_action_def runAction_def actionReboot_def hc_run_def hc_sleep_def
  enter_cooldown_def end_cooldown_def ResetCounter_def minute_ns_def Let_def

definition demo_start :: hcstate where
  "demo_start = hc_Start demo_cfg (NewHealthCheckService 0)"

definition demo_acts :: "hcstate \<Rightarrow> hcstate" where
  "demo_acts s = runCheck_tick demo_env demo_cfg demo_check s"

definition demo_wait :: "duration \<Rightarrow> hcstate \<Rightarrow> hcstate" where
  "demo_wait d s = s\<lparr>clock := clock s + d\<rparr>"

lemma demo_tick_step: "hc_step demo_cfg s (demo_acts s)"
  unfolding demo_acts_def by (rule hc_step.tick) (simp add: demo_cfg_def zero_defs)

lemma demo_wait_step: "0 \<le> d \<Longrightarrow> hc_step demo_cfg s (demo_wait d s)"
  unfolding demo_wait_def by (rule hc_step.pass)

text \<open>Two actions with the default cooldown of five minutes waited out between them.\<close>

definition demo_twice :: hcstate where
  "demo_twice = demo_acts (end_cooldown (''wan'', 300000000000) (demo_wait 300000000000 (demo_acts demo_start)))"

lemma demo_twice_acted: "acted demo_twice = [(300000000000, ''wan'', 300000000000), (0, ''wan'', 300000000000)]"
  by (simp add: demo_twice_def demo_acts_def demo_wait_def demo_start_def demo_simps)

lemma demo_twice_reachable: "(hc_step demo_cfg)\<^sup>*\<^sup>* (hc_Start demo_cfg (NewHealthCheckService 0)) demo_twice"
proof -
  have "hc_step demo_cfg (demo_wait 300000000000 (demo_acts demo_start))
      (end_cooldown (''wan'', 300000000000) (demo_wait 300000000000 (demo_acts demo_start)))"
    by (rule hc_step.wake) (simp_all add: demo_acts_def demo_wait_def demo_start_def demo_simps)
  then show ?thesis
    unfolding demo_twice_def demo_start_def [symmetric]
    by (meson demo_tick_step demo_wait_step r_into_rtranclp rtranclp_trans zero_le_numeral)
qed

theorem actions_spaced_witness: "(0::int) + 300000000000 \<le> 300000000000"
  by (rule actions_spaced [OF demo_twice_reachable, of "[]" _ "''wan''" 300000000000 "[]"])
    (simp add: demo_twice_acted)

text \<open>
  A check acts after exactly as many consecutive failed ticks as its threshold: with a zero
  counter and no cooldown, all targets failing in each of the ticks \<open>envs\<close>, fewer ticks than the
  threshold run no command and count up by one each, and the tick that reaches the threshold runs
  the recovery actions in the state it has counted.
\<close>

theorem threshold_ticks_then_action:
  assumes "\<not> cooling s (hcName check)" and "failures s (hcName check) = 0"
    and "\<forall>env' \<in> set (env # envs). failing_tick check env'"
    and "int (length envs) + 1 = hcFailureThreshold check"
    and "s1 = run_ticks c check cd envs s"
  shows "commands s1 = commands s \<and> failures s1 (hcName check) = int (length envs) \<and>
    executeCheck env c check cd s1 = executeActions env c check cd (hcActions check)
      (s1\<lparr>results := (results s1)(hcName check \<mapsto> tick_state env check s1)\<rparr>)"
proof -
  have run: "commands s1 = commands s \<and> \<not> cooling s1 (hcName check) \<and>
      failures s1 (hcName check) = int (length envs)"
    using failing_run_below [OF assms(1), of envs c cd] assms(2-4) unfolding assms(5) by simp
  have "crFailureCount (tick_state env check s1) = hcFailureThreshold check"
    using failing_tick_count(1) [of check env s1] run assms(3,4) by simp
  moreover have "0 < hcFailureThreshold check" using assms(4) by linarith
  ultimately show ?thesis using run by (simp add: executeCheck_unfold Let_def)
qed

theorem threshold_ticks_then_action_witness:
  "commands demo_start = [] \<and> executeCheck demo_env demo_cfg demo_check 7 demo_start =
    executeActions demo_env demo_cfg demo_check 7 (hcActions demo_check)
      (demo_start\<lparr>results := (results demo_start)(hcName demo_check \<mapsto> tick_state demo_env demo_check demo_start)\<rparr>)"
  using threshold_ticks_then_action [of demo_start demo_check demo_env "[]" demo_start demo_cfg 7]
  by (simp add: demo_start_def cooling_def failures_def failing_tick_def demo_simps)

text \<open>
  The counter reset breaks the rate limit. It ends a cooldown and leaves the goroutine of that
  cooldown asleep; the goroutine later ends the cooldown of a newer action. In this run of one check
  (the default cooldown of 300 s) the action runs at 0 s, the user resets the counter, the action runs
  again at 200 s, the first goroutine wakes up at 300 s, and the action runs a third time there, 100 s
  after the second one.
\<close>

theorem reset_ends_later_cooldown_early:
  "\<exists>s. (hc_step_reset demo_cfg)\<^sup>*\<^sup>* (hc_Start demo_cfg (NewHealthCheckService 0)) s \<and>
     acted s = [(300000000000, ''wan'', 300000000000), (200000000000, ''wan'', 300000000000),
                (0, ''wan'', 300000000000)]"
proof -
  let ?a = "demo_wait 200000000000 (ResetCounter ''wan'' (demo_acts demo_start))"
  let ?b = "demo_wait 100000000000 (demo_acts ?a)"
  let ?c = "demo_acts (end_cooldown (''wan'', 300000000000) ?b)"
  have "hc_step demo_cfg ?b (end_cooldown (''wan'', 300000000000) ?b)"
    by (rule hc_step.wake) (simp_all add: demo_acts_def demo_wait_def demo_start_def demo_simps)
  note late = hc_step_reset.plain [OF this] and tick = hc_step_reset.plain [OF demo_tick_step]
    and wait = hc_step_reset.plain [OF demo_wait_step] and snoc = rtranclp.rtrancl_into_rtrancl [where r = "hc_step_reset demo_cfg"]
  have "(hc_step_reset demo_cfg)\<^sup>*\<^sup>* demo_start ?a"
    by (rule snoc [OF _ wait], rule snoc [OF _ hc_step_reset.reset], rule snoc [OF _ tick]) simp_all
  then have "(hc_step_reset demo_cfg)\<^sup>*\<^sup>* demo_start ?b"
    by (rule snoc [OF snoc [OF _ tick] wait]) simp
  then have "(hc_step_reset demo_cfg)\<^sup>*\<^sup>* demo_start ?c"
    by (rule snoc [OF snoc [OF _ late] tick])
  moreover have "acted ?c = [(300000000000, ''wan'', 300000000000), (200000000000, ''wan'', 300000000000),
      (0, ''wan'', 300000000000)]"
    by (simp add: demo_acts_def demo_wait_def demo_start_def demo_simps)
  ultimately show ?thesis unfolding demo_start_def by blast
qed

end
