(* ===== verification/Backup.thy ===== *)
theory Backup
  imports ConfigStore BackupSchedule
begin

text \<open>
  Backups (\<^verbatim>\<open>internal/services/backup.go\<close>, \<^verbatim>\<open>backup_local.go\<close>,
  \<^verbatim>\<open>backup_orchestration.go\<close>): export and import of the archive, its encryption, the local
  target with its retention, and one run over all targets. Disks map paths to contents and
  directories are not represented. System calls, the tar command, the ciphers, the tar reader, the
  S3 and SFTP targets and the sort routine are parameters.
\<close>

section \<open>Definitions\<close>

subsection \<open>Parameters\<close>

record cryptoenv =
  rand_salt :: "error + string"
  rand_nonce :: "error + string"
  scrypt_Key :: "string \<Rightarrow> string \<Rightarrow> error + string"
  aes_err :: "string \<Rightarrow> error option"
  gcm_err :: "string \<Rightarrow> error option"
  gcm_Seal :: "string \<Rightarrow> string \<Rightarrow> string \<Rightarrow> string"
  gcm_Open :: "string \<Rightarrow> string \<Rightarrow> string \<Rightarrow> error + string"

datatype tar_type = TypeDir | TypeReg | TypeOther int

record tar_member =
  tmName :: string
  tmType :: tar_type
  tmData :: "error + string"

record dirent =
  deName :: string
  deIsDir :: bool
  deModTime :: "gotime option"

datatype bk_call = BkMkdirAll string | BkOpen string | BkCreate string | BkCopy string | BkSync string
  | BkClose string | BkRename string string | BkRemove string | BkStat string
  | BkReadFile string | BkWriteFile string

text \<open>
  \<open>bk_tar\<close>: what \<open>tar czf\<close> leaves at its output path and its error. \<open>bk_untar\<close>: the members of an
  archive and the error that ends the reading, \<open>None\<close> for the end of the archive. \<open>bk_readDir\<close>: a
  directory's entries, \<open>Inl None\<close> when it does not exist.
\<close>

record bkenv =
  bk_err :: "bk_call \<Rightarrow> error option"
  bk_short :: "string \<Rightarrow> nat"
  bk_tar :: "disk \<Rightarrow> error option \<times> string option"
  bk_untar :: "string \<Rightarrow> error + tar_member list \<times> error option"
  bk_readDir :: "string \<Rightarrow> disk \<Rightarrow> error option + dirent list"
  bk_sort :: "(string \<times> gotime) list \<Rightarrow> (string \<times> gotime) list"
  bk_remote :: "BackupTarget \<Rightarrow> string option \<Rightarrow> error option"
  bk_crypto :: cryptoenv
  bk_os :: osenv

definition bk_read :: "bkenv \<Rightarrow> string \<Rightarrow> disk \<Rightarrow> error + string" where
  "bk_read env path d =
     (case bk_err env (BkReadFile path) of Some e \<Rightarrow> Inl e
      | None \<Rightarrow> (case d path of Some data \<Rightarrow> Inr data
                 | None \<Rightarrow> Inl (''open '' @ path @ '': no such file or directory'')))"

definition bk_write :: "bkenv \<Rightarrow> string \<Rightarrow> string \<Rightarrow> disk \<Rightarrow> error option \<times> disk" where
  "bk_write env path data d =
     (case bk_err env (BkWriteFile path) of
        Some e \<Rightarrow> (Some e, d(path \<mapsto> take (bk_short env data) data))
      | None \<Rightarrow> (None, d(path \<mapsto> data)))"

definition bk_remove :: "bkenv \<Rightarrow> string \<Rightarrow> disk \<Rightarrow> disk" where
  "bk_remove env path d = (if bk_err env (BkRemove path) = None then d(path := None) else d)"

subsection \<open>Encryption\<close>

definition saltLen :: nat where "saltLen = 16"

text \<open>The nonce size of the GCM mode that \<open>cipher.NewGCM\<close> returns.\<close>

definition gcm_NonceSize :: nat where "gcm_NonceSize = 12"

definition deriveKey :: "cryptoenv \<Rightarrow> string \<Rightarrow> string \<Rightarrow> error + string" where
  "deriveKey ce passphrase salt = scrypt_Key ce passphrase salt"

text \<open>The common part of both directions: key, block cipher, GCM mode.\<close>

definition open_gcm :: "cryptoenv \<Rightarrow> string \<Rightarrow> string \<Rightarrow> error + string" where
  "open_gcm ce passphrase salt =
     (case deriveKey ce passphrase salt of
        Inl e \<Rightarrow> Inl (''derive key: '' @ e)
      | Inr key \<Rightarrow> (case aes_err ce key of
          Some e \<Rightarrow> Inl (''create cipher: '' @ e)
        | None \<Rightarrow> (case gcm_err ce key of
            Some e \<Rightarrow> Inl (''create GCM: '' @ e)
          | None \<Rightarrow> Inr key)))"

definition encryptBackup :: "cryptoenv \<Rightarrow> string \<Rightarrow> string \<Rightarrow> error + string" where
  "encryptBackup ce plaintext passphrase =
     (case rand_salt ce of
        Inl e \<Rightarrow> Inl (''generate salt: '' @ e)
      | Inr salt \<Rightarrow> (case open_gcm ce passphrase salt of
          Inl e \<Rightarrow> Inl e
        | Inr key \<Rightarrow> (case rand_nonce ce of
            Inl e \<Rightarrow> Inl (''generate nonce: '' @ e)
          | Inr nonce \<Rightarrow> Inr (salt @ nonce @ gcm_Seal ce key nonce plaintext))))"

definition decryptBackup :: "cryptoenv \<Rightarrow> string \<Rightarrow> string \<Rightarrow> error + string" where
  "decryptBackup ce data passphrase =
     (if length data < saltLen + 12 then Inl ''encrypted backup too short''
      else (case open_gcm ce passphrase (take saltLen data) of
          Inl e \<Rightarrow> Inl e
        | Inr key \<Rightarrow>
            if length data < saltLen + gcm_NonceSize then Inl ''encrypted backup too short for nonce''
            else (let nonce = take gcm_NonceSize (drop saltLen data);
                      ciphertext = drop (saltLen + gcm_NonceSize) data
                  in case gcm_Open ce key nonce ciphertext of
                       Inl e \<Rightarrow> Inl (''decrypt: '' @ e @ '' (wrong passphrase?)'')
                     | Inr p \<Rightarrow> Inr p)))"

subsection \<open>Export and import\<close>

text \<open>The stamp of \<open>Format("20060102-150405")\<close>, for years of four digits.\<close>

definition pad :: "nat \<Rightarrow> int \<Rightarrow> string" where
  "pad w n = (let s = Itoa n in replicate (w - length s) (CHR ''0'') @ s)"

definition stamp :: "location \<Rightarrow> gotime \<Rightarrow> string" where
  "stamp loc t =
     pad 4 (fst (year_yday (wall_seconds loc t div 86400))) @ pad 2 (go_Month loc t) @ pad 2 (go_Day loc t) @
     ''-'' @ pad 2 (go_Hour loc t) @ pad 2 (go_Minute loc t) @ pad 2 (go_Second loc t)"

definition Export :: "bkenv \<Rightarrow> location \<Rightarrow> gotime \<Rightarrow> string \<Rightarrow> string \<Rightarrow> disk \<Rightarrow> error option \<times> disk" where
  "Export env local now outputPath0 passphrase d =
     (let outputPath = (if outputPath0 = [] then ''/tmp/lankeeper-backup-'' @ stamp local now @ ''.tar.gz''
                        else outputPath0);
          d1 = (case snd (bk_tar env d) of None \<Rightarrow> d | Some c \<Rightarrow> d(outputPath \<mapsto> c))
      in case fst (bk_tar env d) of
           Some e \<Rightarrow> (Some (''create backup: '' @ e), d1)
         | None \<Rightarrow>
             if passphrase = [] then (None, d1)
             else (case bk_read env outputPath d1 of
                 Inl e \<Rightarrow> (Some (''read archive for encryption: '' @ e), d1)
               | Inr plaintext \<Rightarrow> (case encryptBackup (bk_crypto env) plaintext passphrase of
                   Inl e \<Rightarrow> (Some (''encrypt backup: '' @ e), d1)
                 | Inr encrypted \<Rightarrow> (case bk_write env outputPath encrypted d1 of
                     (Some e, d2) \<Rightarrow> (Some (''write encrypted backup: '' @ e), d2)
                   | (None, d2) \<Rightarrow> (None, d2)))))"

definition import_member :: "bkenv \<Rightarrow> string \<Rightarrow> tar_member \<Rightarrow> disk \<Rightarrow> error option \<times> disk" where
  "import_member env destRoot m d =
     (let clean = Clean (tmName m) in
      if Contains clean ''..'' \<or> IsAbs clean
      then (Some (''unsafe tar member rejected: '' @ tmName m), d)
      else (let target = path_Join destRoot clean in
        if \<not> HasPrefix target (destRoot @ ''/'') \<and> target \<noteq> destRoot
        then (Some (''tar member escapes destination: '' @ tmName m), d)
        else (case tmType m of
            TypeDir \<Rightarrow> (case bk_err env (BkMkdirAll target) of
                Some e \<Rightarrow> (Some (''mkdir '' @ target @ '': '' @ e), d)
              | None \<Rightarrow> (None, d))
          | TypeReg \<Rightarrow> (case tmData m of
                Inl e \<Rightarrow> (Some (''read tar member '' @ tmName m @ '': '' @ e), d)
              | Inr content \<Rightarrow> (case bk_write env target (take 10485760 content) d of
                    (Some e, d1) \<Rightarrow> (Some (''write tar member '' @ tmName m @ '': '' @ e), d1)
                  | (None, d1) \<Rightarrow> (None, d1)))
          | TypeOther n \<Rightarrow> (Some (''unsupported tar member type '' @ Itoa n @ '': '' @ tmName m), d))))"

fun import_members ::
    "bkenv \<Rightarrow> string \<Rightarrow> tar_member list \<Rightarrow> error option \<Rightarrow> disk \<Rightarrow> error option \<times> disk" where
  "import_members env destRoot [] (Some e) d = (Some (''read tar header: '' @ e), d)"
| "import_members env destRoot [] None d = (None, d)"
| "import_members env destRoot (m # ms) fin d =
     (case import_member env destRoot m d of
        (Some e, d1) \<Rightarrow> (Some e, d1)
      | (None, d1) \<Rightarrow> import_members env destRoot ms fin d1)"

definition Import :: "bkenv \<Rightarrow> string \<Rightarrow> string \<Rightarrow> string \<Rightarrow> disk \<Rightarrow> error option \<times> disk" where
  "Import env configDir archivePath passphrase d =
     (case bk_read env archivePath d of
        Inl e \<Rightarrow> (Some (''read backup: '' @ e), d)
      | Inr data \<Rightarrow>
        (let staged = (if passphrase = [] then Inr d
             else (case decryptBackup (bk_crypto env) data passphrase of
                 Inl e \<Rightarrow> Inl (Some (''decrypt backup: '' @ e), d)
               | Inr decrypted \<Rightarrow> (case bk_write env archivePath decrypted d of
                   (Some e, d1) \<Rightarrow> Inl (Some (''write decrypted backup: '' @ e), d1)
                 | (None, d1) \<Rightarrow> Inr d1)))
         in case staged of Inl r \<Rightarrow> r
          | Inr d1 \<Rightarrow> (case bk_err env (BkOpen archivePath) of
              Some e \<Rightarrow> (Some (''open backup: '' @ e), d1)
            | None \<Rightarrow> (case bk_untar env (the (d1 archivePath)) of
                Inl e \<Rightarrow> (Some (''gzip reader: '' @ e), d1)
              | Inr (ms, fin) \<Rightarrow> import_members env configDir ms fin d1))))"

definition FactoryReset :: "bkenv \<Rightarrow> string \<Rightarrow> disk \<Rightarrow> error option \<times> disk" where
  "FactoryReset env configDir d =
     (let defaultsDir = path_Join (path_Join (path_Dir configDir) ''configs'') ''defaults'' in
      case bk_readDir env defaultsDir d of
        Inl eo \<Rightarrow> (Some (''read defaults: '' @ (case eo of None \<Rightarrow> ''file does not exist'' | Some e \<Rightarrow> e)), d)
      | Inr entries \<Rightarrow> (None, foldl (\<lambda>d' entry.
            if deIsDir entry then d'
            else (case bk_read env (path_Join defaultsDir (deName entry)) d' of
                Inl e \<Rightarrow> d'
              | Inr fileData \<Rightarrow> snd (bk_write env (path_Join configDir (deName entry)) fileData d'))) d entries))"

subsection \<open>The local target\<close>

definition LocalBackupRoot :: string where "LocalBackupRoot = ''/var/lib/lankeeper/backups/''"

definition validateLocalPath :: "string \<Rightarrow> error + string" where
  "validateLocalPath spec =
     (let root = (if HasSuffix LocalBackupRoot ''/'' then LocalBackupRoot else LocalBackupRoot @ ''/'') in
      if spec = [] then Inr (TrimSuffix root ''/'')
      else (let clean = Clean spec in
        if \<not> IsAbs clean then Inl (''local target path must be absolute, got '' @ quote_q spec)
        else (let withSlash = (if HasSuffix clean ''/'' then clean else clean @ ''/'') in
          if \<not> HasPrefix withSlash root then Inl (''local target path must live under '' @ root)
          else Inr clean)))"

text \<open>
  The copy through a temporary name (the part of \<open>uploadLocal\<close> after the source is open), with
  every disk it passes through.
\<close>

definition copy_and_rename :: "bkenv \<Rightarrow> string \<Rightarrow> string \<Rightarrow> disk \<Rightarrow> (error + string) \<times> disk list" where
  "copy_and_rename env final data d =
     (let tmp = final @ ''.tmp''; d1 = d(tmp \<mapsto> []) in
      case bk_err env (BkCreate tmp) of
        Some e \<Rightarrow> (Inl (''create tmp: '' @ e), [d])
      | None \<Rightarrow> (case bk_err env (BkCopy tmp) of
          Some e \<Rightarrow> (let d2 = d1(tmp \<mapsto> take (bk_short env data) data)
                     in (Inl (''copy to tmp: '' @ e), [d, d1, d2, bk_remove env tmp d2]))
        | None \<Rightarrow>
          (let d2 = d1(tmp \<mapsto> data) in
           case bk_err env (BkSync tmp) of
             Some e \<Rightarrow> (Inl (''fsync tmp: '' @ e), [d, d1, d2, bk_remove env tmp d2])
           | None \<Rightarrow> (case bk_err env (BkClose tmp) of
               Some e \<Rightarrow> (Inl (''close tmp: '' @ e), [d, d1, d2, bk_remove env tmp d2])
             | None \<Rightarrow> (case bk_err env (BkRename tmp final) of
                 Some e \<Rightarrow> (Inl (''rename: '' @ e), [d, d1, d2, bk_remove env tmp d2])
               | None \<Rightarrow> (Inr final, [d, d1, d2, (d2(tmp := None))(final \<mapsto> data)]))))))"

definition uploadLocal :: "bkenv \<Rightarrow> string \<Rightarrow> BackupTarget \<Rightarrow> disk \<Rightarrow> (error + string) \<times> disk list" where
  "uploadLocal env srcPath t d =
     (case validateLocalPath (btPath t) of
        Inl e \<Rightarrow> (Inl e, [d])
      | Inr dir \<Rightarrow> (case bk_err env (BkMkdirAll dir) of
          Some e \<Rightarrow> (Inl (''mkdir '' @ dir @ '': '' @ e), [d])
        | None \<Rightarrow>
          (let final = path_Join dir (path_Base srcPath) in
           case (bk_err env (BkOpen srcPath), d srcPath) of
             (Some e, _) \<Rightarrow> (Inl (''open src: '' @ e), [d])
           | (None, None) \<Rightarrow> (Inl ''open src: no such file or directory'', [d])
           | (None, Some data) \<Rightarrow> copy_and_rename env final data d)))"

definition backup_files :: "string \<Rightarrow> dirent list \<Rightarrow> (string \<times> gotime) list" where
  "backup_files dir entries =
     map (\<lambda>e. (path_Join dir (deName e), the (deModTime e)))
       (filter (\<lambda>e. \<not> deIsDir e \<and> HasPrefix (deName e) ''lankeeper-backup-'' \<and>
                    \<not> HasSuffix (deName e) ''.tmp'' \<and> deModTime e \<noteq> None) entries)"

fun remove_files :: "bkenv \<Rightarrow> (string \<times> gotime) list \<Rightarrow> disk \<Rightarrow> string list \<times> error option \<times> disk" where
  "remove_files env [] d = ([], None, d)"
| "remove_files env (f # fs) d =
     (case bk_err env (BkRemove (fst f)) of
        Some e \<Rightarrow> ([], Some (''remove '' @ fst f @ '': '' @ e), d)
      | None \<Rightarrow> (case remove_files env fs (d(fst f := None)) of (del, eo, d') \<Rightarrow> (fst f # del, eo, d')))"

definition cleanupLocal :: "bkenv \<Rightarrow> BackupTarget \<Rightarrow> goint \<Rightarrow> disk \<Rightarrow> string list \<times> error option \<times> disk" where
  "cleanupLocal env t keep d =
     (if keep < 1 then ([], Some ''retention must be >= 1'', d)
      else (case validateLocalPath (btPath t) of
          Inl e \<Rightarrow> ([], Some e, d)
        | Inr dir \<Rightarrow> (case bk_readDir env dir d of
            Inl None \<Rightarrow> ([], None, d)
          | Inl (Some e) \<Rightarrow> ([], Some (''readdir: '' @ e), d)
          | Inr entries \<Rightarrow> remove_files env (drop (nat keep) (bk_sort env (backup_files dir entries))) d)))"

subsection \<open>One run over all targets\<close>

record historyEntry =
  heStartedAt :: gotime
  heCompletedAt :: gotime
  heBytes :: goint
  heTargets :: "string list"
  heStatus :: string
  heMessage :: string

definition uploadOne :: "bkenv \<Rightarrow> string \<Rightarrow> BackupTarget \<Rightarrow> goint \<Rightarrow> disk \<Rightarrow> error option \<times> disk" where
  "uploadOne env src t keep d =
     (if btType t = ''local'' then
        (case uploadLocal env src t d of
           (Inl e, ds) \<Rightarrow> (Some e, last ds)
         | (Inr _, ds) \<Rightarrow> (case cleanupLocal env t keep (last ds) of (_, _, d') \<Rightarrow> (None, d')))
      else if btType t = ''s3'' \<or> btType t = ''sftp'' then (bk_remote env t (d src), d)
      else (Some (''unknown target type '' @ quote_q (btType t)), d))"

text \<open>The loop over the targets: the names that succeeded, the messages of those that failed.\<close>

fun upload_all :: "bkenv \<Rightarrow> string \<Rightarrow> goint \<Rightarrow> BackupTarget list \<Rightarrow> disk \<Rightarrow> string list \<times> string list \<times> disk" where
  "upload_all env src keep [] d = ([], [], d)"
| "upload_all env src keep (t # ts) d =
     (case uploadOne env src t keep d of
        (Some e, d1) \<Rightarrow> (case upload_all env src keep ts d1 of
            (ok, bad, d') \<Rightarrow> (ok, (btName t @ '': '' @ e) # bad, d'))
      | (None, d1) \<Rightarrow> (case upload_all env src keep ts d1 of (ok, bad, d') \<Rightarrow> (btName t # ok, bad, d')))"

definition push_history :: "BackupHistory \<Rightarrow> BackupHistory list \<Rightarrow> BackupHistory list" where
  "push_history e h =
     (let hist = h @ [e] in
      if length hist > MaxBackupHistory then drop (length hist - MaxBackupHistory) hist else hist)"

definition recordHistory :: "bkenv \<Rightarrow> historyEntry \<Rightarrow> store \<Rightarrow> store" where
  "recordHistory env entry st =
     (let cfgEntry = \<lparr>bhStartedAt = heStartedAt entry, bhCompletedAt = heCompletedAt entry,
            bhBytes = heBytes entry, bhTargets = heTargets entry, bhStatus = heStatus entry,
            bhMessage = heMessage entry\<rparr>;
          b = cfgBackup (cfg st);
          b' = b\<lparr>bcHistory := push_history cfgEntry (bcHistory b), bcLastRun := heStartedAt entry,
                 bcLastStatus := heStatus entry, bcLastError := heMessage entry\<rparr>
      in snd (SaveToFile (bk_os env) (st\<lparr>cfg := (cfg st)\<lparr>cfgBackup := b'\<rparr>\<rparr>)))"

definition run_status :: "string list \<Rightarrow> string list \<Rightarrow> string" where
  "run_status ok bad = (if ok = [] then ''error'' else if bad \<noteq> [] then ''partial'' else ''ok'')"

definition archive_path :: "string \<Rightarrow> location \<Rightarrow> gotime \<Rightarrow> string" where
  "archive_path tempDir local started =
     path_Join tempDir (''lankeeper-backup-'' @ stamp local started @ ''.tar.gz.enc'')"

text \<open>\<open>started\<close> and \<open>completed\<close> are the two readings of the clock, \<open>tempDir\<close> is \<open>os.TempDir()\<close>.\<close>

definition runOnce ::
    "bkenv \<Rightarrow> string \<Rightarrow> location \<Rightarrow> string \<Rightarrow> gotime \<Rightarrow> gotime \<Rightarrow> store \<Rightarrow> error option \<times> store" where
  "runOnce env configDir local tempDir started completed st =
     (let bcfg = cfgBackup (cfg st) in
      if bcPassphrase bcfg = [] then (Some ''backup passphrase not configured'', st)
      else if bcTargets bcfg = [] then (Some ''no backup targets configured'', st)
      else
        (let retention = (if bcRetention bcfg < 1 then 7 else bcRetention bcfg);
             tmpPath = archive_path tempDir local started
         in case Export env local started tmpPath (bcPassphrase bcfg) (disk st) of
              (Some e, d1) \<Rightarrow>
                (let st1 = recordHistory env \<lparr>heStartedAt = started, heCompletedAt = completed, heBytes = 0,
                             heTargets = [], heStatus = ''error'', heMessage = ''export: '' @ e\<rparr> (st\<lparr>disk := d1\<rparr>)
                 in (Some (''export: '' @ e), st1\<lparr>disk := bk_remove env tmpPath (disk st1)\<rparr>))
            | (None, d1) \<Rightarrow> (case (bk_err env (BkStat tmpPath), d1 tmpPath) of
                (Some e, _) \<Rightarrow> (Some (''stat archive: '' @ e), st\<lparr>disk := bk_remove env tmpPath d1\<rparr>)
              | (None, None) \<Rightarrow> (Some ''stat archive: no such file or directory'', st\<lparr>disk := bk_remove env tmpPath d1\<rparr>)
              | (None, Some archive) \<Rightarrow>
                (case upload_all env tmpPath retention (bcTargets bcfg) d1 of
                   (ok, bad, d2) \<Rightarrow>
                     (let status = run_status ok bad;
                          message = Join bad ''; '';
                          st1 = recordHistory env \<lparr>heStartedAt = started, heCompletedAt = completed,
                             heBytes = int (length archive), heTargets = ok, heStatus = status,
                             heMessage = message\<rparr> (st\<lparr>disk := d2\<rparr>);
                          st2 = st1\<lparr>disk := bk_remove env tmpPath (disk st1)\<rparr>
                      in if status = ''error'' then (Some (''all targets failed: '' @ message), st2)
                         else (None, st2))))))"

text \<open>The scheduler's view; \<open>LoadLocation\<close> is the argument \<open>zone\<close>.\<close>

definition SnapshotProvider :: "(string \<Rightarrow> location option) \<Rightarrow> location \<Rightarrow> Config \<Rightarrow> backupSnapshot" where
  "SnapshotProvider zone local c =
     (let tz = sysTimezone (cfgSystem c);
          loc = (if tz \<noteq> [] then (case zone tz of Some l \<Rightarrow> l | None \<Rightarrow> local) else local)
      in \<lparr>snEnabled = bcEnabled (cfgBackup c), snSchedule = bcSchedule (cfgBackup c),
          snLocation = Some loc, snLastRun = bcLastRun (cfgBackup c)\<rparr>)"

section \<open>Archive members\<close>

text \<open>A cleaned absolute path at or below a directory.\<close>

definition inside :: "string \<Rightarrow> string \<Rightarrow> bool" where
  "inside dir p \<longleftrightarrow> IsAbs p \<and> Clean p = p \<and> prefix (path_comps dir) (path_comps p)"

lemma inside_path_Join:
  assumes "IsAbs dir" and "\<not> Contains b ''..''"
  shows "inside dir (path_Join dir b)"
proof -
  have "c \<noteq> ''..''" if "c \<in> set (Split b slash)" for c
    using Split_part [OF that] assms(2) Contains_mid by blast
  then have "path_comps (path_Join dir b) = path_comps dir @ filter plain_comp (Split b slash)"
    using assms(1) by (intro path_comps_path_Join) blast+
  with IsAbs_path_Join [OF assms(1), of b] show ?thesis
    by (simp add: inside_def Clean_path_Join)
qed

lemma bk_write_other: "p \<noteq> path \<Longrightarrow> snd (bk_write env path data d) p = d p"
  by (simp add: bk_write_def split: option.split)

lemma import_member_confined:
  assumes "IsAbs root" and "snd (import_member env root m d) p \<noteq> d p"
  shows "inside root p"
proof -
  let ?target = "path_Join root (Clean (tmName m))"
  have "\<not> Contains (Clean (tmName m)) ''..''" using assms(2) by (auto simp: import_member_def Let_def)
  with assms(1) have "inside root ?target" by (rule inside_path_Join)
  moreover have "p = ?target"
  proof (rule ccontr)
    assume "p \<noteq> ?target"
    then have "snd (bk_write env ?target x d) p = d p" for x by (rule bk_write_other)
    then have "snd (import_member env root m d) p = d p"
      unfolding import_member_def Let_def
      by (auto split: tar_type.splits option.splits sum.splits prod.splits) (metis snd_conv)+
    with assms(2) show False by simp
  qed
  ultimately show ?thesis by simp
qed

lemma import_members_confined:
  "IsAbs root \<Longrightarrow> snd (import_members env root ms fin d) p \<noteq> d p \<Longrightarrow> inside root p"
proof (induction ms arbitrary: d)
  case Nil
  then show ?case by (cases fin) simp_all
next
  case (Cons m ms)
  obtain e d1 where m: "import_member env root m d = (e, d1)" by force
  show ?case
  proof (cases "d1 p = d p")
    case True
    with Cons.prems m Cons.IH [of d1] show ?thesis by (cases e) simp_all
  next
    case False
    with import_member_confined [OF Cons.prems(1), of env m d p] m show ?thesis by simp
  qed
qed

section \<open>The local target\<close>

definition root_comps :: "string list" where
  "root_comps = [''var'', ''lib'', ''lankeeper'', ''backups'']"

lemma root_text: "LocalBackupRoot = slash # Join root_comps ''/'' @ ''/''"
  by code_simp

lemma root_plain: "root_comps \<noteq> []" "\<forall>r \<in> set root_comps. plain_comp r"
  by code_simp+

lemma root_suffix: "HasSuffix LocalBackupRoot ''/''"
  by code_simp

lemma HasPrefix_snoc: "HasPrefix (s @ [c]) p \<longleftrightarrow> HasPrefix s p \<or> p = s @ [c]"
  by (auto simp: HasPrefix_iff) (metis append_butlast_last_id append_eq_append_conv2 append_is_Nil_conv butlast_append butlast_snoc self_append_conv)

lemma validateLocalPath_inside:
  assumes "validateLocalPath spec = Inr p"
  shows "inside (slash # Join root_comps ''/'') p"
proof (cases "spec = []")
  case True
  have "inside (slash # Join root_comps ''/'') (TrimSuffix LocalBackupRoot ''/'')" by code_simp
  with assms True root_suffix show ?thesis by (simp add: validateLocalPath_def Let_def)
next
  case False
  let ?c = "Clean spec"
  from assms False root_suffix have p: "p = ?c" "IsAbs ?c" and
    pre: "HasPrefix (if HasSuffix ?c ''/'' then ?c else ?c @ ''/'') LocalBackupRoot"
    by (auto simp: validateLocalPath_def Let_def split: if_splits)
  have abs: "IsAbs spec" using p by (simp add: IsAbs_Clean)
  from pre consider "HasPrefix ?c LocalBackupRoot" | "LocalBackupRoot = ?c @ ''/''"
    by (auto simp: HasPrefix_snoc split: if_splits)
  then have "prefix root_comps (path_comps spec)"
  proof cases
    case 1
    then show ?thesis using HasPrefix_dir_iff [OF abs root_plain] by (simp add: root_text)
  next
    case 2
    then have "?c = slash # Join root_comps ''/''" by (simp add: root_text)
    then have "path_comps spec = root_comps"
      using path_comps_rooted [OF root_plain(2)] path_comps_Clean [OF abs] by simp
    then show ?thesis by simp
  qed
  with p abs show ?thesis
    by (simp add: inside_def Clean_idem path_comps_Clean path_comps_rooted [OF root_plain(2)])
qed

lemma tmp_not_final: "final @ ''.tmp'' \<noteq> final"
  by simp

definition uploaded_at :: "string \<Rightarrow> string \<Rightarrow> string" where
  "uploaded_at dir src = path_Join dir (path_Base src)"

text \<open>
  The disks of an upload: all of them agree with the first outside the temporary and the final
  name, and at the final name each holds the old content or the whole archive.
\<close>

definition upload_trace :: "string \<Rightarrow> string \<Rightarrow> disk \<Rightarrow> disk \<Rightarrow> bool" where
  "upload_trace final data d d' \<longleftrightarrow>
     (d' final = d final \<or> d' final = Some data) \<and> (\<forall>p. p \<noteq> final \<and> p \<noteq> final @ ''.tmp'' \<longrightarrow> d' p = d p)"

lemma upload_trace_tmp: "upload_trace final data d (d(final @ ''.tmp'' := x))"
  by (simp add: upload_trace_def)

lemma upload_trace_remove: "upload_trace final data d (bk_remove env (final @ ''.tmp'') (d(final @ ''.tmp'' := x)))"
  by (simp add: upload_trace_def bk_remove_def)

lemma copy_and_rename_trace:
  assumes "copy_and_rename env final data d = (r, ds)"
  shows "ds \<noteq> []" and "\<forall>d' \<in> set ds. upload_trace final data d d'"
    and "r = Inr final \<and> last ds final = Some data \<or> (\<exists>e. r = Inl e) \<and> last ds final = d final"
proof -
  let ?tmp = "final @ ''.tmp''"
  let ?d1 = "d(?tmp \<mapsto> [])" and ?d2 = "d(?tmp \<mapsto> data)"
  consider (early) e where "(r, ds) = (Inl e, [d])"
    | (failed) e x where "(r, ds) = (Inl e, [d, ?d1, d(?tmp \<mapsto> x), bk_remove env ?tmp (d(?tmp \<mapsto> x))])"
    | (placed) "(r, ds) = (Inr final, [d, ?d1, ?d2, (?d2(?tmp := None))(final \<mapsto> data)])"
    using assms [symmetric] unfolding copy_and_rename_def Let_def fun_upd_upd
    by (cases "bk_err env (BkCreate ?tmp)"; cases "bk_err env (BkCopy ?tmp)"; cases "bk_err env (BkSync ?tmp)";
        cases "bk_err env (BkClose ?tmp)"; cases "bk_err env (BkRename ?tmp final)"; simp only: option.case; blast)
  note cs = this
  show "ds \<noteq> []" using cs by cases auto
  show "\<forall>d' \<in> set ds. upload_trace final data d d'"
    using cs by cases (auto simp: upload_trace_def bk_remove_def)
  show "r = Inr final \<and> last ds final = Some data \<or> (\<exists>e. r = Inl e) \<and> last ds final = d final"
    using cs by cases (auto simp: bk_remove_def)
qed

lemma uploadLocal_cases:
  assumes "uploadLocal env src t d = (r, ds)"
  obtains e where "r = Inl e" and "ds = [d]"
  | dir data where "validateLocalPath (btPath t) = Inr dir" and "d src = Some data"
      and "copy_and_rename env (uploaded_at dir src) data d = (r, ds)"
proof (cases "validateLocalPath (btPath t)")
  case (Inl e)
  with assms have "r = Inl e" "ds = [d]" by (simp_all add: uploadLocal_def)
  then show thesis by (rule that(1))
next
  case (Inr dir)
  with assms that show thesis
    by (auto simp: uploadLocal_def uploaded_at_def Let_def split: option.splits)
qed

section \<open>Retention\<close>

lemma remove_files_spec:
  "remove_files env fs d = (del, eo, d') \<Longrightarrow>
     del = map fst (take (length del) fs) \<and> (\<forall>p. d' p = (if p \<in> set del then None else d p)) \<and> (eo = None \<longrightarrow> del = map fst fs)"
proof (induction fs arbitrary: d del eo d')
  case Nil
  then show ?case by simp
next
  case (Cons f fs)
  show ?case
  proof (cases "bk_err env (BkRemove (fst f))")
    case (Some e)
    with Cons.prems show ?thesis by auto
  next
    case None
    obtain del1 eo1 d1 where rec: "remove_files env fs (d(fst f := None)) = (del1, eo1, d1)"
      by (metis prod_cases3)
    with Cons.IH [OF rec] Cons.prems None rec show ?thesis by auto
  qed
qed

lemma remove_files_succeeds:
  "(\<And>p. bk_err env (BkRemove p) = None) \<Longrightarrow> fst (snd (remove_files env fs d)) = None"
  by (induction fs arbitrary: d) (auto split: prod.splits, metis fst_conv snd_conv)

section \<open>The run\<close>

interpretation history: bounded_log push_history MaxBackupHistory
  by unfold_locales (auto simp: push_history_def MaxBackupHistory_def Let_def)

text \<open>What each target of a run answers, in order.\<close>

fun attempts :: "bkenv \<Rightarrow> string \<Rightarrow> goint \<Rightarrow> BackupTarget list \<Rightarrow> disk \<Rightarrow> (BackupTarget \<times> error option) list" where
  "attempts env src keep [] d = []"
| "attempts env src keep (t # ts) d =
     (t, fst (uploadOne env src t keep d)) # attempts env src keep ts (snd (uploadOne env src t keep d))"

lemma map_fst_attempts: "map fst (attempts env src keep ts d) = ts"
  by (induction ts arbitrary: d) simp_all

lemma upload_all_attempts:
  "upload_all env src keep ts d = (ok, bad, d') \<Longrightarrow>
     ok = map (\<lambda>(t, r). btName t) (filter (\<lambda>(t, r). r = None) (attempts env src keep ts d)) \<and>
     bad = map (\<lambda>(t, r). btName t @ '': '' @ the r) (filter (\<lambda>(t, r). r \<noteq> None) (attempts env src keep ts d))"
proof (induction ts arbitrary: d ok bad d')
  case Nil
  then show ?case by simp
next
  case (Cons t ts)
  obtain e d1 where u: "uploadOne env src t keep d = (e, d1)" by force
  obtain ok1 bad1 d2 where rest: "upload_all env src keep ts d1 = (ok1, bad1, d2)" by (metis prod_cases3)
  from Cons.IH [OF rest] Cons.prems u rest show ?case by (cases e) auto
qed

lemma recordHistory_cfg:
  "cfg (recordHistory env entry st) = (let b = cfgBackup (cfg st) in (cfg st)\<lparr>cfgBackup :=
     b\<lparr>bcHistory := push_history \<lparr>bhStartedAt = heStartedAt entry, bhCompletedAt = heCompletedAt entry,
            bhBytes = heBytes entry, bhTargets = heTargets entry, bhStatus = heStatus entry,
            bhMessage = heMessage entry\<rparr> (bcHistory b),
       bcLastRun := heStartedAt entry, bcLastStatus := heStatus entry, bcLastError := heMessage entry\<rparr>\<rparr>)"
  by (simp add: recordHistory_def Let_def store_simps)

section \<open>Properties\<close>

text \<open>
  C10. Restoring an archive cannot write outside the configuration directory, whatever the names of
  its members: apart from the archive itself (decrypted in place) every file that \<open>Import\<close> changes
  is a cleaned path at or below \<open>configDir\<close>, also when it stops with an error.
\<close>

theorem Import_confined:
  assumes "IsAbs configDir" and "snd (Import env configDir archivePath passphrase d) p \<noteq> d p"
  shows "p = archivePath \<or> inside configDir p"
proof (rule ccontr)
  assume "\<not> ?thesis"
  then have out: "p \<noteq> archivePath" "\<not> inside configDir p" by auto
  have w: "snd (bk_write env archivePath x d) p = d p" for x using out(1) by (rule bk_write_other)
  have m: "snd (import_members env configDir ms fin d1) p = d1 p" for ms fin d1
    using import_members_confined [OF assms(1)] out(2) by blast
  have "snd (Import env configDir archivePath passphrase d) p = d p"
    using w m unfolding Import_def Let_def
    by (auto split: sum.splits option.splits prod.splits) (metis snd_conv)+
  with assms(2) show False by simp
qed

definition demo_crypto :: cryptoenv where
  "demo_crypto = \<lparr>rand_salt = Inr (replicate 16 (CHR ''s'')), rand_nonce = Inr (replicate 12 (CHR ''n'')),
     scrypt_Key = \<lambda>p s. Inr (p @ s), aes_err = \<lambda>_. None, gcm_err = \<lambda>_. None,
     gcm_Seal = \<lambda>k n p. rev p, gcm_Open = \<lambda>k n c. Inr (rev c)\<rparr>"

definition demo_member :: tar_member where
  "demo_member = \<lparr>tmName = ''router.yaml'', tmType = TypeReg, tmData = Inr ''data''\<rparr>"

definition demo_bk :: bkenv where
  "demo_bk = \<lparr>bk_err = \<lambda>_. None, bk_short = length, bk_tar = \<lambda>_. (None, Some ''tar''),
     bk_untar = \<lambda>_. Inr ([demo_member], None),
     bk_readDir = \<lambda>_ _. Inr [\<lparr>deName = ''lankeeper-backup-1'', deIsDir = False, deModTime = Some 1\<rparr>,
                          \<lparr>deName = ''lankeeper-backup-2'', deIsDir = False, deModTime = Some 2\<rparr>],
     bk_sort = sort_key (\<lambda>f. - snd f), bk_remote = \<lambda>_ _. None, bk_crypto = demo_crypto, bk_os = quiet_env DefaultConfig\<rparr>"

lemmas demo_bk_simps = demo_bk_def demo_crypto_def demo_member_def bk_read_def bk_write_def bk_remove_def

lemma demo_target: "path_Join ''/etc/lankeeper'' (Clean ''router.yaml'') = ''/etc/lankeeper/router.yaml''"
  "\<not> Contains (Clean ''router.yaml'') ''..''" "\<not> IsAbs (Clean ''router.yaml'')"
  "HasPrefix ''/etc/lankeeper/router.yaml'' (''/etc/lankeeper'' @ ''/'')" "IsAbs ''/etc/lankeeper''"
  by code_simp+

theorem Import_confined_witness:
  "''/etc/lankeeper/router.yaml'' = ''/tmp/a'' \<or> inside ''/etc/lankeeper'' ''/etc/lankeeper/router.yaml''"
  by (rule Import_confined [OF demo_target(5), of demo_bk "''/tmp/a''" "[]" "[''/tmp/a'' \<mapsto> ''x'']"])
    (simp add: Import_def import_member_def demo_bk_simps demo_target Let_def HasPrefix_def)

text \<open>
  C11. Decryption inverts encryption under the same passphrase, given an authenticated cipher that
  opens what it sealed and random salts and nonces of the sizes that were asked for.
\<close>

theorem decrypt_encrypt:
  assumes "encryptBackup ce p pass = Inr c"
    and "\<forall>k n x. gcm_Open ce k n (gcm_Seal ce k n x) = Inr x"
    and "\<forall>s. rand_salt ce = Inr s \<longrightarrow> length s = saltLen"
    and "\<forall>n. rand_nonce ce = Inr n \<longrightarrow> length n = gcm_NonceSize"
  shows "decryptBackup ce c pass = Inr p"
proof -
  from assms(1) obtain salt key nonce where s: "rand_salt ce = Inr salt"
    and k: "open_gcm ce pass salt = Inr key" and n: "rand_nonce ce = Inr nonce"
    and c: "c = salt @ nonce @ gcm_Seal ce key nonce p"
    by (auto simp: encryptBackup_def split: sum.splits)
  have len: "length salt = 16" "length nonce = 12"
    using assms(3,4) s n by (simp_all add: saltLen_def gcm_NonceSize_def)
  then have "take 16 c = salt" "take 12 (drop 16 c) = nonce" "drop 28 c = gcm_Seal ce key nonce p"
    "\<not> length c < 28"
    by (simp_all add: c)
  with k assms(2) show ?thesis by (simp add: decryptBackup_def saltLen_def gcm_NonceSize_def Let_def)
qed

theorem decrypt_encrypt_witness:
  "decryptBackup demo_crypto (replicate 16 (CHR ''s'') @ replicate 12 (CHR ''n'') @ ''cba'') ''pw'' = Inr ''abc''"
  by (rule decrypt_encrypt)
    (simp_all add: encryptBackup_def open_gcm_def deriveKey_def demo_crypto_def saltLen_def gcm_NonceSize_def)

text \<open>
  C12. A local upload stays under the backup root and survives a crash at any point: every disk it
  passes through holds at the backup's final name the old content or the whole archive, differs
  from the first disk nowhere else but at the temporary name, and the outcome tells whether the
  archive was placed.
\<close>

theorem uploadLocal_crash_safe:
  assumes "uploadLocal env src t d = (r, ds)" and "d src = Some data"
  shows "(\<exists>e. r = Inl e) \<and> ds = [d] \<or>
    (\<exists>dir. inside (slash # Join root_comps ''/'') dir \<and>
      (\<forall>d' \<in> set ds. upload_trace (uploaded_at dir src) data d d') \<and>
      (r = Inr (uploaded_at dir src) \<and> last ds (uploaded_at dir src) = Some data \<or>
       (\<exists>e. r = Inl e) \<and> last ds (uploaded_at dir src) = d (uploaded_at dir src)))"
  using assms(1)
proof (cases rule: uploadLocal_cases)
  case (1 e)
  then show ?thesis by simp
next
  case (2 dir data')
  with assms(2) have c: "copy_and_rename env (uploaded_at dir src) data d = (r, ds)" by simp
  from validateLocalPath_inside [OF 2(1)] copy_and_rename_trace(2,3) [OF c] show ?thesis by blast
qed

theorem uploadLocal_crash_safe_witness:
  "\<exists>ds. (\<exists>e. (Inr (uploaded_at ''/var/lib/lankeeper/backups'' ''/tmp/b'') :: error + string) = Inl e) \<and>
      ds = [[''/tmp/b'' \<mapsto> ''x'']] \<or>
    (\<exists>dir. inside (slash # Join root_comps ''/'') dir \<and>
      (\<forall>d' \<in> set ds. upload_trace (uploaded_at dir ''/tmp/b'') ''x'' [''/tmp/b'' \<mapsto> ''x''] d') \<and>
      ((Inr (uploaded_at ''/var/lib/lankeeper/backups'' ''/tmp/b'') :: error + string)
         = Inr (uploaded_at dir ''/tmp/b'') \<and> last ds (uploaded_at dir ''/tmp/b'') = Some ''x'' \<or>
       (\<exists>e. (Inr (uploaded_at ''/var/lib/lankeeper/backups'' ''/tmp/b'') :: error + string) = Inl e) \<and>
         last ds (uploaded_at dir ''/tmp/b'') = [''/tmp/b'' \<mapsto> ''x''] (uploaded_at dir ''/tmp/b'')))"
proof -
  have v: "validateLocalPath [] = Inr ''/var/lib/lankeeper/backups''" by code_simp
  obtain ds where "uploadLocal demo_bk ''/tmp/b'' zero_BackupTarget [''/tmp/b'' \<mapsto> ''x''] =
      (Inr (uploaded_at ''/var/lib/lankeeper/backups'' ''/tmp/b''), ds)"
    by (simp add: uploadLocal_def copy_and_rename_def zero_defs v demo_bk_def uploaded_at_def Let_def)
  from uploadLocal_crash_safe [OF this, of "''x''"] show ?thesis by (intro exI [of _ ds]) simp
qed

text \<open>
  Retention keeps the newest backups: when the clean-up of a local target reports no error, the
  backup files of the directory split into at most \<open>keep\<close> kept ones and the deleted rest, none of
  the deleted files is newer than a kept one, there are \<open>keep\<close> kept ones if anything was deleted,
  and no other file is touched.
\<close>

theorem cleanupLocal_keeps_newest:
  assumes "cleanupLocal env t keep d = (del, None, d')"
    and "validateLocalPath (btPath t) = Inr dir" and "bk_readDir env dir d = Inr entries"
    and "sorts_by (\<lambda>x y. snd x > snd y) (bk_sort env)"
  shows "\<exists>kept gone. mset (backup_files dir entries) = mset kept + mset gone \<and> del = map fst gone \<and>
    int (length kept) \<le> keep \<and> (gone \<noteq> [] \<longrightarrow> int (length kept) = keep) \<and>
    (\<forall>x \<in> set kept. \<forall>y \<in> set gone. snd y \<le> snd x) \<and>
    (\<forall>p. d' p = (if p \<in> set del then None else d p))"
proof -
  let ?fs = "backup_files dir entries"
  let ?srt = "bk_sort env ?fs"
  have keep: "1 \<le> keep" and run: "remove_files env (drop (nat keep) ?srt) d = (del, None, d')"
    using assms(1-3) by (auto simp: cleanupLocal_def split: if_splits)
  note spec = remove_files_spec [OF run]
  have "mset ?fs = mset (take (nat keep) ?srt) + mset (drop (nat keep) ?srt)"
    using assms(4) by (metis append_take_drop_id mset_append sorts_by_def)
  moreover have "\<forall>x \<in> set (take (nat keep) ?srt). \<forall>y \<in> set (drop (nat keep) ?srt). snd y \<le> snd x"
    using sorts_by_split [OF assms(4)] by (meson not_less)
  moreover have "int (length (take (nat keep) ?srt)) \<le> keep"
      "drop (nat keep) ?srt \<noteq> [] \<longrightarrow> int (length (take (nat keep) ?srt)) = keep"
    using keep by auto
  moreover have "del = map fst (drop (nat keep) ?srt)" using spec by simp
  ultimately show ?thesis using spec by blast
qed

lemma demo_sort: "sorts_by (\<lambda>x y. snd x > snd y) (bk_sort demo_bk)"
  using sort_key_sorts_by [of "\<lambda>f :: string \<times> gotime. - snd f"] by (simp add: demo_bk_def)

theorem cleanupLocal_keeps_newest_witness:
  "\<exists>del d' (kept :: (string \<times> gotime) list) gone. cleanupLocal demo_bk zero_BackupTarget 1 Map.empty = (del, None, d') \<and>
    del = map fst gone \<and> gone \<noteq> [] \<and> int (length kept) = 1 \<and> (\<forall>x \<in> set kept. \<forall>y \<in> set gone. snd y \<le> snd x)"
proof -
  let ?dir = "''/var/lib/lankeeper/backups''"
  have v: "validateLocalPath (btPath zero_BackupTarget) = Inr ?dir" unfolding zero_defs by code_simp
  obtain entries where e: "bk_readDir demo_bk ?dir Map.empty = Inr entries" by (simp add: demo_bk_def)
  have two: "length (backup_files ?dir entries) = 2"
    using e by (auto simp: demo_bk_def backup_files_def HasPrefix_def HasSuffix_def)
  obtain del eo d' where c: "cleanupLocal demo_bk zero_BackupTarget 1 Map.empty = (del, eo, d')"
    by (metis prod_cases3)
  have quiet: "\<And>p. bk_err demo_bk (BkRemove p) = None" by (simp add: demo_bk_def)
  have eq: "cleanupLocal demo_bk zero_BackupTarget 1 Map.empty =
      remove_files demo_bk (drop 1 (bk_sort demo_bk (backup_files ?dir entries))) Map.empty"
    using v e by (simp add: cleanupLocal_def)
  have "fst (snd (cleanupLocal demo_bk zero_BackupTarget 1 Map.empty)) = None"
    unfolding eq by (rule remove_files_succeeds [OF quiet])
  with c have "eo = None" by simp
  with c have c': "cleanupLocal demo_bk zero_BackupTarget 1 Map.empty = (del, None, d')" by simp
  from cleanupLocal_keeps_newest [OF c' v e demo_sort] obtain kept gone where
    k: "mset (backup_files ?dir entries) = mset kept + mset gone" "del = map fst gone" "int (length kept) \<le> 1"
      "gone \<noteq> [] \<longrightarrow> int (length kept) = 1" "\<forall>x \<in> set kept. \<forall>y \<in> set gone. snd y \<le> snd x" by blast
  have "length kept + length gone = 2" using arg_cong [OF k(1), of size] two by simp
  then have "gone \<noteq> []" using k(3) by auto
  with k(2,4,5) c' show ?thesis by blast
qed

text \<open>
  A run tries every configured target exactly once and in order, whatever the others answer. Its
  history entry names the targets that took the archive, says \<open>ok\<close> when all did, \<open>error\<close> when none
  did and \<open>partial\<close> otherwise; the run itself reports an error only when no target took the archive;
  and the history keeps at most fifty entries, the newest last.
\<close>

theorem runOnce_reports:
  assumes "bcPassphrase (cfgBackup (cfg st)) \<noteq> []" and "bcTargets (cfgBackup (cfg st)) \<noteq> []"
    and "tmpPath = archive_path tempDir local started"
    and "Export env local started tmpPath (bcPassphrase (cfgBackup (cfg st))) (disk st) = (None, d1)"
    and "bk_err env (BkStat tmpPath) = None" and "d1 tmpPath = Some archive"
    and "length (bcHistory (cfgBackup (cfg st))) \<le> MaxBackupHistory"
    and "keep = (if bcRetention (cfgBackup (cfg st)) < 1 then 7 else bcRetention (cfgBackup (cfg st)))"
    and "tried = attempts env tmpPath keep (bcTargets (cfgBackup (cfg st))) d1"
    and "runOnce env configDir local tempDir started completed st = (r, st')"
    and "h = bcHistory (cfgBackup (cfg st'))"
  shows "map fst tried = bcTargets (cfgBackup (cfg st)) \<and>
    (r = None \<longleftrightarrow> (\<exists>t. (t, None) \<in> set tried)) \<and>
    h \<noteq> [] \<and> length h \<le> MaxBackupHistory \<and>
    bhTargets (last h) = map (btName \<circ> fst) (filter (\<lambda>a. snd a = None) tried) \<and>
    bhBytes (last h) = int (length archive) \<and>
    bhStatus (last h) = (if \<forall>a \<in> set tried. snd a = None then ''ok''
       else if \<exists>a \<in> set tried. snd a = None then ''partial'' else ''error'')"
proof -
  let ?b = "cfgBackup (cfg st)"
  obtain ok bad d2 where u: "upload_all env tmpPath keep (bcTargets ?b) d1 = (ok, bad, d2)" by (metis prod_cases3)
  note ua = upload_all_attempts [OF u, folded assms(9)]
  have ts: "map fst tried = bcTargets ?b" unfolding assms(9) by (rule map_fst_attempts)
  then have "tried \<noteq> []" using assms(2) by auto
  have ok: "ok = map (btName \<circ> fst) (filter (\<lambda>a. snd a = None) tried)"
    using ua by (simp add: case_prod_beta' comp_def)
  have ok_iff: "ok = [] \<longleftrightarrow> \<not> (\<exists>a \<in> set tried. snd a = None)" unfolding ok by (auto simp: filter_empty_conv)
  have bad_iff: "bad = [] \<longleftrightarrow> (\<forall>a \<in> set tried. snd a = None)"
    using ua by (auto simp: filter_empty_conv)
  have status: "run_status ok bad = (if \<forall>a \<in> set tried. snd a = None then ''ok''
       else if \<exists>a \<in> set tried. snd a = None then ''partial'' else ''error'')"
  proof -
    have "\<not> (ok = [] \<and> bad = [])" using ok_iff bad_iff last_in_set [OF \<open>tried \<noteq> []\<close>] by blast
    moreover have "(\<exists>a \<in> set tried. snd a = None) \<longleftrightarrow> ok \<noteq> []" using ok_iff by blast
    ultimately show ?thesis unfolding run_status_def bad_iff [symmetric] by auto
  qed
  define e where "e = \<lparr>bhStartedAt = started, bhCompletedAt = completed, bhBytes = int (length archive),
    bhTargets = ok, bhStatus = run_status ok bad, bhMessage = Join bad ''; ''\<rparr>"
  have run: "(r = None \<longleftrightarrow> run_status ok bad \<noteq> ''error'') \<and> h = push_history e (bcHistory ?b)"
    using assms(1,2,4-6,10,11) u unfolding runOnce_def e_def
    by (auto simp: Let_def assms(3,8) [symmetric] recordHistory_cfg split: if_splits)
  have h: "h \<noteq> []" "last h = e" "length h \<le> MaxBackupHistory"
    using run history.push_newest [OF assms(7)] history.push_bounded [OF assms(7)] by simp_all
  have "r = None \<longleftrightarrow> ok \<noteq> []" using run unfolding run_status_def by (auto split: if_splits)
  moreover have "(\<exists>t. (t, None) \<in> set tried) \<longleftrightarrow> (\<exists>a \<in> set tried. snd a = None)" by force
  ultimately show ?thesis using ts h ok ok_iff status by (simp add: e_def)
qed

definition demo_backup_store :: store where
  "demo_backup_store = \<lparr>cfg = zero_Config\<lparr>cfgBackup := zero_BackupConfig\<lparr>bcPassphrase := ''pw'',
     bcTargets := [zero_BackupTarget\<lparr>btType := ''s3'', btName := ''nas''\<rparr>]\<rparr>\<rparr>, disk = Map.empty\<rparr>"

theorem runOnce_reports_witness:
  "\<exists>r st'. runOnce demo_bk ''/etc/lankeeper'' (\<lambda>_. 0) ''/tmp'' 1 2 demo_backup_store = (r, st') \<and> r = None \<and>
     bhTargets (last (bcHistory (cfgBackup (cfg st')))) = [''nas'']"
proof -
  define tmp where "tmp = archive_path ''/tmp'' (\<lambda>_. 0) 1"
  let ?arch = "replicate 16 (CHR ''s'') @ replicate 12 (CHR ''n'') @ rev ''tar''"
  have e: "Export demo_bk (\<lambda>_. 0) 1 tmp ''pw'' Map.empty = (None, [tmp \<mapsto> ?arch])" if "tmp \<noteq> []"
    using that by (simp add: Export_def demo_bk_simps encryptBackup_def open_gcm_def deriveKey_def Let_def)
  have "IsAbs tmp" unfolding tmp_def archive_path_def by (rule IsAbs_path_Join) code_simp
  then have "tmp \<noteq> []" by auto
  obtain r st' where run: "runOnce demo_bk ''/etc/lankeeper'' (\<lambda>_. 0) ''/tmp'' 1 2 demo_backup_store = (r, st')"
    by force
  have "map fst (attempts demo_bk tmp 7 (bcTargets (cfgBackup (cfg demo_backup_store))) [tmp \<mapsto> ?arch]) = bcTargets (cfgBackup (cfg demo_backup_store)) \<and>
    (r = None \<longleftrightarrow> (\<exists>t. (t, None) \<in> set (attempts demo_bk tmp 7 (bcTargets (cfgBackup (cfg demo_backup_store))) [tmp \<mapsto> ?arch]))) \<and>
    bcHistory (cfgBackup (cfg st')) \<noteq> [] \<and> length (bcHistory (cfgBackup (cfg st'))) \<le> MaxBackupHistory \<and>
    bhTargets (last (bcHistory (cfgBackup (cfg st')))) = map (btName \<circ> fst) (filter (\<lambda>a. snd a = None)
      (attempts demo_bk tmp 7 (bcTargets (cfgBackup (cfg demo_backup_store))) [tmp \<mapsto> ?arch])) \<and>
    bhBytes (last (bcHistory (cfgBackup (cfg st')))) = int (length ?arch) \<and>
    bhStatus (last (bcHistory (cfgBackup (cfg st')))) =
      (if \<forall>a \<in> set (attempts demo_bk tmp 7 (bcTargets (cfgBackup (cfg demo_backup_store))) [tmp \<mapsto> ?arch]). snd a = None then ''ok''
       else if \<exists>a \<in> set (attempts demo_bk tmp 7 (bcTargets (cfgBackup (cfg demo_backup_store))) [tmp \<mapsto> ?arch]). snd a = None then ''partial'' else ''error'')"
    by (rule runOnce_reports [OF _ _ tmp_def _ _ _ _ _ refl run refl])
      (use e \<open>tmp \<noteq> []\<close> in \<open>simp_all add: demo_backup_store_def zero_defs demo_bk_def\<close>)
  with run show ?thesis by (simp add: demo_backup_store_def zero_defs uploadOne_def demo_bk_def)
qed

text \<open>
  A restored configuration lands in the wrong place. \<open>Export\<close> archives the configuration directory
  by its base name, so its members are called \<open>lankeeper/router.yaml\<close> and the like, and \<open>Import\<close>
  unpacks members below the configuration directory itself: restoring succeeds, writes
  \<open>/etc/lankeeper/lankeeper/router.yaml\<close> and leaves the live \<open>/etc/lankeeper/router.yaml\<close> as it was.
\<close>

theorem import_misses_live_config:
  "bk_err env = (\<lambda>_. None) \<and> bk_untar env = (\<lambda>_. Inr ([\<lparr>tmName = ''lankeeper/router.yaml'',
     tmType = TypeReg, tmData = Inr ''saved''\<rparr>], None)) \<Longrightarrow>
   Import env ''/etc/lankeeper'' ''/tmp/up'' [] [''/tmp/up'' \<mapsto> a, ''/etc/lankeeper/router.yaml'' \<mapsto> ''live''] =
     (None, [''/tmp/up'' \<mapsto> a, ''/etc/lankeeper/router.yaml'' \<mapsto> ''live'',
             ''/etc/lankeeper/lankeeper/router.yaml'' \<mapsto> ''saved''])"
proof -
  assume "bk_err env = (\<lambda>_. None) \<and> bk_untar env = (\<lambda>_. Inr ([\<lparr>tmName = ''lankeeper/router.yaml'',
     tmType = TypeReg, tmData = Inr ''saved''\<rparr>], None))"
  moreover have "path_Join ''/etc/lankeeper'' (Clean ''lankeeper/router.yaml'') = ''/etc/lankeeper/lankeeper/router.yaml''"
    "\<not> Contains (Clean ''lankeeper/router.yaml'') ''..''" "\<not> IsAbs (Clean ''lankeeper/router.yaml'')"
    by code_simp+
  ultimately show ?thesis
    by (simp add: Import_def import_member_def bk_read_def bk_write_def HasPrefix_def Let_def)
qed

theorem import_misses_live_config_witness:
  "\<exists>env. Import env ''/etc/lankeeper'' ''/tmp/up'' [] [''/tmp/up'' \<mapsto> ''z'', ''/etc/lankeeper/router.yaml'' \<mapsto> ''live''] =
     (None, [''/tmp/up'' \<mapsto> ''z'', ''/etc/lankeeper/router.yaml'' \<mapsto> ''live'',
             ''/etc/lankeeper/lankeeper/router.yaml'' \<mapsto> ''saved''])"
  by (rule exI, rule import_misses_live_config [of "demo_bk\<lparr>bk_untar := (\<lambda>_. Inr ([\<lparr>tmName = ''lankeeper/router.yaml'',
     tmType = TypeReg, tmData = Inr ''saved''\<rparr>], None))\<rparr>"]) (simp add: demo_bk_def)

end
