(* ===== verification/HandlerSteps.thy ===== *)
theory HandlerSteps
  imports Handlers
begin

text \<open>
  Invariants of handlers over any state. A handler step keeps an invariant when its actions do; the rules follow the
  combinators of theory \<open>Handlers\<close>, so that the proof for a handler is its syntax tree.
\<close>

section \<open>Answers with a trigger\<close>

text \<open>The way out of the form handlers that announce an event to the page instead of refreshing it.\<close>

definition trigger :: "string \<Rightarrow> string \<Rightarrow> request \<Rightarrow> response \<times> 's \<Rightarrow> response \<times> 's" where
  "trigger event page r = (\<lambda>(w, s).
     if hx_request r then (WriteHeader 200 (Header_Set ''HX-Trigger'' event w), s)
     else (http_Redirect page 303 w, s))"

section \<open>Actions on a part of the state\<close>

definition lift_err :: "('s \<Rightarrow> error option \<times> 's) \<Rightarrow> 's \<Rightarrow> (error + unit) \<times> 's" where
  "lift_err f s = (case f s of (None, s') \<Rightarrow> (Inr (), s') | (Some e, s') \<Rightarrow> (Inl e, s'))"

definition on_fst :: "('a \<Rightarrow> 'r \<times> 'a) \<Rightarrow> 'a \<times> 'b \<Rightarrow> 'r \<times> ('a \<times> 'b)" where
  "on_fst f = (\<lambda>(a, b). case f a of (r, a') \<Rightarrow> (r, (a', b)))"

definition on_snd :: "('b \<Rightarrow> 'r \<times> 'b) \<Rightarrow> 'a \<times> 'b \<Rightarrow> 'r \<times> ('a \<times> 'b)" where
  "on_snd f = (\<lambda>(a, b). case f b of (r, b') \<Rightarrow> (r, (a, b')))"

definition with_state :: "('s \<Rightarrow> response \<times> 's \<Rightarrow> response \<times> 's) \<Rightarrow> response \<times> 's \<Rightarrow> response \<times> 's" where
  "with_state k = (\<lambda>(w, s). k s (w, s))"

text \<open>An index in the path, answered with 400 when it is no number.\<close>

definition with_index :: "request \<Rightarrow> (goint \<Rightarrow> response \<times> 's \<Rightarrow> response \<times> 's) \<Rightarrow> response \<times> 's \<Rightarrow> response \<times> 's" where
  "with_index r k = (case Atoi (PathValue r ''index'') of None \<Rightarrow> refuse ''invalid index'' 400 | Some i \<Rightarrow> k i)"

section \<open>Invariants\<close>

definition inv_step :: "('s \<Rightarrow> bool) \<Rightarrow> (response \<times> 's \<Rightarrow> response \<times> 's) \<Rightarrow> bool" where
  "inv_step I f \<longleftrightarrow> (\<forall>w s. I s \<longrightarrow> I (snd (f (w, s))))"

definition inv_act :: "('s \<Rightarrow> bool) \<Rightarrow> ('s \<Rightarrow> 'r \<times> 's) \<Rightarrow> bool" where
  "inv_act I m \<longleftrightarrow> (\<forall>s. I s \<longrightarrow> I (snd (m s)))"

named_theorems inv_steps "handler steps that keep an invariant of their state"

lemma inv_step_refuse [inv_steps]: "inv_step I (refuse msg code)"
  and inv_step_finish [inv_steps]: "inv_step I (finish page r)"
  and inv_step_trigger [inv_steps]: "inv_step I (trigger event page r)"
  by (simp_all add: inv_step_def refuse_def finish_def trigger_def)

lemma inv_step_page [inv_steps]: "inv_step I (show_page pg page r d)"
  by (auto simp: inv_step_def show_page_def refuse_def split: prod.splits option.splits)

lemma inv_step_form [inv_steps]: "inv_step I k \<Longrightarrow> inv_step I (needs_form r k)"
  by (simp add: needs_form_def inv_step_refuse)

lemma inv_step_if [inv_steps]: "(b \<Longrightarrow> inv_step I f) \<Longrightarrow> (\<not> b \<Longrightarrow> inv_step I g) \<Longrightarrow> inv_step I (if b then f else g)"
  by simp

lemma inv_step_option [inv_steps]:
  "(x = None \<Longrightarrow> inv_step I f) \<Longrightarrow> (\<And>a. x = Some a \<Longrightarrow> inv_step I (g a)) \<Longrightarrow> inv_step I (case x of None \<Rightarrow> f | Some a \<Rightarrow> g a)"
  by (cases x) simp_all

lemma inv_step_sum [inv_steps]:
  "(\<And>e. x = Inl e \<Longrightarrow> inv_step I (f e)) \<Longrightarrow> (\<And>a. x = Inr a \<Longrightarrow> inv_step I (g a)) \<Longrightarrow> inv_step I (case x of Inl e \<Rightarrow> f e | Inr a \<Rightarrow> g a)"
  by (cases x) simp_all

lemma inv_step_index [inv_steps]: "(\<And>i. inv_step I (k i)) \<Longrightarrow> inv_step I (with_index r k)"
  unfolding with_index_def by (intro inv_steps)

lemma inv_step_state [inv_steps]: "(\<And>s. I s \<Longrightarrow> inv_step I (k s)) \<Longrightarrow> inv_step I (with_state k)"
  by (simp add: inv_step_def with_state_def)

lemma inv_step_action [inv_steps]:
  assumes "inv_act I act" "\<And>a. inv_step I (k a)"
  shows "inv_step I (do_action act fail k)"
  unfolding inv_step_def
proof (intro allI impI)
  fix w :: response and s
  assume I: "I s"
  obtain r s' where act: "act s = (r, s')" by fastforce
  then have "I s'" using assms(1) I by (auto simp: inv_act_def dest: spec [of _ s])
  then show "I (snd (do_action act fail k (w, s)))"
    using act assms(2) by (auto simp: do_action_def refuse_def inv_step_def split: sum.splits prod.splits)
qed

lemma inv_step_observe [inv_steps]:
  assumes "inv_act I act" "\<And>a. inv_step I (k a)"
  shows "inv_step I (observe act k)"
  unfolding inv_step_def
proof (intro allI impI)
  fix w :: response and s
  assume I: "I s"
  obtain r s' where act: "act s = (r, s')" by fastforce
  then have "I s'" using assms(1) I by (auto simp: inv_act_def dest: spec [of _ s])
  then show "I (snd (observe act k (w, s)))" using act assms(2) by (simp add: observe_def inv_step_def)
qed

lemma inv_act_lift_err [inv_steps]: "inv_act I f \<Longrightarrow> inv_act I (lift_err f)"
  unfolding inv_act_def lift_err_def by (auto split: prod.splits option.splits)

lemma inv_act_fst: "(\<And>a b. I (a, b) \<Longrightarrow> I (snd (f a), b)) \<Longrightarrow> inv_act I (on_fst f)"
  unfolding inv_act_def on_fst_def by (auto split: prod.splits) (metis snd_conv)

lemma inv_act_snd: "(\<And>a b. I (a, b) \<Longrightarrow> I (a, snd (f b))) \<Longrightarrow> inv_act I (on_snd f)"
  unfolding inv_act_def on_snd_def by (auto split: prod.splits) (metis snd_conv)

lemma run_requests_inv:
  assumes "\<forall>(h, r, w) \<in> set rs. inv_step I (h r)" "I s"
  shows "I (run_requests rs s)"
  using assms
proof (induction rs arbitrary: s)
  case (Cons x rs)
  obtain h r w where x: "x = (h, r, w)" by (cases x)
  then have "I (snd (h r (w, s)))" using Cons.prems by (auto simp: inv_step_def)
  then show ?case using Cons.IH [of "snd (h r (w, s))"] Cons.prems(1) x by (simp add: run_requests_def)
qed (simp add: run_requests_def)

text \<open>An invariant of the configuration in a world, for actions and for changes of the store.\<close>

lemma inv_act_store: "(\<And>st. I (cfg st) \<Longrightarrow> I (cfg (snd (f st)))) \<Longrightarrow> inv_act (\<lambda>wd. I (wcfg wd)) (on_store f)"
proof -
  assume f: "\<And>st. I (cfg st) \<Longrightarrow> I (cfg (snd (f st)))"
  have "I (wcfg (snd (on_store f wd)))" if "I (wcfg wd)" for wd
    using f [OF that] by (auto simp: on_store_def split: prod.splits option.splits)
  then show ?thesis by (simp add: inv_act_def)
qed

lemma inv_act_keeps_store: "keeps_store m \<Longrightarrow> inv_act (\<lambda>wd. I (wcfg wd)) m"
  by (simp add: inv_act_def keeps_storeD)

end
