(* ===== verification/HandlersFirewall.thy ===== *)
theory HandlersFirewall
  imports HandlerSteps Firewall ConfigWords
begin

text \<open>
  The firewall pages (\<^verbatim>\<open>internal/web/handlers/firewall.go\<close>) over the service of theory \<open>Firewall\<close>, and the lines that
  the template \<^verbatim>\<open>configs/sysconf/nftables.conf.tmpl\<close> makes of port forwards and isolated VLANs. The state is the
  configuration store and the life cycle of the applied rule set.
\<close>

section \<open>Handlers\<close>

type_synonym 'k fwapp = "store \<times> 'k fwstate"

record 'k fwenv =
  fweOS :: osenv
  fweNft :: "'k nftops"
  fweTmpl :: nftTemplate

record fwPage =
  fpOpenPorts :: "OpenPort list"
  fpPortForwards :: "PortForward list"
  fpRules :: "FirewallRule list"
  fpTTLFixEnabled :: bool
  fpTTLFixValue :: goint
  fpPendingChange :: bool

definition fw_HandlePage :: "fwPage pageenv \<Rightarrow> 'k fwapp hfun" where
  "fw_HandlePage pg r = with_state (\<lambda>(st, fs). show_page pg ''firewall'' r
     \<lparr>fpOpenPorts = GetOpenPorts st, fpPortForwards = fwPortForwards (cfgFirewall (cfg st)), fpRules = GetCustomRules st,
      fpTTLFixEnabled = ttlEnabled (fwTTLFix (cfgFirewall (cfg st))), fpTTLFixValue = ttlValue (fwTTLFix (cfgFirewall (cfg st))),
      fpPendingChange = HasPendingChange fs\<rparr>)"

text \<open>The service and the handlers share one configuration: the rule set is built from the store as it is now.\<close>

definition apply_now :: "'k fwenv \<Rightarrow> 'k fwapp \<Rightarrow> error option \<times> 'k fwapp" where
  "apply_now env = (\<lambda>(st, fs). case fw_Apply (fweNft env) (fweTmpl env) (fs\<lparr>fwcfg := cfg st\<rparr>) of (e, fs') \<Rightarrow> (e, (st, fs')))"

definition HandleApply :: "'k fwenv \<Rightarrow> 'k fwapp hfun" where
  "HandleApply env r = do_action (lift_err (apply_now env)) (err_text 500) (\<lambda>_. trigger ''firewallApplied'' ''/firewall'' r)"

definition HandleConfirm :: "'k fwapp hfun" where
  "HandleConfirm r = observe (on_snd (\<lambda>fs. ((), fw_Confirm fs))) (\<lambda>_. trigger ''firewallConfirmed'' ''/firewall'' r)"

definition HandleRollback :: "'k fwenv \<Rightarrow> 'k fwapp hfun" where
  "HandleRollback env r = do_action (lift_err (on_snd (fw_Rollback (fweNft env)))) (err_text 500)
     (\<lambda>_. trigger ''firewallRolledBack'' ''/firewall'' r)"

definition valid_port :: "request \<Rightarrow> string \<Rightarrow> goint option" where
  "valid_port r k = (case Atoi (rqForm r k) of Some p \<Rightarrow> if ValidatePort p = None then Some p else None | None \<Rightarrow> None)"

definition bad_source :: "string \<Rightarrow> bool" where
  "bad_source s \<longleftrightarrow> s \<noteq> [] \<and> ValidateCIDR s \<noteq> None \<and> ValidateIP s \<noteq> None"

definition save_failed :: "error \<Rightarrow> string \<times> nat" where
  "save_failed e = (''save failed'', 500)"

definition HandleAddPortForward :: "'k fwenv \<Rightarrow> 'k fwapp hfun" where
  "HandleAddPortForward env r = needs_form r
     (case valid_port r ''extPort'' of None \<Rightarrow> refuse ''invalid port'' 400 | Some extPort \<Rightarrow>
     (case valid_port r ''intPort'' of None \<Rightarrow> refuse ''invalid port'' 400 | Some intPort \<Rightarrow>
        if rqForm r ''protocol'' \<notin> {''tcp'', ''udp'', ''both''} then refuse ''invalid protocol'' 400
        else if ValidateIP (rqForm r ''intIP'') \<noteq> None then refuse ''invalid internal IP'' 400
        else do_action (lift_err (on_fst (AddPortForward (fweOS env)
            \<lparr>pfName = rqForm r ''name'', pfProtocol = rqForm r ''protocol'', pfExtPort = extPort, pfIntIP = rqForm r ''intIP'',
             pfIntPort = intPort, pfEnabled = True\<rparr>))) save_failed
          (\<lambda>_. trigger ''portForwardAdded'' ''/firewall'' r)))"

definition HandleDeletePortForward :: "'k fwenv \<Rightarrow> 'k fwapp hfun" where
  "HandleDeletePortForward env r = with_index r (\<lambda>i. do_action (lift_err (on_fst (RemovePortForward (fweOS env) i))) (err_text 400)
     (\<lambda>_. trigger ''portForwardDeleted'' ''/firewall'' r))"

definition rule_of :: "request \<Rightarrow> goint \<Rightarrow> FirewallRule" where
  "rule_of r port = \<lparr>frName = rqForm r ''name'', frChain = rqForm r ''chain'', frAction = rqForm r ''action'', frSrcIP = rqForm r ''srcIP'',
     frDstIP = rqForm r ''dstIP'', frProtocol = rqForm r ''protocol'', frPort = port, frInterface = rqForm r ''interface'',
     frDirection = rqForm r ''direction'', frEnabled = True, frPriority = 0\<rparr>"

definition HandleAddRule :: "'k fwenv \<Rightarrow> 'k fwapp hfun" where
  "HandleAddRule env r = needs_form r
     (case valid_port r ''port'' of None \<Rightarrow> refuse ''invalid port'' 400 | Some port \<Rightarrow>
        if rqForm r ''chain'' \<notin> {''input'', ''forward'', ''output''} then refuse ''invalid chain'' 400
        else if rqForm r ''action'' \<notin> {''accept'', ''drop'', ''reject''} then refuse ''invalid action'' 400
        else if rqForm r ''protocol'' \<notin> {[], ''tcp'', ''udp'', ''icmp''} then refuse ''invalid protocol'' 400
        else if rqForm r ''direction'' \<notin> {[], ''in'', ''out''} then refuse ''invalid direction'' 400
        else if bad_source (rqForm r ''srcIP'') then refuse ''invalid source IP/CIDR'' 400
        else if bad_source (rqForm r ''dstIP'') then refuse ''invalid destination IP/CIDR'' 400
        else do_action (lift_err (on_fst (AddRule (fweOS env) (rule_of r port)))) save_failed (\<lambda>_. finish ''/firewall'' r))"

definition HandleDeleteRule :: "'k fwenv \<Rightarrow> 'k fwapp hfun" where
  "HandleDeleteRule env r = with_index r (\<lambda>i. do_action (lift_err (on_fst (RemoveRule (fweOS env) i))) (err_text 400)
     (\<lambda>_. finish ''/firewall'' r))"

definition HandleToggleRule :: "'k fwenv \<Rightarrow> 'k fwapp hfun" where
  "HandleToggleRule env r = with_index r (\<lambda>i.
     do_action (lift_err (on_fst (ToggleRule (fweOS env) (i, rqForm r ''enabled'' = ''true'')))) (err_text 400) (\<lambda>_. finish ''/firewall'' r))"

definition HandleAddOpenPort :: "'k fwenv \<Rightarrow> 'k fwapp hfun" where
  "HandleAddOpenPort env r = needs_form r
     (case valid_port r ''port'' of None \<Rightarrow> refuse ''invalid port'' 400 | Some port \<Rightarrow>
        if rqForm r ''protocol'' \<notin> {''tcp'', ''udp'', ''both''} then refuse ''invalid protocol'' 400
        else if bad_source (rqForm r ''source'') then refuse ''invalid source IP/CIDR'' 400
        else do_action (lift_err (on_fst (AddOpenPort (fweOS env)
            \<lparr>opName = rqForm r ''name'', opProtocol = rqForm r ''protocol'', opPort = port, opSource = rqForm r ''source'', opEnabled = True\<rparr>)))
          save_failed (\<lambda>_. finish ''/firewall'' r))"

definition HandleDeleteOpenPort :: "'k fwenv \<Rightarrow> 'k fwapp hfun" where
  "HandleDeleteOpenPort env r = with_index r (\<lambda>i. do_action (lift_err (on_fst (RemoveOpenPort (fweOS env) i))) (err_text 400)
     (\<lambda>_. finish ''/firewall'' r))"

definition HandleToggleOpenPort :: "'k fwenv \<Rightarrow> 'k fwapp hfun" where
  "HandleToggleOpenPort env r = with_index r (\<lambda>i.
     do_action (lift_err (on_fst (ToggleOpenPort (fweOS env) (i, rqForm r ''enabled'' = ''true'')))) (err_text 400) (\<lambda>_. finish ''/firewall'' r))"

definition fw_handlers :: "'k fwenv \<Rightarrow> fwPage pageenv \<Rightarrow> 'k fwapp hfun list" where
  "fw_handlers env pg =
     [fw_HandlePage pg, HandleApply env, HandleConfirm, HandleRollback env, HandleAddPortForward env, HandleDeletePortForward env,
      HandleAddRule env, HandleDeleteRule env, HandleToggleRule env, HandleAddOpenPort env, HandleDeleteOpenPort env,
      HandleToggleOpenPort env]"

section \<open>Lines of the rule set\<close>

definition forward_accept_line :: "string \<Rightarrow> PortForward \<Rightarrow> string" where
  "forward_accept_line dev p = ''        iifname '' @ dquoted dev @ '' '' @ pfProtocol p @ '' dport '' @ Itoa (pfExtPort p) @ '' ct state new accept''"

definition forward_dnat_line :: "string \<Rightarrow> PortForward \<Rightarrow> string" where
  "forward_dnat_line dev p = ''        iifname '' @ dquoted dev @ '' '' @ pfProtocol p @ '' dport '' @ Itoa (pfExtPort p) @ '' dnat to '' @
     pfIntIP p @ '':'' @ Itoa (pfIntPort p)"

definition enabled_forward_lines :: "(string \<Rightarrow> PortForward \<Rightarrow> string) \<Rightarrow> nftTemplateData \<Rightarrow> string list" where
  "enabled_forward_lines line d = map (line (ntWANDevice d)) (filter pfEnabled (ntPortForwards d))"

definition isolation_lines :: "nftTemplateData \<Rightarrow> string list" where
  "isolation_lines d = concat (map (\<lambda>vlan. concat (map (\<lambda>lan.
     [''        iifname '' @ dquoted (ntVLANDevice d) @ '' oifname '' @ dquoted lan @ '' drop'',
      ''        iifname '' @ dquoted lan @ '' oifname '' @ dquoted (ntVLANDevice d) @ '' drop'']) (ntLANInterfaces d))) (ntIsolatedVLANs d))"

section \<open>What the forms let through\<close>

definition port_ok :: "goint \<Rightarrow> bool" where
  "port_ok p \<longleftrightarrow> 1 \<le> p \<and> p \<le> 65535"

definition source_ok :: "string \<Rightarrow> bool" where
  "source_ok s \<longleftrightarrow> s = [] \<or> ParseCIDR s \<noteq> None \<or> ParseIP s \<noteq> None"

definition forward_ok :: "PortForward \<Rightarrow> bool" where
  "forward_ok p \<longleftrightarrow> pfProtocol p \<in> {''tcp'', ''udp'', ''both''} \<and> port_ok (pfExtPort p) \<and> port_ok (pfIntPort p) \<and> ParseIP (pfIntIP p) \<noteq> None"

definition rule_ok :: "FirewallRule \<Rightarrow> bool" where
  "rule_ok x \<longleftrightarrow> frChain x \<in> {''input'', ''forward'', ''output''} \<and> frAction x \<in> {''accept'', ''drop'', ''reject''} \<and>
     frProtocol x \<in> {[], ''tcp'', ''udp'', ''icmp''} \<and> frDirection x \<in> {[], ''in'', ''out''} \<and> port_ok (frPort x) \<and>
     source_ok (frSrcIP x) \<and> source_ok (frDstIP x)"

definition open_ok :: "OpenPort \<Rightarrow> bool" where
  "open_ok p \<longleftrightarrow> opProtocol p \<in> {''tcp'', ''udp'', ''both''} \<and> port_ok (opPort p) \<and> source_ok (opSource p)"

definition fw_ok :: "Config \<Rightarrow> bool" where
  "fw_ok c \<longleftrightarrow> list_all forward_ok (fwPortForwards (cfgFirewall c)) \<and> list_all rule_ok (fwRules (cfgFirewall c)) \<and>
     list_all open_ok (fwOpenPorts (cfgFirewall c))"

lemma ValidateIP_iff: "ValidateIP s = None \<longleftrightarrow> ParseIP s \<noteq> None"
  by (simp add: ValidateIP_def)

lemma valid_port_ok: "valid_port r k = Some p \<Longrightarrow> port_ok p"
  by (auto simp: valid_port_def ValidatePort_def port_ok_def split: option.splits if_splits)

lemma list_all_remove_nth: "list_all P xs \<Longrightarrow> list_all P (remove_nth i xs)"
  using set_remove_nth [of i xs] by (auto simp: list_all_iff)

lemma list_all_change: "list_all P xs \<Longrightarrow> (\<And>x. P x \<Longrightarrow> P (f x)) \<Longrightarrow> list_all P (xs[i := f (xs ! i)])"
  by (cases "i < length xs") (auto simp: list_all_iff list_update_beyond dest: set_update_subset_insert [THEN subsetD])

lemma enable_ok: "rule_ok x \<Longrightarrow> rule_ok (x\<lparr>frEnabled := b\<rparr>)" "open_ok q \<Longrightarrow> open_ok (q\<lparr>opEnabled := b\<rparr>)"
  by (simp_all add: rule_ok_def open_ok_def)

lemma fw_changes:
  "forward_ok p \<Longrightarrow> fw_ok (cfg st) \<Longrightarrow> fw_ok (cfg (snd (AddPortForward env p st)))"
  "fw_ok (cfg st) \<Longrightarrow> fw_ok (cfg (snd (RemovePortForward env i st)))"
  "rule_ok x \<Longrightarrow> fw_ok (cfg st) \<Longrightarrow> fw_ok (cfg (snd (AddRule env x st)))"
  "fw_ok (cfg st) \<Longrightarrow> fw_ok (cfg (snd (RemoveRule env i st)))"
  "fw_ok (cfg st) \<Longrightarrow> fw_ok (cfg (snd (ToggleRule env ib st)))"
  "open_ok q \<Longrightarrow> fw_ok (cfg st) \<Longrightarrow> fw_ok (cfg (snd (AddOpenPort env q st)))"
  "fw_ok (cfg st) \<Longrightarrow> fw_ok (cfg (snd (RemoveOpenPort env i st)))"
  "fw_ok (cfg st) \<Longrightarrow> fw_ok (cfg (snd (ToggleOpenPort env ib st)))"
proof -
  show "forward_ok p \<Longrightarrow> fw_ok (cfg st) \<Longrightarrow> fw_ok (cfg (snd (AddPortForward env p st)))"
    by (rule add_port_forward.preserves) (simp_all add: fw_ok_def)
  show "fw_ok (cfg st) \<Longrightarrow> fw_ok (cfg (snd (RemovePortForward env i st)))"
    by (rule remove_port_forward.preserves) (simp_all add: fw_ok_def list_all_remove_nth)
  show "rule_ok x \<Longrightarrow> fw_ok (cfg st) \<Longrightarrow> fw_ok (cfg (snd (AddRule env x st)))"
    by (rule add_rule.preserves) (simp_all add: fw_ok_def assign_priority_def rule_ok_def Let_def)
  show "fw_ok (cfg st) \<Longrightarrow> fw_ok (cfg (snd (RemoveRule env i st)))"
    by (rule remove_rule.preserves) (simp_all add: fw_ok_def list_all_remove_nth)
  show "fw_ok (cfg st) \<Longrightarrow> fw_ok (cfg (snd (ToggleRule env ib st)))"
    by (rule toggle_rule.preserves)
      (auto simp: fw_ok_def intro: list_all_change [where f = "\<lambda>x. x\<lparr>frEnabled := b\<rparr>" for b] enable_ok split: prod.splits)
  show "open_ok q \<Longrightarrow> fw_ok (cfg st) \<Longrightarrow> fw_ok (cfg (snd (AddOpenPort env q st)))"
    by (rule add_open_port.preserves) (simp_all add: fw_ok_def)
  show "fw_ok (cfg st) \<Longrightarrow> fw_ok (cfg (snd (RemoveOpenPort env i st)))"
    by (rule remove_open_port.preserves) (simp_all add: fw_ok_def list_all_remove_nth)
  show "fw_ok (cfg st) \<Longrightarrow> fw_ok (cfg (snd (ToggleOpenPort env ib st)))"
    by (rule toggle_open_port.preserves)
      (auto simp: fw_ok_def intro: list_all_change [where f = "\<lambda>x. x\<lparr>opEnabled := b\<rparr>" for b] enable_ok split: prod.splits)
qed

abbreviation fw_inv :: "'k fwapp \<Rightarrow> bool" where
  "fw_inv s \<equiv> fw_ok (cfg (fst s))"

lemma fw_store_act [inv_steps]: "(\<And>st. fw_ok (cfg st) \<Longrightarrow> fw_ok (cfg (snd (f st)))) \<Longrightarrow> inv_act fw_inv (on_fst f)"
  by (rule inv_act_fst) simp

lemma fw_cycle_act [inv_steps]: "inv_act fw_inv (on_snd f)" "inv_act fw_inv (apply_now env)"
  by (rule inv_act_snd) (auto simp: inv_act_def apply_now_def split: prod.splits)

lemma bad_source_ok: "\<not> bad_source s \<Longrightarrow> source_ok s"
  by (auto simp: bad_source_def source_ok_def ValidateIP_iff ValidateCIDR_def split: option.splits if_splits)

lemma fw_handler_step:
  assumes "h \<in> set (fw_handlers env pg)"
  shows "inv_step fw_inv (h r)"
proof -
  have page: "inv_step fw_inv (fw_HandlePage pg r)"
    unfolding fw_HandlePage_def by (intro inv_steps) (auto intro: inv_step_page)
  have cycle: "inv_step fw_inv (HandleApply env r)" "inv_step fw_inv (HandleConfirm r)" "inv_step fw_inv (HandleRollback env r)"
    unfolding HandleApply_def HandleConfirm_def HandleRollback_def by (intro inv_steps)+
  have deletes: "inv_step fw_inv (HandleDeletePortForward env r)" "inv_step fw_inv (HandleDeleteRule env r)"
    "inv_step fw_inv (HandleToggleRule env r)" "inv_step fw_inv (HandleDeleteOpenPort env r)" "inv_step fw_inv (HandleToggleOpenPort env r)"
    unfolding HandleDeletePortForward_def HandleDeleteRule_def HandleToggleRule_def HandleDeleteOpenPort_def HandleToggleOpenPort_def
    by (intro inv_steps fw_changes; assumption)+
  have fwd: "inv_step fw_inv (HandleAddPortForward env r)"
    unfolding HandleAddPortForward_def
    by (intro inv_steps fw_changes) (simp_all add: forward_ok_def valid_port_ok ValidateIP_iff)
  have rule: "inv_step fw_inv (HandleAddRule env r)"
    unfolding HandleAddRule_def
    by (intro inv_steps fw_changes) (simp_all add: rule_ok_def rule_of_def valid_port_ok bad_source_ok)
  have opn: "inv_step fw_inv (HandleAddOpenPort env r)"
    unfolding HandleAddOpenPort_def
    by (intro inv_steps fw_changes) (simp_all add: open_ok_def valid_port_ok bad_source_ok)
  show ?thesis using assms page cycle deletes fwd rule opn by (auto simp: fw_handlers_def)
qed

section \<open>The rendered lines\<close>

definition forward_words :: "string \<Rightarrow> PortForward \<Rightarrow> string list" where
  "forward_words dev p = [''iifname'', dquoted dev, pfProtocol p, ''dport'', Itoa (pfExtPort p)]"

lemma Fields_indented: "\<forall>w \<in> set ws. word_ok w \<Longrightarrow> Fields (''        '' @ Join ws '' '') = ws"
proof -
  assume ws: "\<forall>w \<in> set ws. word_ok w"
  have "Fields (''        '' @ s) = Fields s" for s by (simp add: Fields_def is_space_def)
  then show ?thesis using Fields_Join [of ws] ws by (simp add: word_ok_def)
qed

lemma word_ok_dquoted: "\<forall>c \<in> set dev. \<not> is_space c \<Longrightarrow> word_ok (dquoted dev)"
  by (auto simp: word_ok_def dquoted_def is_space_def)

lemma forward_line_words:
  assumes "forward_ok p" "\<forall>c \<in> set dev. \<not> is_space c"
  shows "Fields (forward_accept_line dev p) = forward_words dev p @ [''ct'', ''state'', ''new'', ''accept'']"
    and "Fields (forward_dnat_line dev p) = forward_words dev p @ [''dnat'', ''to'', pfIntIP p @ '':'' @ Itoa (pfIntPort p)]"
proof -
  have proto: "word_ok (pfProtocol p)" using assms(1) by (auto simp: forward_ok_def word_ok_def is_space_def)
  have "word_ok (pfIntIP p)" using assms(1) by (simp add: forward_ok_def ValidateIP_word ValidateIP_iff)
  then have target: "word_ok (pfIntIP p @ '':'' @ Itoa (pfIntPort p))"
    using Itoa_word_ok [of "pfIntPort p"] by (auto simp: word_ok_def is_space_def)
  have fixed: "list_all word_ok [''iifname'', ''dport'', ''ct'', ''state'', ''new'', ''accept'', ''dnat'', ''to'']"
    by (simp add: word_ok_def is_space_def)
  show "Fields (forward_accept_line dev p) = forward_words dev p @ [''ct'', ''state'', ''new'', ''accept'']"
    using Fields_indented [of "forward_words dev p @ [''ct'', ''state'', ''new'', ''accept'']"] proto fixed Itoa_word_ok word_ok_dquoted [OF assms(2)]
    by (simp add: forward_accept_line_def forward_words_def)
  show "Fields (forward_dnat_line dev p) = forward_words dev p @ [''dnat'', ''to'', pfIntIP p @ '':'' @ Itoa (pfIntPort p)]"
    using Fields_indented [of "forward_words dev p @ [''dnat'', ''to'', pfIntIP p @ '':'' @ Itoa (pfIntPort p)]"] proto target fixed
      Itoa_word_ok word_ok_dquoted [OF assms(2)]
    by (simp add: forward_dnat_line_def forward_words_def)
qed

text \<open>
  C31. The firewall forms admit only entries of the intended shape. From a well-formed configuration, after any requests, every
  custom rule names a known chain, action, protocol and direction, a port from 1 to 65535 and addresses or blocks that parse or are
  empty; every open port has a protocol of the list, a port in range and a source that parses or is empty; every forward has a
  protocol of the list, both ports in range and an internal address that parses; and the two lines the template writes for a
  forward on a device without blanks are split by nft into exactly the intended words, whatever the names and other free fields
  of the forms contain. (That nft knows no protocol \<open>both\<close> is \<open>both_is_written\<close>.)
\<close>

theorem firewall_forms_render_safely:
  assumes "fw_ok (cfg st)" "\<forall>(h, r, w) \<in> set rs. h \<in> set (fw_handlers env pg)" "\<forall>c \<in> set dev. \<not> is_space c"
  shows "let f = cfgFirewall (cfg (fst (run_requests rs (st, fs)))) in
    list_all rule_ok (fwRules f) \<and> list_all open_ok (fwOpenPorts f) \<and> list_all forward_ok (fwPortForwards f) \<and>
    list_all (\<lambda>p. Fields (forward_accept_line dev p) = forward_words dev p @ [''ct'', ''state'', ''new'', ''accept''] \<and>
      Fields (forward_dnat_line dev p) = forward_words dev p @ [''dnat'', ''to'', pfIntIP p @ '':'' @ Itoa (pfIntPort p)])
      (fwPortForwards f)"
proof -
  have "\<forall>(h, r, w) \<in> set rs. inv_step fw_inv (h r)" using assms(2) fw_handler_step by fastforce
  then have "fw_inv (run_requests rs (st, fs))" by (rule run_requests_inv) (simp add: assms(1))
  then show ?thesis using forward_line_words [OF _ assms(3)] by (simp add: fw_ok_def list_all_iff Let_def)
qed

definition fwd_request :: request where
  "fwd_request = (demo_request ''POST'' ''/firewall/forwards'' [])\<lparr>rqForm := (\<lambda>k. if k = ''extPort'' then ''8080'' else if k = ''intPort'' then ''80''
     else if k = ''protocol'' then ''tcp'' else if k = ''intIP'' then ''10.0.0.2'' else [])\<rparr>"

definition web_forward :: PortForward where
  "web_forward = \<lparr>pfName = [], pfProtocol = ''tcp'', pfExtPort = 8080, pfIntIP = ''10.0.0.2'', pfIntPort = 80, pfEnabled = True\<rparr>"

definition fw_demo :: "string fwenv" where
  "fw_demo = \<lparr>fweOS = quiet_env zero_Config, fweNft = text_nft, fweTmpl = (\<lambda>_. Inr [])\<rparr>"

lemma fwd_request_adds:
  "cfg (fst (run_requests [(HandleAddPortForward fw_demo, fwd_request, empty_response)] (demo_store zero_Config, boot_state []))) =
     map_fw (\<lambda>f. f\<lparr>fwPortForwards := fwPortForwards f @ [web_forward]\<rparr>) (cfg (demo_store zero_Config))"
proof -
  have ports: "valid_port fwd_request ''extPort'' = Some 8080" "valid_port fwd_request ''intPort'' = Some 80"
    by (simp_all add: valid_port_def fwd_request_def Atoi_def digits_val_def digit_val_def is_digit_def in_int64_def min_int64_def
        max_int64_def ValidatePort_def)
  have ip: "ValidateIP ''10.0.0.2'' = None" by code_simp
  have "HandleAddPortForward fw_demo fwd_request = do_action (lift_err (on_fst (AddPortForward (fweOS fw_demo) web_forward))) save_failed
      (\<lambda>_. trigger ''portForwardAdded'' ''/firewall'' fwd_request)"
    unfolding HandleAddPortForward_def ports option.case needs_form_def
    by (simp add: fwd_request_def demo_request_def web_forward_def ip)
  then show ?thesis
    using add_port_forward.accepted_cfg [where env = "fweOS fw_demo" and x = web_forward and st = "demo_store zero_Config"]
    by (auto simp: run_requests_def do_action_def lift_err_def on_fst_def save_failed_def refuse_def trigger_def split: prod.splits option.splits)
qed

theorem firewall_forms_render_safely_witness:
  "let f = cfgFirewall (cfg (fst (run_requests [(HandleAddPortForward fw_demo, fwd_request, empty_response)] (demo_store zero_Config, boot_state [])))) in
    web_forward \<in> set (fwPortForwards f) \<and> forward_ok web_forward \<and>
    Fields (forward_dnat_line ''eth0'' web_forward) = [''iifname'', dquoted ''eth0'', ''tcp'', ''dport'', Itoa 8080, ''dnat'', ''to'', ''10.0.0.2:'' @ Itoa 80]"
proof -
  let ?rs = "[(HandleAddPortForward fw_demo, fwd_request, empty_response)]"
  have ok: "fw_ok (cfg (demo_store zero_Config))" by (simp add: fw_ok_def demo_store_def SetFilePath_def zero_defs)
  have hs: "\<forall>(h, r, w) \<in> set ?rs. h \<in> set (fw_handlers fw_demo \<lparr>pgExec = (\<lambda>_ _ _ _. None)\<rparr>)" by (simp add: fw_handlers_def)
  have dev: "\<forall>c \<in> set ''eth0''. \<not> is_space c" by (simp add: is_space_def)
  have mem: "web_forward \<in> set (fwPortForwards (cfgFirewall (cfg (fst (run_requests ?rs (demo_store zero_Config, boot_state []))))))"
    unfolding fwd_request_adds by simp
  from firewall_forms_render_safely [OF ok hs dev, where fs = "boot_state []"] mem show ?thesis
    by (simp add: Let_def list_all_iff) (simp add: forward_words_def web_forward_def)
qed

section \<open>What the template does not do\<close>

text \<open>
  The lines meant to isolate VLANs name the field \<open>VLANDevice\<close>, which is never set, instead of the VLAN of the loop: whatever
  VLANs are marked isolated, no line contains the name of one.
\<close>

lemma isolation_names_no_vlan:
  assumes "l \<in> set (isolation_lines (buildTemplateData c))"
  shows "\<exists>lan \<in> set (role_devices ''lan'' (cfgInterfaces c)).
    l = ''        iifname '' @ dquoted [] @ '' oifname '' @ dquoted lan @ '' drop'' \<or>
    l = ''        iifname '' @ dquoted lan @ '' oifname '' @ dquoted [] @ '' drop''"
  using assms by (auto simp: isolation_lines_def buildTemplateData_def Let_def split: if_splits)

text \<open>The protocol \<open>both\<close> of the forms is written into the rule as it is; nft knows no such keyword.\<close>

lemma both_is_written: "''both'' \<in> set (forward_words dev (p\<lparr>pfProtocol := ''both''\<rparr>))"
  by (simp add: forward_words_def)

end
