(* ===== verification/HandlersVPN.thy ===== *)
theory HandlersVPN
  imports HandlerSteps SiteToSite
begin

text \<open>
  The WireGuard pages and the site-to-site wizard (\<^verbatim>\<open>internal/web/handlers/vpn.go\<close>) over the services of theories
  \<open>VPN\<close> and \<open>SiteToSite\<close>. The state is the flag that says whether the server runs, next to the world. The server
  configuration follows the template \<^verbatim>\<open>configs/sysconf/wireguard-server.conf.tmpl\<close>.
\<close>

section \<open>Handlers\<close>

type_synonym vpn_state = "bool \<times> world"

record vpnhenv =
  vhS2S :: s2senv
  vhNow :: gotime
  vhUnix :: goint
  vhFormat :: "gotime \<Rightarrow> string"

abbreviation vhVPN :: "vpnhenv \<Rightarrow> vpnenv" where
  "vhVPN env \<equiv> s2VPN (vhS2S env)"

definition s2s_text :: "s2s_error \<Rightarrow> string" where
  "s2s_text e = (case e of
       ErrInviteExpired \<Rightarrow> ''s2s invite token expired''
     | ErrInviteSignature \<Rightarrow> ''s2s invite signature invalid''
     | ErrInviteSchema got \<Rightarrow> ''s2s invite schema version unsupported: got '' @ Itoa got @ '' want '' @ Itoa inviteSchemaVersion
     | ErrInviteMalformed d \<Rightarrow> ''s2s invite token malformed'' @ (if d = [] then [] else '': '' @ d)
     | ErrPeerNotPending \<Rightarrow> ''s2s peer is not in pending state''
     | ErrPeerSubnetConflict c \<Rightarrow> ''s2s peer subnet conflicts with a local subnet: '' @ c
     | ErrOther d \<Rightarrow> d)"

definition as_action :: "'a s2s \<Rightarrow> 'a action" where
  "as_action m w = (case m w of (Inl e, w') \<Rightarrow> (Inl (s2s_text e), w') | (Inr a, w') \<Rightarrow> (Inr a, w'))"

record vpnPage =
  vpTunnels :: "WGTunnelStatus list"
  vpServer :: "WGServerStatus option"

definition inr_or :: "'a \<Rightarrow> error + 'a \<Rightarrow> 'a" where
  "inr_or d r = (case r of Inl e \<Rightarrow> d | Inr a \<Rightarrow> a)"

definition vpn_HandlePage :: "vpnhenv \<Rightarrow> vpnPage pageenv \<Rightarrow> vpn_state hfun" where
  "vpn_HandlePage env pg r =
     observe (on_snd (ListClientTunnels (vhVPN env))) (\<lambda>ts. observe (on_snd (ServerStatus (vhVPN env))) (\<lambda>st.
       show_page pg ''vpn'' r \<lparr>vpTunnels = inr_or [] ts, vpServer = (case st of Inl e \<Rightarrow> None | Inr s \<Rightarrow> Some s)\<rparr>))"

definition HandleAddPeer :: "vpnhenv \<Rightarrow> vpn_state hfun" where
  "HandleAddPeer env r = needs_form r
     (let name = rqForm r ''name''; siteToSite = (rqForm r ''peerType'' = ''site-to-site''); endpoint = rqForm r ''endpoint'';
          raw = TrimSpace (rqForm r ''remoteSubnets'') in
      if name = [] then refuse ''name required'' 400
      else if length name > 64 \<or> \<not> namePattern name
      then refuse ''name must be alphanumeric, dashes, or underscores (max 64 chars)'' 400
      else if endpoint \<noteq> [] \<and> \<not> Contains endpoint '':'' then refuse ''endpoint must be in host:port format'' 400
      else (case (if raw \<noteq> [] \<and> siteToSite then cidr_list (Split raw (CHR '','')) else Inr []) of
          Inl bad \<Rightarrow> refuse (''invalid CIDR in remoteSubnets: '' @ bad) 400
        | Inr remoteSubnets \<Rightarrow>
            do_action (on_snd (AddPeer (vhVPN env) name siteToSite remoteSubnets endpoint)) (err_text 500)
              (\<lambda>(peer, privKey) (w, (running, wd)).
                (Write (GeneratePeerConfig (wcfg wd) peer privKey)
                  (Header_Set ''Content-Disposition'' (''attachment; filename='' @ name @ ''.conf'')
                    (Header_Set ''Content-Type'' ''text/plain'' w)), (running, wd)))))"

definition HandleRemovePeer :: "vpnhenv \<Rightarrow> vpn_state hfun" where
  "HandleRemovePeer env r =
     do_action (on_snd (on_store (RemovePeer (seOS (veSys (vhVPN env))) (PathValue r ''name'')))) (err_text 400) (\<lambda>_. finish ''/vpn'' r)"

text \<open>An operation that is already in the wanted state counts as done.\<close>

definition tolerate :: "error \<Rightarrow> ('s \<Rightarrow> error option \<times> 's) \<Rightarrow> 's \<Rightarrow> error option \<times> 's" where
  "tolerate ok act s = (case act s of (e, s') \<Rightarrow> (if e = Some ok then None else e, s'))"

definition HandleServerStart :: "vpnhenv \<Rightarrow> vpn_state hfun" where
  "HandleServerStart env r = do_action (lift_err (tolerate ErrVPNAlreadyRunning (ServerUp (vhVPN env)))) (err_text 500) (\<lambda>_. finish ''/vpn'' r)"

definition HandleServerStop :: "vpnhenv \<Rightarrow> vpn_state hfun" where
  "HandleServerStop env r = do_action (lift_err (tolerate ErrVPNAlreadyStopped (ServerDown (vhVPN env)))) (err_text 500) (\<lambda>_. finish ''/vpn'' r)"

definition HandleConnectClient :: "vpnhenv \<Rightarrow> vpn_state hfun" where
  "HandleConnectClient env r =
     (if \<not> namePattern (PathValue r ''name'') then refuse ''invalid client name'' 400
      else do_action (on_snd (ConnectClient (vhVPN env) (PathValue r ''name''))) (err_text 500) (\<lambda>_. finish ''/vpn'' r))"

definition HandleDisconnectClient :: "vpnhenv \<Rightarrow> vpn_state hfun" where
  "HandleDisconnectClient env r =
     (if \<not> namePattern (PathValue r ''name'') then refuse ''invalid client name'' 400
      else do_action (on_snd (DisconnectClient (vhVPN env) (PathValue r ''name''))) (err_text 500) (\<lambda>_. finish ''/vpn'' r))"

definition HandleS2SWizardPage :: "vpnhenv \<Rightarrow> WGServerStatus option pageenv \<Rightarrow> vpn_state hfun" where
  "HandleS2SWizardPage env pg r = observe (on_snd (ServerStatus (vhVPN env))) (\<lambda>st.
     show_page pg ''vpn-s2s'' r (case st of Inl e \<Rightarrow> None | Inr s \<Rightarrow> Some s))"

definition json_key :: "string \<Rightarrow> string" where
  "json_key k = [dquote] @ k @ [dquote] @ '':''"

definition write_json :: "string \<Rightarrow> response \<times> 's \<Rightarrow> response \<times> 's" where
  "write_json body = (\<lambda>(w, s). (Write body (Header_Set ''Content-Type'' ''application/json'' w), s))"

definition HandleS2SInvite :: "vpnhenv \<Rightarrow> vpn_state hfun" where
  "HandleS2SInvite env r = needs_form r
     (let name = rqForm r ''name''; endpoint = rqForm r ''endpoint'' in
      if name = [] \<or> \<not> namePattern name then refuse ''invalid name'' 400
      else if endpoint = [] \<or> \<not> Contains endpoint '':'' then refuse ''endpoint must be in host:port form'' 400
      else (case cidr_list (Split (TrimSpace (rqForm r ''remoteSubnets'')) (CHR '','')) of
          Inl bad \<Rightarrow> refuse (''invalid CIDR: '' @ bad) 400
        | Inr remote \<Rightarrow>
            if remote = [] then refuse ''at least one remote subnet required'' 400
            else do_action (on_snd (as_action (CreateS2SInvite (vhS2S env) (vhNow env) name (rqForm r ''siteName'') endpoint remote))) (err_text 400)
              (\<lambda>(token, peer). write_json (''{'' @ json_key ''token'' @ jsonString token @ '','' @ json_key ''peerName'' @ jsonString (wgpName peer) @
                 '','' @ json_key ''expiresAt'' @ jsonString (vhFormat env (wgpInviteExpiresAt peer)) @ ''}''))))"

definition HandleS2SJoin :: "vpnhenv \<Rightarrow> vpn_state hfun" where
  "HandleS2SJoin env r = needs_form r
     (let token = TrimSpace (rqForm r ''token'') in
      if token = [] then refuse ''token required'' 400
      else do_action (on_snd (as_action (ConsumeInvite (vhS2S env) (vhNow env) token))) (err_text 400)
        (\<lambda>(ack, pub, peer). write_json (''{'' @ json_key ''ackToken'' @ jsonString ack @ '','' @ json_key ''publicKey'' @ jsonString pub @
           '','' @ json_key ''peerName'' @ jsonString (wgpName peer) @ ''}'')))"

definition HandleS2SFinalize :: "vpnhenv \<Rightarrow> vpn_state hfun" where
  "HandleS2SFinalize env r = needs_form r
     (let name = rqForm r ''peerName''; ack = TrimSpace (rqForm r ''ackToken'') in
      if name = [] \<or> \<not> namePattern name then refuse ''invalid peer name'' 400
      else if ack = [] then refuse ''ackToken required'' 400
      else do_action (on_snd (as_action (FinalizeInvite (vhS2S env) name ack))) (err_text 400)
        (\<lambda>_. observe (on_snd (SyncWGServer (vhS2S env))) (\<lambda>_. finish ''/vpn'' r)))"

definition HandleS2SCancel :: "vpnhenv \<Rightarrow> vpn_state hfun" where
  "HandleS2SCancel env r =
     (let name = PathValue r ''name'' in
      if name = [] \<or> \<not> namePattern name then refuse ''invalid name'' 400
      else do_action (on_snd (as_action (CancelInvite (vhS2S env) name))) (err_text 400) (\<lambda>_. finish ''/vpn/s2s'' r))"

definition uintStr :: "nat \<Rightarrow> string" where
  "uintStr u = Itoa (int u)"

definition health_json :: "S2SHealthInfo \<Rightarrow> string" where
  "health_json i = ''{'' @ json_key ''name'' @ jsonString (shiName i) @ '','' @ json_key ''online'' @ boolStr (shiOnline i) @
     '','' @ json_key ''handshakeAgeSec'' @ intStr (shiHandshakeAgeSec i) @ '','' @ json_key ''rxBytes'' @ uintStr (shiRxBytes i) @
     '','' @ json_key ''txBytes'' @ uintStr (shiTxBytes i) @ ''}''"

definition HandleS2SHealth :: "vpnhenv \<Rightarrow> vpn_state hfun" where
  "HandleS2SHealth env r =
     (let name = PathValue r ''name'' in
      if name = [] \<or> \<not> namePattern name then refuse ''invalid name'' 400
      else do_action (on_snd (S2SHealth (vhS2S env) (vhUnix env) name)) (err_text 500) (\<lambda>info. write_json (health_json info)))"

definition HandleS2SReachability :: "vpnhenv \<Rightarrow> vpn_state hfun" where
  "HandleS2SReachability env r =
     (let name = PathValue r ''name'' in
      if name = [] \<or> \<not> namePattern name then refuse ''invalid name'' 400
      else do_action (on_snd (S2SReachability (vhS2S env) name)) (err_text 502) (\<lambda>_ (w, s). (WriteHeader 204 w, s)))"

section \<open>Reading the answers\<close>

text \<open>A reader of JSON objects whose values are strings.\<close>

primrec read_fields :: "nat \<Rightarrow> string \<Rightarrow> (string \<times> string) list option" where
  "read_fields 0 s = None"
| "read_fields (Suc n) s =
     (case s of q # s1 \<Rightarrow> if q \<noteq> dquote then None else
        (case json_read s1 of Some (k, c # q' # r2) \<Rightarrow>
           if c \<noteq> CHR '':'' \<or> q' \<noteq> dquote then None
           else (case json_read r2 of Some (v, e # r3) \<Rightarrow>
               if e = CHR '','' then map_option ((#) (k, v)) (read_fields n r3)
               else if e = CHR ''}'' \<and> r3 = [] then Some [(k, v)] else None
             | _ \<Rightarrow> None)
         | _ \<Rightarrow> None)
      | [] \<Rightarrow> None)"

definition json_object :: "string \<Rightarrow> (string \<times> string) list option" where
  "json_object s = (case s of c # r \<Rightarrow> if c = CHR ''{'' then read_fields (length s) r else None | [] \<Rightarrow> None)"

definition field_text :: "string \<times> string \<Rightarrow> string" where
  "field_text kv = jsonString (fst kv) @ '':'' @ jsonString (snd kv)"

lemma json_read_jsonString: "json_read (tl (jsonString s) @ rest) = Some (s, rest)"
proof -
  have "json_read (concat (map json_char s) @ dquote # rest) = Some (s, rest)"
    by (induction s) (simp_all add: json_read_char)
  then show ?thesis by (simp add: jsonString_def)
qed

lemma jsonString_shape: "jsonString s = dquote # tl (jsonString s)"
  by (simp add: jsonString_def)

lemma read_field:
  "read_fields (Suc n) (field_text (k, v) @ e # r) =
     (if e = CHR '','' then map_option ((#) (k, v)) (read_fields n r) else if e = CHR ''}'' \<and> r = [] then Some [(k, v)] else None)"
proof -
  have "field_text (k, v) @ e # r = dquote # tl (jsonString k) @ CHR '':'' # dquote # tl (jsonString v) @ e # r"
    using jsonString_shape [of k] jsonString_shape [of v] by (simp add: field_text_def)
  then show ?thesis by (simp add: json_read_jsonString)
qed

lemma read_fields_Join: "kvs \<noteq> [] \<Longrightarrow> length kvs \<le> n \<Longrightarrow> read_fields n (Join (map field_text kvs) '','' @ ''}'') = Some kvs"
proof (induction kvs arbitrary: n rule: list_nonempty_induct)
  case (single kv)
  then obtain m where "n = Suc m" by (cases n) auto
  then show ?case using read_field [of m "fst kv" "snd kv" "CHR ''}''" "[]"] by simp
next
  case (cons kv kvs)
  then obtain m where n: "n = Suc m" "length kvs \<le> m" by (cases n) auto
  have "Join (map field_text (kv # kvs)) '','' = field_text kv @ CHR '','' # Join (map field_text kvs) '',''"
    using cons by (cases kvs) simp_all
  then show ?case using read_field [of m "fst kv" "snd kv" "CHR '',''" "Join (map field_text kvs) '','' @ ''}''"] cons.IH [OF n(2)] n by simp
qed

lemma json_object_Join: "kvs \<noteq> [] \<Longrightarrow> json_object (''{'' @ Join (map field_text kvs) '','' @ ''}'') = Some kvs"
proof -
  assume kvs: "kvs \<noteq> []"
  have "length kvs \<le> length (Join (map field_text kvs) '','')"
    using kvs by (induction kvs rule: list_nonempty_induct) (auto simp: Join_Cons field_text_def jsonString_def)
  then show ?thesis using read_fields_Join [OF kvs] by (simp add: json_object_def del: read_fields.simps)
qed

lemma plain_key: "\<forall>c \<in> set k. c \<noteq> dquote \<and> c \<noteq> bslash \<and> \<not> (of_char c :: nat) < 32 \<Longrightarrow> jsonString k = [dquote] @ k @ [dquote]"
proof -
  assume k: "\<forall>c \<in> set k. c \<noteq> dquote \<and> c \<noteq> bslash \<and> \<not> (of_char c :: nat) < 32"
  then have "concat (map json_char k) = k"
  proof (induction k)
    case (Cons c k)
    then have "\<not> (of_char c :: nat) < 32" by simp
    then have "c \<noteq> CHR 0x0A" "c \<noteq> CHR 0x0D" "c \<noteq> CHR 0x09" by auto
    then have "json_char c = [c]" using Cons.prems by (simp add: json_char_def)
    then show ?case using Cons by simp
  qed simp
  then show ?thesis by (simp add: jsonString_def)
qed

lemma answer_keys:
  "json_key ''token'' = jsonString ''token'' @ '':''" "json_key ''peerName'' = jsonString ''peerName'' @ '':''"
  "json_key ''expiresAt'' = jsonString ''expiresAt'' @ '':''" "json_key ''ackToken'' = jsonString ''ackToken'' @ '':''"
  "json_key ''publicKey'' = jsonString ''publicKey'' @ '':''"
  by (simp_all add: json_key_def plain_key dquote_def bslash_def)

text \<open>
  The wizard answers every request to create an invitation in one of two ways: with status 400, or with a JSON object from
  which a reader gets exactly the token of the invitation that was created, the name asked for and its expiry, whatever bytes
  they contain.
\<close>

theorem invite_answer_decodes:
  "case HandleS2SInvite env r (empty_response, (running, wd)) of (w', running', wd') \<Rightarrow>
     running' = running \<and>
     (rsStatus w' = Some 400 \<or>
      rsStatus w' = Some 200 \<and>
      (\<exists>token peer remote.
         CreateS2SInvite (vhS2S env) (vhNow env) (rqForm r ''name'') (rqForm r ''siteName'') (rqForm r ''endpoint'') remote wd = (Inr (token, peer), wd') \<and>
         json_object (rsBody w') = Some [(''token'', token), (''peerName'', wgpName peer), (''expiresAt'', vhFormat env (wgpInviteExpiresAt peer))]))"
proof -
  have refused: "\<And>msg s. fst (refuse msg 400 (empty_response, s)) = http_Error msg 400 empty_response"
    "\<And>msg s. snd (refuse msg 400 (empty_response, s)) = s" by (simp_all add: refuse_def)
  have err: "rsStatus (http_Error msg 400 empty_response) = Some 400" for msg
    by (simp add: http_Error_def Write_def WriteHeader_def Header_Set_def empty_response_def)
  show ?thesis
  proof (cases "rqBadForm r \<or> rqForm r ''name'' = [] \<or> \<not> namePattern (rqForm r ''name'') \<or> rqForm r ''endpoint'' = [] \<or>
      \<not> Contains (rqForm r ''endpoint'') '':'' \<or> (\<forall>remote. cidr_list (Split (TrimSpace (rqForm r ''remoteSubnets'')) (CHR '','')) \<noteq> Inr remote \<or> remote = [])")
    case True
    then have "\<exists>msg. HandleS2SInvite env r (empty_response, (running, wd)) = refuse msg 400 (empty_response, (running, wd))"
      by (auto simp: HandleS2SInvite_def needs_form_def Let_def split: sum.splits)
    then show ?thesis by (auto simp: refuse_def err)
  next
    case False
    then obtain remote where remote: "cidr_list (Split (TrimSpace (rqForm r ''remoteSubnets'')) (CHR '','')) = Inr remote" "remote \<noteq> []" by blast
    let ?m = "CreateS2SInvite (vhS2S env) (vhNow env) (rqForm r ''name'') (rqForm r ''siteName'') (rqForm r ''endpoint'') remote"
    obtain x wd' where m: "?m wd = (x, wd')" by fastforce
    have run: "HandleS2SInvite env r (empty_response, (running, wd)) =
        do_action (on_snd (as_action ?m)) (err_text 400)
          (\<lambda>(token, peer). write_json (''{'' @ json_key ''token'' @ jsonString token @ '','' @ json_key ''peerName'' @ jsonString (wgpName peer) @
             '','' @ json_key ''expiresAt'' @ jsonString (vhFormat env (wgpInviteExpiresAt peer)) @ ''}'')) (empty_response, (running, wd))"
      using False remote by (simp add: HandleS2SInvite_def needs_form_def Let_def)
    show ?thesis
    proof (cases x)
      case (Inl e)
      then show ?thesis using m unfolding run by (simp add: do_action_def on_snd_def as_action_def err_text_def refuse_def err)
    next
      case (Inr tp)
      obtain token peer where tp: "tp = (token, peer)" by (cases tp)
      let ?kvs = "[(''token'', token), (''peerName'', wgpName peer), (''expiresAt'', vhFormat env (wgpInviteExpiresAt peer))]"
      have "''{'' @ json_key ''token'' @ jsonString token @ '','' @ json_key ''peerName'' @ jsonString (wgpName peer) @
          '','' @ json_key ''expiresAt'' @ jsonString (vhFormat env (wgpInviteExpiresAt peer)) @ ''}'' = ''{'' @ Join (map field_text ?kvs) '','' @ ''}''"
        by (simp add: field_text_def answer_keys)
      then have body: "json_object (''{'' @ json_key ''token'' @ jsonString token @ '','' @ json_key ''peerName'' @ jsonString (wgpName peer) @
          '','' @ json_key ''expiresAt'' @ jsonString (vhFormat env (wgpInviteExpiresAt peer)) @ ''}'') = Some ?kvs"
        by (simp only:) (rule json_object_Join, simp)
      show ?thesis
        using m Inr tp body unfolding run
        by (simp add: do_action_def on_snd_def as_action_def write_json_def Write_def WriteHeader_def Header_Set_def empty_response_def)
          blast
    qed
  qed
qed

section \<open>The server configuration\<close>

definition wg_setting :: "string \<Rightarrow> string \<Rightarrow> string" where
  "wg_setting k v = nl @ k @ '' = '' @ v"

definition peer_text :: "WGServerPeer \<Rightarrow> string" where
  "peer_text p =
     (if \<not> wgpPending p \<and> wgpPublicKey p \<noteq> []
      then nl @ ''[Peer]'' @ nl @ ''# '' @ wgpName p @ wg_setting ''PublicKey'' (wgpPublicKey p) @
        (if wgpPresharedKey p \<noteq> [] then wg_setting ''PresharedKey'' (wgpPresharedKey p) else []) @
        wg_setting ''AllowedIPs'' (wgpAllowedIPs p) @
        (if wgpEndpoint p \<noteq> [] then wg_setting ''Endpoint'' (wgpEndpoint p) else []) @
        (if wgpKeepalive p \<noteq> 0 then wg_setting ''PersistentKeepalive'' (Itoa (wgpKeepalive p)) else []) @ nl
      else [])"

definition wg_server_text :: "WGServerConfig \<Rightarrow> string" where
  "wg_server_text s =
     ''[Interface]'' @ wg_setting ''PrivateKey'' (wgsPrivateKey s) @ wg_setting ''ListenPort'' (Itoa (wgsListenPort s)) @
     wg_setting ''Address'' (wgsAddress s) @
     (if wgsAddress6 s \<noteq> [] then wg_setting ''Address'' (wgsAddress6 s) else []) @
     (if wgsMTU s \<noteq> 0 then wg_setting ''MTU'' (Itoa (wgsMTU s)) else []) @
     (if wgsPostUp s \<noteq> [] then wg_setting ''PostUp'' (wgsPostUp s) else []) @
     (if wgsPostDown s \<noteq> [] then wg_setting ''PostDown'' (wgsPostDown s) else []) @
     nl @ nl @ concat (map peer_text (wgsPeers s)) @ nl"

lemma Split_append_any: "Split (u @ c # s) c = Split u c @ Split s c"
proof (induction u)
  case (Cons x u)
  obtain q qs where "Split u c = q # qs" by (meson Split_not_Nil neq_Nil_conv)
  then show ?case using Cons by auto
qed simp

lemma line_in: "CHR 0x0A \<notin> set l \<Longrightarrow> l \<in> set (Split (u @ nl @ l @ nl @ v) (CHR 0x0A))"
  by (simp add: nl_def Split_append_any Split_single)

text \<open>
  The endpoint of a new peer need only contain a colon. A line feed in it puts lines of the form into the file that
  \<open>wg-quick\<close> reads as root, a second \<open>[Interface]\<close> section with a \<open>PostUp\<close> command among them.
\<close>

lemma endpoint_reaches_config:
  assumes "AddPeer env name s2s subs endpoint wd = (Inr (peer, k), wd')" "wgpPublicKey peer \<noteq> []"
    "endpoint = a @ nl @ l @ nl @ b" "CHR 0x0A \<notin> set l"
  shows "l \<in> set (Split (wg_server_text (server_of (wcfg wd'))) (CHR 0x0A))"
proof -
  have peer: "peer \<in> set (peers_of (wcfg wd'))" and ep: "wgpEndpoint peer = endpoint" "\<not> wgpPending peer"
    using assms(1) by (auto simp: AddPeer_def Let_def io_simps new_peer_def split: prod.splits sum.splits if_splits dest!: wcfg_save)
  obtain ps qs where ps: "peers_of (wcfg wd') = ps @ peer # qs" using peer by (meson split_list)
  have "\<exists>u v. peer_text peer = u @ nl @ l @ nl @ v"
  proof -
    let ?pre = "nl @ ''[Peer]'' @ nl @ ''# '' @ wgpName peer @ wg_setting ''PublicKey'' (wgpPublicKey peer) @
        (if wgpPresharedKey peer \<noteq> [] then wg_setting ''PresharedKey'' (wgpPresharedKey peer) else []) @
        wg_setting ''AllowedIPs'' (wgpAllowedIPs peer) @ nl @ ''Endpoint = '' @ a"
    let ?post = "b @ (if wgpKeepalive peer \<noteq> 0 then wg_setting ''PersistentKeepalive'' (Itoa (wgpKeepalive peer)) else []) @ nl"
    have "peer_text peer = ?pre @ nl @ l @ nl @ ?post"
      using assms(2,3) ep by (simp add: peer_text_def wg_setting_def nl_def)
    then show ?thesis by blast
  qed
  then obtain u v where "peer_text peer = u @ nl @ l @ nl @ v" by blast
  then have "\<exists>u v. wg_server_text (server_of (wcfg wd')) = u @ nl @ l @ nl @ v"
  proof -
    obtain h where h: "wg_server_text (server_of (wcfg wd')) = h @ concat (map peer_text (peers_of (wcfg wd'))) @ nl"
      unfolding wg_server_text_def by (metis append_assoc)
    have "wg_server_text (server_of (wcfg wd')) =
        (h @ concat (map peer_text ps) @ u) @ nl @ l @ nl @ (v @ concat (map peer_text qs) @ nl)"
      unfolding h ps using \<open>peer_text peer = u @ nl @ l @ nl @ v\<close> by simp
    then show ?thesis by blast
  qed
  then show ?thesis using line_in [OF assms(4)] by metis
qed

end
