(* ===== verification/HandlersSystem.thy ===== *)
theory HandlersSystem
  imports HandlerSteps Backup Update DHCP
begin

text \<open>
  The system pages (\<^verbatim>\<open>internal/web/handlers/system.go\<close>): passwords, host name, time zone, restart, factory reset, export
  and import of the configuration, and self-update. The state is the update service next to the world; the files of
  backups lie on the disk of the configuration store. Hashing, multipart forms and the JSON package are parameters.
\<close>

section \<open>Handlers\<close>

type_synonym sys_state = "UpdateService \<times> world"

record VersionInfo =
  viVersion :: string
  viCommit :: string
  viDate :: string
  viArchitecture :: string

record syshenv =
  shUpd :: updenv
  shBackup :: "bkenv option"
  shConfigDir :: string
  shLocal :: location
  shNow :: gotime
  shTempDir :: string
  shTempName :: "error + string"
  shFile :: "request \<Rightarrow> string option"
  shCopyErr :: "error option"
  shBcrypt :: "string \<Rightarrow> error + string"
  shDHCP :: "(bool \<times> (store \<Rightarrow> error option) \<times> Lease list) option"
  shT :: "string \<Rightarrow> string \<Rightarrow> string"
  shJSON :: "VersionInfo \<Rightarrow> error + string"

abbreviation shSys :: "syshenv \<Rightarrow> sysenv" where
  "shSys env \<equiv> upSys (shUpd env)"

definition GetVersionInfo :: "UpdateService \<Rightarrow> VersionInfo" where
  "GetVersionInfo s = \<lparr>viVersion = usVersion s, viCommit = usCommit s, viDate = usDate s, viArchitecture = usArchitecture s\<rparr>"

definition PendingVersion :: "UpdateService \<Rightarrow> string" where
  "PendingVersion s = usPending s"

record settingsPage =
  stHostname :: string
  stDomain :: string
  stFQDN :: string
  stTimezone :: string
  stLanguage :: string
  stTLSMode :: string
  stVersion :: VersionInfo
  stPendingUpdate :: bool
  stPendingVersion :: string

definition HandleSettingsPage :: "settingsPage pageenv \<Rightarrow> sys_state hfun" where
  "HandleSettingsPage pg r = with_state (\<lambda>(u, wd). (let c = cfgSystem (wcfg wd) in show_page pg ''settings'' r
     \<lparr>stHostname = sysHostname c, stDomain = sysDomain c, stFQDN = sysHostname c @ ''.'' @ sysDomain c, stTimezone = sysTimezone c,
      stLanguage = sysLanguage c, stTLSMode = tlsMode (sysTLS c), stVersion = GetVersionInfo u, stPendingUpdate = HasPendingUpdate u,
      stPendingVersion = PendingVersion u\<rparr>))"

definition map_system :: "(SystemConfig \<Rightarrow> SystemConfig) \<Rightarrow> Config \<Rightarrow> Config" where
  "map_system f c = c\<lparr>cfgSystem := f (cfgSystem c)\<rparr>"

definition bad_password :: "request \<Rightarrow> string \<Rightarrow> string \<Rightarrow> bool" where
  "bad_password r k k' \<longleftrightarrow> rqForm r k \<noteq> rqForm r k' \<or> length (rqForm r k) < 8"

definition password_message :: string where
  "password_message = ''Password mismatch or too short (min 8 chars)''"

text \<open>Save the configuration, answering a failure with a fixed text.\<close>

definition sys_save :: "syshenv \<Rightarrow> (unit \<Rightarrow> response \<times> sys_state \<Rightarrow> response \<times> sys_state) \<Rightarrow> response \<times> sys_state \<Rightarrow> response \<times> sys_state" where
  "sys_save env k = do_action (on_snd (io_save (shSys env))) (\<lambda>_. (''save failed'', 500)) k"

definition HandleChangeWebPassword :: "syshenv \<Rightarrow> sys_state hfun" where
  "HandleChangeWebPassword env r = needs_form r
     (if bad_password r ''newPassword'' ''confirmPassword'' then refuse password_message 400
      else (case shBcrypt env (rqForm r ''newPassword'') of
          Inl e \<Rightarrow> refuse ''Internal Server Error'' 500
        | Inr hash \<Rightarrow>
            observe (on_snd (io_update (map_system (\<lambda>s. s\<lparr>sysAdminPasswordHash := hash\<rparr>)))) (\<lambda>_.
              sys_save env (\<lambda>_. trigger ''settingsUpdated'' ''/settings'' r))))"

definition HandleChangeRootPassword :: "syshenv \<Rightarrow> sys_state hfun" where
  "HandleChangeRootPassword env r = needs_form r
     (if bad_password r ''rootPassword'' ''rootPasswordConfirm'' then refuse password_message 400
      else do_action (on_snd (sys (shSys env) (CRun ''openssl'' [''passwd'', ''-6'', rqForm r ''rootPassword'']))) (\<lambda>_. (''Failed to hash password'', 500))
        (\<lambda>hashOut. do_action (on_snd (sys (shSys env) (CRun ''usermod'' [''-p'', TrimSpace hashOut, ''root'']))) (\<lambda>_. (''Failed to change root password'', 500))
          (\<lambda>_. trigger ''settingsUpdated'' ''/settings'' r)))"

definition rebuild_dns :: "syshenv \<Rightarrow> bool \<times> (store \<Rightarrow> error option) \<times> Lease list \<Rightarrow> unit action" where
  "rebuild_dns env d w = (case d of (wired, apply_dns, leases) \<Rightarrow>
     (case RebuildDNSRecords wired (seOS (shSys env)) apply_dns leases (sysDomain (cfgSystem (wcfg w))) (wStore w) of
        (cmds, st) \<Rightarrow> io_each (\<lambda>c. io_ignore (sys (shSys env) (CRun (hd c) (tl c)))) cmds (w\<lparr>wStore := st\<rparr>)))"

definition set_names :: "string \<Rightarrow> string \<Rightarrow> SystemConfig \<Rightarrow> SystemConfig" where
  "set_names hostname domain s = (let s1 = s\<lparr>sysHostname := hostname\<rparr> in if domain \<noteq> [] then s1\<lparr>sysDomain := domain\<rparr> else s1)"

definition HandleUpdateHostname :: "syshenv \<Rightarrow> sys_state hfun" where
  "HandleUpdateHostname env r = needs_form r
     (let hostname = rqForm r ''hostname''; domain = rqForm r ''domain'' in
      if hostname = [] \<or> length hostname > 63 then refuse ''Invalid hostname'' 400
      else with_state (\<lambda>(u, wd). let oldDomain = sysDomain (cfgSystem (wcfg wd)) in
        observe (on_snd (io_update (map_system (set_names hostname domain)))) (\<lambda>_.
        observe (on_snd (sys (shSys env) (CRun ''hostnamectl'' [''set-hostname'', hostname]))) (\<lambda>_.
        observe (on_snd (case shDHCP env of
            Some d \<Rightarrow> if domain \<noteq> [] \<and> domain \<noteq> oldDomain then rebuild_dns env d else io_return ()
          | None \<Rightarrow> io_return ())) (\<lambda>_.
        sys_save env (\<lambda>_. trigger ''settingsUpdated'' ''/settings'' r))))))"

definition HandleUpdateTimezone :: "syshenv \<Rightarrow> sys_state hfun" where
  "HandleUpdateTimezone env r = needs_form r
     (let tz = rqForm r ''timezone'' in
      if tz = [] then refuse ''Invalid timezone'' 400
      else observe (on_snd (io_update (map_system (\<lambda>s. s\<lparr>sysTimezone := tz\<rparr>)))) (\<lambda>_.
        sys_save env (\<lambda>_. observe (on_snd (sys (shSys env) (CRun ''timedatectl'' [''set-timezone'', tz]))) (\<lambda>_.
          trigger ''settingsUpdated'' ''/settings'' r))))"

definition ok_header :: "response \<times> 's \<Rightarrow> response \<times> 's" where
  "ok_header = (\<lambda>(w, s). (WriteHeader 200 w, s))"

definition HandleReboot :: "syshenv \<Rightarrow> sys_state hfun" where
  "HandleReboot env r = do_action (on_snd (sys (shSys env) (CRun ''systemctl'' [''reboot'']))) (err_text 500) (\<lambda>_. ok_header)"

text \<open>An operation on the disk, as an action of the world.\<close>

definition on_disk :: "(disk \<Rightarrow> error option \<times> disk) \<Rightarrow> world \<Rightarrow> error option \<times> world" where
  "on_disk f w = (case f (disk (wStore w)) of (e, d) \<Rightarrow> (e, w\<lparr>wStore := (wStore w)\<lparr>disk := d\<rparr>\<rparr>))"

definition HandleFactoryReset :: "syshenv \<Rightarrow> sys_state hfun" where
  "HandleFactoryReset env r =
     do_action (lift_err (on_snd (on_disk (case shBackup env of Some b \<Rightarrow> FactoryReset b (shConfigDir env) | None \<Rightarrow> (\<lambda>d. (None, d)))))) (err_text 500)
       (\<lambda>_. observe (on_snd (sys (shSys env) (CRun ''systemctl'' [''reboot'']))) (\<lambda>_. ok_header))"

text \<open>The calls below a missing backup service panic in the code; the service is always wired in \<^verbatim>\<open>server.go\<close>.\<close>

definition remove_file :: "string \<Rightarrow> world \<Rightarrow> unit \<times> world" where
  "remove_file p w = ((), w\<lparr>wStore := (wStore w)\<lparr>disk := (disk (wStore w))(p := None)\<rparr>\<rparr>)"

definition export_path :: "syshenv \<Rightarrow> string" where
  "export_path env = path_Join (shTempDir env) (''lankeeper-backup-'' @ stamp (shLocal env) (shNow env) @ ''.tar.gz.enc'')"

definition serve_file :: "string \<Rightarrow> response \<times> sys_state \<Rightarrow> response \<times> sys_state" where
  "serve_file p = (\<lambda>(w, (u, wd)). case disk (wStore wd) p of
       Some content \<Rightarrow> (Write content w, (u, wd))
     | None \<Rightarrow> refuse ''404 page not found'' 404 (w, (u, wd)))"

definition HandleExport :: "syshenv \<Rightarrow> bkenv \<Rightarrow> sys_state hfun" where
  "HandleExport env b r =
     (let passphrase = rqForm r ''passphrase''; outputPath = export_path env in
      if passphrase = [] then refuse ''passphrase required for encrypted backup'' 400
      else do_action (lift_err (on_snd (on_disk (Export b (shLocal env) (shNow env) outputPath passphrase)))) (\<lambda>_. (''export failed'', 500))
        (\<lambda>_ (w, s). observe (on_snd (remove_file outputPath)) (\<lambda>_ x. x)
          (serve_file outputPath (Header_Set ''Content-Disposition'' (''attachment; filename='' @ [dquote] @ path_Base outputPath @ [dquote])
             (Header_Set ''Content-Type'' ''application/octet-stream'' w), s))))"

definition write_temp :: "string \<Rightarrow> string \<Rightarrow> world \<Rightarrow> unit \<times> world" where
  "write_temp p content w = ((), w\<lparr>wStore := (wStore w)\<lparr>disk := (disk (wStore w))(p \<mapsto> content)\<rparr>\<rparr>)"

definition HandleImport :: "syshenv \<Rightarrow> bkenv \<Rightarrow> sys_state hfun" where
  "HandleImport env b r =
     (case shFile env r of
        None \<Rightarrow> refuse ''backup file required'' 400
      | Some content \<Rightarrow> (case shTempName env of
          Inl e \<Rightarrow> refuse ''failed to create temp file'' 500
        | Inr tmp \<Rightarrow> (\<lambda>ws. observe (on_snd (remove_file tmp)) (\<lambda>_ x. x)
            (observe (on_snd (write_temp tmp (if shCopyErr env = None then content else []))) (\<lambda>_.
              if shCopyErr env \<noteq> None then refuse ''failed to save uploaded file'' 500
              else do_action (lift_err (on_snd (on_disk (Import b (shConfigDir env) tmp (rqForm r ''passphrase''))))) (\<lambda>_. (''import failed'', 500))
                (\<lambda>_. finish ''/settings'' r)) ws))))"

section \<open>Self-update\<close>

text \<open>\<open>html.EscapeString\<close>.\<close>

definition escape_char :: "char \<Rightarrow> string" where
  "escape_char c =
     (if c = CHR ''&'' then ''&amp;'' else if c = CHR 0x27 then ''&#39;'' else if c = CHR ''<'' then ''&lt;''
      else if c = CHR ''>'' then ''&gt;'' else if c = dquote then ''&#34;'' else [c])"

definition EscapeString :: "string \<Rightarrow> string" where
  "EscapeString s = concat (map escape_char s)"

text \<open>
  \<open>%.1f\<close> of \<open>size / 1024 / 1024\<close>: the quotient of a 64-bit size below \<open>2 ^ 53\<close> is exact, and it is rounded to tenths, ties to even.
\<close>

definition round_even :: "nat \<Rightarrow> nat \<Rightarrow> nat" where
  "round_even a b = (let q = a div b; m = a mod b in if 2 * m > b \<or> 2 * m = b \<and> odd q then q + 1 else q)"

definition megabytes :: "nat \<Rightarrow> string" where
  "megabytes n = (let t = round_even (10 * n) 1048576 in Itoa (int (t div 10)) @ ''.'' @ Itoa (int (t mod 10)))"

definition tab2 :: string where "tab2 = [CHR 0x09, CHR 0x09]"

definition attr :: "string \<Rightarrow> string \<Rightarrow> string" where
  "attr k v = k @ ''='' @ [dquote] @ v @ [dquote]"

definition error_html :: "(string \<Rightarrow> string) \<Rightarrow> error \<Rightarrow> string" where
  "error_html T e = (''<div '' @ attr ''class'' ''alert alert-error'' @ ''>'' @ T ''update.error'' @ '': '') @ EscapeString e @ ''</div>''"

definition uptodate_html :: "(string \<Rightarrow> string) \<Rightarrow> string \<Rightarrow> string" where
  "uptodate_html T v = ''<div '' @ attr ''class'' ''alert alert-success'' @ '' '' @ attr ''style'' ''margin-top:var(--space-md);'' @ ''>'' @
     T ''update.upToDate'' @ '' ('' @ v @ '')</div>''"

definition versions_html :: "(string \<Rightarrow> string) \<Rightarrow> string \<Rightarrow> string \<Rightarrow> string" where
  "versions_html T latest current =
     (''<div '' @ attr ''style'' ''margin-top:var(--space-md); padding:var(--space-md); border:1px solid var(--border-color); border-radius:var(--radius-md);'' @
      ''>'' @ nl @ tab2 @
      ''<div '' @ attr ''style'' ''font-weight:700; margin-bottom:var(--space-sm);'' @ ''>'' @ T ''update.available'' @ '': '') @ EscapeString latest @
     (''</div>'' @ nl @ tab2 @
      ''<div '' @ attr ''style'' ''color:var(--text-secondary); font-size:var(--font-sm); margin-bottom:var(--space-sm);'' @ ''>'' @
      T ''update.currentVersion'' @ '': '') @ EscapeString current @ ''</div>''"

definition size_html :: "(string \<Rightarrow> string) \<Rightarrow> int \<Rightarrow> string" where
  "size_html T n = (if n > 0
     then (''<div '' @ attr ''style'' ''color:var(--text-secondary); font-size:var(--font-sm); margin-bottom:var(--space-sm);'' @ ''>'' @
       T ''update.size'' @ '': '') @ megabytes (nat n) @ '' MB</div>'' else [])"

definition notes_html :: "(string \<Rightarrow> string) \<Rightarrow> string \<Rightarrow> string" where
  "notes_html T notes = (if notes \<noteq> []
     then (''<details '' @ attr ''style'' ''margin-bottom:var(--space-md);'' @ ''><summary '' @ attr ''style'' ''cursor:pointer;'' @ ''>'' @ T ''update.releaseNotes'' @
       ''</summary><pre '' @ attr ''style'' ''font-size:var(--font-xs); white-space:pre-wrap; margin-top:var(--space-sm);'' @ ''>'') @
       EscapeString notes @ ''</pre></details>'' else [])"

definition button_html :: "(string \<Rightarrow> string) \<Rightarrow> string" where
  "button_html T = ''<button '' @ attr ''class'' ''btn btn-primary btn-sm'' @ '' '' @ attr ''hx-post'' ''/system/update/apply'' @ '' '' @ attr ''hx-swap'' ''none'' @ '' '' @
     attr ''hx-confirm'' (T ''update.confirmApply'') @ ''>'' @ T ''update.downloadAndInstall'' @ ''</button></div>''"

definition available_html :: "(string \<Rightarrow> string) \<Rightarrow> UpdateInfo \<Rightarrow> string" where
  "available_html T i = versions_html T (uiLatestVersion i) (uiCurrentVersion i) @ size_html T (uiAssetSize i) @
     notes_html T (uiReleaseNotes i) @ button_html T"

definition write_text :: "string \<Rightarrow> response \<times> 's \<Rightarrow> response \<times> 's" where
  "write_text body = (\<lambda>(w, s). (Write body w, s))"

definition check_update :: "syshenv \<Rightarrow> sys_state \<Rightarrow> (error + UpdateInfo) \<times> sys_state" where
  "check_update env = (\<lambda>(u, wd). case CheckForUpdate (shUpd env) u wd of (r, wd') \<Rightarrow> (r, (u, wd')))"

definition HandleCheckUpdate :: "syshenv \<Rightarrow> sys_state hfun" where
  "HandleCheckUpdate env r = (let T = shT env (LangFromContext r) in
     observe (check_update env) (\<lambda>res. case res of
         Inl e \<Rightarrow> write_text (error_html T e)
       | Inr info \<Rightarrow> write_text (if uiAvailable info then available_html T info else uptodate_html T (uiCurrentVersion info))))"

definition HandleApplyUpdate :: "syshenv \<Rightarrow> sys_state hfun" where
  "HandleApplyUpdate env r = do_action (check_update env) (err_text 500) (\<lambda>info.
     if \<not> uiAvailable info then refuse ''no update available'' 400
     else do_action (lift_err (ApplyUpdate (shUpd env) info (shNow env))) (err_text 500) (\<lambda>_. ok_header))"

definition HandleConfirmUpdate :: "syshenv \<Rightarrow> sys_state hfun" where
  "HandleConfirmUpdate env r = observe (\<lambda>s. ((), ConfirmUpdate (shUpd env) s)) (\<lambda>_. finish ''/settings'' r)"

definition HandleRollbackUpdate :: "syshenv \<Rightarrow> sys_state hfun" where
  "HandleRollbackUpdate env r = do_action (lift_err (Rollback (shUpd env))) (err_text 500) (\<lambda>_. ok_header)"

definition HandleVersion :: "syshenv \<Rightarrow> sys_state hfun" where
  "HandleVersion env r = (\<lambda>(w, (u, wd)).
     (let w1 = Header_Set ''Content-Type'' ''application/json'' w in
      case shJSON env (GetVersionInfo u) of Inl e \<Rightarrow> (w1, (u, wd)) | Inr text \<Rightarrow> (Write (text @ nl) w1, (u, wd))))"

section \<open>Release text cannot become markup\<close>

text \<open>The bytes that start, end or delimit markup.\<close>

definition markup :: "string \<Rightarrow> string" where
  "markup s = filter (\<lambda>c. c = CHR ''<'' \<or> c = CHR ''>'' \<or> c = dquote \<or> c = CHR 0x27) s"

lemma markup_append [simp]: "markup (a @ b) = markup a @ markup b"
  by (simp add: markup_def)

lemma markup_EscapeString [simp]: "markup (EscapeString s) = []"
proof -
  have "markup (escape_char c) = []" for c by (auto simp: markup_def escape_char_def dquote_def)
  then show ?thesis by (induction s) (simp_all add: EscapeString_def markup_def)
qed

lemma digits_no_markup: "markup (Itoa (int n)) = []"
proof -
  have "\<not> (c = CHR ''<'' \<or> c = CHR ''>'' \<or> c = dquote \<or> c = CHR 0x27)" if "is_digit c" for c
    using that by (auto simp: is_digit_def dquote_def)
  then show ?thesis using nat_digits_props [of n] by (auto simp: markup_def Itoa_def list_all_iff filter_empty_conv)
qed

lemma markup_megabytes [simp]: "markup (megabytes n) = []"
  unfolding megabytes_def Let_def markup_append digits_no_markup by (simp add: markup_def dquote_def)

text \<open>What of the answer depends on the release: whether there is something to show, not what it says.\<close>

definition answer_shape :: "error + UpdateInfo \<Rightarrow> nat" where
  "answer_shape res = (case res of Inl e \<Rightarrow> 0 | Inr i \<Rightarrow>
     if \<not> uiAvailable i then 1 else 2 + (if uiAssetSize i > 0 then 1 else 0) + (if uiReleaseNotes i \<noteq> [] then 2 else 0))"

lemma markup_around:
  "markup (a @ EscapeString s @ b) = markup a @ markup b"
  "markup (a @ megabytes n @ b) = markup a @ markup b"
  by simp_all

lemma versions_markup: "markup (versions_html T l c) = markup (versions_html T l' c')"
  unfolding versions_html_def markup_around ..

lemma size_markup: "(n > 0) = (n' > 0) \<Longrightarrow> markup (size_html T n) = markup (size_html T n')"
  unfolding size_html_def by (cases "n > 0") (simp_all only: if_True if_False markup_around)

lemma notes_markup: "(s \<noteq> []) = (s' \<noteq> []) \<Longrightarrow> markup (notes_html T s) = markup (notes_html T s')"
  unfolding notes_html_def by (cases "s = []"; cases "s' = []") (simp_all only: simp_thms if_True if_False markup_around)

lemma available_markup:
  assumes "(uiAssetSize i > 0) = (uiAssetSize j > 0)" "(uiReleaseNotes i \<noteq> []) = (uiReleaseNotes j \<noteq> [])"
  shows "markup (available_html T i) = markup (available_html T j)"
  unfolding available_html_def markup_append
  using versions_markup [of T "uiLatestVersion i" "uiCurrentVersion i"] size_markup [OF assms(1)] notes_markup [OF assms(2)] by simp

lemma error_markup: "markup (error_html T e) = markup (error_html T e')"
  unfolding error_html_def markup_around ..

lemma check_current: "fst (check_update env (u, wd)) = Inr i \<Longrightarrow> uiCurrentVersion i = usVersion u"
proof -
  have pick: "uiCurrentVersion (foldl (\<lambda>i a. pick_asset arch a i) i0 as) = uiCurrentVersion i0" for arch i0 as
    by (induction as arbitrary: i0) (simp_all add: pick_asset_def)
  show "fst (check_update env (u, wd)) = Inr i \<Longrightarrow> uiCurrentVersion i = usVersion u"
    by (auto simp: check_update_def CheckForUpdate_def Let_def pick split: prod.splits sum.splits if_splits)
qed

lemma check_body:
  "rsBody (fst (HandleCheckUpdate env r (empty_response, (u, wd)))) =
     (case fst (check_update env (u, wd)) of
        Inl e \<Rightarrow> error_html (shT env (LangFromContext r)) e
      | Inr i \<Rightarrow> if uiAvailable i then available_html (shT env (LangFromContext r)) i else uptodate_html (shT env (LangFromContext r)) (uiCurrentVersion i))"
  by (simp add: HandleCheckUpdate_def Let_def observe_def write_text_def Write_def WriteHeader_def empty_response_def split: prod.splits sum.splits)

text \<open>
  The answer of the update check cannot carry markup of its own: two answers of the release server that agree in whether there
  is an error, an update, a size and release notes give pages with the same tags and quotation marks in the same order, whatever
  the error text, version names and release notes contain.
\<close>

theorem update_page_markup_fixed:
  assumes "answer_shape (fst (check_update env (u, wd))) = answer_shape (fst (check_update env' (u, wd')))" "shT env' = shT env"
  shows "markup (rsBody (fst (HandleCheckUpdate env r (empty_response, (u, wd))))) =
    markup (rsBody (fst (HandleCheckUpdate env' r (empty_response, (u, wd')))))"
proof -
  let ?a = "fst (check_update env (u, wd))" and ?b = "fst (check_update env' (u, wd'))"
  show ?thesis
  proof (cases ?a)
    case (Inl e)
    then obtain e' where "?b = Inl e'" using assms(1) by (cases ?b) (auto simp: answer_shape_def split: if_splits)
    then show ?thesis using Inl assms(2) error_markup unfolding check_body by simp
  next
    case (Inr i)
    then obtain j where j: "?b = Inr j" using assms(1) by (cases ?b) (auto simp: answer_shape_def split: if_splits)
    have shape: "uiAvailable i = uiAvailable j"
      "uiAvailable i \<Longrightarrow> (uiAssetSize i > 0) = (uiAssetSize j > 0) \<and> (uiReleaseNotes i \<noteq> []) = (uiReleaseNotes j \<noteq> [])"
      using assms(1) Inr j by (auto simp: answer_shape_def split: if_splits)
    show ?thesis
    proof (cases "uiAvailable i")
      case True
      then show ?thesis using Inr j shape assms(2) available_markup [of i j] unfolding check_body by simp
    next
      case False
      then show ?thesis using Inr j shape assms(2) check_current [OF Inr] check_current [OF j] unfolding check_body by simp
    qed
  qed
qed

definition offline_upd :: "error \<Rightarrow> updenv" where
  "offline_upd e = \<lparr>upSys = calm_env, upGet = (\<lambda>_ _. Inl e), upRelease = (\<lambda>_. Inl []), upSha256 = (\<lambda>s. s), upGunzip = (\<lambda>_. Inr []),
     upEncode = (\<lambda>_. []), upDecode = (\<lambda>_. Inl []), upExport = None\<rparr>"

definition offline_system :: "error \<Rightarrow> syshenv" where
  "offline_system e = \<lparr>shUpd = offline_upd e, shBackup = None, shConfigDir = ''/etc/lankeeper'', shLocal = (\<lambda>_. 0), shNow = 0, shTempDir = ''/tmp'',
     shTempName = Inr ''/tmp/x'', shFile = (\<lambda>_. None), shCopyErr = None, shBcrypt = Inr, shDHCP = None, shT = (\<lambda>_ k. k), shJSON = (\<lambda>_. Inr [])\<rparr>"

definition blank_system :: world where
  "blank_system = \<lparr>wStore = \<lparr>cfg = zero_Config, disk = Map.empty\<rparr>, wTrace = []\<rparr>"

theorem update_page_markup_fixed_witness:
  "markup (rsBody (fst (HandleCheckUpdate (offline_system ''timeout'') (demo_request ''GET'' ''/system/update/check'' []) (empty_response, (demo_service, blank_system))))) =
   markup (rsBody (fst (HandleCheckUpdate (offline_system ''<script>'') (demo_request ''GET'' ''/system/update/check'' []) (empty_response, (demo_service, blank_system)))))"
  by (rule update_page_markup_fixed)
    (simp_all add: offline_system_def offline_upd_def check_update_def CheckForUpdate_def answer_shape_def)

section \<open>Failed exports\<close>

text \<open>
  The archive is written in the clear first and encrypted in place. When encryption fails the export is answered with an
  error, and the plain archive stays where it was written.
\<close>

lemma failed_export_leaves_plaintext:
  assumes "rqForm r ''passphrase'' \<noteq> []" "bk_tar b (disk (wStore wd)) = (None, Some archive)"
    "bk_err b (BkReadFile (export_path env)) = None" "encryptBackup (bk_crypto b) archive (rqForm r ''passphrase'') = Inl e"
    "export_path env \<noteq> []"
  shows "disk (wStore (snd (snd (HandleExport env b r (w, (u, wd)))))) (export_path env) = Some archive"
  using assms
  by (simp add: HandleExport_def Let_def do_action_def lift_err_def on_snd_def on_disk_def Export_def bk_read_def refuse_def)

end
