(* ===== verification/DNSRun.thy ===== *)
theory DNSRun
  imports DoH DHCP NAS NTP OpenVPN HandlersSystem
begin

text \<open>
  The running side of the DNS and DHCP services (\<^verbatim>\<open>internal/services/dns.go\<close>, \<^verbatim>\<open>internal/services/dhcp.go\<close>): the files
  that the templates \<^verbatim>\<open>configs/sysconf/unbound.conf.tmpl\<close> and \<^verbatim>\<open>configs/sysconf/dnsmasq.conf.tmpl\<close> give, writing
  and reloading them, the statistics of unbound, the goroutines that follow the query log, the probe of a
  DNS-over-TLS server, and the reader of the lease file. Opening template files, the DNS message package and
  the network are parameters.
\<close>

section \<open>Files of indented lines\<close>

definition line_text :: "string \<times> string list \<Rightarrow> string" where
  "line_text = (\<lambda>(ind, ws). ind @ Join ws '' '' @ nl)"

definition layout :: "(string \<times> string list) list \<Rightarrow> string" where
  "layout L = concat (map line_text L)"

definition line_ok :: "string \<times> string list \<Rightarrow> bool" where
  "line_ok = (\<lambda>(ind, ws). set ind \<subseteq> {CHR '' ''} \<and> list_all word_ok ws)"

definition four :: "string list \<Rightarrow> string \<times> string list" where
  "four ws = (''    '', ws)"

lemma Fields_acc_blanks: "set ind \<subseteq> {CHR '' ''} \<Longrightarrow> Fields (ind @ s) = Fields s"
  by (induction ind) (auto simp: Fields_def is_space_def)

lemma Fields_line: "line_ok l \<Longrightarrow> Fields (fst l @ Join (snd l) '' '') = snd l"
  by (auto simp: line_ok_def Fields_acc_blanks list_all_iff word_ok_def split: prod.splits intro!: Fields_Join)

lemma is_space_newline: "is_space (CHR 0x0A)"
  by (simp add: is_space_def)

lemma words_no_newline: "list_all word_ok ws \<Longrightarrow> w \<in> set ws \<Longrightarrow> CHR 0x0A \<notin> set w"
  by (metis list_all_iff word_ok_def is_space_newline)

lemma directives_layout: "list_all line_ok L \<Longrightarrow> directives (layout L) = filter (\<lambda>ws. ws \<noteq> []) (map snd L)"
proof -
  have "list_all line_ok L \<Longrightarrow> Split (layout L) (CHR 0x0A) = map (\<lambda>l. fst l @ Join (snd l) '' '') L @ [[]]"
  proof (induction L)
    case (Cons l L)
    obtain ind ws where l: "l = (ind, ws)" by fastforce
    have ok: "set ind \<subseteq> {CHR '' ''}" "list_all word_ok ws" using Cons.prems by (simp_all add: l line_ok_def)
    have "CHR 0x0A \<notin> set (Join ws '' '')" 
    proof
      assume "CHR 0x0A \<in> set (Join ws '' '')"
      then have "CHR 0x0A = CHR '' '' \<or> (\<exists>w \<in> set ws. CHR 0x0A \<in> set w)" by (rule set_Join_words)
      then show False using words_no_newline [OF ok(2)] by (elim disjE bexE) simp_all
    qed
    moreover have "CHR 0x0A \<notin> set ind" using ok(1) by auto
    ultimately have "CHR 0x0A \<notin> set (ind @ Join ws '' '')" by simp
    then have "Split ((ind @ Join ws '' '') @ CHR 0x0A # layout L) (CHR 0x0A) = (ind @ Join ws '' '') # Split (layout L) (CHR 0x0A)"
      by (rule Split_append_sep)
    then show ?case using Cons by (simp add: l layout_def line_text_def nl_def)
  qed (simp add: layout_def)
  moreover assume "list_all line_ok L"
  moreover from this have "map (Fields \<circ> (\<lambda>l. fst l @ Join (snd l) '' '')) L = map snd L"
    by (simp add: list_all_iff Fields_line)
  ultimately show ?thesis by (simp add: directives_def Fields_def del: map_map add: map_map [symmetric])
qed

section \<open>The unbound file\<close>

definition qm :: string where "qm = [CHR 0x22]"

definition record_lines :: "renderStaticRecord \<Rightarrow> (string \<times> string list) list" where
  "record_lines r =
     four [''local-data:'', qm @ rsName r @ ''.'', ''IN'', ''A'', rsIP r @ qm] #
     (if rsPTR r \<noteq> [] then [four [''local-data:'', qm @ rsPTR r, ''IN'', ''PTR'', rsName r @ ''.'' @ qm]] else []) @
     (if rsLocalZone r then [four [''local-zone:'', qm @ rsName r @ ''.'' @ qm, ''typetransparent'']] else [])"

definition allow_line :: "string \<Rightarrow> string \<times> string list" where
  "allow_line s = four [''access-control:'', s, ''allow'']"

definition unbound_access :: "unboundTemplateData \<Rightarrow> (string \<times> string list) list" where
  "unbound_access d =
     [([], [''server:'']), four [''interface:'', ''0.0.0.0'']] @
     (if utIPv6Enabled d then [four [''interface:'', ''::0''], four [''do-ip6:'', ''yes'']] else [four [''do-ip6:'', ''no'']]) @
     [four [''do-ip4:'', ''yes''], four [''do-udp:'', ''yes''], four [''do-tcp:'', ''yes''], ([], []),
      allow_line ''127.0.0.0/8'', allow_line ''10.10.10.0/24''] @
     map allow_line (utAllowSubnets d) @
     (if utIPv6Enabled d
      then [allow_line ''::1/128'', allow_line ''fe80::/10''] @ (if utULAPrefix d \<noteq> [] then [allow_line (utULAPrefix d)] else [])
      else [])"

definition unbound_cache :: "unboundTemplateData \<Rightarrow> (string \<times> string list) list" where
  "unbound_cache d =
     [([], []), four [''hide-identity:'', ''yes''], four [''hide-version:'', ''yes''], four [''harden-glue:'', ''yes''],
      four [''harden-dnssec-stripped:'', ''yes''], four [''use-caps-for-id:'', ''yes''], ([], []),
      four [''cache-min-ttl:'', ''300''], four [''cache-max-ttl:'', ''86400''],
      four [''msg-cache-size:'', Itoa (utCacheSize d) @ ''m''],
      four [''rrset-cache-size:'', Itoa (wrap64 (utCacheSize d * 2)) @ ''m''],
      four [''key-cache-size:'', Itoa (utCacheSize d) @ ''m''], ([], []),
      four [''prefetch:'', ''yes''], four [''prefetch-key:'', ''yes''], four [''minimal-responses:'', ''yes''], ([], []),
      four [''num-threads:'', ''2''], four [''so-reuseport:'', ''yes'']]"

definition unbound_log :: "unboundTemplateData \<Rightarrow> (string \<times> string list) list" where
  "unbound_log d =
     (if utQueryLogEnabled d
      then [four [''log-queries:'', ''yes''], four [''verbosity:'', ''2''], four [''logfile:'', qm @ utQueryLogPath d @ qm]]
      else [four [''verbosity:'', ''1'']]) @
     [([], []), four [''root-hints:'', qm @ ''/usr/share/dns/root.hints'' @ qm],
      four [''auto-trust-anchor-file:'', qm @ ''/var/lib/unbound/root.key'' @ qm]]"

definition unbound_forward :: "unboundTemplateData \<Rightarrow> (string \<times> string list) list" where
  "unbound_forward d =
     [([], []), four [''include:'', qm @ ''/etc/unbound/blocklist.conf'' @ qm]] @
     (if utEnableDoT d
      then [([], [''forward-zone:'']), four [''name:'', qm @ ''.'' @ qm], four [''forward-tls-upstream:'', ''yes''],
            four [''forward-addr:'', utDoTUpstream d]]
      else if utEnableDoH d
      then [([], [''forward-zone:'']), four [''name:'', qm @ ''.'' @ qm], four [''forward-tls-upstream:'', ''no''],
            four [''forward-addr:'', ''127.0.0.1@5353'']]
      else [])"

definition unbound_lines :: "unboundTemplateData \<Rightarrow> (string \<times> string list) list" where
  "unbound_lines d =
     unbound_access d @ unbound_cache d @ unbound_log d @ concat (map record_lines (utStaticRecords d)) @ unbound_forward d"

definition unbound_text :: "unboundTemplateData \<Rightarrow> string" where
  "unbound_text d = layout (unbound_lines d)"

section \<open>Applying the DNS configuration\<close>

record dnsenv =
  dnSys :: sysenv
  dnParse :: "error option"
  dnLookup :: resolver_fn
  dnTruncates :: bool

definition go_net :: "dnsenv \<Rightarrow> netenv" where
  "go_net env = \<lparr>net_ParseIP = ParseIP, net_LookupIP = dnLookup env, ip_String = ip_text\<rparr>"

definition dns_data :: "dnsenv \<Rightarrow> Config \<Rightarrow> unboundTemplateData" where
  "dns_data env c = dns_template_data (go_net env) subnetFromCIDR c"

definition dns_RenderConfig :: "dnsenv \<Rightarrow> Config \<Rightarrow> error + string" where
  "dns_RenderConfig env c = (case dnParse env of
       Some e \<Rightarrow> Inl (''parse unbound template: '' @ e) | None \<Rightarrow> Inr (unbound_text (dns_data env c)))"

definition dns_RenderToDisk :: "dnsenv \<Rightarrow> unit action" where
  "dns_RenderToDisk env w = io_bind (io_lift (dns_RenderConfig env (wcfg w))) (\<lambda>rendered.
     io_then (sys (dnSys env) (CWriteFile ''/etc/unbound/unbound.conf'' rendered 420)) (io_return ())) w"

definition dns_Reload :: "dnsenv \<Rightarrow> unit action" where
  "dns_Reload env = io_then (io_wrap ''unbound reload: '' (sys (dnSys env) (CRun ''unbound-control'' [''reload'']))) (io_return ())"

definition dns_ApplyConfig :: "dnsenv \<Rightarrow> unit action" where
  "dns_ApplyConfig env = io_then (dns_RenderToDisk env) (dns_Reload env)"

text \<open>The blocklist through the agent: the file of theory \<open>DNS\<close>, then a reload.\<close>

definition dns_UpdateBlocklist :: "dnsenv \<Rightarrow> (string \<Rightarrow> string list \<times> error option) \<Rightarrow> unit action" where
  "dns_UpdateBlocklist env fetch w =
     io_then (io_wrap ''write blocklist: '' (sys (dnSys env) (CWriteFile ''/etc/unbound/blocklist.conf''
         (concat (map zone_line (dedupe (blocklist_domains fetch (wcfg w)) {}))) 420)))
       (dns_Reload env) w"

definition unbound_stat :: "DNSStats \<Rightarrow> string \<Rightarrow> DNSStats" where
  "unbound_stat st line =
     (let parts = SplitN2 line (CHR ''='') in
      if length parts \<noteq> 2 then st
      else let key = TrimSpace (parts ! 0); val = TrimSpace (parts ! 1) in
        if key = ''total.num.queries'' then st\<lparr>stTotalQueries := scan_into val (stTotalQueries st)\<rparr>
        else if key = ''total.num.cachehits'' then st\<lparr>stCacheHits := scan_into val (stCacheHits st)\<rparr>
        else if key = ''total.num.cachemiss'' then st\<lparr>stCacheMisses := scan_into val (stCacheMisses st)\<rparr>
        else st)"

definition GetStats :: "dnsenv \<Rightarrow> DNSService \<Rightarrow> DNSStats action" where
  "GetStats env s =
     io_bind (io_wrap ''unbound stats: '' (sys (dnSys env) (CRun ''unbound-control'' [''stats_noreset'']))) (\<lambda>out.
       io_return ((foldl unbound_stat zero_DNSStats (Split out (CHR 0x0A)))
         \<lparr>stBlockedCount := stBlockedCount (stats s), stTopDomains := stTopDomains (stats s),
          stTopClients := stTopClients (stats s), stTopBlocked := stTopBlocked (stats s)\<rparr>))"

definition GetDNSConfig :: "store \<Rightarrow> DNSConfig" where
  "GetDNSConfig st = cfgDNS (cfg st)"

text \<open>
  \<open>ClearQueryLog\<close> with the file: it is emptied when a path is configured and the file exists; a failing
  truncation is logged.
\<close>

definition truncate_file :: "string \<Rightarrow> disk \<Rightarrow> disk" where
  "truncate_file p d = (if d p = None then d else d(p \<mapsto> []))"

definition clear_log_file :: "dnsenv \<Rightarrow> world \<Rightarrow> unit \<times> world" where
  "clear_log_file env w =
     (let logPath = qlLogPath (dnsQueryLog (cfgDNS (wcfg w))) in
      ((), if logPath \<noteq> [] \<and> dnTruncates env then w\<lparr>wStore := (wStore w)\<lparr>disk := truncate_file logPath (disk (wStore w))\<rparr>\<rparr> else w))"

section \<open>Following the query log\<close>

text \<open>
  One round of \<open>tailQueryLog\<close>: the text of the file when it was opened, the text when its end was reached, and,
  for a round that is cancelled, the number of lines taken before. A file that cannot be opened is no round.
\<close>

type_synonym tail_round = "(string \<times> string \<times> nat option) option"

definition tail_pass :: "tail_round \<Rightarrow> DNSService \<Rightarrow> DNSService" where
  "tail_pass r s = (case r of None \<Rightarrow> s
     | Some (opened, ended, cancelled) \<Rightarrow>
         (let ls = fst (scan_lines (drop (length opened) ended, None)) in
          fold tail_line (case cancelled of None \<Rightarrow> ls | Some n \<Rightarrow> take n ls) s))"

datatype dns_event = TailRound tail_round | StatsTick

definition dns_event_step :: "(DomainCount list \<Rightarrow> DomainCount list) \<Rightarrow> dns_event \<Rightarrow> DNSService \<Rightarrow> DNSService" where
  "dns_event_step order ev s = (case ev of TailRound r \<Rightarrow> tail_pass r s | StatsTick \<Rightarrow> computeTopLists order s)"

text \<open>\<open>tailQueryLog\<close> and \<open>aggregateStats\<close> run until they are cancelled.\<close>

definition tailQueryLog :: "tail_round list \<Rightarrow> DNSService \<Rightarrow> DNSService" where
  "tailQueryLog rounds s = fold tail_pass rounds s"

definition aggregateStats :: "(DomainCount list \<Rightarrow> DomainCount list) \<Rightarrow> nat \<Rightarrow> DNSService \<Rightarrow> DNSService" where
  "aggregateStats order ticks s = (computeTopLists order ^^ ticks) s"

text \<open>\<open>StartQueryLogTail\<close> starts both; \<open>evs\<close> is how their steps interleave until \<open>StopQueryLogTail\<close>.\<close>

definition StartQueryLogTail :: "(DomainCount list \<Rightarrow> DomainCount list) \<Rightarrow> Config \<Rightarrow> dns_event list \<Rightarrow> DNSService \<Rightarrow> DNSService" where
  "StartQueryLogTail order c evs s = (if qlEnabled (dnsQueryLog (cfgDNS c)) then fold (dns_event_step order) evs s else s)"

lemma tail_line_bound: "length (queryBuf s) \<le> bufSize \<Longrightarrow> length (queryBuf (tail_line l s)) \<le> bufSize"
  by (auto simp: tail_line_def push_query_def bufSize_def split: option.splits)

lemma tail_pass_bound: "length (queryBuf s) \<le> bufSize \<Longrightarrow> length (queryBuf (tail_pass r s)) \<le> bufSize"
proof -
  have "length (queryBuf s) \<le> bufSize \<Longrightarrow> length (queryBuf (fold tail_line ls s)) \<le> bufSize" for ls
    by (induction ls arbitrary: s) (simp_all add: tail_line_bound)
  then show "length (queryBuf s) \<le> bufSize \<Longrightarrow> length (queryBuf (tail_pass r s)) \<le> bufSize"
    by (simp add: tail_pass_def Let_def split: option.splits prod.splits)
qed

text \<open>The buffer stays within its bound however the two goroutines interleave.\<close>

lemma query_buffer_bounded:
  "length (queryBuf s) \<le> bufSize \<Longrightarrow> length (queryBuf (StartQueryLogTail order c evs s)) \<le> bufSize"
proof -
  have "length (queryBuf s) \<le> bufSize \<Longrightarrow> length (queryBuf (fold (dns_event_step order) evs s)) \<le> bufSize"
    by (induction evs arbitrary: s)
      (simp_all add: dns_event_step_def tail_pass_bound computeTopLists_def Let_def split: dns_event.splits)
  then show "length (queryBuf s) \<le> bufSize \<Longrightarrow> length (queryBuf (StartQueryLogTail order c evs s)) \<le> bufSize"
    by (simp add: StartQueryLogTail_def)
qed

lemma queryBuf_computeTopLists [simp]: "queryBuf (computeTopLists order s) = queryBuf s"
  by (simp add: computeTopLists_def Let_def)

text \<open>
  Every round starts at the end of the file. What unbound writes while the goroutine sleeps between two rounds lies
  before that end: if nothing is written during the rounds themselves, no entry is ever seen, however the file grows.
\<close>

lemma sleeping_tail_sees_nothing:
  assumes "\<forall>ev \<in> set evs. \<forall>opened ended n. ev = TailRound (Some (opened, ended, n)) \<longrightarrow> ended = opened"
  shows "queryBuf (StartQueryLogTail order c evs s) = queryBuf s"
proof -
  have "tail_pass (Some (t, t, n)) s = s" for t n s
    by (cases n) (simp_all add: tail_pass_def scan_lines_def scan_pieces_def Let_def)
  then have "queryBuf (fold (dns_event_step order) evs s) = queryBuf s"
    using assms
  proof (induction evs arbitrary: s)
    case (Cons ev evs)
    have "queryBuf (dns_event_step order ev s) = queryBuf s"
    proof (cases ev)
      case (TailRound r)
      then show ?thesis using Cons.prems by (cases r) (auto simp: dns_event_step_def tail_pass_def)
    qed (simp add: dns_event_step_def)
    then show ?case using Cons by simp
  qed simp
  then show ?thesis by (simp add: StartQueryLogTail_def)
qed

section \<open>Probing a DNS-over-TLS server\<close>

text \<open>
  A connection as the pieces in which the answer arrives and the error after the last one. \<open>conn.Read\<close> gives at most
  one piece; the rest of the buffer keeps its zeros.
\<close>

definition conn_read :: "error \<Rightarrow> nat \<Rightarrow> string list \<Rightarrow> error + string \<times> string list" where
  "conn_read e n pieces = (case pieces of [] \<Rightarrow> Inl e
     | p # ps \<Rightarrow> Inr (take n p @ replicate (n - length p) (CHR 0x00), if length p > n then drop n p # ps else ps))"

record dotenv =
  dtNet :: netenv
  dtDial :: "string \<Rightarrow> string \<Rightarrow> error + string list \<times> error"
  dtPack :: "error + string"
  dtWrite :: "string \<Rightarrow> error option"
  dtUnpack :: "string \<Rightarrow> error option"
  dtLatency :: duration

definition dot_frame :: "string \<Rightarrow> string" where
  "dot_frame wire = [char_of (length wire div 256), char_of (length wire)] @ wire"

definition resp_len :: "string \<Rightarrow> nat" where
  "resp_len hdr = 256 * of_char (hdr ! 0) + of_char (hdr ! 1)"

definition read_answer :: "dotenv \<Rightarrow> error \<Rightarrow> string list \<Rightarrow> error + duration" where
  "read_answer env e pieces =
     (case conn_read e 2 pieces of
        Inl err \<Rightarrow> Inl (''read header: '' @ err)
      | Inr (hdr, ps) \<Rightarrow>
          if resp_len hdr = 0 \<or> resp_len hdr > 65535 then Inl ''invalid response length''
          else (case conn_read e (resp_len hdr) ps of
              Inl err \<Rightarrow> Inl (''read body: '' @ err)
            | Inr (resp, _) \<Rightarrow> (case dtUnpack env resp of
                  Some err \<Rightarrow> Inl (''unpack: '' @ err) | None \<Rightarrow> Inr (dtLatency env))))"

definition ProbeDoT :: "dotenv \<Rightarrow> string \<Rightarrow> error + duration" where
  "ProbeDoT env upstream =
     (case parseAndValidateDoTSpec (dtNet env) (TrimSpace upstream) of
        Inl e \<Rightarrow> Inl e
      | Inr (host, port, sni) \<Rightarrow>
          (case dtDial env (JoinHostPort host port) sni of
             Inl e \<Rightarrow> Inl (''dial: '' @ e)
           | Inr (pieces, e) \<Rightarrow>
               (case dtPack env of
                  Inl err \<Rightarrow> Inl (''pack: '' @ err)
                | Inr wire \<Rightarrow> (case dtWrite env (dot_frame wire) of
                    Some err \<Rightarrow> Inl (''write: '' @ err)
                  | None \<Rightarrow> read_answer env e pieces))))"

lemma resp_len_frame: "length wire < 65536 \<Longrightarrow> resp_len (take 2 (dot_frame wire)) = length wire"
  by (simp add: resp_len_def dot_frame_def numeral_2_eq_2 mod_mult2_eq [symmetric])

text \<open>An answer that arrives in one piece, or as its length and its body, is handed to the package unchanged.\<close>

lemma whole_answer_unpacked:
  assumes "0 < length body" "length body < 65536" "pieces = [dot_frame body] \<or> pieces = [take 2 (dot_frame body), body]"
  shows "read_answer env e pieces =
    (case dtUnpack env body of Some err \<Rightarrow> Inl (''unpack: '' @ err) | None \<Rightarrow> Inr (dtLatency env))"
proof -
  have "conn_read e 2 pieces = Inr (take 2 (dot_frame body), [body])"
    using assms by (auto simp: conn_read_def dot_frame_def)
  then show ?thesis
    using assms(1,2) by (simp add: read_answer_def resp_len_frame) (simp add: conn_read_def)
qed

text \<open>
  A single \<open>Read\<close> is not \<open>io.ReadFull\<close>: when the two bytes of the length arrive separately the length is taken
  from the first byte alone, and the answer of a working server is refused.
\<close>

lemma split_length_refused:
  assumes "length body < 256"
  shows "read_answer env e [take 1 (dot_frame body), drop 1 (dot_frame body)] = Inl ''invalid response length''"
  using assms by (simp add: read_answer_def conn_read_def dot_frame_def resp_len_def)

section \<open>The lease file\<close>

text \<open>The file is absent, cannot be opened, or has a text.\<close>

definition ParseLeaseFile :: "gotime \<Rightarrow> (error + string) option \<Rightarrow> Lease list \<times> error option" where
  "ParseLeaseFile now f = (case f of
       None \<Rightarrow> ([], None)
     | Some (Inl e) \<Rightarrow> ([], Some (''open lease file: '' @ e))
     | Some (Inr text) \<Rightarrow> (case scan_lines (text, None) of (ls, err) \<Rightarrow> (List.map_filter (parse_lease_line now) ls, err)))"

definition GetLeases :: "gotime \<Rightarrow> (string \<Rightarrow> (error + string) option) \<Rightarrow> Lease list \<times> error option" where
  "GetLeases now fs = ParseLeaseFile now (fs ''/var/lib/misc/dnsmasq.leases'')"

lemma parse_lease_drop_cr: "parse_lease_line now (drop_cr l) = parse_lease_line now l"
  by (simp add: parse_lease_line_def TrimSpace_drop_cr)

lemma map_filter_Nil_line: "List.map_filter (parse_lease_line now) (ls @ [[]]) = List.map_filter (parse_lease_line now) ls"
  by (simp add: map_filter_def parse_lease_line_def TrimSpace_def)

lemma map_filter_pieces: "List.map_filter (parse_lease_line now) (scan_pieces text) = ParseLeaseData now text"
proof (cases "last (Split text (CHR 0x0A)) = []")
  case True
  then have "Split text (CHR 0x0A) = butlast (Split text (CHR 0x0A)) @ [[]]"
    by (metis append_butlast_last_id Split_not_Nil)
  then have "ParseLeaseData now text = List.map_filter (parse_lease_line now) (butlast (Split text (CHR 0x0A)))"
    unfolding ParseLeaseData_def by (metis map_filter_Nil_line)
  then show ?thesis using True by (simp add: scan_pieces_def)
qed (simp add: scan_pieces_def ParseLeaseData_def)

lemma map_filter_drop_cr: "List.map_filter (parse_lease_line now) (map drop_cr ls) = List.map_filter (parse_lease_line now) ls"
  by (induction ls) (simp_all add: List.map_filter_simps parse_lease_drop_cr split: option.splits)

text \<open>The two readers of lease data agree on files whose lines fit the buffer of the scanner.\<close>

lemma lease_readers_agree:
  assumes "list_all fits (scan_pieces text)"
  shows "ParseLeaseFile now (Some (Inr text)) = (ParseLeaseData now text, None)"
proof -
  have "takeWhile fits (scan_pieces text) = scan_pieces text" using assms by (simp add: takeWhile_eq_all_conv list_all_iff)
  then show ?thesis using assms
    by (simp add: ParseLeaseFile_def scan_lines_def Let_def map_filter_drop_cr map_filter_pieces del: takeWhile_eq_all_conv)
qed

section \<open>The dnsmasq file\<close>

definition host_line :: "StaticLease \<Rightarrow> string" where
  "host_line l = ''dhcp-host='' @ slMAC l @ '','' @ slIP l @ '','' @ slHostname l"

definition vlan_range_lines :: "vlanDHCPRange \<Rightarrow> string list" where
  "vlan_range_lines v =
     [''interface='' @ vrDevice v,
      ''dhcp-range='' @ vrRangeStart v @ '','' @ vrRangeEnd v @ '','' @ vrLeaseTime v,
      ''dhcp-option='' @ vrDevice v @ '',option:router,'' @ vrGateway v,
      ''dhcp-option='' @ vrDevice v @ '',option:dns-server,'' @ vrDNSServer v]"

definition ra_lines :: "dnsmasqTemplateData \<Rightarrow> string list" where
  "ra_lines d = (if dmIPv6Enabled d
     then [''enable-ra'', ''dhcp-range=::,constructor:'' @ dmLANDevice d @ '',ra-only,64,'' @ dmLeaseTime d,
           ''dhcp-option=option6:dns-server,['' @ dmGateway6 d @ '']'',
           ''ra-param='' @ dmLANDevice d @ '','' @ Itoa (dmRAInterval d) @ '',0,0''] @
          (if dmULAPrefix d \<noteq> [] then [''dhcp-range='' @ dmULARange d @ '',ra-only,64,'' @ dmLeaseTime d] else [])
     else [])"

definition dnsmasq_lines :: "dnsmasqTemplateData \<Rightarrow> string list" where
  "dnsmasq_lines d =
     [''port=0'', ''interface='' @ dmLANDevice d, ''bind-interfaces'', [],
      ''# Drop-ins managed by other LANKeeper services (IPv6 RA per VLAN, etc.)'', ''conf-dir=/etc/dnsmasq.d,*.conf'', [],
      ''dhcp-range='' @ dmRangeStart d @ '','' @ dmRangeEnd d @ '','' @ dmLeaseTime d,
      ''dhcp-option=option:router,'' @ dmGateway d, ''dhcp-option=option:dns-server,'' @ dmDNSServer d,
      ''dhcp-option=option:ntp-server,'' @ dmGateway d, [],
      ''dhcp-leasefile=/var/lib/misc/dnsmasq.leases'', ''domain='' @ dmDomain d, ''expand-hosts'',
      ''dhcp-script=/usr/local/lib/lankeeper/dhcp-dns-update.sh''] @
     map host_line (dmStaticLeases d) @ ra_lines d @ concat (map vlan_range_lines (dmVLANDHCPRanges d))"

definition dnsmasq_text :: "dnsmasqTemplateData \<Rightarrow> string" where
  "dnsmasq_text d = concat (map (\<lambda>l. l @ nl) (dnsmasq_lines d))"

definition dhcp_RenderConfig :: "dnsenv \<Rightarrow> Config \<Rightarrow> error + string" where
  "dhcp_RenderConfig env c = (case dnParse env of
       Some e \<Rightarrow> Inl (''parse dnsmasq template: '' @ e) | None \<Rightarrow> Inr (dnsmasq_text (dhcp_template_data subnetFromCIDR c)))"

definition dhcp_RenderToDisk :: "dnsenv \<Rightarrow> unit action" where
  "dhcp_RenderToDisk env w = io_bind (io_lift (dhcp_RenderConfig env (wcfg w))) (\<lambda>rendered.
     io_then (sys (dnSys env) (CWriteFile ''/etc/dnsmasq.conf'' rendered 420)) (io_return ())) w"

definition dhcp_Reload :: "dnsenv \<Rightarrow> unit action" where
  "dhcp_Reload env = io_then (io_wrap ''reload dnsmasq: '' (sys (dnSys env) (CRun ''killall'' [''-HUP'', ''dnsmasq'']))) (io_return ())"

definition dhcp_ApplyConfig :: "dnsenv \<Rightarrow> unit action" where
  "dhcp_ApplyConfig env = io_then (dhcp_RenderToDisk env) (dhcp_Reload env)"

end
