(* ===== verification/HandlersDNS.thy ===== *)
theory HandlersDNS
  imports DNSRun
begin

text \<open>
  The DNS and DHCP pages (\<^verbatim>\<open>internal/web/handlers/dns.go\<close>, \<^verbatim>\<open>internal/web/handlers/dhcp.go\<close>) over the services of the
  theories \<open>DNS\<close>, \<open>DHCP\<close>, \<open>DoH\<close> and \<open>DNSRun\<close>, and what unbound reads after any requests to the DNS pages.
\<close>

section \<open>Checks\<close>

definition alnum_byte :: "char \<Rightarrow> bool" where
  "alnum_byte c \<longleftrightarrow> (let n = (of_char c :: nat) in 48 \<le> n \<and> n \<le> 57 \<or> 65 \<le> n \<and> n \<le> 90 \<or> 97 \<le> n \<and> n \<le> 122)"

definition dnsNamePattern :: "string \<Rightarrow> bool" where
  "dnsNamePattern s \<longleftrightarrow> 2 \<le> length s \<and> length s \<le> 253 \<and> alnum_byte (hd s) \<and> alnum_byte (last s) \<and>
     list_all (\<lambda>c. alnum_byte c \<or> c = CHR ''.'' \<or> c = CHR ''-'') s"

section \<open>The query list\<close>

text \<open>
  \<open>GetRecentQueries\<close> on Go integers. A slice expression may reach past the length of the buffer into its capacity:
  \<open>beyond\<close> are the entries left there, \<open>None\<close> a panic.
\<close>

definition recent_queries :: "QueryLogEntry list \<Rightarrow> goint \<Rightarrow> goint \<Rightarrow> DNSService \<Rightarrow> QueryLogEntry list option" where
  "recent_queries beyond limit offset s =
     (let total = int (length (queryBuf s)) in
      if offset \<ge> total then Some []
      else let endx = wrap64 (total - offset); start0 = wrap64 (endx - limit); start = (if start0 < 0 then 0 else start0) in
        if endx < start \<or> endx > total + int (length beyond) then None
        else Some (rev (take (nat (endx - start)) (drop (nat start) (queryBuf s @ beyond)))))"

definition query_offset :: "request \<Rightarrow> goint" where
  "query_offset r = (let p = rqQuery r ''page''; page = ParseInt_value p in
     if p \<noteq> [] \<and> page > 0 then wrap64 (wrap64 (page - 1) * 50) else 0)"

section \<open>DNS pages\<close>

type_synonym dns_state = "DNSService \<times> world"

record dnshenv =
  hdDNS :: dnsenv
  hdDoT :: dotenv
  hdDoH :: "(resolver_fn \<times> dohenv \<times> probeenv) option"
  hdFetch :: "string \<Rightarrow> string list \<times> error option"
  hdBeyond :: "QueryLogEntry list"

abbreviation hdOS :: "dnshenv \<Rightarrow> osenv" where
  "hdOS env \<equiv> seOS (dnSys (hdDNS env))"

record dnsPage =
  dpStats :: "DNSStats option"
  dpQueries :: "QueryLogEntry list"
  dpStaticRecords :: "StaticDNSRecord list"
  dpDoTEnabled :: bool
  dpDoTUpstream :: string
  dpDoHEnabled :: bool
  dpDoHUpstream :: string
  dpDoHResolvers :: "BuiltInDoHResolver list"

definition dns_page :: "(error + DNSStats) \<Rightarrow> QueryLogEntry list \<Rightarrow> store \<Rightarrow> dnsPage" where
  "dns_page st qs sto = (let d = GetDNSConfig sto in
     \<lparr>dpStats = (case st of Inl _ \<Rightarrow> None | Inr v \<Rightarrow> Some v), dpQueries = qs, dpStaticRecords = GetStaticRecords sto,
      dpDoTEnabled = dnsEnableDoT d, dpDoTUpstream = dnsDoTUpstream d, dpDoHEnabled = dnsEnableDoH d,
      dpDoHUpstream = dnsDoHUpstream d, dpDoHResolvers = BuiltInDoHResolvers\<rparr>)"

text \<open>A panic ends the request without an answer of the handler.\<close>

definition panicked :: "response \<times> 's \<Rightarrow> response \<times> 's" where
  "panicked = (\<lambda>ws. ws)"

definition dns_HandlePage :: "dnshenv \<Rightarrow> dnsPage pageenv \<Rightarrow> dns_state hfun" where
  "dns_HandlePage env pg r = with_state (\<lambda>(s, wd).
     observe (on_snd (GetStats (hdDNS env) s)) (\<lambda>st.
       case recent_queries (hdBeyond env) 50 (query_offset r) s of
         None \<Rightarrow> panicked
       | Some qs \<Rightarrow> show_page pg ''dns'' r (dns_page st qs (wStore wd))))"

definition HandleClearLog :: "dnshenv \<Rightarrow> dns_state hfun" where
  "HandleClearLog env r = observe (on_fst (\<lambda>s. ((), ClearQueryLog s))) (\<lambda>_.
     observe (on_snd (clear_log_file (hdDNS env))) (\<lambda>_. finish ''/dns'' r))"

definition HandleUpdateBlocklist :: "dnshenv \<Rightarrow> dns_state hfun" where
  "HandleUpdateBlocklist env r =
     do_action (on_snd (dns_UpdateBlocklist (hdDNS env) (hdFetch env))) (err_text 500) (\<lambda>_. finish ''/dns'' r)"

definition Milliseconds :: "duration \<Rightarrow> int" where
  "Milliseconds d = (if d \<ge> 0 then d div 1000000 else - (- d div 1000000))"

definition badge :: "string \<Rightarrow> string \<Rightarrow> string" where
  "badge cls body = ''<span '' @ attr ''class'' (''badge '' @ cls) @ ''>'' @ body @ ''</span>''"

definition probe_html :: "error + duration \<Rightarrow> string" where
  "probe_html res = (case res of
       Inl e \<Rightarrow> badge ''badge-error'' (''FAIL: '' @ EscapeString e)
     | Inr d \<Rightarrow> badge ''badge-success'' (''OK ('' @ Itoa (Milliseconds d) @ ''ms)''))"

definition html_answer :: "string \<Rightarrow> response \<times> 's \<Rightarrow> response \<times> 's" where
  "html_answer body = (\<lambda>(w, s). (Write body (Header_Set ''Content-Type'' ''text/html; charset=utf-8'' w), s))"

definition HandleProbeDoT :: "dnshenv \<Rightarrow> dns_state hfun" where
  "HandleProbeDoT env r = needs_form r
     (let upstream = TrimSpace (rqForm r ''dot_upstream'') in
      if upstream = [] then refuse ''upstream required'' 400
      else html_answer (probe_html (ProbeDoT (hdDoT env) upstream)))"

definition HandleProbeDoH :: "dnshenv \<Rightarrow> dns_state hfun" where
  "HandleProbeDoH env r = needs_form r
     (let upstream = TrimSpace (rqForm r ''doh_upstream'') in
      if upstream = [] then refuse ''upstream required'' 400
      else (case hdDoH env of
          None \<Rightarrow> refuse ''DoH not wired'' 503
        | Some (_, _, probe) \<Rightarrow> html_answer (probe_html (Probe probe upstream))))"

text \<open>The end of every change: apply the configuration, log a failure, answer.\<close>

definition dns_applied :: "dnshenv \<Rightarrow> request \<Rightarrow> response \<times> dns_state \<Rightarrow> response \<times> dns_state" where
  "dns_applied env r = observe (on_snd (dns_ApplyConfig (hdDNS env))) (\<lambda>_. finish ''/dns'' r)"

text \<open>The mode of the form: which of DoT and DoH it switches on, or the answer that refuses it.\<close>

definition dns_mode :: "dnshenv \<Rightarrow> string \<Rightarrow> string \<Rightarrow> string \<Rightarrow> string + bool \<times> bool" where
  "dns_mode env mode dotUpstream dohUpstream =
     (if mode = ''dot''
      then (if dotUpstream = [] then Inl ''DoT upstream required'' else Inr (True, False))
      else if mode = ''doh''
      then (if dohUpstream = [] then Inl ''DoH upstream required''
            else (case hdDoH env of
                None \<Rightarrow> Inr (False, True)
              | Some (lookup, _, _) \<Rightarrow> (case ValidateUpstream lookup dohUpstream of
                    Some e \<Rightarrow> Inl e | None \<Rightarrow> Inr (False, True))))
      else if mode = ''plain'' \<or> mode = [] then Inr (False, False)
      else Inl ''unknown encryption mode'')"

definition apply_doh :: "dnshenv \<Rightarrow> unit action" where
  "apply_doh env = (case hdDoH env of None \<Rightarrow> io_return () | Some (_, doh, _) \<Rightarrow> doh_ApplyConfig doh)"

definition HandleSaveDoT :: "dnshenv \<Rightarrow> dns_state hfun" where
  "HandleSaveDoT env r = needs_form r
     (let dotUpstream = TrimSpace (rqForm r ''dot_upstream''); dohUpstream = TrimSpace (rqForm r ''doh_upstream'') in
      case dns_mode env (rqForm r ''encryption_mode'') dotUpstream dohUpstream of
        Inl msg \<Rightarrow> refuse msg 400
      | Inr modes \<Rightarrow>
          do_action (on_snd (on_store (SaveDNSSettings (go_net (hdDNS env)) (hdOS env) (fst modes, dotUpstream, snd modes, dohUpstream))))
            (err_text 500) (\<lambda>_. observe (on_snd (apply_doh env)) (\<lambda>_. dns_applied env r)))"

definition record_of :: "request \<Rightarrow> StaticDNSRecord" where
  "record_of r = \<lparr>srName = TrimSpace (rqForm r ''name''), srIP = TrimSpace (rqForm r ''ip''), srLocalZone = (rqForm r ''local_zone'' = ''on''),
     srSource = DNSSourceUser, srDisableAutoPTR = (rqForm r ''disable_auto_ptr'' = ''on'')\<rparr>"

definition HandleAddRecord :: "dnshenv \<Rightarrow> dns_state hfun" where
  "HandleAddRecord env r = needs_form r
     (if \<not> dnsNamePattern (srName (record_of r)) then refuse ''invalid DNS name'' 400
      else if ValidateIP (srIP (record_of r)) \<noteq> None then refuse ''invalid IP address'' 400
      else do_action (on_snd (on_store (AddStaticRecord (hdOS env) (record_of r)))) (err_text 400) (\<lambda>_. dns_applied env r))"

definition HandleDeleteRecord :: "dnshenv \<Rightarrow> dns_state hfun" where
  "HandleDeleteRecord env r = with_index r (\<lambda>i.
     do_action (on_snd (on_store (RemoveStaticRecord (hdOS env) i))) (err_text 400) (\<lambda>_. dns_applied env r))"

definition dns_handlers :: "dnshenv \<Rightarrow> dnsPage pageenv \<Rightarrow> dns_state hfun list" where
  "dns_handlers env pg =
     [dns_HandlePage env pg, HandleClearLog env, HandleUpdateBlocklist env, HandleProbeDoT env, HandleSaveDoT env,
      HandleProbeDoH env, HandleAddRecord env, HandleDeleteRecord env]"

section \<open>DHCP pages\<close>

record dhcphenv =
  heDNS :: dnsenv
  heWired :: bool
  heNow :: gotime
  heFiles :: "string \<Rightarrow> (error + string) option"

record dhcpPage =
  hpLeases :: "Lease list"
  hpStaticLeases :: "StaticLease list"

definition dhcp_HandlePage :: "dhcphenv \<Rightarrow> dhcpPage pageenv \<Rightarrow> world hfun" where
  "dhcp_HandlePage env pg r = with_state (\<lambda>wd.
     show_page pg ''dhcp'' r \<lparr>hpLeases = fst (GetLeases (heNow env) (heFiles env)), hpStaticLeases = GetStaticLeases (wStore wd)\<rparr>)"

definition dhcp_applied :: "dhcphenv \<Rightarrow> request \<Rightarrow> response \<times> world \<Rightarrow> response \<times> world" where
  "dhcp_applied env r = observe (dhcp_ApplyConfig (heDNS env)) (\<lambda>_. finish ''/dhcp'' r)"

definition lease_form :: "request \<Rightarrow> StaticLease" where
  "lease_form r = \<lparr>slMAC = rqForm r ''mac'', slIP = rqForm r ''ip'', slHostname = rqForm r ''hostname''\<rparr>"

definition HandleAddStatic :: "dhcphenv \<Rightarrow> world hfun" where
  "HandleAddStatic env r = needs_form r
     (let l = lease_form r in
      if ValidateMAC (slMAC l) \<noteq> None then refuse ''invalid MAC address'' 400
      else if ValidateIP (slIP l) \<noteq> None then refuse ''invalid IP address'' 400
      else if slHostname l = [] then refuse ''hostname required'' 400
      else do_action (on_store (AddStaticLease (heWired env) (seOS (dnSys (heDNS env))) l)) (\<lambda>_. (''save failed'', 500))
        (\<lambda>_. dhcp_applied env r))"

definition HandleDeleteStatic :: "dhcphenv \<Rightarrow> world hfun" where
  "HandleDeleteStatic env r = with_index r (\<lambda>i.
     do_action (on_store (RemoveStaticLease (heWired env) (seOS (dnSys (heDNS env))) i)) (err_text 400) (\<lambda>_. dhcp_applied env r))"

section \<open>The pages of the query list\<close>

lemma recent_queries_nat:
  assumes "int (length (queryBuf s)) \<le> max_int64" "0 \<le> limit" "0 \<le> offset" "limit \<le> max_int64"
  shows "recent_queries beyond limit offset s = Some (GetRecentQueries (nat limit) (nat offset) s)"
proof -
  obtain l f where lf: "limit = int l" "offset = int f" using assms(2,3) nonneg_int_cases by metis
  let ?n = "length (queryBuf s)"
  show ?thesis
  proof (cases "f \<ge> ?n")
    case True
    then show ?thesis by (simp add: lf recent_queries_def GetRecentQueries_def)
  next
    case False
    have "in_int64 (int ?n - int f)" "in_int64 (int ?n - int f - int l)"
      using False assms by (simp_all add: lf in_int64_def min_int64_def max_int64_def)
    then have w: "wrap64 (int ?n - int f) = int (?n - f)" "wrap64 (int (?n - f) - int l) = int ?n - int f - int l"
      using False by (simp_all add: of_nat_diff)
    show ?thesis
    proof (cases "l \<le> ?n - f")
      case True
      then have "?n - f - (?n - f - l) = l" "\<not> int ?n - int f < int l" using False by linarith+
      then show ?thesis using True False w
        by (simp add: lf recent_queries_def GetRecentQueries_def Let_def drop_take nat_diff_distrib of_nat_diff)
    next
      case l: False
      moreover have "nat (int ?n - int f) = ?n - f" by linarith
      ultimately show ?thesis using False w by (simp add: lf recent_queries_def GetRecentQueries_def Let_def)
    qed
  qed
qed

text \<open>The product that computes the offset wraps: this page asks for entries past the newest one, and the handler panics.\<close>

lemma page_overflow_panics:
  assumes "rqQuery r = (\<lambda>k. if k = ''page'' then ''368934881474191033'' else [])"
  shows "query_offset r = -16" "recent_queries [] 50 (query_offset r) NewDNSService = None"
proof -
  have "ParseInt_value ''368934881474191033'' = 368934881474191033"
    by (simp add: ParseInt_value_def Let_def is_digit_def digits_val_def digit_val_def in_int64_def min_int64_def max_int64_def)
  then show "query_offset r = -16" using assms by (simp add: query_offset_def wrap64_def)
  then show "recent_queries [] 50 (query_offset r) NewDNSService = None"
    by (simp add: recent_queries_def NewDNSService_def wrap64_def)
qed

section \<open>What unbound is told\<close>

definition record_ok :: "StaticDNSRecord \<Rightarrow> bool" where
  "record_ok r \<longleftrightarrow> dnsNamePattern (srName r) \<and> ValidateIP (srIP r) = None"

definition dns_ok :: "Config \<Rightarrow> bool" where
  "dns_ok c \<longleftrightarrow> records_ok c \<and> list_all record_ok (dnsStaticRecords (cfgDNS c)) \<and>
     (dnsEnableDoT (cfgDNS c) \<longrightarrow> dnsDoTUpstream (cfgDNS c) \<noteq> [] \<and> hasOnlyDoTSpecChars (dnsDoTUpstream (cfgDNS c))) \<and>
     (let p = qlLogPath (dnsQueryLog (cfgDNS c)) in p = [] \<or> word_ok p) \<and>
     (let u = ulaPrefix (lan6ULA (ip6LAN (cfgIPv6 c))) in u = [] \<or> word_ok u)"

definition plain :: "string \<Rightarrow> bool" where
  "plain s \<longleftrightarrow> list_all (\<lambda>c. \<not> is_space c) s"

lemma word_ok_plain: "word_ok s \<longleftrightarrow> s \<noteq> [] \<and> plain s"
  by (auto simp: word_ok_def plain_def list_all_iff)

lemma plain_simps [simp]: "plain []" "plain (a @ b) \<longleftrightarrow> plain a \<and> plain b" "plain (c # s) \<longleftrightarrow> \<not> is_space c \<and> plain s" "plain qm"
  by (simp_all add: plain_def qm_def is_space_def)

lemma plain_Itoa [simp]: "plain (Itoa n)"
  using Itoa_word_ok [of n] by (simp add: word_ok_plain)

lemma plain_Join: "list_all plain ps \<Longrightarrow> plain sep \<Longrightarrow> plain (Join ps sep)"
proof (induction ps)
  case (Cons p ps)
  then show ?case by (cases ps) simp_all
qed simp

lemma plain_nat_digits: "plain (nat_digits n)"
  using plain_Itoa [of "int n"] by (simp add: Itoa_def)

lemma space_code: "is_space c \<Longrightarrow> (of_char c :: nat) \<le> 32"
  by (auto simp: is_space_def)

lemma plain_hex_digits: "plain (hex_digits n)"
proof (induction n rule: hex_digits.induct)
  case (1 n)
  have "\<not> is_space (hex_char k)" if "k < 16" for k
    using that space_code [of "hex_char k"] by (auto simp: hex_char_def)
  then show ?case using 1 by (subst hex_digits.simps) simp
qed

lemma plain_ip_text: "plain (ip_text ip)"
  by (auto simp: ip_text_def ipv4_text_def ipv6_text_def Let_def is_space_def list.pred_map o_def plain_nat_digits plain_hex_digits
      list_all_iff intro!: plain_Join split: option.splits)

lemma plain_subnet: "plain (subnetFromCIDR cidr)"
  by (simp add: subnetFromCIDR_def plain_ip_text split: option.splits)

lemma name_char_not_space: "alnum_byte c \<or> c = CHR ''.'' \<or> c = CHR ''-'' \<Longrightarrow> \<not> is_space c"
  by (auto simp: alnum_byte_def is_space_def)

lemma plain_name: "dnsNamePattern s \<Longrightarrow> s \<noteq> [] \<and> plain s"
proof
  assume s: "dnsNamePattern s"
  then show "s \<noteq> []" by (simp add: dnsNamePattern_def) (metis list.size(3) not_numeral_le_zero)
  show "plain s" using s name_char_not_space unfolding dnsNamePattern_def plain_def list_all_iff by blast
qed

lemma plain_PTR: "plain (ipv4PTR net ip)"
  by (simp add: ipv4PTR_def is_space_def split: option.splits)

lemma plain_address: "ValidateIP s = None \<Longrightarrow> s \<noteq> [] \<and> plain s"
  using ValidateIP_word by (simp add: word_ok_plain)

lemma plain_upstream: "hasOnlyDoTSpecChars s \<Longrightarrow> plain s"
proof -
  have "list_all (\<lambda>c. \<not> is_space c) dotSpecChars" by code_simp
  then show "hasOnlyDoTSpecChars s \<Longrightarrow> plain s" by (auto simp: hasOnlyDoTSpecChars_def plain_def list_all_iff)
qed

lemma line_ok_four: "line_ok (four ws) \<longleftrightarrow> list_all word_ok ws" "line_ok ([], ws) \<longleftrightarrow> list_all word_ok ws"
  by (simp_all add: line_ok_def four_def)

lemma rendered_record_ok:
  "record_ok r \<Longrightarrow> list_all line_ok (record_lines \<lparr>rsName = srName r, rsIP = srIP r, rsLocalZone = srLocalZone r,
     rsPTR = (if srDisableAutoPTR r then [] else ipv4PTR net (srIP r))\<rparr>)"
  using plain_name [of "srName r"] plain_address [of "srIP r"] plain_PTR [of net "srIP r"]
  by (simp add: record_lines_def record_ok_def line_ok_four word_ok_plain is_space_def qm_def)

lemma dns_data_lines: "dns_ok c \<Longrightarrow> list_all line_ok (unbound_lines (dns_data env c))"
proof -
  assume ok: "dns_ok c"
  have records: "list_all line_ok (concat (map record_lines (utStaticRecords (dns_data env c))))"
    using ok by (auto simp: dns_ok_def dns_data_def dns_template_data_def buildRenderStaticRecords_def Let_def list_all_iff
        intro: rendered_record_ok [unfolded list_all_iff, rule_format])
  have "list_all (\<lambda>s. s \<noteq> [] \<and> plain s) (utAllowSubnets (dns_data env c))"
    by (auto simp: dns_data_def dns_template_data_def Let_def list_all_iff plain_subnet is_space_def)
  then have access: "list_all line_ok (unbound_access (dns_data env c))"
    using ok by (auto simp: unbound_access_def allow_line_def line_ok_four word_ok_plain is_space_def list.pred_map o_def
        dns_ok_def dns_data_def dns_template_data_def Let_def)
  have cache: "list_all line_ok (unbound_cache (dns_data env c))"
    by (simp add: unbound_cache_def line_ok_four word_ok_plain is_space_def)
  have log: "list_all line_ok (unbound_log (dns_data env c))"
    using ok by (auto simp: unbound_log_def line_ok_four word_ok_plain is_space_def dns_ok_def dns_data_def dns_template_data_def Let_def qm_def)
  have fwd: "list_all line_ok (unbound_forward (dns_data env c))"
    using ok plain_upstream by (auto simp: unbound_forward_def line_ok_four word_ok_plain is_space_def dns_ok_def dns_data_def dns_template_data_def Let_def qm_def)
  show ?thesis using records access cache log fwd by (simp add: unbound_lines_def)
qed

lemma dns_directives:
  "dns_ok c \<Longrightarrow> directives (unbound_text (dns_data env c)) = filter (\<lambda>ws. ws \<noteq> []) (map snd (unbound_lines (dns_data env c)))"
  by (simp add: unbound_text_def directives_layout dns_data_lines)

section \<open>The forms keep the configuration safe\<close>

lemma dns_ok_map:
  assumes "dns_ok c" "dnsQueryLog (f (cfgDNS c)) = dnsQueryLog (cfgDNS c)" "records_ok (map_dns f c)"
    "list_all record_ok (dnsStaticRecords (f (cfgDNS c)))"
    "dnsEnableDoT (f (cfgDNS c)) \<Longrightarrow> dnsDoTUpstream (f (cfgDNS c)) \<noteq> [] \<and> hasOnlyDoTSpecChars (dnsDoTUpstream (f (cfgDNS c)))"
  shows "dns_ok (map_dns f c)"
  using assms by (simp add: dns_ok_def) (simp add: map_dns_def)

lemma validated_spec: "parseAndValidateDoTSpec net u = Inr x \<Longrightarrow> u \<noteq> [] \<and> hasOnlyDoTSpecChars u"
proof
  assume u: "parseAndValidateDoTSpec net u = Inr x"
  have "parseAndValidateDoTSpec net [] = Inl ''empty or invalid upstream''"
    by (simp add: parseAndValidateDoTSpec_def hasOnlyDoTSpecChars_def parseDoTSpec_def)
  then show "u \<noteq> []" using u by auto
  show "hasOnlyDoTSpecChars u" using u by (simp add: parseAndValidateDoTSpec_def split: if_splits)
qed

lemma dns_ok_settings: "dns_ok (cfg st) \<Longrightarrow> dns_ok (cfg (snd (SaveDNSSettings net env args st)))"
proof -
  assume ok: "dns_ok (cfg st)"
  obtain a u b v where args: "args = (a, u, b, v)" by (cases args)
  show ?thesis
  proof (cases "a \<and> b \<or> a \<and> (\<exists>e. parseAndValidateDoTSpec net (TrimSpace u) = Inl e)")
    case True
    then show ?thesis using ok by (auto simp: args SaveDNSSettings_def Let_def)
  next
    case False
    define f where "f = (\<lambda>d :: DNSConfig. d\<lparr>dnsEnableDoT := a, dnsDoTUpstream := TrimSpace u, dnsEnableDoH := b, dnsDoHUpstream := TrimSpace v\<rparr>)"
    have "cfg (snd (SaveDNSSettings net env args st)) = map_dns f (cfg st)"
      using False by (cases "parseAndValidateDoTSpec net (TrimSpace u)") (auto simp: args SaveDNSSettings_def Let_def f_def SaveToFile_cfg)
    moreover have "a \<Longrightarrow> TrimSpace u \<noteq> [] \<and> hasOnlyDoTSpecChars (TrimSpace u)"
      using False by (cases "parseAndValidateDoTSpec net (TrimSpace u)") (auto dest: validated_spec)
    moreover have "records_ok (map_dns f (cfg st))" using ok by (simp add: dns_ok_def records_ok_def f_def)
    ultimately show ?thesis using dns_ok_map [of "cfg st" f] ok by (simp add: f_def dns_ok_def)
  qed
qed

lemma dns_ok_add: "dns_ok (cfg st) \<Longrightarrow> record_ok rec \<Longrightarrow> dns_ok (cfg (snd (AddStaticRecord env rec st)))"
  by (rule add_record.preserves, assumption)
    (rule dns_ok_map; auto simp: dns_ok_def records_ok_def list_ex_iff EqualFold_def split: if_splits)

lemma dns_ok_remove: "dns_ok (cfg st) \<Longrightarrow> dns_ok (cfg (snd (RemoveStaticRecord env i st)))"
proof (rule remove_record.preserves, assumption)
  fix c
  assume ok: "dns_ok c"
    and i: "(if bad_index i (dnsStaticRecords (cfgDNS c)) then Some (''invalid static record index: '' @ Itoa i) else None) = None"
  then have "nat i < length (dnsStaticRecords (cfgDNS c))" by (auto simp: bad_index_def split: if_splits)
  then show "dns_ok (map_dns (\<lambda>d. d\<lparr>dnsStaticRecords := remove_nth (nat i) (dnsStaticRecords d)\<rparr>) c)"
    using ok set_remove_nth [of "nat i" "dnsStaticRecords (cfgDNS c)"]
    by (intro dns_ok_map) (auto simp: dns_ok_def records_ok_def list_all_iff remove_nth_map intro: distinct_remove_nth)
qed

abbreviation dns_inv :: "dns_state \<Rightarrow> bool" where
  "dns_inv s \<equiv> dns_ok (wcfg (snd s))"

lemma inv_act_on_snd: "inv_act I m \<Longrightarrow> inv_act (\<lambda>s. I (snd s)) (on_snd m)"
  unfolding inv_act_def on_snd_def by (auto split: prod.splits)

lemma dns_store_act: "(\<And>st. dns_ok (cfg st) \<Longrightarrow> dns_ok (cfg (snd (f st)))) \<Longrightarrow> inv_act dns_inv (on_snd (on_store f))"
  by (rule inv_act_on_snd [OF inv_act_store])

lemma dns_effect_act: "keeps_store m \<Longrightarrow> inv_act dns_inv (on_snd m)"
  by (rule inv_act_on_snd [OF inv_act_keeps_store])

lemma dns_fst_act: "inv_act dns_inv (on_fst f)"
  by (rule inv_act_fst) simp

lemma clear_log_act: "inv_act dns_inv (on_snd (clear_log_file env))"
  by (rule inv_act_snd) (simp add: clear_log_file_def Let_def)

lemma dns_effects:
  "keeps_store (dns_ApplyConfig env)" "keeps_store (dns_UpdateBlocklist env fetch)" "keeps_store (GetStats env s)" "keeps_store (apply_doh henv)"
proof -
  have "keeps_store (dns_RenderToDisk env)"
    unfolding dns_RenderToDisk_def [abs_def]
    by (rule keeps_store_read [where g = wcfg]) (unfold keeps_store_def, intro footprint TrueI)
  moreover have reload: "keeps_store (dns_Reload env)" unfolding keeps_store_def dns_Reload_def by (intro footprint TrueI)
  ultimately show "keeps_store (dns_ApplyConfig env)"
    unfolding keeps_store_def dns_ApplyConfig_def by (intro footprint)
  show "keeps_store (dns_UpdateBlocklist env fetch)"
    unfolding dns_UpdateBlocklist_def [abs_def] using reload
    by (intro keeps_store_read [where g = wcfg and f = "\<lambda>c. io_then (io_wrap ''write blocklist: '' (sys (dnSys env) (CWriteFile ''/etc/unbound/blocklist.conf''
         (concat (map zone_line (dedupe (blocklist_domains fetch c) {}))) 420))) (dns_Reload env)"])
      (unfold keeps_store_def, intro footprint TrueI)
  show "keeps_store (GetStats env s)" unfolding keeps_store_def GetStats_def by (intro footprint TrueI)
  have "keeps_store (doh_ApplyConfig d)" for d
    by (auto simp: keeps_store_def only_calls_def doh_ApplyConfig_def doh_RenderToDisk_def doh_RenderConfig_def io_simps
        split: sum.splits prod.splits if_splits)
  then show "keeps_store (apply_doh henv)"
    by (auto simp: apply_doh_def keeps_store_def only_calls_return split: option.splits)
qed

lemma inv_step_answer: "inv_step I (html_answer body)" "inv_step I panicked"
  by (simp_all add: inv_step_def html_answer_def panicked_def)

lemma dns_applied_step: "inv_step dns_inv (dns_applied env r)"
  unfolding dns_applied_def by (intro inv_steps dns_effect_act dns_effects)

lemma dns_handler_step:
  assumes "h \<in> set (dns_handlers env pg)"
  shows "inv_step dns_inv (h r)"
proof -
  have page: "inv_step dns_inv (dns_HandlePage env pg r)"
    unfolding dns_HandlePage_def case_prod_beta
    by (intro inv_step_state inv_step_observe dns_effect_act dns_effects inv_step_option inv_step_answer inv_step_page)
  have clear: "inv_step dns_inv (HandleClearLog env r)"
    unfolding HandleClearLog_def by (intro inv_step_observe dns_fst_act clear_log_act inv_step_finish)
  have block: "inv_step dns_inv (HandleUpdateBlocklist env r)"
    unfolding HandleUpdateBlocklist_def by (intro inv_step_action dns_effect_act dns_effects inv_step_finish)
  have probe: "inv_step dns_inv (HandleProbeDoT env r)" "inv_step dns_inv (HandleProbeDoH env r)"
    unfolding HandleProbeDoT_def HandleProbeDoH_def Let_def case_prod_beta
    by (intro inv_step_form inv_step_if inv_step_option inv_step_refuse inv_step_answer)+
  have save: "inv_step dns_inv (HandleSaveDoT env r)"
    unfolding HandleSaveDoT_def Let_def
    by (intro inv_step_form inv_step_sum inv_step_refuse inv_step_action dns_store_act dns_ok_settings inv_step_observe dns_effect_act
        dns_effects dns_applied_step)
  have add: "inv_step dns_inv (HandleAddRecord env r)"
    unfolding HandleAddRecord_def
    by (intro inv_step_form inv_step_if inv_step_refuse inv_step_action dns_store_act dns_ok_add dns_applied_step) (simp_all add: record_ok_def)
  have del: "inv_step dns_inv (HandleDeleteRecord env r)"
    unfolding HandleDeleteRecord_def
    by (intro inv_step_index inv_step_action dns_store_act dns_ok_remove dns_applied_step)
  show ?thesis using assms page clear block probe save add del by (auto simp: dns_handlers_def)
qed

text \<open>
  C32. No sequence of requests to the DNS pages gets a directive of its own into \<open>unbound.conf\<close>. From a well-formed
  configuration, after any requests with any forms, the static records are at most 500, each name once in any
  capitalisation, every name matches the pattern and every address is one; and the words unbound reads from the
  rendered file, line by line, are exactly those of the template: one word for every value the forms supplied.
\<close>

theorem dns_requests_cannot_inject:
  assumes "dns_ok (wcfg wd)" "\<forall>(h, r, w) \<in> set rs. h \<in> set (dns_handlers env pg)"
  shows "let c = wcfg (snd (run_requests rs (s, wd))); d = dns_data (hdDNS env) c in
    length (dnsStaticRecords (cfgDNS c)) \<le> MaxStaticDNSRecords \<and>
    distinct (map (ToLower \<circ> srName) (dnsStaticRecords (cfgDNS c))) \<and>
    list_all record_ok (dnsStaticRecords (cfgDNS c)) \<and>
    directives (unbound_text d) = filter (\<lambda>ws. ws \<noteq> []) (map snd (unbound_lines d))"
proof -
  have "\<forall>(h, r, w) \<in> set rs. inv_step dns_inv (h r)" using assms(2) dns_handler_step by fastforce
  then have "dns_inv (run_requests rs (s, wd))" by (rule run_requests_inv [where I = dns_inv]) (simp add: assms(1))
  then show ?thesis using dns_directives by (simp add: dns_ok_def records_ok_def Let_def)
qed

definition dns_request :: request where
  "dns_request = \<lparr>rqMethod = ''POST'', rqPath = ''/dns/records'', rqRemoteAddr = [], rqCookies = [], rqHeader = (\<lambda>_. []),
     rqForm = (\<lambda>k. if k = ''name'' then ''a.lan'' @ [CHR 0x22] @ nl @ ''include: /etc/shadow'' else if k = ''ip'' then ''10.0.0.9'' else []),
     rqBadForm = False, rqQuery = (\<lambda>_. []), rqBody = [], rqVars = [], rqLang = None\<rparr>"

definition dns_demo :: dnshenv where
  "dns_demo = \<lparr>hdDNS = \<lparr>dnSys = calm_env, dnParse = None, dnLookup = (\<lambda>_. Inr []), dnTruncates = True\<rparr>,
     hdDoT = \<lparr>dtNet = \<lparr>net_ParseIP = ParseIP, net_LookupIP = (\<lambda>_. Inr []), ip_String = ip_text\<rparr>, dtDial = (\<lambda>_ _. Inl ''refused''),
       dtPack = Inr [], dtWrite = (\<lambda>_. None), dtUnpack = (\<lambda>_. None), dtLatency = 0\<rparr>,
     hdDoH = None, hdFetch = (\<lambda>_. ([], None)), hdBeyond = []\<rparr>"

theorem dns_requests_cannot_inject_witness:
  "let c = wcfg (snd (run_requests [(HandleAddRecord dns_demo, dns_request, empty_response)] (NewDNSService, ntp_world)));
       d = dns_data (hdDNS dns_demo) c in
    length (dnsStaticRecords (cfgDNS c)) \<le> MaxStaticDNSRecords \<and>
    distinct (map (ToLower \<circ> srName) (dnsStaticRecords (cfgDNS c))) \<and>
    list_all record_ok (dnsStaticRecords (cfgDNS c)) \<and>
    directives (unbound_text d) = filter (\<lambda>ws. ws \<noteq> []) (map snd (unbound_lines d))"
  by (rule dns_requests_cannot_inject [where pg = "\<lparr>pgExec = (\<lambda>_ _ _ _. None)\<rparr>"])
    (simp_all add: ntp_world_def dns_ok_def records_ok_def zero_defs Let_def dns_handlers_def)

section \<open>What goes wrong\<close>

text \<open>An IPv6 address passes the check of the form and is rendered as an A record, which unbound refuses to load.\<close>

lemma ipv6_record_rendered_as_A:
  "record_ok \<lparr>srName = ''nas.lan'', srIP = ''::9'', srLocalZone = False, srSource = DNSSourceUser, srDisableAutoPTR = False\<rparr> \<and>
   record_lines \<lparr>rsName = ''nas.lan'', rsIP = ''::9'', rsLocalZone = False, rsPTR = []\<rparr> =
     [four [''local-data:'', qm @ ''nas.lan.'', ''IN'', ''A'', ''::9'' @ qm]]"
proof -
  have p: "parse_groups (Suc 7) [] (Some 0) ''9'' = Some ([0, 9], Some 0, [])" by (subst parse_groups.simps) (simp add: hex_val_def hex_group_def)
  have "(8 :: nat) = Suc 7" by simp
  then have "parse_groups 8 [] (Some 0) ''9'' = Some ([0, 9], Some 0, [])" by (simp only: p)
  then have "ValidateIP ''::9'' = None" by (simp add: ValidateIP_def ParseIP_def ParseAddr_def parseIPv6_def HasPrefix_def expand_groups_def)
  moreover have "dnsNamePattern ''nas.lan''" by code_simp
  ultimately show ?thesis by (simp add: record_ok_def record_lines_def)
qed

text \<open>
  The host name of a static lease is only required not to be empty: a line feed in it starts a line of its own in
  \<open>dnsmasq.conf\<close>, which dnsmasq reads as root and whose \<open>dhcp-script\<close> it runs.
\<close>

definition script_request :: request where
  "script_request = \<lparr>rqMethod = ''POST'', rqPath = ''/dhcp/static'', rqRemoteAddr = [], rqCookies = [], rqHeader = (\<lambda>_. []),
     rqForm = (\<lambda>k. if k = ''mac'' then ''00:11:22:33:44:55'' else if k = ''ip'' then ''10.0.0.9''
       else if k = ''hostname'' then ''a'' @ nl @ ''dhcp-script=/tmp/x'' else []),
     rqBadForm = False, rqQuery = (\<lambda>_. []), rqBody = [], rqVars = [], rqLang = None\<rparr>"

definition script_env :: dhcphenv where
  "script_env = \<lparr>heDNS = hdDNS dns_demo, heWired = False, heNow = 0, heFiles = (\<lambda>_. None)\<rparr>"

lemma on_store_action: 
  assumes "\<And>a w wd. wStore (snd (k a (w, wd))) = wStore wd"
  shows "wStore (snd (do_action (on_store f) fail k (w, wd))) = snd (f (wStore wd))"
  using assms by (auto simp: do_action_def on_store_def refuse_def split: prod.splits option.splits)

lemma keeps_store_dhcp: "keeps_store (dhcp_ApplyConfig env)"
proof -
  have "keeps_store (dhcp_RenderToDisk env)"
    unfolding dhcp_RenderToDisk_def [abs_def]
    by (rule keeps_store_read [where g = wcfg]) (unfold keeps_store_def, intro footprint TrueI)
  then show ?thesis unfolding keeps_store_def dhcp_ApplyConfig_def dhcp_Reload_def by (intro footprint TrueI)
qed

lemma dhcp_applied_store: "wStore (snd (dhcp_applied env r (w, wd))) = wStore wd"
  using keeps_storeD [OF keeps_store_dhcp [of "heDNS env"], of wd]
  by (cases "dhcp_ApplyConfig (heDNS env) wd") (simp add: dhcp_applied_def observe_def finish_def)

lemma lease_name_reaches_dnsmasq:
  "dhcpStaticLeases (cfgDHCP (wcfg (snd (HandleAddStatic script_env script_request (empty_response, ntp_world))))) = [lease_form script_request] \<and>
   Split (host_line (lease_form script_request)) (CHR 0x0A) =
     [''dhcp-host=00:11:22:33:44:55,10.0.0.9,a'', ''dhcp-script=/tmp/x'']"
proof
  have ok: "ValidateMAC ''00:11:22:33:44:55'' = None" "ValidateIP ''10.0.0.9'' = None" by code_simp+
  have "HandleAddStatic script_env script_request = do_action (on_store (AddStaticLease False (seOS calm_env) (lease_form script_request)))
      (\<lambda>_. (''save failed'', 500)) (\<lambda>_. dhcp_applied script_env script_request)"
    using ok by (simp add: HandleAddStatic_def needs_form_def script_request_def lease_form_def Let_def script_env_def dns_demo_def)
  then have "wStore (snd (HandleAddStatic script_env script_request (empty_response, ntp_world))) =
      snd (AddStaticLease False (seOS calm_env) (lease_form script_request) (wStore ntp_world))"
    by (simp add: on_store_action dhcp_applied_store)
  moreover have "lease_conflict (lease_form script_request) zero_Config = None" by (simp add: lease_conflict_def zero_defs)
  moreover have "cfg (snd (AddStaticLease False env l st)) = cfg (snd (store_lease env l st))" for env l st
    by (simp add: AddStaticLease_def split: prod.splits option.splits)
  ultimately show "dhcpStaticLeases (cfgDHCP (wcfg (snd (HandleAddStatic script_env script_request (empty_response, ntp_world))))) =
      [lease_form script_request]"
    by (simp add: store_lease_def ntp_world_def SaveToFile_cfg) (simp add: zero_defs)
  show "Split (host_line (lease_form script_request)) (CHR 0x0A) =
       [''dhcp-host=00:11:22:33:44:55,10.0.0.9,a'', ''dhcp-script=/tmp/x'']" by code_simp
qed

end
