(* ===== verification/BackupRemote.thy ===== *)
theory BackupRemote
  imports Backup GoURL Effects "HOL-Library.List_Lexorder" "HOL-Library.Char_ord"
begin

text \<open>
  The remote backup targets: object storage with AWS request signatures (\<^verbatim>\<open>internal/services/backup_s3.go\<close>) and SFTP
  (\<^verbatim>\<open>internal/services/backup_sftp.go\<close>). Hash functions, the XML decoder, the server's answers and the SSH packages
  are parameters. What the storage service verifies is stated beside the code, as its documentation gives it.
\<close>

section \<open>URLs\<close>

definition upper_hex :: "nat \<Rightarrow> char" where
  "upper_hex n = (if n < 10 then char_of (48 + n) else char_of (55 + n))"

definition pct :: "char \<Rightarrow> string" where
  "pct c = [CHR ''%'', upper_hex (of_char c div 16), upper_hex (of_char c mod 16)]"

text \<open>\<open>EscapedPath\<close> and \<open>String\<close> of package \<open>net/url\<close>, for URLs with scheme, host and path only.\<close>

definition path_escapes :: "char \<Rightarrow> bool" where
  "path_escapes c \<longleftrightarrow> \<not> (is_alnum c \<or> c \<in> set ''-_.~$&+,/:;=@'')"

definition escape_path :: "string \<Rightarrow> string" where
  "escape_path s = concat (map (\<lambda>c. if path_escapes c then pct c else [c]) s)"

definition escape_host :: "string \<Rightarrow> string" where
  "escape_host s = concat (map (\<lambda>c. if host_escapes c then pct c else [c]) s)"

definition url_String :: "GoURL \<Rightarrow> string" where
  "url_String u =
     (if uScheme u \<noteq> [] then uScheme u @ '':'' else []) @
     (if uScheme u \<noteq> [] \<or> uHost u \<noteq> [] then ''//'' @ escape_host (uHost u) else []) @ escape_path (uPath u)"

section \<open>Object storage\<close>

record s3Client =
  s3Endpoint :: string
  s3Region :: string
  s3AccessKey :: string
  s3SecretKey :: string
  s3PathStyle :: bool

record s3req =
  srMethod :: string
  srURL :: GoURL
  srQuery :: "(string \<times> string) list"
  srHeader :: "(string \<times> string) list"
  srBody :: string

record s3env =
  s3File :: "string \<Rightarrow> error + string"
  s3Sha256 :: "string \<Rightarrow> string"
  s3Hmac :: "string \<Rightarrow> string \<Rightarrow> string"
  s3Answer :: "s3req list \<Rightarrow> s3req \<Rightarrow> error + nat \<times> string \<times> string"
  s3XML :: "string \<Rightarrow> error + (string \<times> string \<times> goint) list"
  s3Time :: "string \<Rightarrow> gotime option"
  s3Sort :: "(string \<times> gotime \<times> goint) list \<Rightarrow> (string \<times> gotime \<times> goint) list"
  s3Now :: gotime

definition newS3Client :: "BackupTarget \<Rightarrow> s3Client" where
  "newS3Client t = \<lparr>s3Endpoint = TrimSuffix (if btEndpoint t = [] then ''https://s3.'' @ btRegion t @ ''.amazonaws.com'' else btEndpoint t) ''/'',
     s3Region = btRegion t, s3AccessKey = btAccessKeyID t, s3SecretKey = btSecretAccessKey t, s3PathStyle = btUsePathStyle t\<rparr>"

definition bucketURL :: "s3Client \<Rightarrow> string \<Rightarrow> string \<Rightarrow> error + string \<times> string" where
  "bucketURL c bucket key = (case url_Parse (s3Endpoint c) of
       Inl e \<Rightarrow> Inl e
     | Inr u \<Rightarrow>
         if s3PathStyle c then (let u1 = u\<lparr>uPath := ''/'' @ bucket @ ''/'' @ key\<rparr> in Inr (url_String u1, uHost u1))
         else (let u1 = u\<lparr>uHost := bucket @ ''.'' @ uHost u, uPath := ''/'' @ key\<rparr> in Inr (url_String u1, uHost u1)))"

text \<open>\<open>http.NewRequestWithContext\<close>, and \<open>Header.Set\<close> on single values.\<close>

definition removeEmptyPort :: "string \<Rightarrow> string" where
  "removeEmptyPort h = TrimSuffix h '':''"

definition NewRequest :: "string \<Rightarrow> string \<Rightarrow> string \<Rightarrow> error + s3req" where
  "NewRequest verb url body = (case url_Parse url of
       Inl e \<Rightarrow> Inl e
     | Inr u \<Rightarrow> Inr \<lparr>srMethod = verb, srURL = u\<lparr>uHost := removeEmptyPort (uHost u)\<rparr>, srQuery = [], srHeader = [], srBody = body\<rparr>)"

definition set_header :: "string \<Rightarrow> string \<Rightarrow> s3req \<Rightarrow> s3req" where
  "set_header k v r = r\<lparr>srHeader := (k, v) # filter (\<lambda>h. fst h \<noteq> k) (srHeader r)\<rparr>"

definition get_header :: "string \<Rightarrow> s3req \<Rightarrow> string" where
  "get_header k r = (case map_of (srHeader r) k of Some v \<Rightarrow> v | None \<Rightarrow> [])"

subsection \<open>Signatures\<close>

definition hex_text :: "string \<Rightarrow> string" where
  "hex_text s = concat (map (\<lambda>c. [hex_char (of_char c div 16), hex_char (of_char c mod 16)]) s)"

definition sha256Hex :: "s3env \<Rightarrow> string \<Rightarrow> string" where
  "sha256Hex env p = hex_text (s3Sha256 env p)"

definition unreserved :: string where
  "unreserved = ''ABCDEFGHIJKLMNOPQRSTUVWXYZabcdefghijklmnopqrstuvwxyz0123456789-_.~''"

definition upper_char :: "char \<Rightarrow> char" where
  "upper_char c = (let n = (of_char c :: nat) in if 97 \<le> n \<and> n \<le> 122 then char_of (n - 32) else c)"

definition sigvEscape :: "string \<Rightarrow> string" where
  "sigvEscape s = map upper_char (concat (map (\<lambda>c. if c \<in> set unreserved then [c] else ''%'' @ hex_digits (of_char c)) s))"

definition canonicalQuery :: "(string \<times> string) list \<Rightarrow> string" where
  "canonicalQuery q = Join (map (\<lambda>(k, v). sigvEscape k @ ''='' @ sigvEscape v) (sort_key fst q)) ''&''"

definition signed_pairs :: "s3req \<Rightarrow> (string \<times> string) list" where
  "signed_pairs r =
     sort_key fst
       (map (\<lambda>(k, v). (ToLower k, TrimSpace v))
          (filter (\<lambda>(k, v). let lk = ToLower k in lk = ''host'' \<or> HasPrefix lk ''x-amz-'' \<or> lk = ''content-type'') (srHeader r)) @
        (if get_header ''Host'' r = [] then [(''host'', uHost (srURL r))] else []))"

definition canonicalHeaders :: "s3req \<Rightarrow> string \<times> string" where
  "canonicalHeaders r = (concat (map (\<lambda>(k, v). k @ '':'' @ v @ nl) (signed_pairs r)), Join (map fst (signed_pairs r)) '';'')"

definition date_text :: "gotime \<Rightarrow> string" where
  "date_text t = pad 4 (fst (year_yday (wall_seconds (\<lambda>_. 0) t div 86400))) @ pad 2 (go_Month (\<lambda>_. 0) t) @ pad 2 (go_Day (\<lambda>_. 0) t)"

definition amz_date :: "gotime \<Rightarrow> string" where
  "amz_date t = date_text t @ ''T'' @ pad 2 (go_Hour (\<lambda>_. 0) t) @ pad 2 (go_Minute (\<lambda>_. 0) t) @ pad 2 (go_Second (\<lambda>_. 0) t) @ ''Z''"

definition canonical_request :: "s3req \<Rightarrow> string \<Rightarrow> string" where
  "canonical_request r payloadHash = Join
     [srMethod r, escape_path (uPath (srURL r)), canonicalQuery (srQuery r), fst (canonicalHeaders r), snd (canonicalHeaders r), payloadHash] nl"

definition sig_scope :: "s3Client \<Rightarrow> gotime \<Rightarrow> string" where
  "sig_scope c now = Join [date_text now, s3Region c, ''s3'', ''aws4_request''] ''/''"

definition signature :: "s3env \<Rightarrow> s3Client \<Rightarrow> gotime \<Rightarrow> string \<Rightarrow> string" where
  "signature env c now creq =
     (let stringToSign = Join [''AWS4-HMAC-SHA256'', amz_date now, sig_scope c now, sha256Hex env creq] nl;
          kDate = s3Hmac env (''AWS4'' @ s3SecretKey c) (date_text now);
          kRegion = s3Hmac env kDate (s3Region c);
          kService = s3Hmac env kRegion ''s3'';
          kSigning = s3Hmac env kService ''aws4_request''
      in hex_text (s3Hmac env kSigning stringToSign))"

definition authorization :: "s3env \<Rightarrow> s3Client \<Rightarrow> gotime \<Rightarrow> string \<Rightarrow> string \<Rightarrow> string" where
  "authorization env c now names creq =
     ''AWS4-HMAC-SHA256 Credential='' @ s3AccessKey c @ ''/'' @ sig_scope c now @ '', SignedHeaders='' @ names @
     '', Signature='' @ signature env c now creq"

definition stamped :: "s3env \<Rightarrow> s3req \<Rightarrow> s3req" where
  "stamped env r = (let r1 = set_header ''X-Amz-Date'' (amz_date (s3Now env)) r in
     if get_header ''Host'' r1 = [] then set_header ''Host'' (uHost (srURL r1)) r1 else r1)"

definition sign :: "s3env \<Rightarrow> s3Client \<Rightarrow> s3req \<Rightarrow> string \<Rightarrow> s3req" where
  "sign env c r payloadHash = (let r1 = stamped env r in
     set_header ''Authorization'' (authorization env c (s3Now env) (snd (canonicalHeaders r1)) (canonical_request r1 payloadHash)) r1)"

subsection \<open>Requests\<close>

definition send :: "s3env \<Rightarrow> s3req \<Rightarrow> s3req list \<Rightarrow> (error + nat \<times> string \<times> string) \<times> s3req list" where
  "send env r tr = (s3Answer env tr r, tr @ [r])"

text \<open>An answer outside 2xx is an error with the status and at most 4096 bytes of the body.\<close>

definition checked :: "string \<Rightarrow> error + nat \<times> string \<times> string \<Rightarrow> error + string" where
  "checked what a = (case a of
       Inl e \<Rightarrow> Inl e
     | Inr (code, status, body) \<Rightarrow>
         if code div 100 \<noteq> 2 then Inl (what @ '': '' @ status @ '': '' @ take 4096 body) else Inr body)"

definition prepare :: "s3env \<Rightarrow> s3Client \<Rightarrow> string \<Rightarrow> string \<Rightarrow> string \<Rightarrow> (string \<times> string) list \<Rightarrow> string \<Rightarrow> error + s3req" where
  "prepare env c verb bucket key q body =
     (case bucketURL c bucket key of
        Inl e \<Rightarrow> Inl e
      | Inr (endpoint, host) \<Rightarrow> (case NewRequest verb endpoint body of
          Inl e \<Rightarrow> Inl e
        | Inr r \<Rightarrow> Inr (sign env c (set_header ''X-Amz-Content-Sha256'' (sha256Hex env body) (set_header ''Host'' host (r\<lparr>srQuery := q\<rparr>)))
                          (sha256Hex env body))))"

definition putObject :: "s3env \<Rightarrow> s3Client \<Rightarrow> string \<Rightarrow> string \<Rightarrow> string \<Rightarrow> s3req list \<Rightarrow> error option \<times> s3req list" where
  "putObject env c bucket key srcPath tr =
     (case s3File env srcPath of
        Inl e \<Rightarrow> (Some (''hash '' @ srcPath @ '': '' @ e), tr)
      | Inr data \<Rightarrow> (case prepare env c ''PUT'' bucket key [] data of
          Inl e \<Rightarrow> (Some e, tr)
        | Inr r \<Rightarrow> (case send env r tr of (a, tr') \<Rightarrow>
            (case checked (''s3 PUT '' @ key) a of Inl e \<Rightarrow> Some e | Inr _ \<Rightarrow> None, tr'))))"

definition s3_objects :: "s3env \<Rightarrow> (string \<times> string \<times> goint) list \<Rightarrow> (string \<times> gotime \<times> goint) list" where
  "s3_objects env es = map (\<lambda>(key, lm, sz). (key, case s3Time env lm of Some t \<Rightarrow> t | None \<Rightarrow> 0, sz)) es"

definition list_query :: "string \<Rightarrow> (string \<times> string) list" where
  "list_query pre = (''list-type'', ''2'') # (if pre \<noteq> [] then [(''prefix'', pre)] else [])"

definition listObjects :: "s3env \<Rightarrow> s3Client \<Rightarrow> string \<Rightarrow> string \<Rightarrow> s3req list \<Rightarrow> (error + (string \<times> gotime \<times> goint) list) \<times> s3req list" where
  "listObjects env c bucket pre tr =
     (case prepare env c ''GET'' bucket [] (list_query pre) [] of
        Inl e \<Rightarrow> (Inl e, tr)
      | Inr r \<Rightarrow> (case send env r tr of (a, tr') \<Rightarrow>
          (case checked (''s3 LIST '' @ bucket) a of
             Inl e \<Rightarrow> (Inl e, tr')
           | Inr body \<Rightarrow> (case s3XML env body of Inl e \<Rightarrow> (Inl e, tr') | Inr es \<Rightarrow> (Inr (s3_objects env es), tr')))))"

definition deleteObject :: "s3env \<Rightarrow> s3Client \<Rightarrow> string \<Rightarrow> string \<Rightarrow> s3req list \<Rightarrow> error option \<times> s3req list" where
  "deleteObject env c bucket key tr =
     (case prepare env c ''DELETE'' bucket key [] [] of
        Inl e \<Rightarrow> (Some e, tr)
      | Inr r \<Rightarrow> (case send env r tr of (a, tr') \<Rightarrow>
          (case checked (''s3 DELETE '' @ key) a of Inl e \<Rightarrow> Some e | Inr _ \<Rightarrow> None, tr')))"

definition filepathBase :: "string \<Rightarrow> string" where
  "filepathBase p = (case LastIndexByte p (CHR ''/'') of Some i \<Rightarrow> drop (i + 1) p | None \<Rightarrow> p)"

definition s3_prefix :: "BackupTarget \<Rightarrow> string" where
  "s3_prefix t = (let key = TrimPrefix (btPrefix t) ''/'' in if key \<noteq> [] \<and> \<not> HasSuffix key ''/'' then key @ ''/'' else key)"

definition uploadS3 :: "s3env \<Rightarrow> string \<Rightarrow> BackupTarget \<Rightarrow> s3req list \<Rightarrow> (error + string) \<times> s3req list" where
  "uploadS3 env srcPath t tr =
     (if btBucket t = [] then (Inl ''s3 bucket required'', tr)
      else if btRegion t = [] then (Inl ''s3 region required'', tr)
      else (let key = s3_prefix t @ filepathBase srcPath in
        case putObject env (newS3Client t) (btBucket t) key srcPath tr of
          (Some e, tr') \<Rightarrow> (Inl e, tr') | (None, tr') \<Rightarrow> (Inr key, tr')))"

text \<open>The loop that deletes what is past the retention, for any target; it stops at the first failure.\<close>

primrec delete_each :: "('k \<Rightarrow> 's \<Rightarrow> error option \<times> 's) \<Rightarrow> 'k list \<Rightarrow> 's \<Rightarrow> 'k list \<times> error option \<times> 's" where
  "delete_each rm [] s = ([], None, s)"
| "delete_each rm (k # ks) s = (case rm k s of
       (Some e, s') \<Rightarrow> ([], Some e, s')
     | (None, s') \<Rightarrow> (case delete_each rm ks s' of (del, eo, s'') \<Rightarrow> (k # del, eo, s'')))"

definition cleanupS3 :: "s3env \<Rightarrow> BackupTarget \<Rightarrow> goint \<Rightarrow> s3req list \<Rightarrow> string list \<times> error option \<times> s3req list" where
  "cleanupS3 env t keep tr =
     (if keep < 1 then ([], Some ''retention must be >= 1'', tr)
      else (case listObjects env (newS3Client t) (btBucket t) (s3_prefix t) tr of
          (Inl e, tr') \<Rightarrow> ([], Some e, tr')
        | (Inr objects, tr') \<Rightarrow>
            delete_each (deleteObject env (newS3Client t) (btBucket t)) (map fst (drop (nat keep) (s3Sort env objects))) tr'))"

section \<open>SFTP\<close>

datatype authMethod = PublicKeys string | Password string

record sftpenv =
  sfFile :: "string \<Rightarrow> error + string"
  sfParseKey :: "string \<Rightarrow> error option"
  sfDial :: "string \<Rightarrow> error option"
  sfHandshake :: "string \<Rightarrow> authMethod list \<Rightarrow> error option"
  sfClient :: "error option"
  sfErr :: "bk_call \<Rightarrow> error option"
  sfShort :: "string \<Rightarrow> nat"
  sfReadDir :: "string \<Rightarrow> disk \<Rightarrow> error option + dirent list"
  sfSort :: "(string \<times> gotime) list \<Rightarrow> (string \<times> gotime) list"

definition sftpAuthMethods :: "sftpenv \<Rightarrow> BackupTarget \<Rightarrow> error + authMethod list" where
  "sftpAuthMethods env t =
     (case (if btKeyPath t = [] then Inr []
            else (case sfFile env (btKeyPath t) of
                Inl e \<Rightarrow> Inl (''read key '' @ btKeyPath t @ '': '' @ e)
              | Inr raw \<Rightarrow> (case sfParseKey env raw of
                  Some e \<Rightarrow> Inl (''parse private key: '' @ e) | None \<Rightarrow> Inr [PublicKeys raw]))) of
        Inl e \<Rightarrow> Inl e
      | Inr keys \<Rightarrow>
          (let auths = keys @ (if btPassword t \<noteq> [] then [Password (btPassword t)] else []) in
           if auths = [] then Inl ''sftp requires KeyPath or Password'' else Inr auths))"

text \<open>The connection: \<open>None\<close> when it is up. The host key of the server plays no part.\<close>

definition dialSFTP :: "sftpenv \<Rightarrow> BackupTarget \<Rightarrow> error option" where
  "dialSFTP env t =
     (if btHost t = [] then Some ''sftp host required''
      else (case sftpAuthMethods env t of
          Inl e \<Rightarrow> Some e
        | Inr auths \<Rightarrow>
            (let addr = JoinHostPort (btHost t) (Itoa (if btPort t = 0 then 22 else btPort t)) in
             case sfDial env addr of
               Some e \<Rightarrow> Some (''dial '' @ addr @ '': '' @ e)
             | None \<Rightarrow> (case sfHandshake env (btUser t) auths of
                 Some e \<Rightarrow> Some (''ssh handshake: '' @ e)
               | None \<Rightarrow> map_option (\<lambda>e. ''sftp client: '' @ e) (sfClient env)))))"

definition sftp_remove :: "sftpenv \<Rightarrow> string \<Rightarrow> disk \<Rightarrow> disk" where
  "sftp_remove env path d = (if sfErr env (BkRemove path) = None then d(path := None) else d)"

text \<open>The copy through a temporary name, with every state of the remote disk.\<close>

definition sftp_copy :: "sftpenv \<Rightarrow> string \<Rightarrow> string \<Rightarrow> disk \<Rightarrow> (error + string) \<times> disk list" where
  "sftp_copy env final data d =
     (let tmp = final @ ''.tmp''; d1 = d(tmp \<mapsto> []) in
      case sfErr env (BkCreate tmp) of
        Some e \<Rightarrow> (Inl (''create tmp: '' @ e), [d])
      | None \<Rightarrow> (case sfErr env (BkCopy tmp) of
          Some e \<Rightarrow> (let d2 = d1(tmp \<mapsto> take (sfShort env data) data)
                     in (Inl (''copy: '' @ e), [d, d1, d2, sftp_remove env tmp d2]))
        | None \<Rightarrow>
          (let d2 = d1(tmp \<mapsto> data) in
           case sfErr env (BkClose tmp) of
             Some e \<Rightarrow> (Inl (''close tmp: '' @ e), [d, d1, d2, sftp_remove env tmp d2])
           | None \<Rightarrow> (case sfErr env (BkRename tmp final) of
               Some e \<Rightarrow> (Inl (''rename: '' @ e), [d, d1, d2, sftp_remove env tmp d2])
             | None \<Rightarrow> (Inr final, [d, d1, d2, (d2(tmp := None))(final \<mapsto> data)])))))"

definition uploadSFTP :: "sftpenv \<Rightarrow> string \<Rightarrow> BackupTarget \<Rightarrow> disk \<Rightarrow> (error + string) \<times> disk list" where
  "uploadSFTP env srcPath t d =
     (case dialSFTP env t of
        Some e \<Rightarrow> (Inl e, [d])
      | None \<Rightarrow>
          (case (if btRemoteDir t \<noteq> [] then sfErr env (BkMkdirAll (btRemoteDir t)) else None) of
             Some e \<Rightarrow> (Inl (''mkdir '' @ btRemoteDir t @ '': '' @ e), [d])
           | None \<Rightarrow> (case sfFile env srcPath of
               Inl e \<Rightarrow> (Inl e, [d])
             | Inr data \<Rightarrow> sftp_copy env (path_Join (btRemoteDir t) (filepathBase srcPath)) data d)))"

definition sftp_delete :: "sftpenv \<Rightarrow> string \<Rightarrow> disk \<Rightarrow> error option \<times> disk" where
  "sftp_delete env p d = (case sfErr env (BkRemove p) of
       Some e \<Rightarrow> (Some (''remove '' @ p @ '': '' @ e), d) | None \<Rightarrow> (None, d(p := None)))"

definition cleanupSFTP :: "sftpenv \<Rightarrow> BackupTarget \<Rightarrow> goint \<Rightarrow> disk \<Rightarrow> string list \<times> error option \<times> disk" where
  "cleanupSFTP env t keep d =
     (if keep < 1 then ([], Some ''retention must be >= 1'', d)
      else (case dialSFTP env t of
          Some e \<Rightarrow> ([], Some e, d)
        | None \<Rightarrow>
            (let dir = (if btRemoteDir t = [] then ''.'' else btRemoteDir t) in
             case sfReadDir env dir d of
               Inl None \<Rightarrow> ([], None, d)
             | Inl (Some e) \<Rightarrow> ([], Some (''readdir '' @ dir @ '': '' @ e), d)
             | Inr entries \<Rightarrow> delete_each (sftp_delete env) (map fst (drop (nat keep) (sfSort env (backup_files dir entries)))) d)))"

section \<open>Retention\<close>

text \<open>
  A place that holds files and deletes one at a time, where some files cannot be deleted: what the loop
  leaves there and reports.
\<close>

locale deleting =
  fixes rm :: "'k \<Rightarrow> 's \<Rightarrow> error option \<times> 's" and holds :: "'s \<Rightarrow> 'k \<Rightarrow> 'v option" and refused :: "'k \<Rightarrow> error option"
  assumes rm_result: "fst (rm k s) = refused k"
    and rm_ok: "refused k = None \<Longrightarrow> holds (snd (rm k s)) = (holds s)(k := None)"
    and rm_failed: "refused k \<noteq> None \<Longrightarrow> snd (rm k s) = s"
begin

lemma delete_each_spec:
  "delete_each rm ks s = (del, eo, s') \<Longrightarrow>
     del = takeWhile (\<lambda>k. refused k = None) ks \<and> (\<forall>k. holds s' k = (if k \<in> set del then None else holds s k)) \<and>
     eo = (case dropWhile (\<lambda>k. refused k = None) ks of [] \<Rightarrow> None | k # _ \<Rightarrow> refused k)"
proof (induction ks arbitrary: s del)
  case (Cons k ks)
  obtain s1 where r: "rm k s = (refused k, s1)" using rm_result [of k s] by (metis prod.collapse)
  show ?case
  proof (cases "refused k")
    case (Some msg)
    then have "s1 = s" using rm_failed [of k s] r by simp
    then have "rm k s = (Some msg, s)" using r Some by simp
    then have "del = [] \<and> eo = Some msg \<and> s' = s" using Cons.prems by simp
    then show ?thesis using Some by simp
  next
    case None
    obtain del1 eo1 s2 where rec: "delete_each rm ks s1 = (del1, eo1, s2)" by (metis prod_cases3)
    then have "del = k # del1" "eo = eo1" "s' = s2" using Cons.prems r None by auto
    then show ?thesis using Cons.IH [OF rec [folded \<open>eo = eo1\<close> \<open>s' = s2\<close>]] rm_ok [OF None, of s] r None by auto
  qed
qed auto

lemma deletes_oldest:
  assumes "sorts_by (\<lambda>x y. snd x > (snd y :: gotime)) srt" "1 \<le> keep"
    "delete_each rm (map fst (drop (nat keep) (srt files))) s = (del, eo, s')"
  shows "\<exists>kept gone. mset files = mset kept + mset gone \<and> int (length kept) \<le> keep \<and>
    (gone \<noteq> [] \<longrightarrow> int (length kept) = keep) \<and> (\<forall>x \<in> set kept. \<forall>y \<in> set gone. snd y \<le> snd x) \<and>
    sorted_wrt (\<lambda>x y. snd y \<le> snd x) gone \<and> del = takeWhile (\<lambda>k. refused k = None) (map fst gone) \<and>
    eo = (case dropWhile (\<lambda>k. refused k = None) (map fst gone) of [] \<Rightarrow> None | k # _ \<Rightarrow> refused k) \<and>
    (\<forall>k. holds s' k = (if k \<in> set del then None else holds s k))"
proof (intro exI conjI)
  let ?k = "take (nat keep) (srt files)" and ?g = "drop (nat keep) (srt files)"
  show "mset files = mset ?k + mset ?g" using assms(1) by (metis append_take_drop_id mset_append sorts_by_def)
  show "\<forall>x \<in> set ?k. \<forall>y \<in> set ?g. snd y \<le> snd x" using sorts_by_split [OF assms(1)] by (meson not_less)
  show "int (length ?k) \<le> keep" "?g \<noteq> [] \<longrightarrow> int (length ?k) = keep" using assms(2) by auto
  have "sorted_wrt (\<lambda>x y. snd y \<le> snd x) (srt files)" using assms(1) by (simp add: sorts_by_def not_less)
  then show "sorted_wrt (\<lambda>x y. snd y \<le> snd x) ?g" by (rule sorted_wrt_drop)
  from delete_each_spec [OF assms(3)] show "del = takeWhile (\<lambda>k. refused k = None) (map fst ?g)"
    "eo = (case dropWhile (\<lambda>k. refused k = None) (map fst ?g) of [] \<Rightarrow> None | k # _ \<Rightarrow> refused k)"
    "\<forall>k. holds s' k = (if k \<in> set del then None else holds s k)" by auto
qed

end

definition remove_error :: "(bk_call \<Rightarrow> error option) \<Rightarrow> string \<Rightarrow> error option" where
  "remove_error err p = map_option (\<lambda>e. ''remove '' @ p @ '': '' @ e) (err (BkRemove p))"

interpretation sftp_rm: deleting "sftp_delete env" "\<lambda>d. d" "remove_error (sfErr env)" for env
  by unfold_locales (auto simp: sftp_delete_def remove_error_def split: option.splits)

text \<open>The loop of the local target is the same one.\<close>

definition local_delete :: "bkenv \<Rightarrow> string \<Rightarrow> disk \<Rightarrow> error option \<times> disk" where
  "local_delete env p d = (case bk_err env (BkRemove p) of
       Some e \<Rightarrow> (Some (''remove '' @ p @ '': '' @ e), d) | None \<Rightarrow> (None, d(p := None)))"

interpretation local_rm: deleting "local_delete env" "\<lambda>d. d" "remove_error (bk_err env)" for env
  by unfold_locales (auto simp: local_delete_def remove_error_def split: option.splits)

lemma remove_files_is_delete_each: "remove_files env fs d = delete_each (local_delete env) (map fst fs) d"
  by (induction fs arbitrary: d) (simp_all add: local_delete_def split: option.splits)

text \<open>
  C33. Retention treats the targets alike, whether removals fail or not. Once the clean-up of an SFTP or of a local
  target, with a positive number to keep, has reached the target and read its directory, the backup files there split
  into at most \<open>keep\<close> kept ones, exactly \<open>keep\<close> if there are others, and those others, none newer than a kept one, from the newest to
  the oldest. The clean-up deletes the others in that order up to the first that cannot be removed, reports exactly
  those it deleted and the error of that first one, if any, and nothing else on that disk changes.
\<close>

theorem retention_keeps_newest:
  assumes "cleanupSFTP env t keep d = (del, eo, d') \<and> dialSFTP env t = None \<and> dir = (if btRemoteDir t = [] then ''.'' else btRemoteDir t) \<and>
        sfReadDir env dir d = Inr entries \<and> sorts_by (\<lambda>x y. snd x > snd y) (sfSort env) \<and> err = sfErr env \<or>
      cleanupLocal lenv t keep d = (del, eo, d') \<and> validateLocalPath (btPath t) = Inr dir \<and>
        bk_readDir lenv dir d = Inr entries \<and> sorts_by (\<lambda>x y. snd x > snd y) (bk_sort lenv) \<and> err = bk_err lenv"
    and "1 \<le> keep"
  shows "\<exists>kept gone. mset (backup_files dir entries) = mset kept + mset gone \<and> int (length kept) \<le> keep \<and>
    (gone \<noteq> [] \<longrightarrow> int (length kept) = keep) \<and> (\<forall>x \<in> set kept. \<forall>y \<in> set gone. snd y \<le> snd x) \<and>
    sorted_wrt (\<lambda>x y. snd y \<le> snd x) gone \<and> del = takeWhile (\<lambda>p. remove_error err p = None) (map fst gone) \<and>
    eo = (case dropWhile (\<lambda>p. remove_error err p = None) (map fst gone) of [] \<Rightarrow> None | p # _ \<Rightarrow> remove_error err p) \<and>
    (\<forall>p. d' p = (if p \<in> set del then None else d p))"
  using assms(1)
proof
  assume a: "cleanupSFTP env t keep d = (del, eo, d') \<and> dialSFTP env t = None \<and> dir = (if btRemoteDir t = [] then ''.'' else btRemoteDir t) \<and>
        sfReadDir env dir d = Inr entries \<and> sorts_by (\<lambda>x y. snd x > snd y) (sfSort env) \<and> err = sfErr env"
  then have run: "delete_each (sftp_delete env) (map fst (drop (nat keep) (sfSort env (backup_files dir entries)))) d = (del, eo, d')"
    using assms(2) by (auto simp: cleanupSFTP_def Let_def)
  have srt: "sorts_by (\<lambda>x y. snd x > snd y) (sfSort env)" and err: "err = sfErr env" using a by simp_all
  show ?thesis unfolding err by (rule sftp_rm.deletes_oldest [OF srt assms(2) run])
next
  assume a: "cleanupLocal lenv t keep d = (del, eo, d') \<and> validateLocalPath (btPath t) = Inr dir \<and>
        bk_readDir lenv dir d = Inr entries \<and> sorts_by (\<lambda>x y. snd x > snd y) (bk_sort lenv) \<and> err = bk_err lenv"
  then have run: "delete_each (local_delete lenv) (map fst (drop (nat keep) (bk_sort lenv (backup_files dir entries)))) d = (del, eo, d')"
    using assms(2) by (auto simp: cleanupLocal_def remove_files_is_delete_each)
  have srt: "sorts_by (\<lambda>x y. snd x > snd y) (bk_sort lenv)" and err: "err = bk_err lenv" using a by simp_all
  show ?thesis unfolding err by (rule local_rm.deletes_oldest [OF srt assms(2) run])
qed

text \<open>A server with three backups that refuses to remove the second oldest.\<close>

definition demo_files :: "dirent list" where
  "demo_files = map (\<lambda>(n, m). \<lparr>deName = n, deIsDir = False, deModTime = Some m\<rparr>)
     [(''lankeeper-backup-1'', 5), (''lankeeper-backup-2'', 7), (''lankeeper-backup-3'', 9), (''lankeeper-backup-4'', 11)]"

definition demo_sftp :: sftpenv where
  "demo_sftp = \<lparr>sfFile = (\<lambda>_. Inr []), sfParseKey = (\<lambda>_. None), sfDial = (\<lambda>_. None), sfHandshake = (\<lambda>_ _. None), sfClient = None,
     sfErr = (\<lambda>c. if c = BkRemove ''lankeeper-backup-2'' then Some ''denied'' else None), sfShort = (\<lambda>_. 0),
     sfReadDir = (\<lambda>_ _. Inr demo_files), sfSort = sort_key (\<lambda>f. - snd f)\<rparr>"

definition sftp_target :: BackupTarget where
  "sftp_target = zero_BackupTarget\<lparr>btType := ''sftp'', btHost := ''h'', btPassword := ''p''\<rparr>"

theorem retention_keeps_newest_witness:
  "cleanupSFTP demo_sftp sftp_target 1 Map.empty =
     ([''lankeeper-backup-3''], Some (''remove lankeeper-backup-2: denied''), Map.empty(''lankeeper-backup-3'' := None)) \<and>
   (\<exists>kept gone. mset (backup_files ''.'' demo_files) = mset kept + mset gone \<and> int (length kept) = 1 \<and>
     (\<forall>x \<in> set kept. \<forall>y \<in> set gone. snd y \<le> snd x) \<and>
     takeWhile (\<lambda>p. remove_error (sfErr demo_sftp) p = None) (map fst gone) = [''lankeeper-backup-3''])"
proof -
  have f: "backup_files ''.'' demo_files = [(''lankeeper-backup-1'', 5), (''lankeeper-backup-2'', 7), (''lankeeper-backup-3'', 9),
      (''lankeeper-backup-4'', 11)]" by code_simp
  have dl: "dialSFTP demo_sftp sftp_target = None" by code_simp
  have dir: "btRemoteDir sftp_target = []" by (simp add: sftp_target_def zero_defs)
  have rd: "sfReadDir demo_sftp p x = Inr demo_files" for p x by (simp add: demo_sftp_def)
  have srt: "sfSort demo_sftp fs = sort_key (\<lambda>f. - snd f) fs" for fs by (simp add: demo_sftp_def)
  have err: "sftp_delete demo_sftp p x = (if p = ''lankeeper-backup-2'' then (Some ''remove lankeeper-backup-2: denied'', x) else (None, x(p := None)))" for p x
    by (simp add: demo_sftp_def sftp_delete_def)
  have run: "cleanupSFTP demo_sftp sftp_target 1 Map.empty =
      ([''lankeeper-backup-3''], Some (''remove lankeeper-backup-2: denied''), Map.empty(''lankeeper-backup-3'' := None))"
    using f dir rd by (simp add: cleanupSFTP_def dl Let_def srt err)
  have s: "sorts_by (\<lambda>x y. snd x > snd y) (sfSort demo_sftp)"
    using sort_key_sorts_by [of "\<lambda>f :: string \<times> gotime. - snd f"] by (simp add: demo_sftp_def)
  obtain kept gone where g: "mset (backup_files ''.'' demo_files) = mset kept + mset gone" "gone \<noteq> [] \<longrightarrow> int (length kept) = 1"
    "\<forall>x \<in> set kept. \<forall>y \<in> set gone. snd y \<le> snd x"
    "[''lankeeper-backup-3''] = takeWhile (\<lambda>p. remove_error (sfErr demo_sftp) p = None) (map fst gone)"
    using retention_keeps_newest [OF disjI1 order_refl, of demo_sftp sftp_target Map.empty "[''lankeeper-backup-3'']"
      "Some (''remove lankeeper-backup-2: denied'')" "Map.empty(''lankeeper-backup-3'' := None)" "''.''" demo_files "sfErr demo_sftp"]
      run dl dir rd s by (elim meta_impE) auto
  then have "gone \<noteq> []" by auto
  then have "int (length kept) = 1" using g(2) by blast
  then show ?thesis using run g(1,3) g(4) [symmetric] by blast
qed

section \<open>Atomic uploads\<close>

lemma sftp_copy_trace:
  assumes "sftp_copy env final data d = (r, ds)"
  shows "ds \<noteq> []" and "\<forall>d' \<in> set ds. upload_trace final data d d'"
    and "r = Inr final \<and> last ds final = Some data \<or> (\<exists>e. r = Inl e) \<and> last ds final = d final"
proof -
  let ?tmp = "final @ ''.tmp''"
  let ?d1 = "d(?tmp \<mapsto> [])" and ?d2 = "d(?tmp \<mapsto> data)"
  consider (early) e where "(r, ds) = (Inl e, [d])"
    | (failed) e x where "(r, ds) = (Inl e, [d, ?d1, d(?tmp \<mapsto> x), sftp_remove env ?tmp (d(?tmp \<mapsto> x))])"
    | (placed) "(r, ds) = (Inr final, [d, ?d1, ?d2, (?d2(?tmp := None))(final \<mapsto> data)])"
    using assms [symmetric] unfolding sftp_copy_def Let_def fun_upd_upd
    by (cases "sfErr env (BkCreate ?tmp)"; cases "sfErr env (BkCopy ?tmp)"; cases "sfErr env (BkClose ?tmp)";
        cases "sfErr env (BkRename ?tmp final)"; simp only: option.case; blast)
  note cs = this
  show "ds \<noteq> []" using cs by cases auto
  show "\<forall>d' \<in> set ds. upload_trace final data d d'"
    using cs by cases (auto simp: upload_trace_def sftp_remove_def)
  show "r = Inr final \<and> last ds final = Some data \<or> (\<exists>e. r = Inl e) \<and> last ds final = d final"
    using cs by cases (auto simp: sftp_remove_def)
qed

text \<open>
  An upload over SFTP that breaks off at any point leaves the old archive or the complete new one under the final
  name, and only a successful upload reports that name.
\<close>

lemma uploadSFTP_crash_safe:
  assumes "uploadSFTP env src t d = (r, ds)" "final = path_Join (btRemoteDir t) (filepathBase src)"
  shows "(\<forall>d' \<in> set ds. d' final = d final \<or> (\<exists>data. sfFile env src = Inr data \<and> d' final = Some data)) \<and>
    (r = Inr final \<longrightarrow> (\<exists>data. sfFile env src = Inr data \<and> last ds final = Some data)) \<and>
    (\<forall>x. r = Inr x \<longrightarrow> x = final)"
proof (cases "\<exists>e. r = Inl e \<and> ds = [d]")
  case False
  have "\<exists>data. sfFile env src = Inr data \<and> sftp_copy env final data d = (r, ds)"
  proof (cases "sfFile env src")
    case (Inl e)
    have "\<exists>e. uploadSFTP env src t d = (Inl e, [d])" by (simp add: uploadSFTP_def Inl split: option.splits)
    then show ?thesis using assms(1) False by auto
  next
    case (Inr data)
    then show ?thesis using assms False by (auto simp: uploadSFTP_def split: option.splits)
  qed
  then obtain data where data: "sfFile env src = Inr data" and copy: "sftp_copy env final data d = (r, ds)" by blast
  show ?thesis using sftp_copy_trace [OF copy] data by (auto simp: upload_trace_def)
qed auto

section \<open>Signatures\<close>

text \<open>
  What the storage service computes from a request it receives: every byte of path and query outside the unreserved
  set as two upper-case hexadecimal digits, the slashes of the path kept, and the headers that the client names.
\<close>

definition aws_escape :: "string \<Rightarrow> string" where
  "aws_escape s = concat (map (\<lambda>c. if c \<in> set unreserved then [c] else pct c) s)"

definition aws_path :: "string \<Rightarrow> string" where
  "aws_path s = concat (map (\<lambda>c. if c \<in> set unreserved \<or> c = CHR ''/'' then [c] else pct c) s)"

definition aws_query :: "(string \<times> string) list \<Rightarrow> string" where
  "aws_query q = Join (map (\<lambda>(k, v). aws_escape k @ ''='' @ aws_escape v) (sort_key (\<lambda>kv. aws_escape (fst kv)) q)) ''&''"

definition received :: "s3req \<Rightarrow> string \<Rightarrow> string" where
  "received r n = (if n = ''host'' then uHost (srURL r)
     else (case find (\<lambda>h. ToLower (fst h) = n) (srHeader r) of Some h \<Rightarrow> snd h | None \<Rightarrow> []))"

definition aws_names :: "string list" where
  "aws_names = [''host'', ''x-amz-content-sha256'', ''x-amz-date'']"

definition aws_canonical_request :: "s3req \<Rightarrow> string \<Rightarrow> string" where
  "aws_canonical_request r payloadHash = Join
     [srMethod r, aws_path (uPath (srURL r)), aws_query (srQuery r),
      concat (map (\<lambda>n. n @ '':'' @ TrimSpace (received r n) @ nl) aws_names), Join aws_names '';'', payloadHash] nl"

lemma alnum_unreserved: "is_alnum c \<Longrightarrow> c \<in> set unreserved"
proof -
  assume "is_alnum c"
  then have "(of_char c :: nat) \<in> set ([48..<58] @ [65..<91] @ [97..<123])"
    unfolding is_alnum_def Let_def set_append set_upt Un_iff atLeastLessThan_iff by linarith
  moreover have "set ([48..<58] @ [65..<91] @ [97..<123]) \<subseteq> (of_char ` set unreserved :: nat set)" by (simp add: unreserved_def)
  ultimately have "(of_char c :: nat) \<in> of_char ` set unreserved" by blast
  then show ?thesis by (auto simp: of_char_eq_iff)
qed

text \<open>
  The bytes that \<open>EscapedPath\<close> leaves alone and the service escapes; on all others the two agree.
\<close>

definition sub_delim :: "char \<Rightarrow> bool" where
  "sub_delim c \<longleftrightarrow> c \<in> set ''$&+,:;=@''"

lemma unreserved_kept: "c \<in> set unreserved \<Longrightarrow> \<not> path_escapes c"
proof -
  assume "c \<in> set unreserved"
  moreover have "list_all (\<lambda>c. \<not> path_escapes c) unreserved" by code_simp
  ultimately show ?thesis by (simp add: list_all_iff)
qed

lemma kept_bytes: "\<not> path_escapes c \<longleftrightarrow> c \<in> set unreserved \<or> c = CHR ''/'' \<or> sub_delim c"
proof
  assume "\<not> path_escapes c"
  then have "is_alnum c \<or> c \<in> set ''-_.~'' \<or> c = CHR ''/'' \<or> sub_delim c" by (auto simp: path_escapes_def sub_delim_def)
  then show "c \<in> set unreserved \<or> c = CHR ''/'' \<or> sub_delim c"
  proof (elim disjE)
    assume "c \<in> set ''-_.~''"
    moreover have "list_all (\<lambda>c. c \<in> set unreserved) ''-_.~''" by code_simp
    ultimately show ?thesis by (auto simp: list_all_iff)
  qed (simp_all add: alnum_unreserved)
qed (auto simp: unreserved_kept, auto simp: path_escapes_def sub_delim_def)

lemma sub_delim_reserved: "sub_delim c \<Longrightarrow> c \<notin> set unreserved \<and> c \<noteq> CHR ''/'' \<and> c \<noteq> CHR ''%''"
  by (auto simp: sub_delim_def unreserved_def)

lemma byte_maps_agree:
  assumes "\<And>c. f c = g c \<or> f c = [c] \<and> (\<exists>r. g c = CHR ''%'' # r) \<and> c \<noteq> CHR ''%''"
  shows "concat (map f s) = concat (map g s) \<longleftrightarrow> (\<forall>c \<in> set s. f c = g c)"
proof (induction s)
  case (Cons c s)
  then show ?case using assms [of c] by auto
qed simp

lemma paths_agree: "escape_path s = aws_path s \<longleftrightarrow> list_all (\<lambda>c. \<not> sub_delim c) s"
proof -
  let ?f = "\<lambda>c. if path_escapes c then pct c else [c]" and ?g = "\<lambda>c. if c \<in> set unreserved \<or> c = CHR ''/'' then [c] else pct c"
  have iff: "?f c = ?g c \<longleftrightarrow> \<not> sub_delim c" for c
    using kept_bytes [of c] sub_delim_reserved [of c] by (auto simp: pct_def)
  have "?f c = ?g c \<or> ?f c = [c] \<and> (\<exists>r. ?g c = CHR ''%'' # r) \<and> c \<noteq> CHR ''%''" for c
    using kept_bytes [of c] sub_delim_reserved [of c] by (auto simp: pct_def)
  from byte_maps_agree [of ?f ?g, OF this] iff show ?thesis by (simp add: escape_path_def aws_path_def list_all_iff)
qed

text \<open>A path of any bytes survives escaping and parsing.\<close>

lemma upper_hex_val: "n < 16 \<Longrightarrow> hex_val (upper_hex n) = Some n"
  by (cases "n < 10") (auto simp: hex_val_def upper_hex_def Let_def)

lemma unescape_pct: "url_unescape encodePath (pct c @ s) = (case url_unescape encodePath s of Inl e \<Rightarrow> Inl e | Inr t \<Rightarrow> Inr (c # t))"
proof -
  let ?n = "of_char c :: nat"
  have v: "hex_val (upper_hex (?n div 16)) = Some (?n div 16)" "hex_val (upper_hex (?n mod 16)) = Some (?n mod 16)"
    using upper_hex_val nat_of_char_less_256 [of c] by (simp_all add: less_mult_imp_div_less)
  then have "hex_pair (upper_hex (?n div 16)) (upper_hex (?n mod 16)) = ?n" by (simp add: hex_pair_def)
  then show ?thesis using v by (simp add: pct_def escape_refused_def is_hex_def split: sum.split)
qed

lemma unescape_escaped: "url_unescape encodePath (escape_path s) = Inr s"
proof (induction s)
  case (Cons c s)
  have "c \<noteq> CHR ''%''" if "\<not> path_escapes c" using that by (auto simp: path_escapes_def is_alnum_def)
  then show ?case using Cons unescape_pct [of c "escape_path s"] by (auto simp: escape_path_def byte_refused_def)
qed (simp add: escape_path_def)

lemma upper_hex_alnum: "n < 16 \<Longrightarrow> is_alnum (upper_hex n)"
  by (cases "n < 10") (auto simp: is_alnum_def upper_hex_def Let_def)

lemma escaped_bytes: "c \<in> set (escape_path s) \<Longrightarrow> c \<notin> {CHR ''?'', CHR ''#''} \<and> \<not> is_ctl c"
proof -
  assume "c \<in> set (escape_path s)"
  then obtain x where "x \<in> set s" "c \<in> set (if path_escapes x then pct x else [x])" by (auto simp: escape_path_def)
  then have "\<not> path_escapes c \<or> c \<in> set (pct x)" by (auto split: if_splits)
  moreover have "\<not> path_escapes c \<Longrightarrow> ?thesis"
    using is_alnum_not_special [of c] by (auto simp: path_escapes_def is_ctl_def)
  moreover have "c \<in> set (pct x) \<Longrightarrow> c = CHR ''%'' \<or> is_alnum c"
    using upper_hex_alnum [of "of_char x div 16"] upper_hex_alnum [of "of_char x mod 16"] nat_of_char_less_256 [of x]
    by (auto simp: pct_def less_mult_imp_div_less)
  ultimately show ?thesis using is_alnum_not_special [of c] by (auto simp: is_ctl_def)
qed

lemma map_byte_id: "(\<And>c. c \<in> set s \<Longrightarrow> f c = [c]) \<Longrightarrow> concat (map f s) = s"
  by (induction s) auto

lemma escape_host_plain: "plain_authority h \<Longrightarrow> escape_host h = h"
proof -
  assume h: "plain_authority h"
  have "\<not> host_escapes c" if "c \<in> set h" for c
    using plain_authority_bytes [OF h that] by (auto simp: host_escapes_def host_byte_def)
  then show ?thesis unfolding escape_host_def by (intro map_byte_id) simp
qed

lemma name_order: "''host'' \<le> ''x-amz-content-sha256''" "''host'' \<le> ''x-amz-date''" "''x-amz-content-sha256'' \<le> ''x-amz-date''"
  "\<not> ''x-amz-date'' \<le> ''x-amz-content-sha256''" "\<not> ''x-amz-date'' \<le> ''host''" "\<not> ''x-amz-content-sha256'' \<le> ''host''"
  by (simp_all add: less_char_def)

lemma lower_names: "ToLower ''X-Amz-Date'' = ''x-amz-date''" "ToLower ''X-Amz-Content-Sha256'' = ''x-amz-content-sha256''" "ToLower ''Host'' = ''host''"
  "ToLower ''Authorization'' = ''authorization''"
  by code_simp+

lemma signed_three:
  assumes "srHeader r = [(''X-Amz-Date'', d), (''X-Amz-Content-Sha256'', x), (''Host'', h)]" "h \<noteq> []"
  shows "signed_pairs r = [(''host'', TrimSpace h), (''x-amz-content-sha256'', TrimSpace x), (''x-amz-date'', TrimSpace d)]"
  using assms by (simp add: signed_pairs_def get_header_def lower_names HasPrefix_def name_order)

lemma removeEmptyPort_host: "plain_authority h \<Longrightarrow> removeEmptyPort h = h"
proof -
  assume "plain_authority h"
  then obtain name port where h: "h = name @ port" "name \<noteq> []" "list_all host_byte name"
    and p: "port = [] \<or> (\<exists>ds. port = CHR '':'' # ds \<and> ds \<noteq> [] \<and> list_all is_digit ds)" by (auto simp: plain_authority_def)
  have "last h \<noteq> CHR '':''"
  proof (cases "port = []")
    case True
    then have "host_byte (last h)" using h by (auto simp: list_all_iff)
    then show ?thesis using host_byte_special by blast
  next
    case False
    then obtain ds where "port = CHR '':'' # ds" "ds \<noteq> []" "list_all is_digit ds" using p by blast
    then have "is_digit (last h)" using h(1) by (simp add: list_all_iff)
    then show ?thesis by (auto simp: is_digit_def)
  qed
  moreover have "HasSuffix h '':'' \<Longrightarrow> last h = CHR '':''" using last_drop [of "length h - 1" h] by (auto simp: HasSuffix_def)
  ultimately have "\<not> HasSuffix h '':''" by blast
  then show ?thesis by (simp add: removeEmptyPort_def TrimSuffix_def)
qed

text \<open>The URL of an object at a plain host, possibly with a port.\<close>

definition object_host :: "s3Client \<Rightarrow> string \<Rightarrow> string \<Rightarrow> string" where
  "object_host c bucket h = (if s3PathStyle c then h else bucket @ ''.'' @ h)"

definition object_path :: "s3Client \<Rightarrow> string \<Rightarrow> string \<Rightarrow> string" where
  "object_path c bucket key = (if s3PathStyle c then ''/'' @ bucket @ ''/'' @ key else ''/'' @ key)"

lemma object_authority: "plain_authority h \<Longrightarrow> list_all host_byte bucket \<Longrightarrow> plain_authority (object_host c bucket h)"
proof -
  assume "plain_authority h" and b: "list_all host_byte bucket"
  then obtain name port where "h = name @ port" "list_all host_byte name"
    and p: "port = [] \<or> (\<exists>ds. port = CHR '':'' # ds \<and> ds \<noteq> [] \<and> list_all is_digit ds)" by (auto simp: plain_authority_def)
  moreover have "list_all host_byte (bucket @ ''.'' @ name)" using b calculation(2) by (simp add: host_byte_def)
  ultimately have "plain_authority (bucket @ ''.'' @ h)"
    unfolding plain_authority_def by (intro exI [of _ "bucket @ ''.'' @ name"] exI [of _ port]) simp
  then show ?thesis using \<open>plain_authority h\<close> by (simp add: object_host_def)
qed

lemma NewRequest_object:
  assumes ep: "url_Parse (s3Endpoint c) = Inr \<lparr>uScheme = ''https'', uHost = h, uPath = p\<rparr>"
    and h: "plain_authority h" and b: "list_all host_byte bucket"
  shows "\<exists>url. bucketURL c bucket key = Inr (url, object_host c bucket h) \<and>
    NewRequest verb url body = Inr \<lparr>srMethod = verb, srURL = \<lparr>uScheme = ''https'', uHost = object_host c bucket h,
      uPath = object_path c bucket key\<rparr>, srQuery = [], srHeader = [], srBody = body\<rparr>"
proof -
  note hb = object_authority [OF h b, of c]
  obtain q where q: "object_path c bucket key = CHR ''/'' # q" by (cases "s3PathStyle c") (simp_all add: object_path_def)
  let ?u = "\<lparr>uScheme = ''https'', uHost = object_host c bucket h, uPath = CHR ''/'' # q\<rparr>"
  have sl: "escape_path (CHR ''/'' # q) = CHR ''/'' # escape_path q" by (simp add: escape_path_def path_escapes_def)
  have str: "url_String ?u = ''https://'' @ object_host c bucket h @ ''/'' @ escape_path q"
    using sl escape_host_plain [OF hb] by (simp add: url_String_def)
  have "url_Parse (url_String ?u) = Inr ?u"
    unfolding str
  proof (rule https_url [OF parseAuthority_port [OF hb]])
    show "url_unescape encodePath (CHR ''/'' # escape_path q) = Inr (CHR ''/'' # q)"
      using unescape_escaped [of "CHR ''/'' # q"] sl by simp
  qed (use plain_authority_bytes [OF hb] escaped_bytes in blast)+
  moreover have "bucketURL c bucket key = Inr (url_String ?u, object_host c bucket h)"
    using ep q by (simp add: bucketURL_def object_host_def object_path_def Let_def split: if_splits)
  ultimately show ?thesis using removeEmptyPort_host [OF hb] q by (simp add: NewRequest_def)
qed

text \<open>The request that is sent, before its signature, and its signature.\<close>

definition before_sign :: "s3env \<Rightarrow> s3Client \<Rightarrow> string \<Rightarrow> string \<Rightarrow> string \<Rightarrow> string \<Rightarrow> (string \<times> string) list \<Rightarrow> string \<Rightarrow> s3req" where
  "before_sign env c verb bucket h key q body =
     \<lparr>srMethod = verb, srURL = \<lparr>uScheme = ''https'', uHost = object_host c bucket h, uPath = object_path c bucket key\<rparr>, srQuery = q,
      srHeader = [(''X-Amz-Date'', amz_date (s3Now env)), (''X-Amz-Content-Sha256'', sha256Hex env body), (''Host'', object_host c bucket h)],
      srBody = body\<rparr>"

lemma prepare_object:
  assumes "url_Parse (s3Endpoint c) = Inr \<lparr>uScheme = ''https'', uHost = h, uPath = p\<rparr>"
    "plain_authority h" "list_all host_byte bucket"
  shows "prepare env c verb bucket key q body = Inr (set_header ''Authorization''
    (authorization env c (s3Now env) (Join aws_names '';'')
       (canonical_request (before_sign env c verb bucket h key q body) (sha256Hex env body))) (before_sign env c verb bucket h key q body))"
proof -
  obtain url where u: "bucketURL c bucket key = Inr (url, object_host c bucket h)"
    "NewRequest verb url body = Inr \<lparr>srMethod = verb, srURL = \<lparr>uScheme = ''https'', uHost = object_host c bucket h,
      uPath = object_path c bucket key\<rparr>, srQuery = [], srHeader = [], srBody = body\<rparr>"
    using NewRequest_object [OF assms] by blast
  have host: "object_host c bucket h \<noteq> []" using assms(2) by (auto simp: object_host_def plain_authority_def)
  have "signed_pairs (before_sign env c verb bucket h key q body) =
      [(''host'', TrimSpace (object_host c bucket h)), (''x-amz-content-sha256'', TrimSpace (sha256Hex env body)),
       (''x-amz-date'', TrimSpace (amz_date (s3Now env)))]"
    by (rule signed_three) (simp_all add: before_sign_def host)
  then have "snd (canonicalHeaders (before_sign env c verb bucket h key q body)) = Join aws_names '';''"
    by (simp add: canonicalHeaders_def aws_names_def)
  then show ?thesis using u host
    by (simp add: prepare_def sign_def stamped_def before_sign_def set_header_def get_header_def Let_def)
qed

lemma canonical_headers_received:
  assumes "h \<noteq> []"
  shows "fst (canonicalHeaders (before_sign env c verb bucket h key q body)) =
    concat (map (\<lambda>n. n @ '':'' @ TrimSpace (received (set_header ''Authorization'' a (before_sign env c verb bucket h key q body)) n) @ nl) aws_names)"
proof -
  have "object_host c bucket h \<noteq> []" using assms by (simp add: object_host_def)
  then have "signed_pairs (before_sign env c verb bucket h key q body) =
      [(''host'', TrimSpace (object_host c bucket h)), (''x-amz-content-sha256'', TrimSpace (sha256Hex env body)),
       (''x-amz-date'', TrimSpace (amz_date (s3Now env)))]"
    by (intro signed_three) (simp_all add: before_sign_def)
  then show ?thesis by (simp add: canonicalHeaders_def aws_names_def received_def set_header_def before_sign_def lower_names)
qed

lemma list_queries_differ: "\<exists>x y. canonicalQuery (list_query pre) = CHR ''L'' # x \<and> aws_query (list_query pre) = CHR ''l'' # y"
proof -
  have e: "sigvEscape ''list-type'' = ''LIST-TYPE''" "aws_escape ''list-type'' = ''list-type''" "aws_escape ''prefix'' = ''prefix''" by code_simp+
  have le: "''list-type'' \<le> ''prefix''" by simp
  show ?thesis using e le by (cases "pre = []") (simp_all add: canonicalQuery_def aws_query_def list_query_def)
qed

lemma canonical_object:
  assumes "h \<noteq> []" "list_all host_byte bucket"
    "r = set_header ''Authorization'' a (before_sign env c verb bucket h key q body)"
  shows "canonical_request (before_sign env c verb bucket h key q body) x = aws_canonical_request r x \<longleftrightarrow>
    escape_path (object_path c bucket key) @ nl @ canonicalQuery q = aws_path (object_path c bucket key) @ nl @ aws_query q"
proof -
  have "srMethod r = verb" "uPath (srURL r) = object_path c bucket key" "srQuery r = q"
    by (simp_all add: assms(3) set_header_def before_sign_def)
  moreover have names: "snd (canonicalHeaders (before_sign env c verb bucket h key q body)) = Join aws_names '';''"
  proof -
    have "object_host c bucket h \<noteq> []" using assms(1) by (simp add: object_host_def)
    then have "map fst (signed_pairs (before_sign env c verb bucket h key q body)) = aws_names"
      by (subst signed_three) (simp_all add: before_sign_def aws_names_def)
    then show ?thesis by (simp add: canonicalHeaders_def)
  qed
  moreover note canonical_headers_received [OF assms(1), of env c verb bucket key q body a, folded assms(3)]
  moreover have "srMethod (before_sign env c verb bucket h key q body) = verb" "srQuery (before_sign env c verb bucket h key q body) = q"
    "uPath (srURL (before_sign env c verb bucket h key q body)) = object_path c bucket key" by (simp_all add: before_sign_def)
  ultimately show ?thesis unfolding canonical_request_def aws_canonical_request_def
    by (simp flip: append_assoc) simp
qed

lemma object_path_agrees:
  assumes "list_all host_byte bucket"
  shows "escape_path (object_path c bucket key) = aws_path (object_path c bucket key) \<longleftrightarrow> list_all (\<lambda>x. \<not> sub_delim x) key"
proof -
  have "\<not> sub_delim x" if "host_byte x" for x using that by (auto simp: host_byte_def sub_delim_def is_alnum_def)
  then have "list_all (\<lambda>x. \<not> sub_delim x) bucket" using assms by (auto simp: list_all_iff)
  moreover have "\<not> sub_delim (CHR ''/'')" by (simp add: sub_delim_def)
  ultimately show ?thesis unfolding paths_agree by (simp add: object_path_def)
qed

lemma get_set_header: "get_header k (set_header k v r) = v"
  by (simp add: get_header_def set_header_def)

lemma signed_object:
  assumes "url_Parse (s3Endpoint c) = Inr \<lparr>uScheme = ''https'', uHost = h, uPath = p\<rparr>" "plain_authority h" "list_all host_byte bucket"
  shows "\<exists>r creq. prepare env c verb bucket key q body = Inr r \<and>
    get_header ''Authorization'' r = authorization env c (s3Now env) (Join aws_names '';'') creq \<and>
    (creq = aws_canonical_request r (sha256Hex env body) \<longleftrightarrow>
      escape_path (object_path c bucket key) @ nl @ canonicalQuery q = aws_path (object_path c bucket key) @ nl @ aws_query q)"
proof -
  have "h \<noteq> []" using assms(2) by (auto simp: plain_authority_def)
  then show ?thesis using prepare_object [OF assms] get_set_header canonical_object [OF _ assms(3) refl] by blast
qed

text \<open>
  C34. The signatures of the storage client, for an https endpoint that is a host name with or without a port and a bucket
  name of letters, digits, dots and hyphens. A request for an object, whatever bytes its key has, carries the signature of the
  canonical request that the service computes from what it receives exactly when the key has none of the bytes \<open>$&+,:;=@\<close>:
  those \<open>EscapedPath\<close> leaves alone and the service escapes. The listing that retention starts with never does: the
  canonical query is written in capitals, so that what is signed differs from what the service checks.
\<close>

theorem s3_signatures:
  assumes "url_Parse (s3Endpoint c) = Inr \<lparr>uScheme = ''https'', uHost = h, uPath = p\<rparr>" "plain_authority h" "list_all host_byte bucket"
  shows "(\<exists>r creq. prepare env c verb bucket key [] body = Inr r \<and> get_header ''Authorization'' r =
      authorization env c (s3Now env) (Join aws_names '';'') creq \<and>
      (creq = aws_canonical_request r (sha256Hex env body) \<longleftrightarrow> list_all (\<lambda>x. x \<notin> set ''$&+,:;=@'') key)) \<and>
    (\<exists>r creq. prepare env c ''GET'' bucket [] (list_query pre) [] = Inr r \<and> get_header ''Authorization'' r =
      authorization env c (s3Now env) (Join aws_names '';'') creq \<and> creq \<noteq> aws_canonical_request r (sha256Hex env []))"
proof
  have "canonicalQuery [] = aws_query []" by (simp add: canonicalQuery_def aws_query_def)
  then show "\<exists>r creq. prepare env c verb bucket key [] body = Inr r \<and> get_header ''Authorization'' r =
      authorization env c (s3Now env) (Join aws_names '';'') creq \<and>
      (creq = aws_canonical_request r (sha256Hex env body) \<longleftrightarrow> list_all (\<lambda>x. x \<notin> set ''$&+,:;=@'') key)"
    using signed_object [OF assms, of env verb key "[]" body] object_path_agrees [OF assms(3), of c key] unfolding sub_delim_def by simp
  have "escape_path (object_path c bucket []) = aws_path (object_path c bucket [])" using object_path_agrees [OF assms(3)] by simp
  then show "\<exists>r creq. prepare env c ''GET'' bucket [] (list_query pre) [] = Inr r \<and> get_header ''Authorization'' r =
      authorization env c (s3Now env) (Join aws_names '';'') creq \<and> creq \<noteq> aws_canonical_request r (sha256Hex env [])"
    using signed_object [OF assms, of env "''GET''" "[]" "list_query pre" "[]"] list_queries_differ [of pre] by fastforce
qed

definition demo_s3 :: s3Client where
  "demo_s3 = \<lparr>s3Endpoint = ''https://s3.lan:9000/'', s3Region = ''r'', s3AccessKey = ''k'', s3SecretKey = ''s'', s3PathStyle = True\<rparr>"

definition demo_s3env :: s3env where
  "demo_s3env = \<lparr>s3File = (\<lambda>_. Inr []), s3Sha256 = (\<lambda>_. []), s3Hmac = (\<lambda>k d. k @ d), s3Answer = (\<lambda>_ _. Inr (200, ''200 OK'', [])),
     s3XML = (\<lambda>_. Inr []), s3Time = (\<lambda>_. None), s3Sort = (\<lambda>os. os), s3Now = 0\<rparr>"

theorem s3_signatures_witness:
  "(\<exists>r creq. prepare demo_s3env demo_s3 ''PUT'' ''b'' ''a b.enc'' [] ''x'' = Inr r \<and> get_header ''Authorization'' r =
      authorization demo_s3env demo_s3 (s3Now demo_s3env) (Join aws_names '';'') creq \<and> creq = aws_canonical_request r (sha256Hex demo_s3env ''x'')) \<and>
   (\<exists>r creq. prepare demo_s3env demo_s3 ''PUT'' ''b'' ''a+b.enc'' [] ''x'' = Inr r \<and> get_header ''Authorization'' r =
      authorization demo_s3env demo_s3 (s3Now demo_s3env) (Join aws_names '';'') creq \<and> creq \<noteq> aws_canonical_request r (sha256Hex demo_s3env ''x''))"
proof -
  have auth: "plain_authority ''s3.lan:9000''"
    unfolding plain_authority_def
    by (intro exI [of _ "''s3.lan''"] exI [of _ "'':9000''"]) (simp add: host_byte_def is_alnum_def is_digit_def)
  have "url_Parse (''https://'' @ ''s3.lan:9000'' @ ''/'' @ []) = Inr \<lparr>uScheme = ''https'', uHost = ''s3.lan:9000'', uPath = ''/''\<rparr>"
    by (rule https_url [OF parseAuthority_port [OF auth]]) (use plain_authority_bytes [OF auth] in \<open>auto simp: byte_refused_def\<close>)
  then have ep: "url_Parse (s3Endpoint demo_s3) = Inr \<lparr>uScheme = ''https'', uHost = ''s3.lan:9000'', uPath = ''/''\<rparr>"
    by (simp add: demo_s3_def)
  have b: "list_all host_byte ''b''" by code_simp
  have good: "list_all (\<lambda>x. x \<notin> set ''$&+,:;=@'') ''a b.enc''" and bad: "\<not> list_all (\<lambda>x. x \<notin> set ''$&+,:;=@'') ''a+b.enc''" by code_simp+
  from s3_signatures [OF ep auth b, of demo_s3env "''PUT''" "''a b.enc''" "''x''"] good
    s3_signatures [OF ep auth b, of demo_s3env "''PUT''" "''a+b.enc''" "''x''"] bad show ?thesis by blast
qed

end
