(* ===== verification/HandlersBackup.thy ===== *)
theory HandlersBackup
  imports BackupRemote NAS HandlersSystem GoURL
begin

text \<open>
  Page templates (\<^verbatim>\<open>internal/tmpl/render.go\<close>), and the backup and NAS pages (\<^verbatim>\<open>internal/web/handlers/backup.go\<close>,
  \<^verbatim>\<open>internal/web/handlers/nas.go\<close>) with the Samba file of the template \<^verbatim>\<open>configs/sysconf/smb.conf.tmpl\<close>.
\<close>

section \<open>The renderer\<close>

text \<open>
  \<open>NewRenderer\<close>: for each page the base names of the files parsed with it, the names \<open>ExecuteTemplate\<close> knows besides the
  \<open>define\<close> blocks. Listing the embedded files and parsing them may fail.
\<close>

record tmplenv =
  teGlob :: "string \<Rightarrow> error + string list"
  teParse :: "string list \<Rightarrow> error + string list"

fun parse_pages :: "tmplenv \<Rightarrow> string list \<Rightarrow> string list \<Rightarrow> (string \<rightharpoonup> string list) \<Rightarrow> error + (string \<rightharpoonup> string list)" where
  "parse_pages env shared [] m = Inr m"
| "parse_pages env shared (page # pages) m =
     (case teParse env (page # shared) of
        Inl e \<Rightarrow> Inl (''parse '' @ page @ '': '' @ e)
      | Inr blocks \<Rightarrow> parse_pages env shared pages (m(page \<mapsto> map path_Base (page # shared) @ blocks)))"

definition NewRenderer :: "tmplenv \<Rightarrow> error + (string \<rightharpoonup> string list)" where
  "NewRenderer env =
     (case teGlob env ''templates/layouts/*.html'' of Inl e \<Rightarrow> Inl (''glob layouts: '' @ e)
      | Inr layouts \<Rightarrow> (case teGlob env ''templates/pages/*.html'' of Inl e \<Rightarrow> Inl (''glob pages: '' @ e)
        | Inr pages \<Rightarrow> (case teGlob env ''templates/partials/*.html'' of Inl e \<Rightarrow> Inl (''glob partials: '' @ e)
          | Inr partials \<Rightarrow> parse_pages env (layouts @ partials) pages Map.empty)))"

text \<open>Executing a named template of a page: an unknown name is an error before any output.\<close>

definition executes :: "(string \<rightharpoonup> string list) \<Rightarrow> (string \<Rightarrow> string \<Rightarrow> string \<Rightarrow> 'd \<Rightarrow> string \<times> error option) \<Rightarrow> 'd pageenv" where
  "executes m exec = \<lparr>pgExec = (\<lambda>page name lang d. case m (''templates/pages/'' @ page @ ''.html'') of
       None \<Rightarrow> None
     | Some names \<Rightarrow> Some (if name \<in> set names then exec page name lang d
                           else ([], Some (''html/template: '' @ Quote name @ '' is undefined''))))\<rparr>"

definition RenderPartial :: "'d pageenv \<Rightarrow> string \<Rightarrow> string \<Rightarrow> string \<Rightarrow> 'd \<Rightarrow> response \<Rightarrow> error option \<times> response" where
  "RenderPartial env page partial lang d w =
     (case pgExec env page partial lang d of
        None \<Rightarrow> (Some (''template not found: templates/pages/'' @ page @ ''.html''), w)
      | Some (body, err) \<Rightarrow>
          (map_option (\<lambda>e. ''execute partial '' @ partial @ '': '' @ e) err,
           (let w1 = Header_Set ''Content-Type'' ''text/html; charset=utf-8'' w in if body = [] then w1 else Write body w1)))"

section \<open>Backup pages\<close>

definition map_backup :: "(BackupConfig \<Rightarrow> BackupConfig) \<Rightarrow> Config \<Rightarrow> Config" where
  "map_backup f c = c\<lparr>cfgBackup := f (cfgBackup c)\<rparr>"

lemma map_backup_simps [simp]: "cfgBackup (map_backup f c) = f (cfgBackup c)" "cfgFilePath (map_backup f c) = cfgFilePath c"
  by (simp_all add: map_backup_def)

record backuphenv =
  hbSys :: sysenv
  hbLocal :: location
  hbRun :: "(store \<Rightarrow> error option \<times> store) option"
  hbJSON :: "BackupHistory list \<Rightarrow> error + string"

definition reverseHistory :: "BackupHistory list \<Rightarrow> BackupHistory list" where
  "reverseHistory history = map (\<lambda>j. history ! (length history - 1 - j)) [0..<length history]"

record backupPage =
  bpBackup :: BackupConfig
  bpTargets :: "BackupTarget list"
  bpHistory :: "BackupHistory list"
  bpHasPass :: bool

definition backup_data :: "Config \<Rightarrow> backupPage" where
  "backup_data c = \<lparr>bpBackup = cfgBackup c, bpTargets = bcTargets (cfgBackup c), bpHistory = reverseHistory (bcHistory (cfgBackup c)),
     bpHasPass = (bcPassphrase (cfgBackup c) \<noteq> [])\<rparr>"

definition HandleBackupPage :: "backupPage pageenv \<Rightarrow> world hfun" where
  "HandleBackupPage pg r = with_cfg (\<lambda>c. (\<lambda>(w, wd).
     case Render pg ''backup'' ''default'' (LangFromContext r) (backup_data c) w of
       (None, w1) \<Rightarrow> (w1, wd)
     | (Some e, w1) \<Rightarrow> refuse e 500 (w1, wd)))"

text \<open>Assign, save, answer.\<close>

definition save_backup :: "backuphenv \<Rightarrow> (BackupConfig \<Rightarrow> BackupConfig) \<Rightarrow> request \<Rightarrow> response \<times> world \<Rightarrow> response \<times> world" where
  "save_backup env f r = do_action (io_then (io_update (map_backup f)) (io_save (hbSys env))) (\<lambda>_. (''save failed'', 500)) (\<lambda>_. finish ''/backup'' r)"

definition form_on :: "request \<Rightarrow> string \<Rightarrow> bool" where
  "form_on r k \<longleftrightarrow> rqForm r k = ''on'' \<or> rqForm r k = ''true''"

definition schedule_form :: "request \<Rightarrow> BackupConfig \<Rightarrow> BackupConfig" where
  "schedule_form r b =
     (let retention = ParseInt_value (rqForm r ''retention''); pass = rqForm r ''passphrase'';
          b1 = b\<lparr>bcEnabled := form_on r ''enabled'', bcSchedule := TrimSpace (rqForm r ''schedule''),
                 bcRetention := (if retention < 1 then 7 else retention)\<rparr>
      in if pass \<noteq> [] then b1\<lparr>bcPassphrase := pass\<rparr> else b1)"

text \<open>A schedule whose parsing panics ends the request without an answer of the handler.\<close>

definition HandleSaveSchedule :: "backuphenv \<Rightarrow> world hfun" where
  "HandleSaveSchedule env r = needs_form r
     (let schedule = TrimSpace (rqForm r ''schedule'') in
      if schedule = [] then save_backup env (schedule_form r) r
      else (case ParseSchedule (hbLocal env) schedule None of
          Failed e \<Rightarrow> refuse (''invalid schedule: '' @ e) 400
        | Panicked \<Rightarrow> (\<lambda>ws. ws)
        | Returned _ \<Rightarrow> save_backup env (schedule_form r) r))"

definition target_form :: "request \<Rightarrow> string \<Rightarrow> BackupTarget option" where
  "target_form r name =
     (let t = zero_BackupTarget\<lparr>btType := rqForm r ''type'', btName := name\<rparr>; v = (\<lambda>k. TrimSpace (rqForm r k)) in
      if btType t = ''local'' then Some (t\<lparr>btPath := v ''path''\<rparr>)
      else if btType t = ''s3''
      then Some (t\<lparr>btEndpoint := v ''endpoint'', btRegion := v ''region'', btBucket := v ''bucket'', btPrefix := v ''prefix'',
             btAccessKeyID := v ''accessKeyId'', btSecretAccessKey := rqForm r ''secretAccessKey'', btUsePathStyle := (rqForm r ''usePathStyle'' = ''on'')\<rparr>)
      else if btType t = ''sftp''
      then Some (t\<lparr>btHost := v ''host'', btPort := ParseInt_value (rqForm r ''port''), btUser := v ''user'', btPassword := rqForm r ''password'',
             btKeyPath := v ''keyPath'', btRemoteDir := v ''remoteDir''\<rparr>)
      else None)"

definition HandleAddTarget :: "backuphenv \<Rightarrow> world hfun" where
  "HandleAddTarget env r = needs_form r
     (let name = TrimSpace (rqForm r ''name'') in
      if name = [] then refuse ''name required'' 400
      else with_cfg (\<lambda>c.
        if list_ex (\<lambda>t. btName t = name) (bcTargets (cfgBackup c)) then refuse ''duplicate name'' 400
        else (case target_form r name of
            None \<Rightarrow> refuse ''invalid type'' 400
          | Some t \<Rightarrow> save_backup env (\<lambda>b. b\<lparr>bcTargets := bcTargets b @ [t]\<rparr>) r)))"

definition HandleDeleteTarget :: "backuphenv \<Rightarrow> world hfun" where
  "HandleDeleteTarget env r =
     (let name = TrimPrefix (rqPath r) ''/backup/target/'' in
      if name = [] then refuse ''name required'' 400
      else with_cfg (\<lambda>c.
        if \<not> list_ex (\<lambda>t. btName t = name) (bcTargets (cfgBackup c)) then refuse ''target not found'' 404
        else save_backup env (\<lambda>b. b\<lparr>bcTargets := filter (\<lambda>t. btName t \<noteq> name) (bcTargets b)\<rparr>) r))"

definition RunNow :: "backuphenv \<Rightarrow> store \<Rightarrow> error option \<times> store" where
  "RunNow env st = (case hbRun env of None \<Rightarrow> (Some ''backup runner not wired'', st) | Some runner \<Rightarrow> runner st)"

definition HandleRunNow :: "backuphenv \<Rightarrow> world hfun" where
  "HandleRunNow env r = observe (on_store (RunNow env)) (\<lambda>res. case res of
       Inl e \<Rightarrow> write_text (''<div '' @ attr ''class'' ''alert alert-error'' @ ''>'' @ EscapeString e @ ''</div>'')
     | Inr _ \<Rightarrow> finish ''/backup'' r)"

definition HandleHistory :: "backuphenv \<Rightarrow> world hfun" where
  "HandleHistory env r = with_cfg (\<lambda>c. (\<lambda>(w, wd).
     (let w1 = Header_Set ''Content-Type'' ''application/json'' w in
      case hbJSON env (reverseHistory (bcHistory (cfgBackup c))) of Inl e \<Rightarrow> (w1, wd) | Inr body \<Rightarrow> (Write (body @ nl) w1, wd))))"

definition backup_handlers :: "backuphenv \<Rightarrow> backupPage pageenv \<Rightarrow> world hfun list" where
  "backup_handlers env pg = [HandleBackupPage pg, HandleSaveSchedule env, HandleAddTarget env, HandleDeleteTarget env, HandleHistory env]"

lemma reverseHistory_rev: "reverseHistory h = rev h"
  by (rule nth_equalityI) (simp_all add: reverseHistory_def rev_nth)

section \<open>NAS pages\<close>

type_synonym nas_state = "M3USyncStatus \<times> world"

record nasPage =
  npShares :: "ShareConfig list"
  npM3UStatus :: M3USyncStatus

definition nas_HandlePage :: "nasPage pageenv \<Rightarrow> nas_state hfun" where
  "nas_HandlePage pg r = with_state (\<lambda>(st, wd). show_page pg ''nas'' r \<lparr>npShares = GetShares (wcfg wd), npM3UStatus = GetM3UStatus st\<rparr>)"

definition nas_applied :: "nasenv \<Rightarrow> request \<Rightarrow> response \<times> nas_state \<Rightarrow> response \<times> nas_state" where
  "nas_applied env r = observe (on_snd (nas_ApplyConfig env)) (\<lambda>_. finish ''/nas'' r)"

definition share_form :: "request \<Rightarrow> string \<Rightarrow> ShareConfig" where
  "share_form r path = \<lparr>shName = rqForm r ''name'', shPath = path, shGuestOK = form_on r ''guestOk'', shReadOnly = form_on r ''readOnly'', shValidUsers = []\<rparr>"

definition HandleAddShare :: "nasenv \<Rightarrow> nas_state hfun" where
  "HandleAddShare env r = needs_form r
     (let name = rqForm r ''name''; path = Clean (rqForm r ''path'') in
      if name = [] then refuse ''name required'' 400
      else if length name > 64 \<or> \<not> namePattern name
      then refuse ''name must be alphanumeric, dashes, or underscores (max 64 chars)'' 400
      else if path = [] then refuse ''path required'' 400
      else if \<not> HasPrefix path ''/srv/'' \<and> \<not> HasPrefix path ''/mnt/'' then refuse ''path must start with /srv/ or /mnt/'' 400
      else do_action (on_snd (AddShare env (share_form r path))) (\<lambda>_. (''save failed'', 500)) (\<lambda>_. nas_applied env r))"

definition HandleDeleteShare :: "nasenv \<Rightarrow> nas_state hfun" where
  "HandleDeleteShare env r =
     do_action (on_snd (RemoveShare env (PathValue r ''name''))) (err_text 400) (\<lambda>_. nas_applied env r)"

text \<open>
  The synchronisation runs in a goroutine beside the answer; its context is that of the request, which the server
  cancels when the handler returns. \<open>started\<close> is what the goroutine does before that.
\<close>

definition HandleSyncM3U :: "(world \<Rightarrow> M3USyncStatus \<times> world) \<Rightarrow> nas_state hfun" where
  "HandleSyncM3U started r = observe (\<lambda>(st, wd). ((), started wd)) (\<lambda>_. trigger ''m3uSyncStarted'' ''/nas'' r)"

definition group_html :: "string \<Rightarrow> string" where
  "group_html g = (let escaped = EscapeString g in
     ''<label '' @ attr ''style'' ''display:flex;align-items:center;gap:var(--space-xs);cursor:pointer;padding:var(--space-xs) 0;'' @ ''><input '' @
     attr ''type'' ''checkbox'' @ '' '' @ attr ''name'' ''includeGroups'' @ '' '' @ attr ''value'' escaped @ '' checked> '' @ escaped @ ''</label>'')"

definition HandleDiscoverGroups :: "nasenv \<Rightarrow> nas_state hfun" where
  "HandleDiscoverGroups env r = needs_form r
     (let rawURL = rqForm r ''url'' in
      if rawURL = [] then refuse ''url required'' 400
      else if (case url_Parse rawURL of Inl _ \<Rightarrow> True | Inr u \<Rightarrow> uScheme u \<noteq> ''http'' \<and> uScheme u \<noteq> ''https'')
      then refuse ''url must use http or https scheme'' 400
      else (case DiscoverM3UGroups env rawURL of
          Inl e \<Rightarrow> refuse e 500
        | Inr groups \<Rightarrow> (\<lambda>(w, s). (foldl (\<lambda>w g. Write (group_html g) w)
              (Header_Set ''Content-Type'' ''text/html; charset=utf-8'' w) groups, s))))"

section \<open>The backup page\<close>

text \<open>The layouts of the repository are \<open>base.html\<close> and \<open>auth.html\<close>; no page or partial is called \<open>default.html\<close>.\<close>

lemma parse_pages_names:
  "parse_pages env shared pages m = Inr m' \<Longrightarrow> m' page = Some names \<Longrightarrow>
     m page = Some names \<or> page \<in> set pages \<and> (\<exists>blocks. teParse env (page # shared) = Inr blocks \<and> names = map path_Base (page # shared) @ blocks)"
proof (induction env shared pages m rule: parse_pages.induct)
  case (2 env shared p ps m)
  then obtain blocks where b: "teParse env (p # shared) = Inr blocks"
    "parse_pages env shared ps (m(p \<mapsto> map path_Base (p # shared) @ blocks)) = Inr m'" by (auto split: sum.splits)
  from 2(1) [OF b 2(3)] b(1) show ?case by (auto split: if_splits)
qed simp

lemma backup_page_never_renders:
  assumes "NewRenderer env = Inr m"
    and "\<And>g fs f. teGlob env g = Inr fs \<Longrightarrow> f \<in> set fs \<Longrightarrow> path_Base f \<noteq> ''default.html''"
    and "\<And>fs blocks. teParse env fs = Inr blocks \<Longrightarrow> ''default.html'' \<notin> set blocks"
    and "m ''templates/pages/backup.html'' = Some names"
  shows "HandleBackupPage (executes m exec) r (w, wd) = refuse
    (''execute template backup: html/template: '' @ Quote ''default.html'' @ '' is undefined'') 500
      (Header_Set ''Content-Type'' ''text/html; charset=utf-8'' w, wd)"
proof -
  obtain layouts pages partials where g: "teGlob env ''templates/layouts/*.html'' = Inr layouts"
    "teGlob env ''templates/pages/*.html'' = Inr pages" "teGlob env ''templates/partials/*.html'' = Inr partials"
    "parse_pages env (layouts @ partials) pages Map.empty = Inr m"
    using assms(1) by (auto simp: NewRenderer_def split: sum.splits)
  from parse_pages_names [OF g(4) assms(4)] obtain blocks where "''templates/pages/backup.html'' \<in> set pages"
    "teParse env (''templates/pages/backup.html'' # layouts @ partials) = Inr blocks"
    "names = map path_Base (''templates/pages/backup.html'' # layouts @ partials) @ blocks" by auto
  then have "''default.html'' \<notin> set names"
    using assms(2) [OF g(1)] assms(2) [OF g(2)] assms(2) [OF g(3)] assms(3) by (auto dest!: sym [of "''default.html''"])
  then show ?thesis
    using assms(4) by (simp add: HandleBackupPage_def with_cfg_def Render_def executes_def)
qed

section \<open>What the backup forms keep\<close>

definition backup_ok :: "location \<Rightarrow> Config \<Rightarrow> bool" where
  "backup_ok local c \<longleftrightarrow> (let b = cfgBackup c in
     distinct (map btName (bcTargets b)) \<and> list_all (\<lambda>t. btName t \<noteq> [] \<and> btType t \<in> {''local'', ''s3'', ''sftp''}) (bcTargets b) \<and>
     1 \<le> bcRetention b \<and> (bcSchedule b = [] \<or> (\<exists>s. ParseSchedule local (bcSchedule b) None = Returned s)))"

lemma wcfg_io_save: "wcfg (snd (io_save env w)) = wcfg w"
  using SaveToFile_cfg [of "seOS env" "wStore w"]
  by (cases "SaveToFile (seOS env) (wStore w)") (auto simp: io_save_def split: option.splits)

lemma wcfg_snd_update_save: "wcfg (snd (io_then (io_update f) (io_save env) w)) = f (wcfg w)"
  using wcfg_io_save [of env "snd (io_update f w)"] by (simp add: io_then_def io_bind_def io_update_def)

lemma save_backup_cfg: "wcfg (snd (save_backup env f r (w, wd))) = map_backup f (wcfg wd)"
  using wcfg_snd_update_save [of "map_backup f" "hbSys env" wd]
  by (cases "io_then (io_update (map_backup f)) (io_save (hbSys env)) wd")
    (auto simp: save_backup_def do_action_def refuse_def finish_def split: sum.splits)

lemma save_backup_step: "(\<And>c. I c \<Longrightarrow> I (map_backup f c)) \<Longrightarrow> cfg_step I (save_backup env f r)"
  unfolding save_backup_def by (rule cfg_step_action) (simp_all add: wcfg_snd_update_save cfg_step_finish)

lemma target_form_kind: "target_form r name = Some t \<Longrightarrow> btName t = name \<and> btType t \<in> {''local'', ''s3'', ''sftp''}"
  by (auto simp: target_form_def Let_def split: if_splits)

lemma schedule_form_fields:
  "bcTargets (schedule_form r b) = bcTargets b" "1 \<le> bcRetention (schedule_form r b)"
  "bcSchedule (schedule_form r b) = TrimSpace (rqForm r ''schedule'')"
  by (simp_all add: schedule_form_def Let_def)

lemma cfg_step_id: "cfg_step I (\<lambda>ws. ws)"
  by (simp add: cfg_step_def)

lemma cfg_step_option: "(x = None \<Longrightarrow> cfg_step I f) \<Longrightarrow> (\<And>a. x = Some a \<Longrightarrow> cfg_step I (g a)) \<Longrightarrow> cfg_step I (case x of None \<Rightarrow> f | Some a \<Rightarrow> g a)"
  by (cases x) simp_all

lemma cfg_step_outcome:
  "(\<And>a. x = Returned a \<Longrightarrow> cfg_step I (f a)) \<Longrightarrow> (\<And>e. cfg_step I (g e)) \<Longrightarrow> cfg_step I h \<Longrightarrow>
     cfg_step I (case x of Returned a \<Rightarrow> f a | Failed e \<Rightarrow> g e | Panicked \<Rightarrow> h)"
  by (cases x) simp_all

lemma backup_ok_add:
  "backup_ok local c \<Longrightarrow> \<not> list_ex (\<lambda>t. btName t = name) (bcTargets (cfgBackup c)) \<Longrightarrow> name \<noteq> [] \<Longrightarrow> target_form r name = Some t \<Longrightarrow>
     backup_ok local (map_backup (\<lambda>b. b\<lparr>bcTargets := bcTargets b @ [t]\<rparr>) c)"
  using target_form_kind [of r name t] by (auto simp: backup_ok_def Let_def list_ex_iff)

lemma add_target_step: "cfg_step (backup_ok local) (HandleAddTarget env r)"
proof (unfold cfg_step_def, intro allI impI)
  fix w wd
  assume ok: "backup_ok local (wcfg wd)"
  let ?name = "TrimSpace (rqForm r ''name'')"
  consider "rqBadForm r \<or> ?name = [] \<or> list_ex (\<lambda>t. btName t = ?name) (bcTargets (cfgBackup (wcfg wd))) \<or> target_form r ?name = None"
    | t where "\<not> rqBadForm r" "?name \<noteq> []" "\<not> list_ex (\<lambda>t. btName t = ?name) (bcTargets (cfgBackup (wcfg wd)))" "target_form r ?name = Some t"
    by fastforce
  then show "backup_ok local (wcfg (snd (HandleAddTarget env r (w, wd))))"
  proof cases
    case 1
    then have "wcfg (snd (HandleAddTarget env r (w, wd))) = wcfg wd"
      by (auto simp: HandleAddTarget_def needs_form_def with_cfg_def refuse_def Let_def)
    then show ?thesis using ok by simp
  next
    case 2
    then have "HandleAddTarget env r (w, wd) = save_backup env (\<lambda>b. b\<lparr>bcTargets := bcTargets b @ [t]\<rparr>) r (w, wd)"
      by (simp add: HandleAddTarget_def needs_form_def with_cfg_def Let_def)
    then show ?thesis using backup_ok_add [OF ok 2(3,2,4)] by (simp add: save_backup_cfg)
  qed
qed

lemma backup_handler_step:
  assumes "h \<in> set (backup_handlers env pg)"
  shows "cfg_step (backup_ok (hbLocal env)) (h r)"
proof -
  let ?I = "backup_ok (hbLocal env)"
  have page: "cfg_step ?I (HandleBackupPage pg r)" "cfg_step ?I (HandleHistory env r)"
    by (auto simp: cfg_step_def HandleBackupPage_def HandleHistory_def with_cfg_def refuse_def Let_def split: prod.splits option.splits sum.splits)
  have sched: "cfg_step ?I (HandleSaveSchedule env r)"
    unfolding HandleSaveSchedule_def Let_def
    by (intro cfg_step_form cfg_step_if cfg_step_outcome save_backup_step cfg_step_refuse cfg_step_id)
      (auto simp: backup_ok_def Let_def schedule_form_fields)
  have add: "cfg_step ?I (HandleAddTarget env r)" by (rule add_target_step)
  have del: "cfg_step ?I (HandleDeleteTarget env r)"
    unfolding HandleDeleteTarget_def Let_def
    by (intro cfg_step_if cfg_step_refuse cfg_step_with_cfg save_backup_step)
      (auto simp: backup_ok_def Let_def list_all_iff distinct_map inj_on_def)
  show ?thesis using assms page sched add del by (auto simp: backup_handlers_def)
qed

text \<open>
  C39. The backup settings stay well-formed: from settings that are, any sequence of requests to the backup forms,
  accepted or refused, leads to targets with distinct non-empty names and known types, a retention of at least
  one, and a schedule that is empty or one that the scheduler can parse.
\<close>

theorem backup_requests_keep:
  assumes "backup_ok (hbLocal env) (wcfg wd)" "\<forall>(h, r, w) \<in> set rs. h \<in> set (backup_handlers env pg)"
  shows "backup_ok (hbLocal env) (wcfg (run_requests rs wd))"
proof -
  have "\<forall>(h, r, w) \<in> set rs. cfg_step (backup_ok (hbLocal env)) (h r)" using assms(2) backup_handler_step by fastforce
  then show ?thesis by (rule run_requests_keep [where I = "backup_ok (hbLocal env)", OF _ assms(1)])
qed

definition calm_backup :: "location \<Rightarrow> backuphenv" where
  "calm_backup loc = \<lparr>hbSys = calm_env, hbLocal = loc, hbRun = None, hbJSON = (\<lambda>_. Inr [])\<rparr>"

definition retained_world :: world where
  "retained_world = \<lparr>wStore = \<lparr>cfg = zero_Config\<lparr>cfgBackup := (cfgBackup zero_Config)\<lparr>bcRetention := 7\<rparr>\<rparr>, disk = Map.empty\<rparr>, wTrace = []\<rparr>"

definition target_request :: request where
  "target_request = \<lparr>rqMethod = ''POST'', rqPath = ''/backup/target'', rqRemoteAddr = ''10.0.0.2:5000'', rqCookies = [], rqHeader = (\<lambda>_. []),
     rqForm = (\<lambda>k. if k = ''name'' then ''nas'' else if k = ''type'' then ''local'' else []), rqBadForm = False, rqQuery = (\<lambda>_. []), rqBody = [],
     rqVars = [], rqLang = None\<rparr>"

theorem backup_requests_keep_witness:
  "backup_ok (\<lambda>_. 0) (wcfg (run_requests [(HandleAddTarget (calm_backup (\<lambda>_. 0)), target_request, empty_response),
      (HandleDeleteTarget (calm_backup (\<lambda>_. 0)), target_request, empty_response)] retained_world))"
  using backup_requests_keep [of "calm_backup (\<lambda>_. 0)" retained_world
      "[(HandleAddTarget (calm_backup (\<lambda>_. 0)), target_request, empty_response), (HandleDeleteTarget (calm_backup (\<lambda>_. 0)), target_request, empty_response)]"
      "\<lparr>pgExec = (\<lambda>_ _ _ _. None)\<rparr>"]
  by (simp add: calm_backup_def retained_world_def backup_ok_def backup_handlers_def zero_Config_def zero_BackupConfig_def)

section \<open>The Samba file\<close>

definition smb_global :: string where
  "smb_global = concat (map (\<lambda>l. l @ nl)
     [''[global]'', ''workgroup = WORKGROUP'', ''server string = LANKeeper NAS'', ''server role = standalone server'',
      ''log file = /var/log/samba/log.%m'', ''max log size = 1000'', ''logging = file'', ''panic action = /usr/share/samba/panic-action %d'',
      ''server role = standalone server'', ''obey pam restrictions = yes'', ''unix password sync = yes'', ''passwd program = /usr/bin/passwd %u'',
      ''passwd chat = *Enter'' @ [bslash] @ ''snew'' @ [bslash] @ ''s*'' @ [bslash] @ ''spassword:* %n'' @ [bslash] @ ''n *Retype'' @ [bslash] @ ''snew'' @
        [bslash] @ ''s*'' @ [bslash] @ ''spassword:* %n'' @ [bslash] @ ''n *password'' @ [bslash] @ ''supdated'' @ [bslash] @ ''ssuccessfully* .'',
      ''pam password change = yes'', ''map to guest = bad user'', ''usershare allow guests = yes'', []])"

definition share_text :: "ShareConfig \<Rightarrow> string" where
  "share_text s =
     nl @ ''['' @ shName s @ '']'' @ nl @ ''    path = '' @ shPath s @ nl @ ''    browseable = yes'' @
     (if shGuestOK s then nl @ ''    guest ok = yes'' @ nl @ ''    public = yes'' else nl @ ''    guest ok = no'') @
     (if shReadOnly s then nl @ ''    read only = yes'' else nl @ ''    read only = no'') @
     (if shValidUsers s \<noteq> [] then nl @ ''    valid users = '' @ Join (shValidUsers s) '', '' else []) @
     nl @ ''    create mask = 0664'' @ nl @ ''    directory mask = 0775'' @ nl"

definition smb_text :: "ShareConfig list \<Rightarrow> string" where
  "smb_text shares = smb_global @ concat (map share_text shares) @ nl"

text \<open>
  The path of a share is cleaned and must lie below \<open>/srv\<close> or \<open>/mnt\<close>, but may contain a line feed: this form is
  accepted and puts a \<open>root preexec\<close> line into the share, a command that Samba runs as root.
\<close>

definition preexec_path :: string where
  "preexec_path = ''/srv/x'' @ nl @ ''    root preexec = /tmp/x''"

lemma share_path_injects:
  "Clean preexec_path = preexec_path \<and> HasPrefix preexec_path ''/srv/'' \<and>
   ''    root preexec = /tmp/x'' \<in> set (Split (share_text \<lparr>shName = ''media'', shPath = preexec_path, shGuestOK = False, shReadOnly = False, shValidUsers = []\<rparr>) (CHR 0x0A))"
  by code_simp

end
