(* ===== verification/Network.thy ===== *)
theory Network
  imports NetUtil Effects
begin

text \<open>
  Interfaces (\<^verbatim>\<open>internal/netutil/iface.go\<close>), cloned hardware addresses and VLANs
  (\<^verbatim>\<open>internal/services/network.go\<close>) and the phone as uplink (\<^verbatim>\<open>internal/services/usbtethering.go\<close>).
  What the kernel knows about its interfaces is a parameter; the commands of \<open>ip\<close> act on a model of the
  kernel's links, so that what a sequence of them builds can be stated.
\<close>

section \<open>Detection\<close>

record InterfaceInfo =
  iiName :: string
  iiMAC :: string
  iiState :: string
  iiSpeed :: string
  iiDriver :: string
  iiMTU :: goint
  iiAddresses :: "string list"
  iiIsVirtual :: bool

text \<open>\<open>net.Interface\<close>; bit 0 of the flags is \<open>FlagUp\<close>, bit 2 is \<open>FlagLoopback\<close>.\<close>

record netIface =
  niName :: string
  niHardwareAddr :: "nat list"
  niMTU :: goint
  niFlags :: nat
  niAddrs :: "error + string list"

record ifenv =
  ieInterfaces :: "error + netIface list"
  ieByName :: "string \<Rightarrow> error + netIface"
  ieReadFile :: "string \<Rightarrow> string option"
  ieReadlink :: "string \<Rightarrow> string option"
  ieDevLines :: "error + string list"

definition HardwareAddr_String :: "nat list \<Rightarrow> string" where
  "HardwareAddr_String bs = Join (map (\<lambda>b. [hex_char (b div 16), hex_char (b mod 16)]) bs) '':''"

definition interface_info :: "ifenv \<Rightarrow> netIface \<Rightarrow> InterfaceInfo" where
  "interface_info env i =
     \<lparr>iiName = niName i, iiMAC = HardwareAddr_String (niHardwareAddr i),
      iiState = (if bit (niFlags i) 0 then ''up'' else ''down''),
      iiSpeed = readSysfs (ieReadFile env) (niName i) ''speed'',
      iiDriver = readDriverName (ieReadlink env) (niName i), iiMTU = niMTU i,
      iiAddresses = (case niAddrs i of Inl _ \<Rightarrow> [] | Inr as \<Rightarrow> as),
      iiIsVirtual = isVirtualInterface (ieReadlink env) (niName i)\<rparr>"

definition DetectInterfaces :: "ifenv \<Rightarrow> error + InterfaceInfo list" where
  "DetectInterfaces env =
     (case ieInterfaces env of
        Inl e \<Rightarrow> Inl (''list interfaces: '' @ e)
      | Inr is \<Rightarrow> Inr (map (interface_info env) (filter (\<lambda>i. \<not> bit (niFlags i) 2) is)))"

definition GetInterfaceAddresses :: "ifenv \<Rightarrow> string \<Rightarrow> error + string list" where
  "GetInterfaceAddresses env name =
     (case ieByName env name of
        Inl e \<Rightarrow> Inl (''get interface '' @ name @ '': '' @ e)
      | Inr i \<Rightarrow> (case niAddrs i of Inl e \<Rightarrow> Inl (''get addrs '' @ name @ '': '' @ e) | Inr as \<Rightarrow> Inr as))"

definition net_DetectInterfaces :: "ifenv \<Rightarrow> error + InterfaceInfo list" where
  "net_DetectInterfaces env =
     (case DetectInterfaces env of Inl e \<Rightarrow> Inl e | Inr is \<Rightarrow> Inr (filter (\<lambda>i. \<not> iiIsVirtual i) is))"

record InterfaceStatus =
  isName :: string
  isLabel :: string
  isRole :: string
  isState :: string
  isMTU :: goint
  isAddresses :: "string list"
  isRxBytes :: nat
  isTxBytes :: nat

text \<open>A value whose error is dropped is the zero value when the call failed.\<close>

definition ok_or :: "'a \<Rightarrow> error + 'a \<Rightarrow> 'a" where
  "ok_or z r = (case r of Inl _ \<Rightarrow> z | Inr a \<Rightarrow> a)"

definition GetInterfaceStatus :: "ifenv \<Rightarrow> Config \<Rightarrow> string \<Rightarrow> error + InterfaceStatus" where
  "GetInterfaceStatus env c name =
     (case GetInterfaceState (ieReadFile env) name of
        Inl e \<Rightarrow> Inl e
      | Inr state \<Rightarrow>
          (let addrs = ok_or [] (GetInterfaceAddresses env name);
               (rx, tx) = ok_or (0, 0) (ReadInterfaceStats (ieDevLines env) name);
               status = \<lparr>isName = name, isLabel = [], isRole = [], isState = state, isMTU = 0,
                         isAddresses = addrs, isRxBytes = rx, isTxBytes = tx\<rparr>
           in case find (\<lambda>i. ifDevice i = name \<or> ifID i = name) (cfgInterfaces c) of
                None \<Rightarrow> Inr status
              | Some i \<Rightarrow> Inr (status\<lparr>isLabel := ifLabel i, isRole := ifRole i, isMTU := ifMTU i\<rparr>)))"

section \<open>Cloned hardware addresses\<close>

definition ApplyMACClone :: "sysenv \<Rightarrow> string \<Rightarrow> string \<Rightarrow> unit action" where
  "ApplyMACClone env device cloneMAC =
     (if cloneMAC = [] then io_return ()
      else case ValidateMAC cloneMAC of
        Some e \<Rightarrow> io_fail e
      | None \<Rightarrow>
          io_then (io_wrap (''link down '' @ device @ '': '') (sys env (CRun ''ip'' [''link'', ''set'', device, ''down''])))
           (io_then (io_wrap (''set MAC '' @ cloneMAC @ '' on '' @ device @ '': '')
               (sys env (CRun ''ip'' [''link'', ''set'', device, ''address'', cloneMAC])))
            (io_then (io_wrap (''link up '' @ device @ '': '') (sys env (CRun ''ip'' [''link'', ''set'', device, ''up''])))
              (io_return ()))))"

definition RestoreMACClones :: "sysenv \<Rightarrow> unit action" where
  "RestoreMACClones env w =
     io_each (\<lambda>i. if ifCloneMAC i \<noteq> [] then io_ignore (ApplyMACClone env (ifDevice i) (ifCloneMAC i)) else io_return ())
       (cfgInterfaces (wcfg w)) w"

section \<open>VLANs\<close>

definition vlan_dev_name :: "string \<Rightarrow> goint \<Rightarrow> string" where
  "vlan_dev_name parentDevice vid = parentDevice @ ''.'' @ Itoa vid"

definition CreateVLAN :: "sysenv \<Rightarrow> string \<Rightarrow> goint \<Rightarrow> string \<Rightarrow> goint \<Rightarrow> unit action" where
  "CreateVLAN env parentDevice vid address mtu =
     (case ValidateVLANID vid of
        Some e \<Rightarrow> io_fail e
      | None \<Rightarrow>
          (let vlanDev = vlan_dev_name parentDevice vid in
           io_then (io_wrap (''create VLAN '' @ Itoa vid @ '': '')
               (sys env (CRun ''ip'' [''link'', ''add'', ''link'', parentDevice, ''name'', vlanDev, ''type'', ''vlan'', ''id'', Itoa vid])))
            (io_then (if mtu > 0 then io_bind (io_wrap (''set mtu on '' @ vlanDev @ '': '')
                 (sys env (CRun ''ip'' [''link'', ''set'', vlanDev, ''mtu'', Itoa mtu]))) (\<lambda>_. io_return ()) else io_return ())
             (io_then (if address \<noteq> [] then io_bind (io_wrap (''assign address to VLAN '' @ Itoa vid @ '': '')
                  (sys env (CRun ''ip'' [''addr'', ''add'', address, ''dev'', vlanDev]))) (\<lambda>_. io_return ()) else io_return ())
              (io_bind (io_wrap (''bring up VLAN '' @ Itoa vid @ '': '')
                  (sys env (CRun ''ip'' [''link'', ''set'', vlanDev, ''up'']))) (\<lambda>_. io_return ()))))))"

definition DeleteVLAN :: "sysenv \<Rightarrow> string \<Rightarrow> goint \<Rightarrow> unit action" where
  "DeleteVLAN env parentDevice vid =
     (let vlanDev = vlan_dev_name parentDevice vid in
      io_bind (io_wrap (''delete VLAN '' @ vlanDev @ '': '') (sys env (CRun ''ip'' [''link'', ''delete'', vlanDev]))) (\<lambda>_. io_return ()))"

text \<open>The device of the interface a VLAN names as its parent; empty when there is none.\<close>

definition vlan_parent_dev :: "Config \<Rightarrow> string \<Rightarrow> string" where
  "vlan_parent_dev c parent = (case find (\<lambda>i. ifID i = parent) (cfgInterfaces c) of None \<Rightarrow> [] | Some i \<Rightarrow> ifDevice i)"

text \<open>The loop of \<open>RestoreVLANs\<close>, with the error texts collected so far.\<close>

fun restore_vlans :: "sysenv \<Rightarrow> Config \<Rightarrow> VLANConfig list \<Rightarrow> string list \<Rightarrow> world \<Rightarrow> string list \<times> world" where
  "restore_vlans env c [] errs w = (errs, w)"
| "restore_vlans env c (v # vs) errs w =
     (let parentDev = vlan_parent_dev c (vlParent v) in
      if parentDev = [] then restore_vlans env c vs (errs @ [''parent '' @ vlParent v @ '' not found for VLAN '' @ Itoa (vlVID v)]) w
      else (case CreateVLAN env parentDev (vlVID v) (vlAddress v) (vlMTU v) w of
          (Inl e, w') \<Rightarrow> restore_vlans env c vs (errs @ [''VLAN '' @ Itoa (vlVID v) @ '': '' @ e]) w'
        | (Inr _, w') \<Rightarrow> restore_vlans env c vs errs w'))"

definition RestoreVLANs :: "sysenv \<Rightarrow> unit action" where
  "RestoreVLANs env w =
     (case restore_vlans env (wcfg w) (cfgVLANs (wcfg w)) [] w of
        (errs, w') \<Rightarrow> if errs \<noteq> [] then (Inl (''VLAN restore errors: '' @ Join errs ''; ''), w') else (Inr (), w'))"

section \<open>The phone as uplink\<close>

record USBTetheringStatus =
  utEnabled :: bool
  utPhoneConnected :: bool
  utActiveWAN :: bool
  utInterface :: string
  utIP :: string

definition usb_iface :: "Config \<Rightarrow> string" where
  "usb_iface c = (if usbInterface (cfgUSBTether c) = [] then ''usb0'' else usbInterface (cfgUSBTether c))"

definition IsPhoneConnected :: "ifenv \<Rightarrow> Config \<Rightarrow> bool" where
  "IsPhoneConnected env c \<longleftrightarrow> GetInterfaceState (ieReadFile env) (usb_iface c) = Inr ''up''"

definition usb_Status :: "ifenv \<Rightarrow> Config \<Rightarrow> bool \<Rightarrow> USBTetheringStatus" where
  "usb_Status env c active =
     (let ifc = usb_iface c;
          up = (GetInterfaceState (ieReadFile env) ifc = Inr ''up'')
      in \<lparr>utEnabled = usbEnabled (cfgUSBTether c), utPhoneConnected = up, utActiveWAN = active, utInterface = ifc,
          utIP = (if up then (case find (\<lambda>a. a \<noteq> []) (ok_or [] (GetInterfaceAddresses env ifc)) of None \<Rightarrow> [] | Some a \<Rightarrow> a) else [])\<rparr>)"

text \<open>The state is the flag \<open>active\<close> and the world.\<close>

definition usb_Activate :: "ifenv \<Rightarrow> sysenv \<Rightarrow> bool \<times> world \<Rightarrow> error option \<times> bool \<times> world" where
  "usb_Activate ie env = (\<lambda>(active, w).
     let u = cfgUSBTether (wcfg w); ifc = usb_iface (wcfg w); metric = (if usbMetric u = 0 then 100 else usbMetric u) in
     case GetInterfaceState (ieReadFile ie) ifc of
       Inl _ \<Rightarrow> (Some (''USB interface '' @ ifc @ '' not found (phone not connected?)''), active, w)
     | Inr state \<Rightarrow>
         (case io_then (if state \<noteq> ''up'' then io_wrap (''bring up '' @ ifc @ '': '') (sys env (CRun ''ip'' [''link'', ''set'', ifc, ''up'']))
                        else io_return [])
            (io_then (io_wrap (''dhclient on '' @ ifc @ '': '') (sys env (CRun ''dhclient'' [''-1'', ''-v'', ifc])))
             (io_then (io_wrap ''set USB default route: ''
                 (sys env (CRun ''ip'' [''route'', ''replace'', ''default'', ''dev'', ifc, ''metric'', Itoa metric])))
              (if usbNAT u then io_ignore (sys env (CRun ''nft'' [''add'', ''rule'', ''ip'', ''nat'', ''postrouting'', ''oifname'', ifc, ''masquerade'']))
               else io_return ()))) w of
            (Inl e, w') \<Rightarrow> (Some e, active, w')
          | (Inr _, w') \<Rightarrow> (None, True, w')))"

definition usb_Deactivate :: "sysenv \<Rightarrow> bool \<times> world \<Rightarrow> error option \<times> bool \<times> world" where
  "usb_Deactivate env = (\<lambda>(active, w).
     let ifc = usb_iface (wcfg w) in
     (None, False, snd (io_then (io_ignore (sys env (CRun ''ip'' [''route'', ''del'', ''default'', ''dev'', ifc])))
        (io_ignore (sys env (CRun ''dhclient'' [''-r'', ifc]))) w)))"

definition usb_IsActive :: "bool \<times> world \<Rightarrow> bool" where
  "usb_IsActive s = fst s"

section \<open>The kernel's links\<close>

record link =
  lkParent :: string
  lkVid :: string
  lkMTU :: "string option"
  lkAddrs :: "string list"
  lkUp :: bool

type_synonym links = "string \<rightharpoonup> link"

datatype ipcmd =
    AddVlan string string string
  | SetMtu string string
  | AddAddr string string
  | SetUp string

text \<open>The commands of \<open>CreateVLAN\<close>, read back from their arguments.\<close>

definition ip_args :: "string list \<Rightarrow> ipcmd option" where
  "ip_args as =
     (if length as = 10 \<and> take 3 as = [''link'', ''add'', ''link''] then Some (AddVlan (as ! 3) (as ! 5) (as ! 9))
      else if length as = 5 \<and> take 2 as = [''link'', ''set''] \<and> as ! 3 = ''mtu'' then Some (SetMtu (as ! 2) (as ! 4))
      else if length as = 5 \<and> take 2 as = [''addr'', ''add''] \<and> as ! 3 = ''dev'' then Some (AddAddr (as ! 2) (as ! 4))
      else if length as = 4 \<and> take 2 as = [''link'', ''set''] \<and> as ! 3 = ''up'' then Some (SetUp (as ! 2))
      else None)"

definition ip_call :: "syscall \<Rightarrow> ipcmd option" where
  "ip_call c = (case c of CRun n as \<Rightarrow> if n = ''ip'' then ip_args as else None | _ \<Rightarrow> None)"

fun ip_target :: "ipcmd \<Rightarrow> string" where
  "ip_target (AddVlan p d v) = d"
| "ip_target (SetMtu d m) = d"
| "ip_target (AddAddr a d) = d"
| "ip_target (SetUp d) = d"

text \<open>
  A command on a missing link fails, and so does the creation of one that exists or has no parent; what
  else the kernel refuses (an unusable MTU or address, say) is the parameter \<open>acc\<close>.
\<close>

fun ip_exec :: "(ipcmd \<Rightarrow> bool) \<Rightarrow> ipcmd \<Rightarrow> links \<Rightarrow> links option" where
  "ip_exec acc (AddVlan p d v) k =
     (if acc (AddVlan p d v) \<and> k p \<noteq> None \<and> k d = None
      then Some (k(d \<mapsto> \<lparr>lkParent = p, lkVid = v, lkMTU = None, lkAddrs = [], lkUp = False\<rparr>)) else None)"
| "ip_exec acc (SetMtu d m) k =
     (case k d of None \<Rightarrow> None | Some l \<Rightarrow> if acc (SetMtu d m) then Some (k(d \<mapsto> l\<lparr>lkMTU := Some m\<rparr>)) else None)"
| "ip_exec acc (AddAddr a d) k =
     (case k d of None \<Rightarrow> None | Some l \<Rightarrow> if acc (AddAddr a d) then Some (k(d \<mapsto> l\<lparr>lkAddrs := lkAddrs l @ [a]\<rparr>)) else None)"
| "ip_exec acc (SetUp d) k =
     (case k d of None \<Rightarrow> None | Some l \<Rightarrow> if acc (SetUp d) then Some (k(d \<mapsto> l\<lparr>lkUp := True\<rparr>)) else None)"

definition ip_effect :: "(ipcmd \<Rightarrow> bool) \<Rightarrow> syscall \<Rightarrow> links \<Rightarrow> links" where
  "ip_effect acc c k = (case ip_call c of None \<Rightarrow> k | Some cmd \<Rightarrow> (case ip_exec acc cmd k of None \<Rightarrow> k | Some k' \<Rightarrow> k'))"

definition links_after :: "(ipcmd \<Rightarrow> bool) \<Rightarrow> syscall list \<Rightarrow> links \<Rightarrow> links" where
  "links_after acc cs k = fold (ip_effect acc) cs k"

text \<open>A system whose \<open>ip\<close> answers from the kernel's links at the time of the call.\<close>

definition link_env :: "(ipcmd \<Rightarrow> bool) \<Rightarrow> links \<Rightarrow> osenv \<Rightarrow> sysenv" where
  "link_env acc k0 os = \<lparr>seOS = os, seAnswer = (\<lambda>tr c. case ip_call c of
       None \<Rightarrow> Inr []
     | Some cmd \<Rightarrow> if ip_exec acc cmd (links_after acc tr k0) = None then Inl ''RTNETLINK answers'' else Inr [])\<rparr>"

section \<open>What restoring the VLANs builds\<close>

lemma links_after_append: "links_after acc (cs @ ds) k = links_after acc ds (links_after acc cs k)"
  by (simp add: links_after_def)

lemma links_after_simps: "links_after acc [] k = k" "links_after acc (c # cs) k = links_after acc cs (ip_effect acc c k)"
  by (simp_all add: links_after_def)

lemma ip_effect_frame:
  assumes "\<And>cmd. ip_call c = Some cmd \<Longrightarrow> ip_target cmd \<noteq> d"
  shows "ip_effect acc c k d = k d"
proof (cases "ip_call c")
  case (Some cmd)
  then show ?thesis using assms [OF Some] by (cases cmd) (auto simp: ip_effect_def split: option.splits)
qed (simp add: ip_effect_def)

lemma ip_effect_dom: "k d \<noteq> None \<Longrightarrow> ip_effect acc c k d \<noteq> None"
proof (cases "ip_call c")
  case (Some cmd)
  assume "k d \<noteq> None"
  then show ?thesis using Some by (cases cmd) (auto simp: ip_effect_def split: option.splits)
qed (simp add: ip_effect_def)

lemma links_after_dom: "k d \<noteq> None \<Longrightarrow> links_after acc cs k d \<noteq> None"
  unfolding links_after_def
proof (induction cs arbitrary: k)
  case (Cons c cs)
  then show ?case using Cons.IH [of "ip_effect acc c k"] ip_effect_dom [of k d acc c] by simp
qed simp

text \<open>Calls about one link leave all others alone.\<close>

definition about :: "string \<Rightarrow> syscall \<Rightarrow> bool" where
  "about d c \<longleftrightarrow> (case ip_call c of None \<Rightarrow> True | Some cmd \<Rightarrow> ip_target cmd = d)"

lemma links_after_frame: "list_all (about d) cs \<Longrightarrow> d' \<noteq> d \<Longrightarrow> links_after acc cs k d' = k d'"
proof (induction cs arbitrary: k)
  case (Cons c cs)
  have "ip_effect acc c k d' = k d'" by (rule ip_effect_frame) (use Cons.prems in \<open>auto simp: about_def\<close>)
  then show ?case using Cons by (simp add: links_after_def)
qed (simp add: links_after_def)

lemma vlan_calls_about:
  "about d (CRun ''ip'' [''link'', ''add'', ''link'', p, ''name'', d, ''type'', ''vlan'', ''id'', v])"
  "about d (CRun ''ip'' [''link'', ''set'', d, ''mtu'', m])"
  "about d (CRun ''ip'' [''addr'', ''add'', a, ''dev'', d])"
  "about d (CRun ''ip'' [''link'', ''set'', d, ''up''])"
  by (simp_all add: about_def ip_call_def ip_args_def)

lemma CreateVLAN_footprint [footprint]: "only_calls (about (vlan_dev_name p vid)) (CreateVLAN env p vid a m)"
  unfolding CreateVLAN_def Let_def
  by (cases "ValidateVLANID vid") (auto intro!: footprint vlan_calls_about)

text \<open>The link of a VLAN as configured, and when the kernel can create it.\<close>

definition vlan_name :: "Config \<Rightarrow> VLANConfig \<Rightarrow> string" where
  "vlan_name c v = vlan_dev_name (vlan_parent_dev c (vlParent v)) (vlVID v)"

definition vlan_link :: "Config \<Rightarrow> VLANConfig \<Rightarrow> link" where
  "vlan_link c v = \<lparr>lkParent = vlan_parent_dev c (vlParent v), lkVid = Itoa (vlVID v),
     lkMTU = (if vlMTU v > 0 then Some (Itoa (vlMTU v)) else None),
     lkAddrs = (if vlAddress v = [] then [] else [vlAddress v]), lkUp = True\<rparr>"

definition creatable :: "(ipcmd \<Rightarrow> bool) \<Rightarrow> links \<Rightarrow> Config \<Rightarrow> VLANConfig \<Rightarrow> bool" where
  "creatable acc k c v \<longleftrightarrow> vlan_parent_dev c (vlParent v) \<noteq> [] \<and> ValidateVLANID (vlVID v) = None \<and>
     k (vlan_parent_dev c (vlParent v)) \<noteq> None \<and> k (vlan_name c v) = None \<and> (\<forall>cmd. ip_target cmd = vlan_name c v \<longrightarrow> acc cmd)"

lemma CreateVLAN_creates:
  assumes "creatable acc (links_after acc (wTrace w) k0) c v"
    and run: "CreateVLAN (link_env acc k0 os) (vlan_parent_dev c (vlParent v)) (vlVID v) (vlAddress v) (vlMTU v) w = (r, w')"
  shows "r = Inr ()" "links_after acc (wTrace w') k0 (vlan_name c v) = Some (vlan_link c v)"
proof -
  define p d where "p = vlan_parent_dev c (vlParent v)" and "d = vlan_name c v"
  have ok: "ValidateVLANID (vlVID v) = None" "links_after acc (wTrace w) k0 p \<noteq> None" "links_after acc (wTrace w) k0 d = None"
    and acc: "acc (AddVlan p d vid)" "acc (SetMtu d m)" "acc (AddAddr a d)" "acc (SetUp d)" for vid m a
    using assms(1) by (auto simp: creatable_def p_def d_def)
  have d: "vlan_dev_name p (vlVID v) = d" by (simp add: p_def d_def vlan_name_def)
  have "r = Inr () \<and> links_after acc (wTrace w') k0 d = Some (vlan_link c v)"
    using run ok acc unfolding p_def [symmetric] CreateVLAN_def ok(1) d
    by (auto simp: io_simps Let_def link_env_def ip_call_def ip_args_def ip_effect_def d vlan_link_def p_def [symmetric]
          links_after_append links_after_simps
        split: if_splits)
  then show "r = Inr ()" "links_after acc (wTrace w') k0 (vlan_name c v) = Some (vlan_link c v)" by (simp_all add: d_def)
qed

lemma restore_vlans_append:
  "restore_vlans env c (xs @ ys) errs w = (case restore_vlans env c xs errs w of (errs', w') \<Rightarrow> restore_vlans env c ys errs' w')"
  by (induction xs arbitrary: errs w) (auto simp: Let_def split: prod.splits sum.splits)

text \<open>One round of the loop: the calls it makes are about the link of its VLAN.\<close>

lemma restore_vlans_round:
  "\<exists>errs' w' cs. restore_vlans env c (v # vs) errs w = restore_vlans env c vs errs' w' \<and>
     wTrace w' = wTrace w @ cs \<and> list_all (about (vlan_name c v)) cs"
proof (cases "vlan_parent_dev c (vlParent v) = []")
  case False
  obtain r w' where run: "CreateVLAN env (vlan_parent_dev c (vlParent v)) (vlVID v) (vlAddress v) (vlMTU v) w = (r, w')" by fastforce
  with only_callsD(2) [OF CreateVLAN_footprint run] False show ?thesis
    by (auto simp: vlan_name_def Let_def split: sum.splits)
next
  case True
  then show ?thesis by (intro exI [of _ w] exI [of _ "[]"] exI) (simp add: Let_def)
qed

lemma restore_vlans_frame:
  "restore_vlans env c vs errs w = (errs', w') \<Longrightarrow> d \<notin> vlan_name c ` set vs \<Longrightarrow>
     links_after acc (wTrace w') k d = links_after acc (wTrace w) k d"
proof (induction vs arbitrary: errs w)
  case (Cons v vs)
  obtain e1 w1 cs where r: "restore_vlans env c (v # vs) errs w = restore_vlans env c vs e1 w1"
    "wTrace w1 = wTrace w @ cs" "list_all (about (vlan_name c v)) cs" using restore_vlans_round by meson
  have "links_after acc (wTrace w1) k d = links_after acc (wTrace w) k d"
    using links_after_frame [OF r(3)] Cons.prems(2) r(2) by (simp add: links_after_append)
  then show ?case using Cons r(1) by simp
qed simp

lemma restore_vlans_dom:
  "restore_vlans env c vs errs w = (errs', w') \<Longrightarrow> links_after acc (wTrace w) k d \<noteq> None \<Longrightarrow> links_after acc (wTrace w') k d \<noteq> None"
proof (induction vs arbitrary: errs w)
  case (Cons v vs)
  obtain e1 w1 cs where r: "restore_vlans env c (v # vs) errs w = restore_vlans env c vs e1 w1" "wTrace w1 = wTrace w @ cs"
    using restore_vlans_round by meson
  then show ?case using Cons links_after_dom by (simp add: links_after_append)
qed simp

lemma creatable_later:
  assumes "restore_vlans env c xs errs w = (errs', w')" "creatable acc (links_after acc (wTrace w) k) c v"
    "vlan_name c v \<notin> vlan_name c ` set xs"
  shows "creatable acc (links_after acc (wTrace w') k) c v"
  using assms restore_vlans_frame [OF assms(1,3)] restore_vlans_dom [OF assms(1)] by (simp add: creatable_def)

lemma restore_vlans_creates:
  assumes "restore_vlans (link_env acc k0 os) c (xs @ v # ys) errs w = (errs', w')"
    and "creatable acc (links_after acc (wTrace w) k0) c v" "vlan_name c v \<notin> vlan_name c ` set (xs @ ys)"
  shows "links_after acc (wTrace w') k0 (vlan_name c v) = Some (vlan_link c v)"
proof -
  obtain e1 w1 where xs: "restore_vlans (link_env acc k0 os) c xs errs w = (e1, w1)" by fastforce
  have cr: "creatable acc (links_after acc (wTrace w1) k0) c v" by (rule creatable_later [OF xs assms(2)]) (use assms(3) in auto)
  obtain r w2 where run: "CreateVLAN (link_env acc k0 os) (vlan_parent_dev c (vlParent v)) (vlVID v) (vlAddress v) (vlMTU v) w1 = (r, w2)" by fastforce
  have "restore_vlans (link_env acc k0 os) c ys e1 w2 = (errs', w')"
    using assms(1) xs run CreateVLAN_creates(1) [OF cr run] cr by (simp add: restore_vlans_append creatable_def Let_def)
  from restore_vlans_frame [OF this, of "vlan_name c v"] assms(3)
  have "links_after acc (wTrace w') k0 (vlan_name c v) = links_after acc (wTrace w2) k0 (vlan_name c v)" by (simp add: image_Un)
  then show ?thesis using CreateVLAN_creates(2) [OF cr run] by simp
qed

lemma restore_vlans_all:
  "restore_vlans (link_env acc k0 os) c vs errs w = (errs', w') \<Longrightarrow> list_all (creatable acc (links_after acc (wTrace w) k0) c) vs \<Longrightarrow>
     distinct (map (vlan_name c) vs) \<Longrightarrow> errs' = errs"
proof (induction vs arbitrary: errs w)
  case (Cons v vs)
  have cr: "creatable acc (links_after acc (wTrace w) k0) c v" using Cons.prems(2) by simp
  obtain r w2 where run: "CreateVLAN (link_env acc k0 os) (vlan_parent_dev c (vlParent v)) (vlVID v) (vlAddress v) (vlMTU v) w = (r, w2)" by fastforce
  note r = CreateVLAN_creates(1) [OF cr run]
  have step: "restore_vlans (link_env acc k0 os) c [v] errs w = (errs, w2)" using run r cr by (simp add: creatable_def Let_def)
  have "list_all (creatable acc (links_after acc (wTrace w2) k0) c) vs"
    unfolding list_all_iff
  proof
    fix u
    assume "u \<in> set vs"
    then show "creatable acc (links_after acc (wTrace w2) k0) c u"
      using Cons.prems(2,3) by (intro creatable_later [OF step]) (auto simp: list_all_iff intro: rev_image_eqI)
  qed
  moreover have "vlan_parent_dev c (vlParent v) \<noteq> []" using cr by (simp add: creatable_def)
  then have "restore_vlans (link_env acc k0 os) c vs errs w2 = (errs', w')" using Cons.prems(1) run r by (simp add: Let_def)
  ultimately show ?case using Cons.IH Cons.prems(3) by simp
qed simp

text \<open>
  C35. Restoring the VLANs implements the configuration on the kernel's links, independently of failures:
  every VLAN whose parent is a link the kernel has, whose number is in range, whose own link does not exist
  yet, whose commands the kernel accepts and which shares its link with no other entry ends up as the link
  the configuration describes, whatever happens to the other entries; links that are no VLAN of the
  configuration stay as they were; and when every entry is of that kind, no error is reported.
\<close>

theorem restored_vlans_are_the_configured:
  assumes "RestoreVLANs (link_env acc k0 os) w = (r, w')"
  defines "k \<equiv> links_after acc (wTrace w) k0" and "k' \<equiv> links_after acc (wTrace w') k0"
    and "c \<equiv> wcfg w" and "vs \<equiv> cfgVLANs (wcfg w)"
  shows "(\<forall>xs v ys. vs = xs @ v # ys \<and> creatable acc k c v \<and> vlan_name c v \<notin> vlan_name c ` set (xs @ ys) \<longrightarrow>
      k' (vlan_name c v) = Some (vlan_link c v)) \<and>
    (\<forall>d. d \<notin> vlan_name c ` set vs \<longrightarrow> k' d = k d) \<and>
    (list_all (creatable acc k c) vs \<and> distinct (map (vlan_name c) vs) \<longrightarrow> r = Inr ())"
proof -
  obtain errs where run: "restore_vlans (link_env acc k0 os) c vs [] w = (errs, w')" and r: "r = Inr () \<or> errs \<noteq> []"
    using assms(1) by (auto simp: RestoreVLANs_def c_def vs_def split: prod.splits if_splits)
  show ?thesis using restore_vlans_creates [of acc k0 os c _ _ _ "[]" w errs w'] restore_vlans_frame [OF run]
      restore_vlans_all [OF run] run r unfolding k_def k'_def by fast
qed

definition vlan_world :: world where
  "vlan_world = \<lparr>wStore = \<lparr>cfg = zero_Config\<lparr>
     cfgInterfaces := [zero_InterfaceConfig\<lparr>ifID := ''lan'', ifDevice := ''eth1''\<rparr>],
     cfgVLANs := [zero_VLANConfig\<lparr>vlParent := ''wan9'', vlVID := 5\<rparr>,
       zero_VLANConfig\<lparr>vlParent := ''lan'', vlVID := 10, vlAddress := ''10.0.10.1/24'', vlMTU := 1500\<rparr>]\<rparr>, disk = Map.empty\<rparr>, wTrace = []\<rparr>"

definition eth1_links :: links where
  "eth1_links = [''eth1'' \<mapsto> \<lparr>lkParent = [], lkVid = [], lkMTU = None, lkAddrs = [], lkUp = True\<rparr>]"

theorem restored_vlans_are_the_configured_witness:
  "\<exists>r w'. RestoreVLANs (link_env (\<lambda>_. True) eth1_links (quiet_env zero_Config)) vlan_world = (r, w') \<and>
     links_after (\<lambda>_. True) (wTrace w') eth1_links ''eth1.10'' =
       Some \<lparr>lkParent = ''eth1'', lkVid = ''10'', lkMTU = Some ''1500'', lkAddrs = [''10.0.10.1/24''], lkUp = True\<rparr>"
proof -
  obtain r w' where run: "RestoreVLANs (link_env (\<lambda>_. True) eth1_links (quiet_env zero_Config)) vlan_world = (r, w')" by fastforce
  define v5 v10 c where "v5 = zero_VLANConfig\<lparr>vlParent := ''wan9'', vlVID := 5\<rparr>"
    and "v10 = zero_VLANConfig\<lparr>vlParent := ''lan'', vlVID := 10, vlAddress := ''10.0.10.1/24'', vlMTU := 1500\<rparr>"
    and "c = wcfg vlan_world"
  have n: "Itoa 10 = ''10''" "Itoa 5 = ''5''" "Itoa 1500 = ''1500''" by code_simp+
  have p: "vlan_parent_dev c ''lan'' = ''eth1''" "vlan_parent_dev c ''wan9'' = []" by (simp_all add: vlan_parent_dev_def c_def vlan_world_def)
  have v: "cfgVLANs c = [v5] @ v10 # []" "vlan_name c v10 = ''eth1.10''" "vlan_name c v5 = ''.5''"
    by (simp add: c_def vlan_world_def v5_def v10_def) (simp_all add: v5_def v10_def vlan_name_def vlan_dev_name_def n p)
  have "creatable (\<lambda>_. True) eth1_links c v10"
    unfolding creatable_def v(2) by (simp add: v10_def p ValidateVLANID_def eth1_links_def)
  moreover have "links_after (\<lambda>_. True) (wTrace vlan_world) eth1_links = eth1_links" by (simp add: vlan_world_def links_after_def)
  ultimately have "links_after (\<lambda>_. True) (wTrace w') eth1_links ''eth1.10'' = Some (vlan_link c v10)"
    using restored_vlans_are_the_configured [OF run, THEN conjunct1, rule_format, of "[v5]" v10 "[]"] v
    by (simp flip: c_def)
  then show ?thesis using run by (simp add: vlan_link_def v10_def p n)
qed

end
