(* ===== verification/HandlersNetwork.thy ===== *)
theory HandlersNetwork
  imports Network HandlersBackup QoS PPPoE Routing HealthCheck
begin

text \<open>
  The handlers of \<^verbatim>\<open>handlers/vlan.go\<close>, \<^verbatim>\<open>handlers/qos.go\<close>, \<^verbatim>\<open>handlers/pppoe.go\<close>,
  \<^verbatim>\<open>handlers/routing.go\<close>, \<^verbatim>\<open>handlers/network.go\<close> and \<^verbatim>\<open>handlers/healthcheck.go\<close> over the
  models of their services. Templates and the JSON decoder are parameters.
\<close>

section \<open>VLANs\<close>

definition map_vlans :: "(VLANConfig list \<Rightarrow> VLANConfig list) \<Rightarrow> Config \<Rightarrow> Config" where
  "map_vlans f c = c\<lparr>cfgVLANs := f (cfgVLANs c)\<rparr>"

record vlanPage =
  vpVLANs :: "VLANConfig list"
  vpInterfaces :: "InterfaceConfig list"

definition vlan_page :: "Config \<Rightarrow> vlanPage" where
  "vlan_page c = \<lparr>vpVLANs = cfgVLANs c, vpInterfaces = cfgInterfaces c\<rparr>"

text \<open>The partial of an htmx request; its error is only logged.\<close>

definition vlan_HandlePage :: "vlanPage pageenv \<Rightarrow> world hfun" where
  "vlan_HandlePage pg r = with_cfg (\<lambda>c.
     if hx_request r then (\<lambda>(w, wd). (snd (RenderPartial pg ''network'' ''vlan_list'' (LangFromContext r) (vlan_page c) w), wd))
     else show_page pg ''network'' r (vlan_page c))"

definition vlan_form :: "request \<Rightarrow> goint \<Rightarrow> goint \<Rightarrow> VLANConfig" where
  "vlan_form r vid mtu =
     (let v = \<lparr>vlID = rqForm r ''id'', vlParent = rqForm r ''parent'', vlVID = vid, vlLabel = rqForm r ''label'',
               vlRole = rqForm r ''role'', vlType = rqForm r ''type'', vlAddress = rqForm r ''address'', vlMTU = mtu,
               vlIsolated = form_on r ''isolated'', vlDHCP = zero_VLANDHCPConfig\<rparr>
      in if form_on r ''dhcpEnabled''
         then v\<lparr>vlDHCP := zero_VLANDHCPConfig\<lparr>vdEnabled := True, vdRangeStart := rqForm r ''dhcpRangeStart'',
                  vdRangeEnd := rqForm r ''dhcpRangeEnd'', vdLeaseTime := rqForm r ''dhcpLeaseTime''\<rparr>\<rparr>
         else v)"

definition vlan_create :: "sysenv \<Rightarrow> VLANConfig \<Rightarrow> unit action" where
  "vlan_create env v wd =
     (let parentDev = vlan_parent_dev (wcfg wd) (vlParent v) in
      if parentDev \<noteq> [] then CreateVLAN env parentDev (vlVID v) (vlAddress v) (vlMTU v) wd else (Inr (), wd))"

definition vlan_HandleAdd :: "sysenv \<Rightarrow> world hfun" where
  "vlan_HandleAdd env r = needs_form r
     (case Atoi (rqForm r ''vid'') of
        None \<Rightarrow> refuse ''invalid VLAN ID'' 400
      | Some vid \<Rightarrow>
          if ValidateVLANID vid \<noteq> None then refuse ''invalid VLAN ID'' 400
          else if Atoi (rqForm r ''mtu'') = None \<and> rqForm r ''mtu'' \<noteq> [] then refuse ''invalid MTU'' 400
          else (let mtu0 = (case Atoi (rqForm r ''mtu'') of Some m \<Rightarrow> m | None \<Rightarrow> 0);
                    vlan = vlan_form r vid (if mtu0 = 0 then 1500 else mtu0)
                in do_action (io_then (io_update (map_vlans (\<lambda>vs. vs @ [vlan]))) (io_save env)) (\<lambda>_. (''save failed'', 500))
                     (\<lambda>_. best_effort (vlan_create env vlan) (finish ''/network'' r))))"

definition vlan_delete :: "sysenv \<Rightarrow> VLANConfig \<Rightarrow> unit action" where
  "vlan_delete env v wd =
     (let parentDev = vlan_parent_dev (wcfg wd) (vlParent v) in
      if parentDev \<noteq> [] then DeleteVLAN env parentDev (vlVID v) wd else (Inr (), wd))"

definition vlan_HandleDelete :: "sysenv \<Rightarrow> world hfun" where
  "vlan_HandleDelete env r = with_cfg (\<lambda>c.
     case find_index (\<lambda>v. vlID v = PathValue r ''id'') (cfgVLANs c) of
       None \<Rightarrow> finish ''/network'' r
     | Some i \<Rightarrow> best_effort (vlan_delete env (cfgVLANs c ! i))
         (do_action (io_then (io_update (map_vlans (remove_nth i))) (io_save env)) (\<lambda>_. (''save failed'', 500)) (\<lambda>_. finish ''/network'' r)))"

section \<open>Shaping\<close>

definition map_qos :: "(QoSConfig \<Rightarrow> QoSConfig) \<Rightarrow> Config \<Rightarrow> Config" where
  "map_qos f c = c\<lparr>cfgQoS := f (cfgQoS c)\<rparr>"

record qosPage =
  qpStatus :: QoSStatus
  qpConfig :: QoSConfig

definition qos_HandlePage :: "sysenv \<Rightarrow> qosPage pageenv \<Rightarrow> world hfun" where
  "qos_HandlePage env pg r = do_action (qos_Status env) (err_text 500) (\<lambda>status.
     with_cfg (\<lambda>c. show_page pg ''qos'' r \<lparr>qpStatus = status, qpConfig = cfgQoS c\<rparr>))"

text \<open>
  The fields of the form, one after the other: a field is written into the configuration in memory before
  the next one is looked at.
\<close>

definition form_profiles :: "string list" where
  "form_profiles = [''default'', ''gaming'', ''streaming'', ''voip'']"

definition form_congestions :: "string list" where
  "form_congestions = [''bbr'', ''cubic'', ''cake'']"

definition set_qos :: "(QoSConfig \<Rightarrow> QoSConfig) \<Rightarrow> (response \<times> world \<Rightarrow> response \<times> world) \<Rightarrow> response \<times> world \<Rightarrow> response \<times> world" where
  "set_qos f k = best_effort (io_update (map_qos f)) k"

definition profile_field :: "request \<Rightarrow> (response \<times> world \<Rightarrow> response \<times> world) \<Rightarrow> response \<times> world \<Rightarrow> response \<times> world" where
  "profile_field r k =
     (let profile = rqForm r ''profile'' in
      if profile = [] then k
      else if profile \<notin> set form_profiles then refuse ''invalid QoS profile'' 400
      else set_qos (\<lambda>q. q\<lparr>qosProfile := profile\<rparr>) k)"

definition kbps_field :: "request \<Rightarrow> string \<Rightarrow> string \<Rightarrow> (goint \<Rightarrow> QoSConfig \<Rightarrow> QoSConfig) \<Rightarrow> (response \<times> world \<Rightarrow> response \<times> world) \<Rightarrow> response \<times> world \<Rightarrow> response \<times> world" where
  "kbps_field r key msg f k =
     (if rqForm r key = [] then k
      else case Atoi (rqForm r key) of
        None \<Rightarrow> refuse msg 400
      | Some val \<Rightarrow> if val < 0 \<or> val > 10000000 then refuse msg 400 else set_qos (f val) k)"

definition congestion_field :: "request \<Rightarrow> (response \<times> world \<Rightarrow> response \<times> world) \<Rightarrow> response \<times> world \<Rightarrow> response \<times> world" where
  "congestion_field r k =
     (let cc = rqForm r ''congestionControl'' in
      if cc = [] then k
      else if cc \<notin> set form_congestions then refuse ''invalid congestion control'' 400
      else set_qos (\<lambda>q. q\<lparr>qosCongestionControl := cc\<rparr>) k)"

definition apply_qos :: "sysenv \<Rightarrow> request \<Rightarrow> response \<times> world \<Rightarrow> response \<times> world" where
  "apply_qos env r = do_action (io_save env) (\<lambda>_. (''save failed'', 500))
     (\<lambda>_. do_action (qos_Apply env) (err_text 500) (\<lambda>_. finish ''/qos'' r))"

definition qos_HandleApply :: "sysenv \<Rightarrow> world hfun" where
  "qos_HandleApply env r = needs_form r
     (profile_field r
       (kbps_field r ''uploadKbps'' ''invalid upload bandwidth'' (\<lambda>v q. q\<lparr>qosUploadKbps := v\<rparr>)
         (kbps_field r ''downloadKbps'' ''invalid download bandwidth'' (\<lambda>v q. q\<lparr>qosDownloadKbps := v\<rparr>)
           (congestion_field r
             (set_qos (\<lambda>q. q\<lparr>qosEnabled := form_on r ''enabled''\<rparr>) (apply_qos env r))))))"

definition HandleClear :: "sysenv \<Rightarrow> world hfun" where
  "HandleClear env r = do_action (qos_Clear env) (err_text 500)
     (\<lambda>_. do_action (io_then (io_update (map_qos (\<lambda>q. q\<lparr>qosEnabled := False\<rparr>))) (io_save env)) (\<lambda>_. (''save failed'', 500))
       (\<lambda>_. finish ''/qos'' r))"

section \<open>PPPoE\<close>

type_synonym 's ppp_state = "bool \<times> 's \<times> world"

definition HandleConnect :: "pppenv \<Rightarrow> 's hook option \<Rightarrow> 's ppp_state hfun" where
  "HandleConnect env hook r = do_action (lift_err (ppp_Connect env hook)) (err_text 500) (\<lambda>_. finish ''/network'' r)"

definition HandleDisconnect :: "pppenv \<Rightarrow> 's hook option \<Rightarrow> 's ppp_state hfun" where
  "HandleDisconnect env hook r = do_action (lift_err (ppp_Disconnect env hook)) (err_text 500) (\<lambda>_. finish ''/network'' r)"

text \<open>\<open>Renderer.RenderPartial\<close> with its error answered, as the status fragments do.\<close>

definition show_partial :: "'d pageenv \<Rightarrow> string \<Rightarrow> string \<Rightarrow> request \<Rightarrow> 'd \<Rightarrow> response \<times> 's \<Rightarrow> response \<times> 's" where
  "show_partial pg page partial r d = (\<lambda>(w, s). case RenderPartial pg page partial (LangFromContext r) d w of
       (None, w1) \<Rightarrow> (w1, s)
     | (Some e, w1) \<Rightarrow> refuse ''Internal Server Error'' 500 (w1, s))"

definition ppp_status_in :: "pppenv \<Rightarrow> 's ppp_state \<Rightarrow> PPPoEStatus \<times> 's ppp_state" where
  "ppp_status_in env = (\<lambda>(c, x, w). case ppp_Status env (c, w) of (st, c', w') \<Rightarrow> (st, c', x, w'))"

definition ppp_HandleStatus :: "pppenv \<Rightarrow> PPPoEStatus pageenv \<Rightarrow> 's ppp_state hfun" where
  "ppp_HandleStatus env pg r = observe (ppp_status_in env) (\<lambda>status. show_partial pg ''network'' ''wan-status'' r status)"

definition HandleSniffStart :: "pppenv \<Rightarrow> 's ppp_state hfun" where
  "HandleSniffStart env r = do_action (on_snd (on_snd (SniffStart env))) (err_text 500) (\<lambda>_. finish ''/network'' r)"

definition HandleSniffStop :: "pppenv \<Rightarrow> 's ppp_state hfun" where
  "HandleSniffStop env r = do_action (on_snd (on_snd (SniffStop env))) (err_text 500) (\<lambda>_. finish ''/network'' r)"

section \<open>Routing policies\<close>

definition routing_HandlePage :: "policy_sort \<Rightarrow> RoutingPolicy list pageenv \<Rightarrow> world hfun" where
  "routing_HandlePage srt pg r = with_state (\<lambda>wd. show_page pg ''routing'' r (GetPolicies srt (wStore wd)))"

text \<open>The first entry that is refused; entries are checked without the blanks around them and kept with them.\<close>

definition bad_entry :: "(string \<Rightarrow> error option) \<Rightarrow> string list \<Rightarrow> string option" where
  "bad_entry check es = find (\<lambda>e. check (TrimSpace e) \<noteq> None) es"

definition split_field :: "request \<Rightarrow> string \<Rightarrow> string list" where
  "split_field r key = (if rqForm r key = [] then [] else Split (rqForm r key) (CHR '',''))"

definition domain_field :: "request \<Rightarrow> string list" where
  "domain_field r =
     (if rqForm r ''domains'' = [] then []
      else filter (\<lambda>d. d \<noteq> []) (map TrimSpace (Split (rqForm r ''domains'') (CHR 0x0A))))"

definition policy_form :: "request \<Rightarrow> RoutingPolicy" where
  "policy_form r = zero_RoutingPolicy\<lparr>rpName := rqForm r ''name'', rpEnabled := True, rpTunnel := rqForm r ''tunnel'',
     rpSrcMACs := split_field r ''srcMacs'', rpSrcIPs := split_field r ''srcIps'', rpDstIPs := split_field r ''dstIps'',
     rpDomains := domain_field r\<rparr>"

definition HandleAddPolicy :: "osenv \<Rightarrow> world hfun" where
  "HandleAddPolicy env r = needs_form r
     (case bad_entry ValidateMAC (split_field r ''srcMacs'') of
        Some mac \<Rightarrow> refuse (''invalid MAC: '' @ mac) 400
      | None \<Rightarrow> (case bad_entry ValidateCIDR (split_field r ''srcIps'') of
          Some cidr \<Rightarrow> refuse (''invalid CIDR: '' @ cidr) 400
        | None \<Rightarrow> (case bad_entry ValidateCIDR (split_field r ''dstIps'') of
            Some cidr \<Rightarrow> refuse (''invalid CIDR: '' @ cidr) 400
          | None \<Rightarrow> do_action (on_store (AddPolicy env (policy_form r))) (\<lambda>_. (''save failed'', 500)) (\<lambda>_. finish ''/routing'' r))))"

definition HandleDeletePolicy :: "osenv \<Rightarrow> world hfun" where
  "HandleDeletePolicy env r =
     do_action (on_store (RemovePolicy env (PathValue r ''name''))) (err_text 400) (\<lambda>_. finish ''/routing'' r)"

definition HandleReorder :: "osenv \<Rightarrow> (string \<Rightarrow> string list option) \<Rightarrow> world hfun" where
  "HandleReorder env decode r =
     (case decode (rqBody r) of
        None \<Rightarrow> refuse ''invalid JSON'' 400
      | Some names \<Rightarrow> do_action (on_store (UpdatePriorities env names)) (\<lambda>_. (''save failed'', 500)) (\<lambda>_ (w, wd). (WriteHeader 200 w, wd)))"

section \<open>Health checks and the overview\<close>

definition GetResults :: "hcstate \<Rightarrow> string \<rightharpoonup> CheckResult" where
  "GetResults s = results s"

definition hc_HandleStatus :: "(string \<rightharpoonup> CheckResult) pageenv \<Rightarrow> hcstate hfun" where
  "hc_HandleStatus pg r = with_state (\<lambda>s. show_partial pg ''network'' ''healthcheck'' r (GetResults s))"

definition HandleReset :: "hcstate hfun" where
  "HandleReset r = (\<lambda>(w, s). finish ''/network'' r (w, ResetCounter (PathValue r ''name'') s))"

record networkPage =
  npInterfaces :: "InterfaceInfo list"
  npPPPoE :: PPPoEStatus
  npUSB :: USBTetheringStatus
  npHealthChecks :: "string \<rightharpoonup> CheckResult"
  npSniff :: SniffStatus

definition sniff_in :: "pppenv \<Rightarrow> 's ppp_state \<Rightarrow> SniffStatus \<times> 's ppp_state" where
  "sniff_in env = (\<lambda>(c, x, w). case SniffStatus_of env w of
       (Inr st, w') \<Rightarrow> (st, c, x, w')
     | (Inl _, w') \<Rightarrow> (\<lparr>snActive = False, snCapturedUser = [], snCapturedPass = []\<rparr>, c, x, w'))"

definition network_HandlePage :: "ifenv \<Rightarrow> pppenv \<Rightarrow> bool \<Rightarrow> hcstate \<Rightarrow> networkPage pageenv \<Rightarrow> 's ppp_state hfun" where
  "network_HandlePage ie env usbActive hc pg r =
     observe (ppp_status_in env) (\<lambda>ppp. with_state (\<lambda>st.
       observe (sniff_in env) (\<lambda>sniff.
         show_page pg ''network'' r
           \<lparr>npInterfaces = ok_or [] (net_DetectInterfaces ie), npPPPoE = ppp, npUSB = usb_Status ie (wcfg (snd (snd st))) usbActive,
            npHealthChecks = GetResults hc, npSniff = sniff\<rparr>)))"

section \<open>What the shaping form does\<close>

text \<open>The calls that install a queueing discipline.\<close>

definition shapes :: "syscall \<Rightarrow> bool" where
  "shapes c = (case c of CRun n as \<Rightarrow> n = ''tc'' \<and> take 2 as = [''qdisc'', ''replace''] | _ \<Rightarrow> False)"

lemma clear_footprint: "only_calls (\<lambda>c. \<not> shapes c) (qos_clear env)"
proof -
  have "only_calls (\<lambda>c. \<not> shapes c) (io_then (io_ignore (sys env (CRun ''tc'' [''qdisc'', ''del'', ''dev'', d, ''root''])))
       (io_then (io_ignore (sys env (CRun ''tc'' [''qdisc'', ''del'', ''dev'', ''ifb0'', ''root''])))
        (io_then (io_ignore (sys env (CRun ''ip'' [''link'', ''set'', ''ifb0'', ''down''])))
         (io_ignore (sys env (CRun ''ip'' [''link'', ''del'', ''ifb0'']))))))" for d
    by (intro footprint) (simp_all add: shapes_def)
  then show ?thesis unfolding only_calls_def qos_clear_def Let_def by blast
qed

lemma congestion_footprint: "only_calls (\<lambda>c. \<not> shapes c) (setCongestionControl env)"
proof -
  have "only_calls (\<lambda>c. \<not> shapes c)
      (io_then (if cc = ''bbr'' then io_ignore (sys env (CRun ''sysctl'' [''-w'', ''net.core.default_qdisc=fq''])) else io_return ())
        (sys env (CRun ''sysctl'' [''-w'', ''net.ipv4.tcp_congestion_control='' @ cc])))" for cc
    by (intro footprint) (simp_all add: shapes_def)
  then show ?thesis unfolding only_calls_def setCongestionControl_def Let_def by blast
qed

definition useless :: "Config \<Rightarrow> bool" where
  "useless c \<longleftrightarrow> qosProfile (cfgQoS c) \<in> set form_profiles"

lemma qos_Apply_useless:
  assumes "useless (wcfg w)" "qosEnabled (cfgQoS (wcfg w))"
  shows "\<exists>e w' cs. qos_Apply env w = (Inl e, w') \<and> wStore w' = wStore w \<and> wTrace w' = wTrace w @ cs \<and> list_all (\<lambda>c. \<not> shapes c) cs"
proof -
  let ?p = "qosProfile (cfgQoS (wcfg w))"
  define act :: "unit action" where "act = io_then (io_ignore (qos_clear env))
     (io_then (io_wrap ''set congestion control: '' (setCongestionControl env)) (io_fail (''unknown QoS profile: '' @ ?p)))"
  have p: "?p \<noteq> ''none''" "?p \<noteq> ''cake''" "?p \<noteq> ''fq_codel''" using assms(1) by (auto simp: useless_def form_profiles_def)
  have eq: "qos_Apply env w = act w" using assms(2) p by (simp add: qos_Apply_def Let_def act_def)
  have "only_calls (\<lambda>c. \<not> shapes c) act"
    unfolding act_def by (intro only_calls_then only_calls_ignore only_calls_wrap only_calls_fail clear_footprint congestion_footprint)
  then have oc: "only_calls (\<lambda>c. \<not> shapes c) act" .
  obtain r w' where run: "act w = (r, w')" by fastforce
  have "isl r" using run by (auto simp: act_def io_simps split: prod.splits sum.splits)
  then obtain e where "r = Inl e" by (cases r) auto
  then show ?thesis using only_callsD [OF oc run] run eq by auto
qed

text \<open>A step that answers with an error and shapes nothing, whatever the state it starts in.\<close>

definition error_answer :: "response \<Rightarrow> response \<Rightarrow> bool" where
  "error_answer w w' \<longleftrightarrow> (\<exists>msg. w' = http_Error msg 400 w \<or> w' = http_Error msg 500 w)"

definition unshaped :: "world \<Rightarrow> world \<Rightarrow> bool" where
  "unshaped wd wd' \<longleftrightarrow> (\<exists>cs. wTrace wd' = wTrace wd @ cs \<and> list_all (\<lambda>c. \<not> shapes c) cs)"

definition refuses :: "(Config \<Rightarrow> bool) \<Rightarrow> (response \<times> world \<Rightarrow> response \<times> world) \<Rightarrow> bool" where
  "refuses I f \<longleftrightarrow> (\<forall>w wd. I (wcfg wd) \<longrightarrow> error_answer w (fst (f (w, wd))) \<and> unshaped wd (snd (f (w, wd))))"

lemma refuses_refuse: "refuses I (refuse msg 400)"
  by (auto simp: refuses_def refuse_def error_answer_def unshaped_def)

lemma refuses_set:
  assumes "refuses J k" "\<And>c. I c \<Longrightarrow> J (map_qos f c)"
  shows "refuses I (set_qos f k)"
proof (unfold refuses_def, intro allI impI)
  fix w wd
  assume "I (wcfg wd)"
  then have "J (wcfg (snd (io_update (map_qos f) wd)))" by (simp add: io_update_def assms(2))
  with assms(1) have "error_answer w (fst (k (w, snd (io_update (map_qos f) wd)))) \<and>
      unshaped (snd (io_update (map_qos f) wd)) (snd (k (w, snd (io_update (map_qos f) wd))))" by (simp add: refuses_def)
  then show "error_answer w (fst (set_qos f k (w, wd))) \<and> unshaped wd (snd (set_qos f k (w, wd)))"
    by (simp add: set_qos_def best_effort_def unshaped_def io_update_def)
qed

lemma refuses_kbps:
  "refuses useless k \<Longrightarrow> (\<And>v q. qosProfile (f v q) = qosProfile q) \<Longrightarrow> refuses useless (kbps_field r key msg f k)"
  unfolding kbps_field_def by (auto intro!: refuses_refuse refuses_set simp: useless_def map_qos_def split: option.splits)

lemma refuses_congestion: "refuses useless k \<Longrightarrow> refuses useless (congestion_field r k)"
  unfolding congestion_field_def Let_def by (auto intro!: refuses_refuse refuses_set simp: useless_def map_qos_def)

lemma refuses_apply: "refuses (\<lambda>c. useless c \<and> qosEnabled (cfgQoS c)) (apply_qos env r)"
proof (unfold refuses_def, intro allI impI)
  fix w wd
  assume I: "useless (wcfg wd) \<and> qosEnabled (cfgQoS (wcfg wd))"
  obtain s wd1 where save: "io_save env wd = (s, wd1)" by fastforce
  then have tr: "wTrace wd1 = wTrace wd" by (auto simp: io_save_def split: prod.splits option.splits)
  have I1: "useless (wcfg wd1)" "qosEnabled (cfgQoS (wcfg wd1))" using I wcfg_save [OF save] by simp_all
  obtain e w' cs where run: "qos_Apply env wd1 = (Inl e, w')" "wTrace w' = wTrace wd1 @ cs" "list_all (\<lambda>c. \<not> shapes c) cs"
    using qos_Apply_useless [OF I1] by blast
  show "error_answer w (fst (apply_qos env r (w, wd))) \<and> unshaped wd (snd (apply_qos env r (w, wd)))"
  proof (cases s)
    case (Inl x)
    then show ?thesis using save tr by (auto simp: apply_qos_def do_action_def refuse_def error_answer_def unshaped_def)
  next
    case (Inr x)
    then have "apply_qos env r (w, wd) = (http_Error e 500 w, w')"
      using save run(1) by (simp add: apply_qos_def do_action_def refuse_def err_text_def)
    then show ?thesis using run(2,3) tr by (auto simp: error_answer_def unshaped_def)
  qed
qed

text \<open>
  C36. No profile can be applied through the shaping form: a request that names any profile and switches
  shaping on is answered with an error, whatever its other fields and the state of the system, and no
  queueing discipline is installed. The page offers and the service knows the profiles cake, fq\_codel and none; the
  handler accepts only default, gaming, streaming and voip.
\<close>

theorem qos_form_never_shapes:
  assumes "rqForm r ''profile'' \<noteq> []" "form_on r ''enabled''"
  shows "error_answer w (fst (qos_HandleApply env r (w, wd))) \<and> unshaped wd (snd (qos_HandleApply env r (w, wd)))"
proof -
  let ?on = "set_qos (\<lambda>q. q\<lparr>qosEnabled := form_on r ''enabled''\<rparr>) (apply_qos env r)"
  have on: "refuses useless ?on"
    by (rule refuses_set [OF refuses_apply]) (simp add: useless_def map_qos_def assms(2))
  then have rest: "refuses useless (kbps_field r ''uploadKbps'' ''invalid upload bandwidth'' (\<lambda>v q. q\<lparr>qosUploadKbps := v\<rparr>)
         (kbps_field r ''downloadKbps'' ''invalid download bandwidth'' (\<lambda>v q. q\<lparr>qosDownloadKbps := v\<rparr>) (congestion_field r ?on)))"
    by (simp add: refuses_kbps refuses_congestion)
  have "refuses (\<lambda>_. True) (qos_HandleApply env r)"
    unfolding qos_HandleApply_def needs_form_def profile_field_def Let_def using assms(1)
    by (auto intro!: refuses_refuse refuses_set [OF rest] simp: useless_def map_qos_def)
  then show ?thesis by (simp add: refuses_def)
qed

definition form_request :: "string \<Rightarrow> (string \<times> string) list \<Rightarrow> request" where
  "form_request path fs = \<lparr>rqMethod = ''POST'', rqPath = path, rqRemoteAddr = ''10.0.0.2:5000'', rqCookies = [], rqHeader = (\<lambda>_. []),
     rqForm = (\<lambda>k. case map_of fs k of Some v \<Rightarrow> v | None \<Rightarrow> []), rqBadForm = False, rqQuery = (\<lambda>_. []), rqBody = [], rqVars = [], rqLang = None\<rparr>"

theorem qos_form_never_shapes_witness:
  "error_answer empty_response
     (fst (qos_HandleApply calm_env (form_request ''/qos/apply'' [(''profile'', ''gaming''), (''enabled'', ''on'')]) (empty_response, vlan_world)))"
  by (rule qos_form_never_shapes [THEN conjunct1]) (simp_all add: form_request_def form_on_def)

text \<open>
  A refused form still changes the configuration: the profile is in memory when the bandwidth is found to be
  no number, and the next save of any other page writes it.
\<close>

lemma refused_form_changes_config:
  "qos_HandleApply env (form_request ''/qos/apply'' [(''profile'', ''voip''), (''uploadKbps'', ''fast'')]) (w, wd) =
     (http_Error ''invalid upload bandwidth'' 400 w, snd (io_update (map_qos (\<lambda>q. q\<lparr>qosProfile := ''voip''\<rparr>)) wd))"
proof -
  have "Atoi ''fast'' = None" by (simp add: Atoi_def is_digit_def)
  then show ?thesis
    by (simp add: qos_HandleApply_def needs_form_def profile_field_def kbps_field_def set_qos_def best_effort_def form_request_def
        refuse_def form_profiles_def)
qed

text \<open>An entry of a policy is checked without the blanks around it and stored with them.\<close>

lemma policy_keeps_blanks:
  assumes "r = form_request ''/routing/policy'' [(''srcIps'', ''10.0.0.0/8, 10.1.0.0/16'')]"
  shows "bad_entry ValidateCIDR (split_field r ''srcIps'') = None" "rpSrcIPs (policy_form r) = [''10.0.0.0/8'', '' 10.1.0.0/16'']"
proof -
  have s: "split_field r ''srcIps'' = [''10.0.0.0/8'', '' 10.1.0.0/16'']" unfolding assms by code_simp
  show "bad_entry ValidateCIDR (split_field r ''srcIps'') = None" unfolding s by code_simp
  show "rpSrcIPs (policy_form r) = [''10.0.0.0/8'', '' 10.1.0.0/16'']" by (simp add: policy_form_def s)
qed

end
