(* ===== verification/HandlersIPv6.thy ===== *)
theory HandlersIPv6
  imports IPv6 PPPoE HandlersNetwork
begin

text \<open>
  The IPv6 page of \<^verbatim>\<open>handlers/ipv6.go\<close>: the status, the settings with the swap between prefix
  delegation and the 6in4 tunnel, the order of the announced subnets, and the buttons. The state is that
  of the PPPoE callbacks: the link's flag, the tunnel service and the world. The tunnel and PPPoE services
  may be missing, as the constructor allows. Templates and the JSON decoder are parameters.
\<close>

section \<open>The handlers\<close>

type_synonym ip6_state = "SixInFour ppp_state"

definition on_world :: "'a action \<Rightarrow> ip6_state \<Rightarrow> (error + 'a) \<times> ip6_state" where
  "on_world m = on_snd (on_snd m)"

text \<open>\<open>Duration.Minutes\<close> and \<open>Duration.Hours\<close>, and the conversion of a \<open>float64\<close> to an \<open>int\<close>.\<close>

definition in_units :: "float_ops \<Rightarrow> duration \<Rightarrow> duration \<Rightarrow> rat" where
  "in_units F u d =
     f_round F (f_round F (of_int (d sdiv u)) + f_round F (f_round F (of_int (d smod u)) / of_int u))"

definition Minutes :: "float_ops \<Rightarrow> duration \<Rightarrow> rat" where
  "Minutes F = in_units F 60000000000"

definition Hours :: "float_ops \<Rightarrow> duration \<Rightarrow> rat" where
  "Hours F = in_units F 3600000000000"

definition to_int :: "rat \<Rightarrow> goint" where
  "to_int x = (if x \<ge> 0 then floor x else ceiling x)"

definition expires_text :: "float_ops \<Rightarrow> duration \<Rightarrow> string" where
  "expires_text F d =
     (if d > 0 then
        (if d < 3600000000000 then Itoa (to_int (Minutes F d)) @ ''m''
         else Itoa (to_int (Hours F d)) @ ''h'' @ Itoa (to_int (Minutes F d) smod 60) @ ''m'')
      else [])"

record ipv6Page =
  i6pState :: PrefixState
  i6pActive :: bool
  i6pExpired :: bool
  i6pExpiresIn :: string
  i6pCIDR :: string
  i6pAgeMin :: goint
  i6pWAN :: IPv6WANConfig
  i6pLAN :: IPv6LANConfig
  i6pTunnel :: IPv6TunnelConfig
  i6pEnabled :: string
  i6pMode :: string
  i6pPPPoEUsed :: bool
  i6pAnnounced :: "prefixInterface list"
  i6pULAPrefix :: string
  i6pULAEnabled :: bool
  i6pRDNSSAddrs :: "string list"
  i6pSearchDomain :: string
  i6pTunnelStatus :: "TunnelStatus option"
  i6pTunnelActive :: "bool option"

definition ipv6_page :: "float_ops \<Rightarrow> gotime \<Rightarrow> ip6env \<Rightarrow> Config \<Rightarrow> PrefixState \<Rightarrow> TunnelStatus option \<Rightarrow> ipv6Page" where
  "ipv6_page F now ie c st ts =
     \<lparr>i6pState = st, i6pActive = Active now st, i6pExpired = Expired now st,
      i6pExpiresIn = expires_text F (ExpiresIn now st), i6pCIDR = CIDR st, i6pAgeMin = to_int (Minutes F (PrefixAge now st)),
      i6pWAN = ip6WAN (cfgIPv6 c), i6pLAN = ip6LAN (cfgIPv6 c), i6pTunnel = ip6Tunnel (cfgIPv6 c),
      i6pEnabled = ip6Enabled (cfgIPv6 c), i6pMode = ip6Mode (cfgIPv6 c), i6pPPPoEUsed = (ppUsername (cfgPPPoE c) \<noteq> []),
      i6pAnnounced = (case AnnouncedInterfaces (i6AtoiErr ie) c of Inl e \<Rightarrow> [] | Inr ps \<Rightarrow> ps),
      i6pULAPrefix = ulaPrefix (lan6ULA (ip6LAN (cfgIPv6 c))), i6pULAEnabled = ulaEnabled (lan6ULA (ip6LAN (cfgIPv6 c))),
      i6pRDNSSAddrs = Fields (psRDNSS st), i6pSearchDomain = sysDomain (cfgSystem c),
      i6pTunnelStatus = ts, i6pTunnelActive = map_option tsActive ts\<rparr>"

text \<open>The state file's error is logged and the zero state shown; the tunnel's status never fails.\<close>

definition look :: "'a \<Rightarrow> 'a action \<Rightarrow> ip6_state \<Rightarrow> 'a \<times> ip6_state" where
  "look d m st = (case on_world m st of (Inl e, st') \<Rightarrow> (d, st') | (Inr a, st') \<Rightarrow> (a, st'))"

definition shown_tunnel :: "sixenv option \<Rightarrow> ip6_state \<Rightarrow> TunnelStatus option \<times> ip6_state" where
  "shown_tunnel six = (\<lambda>st. case six of
       None \<Rightarrow> (None, st)
     | Some se \<Rightarrow> if ip6Mode (cfgIPv6 (wcfg (snd (snd st)))) = ''6in4''
                 then (case look zero_TunnelStatus (six_Status se) st of (ts, st') \<Rightarrow> (Some ts, st'))
                 else (None, st))"

definition ip6_HandlePage :: "float_ops \<Rightarrow> gotime \<Rightarrow> ip6env \<Rightarrow> sixenv option \<Rightarrow> ipv6Page pageenv \<Rightarrow> ip6_state hfun" where
  "ip6_HandlePage F now ie six pg r =
     observe (look zero_PrefixState (ip6_Status ie)) (\<lambda>state.
       observe (shown_tunnel six) (\<lambda>ts.
         with_state (\<lambda>st. show_page pg ''ipv6'' r (ipv6_page F now ie (wcfg (snd (snd st))) state ts))))"

definition six_enabled :: "request \<Rightarrow> string" where
  "six_enabled r = (let e = rqForm r ''enabled'' in if e \<in> {''auto'', ''on'', ''off''} then e else ''auto'')"

definition six_mode :: "request \<Rightarrow> string" where
  "six_mode r = (let m = TrimSpace (rqForm r ''mode'') in if m \<in> {''dhcpv6-pd'', ''6in4''} then m else ''dhcpv6-pd'')"

definition six_hint :: "request \<Rightarrow> string" where
  "six_hint r = (let h = TrimSpace (rqForm r ''prefixHint'') in if h \<noteq> [] \<and> \<not> HasPrefix h ''/'' then ''/'' @ h else h)"

definition tunnel_form :: "request \<Rightarrow> IPv6TunnelConfig \<Rightarrow> IPv6TunnelConfig" where
  "tunnel_form r t =
     (let t1 = t\<lparr>tunServerIPv4 := TrimSpace (rqForm r ''tunnelServerIPv4''), tunClientIPv6 := TrimSpace (rqForm r ''tunnelClientIPv6''),
                 tunRoutedPrefix := TrimSpace (rqForm r ''tunnelRoutedPrefix''), tunTunnelID := TrimSpace (rqForm r ''tunnelID''),
                 tunUsername := TrimSpace (rqForm r ''tunnelUsername'')\<rparr>;
          t2 = (if rqForm r ''tunnelUpdateKey'' \<noteq> [] then t1\<lparr>tunUpdateKey := rqForm r ''tunnelUpdateKey''\<rparr> else t1);
          t3 = t2\<lparr>tunAutoUpdate := (rqForm r ''tunnelAutoUpdate'' = ''on'')\<rparr>;
          dev = TrimSpace (rqForm r ''tunnelDevice'')
      in if dev \<noteq> [] then t3\<lparr>tunDevice := dev\<rparr> else t3)"

definition ipv6_form :: "request \<Rightarrow> IPv6Config \<Rightarrow> IPv6Config" where
  "ipv6_form r i = i\<lparr>ip6Enabled := six_enabled r, ip6Mode := six_mode r,
     ip6WAN := (ip6WAN i)\<lparr>wan6RequestPrefix := (rqForm r ''requestPrefix'' = ''on''), wan6RapidCommit := (rqForm r ''rapidCommit'' = ''on''),
                          wan6PrefixHint := six_hint r\<rparr>,
     ip6Tunnel := tunnel_form r (ip6Tunnel i)\<rparr>"

text \<open>The tunnel service's own steps, whose errors are logged.\<close>

definition tunnel_step :: "(SixInFour \<times> world \<Rightarrow> SixInFour \<times> world) \<Rightarrow> (response \<times> ip6_state \<Rightarrow> response \<times> ip6_state) \<Rightarrow> response \<times> ip6_state \<Rightarrow> response \<times> ip6_state" where
  "tunnel_step f k = (\<lambda>(w, con, sw). k (w, con, f sw))"

definition leave_6in4 :: "sixenv option \<Rightarrow> string \<Rightarrow> string \<Rightarrow> (response \<times> ip6_state \<Rightarrow> response \<times> ip6_state) \<Rightarrow> response \<times> ip6_state \<Rightarrow> response \<times> ip6_state" where
  "leave_6in4 six previousMode mode k = (case six of
       Some se \<Rightarrow> if previousMode = ''6in4'' \<and> mode \<noteq> ''6in4'' then tunnel_step (six_Stop se) k else k
     | None \<Rightarrow> k)"

definition enter_6in4 :: "sixenv option \<Rightarrow> string \<Rightarrow> (response \<times> ip6_state \<Rightarrow> response \<times> ip6_state) \<Rightarrow> response \<times> ip6_state \<Rightarrow> response \<times> ip6_state" where
  "enter_6in4 six mode k = (case six of
       Some se \<Rightarrow> if mode = ''6in4'' then tunnel_step (\<lambda>sw. snd (six_Restart se sw)) k else k
     | None \<Rightarrow> k)"

definition ip6_HandleSave :: "ip6env \<Rightarrow> sixenv option \<Rightarrow> ip6_state hfun" where
  "ip6_HandleSave ie six r = needs_form r (with_state (\<lambda>st.
     let previousMode = ip6Mode (cfgIPv6 (wcfg (snd (snd st)))); mode = six_mode r in
     do_action (on_world (io_then (io_update (map_ip6 (ipv6_form r))) (io_save (i6Sys ie)))) (\<lambda>_. (''config save failed'', 500))
       (\<lambda>_. leave_6in4 six previousMode mode
         (do_action (on_world (ip6_ApplyConfig ie)) (err_text 500)
           (\<lambda>_. enter_6in4 six mode (finish ''/ipv6'' r))))))"

definition current_ipv4 :: "pppenv option \<Rightarrow> ip6_state \<Rightarrow> string \<times> ip6_state" where
  "current_ipv4 ppp st = (case ppp of
       None \<Rightarrow> ([], st)
     | Some pe \<Rightarrow> (case ppp_status_in pe st of (ps, st') \<Rightarrow> (psLocalIP ps, st')))"

definition HandleTunnelUpdateNow :: "sixenv option \<Rightarrow> pppenv option \<Rightarrow> ip6_state hfun" where
  "HandleTunnelUpdateNow six ppp r = (case six of
       None \<Rightarrow> refuse ''6in4 not configured'' 400
     | Some se \<Rightarrow> observe (current_ipv4 ppp) (\<lambda>ip.
         if ip = [] then refuse ''no current WAN IPv4'' 503
         else do_action (on_snd (UpdateRemoteIPv4 se ip)) (err_text 500) (\<lambda>_. finish ''/ipv6'' r)))"

fun order_loop :: "nat \<Rightarrow> string list \<Rightarrow> (string, goint) gomap \<Rightarrow> string list \<Rightarrow> error + (string, goint) gomap" where
  "order_loop i seen m [] = Inr m"
| "order_loop i seen m (n # ns) =
     (let name = TrimSpace n in
      if name = [] then Inl ''empty entry in order list''
      else if name \<in> set seen then Inl (''duplicate entry '' @ quote_q name)
      else order_loop (i + 1) (name # seen) (m @ [(name, int i)]) ns)"

definition HandleSubnetMap :: "ip6env \<Rightarrow> (string \<Rightarrow> string list option) \<Rightarrow> ip6_state hfun" where
  "HandleSubnetMap ie decode r = (case decode (rqBody r) of
       None \<Rightarrow> refuse ''bad json'' 400
     | Some order \<Rightarrow>
         if order = [] \<or> hd order \<noteq> ''lan'' then refuse (''first entry must be '' @ quote_q ''lan'') 400
         else (case order_loop 0 [] [] order of
             Inl e \<Rightarrow> refuse e 400
           | Inr m \<Rightarrow> do_action (on_world (SetSubnetMap ie m)) (err_text 400) (\<lambda>_. finish ''/ipv6'' r)))"

definition unit_button :: "unit action \<Rightarrow> ip6_state hfun" where
  "unit_button m r = do_action (on_world m) (err_text 500) (\<lambda>_. finish ''/ipv6'' r)"

definition HandleRenew :: "ip6env \<Rightarrow> ip6_state hfun" where
  "HandleRenew ie = unit_button (ip6_Renew ie)"

definition HandleRelease :: "ip6env \<Rightarrow> ip6_state hfun" where
  "HandleRelease ie = unit_button (ip6_Release ie)"

definition ip6_HandleStart :: "ip6env \<Rightarrow> ip6_state hfun" where
  "ip6_HandleStart ie = unit_button (ip6_Start ie)"

definition ip6_HandleStop :: "ip6env \<Rightarrow> ip6_state hfun" where
  "ip6_HandleStop ie = unit_button (ip6_Stop ie)"

section \<open>The manual update\<close>

text \<open>The PPPoE service always reports the link down, so the button never reaches the tunnel broker.\<close>

lemma update_now_never_sends:
  "\<exists>wd'. HandleTunnelUpdateNow (Some se) ppp r (w, con, s, wd) = (http_Error ''no current WAN IPv4'' 503 w, con, s, wd')"
proof (cases ppp)
  case None
  then show ?thesis by (simp add: HandleTunnelUpdateNow_def current_ipv4_def observe_def refuse_def)
next
  case (Some pe)
  obtain st con' wd' where e: "ppp_Status pe (con, wd) = (st, con', wd')" by (metis prod_cases3)
  then have "ppp_Status pe (con, wd) = (down_status, con, wd')" using ppp_Status_down [of pe con wd] by simp
  then show ?thesis
    by (simp add: Some HandleTunnelUpdateNow_def current_ipv4_def ppp_status_in_def observe_def refuse_def down_status_def)
qed

section \<open>The order of the subnets\<close>

text \<open>The positions of the names.\<close>

definition positions :: "string list \<Rightarrow> (string, goint) gomap" where
  "positions ns = zip ns (map int [0..<length ns])"

definition order_ok :: "string list \<Rightarrow> bool" where
  "order_ok order \<longleftrightarrow> distinct (map TrimSpace order) \<and> [] \<notin> set (map TrimSpace order)"

lemma order_loop_result:
  "order_ok ns \<Longrightarrow> set seen \<inter> set (map TrimSpace ns) = {} \<Longrightarrow>
     order_loop i seen m ns = Inr (m @ zip (map TrimSpace ns) (map int [i..<i + length ns]))"
proof (induction i seen m ns rule: order_loop.induct)
  case (2 i seen m n ns)
  then have t: "TrimSpace n \<noteq> []" "TrimSpace n \<notin> set seen" "order_ok ns" "set (TrimSpace n # seen) \<inter> set (map TrimSpace ns) = {}"
    by (auto simp: order_ok_def)
  have "order_loop i seen m (n # ns) = order_loop (i + 1) (TrimSpace n # seen) (m @ [(TrimSpace n, int i)]) ns"
    using t(1,2) by (simp add: Let_def)
  also have "\<dots> = Inr ((m @ [(TrimSpace n, int i)]) @ zip (map TrimSpace ns) (map int [i + 1..<i + 1 + length ns]))"
    using "2.IH" [OF refl t] by simp
  also have "\<dots> = Inr (m @ zip (map TrimSpace (n # ns)) (map int [i..<i + length (n # ns)]))"
    by (simp add: upt_conv_Cons del: upt_Suc)
  finally show ?case .
qed simp

lemma order_loop_refuses:
  "\<not> (order_ok ns \<and> set seen \<inter> set (map TrimSpace ns) = {}) \<Longrightarrow> isl (order_loop i seen m ns)"
proof (induction i seen m ns rule: order_loop.induct)
  case (2 i seen m n ns)
  show ?case
  proof (cases "TrimSpace n = [] \<or> TrimSpace n \<in> set seen")
    case False
    then have "\<not> (order_ok ns \<and> set (TrimSpace n # seen) \<inter> set (map TrimSpace ns) = {})"
      using "2.prems" by (auto simp: order_ok_def)
    then show ?thesis using "2.IH" [OF refl] False by (simp add: Let_def)
  qed (auto simp: Let_def)
qed (simp add: order_ok_def)

lemma order_loop_iff: "order_loop 0 [] [] order = Inr m \<longleftrightarrow> order_ok order \<and> m = positions (map TrimSpace order)"
proof (cases "order_ok order")
  case True
  then show ?thesis using order_loop_result [of order "[]" 0 "[]"] by (auto simp: positions_def)
next
  case False
  then show ?thesis using order_loop_refuses [of order "[]" 0 "[]"] by auto
qed

lemma positions_at: "distinct ns \<Longrightarrow> i < length ns \<Longrightarrow> map_of (positions ns) (ns ! i) = Some (int i)"
  by (simp add: positions_def map_of_zip_nth)

text \<open>What applying the configuration keeps of it.\<close>

definition plan :: "world \<Rightarrow> (string, goint) gomap \<times> VLANConfig list" where
  "plan w = (subnets (wcfg w), cfgVLANs (wcfg w))"

definition keeps_plan :: "'a action \<Rightarrow> bool" where
  "keeps_plan m \<longleftrightarrow> (\<forall>w. plan (snd (m w)) = plan w)"

named_theorems planned "actions that keep the subnets"

lemma keeps_plan_return [planned]: "keeps_plan (io_return a)"
  and keeps_plan_lift [planned]: "keeps_plan (io_lift x)"
  and keeps_plan_sys [planned]: "keeps_plan (sys env c)"
  by (simp_all add: keeps_plan_def plan_def io_simps)

lemma keeps_plan_bind [planned]: "keeps_plan m \<Longrightarrow> (\<And>a. keeps_plan (k a)) \<Longrightarrow> keeps_plan (io_bind m k)"
  unfolding keeps_plan_def io_bind_def by (auto split: prod.splits sum.splits) (metis snd_conv)+

lemma keeps_plan_then [planned]: "keeps_plan m \<Longrightarrow> keeps_plan k \<Longrightarrow> keeps_plan (io_then m k)"
  unfolding io_then_def by (rule keeps_plan_bind)

lemma keeps_plan_wrap [planned]: "keeps_plan m \<Longrightarrow> keeps_plan (io_wrap pre m)"
  unfolding keeps_plan_def io_wrap_def by (auto split: prod.splits sum.splits) (metis snd_conv)+

lemma keeps_plan_ignore [planned]: "keeps_plan m \<Longrightarrow> keeps_plan (io_ignore m)"
  by (simp add: keeps_plan_def io_ignore_def)

lemma keeps_plan_save [planned]: "keeps_plan (io_save env)"
  by (simp add: keeps_plan_def plan_def wcfg_io_save)

lemma keeps_plan_if [planned]: "keeps_plan m \<Longrightarrow> keeps_plan n \<Longrightarrow> keeps_plan (if b then m else n)"
  by simp

lemma keeps_planD: "keeps_plan m \<Longrightarrow> plan (snd (m w)) = plan w"
  by (simp add: keeps_plan_def)

lemma keeps_plan_ula [planned]: "keeps_plan (ula_prefix env)"
  by (auto simp: keeps_plan_def plan_def ula_prefix_def Let_def io_simps wcfg_io_save set_ula_def map_ip6_def split: sum.splits)

lemma keeps_plan_rdnss [planned]: "keeps_plan (rdnssAddrs env)"
  by (auto simp: keeps_plan_def rdnssAddrs_def plan_def sys_def split: sum.splits)

lemma keeps_plan_RA [planned]: "keeps_plan (RenderRAConfig env)"
proof -
  have "plan (snd (io_bind (rdnssAddrs env) (\<lambda>rdnss. io_bind u (\<lambda>ula. io_lift (i6RA env (ra_data c lan n rdnss ula)))) w)) = plan w"
    if "keeps_plan u" for u c lan n w
    by (rule keeps_planD, intro planned that)
  from this [OF keeps_plan_ula] this [OF keeps_plan_return]
  show ?thesis unfolding keeps_plan_def RenderRAConfig_def Let_def by (simp split: sum.splits)
qed

lemma keeps_plan_files [planned]: "keeps_plan (put_file env pre path content mode)" "keeps_plan (make_dir env dir)" "keeps_plan (run_unit env pre args)"
  unfolding put_file_def make_dir_def run_unit_def by (intro planned)+

lemma keeps_plan_pd [planned]: "keeps_plan (render_pd env)"
  unfolding keeps_plan_def render_pd_def by (intro allI) (rule keeps_planD, intro planned)

lemma keeps_plan_disk [planned]: "keeps_plan (RenderToDisk env)"
proof (unfold keeps_plan_def, intro allI)
  fix w
  show "plan (snd (RenderToDisk env w)) = plan w"
  proof (cases "ip6Enabled (cfgIPv6 (wcfg w)) = ''off'' \<or> \<not> pd_requested (wcfg w) \<and> ip6Mode (cfgIPv6 (wcfg w)) \<noteq> ''6in4''")
    case True
    show ?thesis unfolding RenderToDisk_def Let_def if_P [OF True] by (rule keeps_planD, intro planned)
  next
    case False
    show ?thesis unfolding RenderToDisk_def Let_def if_not_P [OF False] by (rule keeps_planD, intro planned)
  qed
qed

lemma keeps_plan_stop [planned]: "keeps_plan (stopUnitLocked env)"
  by (auto simp: keeps_plan_def stopUnitLocked_def plan_def sys_def split: sum.splits)

lemma keeps_plan_apply [planned]: "keeps_plan (ip6_ApplyConfig env)"
  unfolding ip6_ApplyConfig_def reloadDnsmasqLocked_def
proof (intro planned)
  show "keeps_plan (\<lambda>w. let c = wcfg w in if ip6Enabled (cfgIPv6 c) = ''off'' \<or> ip6Mode (cfgIPv6 c) = ''6in4'' \<or>
      \<not> wan6RequestPrefix (ip6WAN (cfgIPv6 c)) then stopUnitLocked env w else restartUnitLocked env w)"
    using keeps_plan_stop [of env] keeps_plan_files(3) by (simp add: keeps_plan_def Let_def restartUnitLocked_def)
qed

lemma SetSubnetMap_plan:
  assumes "SetSubnetMap env m w = (Inr (), w')"
  shows "subnet_map_ok (wcfg w) m" "subnets (wcfg w') = m" "cfgVLANs (wcfg w') = cfgVLANs (wcfg w)"
proof -
  have v: "ValidateSubnetMap (wcfg w) m = None" using assms by (auto simp: SetSubnetMap_def split: option.splits)
  then show "subnet_map_ok (wcfg w) m" by (simp add: ValidateSubnetMap_ok)
  let ?rest = "io_then (io_wrap ''save subnet map: '' (io_save (i6Sys env))) (ip6_ApplyConfig env)"
  let ?w1 = "w\<lparr>wStore := (wStore w)\<lparr>cfg := set_subnets m (wcfg w)\<rparr>\<rparr>"
  have "?rest ?w1 = (Inr (), w')" using assms v by (simp add: SetSubnetMap_def io_then_def io_bind_def io_update_def)
  moreover have "keeps_plan ?rest" by (intro planned)
  ultimately have "plan w' = plan ?w1" unfolding keeps_plan_def by (metis snd_conv)
  then show "subnets (wcfg w') = m" "cfgVLANs (wcfg w') = cfgVLANs (wcfg w)"
    by (simp_all add: plan_def set_subnets_def map_ip6_def)
qed

text \<open>An answer of success comes from an accepted order.\<close>

lemma HandleSubnetMap_success:
  assumes "HandleSubnetMap ie decode r (w, con, s, wd) = (w', con', s', wd')"
    "rsStatus w = None" "rsStatus w' \<noteq> Some 400"
  obtains order where "decode (rqBody r) = Some order" "order \<noteq> []" "hd order = ''lan''" "order_ok order"
    "SetSubnetMap ie (positions (map TrimSpace order)) wd = (Inr (), wd')"
proof -
  have bad: "rsStatus (http_Error msg 400 w) = Some 400" for msg
    using assms(2) by (simp add: http_Error_def Write_def WriteHeader_def Header_Set_def)
  obtain order where o: "decode (rqBody r) = Some order" "order \<noteq> []" "hd order = ''lan''"
    using assms(1,3) bad by (auto simp: HandleSubnetMap_def refuse_def split: option.splits if_splits)
  obtain m where m: "order_loop 0 [] [] order = Inr m"
    using assms(1,3) o bad by (auto simp: HandleSubnetMap_def refuse_def split: sum.splits)
  obtain x wd1 where run: "SetSubnetMap ie m wd = (x, wd1)" by fastforce
  have x: "x = Inr ()" and "wd1 = wd'"
    using assms(1,3) o m run bad
    by (auto simp: HandleSubnetMap_def do_action_def on_world_def on_snd_def refuse_def err_text_def finish_def
        split: sum.splits if_splits)
  then show ?thesis using that o m run by (simp add: order_loop_iff)
qed

text \<open>
  C40. An accepted order of subnets becomes the announced assignment. When the request to set the order is
  answered with success, every subnet of the new plan, whatever prefix length is delegated, that the
  submitted list names at position i announces SLA-ID i, the primary LAN keeps SLA-ID 0, and the list had
  no blank or repeated entries and only names of configured VLANs after the first; when the list names
  every VLAN, the SLA-IDs of the plan are all different.
\<close>

theorem subnet_order_becomes_assignment:
  assumes "HandleSubnetMap ie decode r (w, con, s, wd) = (w', con', s', wd')"
    "rsStatus w = None" "rsStatus w' \<noteq> Some 400" "0 \<le> n"
  shows "\<exists>order. decode (rqBody r) = Some order \<and> order_ok order \<and> hd order = ''lan'' \<and>
      set (map TrimSpace order) \<subseteq> insert ''lan'' (vlID ` set (cfgVLANs (wcfg wd))) \<and>
      (\<forall>p \<in> set (buildPrefixInterfaces (wcfg wd') lan n). \<forall>i < length order.
         pfiName p = TrimSpace (order ! i) \<longrightarrow> pfiSLAID p = int i) \<and>
      (distinct (''lan'' # map vlID (cfgVLANs (wcfg wd))) \<and> vlID ` set (cfgVLANs (wcfg wd)) \<subseteq> set (map TrimSpace order) \<longrightarrow>
         distinct (map pfiSLAID (buildPrefixInterfaces (wcfg wd') lan n)))"
proof -
  obtain order where o: "decode (rqBody r) = Some order" "order \<noteq> []" "hd order = ''lan''" "order_ok order"
    and run: "SetSubnetMap ie (positions (map TrimSpace order)) wd = (Inr (), wd')"
    using HandleSubnetMap_success [OF assms(1-3)] by metis
  let ?ns = "map TrimSpace order" and ?c = "wcfg wd'"
  note p = SetSubnetMap_plan [OF run]
  have d: "distinct ?ns" using o(4) by (simp add: order_ok_def)
  have keys: "fst ` set (positions ?ns) = set ?ns" by (simp add: positions_def flip: set_map)
  have ok: "subnet_map_ok ?c (subnets ?c)" using p by (simp add: subnet_map_ok_def)
  have known: "set ?ns \<subseteq> insert ''lan'' (vlID ` set (cfgVLANs (wcfg wd)))"
  proof
    fix k
    assume "k \<in> set ?ns"
    then obtain v where "(k, v) \<in> set (positions ?ns)" using keys by (metis imageE prod.collapse)
    then show "k \<in> insert ''lan'' (vlID ` set (cfgVLANs (wcfg wd)))" using p(1) by (auto simp: subnet_map_ok_def)
  qed
  have lan: "TrimSpace (order ! 0) = ''lan''" using o(2,3) by (simp add: hd_conv_nth TrimSpace_def is_space_def)
  obtain new where new: "buildPrefixInterfaces ?c lan n = \<lparr>pfiName = ''lan'', pfiDevice = lan, pfiSLAID = 0\<rparr> # new"
    "\<forall>q \<in> set new. pfiName q \<noteq> [] \<and> pfiSLAID q \<le> 2 ^ nat n - 1 \<and> (\<exists>k \<ge> 1. pfiSLAID q = pick (subnets ?c) (pfiName q) k)"
    using assignment [OF ok assms(4)] by metis
  have at: "pfiSLAID q = int i"
    if q: "q \<in> set (buildPrefixInterfaces ?c lan n)" "i < length order" "pfiName q = TrimSpace (order ! i)" for q i
  proof -
    have mi: "map_of (subnets ?c) (pfiName q) = Some (int i)" using positions_at [OF d, of i] q(2,3) p(2) by simp
    consider "pfiName q = ''lan''" "pfiSLAID q = 0" | "q \<in> set new" using q(1) new(1) by auto
    then show ?thesis
    proof cases
      case 1
      then have "i = 0" using nth_eq_iff_index_eq [OF d, of i 0] q lan o(2) by simp
      then show ?thesis using 1 by simp
    next
      case 2
      then show ?thesis using new(2) mi by (auto simp: pick_def)
    qed
  qed
  have "distinct (map pfiSLAID (buildPrefixInterfaces ?c lan n))"
    if dv: "distinct (''lan'' # map vlID (cfgVLANs (wcfg wd)))" and all: "vlID ` set (cfgVLANs (wcfg wd)) \<subseteq> set ?ns"
  proof (rule assignment_map_distinct [OF ok assms(4)])
    have "''lan'' \<in> set ?ns" using lan o(2) by (metis length_greater_0_conv length_map nth_map nth_mem)
    then show "subnets_cover ?c" using all keys p(2,3) by (auto simp: subnets_cover_def list_all_iff)
  qed (use dv p(3) in simp)
  then show ?thesis using o known at by blast
qed

definition order_config :: Config where
  "order_config = (demo_ip6 [])\<lparr>cfgFilePath := ''/etc/lk.yaml''\<rparr>"

definition order_world :: world where
  "order_world = \<lparr>wStore = \<lparr>cfg = order_config, disk = Map.empty\<rparr>, wTrace = []\<rparr>"

lemma order_answer:
  "\<exists>s' wd'. HandleSubnetMap (lease_env (Inr [])) (\<lambda>_. Some [''lan'', ''iot'', ''guest'']) (form_request ''/ipv6/subnet-map'' [])
      (empty_response, False, \<lparr>siRunning = False, siLastIPv4 = [], siSent = []\<rparr>, order_world) =
      (http_Redirect ''/ipv6'' 303 empty_response, False, s', wd')"
proof -
  have trim: "TrimSpace ''lan'' = ''lan''" "TrimSpace ''iot'' = ''iot''" "TrimSpace ''guest'' = ''guest''"
    by (simp_all add: TrimSpace_def is_space_def)
  have "ValidateSubnetMap order_config [(''lan'', 0), (''iot'', 1), (''guest'', 2)] = None"
    by (simp add: ValidateSubnetMap_ok subnet_map_ok_def order_config_def demo_ip6_defs)
  moreover have "\<not> pd_requested (set_subnets m order_config)" "ip6Mode (cfgIPv6 (set_subnets m order_config)) = []"
    "\<not> wan6RequestPrefix (ip6WAN (cfgIPv6 (set_subnets m order_config)))" "cfgFilePath (set_subnets m order_config) = ''/etc/lk.yaml''" for m
    by (simp_all add: pd_requested_def order_config_def demo_ip6_defs)
  ultimately have "\<exists>wd'. SetSubnetMap (lease_env (Inr [])) [(''lan'', 0), (''iot'', 1), (''guest'', 2)] order_world = (Inr (), wd')"
    by (simp add: SetSubnetMap_def order_world_def io_simps io_save_def lease_env_def calm_env_def SaveToFile_def Save_def quiet_env_def
        atomicWrite_def Let_def ip6_ApplyConfig_def RenderToDisk_def put_file_def reloadDnsmasqLocked_def run_unit_def stopUnitLocked_def)
  then show ?thesis
    by (auto simp: HandleSubnetMap_def trim do_action_def on_world_def on_snd_def finish_def form_request_def hx_request_def)
qed

theorem subnet_order_becomes_assignment_witness:
  "\<exists>wd'. distinct (map pfiSLAID (buildPrefixInterfaces (wcfg wd') ''br0'' 8)) \<and>
     snd (snd (snd (HandleSubnetMap (lease_env (Inr [])) (\<lambda>_. Some [''lan'', ''iot'', ''guest'']) (form_request ''/ipv6/subnet-map'' [])
      (empty_response, False, \<lparr>siRunning = False, siLastIPv4 = [], siSent = []\<rparr>, order_world)))) = wd'"
proof -
  let ?h = "HandleSubnetMap (lease_env (Inr [])) (\<lambda>_. Some [''lan'', ''iot'', ''guest'']) (form_request ''/ipv6/subnet-map'' [])
      (empty_response, False, \<lparr>siRunning = False, siLastIPv4 = [], siSent = []\<rparr>, order_world)"
  have trim: "TrimSpace ''lan'' = ''lan''" "TrimSpace ''iot'' = ''iot''" "TrimSpace ''guest'' = ''guest''"
    by (simp_all add: TrimSpace_def is_space_def)
  obtain s' wd' where h: "?h = (http_Redirect ''/ipv6'' 303 empty_response, False, s', wd')" using order_answer by blast
  have "rsStatus empty_response = None" "rsStatus (http_Redirect ''/ipv6'' 303 empty_response) \<noteq> Some 400"
    by (simp_all add: http_Redirect_def WriteHeader_def Header_Set_def empty_response_def)
  from subnet_order_becomes_assignment [OF h this, of 8 "''br0''"]
  have "distinct (''lan'' # map vlID (cfgVLANs (wcfg order_world))) \<and>
      vlID ` set (cfgVLANs (wcfg order_world)) \<subseteq> {''lan'', ''iot'', ''guest''} \<longrightarrow>
      distinct (map pfiSLAID (buildPrefixInterfaces (wcfg wd') ''br0'' 8))" by (simp add: trim)
  then show ?thesis using h by (simp add: order_world_def order_config_def demo_ip6_defs)
qed

end
