(* ===== verification/Monitor.thy ===== *)
theory Monitor
  imports NetUtil QoS
begin

text \<open>
  The system monitor (\<^verbatim>\<open>internal/services/monitor.go\<close>): one sample a second of the processor, the memory,
  the temperature, the uptime and the interfaces, and a history of the last minute. Counters are \<open>uint64\<close>
  and wrap; \<open>float64\<close> results are rationals rounded through a parameter. The files of \<open>/proc\<close> and
  \<open>/sys\<close>, the clock and \<open>strconv.ParseFloat\<close> are parameters.
\<close>

section \<open>Samples\<close>

record IfaceStats =
  isRxBytesPerSec :: nat
  isTxBytesPerSec :: nat
  isRxTotal :: nat
  isTxTotal :: nat

record SystemStats =
  ssTimestamp :: gotime
  ssCPUPercent :: rat
  ssRAMTotal :: nat
  ssRAMUsed :: nat
  ssRAMPercent :: rat
  ssTemperature :: rat
  ssUptime :: duration
  ssInterfaces :: "(string, IfaceStats) gomap"

record MonitorService =
  moCurrent :: SystemStats
  moHistory :: "SystemStats list"
  moMaxHist :: nat
  moPrevCPUIdle :: nat
  moPrevCPUTotal :: nat
  moPrevRx :: "(string, nat) gomap"
  moPrevTx :: "(string, nat) gomap"
  moPrevTime :: gotime

definition zero_SystemStats :: SystemStats where
  "zero_SystemStats = \<lparr>ssTimestamp = 0, ssCPUPercent = 0, ssRAMTotal = 0, ssRAMUsed = 0, ssRAMPercent = 0,
     ssTemperature = 0, ssUptime = 0, ssInterfaces = []\<rparr>"

definition NewMonitorService :: MonitorService where
  "NewMonitorService = \<lparr>moCurrent = zero_SystemStats, moHistory = [], moMaxHist = 60, moPrevCPUIdle = 0,
     moPrevCPUTotal = 0, moPrevRx = [], moPrevTx = [], moPrevTime = 0\<rparr>"

text \<open>What one tick reads; \<open>None\<close> is a file that cannot be read.\<close>

record monenv =
  meLinux :: bool
  meNow :: gotime
  meStat :: "string list option"
  meMeminfo :: "string list option"
  meTemp :: "string option"
  meUptime :: "string option"
  meDev :: "error + string list"
  meParseFloat :: "string \<Rightarrow> rat"
  meFloat :: float_ops

abbreviation u64 :: "nat \<Rightarrow> nat" where
  "u64 n \<equiv> n mod 2 ^ 64"

definition sub64 :: "nat \<Rightarrow> nat \<Rightarrow> nat" where
  "sub64 a b = u64 (a + (2 ^ 64 - b))"

text \<open>The value part of \<open>strconv.ParseUint(s, 10, 64)\<close>.\<close>

definition ParseUint_value :: "string \<Rightarrow> nat" where
  "ParseUint_value s =
     (if s = [] \<or> \<not> list_all is_digit s then 0 else if digits_val s \<ge> 2 ^ 64 then 2 ^ 64 - 1 else digits_val s)"

definition f_of :: "monenv \<Rightarrow> nat \<Rightarrow> rat" where
  "f_of env n = f_round (meFloat env) (of_nat n)"

text \<open>
  \<open>float64(a) / float64(b) * 100\<close>. Dividing by zero gives NaN or an infinity in Go, values that are no
  percentage and that the callers' guards avoid; \<open>-1\<close> stands for them.
\<close>

definition percent :: "monenv \<Rightarrow> nat \<Rightarrow> nat \<Rightarrow> rat" where
  "percent env a b = (if b = 0 then -1 else f_round (meFloat env) (f_round (meFloat env) (f_of env a / f_of env b) * 100))"

section \<open>The readers\<close>

definition cpu_fields :: "monenv \<Rightarrow> string list option" where
  "cpu_fields env =
     (if \<not> meLinux env then None
      else case meStat env of
        Some (line # _) \<Rightarrow> (let fs = Fields line in if length fs < 5 \<or> fs ! 0 \<noteq> ''cpu'' then None else Some fs)
      | _ \<Rightarrow> None)"

definition readCPU :: "monenv \<Rightarrow> MonitorService \<Rightarrow> rat \<times> MonitorService" where
  "readCPU env s =
     (case cpu_fields env of
        None \<Rightarrow> (0, s)
      | Some fs \<Rightarrow>
          (let total = foldl (\<lambda>t f. u64 (t + ParseUint_value f)) 0 (tl fs);
               idle = ParseUint_value (fs ! 4);
               deltaTotal = sub64 total (moPrevCPUTotal s);
               deltaIdle = sub64 idle (moPrevCPUIdle s);
               s' = s\<lparr>moPrevCPUTotal := total, moPrevCPUIdle := idle\<rparr>
           in if deltaTotal = 0 then (0, s') else (percent env (sub64 deltaTotal deltaIdle) deltaTotal, s')))"

text \<open>\<open>fmt.Sscanf(line, "<key>: %d kB", &v)\<close>: a blank, then digits; a failed scan leaves the old value.\<close>

definition scan_kb :: "string \<Rightarrow> nat \<Rightarrow> nat" where
  "scan_kb rest old =
     (let d = takeWhile is_digit (dropWhile is_space rest) in
      if rest \<noteq> [] \<and> is_space (hd rest) \<and> d \<noteq> [] \<and> digits_val d < 2 ^ 64 then digits_val d else old)"

definition scan_meminfo :: "nat \<times> nat \<Rightarrow> string \<Rightarrow> nat \<times> nat" where
  "scan_meminfo = (\<lambda>(total, avail) line.
     if HasPrefix line ''MemTotal:'' then (scan_kb (TrimPrefix line ''MemTotal:'') total, avail)
     else if HasPrefix line ''MemAvailable:'' then (total, scan_kb (TrimPrefix line ''MemAvailable:'') avail)
     else (total, avail))"

definition readMemInfo :: "monenv \<Rightarrow> nat \<times> nat \<times> rat" where
  "readMemInfo env =
     (if \<not> meLinux env then (0, 0, 0)
      else case meMeminfo env of
        None \<Rightarrow> (0, 0, 0)
      | Some ls \<Rightarrow>
          (case foldl scan_meminfo (0, 0) ls of (memTotal, memAvailable) \<Rightarrow>
            (u64 (memTotal * 1024), u64 (sub64 memTotal memAvailable * 1024),
             if memTotal > 0 then percent env (sub64 memTotal memAvailable) memTotal else 0)))"

definition readTemperature :: "monenv \<Rightarrow> rat" where
  "readTemperature env =
     (if \<not> meLinux env then 0
      else case meTemp env of
        None \<Rightarrow> 0
      | Some d \<Rightarrow> f_round (meFloat env) (f_round (meFloat env) (of_int (ParseInt_value (TrimSpace d))) / 1000))"

definition readUptime :: "monenv \<Rightarrow> duration" where
  "readUptime env =
     (if \<not> meLinux env then 0
      else case meUptime env of
        None \<Rightarrow> 0
      | Some d \<Rightarrow> (case Fields d of [] \<Rightarrow> 0
          | f # _ \<Rightarrow> (let x = f_round (meFloat env) (meParseFloat env f * 1000000000) in if x \<ge> 0 then floor x else ceiling x)))"

definition rate :: "monenv \<Rightarrow> rat \<Rightarrow> (string, nat) gomap \<Rightarrow> string \<Rightarrow> nat \<Rightarrow> nat" where
  "rate env elapsed prev name cur =
     (case map_of prev name of
        None \<Rightarrow> 0
      | Some p \<Rightarrow> if cur \<ge> p then nat (floor (f_round (meFloat env) (f_of env (cur - p) / elapsed))) else 0)"

definition collect_iface :: "monenv \<Rightarrow> rat \<Rightarrow> MonitorService \<times> (string, IfaceStats) gomap \<Rightarrow> string \<Rightarrow> MonitorService \<times> (string, IfaceStats) gomap" where
  "collect_iface env elapsed = (\<lambda>(s, m) name.
     case ReadInterfaceStats (meDev env) name of
       Inl _ \<Rightarrow> (s, m)
     | Inr (rx, tx) \<Rightarrow>
         (s\<lparr>moPrevRx := map_put name rx (moPrevRx s), moPrevTx := map_put name tx (moPrevTx s)\<rparr>,
          map_put name \<lparr>isRxBytesPerSec = rate env elapsed (moPrevRx s) name rx, isTxBytesPerSec = rate env elapsed (moPrevTx s) name tx,
            isRxTotal = rx, isTxTotal = tx\<rparr> m))"

definition collect :: "monenv \<Rightarrow> string list \<Rightarrow> MonitorService \<Rightarrow> SystemStats \<times> MonitorService" where
  "collect env ifaces s =
     (let now = meNow env; (cpu, s1) = readCPU env s; (total, used, pct) = readMemInfo env;
          e0 = Seconds (meFloat env) (now - moPrevTime s1); elapsed = (if e0 \<le> 0 then 1 else e0);
          (s2, m) = foldl (collect_iface env elapsed) (s1, []) ifaces
      in (\<lparr>ssTimestamp = now, ssCPUPercent = cpu, ssRAMTotal = total, ssRAMUsed = used, ssRAMPercent = pct,
           ssTemperature = readTemperature env, ssUptime = readUptime env, ssInterfaces = m\<rparr>, s2\<lparr>moPrevTime := now\<rparr>))"

text \<open>One tick of the loop in \<open>Start\<close>.\<close>

definition monitor_tick :: "string list \<Rightarrow> MonitorService \<Rightarrow> monenv \<Rightarrow> MonitorService" where
  "monitor_tick ifaces s env =
     (let (stats, s1) = collect env ifaces s; h = moHistory s1 @ [stats]
      in s1\<lparr>moCurrent := stats, moHistory := (if length h > moMaxHist s1 then tl h else h)\<rparr>)"

definition GetCurrent :: "MonitorService \<Rightarrow> SystemStats" where
  "GetCurrent s = moCurrent s"

definition GetHistory :: "MonitorService \<Rightarrow> SystemStats list" where
  "GetHistory s = moHistory s"

definition run_monitor :: "string list \<Rightarrow> monenv list \<Rightarrow> MonitorService \<Rightarrow> MonitorService" where
  "run_monitor ifaces envs s = foldl (monitor_tick ifaces) s envs"

section \<open>The window of samples\<close>

text \<open>The samples of a run, oldest first.\<close>

primrec samples :: "string list \<Rightarrow> monenv list \<Rightarrow> MonitorService \<Rightarrow> SystemStats list" where
  "samples ifaces [] s = []"
| "samples ifaces (env # envs) s = fst (collect env ifaces s) # samples ifaces envs (monitor_tick ifaces s env)"

lemma collect_iface_frame:
  "moHistory (fst (foldl (collect_iface env e) (s, m) is)) = moHistory s \<and> moMaxHist (fst (foldl (collect_iface env e) (s, m) is)) = moMaxHist s"
proof (induction "is" arbitrary: s m)
  case (Cons i ifs)
  obtain s' m' where step: "collect_iface env e (s, m) i = (s', m')" by fastforce
  then have "moHistory s' = moHistory s" "moMaxHist s' = moMaxHist s" by (auto simp: collect_iface_def split: sum.splits)
  then show ?case using Cons step by simp
qed simp

lemma readCPU_frame: "moHistory (snd (readCPU env s)) = moHistory s" "moMaxHist (snd (readCPU env s)) = moMaxHist s"
  by (simp_all add: readCPU_def Let_def split: option.splits)

lemma collect_frame: "moHistory (snd (collect env ifaces s)) = moHistory s" "moMaxHist (snd (collect env ifaces s)) = moMaxHist s"
  using collect_iface_frame readCPU_frame [of env s]
  by (auto simp: collect_def Let_def split: prod.splits) (metis fst_conv snd_conv)+

text \<open>The last \<open>n\<close> elements.\<close>

definition last_n :: "nat \<Rightarrow> 'a list \<Rightarrow> 'a list" where
  "last_n n xs = drop (length xs - n) xs"

lemma last_n_snoc:
  assumes "n > 0"
  shows "last_n n (xs @ [x]) = (let h = last_n n xs @ [x] in if length h > n then tl h else h)"
proof (cases "length xs < n")
  case True
  then show ?thesis by (simp add: last_n_def)
next
  case False
  then have "length (drop (length xs - n) xs) = n" by simp
  moreover have "tl (drop (length xs - n) xs @ [x]) = drop (Suc (length xs) - n) xs @ [x]"
    using False assms by (cases "drop (length xs - n) xs") (auto simp: Suc_diff_le drop_Suc tl_drop [symmetric])
  ultimately show ?thesis using False assms by (simp add: last_n_def Let_def)
qed

lemma tick_history:
  assumes "moMaxHist s = 60" "moHistory s = last_n 60 xs"
  shows "moMaxHist (monitor_tick ifaces s env) = 60"
    "moHistory (monitor_tick ifaces s env) = last_n 60 (xs @ [fst (collect env ifaces s)])"
    "moCurrent (monitor_tick ifaces s env) = fst (collect env ifaces s)"
  using assms collect_frame [of env ifaces s] last_n_snoc [of 60 xs "fst (collect env ifaces s)"]
  by (auto simp: monitor_tick_def Let_def split: prod.splits)

lemma run_history:
  "moMaxHist s = 60 \<Longrightarrow> moHistory s = last_n 60 xs \<Longrightarrow>
     moHistory (run_monitor ifaces envs s) = last_n 60 (xs @ samples ifaces envs s) \<and>
     (envs \<noteq> [] \<longrightarrow> moCurrent (run_monitor ifaces envs s) = last (samples ifaces envs s))"
proof (induction envs arbitrary: s xs)
  case (Cons env envs)
  note tick = tick_history [OF Cons.prems, of ifaces env]
  show ?case using Cons.IH [OF tick(1,2)] tick(3) by (cases envs) (simp_all add: run_monitor_def)
qed (simp add: run_monitor_def)

section \<open>Percentages\<close>

lemma percent_range:
  assumes F: "rounds_within (meFloat env) M \<delta>" and "a \<le> b" "0 < b"
  shows "0 \<le> percent env a b" "percent env a b \<le> 100"
proof -
  have a0: "0 \<le> f_of env a" unfolding f_of_def using round_nonneg [OF F] assms(3) by simp
  have b1: "1 \<le> f_of env b" unfolding f_of_def using round_ge_int [OF F, of 1 "of_nat b"] assms(3) by simp
  have ab: "f_of env a \<le> f_of env b" unfolding f_of_def by (rule round_mono [OF F]) (use assms(2) in simp)
  have q: "0 \<le> f_of env a / f_of env b" "f_of env a / f_of env b \<le> 1" using a0 b1 ab by simp_all
  have r: "0 \<le> f_round (meFloat env) (f_of env a / f_of env b)" "f_round (meFloat env) (f_of env a / f_of env b) \<le> 1"
    using round_nonneg [OF F q(1)] round_mono [OF F q(2)] round_int [OF F, of 1] by simp_all
  then show "0 \<le> percent env a b" unfolding percent_def using round_nonneg [OF F] assms(3) by simp
  have "f_round (meFloat env) (f_of env a / f_of env b) * 100 \<le> 100" using r(2) by simp
  from round_mono [OF F this] show "percent env a b \<le> 100" unfolding percent_def using round_int [OF F, of 100] by simp
qed

lemma sub64_le: "b \<le> a \<Longrightarrow> a < 2 ^ 64 \<Longrightarrow> sub64 a b = a - b"
proof -
  assume "b \<le> a" "a < 2 ^ 64"
  then have "a + (2 ^ 64 - b) = (a - b) + 2 ^ 64" by simp
  then have "sub64 a b = ((a - b) + 2 ^ 64) mod 2 ^ 64" unfolding sub64_def by (simp only:)
  also have "\<dots> = a - b" using \<open>a < 2 ^ 64\<close> by simp
  finally show ?thesis .
qed

text \<open>The counters of the first line of \<open>/proc/stat\<close>.\<close>

definition cpu_total :: "string list \<Rightarrow> nat" where
  "cpu_total fs = foldl (\<lambda>t f. u64 (t + ParseUint_value f)) 0 (tl fs)"

definition cpu_idle :: "string list \<Rightarrow> nat" where
  "cpu_idle fs = ParseUint_value (fs ! 4)"

lemma readCPU_fields:
  assumes "cpu_fields env = Some fs"
  shows "fst (readCPU env s) = (let dt = sub64 (cpu_total fs) (moPrevCPUTotal s); di = sub64 (cpu_idle fs) (moPrevCPUIdle s)
    in if dt = 0 then 0 else percent env (sub64 dt di) dt)"
  unfolding readCPU_def assms cpu_total_def cpu_idle_def by (simp only: option.case Let_def if_distrib [of fst] fst_conv)

lemma cpu_total_bound: "cpu_total fs < 2 ^ 64"
  unfolding cpu_total_def by (cases "tl fs" rule: rev_cases) simp_all

lemma cpu_idle_bound: "cpu_idle fs < 2 ^ 64"
  by (simp add: cpu_idle_def ParseUint_value_def)

text \<open>The processor went forward: idle time did not shrink, and neither did the rest.\<close>

definition cpu_forward :: "monenv \<Rightarrow> MonitorService \<Rightarrow> bool" where
  "cpu_forward env s = (case cpu_fields env of None \<Rightarrow> True
     | Some fs \<Rightarrow> moPrevCPUIdle s \<le> cpu_idle fs \<and> moPrevCPUTotal s \<le> cpu_total fs \<and>
         cpu_idle fs - moPrevCPUIdle s \<le> cpu_total fs - moPrevCPUTotal s)"

definition mem_sane :: "monenv \<Rightarrow> bool" where
  "mem_sane env = (case meMeminfo env of None \<Rightarrow> True
     | Some ls \<Rightarrow> (case foldl scan_meminfo (0, 0) ls of (t, a) \<Rightarrow> a \<le> t \<and> t < 2 ^ 64))"

lemma readCPU_range:
  assumes F: "rounds_within (meFloat env) M \<delta>" and "cpu_forward env s"
  shows "0 \<le> fst (readCPU env s) \<and> fst (readCPU env s) \<le> 100"
proof (cases "cpu_fields env")
  case (Some fs)
  let ?dt = "cpu_total fs - moPrevCPUTotal s" and ?di = "cpu_idle fs - moPrevCPUIdle s"
  have fw: "moPrevCPUIdle s \<le> cpu_idle fs" "moPrevCPUTotal s \<le> cpu_total fs" "?di \<le> ?dt"
    using assms(2) Some by (simp_all add: cpu_forward_def)
  have d: "sub64 (cpu_total fs) (moPrevCPUTotal s) = ?dt" "sub64 (cpu_idle fs) (moPrevCPUIdle s) = ?di"
    using sub64_le fw cpu_total_bound cpu_idle_bound by blast+
  have dd: "sub64 ?dt ?di = ?dt - ?di" by (rule sub64_le [OF fw(3)]) (use cpu_total_bound [of fs] in linarith)
  have "fst (readCPU env s) = (if ?dt = 0 then 0 else percent env (?dt - ?di) ?dt)"
    unfolding readCPU_fields [OF Some] Let_def d dd by (rule refl)
  moreover have "0 \<le> percent env (?dt - ?di) ?dt \<and> percent env (?dt - ?di) ?dt \<le> 100" if "?dt \<noteq> 0"
    using percent_range [OF F, of "?dt - ?di" ?dt] that by simp
  ultimately show ?thesis by simp
qed (simp add: readCPU_def)

lemma readMemInfo_range:
  assumes F: "rounds_within (meFloat env) M \<delta>" and "mem_sane env"
  shows "0 \<le> snd (snd (readMemInfo env)) \<and> snd (snd (readMemInfo env)) \<le> 100"
proof (cases "meLinux env \<and> meMeminfo env \<noteq> None")
  case True
  then obtain ls t a where ls: "meMeminfo env = Some ls" "foldl scan_meminfo (0, 0) ls = (t, a)" "meLinux env" by fastforce
  then have "a \<le> t" "t < 2 ^ 64" using assms(2) by (simp_all add: mem_sane_def)
  then show ?thesis using ls sub64_le [of a t] percent_range [OF F, of "t - a" t] by (simp add: readMemInfo_def)
qed (auto simp: readMemInfo_def split: option.splits)

text \<open>
  C37. The monitor keeps exactly the last minute, and its percentages are percentages: after any run of ticks
  from the start, the history holds the last sixty samples in order and the current sample is the newest; and a
  tick at which the processor's counters went forward and the kernel reports no more available than total
  memory gives a processor and a memory load between 0 and 100, in the rounding arithmetic of the machine.
\<close>

theorem monitor_keeps_last_minute:
  shows "GetHistory (run_monitor ifaces envs NewMonitorService) = last_n 60 (samples ifaces envs NewMonitorService) \<and>
    (envs \<noteq> [] \<longrightarrow> GetCurrent (run_monitor ifaces envs NewMonitorService) = last (samples ifaces envs NewMonitorService)) \<and>
    (rounds_within (meFloat env) M \<delta> \<and> cpu_forward env s \<and> mem_sane env \<longrightarrow>
      0 \<le> ssCPUPercent (fst (collect env ifaces s)) \<and> ssCPUPercent (fst (collect env ifaces s)) \<le> 100 \<and>
      0 \<le> ssRAMPercent (fst (collect env ifaces s)) \<and> ssRAMPercent (fst (collect env ifaces s)) \<le> 100)"
proof -
  have fields: "ssCPUPercent (fst (collect env ifaces s)) = fst (readCPU env s)"
    "ssRAMPercent (fst (collect env ifaces s)) = snd (snd (readMemInfo env))"
    by (auto simp: collect_def Let_def split: prod.splits)
  have "moMaxHist NewMonitorService = 60" "moHistory NewMonitorService = last_n 60 []"
    by (simp_all add: NewMonitorService_def last_n_def)
  from run_history [OF this, of ifaces envs] show ?thesis
    unfolding fields GetHistory_def GetCurrent_def using readCPU_range readMemInfo_range by (auto simp: append_Nil)
qed

definition idle_tick :: monenv where
  "idle_tick = \<lparr>meLinux = True, meNow = 1000000000, meStat = Some [''cpu  10 0 10 80 0''], meMeminfo = Some [''MemTotal: 100 kB'', ''MemAvailable: 40 kB''],
     meTemp = None, meUptime = None, meDev = Inr [], meParseFloat = (\<lambda>_. 0), meFloat = \<lparr>f_round = id, f_fused = False\<rparr>\<rparr>"

theorem monitor_keeps_last_minute_witness:
  "ssCPUPercent (fst (collect idle_tick [] NewMonitorService)) \<le> 100 \<and>
   GetCurrent (run_monitor [] [idle_tick] NewMonitorService) = fst (collect idle_tick [] NewMonitorService)"
proof -
  have F: "rounds_within (meFloat idle_tick) 100 0" by (simp add: idle_tick_def rounds_within_def)
  have "cpu_fields idle_tick = Some [''cpu'', ''10'', ''0'', ''10'', ''80'', ''0'']" by code_simp
  then have c: "cpu_forward idle_tick NewMonitorService"
    by (simp add: cpu_forward_def NewMonitorService_def cpu_idle_def cpu_total_def ParseUint_value_def digits_val_def digit_val_def is_digit_def)
  have "foldl scan_meminfo (0, 0) [''MemTotal: 100 kB'', ''MemAvailable: 40 kB''] = (100, 40)"
    by (simp add: scan_meminfo_def scan_kb_def HasPrefix_def TrimPrefix_def is_space_def is_digit_def digits_val_def digit_val_def)
  then have m: "mem_sane idle_tick" by (simp add: mem_sane_def idle_tick_def)
  show ?thesis
    using monitor_keeps_last_minute [of "[]" "[idle_tick]" idle_tick 100 0 NewMonitorService] F c m by simp
qed

end
