(* ===== verification/Exposition.thy ===== *)
theory Exposition
  imports Monitor AgentClient Handlers
begin

text \<open>
  The Prometheus text format (\<^verbatim>\<open>internal/services/metrics_exposition.go\<close>) and the snapshot it prints
  (the types of \<^verbatim>\<open>internal/services/metrics.go\<close>). A \<open>float64\<close> is a rational; how \<open>%g\<close> prints it is a
  parameter. A reader of the format shows that the text says what the snapshot holds.
\<close>

section \<open>Snapshots\<close>

record IfaceMetric =
  imDevice :: string
  imRxBytes :: nat
  imTxBytes :: nat

record ClientBandwidthMetric =
  cbMAC :: string
  cbHostname :: string
  cbRxBytes :: nat
  cbTxBytes :: nat
  cbRxBPS :: nat
  cbTxBPS :: nat

record WGPeerMetric =
  wmName :: string
  wmHandshakeAge :: goint
  wmOnline :: goint
  wmRxBytes :: nat
  wmTxBytes :: nat

record S2SPeerMetric =
  smName :: string
  smHandshakeAge :: goint
  smOnline :: goint
  smRxBytes :: nat
  smTxBytes :: nat

record MetricsSnapshot =
  msBuildVersion :: string
  msBuildCommit :: string
  msUptimeSeconds :: rat
  msCPUPercent :: rat
  msMemoryTotal :: nat
  msMemoryUsed :: nat
  msTemperature :: rat
  msInterfaces :: "IfaceMetric list"
  msDHCPLeases :: goint
  msDNSQueriesTotal :: nat
  msDNSCacheHitsTotal :: nat
  msDNSCacheMissesTotal :: nat
  msDNSBlockedTotal :: nat
  msClients :: "ClientBandwidthMetric list"
  msWGPeers :: "WGPeerMetric list"
  msS2SPeers :: "S2SPeerMetric list"
  msOpenVPNPeers :: goint
  msBackupLastRunUnix :: goint
  msBackupLastStatusOK :: goint
  msBackupHistorySize :: goint
  msPPPoEConnected :: goint
  msIPv6Active :: goint
  msIPv6Mode :: string
  msFirewallActive :: goint

definition zero_MetricsSnapshot :: MetricsSnapshot where
  "zero_MetricsSnapshot = \<lparr>msBuildVersion = [], msBuildCommit = [], msUptimeSeconds = 0, msCPUPercent = 0, msMemoryTotal = 0, msMemoryUsed = 0,
     msTemperature = 0, msInterfaces = [], msDHCPLeases = 0, msDNSQueriesTotal = 0, msDNSCacheHitsTotal = 0, msDNSCacheMissesTotal = 0,
     msDNSBlockedTotal = 0, msClients = [], msWGPeers = [], msS2SPeers = [], msOpenVPNPeers = 0, msBackupLastRunUnix = 0,
     msBackupLastStatusOK = 0, msBackupHistorySize = 0, msPPPoEConnected = 0, msIPv6Active = 0, msIPv6Mode = [], msFirewallActive = 0\<rparr>"

section \<open>Writing\<close>

datatype metricKind = metricGauge | metricCounter

fun kind_text :: "metricKind \<Rightarrow> string" where
  "kind_text metricGauge = ''gauge''"
| "kind_text metricCounter = ''counter''"

definition label_char :: "char \<Rightarrow> string" where
  "label_char c =
     (if c = bslash then [bslash, bslash] else if c = dquote then [bslash, dquote]
      else if c = CHR 0x0A then [bslash, CHR ''n''] else if (of_char c :: nat) < 32 then [] else [c])"

text \<open>The loop runs over the runes of the string; a byte that belongs to none is the replacement character.\<close>

function escapeLabelValue :: "string \<Rightarrow> string" where
  "escapeLabelValue s =
     (if s = [] then []
      else if utf8_len s = 0 then replacement_char @ escapeLabelValue (tl s)
      else if utf8_len s = 1 then label_char (hd s) @ escapeLabelValue (tl s)
      else take (utf8_len s) s @ escapeLabelValue (drop (utf8_len s) s))"
  by pat_completeness auto
termination by (relation "measure length") auto

declare escapeLabelValue.simps [simp del]

record expenv =
  exFloat :: float_ops
  exG :: "rat \<Rightarrow> string"

definition label_text :: "string \<times> string \<Rightarrow> string" where
  "label_text = (\<lambda>(k, v). k @ ''='' @ [dquote] @ escapeLabelValue v @ [dquote])"

definition writeHelp :: "string \<Rightarrow> string \<Rightarrow> metricKind \<Rightarrow> string" where
  "writeHelp name help mkind =
     ''# HELP '' @ name @ '' '' @ help @ nl @ ''# TYPE '' @ name @ '' '' @ kind_text mkind @ nl"

definition writeMetric :: "expenv \<Rightarrow> string \<Rightarrow> (string \<times> string) list \<Rightarrow> rat \<Rightarrow> string" where
  "writeMetric env name labels value =
     (if labels = [] then name @ '' '' @ exG env value @ nl
      else name @ ''{'' @ Join (map label_text (sort_key fst labels)) '','' @ ''}'' @ '' '' @ exG env value @ nl)"

definition clientLabels :: "ClientBandwidthMetric \<Rightarrow> (string \<times> string) list" where
  "clientLabels c = [(''mac'', cbMAC c), (''hostname'', if cbHostname c = [] then ''unknown'' else cbHostname c)]"

text \<open>A family: its name, help text and kind, and the labels and values of its samples.\<close>

record family =
  fmName :: string
  fmHelp :: string
  fmKind :: metricKind
  fmSamples :: "((string \<times> string) list \<times> rat) list"

definition family_text :: "expenv \<Rightarrow> family \<Rightarrow> string" where
  "family_text env f = writeHelp (fmName f) (fmHelp f) (fmKind f) @
     concat (map (\<lambda>(ls, v). writeMetric env (fmName f) ls v) (fmSamples f))"

abbreviation fam :: "string \<Rightarrow> string \<Rightarrow> metricKind \<Rightarrow> ((string \<times> string) list \<times> rat) list \<Rightarrow> family" where
  "fam n h k ss \<equiv> \<lparr>fmName = n, fmHelp = h, fmKind = k, fmSamples = ss\<rparr>"

definition one :: "rat \<Rightarrow> ((string \<times> string) list \<times> rat) list" where
  "one v = [([], v)]"

definition of_u :: "expenv \<Rightarrow> nat \<Rightarrow> rat" where
  "of_u env n = f_round (exFloat env) (of_nat n)"

definition of_i :: "expenv \<Rightarrow> goint \<Rightarrow> rat" where
  "of_i env n = f_round (exFloat env) (of_int n)"

definition system_families :: "expenv \<Rightarrow> MetricsSnapshot \<Rightarrow> family list" where
  "system_families env snap =
     (if msBuildVersion snap \<noteq> [] \<or> msBuildCommit snap \<noteq> []
      then [fam ''lankeeper_build_info'' ''Build version and commit reported by the running binary.'' metricGauge
              [([(''version'', msBuildVersion snap), (''commit'', msBuildCommit snap)], 1)]] else []) @
     [fam ''lankeeper_uptime_seconds'' ''Process uptime since last restart.'' metricGauge (one (msUptimeSeconds snap)),
      fam ''lankeeper_cpu_percent'' ''Current system-wide CPU usage in percent (0-100).'' metricGauge (one (msCPUPercent snap)),
      fam ''lankeeper_memory_total_bytes'' ''Total system memory in bytes.'' metricGauge (one (of_u env (msMemoryTotal snap))),
      fam ''lankeeper_memory_used_bytes'' ''Resident system memory in bytes.'' metricGauge (one (of_u env (msMemoryUsed snap))),
      fam ''lankeeper_temperature_celsius'' ''Hottest CPU/SoC sensor reading; 0 when no sensor is available.'' metricGauge (one (msTemperature snap))] @
     (if msInterfaces snap \<noteq> []
      then [fam ''lankeeper_interface_rx_bytes_total'' ''Cumulative bytes received per OS interface.'' metricCounter
              (map (\<lambda>i. ([(''device'', imDevice i)], of_u env (imRxBytes i))) (msInterfaces snap)),
            fam ''lankeeper_interface_tx_bytes_total'' ''Cumulative bytes transmitted per OS interface.'' metricCounter
              (map (\<lambda>i. ([(''device'', imDevice i)], of_u env (imTxBytes i))) (msInterfaces snap))] else [])"

definition dns_families :: "expenv \<Rightarrow> MetricsSnapshot \<Rightarrow> family list" where
  "dns_families env snap =
     [fam ''lankeeper_dhcp_active_leases'' ''Number of currently active DHCP leases.'' metricGauge (one (of_i env (msDHCPLeases snap))),
      fam ''lankeeper_dns_queries_total'' ''Total DNS queries served by Unbound.'' metricCounter (one (of_u env (msDNSQueriesTotal snap))),
      fam ''lankeeper_dns_cache_hits_total'' ''Total DNS cache hits.'' metricCounter (one (of_u env (msDNSCacheHitsTotal snap))),
      fam ''lankeeper_dns_cache_misses_total'' ''Total DNS cache misses.'' metricCounter (one (of_u env (msDNSCacheMissesTotal snap))),
      fam ''lankeeper_dns_blocked_total'' ''Total DNS responses that hit a blocklist.'' metricCounter (one (of_u env (msDNSBlockedTotal snap)))]"

definition client_families :: "expenv \<Rightarrow> MetricsSnapshot \<Rightarrow> family list" where
  "client_families env snap =
     (if msClients snap \<noteq> []
      then [fam ''lankeeper_client_rx_bytes_total'' ''Cumulative bytes received from each LAN client (post-NAT).'' metricCounter
              (map (\<lambda>c. (clientLabels c, of_u env (cbRxBytes c))) (msClients snap)),
            fam ''lankeeper_client_tx_bytes_total'' ''Cumulative bytes transmitted to each LAN client.'' metricCounter
              (map (\<lambda>c. (clientLabels c, of_u env (cbTxBytes c))) (msClients snap)),
            fam ''lankeeper_client_rx_bps'' ''Instantaneous bytes-per-second received from each LAN client.'' metricGauge
              (map (\<lambda>c. (clientLabels c, of_u env (cbRxBPS c))) (msClients snap)),
            fam ''lankeeper_client_tx_bps'' ''Instantaneous bytes-per-second transmitted to each LAN client.'' metricGauge
              (map (\<lambda>c. (clientLabels c, of_u env (cbTxBPS c))) (msClients snap))] else [])"

definition wg_families :: "expenv \<Rightarrow> MetricsSnapshot \<Rightarrow> family list" where
  "wg_families env snap =
     (if msWGPeers snap \<noteq> []
      then (let row = (\<lambda>f. map (\<lambda>p. ([(''peer'', wmName p)], f p)) (msWGPeers snap)) in
        [fam ''lankeeper_wireguard_peer_online'' (''1 when the WireGuard peer'' @ [CHR 0x27] @ ''s last handshake is younger than 180s.'') metricGauge
           (row (\<lambda>p. of_i env (wmOnline p))),
         fam ''lankeeper_wireguard_peer_handshake_age_seconds''
           (''Seconds since the WireGuard peer'' @ [CHR 0x27] @ ''s last handshake; -1 means never.'') metricGauge (row (\<lambda>p. of_i env (wmHandshakeAge p))),
         fam ''lankeeper_wireguard_peer_rx_bytes_total'' ''Cumulative bytes received from the WireGuard peer.'' metricCounter (row (\<lambda>p. of_u env (wmRxBytes p))),
         fam ''lankeeper_wireguard_peer_tx_bytes_total'' ''Cumulative bytes transmitted to the WireGuard peer.'' metricCounter (row (\<lambda>p. of_u env (wmTxBytes p)))])
      else []) @
     (if msS2SPeers snap \<noteq> []
      then [fam ''lankeeper_s2s_peer_online'' (''1 when the site-to-site peer'' @ [CHR 0x27] @ ''s last handshake is younger than 180s.'') metricGauge
              (map (\<lambda>p. ([(''peer'', smName p)], of_i env (smOnline p))) (msS2SPeers snap)),
            fam ''lankeeper_s2s_peer_handshake_age_seconds'' (''Seconds since the S2S peer'' @ [CHR 0x27] @ ''s last handshake; -1 means never.'') metricGauge
              (map (\<lambda>p. ([(''peer'', smName p)], of_i env (smHandshakeAge p))) (msS2SPeers snap))] else [])"

definition state_families :: "expenv \<Rightarrow> MetricsSnapshot \<Rightarrow> family list" where
  "state_families env snap =
     [fam ''lankeeper_openvpn_active_sessions'' ''Currently connected OpenVPN clients.'' metricGauge (one (of_i env (msOpenVPNPeers snap))),
      fam ''lankeeper_backup_last_run_timestamp'' ''UNIX timestamp of the most recent backup attempt.'' metricGauge (one (of_i env (msBackupLastRunUnix snap))),
      fam ''lankeeper_backup_last_status_ok'' ''1 when the most recent backup completed successfully.'' metricGauge (one (of_i env (msBackupLastStatusOK snap))),
      fam ''lankeeper_backup_history_total'' ''Backup history ring-buffer size (max 50).'' metricGauge (one (of_i env (msBackupHistorySize snap))),
      fam ''lankeeper_pppoe_connected'' ''1 when pppd is running for the configured PPPoE peer.'' metricGauge (one (of_i env (msPPPoEConnected snap))),
      fam ''lankeeper_ipv6_active'' ''1 when an IPv6 plane (PD or 6in4) is enabled.'' metricGauge (one (of_i env (msIPv6Active snap))),
      fam ''lankeeper_ipv6_mode_info'' ''Info-style metric carrying the configured IPv6 mode as a label.'' metricGauge [([(''mode'', msIPv6Mode snap)], 1)],
      fam ''lankeeper_firewall_active'' ''1 when nftables ruleset is loaded.'' metricGauge (one (of_i env (msFirewallActive snap)))]"

definition families :: "expenv \<Rightarrow> MetricsSnapshot \<Rightarrow> family list" where
  "families env snap = system_families env snap @ dns_families env snap @ client_families env snap @ wg_families env snap @ state_families env snap"

definition metrics_Write :: "expenv \<Rightarrow> MetricsSnapshot \<Rightarrow> string" where
  "metrics_Write env snap = concat (map (family_text env) (families env snap))"

section \<open>Reading\<close>

text \<open>A label value: up to the first quotation mark that is not escaped.\<close>

fun read_value :: "string \<Rightarrow> (string \<times> string) option" where
  "read_value [] = None"
| "read_value (c # s) =
     (if c = dquote then Some ([], s)
      else if c = bslash
      then (case s of
          e # r \<Rightarrow>
            if e = CHR ''n'' then map_option (apfst ((#) (CHR 0x0A))) (read_value r)
            else if e = bslash \<or> e = dquote then map_option (apfst ((#) e)) (read_value r)
            else None
        | [] \<Rightarrow> None)
      else map_option (apfst ((#) c)) (read_value s))"

function read_labels :: "string \<Rightarrow> ((string \<times> string) list \<times> string) option" where
  "read_labels s =
     (let k = takeWhile (\<lambda>c. c \<noteq> CHR ''='') s in
      case drop (length k) s of
        e # q # r \<Rightarrow>
          if q \<noteq> dquote then None
          else (case read_value r of
              Some (v, d # rest) \<Rightarrow>
                if length rest \<ge> length s then None
                else if d = CHR '','' then map_option (apfst ((#) (k, v))) (read_labels rest)
                else if d = CHR ''}'' then Some ([(k, v)], rest)
                else None
            | _ \<Rightarrow> None)
      | _ \<Rightarrow> None)"
  by pat_completeness auto
termination by (relation "measure length") auto

declare read_labels.simps [simp del]

definition read_sample :: "string \<Rightarrow> (string \<times> (string \<times> string) list \<times> string) option" where
  "read_sample line =
     (let name = takeWhile (\<lambda>c. c \<noteq> CHR ''{'' \<and> c \<noteq> CHR '' '') line in
      case drop (length name) line of
        [] \<Rightarrow> None
      | c # r \<Rightarrow>
          if c = CHR '' '' then Some (name, [], r)
          else (case read_labels r of Some (ls, b # v) \<Rightarrow> if b = CHR '' '' then Some (name, ls, v) else None | _ \<Rightarrow> None))"

definition read_exposition :: "string \<Rightarrow> (string \<times> (string \<times> string) list \<times> string) list option" where
  "read_exposition s = those (map read_sample (filter (\<lambda>l. l \<noteq> [] \<and> hd l \<noteq> CHR ''#'') (Split s (CHR 0x0A))))"

text \<open>What a label value can still say: control bytes other than the line feed are dropped, stray bytes replaced.\<close>

function clean :: "string \<Rightarrow> string" where
  "clean s =
     (if s = [] then []
      else if utf8_len s = 0 then replacement_char @ clean (tl s)
      else if utf8_len s = 1 then (if (of_char (hd s) :: nat) < 32 \<and> hd s \<noteq> CHR 0x0A then [] else [hd s]) @ clean (tl s)
      else take (utf8_len s) s @ clean (drop (utf8_len s) s))"
  by pat_completeness auto
termination by (relation "measure length") auto

declare clean.simps [simp del]

section \<open>The text says what the snapshot holds\<close>

definition high :: "char \<Rightarrow> bool" where
  "high c \<longleftrightarrow> (of_char c :: nat) \<ge> 128"

lemma high_plain: "high c \<Longrightarrow> c \<noteq> dquote \<and> c \<noteq> bslash \<and> c \<noteq> CHR 0x0A"
  by (auto simp: high_def dquote_def bslash_def)

lemma cont_high: "cont_byte lo hi c \<Longrightarrow> 128 \<le> lo \<Longrightarrow> high c"
  by (simp add: cont_byte_def high_def)

lemma utf8_len_first: "utf8_len (a # r) \<noteq> 1 \<Longrightarrow> high a"
proof (rule ccontr)
  assume "\<not> high a" "utf8_len (a # r) \<noteq> 1"
  then show False by (simp add: utf8_len_def high_def Let_def)
qed

text \<open>The bytes after the first: each is a continuation byte.\<close>

lemma utf8_multi_high: "utf8_len s \<noteq> 1 \<Longrightarrow> list_all high (take (utf8_len s) s)"
proof (cases s)
  case s: (Cons a r)
  assume n1: "utf8_len s \<noteq> 1"
  define b where "b = (of_char a :: nat)"
  define c2 where "c2 = (\<lambda>lo hi. (case r of x # _ \<Rightarrow> cont_byte lo hi x | [] \<Rightarrow> False))"
  define c3 where "c3 = (case r of _ # y # _ \<Rightarrow> cont_byte 128 191 y | _ \<Rightarrow> False)"
  define c4 where "c4 = (case r of _ # _ # z # _ \<Rightarrow> cont_byte 128 191 z | _ \<Rightarrow> False)"
  define h2 where "h2 \<longleftrightarrow> (\<exists>x xs. r = x # xs \<and> high x)"
  have len: "utf8_len s = (if b < 128 then 1
            else if 194 \<le> b \<and> b \<le> 223 then (if c2 128 191 then 2 else 0)
            else if b = 224 then (if c2 160 191 \<and> c3 then 3 else 0)
            else if b = 237 then (if c2 128 159 \<and> c3 then 3 else 0)
            else if 225 \<le> b \<and> b \<le> 239 then (if c2 128 191 \<and> c3 then 3 else 0)
            else if b = 240 then (if c2 144 191 \<and> c3 \<and> c4 then 4 else 0)
            else if 241 \<le> b \<and> b \<le> 243 then (if c2 128 191 \<and> c3 \<and> c4 then 4 else 0)
            else if b = 244 then (if c2 128 143 \<and> c3 \<and> c4 then 4 else 0)
            else 0)"
    by (simp add: s utf8_len_def b_def c2_def c3_def c4_def Let_def)
  have h2: "c2 128 191 \<Longrightarrow> h2" "c2 160 191 \<Longrightarrow> h2" "c2 128 159 \<Longrightarrow> h2" "c2 144 191 \<Longrightarrow> h2" "c2 128 143 \<Longrightarrow> h2"
    by (auto simp: c2_def h2_def cont_high split: list.splits)
  have h3: "\<exists>x y ys. r = x # y # ys \<and> high y" if c3 using that by (auto simp: c3_def cont_high split: list.splits)
  have h4: "\<exists>x y z zs. r = x # y # z # zs \<and> high z" if c4 using that by (auto simp: c4_def cont_high split: list.splits)
  have first: "high a" using n1 s utf8_len_first by simp
  define Q :: "nat \<Rightarrow> bool" where "Q n \<longleftrightarrow> n = 0 \<or> n = 1 \<or> n = 2 \<and> h2 \<or> n = 3 \<and> h2 \<and> c3 \<or> n = 4 \<and> h2 \<and> c3 \<and> c4" for n
  have Q: "Q 0" "Q 1" "h2 \<Longrightarrow> Q 2" "h2 \<and> c3 \<Longrightarrow> Q 3" "h2 \<and> c3 \<and> c4 \<Longrightarrow> Q 4" by (simp_all add: Q_def)
  have Q_if: "(c \<Longrightarrow> Q x) \<Longrightarrow> (\<not> c \<Longrightarrow> Q y) \<Longrightarrow> Q (if c then x else y)" for c x y by simp
  have "Q (utf8_len s)" unfolding len by (intro Q_if Q) (use h2 in blast)+
  then consider "utf8_len s = 0" | "utf8_len s = 2" h2 | "utf8_len s = 3" h2 c3 | "utf8_len s = 4" h2 c3 c4
    using n1 unfolding Q_def by auto
  then show ?thesis
    by cases (use first h3 h4 in \<open>auto simp: s h2_def numeral_eq_Suc\<close>)
qed simp

lemma replacement_high: "list_all high replacement_char"
  by (simp add: replacement_char_def high_def)

lemma read_value_high: "list_all high xs \<Longrightarrow> read_value (xs @ t) = map_option (apfst ((@) xs)) (read_value t)"
proof (induction xs)
  case (Cons c xs)
  then show ?case using high_plain [of c] by (cases "read_value t") (auto simp: apfst_def)
qed (cases "read_value t", auto)

lemma read_value_label_char:
  "read_value (label_char c @ t) =
     map_option (apfst ((@) (if (of_char c :: nat) < 32 \<and> c \<noteq> CHR 0x0A then [] else [c]))) (read_value t)"
proof -
  consider "c = bslash" | "c = dquote" | "c = CHR 0x0A" | "(of_char c :: nat) < 32" "c \<noteq> CHR 0x0A" "c \<noteq> bslash" "c \<noteq> dquote"
    | "\<not> (of_char c :: nat) < 32" "c \<noteq> CHR 0x0A" "c \<noteq> bslash" "c \<noteq> dquote" by blast
  then show ?thesis
    by cases (auto simp: label_char_def bslash_def dquote_def apfst_def map_prod_def option.map_comp comp_def option.map_id0 split: option.splits)
qed

lemma read_value_escape: "read_value (escapeLabelValue s @ dquote # rest) = Some (clean s, rest)"
proof (induction s rule: escapeLabelValue.induct)
  case (1 s)
  consider "s = []" | "s \<noteq> []" "utf8_len s = 0" | "s \<noteq> []" "utf8_len s = 1" | "s \<noteq> []" "utf8_len s \<noteq> 0" "utf8_len s \<noteq> 1" by blast
  then show ?case
  proof cases
    case 1
    then show ?thesis by (simp add: escapeLabelValue.simps clean.simps)
  next
    case c: 2
    then show ?thesis using 1(1) read_value_high [OF replacement_high] by (simp add: escapeLabelValue.simps [of s] clean.simps [of s])
  next
    case c: 3
    then show ?thesis using 1(2) read_value_label_char [of "hd s"] by (simp add: escapeLabelValue.simps [of s] clean.simps [of s])
  next
    case c: 4
    then show ?thesis using 1(3) read_value_high [OF utf8_multi_high [OF c(3)]]
      by (simp add: escapeLabelValue.simps [of s] clean.simps [of s])
  qed
qed

lemma escape_no_lf: "CHR 0x0A \<notin> set (escapeLabelValue s)"
proof (induction s rule: escapeLabelValue.induct)
  case (1 s)
  have hi: "CHR 0x0A \<notin> set xs" if "list_all high xs" for xs using that high_plain by (auto simp: list_all_iff)
  have esc: "CHR 0x0A \<notin> set (label_char c)" for c by (auto simp: label_char_def bslash_def dquote_def)
  consider "s = []" | "s \<noteq> []" "utf8_len s = 0" | "s \<noteq> []" "utf8_len s = 1" | "s \<noteq> []" "utf8_len s \<noteq> 0" "utf8_len s \<noteq> 1" by blast
  then show ?case
  proof cases
    case 1
    then show ?thesis by (simp add: escapeLabelValue.simps)
  qed (use 1 hi [OF replacement_high] esc [of "hd s"] hi [OF utf8_multi_high [of s]] in \<open>simp_all add: escapeLabelValue.simps [of s]\<close>)
qed

text \<open>Keys of labels are plain words of the program.\<close>

definition key_ok :: "string \<times> string \<Rightarrow> bool" where
  "key_ok l \<longleftrightarrow> CHR ''='' \<notin> set (fst l) \<and> CHR 0x0A \<notin> set (fst l)"

lemma read_labels_step:
  assumes "key_ok l"
  shows "read_labels (label_text l @ d # rest) =
    (if d = CHR '','' then map_option (apfst ((#) (fst l, clean (snd l)))) (read_labels rest)
     else if d = CHR ''}'' then Some ([(fst l, clean (snd l))], rest) else None)"
proof -
  obtain k v where l: "l = (k, v)" by fastforce
  have k: "takeWhile (\<lambda>c. c \<noteq> CHR ''='') (k @ CHR ''='' # r) = k" for r
    using assms l by (subst takeWhile_append2) (auto simp: key_ok_def)
  have "label_text l @ d # rest = k @ CHR ''='' # dquote # (escapeLabelValue v @ dquote # d # rest)" by (simp add: label_text_def l)
  then show ?thesis using read_value_escape [of v "d # rest"] by (subst read_labels.simps) (simp add: k l Let_def)
qed

lemma read_labels_all:
  assumes "ls \<noteq> []" "list_all key_ok ls"
  shows "read_labels (Join (map label_text ls) '','' @ CHR ''}'' # rest) = Some (map (apsnd clean) ls, rest)"
  using assms
proof (induction ls)
  case (Cons l ls)
  show ?case
  proof (cases "ls = []")
    case True
    then show ?thesis using read_labels_step [of l "CHR ''}''" rest] Cons.prems by (cases l) simp
  next
    case False
    then have "Join (map label_text (l # ls)) '','' @ CHR ''}'' # rest =
        label_text l @ CHR '','' # (Join (map label_text ls) '','' @ CHR ''}'' # rest)" by (simp add: Join_Cons)
    then show ?thesis using read_labels_step [of l "CHR '',''"] Cons False by (cases l) simp
  qed
qed simp

definition name_ok :: "string \<Rightarrow> bool" where
  "name_ok n \<longleftrightarrow> n \<noteq> [] \<and> hd n \<noteq> CHR ''#'' \<and> set n \<inter> {CHR ''{'', CHR '' '', CHR 0x0A} = {}"

definition no_lf :: "string \<Rightarrow> bool" where
  "no_lf s \<longleftrightarrow> CHR 0x0A \<notin> set s"

text \<open>The line of a sample, without its line feed.\<close>

definition sample_line :: "expenv \<Rightarrow> string \<Rightarrow> (string \<times> string) list \<Rightarrow> rat \<Rightarrow> string" where
  "sample_line env name labels value =
     name @ (if labels = [] then [] else ''{'' @ Join (map label_text (sort_key fst labels)) '','' @ ''}'') @ '' '' @ exG env value"

lemma writeMetric_line: "writeMetric env name labels value = sample_line env name labels value @ nl"
  by (simp add: writeMetric_def sample_line_def)

lemma label_text_no_lf: "key_ok l \<Longrightarrow> no_lf (label_text l)"
  using escape_no_lf [of "snd l"] by (auto simp: label_text_def key_ok_def no_lf_def dquote_def split: prod.splits)

lemma Join_no_lf: "list_all no_lf ps \<Longrightarrow> no_lf (Join ps '','')"
proof (induction ps)
  case (Cons p ps)
  then show ?case by (cases ps) (auto simp: no_lf_def Join_Cons)
qed (simp add: no_lf_def)

lemma sorted_labels: "list_all P (sort_key fst (ls :: (string \<times> string) list)) = list_all P ls"
  by (simp add: list_all_iff)

lemma sample_line_no_lf:
  assumes "name_ok name" "list_all key_ok labels" "no_lf (exG env value)"
  shows "no_lf (sample_line env name labels value)"
proof -
  have "no_lf (Join (map label_text (sort_key fst labels)) '','')"
    using assms(2) by (intro Join_no_lf) (auto simp: list_all_iff label_text_no_lf)
  then show ?thesis using assms(1,3) by (auto simp: sample_line_def no_lf_def name_ok_def)
qed

lemma read_sample_line:
  assumes "name_ok name" "list_all key_ok labels"
  shows "read_sample (sample_line env name labels value) = Some (name, map (apsnd clean) (sort_key fst labels), exG env value)"
proof -
  have n: "takeWhile (\<lambda>c. c \<noteq> CHR ''{'' \<and> c \<noteq> CHR '' '') (name @ c # r) = name" if "c = CHR ''{'' \<or> c = CHR '' ''" for c r
    using assms(1) that by (subst takeWhile_append2) (auto simp: name_ok_def)
  show ?thesis
  proof (cases "labels = []")
    case True
    then show ?thesis by (simp add: sample_line_def read_sample_def n Let_def)
  next
    case False
    then have "sort_key fst labels \<noteq> []" by (metis length_0_conv length_sort)
    from read_labels_all [OF this, of "'' '' @ exG env value"] False show ?thesis
      using assms(2) by (simp add: sample_line_def read_sample_def n Let_def sorted_labels)
  qed
qed

text \<open>A text of lines, and the samples in it.\<close>

lemma Split_lines: "list_all no_lf ls \<Longrightarrow> Split (concat (map (\<lambda>l. l @ nl) ls)) (CHR 0x0A) = ls @ [[]]"
  by (induction ls) (simp_all add: nl_def no_lf_def Split_append_sep)

definition family_lines :: "expenv \<Rightarrow> family \<Rightarrow> string list" where
  "family_lines env f = [''# HELP '' @ fmName f @ '' '' @ fmHelp f, ''# TYPE '' @ fmName f @ '' '' @ kind_text (fmKind f)] @
     map (\<lambda>(ls, v). sample_line env (fmName f) ls v) (fmSamples f)"

lemma family_text_lines: "family_text env f = concat (map (\<lambda>l. l @ nl) (family_lines env f))"
  by (simp add: family_text_def family_lines_def writeHelp_def writeMetric_line case_prod_unfold comp_def)

definition family_ok :: "family \<Rightarrow> bool" where
  "family_ok f \<longleftrightarrow> name_ok (fmName f) \<and> no_lf (fmHelp f) \<and> list_all (\<lambda>(ls, v). list_all key_ok ls) (fmSamples f)"

definition family_samples :: "expenv \<Rightarrow> family \<Rightarrow> (string \<times> (string \<times> string) list \<times> string) list" where
  "family_samples env f = map (\<lambda>(ls, v). (fmName f, map (apsnd clean) (sort_key fst ls), exG env v)) (fmSamples f)"

lemma family_lines_no_lf:
  assumes "family_ok f" "\<And>v. no_lf (exG env v)"
  shows "list_all no_lf (family_lines env f)"
proof -
  have "list_all no_lf (map (\<lambda>(ls, v). sample_line env (fmName f) ls v) (fmSamples f))"
    using assms sample_line_no_lf by (fastforce simp: family_ok_def list_all_iff)
  moreover have "no_lf (kind_text (fmKind f))" by (cases "fmKind f") (simp_all add: no_lf_def)
  ultimately show ?thesis using assms(1) by (auto simp: family_lines_def family_ok_def no_lf_def name_ok_def)
qed

lemma sample_line_start: "name_ok n \<Longrightarrow> sample_line env n ls v \<noteq> [] \<and> hd (sample_line env n ls v) \<noteq> CHR ''#''"
  by (cases n) (auto simp: name_ok_def sample_line_def)

lemma read_family:
  assumes "family_ok f"
  shows "map read_sample (filter (\<lambda>l. l \<noteq> [] \<and> hd l \<noteq> CHR ''#'') (family_lines env f)) = map Some (family_samples env f)"
proof -
  have "read_sample (sample_line env (fmName f) (fst s) (snd s)) = Some (fmName f, map (apsnd clean) (sort_key fst (fst s)), exG env (snd s))"
    if "s \<in> set (fmSamples f)" for s
    using assms that by (intro read_sample_line) (auto simp: family_ok_def list_all_iff)
  moreover have "filter (\<lambda>l. l \<noteq> [] \<and> hd l \<noteq> CHR ''#'') (map (\<lambda>(ls, v). sample_line env (fmName f) ls v) (fmSamples f)) =
      map (\<lambda>(ls, v). sample_line env (fmName f) ls v) (fmSamples f)"
    using assms sample_line_start by (auto simp: family_ok_def filter_id_conv)
  ultimately show ?thesis by (auto simp: family_lines_def family_samples_def)
qed

lemma read_families:
  assumes "list_all family_ok fs"
  shows "map read_sample (filter (\<lambda>l. l \<noteq> [] \<and> hd l \<noteq> CHR ''#'') (concat (map (family_lines env) fs))) = map Some (concat (map (family_samples env) fs))"
  using assms by (induction fs) (simp_all add: read_family)

lemma those_Some [simp]: "those (map Some xs) = Some xs"
  by (induction xs) simp_all

lemma families_lines: "concat (map (family_text env) fs) = concat (map (\<lambda>l. l @ nl) (concat (map (family_lines env) fs)))"
  by (induction fs) (simp_all add: family_text_lines)

lemma families_ok: "list_all family_ok (families env snap)"
proof -
  have "list_all family_ok (system_families env snap)"
    by (auto simp: system_families_def family_ok_def name_ok_def no_lf_def key_ok_def one_def list_all_iff)
  moreover have "list_all family_ok (dns_families env snap)"
    by (auto simp: dns_families_def family_ok_def name_ok_def no_lf_def key_ok_def one_def list_all_iff)
  moreover have "list_all family_ok (client_families env snap)"
    by (auto simp: client_families_def clientLabels_def family_ok_def name_ok_def no_lf_def key_ok_def list_all_iff)
  moreover have "list_all family_ok (wg_families env snap)"
    by (auto simp: wg_families_def family_ok_def name_ok_def no_lf_def key_ok_def list_all_iff Let_def)
  moreover have "list_all family_ok (state_families env snap)"
    by (auto simp: state_families_def family_ok_def name_ok_def no_lf_def key_ok_def one_def list_all_iff)
  ultimately show ?thesis by (simp add: families_def)
qed

lemma distinct_subseq: "subseq xs ys \<Longrightarrow> distinct ys \<Longrightarrow> distinct xs"
proof (induction rule: list_emb.induct)
  case (list_emb_Cons2 x y xs ys)
  then show ?case using list_emb_set [of "(=)" xs ys x] by auto
qed auto

text \<open>Every snapshot announces some of these families, in this order.\<close>

definition family_names :: "string list" where
  "family_names = map fmName (families \<lparr>exFloat = \<lparr>f_round = id, f_fused = False\<rparr>, exG = (\<lambda>_. [])\<rparr>
     (zero_MetricsSnapshot\<lparr>msBuildVersion := ''x'', msInterfaces := [\<lparr>imDevice = [], imRxBytes = 0, imTxBytes = 0\<rparr>],
        msClients := [\<lparr>cbMAC = [], cbHostname = [], cbRxBytes = 0, cbTxBytes = 0, cbRxBPS = 0, cbTxBPS = 0\<rparr>],
        msWGPeers := [\<lparr>wmName = [], wmHandshakeAge = 0, wmOnline = 0, wmRxBytes = 0, wmTxBytes = 0\<rparr>],
        msS2SPeers := [\<lparr>smName = [], smHandshakeAge = 0, smOnline = 0, smRxBytes = 0, smTxBytes = 0\<rparr>]\<rparr>))"

lemma family_names_distinct: "distinct family_names"
  unfolding family_names_def families_def system_families_def dns_families_def client_families_def wg_families_def state_families_def Let_def
  by code_simp

lemma families_subseq: "subseq (map fmName (families env snap)) family_names"
  unfolding family_names_def families_def system_families_def dns_families_def client_families_def wg_families_def state_families_def map_append
  by (intro list_emb_append_mono) (simp_all add: Let_def)

text \<open>
  C38. The metrics page cannot be forged by names: whatever the host names, peer names, device names and versions
  in the snapshot, control bytes, quotation marks, backslashes and bytes that are no text included, a reader
  of the exposition format gets exactly the samples of the snapshot, in order, with their label values
  (control bytes dropped, stray bytes replaced) and the printed numbers, and each family of samples is
  announced once.
\<close>

theorem exposition_roundtrip:
  assumes "\<And>v. no_lf (exG env v)"
  shows "read_exposition (metrics_Write env snap) = Some (concat (map (family_samples env) (families env snap))) \<and>
    distinct (map fmName (families env snap))"
proof
  let ?fs = "families env snap"
  have "list_all no_lf (concat (map (family_lines env) ?fs))"
    using families_ok [of env snap] family_lines_no_lf [OF _ assms] by (auto simp: list_all_iff)
  then have "Split (metrics_Write env snap) (CHR 0x0A) = concat (map (family_lines env) ?fs) @ [[]]"
    unfolding metrics_Write_def families_lines by (rule Split_lines)
  then show "read_exposition (metrics_Write env snap) = Some (concat (map (family_samples env) ?fs))"
    unfolding read_exposition_def by (simp add: read_families [OF families_ok])
  show "distinct (map fmName ?fs)" by (rule distinct_subseq [OF families_subseq family_names_distinct])
qed

definition forged_name :: string where
  "forged_name = ''x'' @ [dquote] @ ''} 1'' @ nl @ ''fake 1''"

theorem exposition_roundtrip_witness:
  "\<exists>ss. read_exposition (metrics_Write \<lparr>exFloat = \<lparr>f_round = id, f_fused = False\<rparr>, exG = (\<lambda>_. ''1'')\<rparr> (zero_MetricsSnapshot\<lparr>msInterfaces := [\<lparr>imDevice = forged_name, imRxBytes = 1, imTxBytes = 1\<rparr>]\<rparr>)) = Some ss \<and>
     (''lankeeper_interface_rx_bytes_total'', [(''device'', clean forged_name)], ''1'') \<in> set ss"
  using exposition_roundtrip [of "\<lparr>exFloat = \<lparr>f_round = id, f_fused = False\<rparr>, exG = (\<lambda>_. ''1'')\<rparr>"
      "zero_MetricsSnapshot\<lparr>msInterfaces := [\<lparr>imDevice = forged_name, imRxBytes = 1, imTxBytes = 1\<rparr>]\<rparr>"]
  by (simp add: no_lf_def families_def system_families_def family_samples_def)

end
