(* ===== verification/Metrics.thy ===== *)
theory Metrics
  imports Exposition SiteToSite DNSRun HandlersNetwork Storage
begin

text \<open>
  Where the metrics come from (\<^verbatim>\<open>internal/services/metrics.go\<close>, \<^verbatim>\<open>metrics_collectors.go\<close>): the snapshot is
  composed of what the other services report, a service that is missing or fails leaving its part at zero.
  Then the handlers of \<^verbatim>\<open>handlers/metrics.go\<close>, \<^verbatim>\<open>handlers/dashboard.go\<close> and \<^verbatim>\<open>handlers/storage.go\<close>.
\<close>

section \<open>Interfaces\<close>

text \<open>
  Iteration over a map gives its entries in any order; the loops then exchange entries until the devices
  are in order. One run of the inner loop over the entries after a position:
\<close>

fun exchange_pass :: "IfaceMetric \<Rightarrow> IfaceMetric list \<Rightarrow> IfaceMetric \<times> IfaceMetric list" where
  "exchange_pass x [] = (x, [])"
| "exchange_pass x (y # ys) =
     (if imDevice y < imDevice x then (case exchange_pass y ys of (m, zs) \<Rightarrow> (m, x # zs))
      else (case exchange_pass x ys of (m, zs) \<Rightarrow> (m, y # zs)))"

lemma exchange_pass_length: "length (snd (exchange_pass x ys)) = length ys"
  by (induction x ys rule: exchange_pass.induct) (auto split: prod.splits)

function exchange_sort :: "IfaceMetric list \<Rightarrow> IfaceMetric list" where
  "exchange_sort [] = []"
| "exchange_sort (x # xs) = fst (exchange_pass x xs) # exchange_sort (snd (exchange_pass x xs))"
  by pat_completeness auto
termination by (relation "measure length") (auto simp: exchange_pass_length)

definition iface_metric :: "string \<times> IfaceStats \<Rightarrow> IfaceMetric" where
  "iface_metric = (\<lambda>(dev, st). \<lparr>imDevice = dev, imRxBytes = isRxTotal st, imTxBytes = isTxTotal st\<rparr>)"

definition ifaceMetricsFromMonitor :: "(string, IfaceStats) gomap \<Rightarrow> IfaceMetric list" where
  "ifaceMetricsFromMonitor m = exchange_sort (map iface_metric m)"

section \<open>Collectors\<close>

record wgDumpRow =
  wdPubKey :: string
  wdLastHandshake :: goint
  wdRxBytes :: nat
  wdTxBytes :: nat

definition dump_row :: "string \<Rightarrow> wgDumpRow option" where
  "dump_row line =
     (let fs = Split line (CHR 0x09) in
      if length fs < 8 then None
      else Some \<lparr>wdPubKey = fs ! 0, wdLastHandshake = scan_int64 (fs ! 4), wdRxBytes = scan_uint64 (fs ! 5), wdTxBytes = scan_uint64 (fs ! 6)\<rparr>)"

definition parseWGDump :: "string \<Rightarrow> string \<rightharpoonup> wgDumpRow" where
  "parseWGDump out = foldl (\<lambda>m line. case dump_row line of None \<Rightarrow> m | Some row \<Rightarrow> m(wdPubKey row \<mapsto> row)) Map.empty (tl (Split out (CHR 0x0A)))"

definition wg_peer_metric :: "goint \<Rightarrow> (string \<rightharpoonup> wgDumpRow) \<Rightarrow> WGServerPeer \<Rightarrow> WGPeerMetric" where
  "wg_peer_metric now dump p =
     (let m = \<lparr>wmName = wgpName p, wmHandshakeAge = -1, wmOnline = 0, wmRxBytes = 0, wmTxBytes = 0\<rparr> in
      case dump (wgpPublicKey p) of
        None \<Rightarrow> m
      | Some row \<Rightarrow>
          (let age = wrap64 (now - wdLastHandshake row);
               m1 = (if wdLastHandshake row > 0 then m\<lparr>wmHandshakeAge := age, wmOnline := (if age < 180 then 1 else 0)\<rparr> else m)
           in m1\<lparr>wmRxBytes := wdRxBytes row, wmTxBytes := wdTxBytes row\<rparr>))"

definition collectRoadWarriorPeers :: "sysenv \<Rightarrow> goint \<Rightarrow> world \<Rightarrow> WGPeerMetric list \<times> world" where
  "collectRoadWarriorPeers env now w =
     (let srv = server_of (wcfg w) in
      if \<not> wgsEnabled srv \<or> wgsPeers srv = [] then ([], w)
      else (case sys env (CRun ''wg'' [''show'', ''wg0'', ''dump'']) w of
          (Inl e, w') \<Rightarrow> ([], w')
        | (Inr out, w') \<Rightarrow>
            (map (wg_peer_metric now (parseWGDump out)) (filter (\<lambda>p. \<not> wgpIsSiteToSite p \<and> \<not> wgpPending p) (wgsPeers srv)), w')))"

fun collect_s2s :: "s2senv \<Rightarrow> goint \<Rightarrow> WGServerPeer list \<Rightarrow> world \<Rightarrow> S2SPeerMetric list \<times> world" where
  "collect_s2s env now [] w = ([], w)"
| "collect_s2s env now (p # ps) w =
     (if \<not> wgpIsSiteToSite p \<or> wgpPending p then collect_s2s env now ps w
      else (case S2SHealth env now (wgpName p) w of
          (Inl e, w1) \<Rightarrow>
            (case collect_s2s env now ps w1 of (ms, w2) \<Rightarrow>
              (\<lparr>smName = wgpName p, smHandshakeAge = -1, smOnline = 0, smRxBytes = 0, smTxBytes = 0\<rparr> # ms, w2))
        | (Inr h, w1) \<Rightarrow>
            (case collect_s2s env now ps w1 of (ms, w2) \<Rightarrow>
              (\<lparr>smName = shiName h, smHandshakeAge = shiHandshakeAgeSec h, smOnline = (if shiOnline h then 1 else 0),
                smRxBytes = shiRxBytes h, smTxBytes = shiTxBytes h\<rparr> # ms, w2))))"

definition collectS2SPeers :: "s2senv \<Rightarrow> goint \<Rightarrow> world \<Rightarrow> S2SPeerMetric list \<times> world" where
  "collectS2SPeers env now w = collect_s2s env now (wgsPeers (server_of (wcfg w))) w"

definition collectVPNMetrics :: "s2senv \<Rightarrow> goint \<Rightarrow> world \<Rightarrow> (WGPeerMetric list \<times> S2SPeerMetric list) \<times> world" where
  "collectVPNMetrics env now w =
     (case collectRoadWarriorPeers (veSys (s2VPN env)) now w of (wg, w1) \<Rightarrow>
       (case collectS2SPeers env now w1 of (s2s, w2) \<Rightarrow> ((wg, s2s), w2)))"

definition macHash :: "qosenv \<Rightarrow> string \<Rightarrow> string" where
  "macHash env mac =
     concat (map (\<lambda>b. [hex_char (b div 16), hex_char (b mod 16)]) (take 4 (qeSha1 env (ToLower (filter (\<lambda>c. c \<noteq> CHR '':'') mac)))))"

definition client_metric :: "qosenv \<Rightarrow> ClientUsage \<Rightarrow> ClientBandwidthMetric" where
  "client_metric env u = \<lparr>cbMAC = macHash env (cuMAC u), cbHostname = cuHostname u, cbRxBytes = cuInBytes u, cbTxBytes = cuOutBytes u,
     cbRxBPS = cuInBPS u, cbTxBPS = cuOutBPS u\<rparr>"

definition collectClientMetrics :: "qosenv \<Rightarrow> gotime \<Rightarrow> qosState \<times> world \<Rightarrow> ClientBandwidthMetric list \<times> qosState \<times> world" where
  "collectClientMetrics env now sw =
     (case SamplePerClient env now sw of
        (Inl e, sw') \<Rightarrow> ([], sw')
      | (Inr usages, sw') \<Rightarrow> (map (client_metric env) (take 64 usages), sw'))"

section \<open>The snapshot\<close>

definition firewallActive :: "sysenv \<Rightarrow> world \<Rightarrow> goint \<times> world" where
  "firewallActive env w =
     (case sys env (CRun ''nft'' [''list'', ''ruleset'']) w of
        (Inl e, w') \<Rightarrow> (0, w')
      | (Inr out, w') \<Rightarrow> (if TrimSpace out = [] then 0 else 1, w'))"

definition pppoeConnectedFromCfg :: "sysenv \<Rightarrow> world \<Rightarrow> goint \<times> world" where
  "pppoeConnectedFromCfg env w =
     (if ppUsername (cfgPPPoE (wcfg w)) = [] then (0, w)
      else (case sys env (CRun ''pgrep'' [''-x'', ''pppd'']) w of
          (Inl e, w') \<Rightarrow> (0, w')
        | (Inr out, w') \<Rightarrow> (if TrimSpace out = [] then 0 else 1, w')))"

definition ipv6StateFromCfg :: "Config \<Rightarrow> goint \<times> string" where
  "ipv6StateFromCfg c =
     (let mode0 = ip6Mode (cfgIPv6 c); mode = (if mode0 = [] then ''off'' else mode0) in
      if ip6Enabled (cfgIPv6 c) = ''off'' \<or> mode = ''off'' then (0, mode) else (1, mode))"

text \<open>The services the snapshot draws on; \<open>None\<close> is a missing one.\<close>

record metenv =
  mtSys :: sysenv
  mtFloat :: float_ops
  mtNow :: gotime
  mtUpdate :: "(string \<times> string) option"
  mtMonitor :: "MonitorService option"
  mtLeases :: "(Lease list \<times> error option) option"
  mtDNS :: "(dnsenv \<times> DNSService) option"
  mtQoS :: "qosenv option"
  mtVPN :: "s2senv option"
  mtBackup :: bool

definition to_u64 :: "goint \<Rightarrow> nat" where
  "to_u64 n = nat (n mod 2 ^ 64)"

definition unix_of :: "gotime \<Rightarrow> goint" where
  "unix_of t = t div 1000000000 - 62135596800"

definition add_update :: "metenv \<Rightarrow> MetricsSnapshot \<Rightarrow> MetricsSnapshot" where
  "add_update env s = (case mtUpdate env of None \<Rightarrow> s | Some (v, c) \<Rightarrow> s\<lparr>msBuildVersion := v, msBuildCommit := c\<rparr>)"

definition add_monitor :: "metenv \<Rightarrow> MetricsSnapshot \<Rightarrow> MetricsSnapshot" where
  "add_monitor env s =
     (case mtMonitor env of
        None \<Rightarrow> s
      | Some mon \<Rightarrow>
          (let cur = GetCurrent mon in
           s\<lparr>msUptimeSeconds := Seconds (mtFloat env) (ssUptime cur), msCPUPercent := ssCPUPercent cur, msMemoryTotal := ssRAMTotal cur,
             msMemoryUsed := ssRAMUsed cur, msTemperature := ssTemperature cur, msInterfaces := ifaceMetricsFromMonitor (ssInterfaces cur)\<rparr>))"

definition add_leases :: "metenv \<Rightarrow> MetricsSnapshot \<Rightarrow> MetricsSnapshot" where
  "add_leases env s = (case mtLeases env of Some (ls, None) \<Rightarrow> s\<lparr>msDHCPLeases := int (length ls)\<rparr> | _ \<Rightarrow> s)"

definition add_dns :: "metenv \<Rightarrow> MetricsSnapshot \<times> world \<Rightarrow> MetricsSnapshot \<times> world" where
  "add_dns env = (\<lambda>(s, w).
     case mtDNS env of
       None \<Rightarrow> (s, w)
     | Some (de, d) \<Rightarrow> (case GetStats de d w of
         (Inl e, w') \<Rightarrow> (s, w')
       | (Inr st, w') \<Rightarrow>
           (s\<lparr>msDNSQueriesTotal := to_u64 (stTotalQueries st), msDNSCacheHitsTotal := to_u64 (stCacheHits st),
              msDNSCacheMissesTotal := to_u64 (stCacheMisses st), msDNSBlockedTotal := to_u64 (stBlockedCount st)\<rparr>, w')))"

definition add_clients :: "metenv \<Rightarrow> MetricsSnapshot \<times> qosState \<times> world \<Rightarrow> MetricsSnapshot \<times> qosState \<times> world" where
  "add_clients env = (\<lambda>(s, qs, w).
     case mtQoS env of None \<Rightarrow> (s, qs, w)
     | Some qe \<Rightarrow> (case collectClientMetrics qe (mtNow env) (qs, w) of (cs, qs', w') \<Rightarrow> (s\<lparr>msClients := cs\<rparr>, qs', w')))"

definition add_vpn :: "metenv \<Rightarrow> MetricsSnapshot \<times> world \<Rightarrow> MetricsSnapshot \<times> world" where
  "add_vpn env = (\<lambda>(s, w).
     case mtVPN env of None \<Rightarrow> (s, w)
     | Some ve \<Rightarrow> (case collectVPNMetrics ve (unix_of (mtNow env)) w of ((wg, s2s), w') \<Rightarrow> (s\<lparr>msWGPeers := wg, msS2SPeers := s2s\<rparr>, w')))"

definition add_backup :: "metenv \<Rightarrow> Config \<Rightarrow> MetricsSnapshot \<Rightarrow> MetricsSnapshot" where
  "add_backup env c s =
     (if mtBackup env
      then (let b = cfgBackup c; s1 = s\<lparr>msBackupLastRunUnix := unix_of (bcLastRun b)\<rparr>;
                s2 = (if bcLastStatus b = ''ok'' then s1\<lparr>msBackupLastStatusOK := 1\<rparr> else s1)
            in s2\<lparr>msBackupHistorySize := int (length (bcHistory b))\<rparr>)
      else s)"

definition Snapshot :: "metenv \<Rightarrow> qosState \<times> world \<Rightarrow> MetricsSnapshot \<times> qosState \<times> world" where
  "Snapshot env = (\<lambda>(qs, w).
     let s1 = add_leases env (add_monitor env (add_update env zero_MetricsSnapshot)) in
     case add_dns env (s1, w) of (s2, w2) \<Rightarrow>
     case add_clients env (s2, qs, w2) of (s3, qs3, w3) \<Rightarrow>
     case add_vpn env (s3, w3) of (s4, w4) \<Rightarrow>
     let s5 = add_backup env (wcfg w4) s4 in
     case pppoeConnectedFromCfg (mtSys env) w4 of (ppp, w5) \<Rightarrow>
     case ipv6StateFromCfg (wcfg w5) of (act, mode) \<Rightarrow>
     case firewallActive (mtSys env) w5 of (fw, w6) \<Rightarrow>
     (s5\<lparr>msPPPoEConnected := ppp, msIPv6Active := act, msIPv6Mode := mode, msFirewallActive := fw\<rparr>, qs3, w6))"

section \<open>Handlers\<close>

definition HandleMetrics :: "metenv \<Rightarrow> expenv \<Rightarrow> (qosState \<times> world) hfun" where
  "HandleMetrics env ex r = (\<lambda>(w, st).
     let w1 = Header_Set ''Cache-Control'' ''no-store'' (Header_Set ''Content-Type'' ''text/plain; version=0.0.4; charset=utf-8'' w) in
     case Snapshot env st of (snap, st') \<Rightarrow> (Write (metrics_Write ex snap) w1, st'))"

record dashboardPage =
  dpStats :: SystemStats
  dpPPPoE :: PPPoEStatus
  dpDeviceCount :: nat
  dpHistory :: "SystemStats list"

definition dashboard_HandlePage :: "pppenv \<Rightarrow> MonitorService \<Rightarrow> Lease list \<Rightarrow> dashboardPage pageenv \<Rightarrow> 's ppp_state hfun" where
  "dashboard_HandlePage env mon leases pg r =
     observe (ppp_status_in env) (\<lambda>ppp.
       show_page pg ''dashboard'' r
         \<lparr>dpStats = GetCurrent mon, dpPPPoE = ppp, dpDeviceCount = length (GetDeviceList leases), dpHistory = GetHistory mon\<rparr>)"

record storagePage =
  spRAID :: "RAIDStatus option"
  spUsage :: "DiskUsage list"

definition storage_HandlePage :: "sysenv \<Rightarrow> storagePage pageenv \<Rightarrow> world hfun" where
  "storage_HandlePage env pg r =
     observe (GetRAIDStatus env) (\<lambda>raid. observe (GetDiskUsage env) (\<lambda>usage.
       show_page pg ''storage'' r
         \<lparr>spRAID = (case raid of Inl _ \<Rightarrow> None | Inr x \<Rightarrow> Some x), spUsage = ok_or [] usage\<rparr>))"

section \<open>The interface rows\<close>

lemma exchange_pass_mset: "exchange_pass x ys = (m, zs) \<Longrightarrow> mset (m # zs) = mset (x # ys)"
proof (induction x ys arbitrary: m zs rule: exchange_pass.induct)
  case (2 x y ys)
  show ?case
  proof (cases "imDevice y < imDevice x")
    case True
    then obtain us where us: "exchange_pass y ys = (m, us)" "zs = x # us" using 2(3) by (auto split: prod.splits)
    from 2(1) [OF True us(1)] us(2) show ?thesis by simp
  next
    case False
    then obtain us where us: "exchange_pass x ys = (m, us)" "zs = y # us" using 2(3) by (auto split: prod.splits)
    from 2(2) [OF False us(1)] us(2) show ?thesis by simp
  qed
qed simp

lemma exchange_pass_least:
  "exchange_pass x ys = (m, zs) \<Longrightarrow> imDevice m \<le> imDevice x \<and> (\<forall>z \<in> set zs. imDevice m \<le> imDevice z)"
proof (induction x ys arbitrary: m zs rule: exchange_pass.induct)
  case (2 x y ys)
  show ?case
  proof (cases "imDevice y < imDevice x")
    case True
    then obtain us where us: "exchange_pass y ys = (m, us)" "zs = x # us" using 2(3) by (auto split: prod.splits)
    from 2(1) [OF True us(1)] us(2) True show ?thesis by auto
  next
    case False
    then obtain us where us: "exchange_pass x ys = (m, us)" "zs = y # us" using 2(3) by (auto split: prod.splits)
    from 2(2) [OF False us(1)] us(2) False show ?thesis by auto
  qed
qed simp

lemma exchange_sort_mset: "mset (exchange_sort xs) = mset xs"
proof (induction xs rule: exchange_sort.induct)
  case (2 x xs)
  then show ?case using exchange_pass_mset [of x xs "fst (exchange_pass x xs)" "snd (exchange_pass x xs)"] by simp
qed simp

lemma exchange_sort_sorted: "sorted (map imDevice (exchange_sort xs))"
proof (induction xs rule: exchange_sort.induct)
  case (2 x xs)
  let ?m = "fst (exchange_pass x xs)" and ?zs = "snd (exchange_pass x xs)"
  have "\<forall>z \<in> set ?zs. imDevice ?m \<le> imDevice z" using exchange_pass_least [of x xs ?m ?zs] by simp
  moreover have "set (exchange_sort ?zs) = set ?zs" by (metis exchange_sort_mset set_mset_mset)
  ultimately show ?case using 2 by simp
qed simp

lemma exchange_sort_eq: "distinct (map imDevice xs) \<Longrightarrow> exchange_sort xs = sort_key imDevice xs"
  by (metis distinct_map exchange_sort_mset exchange_sort_sorted properties_for_sort_key mset_map
      sort_key_inj_key_eq mset_eq_setD)

text \<open>
  The rows of the interfaces do not depend on the order in which Go's map hands out its entries: for any two
  orders of the same entries the exchanging loops give the same rows, namely the entries sorted by
  device.
\<close>

theorem interface_rows_order_independent:
  assumes "distinct (map fst m)" "mset m' = mset m"
  shows "ifaceMetricsFromMonitor m' = ifaceMetricsFromMonitor m \<and>
    ifaceMetricsFromMonitor m = sort_key imDevice (map iface_metric m) \<and> set (ifaceMetricsFromMonitor m) = iface_metric ` set m"
proof -
  have dev: "map imDevice (map iface_metric n) = map fst n" for n by (simp add: iface_metric_def case_prod_unfold comp_def)
  have d: "distinct (map fst m')" using assms by (metis distinct_map mset_eq_imp_distinct_iff mset_map)
  have e: "ifaceMetricsFromMonitor n = sort_key imDevice (map iface_metric n)" if "distinct (map fst n)" for n
    unfolding ifaceMetricsFromMonitor_def by (rule exchange_sort_eq) (simp only: dev that)
  have inj: "inj_on imDevice (set (map iface_metric m'))" using d dev [of m'] by (metis distinct_map)
  have "sort_key imDevice (map iface_metric m') = sort_key imDevice (map iface_metric m)"
    by (rule sort_key_inj_key_eq [OF _ inj]) (simp_all add: assms(2))
  then show ?thesis using e [OF d] e [OF assms(1)] by simp
qed

theorem interface_rows_order_independent_witness:
  "ifaceMetricsFromMonitor [(''b'', \<lparr>isRxBytesPerSec = 0, isTxBytesPerSec = 0, isRxTotal = 1, isTxTotal = 2\<rparr>), (''a'', \<lparr>isRxBytesPerSec = 0, isTxBytesPerSec = 0, isRxTotal = 3, isTxTotal = 4\<rparr>)] =
   ifaceMetricsFromMonitor [(''a'', \<lparr>isRxBytesPerSec = 0, isTxBytesPerSec = 0, isRxTotal = 3, isTxTotal = 4\<rparr>), (''b'', \<lparr>isRxBytesPerSec = 0, isTxBytesPerSec = 0, isRxTotal = 1, isTxTotal = 2\<rparr>)]"
  by (rule interface_rows_order_independent [THEN conjunct1]) simp_all

section \<open>Road warriors\<close>

text \<open>
  The WireGuard server runs on the interface \<open>wgs0\<close>; the collector asks for \<open>wg0\<close>. On a router without an interface
  of that name the command fails and no peer of the server is ever reported.
\<close>

lemma road_warriors_never_reported:
  assumes "\<And>tr. isl (seAnswer env tr (CRun ''wg'' [''show'', ''wg0'', ''dump'']))"
  shows "fst (collectRoadWarriorPeers env now w) = []"
  using assms [of "wTrace w"] by (auto simp: collectRoadWarriorPeers_def sys_def Let_def split: sum.splits)

text \<open>The number of OpenVPN sessions is never filled in.\<close>

lemma openvpn_sessions_always_zero: "msOpenVPNPeers (fst (Snapshot env st)) = 0"
  by (simp add: Snapshot_def Let_def add_dns_def add_clients_def add_vpn_def add_backup_def add_leases_def add_monitor_def add_update_def
      zero_MetricsSnapshot_def split: prod.splits option.splits sum.splits)

end
