(* ===== verification/Certificates.thy ===== *)
theory Certificates
  imports Backup DNS
begin

text \<open>
  The key file and the symmetric encryption of \<^verbatim>\<open>config/crypto.go\<close>, the server's certificate
  (\<^verbatim>\<open>config/tls.go\<close>) and the choice of the two files in \<open>Serve\<close> (\<^verbatim>\<open>web/server.go\<close>). Randomness, the
  ciphers, key generation, X.509 and PEM coding, the clock and calendar are parameters; hexadecimal
  coding is modelled.
\<close>

section \<open>Hexadecimal\<close>

definition hex_byte :: "char \<Rightarrow> string" where
  "hex_byte c = [hex_char ((of_char c :: nat) div 16), hex_char ((of_char c :: nat) mod 16)]"

definition hex_Encode :: "string \<Rightarrow> string" where
  "hex_Encode s = concat (map hex_byte s)"

text \<open>\<open>hex.DecodeString\<close>; both cases of the letters are read.\<close>

fun hex_Decode :: "string \<Rightarrow> string option" where
  "hex_Decode [] = Some []"
| "hex_Decode [c] = None"
| "hex_Decode (a # b # s) = (case (hex_val a, hex_val b, hex_Decode s) of
     (Some x, Some y, Some t) \<Rightarrow> Some (char_of (16 * x + y) # t) | _ \<Rightarrow> None)"

section \<open>Keys and encryption\<close>

definition GenerateKey :: "error + string \<Rightarrow> error + string" where
  "GenerateKey rnd = (case rnd of Inl e \<Rightarrow> Inl (''generate key: '' @ e) | Inr key \<Rightarrow> Inr key)"

text \<open>\<open>os.ReadFile\<close>.\<close>

definition os_ReadFile :: "osenv \<Rightarrow> string \<Rightarrow> disk \<Rightarrow> error + string" where
  "os_ReadFile env path d =
     (case os_err env (OsOpen path) of
        Some e \<Rightarrow> Inl e
      | None \<Rightarrow> (case d path of
          None \<Rightarrow> Inl (''open '' @ path @ '': no such file or directory'')
        | Some data \<Rightarrow> (case os_err env (OsRead path) of Some e \<Rightarrow> Inl e | None \<Rightarrow> Inr data)))"

definition LoadKey :: "osenv \<Rightarrow> (string \<Rightarrow> error) \<Rightarrow> string \<Rightarrow> disk \<Rightarrow> error + string" where
  "LoadKey env hexErr path d =
     (case os_ReadFile env path d of
        Inl e \<Rightarrow> Inl (''read key file: '' @ e)
      | Inr data \<Rightarrow> (case hex_Decode data of
          None \<Rightarrow> Inl (''decode key hex: '' @ hexErr data)
        | Some key \<Rightarrow>
            if length key \<noteq> 32 then Inl (''invalid key length: got '' @ Itoa (int (length key)) @ '', want 32'') else Inr key))"

definition SaveKey :: "osenv \<Rightarrow> string \<Rightarrow> string \<Rightarrow> disk \<Rightarrow> error option \<times> disk list" where
  "SaveKey env path key d = atomicWrite env path (hex_Encode key) d"

definition with_gcm :: "cryptoenv \<Rightarrow> string \<Rightarrow> (error + string) \<Rightarrow> error + string" where
  "with_gcm ce key k =
     (case aes_err ce key of
        Some e \<Rightarrow> Inl (''create cipher: '' @ e)
      | None \<Rightarrow> (case gcm_err ce key of Some e \<Rightarrow> Inl (''create GCM: '' @ e) | None \<Rightarrow> k))"

definition Encrypt :: "cryptoenv \<Rightarrow> string \<Rightarrow> string \<Rightarrow> error + string" where
  "Encrypt ce plaintext key = with_gcm ce key
     (case rand_nonce ce of
        Inl e \<Rightarrow> Inl (''generate nonce: '' @ e)
      | Inr nonce \<Rightarrow> Inr (nonce @ gcm_Seal ce key nonce plaintext))"

definition Decrypt :: "cryptoenv \<Rightarrow> string \<Rightarrow> string \<Rightarrow> error + string" where
  "Decrypt ce ciphertext key = with_gcm ce key
     (if length ciphertext < gcm_NonceSize then Inl ''ciphertext too short''
      else (case gcm_Open ce key (take gcm_NonceSize ciphertext) (drop gcm_NonceSize ciphertext) of
          Inl e \<Rightarrow> Inl (''decrypt: '' @ e)
        | Inr plaintext \<Rightarrow> Inr plaintext))"

section \<open>The certificate\<close>

record TLSCertInfo =
  ciCertPath :: string
  ciKeyPath :: string
  ciNotBefore :: gotime
  ciNotAfter :: gotime
  ciIssuer :: string
  ciSANs :: "string list"

text \<open>The template of \<open>generateSelfSigned\<close>, and what the parser gives back.\<close>

record certTemplate =
  ctSerial :: nat
  ctCommonName :: string
  ctOrganization :: "string list"
  ctNotBefore :: gotime
  ctNotAfter :: gotime
  ctKeyUsage :: "string list"
  ctExtKeyUsage :: "string list"
  ctBasicConstraintsValid :: bool
  ctDNSNames :: "string list"
  ctIPAddresses :: "goip list"

record parsedCert =
  pcNotBefore :: gotime
  pcNotAfter :: gotime
  pcIssuerCN :: string
  pcDNSNames :: "string list"
  pcIPAddresses :: "goip list"

record certenv =
  ceOS :: osenv
  ceMkdir :: "string \<Rightarrow> error option"
  ceStat :: "string \<Rightarrow> error option"
  ceChmod :: "string \<Rightarrow> error option"
  ceNow :: gotime
  ceAddDays :: "gotime \<Rightarrow> goint \<Rightarrow> gotime"
  ceKey :: "error + string"
  ceSerial :: "error + nat"
  ceAddrs :: "error + IPNet list"
  ceCreate :: "certTemplate \<Rightarrow> string \<Rightarrow> error + string"
  ceMarshalKey :: "string \<Rightarrow> error + string"
  cePemEncode :: "string \<Rightarrow> string \<Rightarrow> string"
  cePemDecode :: "string \<Rightarrow> string option"
  ceParse :: "string \<Rightarrow> error + parsedCert"

definition readCertInfo :: "certenv \<Rightarrow> string \<Rightarrow> string \<Rightarrow> disk \<Rightarrow> error + TLSCertInfo" where
  "readCertInfo env certPath keyPath d =
     (case os_ReadFile (ceOS env) certPath d of
        Inl e \<Rightarrow> Inl (''read cert: '' @ e)
      | Inr certPEM \<Rightarrow> (case cePemDecode env certPEM of
          None \<Rightarrow> Inl ''decode PEM: no valid block found''
        | Some block \<Rightarrow> (case ceParse env block of
            Inl e \<Rightarrow> Inl (''parse cert: '' @ e)
          | Inr cert \<Rightarrow>
              Inr \<lparr>ciCertPath = certPath, ciKeyPath = keyPath, ciNotBefore = pcNotBefore cert, ciNotAfter = pcNotAfter cert,
                   ciIssuer = pcIssuerCN cert, ciSANs = pcDNSNames cert @ map ip_text (pcIPAddresses cert)\<rparr>)))"

text \<open>
  The names of the certificate: the configured ones, or the host and its addresses. Every address the
  system lists is an \<open>IPNet\<close>.
\<close>

definition add_san :: "certTemplate \<Rightarrow> string \<Rightarrow> certTemplate" where
  "add_san t san = (case ParseIP san of
       Some ip \<Rightarrow> t\<lparr>ctIPAddresses := ctIPAddresses t @ [ip]\<rparr>
     | None \<Rightarrow> t\<lparr>ctDNSNames := ctDNSNames t @ [san]\<rparr>)"

definition local_ips :: "certenv \<Rightarrow> goip list" where
  "local_ips env = (case ceAddrs env of
       Inl e \<Rightarrow> []
     | Inr as \<Rightarrow> map netIP (filter (\<lambda>a. \<not> IsLoopback (netIP a) \<and> To4 (netIP a) \<noteq> None) as))"

definition with_names :: "certenv \<Rightarrow> string \<Rightarrow> string list \<Rightarrow> certTemplate \<Rightarrow> certTemplate" where
  "with_names env cn sans t =
     (let t1 = foldl add_san t sans in
      if ctDNSNames t1 = [] \<and> ctIPAddresses t1 = []
      then t1\<lparr>ctDNSNames := [cn, ''localhost''], ctIPAddresses := [v4_mapped [127, 0, 0, 1]] @ local_ips env\<rparr>
      else t1)"

definition cert_template :: "certenv \<Rightarrow> SelfSignedConfig \<Rightarrow> nat \<Rightarrow> certTemplate" where
  "cert_template env ss serial =
     (let cn = (if ssCN ss = [] then ''hermes.lan'' else ssCN ss);
          validDays = (if ssValidDays ss \<le> 0 then 3650 else ssValidDays ss)
      in with_names env cn (ssSANs ss)
           \<lparr>ctSerial = serial, ctCommonName = cn, ctOrganization = [''LANKeeper''], ctNotBefore = ceNow env,
            ctNotAfter = ceAddDays env (ceNow env) validDays, ctKeyUsage = [''DigitalSignature'', ''KeyEncipherment''],
            ctExtKeyUsage = [''ServerAuth''], ctBasicConstraintsValid = True, ctDNSNames = [], ctIPAddresses = []\<rparr>)"

text \<open>
  The two files, one after the other, then the mode of the key and the reading back. As for
  \<open>atomicWrite\<close>, every disk on the way is returned.
\<close>

definition write_pair :: "certenv \<Rightarrow> string \<Rightarrow> string \<Rightarrow> string \<Rightarrow> string \<Rightarrow> disk \<Rightarrow> (error + TLSCertInfo) \<times> disk list" where
  "write_pair env certPath keyPath certPEM keyPEM d =
     (case atomicWrite (ceOS env) certPath certPEM d of
        (Some e, ds) \<Rightarrow> (Inl (''write cert: '' @ e), ds)
      | (None, ds) \<Rightarrow> (case atomicWrite (ceOS env) keyPath keyPEM (last ds) of
          (Some e, ds') \<Rightarrow> (Inl (''write key: '' @ e), ds @ ds')
        | (None, ds') \<Rightarrow> (case ceChmod env keyPath of
            Some e \<Rightarrow> (Inl (''chmod key: '' @ e), ds @ ds')
          | None \<Rightarrow> (readCertInfo env certPath keyPath (last ds'), ds @ ds'))))"

definition generateSelfSigned :: "certenv \<Rightarrow> TLSConfig \<Rightarrow> string \<Rightarrow> string \<Rightarrow> disk \<Rightarrow> (error + TLSCertInfo) \<times> disk list" where
  "generateSelfSigned env c certPath keyPath d =
     (case ceKey env of
        Inl e \<Rightarrow> (Inl (''generate key: '' @ e), [d])
      | Inr key \<Rightarrow> (case ceSerial env of
          Inl e \<Rightarrow> (Inl (''generate serial: '' @ e), [d])
        | Inr serial \<Rightarrow> (case ceCreate env (cert_template env (tlsSelfSigned c) serial) key of
            Inl e \<Rightarrow> (Inl (''create certificate: '' @ e), [d])
          | Inr certDER \<Rightarrow> (case ceMarshalKey env key of
              Inl e \<Rightarrow> (Inl (''marshal key: '' @ e), [d])
            | Inr keyDER \<Rightarrow>
                write_pair env certPath keyPath (cePemEncode env ''CERTIFICATE'' certDER) (cePemEncode env ''EC PRIVATE KEY'' keyDER) d))))"

definition cert_there :: "certenv \<Rightarrow> string \<Rightarrow> disk \<Rightarrow> bool" where
  "cert_there env path d \<longleftrightarrow> ceStat env path = None \<and> d path \<noteq> None"

definition ensureSelfSigned :: "certenv \<Rightarrow> TLSConfig \<Rightarrow> string \<Rightarrow> string \<Rightarrow> disk \<Rightarrow> (error + TLSCertInfo) \<times> disk list" where
  "ensureSelfSigned env c certPath keyPath d =
     (case (if cert_there env certPath d then readCertInfo env certPath keyPath d else Inl []) of
        Inr info \<Rightarrow> if ceNow env < ciNotAfter info then (Inr info, [d]) else generateSelfSigned env c certPath keyPath d
      | Inl e \<Rightarrow> generateSelfSigned env c certPath keyPath d)"

definition cert_paths :: "TLSConfig \<Rightarrow> string \<Rightarrow> string \<times> string" where
  "cert_paths c dataDir =
     (let certDir = path_Join dataDir ''tls'' in
      if tlsCertFile c \<noteq> [] \<and> tlsKeyFile c \<noteq> [] then (tlsCertFile c, tlsKeyFile c)
      else (path_Join certDir ''server.crt'', path_Join certDir ''server.key''))"

definition EnsureTLSCert :: "certenv \<Rightarrow> TLSConfig \<Rightarrow> string \<Rightarrow> disk \<Rightarrow> (error + TLSCertInfo) \<times> disk list" where
  "EnsureTLSCert env c dataDir d =
     (case ceMkdir env (path_Join dataDir ''tls'') of
        Some e \<Rightarrow> (Inl (''create tls dir: '' @ e), [d])
      | None \<Rightarrow> (case cert_paths c dataDir of (certPath, keyPath) \<Rightarrow>
          if tlsMode c = ''self-signed'' \<or> tlsMode c = [] then ensureSelfSigned env c certPath keyPath d
          else if tlsMode c = ''mkcert'' then
            (if cert_there env certPath d then readCertInfo env certPath keyPath d
             else Inl (''mkcert certificates not found at '' @ certPath @ ''; run '' @ quoted ''mkcert'' @ '' to generate''), [d])
          else if tlsMode c = ''acme'' then
            (if cert_there env certPath d then readCertInfo env certPath keyPath d
             else Inl (''ACME certificates not found at '' @ certPath @ ''; configure DNS-01 challenge''), [d])
          else (Inl (''unknown TLS mode: '' @ tlsMode c), [d])))"

text \<open>The files \<open>Serve\<close> listens with once the certificate is there.\<close>

definition serve_files :: "TLSConfig \<Rightarrow> string \<times> string" where
  "serve_files c =
     ((if tlsCertFile c = [] then ''/var/lib/lankeeper/tls/server.crt'' else tlsCertFile c),
      (if tlsKeyFile c = [] then ''/var/lib/lankeeper/tls/server.key'' else tlsKeyFile c))"

section \<open>Round trips\<close>

lemma hex_val_of_hex_char: "n < 16 \<Longrightarrow> hex_val (hex_char n) = Some n"
  by (auto simp: hex_val_def hex_char_def Let_def)

lemma hex_Decode_byte: "hex_Decode (hex_byte c @ s) = map_option (Cons c) (hex_Decode s)"
proof -
  let ?n = "of_char c :: nat"
  have "?n < 256" by (metis of_char_mod_256 mod_less_divisor zero_less_numeral)
  then have "?n div 16 < 16" "?n mod 16 < 16" by (simp_all add: less_mult_imp_div_less)
  moreover have "char_of (16 * (?n div 16) + ?n mod 16) = c" by simp
  ultimately show ?thesis by (simp add: hex_byte_def hex_val_of_hex_char split: option.splits)
qed

lemma hex_roundtrip: "hex_Decode (hex_Encode s) = Some s"
  by (induction s) (simp_all add: hex_Encode_def hex_Decode_byte)

lemma saved_key_loads:
  assumes "SaveKey env path key d = (None, ds)" "length key = 32" "os_err env (OsOpen path) = None" "os_err env (OsRead path) = None"
  shows "LoadKey env hexErr path (last ds) = Inr key"
  using atomicWrite_success [OF assms(1) [unfolded SaveKey_def]] assms(2-4)
  by (simp add: LoadKey_def os_ReadFile_def hex_roundtrip)

text \<open>What was encrypted is recovered with the key read back from its file.\<close>

theorem stored_secret_recovered:
  assumes "SaveKey env path key d = (None, ds)" "length key = 32" "os_err env (OsOpen path) = None" "os_err env (OsRead path) = None"
    and "Encrypt ce p key = Inr c"
    and "\<forall>k n x. gcm_Open ce k n (gcm_Seal ce k n x) = Inr x" "\<forall>n. rand_nonce ce = Inr n \<longrightarrow> length n = gcm_NonceSize"
  shows "\<exists>k. LoadKey env hexErr path (last ds) = Inr k \<and> Decrypt ce c k = Inr p"
proof -
  have ok: "aes_err ce key = None" "gcm_err ce key = None" using assms(5) by (auto simp: Encrypt_def with_gcm_def split: option.splits)
  then obtain n where n: "rand_nonce ce = Inr n" and c: "c = n @ gcm_Seal ce key n p"
    using assms(5) by (auto simp: Encrypt_def with_gcm_def split: sum.splits)
  have "length n = gcm_NonceSize" using assms(7) n by blast
  then have "Decrypt ce c key = Inr p" using ok c assms(6) by (simp add: Decrypt_def with_gcm_def)
  then show ?thesis using saved_key_loads [OF assms(1-4)] by blast
qed

section \<open>Ensuring the certificate\<close>

text \<open>Whatever was returned can be read from the disk that was left.\<close>

lemma generate_reads_back:
  assumes "generateSelfSigned env c certPath keyPath d = (Inr info, ds)"
  shows "readCertInfo env certPath keyPath (last ds) = Inr info \<and> ds \<noteq> []"
proof -
  obtain certPEM keyPEM where "write_pair env certPath keyPath certPEM keyPEM d = (Inr info, ds)"
    using assms by (auto simp: generateSelfSigned_def split: sum.splits)
  then obtain ds1 ds2 where "atomicWrite (ceOS env) keyPath keyPEM (last ds1) = (None, ds2)" "ds = ds1 @ ds2"
      "readCertInfo env certPath keyPath (last ds2) = Inr info"
    by (auto simp: write_pair_def split: prod.splits option.splits)
  moreover from this(1) have "ds2 \<noteq> []" by (auto simp: atomicWrite_def Let_def split: option.splits)
  ultimately show ?thesis by simp
qed

lemma readCertInfo_there: "readCertInfo env certPath keyPath d = Inr info \<Longrightarrow> d certPath \<noteq> None"
  by (auto simp: readCertInfo_def os_ReadFile_def split: option.splits)

lemma readCertInfo_now [simp]: "readCertInfo (env\<lparr>ceNow := t\<rparr>) certPath keyPath d = readCertInfo env certPath keyPath d"
  by (simp add: readCertInfo_def split: sum.split option.split)

lemma cert_there_now [simp]: "cert_there (env\<lparr>ceNow := t\<rparr>) path d = cert_there env path d"
  by (simp add: cert_there_def)

lemma ensured_is_readable:
  assumes "EnsureTLSCert env c dataDir d = (Inr info, ds)"
  shows "ceMkdir env (path_Join dataDir ''tls'') = None" "tlsMode c \<in> {''self-signed'', [], ''mkcert'', ''acme''}"
    "readCertInfo env (fst (cert_paths c dataDir)) (snd (cert_paths c dataDir)) (last ds) = Inr info"
  using assms
  by (auto simp: EnsureTLSCert_def ensureSelfSigned_def dest: generate_reads_back split: option.splits prod.splits if_splits sum.splits)

text \<open>
  Ensuring the server's certificate is idempotent. In every mode, whatever certificate was returned is
  returned again at any later start before it expires, from the disk the first start left and without
  writing anything, as long as the file can be looked up.
\<close>

theorem certificate_ensured_once:
  assumes "EnsureTLSCert env c dataDir d = (Inr info, ds)" "ceStat env (fst (cert_paths c dataDir)) = None" "t < ciNotAfter info"
  shows "EnsureTLSCert (env\<lparr>ceNow := t\<rparr>) c dataDir (last ds) = (Inr info, [last ds])"
proof -
  obtain certPath keyPath where p: "cert_paths c dataDir = (certPath, keyPath)" by fastforce
  note r = ensured_is_readable [OF assms(1), unfolded p, simplified]
  then have "cert_there env certPath (last ds)" using assms(2) p readCertInfo_there by (auto simp: cert_there_def)
  then show ?thesis using r assms(3) by (auto simp: EnsureTLSCert_def p ensureSelfSigned_def)
qed

section \<open>The pair of files\<close>

text \<open>
  Along a generation the two files only move forward together in one order: the key is the old one or the
  new one, and when it is the new one so is the certificate.
\<close>

lemma pair_states:
  assumes "write_pair env certPath keyPath certPEM keyPEM d = (r, ds)" "certPath \<noteq> keyPath"
    "tmpName (ceOS env) certPath \<notin> {certPath, keyPath}" "tmpName (ceOS env) keyPath \<notin> {certPath, keyPath}"
    "d' \<in> set ds"
  shows "(d' certPath, d' keyPath) \<in> {(d certPath, d keyPath), (Some certPEM, d keyPath), (Some certPEM, Some keyPEM)}"
proof -
  obtain r1 ds1 where w1: "atomicWrite (ceOS env) certPath certPEM d = (r1, ds1)" by fastforce
  have 1: "e certPath = d certPath \<or> e certPath = Some certPEM" "e keyPath = d keyPath" if "e \<in> set ds1" for e
    using atomicWrite_path(1) [OF _ w1] atomicWrite_frame [OF w1, of keyPath] assms(2,3) that by auto
  show ?thesis
  proof (cases r1)
    case (Some e)
    then have "ds = ds1" using assms(1) w1 by (simp add: write_pair_def)
    then show ?thesis using 1 assms(5) by auto
  next
    case None
    have last1: "ds1 \<noteq> []" "last ds1 certPath = Some certPEM" "last ds1 keyPath = d keyPath"
      using atomicWrite_path(2) [OF _ w1] assms(3) None 1(2) by auto
    obtain r2 ds2 where w2: "atomicWrite (ceOS env) keyPath keyPEM (last ds1) = (r2, ds2)" by fastforce
    have 2: "e keyPath = d keyPath \<or> e keyPath = Some keyPEM" "e certPath = Some certPEM" if "e \<in> set ds2" for e
      using atomicWrite_path(1) [OF _ w2] atomicWrite_frame [OF w2, of certPath] assms(2,4) that last1 by auto
    have "ds = ds1 @ ds2" using assms(1) w1 w2 None by (auto simp: write_pair_def split: option.splits)
    then show ?thesis using 1 2 assms(5) by auto
  qed
qed

text \<open>The middle state: a new certificate beside an old key is accepted, and no later start repairs it.\<close>

theorem mismatched_pair_accepted:
  assumes "tlsMode c = []" "cert_paths c dataDir = (certPath, keyPath)" "ceMkdir env (path_Join dataDir ''tls'') = None"
    "readCertInfo env certPath keyPath d' = Inr info" "ceStat env certPath = None" "ceNow env < ciNotAfter info"
  shows "EnsureTLSCert env c dataDir (d'(keyPath := k)) = (Inr info, [d'(keyPath := k)]) \<or> certPath = keyPath"
  using assms readCertInfo_there [OF assms(4)]
  by (auto simp: EnsureTLSCert_def ensureSelfSigned_def cert_there_def readCertInfo_def os_ReadFile_def split: option.splits sum.splits)

text \<open>
  \<open>Serve\<close> listens with the pair that was ensured exactly when the configuration names both files or
  neither, or names the default of the one it names.
\<close>

lemma default_paths: "path_Join (path_Join ''/var/lib/lankeeper'' ''tls'') ''server.crt'' = ''/var/lib/lankeeper/tls/server.crt''"
  "path_Join (path_Join ''/var/lib/lankeeper'' ''tls'') ''server.key'' = ''/var/lib/lankeeper/tls/server.key''"
  by code_simp+

theorem served_pair_is_ensured:
  "serve_files c = cert_paths c ''/var/lib/lankeeper'' \<longleftrightarrow>
     (tlsCertFile c = [] \<longleftrightarrow> tlsKeyFile c = []) \<or>
     tlsCertFile c = ''/var/lib/lankeeper/tls/server.crt'' \<or> tlsKeyFile c = ''/var/lib/lankeeper/tls/server.key''"
  by (auto simp: serve_files_def cert_paths_def Let_def default_paths)

definition calm_certenv :: certenv where
  "calm_certenv = \<lparr>ceOS = quiet_env zero_Config, ceMkdir = (\<lambda>_. None), ceStat = (\<lambda>_. None), ceChmod = (\<lambda>_. None), ceNow = 5,
     ceAddDays = (\<lambda>t n. t + n), ceKey = Inr ''K'', ceSerial = Inr 7, ceAddrs = Inr [],
     ceCreate = (\<lambda>t k. Inr (ctCommonName t)), ceMarshalKey = Inr, cePemEncode = (\<lambda>_ s. s), cePemDecode = Some,
     ceParse = (\<lambda>s. Inr \<lparr>pcNotBefore = 5, pcNotAfter = 100, pcIssuerCN = s, pcDNSNames = [s], pcIPAddresses = []\<rparr>)\<rparr>"

theorem certificate_ensured_once_witness:
  "\<exists>info ds. EnsureTLSCert calm_certenv (sysTLS (cfgSystem zero_Config)) ''/var/lib/lankeeper'' Map.empty = (Inr info, ds) \<and>
     EnsureTLSCert (calm_certenv\<lparr>ceNow := 50\<rparr>) (sysTLS (cfgSystem zero_Config)) ''/var/lib/lankeeper'' (last ds) = (Inr info, [last ds])"
proof -
  let ?c = "sysTLS (cfgSystem zero_Config)"
  have t: "tmpName (quiet_env zero_Config) ''/var/lib/lankeeper/tls/server.crt'' = ''/var/lib/lankeeper/tls/.config-7.tmp''"
    "tmpName (quiet_env zero_Config) ''/var/lib/lankeeper/tls/server.key'' = ''/var/lib/lankeeper/tls/.config-7.tmp''"
    by code_simp+
  have calm_os: "os_err (quiet_env zero_Config) x = None" for x by (simp add: quiet_env_def)
  have c: "tlsMode ?c = []" "tlsCertFile ?c = []" "tlsKeyFile ?c = []" by (simp_all add: zero_defs)
  have "\<exists>info ds. EnsureTLSCert calm_certenv ?c ''/var/lib/lankeeper'' Map.empty = (Inr info, ds) \<and> ciNotAfter info = 100"
    by (simp add: EnsureTLSCert_def cert_paths_def Let_def default_paths c t ensureSelfSigned_def cert_there_def generateSelfSigned_def
        write_pair_def atomicWrite_def readCertInfo_def os_ReadFile_def calm_certenv_def calm_os)
  then obtain info ds where r: "EnsureTLSCert calm_certenv ?c ''/var/lib/lankeeper'' Map.empty = (Inr info, ds)" "ciNotAfter info = 100"
    by blast
  have "ceStat calm_certenv p = None" for p by (simp add: calm_certenv_def)
  from certificate_ensured_once [OF r(1) this, of 50] r show ?thesis by auto
qed

end
