(* ===== verification/Presentation.thy ===== *)
theory Presentation
  imports HandlersIPv6 "HOL-Library.AList"
begin

text \<open>
  What pages are made with: the message catalogues (\<^verbatim>\<open>i18n/i18n.go\<close>) and the functions templates call
  (\<^verbatim>\<open>tmpl/funcs.go\<close>). The embedded file system, JSON and the printing of \<open>%.1f\<close> are parameters.
\<close>

section \<open>Catalogues\<close>

record Locale =
  lcCode :: string
  lcMessages :: "string \<rightharpoonup> string"

record I18n =
  inLocales :: "string \<rightharpoonup> Locale"
  inFallback :: string

definition New :: "string \<Rightarrow> I18n" where
  "New fallback = \<lparr>inLocales = Map.empty, inFallback = (if fallback = [] then ''en'' else fallback)\<rparr>"

text \<open>An embedded directory: its entries in order, each with whether it is a directory.\<close>

record fsenv =
  fsDir :: "string \<Rightarrow> error + (string \<times> bool) list"
  fsFile :: "string \<Rightarrow> error + string"
  fsJSON :: "string \<Rightarrow> error + (string \<rightharpoonup> string)"

definition is_catalogue :: "string \<times> bool \<Rightarrow> bool" where
  "is_catalogue e \<longleftrightarrow> \<not> snd e \<and> HasSuffix (fst e) ''.json''"

fun load_entries :: "fsenv \<Rightarrow> string \<Rightarrow> (string \<times> bool) list \<Rightarrow> I18n \<Rightarrow> error option \<times> I18n" where
  "load_entries fs dir [] i = (None, i)"
| "load_entries fs dir (e # es) i =
     (if \<not> is_catalogue e then load_entries fs dir es i
      else (let code = TrimSuffix (fst e) ''.json''; path = dir @ ''/'' @ fst e in
        case fsFile fs path of
          Inl err \<Rightarrow> (Some (''read locale file '' @ quote_q path @ '': '' @ err), i)
        | Inr data \<Rightarrow> (case fsJSON fs data of
            Inl err \<Rightarrow> (Some (''parse locale file '' @ quote_q path @ '': '' @ err), i)
          | Inr messages \<Rightarrow>
              load_entries fs dir es (i\<lparr>inLocales := (inLocales i)(code \<mapsto> \<lparr>lcCode = code, lcMessages = messages\<rparr>)\<rparr>))))"

definition LoadFromFS :: "fsenv \<Rightarrow> string \<Rightarrow> I18n \<Rightarrow> error option \<times> I18n" where
  "LoadFromFS fs dir i = (case fsDir fs dir of
       Inl e \<Rightarrow> (Some (''read locale dir '' @ quote_q dir @ '': '' @ e), i)
     | Inr es \<Rightarrow> load_entries fs dir es i)"

definition message :: "I18n \<Rightarrow> string \<Rightarrow> string \<Rightarrow> string option" where
  "message i lang key = (case inLocales i lang of None \<Rightarrow> None | Some l \<Rightarrow> lcMessages l key)"

definition T :: "I18n \<Rightarrow> string \<Rightarrow> string \<Rightarrow> string" where
  "T i lang key = (case message i lang key of
       Some msg \<Rightarrow> msg
     | None \<Rightarrow> if lang \<noteq> inFallback i then (case message i (inFallback i) key of Some msg \<Rightarrow> msg | None \<Rightarrow> key) else key)"

text \<open>\<open>strings.ReplaceAll\<close> of a pattern that is not empty.\<close>

function ReplaceAll :: "string \<Rightarrow> string \<Rightarrow> string \<Rightarrow> string" where
  "ReplaceAll [] old new = []"
| "ReplaceAll (c # s) old new =
     (if HasPrefix (c # s) old then new @ ReplaceAll (drop (length old - 1) s) old new else c # ReplaceAll s old new)"
  by pat_completeness auto
termination by (relation "measure (\<lambda>(s, _, _). length s)") auto

text \<open>The parameters in the order in which the map is walked, which Go leaves open.\<close>

definition placeholder :: "string \<Rightarrow> string" where
  "placeholder k = ''{{'' @ k @ ''}}''"

definition WithParams :: "I18n \<Rightarrow> string \<Rightarrow> string \<Rightarrow> (string, string) gomap \<Rightarrow> string" where
  "WithParams i lang key params = foldl (\<lambda>msg (k, v). ReplaceAll msg (placeholder k) v) (T i lang key) params"

definition Fallback :: "I18n \<Rightarrow> string" where
  "Fallback i = inFallback i"

definition i18n_HasLocale :: "I18n \<Rightarrow> string \<Rightarrow> bool" where
  "i18n_HasLocale i code \<longleftrightarrow> inLocales i code \<noteq> None"

section \<open>Functions of templates\<close>

fun pairs :: "string list \<Rightarrow> (string, string) gomap" where
  "pairs (k # v # rest) = (k, v) # pairs rest"
| "pairs _ = []"

definition tp :: "I18n \<Rightarrow> ((string, string) gomap \<Rightarrow> (string, string) gomap) \<Rightarrow> string \<Rightarrow> string \<Rightarrow> string list \<Rightarrow> string" where
  "tp i walk lang key args =
     (if length args mod 2 \<noteq> 0 then T i lang key
      else WithParams i lang key (walk (foldl (\<lambda>m (k, v). AList.update k v m) [] (pairs args))))"

text \<open>The loop over the units; \<open>div\<close> is a \<open>uint64\<close>.\<close>

function unit_loop :: "nat \<Rightarrow> 64 word \<Rightarrow> nat \<Rightarrow> 64 word \<times> nat" where
  "unit_loop n d e = (if n \<ge> 1024 then unit_loop (n div 1024) (d * 1024) (e + 1) else (d, e))"
  by pat_completeness auto
termination by (relation "measure (\<lambda>(n, _, _). n)") auto

declare unit_loop.simps [simp del]

datatype 'a panicking = Done 'a | IndexPanic

definition formatBytes :: "float_ops \<Rightarrow> (rat \<Rightarrow> string) \<Rightarrow> 64 word \<Rightarrow> string panicking" where
  "formatBytes F fmt1 b =
     (if b < 1024 then Done (nat_digits (unat b) @ '' B'')
      else (case unit_loop (unat b div 1024) 1024 0 of (d, e) \<Rightarrow>
        if e < length ''KMGTPE''
        then Done (fmt1 (f_round F (f_round F (of_nat (unat b)) / f_round F (of_nat (unat d)))) @ '' '' @ [''KMGTPE'' ! e] @ ''B'')
        else IndexPanic))"

definition humanTime :: "float_ops \<Rightarrow> duration \<Rightarrow> string" where
  "humanTime F d =
     (let days = to_int (Hours F d) sdiv 24; hours = to_int (Hours F d) smod 24; minutes = to_int (Minutes F d) smod 60 in
      if days > 0 then Itoa days @ ''d '' @ Itoa hours @ ''h '' @ Itoa minutes @ ''m''
      else if hours > 0 then Itoa hours @ ''h '' @ Itoa minutes @ ''m''
      else Itoa minutes @ ''m'')"

section \<open>Catalogues are what the files say\<close>

lemma load_entries_locales:
  "load_entries fs dir es i = (None, j) \<Longrightarrow>
     inFallback j = inFallback i \<and>
     (\<forall>code. i18n_HasLocale j code \<longleftrightarrow> i18n_HasLocale i code \<or> (\<exists>e \<in> set es. is_catalogue e \<and> code = TrimSuffix (fst e) ''.json''))"
proof (induction fs dir es i arbitrary: j rule: load_entries.induct)
  case (2 fs dir e es i)
  show ?case
  proof (cases "is_catalogue e")
    case True
    then obtain data messages where ok: "fsFile fs (dir @ ''/'' @ fst e) = Inr data" "fsJSON fs data = Inr messages"
      using "2.prems" by (auto simp: Let_def split: sum.splits)
    have "load_entries fs dir es (i\<lparr>inLocales := (inLocales i)(TrimSuffix (fst e) ''.json'' \<mapsto>
        \<lparr>lcCode = TrimSuffix (fst e) ''.json'', lcMessages = messages\<rparr>)\<rparr>) = (None, j)"
      using "2.prems" True ok by (simp add: Let_def)
    from "2.IH"(2) [OF _ refl refl ok this] True show ?thesis by (auto simp: i18n_HasLocale_def)
  next
    case False
    then show ?thesis using 2 by auto
  qed
qed (simp add: i18n_HasLocale_def)

text \<open>The view the middleware has of the catalogues.\<close>

definition catalogue_view :: "I18n \<Rightarrow> webenv \<Rightarrow> bool" where
  "catalogue_view i env \<longleftrightarrow> weFallback env = Fallback i \<and> (\<forall>l. weLocales env l = map_option lcMessages (inLocales i l))"

lemma T_agrees: "catalogue_view i env \<Longrightarrow> loc_T env lang key = T i lang key"
  and HasLocale_agrees: "catalogue_view i env \<Longrightarrow> HasLocale env code \<longleftrightarrow> i18n_HasLocale i code"
  by (auto simp: catalogue_view_def loc_T_def T_def message_def HasLocale_def i18n_HasLocale_def Fallback_def split: option.splits)

text \<open>
  A language is chosen only among loaded catalogues, or it is the fallback; so when the fallback's
  catalogue is there, every message it has is shown as a message, never as its key.
\<close>

theorem chosen_language_loaded:
  assumes "LoadFromFS fs dir (New fb) = (None, i)" "catalogue_view i env" "fsDir fs dir = Inr es"
  shows "detectLang env r = inFallback i \<or> (\<exists>e \<in> set es. is_catalogue e \<and> detectLang env r = TrimSuffix (fst e) ''.json'')"
proof -
  have "load_entries fs dir es (New fb) = (None, i)" using assms(1,3) by (simp add: LoadFromFS_def)
  from load_entries_locales [OF this]
  have loaded: "HasLocale env c \<Longrightarrow> \<exists>e \<in> set es. is_catalogue e \<and> c = TrimSuffix (fst e) ''.json''" for c
    using HasLocale_agrees [OF assms(2)] by (auto simp: New_def i18n_HasLocale_def)
  have acc: "detectAccept env r = weFallback env \<or> HasLocale env (detectAccept env r)"
    by (auto simp: detectAccept_def Let_def find_Some_iff split: option.splits)
  have "detectLang env r = weFallback env \<or> HasLocale env (detectLang env r)"
    using acc by (auto simp: detectLang_def split: option.splits)
  then show ?thesis using loaded assms(2) by (auto simp: catalogue_view_def Fallback_def)
qed

text \<open>The order in which the parameters are walked shows in the text when a value holds a placeholder.\<close>

lemma WithParams_order_matters:
  "WithParams (New []) ''en'' ''{{a}}'' [(''a'', ''{{b}}''), (''b'', ''x'')] = ''x''"
  "WithParams (New []) ''en'' ''{{a}}'' [(''b'', ''x''), (''a'', ''{{b}}'')] = ''{{b}}''"
  by (simp_all add: WithParams_def T_def message_def New_def placeholder_def HasPrefix_def)

section \<open>Units of bytes\<close>

lemma unit_loop_value:
  assumes "unit_loop n d e = (d', e')" "unat d * n < 2 ^ 64" "0 < n"
  shows "e \<le> e' \<and> unat d' = unat d * 1024 ^ (e' - e) \<and> n div 1024 ^ (e' - e) < 1024 \<and> 1024 ^ (e' - e) \<le> n"
  using assms
proof (induction n d e arbitrary: d' e' rule: unit_loop.induct)
  case (1 n d e)
  show ?case
  proof (cases "n \<ge> 1024")
    case True
    have step: "unit_loop (n div 1024) (d * 1024) (e + 1) = (d', e')" using "1.prems"(1) True by (subst (asm) unit_loop.simps) simp
    have "unat d * 1024 \<le> unat d * n" using True by simp
    then have "unat d * 1024 < 2 ^ 64" using "1.prems"(2) by linarith
    then have d: "unat (d * 1024) = unat d * 1024" by (simp add: unat_word_ariths)
    have "unat d * 1024 * (n div 1024) \<le> unat d * n" by (simp add: mult.assoc)
    then have fits: "unat (d * 1024) * (n div 1024) < 2 ^ 64" unfolding d using "1.prems"(2) by (rule le_less_trans)
    have pos: "0 < n div 1024" using True by (simp add: div_greater_zero_iff)
    have ih: "e + 1 \<le> e'" "unat d' = unat (d * 1024) * 1024 ^ (e' - (e + 1))" "n div 1024 div 1024 ^ (e' - (e + 1)) < 1024"
        "1024 ^ (e' - (e + 1)) \<le> n div 1024"
      using "1.IH" [OF True step fits pos] by auto
    have s: "e' - e = Suc (e' - (e + 1))" using ih(1) by simp
    have "1024 ^ (e' - (e + 1)) * 1024 \<le> n" using ih(4) by (metis div_le_mono less_eq_div_iff_mult_less_eq zero_less_numeral)
    then show ?thesis using ih d by (simp add: s div_mult2_eq mult.assoc mult.commute)
  next
    case False
    then have "d' = d" "e' = e" using "1.prems"(1) by (subst (asm) unit_loop.simps, simp)+
    then show ?thesis using False "1.prems"(3) by simp
  qed
qed

text \<open>
  The size of a number of bytes is printed without a panic for every \<open>uint64\<close>: the unit is one of the
  six, its divisor is the matching power of 1024 without wrap-around, and the number lies between the
  divisor and 1024 times it.
\<close>

theorem formatBytes_total:
  "unat b < 1024 \<and> formatBytes F fmt1 b = Done (nat_digits (unat b) @ '' B'') \<or>
   (\<exists>e < 6. 1024 ^ (e + 1) \<le> unat b \<and> unat b < 1024 ^ (e + 2) \<and>
     formatBytes F fmt1 b =
       Done (fmt1 (f_round F (f_round F (of_nat (unat b)) / f_round F (of_nat (1024 ^ (e + 1))))) @ '' '' @ [''KMGTPE'' ! e] @ ''B''))"
proof (cases "unat b < 1024")
  case True
  then have "b < 1024" by (simp add: word_less_nat_alt)
  then show ?thesis using True by (simp add: formatBytes_def)
next
  case False
  then have nb: "\<not> b < 1024" by (simp add: word_less_nat_alt)
  let ?n = "unat b div 1024"
  obtain d e where loop: "unit_loop ?n 1024 0 = (d, e)" by fastforce
  have b: "unat b < 2 ^ 64" using unsigned_less [of b] by simp
  have "unat (1024 :: 64 word) * ?n \<le> unat b" by simp
  then have "unat (1024 :: 64 word) * ?n < 2 ^ 64" using b by linarith
  moreover have "0 < ?n" using False by (simp add: div_greater_zero_iff)
  ultimately have v: "unat d = 1024 * 1024 ^ e" "?n div 1024 ^ e < 1024" "1024 ^ e \<le> ?n"
    using unit_loop_value [OF loop] by simp_all
  have lo: "1024 ^ (e + 1) \<le> unat b" using v(3) by (simp add: less_eq_div_iff_mult_less_eq mult.commute)
  have "?n < 1024 * 1024 ^ e" using v(2) by (simp add: div_less_iff_less_mult)
  then have hi: "unat b < 1024 ^ (e + 2)" by (simp add: div_less_iff_less_mult mult.commute mult.left_commute)
  have "e < 6"
  proof (rule ccontr)
    assume "\<not> e < 6"
    then have "(1024 :: nat) ^ 7 \<le> 1024 ^ (e + 1)" by (intro power_increasing) simp_all
    then have "(1024 :: nat) ^ 7 < 2 ^ 64" using lo b by linarith
    then show False by simp
  qed
  then show ?thesis using lo hi nb loop v(1) by (auto simp: formatBytes_def)
qed

end
