(* ===== verification/Startup.thy ===== *)
theory Startup
  imports Firewall Certificates Presentation HandlersDNS NTP Syslog VPN SSE Monitor QoS BackupSchedule PPPoE
begin

text \<open>
  How the two processes start: what \<open>NewServer\<close> and \<open>Serve\<close> (\<^verbatim>\<open>web/server.go\<close>) set up beside the handler
  chain, the commands of \<^verbatim>\<open>cmd/lankeeper\<close>, the first-boot bridge (\<^verbatim>\<open>web/firstboot.go\<close>), the agent's
  listener (\<^verbatim>\<open>agent/server.go\<close>) and its watchdog (\<^verbatim>\<open>agent/watchdog.go\<close>). The embedded files, the
  template parser, sockets and command lines are parameters.
\<close>

section \<open>The firewall service of the server\<close>

text \<open>\<open>fs.ValidPath\<close> on ASCII names, and reading from an embedded file system.\<close>

definition ValidPath :: "string \<Rightarrow> bool" where
  "ValidPath name \<longleftrightarrow> name = ''.'' \<or> list_all (\<lambda>e. e \<noteq> [] \<and> e \<noteq> ''.'' \<and> e \<noteq> ''..'') (Split name (CHR ''/''))"

definition embed_ReadFile :: "(string \<rightharpoonup> string) \<Rightarrow> string \<Rightarrow> string option" where
  "embed_ReadFile files name = (if ValidPath name then files name else None)"

definition nft_source :: "(string \<rightharpoonup> string) \<Rightarrow> string" where
  "nft_source webFS = (case embed_ReadFile webFS ''../configs/sysconf/nftables.conf.tmpl'' of
       None \<Rightarrow> ''flush ruleset'' @ nl
     | Some t \<Rightarrow> t)"

definition NewFirewallServiceFromFS :: "(string \<Rightarrow> error + nftTemplate) \<Rightarrow> string \<Rightarrow> error + nftTemplate" where
  "NewFirewallServiceFromFS parse content =
     (case parse content of Inl e \<Rightarrow> Inl (''parse nftables template: '' @ e) | Inr t \<Rightarrow> Inr t)"

definition NewFirewallService :: "(string \<Rightarrow> error + nftTemplate) \<Rightarrow> error + nftTemplate" where
  "NewFirewallService parseFiles =
     (case parseFiles ''configs/sysconf/nftables.conf.tmpl'' of Inl e \<Rightarrow> Inl (''parse nftables template: '' @ e) | Inr t \<Rightarrow> Inr t)"

definition server_firewall :: "(string \<Rightarrow> error + nftTemplate) \<Rightarrow> (string \<rightharpoonup> string) \<Rightarrow> error + nftTemplate" where
  "server_firewall parse webFS =
     (case NewFirewallServiceFromFS parse (nft_source webFS) of Inl e \<Rightarrow> Inl (''init firewall service: '' @ e) | Inr t \<Rightarrow> Inr t)"

text \<open>Rendering: to a temporary file, whose content is the result, and to a string.\<close>

definition renderToFile :: "error option \<Rightarrow> error option \<Rightarrow> nftTemplate \<Rightarrow> nftTemplate" where
  "renderToFile createErr closeErr tmpl data =
     (case createErr of
        Some e \<Rightarrow> Inl (''create temp: '' @ e)
      | None \<Rightarrow> (case tmpl data of
          Inl e \<Rightarrow> Inl (''execute template: '' @ e)
        | Inr out \<Rightarrow> (case closeErr of Some e \<Rightarrow> Inl (''close temp: '' @ e) | None \<Rightarrow> Inr out)))"

definition fw_RenderConfig :: "nftTemplate \<Rightarrow> Config \<Rightarrow> error + string" where
  "fw_RenderConfig tmpl c = (case tmpl (buildTemplateData c) of Inl e \<Rightarrow> Inl (''render: '' @ e) | Inr out \<Rightarrow> Inr out)"

definition GetRules :: "sysenv \<Rightarrow> string action" where
  "GetRules env = sys env (CRun ''nft'' [''list'', ''ruleset''])"

text \<open>What \<open>NewServer\<close> passes to \<open>SetOnLeaseChange\<close>.\<close>

definition onLeaseChange :: "'k nftops \<Rightarrow> nftTemplate \<Rightarrow> 'k fwstate \<Rightarrow> error option \<times> 'k fwstate" where
  "onLeaseChange nft tmpl w = (case fw_Apply nft tmpl w of
       (Some e, w1) \<Rightarrow> (Some (''ipv6 lease -> firewall apply: '' @ e), w1)
     | (None, w1) \<Rightarrow> (None, fw_Confirm w1))"

section \<open>Serving\<close>

definition initial_doh :: "dohenv \<Rightarrow> unit action" where
  "initial_doh env w =
     (if dnsEnableDoH (cfgDNS (wcfg w)) then io_ignore (doh_ApplyConfig env) w else io_ignore (doh_RenderToDisk env) w)"

definition listen_addr :: "Config \<Rightarrow> string" where
  "listen_addr c = sysWebBind (cfgSystem c) @ '':'' @ Itoa (sysWebPort (cfgSystem c))"

definition monitored :: "Config \<Rightarrow> string list" where
  "monitored c = map ifDevice (cfgInterfaces c)"

text \<open>
  \<open>Serve\<close> once its goroutines run: the certificate, the two files, the mirrored leases, then the listener,
  whose closing is no error.
\<close>

definition Serve :: "certenv \<Rightarrow> (store \<Rightarrow> error option) \<Rightarrow> (string \<Rightarrow> string \<Rightarrow> error) \<Rightarrow> store \<Rightarrow> error option \<times> store" where
  "Serve env apply_dns listen st =
     (case EnsureTLSCert env (sysTLS (cfgSystem (cfg st))) ''/var/lib/lankeeper'' (disk st) of
        (Inl e, ds) \<Rightarrow> (Some (''ensure TLS cert: '' @ e), st\<lparr>disk := last ds\<rparr>)
      | (Inr info, ds) \<Rightarrow>
          (let st1 = snd (SyncStaticDNSRecords True (ceOS env) apply_dns (st\<lparr>disk := last ds\<rparr>));
               err = case_prod listen (serve_files (sysTLS (cfgSystem (cfg st))))
           in (if err = ''http: Server closed'' then None else Some err, st1)))"

text \<open>One tick of \<open>publishStats\<close>; \<open>ids\<close> is the order in which the clients are walked.\<close>

definition publish_tick :: "(SystemStats \<Rightarrow> string) \<Rightarrow> nat list \<Rightarrow> MonitorService \<Rightarrow> broker \<Rightarrow> broker" where
  "publish_tick json ids m b =
     (if ClientCount b > 0 then Publish_lock (sse_message ''stats'' (json (GetCurrent m))) ids b else b)"

subsection \<open>Background work\<close>

text \<open>The scheduler's goroutine runs at most once; the flag is cleared when it ends.\<close>

definition StartScheduler :: "bool \<Rightarrow> bool \<times> bool" where
  "StartScheduler schedulerRunning = (if schedulerRunning then (False, True) else (True, True))"

definition sched_Snapshot :: "(unit \<Rightarrow> backupSnapshot) option option \<Rightarrow> backupSnapshot" where
  "sched_Snapshot b = (case b of
       Some (Some provider) \<Rightarrow> provider ()
     | _ \<Rightarrow> \<lparr>snEnabled = False, snSchedule = [], snLocation = None, snLastRun = 0\<rparr>)"

text \<open>The sampler of the clients: its interval and rate of rebuilding, its first rebuild, its ticks in order.\<close>

definition sampler_interval :: "duration \<Rightarrow> duration" where
  "sampler_interval interval = (if interval \<le> 0 then 2000000000 else interval)"

definition sampler_resync :: "goint \<Rightarrow> nat" where
  "sampler_resync resyncEvery = (if resyncEvery \<le> 0 then 30 else nat resyncEvery)"

definition sampler_start :: "qosenv \<Rightarrow> (error + Lease list) \<Rightarrow> qosState \<times> world \<Rightarrow> qosState \<times> world" where
  "sampler_start env leases sw = (case leases of Inl e \<Rightarrow> sw | Inr ls \<Rightarrow> snd (RebuildClientCounters env ls sw))"

fun sampler_ticks :: "nat \<Rightarrow> nat \<Rightarrow> (qosenv \<times> (error + Lease list) \<times> gotime) list \<Rightarrow> qosState \<times> world \<Rightarrow> ClientUsage list list \<times> qosState \<times> world" where
  "sampler_ticks n tick [] sw = ([], sw)"
| "sampler_ticks n tick ((env, leases, t) # evs) sw =
     (case sampler_tick env leases n t tick sw of (u, sw1) \<Rightarrow>
        (case sampler_ticks n (tick + 1) evs sw1 of (us, sw2) \<Rightarrow> ((case u of None \<Rightarrow> us | Some x \<Rightarrow> x # us), sw2)))"

text \<open>The substring search of the shaping service, and the counters of the tunnel's device.\<close>

function index_from :: "nat \<Rightarrow> string \<Rightarrow> string \<Rightarrow> goint" where
  "index_from i s sub =
     (if int i \<le> int (length s) - int (length sub)
      then (if take (length sub) (drop i s) = sub then int i else index_from (i + 1) s sub)
      else -1)"
  by pat_completeness auto
termination by (relation "measure (\<lambda>(i, s, _). Suc (length s) - i)") auto

declare index_from.simps [simp del]

definition indexOf :: "string \<Rightarrow> string \<Rightarrow> goint" where
  "indexOf s sub = index_from 0 s sub"

definition qos_contains :: "string \<Rightarrow> string \<Rightarrow> bool" where
  "qos_contains s sub \<longleftrightarrow> length s > 0 \<and> length sub > 0 \<and> indexOf s sub \<ge> 0"

definition readSitCounters :: "(string \<Rightarrow> (nat \<times> nat) list option) \<Rightarrow> string \<Rightarrow> (nat \<times> nat) option" where
  "readSitCounters decode out =
     (if out = [] then None
      else (case decode out of Some (e # _) \<Rightarrow> Some e | _ \<Rightarrow> None))"

section \<open>Commands\<close>

text \<open>The session secret of \<open>runServe\<close>: 32 random bytes in hexadecimal, kept in memory even when the save fails.\<close>

definition set_secret :: "string \<Rightarrow> Config \<Rightarrow> Config" where
  "set_secret secret c = c\<lparr>cfgSystem := (cfgSystem c)\<lparr>sysSessionSecret := secret\<rparr>\<rparr>"

definition ensure_secret :: "osenv \<Rightarrow> string \<Rightarrow> store \<Rightarrow> store" where
  "ensure_secret env rnd st =
     (if sysSessionSecret (cfgSystem (cfg st)) = []
      then snd (SaveToFile env (st\<lparr>cfg := set_secret (hex_Encode rnd) (cfg st)\<rparr>))
      else st)"

definition runGenCert :: "certenv \<Rightarrow> string \<Rightarrow> string \<Rightarrow> disk \<Rightarrow> (error + string \<times> string) \<times> disk" where
  "runGenCert env configPath dataDir d =
     (case Load (ceOS env) configPath d of
        Inl e \<Rightarrow> (Inl (''failed to load config: '' @ e), d)
      | Inr c \<Rightarrow> (case EnsureTLSCert env (sysTLS (cfgSystem c)) dataDir d of
          (Inl e, ds) \<Rightarrow> (Inl (''failed to generate TLS certificate: '' @ e), last ds)
        | (Inr info, ds) \<Rightarrow> (Inr (ciCertPath info, ciKeyPath info), last ds)))"

record renderers =
  rdDNS :: dnsenv
  rdDoH :: dohenv
  rdNTP :: ntpenv
  rdSyslog :: syslogenv
  rdNAS :: nasenv
  rdIPv6 :: ip6env
  rdVPN :: vpnenv

definition discard :: "'a action \<Rightarrow> unit action" where
  "discard m = io_bind m (\<lambda>_. io_return ())"

definition render_steps :: "renderers \<Rightarrow> (string \<times> unit action) list" where
  "render_steps r =
     [(''dns/unbound'', dns_RenderToDisk (rdDNS r)), (''dns/dnscrypt-proxy'', discard (doh_RenderToDisk (rdDoH r))),
      (''dhcp/dnsmasq'', dhcp_RenderToDisk (rdDNS r)), (''ntp/chrony'', ntp_RenderToDisk (rdNTP r)),
      (''syslog/rsyslog'', syslog_RenderToDisk (rdSyslog r)), (''nas/samba'', discard (nas_RenderToDisk (rdNAS r))),
      (''ipv6/dhcp6c'', RenderToDisk (rdIPv6 r)), (''vpn/wireguard-server'', RenderServerConfig (rdVPN r)),
      (''vpn/wireguard-clients'', RenderAllClientConfigs (rdVPN r))]"

fun render_each :: "(string \<times> unit action) list \<Rightarrow> nat \<Rightarrow> world \<Rightarrow> nat \<times> world" where
  "render_each [] n w = (n, w)"
| "render_each ((name, fn) # steps) n w = (case fn w of
       (Inl e, w') \<Rightarrow> render_each steps (n + 1) w'
     | (Inr _, w') \<Rightarrow> render_each steps n w')"

definition runRenderConfigs :: "renderers \<Rightarrow> unit action" where
  "runRenderConfigs r w = (case render_each (render_steps r) 0 w of
       (n, w') \<Rightarrow>
         (if n > 0 then Inl (nat_digits n @ '' render step(s) failed'') else Inr (), w'))"

text \<open>Standard input: whether it is a terminal, and its first line or the error of reading it.\<close>

definition trim_eol :: "string \<Rightarrow> string" where
  "trim_eol s = rev (dropWhile (\<lambda>c. c = CHR 0x0D \<or> c = CHR 0x0A) (rev s))"

definition readPasswordFromStdin :: "error + bool \<Rightarrow> error + string \<Rightarrow> error + string" where
  "readPasswordFromStdin stat line =
     (case stat of
        Inl e \<Rightarrow> Inl (''stat stdin: '' @ e)
      | Inr terminal \<Rightarrow>
          if terminal then Inl (''stdin is a terminal; pipe the password instead, e.g. printf '' @ quoted ''%s'' @ '' '' @
            quote_q ''$password'' @ '' | lankeeper hash-password'')
          else (case line of Inl e \<Rightarrow> Inl (''read stdin: '' @ e) | Inr l \<Rightarrow> Inr (trim_eol l)))"

text \<open>The exit status of \<open>main\<close> and what \<open>hash-password\<close> prints.\<close>

record mainenv =
  meServe :: "error option"
  meAgent :: "error option"
  meGenCert :: "error option"
  meRender :: "error option"
  meStdin :: "error + bool"
  meLine :: "error + string"
  meBcrypt :: "string \<Rightarrow> error + string"

definition exit_of :: "error option \<Rightarrow> nat" where
  "exit_of r = (if r = None then 0 else 1)"

definition hash_password :: "mainenv \<Rightarrow> string list \<Rightarrow> nat \<times> string" where
  "hash_password env args =
     (if length args > 2 then (2, [])
      else (case readPasswordFromStdin (meStdin env) (meLine env) of
          Inl e \<Rightarrow> (1, [])
        | Inr password \<Rightarrow>
            if password = [] then (1, [])
            else (case meBcrypt env password of Inl e \<Rightarrow> (1, []) | Inr hash \<Rightarrow> (0, hash))))"

definition main :: "mainenv \<Rightarrow> string list \<Rightarrow> nat" where
  "main env args =
     (if length args < 2 then 1
      else (let command = args ! 1 in
        if command = ''serve'' then exit_of (meServe env)
        else if command = ''agent'' then exit_of (meAgent env)
        else if command = ''hash-password'' then fst (hash_password env args)
        else if command = ''gen-cert'' then exit_of (meGenCert env)
        else if command = ''render-configs'' then exit_of (meRender env)
        else if command = ''version'' then 0
        else if command \<in> {''help'', ''-h'', ''--help''} then 0
        else 1))"

section \<open>The agent's listener\<close>

definition runAgent :: "error + string \<Rightarrow> (unit \<Rightarrow> error option) \<Rightarrow> error option" where
  "runAgent uid serve =
     (case uid of
        Inl e \<Rightarrow> Some (''failed to get current user: '' @ e)
      | Inr u \<Rightarrow> if u \<noteq> ''0'' then Some (''agent must run as root (current uid='' @ u @ '')'') else serve ())"

text \<open>
  The accept loop: connections are handed to goroutines; an error of \<open>Accept\<close> ends it only when the
  context is done.
\<close>

datatype accepted = Conn nat | AcceptError bool

fun accept_loop :: "accepted list \<Rightarrow> nat list \<times> bool" where
  "accept_loop [] = ([], False)"
| "accept_loop (Conn c # evs) = (case accept_loop evs of (cs, ended) \<Rightarrow> (c # cs, ended))"
| "accept_loop (AcceptError ctxDone # evs) = (if ctxDone then ([], True) else accept_loop evs)"

definition agent_Serve :: "error option \<Rightarrow> error option \<Rightarrow> error option \<Rightarrow> accepted list \<Rightarrow> error + nat list \<times> bool" where
  "agent_Serve mkdirErr listenErr chmodErr evs =
     (case mkdirErr of
        Some e \<Rightarrow> Inl (''create socket dir: '' @ e)
      | None \<Rightarrow> (case listenErr of
          Some e \<Rightarrow> Inl (''listen unix: '' @ e)
        | None \<Rightarrow> (case chmodErr of Some e \<Rightarrow> Inl (''chmod socket: '' @ e) | None \<Rightarrow> Inr (accept_loop evs))))"

subsection \<open>The watchdog\<close>

record Watchdog =
  wdService :: string
  wdTimer :: "gotime option"
  wdHasExpire :: bool
  wdRan :: nat

definition NewWatchdog :: "string \<Rightarrow> gotime \<Rightarrow> duration \<Rightarrow> bool \<Rightarrow> Watchdog" where
  "NewWatchdog service start timeout hasExpire =
     \<lparr>wdService = service, wdTimer = Some (start + timeout), wdHasExpire = hasExpire, wdRan = 0\<rparr>"

definition wd_Confirm :: "Watchdog \<Rightarrow> Watchdog" where
  "wd_Confirm w = w\<lparr>wdTimer := None\<rparr>"

definition wd_Cancel :: "Watchdog \<Rightarrow> Watchdog" where
  "wd_Cancel w = w\<lparr>wdTimer := None\<rparr>"

definition wd_clock :: "gotime \<Rightarrow> Watchdog \<Rightarrow> Watchdog" where
  "wd_clock t w = (case wdTimer w of
       Some d \<Rightarrow> if d \<le> t then w\<lparr>wdTimer := None, wdRan := wdRan w + (if wdHasExpire w then 1 else 0)\<rparr> else w
     | None \<Rightarrow> w)"

datatype wd_event = WdConfirm | WdCancel | WdClock gotime

fun wd_step :: "wd_event \<Rightarrow> Watchdog \<Rightarrow> Watchdog" where
  "wd_step WdConfirm w = wd_Confirm w"
| "wd_step WdCancel w = wd_Cancel w"
| "wd_step (WdClock t) w = wd_clock t w"

section \<open>First boot\<close>

definition firstBootFlag :: string where "firstBootFlag = ''/var/lib/lankeeper/.first-boot''"
definition firstBootBridge :: string where "firstBootBridge = ''br0''"
definition firstBootCIDR :: string where "firstBootCIDR = ''10.10.10.1/24''"

definition IsFirstBoot :: "(string \<Rightarrow> error option) \<Rightarrow> bool" where
  "IsFirstBoot stat \<longleftrightarrow> stat firstBootFlag = None"

definition CompleteFirstBoot :: "sysenv \<Rightarrow> string action" where
  "CompleteFirstBoot env = sys env (COsRemove firstBootFlag)"

definition physical_nics :: "InterfaceInfo list \<Rightarrow> string list" where
  "physical_nics is = map iiName (filter (\<lambda>i. \<not> (iiIsVirtual i \<or> iiName i = ''lo'')) is)"

definition enslave :: "sysenv \<Rightarrow> string \<Rightarrow> unit action" where
  "enslave env nic =
     io_then (io_ignore (sys env (CRun ''ip'' [''addr'', ''flush'', ''dev'', nic])))
      (io_then (io_ignore (sys env (CRun ''ip'' [''link'', ''set'', nic, ''up''])))
        (io_ignore (sys env (CRun ''ip'' [''link'', ''set'', nic, ''master'', firstBootBridge]))))"

definition SetupFirstBootNetworking :: "ifenv \<Rightarrow> sysenv \<Rightarrow> string list action" where
  "SetupFirstBootNetworking ie env =
     (case DetectInterfaces ie of
        Inl e \<Rightarrow> io_fail (''detect interfaces: '' @ e)
      | Inr is \<Rightarrow>
          if physical_nics is = [] then io_fail ''no physical NICs found''
          else io_then (io_ignore (sys env (CRun ''ip'' [''link'', ''add'', firstBootBridge, ''type'', ''bridge''])))
            (io_then (io_ignore (sys env (CRun ''ip'' [''link'', ''set'', firstBootBridge, ''up''])))
              (io_then (io_each (enslave env) (physical_nics is))
                (io_then (io_wrap ''assign bridge IP: '' (sys env (CRun ''ip'' [''addr'', ''add'', firstBootCIDR, ''dev'', firstBootBridge])))
                  (io_return (physical_nics is))))))"

definition TeardownFirstBootBridge :: "sysenv \<Rightarrow> string list \<Rightarrow> unit action" where
  "TeardownFirstBootBridge env devs = io_each (\<lambda>d. io_ignore (sys env (CRun ''ip'' [''link'', ''set'', d, ''nomaster'']))) devs"

definition RemoveFirstBootBridge :: "sysenv \<Rightarrow> unit action" where
  "RemoveFirstBootBridge env =
     io_then (io_ignore (sys env (CRun ''ip'' [''link'', ''set'', firstBootBridge, ''down''])))
             (io_ignore (sys env (CRun ''ip'' [''link'', ''del'', firstBootBridge])))"

section \<open>What the firewall of the server loads\<close>

text \<open>The template lies outside the embedded tree under a name no embedded file can have.\<close>

lemma nft_source_flushes: "nft_source webFS = ''flush ruleset'' @ nl"
  by (simp add: nft_source_def embed_ReadFile_def ValidPath_def)

text \<open>\<open>text/template\<close> copies text outside of actions.\<close>

definition copies_text :: "(string \<Rightarrow> error + nftTemplate) \<Rightarrow> bool" where
  "copies_text parse \<longleftrightarrow> (\<forall>s. \<not> Contains s ''{{'' \<longrightarrow> parse s = Inr (\<lambda>_. Inr s))"

lemma server_firewall_template: "copies_text parse \<Longrightarrow> server_firewall parse webFS = Inr (\<lambda>_. Inr (''flush ruleset'' @ nl))"
  by (simp add: server_firewall_def NewFirewallServiceFromFS_def nft_source_flushes copies_text_def nl_def Contains_def HasPrefix_def)

lemma fw_Apply_loads:
  assumes "fw_Apply nft tmpl w = (None, w1)" "tmpl (buildTemplateData (fwcfg w)) = Inr out"
  shows "nftLoad nft (kernel w) out = Inr (kernel w1)"
  using assms
  by (auto simp: fw_Apply_def Let_def ac_Apply_def ac_Snapshot_def NewAtomicChange_def split: sum.splits option.splits prod.splits if_splits)

text \<open>
  C7. The server's firewall empties the router's ruleset. Whatever files are embedded and whatever is
  configured, the service \<open>NewServer\<close> builds renders the one line \<open>flush ruleset\<close>: every application that
  succeeds has the kernel load exactly that line, and the one a change of the IPv6 lease triggers is
  confirmed at once, so that no watchdog is left to restore the rules.
\<close>

theorem server_firewall_flushes:
  assumes "copies_text parse"
  shows "\<exists>tmpl. server_firewall parse webFS = Inr tmpl \<and>
     (\<forall>nft w w'. fw_Apply nft (renderToFile None None tmpl) w = (None, w') \<longrightarrow>
        nftLoad nft (kernel w) (''flush ruleset'' @ nl) = Inr (kernel w')) \<and>
     (\<forall>nft w w'. onLeaseChange nft (renderToFile None None tmpl) w = (None, w') \<longrightarrow>
        nftLoad nft (kernel w) (''flush ruleset'' @ nl) = Inr (kernel w') \<and> change w' = None \<and> armed w' (next_id w) = None)"
proof (intro exI conjI allI impI)
  let ?tmpl = "\<lambda>_ :: nftTemplateData. Inr (''flush ruleset'' @ nl) :: error + string"
  show "server_firewall parse webFS = Inr ?tmpl" by (rule server_firewall_template [OF assms])
  have r: "renderToFile None None ?tmpl d = Inr (''flush ruleset'' @ nl)" for d by (simp add: renderToFile_def)
  fix nft w w'
  show "nftLoad nft (kernel w) (''flush ruleset'' @ nl) = Inr (kernel w')" if "fw_Apply nft (renderToFile None None ?tmpl) w = (None, w')"
    by (rule fw_Apply_loads [OF that r])
  assume l: "onLeaseChange nft (renderToFile None None ?tmpl) w = (None, w')"
  then obtain w1 where a: "fw_Apply nft (renderToFile None None ?tmpl) w = (None, w1)" and w': "w' = fw_Confirm w1"
    by (auto simp: onLeaseChange_def split: prod.splits option.splits)
  have c: "change w1 = Some (next_id w)" using fw_Apply_ok [OF a] by metis
  show "nftLoad nft (kernel w) (''flush ruleset'' @ nl) = Inr (kernel w')" using fw_Apply_loads [OF a r] w' c by (simp add: fw_Confirm_def)
  show "change w' = None" "armed w' (next_id w) = None" using w' c by (simp_all add: fw_Confirm_def)
qed

definition plain_parse :: "string \<Rightarrow> error + nftTemplate" where
  "plain_parse s = (if Contains s ''{{'' then Inl ''unsupported action'' else Inr (\<lambda>_. Inr s))"

theorem server_firewall_flushes_witness:
  "\<exists>tmpl. server_firewall plain_parse Map.empty = Inr tmpl \<and>
     (\<forall>nft w w'. fw_Apply nft (renderToFile None None tmpl) w = (None, w') \<longrightarrow>
        nftLoad nft (kernel w) (''flush ruleset'' @ nl) = Inr (kernel (w' :: string fwstate)))"
  using server_firewall_flushes [of plain_parse Map.empty] by (auto simp: copies_text_def plain_parse_def)

section \<open>Commands and timers\<close>

text \<open>Every renderer runs, in order, whatever the others answer; the command succeeds exactly when all of them do.\<close>

primrec failed_steps :: "(string \<times> unit action) list \<Rightarrow> world \<Rightarrow> string list" where
  "failed_steps [] w = []"
| "failed_steps (s # ss) w = (if isl (fst (snd s w)) then [fst s] else []) @ failed_steps ss (snd (snd s w))"

lemma render_each_result:
  "render_each steps n w = (n + length (failed_steps steps w), snd (io_each (\<lambda>s. io_ignore (snd s)) steps w))"
proof (induction steps arbitrary: n w)
  case (Cons s steps)
  obtain name fn where s: "s = (name, fn)" by fastforce
  obtain r w' where f: "fn w = (r, w')" by fastforce
  show ?case by (cases r) (simp_all add: s f Cons.IH io_then_def io_bind_def io_ignore_def)
qed (simp add: io_return_def)

theorem render_configs_runs_all:
  "runRenderConfigs r w =
     ((if failed_steps (render_steps r) w = [] then Inr ()
       else Inl (nat_digits (length (failed_steps (render_steps r) w)) @ '' render step(s) failed'')),
      snd (io_each (\<lambda>s. io_ignore (snd s)) (render_steps r) w))"
  by (simp add: runRenderConfigs_def render_each_result)

text \<open>The hand-written search is the library's.\<close>

lemma Index_short: "length t < length sub \<Longrightarrow> Index t sub = None"
  by (induction t) (auto simp: HasPrefix_def dest: arg_cong [where f = length])

lemma index_from_Index: "sub \<noteq> [] \<Longrightarrow> index_from i s sub = (case Index (drop i s) sub of Some k \<Rightarrow> int (i + k) | None \<Rightarrow> -1)"
proof (induction i s sub rule: index_from.induct)
  case (1 i s sub)
  show ?case
  proof (cases "int i \<le> int (length s) - int (length sub)")
    case True
    then have "i < length s" using "1.prems" by (cases sub) auto
    then have d: "drop i s = s ! i # drop (i + 1) s" by (simp add: Cons_nth_drop_Suc)
    show ?thesis
    proof (cases "take (length sub) (drop i s) = sub")
      case hit: True
      then have "Index (drop i s) sub = Some 0" by (simp add: d HasPrefix_def)
      then show ?thesis using True hit by (subst index_from.simps) simp
    next
      case miss: False
      then have "Index (drop i s) sub = map_option Suc (Index (drop (i + 1) s) sub)" by (simp add: d HasPrefix_def)
      then show ?thesis using "1.IH" [OF True miss "1.prems"] True miss by (subst index_from.simps) (simp split: option.splits)
    qed
  next
    case False
    moreover have "0 < length sub" using "1.prems" by simp
    ultimately have "length (drop i s) < length sub" unfolding length_drop by linarith
    then show ?thesis using False Index_short by (subst index_from.simps) simp
  qed
qed

lemma qos_contains_is_Contains: "qos_contains s sub \<longleftrightarrow> sub \<noteq> [] \<and> Contains s sub"
proof (cases "sub = []")
  case False
  then have "indexOf s sub \<ge> 0 \<longleftrightarrow> Contains s sub"
    using index_from_Index [of sub 0 s] by (auto simp: indexOf_def Contains_def split: option.splits)
  moreover have "Contains s sub \<Longrightarrow> s \<noteq> []" using False by (auto simp: Contains_def)
  ultimately show ?thesis using False by (auto simp: qos_contains_def)
qed (simp add: qos_contains_def)

text \<open>A secret is made once: it has 64 digits and later starts keep it.\<close>

lemma length_hex_Encode: "length (hex_Encode s) = 2 * length s"
  by (induction s) (simp_all add: hex_Encode_def hex_byte_def)

theorem session_secret_kept:
  assumes "length rnd = 32" "sysSessionSecret (cfgSystem (cfg st)) = []"
  shows "length (sysSessionSecret (cfgSystem (cfg (ensure_secret env rnd st)))) = 64 \<and>
     ensure_secret env' rnd' (ensure_secret env rnd st) = ensure_secret env rnd st"
proof -
  have "sysSessionSecret (cfgSystem (cfg (ensure_secret env rnd st))) = hex_Encode rnd"
    using assms(2) by (simp add: ensure_secret_def SaveToFile_cfg set_secret_def)
  moreover from this have "sysSessionSecret (cfgSystem (cfg (ensure_secret env rnd st))) \<noteq> []"
    using assms(1) length_hex_Encode [of rnd] by auto
  ultimately show ?thesis using assms(1) by (simp add: length_hex_Encode ensure_secret_def [of env' rnd'])
qed

text \<open>
  The watchdog runs its callback exactly when the clock passes the deadline before it is confirmed or
  cancelled, and at most once.
\<close>

fun expires_first :: "gotime \<Rightarrow> wd_event list \<Rightarrow> bool" where
  "expires_first d [] = False"
| "expires_first d (WdClock t # evs) = (d \<le> t \<or> expires_first d evs)"
| "expires_first d (_ # evs) = False"

lemma wd_step_stopped: "wdTimer w = None \<Longrightarrow> wd_step e w = w"
  by (cases e; cases w) (simp_all add: wd_Confirm_def wd_Cancel_def wd_clock_def)

lemma wd_stopped: "wdTimer w = None \<Longrightarrow> fold wd_step evs w = w"
  by (induction evs) (simp_all add: wd_step_stopped)

lemma wd_pending:
  "wdTimer w = Some d \<Longrightarrow> wdRan (fold wd_step evs w) = wdRan w + (if wdHasExpire w \<and> expires_first d evs then 1 else 0)"
  by (induction d evs rule: expires_first.induct) (auto simp: wd_Confirm_def wd_Cancel_def wd_clock_def wd_stopped)

theorem watchdog_runs_once:
  "wdRan (fold wd_step evs (NewWatchdog service start timeout h)) = (if h \<and> expires_first (start + timeout) evs then 1 else 0)"
  using wd_pending [of "NewWatchdog service start timeout h" "start + timeout" evs] by (simp add: NewWatchdog_def)

text \<open>First boot: every physical interface is put into the bridge, whatever single commands answer.\<close>

definition enslave_calls :: "string \<Rightarrow> syscall list" where
  "enslave_calls nic = [CRun ''ip'' [''addr'', ''flush'', ''dev'', nic], CRun ''ip'' [''link'', ''set'', nic, ''up''],
     CRun ''ip'' [''link'', ''set'', nic, ''master'', firstBootBridge]]"

lemma enslave_runs: "enslave env nic w = (Inr (), w\<lparr>wTrace := wTrace w @ enslave_calls nic\<rparr>)"
  by (simp add: enslave_def enslave_calls_def io_simps)

lemma enslave_each: "io_each (enslave env) nics w = (Inr (), w\<lparr>wTrace := wTrace w @ concat (map enslave_calls nics)\<rparr>)"
  by (induction nics arbitrary: w) (simp_all add: io_simps enslave_runs)

theorem first_boot_bridges_all:
  assumes "DetectInterfaces ie = Inr is" "physical_nics is \<noteq> []"
  shows "wTrace (snd (SetupFirstBootNetworking ie env w)) = wTrace w @
      [CRun ''ip'' [''link'', ''add'', firstBootBridge, ''type'', ''bridge''], CRun ''ip'' [''link'', ''set'', firstBootBridge, ''up'']] @
      concat (map enslave_calls (physical_nics is)) @ [CRun ''ip'' [''addr'', ''add'', firstBootCIDR, ''dev'', firstBootBridge]]"
  using assms by (simp add: SetupFirstBootNetworking_def io_then_def io_bind_def io_ignore_def io_wrap_def io_return_def sys_def
      enslave_each split: sum.splits)

end
