(* ===== verification/Spec2Isabelle.thy ===== *)
theory Spec2Isabelle
  imports HandlersOpenVPN NAS Storage NTP Syslog DoH QoS PPPoE Update SSE WebServer WebProcess Routing SiteToSite NetUtil Firewall HealthCheck Backup DHCP HandlersFirewall HandlersVPN HandlersSystem HandlersDNS HandlersBackup HandlersNetwork HandlersIPv6 Metrics Certificates Presentation Startup
begin

text \<open>
  A verification library for LANKeeper, a home router written in Go.

  The program has two processes. The \<^emph>\<open>web\<close> process holds one configuration tree
  (\<^verbatim>\<open>internal/config\<close>), serves the user interface (\<^verbatim>\<open>internal/web\<close>) and contains one service per
  subsystem (\<^verbatim>\<open>internal/services\<close>): a service edits its part of the tree, saves the whole tree
  to disk, renders the configuration file of a system program and reloads it. It does nothing with
  privileges itself: it sends requests over a socket to the \<^emph>\<open>agent\<close> process
  (\<^verbatim>\<open>internal/agent\<close>), which runs as root and checks every command and path against a
  whitelist. The helpers of \<^verbatim>\<open>internal/netutil\<close> send these requests and guard rule-set changes
  by a snapshot and a watchdog.

  \<^bold>\<open>The theories.\<close>
  \<^item> \<open>Prelude\<close>: Go's integers with their wrap-around, \<open>strings\<close> and \<open>strconv\<close>, results
    (\<open>error + 'a\<close>, and \<open>outcome\<close> where a panic is possible), bounded logs as a locale, and the
    specification of a sort routine.
  \<^item> \<open>GoPath\<close>, \<open>LinkTree\<close>: \<open>path/filepath\<close> on Unix paths; trees with symbolic links, the kernel's walk through
    them and \<open>EvalSymlinks\<close>.
  \<^item> \<open>ConfigTypes\<close>, \<open>ConfigStore\<close>: \<^verbatim>\<open>internal/config\<close>. Every struct is a record; loading,
    migration, defaults, validation and the atomic save are functions on an explicit disk. The locale
    \<open>config_mutation\<close> is what every service relies on: an edit followed by a save changes the tree
    and the file together or reports an error.
  \<^item> \<open>ConfigWords\<close>: fields as words of configuration files, the lemmas that show a checked field adds no
    line or directive to a rendered file.
  \<^item> \<open>GoNet\<close>, \<open>AddrBytes\<close>, \<open>NetUtil\<close>: package \<open>net\<close> (addresses, blocks, their text) and the validators of
    \<^verbatim>\<open>internal/netutil/validate.go\<close>, \<^verbatim>\<open>interface.go\<close>. \<open>Base64\<close>, \<open>GoURL\<close>: the coding and the URL parser
    that tokens, stamps and S3 requests use.
  \<^item> \<open>Agent\<close>: \<^verbatim>\<open>internal/agent/operations.go\<close>, \<^verbatim>\<open>server.go\<close>. Whitelists, path rules with
    symbolic links, the operations and the dispatcher; effects are returned as a list. \<open>AgentClient\<close>:
    \<^verbatim>\<open>agent/client.go\<close> and \<^verbatim>\<open>netutil/exec.go\<close>, calls over a connection that may fail at any point.
  \<^item> \<open>Effects\<close>, \<open>Files\<close>: the world of the services (the store and the trace of system calls), actions with
    their footprints, and a Hoare calculus for files written through the trace.
  \<^item> \<open>AtomicChange\<close>, \<open>Firewall\<close>: \<^verbatim>\<open>internal/netutil/atomic.go\<close>,
    \<^verbatim>\<open>internal/services/firewall.go\<close>. Changes and watchdogs are objects of a transition system
    with an explicit clock.
  \<^item> \<open>HealthCheck\<close>: \<^verbatim>\<open>internal/services/healthcheck.go\<close>, ticks, actions and cooldown goroutines
    as a step relation.
  \<^item> \<open>BackupSchedule\<close>, \<open>Backup\<close>, \<open>BackupRemote\<close>: the cron dialect on 64-bit words with Go's calendar, export,
    import, encryption, local targets, retention and one run over all targets, and the S3 and SFTP targets
    with Signature Version 4.
  \<^item> \<open>DNS\<close>, \<open>DHCP\<close>, \<open>DNSRun\<close>, \<open>DoH\<close>: static records and leases, the mirror between them, DNS-over-TLS
    settings, blocklist, query log and lease file, the rendered files of both daemons, and DNS over HTTPS with
    its stamps.
  \<^item> \<open>IPv6\<close>, \<open>PPPoE\<close>: prefix delegation with its lease watcher, PPPoE, the 6in4 tunnel and the callbacks
    between them. \<open>WebProcess\<close> composes \<open>IPv6\<close> with the agent's whitelist. \<open>Network\<close>: interfaces, MAC
    addresses, VLANs and USB tethering over a model of the kernel's links.
  \<^item> \<open>Routing\<close>, \<open>QoS\<close>, \<open>VPN\<close>, \<open>SiteToSite\<close>, \<open>OpenVPN\<close>, \<open>NAS\<close>, \<open>Storage\<close>, \<open>NTP\<close>, \<open>Syslog\<close>, \<open>Update\<close>: the
    service of that name in \<^verbatim>\<open>internal/services\<close> (\<open>SiteToSite\<close> is \<^verbatim>\<open>vpn_s2s.go\<close>, \<open>QoS\<close> includes
    \<^verbatim>\<open>qos_clients.go\<close>, \<open>NTP\<close> and \<open>Syslog\<close> include their handlers).
  \<^item> \<open>Monitor\<close>, \<open>Exposition\<close>, \<open>Metrics\<close>: \<^verbatim>\<open>monitor.go\<close>, \<^verbatim>\<open>metrics_exposition.go\<close>, \<^verbatim>\<open>metrics.go\<close> with the
    collectors, and the pages that show them.
  \<^item> \<open>RateLimit\<close>, \<open>WebServer\<close>, \<open>SSE\<close>: \<^verbatim>\<open>internal/web\<close>. Token buckets, the middleware chain with sessions and
    cross-site protection, the route table and login, and the event broker as interleaved steps.
  \<^item> \<open>Handlers\<close>, \<open>HandlerSteps\<close>: what the handlers share, answers and steps that keep an invariant of the
    configuration. \<open>HandlersFirewall\<close>, \<open>HandlersVPN\<close>, \<open>HandlersOpenVPN\<close>, \<open>HandlersSystem\<close>, \<open>HandlersDNS\<close>,
    \<open>HandlersBackup\<close> (with NAS), \<open>HandlersNetwork\<close> (VLAN, QoS, PPPoE, routing, network, health checks),
    \<open>HandlersIPv6\<close>: the files of \<^verbatim>\<open>internal/web/handlers\<close>, every handler with all its branches.
  \<^item> \<open>Certificates\<close>, \<open>Presentation\<close>, \<open>Startup\<close>: \<^verbatim>\<open>config/crypto.go\<close> and \<^verbatim>\<open>tls.go\<close>; \<^verbatim>\<open>internal/i18n\<close> and
    \<^verbatim>\<open>tmpl/funcs.go\<close>; what \<open>NewServer\<close> and \<open>Serve\<close> set in motion, the commands of \<^verbatim>\<open>cmd/lankeeper\<close>, the first-boot
    bridge, the agent's listener and watchdog.

  \<^bold>\<open>State and effects.\<close> A service method becomes a function from the state (the configuration
  store, a disk, a kernel rule set, a clock, the trace of calls) to a result and the new state. What a
  system call answers may depend on all calls before it. Commands, downloads, ciphers, YAML, templates and
  the order of map iteration are parameters of the definitions that use them; a property that relies on
  their documented behaviour has it as a hypothesis and a witness that instantiates it. A handler is a
  function of the request, the response so far and the state of its services. Goroutines are events of a
  step relation or functions of one tick; a mutex is the order of the steps. A few steps are coarser than the
  code: the flush and the load of a firewall roll-back (the code holds the lock of the change, not that of
  the service), a health check with its probe and actions (no lock is held during them), the dispatch of a
  lease with its callback (timers may overlap), and a request to a handler (handlers take no lock of their own).

  \<^bold>\<open>What is shown.\<close>
  \<^item> Files: at every crash point a configuration, backup or certificate file is the old or the new one; what
    was saved is loaded again.
  \<^item> Privilege: the agent runs only listed commands; what it writes or reads lies, by the kernel's walk, in an
    allowed place, unless the path ends in a link to nowhere, has \<open>..\<close> behind a link or lacks directories
    (\<open>links_lead_out\<close>); an imported archive stays in its directory; the guarded handlers run only for a session
    of the administrator.
  \<^item> Rendering: what the NTP, DNS and OpenVPN forms and the port forwards accept is read back from the rendered
    files as the intended words or names; a DoH stamp brings no quotation mark, but may bring a line end
    (\<open>broken_stamp_accepted\<close>); the paths and ports of the syslog forms are checked, the remote host is not
    (\<open>remote_host_injects\<close>); the exposition of the metrics reads back.
  \<^item> Change over time: an unconfirmed firewall change is undone if there were rules before it, an unconfirmed
    update is undone, actions of health checks are a cooldown apart, lease changes reach the callback once
    each, retention keeps the newest backups, the monitor keeps the last minute, the rate limiter admits no
    more than its budget, a publisher never waits for a reader.
  \<^item> Concurrency where it matters: invitations choose their address before they take the lock, so that names
    stay distinct in every interleaving and addresses only when invitations do not overlap
    (\<open>concurrent_invites_share_address\<close>).
  \<^item> Behaviour the code does not mean to have is stated as it is: the server's firewall template empties the
    rule set (\<open>server_firewall_flushes\<close>), the shaping form never shapes (\<open>qos_form_never_shapes\<close>), the web
    process cannot apply IPv6 settings through the agent (\<open>ipv6_apply_refused_by_agent\<close>), policy routing and its
    kill switch are never installed (\<open>policy_routing_never_installed\<close>), listings of an S3 bucket and objects with
    some bytes in their keys are signed wrongly (\<open>s3_signatures\<close>).

  \<^bold>\<open>Bounds and loops.\<close> Loops over data are structural recursion. \<open>Next\<close> searches four
  years of minutes, as the code does. The removal loop of the DHCP mirror is total because each turn
  shortens the record table. Go's \<open>int\<close> is an integer with its wrap-around written out where a value can
  reach it, \<open>uint64\<close> counters are words or naturals below \<open>2 ^ 64\<close>. A \<open>float64\<close> is a rational that is
  rounded through a parameter; bounds hold for every rounding with the stated accuracy.

  \<^bold>\<open>Not modelled.\<close> HTML templates, styles and scripts; the installer and the units; the assignments
  that wire services to handlers; constructors that only store their arguments; \<open>Stop\<close> of the health checks
  and the ticker of the playlist syncs, which nothing calls; the reading of command-line flags; the
  transport below one HTTP request or one line of the agent's socket.
\<close>

end
